(* ===== verification/Prelude.thy ===== *)
theory Prelude
  imports Main "HOL-Library.Word" "HOL-Library.AList" "HOL-Library.Multiset"
begin

unbundle bit_operations_syntax

text \<open>
  Shared vocabulary of the development: the machine integer types, the association lists that
  stand for the code's \<open>std::unordered_map\<close>s, IEEE single precision equality on bit
  patterns, the conversion to a signed 32-bit integer, and the interface of a component that is
  driven by a sequence of operations (\<open>op_machine\<close>, and \<open>reporting_machine\<close> where a result
  says whether anything changed), in which invariants and absorbing states
  are lifted from one operation to a whole run once and for all.
\<close>

named_theorems al_simps \<open>lookups in the association lists that model the hash maps\<close>

declare Let_def [simp]

section \<open>Machine integers\<close>

type_synonym u8 = "8 word"
type_synonym u16 = "16 word"
type_synonym u32 = "32 word"
type_synonym u64 = "64 word"

abbreviation int32_max :: int where "int32_max \<equiv> 2147483647"
abbreviation int32_min :: int where "int32_min \<equiv> - 2147483648"

definition to_i32 :: "int \<Rightarrow> int" where
  "to_i32 n = (n + 2147483648) mod 4294967296 - 2147483648"

lemma to_i32_id: "int32_min \<le> n \<Longrightarrow> n \<le> int32_max \<Longrightarrow> to_i32 n = n"
  by (simp add: to_i32_def)

lemma to_i32_range: "int32_min \<le> to_i32 n \<and> to_i32 n \<le> int32_max"
  using pos_mod_bound [of 4294967296 "n + 2147483648"]
    pos_mod_sign [of 4294967296 "n + 2147483648"]
  unfolding to_i32_def by linarith

lemma word_le_plus_one: "(x :: 'a :: len word) \<noteq> - 1 \<Longrightarrow> x \<le> x + 1"
proof -
  assume "x \<noteq> - 1"
  then have "\<not> x + 1 \<le> x" by (simp add: inc_less_eq_self_iff_eq)
  then show ?thesis by simp
qed

lemma uint_ucast_u64 [simp]: "uint (ucast (x :: u32) :: u64) = uint x"
  by (simp add: uint_up_ucast is_up)

section \<open>IEEE 754 single precision, as bit patterns\<close>

type_synonym f32 = "32 word"

definition f32_is_nan :: "f32 \<Rightarrow> bool" where
  "f32_is_nan x \<longleftrightarrow> (x AND 0x7FFFFFFF) > 0x7F800000"

definition f32_is_zero :: "f32 \<Rightarrow> bool" where
  "f32_is_zero x \<longleftrightarrow> x AND 0x7FFFFFFF = 0"

definition f32_eq :: "f32 \<Rightarrow> f32 \<Rightarrow> bool" where
  "f32_eq x y \<longleftrightarrow>
     \<not> f32_is_nan x \<and> \<not> f32_is_nan y \<and> (x = y \<or> f32_is_zero x \<and> f32_is_zero y)"

lemma f32_eq_sym: "f32_eq x y \<longleftrightarrow> f32_eq y x"
  by (auto simp: f32_eq_def)

lemma f32_eq_zero_refl: "f32_eq x 0 \<Longrightarrow> f32_eq x x"
  by (auto simp: f32_eq_def)

section \<open>Hash maps as association lists\<close>

text \<open>
  \<open>find\<close> is \<open>map_of\<close>, \<open>insert_or_assign\<close> is \<open>AList.update\<close> and \<open>erase\<close> by key is
  \<open>AList.delete\<close>; \<open>try_emplace\<close> leaves a present key alone. The list order stands for the
  iteration order, which the C++ standard leaves open.
\<close>

definition try_emplace :: "'k \<Rightarrow> 'v \<Rightarrow> ('k \<times> 'v) list \<Rightarrow> ('k \<times> 'v) list \<times> bool" where
  "try_emplace k v m =
     (case map_of m k of None \<Rightarrow> (AList.update k v m, True) | Some _ \<Rightarrow> (m, False))"

lemma map_of_update [al_simps]: "map_of (AList.update k v m) = (map_of m)(k \<mapsto> v)"
  by (rule update_conv')

lemma map_of_delete [al_simps]: "map_of (AList.delete k m) = (map_of m)(k := None)"
  by (rule delete_conv')

lemmas al_distinct [intro] = distinct_update distinct_delete

section \<open>The first element with a property\<close>

text \<open>
  \<open>std::find_if\<close> followed by an assignment through the iterator, or by \<open>erase\<close> of it.
\<close>

fun update_first :: "('a \<Rightarrow> bool) \<Rightarrow> ('a \<Rightarrow> 'a) \<Rightarrow> 'a list \<Rightarrow> 'a list" where
  "update_first P f [] = []"
| "update_first P f (x # xs) = (if P x then f x # xs else x # update_first P f xs)"

fun erase_first :: "('a \<Rightarrow> bool) \<Rightarrow> 'a list \<Rightarrow> 'a list" where
  "erase_first P [] = []"
| "erase_first P (x # xs) = (if P x then xs else x # erase_first P xs)"

lemma find_split:
  "find P xs = Some x \<Longrightarrow>
     \<exists>us vs. xs = us @ x # vs \<and> P x \<and> (\<forall>u \<in> set us. \<not> P u) \<and>
       update_first P f xs = us @ f x # vs \<and> erase_first P xs = us @ vs"
proof (induction xs)
  case (Cons y ys)
  show ?case
  proof (cases "P y")
    case True
    with Cons.prems show ?thesis by (intro exI [of _ "[]"] exI [of _ ys]) auto
  next
    case False
    with Cons obtain us vs where "ys = us @ x # vs \<and> P x \<and> (\<forall>u \<in> set us. \<not> P u) \<and>
       update_first P f ys = us @ f x # vs \<and> erase_first P ys = us @ vs" by auto
    with False show ?thesis by (intro exI [of _ "y # us"] exI [of _ vs]) auto
  qed
qed simp

section \<open>Sorting\<close>

text \<open>
  \<open>std::sort\<close> by a key is \<open>sort_key\<close>. It is not stable in C++, but where the keys turn out
  distinct the sorted permutation is unique, so the choice does not matter.
\<close>

lemma distinct_map_sort_key [simp]: "distinct (map g (sort_key f xs)) \<longleftrightarrow> distinct (map g xs)"
  by (metis mset_eq_imp_distinct_iff mset_map mset_sort)

lemma strict_sorted_map_sort_key:
  "sorted_wrt (<) (map f (sort_key f xs)) \<longleftrightarrow> distinct (map f xs)"
  by (simp add: strict_sorted_iff)

lemma sort_key_unique:
  assumes "mset ys = mset xs" and "sorted_wrt (<) (map f ys)"
  shows "ys = sort_key f xs"
proof (rule properties_for_sort_key [symmetric])
  show "mset ys = mset xs" by (rule assms(1))
  show "sorted (map f ys)" using assms(2) by (simp add: strict_sorted_iff)
  show "filter (\<lambda>x. f k = f x) ys = filter (\<lambda>x. f k = f x) xs" if "k \<in> set ys" for k
  proof -
    have "inj_on f (set ys)" using assms(2) by (simp add: strict_sorted_iff distinct_map)
    moreover have "set xs = set ys" using assms(1) by (metis mset_eq_setD)
    ultimately have eq: "\<And>x. x \<in> set ys \<Longrightarrow> (f k = f x) = (x = k)" "set xs = set ys"
      using that by (auto dest: inj_onD)
    then have "filter (\<lambda>x. f k = f x) ys = filter (\<lambda>x. x = k) ys"
      and "filter (\<lambda>x. f k = f x) xs = filter (\<lambda>x. x = k) xs"
      by (auto intro: filter_cong)
    moreover have "filter (\<lambda>x. x = k) zs = replicate (count (mset zs) k) k" for zs
      by (induction zs) auto
    ultimately show ?thesis using assms(1) by simp
  qed
qed

section \<open>Components driven by operations\<close>

text \<open>
  A component is a state, an operation that a caller performs on it, and the result the caller
  sees. A caller is a sequence of operations; what one operation keeps, every sequence keeps.
\<close>

fun run_ops :: "('s \<Rightarrow> 'op \<Rightarrow> 's \<times> 'r) \<Rightarrow> 's \<Rightarrow> 'op list \<Rightarrow> 's" where
  "run_ops f s [] = s"
| "run_ops f s (x # xs) = run_ops f (fst (f s x)) xs"

locale op_machine =
  fixes perform :: "'s \<Rightarrow> 'op \<Rightarrow> 's \<times> 'r"
    and wf_state :: "'s \<Rightarrow> bool"
  assumes perform_wf: "wf_state s \<Longrightarrow> wf_state (fst (perform s x))"
begin

lemma run_wf: "wf_state s \<Longrightarrow> wf_state (run_ops perform s xs)"
  by (induction xs arbitrary: s) (simp_all add: perform_wf)

text \<open>A relation that is reflexive, transitive and held by each operation is held by a run.\<close>

lemma run_related:
  assumes refl: "\<And>s. wf_state s \<Longrightarrow> R s s"
    and trans: "\<And>s t u. R s t \<Longrightarrow> R t u \<Longrightarrow> R s u"
    and one: "\<And>s x. wf_state s \<Longrightarrow> R s (fst (perform s x))"
    and start: "wf_state s"
  shows "R s (run_ops perform s xs)"
  using start
proof (induction xs arbitrary: s)
  case Nil
  then show ?case by (simp add: refl)
next
  case (Cons x xs)
  have "R (fst (perform s x)) (run_ops perform (fst (perform s x)) xs)"
    by (rule Cons.IH) (rule perform_wf [OF Cons.prems])
  with one [OF Cons.prems] show ?case
    by (simp add: trans [of s "fst (perform s x)"])
qed

end

text \<open>A component whose results say truthfully whether it changed.\<close>

locale reporting_machine = op_machine perform wf_state
  for perform :: "'s \<Rightarrow> 'op \<Rightarrow> 's \<times> 'r" and wf_state :: "'s \<Rightarrow> bool" +
  fixes changed :: "'r \<Rightarrow> bool"
  assumes unchanged_same: "\<not> changed (snd (perform s x)) \<Longrightarrow> fst (perform s x) = s"
begin

text \<open>As long as no result reports a change, the caller still knows the state.\<close>

lemma run_unchanged:
  "(\<forall>x \<in> set xs. \<not> changed (snd (perform s x))) \<Longrightarrow> run_ops perform s xs = s"
  by (induction xs) (simp_all add: unchanged_same)

end

section \<open>Allocation of 64-bit identifiers\<close>

text \<open>
  The loop shared by the three allocators of the trade service: take the counter, step it
  (skipping zero when it wraps), and stop at the first candidate that is neither zero nor in
  use. The loop has no bound in the code, so not returning is the value \<open>None\<close>.
\<close>

definition next_id :: "u64 \<Rightarrow> u64" where
  "next_id n = (if n + 1 = 0 then 1 else n + 1)"

partial_function (option) alloc_id :: "(u64 \<Rightarrow> bool) \<Rightarrow> u64 \<Rightarrow> (u64 \<times> u64) option" where
  "alloc_id used n =
     (if n \<noteq> 0 \<and> \<not> used n then Some (n, next_id n) else alloc_id used (next_id n))"

text \<open>A returned candidate is fresh and not zero: partial correctness of the loop.\<close>

lemma alloc_id_fresh:
  assumes ret: "alloc_id used n = Some r"
  shows "fst r \<noteq> 0 \<and> \<not> used (fst r)"
proof (rule alloc_id.raw_induct [where P = "\<lambda>u n r. fst r \<noteq> 0 \<and> \<not> u (fst r)", OF _ ret])
  fix f :: "(u64 \<Rightarrow> bool) \<Rightarrow> u64 \<Rightarrow> (u64 \<times> u64) option" and u n r
  assume IH: "\<And>u n r. f u n = Some r \<Longrightarrow> fst r \<noteq> 0 \<and> \<not> u (fst r)"
    and eq: "(if n \<noteq> 0 \<and> \<not> u n then Some (n, next_id n) else f u (next_id n)) = Some r"
  show "fst r \<noteq> 0 \<and> \<not> u (fst r)"
  proof (cases "n \<noteq> 0 \<and> \<not> u n")
    case True
    with eq show ?thesis by auto
  next
    case False
    with eq have "f u (next_id n) = Some r" by simp
    then show ?thesis by (rule IH)
  qed
qed

declare alloc_id.simps [code]

text \<open>The loop ends as soon as one candidate is free, since it visits all of them.\<close>

lemma next_id_up: "n \<noteq> - 1 \<Longrightarrow> next_id n = n + 1 \<and> unat (n + 1) = unat n + 1"
proof -
  assume "n \<noteq> - 1"
  then have "1 + n \<noteq> 0" by (metis add_eq_0_iff add.inverse_inverse)
  with unatSuc [OF this] show ?thesis by (simp add: next_id_def add.commute)
qed

lemma alloc_id_above:
  assumes "i \<noteq> 0" and "\<not> used i"
  shows "n \<le> i \<Longrightarrow> alloc_id used n \<noteq> None"
proof (induction "unat i - unat n" arbitrary: n)
  case 0
  then have "n = i" by (simp add: word_le_nat_alt word_unat_eq_iff)
  with assms show ?case by (subst alloc_id.simps) simp
next
  case (Suc k)
  then have "n < i" by (simp add: word_less_nat_alt)
  then have "n \<noteq> - 1" by auto
  from next_id_up [OF this] have up: "next_id n = n + 1" "unat (n + 1) = unat n + 1" by simp_all
  then have "alloc_id used (n + 1) \<noteq> None"
    using Suc by (intro Suc.hyps(1)) (simp_all add: word_le_nat_alt)
  with up show ?case by (subst alloc_id.simps) simp
qed

lemma alloc_id_returns:
  assumes "i \<noteq> 0" and "\<not> used i"
  shows "alloc_id used n \<noteq> None"
proof (induction "unat (- 1 :: u64) - unat n" arbitrary: n)
  case 0
  have "unat n \<le> unat (- 1 :: u64)" by (rule word_le_nat_alt [THEN iffD1]) simp
  with 0 have "n = - 1" by (simp add: word_unat_eq_iff)
  then have "next_id n = 1" by (simp add: next_id_def)
  moreover have "alloc_id used 1 \<noteq> None"
    using assms
    by (intro alloc_id_above [of i used 1]) (simp_all add: word_le_nat_alt unat_gt_0 Suc_le_eq)
  ultimately show ?case by (subst alloc_id.simps) simp
next
  case (Suc k)
  then have "n \<noteq> - 1" by auto
  with Suc next_id_up [of n] have "alloc_id used (next_id n) \<noteq> None"
    by (intro Suc.hyps(1)) simp
  then show ?case by (subst alloc_id.simps) simp
qed

lemma fresh_id_exists:
  assumes "finite U" and "card U < 2 ^ 64 - 1"
  obtains i :: u64 where "i \<noteq> 0" and "i \<notin> U"
proof -
  have "\<not> UNIV - {0 :: u64} \<subseteq> U"
  proof
    assume "UNIV - {0 :: u64} \<subseteq> U"
    then have "card (UNIV - {0 :: u64}) \<le> card U" by (rule card_mono [OF assms(1)])
    moreover have "card (UNIV :: u64 set) = 2 ^ 64" by (simp add: card_word)
    ultimately show False using assms(2) by (simp add: card_Diff_singleton)
  qed
  with that show ?thesis by blast
qed

end
