(* ===== verification/TradeTypes.thy ===== *)
theory TradeTypes
  imports Prelude
begin

text \<open>
  \<open>common/Trade/TradeTypes.h\<close> and \<open>common/Trade/TradeError.h\<close>: the identifiers, offers and
  participants of a trade, its states and errors, and the result every operation returns.
  \<open>Error::None\<close> is \<open>NoError\<close>.
\<close>

type_synonym SessionId = u64
type_synonym ApplyId = u64
type_synonym ReconcileId = u64
type_synonym Revision = u64
type_synonym PlayerId = u32
type_synonym ItemId = u64
type_synonym Tick = u64

datatype State =
    PendingAcceptance | Negotiating | Locked | Applying | Completed | Cancelled | Failed

datatype Error =
    NoError
  | InvalidParticipant | NotParticipant | NotRecipient | InvalidState | AlreadyTerminal
  | StaleRevision | InvalidItem | EmptyQuantity | DuplicateItem | RevisionOverflow
  | SessionExpired | InventoryUnavailable | ItemUnavailable | InsufficientQuantity
  | ItemNotTransferable | AmbiguousItem | QuantityOverflow | ApplyResultConflict
  | ApplyFailed | ApplyTimedOut | ParticipantDisconnected | ServerCommitFailed
  | ReconcileResultConflict | ReconciliationUnavailable | ReconciliationFailed
  | ReconciliationTimedOut

record OfferLine =
  line_item :: ItemId
  line_quantity :: u32

type_synonym Offer = "OfferLine list"

record Participant =
  part_id :: PlayerId
  current_offer :: Offer
  confirmed :: bool
  confirmed_revision :: Revision

definition new_participant :: "PlayerId \<Rightarrow> Participant" where
  "new_participant p =
     \<lparr>part_id = p, current_offer = [], confirmed = False, confirmed_revision = 0\<rparr>"

record Result =
  error_code :: Error
  result_changed :: bool

definition Success :: "bool \<Rightarrow> Result" where
  "Success c = \<lparr>error_code = NoError, result_changed = c\<rparr>"

definition Failure :: "Error \<Rightarrow> Result" where
  "Failure e = \<lparr>error_code = e, result_changed = False\<rparr>"

definition FailureChanged :: "Error \<Rightarrow> Result" where
  "FailureChanged e = \<lparr>error_code = e, result_changed = True\<rparr>"

definition succeeded :: "Result \<Rightarrow> bool" where
  "succeeded r \<longleftrightarrow> error_code r = NoError"

lemma result_simps [simp]:
  "error_code (Success c) = NoError" "result_changed (Success c) = c"
  "error_code (Failure e) = e" "result_changed (Failure e) = False"
  "error_code (FailureChanged e) = e" "result_changed (FailureChanged e) = True"
  "succeeded (Success c)" "succeeded (Failure e) \<longleftrightarrow> e = NoError"
  "succeeded (FailureChanged e) \<longleftrightarrow> e = NoError"
  by (simp_all add: Success_def Failure_def FailureChanged_def succeeded_def)

lemma result_eq_simps [simp]:
  "Success c = Success d \<longleftrightarrow> c = d"
  "Failure e = Failure f \<longleftrightarrow> e = f"
  "Success c = Failure e \<longleftrightarrow> e = NoError \<and> \<not> c"
  "Failure e = Success c \<longleftrightarrow> e = NoError \<and> \<not> c"
    by (simp_all add: Success_def Failure_def) (metis)

section \<open>Activity ticks\<close>

text \<open>\<open>Touch\<close>, which the session, the application and the reconciliation share: the last
  activity never moves back.\<close>

definition touch :: "Tick \<Rightarrow> Tick \<Rightarrow> Tick" where
  "touch now prev = (if now > prev then now else prev)"

lemma touch_ge [simp]: "prev \<le> touch now prev"
  by (auto simp: touch_def)

lemma touch_ge_trans [simp]: "a \<le> prev \<Longrightarrow> a \<le> touch now prev"
  by (rule order_trans [OF _ touch_ge])

lemma touch_max: "touch now prev = max prev now"
  by (auto simp: touch_def max_def)

end
