(* ===== verification/TradeSession.thy ===== *)
theory TradeSession
  imports TradeTypes
begin

text \<open>
  \<open>common/Trade/TradeSession.{h,cpp}\<close>: the negotiation between two players. The class
  \<open>Session\<close> is the record \<open>Session\<close>, each method a function from the session to the new
  session and its \<open>Result\<close>.
\<close>

record Session =
  s_id :: SessionId
  s_initiator :: Participant
  s_recipient :: Participant
  s_state :: State
  s_revision :: Revision
  s_created :: Tick
  s_last_activity :: Tick
  s_expiry :: Tick
  s_terminal_error :: Error

section \<open>Operations\<close>

definition is_terminal :: "Session \<Rightarrow> bool" where
  "is_terminal s \<longleftrightarrow> s_state s = Completed \<or> s_state s = Cancelled \<or> s_state s = Failed"

definition s_touch :: "Tick \<Rightarrow> Session \<Rightarrow> Session" where
  "s_touch now s = s\<lparr>s_last_activity := touch now (s_last_activity s)\<rparr>"

definition enter_terminal :: "State \<Rightarrow> Error \<Rightarrow> Tick \<Rightarrow> Session \<Rightarrow> Session" where
  "enter_terminal st reason now s =
     s_touch now (s\<lparr>s_state := st, s_terminal_error := reason\<rparr>)"

definition new_session ::
  "SessionId \<Rightarrow> PlayerId \<Rightarrow> PlayerId \<Rightarrow> Tick \<Rightarrow> Tick \<Rightarrow> Session" where
  "new_session i a b created expiry =
     (let s = \<lparr>s_id = i, s_initiator = new_participant a, s_recipient = new_participant b,
               s_state = PendingAcceptance, s_revision = 1, s_created = created,
               s_last_activity = created, s_expiry = expiry, s_terminal_error = NoError\<rparr>
      in if a = b then enter_terminal Failed InvalidParticipant created s else s)"

text \<open>\<open>FindParticipant\<close> returns a pointer to one of the two members; the model returns which.\<close>

datatype Side = InitiatorSide | RecipientSide

definition find_participant :: "Session \<Rightarrow> PlayerId \<Rightarrow> Side option" where
  "find_participant s p =
     (if part_id (s_initiator s) = p then Some InitiatorSide
      else if part_id (s_recipient s) = p then Some RecipientSide
      else None)"

definition is_participant :: "Session \<Rightarrow> PlayerId \<Rightarrow> bool" where
  "is_participant s p \<longleftrightarrow> find_participant s p \<noteq> None"

fun participant :: "Side \<Rightarrow> Session \<Rightarrow> Participant" where
  "participant InitiatorSide s = s_initiator s"
| "participant RecipientSide s = s_recipient s"

fun set_participant :: "Side \<Rightarrow> Participant \<Rightarrow> Session \<Rightarrow> Session" where
  "set_participant InitiatorSide p s = s\<lparr>s_initiator := p\<rparr>"
| "set_participant RecipientSide p s = s\<lparr>s_recipient := p\<rparr>"

definition not_in_state :: "Session \<Rightarrow> Result" where
  "not_in_state s = Failure (if is_terminal s then AlreadyTerminal else InvalidState)"

definition accept :: "PlayerId \<Rightarrow> Tick \<Rightarrow> Session \<Rightarrow> Session \<times> Result" where
  "accept p now s =
     (if p \<noteq> part_id (s_recipient s) then (s, Failure NotRecipient)
      else if s_state s = PendingAcceptance then
        (s_touch now (s\<lparr>s_state := Negotiating\<rparr>), Success True)
      else if s_state s = Negotiating \<or> s_state s = Locked \<or> s_state s = Applying
              \<or> s_state s = Completed then (s, Success False)
      else (s, not_in_state s))"

definition reject :: "PlayerId \<Rightarrow> Tick \<Rightarrow> Session \<Rightarrow> Session \<times> Result" where
  "reject p now s =
     (if p \<noteq> part_id (s_recipient s) then (s, Failure NotRecipient)
      else if s_state s = Cancelled then (s, Success False)
      else if s_state s \<noteq> PendingAcceptance then (s, not_in_state s)
      else (enter_terminal Cancelled NoError now s, Success True))"

fun first_line_error :: "Offer \<Rightarrow> Error" where
  "first_line_error [] = NoError"
| "first_line_error (l # ls) =
     (if line_item l = 0 then InvalidItem
      else if line_quantity l = 0 then EmptyQuantity
      else first_line_error ls)"

fun adjacent_duplicate :: "Offer \<Rightarrow> bool" where
  "adjacent_duplicate (l # m # ls) = (line_item l = line_item m \<or> adjacent_duplicate (m # ls))"
| "adjacent_duplicate _ = False"

definition validate_and_canonicalize_offer :: "Offer \<Rightarrow> Offer \<times> Error" where
  "validate_and_canonicalize_offer items =
     (let e = first_line_error items in
      if e \<noteq> NoError then (items, e)
      else let sorted_items = sort_key line_item items in
        (sorted_items, if adjacent_duplicate sorted_items then DuplicateItem else NoError))"

definition clear_confirmation :: "Participant \<Rightarrow> Participant" where
  "clear_confirmation p = p\<lparr>confirmed := False, confirmed_revision := 0\<rparr>"

definition reset_confirmations :: "Session \<Rightarrow> Session" where
  "reset_confirmations s =
     s\<lparr>s_initiator := clear_confirmation (s_initiator s),
       s_recipient := clear_confirmation (s_recipient s)\<rparr>"

definition update_offer ::
  "PlayerId \<Rightarrow> Revision \<Rightarrow> Offer \<Rightarrow> Tick \<Rightarrow> Session \<Rightarrow> Session \<times> Result" where
  "update_offer p expected offer now s =
     (if s_state s \<noteq> Negotiating then (s, not_in_state s)
      else case find_participant s p of
        None \<Rightarrow> (s, Failure NotParticipant)
      | Some side \<Rightarrow>
          (let (canonical, e) = validate_and_canonicalize_offer offer;
               me = participant side s in
           if e \<noteq> NoError then (s, Failure e)
           else if current_offer me = canonical then (s, Success False)
           else if expected \<noteq> s_revision s then (s, Failure StaleRevision)
           else if s_revision s = - 1 then (s, Failure RevisionOverflow)
           else
             (s_touch now
               (reset_confirmations
                 ((set_participant side (me\<lparr>current_offer := canonical\<rparr>) s)
                    \<lparr>s_revision := s_revision s + 1\<rparr>)),
              Success True)))"

definition has_confirmed :: "Participant \<Rightarrow> Revision \<Rightarrow> bool" where
  "has_confirmed p r \<longleftrightarrow> confirmed p \<and> confirmed_revision p = r"

definition confirm :: "PlayerId \<Rightarrow> Revision \<Rightarrow> Tick \<Rightarrow> Session \<Rightarrow> Session \<times> Result" where
  "confirm p r now s =
     (case find_participant s p of
        None \<Rightarrow> (s, Failure NotParticipant)
      | Some side \<Rightarrow>
          (let me = participant side s in
           if r \<noteq> s_revision s then (s, Failure StaleRevision)
           else if s_state s \<noteq> Negotiating then
             (if (s_state s = Locked \<or> s_state s = Applying \<or> s_state s = Completed)
                 \<and> has_confirmed me (s_revision s)
              then (s, Success False) else (s, not_in_state s))
           else if has_confirmed me r then (s, Success False)
           else
             (let s' = s_touch now
                    (set_participant side (me\<lparr>confirmed := True, confirmed_revision := r\<rparr>) s)
              in (if has_confirmed (s_initiator s') (s_revision s')
                     \<and> has_confirmed (s_recipient s') (s_revision s')
                  then s'\<lparr>s_state := Locked\<rparr> else s',
                  Success True))))"

definition cancel :: "PlayerId \<Rightarrow> Tick \<Rightarrow> Session \<Rightarrow> Session \<times> Result" where
  "cancel p now s =
     (if \<not> is_participant s p then (s, Failure NotParticipant)
      else if s_state s = Cancelled then (s, Success False)
      else if s_state s = Completed \<or> s_state s = Failed then (s, Failure AlreadyTerminal)
      else if s_state s = Applying then (s, Failure InvalidState)
      else (enter_terminal Cancelled NoError now s, Success True))"

definition start_applying :: "Tick \<Rightarrow> Session \<Rightarrow> Session \<times> Result" where
  "start_applying now s =
     (if s_state s = Applying then (s, Success False)
      else if s_state s \<noteq> Locked then (s, not_in_state s)
      else (s_touch now (s\<lparr>s_state := Applying\<rparr>), Success True))"

definition complete :: "Tick \<Rightarrow> Session \<Rightarrow> Session \<times> Result" where
  "complete now s =
     (if s_state s = Completed then (s, Success False)
      else if s_state s \<noteq> Applying then (s, not_in_state s)
      else (enter_terminal Completed NoError now s, Success True))"

definition fail :: "Error \<Rightarrow> Tick \<Rightarrow> Session \<Rightarrow> Session \<times> Result" where
  "fail reason now s =
     (if s_state s = Failed \<and> s_terminal_error s = reason then (s, Success False)
      else if is_terminal s then (s, Failure AlreadyTerminal)
      else if reason = NoError then (s, Failure InvalidState)
      else (enter_terminal Failed reason now s, Success True))"

definition expire :: "Tick \<Rightarrow> Session \<Rightarrow> Session \<times> Result" where
  "expire now s =
     (if s_state s = Cancelled \<and> s_terminal_error s = SessionExpired
      then (s, Failure SessionExpired)
      else if is_terminal s then (s, Failure AlreadyTerminal)
      else if now < s_expiry s then (s, Success False)
      else (enter_terminal Cancelled SessionExpired now s, FailureChanged SessionExpired))"

section \<open>A session as a component\<close>

datatype SessionOp =
    OpAccept PlayerId Tick
  | OpReject PlayerId Tick
  | OpUpdateOffer PlayerId Revision Offer Tick
  | OpConfirm PlayerId Revision Tick
  | OpCancel PlayerId Tick
  | OpStartApplying Tick
  | OpComplete Tick
  | OpFail Error Tick
  | OpExpire Tick

fun session_perform :: "Session \<Rightarrow> SessionOp \<Rightarrow> Session \<times> Result" where
  "session_perform s (OpAccept p t) = accept p t s"
| "session_perform s (OpReject p t) = reject p t s"
| "session_perform s (OpUpdateOffer p r items t) = update_offer p r items t s"
| "session_perform s (OpConfirm p r t) = confirm p r t s"
| "session_perform s (OpCancel p t) = cancel p t s"
| "session_perform s (OpStartApplying t) = start_applying t s"
| "session_perform s (OpComplete t) = complete t s"
| "session_perform s (OpFail e t) = fail e t s"
| "session_perform s (OpExpire t) = expire t s"

text \<open>
  What the operations keep of a session: offers are canonical (strictly sorted, with no zero
  item or quantity), a confirmation is always for the current revision, both members have
  confirmed exactly from the lock on, and the terminal error belongs to the terminal state.
\<close>

definition canonical_offer :: "Offer \<Rightarrow> bool" where
  "canonical_offer items \<longleftrightarrow>
     sorted_wrt (<) (map line_item items) \<and>
     (\<forall>l \<in> set items. line_item l \<noteq> 0 \<and> line_quantity l \<noteq> 0)"

definition participant_wf :: "Participant \<Rightarrow> Revision \<Rightarrow> bool" where
  "participant_wf p r \<longleftrightarrow>
     canonical_offer (current_offer p) \<and>
     confirmed_revision p = (if confirmed p then r else 0)"

definition locked_in :: "State \<Rightarrow> bool" where
  "locked_in st \<longleftrightarrow> st = Locked \<or> st = Applying \<or> st = Completed"

definition terminal_error_wf :: "State \<Rightarrow> Error \<Rightarrow> bool" where
  "terminal_error_wf st e \<longleftrightarrow>
     (case st of Failed \<Rightarrow> e \<noteq> NoError
      | Cancelled \<Rightarrow> e = NoError \<or> e = SessionExpired
      | _ \<Rightarrow> e = NoError)"

definition session_wf :: "Session \<Rightarrow> bool" where
  "session_wf s \<longleftrightarrow>
     (part_id (s_initiator s) = part_id (s_recipient s) \<longrightarrow> s_state s = Failed) \<and>
     participant_wf (s_initiator s) (s_revision s) \<and>
     participant_wf (s_recipient s) (s_revision s) \<and>
     (locked_in (s_state s) \<longrightarrow> confirmed (s_initiator s) \<and> confirmed (s_recipient s)) \<and>
     (s_state s = PendingAcceptance \<or> s_state s = Negotiating \<longrightarrow>
        \<not> (confirmed (s_initiator s) \<and> confirmed (s_recipient s))) \<and>
     terminal_error_wf (s_state s) (s_terminal_error s) \<and>
     s_revision s \<noteq> 0 \<and> s_created s \<le> s_last_activity s"

text \<open>How far a session has come; the three terminal states share the last stage.\<close>

fun stage :: "State \<Rightarrow> nat" where
  "stage PendingAcceptance = 0"
| "stage Negotiating = 1"
| "stage Locked = 2"
| "stage Applying = 3"
| "stage Completed = 4"
| "stage Cancelled = 4"
| "stage Failed = 4"

definition session_advances :: "Session \<Rightarrow> Session \<Rightarrow> bool" where
  "session_advances s t \<longleftrightarrow>
     s_id t = s_id s \<and> s_created t = s_created s \<and> s_expiry t = s_expiry s \<and>
     part_id (s_initiator t) = part_id (s_initiator s) \<and>
     part_id (s_recipient t) = part_id (s_recipient s) \<and>
     s_last_activity s \<le> s_last_activity t \<and>
     s_revision s \<le> s_revision t \<and>
     stage (s_state s) \<le> stage (s_state t) \<and>
     (2 \<le> stage (s_state s) \<longrightarrow>
        s_initiator t = s_initiator s \<and> s_recipient t = s_recipient s \<and>
        s_revision t = s_revision s) \<and>
     (is_terminal s \<longrightarrow> t = s)"

section \<open>Field equations and offers\<close>

lemma is_terminal_simps [simp]:
  "is_terminal (s_touch t s) = is_terminal s"
  by (simp add: is_terminal_def s_touch_def)

lemma s_touch_simps [simp]:
  "s_id (s_touch t s) = s_id s" "s_initiator (s_touch t s) = s_initiator s"
  "s_recipient (s_touch t s) = s_recipient s" "s_state (s_touch t s) = s_state s"
  "s_revision (s_touch t s) = s_revision s" "s_created (s_touch t s) = s_created s"
  "s_last_activity (s_touch t s) = touch t (s_last_activity s)"
  "s_expiry (s_touch t s) = s_expiry s" "s_terminal_error (s_touch t s) = s_terminal_error s"
  by (simp_all add: s_touch_def)

lemma enter_terminal_simps [simp]:
  "s_id (enter_terminal st e t s) = s_id s"
  "s_initiator (enter_terminal st e t s) = s_initiator s"
  "s_recipient (enter_terminal st e t s) = s_recipient s"
  "s_state (enter_terminal st e t s) = st"
  "s_revision (enter_terminal st e t s) = s_revision s"
  "s_created (enter_terminal st e t s) = s_created s"
  "s_last_activity (enter_terminal st e t s) = touch t (s_last_activity s)"
  "s_expiry (enter_terminal st e t s) = s_expiry s"
  "s_terminal_error (enter_terminal st e t s) = e"
  by (simp_all add: enter_terminal_def)

lemma first_line_error_NoError:
  "first_line_error items = NoError \<longleftrightarrow> (\<forall>l \<in> set items. line_item l \<noteq> 0 \<and> line_quantity l \<noteq> 0)"
  by (induction items) auto

lemma adjacent_duplicate_sorted:
  "sorted (map line_item items) \<Longrightarrow>
     adjacent_duplicate items \<longleftrightarrow> \<not> sorted_wrt (<) (map line_item items)"
proof (induction items rule: adjacent_duplicate.induct)
  case (1 l m ls)
  then show ?case by (auto simp: order.strict_iff_order)
qed simp_all

lemma validated_offer:
  "snd (validate_and_canonicalize_offer items) = NoError \<longleftrightarrow>
     (\<forall>l \<in> set items. line_item l \<noteq> 0 \<and> line_quantity l \<noteq> 0) \<and> distinct (map line_item items)"
  by (auto simp: validate_and_canonicalize_offer_def Let_def first_line_error_NoError
      adjacent_duplicate_sorted strict_sorted_map_sort_key)

lemma validated_canonical:
  "validate_and_canonicalize_offer items = (out, NoError) \<Longrightarrow>
     canonical_offer out \<and> mset out = mset items"
  by (auto simp: validate_and_canonicalize_offer_def Let_def first_line_error_NoError
      adjacent_duplicate_sorted canonical_offer_def split: if_splits)

lemma canonical_empty [simp]: "canonical_offer []"
  by (simp add: canonical_offer_def)

lemmas session_step_defs = accept_def reject_def update_offer_def confirm_def cancel_def
  start_applying_def complete_def fail_def expire_def

section \<open>Each operation keeps a session well formed\<close>

lemmas session_inv_defs = session_wf_def locked_in_def terminal_error_wf_def

lemma participant_wf_simps [simp]:
  "participant_wf (new_participant q) r"
  "participant_wf p r \<Longrightarrow> participant_wf (clear_confirmation p) r'"
  "participant_wf p r \<Longrightarrow> participant_wf (p\<lparr>confirmed := True, confirmed_revision := r\<rparr>) r"
  "participant_wf p r \<Longrightarrow> canonical_offer items \<Longrightarrow>
     participant_wf (clear_confirmation (p\<lparr>current_offer := items\<rparr>)) r'"
  by (simp_all add: participant_wf_def new_participant_def clear_confirmation_def)

lemma clear_confirmation_simps [simp]:
  "part_id (clear_confirmation p) = part_id p"
  "current_offer (clear_confirmation p) = current_offer p"
  "\<not> confirmed (clear_confirmation p)"
  by (simp_all add: clear_confirmation_def)

lemma reset_confirmations_simps [simp]:
  "s_id (reset_confirmations s) = s_id s"
  "s_initiator (reset_confirmations s) = clear_confirmation (s_initiator s)"
  "s_recipient (reset_confirmations s) = clear_confirmation (s_recipient s)"
  "s_state (reset_confirmations s) = s_state s"
  "s_revision (reset_confirmations s) = s_revision s"
  "s_created (reset_confirmations s) = s_created s"
  "s_last_activity (reset_confirmations s) = s_last_activity s"
  "s_expiry (reset_confirmations s) = s_expiry s"
  "s_terminal_error (reset_confirmations s) = s_terminal_error s"
  by (simp_all add: reset_confirmations_def)

lemma new_session_wf: "session_wf (new_session i a b t e)"
  by (simp add: new_session_def session_inv_defs Let_def) (simp add: new_participant_def)

lemma accept_wf: "session_wf s \<Longrightarrow> session_wf (fst (accept p t s))"
  by (cases "s_state s") (simp_all add: accept_def session_inv_defs)

lemma reject_wf: "session_wf s \<Longrightarrow> session_wf (fst (reject p t s))"
  by (cases "s_state s") (simp_all add: reject_def session_inv_defs)

lemma cancel_wf: "session_wf s \<Longrightarrow> session_wf (fst (cancel p t s))"
  by (cases "s_state s") (simp_all add: cancel_def session_inv_defs)

lemma start_applying_wf: "session_wf s \<Longrightarrow> session_wf (fst (start_applying t s))"
  by (cases "s_state s") (simp_all add: start_applying_def session_inv_defs)

lemma complete_wf: "session_wf s \<Longrightarrow> session_wf (fst (complete t s))"
  by (cases "s_state s") (simp_all add: complete_def session_inv_defs)

lemma fail_wf: "session_wf s \<Longrightarrow> session_wf (fst (fail e t s))"
  by (cases "s_state s") (auto simp: fail_def session_inv_defs is_terminal_def)

lemma expire_wf: "session_wf s \<Longrightarrow> session_wf (fst (expire t s))"
  by (cases "s_state s") (auto simp: expire_def session_inv_defs is_terminal_def)

lemma confirm_wf:
  assumes "session_wf s"
  shows "session_wf (fst (confirm p r t s))"
proof (cases "s_state s = Negotiating \<and> r = s_revision s")
  case False
  then have "fst (confirm p r t s) = s"
    by (auto simp: confirm_def Let_def split: option.splits)
  with assms show ?thesis by simp
next
  case True
  show ?thesis
  proof (cases "find_participant s p")
    case None
    with assms show ?thesis by (simp add: confirm_def)
  next
    case (Some side)
    with assms True show ?thesis
      by (cases side) (auto simp: confirm_def Let_def has_confirmed_def session_inv_defs
         participant_wf_def)
  qed
qed

lemma update_offer_wf:
  assumes wf: "session_wf s"
  shows "session_wf (fst (update_offer p r items t s))"
proof (cases "\<exists>side out. find_participant s p = Some side \<and> s_state s = Negotiating \<and>
    validate_and_canonicalize_offer items = (out, NoError) \<and> s_revision s \<noteq> - 1")
  case False
  then have "fst (update_offer p r items t s) = s"
    by (auto simp: update_offer_def Let_def split: option.splits prod.splits)
  with wf show ?thesis by simp
next
  case True
  then obtain side out where side: "find_participant s p = Some side" and st: "s_state s = Negotiating"
    and out: "validate_and_canonicalize_offer items = (out, NoError)" and "s_revision s \<noteq> - 1" by blast
  moreover from this(4) have "s_revision s + 1 \<noteq> 0" by (metis add_eq_0_iff2)
  moreover from out have "canonical_offer out" by (simp add: validated_canonical)
  moreover have "participant_wf (clear_confirmation (s_initiator s)) r'"
    and "participant_wf (clear_confirmation (s_recipient s)) r'"
    and "canonical_offer out \<Longrightarrow>
      participant_wf (clear_confirmation (s_initiator s\<lparr>current_offer := out\<rparr>)) r'"
    and "canonical_offer out \<Longrightarrow>
      participant_wf (clear_confirmation (s_recipient s\<lparr>current_offer := out\<rparr>)) r'" for r'
    using wf unfolding session_wf_def by (blast intro: participant_wf_simps)+
  ultimately show ?thesis using wf
    by (cases side) (simp_all add: update_offer_def session_inv_defs)
qed

lemmas session_op_wf = accept_wf reject_wf update_offer_wf confirm_wf cancel_wf start_applying_wf
  complete_wf fail_wf expire_wf

lemma session_perform_wf: "session_wf s \<Longrightarrow> session_wf (fst (session_perform s x))"
  by (cases x) (simp_all add: session_op_wf)

lemma update_offer_unchanged:
  "\<not> result_changed (snd (update_offer p r items t s)) \<Longrightarrow> fst (update_offer p r items t s) = s"
  by (auto simp: update_offer_def split: option.splits prod.splits if_splits)

lemma confirm_unchanged:
  "\<not> result_changed (snd (confirm p r t s)) \<Longrightarrow> fst (confirm p r t s) = s"
  by (cases "find_participant s p") (auto simp: confirm_def split: if_splits)

lemma session_perform_unchanged:
  "\<not> result_changed (snd (session_perform s x)) \<Longrightarrow> fst (session_perform s x) = s"
  by (cases x) (auto simp: update_offer_unchanged confirm_unchanged accept_def reject_def
      cancel_def start_applying_def complete_def fail_def expire_def split: if_splits)

interpretation ses: reporting_machine session_perform session_wf result_changed
  by unfold_locales (simp_all add: session_perform_wf session_perform_unchanged)


section \<open>Sessions only advance\<close>

lemma session_advances_refl: "session_advances s s"
  by (simp add: session_advances_def)

lemma session_advances_trans:
  "session_advances s t \<Longrightarrow> session_advances t u \<Longrightarrow> session_advances s u"
  unfolding session_advances_def
  by (elim conjE; intro conjI impI) (auto intro: order_trans)

lemma session_advances_state_change:
  assumes "\<not> is_terminal s" and "stage (s_state s) \<le> stage st"
  shows "session_advances s (enter_terminal st e t s)"
    and "session_advances s (s_touch t (s\<lparr>s_state := st\<rparr>))"
  using assms by (simp_all add: session_advances_def)

lemma revision_step: "s_revision s \<noteq> - 1 \<Longrightarrow> s_revision s \<le> s_revision s + 1"
  by (rule word_le_plus_one)

lemma update_offer_advances: "session_advances s (fst (update_offer p r items t s))"
proof -
  have "session_advances s (s_touch t (reset_confirmations
      ((set_participant side ((participant side s)\<lparr>current_offer := out\<rparr>) s)\<lparr>s_revision := s_revision s + 1\<rparr>)))"
    if "s_state s = Negotiating" "s_revision s \<noteq> - 1" for side out
    using that by (cases side) (simp_all add: session_advances_def revision_step is_terminal_def)
  then show ?thesis
    by (auto simp: update_offer_def session_advances_refl split: option.splits prod.splits)
qed

lemma confirm_advances: "session_advances s (fst (confirm p r t s))"
proof -
  have "session_advances s (fst (confirm p r t s))" if neg: "s_state s = Negotiating"
  proof (cases "find_participant s p")
    case (Some side)
    with neg show ?thesis 
      by (cases side) (simp_all add: confirm_def session_advances_def is_terminal_def)
  qed (simp add: confirm_def session_advances_refl)
  moreover have "fst (confirm p r t s) = s" if "s_state s \<noteq> Negotiating"
    using that by (auto simp: confirm_def split: option.splits)
  ultimately show ?thesis by (cases "s_state s = Negotiating") (simp_all add: session_advances_refl)
qed

lemma session_perform_advances: "session_advances s (fst (session_perform s x))"
proof (cases x)
  case (OpAccept p t)
  then show ?thesis
    by (auto simp: accept_def is_terminal_def intro!: session_advances_refl session_advances_state_change)
next
  case (OpReject p t)
  then show ?thesis
    by (auto simp: reject_def is_terminal_def intro!: session_advances_refl session_advances_state_change)
next
  case (OpCancel p t)
  then show ?thesis
    by (cases "s_state s") (auto simp: cancel_def is_terminal_def intro!: session_advances_refl session_advances_state_change)
next
  case (OpStartApplying t)
  then show ?thesis
    by (auto simp: start_applying_def is_terminal_def intro!: session_advances_refl session_advances_state_change)
next
  case (OpComplete t)
  then show ?thesis
    by (auto simp: complete_def is_terminal_def intro!: session_advances_refl session_advances_state_change)
next
  case (OpFail e t)
  then show ?thesis
    by (cases "s_state s") (auto simp: fail_def is_terminal_def intro!: session_advances_refl session_advances_state_change)
next
  case (OpExpire t)
  then show ?thesis
    by (cases "s_state s") (auto simp: expire_def is_terminal_def intro!: session_advances_refl session_advances_state_change)
qed (simp_all add: update_offer_advances confirm_advances)

section \<open>Repeated requests\<close>

lemma find_participant_simps [simp]:
  "find_participant (s_touch t s) p = find_participant s p"
  "find_participant (reset_confirmations s) p = find_participant s p"
  "find_participant (s\<lparr>s_revision := r\<rparr>) p = find_participant s p"
  "find_participant (s\<lparr>s_state := st\<rparr>) p = find_participant s p"
  "part_id q = part_id (participant side s) \<Longrightarrow>
     find_participant (set_participant side q s) p = find_participant s p"
  by (cases side; simp add: find_participant_def)+

lemma participant_simps [simp]:
  "participant side (s_touch t s) = participant side s"
  "participant side (reset_confirmations s) = clear_confirmation (participant side s)"
  "participant side (s\<lparr>s_revision := r\<rparr>) = participant side s"
  "participant side (s\<lparr>s_state := st\<rparr>) = participant side s"
  "participant side (set_participant side q s) = q"
  "s_state (set_participant side q s) = s_state s"
  "s_revision (set_participant side q s) = s_revision s"
  by (cases side; simp)+

lemma update_offer_changed:
  assumes "snd (update_offer p r items now s) = Success True"
  obtains side out where "find_participant s p = Some side" and "s_state s = Negotiating"
    and "validate_and_canonicalize_offer items = (out, NoError)"
    and "fst (update_offer p r items now s) =
      s_touch now (reset_confirmations
        ((set_participant side ((participant side s)\<lparr>current_offer := out\<rparr>) s)
           \<lparr>s_revision := s_revision s + 1\<rparr>))"
proof (cases "find_participant s p")
  case None
  with assms that show ?thesis by (simp add: update_offer_def not_in_state_def split: if_splits)
next
  case (Some side)
  obtain out e where v: "validate_and_canonicalize_offer items = (out, e)" by fastforce
  with Some assms that [of side out] show ?thesis
    by (simp add: update_offer_def not_in_state_def split: if_splits)
qed

lemma update_offer_again:
  assumes "snd (update_offer p r items now s) = Success True"
  shows "update_offer p r' items now' (fst (update_offer p r items now s)) =
     (fst (update_offer p r items now s), Success False)"
  using assms by (rule update_offer_changed) (simp add: update_offer_def)

lemma confirm_again:
  assumes "snd (confirm p r now s) = Success True"
  shows "confirm p r now' (fst (confirm p r now s)) = (fst (confirm p r now s), Success False)"
proof (cases "find_participant s p")
  case None
  with assms show ?thesis by (simp add: confirm_def)
next
  case (Some side)
  with assms have "s_state s = Negotiating" and "r = s_revision s" and "\<not> has_confirmed (participant side s) r"
    by (auto simp: confirm_def not_in_state_def split: if_splits)
  with Some show ?thesis by (simp add: confirm_def) (simp add: has_confirmed_def)
qed

lemma validated_unique:
  assumes "snd (validate_and_canonicalize_offer items) = NoError"
    and "mset out = mset items" and "sorted_wrt (<) (map line_item out)"
  shows "out = fst (validate_and_canonicalize_offer items)"
  using assms sort_key_unique [OF assms(2,3)]
  by (auto simp: validate_and_canonicalize_offer_def split: if_splits)

lemma session_always_wf: "session_wf (run_ops session_perform (new_session i a b created expiry) ops)"
  by (rule ses.run_wf) (rule new_session_wf)

text \<open>
  A session to look at: accepted, one offer of seven pieces, confirmed by the initiator.
\<close>

definition example_session :: "SessionOp list \<Rightarrow> Session" where
  "example_session ops = run_ops session_perform (new_session 1 10 20 0 30000)
     ([OpAccept 20 1, OpUpdateOffer 10 1 [\<lparr>line_item = 15, line_quantity = 7\<rparr>] 2, OpConfirm 10 2 3] @ ops)"

lemma example_session_wf: "session_wf (example_session ops)"
  unfolding example_session_def by (rule session_always_wf)

section \<open>Properties\<close>

text \<open>
  However a session is driven from its creation on, it stays well formed: the two offers
  are canonical (strictly sorted by item, no zero item or quantity), confirmations are for the
  current revision, a session is locked, applying or completed only with both confirmations, and
  the terminal error fits the terminal state.
\<close>

theorem session_always_well_formed:
  "session_wf (run_ops session_perform (new_session i a b created expiry) ops)"
  by (rule session_always_wf)

text \<open>
  C30: A session only moves forward. Along any continuation of any history its identity is
  fixed, activity tick, revision and stage never decrease, the terms (both offers, both
  confirmations, the revision) are frozen from the lock on, and a terminal session never changes
  again.
\<close>

theorem session_only_advances:
  "session_advances (run_ops session_perform (new_session i a b created expiry) ops)
     (run_ops session_perform (run_ops session_perform (new_session i a b created expiry) ops) later)"
  by (rule ses.run_related)
    (auto intro: session_advances_refl session_advances_trans session_perform_advances
      session_always_wf)

text \<open>
  Requests that a session refuses, or acknowledges without change, leave no trace: whatever
  such requests are sent, the session stays exactly as it was, activity tick included.
\<close>

theorem refused_requests_leave_no_trace:
  assumes "\<forall>x \<in> set ops. \<not> result_changed (snd (session_perform s x))"
  shows "run_ops session_perform s ops = s"
  using assms by (rule ses.run_unchanged)

theorem refused_requests_leave_no_trace_witness:
  "run_ops session_perform (example_session []) [OpReject 20 9, OpConfirm 10 2 9, OpStartApplying 9] =
     example_session []"
proof -
  have "list_all (\<lambda>x. \<not> result_changed (snd (session_perform (example_session []) x)))
      [OpReject 20 9, OpConfirm 10 2 9, OpStartApplying 9]"
    by code_simp
  then show ?thesis by (intro refused_requests_leave_no_trace) (simp add: list_all_iff)
qed

text \<open>
  A negotiating session locks exactly on the confirmation, for the current revision, of a
  member who has not confirmed yet when the other one has.
\<close>

theorem confirm_locks_iff:
  assumes "session_wf s" and "s_state s = Negotiating"
  shows "s_state (fst (confirm p r now s)) = Locked \<longleftrightarrow>
     r = s_revision s \<and>
     (find_participant s p = Some InitiatorSide \<and> \<not> confirmed (s_initiator s) \<and> confirmed (s_recipient s)
      \<or> find_participant s p = Some RecipientSide \<and> \<not> confirmed (s_recipient s) \<and> confirmed (s_initiator s))"
proof (cases "find_participant s p")
  case None
  with assms show ?thesis by (simp add: confirm_def)
next
  case (Some side)
  with assms show ?thesis
    by (cases side) (auto simp: confirm_def has_confirmed_def session_wf_def participant_wf_def)
qed

theorem confirm_locks_iff_witness:
  "s_state (fst (confirm 20 2 4 (example_session []))) = Locked"
proof -
  have "s_state (example_session []) = Negotiating \<and> (2 :: u64) = s_revision (example_session []) \<and>
      find_participant (example_session []) 20 = Some RecipientSide \<and>
      \<not> confirmed (s_recipient (example_session [])) \<and> confirmed (s_initiator (example_session []))"
    by code_simp
  with confirm_locks_iff [OF example_session_wf, of "[]" 20 2 4] show ?thesis by simp
qed

text \<open>
  Retransmission is safe. A full offer snapshot that was applied can be sent again with any
  revision and at any time, and a confirmation can be sent again even after it locked the
  session: both succeed, report no change and leave the session as it is.
\<close>

theorem retransmission_is_idempotent:
  "(snd (update_offer p r items now s) = Success True \<longrightarrow>
      update_offer p r' items now' (fst (update_offer p r items now s)) =
        (fst (update_offer p r items now s), Success False)) \<and>
   (snd (confirm p r now s) = Success True \<longrightarrow>
      confirm p r now' (fst (confirm p r now s)) = (fst (confirm p r now s), Success False))"
  by (intro conjI impI update_offer_again confirm_again)

theorem retransmission_is_idempotent_witness:
  "confirm 20 2 5 (fst (confirm 20 2 4 (example_session []))) =
     (fst (confirm 20 2 4 (example_session [])), Success False)"
proof -
  have "snd (confirm 20 2 4 (example_session [])) = Success True" by code_simp
  with retransmission_is_idempotent [where p = 20 and r = 2 and now = 4 and now' = 5 and s = "example_session []"] show ?thesis by simp
qed

text \<open>
  Offer validation accepts exactly the offers with no zero item, no zero quantity and no
  item twice, and its canonical form is the one strictly sorted rearrangement of the lines,
  whatever order the sort leaves equal keys in.
\<close>

theorem offer_validation_correct:
  "(snd (validate_and_canonicalize_offer items) = NoError \<longleftrightarrow>
     (\<forall>l \<in> set items. line_item l \<noteq> 0 \<and> line_quantity l \<noteq> 0) \<and> distinct (map line_item items)) \<and>
   (snd (validate_and_canonicalize_offer items) = NoError \<longrightarrow>
     canonical_offer (fst (validate_and_canonicalize_offer items)) \<and>
     (\<forall>out. mset out = mset items \<and> sorted_wrt (<) (map line_item out) \<longrightarrow>
        out = fst (validate_and_canonicalize_offer items)))"
  using validated_canonical [of items "fst (validate_and_canonicalize_offer items)"]
    validated_offer [of items] validated_unique [of items]
  by (metis prod.collapse)

theorem offer_validation_correct_witness:
  "canonical_offer (fst (validate_and_canonicalize_offer
     [\<lparr>line_item = 9, line_quantity = 1\<rparr>, \<lparr>line_item = 4, line_quantity = 2\<rparr>]))"
proof -
  have "snd (validate_and_canonicalize_offer
     [\<lparr>line_item = 9, line_quantity = 1\<rparr>, \<lparr>line_item = 4, line_quantity = 2\<rparr>]) = NoError" by code_simp
  with offer_validation_correct [of "[\<lparr>line_item = 9, line_quantity = 1\<rparr>, \<lparr>line_item = 4, line_quantity = 2\<rparr>]"]
  show ?thesis by blast
qed

end
