(* ===== verification/TradeInventory.thy ===== *)
theory TradeInventory
  imports TradeSession
begin

text \<open>
  \<open>common/Trade/TradeInventory.{h,cpp}\<close>: the snapshots of two inventories and the mutation
  plan built from a locked session, which says by how much each player's stack of each item
  changes. A \<open>MutationPlanResult\<close> is \<open>Inl\<close> of its error or \<open>Inr\<close> of its plan.
\<close>

record InventoryItemState =
  inv_item :: ItemId
  inv_quantity :: u64
  inv_transferable :: bool
  inv_ambiguous :: bool

record InventorySnapshot =
  snap_owner :: PlayerId
  snap_items :: "InventoryItemState list"

text \<open>\<open>Delta\<close> is a signed 32-bit integer, kept here as an \<open>int\<close> in that range.\<close>

record InventoryMutation =
  mut_item :: ItemId
  mut_delta :: int

record PlayerMutationPlan =
  pm_player :: PlayerId
  pm_mutations :: "InventoryMutation list"

record MutationPlan =
  mp_session :: SessionId
  mp_revision :: Revision
  mp_initiator :: PlayerMutationPlan
  mp_recipient :: PlayerMutationPlan

section \<open>Building a plan\<close>

text \<open>The lookup returns the first entry of the item and whether there is a second one.\<close>

fun find_item_from ::
  "InventoryItemState option \<Rightarrow> InventoryItemState list \<Rightarrow> ItemId \<Rightarrow>
     InventoryItemState option \<times> bool" where
  "find_item_from found [] i = (found, False)"
| "find_item_from found (x # xs) i =
     (if inv_item x \<noteq> i then find_item_from found xs i
      else case found of
        Some y \<Rightarrow> (Some y, True)
      | None \<Rightarrow> find_item_from (Some x) xs i)"

definition find_inventory_item ::
  "InventorySnapshot \<Rightarrow> ItemId \<Rightarrow> InventoryItemState option \<times> bool" where
  "find_inventory_item sn i = find_item_from None (snap_items sn) i"

definition validate_offered_item :: "InventorySnapshot \<Rightarrow> OfferLine \<Rightarrow> Error" where
  "validate_offered_item sn l =
     (if line_quantity l > 0x7FFFFFFF then QuantityOverflow
      else case find_inventory_item sn (line_item l) of
        (None, _) \<Rightarrow> ItemUnavailable
      | (Some x, dup) \<Rightarrow>
          if dup \<or> inv_ambiguous x then AmbiguousItem
          else if \<not> inv_transferable x then ItemNotTransferable
          else if inv_quantity x < ucast (line_quantity l) then InsufficientQuantity
          else NoError)"

definition validate_incoming_item :: "InventorySnapshot \<Rightarrow> ItemId \<Rightarrow> Error" where
  "validate_incoming_item sn i =
     (case find_inventory_item sn i of
        (None, _) \<Rightarrow> NoError
      | (Some x, dup) \<Rightarrow>
          if dup \<or> inv_ambiguous x then AmbiguousItem
          else if \<not> inv_transferable x then ItemNotTransferable
          else NoError)"

definition add_mutation ::
  "InventoryMutation list \<Rightarrow> ItemId \<Rightarrow> int \<Rightarrow> Error + InventoryMutation list" where
  "add_mutation muts i delta =
     (let at = find (\<lambda>m. mut_item m = i) muts;
          combined = (case at of None \<Rightarrow> 0 | Some m \<Rightarrow> mut_delta m) + delta in
      if combined < int32_min \<or> combined > int32_max then Inl QuantityOverflow
      else case at of
        None \<Rightarrow> Inr (if combined \<noteq> 0 then muts @ [\<lparr>mut_item = i, mut_delta = combined\<rparr>] else muts)
      | Some m \<Rightarrow>
          if combined = 0 then Inr (erase_first (\<lambda>m. mut_item m = i) muts)
          else Inr (update_first (\<lambda>m. mut_item m = i) (\<lambda>m. m\<lparr>mut_delta := combined\<rparr>) muts))"

fun add_offer_to_plan ::
  "Offer \<Rightarrow> InventorySnapshot \<Rightarrow> InventorySnapshot \<Rightarrow> InventoryMutation list \<Rightarrow>
     InventoryMutation list \<Rightarrow> Error + InventoryMutation list \<times> InventoryMutation list" where
  "add_offer_to_plan [] owner_inv recv_inv owner_muts recv_muts = Inr (owner_muts, recv_muts)"
| "add_offer_to_plan (l # ls) owner_inv recv_inv owner_muts recv_muts =
     (let e = validate_offered_item owner_inv l; e' = validate_incoming_item recv_inv (line_item l);
          quantity = uint (line_quantity l) in
      if e \<noteq> NoError then Inl e
      else if e' \<noteq> NoError then Inl e'
      else case add_mutation owner_muts (line_item l) (- quantity) of
        Inl err \<Rightarrow> Inl err
      | Inr owner_muts' \<Rightarrow>
          (case add_mutation recv_muts (line_item l) quantity of
             Inl err \<Rightarrow> Inl err
           | Inr recv_muts' \<Rightarrow> add_offer_to_plan ls owner_inv recv_inv owner_muts' recv_muts'))"

definition canonicalize_plan :: "InventoryMutation list \<Rightarrow> InventoryMutation list" where
  "canonicalize_plan muts = sort_key mut_item muts"

definition build_mutation_plan ::
  "Session \<Rightarrow> InventorySnapshot \<Rightarrow> InventorySnapshot \<Rightarrow> Error + MutationPlan" where
  "build_mutation_plan s init_inv recv_inv =
     (if s_state s \<noteq> Locked then Inl InvalidState
      else if snap_owner init_inv \<noteq> part_id (s_initiator s)
              \<or> snap_owner recv_inv \<noteq> part_id (s_recipient s) then Inl InvalidParticipant
      else case add_offer_to_plan (current_offer (s_initiator s)) init_inv recv_inv [] [] of
        Inl e \<Rightarrow> Inl e
      | Inr (im, rm) \<Rightarrow>
          (case add_offer_to_plan (current_offer (s_recipient s)) recv_inv init_inv rm im of
             Inl e \<Rightarrow> Inl e
           | Inr (rm', im') \<Rightarrow>
               Inr \<lparr>mp_session = s_id s, mp_revision = s_revision s,
                    mp_initiator = \<lparr>pm_player = part_id (s_initiator s),
                                    pm_mutations = canonicalize_plan im'\<rparr>,
                    mp_recipient = \<lparr>pm_player = part_id (s_recipient s),
                                    pm_mutations = canonicalize_plan rm'\<rparr>\<rparr>))"

section \<open>What a plan stands for\<close>

text \<open>
  The abstract view: an offer promises a quantity of each item, a list of mutations is a change
  of each item, and a snapshot holds a quantity of each item.
\<close>

definition offered :: "Offer \<Rightarrow> ItemId \<Rightarrow> int" where
  "offered items i = (\<Sum>l\<leftarrow>items. if line_item l = i then uint (line_quantity l) else 0)"

definition delta_of :: "InventoryMutation list \<Rightarrow> ItemId \<Rightarrow> int" where
  "delta_of muts i = (\<Sum>m\<leftarrow>muts. if mut_item m = i then mut_delta m else 0)"

definition mutations_wf :: "InventoryMutation list \<Rightarrow> bool" where
  "mutations_wf muts \<longleftrightarrow> distinct (map mut_item muts) \<and>
     (\<forall>m \<in> set muts. mut_delta m \<noteq> 0 \<and> mut_item m \<noteq> 0 \<and>
        int32_min \<le> mut_delta m \<and> mut_delta m \<le> int32_max)"

definition entries_of :: "InventorySnapshot \<Rightarrow> ItemId \<Rightarrow> InventoryItemState list" where
  "entries_of sn i = filter (\<lambda>x. inv_item x = i) (snap_items sn)"

definition can_give :: "InventorySnapshot \<Rightarrow> OfferLine \<Rightarrow> bool" where
  "can_give sn l \<longleftrightarrow> uint (line_quantity l) \<le> int32_max \<and>
     (\<exists>x. entries_of sn (line_item l) = [x] \<and> \<not> inv_ambiguous x \<and> inv_transferable x \<and>
        uint (line_quantity l) \<le> uint (inv_quantity x))"

definition can_receive :: "InventorySnapshot \<Rightarrow> ItemId \<Rightarrow> bool" where
  "can_receive sn i \<longleftrightarrow> entries_of sn i = [] \<or>
     (\<exists>x. entries_of sn i = [x] \<and> \<not> inv_ambiguous x \<and> inv_transferable x)"

lemma find_item_from_filter:
  "find_item_from found xs i =
     (case found of
        Some y \<Rightarrow> (Some y, filter (\<lambda>x. inv_item x = i) xs \<noteq> [])
      | None \<Rightarrow> (case filter (\<lambda>x. inv_item x = i) xs of
           [] \<Rightarrow> (None, False) | x # ys \<Rightarrow> (Some x, ys \<noteq> [])))"
  by (induction xs arbitrary: found) (auto split: option.splits)

lemma find_inventory_item_entries:
  "find_inventory_item sn i =
     (case entries_of sn i of [] \<Rightarrow> (None, False) | x # ys \<Rightarrow> (Some x, ys \<noteq> []))"
  by (simp add: find_inventory_item_def find_item_from_filter entries_of_def)

lemma validate_offered_iff: "validate_offered_item sn l = NoError \<longleftrightarrow> can_give sn l"
  by (auto simp: validate_offered_item_def can_give_def find_inventory_item_entries
      word_less_def word_le_def split: list.splits)

lemma validate_incoming_iff: "validate_incoming_item sn i = NoError \<longleftrightarrow> can_receive sn i"
  by (auto simp: validate_incoming_item_def can_receive_def find_inventory_item_entries
      split: list.splits)

lemma delta_of_simps [simp]:
  "delta_of [] i = 0"
  "delta_of (m # ms) i = (if mut_item m = i then mut_delta m else 0) + delta_of ms i"
  "delta_of (ms @ ms') i = delta_of ms i + delta_of ms' i"
  by (simp_all add: delta_of_def)

lemma delta_of_sort [simp]: "delta_of (canonicalize_plan muts) i = delta_of muts i"
  unfolding delta_of_def canonicalize_plan_def
  by (metis (no_types, lifting) mset_map mset_sort sum_mset_sum_list)

lemma delta_of_notin: "i \<notin> mut_item ` set ms \<Longrightarrow> delta_of ms i = 0"
  by (induction ms) auto

lemma find_mutation:
  assumes "distinct (map mut_item muts)"
  shows "(case find (\<lambda>m. mut_item m = i) muts of None \<Rightarrow> 0 | Some m \<Rightarrow> mut_delta m) = delta_of muts i"
  using assms by (induction muts) (auto simp: delta_of_notin)

lemma offered_simps [simp]:
  "offered [] i = 0"
  "offered (l # ls) i = (if line_item l = i then uint (line_quantity l) else 0) + offered ls i"
  by (simp_all add: offered_def)

lemma offered_notin: "i \<notin> line_item ` set ls \<Longrightarrow> offered ls i = 0"
  by (induction ls) auto

lemma add_mutation_ok:
  assumes wf: "mutations_wf muts" and i: "i \<noteq> 0"
    and bounds: "int32_min \<le> delta_of muts i + d" "delta_of muts i + d \<le> int32_max"
  obtains muts' where "add_mutation muts i d = Inr muts'" and "mutations_wf muts'"
    and "\<And>j. delta_of muts' j = delta_of muts j + (if j = i then d else 0)"
proof (cases "find (\<lambda>m. mut_item m = i) muts")
  case None
  then have notin: "i \<notin> mut_item ` set muts" by (auto simp: find_None_iff)
  then have "delta_of muts i = 0" by (rule delta_of_notin)
  with None notin wf i bounds that show ?thesis
    by (auto simp: add_mutation_def mutations_wf_def)
next
  case (Some m)
  have cur: "mut_delta m = delta_of muts i"
    using find_mutation [of muts i] wf Some by (simp add: mutations_wf_def)
  let ?f = "\<lambda>m. m\<lparr>mut_delta := delta_of muts i + d\<rparr>"
  from find_split [OF Some, of ?f] obtain us vs where
    split: "muts = us @ m # vs" and m: "mut_item m = i"
    and upd: "update_first (\<lambda>m. mut_item m = i) ?f muts = us @ ?f m # vs"
    and era: "erase_first (\<lambda>m. mut_item m = i) muts = us @ vs" by blast
  have off: "delta_of us i = 0" "delta_of vs i = 0"
    using wf split m by (auto intro!: delta_of_notin simp: mutations_wf_def)
  show ?thesis
  proof (cases "delta_of muts i + d = 0")
    case True
    with Some cur era bounds have "add_mutation muts i d = Inr (us @ vs)"
      by (simp add: add_mutation_def)
    moreover have "mutations_wf (us @ vs)" using wf split by (auto simp: mutations_wf_def)
    moreover have "delta_of (us @ vs) j = delta_of muts j + (if j = i then d else 0)" for j
      using True split m off by auto
    ultimately show ?thesis by (rule that)
  next
    case False
    with Some cur upd bounds have "add_mutation muts i d = Inr (us @ ?f m # vs)"
      by (simp add: add_mutation_def)
    moreover have "mutations_wf (us @ ?f m # vs)"
      using wf split i m bounds False by (auto simp: mutations_wf_def)
    moreover have "delta_of (us @ ?f m # vs) j = delta_of muts j + (if j = i then d else 0)" for j
      using split m off by auto
    ultimately show ?thesis by (rule that)
  qed
qed

text \<open>A pass over one offer: it fails exactly when a line cannot be given or received.\<close>

definition lines_ok :: "Offer \<Rightarrow> InventorySnapshot \<Rightarrow> InventorySnapshot \<Rightarrow> bool" where
  "lines_ok ls giver receiver \<longleftrightarrow>
     (\<forall>l \<in> set ls. can_give giver l \<and> can_receive receiver (line_item l))"

lemma lines_ok_simps [simp]:
  "lines_ok [] g r"
  "lines_ok (l # ls) g r \<longleftrightarrow> can_give g l \<and> can_receive r (line_item l) \<and> lines_ok ls g r"
  by (auto simp: lines_ok_def)

definition pass_result ::
  "Offer \<Rightarrow> InventorySnapshot \<Rightarrow> InventorySnapshot \<Rightarrow> InventoryMutation list \<Rightarrow>
     InventoryMutation list \<Rightarrow> Error + InventoryMutation list \<times> InventoryMutation list \<Rightarrow> bool" where
  "pass_result ls g r om rm res \<longleftrightarrow>
     (case res of
        Inl e \<Rightarrow> \<not> lines_ok ls g r
      | Inr (om', rm') \<Rightarrow> lines_ok ls g r \<and> mutations_wf om' \<and> mutations_wf rm' \<and>
          (\<forall>i. delta_of om' i = delta_of om i - offered ls i) \<and>
          (\<forall>i. delta_of rm' i = delta_of rm i + offered ls i))"

lemma add_offer_pass:
  assumes "distinct (map line_item ls)" and "\<forall>l \<in> set ls. line_item l \<noteq> 0"
    and "mutations_wf om" and "mutations_wf rm"
    and "\<forall>l \<in> set ls. 0 \<le> delta_of om (line_item l) \<and> delta_of om (line_item l) \<le> int32_max \<and>
           delta_of rm (line_item l) = - delta_of om (line_item l)"
  shows "pass_result ls g r om rm (add_offer_to_plan ls g r om rm)"
  using assms
proof (induction ls arbitrary: om rm)
  case Nil
  then show ?case by (simp add: pass_result_def)
next
  case (Cons l ls)
  let ?i = "line_item l" and ?q = "uint (line_quantity l)"
  show ?case
  proof (cases "can_give g l \<and> can_receive r ?i")
    case False
    then show ?thesis
      by (auto simp: pass_result_def validate_offered_iff validate_incoming_iff)
  next
    case True
    then have q: "?q \<le> int32_max" by (simp add: can_give_def)
    have q0: "0 \<le> ?q" by simp
    obtain om' where om': "add_mutation om ?i (- ?q) = Inr om'" "mutations_wf om'"
      "\<And>j. delta_of om' j = delta_of om j + (if j = ?i then - ?q else 0)"
      by (rule add_mutation_ok [of om ?i "- ?q"]) (use Cons.prems q q0 in \<open>simp_all, linarith?\<close>)
    obtain rm' where rm': "add_mutation rm ?i ?q = Inr rm'" "mutations_wf rm'"
      "\<And>j. delta_of rm' j = delta_of rm j + (if j = ?i then ?q else 0)"
      by (rule add_mutation_ok [of rm ?i ?q]) (use Cons.prems q q0 in \<open>simp_all, linarith?\<close>)
    have "\<forall>la \<in> set ls. line_item la \<noteq> ?i"
      using Cons.prems(1) by (simp add: image_iff) metis
    then have "pass_result ls g r om' rm' (add_offer_to_plan ls g r om' rm')"
      using Cons.prems om' rm' by (intro Cons.IH) simp_all
    with True om' rm' show ?thesis
      by (auto simp: pass_result_def validate_offered_iff validate_incoming_iff split: sum.splits)
  qed
qed

lemma canonical_offerD:
  "canonical_offer items \<Longrightarrow> distinct (map line_item items)"
  "canonical_offer items \<Longrightarrow> \<forall>l \<in> set items. line_item l \<noteq> 0"
  by (auto simp: canonical_offer_def strict_sorted_iff)

lemma session_wf_offers:
  assumes "session_wf s"
  shows "canonical_offer (current_offer (s_initiator s))"
    and "canonical_offer (current_offer (s_recipient s))"
  using assms by (simp_all add: session_wf_def participant_wf_def)

lemma offered_nonneg: "0 \<le> offered ls i"
  by (induction ls) auto

lemma offered_le:
  assumes "distinct (map line_item ls)" and "\<forall>l \<in> set ls. uint (line_quantity l) \<le> n" and "0 \<le> n"
  shows "offered ls i \<le> n"
  using assms by (induction ls) (auto simp: offered_notin)

lemma lines_ok_offered_le:
  "distinct (map line_item ls) \<Longrightarrow> lines_ok ls g r \<Longrightarrow> offered ls i \<le> int32_max"
  by (intro offered_le) (auto simp: lines_ok_def can_give_def)

lemma lines_ok_enough:
  assumes "canonical_offer ls" and "lines_ok ls g r" and "entries_of g i = [x]"
  shows "offered ls i \<le> uint (inv_quantity x)"
proof (cases "i \<in> line_item ` set ls")
  case False
  then show ?thesis by (simp add: offered_notin)
next
  case True
  then obtain l us vs where ls: "ls = us @ l # vs" and l: "line_item l = i"
    by (metis imageE split_list)
  have "offered us i = 0" "offered vs i = 0"
    using canonical_offerD(1) [OF assms(1)] ls l by (auto intro!: offered_notin)
  then have "offered ls i = uint (line_quantity l)"
    using ls l by (simp add: offered_def)
  moreover have "can_give g l" using assms(2) ls by (simp add: lines_ok_def)
  ultimately show ?thesis using assms(3) l by (auto simp: can_give_def)
qed

text \<open>Both passes together: the plan exists exactly when every line can change hands.\<close>

lemma both_passes:
  assumes wf: "session_wf s"
  shows "case add_offer_to_plan (current_offer (s_initiator s)) a b [] [] of
      Inl e \<Rightarrow> \<not> lines_ok (current_offer (s_initiator s)) a b
    | Inr (im, rm) \<Rightarrow> lines_ok (current_offer (s_initiator s)) a b \<and>
        pass_result (current_offer (s_recipient s)) b a rm im
          (add_offer_to_plan (current_offer (s_recipient s)) b a rm im) \<and>
        (\<forall>i. delta_of im i = - offered (current_offer (s_initiator s)) i) \<and>
        (\<forall>i. delta_of rm i = offered (current_offer (s_initiator s)) i)"
proof -
  let ?I = "current_offer (s_initiator s)" and ?R = "current_offer (s_recipient s)"
  note offers = session_wf_offers [OF wf]
  have first: "pass_result ?I a b [] [] (add_offer_to_plan ?I a b [] [])"
    by (rule add_offer_pass)
      (auto simp: canonical_offerD [OF offers(1)] canonical_offerD(2) [OF offers(1), rule_format]
        mutations_wf_def)
  show ?thesis
  proof (cases "add_offer_to_plan ?I a b [] []")
    case (Inl e)
    with first show ?thesis by (simp add: pass_result_def)
  next
    case (Inr pr)
    then obtain im rm where muts: "add_offer_to_plan ?I a b [] [] = Inr (im, rm)" by (cases pr) auto
    with first have ok: "lines_ok ?I a b" "mutations_wf im" "mutations_wf rm"
      "\<And>i. delta_of im i = - offered ?I i" "\<And>i. delta_of rm i = offered ?I i"
      by (auto simp: pass_result_def)
    have "pass_result ?R b a rm im (add_offer_to_plan ?R b a rm im)"
      by (rule add_offer_pass)
        (use ok offers in \<open>auto simp: canonical_offerD offered_nonneg intro: lines_ok_offered_le\<close>)
    with muts ok show ?thesis by simp
  qed
qed

lemma canonicalize_plan_wf:
  assumes "mutations_wf muts"
  shows "mutations_wf (canonicalize_plan muts)"
    and "sorted_wrt (<) (map mut_item (canonicalize_plan muts))"
  using assms
  by (auto simp: mutations_wf_def canonicalize_plan_def strict_sorted_map_sort_key)

lemma plan_of_locked:
  assumes "session_wf s"
  shows "(\<exists>plan. build_mutation_plan s a b = Inr plan) \<longleftrightarrow>
     s_state s = Locked \<and> snap_owner a = part_id (s_initiator s) \<and>
     snap_owner b = part_id (s_recipient s) \<and>
     lines_ok (current_offer (s_initiator s)) a b \<and> lines_ok (current_offer (s_recipient s)) b a"
  using both_passes [OF assms, of a b]
  by (auto simp: build_mutation_plan_def pass_result_def split: sum.splits)

lemma plan_contents:
  assumes "session_wf s" and "build_mutation_plan s a b = Inr plan"
  shows "mp_session plan = s_id s" and "mp_revision plan = s_revision s"
    and "pm_player (mp_initiator plan) = part_id (s_initiator s)"
    and "pm_player (mp_recipient plan) = part_id (s_recipient s)"
    and "mutations_wf (pm_mutations (mp_initiator plan))"
    and "mutations_wf (pm_mutations (mp_recipient plan))"
    and "sorted_wrt (<) (map mut_item (pm_mutations (mp_initiator plan)))"
    and "sorted_wrt (<) (map mut_item (pm_mutations (mp_recipient plan)))"
    and "delta_of (pm_mutations (mp_initiator plan)) i =
      offered (current_offer (s_recipient s)) i - offered (current_offer (s_initiator s)) i"
    and "delta_of (pm_mutations (mp_recipient plan)) i =
      offered (current_offer (s_initiator s)) i - offered (current_offer (s_recipient s)) i"
    and "lines_ok (current_offer (s_initiator s)) a b"
    and "lines_ok (current_offer (s_recipient s)) b a"
proof -
  from assms(2) both_passes [OF assms(1), of a b] obtain im rm where
    ok: "lines_ok (current_offer (s_initiator s)) a b" "lines_ok (current_offer (s_recipient s)) b a"
    and muts: "mutations_wf im" "mutations_wf rm"
    and im: "\<And>i. delta_of im i =
      offered (current_offer (s_recipient s)) i - offered (current_offer (s_initiator s)) i"
    and rm: "\<And>i. delta_of rm i =
      offered (current_offer (s_initiator s)) i - offered (current_offer (s_recipient s)) i"
    and plan: "plan = \<lparr>mp_session = s_id s, mp_revision = s_revision s,
      mp_initiator = \<lparr>pm_player = part_id (s_initiator s), pm_mutations = canonicalize_plan im\<rparr>,
      mp_recipient = \<lparr>pm_player = part_id (s_recipient s), pm_mutations = canonicalize_plan rm\<rparr>\<rparr>"
    by (auto simp: build_mutation_plan_def pass_result_def split: sum.splits if_splits)
  show "mp_session plan = s_id s" and "mp_revision plan = s_revision s"
    and "pm_player (mp_initiator plan) = part_id (s_initiator s)"
    and "pm_player (mp_recipient plan) = part_id (s_recipient s)"
    and "mutations_wf (pm_mutations (mp_initiator plan))"
    and "mutations_wf (pm_mutations (mp_recipient plan))"
    and "sorted_wrt (<) (map mut_item (pm_mutations (mp_initiator plan)))"
    and "sorted_wrt (<) (map mut_item (pm_mutations (mp_recipient plan)))"
    and "delta_of (pm_mutations (mp_initiator plan)) i =
      offered (current_offer (s_recipient s)) i - offered (current_offer (s_initiator s)) i"
    and "delta_of (pm_mutations (mp_recipient plan)) i =
      offered (current_offer (s_initiator s)) i - offered (current_offer (s_recipient s)) i"
    and "lines_ok (current_offer (s_initiator s)) a b"
    and "lines_ok (current_offer (s_recipient s)) b a"
    using plan im rm ok canonicalize_plan_wf [OF muts(1)] canonicalize_plan_wf [OF muts(2)] by simp_all
qed

text \<open>No stack is asked to drop below zero.\<close>

lemma plan_enough:
  assumes "session_wf s" and "build_mutation_plan s a b = Inr plan"
  shows "entries_of a i = [x] \<Longrightarrow> 0 \<le> uint (inv_quantity x) + delta_of (pm_mutations (mp_initiator plan)) i"
    and "entries_of b i = [x] \<Longrightarrow> 0 \<le> uint (inv_quantity x) + delta_of (pm_mutations (mp_recipient plan)) i"
proof -
  note plan = plan_contents [OF assms] and offers = session_wf_offers [OF assms(1)]
  show "0 \<le> uint (inv_quantity x) + delta_of (pm_mutations (mp_initiator plan)) i" if "entries_of a i = [x]"
    using lines_ok_enough [OF offers(1) plan(11) that] plan(9) [of i]
      offered_nonneg [of "current_offer (s_recipient s)" i] by linarith
  show "0 \<le> uint (inv_quantity x) + delta_of (pm_mutations (mp_recipient plan)) i" if "entries_of b i = [x]"
    using lines_ok_enough [OF offers(2) plan(12) that] plan(10) [of i]
      offered_nonneg [of "current_offer (s_initiator s)" i] by linarith
qed

text \<open>The same session locked, two inventories for it, and the plan they give.\<close>

definition example_snapshot :: "PlayerId \<Rightarrow> u64 \<Rightarrow> InventorySnapshot" where
  "example_snapshot p n = \<lparr>snap_owner = p, snap_items =
     [\<lparr>inv_item = 15, inv_quantity = n, inv_transferable = True, inv_ambiguous = False\<rparr>]\<rparr>"

definition locked_session :: Session where
  "locked_session = example_session [OpConfirm 20 2 4]"

lemma locked_session_wf: "session_wf locked_session"
  unfolding locked_session_def by (rule example_session_wf)

definition example_plan :: MutationPlan where
  "example_plan = \<lparr>mp_session = 1, mp_revision = 2,
     mp_initiator = \<lparr>pm_player = 10, pm_mutations = [\<lparr>mut_item = 15, mut_delta = - 7\<rparr>]\<rparr>,
     mp_recipient = \<lparr>pm_player = 20, pm_mutations = [\<lparr>mut_item = 15, mut_delta = 7\<rparr>]\<rparr>\<rparr>"

lemma example_plan_built:
  "build_mutation_plan locked_session (example_snapshot 10 50) (example_snapshot 20 1) = Inr example_plan"
  by code_simp

section \<open>Properties\<close>

text \<open>
  Building a plan for a well-formed session succeeds exactly when the session is locked,
  the two inventories belong to its members, and every offered line can change hands: its giver
  holds the item in one unambiguous transferable entry of at least the offered quantity, which
  fits a signed 32-bit delta, and its receiver holds it in at most one such entry. In particular
  combining the deltas of both offers never overflows.
\<close>

theorem build_plan_succeeds_iff:
  assumes "session_wf s"
  shows "(\<exists>plan. build_mutation_plan s a b = Inr plan) \<longleftrightarrow>
     s_state s = Locked \<and> snap_owner a = part_id (s_initiator s) \<and>
     snap_owner b = part_id (s_recipient s) \<and>
     lines_ok (current_offer (s_initiator s)) a b \<and> lines_ok (current_offer (s_recipient s)) b a"
  by (rule plan_of_locked [OF assms])

theorem build_plan_succeeds_iff_witness:
  "lines_ok (current_offer (s_initiator locked_session)) (example_snapshot 10 50) (example_snapshot 20 1)"
  using build_plan_succeeds_iff [OF locked_session_wf, of "example_snapshot 10 50" "example_snapshot 20 1"]
    example_plan_built by blast

text \<open>
  A plan does what the two offers say. It names the session, its revision and its members;
  each side's mutations are strictly sorted by item, non-zero and 32-bit; the initiator's change
  of every item is what the recipient offers less what the initiator offers, the recipient's is
  the opposite, so no item is created or lost; and no stack is asked to drop below zero.
\<close>

theorem build_plan_meaning:
  assumes "session_wf s" and "build_mutation_plan s a b = Inr plan"
  shows "mp_session plan = s_id s \<and> mp_revision plan = s_revision s \<and>
     pm_player (mp_initiator plan) = part_id (s_initiator s) \<and>
     pm_player (mp_recipient plan) = part_id (s_recipient s) \<and>
     (\<forall>muts \<in> {pm_mutations (mp_initiator plan), pm_mutations (mp_recipient plan)}.
        mutations_wf muts \<and> sorted_wrt (<) (map mut_item muts)) \<and>
     (\<forall>i. delta_of (pm_mutations (mp_initiator plan)) i =
            offered (current_offer (s_recipient s)) i - offered (current_offer (s_initiator s)) i) \<and>
     (\<forall>i. delta_of (pm_mutations (mp_recipient plan)) i =
            - delta_of (pm_mutations (mp_initiator plan)) i) \<and>
     (\<forall>i x. entries_of a i = [x] \<longrightarrow>
        0 \<le> uint (inv_quantity x) + delta_of (pm_mutations (mp_initiator plan)) i) \<and>
     (\<forall>i x. entries_of b i = [x] \<longrightarrow>
        0 \<le> uint (inv_quantity x) + delta_of (pm_mutations (mp_recipient plan)) i)"
  using plan_contents [OF assms] plan_enough [OF assms] by simp

theorem build_plan_meaning_witness:
  "delta_of (pm_mutations (mp_recipient example_plan)) 15 = - delta_of (pm_mutations (mp_initiator example_plan)) 15"
  using build_plan_meaning [OF locked_session_wf example_plan_built] by blast

end
