(* ===== verification/Settlement.thy ===== *)
theory Settlement
  imports TradeTypes
begin

text \<open>
  The contract that an application and a reconciliation share: two members each report one
  outcome; the first report of a member is recorded for good, the same report again is accepted
  without change, a different one is a conflict, and a stranger's report is refused. A client of
  this interface sees the recorded outcomes as a partial map from members.
\<close>

type_synonym 'o report = "PlayerId \<times> 'o \<times> Tick"

fun first_report :: "PlayerId \<Rightarrow> 'o report list \<Rightarrow> 'o option" where
  "first_report p [] = None"
| "first_report p ((q, out, t) # rs) = (if q = p then Some out else first_report p rs)"

locale settlement =
  fixes report :: "'s \<Rightarrow> 'o report \<Rightarrow> 's \<times> Result"
    and wf_state :: "'s \<Rightarrow> bool"
    and member :: "'s \<Rightarrow> PlayerId \<Rightarrow> bool"
    and recorded :: "'s \<Rightarrow> PlayerId \<Rightarrow> 'o option"
    and conflict :: Error
  assumes report_wf: "wf_state s \<Longrightarrow> wf_state (fst (report s r))"
    and report_member: "wf_state s \<Longrightarrow> member (fst (report s r)) = member s"
    and report_stranger: "wf_state s \<Longrightarrow> \<not> member s p \<Longrightarrow>
          report s (p, out, t) = (s, Failure NotParticipant)"
    and report_first: "wf_state s \<Longrightarrow> member s p \<Longrightarrow> recorded s p = None \<Longrightarrow>
          recorded (fst (report s (p, out, t))) = (recorded s)(p \<mapsto> out) \<and>
          snd (report s (p, out, t)) = Success True"
    and report_again: "wf_state s \<Longrightarrow> member s p \<Longrightarrow> recorded s p = Some out' \<Longrightarrow>
          report s (p, out, t) =
            (s, if out = out' then Success False else Failure conflict)"
begin

lemma report_recorded:
  assumes "wf_state s"
  shows "recorded (fst (report s (p, out, t))) =
     (if member s p \<and> recorded s p = None then (recorded s)(p \<mapsto> out) else recorded s)"
proof (cases "member s p")
  case False
  with assms show ?thesis by (simp add: report_stranger)
next
  case True
  with assms show ?thesis
    by (cases "recorded s p") (simp_all add: report_first report_again)
qed

lemma run_wf: "wf_state s \<Longrightarrow> wf_state (run_ops report s rs)"
  by (induction rs arbitrary: s) (simp_all add: report_wf)

lemma run_member: "wf_state s \<Longrightarrow> member (run_ops report s rs) = member s"
  by (induction rs arbitrary: s) (simp_all add: report_wf report_member)

text \<open>Whatever is reported and however often, the first report of each member stands.\<close>

lemma first_report_stands:
  assumes "wf_state s" and "member s p"
  shows "recorded (run_ops report s rs) p =
     (case recorded s p of Some out \<Rightarrow> Some out | None \<Rightarrow> first_report p rs)"
  using assms
proof (induction rs arbitrary: s)
  case Nil
  then show ?case by (simp split: option.splits)
next
  case (Cons r rs)
  obtain q out t where r: "r = (q, out, t)" by (cases r) auto
  let ?s = "fst (report s (q, out, t))"
  have "recorded (run_ops report ?s rs) p =
      (case recorded ?s p of Some out \<Rightarrow> Some out | None \<Rightarrow> first_report p rs)"
    using Cons.prems by (intro Cons.IH) (simp_all add: report_wf report_member)
  with r Cons.prems show ?case
    by (auto simp: report_recorded split: option.splits)
qed

end

end
