(* ===== verification/TradeApplication.thy ===== *)
theory TradeApplication
  imports TradeInventory Settlement
begin

text \<open>
  \<open>common/Trade/TradeApplication.{h,cpp}\<close>: the application of a mutation plan on the two
  clients, each of which reports one outcome before a deadline. Enumerators that two enums share
  carry the prefix \<open>Apply_\<close>.
\<close>

datatype ApplyOutcome =
    Apply_Success | Apply_MalformedPlan | Apply_SessionMismatch | Apply_LocalPlayerUnavailable
  | Apply_ItemUnavailable | Apply_InsufficientQuantity | Apply_ItemNotTransferable
  | Apply_AmbiguousItem | Apply_LocalStateMismatch

datatype ApplyStatus = Apply_Pending | Apply_Succeeded | Apply_Failed

record ApplyParticipant =
  ap_id :: PlayerId
  ap_status :: ApplyStatus
  ap_outcome :: ApplyOutcome

record Application =
  a_id :: ApplyId
  a_plan :: MutationPlan
  a_initiator :: ApplyParticipant
  a_recipient :: ApplyParticipant
  a_started :: Tick
  a_last_activity :: Tick
  a_deadline :: Tick

definition new_application :: "ApplyId \<Rightarrow> MutationPlan \<Rightarrow> Tick \<Rightarrow> Tick \<Rightarrow> Application" where
  "new_application i plan started deadline =
     \<lparr>a_id = i, a_plan = plan,
      a_initiator = \<lparr>ap_id = pm_player (mp_initiator plan), ap_status = Apply_Pending,
                     ap_outcome = Apply_Success\<rparr>,
      a_recipient = \<lparr>ap_id = pm_player (mp_recipient plan), ap_status = Apply_Pending,
                     ap_outcome = Apply_Success\<rparr>,
      a_started = started, a_last_activity = started, a_deadline = deadline\<rparr>"

definition app_is_participant :: "Application \<Rightarrow> PlayerId \<Rightarrow> bool" where
  "app_is_participant a p \<longleftrightarrow> ap_id (a_initiator a) = p \<or> ap_id (a_recipient a) = p"

definition app_is_settled :: "Application \<Rightarrow> bool" where
  "app_is_settled a \<longleftrightarrow>
     ap_status (a_initiator a) \<noteq> Apply_Pending \<and> ap_status (a_recipient a) \<noteq> Apply_Pending"

definition app_all_succeeded :: "Application \<Rightarrow> bool" where
  "app_all_succeeded a \<longleftrightarrow>
     ap_status (a_initiator a) = Apply_Succeeded \<and> ap_status (a_recipient a) = Apply_Succeeded"

definition app_has_failed :: "Application \<Rightarrow> bool" where
  "app_has_failed a \<longleftrightarrow>
     ap_status (a_initiator a) = Apply_Failed \<or> ap_status (a_recipient a) = Apply_Failed"

definition app_is_timed_out :: "Application \<Rightarrow> Tick \<Rightarrow> bool" where
  "app_is_timed_out a now \<longleftrightarrow> \<not> app_is_settled a \<and> now \<ge> a_deadline a"

definition app_find_participant :: "Application \<Rightarrow> PlayerId \<Rightarrow> Side option" where
  "app_find_participant a p =
     (if ap_id (a_initiator a) = p then Some InitiatorSide
      else if ap_id (a_recipient a) = p then Some RecipientSide
      else None)"

fun app_participant :: "Side \<Rightarrow> Application \<Rightarrow> ApplyParticipant" where
  "app_participant InitiatorSide a = a_initiator a"
| "app_participant RecipientSide a = a_recipient a"

fun app_set_participant :: "Side \<Rightarrow> ApplyParticipant \<Rightarrow> Application \<Rightarrow> Application" where
  "app_set_participant InitiatorSide p a = a\<lparr>a_initiator := p\<rparr>"
| "app_set_participant RecipientSide p a = a\<lparr>a_recipient := p\<rparr>"

definition app_touch :: "Tick \<Rightarrow> Application \<Rightarrow> Application" where
  "app_touch now a = a\<lparr>a_last_activity := touch now (a_last_activity a)\<rparr>"

definition status_of_outcome :: "ApplyOutcome \<Rightarrow> ApplyStatus" where
  "status_of_outcome out = (if out = Apply_Success then Apply_Succeeded else Apply_Failed)"

definition app_record_result ::
  "PlayerId \<Rightarrow> ApplyOutcome \<Rightarrow> Tick \<Rightarrow> Application \<Rightarrow> Application \<times> Result" where
  "app_record_result p out now a =
     (case app_find_participant a p of
        None \<Rightarrow> (a, Failure NotParticipant)
      | Some side \<Rightarrow>
          (let me = app_participant side a; new_status = status_of_outcome out in
           if ap_status me = Apply_Pending then
             (app_touch now
                (app_set_participant side (me\<lparr>ap_status := new_status, ap_outcome := out\<rparr>) a),
              Success True)
           else if ap_status me = new_status \<and> ap_outcome me = out then (a, Success False)
           else (a, Failure ApplyResultConflict)))"

section \<open>An application is a settlement\<close>

text \<open>A settled status always goes with its outcome.\<close>

definition apply_participant_wf :: "ApplyParticipant \<Rightarrow> bool" where
  "apply_participant_wf p \<longleftrightarrow>
     ap_status p \<noteq> Apply_Pending \<longrightarrow> ap_status p = status_of_outcome (ap_outcome p)"

definition application_wf :: "Application \<Rightarrow> bool" where
  "application_wf a \<longleftrightarrow>
     apply_participant_wf (a_initiator a) \<and> apply_participant_wf (a_recipient a)"

definition app_recorded :: "Application \<Rightarrow> PlayerId \<Rightarrow> ApplyOutcome option" where
  "app_recorded a p =
     (case app_find_participant a p of
        None \<Rightarrow> None
      | Some side \<Rightarrow>
          if ap_status (app_participant side a) = Apply_Pending then None
          else Some (ap_outcome (app_participant side a)))"

fun app_report :: "Application \<Rightarrow> ApplyOutcome report \<Rightarrow> Application \<times> Result" where
  "app_report a (p, out, t) = app_record_result p out t a"

lemma app_find_participant_simps [simp]:
  "app_find_participant (app_touch t a) p = app_find_participant a p"
  "ap_id q = ap_id (app_participant side a) \<Longrightarrow>
     app_find_participant (app_set_participant side q a) p = app_find_participant a p"
  by (cases side; simp add: app_find_participant_def app_touch_def)+

lemma app_participant_simps [simp]:
  "app_participant side (app_touch t a) = app_participant side a"
  "app_participant side (app_set_participant side q a) = q"
  "side' \<noteq> side \<Longrightarrow> app_participant side' (app_set_participant side q a) = app_participant side' a"
  by (cases side; cases side'; simp add: app_touch_def)+

lemma application_wf_side: "application_wf a \<longleftrightarrow> (\<forall>side. apply_participant_wf (app_participant side a))"
  unfolding application_wf_def by (metis Side.exhaust app_participant.simps)

lemma app_find_participant_inj:
  "app_find_participant a p = Some side \<Longrightarrow> app_find_participant a q = Some side \<Longrightarrow> p = q"
  by (auto simp: app_find_participant_def split: if_splits)

lemma app_is_participant_find: "app_is_participant a p \<longleftrightarrow> app_find_participant a p \<noteq> None"
  by (auto simp: app_is_participant_def app_find_participant_def)

lemma status_of_outcome_not_pending [simp]: "status_of_outcome out \<noteq> Apply_Pending"
  by (simp add: status_of_outcome_def)

lemma app_report_first:
  assumes "app_find_participant a p = Some side" and "ap_status (app_participant side a) = Apply_Pending"
  shows "app_recorded (fst (app_record_result p out t a)) = (app_recorded a)(p \<mapsto> out)"
proof
  fix q
  show "app_recorded (fst (app_record_result p out t a)) q = ((app_recorded a)(p \<mapsto> out)) q"
  proof (cases "app_find_participant a q")
    case None
    with assms show ?thesis
      by (auto simp: app_recorded_def app_record_result_def)
  next
    case (Some side')
    with assms app_find_participant_inj [of a p side q] show ?thesis
      by (cases "side' = side") (auto simp: app_recorded_def app_record_result_def)
  qed
qed

interpretation app: settlement app_report application_wf app_is_participant app_recorded ApplyResultConflict
proof
  fix a and r :: "ApplyOutcome report"
  assume wf: "application_wf a"
  obtain p out t where r: "r = (p, out, t)" by (cases r) auto
  show "application_wf (fst (app_report a r))"
  proof (cases "app_find_participant a p")
    case None
    with wf r show ?thesis by (simp add: app_record_result_def)
  next
    case (Some side)
    have "apply_participant_wf (app_participant side' (fst (app_report a r)))" for side'
      using wf r Some
      by (cases "side' = side")
        (auto simp: application_wf_side app_record_result_def apply_participant_wf_def)
    then show ?thesis by (simp add: application_wf_side)
  qed
  show "app_is_participant (fst (app_report a r)) = app_is_participant a"
    using r by (auto simp: fun_eq_iff app_is_participant_find app_record_result_def split: option.splits)
next
  fix a p out t
  assume "\<not> app_is_participant a p"
  then show "app_report a (p, out, t) = (a, Failure NotParticipant)"
    by (simp add: app_is_participant_find app_record_result_def)
next
  fix a p out t
  assume "app_is_participant a p" and "app_recorded a p = None"
  then obtain side where s: "app_find_participant a p = Some side"
    "ap_status (app_participant side a) = Apply_Pending"
    by (auto simp: app_is_participant_find app_recorded_def split: if_splits)
  then show "app_recorded (fst (app_report a (p, out, t))) = (app_recorded a)(p \<mapsto> out) \<and>
      snd (app_report a (p, out, t)) = Success True"
    by (simp add: app_report_first) (simp add: app_record_result_def)
next
  fix a p out out' t
  assume "application_wf a" and "app_is_participant a p" and "app_recorded a p = Some out'"
  then show "app_report a (p, out, t) =
      (a, if out = out' then Success False else Failure ApplyResultConflict)"
    by (auto simp: app_recorded_def app_record_result_def application_wf_side
        apply_participant_wf_def split: option.splits if_splits)
qed

lemma new_application_wf: "application_wf (new_application i plan st dl)"
  by (simp add: new_application_def application_wf_def apply_participant_wf_def)

lemma app_recorded_new: "app_recorded (new_application i plan st dl) p = None"
  by (simp add: new_application_def app_recorded_def app_find_participant_def)

text \<open>The two verdicts of the service, over the recorded outcomes.\<close>

lemma app_verdicts:
  assumes "application_wf a" and "ap_id (a_initiator a) \<noteq> ap_id (a_recipient a)"
  shows "app_all_succeeded a \<longleftrightarrow>
      app_recorded a (ap_id (a_initiator a)) = Some Apply_Success \<and>
      app_recorded a (ap_id (a_recipient a)) = Some Apply_Success"
    and "app_has_failed a \<longleftrightarrow>
      (\<exists>p out. app_recorded a p = Some out \<and> out \<noteq> Apply_Success)"
proof -
  show "app_all_succeeded a \<longleftrightarrow>
      app_recorded a (ap_id (a_initiator a)) = Some Apply_Success \<and>
      app_recorded a (ap_id (a_recipient a)) = Some Apply_Success"
    using assms
    by (auto simp: app_all_succeeded_def app_recorded_def app_find_participant_def application_wf_def
        apply_participant_wf_def status_of_outcome_def split: if_splits)
  have "app_has_failed a \<longleftrightarrow>
      (\<exists>p \<in> {ap_id (a_initiator a), ap_id (a_recipient a)}.
        \<exists>out. app_recorded a p = Some out \<and> out \<noteq> Apply_Success)"
    using assms
    by (cases "ap_status (a_initiator a)"; cases "ap_status (a_recipient a)")
      (auto simp: app_has_failed_def app_recorded_def app_find_participant_def application_wf_def
        apply_participant_wf_def status_of_outcome_def split: if_splits)
  moreover have "p \<in> {ap_id (a_initiator a), ap_id (a_recipient a)}" if "app_recorded a p = Some out" for p out
    using that by (auto simp: app_recorded_def app_find_participant_def split: option.splits if_splits)
  ultimately show "app_has_failed a \<longleftrightarrow>
      (\<exists>p out. app_recorded a p = Some out \<and> out \<noteq> Apply_Success)" by blast
qed

lemma app_ids_run:
  "ap_id (a_initiator (run_ops app_report a rs)) = ap_id (a_initiator a) \<and>
   ap_id (a_recipient (run_ops app_report a rs)) = ap_id (a_recipient a)"
proof (induction rs arbitrary: a)
  case (Cons r rs)
  obtain p out t where r: "r = (p, out, t)" by (cases r) auto
  have "ap_id (a_initiator (fst (app_record_result p out t a))) = ap_id (a_initiator a) \<and>
    ap_id (a_recipient (fst (app_record_result p out t a))) = ap_id (a_recipient a)"
  proof (cases "app_find_participant a p")
    case (Some side)
    then show ?thesis by (cases side) (simp_all add: app_record_result_def app_touch_def)
  qed (simp add: app_record_result_def)
  with r Cons show ?case by simp
qed simp

lemma app_recorded_run:
  assumes "p \<in> {pm_player (mp_initiator plan), pm_player (mp_recipient plan)}"
  shows "app_recorded (run_ops app_report (new_application i plan st dl) reports) p = first_report p reports"
proof -
  have "app_is_participant (new_application i plan st dl) p"
    using assms by (auto simp: app_is_participant_def new_application_def)
  from app.first_report_stands [OF new_application_wf this, where rs = reports]
  show ?thesis by (simp add: app_recorded_new)
qed

lemma app_verdict_run:
  assumes "pm_player (mp_initiator plan) \<noteq> pm_player (mp_recipient plan)"
  shows "app_all_succeeded (run_ops app_report (new_application i plan st dl) reports) \<longleftrightarrow>
      first_report (pm_player (mp_initiator plan)) reports = Some Apply_Success \<and>
      first_report (pm_player (mp_recipient plan)) reports = Some Apply_Success"
    and "app_has_failed (run_ops app_report (new_application i plan st dl) reports) \<longleftrightarrow>
      (\<exists>p \<in> {pm_player (mp_initiator plan), pm_player (mp_recipient plan)}.
        \<exists>out. first_report p reports = Some out \<and> out \<noteq> Apply_Success)"
proof -
  let ?a = "run_ops app_report (new_application i plan st dl) reports"
  let ?P = "{pm_player (mp_initiator plan), pm_player (mp_recipient plan)}"
  have ids: "ap_id (a_initiator ?a) = pm_player (mp_initiator plan)"
    "ap_id (a_recipient ?a) = pm_player (mp_recipient plan)"
    using app_ids_run [of "new_application i plan st dl" reports] by (simp_all add: new_application_def)
  have wf: "application_wf ?a" by (rule app.run_wf) (rule new_application_wf)
  note verdicts = app_verdicts [OF wf]
  show "app_all_succeeded ?a \<longleftrightarrow>
      first_report (pm_player (mp_initiator plan)) reports = Some Apply_Success \<and>
      first_report (pm_player (mp_recipient plan)) reports = Some Apply_Success"
    using verdicts(1) ids assms by (simp add: app_recorded_run)
  have "p \<in> ?P" if "app_recorded ?a p = Some out" for p out
    using that ids by (auto simp: app_recorded_def app_find_participant_def split: option.splits if_splits)
  then have "(\<exists>p out. app_recorded ?a p = Some out \<and> out \<noteq> Apply_Success) \<longleftrightarrow>
      (\<exists>p \<in> ?P. \<exists>out. app_recorded ?a p = Some out \<and> out \<noteq> Apply_Success)" by blast
  also have "\<dots> \<longleftrightarrow> (\<exists>p \<in> ?P. \<exists>out. first_report p reports = Some out \<and> out \<noteq> Apply_Success)"
    by (simp add: app_recorded_run)
  finally show "app_has_failed ?a \<longleftrightarrow>
      (\<exists>p \<in> ?P. \<exists>out. first_report p reports = Some out \<and> out \<noteq> Apply_Success)"
    using verdicts(2) ids assms by simp
qed

section \<open>Properties\<close>

text \<open>
  Whatever the two clients report to an application, in whatever order, repeated or
  contradictory, the outcome recorded for a member is its first report; so the application has
  succeeded exactly when the first reports of both members are successes, and has failed exactly
  when a first report of one of them is not.
\<close>

theorem application_verdict_is_first_reports:
  assumes "pm_player (mp_initiator plan) \<noteq> pm_player (mp_recipient plan)"
  shows "(app_all_succeeded (run_ops app_report (new_application i plan st dl) reports) \<longleftrightarrow>
      first_report (pm_player (mp_initiator plan)) reports = Some Apply_Success \<and>
      first_report (pm_player (mp_recipient plan)) reports = Some Apply_Success) \<and>
    (app_has_failed (run_ops app_report (new_application i plan st dl) reports) \<longleftrightarrow>
      (\<exists>p \<in> {pm_player (mp_initiator plan), pm_player (mp_recipient plan)}.
        \<exists>out. first_report p reports = Some out \<and> out \<noteq> Apply_Success))"
  by (intro conjI app_verdict_run [OF assms])

theorem application_verdict_is_first_reports_witness:
  "app_has_failed (run_ops app_report (new_application 1 example_plan 0 15000)
     [(10, Apply_Success, 1), (20, Apply_ItemUnavailable, 2), (20, Apply_Success, 3)])"
proof -
  have "pm_player (mp_initiator example_plan) \<noteq> pm_player (mp_recipient example_plan)"
    by (simp add: example_plan_def)
  from application_verdict_is_first_reports [OF this, of 1 0 15000
      "[(10, Apply_Success, 1), (20, Apply_ItemUnavailable, 2), (20, Apply_Success, 3)]"]
  show ?thesis by (simp add: example_plan_def)
qed

end
