(* ===== verification/TradeReconciliation.thy ===== *)
theory TradeReconciliation
  imports TradeApplication
begin

text \<open>
  \<open>common/Trade/TradeReconciliation.{h,cpp}\<close>: after a failed application the server sends
  both clients the absolute quantity of every item the plan touched, and each of them reports one
  outcome before a deadline. Enumerators that two enums share carry the prefix \<open>Reconcile_\<close>.
\<close>

record InventoryTarget =
  tgt_item :: ItemId
  tgt_quantity :: u32

record PlayerReconciliationPlan =
  pr_player :: PlayerId
  pr_targets :: "InventoryTarget list"

record ReconciliationPlan =
  rp_session :: SessionId
  rp_revision :: Revision
  rp_application :: ApplyId
  rp_initiator :: PlayerReconciliationPlan
  rp_recipient :: PlayerReconciliationPlan

section \<open>Building the plan\<close>

definition add_target ::
  "InventorySnapshot \<Rightarrow> ItemId \<Rightarrow> InventoryTarget list \<Rightarrow> Error + InventoryTarget list" where
  "add_target sn i targets =
     (if find (\<lambda>t. tgt_item t = i) targets \<noteq> None then Inr targets
      else let (found, dup) = find_inventory_item sn i in
        if dup \<or> (case found of Some x \<Rightarrow> inv_ambiguous x | None \<Rightarrow> False) then Inl AmbiguousItem
        else if (case found of Some x \<Rightarrow> \<not> inv_transferable x | None \<Rightarrow> False) then Inl ItemNotTransferable
        else let quantity = (case found of Some x \<Rightarrow> inv_quantity x | None \<Rightarrow> 0) in
          if quantity > 0xFFFFFFFF then Inl QuantityOverflow
          else Inr (targets @ [\<lparr>tgt_item = i, tgt_quantity = ucast quantity\<rparr>]))"

fun add_targets ::
  "InventorySnapshot \<Rightarrow> InventoryMutation list \<Rightarrow> InventoryTarget list \<Rightarrow> Error + InventoryTarget list" where
  "add_targets sn [] targets = Inr targets"
| "add_targets sn (m # ms) targets =
     (case add_target sn (mut_item m) targets of
        Inl e \<Rightarrow> Inl e
      | Inr targets' \<Rightarrow> add_targets sn ms targets')"

definition build_player_plan ::
  "PlayerMutationPlan \<Rightarrow> InventorySnapshot \<Rightarrow> Error + PlayerReconciliationPlan" where
  "build_player_plan mp sn =
     (if pm_player mp \<noteq> snap_owner sn then Inl InvalidParticipant
      else case add_targets sn (pm_mutations mp) [] of
        Inl e \<Rightarrow> Inl e
      | Inr targets \<Rightarrow>
          Inr \<lparr>pr_player = pm_player mp, pr_targets = sort_key tgt_item targets\<rparr>)"

definition build_reconciliation_plan ::
  "Application \<Rightarrow> InventorySnapshot \<Rightarrow> InventorySnapshot \<Rightarrow> Error + ReconciliationPlan" where
  "build_reconciliation_plan a init_sn recv_sn =
     (let mp = a_plan a in
      if snap_owner init_sn \<noteq> pm_player (mp_initiator mp)
         \<or> snap_owner recv_sn \<noteq> pm_player (mp_recipient mp) then Inl InvalidParticipant
      else case build_player_plan (mp_initiator mp) init_sn of
        Inl e \<Rightarrow> Inl e
      | Inr ip \<Rightarrow>
          (case build_player_plan (mp_recipient mp) recv_sn of
             Inl e \<Rightarrow> Inl e
           | Inr rp \<Rightarrow>
               Inr \<lparr>rp_session = mp_session mp, rp_revision = mp_revision mp,
                    rp_application = a_id a, rp_initiator = ip, rp_recipient = rp\<rparr>))"

section \<open>Collecting the outcomes\<close>

datatype ReconcileOutcome =
    Reconcile_Success | Reconcile_MalformedPlan | Reconcile_SessionMismatch
  | Reconcile_LocalPlayerUnavailable | Reconcile_ItemUnavailable | Reconcile_ItemNotTransferable
  | Reconcile_AmbiguousItem | Reconcile_LocalStateMismatch | Reconcile_ParticipantUnavailable

datatype ReconcileStatus = Reconcile_Pending | Reconcile_Succeeded | Reconcile_Failed

record ReconcileParticipant =
  rp_id :: PlayerId
  rp_status :: ReconcileStatus
  rp_outcome :: ReconcileOutcome

record Reconciliation =
  r_id :: ReconcileId
  r_plan :: ReconciliationPlan
  r_initiator :: ReconcileParticipant
  r_recipient :: ReconcileParticipant
  r_started :: Tick
  r_last_activity :: Tick
  r_deadline :: Tick

definition new_reconciliation ::
  "ReconcileId \<Rightarrow> ReconciliationPlan \<Rightarrow> Tick \<Rightarrow> Tick \<Rightarrow> Reconciliation" where
  "new_reconciliation i plan started deadline =
     \<lparr>r_id = i, r_plan = plan,
      r_initiator = \<lparr>rp_id = pr_player (rp_initiator plan), rp_status = Reconcile_Pending,
                     rp_outcome = Reconcile_Success\<rparr>,
      r_recipient = \<lparr>rp_id = pr_player (rp_recipient plan), rp_status = Reconcile_Pending,
                     rp_outcome = Reconcile_Success\<rparr>,
      r_started = started, r_last_activity = started, r_deadline = deadline\<rparr>"

definition rec_is_participant :: "Reconciliation \<Rightarrow> PlayerId \<Rightarrow> bool" where
  "rec_is_participant r p \<longleftrightarrow> rp_id (r_initiator r) = p \<or> rp_id (r_recipient r) = p"

definition rec_is_settled :: "Reconciliation \<Rightarrow> bool" where
  "rec_is_settled r \<longleftrightarrow>
     rp_status (r_initiator r) \<noteq> Reconcile_Pending \<and> rp_status (r_recipient r) \<noteq> Reconcile_Pending"

definition rec_all_succeeded :: "Reconciliation \<Rightarrow> bool" where
  "rec_all_succeeded r \<longleftrightarrow>
     rp_status (r_initiator r) = Reconcile_Succeeded \<and> rp_status (r_recipient r) = Reconcile_Succeeded"

definition rec_has_failed :: "Reconciliation \<Rightarrow> bool" where
  "rec_has_failed r \<longleftrightarrow>
     rp_status (r_initiator r) = Reconcile_Failed \<or> rp_status (r_recipient r) = Reconcile_Failed"

definition rec_is_timed_out :: "Reconciliation \<Rightarrow> Tick \<Rightarrow> bool" where
  "rec_is_timed_out r now \<longleftrightarrow> \<not> rec_is_settled r \<and> now \<ge> r_deadline r"

definition rec_find_participant :: "Reconciliation \<Rightarrow> PlayerId \<Rightarrow> Side option" where
  "rec_find_participant r p =
     (if rp_id (r_initiator r) = p then Some InitiatorSide
      else if rp_id (r_recipient r) = p then Some RecipientSide
      else None)"

fun rec_participant :: "Side \<Rightarrow> Reconciliation \<Rightarrow> ReconcileParticipant" where
  "rec_participant InitiatorSide r = r_initiator r"
| "rec_participant RecipientSide r = r_recipient r"

fun rec_set_participant :: "Side \<Rightarrow> ReconcileParticipant \<Rightarrow> Reconciliation \<Rightarrow> Reconciliation" where
  "rec_set_participant InitiatorSide p r = r\<lparr>r_initiator := p\<rparr>"
| "rec_set_participant RecipientSide p r = r\<lparr>r_recipient := p\<rparr>"

definition rec_touch :: "Tick \<Rightarrow> Reconciliation \<Rightarrow> Reconciliation" where
  "rec_touch now r = r\<lparr>r_last_activity := touch now (r_last_activity r)\<rparr>"

definition reconcile_status_of :: "ReconcileOutcome \<Rightarrow> ReconcileStatus" where
  "reconcile_status_of out = (if out = Reconcile_Success then Reconcile_Succeeded else Reconcile_Failed)"

definition rec_record_result ::
  "PlayerId \<Rightarrow> ReconcileOutcome \<Rightarrow> Tick \<Rightarrow> Reconciliation \<Rightarrow> Reconciliation \<times> Result" where
  "rec_record_result p out now r =
     (case rec_find_participant r p of
        None \<Rightarrow> (r, Failure NotParticipant)
      | Some side \<Rightarrow>
          (let me = rec_participant side r; new_status = reconcile_status_of out in
           if rp_status me = Reconcile_Pending then
             (rec_touch now
                (rec_set_participant side (me\<lparr>rp_status := new_status, rp_outcome := out\<rparr>) r),
              Success True)
           else if rp_status me = new_status \<and> rp_outcome me = out then (r, Success False)
           else (r, Failure ReconcileResultConflict)))"

definition rec_mark_unavailable :: "PlayerId \<Rightarrow> Tick \<Rightarrow> Reconciliation \<Rightarrow> Reconciliation \<times> Result" where
  "rec_mark_unavailable p now r = rec_record_result p Reconcile_ParticipantUnavailable now r"

section \<open>A reconciliation is a settlement\<close>

text \<open>A settled status always goes with its outcome.\<close>

definition reconcile_participant_wf :: "ReconcileParticipant \<Rightarrow> bool" where
  "reconcile_participant_wf p \<longleftrightarrow>
     rp_status p \<noteq> Reconcile_Pending \<longrightarrow> rp_status p = reconcile_status_of (rp_outcome p)"

definition reconciliation_wf :: "Reconciliation \<Rightarrow> bool" where
  "reconciliation_wf r \<longleftrightarrow>
     reconcile_participant_wf (r_initiator r) \<and> reconcile_participant_wf (r_recipient r)"

definition rec_recorded :: "Reconciliation \<Rightarrow> PlayerId \<Rightarrow> ReconcileOutcome option" where
  "rec_recorded r p =
     (case rec_find_participant r p of
        None \<Rightarrow> None
      | Some side \<Rightarrow>
          if rp_status (rec_participant side r) = Reconcile_Pending then None
          else Some (rp_outcome (rec_participant side r)))"

fun rec_report :: "Reconciliation \<Rightarrow> ReconcileOutcome report \<Rightarrow> Reconciliation \<times> Result" where
  "rec_report r (p, out, t) = rec_record_result p out t r"

lemma rec_find_participant_simps [simp]:
  "rec_find_participant (rec_touch t r) p = rec_find_participant r p"
  "rp_id q = rp_id (rec_participant side r) \<Longrightarrow>
     rec_find_participant (rec_set_participant side q r) p = rec_find_participant r p"
  by (cases side; simp add: rec_find_participant_def rec_touch_def)+

lemma rec_participant_simps [simp]:
  "rec_participant side (rec_touch t r) = rec_participant side r"
  "rec_participant side (rec_set_participant side q r) = q"
  "side' \<noteq> side \<Longrightarrow> rec_participant side' (rec_set_participant side q r) = rec_participant side' r"
  by (cases side; cases side'; simp add: rec_touch_def)+

lemma reconciliation_wf_side: "reconciliation_wf r \<longleftrightarrow> (\<forall>side. reconcile_participant_wf (rec_participant side r))"
  unfolding reconciliation_wf_def by (metis Side.exhaust rec_participant.simps)

lemma rec_find_participant_inj:
  "rec_find_participant r p = Some side \<Longrightarrow> rec_find_participant r q = Some side \<Longrightarrow> p = q"
  by (auto simp: rec_find_participant_def split: if_splits)

lemma rec_is_participant_find: "rec_is_participant r p \<longleftrightarrow> rec_find_participant r p \<noteq> None"
  by (auto simp: rec_is_participant_def rec_find_participant_def)

lemma reconcile_status_of_not_pending [simp]: "reconcile_status_of out \<noteq> Reconcile_Pending"
  by (simp add: reconcile_status_of_def)

lemma rec_report_first:
  assumes "rec_find_participant r p = Some side" and "rp_status (rec_participant side r) = Reconcile_Pending"
  shows "rec_recorded (fst (rec_record_result p out t r)) = (rec_recorded r)(p \<mapsto> out)"
proof
  fix q
  show "rec_recorded (fst (rec_record_result p out t r)) q = ((rec_recorded r)(p \<mapsto> out)) q"
  proof (cases "rec_find_participant r q")
    case None
    with assms show ?thesis
      by (auto simp: rec_recorded_def rec_record_result_def)
  next
    case (Some side')
    with assms rec_find_participant_inj [of r p side q] show ?thesis
      by (cases "side' = side") (auto simp: rec_recorded_def rec_record_result_def)
  qed
qed

interpretation rcn: settlement rec_report reconciliation_wf rec_is_participant rec_recorded ReconcileResultConflict
proof
  fix r and rp :: "ReconcileOutcome report"
  assume wf: "reconciliation_wf r"
  obtain p out t where rp: "rp = (p, out, t)" by (cases rp) auto
  show "reconciliation_wf (fst (rec_report r rp))"
  proof (cases "rec_find_participant r p")
    case None
    with wf rp show ?thesis by (simp add: rec_record_result_def)
  next
    case (Some side)
    have "reconcile_participant_wf (rec_participant side' (fst (rec_report r rp)))" for side'
      using wf rp Some
      by (cases "side' = side")
        (auto simp: reconciliation_wf_side rec_record_result_def reconcile_participant_wf_def)
    then show ?thesis by (simp add: reconciliation_wf_side)
  qed
  show "rec_is_participant (fst (rec_report r rp)) = rec_is_participant r"
    using rp by (auto simp: fun_eq_iff rec_is_participant_find rec_record_result_def split: option.splits)
next
  fix r p out t
  assume "\<not> rec_is_participant r p"
  then show "rec_report r (p, out, t) = (r, Failure NotParticipant)"
    by (simp add: rec_is_participant_find rec_record_result_def)
next
  fix r p out t
  assume "rec_is_participant r p" and "rec_recorded r p = None"
  then obtain side where s: "rec_find_participant r p = Some side"
    "rp_status (rec_participant side r) = Reconcile_Pending"
    by (auto simp: rec_is_participant_find rec_recorded_def split: if_splits)
  then show "rec_recorded (fst (rec_report r (p, out, t))) = (rec_recorded r)(p \<mapsto> out) \<and>
      snd (rec_report r (p, out, t)) = Success True"
    by (simp add: rec_report_first) (simp add: rec_record_result_def)
next
  fix r p out out' t
  assume "reconciliation_wf r" and "rec_is_participant r p" and "rec_recorded r p = Some out'"
  then show "rec_report r (p, out, t) =
      (r, if out = out' then Success False else Failure ReconcileResultConflict)"
    by (auto simp: rec_recorded_def rec_record_result_def reconciliation_wf_side
        reconcile_participant_wf_def split: option.splits if_splits)
qed

lemma new_reconciliation_wf: "reconciliation_wf (new_reconciliation i plan st dl)"
  by (simp add: new_reconciliation_def reconciliation_wf_def reconcile_participant_wf_def)

lemma rec_recorded_new: "rec_recorded (new_reconciliation i plan st dl) p = None"
  by (simp add: new_reconciliation_def rec_recorded_def rec_find_participant_def)

section \<open>What the targets stand for\<close>

definition holds :: "InventorySnapshot \<Rightarrow> ItemId \<Rightarrow> u64" where
  "holds sn i = (case entries_of sn i of [] \<Rightarrow> 0 | x # _ \<Rightarrow> inv_quantity x)"

definition restorable :: "InventorySnapshot \<Rightarrow> ItemId \<Rightarrow> bool" where
  "restorable sn i \<longleftrightarrow> can_receive sn i \<and> holds sn i \<le> 0xFFFFFFFF"

lemma add_target_new:
  assumes "i \<notin> tgt_item ` set targets"
  shows "case add_target sn i targets of
      Inl e \<Rightarrow> \<not> restorable sn i
    | Inr targets' \<Rightarrow> restorable sn i \<and>
        targets' = targets @ [\<lparr>tgt_item = i, tgt_quantity = ucast (holds sn i)\<rparr>]"
proof -
  have "find (\<lambda>t. tgt_item t = i) targets = None"
    using assms by (auto simp: find_None_iff)
  then show ?thesis
    by (cases "entries_of sn i")
      (auto simp: add_target_def find_inventory_item_entries restorable_def can_receive_def
        holds_def not_le split: if_splits)
qed

lemma add_targets_new:
  assumes "distinct (map mut_item ms)" and "mut_item ` set ms \<inter> tgt_item ` set targets = {}"
  shows "case add_targets sn ms targets of
      Inl e \<Rightarrow> \<not> (\<forall>m \<in> set ms. restorable sn (mut_item m))
    | Inr targets' \<Rightarrow> (\<forall>m \<in> set ms. restorable sn (mut_item m)) \<and>
        targets' = targets @
          map (\<lambda>m. \<lparr>tgt_item = mut_item m, tgt_quantity = ucast (holds sn (mut_item m))\<rparr>) ms"
  using assms
proof (induction ms arbitrary: targets)
  case Nil
  then show ?case by simp
next
  case (Cons m ms)
  have new: "mut_item m \<notin> tgt_item ` set targets" using Cons.prems(2) by auto
  show ?case
  proof (cases "add_target sn (mut_item m) targets")
    case (Inl e)
    with add_target_new [OF new, of sn] show ?thesis by auto
  next
    case (Inr targets')
    with add_target_new [OF new, of sn] have ok: "restorable sn (mut_item m)"
      and t: "targets' = targets @ [\<lparr>tgt_item = mut_item m, tgt_quantity = ucast (holds sn (mut_item m))\<rparr>]"
      by simp_all
    have "mut_item ` set ms \<inter> tgt_item ` set targets' = {}"
      using Cons.prems t by auto
    with Cons.IH [of targets'] Cons.prems(1) Inr ok t show ?thesis
      by (auto split: sum.splits)
  qed
qed

definition player_plan_ok :: "PlayerMutationPlan \<Rightarrow> InventorySnapshot \<Rightarrow> bool" where
  "player_plan_ok mp sn \<longleftrightarrow> pm_player mp = snap_owner sn \<and>
     (\<forall>m \<in> set (pm_mutations mp). restorable sn (mut_item m))"

definition targets_of :: "PlayerMutationPlan \<Rightarrow> InventorySnapshot \<Rightarrow> InventoryTarget list" where
  "targets_of mp sn =
     map (\<lambda>m. \<lparr>tgt_item = mut_item m, tgt_quantity = ucast (holds sn (mut_item m))\<rparr>) (pm_mutations mp)"

lemma build_player_plan_spec:
  assumes "sorted_wrt (<) (map mut_item (pm_mutations mp))"
  shows "build_player_plan mp sn = Inr pp \<longleftrightarrow>
     player_plan_ok mp sn \<and> pp = \<lparr>pr_player = pm_player mp, pr_targets = targets_of mp sn\<rparr>"
proof -
  have d: "distinct (map mut_item (pm_mutations mp))"
    using assms by (simp add: strict_sorted_iff)
  have "sorted (map tgt_item (targets_of mp sn))"
    using assms by (simp add: targets_of_def strict_sorted_iff comp_def)
  then have "sort_key tgt_item (targets_of mp sn) = targets_of mp sn"
    by (rule sort_key_id_if_sorted)
  then show ?thesis
    using add_targets_new [OF d, of "[]" sn]
    by (auto simp: build_player_plan_def player_plan_ok_def targets_of_def split: sum.splits)
qed

lemma build_player_plan_error:
  assumes "sorted_wrt (<) (map mut_item (pm_mutations mp))" and "build_player_plan mp sn = Inl e"
  shows "\<not> player_plan_ok mp sn"
  using build_player_plan_spec [OF assms(1), of sn] assms(2) by auto

lemma player_plan_ok_owner: "player_plan_ok mp sn \<Longrightarrow> snap_owner sn = pm_player mp"
  by (simp add: player_plan_ok_def)

section \<open>Properties\<close>

text \<open>
  A reconciliation plan for a canonical mutation plan exists exactly when both inventories
  belong to the plan's players and every touched item can be restored: its holder has it in at
  most one unambiguous transferable entry whose quantity fits 32 bits. The targets are then, in
  the order of the mutations, the absolute quantity of each touched item, zero where it is not
  held, and the plan names the application's session, revision and identifier.
\<close>

theorem reconciliation_plan_exact:
  assumes "sorted_wrt (<) (map mut_item (pm_mutations (mp_initiator (a_plan a))))"
    and "sorted_wrt (<) (map mut_item (pm_mutations (mp_recipient (a_plan a))))"
  shows "(\<forall>plan. build_reconciliation_plan a i_sn r_sn = Inr plan \<longleftrightarrow>
     player_plan_ok (mp_initiator (a_plan a)) i_sn \<and> player_plan_ok (mp_recipient (a_plan a)) r_sn \<and>
     plan = \<lparr>rp_session = mp_session (a_plan a), rp_revision = mp_revision (a_plan a),
       rp_application = a_id a,
       rp_initiator = \<lparr>pr_player = pm_player (mp_initiator (a_plan a)),
                       pr_targets = targets_of (mp_initiator (a_plan a)) i_sn\<rparr>,
       rp_recipient = \<lparr>pr_player = pm_player (mp_recipient (a_plan a)),
                       pr_targets = targets_of (mp_recipient (a_plan a)) r_sn\<rparr>\<rparr>)"
  by (auto simp: build_reconciliation_plan_def build_player_plan_spec [OF assms(1)]
      build_player_plan_spec [OF assms(2)] split: sum.splits if_splits
      dest: player_plan_ok_owner build_player_plan_error [OF assms(1)]
        build_player_plan_error [OF assms(2)])

theorem reconciliation_plan_exact_witness:
  "player_plan_ok (mp_initiator example_plan) (example_snapshot 10 50)"
proof -
  let ?a = "new_application 1 example_plan 0 15000"
  have "sorted_wrt (<) (map mut_item (pm_mutations (mp_initiator (a_plan ?a))))"
    "sorted_wrt (<) (map mut_item (pm_mutations (mp_recipient (a_plan ?a))))"
    by (simp_all add: new_application_def example_plan_def)
  note exact = reconciliation_plan_exact [OF this, of "example_snapshot 10 50" "example_snapshot 20 1"]
  have "case build_reconciliation_plan ?a (example_snapshot 10 50) (example_snapshot 20 1) of
      Inl e \<Rightarrow> False | Inr plan \<Rightarrow> True"
    by code_simp
  then obtain plan where "build_reconciliation_plan ?a (example_snapshot 10 50) (example_snapshot 20 1) = Inr plan"
    by (auto split: sum.splits)
  with exact show ?thesis by (simp add: new_application_def)
qed

text \<open>
  Whatever the two clients report to a reconciliation, in whatever order, repeated,
  contradictory, or replaced by a disconnect, the outcome recorded for a member is the first one
  reported for it.
\<close>

theorem reconciliation_first_report_stands:
  assumes "rec_is_participant (new_reconciliation i plan st dl) p"
  shows "rec_recorded (run_ops rec_report (new_reconciliation i plan st dl) reports) p =
     first_report p reports"
  using rcn.first_report_stands [OF new_reconciliation_wf assms] by (simp add: rec_recorded_new)

theorem reconciliation_first_report_stands_witness:
  "rec_recorded (run_ops rec_report
       (new_reconciliation 3 \<lparr>rp_session = 1, rp_revision = 2, rp_application = 1,
          rp_initiator = \<lparr>pr_player = 10, pr_targets = []\<rparr>, rp_recipient = \<lparr>pr_player = 20, pr_targets = []\<rparr>\<rparr> 0 30000)
       [(10, Reconcile_Success, 1), (10, Reconcile_MalformedPlan, 2)]) 10 = Some Reconcile_Success"
  by (subst reconciliation_first_report_stands) (simp_all add: new_reconciliation_def rec_is_participant_def)

end
