(* ===== verification/GameInventory.thy ===== *)
theory GameInventory
  imports Prelude
begin

text \<open>
  \<open>encoding/Structs/GameId\<close>, \<open>MagicEquipment\<close> and \<open>Inventory\<close>: the inventory that the server
  keeps of a character. Single precision floats are their bit patterns and compare as IEEE values
  do; counts are signed 32-bit integers, kept as \<open>int\<close>s and wrapped where the code adds (C++ leaves
  a signed overflow undefined, so a property that matters is stated inside the range).
\<close>

record GameId =
  base_id :: u32
  mod_id :: u32

definition zero_game_id :: GameId where
  "zero_game_id = \<lparr>base_id = 0, mod_id = 0\<rparr>"

definition game_id_eq :: "GameId \<Rightarrow> GameId \<Rightarrow> bool" where
  "game_id_eq a b \<longleftrightarrow> base_id a = base_id b \<and> mod_id a = mod_id b"

definition game_id_set :: "GameId \<Rightarrow> bool" where
  "game_id_set a \<longleftrightarrow> \<not> game_id_eq a zero_game_id"

lemma game_id_eq [simp]: "game_id_eq a b \<longleftrightarrow> a = b"
  by (cases a; cases b) (simp add: game_id_eq_def)

lemma game_id_set [simp]: "game_id_set a \<longleftrightarrow> a \<noteq> zero_game_id"
  by (simp add: game_id_set_def)

record MagicEquipment =
  left_hand_spell :: GameId
  right_hand_spell :: GameId
  shout :: GameId

record EffectItem =
  magnitude :: f32
  area :: int
  effect_duration :: int
  raw_cost :: f32
  effect_id :: GameId

record EnchantmentData =
  is_weapon :: bool
  effects :: "EffectItem list"

record Entry =
  e_base_id :: GameId
  e_count :: int
  extra_charge :: f32
  extra_enchant_id :: GameId
  extra_enchant_charge :: u16
  enchant_data :: EnchantmentData
  extra_health :: f32
  extra_poison_id :: GameId
  extra_poison_count :: u32
  extra_soul_level :: int
  extra_owner_id :: GameId
  extra_enchant_remove_unequip :: bool
  extra_worn :: bool
  extra_worn_left :: bool
  is_quest_item :: bool

record Inventory =
  entries :: "Entry list"
  current_magic_equipment :: MagicEquipment

definition default_entry :: Entry where
  "default_entry =
     \<lparr>e_base_id = zero_game_id, e_count = 0, extra_charge = 0, extra_enchant_id = zero_game_id,
      extra_enchant_charge = 0, enchant_data = \<lparr>is_weapon = False, effects = []\<rparr>,
      extra_health = 0, extra_poison_id = zero_game_id, extra_poison_count = 0,
      extra_soul_level = 0, extra_owner_id = zero_game_id, extra_enchant_remove_unequip = False,
      extra_worn = False, extra_worn_left = False, is_quest_item = False\<rparr>"

section \<open>Entries\<close>

definition is_extra_data_equals :: "Entry \<Rightarrow> Entry \<Rightarrow> bool" where
  "is_extra_data_equals a b \<longleftrightarrow>
     f32_eq (extra_charge a) (extra_charge b) \<and>
     game_id_eq (extra_enchant_id a) (extra_enchant_id b) \<and>
     extra_enchant_charge a = extra_enchant_charge b \<and>
     extra_enchant_remove_unequip a = extra_enchant_remove_unequip b \<and>
     f32_eq (extra_health a) (extra_health b) \<and>
     game_id_eq (extra_poison_id a) (extra_poison_id b) \<and>
     extra_poison_count a = extra_poison_count b \<and>
     extra_soul_level a = extra_soul_level b \<and>
     game_id_eq (extra_owner_id a) (extra_owner_id b) \<and>
     extra_worn a = extra_worn b \<and> extra_worn_left a = extra_worn_left b \<and>
     is_quest_item a = is_quest_item b"

definition contains_extra_data :: "Entry \<Rightarrow> bool" where
  "contains_extra_data a \<longleftrightarrow> \<not> is_extra_data_equals a default_entry"

definition can_be_merged :: "Entry \<Rightarrow> Entry \<Rightarrow> bool" where
  "can_be_merged a b \<longleftrightarrow> game_id_eq (e_base_id a) (e_base_id b) \<and> is_extra_data_equals a b"

definition is_worn :: "Entry \<Rightarrow> bool" where
  "is_worn a \<longleftrightarrow> extra_worn a \<or> extra_worn_left a"

definition entry_eq :: "Entry \<Rightarrow> Entry \<Rightarrow> bool" where
  "entry_eq a b \<longleftrightarrow>
     game_id_eq (e_base_id a) (e_base_id b) \<and> e_count a = e_count b \<and> is_extra_data_equals a b"

section \<open>Inventory operations\<close>

definition inventory_eq :: "Inventory \<Rightarrow> Inventory \<Rightarrow> bool" where
  "inventory_eq a b \<longleftrightarrow> list_all2 entry_eq (entries a) (entries b)"

definition get_entry_by_id :: "GameId \<Rightarrow> Inventory \<Rightarrow> Entry option" where
  "get_entry_by_id i v = find (\<lambda>e. game_id_eq (e_base_id e) i) (entries v)"

definition get_entry_count_by_id :: "GameId \<Rightarrow> Inventory \<Rightarrow> int" where
  "get_entry_count_by_id i v = (case get_entry_by_id i v of None \<Rightarrow> 0 | Some e \<Rightarrow> e_count e)"

definition add_or_remove_entry :: "Entry \<Rightarrow> Inventory \<Rightarrow> Inventory" where
  "add_or_remove_entry x v =
     (case find (\<lambda>e. can_be_merged e x) (entries v) of
        Some d \<Rightarrow>
          (let total = to_i32 (e_count d + e_count x) in
           v\<lparr>entries :=
               if total \<le> 0 then erase_first (\<lambda>e. can_be_merged e x) (entries v)
               else update_first (\<lambda>e. can_be_merged e x) (\<lambda>e. e\<lparr>e_count := total\<rparr>) (entries v)\<rparr>)
      | None \<Rightarrow> v\<lparr>entries := entries v @ [x]\<rparr>)"

text \<open>The first loop of \<open>UpdateEquipment\<close> takes off the first worn entry until there is none.\<close>

function take_off_all :: "Entry list \<Rightarrow> Entry list" where
  "take_off_all es =
     (if find is_worn es = None then es
      else take_off_all
        (update_first is_worn (\<lambda>e. e\<lparr>extra_worn := False, extra_worn_left := False\<rparr>) es))"
  by pat_completeness auto
termination
proof (relation "measure (\<lambda>es. length (filter is_worn es))", goal_cases)
  case (2 es)
  then obtain x where "find is_worn es = Some x" by blast
  from find_split [OF this, of "\<lambda>e. e\<lparr>extra_worn := False, extra_worn_left := False\<rparr>"]
  show ?case by (auto simp: is_worn_def)
qed simp

declare take_off_all.simps [simp del]

fun wear_all :: "Entry list \<Rightarrow> Entry list \<Rightarrow> Entry list" where
  "wear_all [] es = es"
| "wear_all (n # ns) es =
     (if \<not> is_worn n then wear_all ns es
      else wear_all ns
        (update_first (\<lambda>e. game_id_eq (e_base_id e) (e_base_id n))
          (\<lambda>e. e\<lparr>extra_worn := extra_worn n, extra_worn_left := extra_worn_left n\<rparr>) es))"

definition update_equipment :: "Inventory \<Rightarrow> Inventory \<Rightarrow> Inventory" where
  "update_equipment new v =
     v\<lparr>entries := wear_all (entries new) (take_off_all (entries v)),
       current_magic_equipment := current_magic_equipment new\<rparr>"

definition remove_by_filter :: "(Entry \<Rightarrow> bool) \<Rightarrow> Inventory \<Rightarrow> Inventory" where
  "remove_by_filter f v = v\<lparr>entries := filter (\<lambda>e. \<not> f e) (entries v)\<rparr>"

definition contains_quest_items :: "Inventory \<Rightarrow> bool" where
  "contains_quest_items v \<longleftrightarrow> list_ex is_quest_item (entries v)"

section \<open>Lemmas\<close>

lemma take_off_all_map:
  "take_off_all es = map (\<lambda>e. e\<lparr>extra_worn := False, extra_worn_left := False\<rparr>) es"
proof (induction es rule: take_off_all.induct)
  case (1 es)
  let ?off = "\<lambda>e :: Entry. e\<lparr>extra_worn := False, extra_worn_left := False\<rparr>"
  show ?case
  proof (cases "find is_worn es")
    case None
    then have "\<forall>e \<in> set es. \<not> is_worn e" by (simp add: find_None_iff)
    then have "map ?off es = es" by (intro map_idI) (auto simp: is_worn_def)
    with None show ?thesis by (subst take_off_all.simps) simp
  next
    case (Some x)
    from find_split [OF Some, of ?off]
    have "map ?off (update_first is_worn ?off es) = map ?off es" by auto
    with 1 Some show ?thesis by (subst take_off_all.simps) simp
  qed
qed

text \<open>Changing what is worn leaves everything else of the entries alone.\<close>

definition bare :: "Entry \<Rightarrow> Entry" where
  "bare e = e\<lparr>extra_worn := False, extra_worn_left := False\<rparr>"

lemma map_update_first_inv: "(\<And>e. g (f e) = g e) \<Longrightarrow> map g (update_first P f es) = map g es"
  by (induction es) auto

lemma bare_wear_all: "map bare (wear_all ns es) = map bare es"
  by (induction ns es rule: wear_all.induct) (simp_all add: map_update_first_inv bare_def)

lemma worn_wear_all:
  assumes "e \<in> set (wear_all ns es)" and "is_worn e"
  shows "e \<in> set es \<or> (\<exists>n \<in> set ns. is_worn n \<and> e_base_id n = e_base_id e)"
  using assms
proof (induction ns es rule: wear_all.induct)
  case (2 n ns es)
  have "x \<in> set (update_first P f es) \<Longrightarrow> x \<in> set es \<or> (\<exists>y \<in> set es. P y \<and> x = f y)" for x P f
    by (induction es) (auto split: if_splits)
  then have "x \<in> set es \<or> e_base_id x = e_base_id n"
    if "x \<in> set (update_first (\<lambda>e. game_id_eq (e_base_id e) (e_base_id n))
          (\<lambda>e. e\<lparr>extra_worn := extra_worn n, extra_worn_left := extra_worn_left n\<rparr>) es)" for x
    using that by fastforce
  note base = this [of e]
  show ?case
  proof (cases "is_worn n")
    case True
    with 2 base show ?thesis by fastforce
  next
    case False
    with 2 show ?thesis by auto
  qed
qed simp

section \<open>Totals\<close>

text \<open>How much of an item an inventory holds, over all its entries.\<close>

definition item_total :: "Entry list \<Rightarrow> GameId \<Rightarrow> int" where
  "item_total es i = (\<Sum>e\<leftarrow>es. if e_base_id e = i then e_count e else 0)"

lemma item_total_simps [simp]:
  "item_total [] i = 0"
  "item_total (e # es) i = (if e_base_id e = i then e_count e else 0) + item_total es i"
  "item_total (es @ es') i = item_total es i + item_total es' i"
  by (simp_all add: item_total_def)

lemma add_or_remove_total:
  assumes "\<And>d. find (\<lambda>e. can_be_merged e x) (entries v) = Some d \<Longrightarrow>
     0 \<le> e_count d + e_count x \<and> e_count d + e_count x \<le> int32_max"
  shows "item_total (entries (add_or_remove_entry x v)) i =
     item_total (entries v) i + (if e_base_id x = i then e_count x else 0)"
proof (cases "find (\<lambda>e. can_be_merged e x) (entries v)")
  case None
  then show ?thesis by (simp add: add_or_remove_entry_def)
next
  case (Some d)
  let ?t = "e_count d + e_count x"
  have t: "0 \<le> ?t" "to_i32 ?t = ?t" using assms [OF Some] by (simp_all add: to_i32_id)
  from find_split [OF Some, of "\<lambda>e. e\<lparr>e_count := ?t\<rparr>"] obtain us vs where
    split: "entries v = us @ d # vs" and d: "can_be_merged d x"
    and upd: "update_first (\<lambda>e. can_be_merged e x) (\<lambda>e. e\<lparr>e_count := ?t\<rparr>) (entries v) =
       us @ d\<lparr>e_count := ?t\<rparr> # vs"
    and era: "erase_first (\<lambda>e. can_be_merged e x) (entries v) = us @ vs" by blast
  have "e_base_id d = e_base_id x" using d by (simp add: can_be_merged_def)
  then show ?thesis
    using Some split upd era t by (auto simp: add_or_remove_entry_def)
qed

definition example_equipment :: MagicEquipment where
  "example_equipment = \<lparr>left_hand_spell = zero_game_id, right_hand_spell = zero_game_id, shout = zero_game_id\<rparr>"

section \<open>Properties\<close>

text \<open>
  Updating the equipment always terminates and only changes what is worn: the entries, their
  order, counts and all other data stay; an entry is worn afterwards only if a worn entry of the
  new inventory has its base form, and the magic equipment is the new one.
\<close>

theorem update_equipment_only_wears:
  "map bare (entries (update_equipment new v)) = map bare (entries v) \<and>
   (\<forall>e \<in> set (entries (update_equipment new v)). is_worn e \<longrightarrow>
      (\<exists>n \<in> set (entries new). is_worn n \<and> e_base_id n = e_base_id e)) \<and>
   current_magic_equipment (update_equipment new v) = current_magic_equipment new"
proof -
  have "map bare (take_off_all (entries v)) = map bare (entries v)"
    by (simp add: take_off_all_map bare_def comp_def)
  moreover have "\<not> is_worn e" if "e \<in> set (take_off_all (entries v))" for e
    using that by (auto simp: take_off_all_map is_worn_def)
  ultimately show ?thesis
    using worn_wear_all [of _ "entries new" "take_off_all (entries v)"]
    by (auto simp: update_equipment_def bare_wear_all)
qed

theorem update_equipment_only_wears_witness:
  "\<exists>e \<in> set (entries (update_equipment
       \<lparr>entries = [default_entry\<lparr>e_count := 1, extra_worn := True\<rparr>], current_magic_equipment = example_equipment\<rparr>
       \<lparr>entries = [default_entry\<lparr>e_count := 5\<rparr>], current_magic_equipment = example_equipment\<rparr>)).
     is_worn e \<and>
     (\<exists>n \<in> {default_entry\<lparr>e_count := 1, extra_worn := True\<rparr>}. is_worn n \<and> e_base_id n = e_base_id e)"
proof -
  let ?new = "\<lparr>entries = [default_entry\<lparr>e_count := 1, extra_worn := True\<rparr>], current_magic_equipment = example_equipment\<rparr>"
  let ?old = "\<lparr>entries = [default_entry\<lparr>e_count := 5\<rparr>], current_magic_equipment = example_equipment\<rparr>"
  have "list_ex is_worn (entries (update_equipment ?new ?old))"
    by (simp add: update_equipment_def take_off_all_map is_worn_def)
  with update_equipment_only_wears [of ?new ?old] show ?thesis by (fastforce simp: list_ex_iff)
qed

end
