(* ===== verification/TradeService.thy ===== *)
theory TradeService
  imports TradeReconciliation GameInventory
begin

text \<open>
  \<open>server/Services/TradeService.{h,cpp}\<close>: the server side of trading. The service keeps the
  sessions, the index from players to sessions, the applications, the reconciliation baselines
  and reconciliations, the clean-up ticks and three identifier counters, and handles the packets
  of the players, their leaving and the periodic update. A player is its identifier, which is
  what the code compares and looks up; the world is the list of connected players with their
  characters and the inventories of the characters. What a handler sends is appended to
  \<open>t_sent\<close>; log lines are left out.
\<close>

section \<open>The world\<close>

type_synonym Entity = u32

record Player =
  pl_id :: PlayerId
  pl_character :: "Entity option"

record World =
  w_players :: "Player list"
  w_inventories :: "(Entity \<times> Inventory) list"

definition get_by_id :: "World \<Rightarrow> PlayerId \<Rightarrow> Player option" where
  "get_by_id w p = find (\<lambda>x. pl_id x = p) (w_players w)"

definition get_inventory_target :: "World \<Rightarrow> PlayerId \<Rightarrow> Entity option" where
  "get_inventory_target w p =
     (case get_by_id w p of
        None \<Rightarrow> None
      | Some pl \<Rightarrow>
          (case pl_character pl of
             None \<Rightarrow> None
           | Some c \<Rightarrow> if map_of (w_inventories w) c = None then None else Some c))"

section \<open>Conversions\<close>

definition kInviteLifetimeMs :: Tick where "kInviteLifetimeMs = 30000"
definition kExpirySweepIntervalMs :: Tick where "kExpirySweepIntervalMs = 1000"
definition kApplyTimeoutMs :: Tick where "kApplyTimeoutMs = 15000"
definition kTerminalRetentionMs :: Tick where "kTerminalRetentionMs = 5000"
definition kReconciliationTimeoutMs :: Tick where "kReconciliationTimeoutMs = 30000"

lemmas trade_intervals = kInviteLifetimeMs_def kExpirySweepIntervalMs_def kApplyTimeoutMs_def
  kTerminalRetentionMs_def kReconciliationTimeoutMs_def

record TradeOfferData =
  od_items :: "OfferLine list"
  od_valid :: bool

record TradeMutationPlanData =
  md_mutations :: "InventoryMutation list"
  md_valid :: bool

record TradeReconciliationPlanData =
  rd_targets :: "InventoryTarget list"
  rd_valid :: bool

definition to_domain_offer :: "TradeOfferData \<Rightarrow> Offer" where
  "to_domain_offer d = map (\<lambda>l. \<lparr>line_item = line_item l, line_quantity = line_quantity l\<rparr>) (od_items d)"

definition to_network_offer :: "Offer \<Rightarrow> TradeOfferData" where
  "to_network_offer items =
     \<lparr>od_items = map (\<lambda>l. \<lparr>line_item = line_item l, line_quantity = line_quantity l\<rparr>) items,
      od_valid = True\<rparr>"

definition to_network_mutations :: "PlayerMutationPlan \<Rightarrow> TradeMutationPlanData" where
  "to_network_mutations p =
     \<lparr>md_mutations = map (\<lambda>m. \<lparr>mut_item = mut_item m, mut_delta = mut_delta m\<rparr>) (pm_mutations p),
      md_valid = True\<rparr>"

definition to_network_targets :: "PlayerReconciliationPlan \<Rightarrow> TradeReconciliationPlanData" where
  "to_network_targets p =
     \<lparr>rd_targets = map (\<lambda>t. \<lparr>tgt_item = tgt_item t, tgt_quantity = tgt_quantity t\<rparr>) (pr_targets p),
      rd_valid = True\<rparr>"

definition to_trade_item_id :: "GameId \<Rightarrow> ItemId" where
  "to_trade_item_id g = push_bit 32 (ucast (mod_id g)) OR ucast (base_id g)"

definition to_game_id :: "ItemId \<Rightarrow> GameId" where
  "to_game_id i = \<lparr>base_id = ucast (i AND 0xFFFFFFFF), mod_id = ucast (drop_bit 32 i)\<rparr>"

definition is_mvp_transferable :: "Entry \<Rightarrow> bool" where
  "is_mvp_transferable e \<longleftrightarrow>
     e_count e > 0 \<and> \<not> is_quest_item e \<and> \<not> is_worn e \<and> f32_eq (extra_charge e) 0 \<and>
     \<not> game_id_set (extra_enchant_id e) \<and> extra_enchant_charge e = 0 \<and>
     effects (enchant_data e) = [] \<and> \<not> is_weapon (enchant_data e) \<and>
     f32_eq (extra_health e) 0 \<and> \<not> game_id_set (extra_poison_id e) \<and>
     extra_poison_count e = 0 \<and> extra_soul_level e = 0 \<and>
     \<not> game_id_set (extra_owner_id e) \<and> \<not> extra_enchant_remove_unequip e"

datatype TradeApplyResultCode =
    ApplyCode_Success | ApplyCode_MalformedPlan | ApplyCode_SessionMismatch
  | ApplyCode_LocalPlayerUnavailable | ApplyCode_ItemUnavailable | ApplyCode_InsufficientQuantity
  | ApplyCode_ItemNotTransferable | ApplyCode_AmbiguousItem | ApplyCode_LocalStateMismatch

text \<open>The casts between the wire codes and the domain outcomes keep the enumerator's number.\<close>

fun to_apply_outcome :: "TradeApplyResultCode \<Rightarrow> ApplyOutcome" where
  "to_apply_outcome ApplyCode_Success = Apply_Success"
| "to_apply_outcome ApplyCode_MalformedPlan = Apply_MalformedPlan"
| "to_apply_outcome ApplyCode_SessionMismatch = Apply_SessionMismatch"
| "to_apply_outcome ApplyCode_LocalPlayerUnavailable = Apply_LocalPlayerUnavailable"
| "to_apply_outcome ApplyCode_ItemUnavailable = Apply_ItemUnavailable"
| "to_apply_outcome ApplyCode_InsufficientQuantity = Apply_InsufficientQuantity"
| "to_apply_outcome ApplyCode_ItemNotTransferable = Apply_ItemNotTransferable"
| "to_apply_outcome ApplyCode_AmbiguousItem = Apply_AmbiguousItem"
| "to_apply_outcome ApplyCode_LocalStateMismatch = Apply_LocalStateMismatch"

datatype TradeReconcileResultCode =
    ReconcileCode_Success | ReconcileCode_MalformedPlan | ReconcileCode_SessionMismatch
  | ReconcileCode_LocalPlayerUnavailable | ReconcileCode_ItemUnavailable
  | ReconcileCode_ItemNotTransferable | ReconcileCode_AmbiguousItem
  | ReconcileCode_LocalStateMismatch

fun to_reconcile_outcome :: "TradeReconcileResultCode \<Rightarrow> ReconcileOutcome" where
  "to_reconcile_outcome ReconcileCode_Success = Reconcile_Success"
| "to_reconcile_outcome ReconcileCode_MalformedPlan = Reconcile_MalformedPlan"
| "to_reconcile_outcome ReconcileCode_SessionMismatch = Reconcile_SessionMismatch"
| "to_reconcile_outcome ReconcileCode_LocalPlayerUnavailable = Reconcile_LocalPlayerUnavailable"
| "to_reconcile_outcome ReconcileCode_ItemUnavailable = Reconcile_ItemUnavailable"
| "to_reconcile_outcome ReconcileCode_ItemNotTransferable = Reconcile_ItemNotTransferable"
| "to_reconcile_outcome ReconcileCode_AmbiguousItem = Reconcile_AmbiguousItem"
| "to_reconcile_outcome ReconcileCode_LocalStateMismatch = Reconcile_LocalStateMismatch"

section \<open>Snapshots and the commit\<close>

definition snapshot_entry :: "InventoryItemState list \<Rightarrow> Entry \<Rightarrow> InventoryItemState list" where
  "snapshot_entry items e =
     (if \<not> game_id_set (e_base_id e) \<or> e_count e \<le> 0 then items
      else let i = to_trade_item_id (e_base_id e); n = word_of_int (e_count e) in
        if find (\<lambda>x. inv_item x = i) items = None then
          items @ [\<lparr>inv_item = i, inv_quantity = n, inv_transferable = is_mvp_transferable e,
                    inv_ambiguous = False\<rparr>]
        else update_first (\<lambda>x. inv_item x = i)
          (\<lambda>x. x\<lparr>inv_ambiguous := True, inv_transferable := False,
                  inv_quantity := if inv_quantity x > - 1 - n then - 1 else inv_quantity x + n\<rparr>)
          items)"

definition try_build_inventory_snapshot :: "World \<Rightarrow> PlayerId \<Rightarrow> InventorySnapshot option" where
  "try_build_inventory_snapshot w p =
     (case get_inventory_target w p of
        None \<Rightarrow> None
      | Some c \<Rightarrow>
          Some \<lparr>snap_owner = p,
                snap_items = foldl snapshot_entry [] (entries (the (map_of (w_inventories w) c)))\<rparr>)"

definition apply_mutation :: "InventoryMutation \<Rightarrow> Inventory \<Rightarrow> Inventory option" where
  "apply_mutation m v =
     (if mut_item m = 0 \<or> mut_delta m = 0 then None
      else let i = to_game_id (mut_item m);
               found = filter (\<lambda>e. game_id_eq (e_base_id e) i) (entries v);
               matching = (if found = [] then None else Some (last found)) in
        if length found > 1 then None
        else if (case matching of Some e \<Rightarrow> \<not> is_mvp_transferable e | None \<Rightarrow> False) then None
        else let current = (case matching of Some e \<Rightarrow> e_count e | None \<Rightarrow> 0);
                 resulting = current + mut_delta m in
          if resulting < 0 \<or> resulting > int32_max then None
          else if mut_delta m < 0 \<and> matching = None then None
          else let base = (case matching of Some e \<Rightarrow> e | None \<Rightarrow> default_entry) in
            Some (add_or_remove_entry (base\<lparr>e_base_id := i, e_count := mut_delta m\<rparr>) v))"

fun apply_mutations_to_inventory :: "InventoryMutation list \<Rightarrow> Inventory \<Rightarrow> Inventory option" where
  "apply_mutations_to_inventory [] v = Some v"
| "apply_mutations_to_inventory (m # ms) v =
     (case apply_mutation m v of
        None \<Rightarrow> None
      | Some v' \<Rightarrow> apply_mutations_to_inventory ms v')"

definition commit_mutation_plan :: "MutationPlan \<Rightarrow> World \<Rightarrow> World option" where
  "commit_mutation_plan plan w =
     (case (get_inventory_target w (pm_player (mp_initiator plan)),
            get_inventory_target w (pm_player (mp_recipient plan))) of
        (Some ci, Some cr) \<Rightarrow>
          (case (apply_mutations_to_inventory (pm_mutations (mp_initiator plan))
                   (the (map_of (w_inventories w) ci)),
                 apply_mutations_to_inventory (pm_mutations (mp_recipient plan))
                   (the (map_of (w_inventories w) cr))) of
             (Some vi, Some vr) \<Rightarrow>
               Some (w\<lparr>w_inventories :=
                        AList.update cr vr (AList.update ci vi (w_inventories w))\<rparr>)
           | _ \<Rightarrow> None)
      | _ \<Rightarrow> None)"

section \<open>The service state\<close>

datatype TradeCancelReason =
    Rejected | Expired | PlayerDisconnected | ParticipantUnavailable | CancelledByParticipant

text \<open>The messages to clients, with their fields in the order of their declarations.\<close>

datatype TradeMessage =
    NotifyTradeInvite SessionId PlayerId Tick
  | NotifyTradeStarted SessionId PlayerId PlayerId Revision
  | NotifyTradeState SessionId Revision State Error PlayerId PlayerId TradeOfferData TradeOfferData
      bool bool Revision Revision
  | NotifyTradeApply SessionId Revision ApplyId TradeMutationPlanData
  | NotifyTradeReconcile SessionId Revision ApplyId ReconcileId TradeReconciliationPlanData
  | NotifyTradeCancelled SessionId PlayerId TradeCancelReason

record TradeService =
  t_world :: World
  t_sessions :: "(SessionId \<times> Session) list"
  t_player_sessions :: "(PlayerId \<times> SessionId) list"
  t_applications :: "(SessionId \<times> Application) list"
  t_baselines :: "(SessionId \<times> ReconciliationPlan) list"
  t_reconciliations :: "(SessionId \<times> Reconciliation) list"
  t_cleanup_ticks :: "(SessionId \<times> Tick) list"
  t_next_session_id :: SessionId
  t_next_apply_id :: ApplyId
  t_next_reconcile_id :: ReconcileId
  t_next_sweep :: Tick
  t_sent :: "(PlayerId \<times> TradeMessage) list"

definition new_trade_service :: "World \<Rightarrow> TradeService" where
  "new_trade_service w =
     \<lparr>t_world = w, t_sessions = [], t_player_sessions = [], t_applications = [], t_baselines = [],
      t_reconciliations = [], t_cleanup_ticks = [], t_next_session_id = 1, t_next_apply_id = 1,
      t_next_reconcile_id = 1, t_next_sweep = 0, t_sent = []\<rparr>"

definition find_session :: "TradeService \<Rightarrow> SessionId \<Rightarrow> Session option" where
  "find_session st sid = map_of (t_sessions st) sid"

text \<open>A change through the pointer that \<open>FindSession\<close> returned.\<close>

definition put_session :: "SessionId \<Rightarrow> Session \<Rightarrow> TradeService \<Rightarrow> TradeService" where
  "put_session sid s st = st\<lparr>t_sessions := AList.update sid s (t_sessions st)\<rparr>"

definition is_player_in_session :: "TradeService \<Rightarrow> PlayerId \<Rightarrow> bool" where
  "is_player_in_session st p \<longleftrightarrow> map_of (t_player_sessions st) p \<noteq> None"

definition is_indexed_participant :: "TradeService \<Rightarrow> PlayerId \<Rightarrow> SessionId \<Rightarrow> bool" where
  "is_indexed_participant st p sid \<longleftrightarrow> map_of (t_player_sessions st) p = Some sid"

section \<open>Identifiers\<close>

definition allocate_session_id :: "TradeService \<Rightarrow> (SessionId \<times> TradeService) option" where
  "allocate_session_id st =
     map_option (\<lambda>(i, n). (i, st\<lparr>t_next_session_id := n\<rparr>))
       (alloc_id (\<lambda>i. map_of (t_sessions st) i \<noteq> None) (t_next_session_id st))"

definition allocate_apply_id :: "TradeService \<Rightarrow> (ApplyId \<times> TradeService) option" where
  "allocate_apply_id st =
     map_option (\<lambda>(i, n). (i, st\<lparr>t_next_apply_id := n\<rparr>))
       (alloc_id (\<lambda>i. list_ex (\<lambda>(sid, a). a_id a = i) (t_applications st)) (t_next_apply_id st))"

definition allocate_reconcile_id :: "TradeService \<Rightarrow> (ReconcileId \<times> TradeService) option" where
  "allocate_reconcile_id st =
     map_option (\<lambda>(i, n). (i, st\<lparr>t_next_reconcile_id := n\<rparr>))
       (alloc_id (\<lambda>i. list_ex (\<lambda>(sid, r). r_id r = i) (t_reconciliations st))
         (t_next_reconcile_id st))"

section \<open>Sending\<close>

definition send :: "PlayerId \<Rightarrow> TradeMessage \<Rightarrow> TradeService \<Rightarrow> TradeService" where
  "send p m st = st\<lparr>t_sent := t_sent st @ [(p, m)]\<rparr>"

text \<open>Sending to a player that is looked up first, and only if it is there and not ignored.\<close>

definition send_to_id ::
  "PlayerId option \<Rightarrow> PlayerId \<Rightarrow> TradeMessage \<Rightarrow> TradeService \<Rightarrow> TradeService" where
  "send_to_id ignored p m st =
     (if get_by_id (t_world st) p = None \<or> ignored = Some p then st else send p m st)"

definition send_invite :: "PlayerId \<Rightarrow> Session \<Rightarrow> TradeService \<Rightarrow> TradeService" where
  "send_invite invitee s st =
     send invitee (NotifyTradeInvite (s_id s) (part_id (s_initiator s)) (s_expiry s)) st"

definition send_started :: "Session \<Rightarrow> TradeService \<Rightarrow> TradeService" where
  "send_started s st =
     (let a = part_id (s_initiator s); b = part_id (s_recipient s);
          m = NotifyTradeStarted (s_id s) a b (s_revision s)
      in send_to_id None b m (send_to_id None a m st))"

definition state_message :: "Session \<Rightarrow> TradeMessage" where
  "state_message s =
     NotifyTradeState (s_id s) (s_revision s) (s_state s) (s_terminal_error s)
       (part_id (s_initiator s)) (part_id (s_recipient s))
       (to_network_offer (current_offer (s_initiator s)))
       (to_network_offer (current_offer (s_recipient s)))
       (confirmed (s_initiator s)) (confirmed (s_recipient s))
       (confirmed_revision (s_initiator s)) (confirmed_revision (s_recipient s))"

definition send_state :: "Session \<Rightarrow> PlayerId option \<Rightarrow> TradeService \<Rightarrow> TradeService" where
  "send_state s recipient st =
     (case recipient of
        Some p \<Rightarrow> send p (state_message s) st
      | None \<Rightarrow>
          send_to_id None (part_id (s_recipient s)) (state_message s)
            (send_to_id None (part_id (s_initiator s)) (state_message s) st))"

definition send_apply :: "Session \<Rightarrow> Application \<Rightarrow> TradeService \<Rightarrow> TradeService" where
  "send_apply s a st =
     send_to_id None (part_id (s_recipient s))
       (NotifyTradeApply (s_id s) (s_revision s) (a_id a) (to_network_mutations (mp_recipient (a_plan a))))
       (send_to_id None (part_id (s_initiator s))
         (NotifyTradeApply (s_id s) (s_revision s) (a_id a) (to_network_mutations (mp_initiator (a_plan a))))
         st)"

definition reconcile_message :: "Reconciliation \<Rightarrow> PlayerReconciliationPlan \<Rightarrow> TradeMessage" where
  "reconcile_message r p =
     NotifyTradeReconcile (rp_session (r_plan r)) (rp_revision (r_plan r)) (rp_application (r_plan r))
       (r_id r) (to_network_targets p)"

definition send_reconciliation ::
  "Reconciliation \<Rightarrow> PlayerId option \<Rightarrow> PlayerId option \<Rightarrow> TradeService \<Rightarrow> TradeService" where
  "send_reconciliation r recipient ignored st =
     (let ip = rp_initiator (r_plan r); rp = rp_recipient (r_plan r) in
      case recipient of
        Some p \<Rightarrow>
          if ignored = Some p then st
          else if p = pr_player ip then send p (reconcile_message r ip) st
          else if p = pr_player rp then send p (reconcile_message r rp) st
          else st
      | None \<Rightarrow>
          send_to_id ignored (pr_player rp) (reconcile_message r rp)
            (send_to_id ignored (pr_player ip) (reconcile_message r ip) st))"

definition send_cancelled ::
  "Session \<Rightarrow> TradeCancelReason \<Rightarrow> PlayerId \<Rightarrow> PlayerId option \<Rightarrow> TradeService \<Rightarrow> TradeService" where
  "send_cancelled s reason actor ignored st =
     (let m = NotifyTradeCancelled (s_id s) actor reason in
      send_to_id ignored (part_id (s_recipient s)) m
        (send_to_id ignored (part_id (s_initiator s)) m st))"

section \<open>Releasing and removing\<close>

definition release_player :: "PlayerId \<Rightarrow> SessionId \<Rightarrow> TradeService \<Rightarrow> TradeService" where
  "release_player p sid st =
     (if map_of (t_player_sessions st) p = Some sid
      then st\<lparr>t_player_sessions := AList.delete p (t_player_sessions st)\<rparr> else st)"

definition release_session_participants :: "SessionId \<Rightarrow> TradeService \<Rightarrow> TradeService" where
  "release_session_participants sid st =
     (case find_session st sid of
        None \<Rightarrow> st
      | Some s \<Rightarrow>
          release_player (part_id (s_recipient s)) sid
            (release_player (part_id (s_initiator s)) sid st))"

definition schedule_terminal_cleanup :: "SessionId \<Rightarrow> Tick \<Rightarrow> TradeService \<Rightarrow> TradeService" where
  "schedule_terminal_cleanup sid now st =
     (let st = release_session_participants sid st in
      st\<lparr>t_cleanup_ticks := AList.update sid (now + kTerminalRetentionMs) (t_cleanup_ticks st)\<rparr>)"

definition remove_session :: "SessionId \<Rightarrow> TradeService \<Rightarrow> TradeService" where
  "remove_session sid st =
     (let st = release_session_participants sid st in
      st\<lparr>t_applications := AList.delete sid (t_applications st),
         t_baselines := AList.delete sid (t_baselines st),
         t_reconciliations := AList.delete sid (t_reconciliations st),
         t_cleanup_ticks := AList.delete sid (t_cleanup_ticks st),
         t_sessions := AList.delete sid (t_sessions st)\<rparr>)"

section \<open>Plans and their execution\<close>

definition validate_and_build_mutation_plan :: "TradeService \<Rightarrow> Session \<Rightarrow> Error + MutationPlan" where
  "validate_and_build_mutation_plan st s =
     (case (try_build_inventory_snapshot (t_world st) (part_id (s_initiator s)),
            try_build_inventory_snapshot (t_world st) (part_id (s_recipient s))) of
        (Some a, Some b) \<Rightarrow> build_mutation_plan s a b
      | _ \<Rightarrow> Inl InventoryUnavailable)"

definition build_current_reconciliation_plan ::
  "TradeService \<Rightarrow> Application \<Rightarrow> Error + ReconciliationPlan" where
  "build_current_reconciliation_plan st a =
     (case (try_build_inventory_snapshot (t_world st) (pm_player (mp_initiator (a_plan a))),
            try_build_inventory_snapshot (t_world st) (pm_player (mp_recipient (a_plan a)))) of
        (Some i, Some r) \<Rightarrow> build_reconciliation_plan a i r
      | _ \<Rightarrow> Inl InventoryUnavailable)"

text \<open>The exit that \<open>BeginApplication\<close> takes three times: fail, tell both, remove.\<close>

definition fail_and_remove :: "SessionId \<Rightarrow> Session \<Rightarrow> Error \<Rightarrow> Tick \<Rightarrow> TradeService \<Rightarrow> TradeService" where
  "fail_and_remove sid s reason now st =
     (let s' = fst (fail reason now s) in
      remove_session (s_id s') (send_state s' None (put_session sid s' st)))"

definition begin_application ::
  "SessionId \<Rightarrow> Session \<Rightarrow> MutationPlan \<Rightarrow> Tick \<Rightarrow> TradeService \<Rightarrow> TradeService option" where
  "begin_application sid s plan now st =
     (case allocate_apply_id st of
        None \<Rightarrow> None
      | Some (apply_id, st) \<Rightarrow>
          (let (s, start_result) = start_applying now s; st = put_session sid s st in
           if \<not> succeeded start_result then Some (fail_and_remove sid s ApplyFailed now st)
           else
             (let (apps, inserted) = try_emplace (s_id s)
                    (new_application apply_id plan now (now + kApplyTimeoutMs)) (t_applications st);
                  st = st\<lparr>t_applications := apps\<rparr> in
              if \<not> inserted then Some (fail_and_remove sid s ApplyFailed now st)
              else
                (let a = the (map_of apps (s_id s)) in
                 case build_current_reconciliation_plan st a of
                   Inl e \<Rightarrow> Some (fail_and_remove sid s ReconciliationUnavailable now st)
                 | Inr baseline \<Rightarrow>
                     Some (send_apply s a (send_state s None
                       (st\<lparr>t_baselines := AList.update (s_id s) baseline (t_baselines st)\<rparr>)))))))"

definition start_reconciliation ::
  "Session \<Rightarrow> ReconciliationPlan \<Rightarrow> Tick \<Rightarrow> PlayerId \<Rightarrow> PlayerId option \<Rightarrow> TradeService \<Rightarrow>
     TradeService option" where
  "start_reconciliation s plan now unavailable ignored st =
     (case allocate_reconcile_id st of
        None \<Rightarrow> None
      | Some (reconcile_id, st) \<Rightarrow>
          (let (recs, inserted) = try_emplace (s_id s)
                 (new_reconciliation reconcile_id plan now (now + kReconciliationTimeoutMs))
                 (t_reconciliations st);
               st = st\<lparr>t_reconciliations := recs\<rparr> in
           if \<not> inserted then Some (schedule_terminal_cleanup (s_id s) now st)
           else
             (let r = the (map_of recs (s_id s));
                  r = (if unavailable \<noteq> 0 then fst (rec_mark_unavailable unavailable now r) else r);
                  st = st\<lparr>t_baselines := AList.delete (s_id s) (t_baselines st),
                          t_reconciliations := AList.update (s_id s) r (t_reconciliations st),
                          t_cleanup_ticks := AList.delete (s_id s) (t_cleanup_ticks st)\<rparr>;
                  st = send_reconciliation r None ignored st in
              Some (if rec_is_settled r then schedule_terminal_cleanup (s_id s) now st else st))))"

definition begin_reconciliation ::
  "Session \<Rightarrow> Application \<Rightarrow> Tick \<Rightarrow> PlayerId \<Rightarrow> PlayerId option \<Rightarrow> TradeService \<Rightarrow>
     TradeService option" where
  "begin_reconciliation s a now unavailable ignored st =
     (case map_of (t_reconciliations st) (s_id s) of
        Some r \<Rightarrow> Some (send_reconciliation r None ignored st)
      | None \<Rightarrow>
          (case build_current_reconciliation_plan st a of
             Inr plan \<Rightarrow> start_reconciliation s plan now unavailable ignored st
           | Inl e \<Rightarrow>
               (case map_of (t_baselines st) (s_id s) of
                  Some plan \<Rightarrow>
                    if e = InventoryUnavailable
                    then start_reconciliation s plan now unavailable ignored st
                    else Some (schedule_terminal_cleanup (s_id s) now st)
                | None \<Rightarrow> Some (schedule_terminal_cleanup (s_id s) now st))))"

section \<open>Packets\<close>

text \<open>
  Every handler takes the packet's player, \<open>None\<close> for the null pointer. A handler that may
  allocate an identifier returns \<open>None\<close> where the allocation loop would not end.
\<close>

definition on_trade_invite_request ::
  "PlayerId option \<Rightarrow> PlayerId \<Rightarrow> Tick \<Rightarrow> TradeService \<Rightarrow> TradeService option" where
  "on_trade_invite_request inviter invitee now st =
     (case inviter of
        None \<Rightarrow> Some st
      | Some inviter \<Rightarrow>
          if get_by_id (t_world st) invitee = None then Some st
          else if invitee = inviter then Some st
          else case map_of (t_player_sessions st) inviter of
            Some sid \<Rightarrow>
              (case find_session st sid of
                 Some s \<Rightarrow>
                   if s_state s = PendingAcceptance \<and> part_id (s_initiator s) = inviter
                      \<and> part_id (s_recipient s) = invitee
                   then Some (send_invite invitee s st) else Some st
               | None \<Rightarrow> Some st)
          | None \<Rightarrow>
              if is_player_in_session st invitee then Some st
              else case allocate_session_id st of
                None \<Rightarrow> None
              | Some (sid, st) \<Rightarrow>
                  (let (sessions, inserted) = try_emplace sid
                         (new_session sid inviter invitee now (now + kInviteLifetimeMs)) (t_sessions st) in
                   if \<not> inserted then Some st
                   else
                     (let (index1, inviter_indexed) = try_emplace inviter sid (t_player_sessions st);
                          (index2, invitee_indexed) = try_emplace invitee sid index1 in
                      if \<not> inviter_indexed \<or> \<not> invitee_indexed then
                        (let index3 = (if inviter_indexed then AList.delete inviter index2 else index2);
                             index4 = (if invitee_indexed then AList.delete invitee index3 else index3) in
                         Some (st\<lparr>t_sessions := AList.delete sid sessions,
                                  t_player_sessions := index4\<rparr>))
                      else
                        Some (send_invite invitee (the (map_of sessions sid))
                          (st\<lparr>t_sessions := sessions, t_player_sessions := index2\<rparr>)))))"

definition on_trade_invite_response_request ::
  "PlayerId option \<Rightarrow> SessionId \<Rightarrow> bool \<Rightarrow> Tick \<Rightarrow> TradeService \<Rightarrow> TradeService" where
  "on_trade_invite_response_request responder sid accepted now st =
     (case (responder, find_session st sid) of
        (Some p, Some s) \<Rightarrow>
          if \<not> is_indexed_participant st p sid then st
          else if s_state s = PendingAcceptance \<and> now \<ge> s_expiry s then
            (let s = fst (expire now s) in
             remove_session (s_id s) (send_cancelled s Expired 0 None (put_session sid s st)))
          else if \<not> accepted then
            (let (s, result) = reject p now s in
             if \<not> succeeded result then put_session sid s st
             else remove_session (s_id s) (send_cancelled s Rejected p None (put_session sid s st)))
          else
            (let (s, result) = accept p now s in
             if \<not> succeeded result then put_session sid s st
             else if get_by_id (t_world st) (part_id (s_initiator s)) = None
                     \<or> get_by_id (t_world st) (part_id (s_recipient s)) = None then
               (let s = fst (cancel p now s) in
                remove_session (s_id s)
                  (send_cancelled s ParticipantUnavailable p None (put_session sid s st)))
             else send_state s None (send_started s (put_session sid s st)))
      | _ \<Rightarrow> st)"

definition on_trade_offer_update_request ::
  "PlayerId option \<Rightarrow> SessionId \<Rightarrow> Revision \<Rightarrow> TradeOfferData \<Rightarrow> Tick \<Rightarrow> TradeService \<Rightarrow> TradeService" where
  "on_trade_offer_update_request player sid expected offer now st =
     (case (player, find_session st sid) of
        (Some p, Some s) \<Rightarrow>
          if \<not> is_indexed_participant st p sid then st
          else if \<not> od_valid offer then send_state s (Some p) st
          else
            (let (s, result) = update_offer p expected (to_domain_offer offer) now s;
                 st = put_session sid s st in
             if \<not> succeeded result then send_state s (Some p) st
             else send_state s (if result_changed result then None else Some p) st)
      | _ \<Rightarrow> st)"

definition on_trade_confirm_request ::
  "PlayerId option \<Rightarrow> SessionId \<Rightarrow> Revision \<Rightarrow> Tick \<Rightarrow> TradeService \<Rightarrow> TradeService option" where
  "on_trade_confirm_request player sid r now st =
     (case (player, find_session st sid) of
        (Some p, Some s) \<Rightarrow>
          if \<not> is_indexed_participant st p sid then Some st
          else
            (let previous_state = s_state s; (s, result) = confirm p r now s;
                 st = put_session sid s st in
             if \<not> succeeded result then Some (send_state s (Some p) st)
             else if previous_state \<noteq> Locked \<and> s_state s = Locked then
               (case validate_and_build_mutation_plan st s of
                  Inl e \<Rightarrow> Some (fail_and_remove sid s e now st)
                | Inr plan \<Rightarrow> begin_application sid s plan now st)
             else Some (send_state s (if result_changed result then None else Some p) st))
      | _ \<Rightarrow> Some st)"

definition on_trade_cancel_request ::
  "PlayerId option \<Rightarrow> SessionId \<Rightarrow> Tick \<Rightarrow> TradeService \<Rightarrow> TradeService" where
  "on_trade_cancel_request player sid now st =
     (case (player, find_session st sid) of
        (Some p, Some s) \<Rightarrow>
          if \<not> is_indexed_participant st p sid then st
          else
            (let (s, result) = cancel p now s; st = put_session sid s st in
             if \<not> succeeded result then send_state s (Some p) st
             else remove_session (s_id s) (send_cancelled s CancelledByParticipant p None st))
      | _ \<Rightarrow> st)"

definition put_application :: "SessionId \<Rightarrow> Application \<Rightarrow> TradeService \<Rightarrow> TradeService" where
  "put_application sid a st = st\<lparr>t_applications := AList.update sid a (t_applications st)\<rparr>"

definition put_reconciliation :: "SessionId \<Rightarrow> Reconciliation \<Rightarrow> TradeService \<Rightarrow> TradeService" where
  "put_reconciliation sid r st = st\<lparr>t_reconciliations := AList.update sid r (t_reconciliations st)\<rparr>"

text \<open>What follows a recorded apply result; \<open>now\<close> is the handler's second reading of the clock.\<close>

definition after_apply_result ::
  "SessionId \<Rightarrow> Session \<Rightarrow> Application \<Rightarrow> Tick \<Rightarrow> TradeService \<Rightarrow> TradeService option" where
  "after_apply_result sid s a now st =
     (if app_has_failed a then
        (let s = (if is_terminal s then s else fst (fail ApplyFailed now s)) in
         begin_reconciliation s a now 0 None (send_state s None (put_session sid s st)))
      else if \<not> app_all_succeeded a then Some st
      else case commit_mutation_plan (a_plan a) (t_world st) of
        None \<Rightarrow>
          (let s = fst (fail ServerCommitFailed now s) in
           begin_reconciliation s a now 0 None (send_state s None (put_session sid s st)))
      | Some w \<Rightarrow>
          (let s = fst (complete now s) in
           Some (schedule_terminal_cleanup (s_id s) now
             (send_state s None (put_session sid s (st\<lparr>t_world := w\<rparr>))))))"

definition on_trade_apply_result_request ::
  "PlayerId option \<Rightarrow> SessionId \<Rightarrow> Revision \<Rightarrow> ApplyId \<Rightarrow> TradeApplyResultCode \<Rightarrow> bool \<Rightarrow>
     Tick \<Rightarrow> Tick \<Rightarrow> TradeService \<Rightarrow> TradeService option" where
  "on_trade_apply_result_request player sid r apply_id code valid now later st =
     (case (player, find_session st sid, map_of (t_applications st) sid) of
        (Some p, Some s, Some a) \<Rightarrow>
          (case map_of (t_reconciliations st) sid of
             Some rc \<Rightarrow>
               Some (if rec_is_participant rc p then send_reconciliation rc (Some p) None st else st)
           | None \<Rightarrow>
               if \<not> is_participant s p \<or> a_id a \<noteq> apply_id \<or> mp_revision (a_plan a) \<noteq> r
               then Some (send_state s (Some p) st)
               else
                 (let result_code = (if valid then code else ApplyCode_MalformedPlan);
                      (a, result) = app_record_result p (to_apply_outcome result_code) now a;
                      st = put_application sid a st in
                  if \<not> succeeded result then Some (send_state s (Some p) st)
                  else after_apply_result sid s a later st))
      | _ \<Rightarrow> Some st)"

definition on_trade_reconcile_result_request ::
  "PlayerId option \<Rightarrow> SessionId \<Rightarrow> Revision \<Rightarrow> ApplyId \<Rightarrow> ReconcileId \<Rightarrow> TradeReconcileResultCode \<Rightarrow>
     bool \<Rightarrow> Tick \<Rightarrow> Tick \<Rightarrow> TradeService \<Rightarrow> TradeService" where
  "on_trade_reconcile_result_request player sid r apply_id reconcile_id code valid now later st =
     (case (player, find_session st sid, map_of (t_reconciliations st) sid) of
        (Some p, Some s, Some rc) \<Rightarrow>
          if \<not> rec_is_participant rc p \<or> r_id rc \<noteq> reconcile_id
             \<or> rp_application (r_plan rc) \<noteq> apply_id \<or> rp_revision (r_plan rc) \<noteq> r
          then send_state s (Some p) st
          else
            (let result_code = (if valid then code else ReconcileCode_MalformedPlan);
                 (rc, result) = rec_record_result p (to_reconcile_outcome result_code) now rc;
                 st = put_reconciliation sid rc st in
             if \<not> succeeded result then st
             else if \<not> rec_is_settled rc then st
             else schedule_terminal_cleanup (rp_session (r_plan rc)) later st)
      | _ \<Rightarrow> st)"

section \<open>Leaving players and the periodic sweep\<close>

definition on_player_leave ::
  "PlayerId option \<Rightarrow> Tick \<Rightarrow> TradeService \<Rightarrow> TradeService option" where
  "on_player_leave player now st =
     (case player of
        None \<Rightarrow> Some st
      | Some p \<Rightarrow>
          (case map_of (t_player_sessions st) p of
             None \<Rightarrow> Some st
           | Some sid \<Rightarrow>
               (case find_session st sid of
                  None \<Rightarrow> Some (st\<lparr>t_player_sessions := AList.delete p (t_player_sessions st)\<rparr>)
                | Some s \<Rightarrow>
                    (case map_of (t_reconciliations st) sid of
                       Some rc \<Rightarrow>
                         (let rc = fst (rec_mark_unavailable p now rc); st = put_reconciliation sid rc st in
                          Some (if rec_is_settled rc then schedule_terminal_cleanup sid now st else st))
                     | None \<Rightarrow>
                         if s_state s = Applying then
                           (let s = fst (fail ParticipantDisconnected now s);
                                st = send_state s None (put_session sid s st) in
                            case map_of (t_applications st) sid of
                              None \<Rightarrow> Some (schedule_terminal_cleanup sid now st)
                            | Some a \<Rightarrow> begin_reconciliation s a now p (Some p) st)
                         else
                           (let (s, result) = cancel p now s; st = put_session sid s st in
                            if \<not> succeeded result then Some st
                            else Some (remove_session sid
                              (send_cancelled s PlayerDisconnected p (Some p) st)))))))"

definition expired_invitations :: "Tick \<Rightarrow> TradeService \<Rightarrow> SessionId list" where
  "expired_invitations now st =
     map fst (filter (\<lambda>(sid, s). s_state s = PendingAcceptance \<and> now \<ge> s_expiry s) (t_sessions st))"

definition timed_out_applications :: "Tick \<Rightarrow> TradeService \<Rightarrow> SessionId list" where
  "timed_out_applications now st =
     map fst (filter (\<lambda>(sid, a). map_of (t_reconciliations st) sid = None \<and> app_is_timed_out a now)
       (t_applications st))"

definition timed_out_reconciliations :: "Tick \<Rightarrow> TradeService \<Rightarrow> SessionId list" where
  "timed_out_reconciliations now st =
     map fst (filter (\<lambda>(sid, r). rec_is_timed_out r now) (t_reconciliations st))"

definition cleanup_sessions :: "Tick \<Rightarrow> TradeService \<Rightarrow> SessionId list" where
  "cleanup_sessions now st = map fst (filter (\<lambda>(sid, tick). now \<ge> tick) (t_cleanup_ticks st))"

definition expire_invitation :: "Tick \<Rightarrow> SessionId \<Rightarrow> TradeService \<Rightarrow> TradeService" where
  "expire_invitation now sid st =
     (case find_session st sid of
        None \<Rightarrow> st
      | Some s \<Rightarrow>
          (let (s, result) = expire now s; st = put_session sid s st;
               st = (if result_changed result then send_cancelled s Expired 0 None st else st) in
           remove_session sid st))"

definition time_out_application :: "Tick \<Rightarrow> SessionId \<Rightarrow> TradeService \<Rightarrow> TradeService option" where
  "time_out_application now sid st =
     (case (find_session st sid, map_of (t_applications st) sid) of
        (Some s, Some a) \<Rightarrow>
          (if is_terminal s then begin_reconciliation s a now 0 None st
           else
             (let s = fst (fail ApplyTimedOut now s) in
              begin_reconciliation s a now 0 None (send_state s None (put_session sid s st))))
      | _ \<Rightarrow> Some st)"

definition time_out_reconciliation :: "Tick \<Rightarrow> SessionId \<Rightarrow> TradeService \<Rightarrow> TradeService" where
  "time_out_reconciliation now sid st =
     (if map_of (t_reconciliations st) sid = None then st
      else schedule_terminal_cleanup sid now st)"

fun time_out_applications :: "Tick \<Rightarrow> SessionId list \<Rightarrow> TradeService \<Rightarrow> TradeService option" where
  "time_out_applications now [] st = Some st"
| "time_out_applications now (sid # sids) st =
     (case time_out_application now sid st of
        None \<Rightarrow> None
      | Some st \<Rightarrow> time_out_applications now sids st)"

text \<open>The four lists are computed before the first session is touched.\<close>

definition on_update :: "Tick \<Rightarrow> TradeService \<Rightarrow> TradeService option" where
  "on_update now st =
     (if now < t_next_sweep st then Some st
      else
        (let st = st\<lparr>t_next_sweep := now + kExpirySweepIntervalMs\<rparr>;
             expired = expired_invitations now st;
             applications = timed_out_applications now st;
             reconciliations = timed_out_reconciliations now st;
             cleanups = cleanup_sessions now st in
         map_option
           (\<lambda>st. fold remove_session cleanups (fold (time_out_reconciliation now) reconciliations st))
           (time_out_applications now applications (fold (expire_invitation now) expired st))))"

section \<open>The service as a component\<close>

datatype TradeEvent =
    InviteRequest "PlayerId option" PlayerId
  | InviteResponse "PlayerId option" SessionId bool
  | OfferUpdate "PlayerId option" SessionId Revision TradeOfferData
  | ConfirmRequest "PlayerId option" SessionId Revision
  | CancelRequest "PlayerId option" SessionId
  | ApplyResult "PlayerId option" SessionId Revision ApplyId TradeApplyResultCode bool
  | ReconcileResult "PlayerId option" SessionId Revision ApplyId ReconcileId TradeReconcileResultCode bool
  | PlayerLeave "PlayerId option"
  | Update

text \<open>One event, with the two readings of the server clock that its handler can make.\<close>

fun trade_step :: "Tick \<Rightarrow> Tick \<Rightarrow> TradeEvent \<Rightarrow> TradeService \<Rightarrow> TradeService option" where
  "trade_step now later (InviteRequest p q) st = on_trade_invite_request p q now st"
| "trade_step now later (InviteResponse p sid accepted) st =
     Some (on_trade_invite_response_request p sid accepted now st)"
| "trade_step now later (OfferUpdate p sid r d) st = Some (on_trade_offer_update_request p sid r d now st)"
| "trade_step now later (ConfirmRequest p sid r) st = on_trade_confirm_request p sid r now st"
| "trade_step now later (CancelRequest p sid) st = Some (on_trade_cancel_request p sid now st)"
| "trade_step now later (ApplyResult p sid r i c v) st =
     on_trade_apply_result_request p sid r i c v now later st"
| "trade_step now later (ReconcileResult p sid r i j c v) st =
     Some (on_trade_reconcile_result_request p sid r i j c v now later st)"
| "trade_step now later (PlayerLeave p) st = on_player_leave p now st"
| "trade_step now later Update st = on_update now st"

fun trade_run :: "(Tick \<times> Tick \<times> TradeEvent) list \<Rightarrow> TradeService \<Rightarrow> TradeService option" where
  "trade_run [] st = Some st"
| "trade_run ((now, later, ev) # evs) st =
     (case trade_step now later ev st of None \<Rightarrow> None | Some st' \<Rightarrow> trade_run evs st')"

text \<open>
  The reachable states: from the start, in any world, by handled events and by changes of the
  world that other parts of the server make (players joining, leaving and getting characters,
  inventories changing).
\<close>

inductive trade_reachable :: "TradeService \<Rightarrow> bool" where
  reach_start: "trade_reachable (new_trade_service w)"
| reach_step: "trade_reachable st \<Longrightarrow> trade_step now later ev st = Some st' \<Longrightarrow> trade_reachable st'"
| reach_world: "trade_reachable st \<Longrightarrow> trade_reachable (st\<lparr>t_world := w\<rparr>)"

lemma trade_run_reachable: "trade_reachable st \<Longrightarrow> trade_run evs st = Some st' \<Longrightarrow> trade_reachable st'"
  by (induction evs st rule: trade_run.induct) (auto split: option.splits intro: reach_step)

end
