(* ===== verification/TradeCommit.thy ===== *)
theory TradeCommit
  imports TradeService
begin

text \<open>
  The two ends of a trade on the server: the snapshots from which a plan is built and the commit
  that executes it. The commit moves exactly what the offers say between the two characters and
  nothing else, and a plan built from the current inventories can be executed unless a receiving
  stack would exceed a signed 32-bit count.
\<close>

section \<open>Item identifiers\<close>

lemma low_word_mask: "(0xFFFFFFFF :: u64) = mask 32"
  by (simp add: mask_eq_exp_minus_1)

lemma to_game_id_inverse [simp]: "to_game_id (to_trade_item_id g) = g"
proof -
  have "ucast (to_trade_item_id g AND 0xFFFFFFFF) = base_id g"
    unfolding to_trade_item_id_def low_word_mask
    by (rule bit_word_eqI) (auto simp: bit_simps)
  moreover have "ucast (drop_bit 32 (to_trade_item_id g)) = mod_id g"
    unfolding to_trade_item_id_def
    by (rule bit_word_eqI) (auto simp: bit_simps dest: bit_imp_le_length)
  ultimately show ?thesis by (cases g) (simp add: to_game_id_def)
qed

lemma to_trade_item_id_inverse [simp]: "to_trade_item_id (to_game_id i) = i"
  unfolding to_trade_item_id_def to_game_id_def low_word_mask
  by (rule bit_word_eqI) (auto simp: bit_simps not_less)

lemma to_trade_item_id_eq [simp]: "to_trade_item_id g = i \<longleftrightarrow> g = to_game_id i"
  by (metis to_game_id_inverse to_trade_item_id_inverse)

lemma to_game_id_eq [simp]: "to_game_id i = to_game_id j \<longleftrightarrow> i = j"
  by (metis to_trade_item_id_inverse)

lemma to_game_id_zero [simp]: "to_game_id 0 = zero_game_id"
  by (simp add: to_game_id_def zero_game_id_def)

lemma to_game_id_zero_iff [simp]: "to_game_id i = zero_game_id \<longleftrightarrow> i = 0"
  by (metis to_game_id_eq to_game_id_zero)

section \<open>Applying mutations to an inventory\<close>

text \<open>Every stack has a form and a positive 32-bit count.\<close>

definition inventory_ok :: "Inventory \<Rightarrow> bool" where
  "inventory_ok v \<longleftrightarrow>
     (\<forall>e \<in> set (entries v). e_base_id e \<noteq> zero_game_id \<and> 0 < e_count e \<and> e_count e \<le> int32_max)"

definition entries_with :: "Inventory \<Rightarrow> GameId \<Rightarrow> Entry list" where
  "entries_with v g = filter (\<lambda>e. e_base_id e = g) (entries v)"

lemma item_total_filter: "item_total es g = item_total (filter (\<lambda>e. e_base_id e = g) es) g"
  by (induction es) auto

lemma item_total_entries_with:
  "entries_with v g = [] \<Longrightarrow> item_total (entries v) g = 0"
  "entries_with v g = [e] \<Longrightarrow> item_total (entries v) g = e_count e"
  by (simp_all add: item_total_filter [of "entries v"] entries_with_def)
    (auto simp: filter_eq_Cons_iff)

lemma merge_self: "is_mvp_transferable e \<Longrightarrow> can_be_merged e (e\<lparr>e_count := n\<rparr>)"
  by (auto simp: is_mvp_transferable_def can_be_merged_def is_extra_data_equals_def
      intro: f32_eq_zero_refl)

text \<open>The two ways in which a mutation succeeds.\<close>

lemma apply_mutation_cases:
  assumes "apply_mutation m v = Some v'"
  obtains (Fresh) "entries_with v (to_game_id (mut_item m)) = []" "mut_item m \<noteq> 0"
      "0 < mut_delta m" "mut_delta m \<le> int32_max"
      "v' = v\<lparr>entries := entries v @ [default_entry\<lparr>e_base_id := to_game_id (mut_item m), e_count := mut_delta m\<rparr>]\<rparr>"
    | (Stack) e us vs where "entries v = us @ e # vs" "e_base_id e = to_game_id (mut_item m)"
      "entries_with v (to_game_id (mut_item m)) = [e]" "mut_item m \<noteq> 0"
      "is_mvp_transferable e" "0 \<le> e_count e + mut_delta m" "e_count e + mut_delta m \<le> int32_max"
      "entries v' = (if e_count e + mut_delta m = 0 then us @ vs
         else us @ e\<lparr>e_count := e_count e + mut_delta m\<rparr> # vs)"
proof -
  let ?g = "to_game_id (mut_item m)"
  let ?found = "filter (\<lambda>e. e_base_id e = ?g) (entries v)"
  have nz: "mut_item m \<noteq> 0" "mut_delta m \<noteq> 0" "length ?found \<le> 1"
    using assms by (auto simp: apply_mutation_def split: if_splits)
  consider "?found = []" | e where "?found = [e]"
    using nz(3) by (cases ?found) auto
  then show ?thesis
  proof cases
    case 1
    then have "find (\<lambda>e. can_be_merged e (default_entry\<lparr>e_base_id := ?g, e_count := mut_delta m\<rparr>)) (entries v) = None"
      by (auto simp: find_None_iff can_be_merged_def filter_empty_conv)
    with 1 nz assms Fresh show ?thesis
      by (auto simp: apply_mutation_def add_or_remove_entry_def entries_with_def split: if_splits)
  next
    case 2
    then have e: "e \<in> set (entries v)" "e_base_id e = ?g" by (auto simp: filter_eq_Cons_iff)
    from 2 nz assms have mvp: "is_mvp_transferable e"
      and lo: "0 \<le> e_count e + mut_delta m" and hi: "e_count e + mut_delta m \<le> int32_max"
      and v': "v' = add_or_remove_entry (e\<lparr>e_base_id := ?g, e_count := mut_delta m\<rparr>) v"
      by (auto simp: apply_mutation_def split: if_splits)
    let ?x = "e\<lparr>e_base_id := ?g, e_count := mut_delta m\<rparr>"
    have x: "?x = e\<lparr>e_count := mut_delta m\<rparr>" using e(2) by simp
    have "find (\<lambda>e. can_be_merged e ?x) (entries v) \<noteq> None"
      using e(1) merge_self [OF mvp] x by (auto simp: find_None_iff)
    then obtain d where d: "find (\<lambda>e. can_be_merged e ?x) (entries v) = Some d" by blast
    from find_split [OF d, of "\<lambda>e. e\<lparr>e_count := e_count d + mut_delta m\<rparr>"] obtain us vs where
      split: "entries v = us @ d # vs" "can_be_merged d ?x"
        "update_first (\<lambda>e. can_be_merged e ?x) (\<lambda>e. e\<lparr>e_count := e_count d + mut_delta m\<rparr>) (entries v) =
           us @ d\<lparr>e_count := e_count d + mut_delta m\<rparr> # vs"
        "erase_first (\<lambda>e. can_be_merged e ?x) (entries v) = us @ vs" by blast
    have "d \<in> set ?found" using split by (auto simp: can_be_merged_def)
    then have "d = e" using 2 by simp
    moreover have "to_i32 (e_count e + mut_delta m) = e_count e + mut_delta m"
      using lo hi by (simp add: to_i32_id)
    ultimately have "entries v' = (if e_count e + mut_delta m = 0 then us @ vs
         else us @ e\<lparr>e_count := e_count e + mut_delta m\<rparr> # vs)"
      using v' d split lo by (auto simp: add_or_remove_entry_def)
    with Stack [of us e vs] split \<open>d = e\<close> e 2 nz mvp lo hi show ?thesis
      by (simp add: entries_with_def)
  qed
qed

lemma apply_mutation_total:
  assumes "apply_mutation m v = Some v'"
  shows "item_total (entries v') g =
     item_total (entries v) g + (if to_game_id (mut_item m) = g then mut_delta m else 0)"
  using assms
proof (cases rule: apply_mutation_cases)
  case (Stack e us vs)
  then show ?thesis by auto
qed auto

lemma apply_mutation_ok:
  assumes "apply_mutation m v = Some v'" and "inventory_ok v"
  shows "inventory_ok v'"
  using assms(1)
proof (cases rule: apply_mutation_cases)
  case Fresh
  with assms(2) show ?thesis by (auto simp: inventory_ok_def)
next
  case (Stack e us vs)
  with assms(2) show ?thesis by (auto simp: inventory_ok_def split: if_splits)
qed

lemma apply_mutations_total:
  "apply_mutations_to_inventory ms v = Some v' \<Longrightarrow>
     item_total (entries v') g = item_total (entries v) g + delta_of ms (to_trade_item_id g)"
proof (induction ms arbitrary: v)
  case (Cons m ms)
  then obtain v1 where "apply_mutation m v = Some v1" "apply_mutations_to_inventory ms v1 = Some v'"
    by (auto split: option.splits)
  with Cons.IH [of v1] show ?case
    by (auto simp: apply_mutation_total)
qed simp

lemma apply_mutations_ok:
  "apply_mutations_to_inventory ms v = Some v' \<Longrightarrow> inventory_ok v \<Longrightarrow> inventory_ok v'"
  by (induction ms arbitrary: v) (auto split: option.splits dest: apply_mutation_ok)


section \<open>Which mutations apply\<close>

text \<open>
  A mutation fits an inventory when its item has no stack there and it adds one, or when it has
  exactly one, transferable, stack; in both cases the resulting count is between zero and the
  largest signed 32-bit count.
\<close>

definition mutation_fits :: "Inventory \<Rightarrow> InventoryMutation \<Rightarrow> bool" where
  "mutation_fits v m \<longleftrightarrow> mut_item m \<noteq> 0 \<and> mut_delta m \<noteq> 0 \<and>
     (case entries_with v (to_game_id (mut_item m)) of
        [] \<Rightarrow> 0 < mut_delta m \<and> mut_delta m \<le> int32_max
      | [e] \<Rightarrow> is_mvp_transferable e \<and> 0 \<le> e_count e + mut_delta m \<and>
          e_count e + mut_delta m \<le> int32_max
      | _ \<Rightarrow> False)"

lemma apply_mutation_iff: "apply_mutation m v \<noteq> None \<longleftrightarrow> mutation_fits v m"
proof (cases "entries_with v (to_game_id (mut_item m))")
  case Nil
  then show ?thesis
    by (auto simp: apply_mutation_def mutation_fits_def entries_with_def)
next
  case (Cons e es)
  then show ?thesis
    by (cases es) (auto simp: apply_mutation_def mutation_fits_def entries_with_def)
qed

lemma apply_mutation_entries_with:
  assumes "apply_mutation m v = Some v'" and "g \<noteq> to_game_id (mut_item m)"
  shows "entries_with v' g = entries_with v g"
  using assms(1)
proof (cases rule: apply_mutation_cases)
  case Fresh
  with assms(2) show ?thesis by (simp add: entries_with_def)
next
  case (Stack e us vs)
  with assms(2) show ?thesis by (auto simp: entries_with_def)
qed

lemma mutation_fits_cong:
  "entries_with v' (to_game_id (mut_item m)) = entries_with v (to_game_id (mut_item m)) \<Longrightarrow>
     mutation_fits v' m = mutation_fits v m"
  by (simp add: mutation_fits_def)

lemma apply_mutations_iff:
  "distinct (map mut_item ms) \<Longrightarrow>
     apply_mutations_to_inventory ms v \<noteq> None \<longleftrightarrow> (\<forall>m \<in> set ms. mutation_fits v m)"
proof (induction ms arbitrary: v)
  case (Cons m ms)
  show ?case
  proof (cases "apply_mutation m v")
    case None
    then show ?thesis using apply_mutation_iff [of m v] by simp
  next
    case (Some v1)
    have "mutation_fits v1 n = mutation_fits v n" if "n \<in> set ms" for n
      using that Cons.prems
      by (intro mutation_fits_cong apply_mutation_entries_with [OF Some]) (auto simp: image_iff)
    then have "(\<forall>n \<in> set ms. mutation_fits v1 n) \<longleftrightarrow> (\<forall>n \<in> set ms. mutation_fits v n)" by blast
    with Cons Some apply_mutation_iff [of m v] show ?thesis by simp
  qed
qed simp

section \<open>Snapshots\<close>

definition stacks :: "Entry list \<Rightarrow> ItemId \<Rightarrow> Entry list" where
  "stacks es i = filter (\<lambda>e. game_id_set (e_base_id e) \<and> 0 < e_count e \<and> e_base_id e = to_game_id i) es"

text \<open>What a snapshot records of an item, given the item's stacks.\<close>

fun recorded_as :: "ItemId \<Rightarrow> Entry list \<Rightarrow> InventoryItemState list \<Rightarrow> bool" where
  "recorded_as i [] xs \<longleftrightarrow> xs = []"
| "recorded_as i [e] xs \<longleftrightarrow>
     xs = [\<lparr>inv_item = i, inv_quantity = word_of_int (e_count e),
            inv_transferable = is_mvp_transferable e, inv_ambiguous = False\<rparr>]"
| "recorded_as i (e # d # es) xs \<longleftrightarrow>
     (\<exists>x. xs = [x] \<and> inv_ambiguous x \<and> \<not> inv_transferable x)"

lemma filter_update_first_other:
  assumes "\<And>x. inv_item (f x) = inv_item x" and "j \<noteq> i"
  shows "filter (\<lambda>x. inv_item x = j) (update_first (\<lambda>x. inv_item x = i) f items) =
     filter (\<lambda>x. inv_item x = j) items"
  using assms by (induction items) auto

lemma filter_update_first_same:
  assumes "\<And>x. inv_item (f x) = inv_item x" and "filter (\<lambda>x. inv_item x = i) items = [x]"
  shows "filter (\<lambda>x. inv_item x = i) (update_first (\<lambda>x. inv_item x = i) f items) = [f x]"
  using assms by (induction items) (auto split: if_splits)

lemma recorded_as_append:
  assumes "recorded_as i es xs"
  shows "es = [] \<Longrightarrow> xs = []" and "es \<noteq> [] \<Longrightarrow> \<exists>x. xs = [x]"
    and "es \<noteq> [] \<Longrightarrow> recorded_as i (es @ [e]) ys \<longleftrightarrow> (\<exists>x. ys = [x] \<and> inv_ambiguous x \<and> \<not> inv_transferable x)"
  using assms by (induction i es xs rule: recorded_as.induct) auto

lemma snapshot_entry_skip:
  "\<not> (game_id_set (e_base_id e) \<and> 0 < e_count e) \<Longrightarrow> snapshot_entry items e = items"
  by (auto simp: snapshot_entry_def)

lemma snapshot_entry_other:
  "i \<noteq> to_trade_item_id (e_base_id e) \<Longrightarrow>
     filter (\<lambda>x. inv_item x = i) (snapshot_entry items e) = filter (\<lambda>x. inv_item x = i) items"
  by (auto simp: snapshot_entry_def filter_update_first_other)

lemma snapshot_entry_recorded:
  assumes "game_id_set (e_base_id e) \<and> 0 < e_count e" and i: "i = to_trade_item_id (e_base_id e)"
    and rec: "recorded_as i es (filter (\<lambda>x. inv_item x = i) items)"
  shows "recorded_as i (es @ [e]) (filter (\<lambda>x. inv_item x = i) (snapshot_entry items e))"
proof (cases "es = []")
  case True
  then have none: "filter (\<lambda>x. inv_item x = i) items = []" using rec by simp
  then have "find (\<lambda>x. inv_item x = i) items = None" by (auto simp: find_None_iff filter_empty_conv)
  with True none assms(1) i show ?thesis
    by (simp add: snapshot_entry_def del: to_trade_item_id_eq)
next
  case False
  then obtain x where x: "filter (\<lambda>x. inv_item x = i) items = [x]"
    using recorded_as_append(2) [OF rec] by blast
  then have "find (\<lambda>x. inv_item x = i) items \<noteq> None"
    by (auto simp: find_None_iff filter_eq_Cons_iff)
  with assms(1) have "snapshot_entry items e = update_first (\<lambda>x. inv_item x = i)
      (\<lambda>x. x\<lparr>inv_ambiguous := True, inv_transferable := False,
              inv_quantity := if inv_quantity x > - 1 - word_of_int (e_count e) then - 1
                else inv_quantity x + word_of_int (e_count e)\<rparr>) items"
    unfolding i by (auto simp: snapshot_entry_def)
  with x show ?thesis
    by (simp add: recorded_as_append(3) [OF rec False] filter_update_first_same)
qed

lemma snapshot_entries:
  "recorded_as i (stacks es i) (filter (\<lambda>x. inv_item x = i) (foldl snapshot_entry [] es))"
proof (induction es rule: rev_induct)
  case Nil
  then show ?case by (simp add: stacks_def)
next
  case (snoc e es)
  consider "\<not> (game_id_set (e_base_id e) \<and> 0 < e_count e)" | "i \<noteq> to_trade_item_id (e_base_id e)"
    | "game_id_set (e_base_id e) \<and> 0 < e_count e" "i = to_trade_item_id (e_base_id e)" by blast
  then show ?case
  proof cases
    case 1
    with snoc show ?thesis by (auto simp: snapshot_entry_skip stacks_def)
  next
    case 2
    then have "stacks (es @ [e]) i = stacks es i" by (auto simp: stacks_def)
    with 2 snoc show ?thesis by (simp add: snapshot_entry_other)
  next
    case 3
    then have "stacks (es @ [e]) i = stacks es i @ [e]" by (auto simp: stacks_def)
    with snapshot_entry_recorded [OF 3 snoc] show ?thesis by simp
  qed
qed

section \<open>The commit against the offers\<close>

definition holding :: "World \<Rightarrow> Entity \<Rightarrow> GameId \<Rightarrow> int" where
  "holding w c g = item_total (entries (the (map_of (w_inventories w) c))) g"

definition inventory_of :: "World \<Rightarrow> Entity \<Rightarrow> Inventory" where
  "inventory_of w c = the (map_of (w_inventories w) c)"

lemma stacks_ok:
  assumes "inventory_ok v" and "i \<noteq> 0"
  shows "stacks (entries v) i = entries_with v (to_game_id i)"
  unfolding stacks_def entries_with_def
  by (rule filter_cong) (use assms in \<open>auto simp: inventory_ok_def\<close>)

lemma snapshot_entries_of:
  assumes "get_inventory_target w p = Some c" and "try_build_inventory_snapshot w p = Some sn"
    and "inventory_ok (inventory_of w c)" and "i \<noteq> 0"
  shows "recorded_as i (entries_with (inventory_of w c) (to_game_id i)) (entries_of sn i)"
  using assms snapshot_entries [of i "entries (inventory_of w c)"]
  by (auto simp: try_build_inventory_snapshot_def entries_of_def inventory_of_def stacks_ok)

text \<open>A snapshot that can take part in a trade of an item has at most one stack of it.\<close>

lemma can_receive_stack:
  assumes rec: "recorded_as i es (entries_of sn i)" and can: "can_receive sn i"
  obtains "es = []" "entries_of sn i = []"
    | e where "es = [e]" "is_mvp_transferable e"
        "entries_of sn i = [\<lparr>inv_item = i, inv_quantity = word_of_int (e_count e),
           inv_transferable = is_mvp_transferable e, inv_ambiguous = False\<rparr>]"
proof (cases "es = [] \<or> (\<exists>e. es = [e])")
  case True
  with rec can that show ?thesis by (auto simp: can_receive_def)
next
  case False
  then obtain d e es' where "es = d # e # es'" by (metis list.exhaust)
  with rec can have False by (auto simp: can_receive_def)
  then show ?thesis ..
qed

lemma can_give_receives: "can_give sn l \<Longrightarrow> can_receive sn (line_item l)"
  by (auto simp: can_give_def can_receive_def)

lemma offered_pos_item: "offered ls i \<noteq> 0 \<Longrightarrow> \<exists>l \<in> set ls. line_item l = i"
  using offered_notin [of i ls] by auto

lemma uint_count: "0 < n \<Longrightarrow> n \<le> int32_max \<Longrightarrow> uint (word_of_int n :: u64) = n"
  by (simp add: uint_word_of_int)

lemma side_fits_iff:
  assumes v: "inventory_ok v"
    and rec: "\<And>i. i \<noteq> 0 \<Longrightarrow> recorded_as i (entries_with v (to_game_id i)) (entries_of sn i)"
    and wf: "mutations_wf ms"
    and able: "\<And>m. m \<in> set ms \<Longrightarrow> can_receive sn (mut_item m)"
    and pos: "\<And>m. m \<in> set ms \<Longrightarrow> entries_of sn (mut_item m) = [] \<Longrightarrow> 0 < mut_delta m"
    and enough: "\<And>m x. m \<in> set ms \<Longrightarrow> entries_of sn (mut_item m) = [x] \<Longrightarrow>
        0 \<le> uint (inv_quantity x) + mut_delta m"
    and m: "m \<in> set ms"
  shows "mutation_fits v m \<longleftrightarrow> item_total (entries v) (to_game_id (mut_item m)) + mut_delta m \<le> int32_max"
proof -
  have nz: "mut_item m \<noteq> 0" "mut_delta m \<noteq> 0" "mut_delta m \<le> int32_max"
    using wf m by (auto simp: mutations_wf_def)
  from rec [OF nz(1)] able [OF m] show ?thesis
  proof (cases rule: can_receive_stack)
    case 1
    with pos [OF m] nz show ?thesis
      by (simp add: mutation_fits_def item_total_entries_with)
  next
    case (2 e)
    then have "e \<in> set (entries v)" by (auto simp: entries_with_def filter_eq_Cons_iff)
    with v have "0 < e_count e" "e_count e \<le> int32_max" by (auto simp: inventory_ok_def)
    with 2 enough [OF m] nz show ?thesis
      by (simp add: mutation_fits_def item_total_entries_with uint_count)
  qed
qed

lemma delta_of_member: "mutations_wf ms \<Longrightarrow> m \<in> set ms \<Longrightarrow> delta_of ms (mut_item m) = mut_delta m"
proof (induction ms)
  case (Cons n ms)
  have wf: "mutations_wf ms" using Cons.prems(1) by (simp add: mutations_wf_def)
  show ?case
  proof (cases "m = n")
    case True
    with Cons.prems(1) show ?thesis by (simp add: mutations_wf_def delta_of_notin)
  next
    case False
    with Cons.prems have "m \<in> set ms" "mut_item n \<noteq> mut_item m" by (auto simp: mutations_wf_def)
    with Cons.IH wf show ?thesis by simp
  qed
qed simp

lemma delta_of_touched: "mutations_wf ms \<Longrightarrow> delta_of ms i \<noteq> 0 \<longleftrightarrow> i \<in> mut_item ` set ms"
  by (auto simp: delta_of_member mutations_wf_def dest: delta_of_notin)

text \<open>One side of a plan: what its owner gives is offered, what it has no stack of it receives.\<close>

lemma plan_side:
  assumes ms: "mutations_wf ms"
    and delta: "\<And>i. delta_of ms i = offered got i - offered given i"
    and give: "lines_ok given mine yours" and take: "lines_ok got yours mine"
    and m: "m \<in> set ms"
  shows "can_receive mine (mut_item m)"
    and "entries_of mine (mut_item m) = [] \<Longrightarrow> 0 < mut_delta m"
proof -
  have d: "mut_delta m = offered got (mut_item m) - offered given (mut_item m)" "mut_delta m \<noteq> 0"
    using delta_of_member [OF ms m] delta [of "mut_item m"] ms m by (auto simp: mutations_wf_def)
  have give_l: "can_give mine l" if "l \<in> set given" for l using give that by (simp add: lines_ok_def)
  show "can_receive mine (mut_item m)"
  proof (cases "offered given (mut_item m) = 0")
    case True
    with d obtain l where "l \<in> set got" "line_item l = mut_item m"
      using offered_pos_item by fastforce
    with take show ?thesis by (auto simp: lines_ok_def)
  next
    case False
    then obtain l where "l \<in> set given" "line_item l = mut_item m"
      using offered_pos_item by blast
    with give_l can_give_receives show ?thesis by metis
  qed
  show "0 < mut_delta m" if "entries_of mine (mut_item m) = []"
  proof -
    have "offered given (mut_item m) = 0"
      using that give_l offered_pos_item [of given "mut_item m"] by (fastforce simp: can_give_def)
    with d offered_nonneg [of got "mut_item m"] show ?thesis by simp
  qed
qed

lemma plan_applies_iff:
  assumes ms: "mutations_wf ms" and delta: "\<And>i. delta_of ms i = offered got i - offered given i"
    and give: "lines_ok given mine yours" and take: "lines_ok got yours mine"
    and v: "inventory_ok v"
    and rec: "\<And>i. i \<noteq> 0 \<Longrightarrow> recorded_as i (entries_with v (to_game_id i)) (entries_of mine i)"
    and enough: "\<And>i x. entries_of mine i = [x] \<Longrightarrow> 0 \<le> uint (inv_quantity x) + delta_of ms i"
  shows "apply_mutations_to_inventory ms v \<noteq> None \<longleftrightarrow>
     (\<forall>i. delta_of ms i \<noteq> 0 \<longrightarrow> item_total (entries v) (to_game_id i) + delta_of ms i \<le> int32_max)"
proof -
  have "mutation_fits v m \<longleftrightarrow> item_total (entries v) (to_game_id (mut_item m)) + mut_delta m \<le> int32_max"
    if "m \<in> set ms" for m
    by (rule side_fits_iff [OF v rec ms plan_side [OF ms delta give take] _ that])
      (auto dest: enough simp: delta_of_member [OF ms])
  then have "(\<forall>m \<in> set ms. mutation_fits v m) \<longleftrightarrow>
      (\<forall>m \<in> set ms. item_total (entries v) (to_game_id (mut_item m)) + delta_of ms (mut_item m) \<le> int32_max)"
    by (simp add: delta_of_member [OF ms])
  also have "\<dots> \<longleftrightarrow>
      (\<forall>i. delta_of ms i \<noteq> 0 \<longrightarrow> item_total (entries v) (to_game_id i) + delta_of ms i \<le> int32_max)"
    by (auto simp: delta_of_touched [OF ms])
  finally show ?thesis using apply_mutations_iff [of ms v] ms by (simp add: mutations_wf_def)
qed

lemma commit_cases:
  assumes "get_inventory_target w (pm_player (mp_initiator plan)) = Some ci"
    and "get_inventory_target w (pm_player (mp_recipient plan)) = Some cr"
  shows "commit_mutation_plan plan w = Some w' \<longleftrightarrow>
     (\<exists>vi vr. apply_mutations_to_inventory (pm_mutations (mp_initiator plan)) (inventory_of w ci) = Some vi \<and>
        apply_mutations_to_inventory (pm_mutations (mp_recipient plan)) (inventory_of w cr) = Some vr \<and>
        w' = w\<lparr>w_inventories := AList.update cr vr (AList.update ci vi (w_inventories w))\<rparr>)"
  using assms by (auto simp: commit_mutation_plan_def inventory_of_def split: option.splits)

lemma snapshot_available:
  "try_build_inventory_snapshot w p = Some sn \<Longrightarrow> \<exists>c. get_inventory_target w p = Some c"
  by (auto simp: try_build_inventory_snapshot_def split: option.splits)

text \<open>What a trade brings its initiator of an item, and costs its recipient.\<close>

definition gain :: "Session \<Rightarrow> ItemId \<Rightarrow> int" where
  "gain s i = offered (current_offer (s_recipient s)) i - offered (current_offer (s_initiator s)) i"

lemma plan_gains:
  assumes "session_wf s" and "build_mutation_plan s a b = Inr plan"
  shows "delta_of (pm_mutations (mp_initiator plan)) i = gain s i"
    and "delta_of (pm_mutations (mp_recipient plan)) i = - gain s i"
  using plan_contents(9,10) [OF assms] by (simp_all add: gain_def)

text \<open>Any committed plan changes each side by its mutations and nothing else.\<close>

lemma commit_effect:
  assumes "commit_mutation_plan plan w = Some w'"
    and "get_inventory_target w (pm_player (mp_initiator plan)) = Some ci"
    and "get_inventory_target w (pm_player (mp_recipient plan)) = Some cr" and "ci \<noteq> cr"
  shows "holding w' ci (to_game_id i) = holding w ci (to_game_id i) + delta_of (pm_mutations (mp_initiator plan)) i"
    and "holding w' cr (to_game_id i) = holding w cr (to_game_id i) + delta_of (pm_mutations (mp_recipient plan)) i"
    and "c \<noteq> ci \<Longrightarrow> c \<noteq> cr \<Longrightarrow> map_of (w_inventories w') c = map_of (w_inventories w) c"
    and "w_players w' = w_players w"
    and "inventory_ok (inventory_of w ci) \<Longrightarrow> inventory_ok (inventory_of w' ci)"
    and "inventory_ok (inventory_of w cr) \<Longrightarrow> inventory_ok (inventory_of w' cr)"
proof -
  from assms obtain vi vr where
    vi: "apply_mutations_to_inventory (pm_mutations (mp_initiator plan)) (inventory_of w ci) = Some vi"
    and vr: "apply_mutations_to_inventory (pm_mutations (mp_recipient plan)) (inventory_of w cr) = Some vr"
    and w': "w' = w\<lparr>w_inventories := AList.update cr vr (AList.update ci vi (w_inventories w))\<rparr>"
    using commit_cases [of w plan ci cr w'] by auto
  show "holding w' ci (to_game_id i) = holding w ci (to_game_id i) + delta_of (pm_mutations (mp_initiator plan)) i"
    and "holding w' cr (to_game_id i) = holding w cr (to_game_id i) + delta_of (pm_mutations (mp_recipient plan)) i"
    and "c \<noteq> ci \<Longrightarrow> c \<noteq> cr \<Longrightarrow> map_of (w_inventories w') c = map_of (w_inventories w) c"
    and "w_players w' = w_players w"
    and "inventory_ok (inventory_of w ci) \<Longrightarrow> inventory_ok (inventory_of w' ci)"
    and "inventory_ok (inventory_of w cr) \<Longrightarrow> inventory_ok (inventory_of w' cr)"
    using apply_mutations_total [OF vi] apply_mutations_total [OF vr] apply_mutations_ok [OF vi]
      apply_mutations_ok [OF vr] assms(4)
    by (simp_all add: w' holding_def inventory_of_def al_simps)
qed

lemma commit_targets:
  "commit_mutation_plan plan w = Some w' \<Longrightarrow>
     \<exists>ci cr. get_inventory_target w (pm_player (mp_initiator plan)) = Some ci \<and>
       get_inventory_target w (pm_player (mp_recipient plan)) = Some cr"
  by (auto simp: commit_mutation_plan_def split: option.splits)

text \<open>What a baseline says of a touched stack.\<close>

lemma holds_stack:
  assumes v: "inventory_ok v" and rec: "recorded_as i (entries_with v (to_game_id i)) (entries_of sn i)"
    and can: "can_receive sn i"
  shows "uint (holds sn i) = item_total (entries v) (to_game_id i)" and "restorable sn i"
proof -
  from rec can have "uint (holds sn i) = item_total (entries v) (to_game_id i) \<and> uint (holds sn i) \<le> int32_max"
  proof (cases rule: can_receive_stack)
    case 1
    then show ?thesis by (simp add: holds_def item_total_entries_with)
  next
    case (2 e)
    then have "e \<in> set (entries v)" by (auto simp: entries_with_def filter_eq_Cons_iff)
    with v have "0 < e_count e" "e_count e \<le> int32_max" by (auto simp: inventory_ok_def)
    with 2 show ?thesis by (simp add: holds_def item_total_entries_with uint_count)
  qed
  with can show "uint (holds sn i) = item_total (entries v) (to_game_id i)" and "restorable sn i"
    by (simp_all add: restorable_def word_le_def)
qed

lemma targets_exact:
  assumes ms: "mutations_wf ms" and delta: "\<And>i. delta_of ms i = offered got i - offered given i"
    and given: "lines_ok given mine yours" and got: "lines_ok got yours mine"
    and v: "inventory_ok v"
    and rec: "\<And>i. i \<noteq> 0 \<Longrightarrow> recorded_as i (entries_with v (to_game_id i)) (entries_of mine i)"
    and mp: "pm_mutations mp = ms" "pm_player mp = snap_owner mine"
  shows "player_plan_ok mp mine"
    and "\<forall>t \<in> set (targets_of mp mine). uint (tgt_quantity t) = item_total (entries v) (to_game_id (tgt_item t))"
proof -
  have m: "restorable mine (mut_item m)"
    "uint (holds mine (mut_item m)) = item_total (entries v) (to_game_id (mut_item m))"
    if "m \<in> set ms" for m
  proof -
    have "mut_item m \<noteq> 0" using ms that by (auto simp: mutations_wf_def)
    note stack = holds_stack [OF v rec [OF this] plan_side(1) [OF ms delta given got that]]
    show "restorable mine (mut_item m)"
      "uint (holds mine (mut_item m)) = item_total (entries v) (to_game_id (mut_item m))"
      by (rule stack)+
  qed
  show "player_plan_ok mp mine" using mp m(1) by (simp add: player_plan_ok_def)
  have "uint (ucast (holds mine (mut_item m)) :: u32) = uint (holds mine (mut_item m))" if "m \<in> set ms" for m
    using m(1) [OF that] by (simp add: restorable_def word_le_def unsigned_ucast_eq take_bit_int_eq_self)
  with m(2) mp show "\<forall>t \<in> set (targets_of mp mine).
      uint (tgt_quantity t) = item_total (entries v) (to_game_id (tgt_item t))"
    by (auto simp: targets_of_def)
qed

text \<open>A world in which the members of the example session can trade.\<close>

definition trading_world :: World where
  "trading_world =
     \<lparr>w_players = [\<lparr>pl_id = 10, pl_character = Some 101\<rparr>, \<lparr>pl_id = 20, pl_character = Some 102\<rparr>],
      w_inventories = [(101, \<lparr>entries = [default_entry\<lparr>e_base_id := to_game_id 15, e_count := 50\<rparr>],
          current_magic_equipment = example_equipment\<rparr>),
        (102, \<lparr>entries = [],
          current_magic_equipment = example_equipment\<rparr>)]\<rparr>"

lemma trading_facts:
  "validate_and_build_mutation_plan (new_trade_service trading_world) locked_session = Inr example_plan"
  "get_inventory_target trading_world 10 = Some 101" "get_inventory_target trading_world 20 = Some 102"
  "inventory_ok (inventory_of trading_world 101)" "inventory_ok (inventory_of trading_world 102)"
  "part_id (s_initiator locked_session) = 10" "part_id (s_recipient locked_session) = 20"
  "gain locked_session 15 = - 7" "holding trading_world 101 (to_game_id 15) = 50"
  "commit_mutation_plan example_plan trading_world \<noteq> None"
  by code_simp+

lemma world_of_service [simp]: "t_world (new_trade_service w) = w"
  by (simp add: new_trade_service_def)

section \<open>Properties\<close>

text \<open>
  C3: Committing a plan moves exactly the offers. Between two distinct characters, the
  initiator's total of every item changes by what the recipient offers less what the initiator
  offers and the recipient's by the opposite, so together they hold what they held; inventories
  of other characters and the players do not change, and stacks stay positive 32-bit counts.
\<close>

theorem commit_moves_the_offers:
  assumes "session_wf s" and "build_mutation_plan s a b = Inr plan"
    and "get_inventory_target w (part_id (s_initiator s)) = Some ci"
    and "get_inventory_target w (part_id (s_recipient s)) = Some cr" and "ci \<noteq> cr"
    and "commit_mutation_plan plan w = Some w'"
  shows "(\<forall>i. holding w' ci (to_game_id i) = holding w ci (to_game_id i) + gain s i) \<and>
     (\<forall>i. holding w' ci (to_game_id i) + holding w' cr (to_game_id i) =
        holding w ci (to_game_id i) + holding w cr (to_game_id i)) \<and>
     (\<forall>c. c \<noteq> ci \<and> c \<noteq> cr \<longrightarrow> map_of (w_inventories w') c = map_of (w_inventories w) c) \<and>
     w_players w' = w_players w \<and>
     (inventory_ok (inventory_of w ci) \<and> inventory_ok (inventory_of w cr) \<longrightarrow>
        inventory_ok (inventory_of w' ci) \<and> inventory_ok (inventory_of w' cr))"
proof -
  note plan = plan_contents(3,4) [OF assms(1,2)] and gains = plan_gains [OF assms(1,2)]
  note effect = commit_effect [OF assms(6), of ci cr]
  show ?thesis
    using effect assms(3-5) plan gains by simp
qed

theorem commit_moves_the_offers_witness:
  "\<exists>w'. commit_mutation_plan example_plan trading_world = Some w' \<and> holding w' 101 (to_game_id 15) = 43"
proof -
  obtain w' where w': "commit_mutation_plan example_plan trading_world = Some w'"
    using trading_facts(10) by blast
  have members: "get_inventory_target trading_world (part_id (s_initiator locked_session)) = Some 101"
    "get_inventory_target trading_world (part_id (s_recipient locked_session)) = Some 102"
    using trading_facts by simp_all
  show ?thesis
    using commit_moves_the_offers [OF locked_session_wf example_plan_built members _ w'] trading_facts(8,9) w'
    by simp
qed

text \<open>
  C5: A plan built from the current inventories can be committed to them unless a stack would
  grow beyond a signed 32-bit count: with both inventories holding positive 32-bit stacks, the
  commit succeeds exactly when every item that changes hands fits its receiver. Quest items,
  worn, enchanted or duplicate stacks and missing quantities are already excluded by the plan.
\<close>

theorem commit_succeeds_iff_it_fits:
  assumes "session_wf s" and "validate_and_build_mutation_plan st s = Inr plan"
    and "get_inventory_target (t_world st) (part_id (s_initiator s)) = Some ci"
    and "get_inventory_target (t_world st) (part_id (s_recipient s)) = Some cr"
    and "inventory_ok (inventory_of (t_world st) ci)" and "inventory_ok (inventory_of (t_world st) cr)"
  shows "commit_mutation_plan plan (t_world st) \<noteq> None \<longleftrightarrow>
     (\<forall>i. gain s i \<noteq> 0 \<longrightarrow>
        holding (t_world st) ci (to_game_id i) + gain s i \<le> int32_max \<and>
        holding (t_world st) cr (to_game_id i) - gain s i \<le> int32_max)"
proof -
  let ?w = "t_world st"
  from assms(2) obtain a b where a: "try_build_inventory_snapshot ?w (part_id (s_initiator s)) = Some a"
    and b: "try_build_inventory_snapshot ?w (part_id (s_recipient s)) = Some b"
    and built: "build_mutation_plan s a b = Inr plan"
    by (auto simp: validate_and_build_mutation_plan_def split: option.splits)
  note plan = plan_contents [OF assms(1) built] and enough = plan_enough [OF assms(1) built]
  note initiator = plan_applies_iff [OF plan(5) plan(9) plan(11,12) assms(5)
      snapshot_entries_of [OF assms(3) a assms(5)] enough(1)]
  note recipient = plan_applies_iff [OF plan(6) plan(10) plan(12,11) assms(6)
      snapshot_entries_of [OF assms(4) b assms(6)] enough(2)]
  have "commit_mutation_plan plan ?w \<noteq> None \<longleftrightarrow>
      apply_mutations_to_inventory (pm_mutations (mp_initiator plan)) (inventory_of ?w ci) \<noteq> None \<and>
      apply_mutations_to_inventory (pm_mutations (mp_recipient plan)) (inventory_of ?w cr) \<noteq> None"
    using commit_cases [of ?w plan ci cr] assms(3,4) plan(3,4) by auto
  with initiator recipient show ?thesis
    by (simp add: plan_gains [OF assms(1) built] holding_def inventory_of_def) blast
qed

theorem commit_succeeds_iff_it_fits_witness:
  "holding trading_world 101 (to_game_id 15) + gain locked_session 15 \<le> int32_max"
proof -
  let ?st = "new_trade_service trading_world"
  have members: "get_inventory_target (t_world ?st) (part_id (s_initiator locked_session)) = Some 101"
    "get_inventory_target (t_world ?st) (part_id (s_recipient locked_session)) = Some 102"
    "inventory_ok (inventory_of (t_world ?st) 101)" "inventory_ok (inventory_of (t_world ?st) 102)"
    using trading_facts by simp_all
  have "gain locked_session 15 \<noteq> 0" using trading_facts(8) by simp
  with commit_succeeds_iff_it_fits [OF locked_session_wf trading_facts(1) members] trading_facts(10)
  show ?thesis by (simp only: world_of_service) blast
qed

text \<open>
  A trade that passed validation always gets its baseline: with both inventories holding
  positive 32-bit stacks, the reconciliation plan built right after the mutation plan exists, so
  an application never fails for want of one; its targets are the touched items of each member
  with exactly the quantity the server holds.
\<close>

theorem validated_plan_has_baseline:
  assumes "session_wf s" and "validate_and_build_mutation_plan st s = Inr plan"
    and "get_inventory_target (t_world st) (part_id (s_initiator s)) = Some ci"
    and "get_inventory_target (t_world st) (part_id (s_recipient s)) = Some cr"
    and "inventory_ok (inventory_of (t_world st) ci)" and "inventory_ok (inventory_of (t_world st) cr)"
  shows "\<exists>b. build_current_reconciliation_plan st (new_application i plan now deadline) = Inr b \<and>
     map tgt_item (pr_targets (rp_initiator b)) = map mut_item (pm_mutations (mp_initiator plan)) \<and>
     map tgt_item (pr_targets (rp_recipient b)) = map mut_item (pm_mutations (mp_recipient plan)) \<and>
     (\<forall>t \<in> set (pr_targets (rp_initiator b)).
        uint (tgt_quantity t) = holding (t_world st) ci (to_game_id (tgt_item t))) \<and>
     (\<forall>t \<in> set (pr_targets (rp_recipient b)).
        uint (tgt_quantity t) = holding (t_world st) cr (to_game_id (tgt_item t)))"
proof -
  let ?w = "t_world st"
  from assms(2) obtain a b where a: "try_build_inventory_snapshot ?w (part_id (s_initiator s)) = Some a"
    and b: "try_build_inventory_snapshot ?w (part_id (s_recipient s)) = Some b"
    and built: "build_mutation_plan s a b = Inr plan"
    by (auto simp: validate_and_build_mutation_plan_def split: option.splits)
  note plan = plan_contents [OF assms(1) built]
  have owners: "snap_owner a = part_id (s_initiator s)" "snap_owner b = part_id (s_recipient s)"
    using a b by (auto simp: try_build_inventory_snapshot_def split: option.splits)
  note initiator = targets_exact [OF plan(5) plan(9) plan(11,12) assms(5)
      snapshot_entries_of [OF assms(3) a assms(5)] refl, unfolded owners, OF _ plan(3)]
  note recipient = targets_exact [OF plan(6) plan(10) plan(12,11) assms(6)
      snapshot_entries_of [OF assms(4) b assms(6)] refl, unfolded owners, OF _ plan(4)]
  have "build_player_plan (mp_initiator plan) a = Inr \<lparr>pr_player = pm_player (mp_initiator plan),
      pr_targets = targets_of (mp_initiator plan) a\<rparr>"
    and "build_player_plan (mp_recipient plan) b = Inr \<lparr>pr_player = pm_player (mp_recipient plan),
      pr_targets = targets_of (mp_recipient plan) b\<rparr>"
    using initiator(1) recipient(1) build_player_plan_spec [OF plan(7)] build_player_plan_spec [OF plan(8)]
    by simp_all
  then show ?thesis
    using a b plan(3,4) owners initiator(2) recipient(2)
    by (simp add: build_current_reconciliation_plan_def build_reconciliation_plan_def new_application_def
        targets_of_def holding_def inventory_of_def comp_def)
qed

theorem validated_plan_has_baseline_witness:
  "\<exists>b. build_current_reconciliation_plan (new_trade_service trading_world)
     (new_application 1 example_plan 0 15000) = Inr b"
proof -
  let ?st = "new_trade_service trading_world"
  have members: "get_inventory_target (t_world ?st) (part_id (s_initiator locked_session)) = Some 101"
    "get_inventory_target (t_world ?st) (part_id (s_recipient locked_session)) = Some 102"
    "inventory_ok (inventory_of (t_world ?st) 101)" "inventory_ok (inventory_of (t_world ?st) 102)"
    using trading_facts by simp_all
  show ?thesis
    using validated_plan_has_baseline [OF locked_session_wf trading_facts(1) members, of 1 0 15000] by blast
qed

end
