(* ===== verification/TradeSlots.thy ===== *)
theory TradeSlots
  imports TradeCommit
begin

text \<open>
  What the trade service keeps true between events, and how the parts of its handlers act on it.
  Everything the service stores about one session identifier is its \<open>slot\<close>: the session, its
  application, baseline and reconciliation, its clean-up tick and the players indexed to it. A
  handler works on one slot and leaves the others alone, so the invariant is a condition on every
  slot.
\<close>

section \<open>The slot of a session identifier\<close>

definition indexed :: "TradeService \<Rightarrow> SessionId \<Rightarrow> PlayerId \<Rightarrow> bool" where
  "indexed st sid p \<longleftrightarrow> map_of (t_player_sessions st) p = Some sid"

text \<open>An application is for a session: same identifiers and members, and its plan is the offers.\<close>

definition application_of :: "Session \<Rightarrow> Application \<Rightarrow> bool" where
  "application_of s a \<longleftrightarrow> application_wf a \<and>
     ap_id (a_initiator a) = part_id (s_initiator s) \<and> ap_id (a_recipient a) = part_id (s_recipient s) \<and>
     mp_session (a_plan a) = s_id s \<and> mp_revision (a_plan a) = s_revision s \<and>
     pm_player (mp_initiator (a_plan a)) = part_id (s_initiator s) \<and>
     pm_player (mp_recipient (a_plan a)) = part_id (s_recipient s) \<and>
     mutations_wf (pm_mutations (mp_initiator (a_plan a))) \<and>
     mutations_wf (pm_mutations (mp_recipient (a_plan a))) \<and>
     (\<forall>i. delta_of (pm_mutations (mp_initiator (a_plan a))) i = gain s i \<and>
          delta_of (pm_mutations (mp_recipient (a_plan a))) i = - gain s i)"

definition slot_wf ::
  "SessionId \<Rightarrow> Session \<Rightarrow> (PlayerId \<Rightarrow> bool) \<Rightarrow> Application option \<Rightarrow> ReconciliationPlan option \<Rightarrow>
     Reconciliation option \<Rightarrow> Tick option \<Rightarrow> bool" where
  "slot_wf sid s ix a b r c \<longleftrightarrow>
     s_id s = sid \<and> sid \<noteq> 0 \<and> session_wf s \<and> part_id (s_initiator s) \<noteq> part_id (s_recipient s) \<and>
     (\<forall>p. ix p \<longrightarrow> is_participant s p) \<and>
     (\<forall>x. a = Some x \<longrightarrow> application_of s x) \<and>
     (\<forall>x. b = Some x \<longrightarrow> rp_session x = sid) \<and>
     (\<forall>x. r = Some x \<longrightarrow> rp_session (r_plan x) = sid \<and> (rec_is_settled x \<longrightarrow> c \<noteq> None)) \<and>
     (c \<noteq> None \<longrightarrow> (\<forall>p. \<not> ix p)) \<and>
     (case s_state s of
        PendingAcceptance \<Rightarrow> a = None \<and> b = None \<and> r = None \<and> c = None \<and> (\<forall>p. is_participant s p \<longrightarrow> ix p)
      | Negotiating \<Rightarrow> a = None \<and> b = None \<and> r = None \<and> c = None \<and> (\<forall>p. is_participant s p \<longrightarrow> ix p)
      | Locked \<Rightarrow> False
      | Applying \<Rightarrow> a \<noteq> None \<and> b \<noteq> None \<and> r = None \<and> c = None \<and> (\<forall>p. is_participant s p \<longrightarrow> ix p)
      | Completed \<Rightarrow> a \<noteq> None \<and> (r \<noteq> None \<or> c \<noteq> None)
      | Cancelled \<Rightarrow> False
      | Failed \<Rightarrow> a \<noteq> None \<and> (r \<noteq> None \<or> c \<noteq> None))"

definition slot_ok :: "TradeService \<Rightarrow> SessionId \<Rightarrow> bool" where
  "slot_ok st sid \<longleftrightarrow>
     (case map_of (t_sessions st) sid of
        None \<Rightarrow> map_of (t_applications st) sid = None \<and> map_of (t_baselines st) sid = None \<and>
          map_of (t_reconciliations st) sid = None \<and> map_of (t_cleanup_ticks st) sid = None \<and>
          (\<forall>p. \<not> indexed st sid p)
      | Some s \<Rightarrow> slot_wf sid s (indexed st sid) (map_of (t_applications st) sid)
          (map_of (t_baselines st) sid) (map_of (t_reconciliations st) sid)
          (map_of (t_cleanup_ticks st) sid))"

definition keys_ok :: "TradeService \<Rightarrow> bool" where
  "keys_ok st \<longleftrightarrow> distinct (map fst (t_sessions st)) \<and> distinct (map fst (t_player_sessions st)) \<and>
     distinct (map fst (t_applications st)) \<and> distinct (map fst (t_baselines st)) \<and>
     distinct (map fst (t_reconciliations st)) \<and> distinct (map fst (t_cleanup_ticks st))"

definition trade_inv :: "TradeService \<Rightarrow> bool" where
  "trade_inv st \<longleftrightarrow> keys_ok st \<and> (\<forall>sid. slot_ok st sid)"

text \<open>The invariant but for one slot, whose players may be indexed but belong to it.\<close>

definition others_ok :: "SessionId \<Rightarrow> TradeService \<Rightarrow> bool" where
  "others_ok sid st \<longleftrightarrow> keys_ok st \<and> (\<forall>j. j \<noteq> sid \<longrightarrow> slot_ok st j)"

lemma trade_inv_iff: "trade_inv st \<longleftrightarrow> others_ok sid st \<and> slot_ok st sid"
  by (auto simp: trade_inv_def others_ok_def)

lemma trade_inv_others: "trade_inv st \<Longrightarrow> others_ok sid st"
  by (simp add: trade_inv_def others_ok_def)

lemma slot_ok_cong:
  assumes "map_of (t_sessions st') j = map_of (t_sessions st) j"
    and "map_of (t_applications st') j = map_of (t_applications st) j"
    and "map_of (t_baselines st') j = map_of (t_baselines st) j"
    and "map_of (t_reconciliations st') j = map_of (t_reconciliations st) j"
    and "map_of (t_cleanup_ticks st') j = map_of (t_cleanup_ticks st) j"
    and "indexed st' j = indexed st j"
  shows "slot_ok st' j = slot_ok st j"
  unfolding slot_ok_def assms by (rule refl)

section \<open>What the parts of a handler change\<close>

lemma send_fields [simp]:
  "t_sessions (send p m st) = t_sessions st" "t_player_sessions (send p m st) = t_player_sessions st"
  "t_applications (send p m st) = t_applications st" "t_baselines (send p m st) = t_baselines st"
  "t_reconciliations (send p m st) = t_reconciliations st"
  "t_cleanup_ticks (send p m st) = t_cleanup_ticks st" "t_world (send p m st) = t_world st"
  "t_next_sweep (send p m st) = t_next_sweep st"
  by (simp_all add: send_def)

lemma send_to_id_fields [simp]:
  "t_sessions (send_to_id g p m st) = t_sessions st"
  "t_player_sessions (send_to_id g p m st) = t_player_sessions st"
  "t_applications (send_to_id g p m st) = t_applications st"
  "t_baselines (send_to_id g p m st) = t_baselines st"
  "t_reconciliations (send_to_id g p m st) = t_reconciliations st"
  "t_cleanup_ticks (send_to_id g p m st) = t_cleanup_ticks st"
  "t_world (send_to_id g p m st) = t_world st"
  "t_next_sweep (send_to_id g p m st) = t_next_sweep st"
  by (simp_all add: send_to_id_def)

lemmas send_defs = send_invite_def send_started_def send_state_def send_apply_def
  send_reconciliation_def send_cancelled_def

text \<open>Two states that store the same; only what was sent, the clocks and the counters differ.\<close>

definition same_store :: "TradeService \<Rightarrow> TradeService \<Rightarrow> bool" where
  "same_store st st' \<longleftrightarrow> t_sessions st' = t_sessions st \<and> t_player_sessions st' = t_player_sessions st \<and>
     t_applications st' = t_applications st \<and> t_baselines st' = t_baselines st \<and>
     t_reconciliations st' = t_reconciliations st \<and> t_cleanup_ticks st' = t_cleanup_ticks st"

lemma same_store_send [simp]:
  "same_store st (send p m st)" "same_store st (send_invite p s st)" "same_store st (send_started s st)"
  "same_store st (send_state s o' st)" "same_store st (send_apply s a st)"
  "same_store st (send_reconciliation r o' g st)" "same_store st (send_cancelled s why p g st)"
  by (simp_all add: same_store_def send_defs split: option.splits)

lemma same_store_ok:
  assumes "same_store st st'"
  shows "trade_inv st' = trade_inv st" and "others_ok sid st' = others_ok sid st"
    and "slot_ok st' sid = slot_ok st sid" and "indexed st' = indexed st"
proof -
  have ix: "indexed st' = indexed st" using assms by (simp add: same_store_def indexed_def fun_eq_iff)
  moreover have slot: "slot_ok st' j = slot_ok st j" for j
    using assms ix by (intro slot_ok_cong) (simp_all add: same_store_def)
  moreover have "keys_ok st' = keys_ok st" using assms by (simp add: same_store_def keys_ok_def)
  ultimately show "trade_inv st' = trade_inv st" and "others_ok sid st' = others_ok sid st"
    and "slot_ok st' sid = slot_ok st sid" and "indexed st' = indexed st"
    by (simp_all add: trade_inv_def others_ok_def)
qed

lemmas send_ok [simp] = same_store_send [THEN same_store_ok(1)] same_store_send [THEN same_store_ok(2)]
  same_store_send [THEN same_store_ok(3)] same_store_send [THEN same_store_ok(4)]

lemma send_all_fields [simp]:
  "t_sessions (send_invite i s st) = t_sessions st" "t_player_sessions (send_invite i s st) = t_player_sessions st"
  "t_applications (send_invite i s st) = t_applications st" "t_baselines (send_invite i s st) = t_baselines st"
  "t_reconciliations (send_invite i s st) = t_reconciliations st" "t_cleanup_ticks (send_invite i s st) = t_cleanup_ticks st"
  "t_world (send_invite i s st) = t_world st" "t_next_sweep (send_invite i s st) = t_next_sweep st"
  "t_sessions (send_started s st) = t_sessions st" "t_player_sessions (send_started s st) = t_player_sessions st"
  "t_applications (send_started s st) = t_applications st" "t_baselines (send_started s st) = t_baselines st"
  "t_reconciliations (send_started s st) = t_reconciliations st" "t_cleanup_ticks (send_started s st) = t_cleanup_ticks st"
  "t_world (send_started s st) = t_world st" "t_next_sweep (send_started s st) = t_next_sweep st"
  "t_sessions (send_state s p st) = t_sessions st" "t_player_sessions (send_state s p st) = t_player_sessions st"
  "t_applications (send_state s p st) = t_applications st" "t_baselines (send_state s p st) = t_baselines st"
  "t_reconciliations (send_state s p st) = t_reconciliations st" "t_cleanup_ticks (send_state s p st) = t_cleanup_ticks st"
  "t_world (send_state s p st) = t_world st" "t_next_sweep (send_state s p st) = t_next_sweep st"
  "t_sessions (send_apply s a st) = t_sessions st" "t_player_sessions (send_apply s a st) = t_player_sessions st"
  "t_applications (send_apply s a st) = t_applications st" "t_baselines (send_apply s a st) = t_baselines st"
  "t_reconciliations (send_apply s a st) = t_reconciliations st" "t_cleanup_ticks (send_apply s a st) = t_cleanup_ticks st"
  "t_world (send_apply s a st) = t_world st" "t_next_sweep (send_apply s a st) = t_next_sweep st"
  "t_sessions (send_reconciliation r p g st) = t_sessions st" "t_player_sessions (send_reconciliation r p g st) = t_player_sessions st"
  "t_applications (send_reconciliation r p g st) = t_applications st" "t_baselines (send_reconciliation r p g st) = t_baselines st"
  "t_reconciliations (send_reconciliation r p g st) = t_reconciliations st" "t_cleanup_ticks (send_reconciliation r p g st) = t_cleanup_ticks st"
  "t_world (send_reconciliation r p g st) = t_world st" "t_next_sweep (send_reconciliation r p g st) = t_next_sweep st"
  "t_sessions (send_cancelled s w q g st) = t_sessions st" "t_player_sessions (send_cancelled s w q g st) = t_player_sessions st"
  "t_applications (send_cancelled s w q g st) = t_applications st" "t_baselines (send_cancelled s w q g st) = t_baselines st"
  "t_reconciliations (send_cancelled s w q g st) = t_reconciliations st" "t_cleanup_ticks (send_cancelled s w q g st) = t_cleanup_ticks st"
  "t_world (send_cancelled s w q g st) = t_world st" "t_next_sweep (send_cancelled s w q g st) = t_next_sweep st"
  by (simp_all add: send_defs split: option.splits)

section \<open>Working on one slot\<close>

definition index_fits :: "TradeService \<Rightarrow> SessionId \<Rightarrow> bool" where
  "index_fits st sid \<longleftrightarrow>
     (\<forall>p. indexed st sid p \<longrightarrow> (\<exists>s. map_of (t_sessions st) sid = Some s \<and> is_participant s p))"

lemma slot_ok_fits: "slot_ok st sid \<Longrightarrow> index_fits st sid"
  by (auto simp: slot_ok_def index_fits_def slot_wf_def split: option.splits)

lemma others_okI:
  assumes "others_ok sid st" and "keys_ok st \<Longrightarrow> keys_ok st'"
    and "\<And>j. j \<noteq> sid \<Longrightarrow> map_of (t_sessions st') j = map_of (t_sessions st) j"
    and "\<And>j. j \<noteq> sid \<Longrightarrow> map_of (t_applications st') j = map_of (t_applications st) j"
    and "\<And>j. j \<noteq> sid \<Longrightarrow> map_of (t_baselines st') j = map_of (t_baselines st) j"
    and "\<And>j. j \<noteq> sid \<Longrightarrow> map_of (t_reconciliations st') j = map_of (t_reconciliations st) j"
    and "\<And>j. j \<noteq> sid \<Longrightarrow> map_of (t_cleanup_ticks st') j = map_of (t_cleanup_ticks st) j"
    and "\<And>j. j \<noteq> sid \<Longrightarrow> indexed st' j = indexed st j"
  shows "others_ok sid st'"
  using assms slot_ok_cong [of st' _ st] by (simp add: others_ok_def)

lemma others_put_session: "others_ok sid st \<Longrightarrow> others_ok sid (put_session sid s st)"
  by (erule others_okI)
    (auto simp: put_session_def al_simps keys_ok_def indexed_def fun_eq_iff)

lemma others_put_application: "others_ok sid st \<Longrightarrow> others_ok sid (put_application sid a st)"
  by (erule others_okI)
    (auto simp: put_application_def al_simps keys_ok_def indexed_def fun_eq_iff)

lemma others_put_reconciliation: "others_ok sid st \<Longrightarrow> others_ok sid (put_reconciliation sid r st)"
  by (erule others_okI)
    (auto simp: put_reconciliation_def al_simps keys_ok_def indexed_def fun_eq_iff)

lemma others_put_baseline:
  "others_ok sid st \<Longrightarrow> others_ok sid (st\<lparr>t_baselines := AList.update sid b (t_baselines st)\<rparr>)"
  by (erule others_okI) (auto simp: al_simps keys_ok_def indexed_def fun_eq_iff)

lemma others_start_reconciliation:
  "others_ok sid st \<Longrightarrow> others_ok sid (st\<lparr>t_next_reconcile_id := n,
      t_baselines := AList.delete sid (t_baselines st),
      t_reconciliations := AList.update sid r (AList.update sid r' (t_reconciliations st)),
      t_cleanup_ticks := AList.delete sid (t_cleanup_ticks st)\<rparr>)"
  by (erule others_okI) (auto simp: al_simps keys_ok_def indexed_def fun_eq_iff)

lemmas others_put = others_put_session others_put_application others_put_reconciliation
  others_put_baseline

lemma put_fields [simp]:
  "map_of (t_sessions (put_session sid s st)) = (map_of (t_sessions st))(sid \<mapsto> s)"
  "t_player_sessions (put_session sid s st) = t_player_sessions st"
  "t_applications (put_session sid s st) = t_applications st"
  "t_baselines (put_session sid s st) = t_baselines st"
  "t_reconciliations (put_session sid s st) = t_reconciliations st"
  "t_cleanup_ticks (put_session sid s st) = t_cleanup_ticks st"
  "t_world (put_session sid s st) = t_world st"
  "t_next_sweep (put_session sid s st) = t_next_sweep st"
  "indexed (put_session sid s st) = indexed st"
  by (simp_all add: put_session_def al_simps indexed_def fun_eq_iff)

subsection \<open>Releasing the players\<close>

lemma release_player_fields [simp]:
  "t_sessions (release_player p sid st) = t_sessions st"
  "t_applications (release_player p sid st) = t_applications st"
  "t_baselines (release_player p sid st) = t_baselines st"
  "t_reconciliations (release_player p sid st) = t_reconciliations st"
  "t_cleanup_ticks (release_player p sid st) = t_cleanup_ticks st"
  "t_world (release_player p sid st) = t_world st" "t_next_sweep (release_player p sid st) = t_next_sweep st"
  by (simp_all add: release_player_def)

lemma release_player_indexed:
  "indexed (release_player p sid st) j q \<longleftrightarrow> indexed st j q \<and> \<not> (j = sid \<and> q = p)"
  by (auto simp: release_player_def indexed_def al_simps)

lemma release_fields [simp]:
  "t_sessions (release_session_participants sid st) = t_sessions st"
  "t_applications (release_session_participants sid st) = t_applications st"
  "t_baselines (release_session_participants sid st) = t_baselines st"
  "t_reconciliations (release_session_participants sid st) = t_reconciliations st"
  "t_cleanup_ticks (release_session_participants sid st) = t_cleanup_ticks st"
  "t_world (release_session_participants sid st) = t_world st"
  "t_next_sweep (release_session_participants sid st) = t_next_sweep st"
  by (simp_all add: release_session_participants_def split: option.splits)

lemma is_participant_iff:
  "is_participant s p \<longleftrightarrow> part_id (s_initiator s) = p \<or> part_id (s_recipient s) = p"
  by (auto simp: is_participant_def find_participant_def)

lemma release_indexed:
  assumes "index_fits st sid"
  shows "indexed (release_session_participants sid st) j q \<longleftrightarrow> indexed st j q \<and> j \<noteq> sid"
  using assms
  by (auto simp: release_session_participants_def find_session_def index_fits_def is_participant_iff
      release_player_indexed split: option.splits)

lemma release_keys: "keys_ok st \<Longrightarrow> keys_ok (release_session_participants sid st)"
  by (auto simp: release_session_participants_def release_player_def keys_ok_def split: option.splits)

lemma remove_session_inv:
  assumes "others_ok sid st" and fits: "index_fits st sid"
  shows "trade_inv (remove_session sid st)"
proof -
  have ix: "indexed (remove_session sid st) j q \<longleftrightarrow> indexed st j q \<and> j \<noteq> sid" for j q
    using release_indexed [OF fits] by (simp add: remove_session_def indexed_def)
  have "others_ok sid (remove_session sid st)"
    using assms(1)
  proof (rule others_okI)
    show "keys_ok st \<Longrightarrow> keys_ok (remove_session sid st)"
      using release_keys [of st sid] by (auto simp: remove_session_def keys_ok_def)
  qed (use ix in \<open>auto simp: remove_session_def al_simps fun_eq_iff\<close>)
  moreover have "slot_ok (remove_session sid st) sid"
    using ix by (auto simp: slot_ok_def) (auto simp: remove_session_def al_simps)
  ultimately show ?thesis by (simp add: trade_inv_iff [of _ sid])
qed

definition terminal_core ::
  "SessionId \<Rightarrow> Session \<Rightarrow> Application option \<Rightarrow> ReconciliationPlan option \<Rightarrow> Reconciliation option \<Rightarrow> bool" where
  "terminal_core sid s a b r \<longleftrightarrow>
     s_id s = sid \<and> sid \<noteq> 0 \<and> session_wf s \<and> part_id (s_initiator s) \<noteq> part_id (s_recipient s) \<and>
     (s_state s = Completed \<or> s_state s = Failed) \<and>
     (\<exists>x. a = Some x \<and> application_of s x) \<and>
     (\<forall>x. b = Some x \<longrightarrow> rp_session x = sid) \<and>
     (\<forall>x. r = Some x \<longrightarrow> rp_session (r_plan x) = sid)"

lemma schedule_inv:
  assumes "others_ok sid st" and fits: "index_fits st sid"
    and s: "map_of (t_sessions st) sid = Some s"
    and core: "terminal_core sid s (map_of (t_applications st) sid) (map_of (t_baselines st) sid)
      (map_of (t_reconciliations st) sid)"
  shows "trade_inv (schedule_terminal_cleanup sid now st)"
proof -
  have ix: "indexed (schedule_terminal_cleanup sid now st) j q \<longleftrightarrow> indexed st j q \<and> j \<noteq> sid" for j q
    using release_indexed [OF fits] by (simp add: schedule_terminal_cleanup_def indexed_def)
  have "others_ok sid (schedule_terminal_cleanup sid now st)"
    using assms(1)
  proof (rule others_okI)
    show "keys_ok st \<Longrightarrow> keys_ok (schedule_terminal_cleanup sid now st)"
      using release_keys [of st sid] by (auto simp: schedule_terminal_cleanup_def keys_ok_def)
  qed (use ix in \<open>auto simp: schedule_terminal_cleanup_def al_simps fun_eq_iff\<close>)
  moreover have "slot_wf sid s (indexed (schedule_terminal_cleanup sid now st) sid)
      (map_of (t_applications st) sid) (map_of (t_baselines st) sid) (map_of (t_reconciliations st) sid) (Some t)" for t
    using core by (auto simp: terminal_core_def slot_wf_def ix)
  then have "slot_ok (schedule_terminal_cleanup sid now st) sid"
    using s unfolding slot_ok_def by (simp add: schedule_terminal_cleanup_def al_simps)
  ultimately show ?thesis by (simp add: trade_inv_iff [of _ sid])
qed

lemma slot_wf_terminal:
  assumes "slot_wf sid s ix a b r c" and "is_terminal s"
  shows "terminal_core sid s a b r"
  using assms by (auto simp: slot_wf_def is_terminal_def terminal_core_def)

section \<open>Sessions and applications under their operations\<close>

text \<open>Every operation keeps the identity of a session.\<close>

lemma advances_identity:
  assumes "session_advances s s'"
  shows "s_id s' = s_id s" and "part_id (s_initiator s') = part_id (s_initiator s)"
    and "part_id (s_recipient s') = part_id (s_recipient s)" and "is_participant s' = is_participant s"
  using assms by (auto simp: session_advances_def is_participant_iff fun_eq_iff)

lemma advances_application:
  assumes "session_advances s s'" and "2 \<le> stage (s_state s)" and "application_of s a"
  shows "application_of s' a"
proof -
  have "s_initiator s' = s_initiator s" "s_recipient s' = s_recipient s" "s_revision s' = s_revision s"
    "s_id s' = s_id s"
    using assms(1,2) by (simp_all add: session_advances_def)
  with assms(3) show ?thesis by (simp add: application_of_def gain_def)
qed

lemma op_facts:
  assumes "s' = fst (session_perform s x)" and "session_wf s"
  shows "session_wf s'" and "session_advances s s'"
  using assms session_perform_wf session_perform_advances by simp_all

lemma fail_facts:
  assumes "session_wf s" and "s_state s = Applying" and "e \<noteq> NoError"
  shows "s_state (fst (fail e now s)) = Failed" and "session_wf (fst (fail e now s))"
    and "session_advances s (fst (fail e now s))"
  using assms op_facts [of _ s "OpFail e now"] by (simp_all add: fail_def is_terminal_def)

lemma complete_facts:
  assumes "session_wf s" and "s_state s = Applying"
  shows "s_state (fst (complete now s)) = Completed" and "session_wf (fst (complete now s))"
    and "session_advances s (fst (complete now s))"
  using assms op_facts [of _ s "OpComplete now"] by (simp_all add: complete_def is_terminal_def)

lemma terminal_op_same:
  assumes "is_terminal s"
  shows "fst (fail e now s) = s" and "fst (complete now s) = s"
  using assms by (auto simp: fail_def complete_def is_terminal_def)

text \<open>The two kinds of session with an application.\<close>

lemma slot_wf_application:
  assumes "slot_wf sid s ix (Some a) b r c"
  shows "s_state s = Applying \<or> is_terminal s" and "application_of s a"
    and "2 \<le> stage (s_state s)"
  using assms by (cases "s_state s"; auto simp: slot_wf_def is_terminal_def)+

lemma terminal_core_after:
  assumes "slot_wf sid s ix (Some a) b r c" and "application_of s a'"
    and "session_advances s s'" and "session_wf s'" and "s_state s' = Completed \<or> s_state s' = Failed"
  shows "terminal_core sid s' (Some a') b r"
  using assms advances_identity [OF assms(3)]
    advances_application [OF assms(3) slot_wf_application(3) [OF assms(1)] assms(2)]
  by (auto simp: terminal_core_def slot_wf_def)

lemma app_record_result_ids:
  "ap_id (a_initiator (fst (app_record_result p out now a))) = ap_id (a_initiator a)"
  "ap_id (a_recipient (fst (app_record_result p out now a))) = ap_id (a_recipient a)"
  "a_plan (fst (app_record_result p out now a)) = a_plan a"
  "a_id (fst (app_record_result p out now a)) = a_id a"
proof -
  have "ap_id (a_initiator (fst (app_record_result p out now a))) = ap_id (a_initiator a) \<and>
    ap_id (a_recipient (fst (app_record_result p out now a))) = ap_id (a_recipient a) \<and>
    a_plan (fst (app_record_result p out now a)) = a_plan a \<and>
    a_id (fst (app_record_result p out now a)) = a_id a"
  proof (cases "app_find_participant a p")
    case (Some side)
    then show ?thesis by (cases side) (simp_all add: app_record_result_def app_touch_def)
  qed (simp add: app_record_result_def)
  then show "ap_id (a_initiator (fst (app_record_result p out now a))) = ap_id (a_initiator a)"
    "ap_id (a_recipient (fst (app_record_result p out now a))) = ap_id (a_recipient a)"
    "a_plan (fst (app_record_result p out now a)) = a_plan a"
    "a_id (fst (app_record_result p out now a)) = a_id a" by simp_all
qed

lemma app_record_result_of:
  "application_of s a \<Longrightarrow> application_of s (fst (app_record_result p out now a))"
  using app.report_wf [of a "(p, out, now)"]
  by (simp add: application_of_def app_record_result_ids)

lemma rec_record_result_plan [simp]: "r_plan (fst (rec_record_result p out now r)) = r_plan r"
proof (cases "rec_find_participant r p")
  case (Some side)
  then show ?thesis by (cases side) (simp_all add: rec_record_result_def rec_touch_def)
qed (simp add: rec_record_result_def)

lemma rec_mark_unavailable_plan [simp]: "r_plan (fst (rec_mark_unavailable p now r)) = r_plan r"
  by (simp add: rec_mark_unavailable_def)

section \<open>Starting a reconciliation\<close>

lemma reconciliation_plan_session:
  "build_current_reconciliation_plan st a = Inr plan \<Longrightarrow> rp_session plan = mp_session (a_plan a)"
  by (auto simp: build_current_reconciliation_plan_def build_reconciliation_plan_def
      split: option.splits sum.splits if_splits)

lemma start_reconciliation_inv:
  assumes others: "others_ok sid st" and fits: "index_fits st sid"
    and s: "map_of (t_sessions st) sid = Some s"
    and core: "terminal_core sid s (map_of (t_applications st) sid) (map_of (t_baselines st) sid) None"
    and r: "map_of (t_reconciliations st) sid = None" and plan: "rp_session plan = sid"
    and step: "start_reconciliation s plan now u g st = Some st'"
  shows "trade_inv st'"
proof -
  have sid: "s_id s = sid" using core by (simp add: terminal_core_def)
  from step obtain rid n where alloc: "allocate_reconcile_id st = Some (rid, st\<lparr>t_next_reconcile_id := n\<rparr>)"
    by (auto simp: start_reconciliation_def allocate_reconcile_id_def split: option.splits)
  define r0 where "r0 = new_reconciliation rid plan now (now + kReconciliationTimeoutMs)"
  define r1 where "r1 = (if u \<noteq> 0 then fst (rec_mark_unavailable u now r0) else r0)"
  define st1 where "st1 = st\<lparr>t_next_reconcile_id := n,
      t_baselines := AList.delete sid (t_baselines st),
      t_reconciliations := AList.update sid r1 (AList.update sid r0 (t_reconciliations st)),
      t_cleanup_ticks := AList.delete sid (t_cleanup_ticks st)\<rparr>"
  have r1: "rp_session (r_plan r1) = sid"
    using plan by (simp add: r1_def r0_def new_reconciliation_def)
  have step': "st' = (let st2 = send_reconciliation r1 None g st1 in
      if rec_is_settled r1 then schedule_terminal_cleanup sid now st2 else st2)"
    using step alloc r sid
    by (simp add: start_reconciliation_def try_emplace_def al_simps r0_def [symmetric] r1_def [symmetric] st1_def
        cong: if_cong)
  have fields: "map_of (t_sessions st1) sid = Some s" "map_of (t_baselines st1) sid = None"
    "map_of (t_reconciliations st1) sid = Some r1" "map_of (t_cleanup_ticks st1) sid = None"
    "map_of (t_applications st1) sid = map_of (t_applications st) sid" "indexed st1 = indexed st"
    using s by (simp_all add: st1_def al_simps indexed_def fun_eq_iff)
  have others1: "others_ok sid st1" unfolding st1_def by (rule others_start_reconciliation [OF others])
  have fits1: "index_fits st1 sid" using fits fields s by (simp add: index_fits_def)
  have core1: "terminal_core sid s (map_of (t_applications st1) sid) (map_of (t_baselines st1) sid)
      (map_of (t_reconciliations st1) sid)"
    using core fields r1 by (simp add: terminal_core_def)
  show ?thesis
  proof (cases "rec_is_settled r1")
    case True
    have "trade_inv (schedule_terminal_cleanup sid now (send_reconciliation r1 None g st1))"
      by (rule schedule_inv [where s = s])
        (use others1 fits1 core1 fields in \<open>simp_all add: index_fits_def\<close>)
    with step' True show ?thesis by simp
  next
    case False
    have "slot_wf sid s (indexed st1 sid) (map_of (t_applications st1) sid) None (Some r1) None"
      using core1 fits1 fields False s by (auto simp: terminal_core_def slot_wf_def index_fits_def)
    then have "slot_ok st1 sid" using fields unfolding slot_ok_def by simp
    with others1 step' False show ?thesis by (simp add: trade_inv_iff [of _ sid])
  qed
qed

lemma begin_reconciliation_inv:
  assumes others: "others_ok sid st" and fits: "index_fits st sid"
    and s: "map_of (t_sessions st) sid = Some s"
    and core: "terminal_core sid s (map_of (t_applications st) sid) (map_of (t_baselines st) sid)
      (map_of (t_reconciliations st) sid)"
    and a: "mp_session (a_plan a) = sid"
    and pending: "map_of (t_reconciliations st) sid \<noteq> None \<Longrightarrow> slot_ok st sid"
    and step: "begin_reconciliation s a now u g st = Some st'"
  shows "trade_inv st'"
proof -
  have sid: "s_id s = sid" using core by (simp add: terminal_core_def)
  show ?thesis
  proof (cases "map_of (t_reconciliations st) sid")
    case (Some r)
    with step sid pending others show ?thesis
      by (auto simp: begin_reconciliation_def trade_inv_iff [of _ sid])
  next
    case None
    have start: "trade_inv st'"
      if "start_reconciliation s plan now u g st = Some st'" "rp_session plan = sid" for plan
      using that core None by (intro start_reconciliation_inv [OF others fits s]) simp_all
    have base: "rp_session b = sid" if "map_of (t_baselines st) sid = Some b" for b
      using that core by (simp add: terminal_core_def)
    have sched: "trade_inv (schedule_terminal_cleanup sid now st)"
      by (rule schedule_inv [OF others fits s core])
    show ?thesis
      using step None sid a sched
      by (auto simp: begin_reconciliation_def base reconciliation_plan_session intro: start
          split: sum.splits option.splits if_splits)
  qed
qed

text \<open>The slot of an event on a stored session.\<close>

lemma slot_of_session:
  "trade_inv st \<Longrightarrow> find_session st sid = Some s \<Longrightarrow>
     slot_wf sid s (indexed st sid) (map_of (t_applications st) sid) (map_of (t_baselines st) sid)
       (map_of (t_reconciliations st) sid) (map_of (t_cleanup_ticks st) sid)"
  by (auto simp: trade_inv_def slot_ok_def find_session_def dest: spec [where x = sid])

lemma fits_of_inv: "trade_inv st \<Longrightarrow> index_fits st sid"
  by (simp add: trade_inv_def slot_ok_fits)

lemma put_session_fits:
  assumes "trade_inv st" and "find_session st sid = Some s" and "is_participant s' = is_participant s"
  shows "index_fits (put_session sid s' st) sid"
  using fits_of_inv [OF assms(1), of sid] assms(2,3) by (simp add: index_fits_def find_session_def)

text \<open>Storing a session that left its slot as well formed as it was.\<close>

lemma put_session_inv:
  assumes inv: "trade_inv st" 
    and slot: "slot_wf sid s' (indexed st sid) (map_of (t_applications st) sid)
      (map_of (t_baselines st) sid) (map_of (t_reconciliations st) sid) (map_of (t_cleanup_ticks st) sid)"
  shows "trade_inv (put_session sid s' st)"
proof -
  have "slot_ok (put_session sid s' st) sid" unfolding slot_ok_def using slot by simp
  with others_put_session [OF trade_inv_others [OF inv]] show ?thesis by (simp add: trade_inv_iff [of _ sid])
qed

lemma put_session_same_inv: "trade_inv st \<Longrightarrow> find_session st sid = Some s \<Longrightarrow> trade_inv (put_session sid s st)"
  by (intro put_session_inv slot_of_session)

lemma put_then_remove_inv:
  assumes "trade_inv st" and "find_session st sid = Some s" and "session_advances s s'"
    and "same_store (put_session sid s' st) st'"
  shows "trade_inv (remove_session sid st')"
proof (rule remove_session_inv)
  show "others_ok sid st'"
    using others_put_session [OF trade_inv_others [OF assms(1)]] same_store_ok(2) [OF assms(4)] by simp
  show "index_fits st' sid"
    using put_session_fits [OF assms(1,2) advances_identity(4) [OF assms(3)]] assms(4)
      same_store_ok(4) [OF assms(4)]
    by (simp add: index_fits_def same_store_def)
qed

lemma remove_any_inv: "trade_inv st \<Longrightarrow> trade_inv (remove_session sid st)"
  by (intro remove_session_inv trade_inv_others fits_of_inv)

text \<open>A failing or completing session whose application stands, before reconciling or cleaning up.\<close>

lemma terminal_put_core:
  assumes inv: "trade_inv st" and s: "find_session st sid = Some s"
    and a: "map_of (t_applications st) sid = Some a"
    and s': "session_wf s'" "session_advances s s'" "s_state s' = Completed \<or> s_state s' = Failed"
  shows "terminal_core sid s' (map_of (t_applications st) sid) (map_of (t_baselines st) sid)
     (map_of (t_reconciliations st) sid)"
  using slot_of_session [OF inv s] a s'
  by (auto intro: terminal_core_after dest: slot_wf_application)

lemma same_store_next [simp]: "same_store st (st\<lparr>t_next_session_id := n\<rparr>)"
  "same_store st (st\<lparr>t_next_apply_id := n\<rparr>)" "same_store st (st\<lparr>t_next_sweep := k\<rparr>)"
  "same_store st (st\<lparr>t_world := w\<rparr>)"
  by (simp_all add: same_store_def)

lemmas next_ok [simp] = same_store_next [THEN same_store_ok(1)] same_store_next [THEN same_store_ok(2)]
  same_store_next [THEN same_store_ok(3)] same_store_next [THEN same_store_ok(4)]

lemma same_store_refl [simp]: "same_store st st"
  by (simp add: same_store_def)

end
