(* ===== verification/TradeInvariants.thy ===== *)
theory TradeInvariants
  imports TradeSlots
begin

text \<open>
  The invariant of the trade service: every handler and the periodic sweep keep it, so it holds
  in every reachable state; and the properties that follow from it.
\<close>

section \<open>The handlers keep the invariant\<close>

lemma allocate_session_id_fresh:
  assumes "allocate_session_id st = Some (sid, st1)"
  obtains n where "sid \<noteq> 0" "map_of (t_sessions st) sid = None" "st1 = st\<lparr>t_next_session_id := n\<rparr>"
proof -
  from assms obtain n where "alloc_id (\<lambda>i. map_of (t_sessions st) i \<noteq> None) (t_next_session_id st) = Some (sid, n)"
    and "st1 = st\<lparr>t_next_session_id := n\<rparr>"
    unfolding allocate_session_id_def by (auto simp: map_option_case split: option.splits)
  moreover from alloc_id_fresh [OF this(1)] have "sid \<noteq> 0" "map_of (t_sessions st) sid = None" by simp_all
  ultimately show ?thesis by (intro that)
qed

definition open_session ::
  "SessionId \<Rightarrow> PlayerId \<Rightarrow> PlayerId \<Rightarrow> Tick \<Rightarrow> Tick \<Rightarrow> TradeService \<Rightarrow> TradeService" where
  "open_session sid p q now expiry st =
     st\<lparr>t_sessions := AList.update sid (new_session sid p q now expiry) (t_sessions st),
        t_player_sessions := AList.update q sid (AList.update p sid (t_player_sessions st))\<rparr>"

lemma open_session_inv:
  assumes inv: "trade_inv st" and sid: "sid \<noteq> 0" "map_of (t_sessions st) sid = None"
    and free: "map_of (t_player_sessions st) p = None" "map_of (t_player_sessions st) q = None" "p \<noteq> q"
  shows "trade_inv (open_session sid p q now expiry st)"
proof -
  let ?st = "open_session sid p q now expiry st" and ?s = "new_session sid p q now expiry"
  have ix: "indexed ?st j x \<longleftrightarrow> (if x = p \<or> x = q then j = sid else indexed st j x)" for j x
    by (auto simp: open_session_def indexed_def al_simps)
  have none: "map_of (t_applications st) sid = None" "map_of (t_baselines st) sid = None"
    "map_of (t_reconciliations st) sid = None" "map_of (t_cleanup_ticks st) sid = None"
    "\<not> indexed st sid x" for x
  proof -
    have "slot_ok st sid" using inv by (simp add: trade_inv_def)
    with sid show "map_of (t_applications st) sid = None" "map_of (t_baselines st) sid = None"
      "map_of (t_reconciliations st) sid = None" "map_of (t_cleanup_ticks st) sid = None"
      "\<not> indexed st sid x" for x
      by (simp_all add: slot_ok_def)
  qed
  have "others_ok sid ?st"
    using trade_inv_others [OF inv]
  proof (rule others_okI)
    show "keys_ok st \<Longrightarrow> keys_ok ?st" by (auto simp: open_session_def keys_ok_def)
    have "\<not> indexed st j p" "\<not> indexed st j q" for j using free by (simp_all add: indexed_def)
    then show "indexed ?st j = indexed st j" if "j \<noteq> sid" for j
      using that by (auto simp: ix fun_eq_iff)
  qed (simp_all add: open_session_def al_simps)
  moreover have "slot_wf sid ?s (indexed ?st sid) None None None None"
  proof -
    have "s_id ?s = sid" "part_id (s_initiator ?s) = p" "part_id (s_recipient ?s) = q"
      "s_state ?s = PendingAcceptance"
      using free(3) by (simp_all add: new_session_def new_participant_def)
    with new_session_wf [of sid p q now expiry] free(3) sid(1) none(5) show ?thesis
      by (auto simp: slot_wf_def ix is_participant_iff)
  qed
  then have "slot_ok ?st sid"
    using none unfolding slot_ok_def by (simp add: open_session_def al_simps)
  ultimately show ?thesis by (simp add: trade_inv_iff [of _ sid])
qed

text \<open>An invitation either changes nothing that is stored, or opens one session.\<close>

lemma on_trade_invite_request_cases:
  assumes "on_trade_invite_request inviter q now st = Some st'"
  obtains "same_store st st'" "t_world st' = t_world st"
    | p sid n where "inviter = Some p" "p \<noteq> q" "sid \<noteq> 0" "map_of (t_sessions st) sid = None"
        "map_of (t_player_sessions st) p = None" "map_of (t_player_sessions st) q = None"
        "get_by_id (t_world st) q \<noteq> None"
        "st' = send_invite q (new_session sid p q now (now + kInviteLifetimeMs))
           (open_session sid p q now (now + kInviteLifetimeMs) (st\<lparr>t_next_session_id := n\<rparr>))"
proof -
  have refl: "same_store st st" by (simp add: same_store_def)
  show ?thesis
  proof (cases "\<exists>p. inviter = Some p \<and> get_by_id (t_world st) q \<noteq> None \<and> q \<noteq> p \<and>
      map_of (t_player_sessions st) p = None \<and> map_of (t_player_sessions st) q = None")
    case False
    have "same_store st st' \<and> t_world st' = t_world st"
    proof (cases inviter)
      case None
      with assms refl show ?thesis by (simp add: on_trade_invite_request_def)
    next
      case (Some p)
      show ?thesis
      proof (cases "get_by_id (t_world st) q = None \<or> q = p")
        case True
        with Some assms refl show ?thesis
          by (cases "get_by_id (t_world st) q = None") (simp_all add: on_trade_invite_request_def)
      next
        case there: False
        then obtain pl where pl: "get_by_id (t_world st) q = Some pl" "q \<noteq> p" by auto
        show ?thesis
        proof (cases "map_of (t_player_sessions st) p")
          case None
          with Some pl False obtain j where "map_of (t_player_sessions st) q = Some j" by auto
          with Some None pl assms refl show ?thesis
            by (simp add: on_trade_invite_request_def is_player_in_session_def)
        next
          case (Some sid)
          with \<open>inviter = Some p\<close> pl assms refl show ?thesis
            by (cases "find_session st sid") (auto simp: on_trade_invite_request_def split: if_splits)
        qed
      qed
    qed
    with that(1) show ?thesis by blast
  next
    case True
    then obtain p where p: "inviter = Some p" "get_by_id (t_world st) q \<noteq> None" "q \<noteq> p"
      "map_of (t_player_sessions st) p = None" "map_of (t_player_sessions st) q = None" by blast
    then obtain pl where pl: "get_by_id (t_world st) q = Some pl" by blast
    with p assms obtain sid st1 where alloc: "allocate_session_id st = Some (sid, st1)"
      by (cases "allocate_session_id st") (auto simp: on_trade_invite_request_def is_player_in_session_def)
    from allocate_session_id_fresh [OF this] obtain n where
      sid: "sid \<noteq> 0" "map_of (t_sessions st) sid = None" "st1 = st\<lparr>t_next_session_id := n\<rparr>" by blast
    have "st' = send_invite q (new_session sid p q now (now + kInviteLifetimeMs))
        (open_session sid p q now (now + kInviteLifetimeMs) st1)"
      using assms p(1,3-) pl alloc sid
      by (simp add: on_trade_invite_request_def is_player_in_session_def try_emplace_def al_simps
          open_session_def)
    with that(2) p sid show ?thesis by auto
  qed
qed

lemma on_trade_invite_request_inv:
  assumes "trade_inv st" and "on_trade_invite_request inviter q now st = Some st'"
  shows "trade_inv st'"
  using assms(2)
proof (cases rule: on_trade_invite_request_cases)
  case 1
  with assms(1) same_store_ok(1) show ?thesis by metis
next
  case (2 p sid n)
  with open_session_inv [of "st\<lparr>t_next_session_id := n\<rparr>" sid p q] assms(1) show ?thesis by simp
qed

lemma advances_by:
  "session_advances s (fst (accept p now s))" "session_advances s (fst (reject p now s))"
  "session_advances s (fst (cancel p now s))" "session_advances s (fst (expire now s))"
  "session_advances s (fst (fail e now s))" "session_advances s (fst (start_applying now s))"
  "session_advances s (fst (complete now s))"
  using session_perform_advances [of s "OpAccept p now"] session_perform_advances [of s "OpReject p now"]
    session_perform_advances [of s "OpCancel p now"] session_perform_advances [of s "OpExpire now"]
    session_perform_advances [of s "OpFail e now"] session_perform_advances [of s "OpStartApplying now"]
    session_perform_advances [of s "OpComplete now"] by simp_all

text \<open>A negotiating session that stays open keeps its slot.\<close>

lemma put_open_inv:
  assumes inv: "trade_inv st" and s: "find_session st sid = Some s"
    and op: "s' = fst (session_perform s x)"
    and st: "s_state s = PendingAcceptance \<or> s_state s = Negotiating"
    and st': "s_state s' = PendingAcceptance \<or> s_state s' = Negotiating"
  shows "trade_inv (put_session sid s' st)"
proof (rule put_session_inv [OF inv])
  note slot = slot_of_session [OF inv s]
  have wf: "session_wf s" using slot by (simp add: slot_wf_def)
  note facts = op_facts [OF op wf] and ids = advances_identity [OF op_facts(2) [OF op wf]]
  show "slot_wf sid s' (indexed st sid) (map_of (t_applications st) sid)
      (map_of (t_baselines st) sid) (map_of (t_reconciliations st) sid) (map_of (t_cleanup_ticks st) sid)"
    using slot facts(1) ids st st' by (auto simp: slot_wf_def)
qed


lemma on_trade_invite_response_inv:
  assumes inv: "trade_inv st"
  shows "trade_inv (on_trade_invite_response_request player sid accepted now st)"
proof (cases "\<exists>p s. player = Some p \<and> find_session st sid = Some s \<and> is_indexed_participant st p sid")
  case False
  with inv show ?thesis by (auto simp: on_trade_invite_response_request_def split: option.splits)
next
  case True
  then obtain p s where p: "player = Some p" and s: "find_session st sid = Some s"
    and ix: "is_indexed_participant st p sid" by blast
  note slot = slot_of_session [OF inv s]
  have sid: "s_id s = sid" using slot by (simp add: slot_wf_def)
  have ids: "s_id (fst (expire now s)) = sid" "s_id (fst (reject p now s)) = sid"
    "s_id (fst (cancel p now (fst (accept p now s)))) = sid"
    using sid advances_identity(1) [OF advances_by(4)] advances_identity(1) [OF advances_by(2)]
      advances_identity(1) [OF advances_by(3)] advances_identity(1) [OF advances_by(1)] by simp_all
  have rem: "trade_inv (remove_session sid (send_cancelled s' w x None (put_session sid s' st)))"
    if "session_advances s s'" for s' w x
    by (rule put_then_remove_inv [OF inv s that]) simp
  note rems = rem [OF advances_by(4)] rem [OF advances_by(2)]
    rem [OF session_advances_trans [OF advances_by(1) advances_by(3)]]
  have rejected: "\<not> succeeded (snd (reject p now s)) \<Longrightarrow> fst (reject p now s) = s"
    by (auto simp: reject_def)
  have kept: "trade_inv (put_session sid s st)" by (rule put_session_same_inv [OF inv s])
  have acc: "trade_inv (put_session sid (fst (accept p now s)) st)"
  proof (cases "s_state s = PendingAcceptance \<and> p = part_id (s_recipient s)")
    case True
    show ?thesis
      by (rule put_open_inv [OF inv s, of _ "OpAccept p now"]) (use True in \<open>simp_all add: accept_def\<close>)
  next
    case False
    then have "fst (accept p now s) = s" by (auto simp: accept_def)
    with kept show ?thesis by simp
  qed
  show ?thesis
    using p s ix ids rems rejected kept acc
    by (simp add: on_trade_invite_response_request_def split_beta)
qed

lemma on_trade_offer_update_inv:
  assumes inv: "trade_inv st"
  shows "trade_inv (on_trade_offer_update_request player sid r d now st)"
proof (cases "\<exists>p s. player = Some p \<and> find_session st sid = Some s")
  case False
  with inv show ?thesis by (auto simp: on_trade_offer_update_request_def split: option.splits)
next
  case True
  then obtain p s where p: "player = Some p" and s: "find_session st sid = Some s" by blast
  have "trade_inv (put_session sid (fst (update_offer p r items now s)) st)" for items
  proof (cases "s_state s = Negotiating")
    case True
    have "s_state (fst (update_offer p r items now s)) = Negotiating"
    proof (cases "result_changed (snd (update_offer p r items now s))")
      case True
      then have "snd (update_offer p r items now s) = Success True"
        by (auto simp: update_offer_def not_in_state_def split: option.splits prod.splits if_splits)
      then show ?thesis by (rule update_offer_changed) simp
    next
      case False
      with True show ?thesis by (simp add: update_offer_unchanged)
    qed
    with True show ?thesis
      by (intro put_open_inv [OF inv s, of _ "OpUpdateOffer p r items now"]) simp_all
  next
    case False
    then show ?thesis using inv s by (simp add: update_offer_def put_session_same_inv)
  qed
  with p s inv show ?thesis
    by (simp add: on_trade_offer_update_request_def split_beta)
qed

lemma on_trade_cancel_inv:
  assumes inv: "trade_inv st"
  shows "trade_inv (on_trade_cancel_request player sid now st)"
proof (cases "\<exists>p s. player = Some p \<and> find_session st sid = Some s")
  case False
  with inv show ?thesis by (auto simp: on_trade_cancel_request_def split: option.splits)
next
  case True
  then obtain p s where p: "player = Some p" and s: "find_session st sid = Some s" by blast
  have "s_id (fst (cancel p now s)) = sid"
    using slot_of_session [OF inv s] advances_identity(1) [OF advances_by(3)] by (simp add: slot_wf_def)
  moreover have "trade_inv (remove_session sid (send_cancelled (fst (cancel p now s)) CancelledByParticipant p None
      (put_session sid (fst (cancel p now s)) st)))"
    by (rule put_then_remove_inv [OF inv s advances_by(3) [of s p now]]) simp
  moreover have "\<not> succeeded (snd (cancel p now s)) \<Longrightarrow> fst (cancel p now s) = s"
    by (auto simp: cancel_def)
  ultimately show ?thesis
    using p s inv put_session_same_inv [OF inv s]
    by (simp add: on_trade_cancel_request_def split_beta)
qed


subsection \<open>Confirming and starting the application\<close>

lemma confirm_states:
  assumes "session_wf s" and "s_state s \<noteq> Locked"
  shows "s_state (fst (confirm p r now s)) = Locked \<Longrightarrow> s_state s = Negotiating"
    and "s_state (fst (confirm p r now s)) \<noteq> Locked \<Longrightarrow>
      fst (confirm p r now s) = s \<or> s_state s = Negotiating \<and> s_state (fst (confirm p r now s)) = Negotiating"
    and "s_state (fst (confirm p r now s)) = Locked \<Longrightarrow> succeeded (snd (confirm p r now s))"
proof -
  have "s_state (fst (confirm p r now s)) = s_state s \<and> fst (confirm p r now s) = s"
    if "s_state s \<noteq> Negotiating"
    using that by (auto simp: confirm_def split: option.splits)
  moreover have "s_state (fst (confirm p r now s)) = Negotiating \<or>
      s_state (fst (confirm p r now s)) = Locked \<and> succeeded (snd (confirm p r now s))"
    if "s_state s = Negotiating"
    using that by (auto simp: confirm_def split: option.splits if_splits)
  ultimately show "s_state (fst (confirm p r now s)) = Locked \<Longrightarrow> s_state s = Negotiating"
    and "s_state (fst (confirm p r now s)) \<noteq> Locked \<Longrightarrow>
      fst (confirm p r now s) = s \<or> s_state s = Negotiating \<and> s_state (fst (confirm p r now s)) = Negotiating"
    and "s_state (fst (confirm p r now s)) = Locked \<Longrightarrow> succeeded (snd (confirm p r now s))"
    using assms by metis+
qed

text \<open>Failing a locked session and removing it.\<close>

lemma fail_and_remove_inv:
  assumes others: "others_ok sid st" and fits: "index_fits st sid"
    and s: "map_of (t_sessions st) sid = Some s0" "is_participant s = is_participant s0" "s_id s = sid"
  shows "trade_inv (fail_and_remove sid s e now st)"
proof -
  let ?s = "fst (fail e now s)"
  have id: "s_id ?s = sid" "is_participant ?s = is_participant s0"
    using advances_identity [OF advances_by(5), of e now s] s by simp_all
  have "trade_inv (remove_session sid (send_state ?s None (put_session sid ?s st)))"
    by (rule remove_session_inv)
      (use others_put_session [OF others] fits s id in \<open>simp_all add: index_fits_def\<close>)
  with id show ?thesis by (simp add: fail_and_remove_def)
qed

lemma start_applying_locked:
  "s_state s = Locked \<Longrightarrow> start_applying now s = (s_touch now (s\<lparr>s_state := Applying\<rparr>), Success True)"
  by (simp add: start_applying_def)

lemma validated_plan_application:
  assumes "session_wf s" and "validate_and_build_mutation_plan st s = Inr plan"
    and "s_id s' = s_id s" "s_revision s' = s_revision s" "s_initiator s' = s_initiator s"
    "s_recipient s' = s_recipient s"
  shows "application_of s' (new_application i plan now dl)" and "mp_session plan = s_id s"
    and "pm_player (mp_initiator plan) = part_id (s_initiator s)"
    and "pm_player (mp_recipient plan) = part_id (s_recipient s)"
proof -
  from assms(2) obtain a b where built: "build_mutation_plan s a b = Inr plan"
    by (auto simp: validate_and_build_mutation_plan_def split: option.splits)
  note plan = plan_contents(1-8) [OF assms(1) built] and gains = plan_gains [OF assms(1) built]
  have "gain s' = gain s" using assms(5,6) by (simp add: gain_def fun_eq_iff)
  with plan gains assms show "application_of s' (new_application i plan now dl)"
    by (simp add: application_of_def new_application_wf) (simp add: new_application_def)
  show "mp_session plan = s_id s" by (rule plan(1))
  show "pm_player (mp_initiator plan) = part_id (s_initiator s)" by (rule plan(3))
  show "pm_player (mp_recipient plan) = part_id (s_recipient s)" by (rule plan(4))
qed

lemma begin_application_cases:
  assumes "s_state s = Locked" and "s_id s = sid" and "map_of (t_applications st) sid = None"
    and "begin_application sid s plan now st = Some st'"
  obtains (Started) i n b where "allocate_apply_id st = Some (i, st\<lparr>t_next_apply_id := n\<rparr>)"
      "build_current_reconciliation_plan st (new_application i plan now (now + kApplyTimeoutMs)) = Inr b"
      "st' = send_apply (s_touch now (s\<lparr>s_state := Applying\<rparr>))
          (new_application i plan now (now + kApplyTimeoutMs))
          (send_state (s_touch now (s\<lparr>s_state := Applying\<rparr>)) None
            ((put_application sid (new_application i plan now (now + kApplyTimeoutMs))
              (put_session sid (s_touch now (s\<lparr>s_state := Applying\<rparr>)) (st\<lparr>t_next_apply_id := n\<rparr>)))
             \<lparr>t_baselines := AList.update sid b (t_baselines st)\<rparr>))"
    | (Unavailable) i n e where
      "build_current_reconciliation_plan st (new_application i plan now (now + kApplyTimeoutMs)) = Inl e"
      "st' = fail_and_remove sid (s_touch now (s\<lparr>s_state := Applying\<rparr>)) ReconciliationUnavailable now
          (put_application sid (new_application i plan now (now + kApplyTimeoutMs))
            (put_session sid (s_touch now (s\<lparr>s_state := Applying\<rparr>)) (st\<lparr>t_next_apply_id := n\<rparr>)))"
proof -
  from assms(4) obtain i n where alloc: "allocate_apply_id st = Some (i, st\<lparr>t_next_apply_id := n\<rparr>)"
    by (auto simp: begin_application_def allocate_apply_id_def split: option.splits)
  have same: "build_current_reconciliation_plan (st\<lparr>t_next_apply_id := n, t_sessions := x, t_applications := y\<rparr>) a =
      build_current_reconciliation_plan st a" for x y a
    by (simp add: build_current_reconciliation_plan_def)
  show ?thesis
    using assms alloc that
    by (cases "build_current_reconciliation_plan st (new_application i plan now (now + kApplyTimeoutMs))")
      (auto simp: begin_application_def start_applying_locked try_emplace_def al_simps put_application_def
        put_session_def same)
qed

lemma begin_application_inv:
  assumes others: "others_ok sid st" and fits: "index_fits st sid"
    and s0: "map_of (t_sessions st) sid = Some s" "s_state s = Locked" "s_id s = sid" "sid \<noteq> 0"
    and wf: "session_wf s" "part_id (s_initiator s) \<noteq> part_id (s_recipient s)"
    and ix: "\<forall>p. is_participant s p \<longrightarrow> indexed st sid p"
    and none: "map_of (t_applications st) sid = None" "map_of (t_reconciliations st) sid = None"
      "map_of (t_cleanup_ticks st) sid = None"
    and plan: "validate_and_build_mutation_plan st' s = Inr plan"
    and step: "begin_application sid s plan now st = Some st2"
  shows "trade_inv st2"
proof -
  let ?s = "s_touch now (s\<lparr>s_state := Applying\<rparr>)"
  have adv: "session_advances s ?s" "session_wf ?s"
    using op_facts [of ?s s "OpStartApplying now"] wf(1) s0(2) by (simp_all add: start_applying_locked)
  note id = advances_identity [OF adv(1)]
  let ?a = "\<lambda>i. new_application i plan now (now + kApplyTimeoutMs)"
  let ?st = "\<lambda>i n. put_application sid (?a i) (put_session sid ?s (st\<lparr>t_next_apply_id := n\<rparr>))"
  have aof: "application_of ?s (?a i)" and sess: "mp_session plan = sid" for i
    using validated_plan_application(1,2) [OF wf(1) plan, of ?s] s0(3) by simp_all
  have others': "others_ok sid (?st i n)" for i n
    using others by (intro others_put) simp
  have ix': "indexed (?st i n) = indexed st" for i n
    by (simp add: put_application_def indexed_def fun_eq_iff)
  from s0(2,3) none(1) step show ?thesis
  proof (cases rule: begin_application_cases)
    case (Started i n b)
    have b: "rp_session b = sid"
      using reconciliation_plan_session [OF Started(2)] sess by (simp add: new_application_def)
    let ?st' = "(?st i n)\<lparr>t_baselines := AList.update sid b (t_baselines st)\<rparr>"
    have "others_ok sid ?st'"
      using others_put_baseline [OF others' [of i n], of b] by (simp add: put_application_def put_session_def)
    moreover have "indexed ?st' = indexed st" by (simp add: put_application_def put_session_def indexed_def fun_eq_iff)
    moreover have "slot_wf sid ?s (indexed st sid) (Some (?a i)) (Some b) None None"
      using adv(2) aof b s0 wf(2) fits ix id by (simp add: slot_wf_def index_fits_def)
    ultimately have "trade_inv ?st'"
      using none by (simp add: trade_inv_iff [of _ sid] slot_ok_def) (simp add: put_application_def al_simps)
    with Started(3) show ?thesis by simp
  next
    case (Unavailable i n e)
    have "index_fits (?st i n) sid"
      using fits ix' [of i n] s0 id(4) by (simp add: index_fits_def) (simp add: put_application_def)
    then have "trade_inv (fail_and_remove sid ?s ReconciliationUnavailable now (?st i n))"
      using others' by (intro fail_and_remove_inv [of _ _ ?s]) (simp_all add: s0(3), simp add: put_application_def)
    with Unavailable(2) show ?thesis by simp
  qed
qed

lemma on_trade_confirm_inv:
  assumes inv: "trade_inv st" and step: "on_trade_confirm_request player sid r now st = Some st'"
  shows "trade_inv st'"
proof (cases "\<exists>p s. player = Some p \<and> find_session st sid = Some s \<and> is_indexed_participant st p sid")
  case False
  with inv step show ?thesis by (auto simp: on_trade_confirm_request_def split: option.splits)
next
  case True
  then obtain p s where p: "player = Some p" and s: "find_session st sid = Some s"
    and ixp: "is_indexed_participant st p sid" by blast
  let ?s = "fst (confirm p r now s)" and ?res = "snd (confirm p r now s)"
  note slot = slot_of_session [OF inv s]
  have wf: "session_wf s" "s_state s \<noteq> Locked" using slot by (auto simp: slot_wf_def)
  note op = op_facts [of ?s s "OpConfirm p r now", OF _ wf(1), simplified]
  note id = advances_identity [OF op(2)] and states = confirm_states [OF wf]
  let ?st = "put_session sid ?s st"
  show ?thesis
  proof (cases "s_state ?s = Locked")
    case True
    then have neg: "s_state s = Negotiating" by (rule states(1))
    have others: "others_ok sid ?st" by (intro others_put trade_inv_others inv)
    have fits: "index_fits ?st sid" by (rule put_session_fits [OF inv s id(4)])
    have basics: "s_id ?s = sid" "sid \<noteq> 0" "part_id (s_initiator ?s) \<noteq> part_id (s_recipient ?s)"
      "\<forall>p. is_participant ?s p \<longrightarrow> indexed ?st sid p"
      "map_of (t_applications ?st) sid = None" "map_of (t_reconciliations ?st) sid = None"
      "map_of (t_cleanup_ticks ?st) sid = None"
      using slot neg id by (simp_all add: slot_wf_def)
    show ?thesis
    proof (cases "validate_and_build_mutation_plan ?st ?s")
      case (Inl e)
      have "trade_inv (fail_and_remove sid ?s e now ?st)"
        by (rule fail_and_remove_inv [OF others fits, of ?s]) (simp_all add: basics(1))
      with Inl p s ixp step True neg states(3) [OF True] show ?thesis
        by (simp add: on_trade_confirm_request_def split_beta)
    next
      case (Inr plan)
      have "begin_application sid ?s plan now ?st = Some st'"
        using Inr p s ixp step True neg states(3) [OF True]
        by (simp add: on_trade_confirm_request_def split_beta)
      then show ?thesis
        by (intro begin_application_inv [OF others fits _ True basics(1,2) op(1) basics(3-7) Inr]) simp_all
    qed
  next
    case False
    then have "trade_inv ?st"
      using states(2) put_session_same_inv [OF inv s] put_open_inv [OF inv s, of ?s "OpConfirm p r now"]
      by fastforce
    with False p s ixp step show ?thesis
      by (auto simp: on_trade_confirm_request_def split_beta split: if_splits)
  qed
qed

subsection \<open>Results of the clients\<close>

text \<open>Failing a session that is not terminal yet, and reconciling it.\<close>

lemma fail_then_reconcile_inv:
  assumes inv: "trade_inv st" and s: "find_session st sid = Some s"
    and a: "map_of (t_applications st) sid = Some a" and e: "e \<noteq> NoError"
    and s': "s' = (if is_terminal s then s else fst (fail e now s))"
    and r: "is_terminal s \<or> map_of (t_reconciliations st) sid = None"
    and store: "same_store (put_session sid s' st) st1"
    and step: "begin_reconciliation s' a now u g st1 = Some st'"
  shows "trade_inv st'"
proof -
  note slot = slot_of_session [OF inv s]
  have wf: "session_wf s" using slot by (simp add: slot_wf_def)
  note app = slot_wf_application [OF slot [unfolded a]]
  have facts: "session_wf s'" "session_advances s s'" "s_state s' = Completed \<or> s_state s' = Failed"
  proof -
    have "s' = s \<or> s' = fst (fail e now s)" using s' by auto
    then show "session_wf s'" "session_advances s s'"
      using wf fail_wf session_advances_refl advances_by(5) by auto
    show "s_state s' = Completed \<or> s_state s' = Failed"
      using s' app(1) slot e by (auto simp: is_terminal_def slot_wf_def fail_def)
  qed
  note id = advances_identity [OF facts(2)]
  have core: "terminal_core sid s' (map_of (t_applications st) sid) (map_of (t_baselines st) sid)
      (map_of (t_reconciliations st) sid)"
    by (rule terminal_put_core [OF inv s a facts])
  have fields: "map_of (t_sessions st1) sid = Some s'" "t_applications st1 = t_applications st"
    "t_baselines st1 = t_baselines st" "t_reconciliations st1 = t_reconciliations st"
    using store by (simp_all add: same_store_def)
  show ?thesis
  proof (rule begin_reconciliation_inv [OF _ _ fields(1) _ _ _ step])
    show "others_ok sid st1"
      using others_put_session [OF trade_inv_others [OF inv]] same_store_ok(2) [OF store] by simp
    show "index_fits st1 sid"
      using put_session_fits [OF inv s id(4)] store same_store_ok(4) [OF store]
      by (simp add: index_fits_def same_store_def)
    show "terminal_core sid s' (map_of (t_applications st1) sid) (map_of (t_baselines st1) sid)
        (map_of (t_reconciliations st1) sid)" using core fields by simp
    show "mp_session (a_plan a) = sid" using app(2) slot by (simp add: application_of_def slot_wf_def)
    assume "map_of (t_reconciliations st1) sid \<noteq> None"
    then have "s' = s" using r fields s' by auto
    then have "trade_inv (put_session sid s' st)" using put_session_same_inv [OF inv s] by simp
    then show "slot_ok st1 sid" using same_store_ok(3) [OF store] by (simp add: trade_inv_def)
  qed
qed

lemma put_application_inv:
  assumes inv: "trade_inv st" and s: "find_session st sid = Some s"
    and a: "map_of (t_applications st) sid = Some a" and a': "application_of s a'"
  shows "trade_inv (put_application sid a' st)"
proof -
  note slot = slot_of_session [OF inv s]
  have "indexed (put_application sid a' st) = indexed st"
    by (simp add: put_application_def indexed_def fun_eq_iff)
  moreover have "slot_wf sid s (indexed st sid) (Some a') (map_of (t_baselines st) sid)
      (map_of (t_reconciliations st) sid) (map_of (t_cleanup_ticks st) sid)"
    using slot a a' by (auto simp: slot_wf_def split: State.splits)
  ultimately have "slot_ok (put_application sid a' st) sid"
    using s unfolding slot_ok_def find_session_def by (simp add: put_application_def al_simps)
  with others_put_application [OF trade_inv_others [OF inv]] show ?thesis
    by (simp add: trade_inv_iff [of _ sid])
qed

text \<open>Cleaning up after a session that just became terminal.\<close>

lemma put_then_schedule_inv:
  assumes inv: "trade_inv st" and s: "find_session st sid = Some s"
    and a: "map_of (t_applications st) sid = Some a"
    and s': "session_wf s'" "session_advances s s'" "s_state s' = Completed \<or> s_state s' = Failed"
    and store: "same_store (put_session sid s' st) st1"
  shows "trade_inv (schedule_terminal_cleanup sid now st1)"
proof (rule schedule_inv)
  show "others_ok sid st1"
    using others_put_session [OF trade_inv_others [OF inv]] same_store_ok(2) [OF store] by simp
  show "index_fits st1 sid"
    using put_session_fits [OF inv s advances_identity(4) [OF s'(2)]] store same_store_ok(4) [OF store]
    by (simp add: index_fits_def same_store_def)
  show "map_of (t_sessions st1) sid = Some s'" using store by (simp add: same_store_def)
  show "terminal_core sid s' (map_of (t_applications st1) sid) (map_of (t_baselines st1) sid)
      (map_of (t_reconciliations st1) sid)"
    using terminal_put_core [OF inv s a s'] store by (simp add: same_store_def)
qed

lemma after_apply_result_inv:
  assumes inv: "trade_inv st" and s: "find_session st sid = Some s"
    and a: "map_of (t_applications st) sid = Some a"
    and r: "map_of (t_reconciliations st) sid = None"
    and step: "after_apply_result sid s a now st = Some st'"
  shows "trade_inv st'"
proof -
  note slot = slot_of_session [OF inv s]
  have wf: "session_wf s" and sid: "s_id s = sid" using slot by (simp_all add: slot_wf_def)
  note app = slot_wf_application [OF slot [unfolded a]]
  consider "app_has_failed a" | "\<not> app_has_failed a" "\<not> app_all_succeeded a"
    | "\<not> app_has_failed a" "app_all_succeeded a" "commit_mutation_plan (a_plan a) (t_world st) = None"
    | w where "\<not> app_has_failed a" "app_all_succeeded a" "commit_mutation_plan (a_plan a) (t_world st) = Some w"
    by fastforce
  then show ?thesis
  proof cases
    case 1
    let ?s = "if is_terminal s then s else fst (fail ApplyFailed now s)"
    have "begin_reconciliation ?s a now 0 None (send_state ?s None (put_session sid ?s st)) = Some st'"
      using step 1 by (simp add: after_apply_result_def)
    then show ?thesis
      by (intro fail_then_reconcile_inv [OF inv s a, of ApplyFailed ?s now]) (use r in simp_all)
  next
    case 2
    with step inv show ?thesis by (simp add: after_apply_result_def)
  next
    case 3
    let ?s = "fst (fail ServerCommitFailed now s)"
    have "?s = (if is_terminal s then s else ?s)" using terminal_op_same(1) by simp
    moreover have "begin_reconciliation ?s a now 0 None (send_state ?s None (put_session sid ?s st)) = Some st'"
      using step 3 by (simp add: after_apply_result_def)
    ultimately show ?thesis
      by (intro fail_then_reconcile_inv [OF inv s a, of ServerCommitFailed ?s now]) (use r in simp_all)
  next
    case (4 w)
    let ?s = "fst (complete now s)"
    have id: "s_id ?s = sid" using advances_identity(1) [OF advances_by(7)] sid by simp
    have "s_state ?s = Completed \<or> s_state ?s = Failed"
      using app(1) slot by (auto simp: complete_def is_terminal_def slot_wf_def)
    then have "trade_inv (schedule_terminal_cleanup sid now
        (send_state ?s None (put_session sid ?s (st\<lparr>t_world := w\<rparr>))))"
      by (intro put_then_schedule_inv [where st = "st\<lparr>t_world := w\<rparr>" and s = s and a = a
            and s' = ?s])
        (use inv s a wf advances_by(7) [of s now] complete_wf in \<open>simp_all add: find_session_def\<close>)
    with 4 step id show ?thesis by (simp add: after_apply_result_def)
  qed
qed

lemma on_trade_apply_result_inv:
  assumes inv: "trade_inv st"
    and step: "on_trade_apply_result_request player sid r i code valid now later st = Some st'"
  shows "trade_inv st'"
proof (cases "\<exists>p s a. player = Some p \<and> find_session st sid = Some s \<and> map_of (t_applications st) sid = Some a")
  case False
  with inv step show ?thesis by (auto simp: on_trade_apply_result_request_def split: option.splits)
next
  case True
  then obtain p s a where p: "player = Some p" and s: "find_session st sid = Some s"
    and a: "map_of (t_applications st) sid = Some a" by blast
  let ?a = "\<lambda>out. fst (app_record_result p out now a)"
  have aof: "application_of s (?a c)" for c
    using slot_wf_application(2) slot_of_session [OF inv s] a app_record_result_of by metis
  have put: "trade_inv (put_application sid (?a c) st)" for c
    by (rule put_application_inv [OF inv s a aof])
  have after: "trade_inv st''" if "map_of (t_reconciliations st) sid = None"
    "after_apply_result sid s (?a c) later (put_application sid (?a c) st) = Some st''" for c st''
    by (rule after_apply_result_inv [OF put _ _ _ that(2)])
      (use s that(1) in \<open>simp_all add: find_session_def put_application_def al_simps\<close>)
  show ?thesis
    using step p s a inv put
    by (auto simp: on_trade_apply_result_request_def split_beta intro: after
        split: option.splits if_splits)
qed

text \<open>A recorded reconciliation outcome: the slot stands until it is settled, then it is cleaned up.\<close>

lemma put_reconciliation_inv:
  assumes inv: "trade_inv st" and s: "find_session st sid = Some s"
    and r: "map_of (t_reconciliations st) sid = Some r" and r': "r_plan r' = r_plan r"
  shows "\<not> rec_is_settled r' \<Longrightarrow> trade_inv (put_reconciliation sid r' st)"
    and "trade_inv (schedule_terminal_cleanup sid now (put_reconciliation sid r' st))"
proof -
  note slot = slot_of_session [OF inv s]
  let ?st = "put_reconciliation sid r' st"
  have others: "others_ok sid ?st" by (intro others_put trade_inv_others inv)
  have fields: "t_sessions ?st = t_sessions st" "t_applications ?st = t_applications st"
    "t_baselines ?st = t_baselines st" "t_cleanup_ticks ?st = t_cleanup_ticks st"
    "map_of (t_reconciliations ?st) sid = Some r'" "indexed ?st = indexed st"
    by (simp_all add: put_reconciliation_def al_simps indexed_def fun_eq_iff)
  have ended: "is_terminal s" using slot r by (cases "s_state s") (simp_all add: slot_wf_def is_terminal_def)
  show "trade_inv ?st" if "\<not> rec_is_settled r'"
  proof -
    have "slot_wf sid s (indexed st sid) (map_of (t_applications st) sid) (map_of (t_baselines st) sid)
        (Some r') (map_of (t_cleanup_ticks st) sid)"
      using slot r r' that by (auto simp: slot_wf_def split: State.splits)
    then have "slot_ok ?st sid" using s fields unfolding slot_ok_def find_session_def by simp
    with others show ?thesis by (simp add: trade_inv_iff [of _ sid])
  qed
  have "terminal_core sid s (map_of (t_applications st) sid) (map_of (t_baselines st) sid) (Some r')"
    using slot_wf_terminal [OF slot ended] r r' by (simp add: terminal_core_def)
  then show "trade_inv (schedule_terminal_cleanup sid now ?st)"
    using s fields fits_of_inv [OF inv, of sid]
    by (intro schedule_inv [OF others, where s = s]) (simp_all add: find_session_def index_fits_def)
qed

lemma on_trade_reconcile_result_inv:
  assumes inv: "trade_inv st"
  shows "trade_inv (on_trade_reconcile_result_request player sid r i j code valid now later st)"
proof (cases "\<exists>p s rc. player = Some p \<and> find_session st sid = Some s \<and>
    map_of (t_reconciliations st) sid = Some rc")
  case False
  with inv show ?thesis by (auto simp: on_trade_reconcile_result_request_def split: option.splits)
next
  case True
  then obtain p s rc where p: "player = Some p" and s: "find_session st sid = Some s"
    and rc: "map_of (t_reconciliations st) sid = Some rc" by blast
  have plan: "rp_session (r_plan rc) = sid" using slot_of_session [OF inv s] rc by (simp add: slot_wf_def)
  have same: "trade_inv (put_reconciliation sid rc st)"
  proof -
    have "slot_ok (put_reconciliation sid rc st) sid = slot_ok st sid"
      by (rule slot_ok_cong)
        (use rc in \<open>auto simp: put_reconciliation_def al_simps indexed_def fun_eq_iff\<close>)
    with inv others_put_reconciliation [OF trade_inv_others [OF inv]] show ?thesis
      by (simp add: trade_inv_iff [of _ sid])
  qed
  have failed: "trade_inv (put_reconciliation sid (fst (rec_record_result p out now rc)) st)"
    if "\<not> succeeded (snd (rec_record_result p out now rc))" for out
  proof -
    have "fst (rec_record_result p out now rc) = rc"
      using that by (auto simp: rec_record_result_def split: option.splits if_splits)
    with same show ?thesis by simp
  qed
  note kept = put_reconciliation_inv [OF inv s rc rec_record_result_plan]
  show ?thesis
    using p s rc plan inv failed kept
    by (simp add: on_trade_reconcile_result_request_def split_beta)
qed

subsection \<open>Leaving players\<close>

lemma drop_index_inv:
  assumes inv: "trade_inv st" and ix: "map_of (t_player_sessions st) p = Some sid"
    and s: "find_session st sid = None"
  shows "trade_inv st'"
proof -
  have "slot_ok st sid" using inv by (simp add: trade_inv_def)
  with ix s have False by (auto simp: slot_ok_def find_session_def indexed_def)
  then show ?thesis ..
qed

lemma on_player_leave_inv:
  assumes inv: "trade_inv st" and step: "on_player_leave player now st = Some st'"
  shows "trade_inv st'"
proof (cases "\<exists>p sid s. player = Some p \<and> map_of (t_player_sessions st) p = Some sid \<and> find_session st sid = Some s")
  case False
  with inv step show ?thesis
    by (auto simp: on_player_leave_def intro: drop_index_inv split: option.splits)
next
  case True
  then obtain p sid s where p: "player = Some p" and ix: "map_of (t_player_sessions st) p = Some sid"
    and s: "find_session st sid = Some s" by blast
  note slot = slot_of_session [OF inv s]
  show ?thesis
  proof (cases "map_of (t_reconciliations st) sid")
    case (Some rc)
    note kept = put_reconciliation_inv [OF inv s Some rec_mark_unavailable_plan [of p now]]
    show ?thesis using step p ix s Some kept by (auto simp: on_player_leave_def split: if_splits)
  next
    case None
    show ?thesis
    proof (cases "s_state s = Applying")
      case True
      then obtain a where a: "map_of (t_applications st) sid = Some a"
        using slot by (auto simp: slot_wf_def)
      let ?s = "fst (fail ParticipantDisconnected now s)"
      have "begin_reconciliation ?s a now p (Some p) (send_state ?s None (put_session sid ?s st)) = Some st'"
        using step p ix s None True a by (simp add: on_player_leave_def)
      then show ?thesis
        using True None
        by (intro fail_then_reconcile_inv [OF inv s a, of ParticipantDisconnected ?s now])
          (simp_all add: is_terminal_def)
    next
      case False
      let ?s = "fst (cancel p now s)"
      have "trade_inv (remove_session sid (send_cancelled ?s PlayerDisconnected p (Some p) (put_session sid ?s st)))"
        by (rule put_then_remove_inv [OF inv s advances_by(3) [of s p now]]) simp
      moreover have "\<not> succeeded (snd (cancel p now s)) \<Longrightarrow> ?s = s" by (auto simp: cancel_def)
      ultimately show ?thesis
        using step p ix s None False put_session_same_inv [OF inv s]
        by (auto simp: on_player_leave_def split_beta split: if_splits)
    qed
  qed
qed

subsection \<open>The periodic sweep\<close>

lemma expire_invitation_inv:
  assumes inv: "trade_inv st"
  shows "trade_inv (expire_invitation now sid st)"
proof (cases "find_session st sid")
  case None
  with inv show ?thesis by (simp add: expire_invitation_def)
next
  case (Some s)
  have "trade_inv (remove_session sid st1)"
    if "same_store (put_session sid (fst (expire now s)) st) st1" for st1
    by (rule put_then_remove_inv [OF inv Some advances_by(4) that])
  with Some show ?thesis by (simp add: expire_invitation_def split_beta)
qed

lemma time_out_application_inv:
  assumes inv: "trade_inv st" and step: "time_out_application now sid st = Some st'"
  shows "trade_inv st'"
proof (cases "\<exists>s a. find_session st sid = Some s \<and> map_of (t_applications st) sid = Some a")
  case False
  with inv step show ?thesis by (auto simp: time_out_application_def split: option.splits)
next
  case True
  then obtain s a where s: "find_session st sid = Some s" and a: "map_of (t_applications st) sid = Some a"
    by blast
  note slot = slot_of_session [OF inv s]
  show ?thesis
  proof (cases "is_terminal s")
    case True
    then have "begin_reconciliation s a now 0 None st = Some st'"
      using step s a by (simp add: time_out_application_def)
    then show ?thesis
      using slot slot_wf_terminal [OF slot True] slot_wf_application(2) [OF slot [unfolded a]] s inv
      by (intro begin_reconciliation_inv [OF trade_inv_others [OF inv] fits_of_inv [OF inv]])
        (simp_all add: find_session_def application_of_def slot_wf_def trade_inv_def)
  next
    case False
    then have "map_of (t_reconciliations st) sid = None"
      using slot by (cases "s_state s") (simp_all add: slot_wf_def is_terminal_def)
    moreover have "begin_reconciliation (fst (fail ApplyTimedOut now s)) a now 0 None
        (send_state (fst (fail ApplyTimedOut now s)) None (put_session sid (fst (fail ApplyTimedOut now s)) st)) = Some st'"
      using step s a False by (simp add: time_out_application_def)
    ultimately show ?thesis
      using False
      by (intro fail_then_reconcile_inv [OF inv s a, of ApplyTimedOut "fst (fail ApplyTimedOut now s)" now]) simp_all
  qed
qed

lemma time_out_reconciliation_inv:
  assumes inv: "trade_inv st"
  shows "trade_inv (time_out_reconciliation now sid st)"
proof (cases "map_of (t_reconciliations st) sid")
  case None
  with inv show ?thesis by (simp add: time_out_reconciliation_def)
next
  case (Some r)
  have "slot_ok st sid" using inv by (simp add: trade_inv_def)
  with Some obtain s where s: "find_session st sid = Some s"
    by (auto simp: slot_ok_def find_session_def split: option.splits)
  note slot = slot_of_session [OF inv s]
  have "is_terminal s" using slot Some by (cases "s_state s") (simp_all add: slot_wf_def is_terminal_def)
  then show ?thesis
    using schedule_inv [OF trade_inv_others [OF inv] fits_of_inv [OF inv] _ slot_wf_terminal [OF slot]] s Some
    by (simp add: time_out_reconciliation_def find_session_def)
qed

lemma fold_inv: "(\<And>x s. P s \<Longrightarrow> P (f x s)) \<Longrightarrow> P s \<Longrightarrow> P (fold f xs s)"
  by (induction xs arbitrary: s) simp_all

lemma time_out_applications_inv:
  "time_out_applications now sids st = Some st' \<Longrightarrow> trade_inv st \<Longrightarrow> trade_inv st'"
  by (induction sids arbitrary: st) (auto split: option.splits dest: time_out_application_inv)

lemma on_update_inv:
  assumes inv: "trade_inv st" and step: "on_update now st = Some st'"
  shows "trade_inv st'"
proof (cases "now < t_next_sweep st")
  case True
  with inv step show ?thesis by (simp add: on_update_def)
next
  case False
  let ?st = "st\<lparr>t_next_sweep := now + kExpirySweepIntervalMs\<rparr>"
  from step False obtain st2 where
    mid: "time_out_applications now (timed_out_applications now ?st)
       (fold (expire_invitation now) (expired_invitations now ?st) ?st) = Some st2"
    and st': "st' = fold remove_session (cleanup_sessions now ?st)
       (fold (time_out_reconciliation now) (timed_out_reconciliations now ?st) st2)"
    by (auto simp: on_update_def)
  have "trade_inv (fold (expire_invitation now) (expired_invitations now ?st) ?st)"
    using inv by (intro fold_inv [where P = trade_inv] expire_invitation_inv) simp_all
  from time_out_applications_inv [OF mid this] show ?thesis
    unfolding st' by (intro fold_inv [where P = trade_inv] time_out_reconciliation_inv remove_any_inv)
qed

section \<open>Reachable states\<close>

lemma new_trade_service_inv: "trade_inv (new_trade_service w)"
  by (simp add: trade_inv_def keys_ok_def slot_ok_def indexed_def new_trade_service_def)

lemma trade_step_inv: "trade_inv st \<Longrightarrow> trade_step now later ev st = Some st' \<Longrightarrow> trade_inv st'"
  by (cases ev)
    (auto intro: on_trade_invite_request_inv on_trade_confirm_inv on_trade_apply_result_inv
      on_player_leave_inv on_update_inv on_trade_invite_response_inv on_trade_offer_update_inv
      on_trade_cancel_inv on_trade_reconcile_result_inv)

lemma trade_reachable_inv: "trade_reachable st \<Longrightarrow> trade_inv st"
proof (induction rule: trade_reachable.induct)
  case (reach_start w)
  then show ?case by (rule new_trade_service_inv)
next
  case (reach_step st now later ev st')
  then show ?case by (auto intro: trade_step_inv)
next
  case (reach_world st w)
  then show ?case by simp
qed

end
