(* ===== verification/TradeFrames.thy ===== *)
theory TradeFrames
  imports TradeInvariants
begin

text \<open>
  What the handlers of the trade service leave alone, and that they return: only a report on an
  application can change the world, an event leaves the slots of other sessions as they were, the
  identifier allocators end while there is room, and the sweep is its four loops one after the
  other.
\<close>


section \<open>The world and the handlers\<close>

lemma world_parts [simp]:
  "t_world (remove_session sid st) = t_world st"
  "t_world (schedule_terminal_cleanup sid now st) = t_world st"
  "t_world (put_application sid a st) = t_world st"
  "t_world (put_reconciliation sid r st) = t_world st"
  "t_world (fail_and_remove sid s e now st) = t_world st"
  "t_world (expire_invitation now sid st) = t_world st"
  "t_world (time_out_reconciliation now sid st) = t_world st"
  by (simp_all add: remove_session_def schedule_terminal_cleanup_def put_application_def
      put_reconciliation_def fail_and_remove_def expire_invitation_def time_out_reconciliation_def
      split_beta split: option.splits)

lemma fold_world: "(\<And>x st. t_world (f x st) = t_world st) \<Longrightarrow> t_world (fold f xs st) = t_world st"
  by (induction xs arbitrary: st) simp_all

lemma allocate_world:
  "allocate_apply_id st = Some (i, st1) \<Longrightarrow> t_world st1 = t_world st"
  "allocate_reconcile_id st = Some (i, st1) \<Longrightarrow> t_world st1 = t_world st"
  by (auto simp: allocate_apply_id_def allocate_reconcile_id_def)

lemma start_reconciliation_world:
  "start_reconciliation s plan now u g st = Some st' \<Longrightarrow> t_world st' = t_world st"
  by (auto simp: start_reconciliation_def split_beta dest: allocate_world
      split: option.splits if_splits)

lemma begin_reconciliation_world:
  "begin_reconciliation s a now u g st = Some st' \<Longrightarrow> t_world st' = t_world st"
  by (auto simp: begin_reconciliation_def dest: start_reconciliation_world
      split: option.splits sum.splits if_splits)

lemma begin_application_world:
  "begin_application sid s plan now st = Some st' \<Longrightarrow> t_world st' = t_world st"
  by (auto simp: begin_application_def split_beta dest: allocate_world
      split: option.splits sum.splits if_splits)

lemma time_out_application_world: "time_out_application now sid st = Some st' \<Longrightarrow> t_world st' = t_world st"
  by (auto simp: time_out_application_def dest: begin_reconciliation_world
      split: option.splits if_splits)

lemma time_out_applications_world:
  "time_out_applications now sids st = Some st' \<Longrightarrow> t_world st' = t_world st"
  by (induction sids arbitrary: st) (auto split: option.splits dest: time_out_application_world)

lemma on_update_world: "on_update now st = Some st' \<Longrightarrow> t_world st' = t_world st"
  by (auto simp: on_update_def fold_world dest: time_out_applications_world split: if_splits)

lemma on_player_leave_world: "on_player_leave p now st = Some st' \<Longrightarrow> t_world st' = t_world st"
  by (auto simp: on_player_leave_def split_beta dest: begin_reconciliation_world
      split: option.splits if_splits)

lemma on_trade_confirm_world:
  "on_trade_confirm_request p sid r now st = Some st' \<Longrightarrow> t_world st' = t_world st"
  by (auto simp: on_trade_confirm_request_def split_beta dest: begin_application_world
      split: option.splits sum.splits if_splits)

lemma on_trade_invite_world:
  assumes "on_trade_invite_request p q now st = Some st'"
  shows "t_world st' = t_world st"
  using assms by (cases rule: on_trade_invite_request_cases) (simp_all add: open_session_def)

lemma plain_handlers_world:
  "t_world (on_trade_invite_response_request p sid acc now st) = t_world st"
  "t_world (on_trade_offer_update_request p sid r d now st) = t_world st"
  "t_world (on_trade_cancel_request p sid now st) = t_world st"
  "t_world (on_trade_reconcile_result_request p sid r i j c v now later st) = t_world st"
  by (simp_all add: on_trade_invite_response_request_def on_trade_offer_update_request_def
      on_trade_cancel_request_def on_trade_reconcile_result_request_def split_beta
      split: option.splits)

section \<open>When items move\<close>

text \<open>
  The one situation in which an event moves items: a member's report leaves both members with a
  recorded success, and the plan of the application is committed.
\<close>

definition moves_items ::
  "TradeService \<Rightarrow> PlayerId option \<Rightarrow> SessionId \<Rightarrow> Revision \<Rightarrow> ApplyId \<Rightarrow> ApplyOutcome \<Rightarrow> Tick \<Rightarrow> World \<Rightarrow>
     Session \<Rightarrow> bool" where
  "moves_items st player sid r i out now w s \<longleftrightarrow>
     (case (player, map_of (t_applications st) sid) of
        (Some p, Some a) \<Rightarrow>
          find_session st sid = Some s \<and> is_participant s p \<and> a_id a = i \<and> mp_revision (a_plan a) = r \<and>
          map_of (t_reconciliations st) sid = None \<and>
          app_all_succeeded (fst (app_record_result p out now a)) \<and>
          commit_mutation_plan (a_plan a) (t_world st) = Some w
      | _ \<Rightarrow> False)"

lemma after_apply_result_world:
  assumes "after_apply_result sid s a now st = Some st'" and "t_world st' \<noteq> t_world st"
  shows "app_all_succeeded a \<and> commit_mutation_plan (a_plan a) (t_world st) = Some (t_world st')"
  using assms
  by (auto simp: after_apply_result_def dest: begin_reconciliation_world split: if_splits option.splits)

lemma on_trade_apply_result_world:
  assumes "on_trade_apply_result_request player sid r i code valid now later st = Some st'"
    and "t_world st' \<noteq> t_world st"
  shows "\<exists>s. moves_items st player sid r i
    (to_apply_outcome (if valid then code else ApplyCode_MalformedPlan)) now (t_world st') s"
proof -
  let ?out = "to_apply_outcome (if valid then code else ApplyCode_MalformedPlan)"
  have "\<exists>p s a. player = Some p \<and> find_session st sid = Some s \<and> map_of (t_applications st) sid = Some a"
    using assms by (auto simp: on_trade_apply_result_request_def split: option.splits)
  then obtain p s a where p: "player = Some p" and s: "find_session st sid = Some s"
    and a: "map_of (t_applications st) sid = Some a" by blast
  have none: "map_of (t_reconciliations st) sid = None"
    using assms p s a by (auto simp: on_trade_apply_result_request_def split: option.splits if_splits)
  let ?a = "fst (app_record_result p ?out now a)"
  from assms p s a none have "is_participant s p \<and> a_id a = i \<and> mp_revision (a_plan a) = r \<and>
      after_apply_result sid s ?a later (put_application sid ?a st) = Some st'"
    by (auto simp: on_trade_apply_result_request_def split_beta split: if_splits)
  with after_apply_result_world [of sid s ?a later "put_application sid ?a st" st'] assms(2) p s a none
  show ?thesis by (auto simp: moves_items_def app_record_result_ids)
qed

lemma trade_step_world:
  assumes "trade_step now later ev st = Some st'" and "t_world st' \<noteq> t_world st"
  obtains player sid r i code valid s where "ev = ApplyResult player sid r i code valid"
    "moves_items st player sid r i (to_apply_outcome (if valid then code else ApplyCode_MalformedPlan)) now
       (t_world st') s"
proof (cases ev)
  case (ApplyResult player sid r i code valid)
  with assms on_trade_apply_result_world [of player sid r i code valid now later st st'] that
  show ?thesis by auto
qed (use assms plain_handlers_world in \<open>auto dest: on_trade_invite_world on_trade_confirm_world
      on_player_leave_world on_update_world\<close>)

lemma moves_items_effect:
  assumes inv: "trade_inv st" and moved: "moves_items st player sid r i out now w s"
  obtains ci cr where "get_inventory_target (t_world st) (part_id (s_initiator s)) = Some ci"
    "get_inventory_target (t_world st) (part_id (s_recipient s)) = Some cr"
    "ci \<noteq> cr \<Longrightarrow> holding w ci (to_game_id j) = holding (t_world st) ci (to_game_id j) + gain s j"
    "ci \<noteq> cr \<Longrightarrow> holding w cr (to_game_id j) = holding (t_world st) cr (to_game_id j) - gain s j"
proof -
  from moved obtain p a where a: "map_of (t_applications st) sid = Some a"
    and s: "find_session st sid = Some s" and w: "commit_mutation_plan (a_plan a) (t_world st) = Some w"
    by (auto simp: moves_items_def split: option.splits)
  have "application_of s a"
    using slot_wf_application(2) slot_of_session [OF inv s] a by metis
  then have aof: "pm_player (mp_initiator (a_plan a)) = part_id (s_initiator s)"
    "pm_player (mp_recipient (a_plan a)) = part_id (s_recipient s)"
    "delta_of (pm_mutations (mp_initiator (a_plan a))) j = gain s j"
    "delta_of (pm_mutations (mp_recipient (a_plan a))) j = - gain s j"
    by (simp_all add: application_of_def)
  from commit_targets [OF w] aof obtain ci cr where
    t: "get_inventory_target (t_world st) (part_id (s_initiator s)) = Some ci"
      "get_inventory_target (t_world st) (part_id (s_recipient s)) = Some cr" by auto
  with aof commit_effect(1,2) [OF w, of ci cr j] show ?thesis by (intro that) simp_all
qed

section \<open>Handlers return\<close>

text \<open>
  The only loops without a bound of their own are the identifier allocators, and they end while
  fewer than \<open>2 ^ 64 - 1\<close> sessions are stored.
\<close>

definition room :: "TradeService \<Rightarrow> bool" where
  "room st \<longleftrightarrow> card (dom (map_of (t_sessions st))) < 2 ^ 64 - 1"

lemma room_mono: "room st \<Longrightarrow> dom (map_of (t_sessions st')) \<subseteq> dom (map_of (t_sessions st)) \<Longrightarrow> room st'"
  unfolding room_def by (meson card_mono finite_dom_map_of le_less_trans)

lemma room_sweep [simp]: "room (st\<lparr>t_next_sweep := k\<rparr>) = room st"
  by (simp add: room_def)

lemma stored_ids_le:
  assumes inv: "trade_inv st"
  shows "card (a_id ` snd ` set (t_applications st)) \<le> card (dom (map_of (t_sessions st)))"
    and "card (r_id ` snd ` set (t_reconciliations st)) \<le> card (dom (map_of (t_sessions st)))"
proof -
  have slot: "slot_ok st sid" for sid using inv by (simp add: trade_inv_def)
  have apps: "dom (map_of (t_applications st)) \<subseteq> dom (map_of (t_sessions st))"
    and recs: "dom (map_of (t_reconciliations st)) \<subseteq> dom (map_of (t_sessions st))"
    using slot by (force simp: slot_ok_def split: option.splits)+
  have le: "card (f ` snd ` set m) \<le> card (dom (map_of m))"
    if "distinct (map fst m)" for f :: "'x \<Rightarrow> 'y" and m :: "(u64 \<times> 'x) list"
  proof -
    have "card (f ` snd ` set m) \<le> card (set m)"
      by (metis List.finite_set card_image_le finite_imageI order_trans)
    also have "card (set m) = card (dom (map_of m))"
      using that by (simp add: dom_map_of_conv_image_fst card_image distinct_map)
    finally show ?thesis .
  qed
  show "card (a_id ` snd ` set (t_applications st)) \<le> card (dom (map_of (t_sessions st)))"
    and "card (r_id ` snd ` set (t_reconciliations st)) \<le> card (dom (map_of (t_sessions st)))"
    using le [of "t_applications st" a_id] le [of "t_reconciliations st" r_id] inv
      card_mono [OF finite_dom_map_of apps] card_mono [OF finite_dom_map_of recs]
    by (auto simp: trade_inv_def keys_ok_def)
qed

lemma allocators_return:
  assumes inv: "trade_inv st" and room: "room st"
  shows "allocate_session_id st \<noteq> None"
    and "t_applications st1 = t_applications st \<Longrightarrow> allocate_apply_id st1 \<noteq> None"
    and "t_reconciliations st1 = t_reconciliations st \<Longrightarrow> allocate_reconcile_id st1 \<noteq> None"
proof -
  obtain i where "i \<noteq> 0" "i \<notin> dom (map_of (t_sessions st))"
    by (rule fresh_id_exists [of "dom (map_of (t_sessions st))"])
      (use room in \<open>simp_all add: room_def finite_dom_map_of\<close>)
  then show "allocate_session_id st \<noteq> None"
    using alloc_id_returns [of i "\<lambda>i. map_of (t_sessions st) i \<noteq> None" "t_next_session_id st"]
    by (simp add: allocate_session_id_def domIff)
  have lt: "card U < 2 ^ 64 - 1" if "card U \<le> card (dom (map_of (t_sessions st)))" for U :: "u64 set"
    using that room by (simp add: room_def)
  obtain j where "j \<noteq> 0" "j \<notin> a_id ` snd ` set (t_applications st)"
    by (rule fresh_id_exists [OF _ lt [OF stored_ids_le(1) [OF inv]]]) simp_all
  then have "j \<noteq> 0" and free_j: "\<not> list_ex (\<lambda>(sid, a). a_id a = j) (t_applications st)"
    by (auto simp: list_ex_iff image_iff)
  then show "allocate_apply_id st1 \<noteq> None" if "t_applications st1 = t_applications st"
    using alloc_id_returns [of j "\<lambda>i. list_ex (\<lambda>(sid, a). a_id a = i) (t_applications st)", OF _ free_j] that
    by (simp add: allocate_apply_id_def)
  obtain k where "k \<noteq> 0" "k \<notin> r_id ` snd ` set (t_reconciliations st)"
    by (rule fresh_id_exists [OF _ lt [OF stored_ids_le(2) [OF inv]]]) simp_all
  then have "k \<noteq> 0" and free_k: "\<not> list_ex (\<lambda>(sid, r). r_id r = k) (t_reconciliations st)"
    by (auto simp: list_ex_iff image_iff)
  then show "allocate_reconcile_id st1 \<noteq> None" if "t_reconciliations st1 = t_reconciliations st"
    using alloc_id_returns [of k "\<lambda>i. list_ex (\<lambda>(sid, r). r_id r = i) (t_reconciliations st)", OF _ free_k] that
    by (simp add: allocate_reconcile_id_def)
qed

lemma begin_reconciliation_returns:
  "allocate_reconcile_id st \<noteq> None \<Longrightarrow> begin_reconciliation s a now u g st \<noteq> None"
  by (auto simp: begin_reconciliation_def start_reconciliation_def split_beta
      split: option.splits sum.splits)

lemma begin_application_returns:
  "allocate_apply_id st \<noteq> None \<Longrightarrow> begin_application sid s plan now st \<noteq> None"
  by (auto simp: begin_application_def split_beta split: option.splits sum.splits)

lemma start_reconciliation_sessions:
  "start_reconciliation s plan now u g st = Some st' \<Longrightarrow> t_sessions st' = t_sessions st"
  by (auto simp: start_reconciliation_def split_beta allocate_reconcile_id_def schedule_terminal_cleanup_def
      split: option.splits if_splits)

lemma begin_reconciliation_sessions:
  "begin_reconciliation s a now u g st = Some st' \<Longrightarrow> t_sessions st' = t_sessions st"
  by (auto simp: begin_reconciliation_def schedule_terminal_cleanup_def
      dest: start_reconciliation_sessions split: option.splits sum.splits if_splits)

lemma time_out_application_dom:
  "time_out_application now sid st = Some st' \<Longrightarrow>
     dom (map_of (t_sessions st')) = dom (map_of (t_sessions st))"
  by (auto simp: time_out_application_def find_session_def dest!: begin_reconciliation_sessions
      split: option.splits if_splits)

lemma time_out_application_returns:
  "trade_inv st \<Longrightarrow> room st \<Longrightarrow> time_out_application now sid st \<noteq> None"
  using begin_reconciliation_returns allocators_return(3)
  by (auto simp: time_out_application_def split: option.splits)

lemma time_out_applications_return:
  "trade_inv st \<Longrightarrow> room st \<Longrightarrow> time_out_applications now sids st \<noteq> None"
proof (induction sids arbitrary: st)
  case (Cons sid sids)
  obtain st1 where st1: "time_out_application now sid st = Some st1"
    using time_out_application_returns [OF Cons.prems, of now sid] by blast
  have "trade_inv st1" "room st1"
    using time_out_application_inv [OF Cons.prems(1) st1]
      room_mono [OF Cons.prems(2), of st1] time_out_application_dom [OF st1] by auto
  with Cons.IH [of st1] st1 show ?case by simp
qed simp

lemma expire_invitation_dom:
  "dom (map_of (t_sessions (expire_invitation now sid st))) \<subseteq> dom (map_of (t_sessions st))"
  by (auto simp: expire_invitation_def remove_session_def find_session_def al_simps split_beta
      split: option.splits if_splits)

lemma on_update_returns:
  assumes "trade_inv st" and "room st"
  shows "on_update now st \<noteq> None"
proof (cases "now < t_next_sweep st")
  case False
  let ?st = "st\<lparr>t_next_sweep := now + kExpirySweepIntervalMs\<rparr>"
  let ?st1 = "fold (expire_invitation now) (expired_invitations now ?st) ?st"
  have "trade_inv ?st1 \<and> room ?st1"
    by (rule fold_inv [where P = "\<lambda>st. trade_inv st \<and> room st"])
      (use assms in \<open>auto intro: expire_invitation_inv room_mono [OF _ expire_invitation_dom]\<close>)
  then have "time_out_applications now (timed_out_applications now ?st) ?st1 \<noteq> None"
    by (intro time_out_applications_return) simp_all
  with False show ?thesis by (simp add: on_update_def)
qed (simp add: on_update_def)

lemma trade_step_returns:
  assumes inv: "trade_inv st" and room: "room st"
  shows "trade_step now later ev st \<noteq> None"
proof (cases ev)
  case (InviteRequest p q)
  show ?thesis
    using InviteRequest allocators_return(1) [OF inv room]
    by (auto simp: on_trade_invite_request_def split_beta split: option.splits)
next
  case (ConfirmRequest p sid r)
  then show ?thesis
    using begin_application_returns allocators_return(2) [OF inv room]
    by (auto simp: on_trade_confirm_request_def split_beta split: option.splits sum.splits)
next
  case (ApplyResult p sid r i c v)
  then show ?thesis
    using begin_reconciliation_returns allocators_return(3) [OF inv room]
    by (auto simp: on_trade_apply_result_request_def after_apply_result_def split_beta
        put_application_def split: option.splits)
next
  case (PlayerLeave p)
  then show ?thesis
    using begin_reconciliation_returns allocators_return(3) [OF inv room]
    by (auto simp: on_player_leave_def split_beta split: option.splits)
next
  case Update
  then show ?thesis using on_update_returns [OF inv room] by simp
qed simp_all

section \<open>What stays as it was\<close>

text \<open>What is stored under one identifier, but for the players indexed to it.\<close>

definition stored ::
  "TradeService \<Rightarrow> SessionId \<Rightarrow> Session option \<times> Application option \<times> Reconciliation option \<times> Tick option" where
  "stored st sid = (map_of (t_sessions st) sid, map_of (t_applications st) sid,
     map_of (t_reconciliations st) sid, map_of (t_cleanup_ticks st) sid)"

lemma stored_same_store: "same_store st st' \<Longrightarrow> stored st' sid = stored st sid"
  by (simp add: same_store_def stored_def)

lemma stored_parts [simp]:
  "stored (remove_session j st) sid = (if sid = j then (None, None, None, None) else stored st sid)"
  "j \<noteq> sid \<Longrightarrow> stored (schedule_terminal_cleanup j now st) sid = stored st sid"
  "j \<noteq> sid \<Longrightarrow> stored (put_session j s st) sid = stored st sid"
  "j \<noteq> sid \<Longrightarrow> stored (time_out_reconciliation now j st) sid = stored st sid"
  "stored (st\<lparr>t_next_sweep := k\<rparr>) sid = stored st sid"
  by (simp_all add: stored_def remove_session_def schedule_terminal_cleanup_def put_session_def al_simps
      time_out_reconciliation_def)

lemmas stored_send [simp] = same_store_send [THEN stored_same_store]

lemma start_reconciliation_stored:
  "start_reconciliation s plan now u g st = Some st' \<Longrightarrow> s_id s \<noteq> sid \<Longrightarrow> stored st' sid = stored st sid"
  by (auto simp: start_reconciliation_def split_beta allocate_reconcile_id_def try_emplace_def stored_def
      schedule_terminal_cleanup_def al_simps split: option.splits if_splits)

lemma begin_reconciliation_stored:
  "begin_reconciliation s a now u g st = Some st' \<Longrightarrow> s_id s \<noteq> sid \<Longrightarrow> stored st' sid = stored st sid"
  by (auto simp: begin_reconciliation_def dest: start_reconciliation_stored
      split: option.splits sum.splits if_splits)

lemma time_out_application_stored:
  assumes inv: "trade_inv st" and "time_out_application now j st = Some st'" and "j \<noteq> sid"
  shows "stored st' sid = stored st sid"
proof (cases "find_session st j")
  case (Some s)
  have "s_id s = j" "s_id (fst (fail ApplyTimedOut now s)) = j"
    using slot_of_session [OF inv Some] advances_identity(1) [OF advances_by(5)] by (simp_all add: slot_wf_def)
  with assms(2,3) Some show ?thesis
    by (auto simp: time_out_application_def dest: begin_reconciliation_stored split: option.splits if_splits)
qed (use assms in \<open>simp add: time_out_application_def\<close>)

lemma time_out_applications_stored:
  "time_out_applications now js st = Some st' \<Longrightarrow> trade_inv st \<Longrightarrow> sid \<notin> set js \<Longrightarrow> stored st' sid = stored st sid"
proof (induction js arbitrary: st)
  case (Cons j js)
  then obtain st1 where st1: "time_out_application now j st = Some st1"
    "time_out_applications now js st1 = Some st'" by (auto split: option.splits)
  with Cons time_out_application_inv [OF _ st1(1)] time_out_application_stored [OF _ st1(1), of sid]
  show ?case by auto
qed simp

lemma expire_invitation_stored [simp]:
  "stored (expire_invitation now j st) sid = (if sid = j \<and> find_session st j \<noteq> None
     then (None, None, None, None) else stored st sid)"
  by (auto simp: expire_invitation_def split_beta split: option.splits)

lemma fold_stored:
  assumes "\<And>j st. j \<noteq> sid \<Longrightarrow> stored (f j st) sid = stored st sid"
  shows "sid \<notin> set js \<Longrightarrow> stored (fold f js st) sid = stored st sid"
  by (induction js arbitrary: st) (auto simp: assms)

lemma find_session_stored: "find_session st sid = fst (stored st sid)"
  by (simp add: find_session_def stored_def)

lemma fold_remove: "sid \<in> set js \<Longrightarrow> stored (fold remove_session js st) sid = (None, None, None, None)"
proof (induction js arbitrary: st)
  case (Cons j js)
  show ?case
  proof (cases "sid \<in> set js")
    case False
    then have "stored (fold remove_session js (remove_session j st)) sid = stored (remove_session j st) sid"
      by (intro fold_stored) simp_all
    with False Cons.prems show ?thesis by simp
  qed (simp add: Cons.IH)
qed simp

section \<open>The sweep\<close>

text \<open>The states between the four loops of the sweep.\<close>

lemma on_update_cases:
  assumes "on_update now st = Some st'" and "\<not> now < t_next_sweep st" and inv: "trade_inv st"
  obtains st1 st2 st3 where
    "st1 = fold (expire_invitation now) (expired_invitations now st) (st\<lparr>t_next_sweep := now + kExpirySweepIntervalMs\<rparr>)"
    "time_out_applications now (timed_out_applications now st) st1 = Some st2"
    "st3 = fold (time_out_reconciliation now) (timed_out_reconciliations now st) st2"
    "st' = fold remove_session (cleanup_sessions now st) st3"
    "trade_inv st1" "trade_inv st2" "trade_inv st3"
proof -
  let ?st = "st\<lparr>t_next_sweep := now + kExpirySweepIntervalMs\<rparr>"
  have lists: "expired_invitations now ?st = expired_invitations now st"
    "timed_out_applications now ?st = timed_out_applications now st"
    "timed_out_reconciliations now ?st = timed_out_reconciliations now st"
    "cleanup_sessions now ?st = cleanup_sessions now st"
    by (simp_all add: expired_invitations_def timed_out_applications_def timed_out_reconciliations_def
        cleanup_sessions_def)
  from assms(1,2) obtain st2 where
    mid: "time_out_applications now (timed_out_applications now st)
       (fold (expire_invitation now) (expired_invitations now st) ?st) = Some st2"
    and st': "st' = fold remove_session (cleanup_sessions now st)
       (fold (time_out_reconciliation now) (timed_out_reconciliations now st) st2)"
    by (auto simp: on_update_def lists)
  have 1: "trade_inv (fold (expire_invitation now) (expired_invitations now st) ?st)"
    using inv by (intro fold_inv [where P = trade_inv] expire_invitation_inv) simp_all
  have 2: "trade_inv st2" by (rule time_out_applications_inv [OF mid 1])
  have 3: "trade_inv (fold (time_out_reconciliation now) (timed_out_reconciliations now st) st2)"
    by (intro fold_inv [where P = trade_inv] time_out_reconciliation_inv 2)
  from that [OF refl mid refl st' 1 2 3] show ?thesis .
qed

lemma keys_distinct:
  assumes "trade_inv st"
  shows "distinct (map fst (t_sessions st))" and "distinct (map fst (t_applications st))"
    and "distinct (map fst (t_reconciliations st))" and "distinct (map fst (t_cleanup_ticks st))"
  using assms by (simp_all add: trade_inv_def keys_ok_def)

lemma sweep_lists:
  assumes "trade_inv st"
  shows "sid \<in> set (expired_invitations now st) \<longleftrightarrow>
      (\<exists>s. find_session st sid = Some s \<and> s_state s = PendingAcceptance \<and> s_expiry s \<le> now)"
    and "sid \<in> set (timed_out_applications now st) \<longleftrightarrow>
      map_of (t_reconciliations st) sid = None \<and>
      (\<exists>a. map_of (t_applications st) sid = Some a \<and> app_is_timed_out a now)"
    and "sid \<in> set (timed_out_reconciliations now st) \<longleftrightarrow>
      (\<exists>r. map_of (t_reconciliations st) sid = Some r \<and> rec_is_timed_out r now)"
    and "sid \<in> set (cleanup_sessions now st) \<longleftrightarrow>
      (\<exists>t. map_of (t_cleanup_ticks st) sid = Some t \<and> t \<le> now)"
  using keys_distinct [OF assms]
  by (force simp: expired_invitations_def timed_out_applications_def timed_out_reconciliations_def
      cleanup_sessions_def find_session_def map_of_eq_Some_iff)+

end
