(* ===== verification/TradeGuarantees.thy ===== *)
theory TradeGuarantees
  imports TradeFrames
begin

text \<open>
  What the trade service guarantees to the rest of the server, derived from its invariant: no
  player is in two open trades, handlers return, the sweep closes what is due, a leaving player leaves no open trade behind. Two theorems show where
  the service does not do what it means to: a repeated success report executes a trade again, and
  a reconciliation that timed out is never removed while the server keeps sweeping.
\<close>

section \<open>What the sweep closes\<close>

lemma fold_remove_stored:
  "stored (fold remove_session js st) sid = (if sid \<in> set js then (None, None, None, None) else stored st sid)"
  by (simp add: fold_remove fold_stored)

lemma fold_expire_stored:
  "stored (fold (expire_invitation now) js st) sid =
     (if sid \<in> set js \<and> find_session st sid \<noteq> None then (None, None, None, None) else stored st sid)"
proof (induction js arbitrary: st)
  case (Cons j js)
  then show ?case by (auto simp: find_session_stored)
qed simp

lemma time_out_reconciliation_sessions:
  "t_sessions (time_out_reconciliation now j st) = t_sessions st"
  "t_applications (time_out_reconciliation now j st) = t_applications st"
  "t_reconciliations (time_out_reconciliation now j st) = t_reconciliations st"
  by (simp_all add: time_out_reconciliation_def schedule_terminal_cleanup_def)

lemma fold_time_out_reconciliation:
  "t_sessions (fold (time_out_reconciliation now) js st) = t_sessions st"
  "t_applications (fold (time_out_reconciliation now) js st) = t_applications st"
  "t_reconciliations (fold (time_out_reconciliation now) js st) = t_reconciliations st"
  by (induction js arbitrary: st) (simp_all add: time_out_reconciliation_sessions)

lemma start_reconciliation_applications:
  "start_reconciliation s plan now u g st = Some st' \<Longrightarrow> t_applications st' = t_applications st"
  by (auto simp: start_reconciliation_def split_beta allocate_reconcile_id_def schedule_terminal_cleanup_def
      split: option.splits if_splits)

lemma begin_reconciliation_applications:
  "begin_reconciliation s a now u g st = Some st' \<Longrightarrow> t_applications st' = t_applications st"
  by (auto simp: begin_reconciliation_def schedule_terminal_cleanup_def
      dest: start_reconciliation_applications split: option.splits sum.splits if_splits)

lemma fail_terminal: "e \<noteq> NoError \<Longrightarrow> is_terminal (fst (fail e now s))"
  by (auto simp: fail_def is_terminal_def)

text \<open>A session that is open after the application loop was not touched by it.\<close>

lemma time_out_application_open:
  assumes inv: "trade_inv st" and step: "time_out_application now j st = Some st'"
    and "find_session st' sid = Some s" and "\<not> is_terminal s"
  shows "find_session st sid = Some s \<and> map_of (t_applications st') sid = map_of (t_applications st) sid \<and>
     (j = sid \<longrightarrow> map_of (t_applications st) sid = None)"
proof (cases "j = sid")
  case False
  with time_out_application_stored [OF inv step, of sid] assms(3) show ?thesis
    by (simp add: find_session_def stored_def)
next
  case True
  show ?thesis
  proof (cases "find_session st j = None \<or> map_of (t_applications st) j = None")
    case None: True
    with step True assms(3) show ?thesis by (auto simp: time_out_application_def split: option.splits)
  next
    case False
    then obtain s0 a where s0: "find_session st j = Some s0" and a: "map_of (t_applications st) j = Some a"
      by auto
    let ?s = "if is_terminal s0 then s0 else fst (fail ApplyTimedOut now s0)"
    have "t_sessions st' = t_sessions st \<and> is_terminal s0 \<or>
        t_sessions st' = t_sessions (put_session j (fst (fail ApplyTimedOut now s0)) st)"
      using step s0 a by (auto simp: time_out_application_def dest: begin_reconciliation_sessions split: if_splits)
    then have "is_terminal s"
      using s0 assms(3) True fail_terminal [of ApplyTimedOut now s0] by (auto simp: find_session_def)
    with assms(4) show ?thesis by simp
  qed
qed

lemma time_out_applications_open:
  "time_out_applications now js st = Some st' \<Longrightarrow> trade_inv st \<Longrightarrow> find_session st' sid = Some s \<Longrightarrow>
     \<not> is_terminal s \<Longrightarrow>
     find_session st sid = Some s \<and> map_of (t_applications st') sid = map_of (t_applications st) sid \<and>
     (sid \<in> set js \<longrightarrow> map_of (t_applications st) sid = None)"
proof (induction js arbitrary: st)
  case (Cons j js)
  then obtain st1 where st1: "time_out_application now j st = Some st1"
    "time_out_applications now js st1 = Some st'" by (auto split: option.splits)
  have rest: "find_session st1 sid = Some s \<and> map_of (t_applications st') sid = map_of (t_applications st1) sid \<and>
     (sid \<in> set js \<longrightarrow> map_of (t_applications st1) sid = None)"
    using Cons.IH [OF st1(2) time_out_application_inv [OF Cons.prems(2) st1(1)]] Cons.prems by simp
  with time_out_application_open [OF Cons.prems(2) st1(1), of sid s] Cons.prems(4) show ?case by auto
qed simp

lemma sweep_open_sessions:
  assumes inv: "trade_inv st" and "\<not> now < t_next_sweep st" and step: "on_update now st = Some st'"
    and s: "find_session st' sid = Some s" and open': "\<not> is_terminal s"
  shows "find_session st sid = Some s \<and> map_of (t_applications st') sid = map_of (t_applications st) sid \<and>
     sid \<notin> set (expired_invitations now st) \<and>
     (sid \<in> set (timed_out_applications now st) \<longrightarrow> map_of (t_applications st) sid = None)"
proof -
  from step assms(2) inv obtain st1 st2 st3 where
    st1: "st1 = fold (expire_invitation now) (expired_invitations now st) (st\<lparr>t_next_sweep := now + kExpirySweepIntervalMs\<rparr>)"
    and st2: "time_out_applications now (timed_out_applications now st) st1 = Some st2"
    and st3: "st3 = fold (time_out_reconciliation now) (timed_out_reconciliations now st) st2"
    and st': "st' = fold remove_session (cleanup_sessions now st) st3"
    and invs: "trade_inv st1" "trade_inv st2" by (rule on_update_cases)
  have "stored st' sid = stored st3 sid"
    using s by (simp add: st' fold_remove_stored find_session_stored split: if_splits)
  moreover have "find_session st3 sid = find_session st2 sid" "t_applications st3 = t_applications st2"
    by (simp_all add: st3 find_session_def fold_time_out_reconciliation)
  ultimately have two: "find_session st2 sid = Some s"
    "map_of (t_applications st') sid = map_of (t_applications st2) sid"
    using s by (simp_all add: find_session_stored stored_def)
  note one = time_out_applications_open [OF st2 invs(1) two(1) open']
  then have "find_session st1 sid = Some s" by simp
  then have zero: "stored st1 sid = stored st sid" "sid \<notin> set (expired_invitations now st)"
    by (auto simp: st1 fold_expire_stored find_session_stored split: if_splits)
  with one two show ?thesis by (simp add: find_session_stored stored_def)
qed

section \<open>Who stays indexed\<close>

definition index_shrinks :: "TradeService \<Rightarrow> TradeService \<Rightarrow> bool" where
  "index_shrinks st st' \<longleftrightarrow> (\<forall>j p. indexed st' j p \<longrightarrow> indexed st j p)"

lemma index_shrinks_refl: "t_player_sessions st' = t_player_sessions st \<Longrightarrow> index_shrinks st st'"
  by (simp add: index_shrinks_def indexed_def)

lemma index_shrinks_release: "index_shrinks st (release_session_participants sid st)"
  by (auto simp: index_shrinks_def release_session_participants_def release_player_indexed
      split: option.splits)

lemma index_shrinks_parts:
  "index_shrinks st (remove_session sid st)" "index_shrinks st (schedule_terminal_cleanup sid now st)"
  using index_shrinks_release [of st sid]
  by (simp_all add: index_shrinks_def remove_session_def schedule_terminal_cleanup_def indexed_def)

lemma index_shrinks_trans: "index_shrinks st st1 \<Longrightarrow> index_shrinks st1 st2 \<Longrightarrow> index_shrinks st st2"
  by (simp add: index_shrinks_def)

lemma start_reconciliation_index:
  assumes "start_reconciliation s plan now u g st = Some st'"
  shows "index_shrinks st st'"
proof -
  have sched: "t_player_sessions x = t_player_sessions st \<Longrightarrow> index_shrinks st (schedule_terminal_cleanup j now x)" for x j
    using index_shrinks_parts(2) [of x j now] by (simp add: index_shrinks_def indexed_def)
  show ?thesis
    using assms
    by (auto simp: start_reconciliation_def split_beta allocate_reconcile_id_def
        intro: sched index_shrinks_refl split: option.splits if_splits)
qed

lemma begin_reconciliation_index:
  "begin_reconciliation s a now u g st = Some st' \<Longrightarrow> index_shrinks st st'"
  by (auto simp: begin_reconciliation_def index_shrinks_parts dest: start_reconciliation_index
      intro: index_shrinks_refl split: option.splits sum.splits if_splits)

lemma on_player_leave_closes:
  assumes inv: "trade_inv st" and step: "on_player_leave (Some p) now st = Some st'"
    and s: "find_session st' sid = Some s" and member: "is_participant s p"
  shows "is_terminal s"
proof (rule ccontr)
  assume open': "\<not> is_terminal s"
  have inv': "trade_inv st'" by (rule on_player_leave_inv [OF inv step])
  from slot_of_session [OF inv' s] open' member have ix: "indexed st' sid p"
    by (cases "s_state s") (auto simp: slot_wf_def is_terminal_def)
  have shrinks: "index_shrinks st st'" if "index_shrinks x st'" "t_player_sessions x = t_player_sessions st" for x
    using that by (simp add: index_shrinks_def indexed_def)
  obtain j where j: "map_of (t_player_sessions st) p = Some j"
    using ix step by (cases "map_of (t_player_sessions st) p") (auto simp: on_player_leave_def indexed_def)
  then obtain s0 where s0: "find_session st j = Some s0"
    using fits_of_inv [OF inv, of j] by (auto simp: index_fits_def find_session_def indexed_def)
  note slot = slot_of_session [OF inv s0]
  have "index_shrinks st st' \<and> (\<forall>s'. find_session st' j = Some s' \<longrightarrow> is_terminal s')"
  proof (cases "map_of (t_reconciliations st) j")
    case (Some rc)
    then have "is_terminal s0" using slot by (cases "s_state s0") (simp_all add: slot_wf_def is_terminal_def)
    moreover have "t_sessions st' = t_sessions st"
      using step j s0 Some
      by (auto simp: on_player_leave_def schedule_terminal_cleanup_def put_reconciliation_def split: if_splits)
    moreover have "index_shrinks st st'"
      using step j s0 Some index_shrinks_parts(2) [of "put_reconciliation j (fst (rec_mark_unavailable p now rc)) st" j now]
      by (auto simp: on_player_leave_def put_reconciliation_def index_shrinks_def indexed_def split: if_splits)
    ultimately show ?thesis using s0 by (simp add: find_session_def)
  next
    case None
    show ?thesis
    proof (cases "s_state s0 = Applying")
      case True
      then obtain a where a: "map_of (t_applications st) j = Some a" using slot by (auto simp: slot_wf_def)
      let ?s = "fst (fail ParticipantDisconnected now s0)"
      have started: "begin_reconciliation ?s a now p (Some p) (send_state ?s None (put_session j ?s st)) = Some st'"
        using step j s0 None True a by (simp add: on_player_leave_def)
      then have "map_of (t_sessions st') j = Some ?s" by (simp add: begin_reconciliation_sessions)
      moreover have "is_terminal ?s" by (rule fail_terminal) simp
      moreover have "index_shrinks st st'"
        using begin_reconciliation_index [OF started] by (rule shrinks) simp
      ultimately show ?thesis by (simp add: find_session_def)
    next
      case False
      show ?thesis
      proof (cases "succeeded (snd (cancel p now s0))")
        case True
        then have st': "st' = remove_session j (send_cancelled (fst (cancel p now s0)) PlayerDisconnected p (Some p)
            (put_session j (fst (cancel p now s0)) st))"
          using step j s0 None False by (simp add: on_player_leave_def split_beta)
        moreover have "index_shrinks st st'"
          unfolding st' by (rule shrinks [unfolded st', OF index_shrinks_parts(1)]) simp
        ultimately show ?thesis by (simp add: find_session_stored)
      next
        case unsuccessful: False
        then have st': "st' = put_session j (fst (cancel p now s0)) st" and same: "fst (cancel p now s0) = s0"
          using step j s0 None False by (auto simp: on_player_leave_def split_beta cancel_def)
        have "is_terminal s0"
          using unsuccessful slot False j
          by (cases "s_state s0") (auto simp: cancel_def slot_wf_def indexed_def is_terminal_def split: if_splits)
        with st' same show ?thesis by (simp add: find_session_def index_shrinks_refl)
      qed
    qed
  qed
  with ix j s open' show False by (auto simp: index_shrinks_def indexed_def)
qed

section \<open>A reconciliation that timed out\<close>

lemma fold_time_out_reconciliation_stored:
  "sid \<notin> set js \<Longrightarrow> stored (fold (time_out_reconciliation now) js st) sid = stored st sid"
  by (intro fold_stored) simp

lemma schedule_tick: "map_of (t_cleanup_ticks (schedule_terminal_cleanup sid now st)) sid = Some (now + kTerminalRetentionMs)"
  by (simp add: schedule_terminal_cleanup_def al_simps)

lemma fold_time_out_reconciliation_tick:
  assumes "sid \<in> set js" and "map_of (t_reconciliations st) sid \<noteq> None"
  shows "map_of (t_cleanup_ticks (fold (time_out_reconciliation now) js st)) sid = Some (now + kTerminalRetentionMs)"
  using assms
proof (induction js arbitrary: st)
  case (Cons j js)
  have rec: "map_of (t_reconciliations (time_out_reconciliation now j st)) sid \<noteq> None"
    using Cons.prems(2) by (simp add: time_out_reconciliation_sessions)
  show ?case
  proof (cases "sid \<in> set js")
    case True
    with Cons.IH rec show ?thesis by simp
  next
    case False
    have "stored (fold (time_out_reconciliation now) js (time_out_reconciliation now j st)) sid =
        stored (time_out_reconciliation now j st) sid"
      by (rule fold_time_out_reconciliation_stored [OF False])
    moreover have "sid = j" using False Cons.prems(1) by simp
    moreover have "time_out_reconciliation now sid st = schedule_terminal_cleanup sid now st"
      using Cons.prems(2) by (auto simp: time_out_reconciliation_def)
    ultimately show ?thesis using schedule_tick [of sid now st] by (simp add: stored_def)
  qed
qed simp

lemma sweep_keeps_timed_out:
  assumes inv: "trade_inv st" and "\<not> now < t_next_sweep st" and step: "on_update now st = Some st'"
    and r: "map_of (t_reconciliations st) sid = Some r" "rec_is_timed_out r now"
    and tick: "\<And>t. map_of (t_cleanup_ticks st) sid = Some t \<Longrightarrow> now < t"
  shows "find_session st' sid = find_session st sid" and "map_of (t_reconciliations st') sid = Some r"
    and "map_of (t_cleanup_ticks st') sid = Some (now + kTerminalRetentionMs)"
proof -
  from step assms(2) inv obtain st1 st2 st3 where
    st1: "st1 = fold (expire_invitation now) (expired_invitations now st) (st\<lparr>t_next_sweep := now + kExpirySweepIntervalMs\<rparr>)"
    and st2: "time_out_applications now (timed_out_applications now st) st1 = Some st2"
    and st3: "st3 = fold (time_out_reconciliation now) (timed_out_reconciliations now st) st2"
    and st': "st' = fold remove_session (cleanup_sessions now st) st3"
    and invs: "trade_inv st1" "trade_inv st2" by (rule on_update_cases)
  have "slot_ok st sid" using inv by (simp add: trade_inv_def)
  with r obtain s where s: "find_session st sid = Some s"
    by (auto simp: slot_ok_def find_session_def split: option.splits)
  have "s_state s \<noteq> PendingAcceptance"
    using slot_of_session [OF inv s] r by (auto simp: slot_wf_def)
  then have "sid \<notin> set (expired_invitations now st)" using s by (simp add: sweep_lists(1) [OF inv])
  then have one: "stored st1 sid = stored st sid" by (simp add: st1 fold_expire_stored)
  have "sid \<notin> set (timed_out_applications now st)" using r by (simp add: sweep_lists(2) [OF inv])
  then have two: "stored st2 sid = stored st sid"
    using time_out_applications_stored [OF st2 invs(1)] one by simp
  have "sid \<in> set (timed_out_reconciliations now st)" using r by (simp add: sweep_lists(3) [OF inv])
  moreover have "map_of (t_reconciliations st2) sid = Some r" using two r by (simp add: stored_def)
  ultimately have "map_of (t_cleanup_ticks st3) sid = Some (now + kTerminalRetentionMs)"
    unfolding st3 by (intro fold_time_out_reconciliation_tick) simp_all
  moreover have "map_of (t_sessions st3) sid = map_of (t_sessions st) sid"
    "map_of (t_reconciliations st3) sid = Some r"
    using two r by (simp_all add: st3 fold_time_out_reconciliation stored_def)
  ultimately have three: "map_of (t_cleanup_ticks st3) sid = Some (now + kTerminalRetentionMs)"
    "map_of (t_sessions st3) sid = map_of (t_sessions st) sid" "map_of (t_reconciliations st3) sid = Some r"
    by simp_all
  have "sid \<notin> set (cleanup_sessions now st)" using tick by (force simp: sweep_lists(4) [OF inv])
  then have "stored st' sid = stored st3 sid" by (simp add: st' fold_remove_stored)
  with three show "find_session st' sid = find_session st sid" and "map_of (t_reconciliations st') sid = Some r"
    and "map_of (t_cleanup_ticks st') sid = Some (now + kTerminalRetentionMs)"
    by (simp_all add: stored_def find_session_def)
qed

lemma sweep_removes_due:
  assumes inv: "trade_inv st" and due: "\<not> now < t_next_sweep st" and step: "on_update now st = Some st'"
    and "map_of (t_cleanup_ticks st) sid = Some t" and "t \<le> now"
  shows "find_session st' sid = None"
proof -
  have "sid \<in> set (cleanup_sessions now st)" using assms(4,5) by (auto simp: sweep_lists(4) [OF inv])
  with step due inv show ?thesis
    by (elim on_update_cases) (auto simp: find_session_stored fold_remove_stored)
qed

lemma sweep_applies_in_time:
  assumes inv: "trade_inv st" and due: "\<not> now < t_next_sweep st" and step: "on_update now st = Some st'"
    and s: "find_session st' sid = Some s" "s_state s = Applying" "map_of (t_applications st') sid = Some a"
  shows "\<not> app_is_timed_out a now"
proof -
  from sweep_open_sessions [OF inv due step s(1)] s have "find_session st sid = Some s"
    and a: "map_of (t_applications st) sid = Some a" and notin: "sid \<notin> set (timed_out_applications now st)"
    by (auto simp: is_terminal_def)
  then have "map_of (t_reconciliations st) sid = None"
    using slot_of_session [OF inv] s(2) by (fastforce simp: slot_wf_def)
  with a notin show ?thesis by (auto simp: sweep_lists(2) [OF inv])
qed

text \<open>A session that is gone, or is scheduled for its clean-up, holds no player.\<close>

lemma unindexed_slot:
  assumes "trade_inv st" and "find_session st sid = None \<or> map_of (t_cleanup_ticks st) sid \<noteq> None"
  shows "\<not> indexed st sid p"
proof (cases "find_session st sid")
  case None
  then show ?thesis using assms(1) by (auto simp: trade_inv_def slot_ok_def find_session_def dest: spec [of _ sid])
next
  case (Some s)
  with slot_of_session [OF assms(1) Some] assms(2) show ?thesis by (auto simp: slot_wf_def)
qed

lemma sweep_releases_timed_out:
  assumes inv: "trade_inv st" and due: "\<not> now < t_next_sweep st" and step: "on_update now st = Some st'"
    and r: "map_of (t_reconciliations st) sid = Some r" "rec_is_timed_out r now"
  shows "(\<forall>p. \<not> indexed st' sid p) \<and>
     (find_session st' sid = None \<or> map_of (t_cleanup_ticks st') sid = Some (now + kTerminalRetentionMs))"
proof -
  have "find_session st' sid = None \<or> map_of (t_cleanup_ticks st') sid = Some (now + kTerminalRetentionMs)"
  proof (cases "\<exists>t. map_of (t_cleanup_ticks st) sid = Some t \<and> t \<le> now")
    case True
    with sweep_removes_due [OF inv due step] show ?thesis by blast
  next
    case False
    then show ?thesis
      by (intro disjI2 sweep_keeps_timed_out(3) [OF inv due step r]) (auto simp: not_le)
  qed
  then show ?thesis using unindexed_slot [OF on_update_inv [OF inv step], of sid] by auto
qed

lemma sweep_parts [simp]:
  "t_next_sweep (remove_session sid st) = t_next_sweep st"
  "t_next_sweep (schedule_terminal_cleanup sid now st) = t_next_sweep st"
  "t_next_sweep (expire_invitation now sid st) = t_next_sweep st"
  "t_next_sweep (time_out_reconciliation now sid st) = t_next_sweep st"
  by (simp_all add: remove_session_def schedule_terminal_cleanup_def expire_invitation_def
      time_out_reconciliation_def split_beta split: option.splits)

lemma start_reconciliation_sweep:
  "start_reconciliation s plan now u g st = Some st' \<Longrightarrow> t_next_sweep st' = t_next_sweep st"
  by (auto simp: start_reconciliation_def split_beta allocate_reconcile_id_def split: option.splits if_splits)

lemma begin_reconciliation_sweep:
  "begin_reconciliation s a now u g st = Some st' \<Longrightarrow> t_next_sweep st' = t_next_sweep st"
  by (auto simp: begin_reconciliation_def dest: start_reconciliation_sweep
      split: option.splits sum.splits if_splits)

lemma time_out_applications_sweep:
  "time_out_applications now js st = Some st' \<Longrightarrow> t_next_sweep st' = t_next_sweep st"
proof (induction js arbitrary: st)
  case (Cons j js)
  then obtain st1 where st1: "time_out_application now j st = Some st1"
    "time_out_applications now js st1 = Some st'" by (auto split: option.splits)
  then have "t_next_sweep st1 = t_next_sweep st"
    by (auto simp: time_out_application_def dest: begin_reconciliation_sweep split: option.splits if_splits)
  with Cons.IH [OF st1(2)] show ?case by simp
qed simp

lemma fold_sweep: "(\<And>x st. t_next_sweep (f x st) = t_next_sweep st) \<Longrightarrow> t_next_sweep (fold f xs st) = t_next_sweep st"
  by (induction xs arbitrary: st) simp_all

lemma on_update_next_sweep:
  "on_update now st = Some st' \<Longrightarrow> \<not> now < t_next_sweep st \<Longrightarrow> t_next_sweep st' = now + kExpirySweepIntervalMs"
  by (auto simp: on_update_def fold_sweep dest!: time_out_applications_sweep)

text \<open>Sweeps that come at least one and less than five seconds after one another.\<close>

fun paced :: "Tick \<Rightarrow> Tick list \<Rightarrow> bool" where
  "paced t [] \<longleftrightarrow> True"
| "paced t (u # us) \<longleftrightarrow> t + kExpirySweepIntervalMs \<le> u \<and> u < t + kTerminalRetentionMs \<and> t \<le> u \<and> paced u us"

lemma paced_sweeps_keep:
  assumes "trade_inv st" and "map_of (t_reconciliations st) sid = Some r" and "\<not> rec_is_settled r"
    and "r_deadline r \<le> t" and "t_next_sweep st = t + kExpirySweepIntervalMs"
    and "map_of (t_cleanup_ticks st) sid = Some (t + kTerminalRetentionMs)"
    and "paced t us" and "trade_run (map (\<lambda>u. (u, u, Update)) us) st = Some st'"
  shows "find_session st' sid = find_session st sid \<and> map_of (t_reconciliations st') sid = Some r"
  using assms
proof (induction us arbitrary: t st)
  case Nil
  then show ?case by simp
next
  case (Cons u us)
  from Cons.prems(8) obtain st1 where st1: "on_update u st = Some st1"
    "trade_run (map (\<lambda>u. (u, u, Update)) us) st1 = Some st'" by (auto split: option.splits)
  have due: "\<not> u < t_next_sweep st" using Cons.prems(5,7) by (simp add: not_less)
  have "r_deadline r \<le> u" using Cons.prems(4,7) by (auto intro: order_trans)
  then have "rec_is_timed_out r u" using Cons.prems(3) by (simp add: rec_is_timed_out_def)
  note kept = sweep_keeps_timed_out [OF Cons.prems(1) due st1(1) Cons.prems(2) this]
  have tick: "x = t + kTerminalRetentionMs \<Longrightarrow> u < x" for x using Cons.prems(7) by simp
  have "find_session st' sid = find_session st1 sid \<and> map_of (t_reconciliations st') sid = Some r"
    by (rule Cons.IH [OF on_update_inv [OF Cons.prems(1) st1(1)] kept(2) Cons.prems(3) \<open>r_deadline r \<le> u\<close>
        on_update_next_sweep [OF st1(1) due] kept(3) _ st1(2)])
      (use Cons.prems(6,7) tick in auto)
  with kept(1) Cons.prems(6) tick show ?case by auto
qed

section \<open>A trade to look at\<close>

text \<open>
  Two players meet, one offers seven pieces of gold, both confirm and both clients report success
  (events 1 to 7); the last client then repeats its report (event 8). In the other ending the first
  client reports that it does not have the item, and the server starts a reconciliation.
\<close>

definition gold :: ItemId where "gold = 15"

definition example_inventory :: "int \<Rightarrow> Inventory" where
  "example_inventory n =
     \<lparr>entries = (if n = 0 then [] else [default_entry\<lparr>e_base_id := to_game_id gold, e_count := n\<rparr>]),
      current_magic_equipment = example_equipment\<rparr>"

definition example_world :: World where
  "example_world =
     \<lparr>w_players = [\<lparr>pl_id = 1, pl_character = Some 101\<rparr>, \<lparr>pl_id = 2, pl_character = Some 102\<rparr>],
      w_inventories = [(101, example_inventory 50), (102, example_inventory 0)]\<rparr>"

definition negotiation :: "(Tick \<times> Tick \<times> TradeEvent) list" where
  "negotiation =
     [(10, 10, InviteRequest (Some 1) 2), (20, 20, InviteResponse (Some 2) 1 True),
      (30, 30, OfferUpdate (Some 1) 1 1
         \<lparr>od_items = [\<lparr>line_item = gold, line_quantity = 7\<rparr>], od_valid = True\<rparr>),
      (40, 40, ConfirmRequest (Some 1) 1 2), (50, 50, ConfirmRequest (Some 2) 1 2)]"

definition success_of :: "PlayerId \<Rightarrow> TradeEvent" where
  "success_of p = ApplyResult (Some p) 1 2 1 ApplyCode_Success True"

definition failure_of :: "PlayerId \<Rightarrow> TradeEvent" where
  "failure_of p = ApplyResult (Some p) 1 2 1 ApplyCode_ItemUnavailable True"

definition after :: "(Tick \<times> Tick \<times> TradeEvent) list \<Rightarrow> TradeService option" where
  "after evs = trade_run evs (new_trade_service example_world)"

lemma after_reachable: "after evs = Some st \<Longrightarrow> trade_reachable st"
  using trade_run_reachable [OF reach_start] by (simp add: after_def)

lemma after_inv: "after evs = Some st \<Longrightarrow> trade_inv st"
  by (intro trade_reachable_inv after_reachable)

definition after_success :: "(Tick \<times> Tick \<times> TradeEvent) list" where
  "after_success = negotiation @ [(60, 60, success_of 1), (70, 70, success_of 2)]"

definition after_timeout :: "(Tick \<times> Tick \<times> TradeEvent) list" where
  "after_timeout = negotiation @ [(60, 60, failure_of 1), (31000, 31000, Update)]"

lemma example_negotiated:
  "case after negotiation of None \<Rightarrow> False | Some st \<Rightarrow>
     (case find_session st 1 of None \<Rightarrow> False | Some s \<Rightarrow>
        s_state s = Applying \<and> is_participant s 1 \<and> t_next_sweep st = 0 \<and>
        trade_step 20000 20000 Update st \<noteq> None)"
  by code_simp

lemma example_leaving:
  "case after negotiation of None \<Rightarrow> False | Some st \<Rightarrow>
     (case trade_step 60 60 (PlayerLeave (Some 1)) st of None \<Rightarrow> False | Some st' \<Rightarrow>
        (case find_session st' 1 of None \<Rightarrow> False | Some s \<Rightarrow> is_participant s 1))"
  by code_simp

lemma example_success:
  "case after after_success of None \<Rightarrow> False | Some st \<Rightarrow>
     (case (find_session st 1, map_of (t_applications st) 1) of
        (Some s, Some a) \<Rightarrow> s_state s = Completed \<and> is_participant s 2 \<and>
          map_of (t_reconciliations st) 1 = None \<and> app_all_succeeded a \<and>
          app_recorded a 2 = Some Apply_Success \<and> a_id a = 1 \<and> mp_revision (a_plan a) = 2 \<and>
          commit_mutation_plan (a_plan a) (t_world st) \<noteq> None \<and>
          holding (t_world st) 101 (to_game_id gold) = 43
      | _ \<Rightarrow> False)"
  by code_simp

lemma example_timeout:
  "case after after_timeout of None \<Rightarrow> False | Some st \<Rightarrow>
     (case map_of (t_reconciliations st) 1 of None \<Rightarrow> False | Some r \<Rightarrow>
        find_session st 1 \<noteq> None \<and> \<not> rec_is_settled r \<and> r_deadline r \<le> 31000 \<and>
        t_next_sweep st = 31000 + kExpirySweepIntervalMs \<and>
        map_of (t_cleanup_ticks st) 1 = Some (31000 + kTerminalRetentionMs) \<and>
        paced 31000 [35000, 39000] \<and>
        trade_run (map (\<lambda>u. (u, u, Update)) [35000, 39000]) st \<noteq> None)"
  by code_simp

section \<open>Properties\<close>

text \<open>
  C1: In every reachable state of the service its seven tables fit together (\<open>trade_inv\<close>): a
  session is stored under its own non-zero identifier, well formed, between two different players,
  never resting in the locked or cancelled state; a pending or negotiating session has both members
  indexed and nothing else stored; an applying one has its application, whose plan is exactly the
  two offers, and a baseline; a completed or failed one is being reconciled or waits for its
  clean-up, and once that is scheduled no player is indexed to it; nothing is stored, and nobody
  indexed, under an identifier without a session.
\<close>

theorem trade_service_consistent:
  assumes "trade_reachable st"
  shows "trade_inv st"
  using assms by (rule trade_reachable_inv)

theorem trade_service_consistent_witness:
  "\<exists>st. after negotiation = Some st \<and> trade_inv st"
  using example_negotiated trade_service_consistent [OF after_reachable]
  by (auto split: option.splits)

text \<open>
  C4: A player is in one open trade at a time: two stored sessions that are not terminal and have
  a member in common are the same session.
\<close>

theorem one_open_trade_per_player:
  assumes "trade_reachable st"
    and "find_session st i = Some s" and "\<not> is_terminal s" and "is_participant s p"
    and "find_session st j = Some t" and "\<not> is_terminal t" and "is_participant t p"
  shows "i = j \<and> s = t"
proof -
  have ix: "indexed st k p" if "find_session st k = Some u" "\<not> is_terminal u" "is_participant u p" for k u
    using slot_of_session [OF trade_reachable_inv [OF assms(1)] that(1)] that(2,3)
    by (cases "s_state u") (auto simp: slot_wf_def is_terminal_def)
  from ix [OF assms(2-4)] ix [OF assms(5-7)] assms(2,5) show ?thesis by (simp add: indexed_def)
qed

theorem one_open_trade_per_player_witness:
  "\<exists>st s. after negotiation = Some st \<and> find_session st 1 = Some s \<and>
     (\<forall>j t. find_session st j = Some t \<and> \<not> is_terminal t \<and> is_participant t 1 \<longrightarrow> j = 1 \<and> t = s)"
proof -
  from example_negotiated obtain st s where st: "after negotiation = Some st" "find_session st 1 = Some s"
    "s_state s = Applying" "is_participant s 1" by (auto split: option.splits)
  then have "\<not> is_terminal s" by (simp add: is_terminal_def)
  with one_open_trade_per_player [OF after_reachable [OF st(1)] st(2) _ st(4)] st show ?thesis by metis
qed

text \<open>
  C29: Every handler returns. In a reachable state with fewer than \<open>2 ^ 64 - 1\<close> stored sessions, any
  packet, disconnect or update is handled: none of the identifier allocation loops runs forever.
\<close>

theorem handlers_return:
  assumes "trade_reachable st" and "card (dom (map_of (t_sessions st))) < 2 ^ 64 - 1"
  shows "\<exists>st'. trade_step now later ev st = Some st'"
  using trade_step_returns [OF trade_reachable_inv [OF assms(1)], of now later ev] assms(2)
  by (auto simp: room_def)

theorem handlers_return_witness:
  "\<exists>st'. trade_step 10 10 (InviteRequest (Some 1) 2) (new_trade_service example_world) = Some st'"
  by (rule handlers_return) (rule reach_start, simp add: new_trade_service_def)

text \<open>
  C32: The sweep closes what is due. After a due sweep no pending invitation is past its expiry, no
  applying session has an application past its deadline with a report missing, every session whose
  clean-up tick had come is gone, and a reconciliation past its deadline with an answer missing holds
  no player any more: its session is gone as well, or is scheduled for its clean-up five seconds
  after this sweep.
\<close>

theorem sweep_closes_what_is_due:
  assumes "trade_reachable st" and "t_next_sweep st \<le> now" and "trade_step now later Update st = Some st'"
  shows "(\<forall>sid s. find_session st' sid = Some s \<and> s_state s = PendingAcceptance \<longrightarrow> now < s_expiry s) \<and>
     (\<forall>sid s a. find_session st' sid = Some s \<and> s_state s = Applying \<and>
        map_of (t_applications st') sid = Some a \<longrightarrow> \<not> app_is_timed_out a now) \<and>
     (\<forall>sid t. map_of (t_cleanup_ticks st) sid = Some t \<and> t \<le> now \<longrightarrow> find_session st' sid = None) \<and>
     (\<forall>sid r. map_of (t_reconciliations st) sid = Some r \<and> rec_is_timed_out r now \<longrightarrow>
        (\<forall>p. map_of (t_player_sessions st') p \<noteq> Some sid) \<and>
        (find_session st' sid = None \<or>
         map_of (t_cleanup_ticks st') sid = Some (now + kTerminalRetentionMs)))"
proof -
  have inv: "trade_inv st" by (rule trade_reachable_inv [OF assms(1)])
  have due: "\<not> now < t_next_sweep st" and step: "on_update now st = Some st'" using assms by (simp_all add: not_less)
  note open' = sweep_open_sessions [OF inv due step]
  have pending: "now < s_expiry s" if "find_session st' sid = Some s" "s_state s = PendingAcceptance" for sid s
    using open' [OF that(1)] that(2) by (auto simp: is_terminal_def sweep_lists(1) [OF inv] not_le)
  have applying: "\<not> app_is_timed_out a now"
    if "find_session st' sid = Some s" "s_state s = Applying" "map_of (t_applications st') sid = Some a" for sid s a
    using sweep_applies_in_time [OF inv due step that] .
  have cleaned: "find_session st' sid = None" if "map_of (t_cleanup_ticks st) sid = Some t" "t \<le> now" for sid t
    using sweep_removes_due [OF inv due step that] .
  have released: "(\<forall>p. map_of (t_player_sessions st') p \<noteq> Some sid) \<and>
      (find_session st' sid = None \<or> map_of (t_cleanup_ticks st') sid = Some (now + kTerminalRetentionMs))"
    if "map_of (t_reconciliations st) sid = Some r" "rec_is_timed_out r now" for sid r
    using sweep_releases_timed_out [OF inv due step that] by (simp add: indexed_def)
  from pending applying cleaned released show ?thesis by blast
qed

theorem sweep_closes_what_is_due_witness:
  "\<exists>st st'. after negotiation = Some st \<and> trade_step 20000 20000 Update st = Some st' \<and>
     (\<forall>sid s a. find_session st' sid = Some s \<and> s_state s = Applying \<and>
        map_of (t_applications st') sid = Some a \<longrightarrow> \<not> app_is_timed_out a 20000)"
proof -
  from example_negotiated obtain st st' where st: "after negotiation = Some st" "t_next_sweep st = 0"
    "trade_step 20000 20000 Update st = Some st'" by (auto split: option.splits)
  from sweep_closes_what_is_due [OF after_reachable [OF st(1)] _ st(3)] st show ?thesis by auto
qed

text \<open>
  A leaving player leaves no open trade behind: once its departure is handled, every stored
  session it is a member of is terminal.
\<close>

theorem leaving_closes_trades:
  assumes "trade_reachable st" and "trade_step now later (PlayerLeave (Some p)) st = Some st'"
    and "find_session st' sid = Some s" and "is_participant s p"
  shows "is_terminal s"
  using on_player_leave_closes [OF trade_reachable_inv [OF assms(1)]] assms(2-4) by simp

theorem leaving_closes_trades_witness:
  "\<exists>st st' s. after negotiation = Some st \<and> trade_step 60 60 (PlayerLeave (Some 1)) st = Some st' \<and>
     find_session st' 1 = Some s \<and> is_participant s 1 \<and> is_terminal s"
proof -
  from example_leaving obtain st st' s where st: "after negotiation = Some st"
    "trade_step 60 60 (PlayerLeave (Some 1)) st = Some st'" "find_session st' 1 = Some s" "is_participant s 1"
    by (auto split: option.splits)
  with leaving_closes_trades [OF after_reachable [OF st(1)] st(2-4)] show ?thesis by blast
qed

text \<open>
  A repeated success report executes the trade again. While an application in which both
  clients succeeded is stored and not being reconciled - that is, also during the five seconds for
  which a completed session is kept - a member's success report that arrives once more commits the
  plan once more, although the settlement itself reports no change; the session does not notice.
\<close>

theorem repeated_report_commits_again:
  assumes "find_session st sid = Some s" and "map_of (t_applications st) sid = Some a"
    and "map_of (t_reconciliations st) sid = None" and "is_participant s p"
    and "app_all_succeeded a" and "app_recorded a p = Some Apply_Success"
    and "application_wf a" and "commit_mutation_plan (a_plan a) (t_world st) = Some w"
    and "s_state s = Completed"
  shows "app_record_result p Apply_Success now a = (a, Success False) \<and>
     (\<exists>st'. trade_step now later
        (ApplyResult (Some p) sid (mp_revision (a_plan a)) (a_id a) ApplyCode_Success True) st = Some st' \<and>
        t_world st' = w)"
proof -
  have "app_is_participant a p"
    using assms(6) by (auto simp: app_recorded_def app_is_participant_find split: option.splits)
  from app.report_again [OF assms(7) this assms(6), of Apply_Success now]
  have rec: "app_record_result p Apply_Success now a = (a, Success False)" by simp
  have "\<not> app_has_failed a" using assms(5) by (simp add: app_all_succeeded_def app_has_failed_def)
  with rec assms show ?thesis
    by (simp add: on_trade_apply_result_request_def after_apply_result_def put_application_def)
qed

theorem repeated_report_commits_again_witness:
  "\<exists>st st' a w. after after_success = Some st \<and> map_of (t_applications st) 1 = Some a \<and>
     holding (t_world st) 101 (to_game_id gold) = 43 \<and>
     trade_step 80 80 (success_of 2) st = Some st' \<and>
     commit_mutation_plan (a_plan a) (t_world st) = Some w \<and> t_world st' = w"
proof -
  from example_success obtain st s a w where st: "after after_success = Some st"
    "find_session st 1 = Some s" "map_of (t_applications st) 1 = Some a" "s_state s = Completed"
    "is_participant s 2" "map_of (t_reconciliations st) 1 = None" "app_all_succeeded a"
    "app_recorded a 2 = Some Apply_Success" "a_id a = 1" "mp_revision (a_plan a) = 2"
    "commit_mutation_plan (a_plan a) (t_world st) = Some w" "holding (t_world st) 101 (to_game_id gold) = 43"
    by (auto split: option.splits)
  have "application_wf a"
    using slot_wf_application(2) [OF slot_of_session [OF after_inv [OF st(1)] st(2), unfolded st(3)]]
    by (simp add: application_of_def)
  from repeated_report_commits_again [OF st(2,3,6,5,7,8) this st(11,4), of 80 80] st
  show ?thesis by (auto simp: success_of_def)
qed

text \<open>
  A reconciliation that timed out is never removed while the server keeps sweeping: every
  sweep schedules its clean-up five seconds ahead again, so along any sequence of sweeps that come
  less than five seconds apart, however long, its session stays stored. (The clean-up happens only
  once both clients have answered.)
\<close>

theorem timed_out_reconciliation_stays:
  assumes "trade_reachable st" and "map_of (t_reconciliations st) sid = Some r"
    and "\<not> rec_is_settled r" and "r_deadline r \<le> t"
    and "t_next_sweep st = t + kExpirySweepIntervalMs"
    and "map_of (t_cleanup_ticks st) sid = Some (t + kTerminalRetentionMs)"
    and "paced t us" and "trade_run (map (\<lambda>u. (u, u, Update)) us) st = Some st'"
  shows "find_session st' sid = find_session st sid \<and> find_session st' sid \<noteq> None \<and>
     map_of (t_reconciliations st') sid = Some r"
proof -
  have inv: "trade_inv st" by (rule trade_reachable_inv [OF assms(1)])
  then have "slot_ok st sid" by (simp add: trade_inv_def)
  with assms(2) have "find_session st sid \<noteq> None"
    by (auto simp: slot_ok_def find_session_def split: option.splits)
  with paced_sweeps_keep [OF inv assms(2-8)] show ?thesis by simp
qed

theorem timed_out_reconciliation_stays_witness:
  "\<exists>st st'. after after_timeout = Some st \<and>
     trade_run (map (\<lambda>u. (u, u, Update)) [35000, 39000]) st = Some st' \<and> find_session st' 1 \<noteq> None"
proof -
  from example_timeout obtain st r st' where st: "after after_timeout = Some st"
    "map_of (t_reconciliations st) 1 = Some r" "\<not> rec_is_settled r" "r_deadline r \<le> 31000"
    "t_next_sweep st = 31000 + kExpirySweepIntervalMs"
    "map_of (t_cleanup_ticks st) 1 = Some (31000 + kTerminalRetentionMs)" "paced 31000 [35000, 39000]"
    "trade_run (map (\<lambda>u. (u, u, Update)) [35000, 39000]) st = Some st'"
    by (auto simp del: trade_run.simps paced.simps split: option.splits)
  from timed_out_reconciliation_stays [OF after_reachable [OF st(1)] st(2-8)] st show ?thesis by blast
qed

end
