(* ===== verification/TradeAgreement.thy ===== *)
theory TradeAgreement
  imports TradeGuarantees
begin

text \<open>
  When a trade moves items: exactly when the report of one client is the first success of its side
  and the other side has succeeded already, in a session that is still applying. An applying session
  never holds an application in which both sides have succeeded (\<open>undecided\<close>), so for a trade that is
  open the completing report comes once. A report on a trade that has ended is set apart
  (\<open>late_report\<close>): there the service executes the plan again (\<open>repeated_report_commits_again\<close>).
\<close>

section \<open>An applying session is undecided\<close>

definition undecided :: "TradeService \<Rightarrow> bool" where
  "undecided st \<longleftrightarrow> (\<forall>sid s a. find_session st sid = Some s \<and> s_state s = Applying \<and>
     map_of (t_applications st) sid = Some a \<longrightarrow> \<not> app_all_succeeded a)"

text \<open>No session begins to apply, and the ones that still do have the application they had.\<close>

definition keeps_applying :: "TradeService \<Rightarrow> TradeService \<Rightarrow> bool" where
  "keeps_applying st st' \<longleftrightarrow> (\<forall>sid s. map_of (t_sessions st') sid = Some s \<and> s_state s = Applying \<longrightarrow>
     (\<exists>s0. map_of (t_sessions st) sid = Some s0 \<and> s_state s0 = Applying) \<and>
     map_of (t_applications st') sid = map_of (t_applications st) sid)"

lemma undecided_kept: "undecided st \<Longrightarrow> keeps_applying st st' \<Longrightarrow> undecided st'"
  by (fastforce simp: undecided_def keeps_applying_def find_session_def)

lemma keeps_applying_trans:
  "keeps_applying st st1 \<Longrightarrow> keeps_applying st1 st2 \<Longrightarrow> keeps_applying st st2"
  by (fastforce simp: keeps_applying_def)

lemma keeps_applying_refl [simp]: "keeps_applying st st"
  by (simp add: keeps_applying_def)

lemma keeps_applying_update [simp]:
  "keeps_applying st (st1\<lparr>t_player_sessions := x\<rparr>) = keeps_applying st st1"
  "keeps_applying st (put_reconciliation sid rc st1) = keeps_applying st st1"
  by (simp_all add: keeps_applying_def put_reconciliation_def)

lemma keeps_applying_store: "same_store st st' \<Longrightarrow> keeps_applying st st'"
  by (simp add: same_store_def keeps_applying_def)

lemma keeps_applying_removed:
  "keeps_applying st st1 \<Longrightarrow> keeps_applying st (remove_session sid st1)"
  by (auto simp: keeps_applying_def remove_session_def al_simps)

lemma keeps_applying_put:
  "find_session st sid \<noteq> None \<Longrightarrow>
     (\<And>s0. find_session st sid = Some s0 \<Longrightarrow> s_state s = Applying \<Longrightarrow> s_state s0 = Applying) \<Longrightarrow>
     keeps_applying st (put_session sid s st)"
  by (auto simp: keeps_applying_def put_session_def al_simps find_session_def)

lemma keeps_applying_outside:
  assumes "keeps_applying st st1" and "t_sessions st2 = t_sessions st1"
    and "t_applications st2 = t_applications st1"
  shows "keeps_applying st st2"
  using assms by (simp add: keeps_applying_def)

lemma keeps_applying_send [simp]:
  "keeps_applying st (send_state s p st1) = keeps_applying st st1"
  "keeps_applying st (send_started s st1) = keeps_applying st st1"
  "keeps_applying st (send_cancelled s why q g st1) = keeps_applying st st1"
  "keeps_applying st (send_reconciliation r p g st1) = keeps_applying st st1"
  "keeps_applying st (send_apply s a st1) = keeps_applying st st1"
  by (simp_all add: keeps_applying_def)

lemma keeps_applying_scheduled [simp]:
  "keeps_applying st (schedule_terminal_cleanup sid now st1) = keeps_applying st st1"
  by (simp add: keeps_applying_def schedule_terminal_cleanup_def)

text \<open>Only \<open>start_applying\<close> leads into the applying state.\<close>

lemma op_not_into_applying:
  "s_state (fst (accept p now s)) = Applying \<Longrightarrow> s_state s = Applying"
  "s_state (fst (reject p now s)) = Applying \<Longrightarrow> s_state s = Applying"
  "s_state (fst (cancel p now s)) = Applying \<Longrightarrow> s_state s = Applying"
  "s_state (fst (expire now s)) = Applying \<Longrightarrow> s_state s = Applying"
  "s_state (fst (fail e now s)) = Applying \<Longrightarrow> s_state s = Applying"
  "s_state (fst (complete now s)) = Applying \<Longrightarrow> s_state s = Applying"
  "s_state (fst (update_offer p r d now s)) = Applying \<Longrightarrow> s_state s = Applying"
  "s_state (fst (confirm p r now s)) = Applying \<Longrightarrow> s_state s = Applying"
  by (auto simp: accept_def reject_def cancel_def expire_def fail_def complete_def update_offer_def
      confirm_def enter_terminal_def s_touch_def Let_def split_beta split: option.splits if_splits)

lemma response_keeps_applying:
  "keeps_applying st (on_trade_invite_response_request p sid accepted now st)"
  by (auto simp: on_trade_invite_response_request_def split_beta
      intro!: keeps_applying_removed keeps_applying_put dest!: op_not_into_applying split: option.splits)

lemma plain_requests_keep_applying:
  "keeps_applying st (on_trade_offer_update_request p sid r d now st)"
  "keeps_applying st (on_trade_cancel_request p sid now st)"
  "keeps_applying st (on_trade_reconcile_result_request p sid r i j c v now later st)"
  by (auto simp: on_trade_offer_update_request_def on_trade_cancel_request_def
      on_trade_reconcile_result_request_def split_beta
      intro!: keeps_applying_removed keeps_applying_put dest!: op_not_into_applying split: option.splits)

lemma invite_keeps_applying:
  assumes "on_trade_invite_request inviter q now st = Some st'"
  shows "keeps_applying st st'"
  using assms
proof (cases rule: on_trade_invite_request_cases)
  case 1
  then show ?thesis by (intro keeps_applying_store)
next
  case (2 p sid n)
  then show ?thesis
    by (auto simp: keeps_applying_def open_session_def new_session_def al_simps)
qed

lemma reconciling_keeps_applying:
  assumes "begin_reconciliation s a now u g st1 = Some st'" and "keeps_applying st st1"
  shows "keeps_applying st st'"
  by (rule keeps_applying_outside [OF assms(2) begin_reconciliation_sessions [OF assms(1)]
        begin_reconciliation_applications [OF assms(1)]])

lemma leave_keeps_applying:
  assumes "on_player_leave p now st = Some st'"
  shows "keeps_applying st st'"
  using assms
  by (auto simp: on_player_leave_def split_beta
      intro!: keeps_applying_removed keeps_applying_put dest!: op_not_into_applying elim!: reconciling_keeps_applying
      split: option.splits if_splits)

lemma sweep_keeps_applying:
  assumes inv: "trade_inv st" and step: "on_update now st = Some st'"
  shows "keeps_applying st st'"
proof (cases "now < t_next_sweep st")
  case True
  with step show ?thesis by (simp add: on_update_def)
next
  case False
  from sweep_open_sessions [OF inv this step] show ?thesis
    by (auto simp: keeps_applying_def find_session_def is_terminal_def)
qed

lemma undecided_but_one:
  assumes "undecided st"
    and "\<And>j. j \<noteq> sid \<Longrightarrow> map_of (t_sessions st') j = map_of (t_sessions st) j"
    and "\<And>j. j \<noteq> sid \<Longrightarrow> map_of (t_applications st') j = map_of (t_applications st) j"
    and "\<And>s a. map_of (t_sessions st') sid = Some s \<Longrightarrow> s_state s = Applying \<Longrightarrow>
      map_of (t_applications st') sid = Some a \<Longrightarrow> \<not> app_all_succeeded a"
  shows "undecided st'"
  unfolding undecided_def find_session_def
proof (intro allI impI, elim conjE)
  fix j s a
  assume "map_of (t_sessions st') j = Some s" "s_state s = Applying" "map_of (t_applications st') j = Some a"
  with assms show "\<not> app_all_succeeded a"
    by (cases "j = sid") (auto simp: undecided_def find_session_def)
qed

lemma begin_application_undecided:
  assumes "undecided st" and "begin_application sid s plan now st = Some st'"
    and "s_state s = Locked" "s_id s = sid" "map_of (t_applications st) sid = None"
  shows "undecided st'"
  using assms(3-5,2)
proof (cases rule: begin_application_cases)
  case (Started i n b)
  show ?thesis
    by (rule undecided_but_one [OF assms(1), of sid])
      (auto simp: Started(3) put_application_def put_session_def al_simps app_all_succeeded_def new_application_def)
next
  case (Unavailable i n e)
  show ?thesis
    by (rule undecided_but_one [OF assms(1), of sid])
      (auto simp: Unavailable(2) put_application_def put_session_def al_simps fail_and_remove_def
        remove_session_def s_touch_def fail_def enter_terminal_def is_terminal_def assms(4))
qed

lemma confirm_undecided:
  assumes inv: "trade_inv st" and undecided: "undecided st"
    and step: "on_trade_confirm_request player sid r now st = Some st'"
  shows "undecided st'"
proof -
  have kept: "undecided st'" if "keeps_applying st st'"
    using undecided that by (rule undecided_kept)
  consider "st' = st"
    | p s where "player = Some p" "find_session st sid = Some s" "is_indexed_participant st p sid"
    using step by (auto simp: on_trade_confirm_request_def split: option.splits if_splits)
  then show ?thesis
  proof cases
    case (2 p s)
    let ?s = "fst (confirm p r now s)"
    let ?st = "put_session sid ?s st"
    have put: "keeps_applying st ?st"
      by (rule keeps_applying_put) (use 2(2) in \<open>auto dest!: op_not_into_applying\<close>)
    show ?thesis
    proof (cases "s_state s \<noteq> Locked \<and> s_state ?s = Locked \<and> succeeded (snd (confirm p r now s))")
      case False
      with step 2 put show ?thesis
        by (intro kept) (auto simp: on_trade_confirm_request_def split_beta split: if_splits)
    next
      case True
      then have "s_state s = Negotiating"
        by (auto simp: confirm_def Let_def split: option.splits if_splits)
      with slot_of_session [OF inv 2(2)] have none: "map_of (t_applications st) sid = None" "s_id s = sid"
        by (simp_all add: slot_wf_def)
      have id: "s_id ?s = sid"
        using none(2) advances_identity(1) [OF session_perform_advances [of s "OpConfirm p r now"]] by simp
      show ?thesis
      proof (cases "validate_and_build_mutation_plan ?st ?s")
        case (Inl e)
        with step 2 True have "st' = fail_and_remove sid ?s e now ?st"
          by (simp add: on_trade_confirm_request_def split_beta)
        then have "keeps_applying ?st st'"
          by (auto simp: fail_and_remove_def find_session_def
              intro!: keeps_applying_removed keeps_applying_put dest!: op_not_into_applying(5))
        with put show ?thesis by (intro kept) (rule keeps_applying_trans)
      next
        case (Inr plan)
        with step 2 True have "begin_application sid ?s plan now ?st = Some st'"
          by (simp add: on_trade_confirm_request_def split_beta)
        from begin_application_undecided [OF undecided_kept [OF undecided put] this]
        show ?thesis using True id none(1) by simp
      qed
    qed
  qed (simp add: undecided)
qed

lemma terminal_after_result:
  "s_state s = Applying \<Longrightarrow> s_state (fst (complete now s)) \<noteq> Applying"
  "s_state s = Applying \<Longrightarrow> e \<noteq> NoError \<Longrightarrow> s_state (fst (fail e now s)) \<noteq> Applying"
  by (simp_all add: complete_def fail_def enter_terminal_def is_terminal_def)

lemma after_apply_result_stored:
  assumes "after_apply_result sid s a now st = Some st'" and "find_session st sid = Some s" and "s_id s = sid"
  shows "map_of (t_applications st') = map_of (t_applications st)"
    and "j \<noteq> sid \<Longrightarrow> map_of (t_sessions st') j = map_of (t_sessions st) j"
    and "map_of (t_sessions st') sid = Some
      (if app_has_failed a then (if is_terminal s then s else fst (fail ApplyFailed now s))
       else if \<not> app_all_succeeded a then s
       else if commit_mutation_plan (a_plan a) (t_world st) = None then fst (fail ServerCommitFailed now s)
       else fst (complete now s))"
  using assms
  by (auto simp: after_apply_result_def Let_def put_session_def al_simps find_session_def
      schedule_terminal_cleanup_def begin_reconciliation_sessions begin_reconciliation_applications
      split: option.splits if_splits)

lemma rejected_report:
  "\<not> succeeded (snd (app_record_result p out now a)) \<Longrightarrow> fst (app_record_result p out now a) = a"
  by (auto simp: app_record_result_def Let_def split: option.splits if_splits)

text \<open>What a report does, when it is accepted for recording.\<close>

lemma apply_result_cases:
  assumes "on_trade_apply_result_request player sid r i code valid now later st = Some st'"
  obtains (Nothing) "t_sessions st' = t_sessions st" "t_applications st' = t_applications st" "t_world st' = t_world st"
      "\<And>p s a. \<lbrakk>player = Some p; find_session st sid = Some s; map_of (t_applications st) sid = Some a;
         map_of (t_reconciliations st) sid = None; is_participant s p; a_id a = i; mp_revision (a_plan a) = r;
         succeeded (snd (app_record_result p (to_apply_outcome (if valid then code else ApplyCode_MalformedPlan)) now a))\<rbrakk>
         \<Longrightarrow> False"
    | (Recorded) p s a a' where "player = Some p" "find_session st sid = Some s"
      "map_of (t_applications st) sid = Some a" "map_of (t_reconciliations st) sid = None"
      "is_participant s p" "a_id a = i" "mp_revision (a_plan a) = r"
      "a' = fst (app_record_result p (to_apply_outcome (if valid then code else ApplyCode_MalformedPlan)) now a)"
      "after_apply_result sid s a' later (put_application sid a' st) = Some st'"
proof -
  let ?out = "to_apply_outcome (if valid then code else ApplyCode_MalformedPlan)"
  show ?thesis
  proof (cases "\<exists>p s a. player = Some p \<and> find_session st sid = Some s \<and> map_of (t_applications st) sid = Some a \<and>
      map_of (t_reconciliations st) sid = None \<and> is_participant s p \<and> a_id a = i \<and> mp_revision (a_plan a) = r \<and>
      succeeded (snd (app_record_result p ?out now a))")
    case True
    then obtain p s a where *: "player = Some p" "find_session st sid = Some s"
      "map_of (t_applications st) sid = Some a" "map_of (t_reconciliations st) sid = None" "is_participant s p"
      "a_id a = i" "mp_revision (a_plan a) = r" "succeeded (snd (app_record_result p ?out now a))" by blast
    with assms have "after_apply_result sid s (fst (app_record_result p ?out now a)) later
        (put_application sid (fst (app_record_result p ?out now a)) st) = Some st'"
      by (simp add: on_trade_apply_result_request_def split_beta)
    from Recorded [OF *(1-7) refl this] show ?thesis .
  next
    case False
    have same: "put_application sid a st = st" if "map_of (t_applications st) sid = Some a" for a
      using that by (simp add: put_application_def update_triv)
    have "t_sessions st' = t_sessions st \<and> t_applications st' = t_applications st \<and> t_world st' = t_world st"
    proof (cases "\<exists>p s a. player = Some p \<and> find_session st sid = Some s \<and> map_of (t_applications st) sid = Some a")
      case True
      then obtain p s a where stored: "player = Some p" "find_session st sid = Some s"
        "map_of (t_applications st) sid = Some a" by blast
      show ?thesis
      proof (cases "map_of (t_reconciliations st) sid = None \<and> is_participant s p \<and> a_id a = i \<and> mp_revision (a_plan a) = r")
        case checked: True
        with False stored have "\<not> succeeded (snd (app_record_result p ?out now a))" by blast
        with assms stored checked show ?thesis
          by (auto simp: on_trade_apply_result_request_def split_beta same rejected_report)
      next
        case False
        with assms stored show ?thesis
          by (auto simp: on_trade_apply_result_request_def split: option.splits if_splits)
      qed
    next
      case False
      with assms show ?thesis by (auto simp: on_trade_apply_result_request_def split: option.splits)
    qed
    with False Nothing show ?thesis by blast
  qed
qed
lemma apply_result_undecided:
  assumes inv: "trade_inv st" and undecided: "undecided st"
    and step: "on_trade_apply_result_request player sid r i code valid now later st = Some st'"
  shows "undecided st'"
  using step
proof (cases rule: apply_result_cases)
  case Nothing
  with undecided show ?thesis by (simp add: undecided_def find_session_def)
next
  case (Recorded p s a a')
  let ?st = "put_application sid a' st"
  have s: "find_session ?st sid = Some s" "s_id s = sid"
    using Recorded(2) slot_of_session [OF inv Recorded(2)]
    by (simp_all add: find_session_def put_application_def slot_wf_def)
  note after = after_apply_result_stored [OF Recorded(9) s]
  show ?thesis
  proof (rule undecided_but_one [OF undecided, of sid])
    show "map_of (t_sessions st') j = map_of (t_sessions st) j" if "j \<noteq> sid" for j
      using after(2) [OF that] by (simp add: put_application_def)
    show "map_of (t_applications st') j = map_of (t_applications st) j" if "j \<noteq> sid" for j
      using after(1) that by (simp add: put_application_def al_simps)
    fix s1 a1
    assume s1: "map_of (t_sessions st') sid = Some s1" "s_state s1 = Applying"
      and "map_of (t_applications st') sid = Some a1"
    then have a1: "a1 = a'" using after(1) by (simp add: put_application_def al_simps)
    have "s_state s = Applying"
      using s1 after(3) by (auto simp: is_terminal_def dest: op_not_into_applying split: if_splits)
    with s1 after(3) show "\<not> app_all_succeeded a1" unfolding a1
      by (auto simp: terminal_after_result app_all_succeeded_def app_has_failed_def is_terminal_def split: if_splits)
  qed
qed

lemma trade_step_undecided:
  assumes "trade_inv st" and "undecided st" and "trade_step now later ev st = Some st'"
  shows "undecided st'"
proof (cases ev)
  case (ConfirmRequest p sid r)
  with assms show ?thesis by (auto intro: confirm_undecided)
next
  case (ApplyResult p sid r i c v)
  with assms show ?thesis by (auto intro: apply_result_undecided)
next
  case (InviteRequest p q)
  with assms(3) show ?thesis by (intro undecided_kept [OF assms(2) invite_keeps_applying]) simp
next
  case (PlayerLeave p)
  with assms(3) show ?thesis by (intro undecided_kept [OF assms(2) leave_keeps_applying]) simp
next
  case Update
  with assms(3) show ?thesis by (intro undecided_kept [OF assms(2) sweep_keeps_applying [OF assms(1)]]) simp
next
  case (InviteResponse p sid accepted)
  with assms(3) undecided_kept [OF assms(2) response_keeps_applying] show ?thesis by auto
next
  case (OfferUpdate p sid r d)
  with assms(3) undecided_kept [OF assms(2) plain_requests_keep_applying(1)] show ?thesis by auto
next
  case (CancelRequest p sid)
  with assms(3) undecided_kept [OF assms(2) plain_requests_keep_applying(2)] show ?thesis by auto
next
  case (ReconcileResult p sid r i j c v)
  with assms(3) undecided_kept [OF assms(2) plain_requests_keep_applying(3)] show ?thesis by auto
qed

lemma trade_reachable_undecided: "trade_reachable st \<Longrightarrow> undecided st"
proof (induction rule: trade_reachable.induct)
  case (reach_step st now later ev st')
  from trade_step_undecided [OF trade_reachable_inv [OF reach_step.hyps(1)] reach_step.IH reach_step.hyps(2)]
  show ?case .
qed (simp_all add: undecided_def find_session_def new_trade_service_def)

section \<open>The report that completes a trade\<close>

definition counterpart :: "Session \<Rightarrow> PlayerId \<Rightarrow> PlayerId" where
  "counterpart s p = (if part_id (s_initiator s) = p then part_id (s_recipient s) else part_id (s_initiator s))"

text \<open>
  The completing report: a valid success for the session's application, the first report of a
  member whose counterpart has succeeded, while the session is applying.
\<close>

fun agreed_trade :: "TradeService \<Rightarrow> TradeEvent \<Rightarrow> (SessionId \<times> Session \<times> Application) option" where
  "agreed_trade st (ApplyResult (Some p) sid r i code valid) =
     (case (find_session st sid, map_of (t_applications st) sid) of
        (Some s, Some a) \<Rightarrow>
          if s_state s = Applying \<and> is_participant s p \<and> a_id a = i \<and> mp_revision (a_plan a) = r
             \<and> valid \<and> code = ApplyCode_Success
             \<and> app_recorded a p = None \<and> app_recorded a (counterpart s p) = Some Apply_Success
          then Some (sid, s, a) else None
      | _ \<Rightarrow> None)"
| "agreed_trade st _ = None"

text \<open>A report on a trade that has ended.\<close>

fun late_report :: "TradeService \<Rightarrow> TradeEvent \<Rightarrow> bool" where
  "late_report st (ApplyResult player sid r i code valid) =
     (case find_session st sid of None \<Rightarrow> False | Some s \<Rightarrow> is_terminal s)"
| "late_report st _ = False"

lemma report_succeeds_both:
  assumes of: "application_of s a" and two: "part_id (s_initiator s) \<noteq> part_id (s_recipient s)"
    and p: "is_participant s p" and undecided: "\<not> app_all_succeeded a"
  shows "app_all_succeeded (fst (app_record_result p out now a)) \<longleftrightarrow>
    out = Apply_Success \<and> app_recorded a p = None \<and> app_recorded a (counterpart s p) = Some Apply_Success"
proof -
  let ?a = "fst (app_record_result p out now a)"
  have wf: "application_wf a" "application_wf ?a"
    using of app_record_result_of [OF of, of p out now] by (simp_all add: application_of_def)
  have ids: "ap_id (a_initiator a) = part_id (s_initiator s)" "ap_id (a_recipient a) = part_id (s_recipient s)"
    using of by (simp_all add: application_of_def)
  have recorded: "app_recorded ?a = (if app_recorded a p = None then (app_recorded a)(p \<mapsto> out) else app_recorded a)"
    using app.report_recorded [OF wf(1), of p out now] p ids
    by (simp add: app_is_participant_def is_participant_iff)
  have both: "app_all_succeeded a \<longleftrightarrow> app_recorded a (part_id (s_initiator s)) = Some Apply_Success \<and>
      app_recorded a (part_id (s_recipient s)) = Some Apply_Success"
    using app_verdicts(1) [OF wf(1)] two by (simp add: ids)
  have "app_all_succeeded ?a \<longleftrightarrow> app_recorded ?a (part_id (s_initiator s)) = Some Apply_Success \<and>
      app_recorded ?a (part_id (s_recipient s)) = Some Apply_Success"
    using app_verdicts(1) [OF wf(2)] two by (simp add: ids app_record_result_ids)
  with recorded both undecided two p show ?thesis
    by (auto simp: counterpart_def is_participant_iff)
qed

lemma agreed_trade_iff:
  "agreed_trade st (ApplyResult player sid r i code valid) = Some (j, s, a) \<longleftrightarrow> j = sid \<and>
     (\<exists>p. player = Some p \<and> find_session st sid = Some s \<and> map_of (t_applications st) sid = Some a \<and>
        s_state s = Applying \<and> is_participant s p \<and> a_id a = i \<and> mp_revision (a_plan a) = r \<and>
        valid \<and> code = ApplyCode_Success \<and> app_recorded a p = None \<and>
        app_recorded a (counterpart s p) = Some Apply_Success)"
  by (cases player) (auto split: option.splits)

lemma to_apply_outcome_success:
  "to_apply_outcome (if valid then code else ApplyCode_MalformedPlan) = Apply_Success \<longleftrightarrow>
     valid \<and> code = ApplyCode_Success"
  by (cases code) simp_all

text \<open>The world after a report on a trade that has not ended.\<close>

definition report_effect :: "TradeService \<Rightarrow> TradeEvent \<Rightarrow> Tick \<Rightarrow> TradeService \<Rightarrow> bool" where
  "report_effect st ev later st' \<longleftrightarrow>
     (case agreed_trade st ev of
        None \<Rightarrow> t_world st' = t_world st
      | Some (sid, s, a) \<Rightarrow>
          (case commit_mutation_plan (a_plan a) (t_world st) of
             None \<Rightarrow> t_world st' = t_world st \<and>
               find_session st' sid = Some (fst (fail ServerCommitFailed later s))
           | Some w \<Rightarrow> t_world st' = w \<and> find_session st' sid = Some (fst (complete later s))))"

lemma open_report_world:
  assumes inv: "trade_inv st" and undecided: "undecided st"
    and step: "on_trade_apply_result_request player sid r i code valid now later st = Some st'"
    and open': "\<not> late_report st (ApplyResult player sid r i code valid)"
  shows "report_effect st (ApplyResult player sid r i code valid) later st'"
  using step
proof (cases rule: apply_result_cases)
  case Nothing
  have "agreed_trade st (ApplyResult player sid r i code valid) = None"
  proof (rule ccontr)
    assume "agreed_trade st (ApplyResult player sid r i code valid) \<noteq> None"
    then obtain p s a where p: "player = Some p" "find_session st sid = Some s"
      "map_of (t_applications st) sid = Some a" "s_state s = Applying" "is_participant s p" "a_id a = i"
      "mp_revision (a_plan a) = r" and none: "app_recorded a p = None"
      by (auto simp: agreed_trade_iff)
    note slot = slot_of_session [OF inv p(2)]
    have "application_of s a" using slot p(3) by (simp add: slot_wf_def)
    then have "application_wf a" "app_is_participant a p"
      using p(5) by (auto simp: application_of_def app_is_participant_def is_participant_iff)
    then have "succeeded (snd (app_record_result p (to_apply_outcome (if valid then code else ApplyCode_MalformedPlan)) now a))"
      using app.report_first [of a p "to_apply_outcome (if valid then code else ApplyCode_MalformedPlan)" now] none by simp
    moreover have "map_of (t_reconciliations st) sid = None" using slot p(4) by (simp add: slot_wf_def)
    ultimately show False using Nothing(4) p by blast
  qed
  with Nothing show ?thesis by (simp add: report_effect_def)
next
  case (Recorded p s a a')
  note slot = slot_of_session [OF inv Recorded(2)]
  have id: "find_session (put_application sid a' st) sid = Some s" "s_id s = sid"
    using Recorded(2) slot by (simp_all add: find_session_def put_application_def slot_wf_def)
  have applying: "s_state s = Applying"
    using slot open' Recorded(2,3) by (cases "s_state s") (auto simp: slot_wf_def is_terminal_def)
  have undecided_a: "\<not> app_all_succeeded a"
    using undecided Recorded(2,3) applying by (auto simp: undecided_def)
  have "application_of s a" "part_id (s_initiator s) \<noteq> part_id (s_recipient s)"
    using slot Recorded(3) by (simp_all add: slot_wf_def)
  from report_succeeds_both [OF this Recorded(5) undecided_a]
  have all: "app_all_succeeded a' \<longleftrightarrow> valid \<and> code = ApplyCode_Success \<and> app_recorded a p = None \<and>
      app_recorded a (counterpart s p) = Some Apply_Success"
    by (simp add: Recorded(8) to_apply_outcome_success)
  have plan: "a_plan a' = a_plan a" by (simp add: Recorded(8) app_record_result_ids)
  show ?thesis
  proof (cases "app_all_succeeded a'")
    case False
    with after_apply_result_world [OF Recorded(9)] have "t_world st' = t_world st" by auto
    moreover have "agreed_trade st (ApplyResult player sid r i code valid) = None"
      using False all Recorded(1-7) by simp
    ultimately show ?thesis by (simp add: report_effect_def)
  next
    case True
    then have "\<not> app_has_failed a'" by (simp add: app_all_succeeded_def app_has_failed_def)
    moreover have "agreed_trade st (ApplyResult player sid r i code valid) = Some (sid, s, a)"
      using True all applying Recorded(1-7) by simp
    moreover have "t_world st' = (case commit_mutation_plan (a_plan a) (t_world st) of None \<Rightarrow> t_world st | Some w \<Rightarrow> w)"
      using Recorded(9) True plan calculation(1)
      by (auto simp: after_apply_result_def dest: begin_reconciliation_world split: option.splits)
    ultimately show ?thesis
      using after_apply_result_stored(3) [OF Recorded(9) id] True plan
      by (simp add: report_effect_def find_session_def split: option.splits)
  qed
qed

section \<open>Properties\<close>

lemma example_last_report:
  "case after (negotiation @ [(60, 60, success_of 1)]) of None \<Rightarrow> False | Some st \<Rightarrow>
     (case trade_step 70 70 (success_of 2) st of None \<Rightarrow> False | Some st' \<Rightarrow>
        \<not> late_report st (success_of 2) \<and>
        (case agreed_trade st (success_of 2) of None \<Rightarrow> False | Some (sid, s, a) \<Rightarrow>
           sid = 1 \<and> commit_mutation_plan (a_plan a) (t_world st) \<noteq> None) \<and>
        holding (t_world st') 101 (to_game_id gold) \<noteq> holding (t_world st) 101 (to_game_id gold))"
  by code_simp


text \<open>
  C2: Only agreement moves items. Whatever happens to a trade that has not ended, the world changes
  exactly when a member reports success for the first time while its counterpart has reported success
  already: then it becomes what the plan of the session makes of it and the session is completed, or,
  if the plan does not fit the inventories, it stays as it is and the session has failed; on every
  other event it stays as it is. A report on a trade that has ended changes the world only if both
  clients have a recorded success in it. And whenever the world changes, the two characters gain and
  lose exactly what the offers of the session say.
\<close>

theorem only_agreement_moves_items:
  assumes "trade_reachable st" and "trade_step now later ev st = Some st'"
  shows "(\<not> late_report st ev \<longrightarrow> report_effect st ev later st') \<and>
    (t_world st' \<noteq> t_world st \<longrightarrow>
      (\<exists>player sid r i code valid s. ev = ApplyResult player sid r i code valid \<and>
        moves_items st player sid r i (to_apply_outcome (if valid then code else ApplyCode_MalformedPlan)) now
          (t_world st') s \<and>
        (\<forall>j. \<exists>ci cr. get_inventory_target (t_world st) (part_id (s_initiator s)) = Some ci \<and>
           get_inventory_target (t_world st) (part_id (s_recipient s)) = Some cr \<and>
           (ci \<noteq> cr \<longrightarrow>
              holding (t_world st') ci (to_game_id j) = holding (t_world st) ci (to_game_id j) + gain s j \<and>
              holding (t_world st') cr (to_game_id j) = holding (t_world st) cr (to_game_id j) - gain s j))))"
proof (intro conjI impI)
  note inv = trade_reachable_inv [OF assms(1)]
  show "report_effect st ev later st'" if "\<not> late_report st ev"
  proof (cases "\<exists>player sid r i code valid. ev = ApplyResult player sid r i code valid")
    case True
    with open_report_world [OF inv trade_reachable_undecided [OF assms(1)]] assms(2) that show ?thesis by auto
  next
    case False
    then have "agreed_trade st ev = None" by (cases ev) auto
    moreover have "t_world st' = t_world st" using trade_step_world [OF assms(2)] False by metis
    ultimately show ?thesis by (simp add: report_effect_def)
  qed
  assume "t_world st' \<noteq> t_world st"
  from assms(2) this obtain player sid r i code valid s where ev: "ev = ApplyResult player sid r i code valid"
    and moved: "moves_items st player sid r i
      (to_apply_outcome (if valid then code else ApplyCode_MalformedPlan)) now (t_world st') s"
    by (rule trade_step_world)
  have "\<exists>ci cr. get_inventory_target (t_world st) (part_id (s_initiator s)) = Some ci \<and>
      get_inventory_target (t_world st) (part_id (s_recipient s)) = Some cr \<and>
      (ci \<noteq> cr \<longrightarrow>
         holding (t_world st') ci (to_game_id j) = holding (t_world st) ci (to_game_id j) + gain s j \<and>
         holding (t_world st') cr (to_game_id j) = holding (t_world st) cr (to_game_id j) - gain s j)" for j
    by (rule moves_items_effect [OF inv moved, of j]) blast
  with ev moved show "\<exists>player sid r i code valid s. ev = ApplyResult player sid r i code valid \<and>
      moves_items st player sid r i (to_apply_outcome (if valid then code else ApplyCode_MalformedPlan)) now
        (t_world st') s \<and>
      (\<forall>j. \<exists>ci cr. get_inventory_target (t_world st) (part_id (s_initiator s)) = Some ci \<and>
         get_inventory_target (t_world st) (part_id (s_recipient s)) = Some cr \<and>
         (ci \<noteq> cr \<longrightarrow>
            holding (t_world st') ci (to_game_id j) = holding (t_world st) ci (to_game_id j) + gain s j \<and>
            holding (t_world st') cr (to_game_id j) = holding (t_world st) cr (to_game_id j) - gain s j))"
    by blast
qed

theorem only_agreement_moves_items_witness:
  "\<exists>st st' s a. after (negotiation @ [(60, 60, success_of 1)]) = Some st \<and>
     trade_step 70 70 (success_of 2) st = Some st' \<and> agreed_trade st (success_of 2) = Some (1, s, a) \<and>
     commit_mutation_plan (a_plan a) (t_world st) = Some (t_world st') \<and>
     find_session st' 1 = Some (fst (complete 70 s))"
proof -
  from example_last_report obtain st st' s a w where st: "after (negotiation @ [(60, 60, success_of 1)]) = Some st"
    "trade_step 70 70 (success_of 2) st = Some st'" "\<not> late_report st (success_of 2)"
    "agreed_trade st (success_of 2) = Some (1, s, a)" "commit_mutation_plan (a_plan a) (t_world st) = Some w"
    by (auto split: option.splits simp del: agreed_trade.simps late_report.simps trade_step.simps)
  with only_agreement_moves_items [OF after_reachable [OF st(1)] st(2)] show ?thesis
    by (auto simp: report_effect_def simp del: agreed_trade.simps late_report.simps trade_step.simps)
qed

end
