(* ===== verification/ByteCodec.thy ===== *)
theory ByteCodec
  imports Prelude "HOL-Library.Char_ord"
begin

text \<open>
  The byte writer and reader of the campaign codecs (class \<open>Writer\<close> and class \<open>Reader\<close> of
  \<open>campaign_persistence/codec/CampaignCodec.cpp\<close> and of \<open>campaign_runtime/CampaignCoreCodec.cpp\<close>,
  the same but for their limits). A writer is a function from the output so far to the new output
  and whether it succeeded; a reader is a function from the rest of the input to the value and what
  remains, or \<open>None\<close> when it fails. Integers of any signedness are words, a \<open>float\<close> is its bit
  pattern. The locale \<open>codec\<close> is the contract between the two sides of a format.
\<close>

type_synonym Bytes = "u8 list"
type_synonym writer = "Bytes \<Rightarrow> Bytes \<times> bool"
type_synonym 'a reader = "Bytes \<Rightarrow> ('a \<times> Bytes) option"

record CodecLimits =
  payload_limit :: nat
  string_limit :: nat

section \<open>Writing\<close>

definition scalar_size :: "'a :: len word \<Rightarrow> nat" where
  "scalar_size v = LENGTH('a) div 8"

definition scalar_bytes :: "'a :: len word \<Rightarrow> Bytes" where
  "scalar_bytes v = map (\<lambda>i. ucast (drop_bit (i * 8) v AND 0xFF)) [0 ..< scalar_size v]"

definition write_scalar :: "CodecLimits \<Rightarrow> 'a :: len word \<Rightarrow> writer" where
  "write_scalar L v out =
     (if length out + scalar_size v > payload_limit L then (out, False)
      else (out @ scalar_bytes v, True))"

definition write_bool :: "CodecLimits \<Rightarrow> bool \<Rightarrow> writer" where
  "write_bool L b = write_scalar L (if b then 1 else 0 :: u8)"

definition write_raw :: "CodecLimits \<Rightarrow> Bytes \<Rightarrow> writer" where
  "write_raw L bs out =
     (if length bs > payload_limit L \<or> length out > payload_limit L - length bs then (out, False)
      else (out @ bs, True))"

text \<open>The conditions of an \<open>if\<close> or a \<open>return\<close> joined by \<open>&&\<close>, tried from left to right.\<close>

fun w_seq :: "writer list \<Rightarrow> writer" where
  "w_seq [] out = (out, True)"
| "w_seq (w # ws) out = (case w out of (out, ok) \<Rightarrow> if ok then w_seq ws out else (out, False))"

definition w_check :: "bool \<Rightarrow> writer" where
  "w_check b out = (out, b)"

definition bytes_of_string :: "string \<Rightarrow> Bytes" where
  "bytes_of_string s = map of_char s"

definition string_of_bytes :: "Bytes \<Rightarrow> string" where
  "string_of_bytes bs = map (\<lambda>b. char_of (unat b)) bs"

definition write_string :: "CodecLimits \<Rightarrow> string \<Rightarrow> writer" where
  "write_string L s =
     w_seq [w_check (length s \<le> string_limit L), write_scalar L (of_nat (length s) :: u32),
            write_raw L (bytes_of_string s)]"

definition write_blob :: "CodecLimits \<Rightarrow> Bytes \<Rightarrow> writer" where
  "write_blob L bs =
     w_seq [w_check (length bs \<le> payload_limit L), write_scalar L (of_nat (length bs) :: u32),
            write_raw L bs]"

text \<open>A present value after the \<open>Bool\<close> that announces it, and nothing after an absent one.\<close>

definition write_announced :: "('a \<Rightarrow> writer) \<Rightarrow> 'a option \<Rightarrow> writer" where
  "write_announced w v = w_seq (case v of None \<Rightarrow> [] | Some x \<Rightarrow> [w x])"

definition write_optional :: "CodecLimits \<Rightarrow> ('a \<Rightarrow> writer) \<Rightarrow> 'a option \<Rightarrow> writer" where
  "write_optional L w v = w_seq [write_bool L (v \<noteq> None), write_announced w v]"

text \<open>A bounded sequence: the check of its size, the count, the elements in a loop.\<close>

definition write_list :: "CodecLimits \<Rightarrow> nat \<Rightarrow> ('a \<Rightarrow> writer) \<Rightarrow> 'a list \<Rightarrow> writer" where
  "write_list L n w xs =
     w_seq (w_check (length xs \<le> n) # write_scalar L (of_nat (length xs) :: u32) # map w xs)"

section \<open>Reading\<close>

fun gather :: "nat \<Rightarrow> Bytes \<Rightarrow> 'a :: len word \<Rightarrow> 'a word" where
  "gather i [] v = v"
| "gather i (b # bs) v = gather (i + 1) bs (v OR push_bit (i * 8) (ucast b))"

definition read_scalar :: "'a :: len word reader" where
  "read_scalar inp =
     (let n = scalar_size (0 :: 'a word) in
      if length inp < n then None else Some (gather 0 (take n inp) 0, drop n inp))"

definition r_return :: "'a \<Rightarrow> 'a reader" where
  "r_return v inp = Some (v, inp)"

definition r_bind :: "'a reader \<Rightarrow> ('a \<Rightarrow> 'b reader) \<Rightarrow> 'b reader" where
  "r_bind r k inp = (case r inp of None \<Rightarrow> None | Some (v, inp) \<Rightarrow> k v inp)"

definition r_check :: "bool \<Rightarrow> unit reader" where
  "r_check b inp = (if b then Some ((), inp) else None)"

definition read_bool :: "bool reader" where
  "read_bool = r_bind read_scalar (\<lambda>v :: u8. r_bind (r_check (v \<le> 1)) (\<lambda>_. r_return (v \<noteq> 0)))"

definition read_magic :: "string \<Rightarrow> unit reader" where
  "read_magic m inp =
     (if length inp < length m \<or> take (length m) inp \<noteq> bytes_of_string m then None
      else Some ((), drop (length m) inp))"

definition read_raw :: "nat \<Rightarrow> Bytes reader" where
  "read_raw n inp = (if length inp < n then None else Some (take n inp, drop n inp))"

definition read_string :: "CodecLimits \<Rightarrow> string reader" where
  "read_string L =
     r_bind read_scalar (\<lambda>n :: u32. r_bind (r_check (unat n \<le> string_limit L)) (\<lambda>_.
     r_bind (read_raw (unat n)) (\<lambda>bs. r_return (string_of_bytes bs))))"

definition read_blob :: "CodecLimits \<Rightarrow> Bytes reader" where
  "read_blob L =
     r_bind read_scalar (\<lambda>n :: u32. r_bind (r_check (unat n \<le> payload_limit L)) (\<lambda>_.
     read_raw (unat n)))"

definition read_announced :: "'a reader \<Rightarrow> bool \<Rightarrow> 'a option reader" where
  "read_announced r present = (if present then r_bind r (\<lambda>v. r_return (Some v)) else r_return None)"

definition read_optional :: "'a reader \<Rightarrow> 'a option reader" where
  "read_optional r = r_bind read_bool (read_announced r)"

fun r_repeat :: "nat \<Rightarrow> 'a reader \<Rightarrow> 'a list reader" where
  "r_repeat 0 r = r_return []"
| "r_repeat (Suc n) r = r_bind r (\<lambda>x. r_bind (r_repeat n r) (\<lambda>xs. r_return (x # xs)))"

definition read_list :: "nat \<Rightarrow> 'a reader \<Rightarrow> 'a list reader" where
  "read_list n r =
     r_bind read_scalar (\<lambda>count :: u32. r_bind (r_check (unat count \<le> n)) (\<lambda>_. r_repeat (unat count) r))"

declare w_seq.simps [simp del]

section \<open>What a writer writes a reader reads\<close>

text \<open>
  \<open>codes w r v\<close>: whatever \<open>w\<close> appends when it succeeds, \<open>r\<close> reads back as \<open>v\<close>, and no more.
  \<open>emits lim w bs\<close>: \<open>w\<close> appends \<open>bs\<close> and succeeds as long as the output stays within \<open>lim\<close>.
  \<open>parsed lim inp rest w\<close>: the input down to \<open>rest\<close> is what \<open>w\<close> would have emitted.
\<close>

definition codes :: "writer \<Rightarrow> 'a reader \<Rightarrow> 'a \<Rightarrow> bool" where
  "codes w r v \<longleftrightarrow>
     (\<forall>out out'. w out = (out', True) \<longrightarrow>
        (\<exists>bs. out' = out @ bs \<and> (\<forall>rest. r (bs @ rest) = Some (v, rest))))"

definition emits :: "nat \<Rightarrow> writer \<Rightarrow> Bytes \<Rightarrow> bool" where
  "emits lim w bs \<longleftrightarrow> (\<forall>out. length out + length bs \<le> lim \<longrightarrow> w out = (out @ bs, True))"

definition parsed :: "nat \<Rightarrow> Bytes \<Rightarrow> Bytes \<Rightarrow> writer \<Rightarrow> bool" where
  "parsed lim inp rest w \<longleftrightarrow> (\<exists>bs. inp = bs @ rest \<and> emits lim w bs)"

lemma codes_done: "codes (w_seq []) (r_return v) v"
  by (simp add: codes_def r_return_def w_seq.simps)

lemma codes_bind:
  assumes "codes w r a" and "codes (w_seq ws) (k a) v"
  shows "codes (w_seq (w # ws)) (r_bind r k) v"
  unfolding codes_def
proof (intro allI impI)
  fix out out'
  assume run: "w_seq (w # ws) out = (out', True)"
  then obtain mid where mid: "w out = (mid, True)" "w_seq ws mid = (out', True)"
    by (auto simp: w_seq.simps split: prod.splits if_splits)
  from assms(1) mid(1) obtain bs where bs: "mid = out @ bs" "\<And>rest. r (bs @ rest) = Some (a, rest)"
    unfolding codes_def by blast
  from assms(2) mid(2) obtain cs where cs: "out' = mid @ cs" "\<And>rest. k a (cs @ rest) = Some (v, rest)"
    unfolding codes_def by blast
  show "\<exists>bs. out' = out @ bs \<and> (\<forall>rest. r_bind r k (bs @ rest) = Some (v, rest))"
    using bs cs by (intro exI [of _ "bs @ cs"]) (simp add: r_bind_def)
qed

lemma codes_check: "(b \<Longrightarrow> codes (w_seq ws) r v) \<Longrightarrow> codes (w_seq (w_check b # ws)) r v"
  by (cases b) (simp_all add: codes_def w_check_def w_seq.simps)

lemma codes_r_check: "b \<Longrightarrow> codes w (k ()) v \<Longrightarrow> codes w (r_bind (r_check b) k) v"
  by (simp add: codes_def r_bind_def r_check_def)

lemma codes_one: "codes w r v \<Longrightarrow> codes (w_seq [w]) r v"
  by (simp add: codes_def w_seq.simps split: prod.splits if_splits)

lemma emits_done: "emits lim (w_seq []) []"
  by (simp add: emits_def w_seq.simps)

lemma emits_seq: "emits lim w bs \<Longrightarrow> emits lim (w_seq ws) cs \<Longrightarrow> emits lim (w_seq (w # ws)) (bs @ cs)"
  by (simp add: emits_def w_seq.simps)

lemma parsed_done: "parsed lim inp inp (w_seq [])"
  using emits_done by (auto simp: parsed_def)

lemma parsed_seq: "parsed lim inp mid w \<Longrightarrow> parsed lim mid rest (w_seq ws) \<Longrightarrow> parsed lim inp rest (w_seq (w # ws))"
  unfolding parsed_def using emits_seq by force

lemma parsed_one: "parsed lim inp rest w \<Longrightarrow> parsed lim inp rest (w_seq [w])"
  using parsed_seq [OF _ parsed_done] .

lemma parsed_check: "b \<Longrightarrow> parsed lim inp rest (w_seq ws) \<Longrightarrow> parsed lim inp rest (w_seq (w_check b # ws))"
  by (simp add: parsed_def emits_def w_check_def w_seq.simps)

lemma r_bind_Some: "r_bind r k inp = Some (v, rest) \<longleftrightarrow> (\<exists>a mid. r inp = Some (a, mid) \<and> k a mid = Some (v, rest))"
  by (auto simp: r_bind_def split: option.splits)

lemma r_check_Some: "r_check b inp = Some (u, rest) \<longleftrightarrow> b \<and> rest = inp"
  by (auto simp: r_check_def)

lemma r_return_Some: "r_return v inp = Some (w, rest) \<longleftrightarrow> w = v \<and> rest = inp"
  by (auto simp: r_return_def)

lemmas r_simps = r_bind_Some r_check_Some r_return_Some

section \<open>Scalars\<close>

text \<open>The facts below hold for the widths that are whole bytes.\<close>

definition whole_bytes :: "'a :: len itself \<Rightarrow> bool" where
  "whole_bytes T \<longleftrightarrow> LENGTH('a) = 8 * (LENGTH('a) div 8)"

lemma whole_bytes_widths [simp]:
  "whole_bytes TYPE(8)" "whole_bytes TYPE(16)" "whole_bytes TYPE(32)" "whole_bytes TYPE(64)"
  by (simp_all add: whole_bytes_def)

lemma length_scalar_bytes [simp]: "length (scalar_bytes v) = scalar_size v"
  by (simp add: scalar_bytes_def)

lemma scalar_size_widths [simp]:
  "scalar_size (v :: u8) = 1" "scalar_size (w :: u16) = 2" "scalar_size (x :: u32) = 4"
  "scalar_size (y :: u64) = 8"
  by (simp_all add: scalar_size_def)

lemma bit_scalar_bytes:
  "j < scalar_size v \<Longrightarrow> bit (scalar_bytes v ! j) k \<longleftrightarrow> k < 8 \<and> bit v (j * 8 + k)"
proof -
  assume "j < scalar_size v"
  then have "scalar_bytes v ! j = ucast (drop_bit (j * 8) v AND mask 8)"
    by (simp add: scalar_bytes_def mask_eq_exp_minus_1)
  then show ?thesis
    by (auto simp: bit_ucast_iff bit_and_iff bit_mask_iff bit_drop_bit_eq dest: bit_imp_le_length)
qed

lemma bit_gather:
  fixes v :: "'a :: len word"
  shows "bit (gather i bs v) m \<longleftrightarrow>
     bit v m \<or> m < LENGTH('a) \<and> i \<le> m div 8 \<and> m div 8 < i + length bs \<and> bit (bs ! (m div 8 - i)) (m mod 8)"
proof (induction bs arbitrary: i v)
  case (Cons b bs)
  have here: "bit (push_bit (i * 8) (ucast b :: 'a word)) m \<longleftrightarrow>
      m < LENGTH('a) \<and> m div 8 = i \<and> bit b (m mod 8)"
  proof (cases "m div 8 = i")
    case True
    then have "m - i * 8 = m mod 8" "i * 8 \<le> m"
      using minus_div_mult_eq_mod [of m 8] div_times_less_eq_dividend [of m 8] by simp_all
    with True show ?thesis by (auto simp: bit_push_bit_iff bit_ucast_iff dest: bit_imp_le_length)
  next
    case False
    have "\<not> bit b (m - i * 8)" if "i * 8 \<le> m"
    proof
      assume "bit b (m - i * 8)"
      then have "m - i * 8 < 8" using bit_imp_le_length [of b "m - i * 8"] by simp
      with that False show False by auto
    qed
    with False show ?thesis by (auto simp: bit_push_bit_iff bit_ucast_iff)
  qed
  show ?case
    by (cases "m div 8 = i") (auto simp: Cons bit_or_iff here nth_Cons' Suc_le_eq)
next
  case Nil
  show ?case by auto
qed

lemma gather_scalar_bytes:
  fixes v :: "'a :: len word"
  assumes "whole_bytes TYPE('a)"
  shows "gather 0 (scalar_bytes v) (0 :: 'a word) = v"
proof (rule bit_word_eqI)
  fix m assume "m < LENGTH('a)"
  moreover from this have "m div 8 < scalar_size v"
    using assms by (simp add: whole_bytes_def scalar_size_def)
  ultimately show "bit (gather 0 (scalar_bytes v) (0 :: 'a word)) m = bit v m"
    by (simp add: bit_gather bit_scalar_bytes)
qed

lemma scalar_bytes_gather:
  assumes "whole_bytes TYPE('a :: len)" and "length bs = scalar_size (0 :: 'a word)"
  shows "scalar_bytes (gather 0 bs 0 :: 'a word) = bs"
proof (rule nth_equalityI)
  show len: "length (scalar_bytes (gather 0 bs 0 :: 'a word)) = length bs"
    using assms(2) by (simp add: scalar_size_def)
  fix j assume "j < length (scalar_bytes (gather 0 bs 0 :: 'a word))"
  then have j: "j < length bs" "j < scalar_size (gather 0 bs 0 :: 'a word)" using len by simp_all
  show "scalar_bytes (gather 0 bs 0 :: 'a word) ! j = bs ! j"
  proof (rule bit_word_eqI)
    fix k assume "k < LENGTH(8)"
    then have k: "k < 8" by simp
    with j(2) assms(1) have "j * 8 + k < LENGTH('a)"
      by (simp add: whole_bytes_def scalar_size_def)
    with j k show "bit (scalar_bytes (gather 0 bs 0 :: 'a word) ! j) k = bit (bs ! j) k"
      by (simp add: bit_scalar_bytes bit_gather)
  qed
qed

section \<open>The contract between the two sides of a format\<close>

locale codec =
  fixes L :: CodecLimits and wr :: "'a \<Rightarrow> writer" and rd :: "'a reader"
  assumes write_read: "codes (wr v) rd v"
    and read_write: "rd inp = Some (v, rest) \<Longrightarrow> parsed (payload_limit L) inp rest (wr v)"
begin

text \<open>What was written is read back, whatever follows, and two values never look the same.\<close>

lemma round_trip: "wr v [] = (bs, True) \<Longrightarrow> rd (bs @ rest) = Some (v, rest)"
  using write_read [of v] unfolding codes_def by (metis append_Nil)

lemma write_injective: "wr v [] = (bs, True) \<Longrightarrow> wr v' [] = (bs, True) \<Longrightarrow> v = v'"
  using round_trip [of v bs "[]"] round_trip [of v' bs "[]"] by simp

text \<open>What is read is the only encoding of its value.\<close>

lemma canonical:
  "rd inp = Some (v, []) \<Longrightarrow> length inp \<le> payload_limit L \<Longrightarrow> wr v [] = (inp, True)"
  using read_write [of inp v "[]"] by (auto simp: parsed_def emits_def)

lemma read_length: "rd inp = Some (v, rest) \<Longrightarrow> length rest \<le> length inp"
  using read_write [of inp v rest] by (auto simp: parsed_def)

text \<open>Sequences and optional values inherit the contract.\<close>

lemma codes_repeat: "codes (w_seq (map wr xs)) (r_repeat (length xs) rd) xs"
proof (induction xs)
  case (Cons x xs)
  have "codes (w_seq (map wr xs)) (r_bind (r_repeat (length xs) rd) (\<lambda>xs. r_return (x # xs))) (x # xs)"
    using Cons by (fastforce simp: codes_def r_bind_def r_return_def)
  then show ?case by (simp only: list.map list.size r_repeat.simps add_Suc_right add_0_right)
      (rule codes_bind [OF write_read])
qed (simp add: codes_done)

lemma repeat_parsed:
  "r_repeat n rd inp = Some (xs, rest) \<Longrightarrow>
     length xs = n \<and> parsed (payload_limit L) inp rest (w_seq (map wr xs))"
proof (induction n arbitrary: inp xs)
  case 0
  then show ?case by (simp add: r_return_Some parsed_done)
next
  case (Suc n)
  then obtain x mid ys where "rd inp = Some (x, mid)" "r_repeat n rd mid = Some (ys, rest)" "xs = x # ys"
    by (auto simp: r_simps)
  with Suc.IH [of mid ys] show ?case
    by (auto intro: parsed_seq read_write)
qed

end

lemma codec_scalar: "whole_bytes TYPE('a :: len) \<Longrightarrow> codec L (write_scalar L :: 'a word \<Rightarrow> writer) read_scalar"
proof
  assume whole: "whole_bytes TYPE('a)"
  show "codes (write_scalar L v) read_scalar v" for v :: "'a word"
    using whole by (auto simp: codes_def write_scalar_def read_scalar_def gather_scalar_bytes
        scalar_size_def split: if_splits)
  show "parsed (payload_limit L) inp rest (write_scalar L v)"
    if "read_scalar inp = Some (v, rest)" for inp rest and v :: "'a word"
    using that whole unfolding parsed_def emits_def
    by (intro exI [of _ "take (scalar_size v) inp"])
      (auto simp: read_scalar_def write_scalar_def scalar_bytes_gather scalar_size_def split: if_splits)
qed

lemmas scalar_codec [simp, intro] =
  codec_scalar [OF whole_bytes_widths(1)] codec_scalar [OF whole_bytes_widths(2)]
  codec_scalar [OF whole_bytes_widths(3)] codec_scalar [OF whole_bytes_widths(4)]

section \<open>Strings, blobs, optional values and sequences\<close>

lemma bytes_of_string_inverse [simp]: "string_of_bytes (bytes_of_string s) = s"
proof (induction s)
  case (Cons c s)
  have "unat (of_char c :: u8) = of_char c"
    by (cases c) (simp add: of_char_def unsigned_of_nat)
  with Cons show ?case by (simp add: string_of_bytes_def bytes_of_string_def)
qed (simp_all add: string_of_bytes_def bytes_of_string_def)

lemma string_of_bytes_inverse [simp]: "bytes_of_string (string_of_bytes bs) = bs"
proof (induction bs)
  case (Cons b bs)
  have "unat b < 256" using unsigned_less [of b] by simp
  have "(of_char (char_of (unat b) :: char) :: u8) = of_nat (of_char (char_of (unat b) :: char))"
    by (simp only: of_nat_of_char)
  also have "\<dots> = b" using \<open>unat b < 256\<close> by simp
  finally show ?case using Cons by (simp add: string_of_bytes_def bytes_of_string_def)
qed (simp_all add: string_of_bytes_def bytes_of_string_def)

lemma length_string_bytes [simp]:
  "length (bytes_of_string s) = length s" "length (string_of_bytes bs) = length bs"
  by (simp_all add: string_of_bytes_def bytes_of_string_def)

lemma codes_raw: "n = length bs \<Longrightarrow> codes (write_raw L bs) (read_raw n) bs"
  by (auto simp: codes_def write_raw_def read_raw_def split: if_splits)

lemma parsed_raw: "read_raw n inp = Some (bs, rest) \<Longrightarrow> length bs = n \<and> parsed (payload_limit L) inp rest (write_raw L bs)"
  unfolding parsed_def emits_def
  by (auto simp: read_raw_def write_raw_def split: if_splits intro!: exI [of _ bs])

lemma codes_map: "codes w r a \<Longrightarrow> (\<And>rest. k a rest = Some (v, rest)) \<Longrightarrow> codes w (r_bind r k) v"
proof -
  assume r: "codes w r a" and k: "\<And>rest. k a rest = Some (v, rest)"
  from r show ?thesis unfolding codes_def
    by (elim all_forward imp_forward ex_forward conj_forward) (simp_all add: r_bind_def k)
qed

text \<open>The lengths must fit the 32-bit counts, as they do for the limits of the two codecs.\<close>

definition small :: "nat \<Rightarrow> bool" where
  "small n \<longleftrightarrow> n < 2 ^ 32"

lemma unat_count: "small n \<Longrightarrow> m \<le> n \<Longrightarrow> unat (of_nat m :: u32) = m"
  by (simp add: small_def unsigned_of_nat take_bit_nat_eq_self)

lemma codec_bool: "codec L (write_bool L) read_bool"
proof
  show "codes (write_bool L b) read_bool b" for b
    unfolding write_bool_def read_bool_def
    by (rule codes_map [OF codec.write_read [OF scalar_codec(1)]])
      (simp add: r_bind_def r_check_def r_return_def)
  show "parsed (payload_limit L) inp rest (write_bool L b)" if "read_bool inp = Some (b, rest)" for inp rest b
  proof -
    from that obtain v :: u8 where v: "read_scalar inp = Some (v, rest)" "v \<le> 1" "b = (v \<noteq> 0)"
      by (auto simp: read_bool_def r_simps)
    have "v = (if b then 1 else 0)" using v(2,3) by (simp add: word_le_nat_alt word_unat_eq_iff)
    with codec.read_write [OF scalar_codec(1) v(1), of L] show ?thesis by (simp add: write_bool_def)
  qed
qed

lemmas codes_scalar = codec.write_read [OF scalar_codec(1)] codec.write_read [OF scalar_codec(2)]
  codec.write_read [OF scalar_codec(3)] codec.write_read [OF scalar_codec(4)]
lemmas parsed_scalar = codec.read_write [OF scalar_codec(1)] codec.read_write [OF scalar_codec(2)]
  codec.read_write [OF scalar_codec(3)] codec.read_write [OF scalar_codec(4)]

lemma parsed_count:
  assumes "read_scalar inp = Some (n :: u32, mid)" and "unat n = m"
  shows "parsed (payload_limit L) inp mid (write_scalar L (of_nat m :: u32))"
  using parsed_scalar(3) [OF assms(1)] assms(2) by auto

lemma codec_string:
  assumes "small (string_limit L)"
  shows "codec L (write_string L) (read_string L)"
proof
  show "codes (write_string L s) (read_string L) s" for s
    unfolding write_string_def read_string_def
  proof (rule codes_check)
    assume "length s \<le> string_limit L"
    with assms have "unat (of_nat (length s) :: u32) = length s" by (rule unat_count)
    with \<open>length s \<le> string_limit L\<close>
    show "codes (w_seq [write_scalar L (of_nat (length s) :: u32), write_raw L (bytes_of_string s)])
      (r_bind read_scalar (\<lambda>n :: u32. r_bind (r_check (unat n \<le> string_limit L)) (\<lambda>_.
        r_bind (read_raw (unat n)) (\<lambda>bs. r_return (string_of_bytes bs))))) s"
      by (intro codes_bind [OF codes_scalar(3)] codes_r_check codes_one codes_map [OF codes_raw])
        (simp_all add: r_return_def)
  qed
  show "parsed (payload_limit L) inp rest (write_string L s)"
    if "read_string L inp = Some (s, rest)" for inp rest s
  proof -
    from that obtain n :: u32 and mid bs where *: "read_scalar inp = Some (n, mid)"
      "unat n \<le> string_limit L" "read_raw (unat n) mid = Some (bs, rest)" "s = string_of_bytes bs"
      by (auto simp: read_string_def r_simps)
    with parsed_raw [OF *(3), of L] show ?thesis
      unfolding write_string_def
      by (intro parsed_check parsed_seq [OF parsed_count [OF *(1)]] parsed_seq [OF _ parsed_done]) auto
  qed
qed

lemma codec_blob:
  assumes "small (payload_limit L)"
  shows "codec L (write_blob L) (read_blob L)"
proof
  show "codes (write_blob L bs) (read_blob L) bs" for bs
    unfolding write_blob_def read_blob_def
  proof (rule codes_check)
    assume "length bs \<le> payload_limit L"
    with assms have "unat (of_nat (length bs) :: u32) = length bs" by (rule unat_count)
    with \<open>length bs \<le> payload_limit L\<close>
    show "codes (w_seq [write_scalar L (of_nat (length bs) :: u32), write_raw L bs])
      (r_bind read_scalar (\<lambda>n :: u32. r_bind (r_check (unat n \<le> payload_limit L)) (\<lambda>_. read_raw (unat n)))) bs"
      by (intro codes_bind [OF codes_scalar(3)] codes_r_check codes_one codes_raw) simp_all
  qed
  show "parsed (payload_limit L) inp rest (write_blob L bs)"
    if "read_blob L inp = Some (bs, rest)" for inp rest bs
  proof -
    from that obtain n :: u32 and mid where *: "read_scalar inp = Some (n, mid)"
      "unat n \<le> payload_limit L" "read_raw (unat n) mid = Some (bs, rest)"
      by (auto simp: read_blob_def r_simps)
    with parsed_raw [OF *(3), of L] show ?thesis
      unfolding write_blob_def
      by (intro parsed_check parsed_seq [OF parsed_count [OF *(1)]] parsed_seq [OF _ parsed_done]) auto
  qed
qed

context codec
begin

lemma codes_announced: "b = (v \<noteq> None) \<Longrightarrow> codes (write_announced wr v) (read_announced rd b) v"
  unfolding write_announced_def read_announced_def
  by (auto intro!: codes_bind [OF write_read] codes_done split: option.splits)

lemma parsed_announced:
  "read_announced rd b inp = Some (v, rest) \<Longrightarrow>
     b = (v \<noteq> None) \<and> parsed (payload_limit L) inp rest (write_announced wr v)"
  unfolding write_announced_def read_announced_def
  by (auto simp: r_simps split: if_splits intro!: parsed_done parsed_one [OF read_write])

lemma codec_optional: "codec L (write_optional L wr) (read_optional rd)"
proof
  show "codes (write_optional L wr v) (read_optional rd) v" for v
    unfolding write_optional_def read_optional_def
    by (rule codes_bind [OF codec.write_read [OF codec_bool] codes_one [OF codes_announced]]) simp
  show "parsed (payload_limit L) inp rest (write_optional L wr v)"
    if "read_optional rd inp = Some (v, rest)" for inp rest v
  proof -
    from that obtain b mid where "read_bool inp = Some (b, mid)" "read_announced rd b mid = Some (v, rest)"
      by (auto simp: read_optional_def r_simps)
    with parsed_announced [OF this(2)] codec.read_write [OF codec_bool this(1), of L]
    show ?thesis unfolding write_optional_def by (auto intro: parsed_seq parsed_one)
  qed
qed

lemma codec_list:
  assumes "small n"
  shows "codec L (write_list L n wr) (read_list n rd)"
proof
  show "codes (write_list L n wr xs) (read_list n rd) xs" for xs
    unfolding write_list_def read_list_def
  proof (rule codes_check)
    assume "length xs \<le> n"
    with assms have "unat (of_nat (length xs) :: u32) = length xs" by (rule unat_count)
    with \<open>length xs \<le> n\<close>
    show "codes (w_seq (write_scalar L (of_nat (length xs) :: u32) # map wr xs))
      (r_bind read_scalar (\<lambda>count :: u32. r_bind (r_check (unat count \<le> n)) (\<lambda>_. r_repeat (unat count) rd))) xs"
      by (intro codes_bind [OF codes_scalar(3)] codes_r_check) (simp_all add: codes_repeat)
  qed
  show "parsed (payload_limit L) inp rest (write_list L n wr xs)"
    if "read_list n rd inp = Some (xs, rest)" for inp rest xs
  proof -
    from that obtain k :: u32 and mid where *: "read_scalar inp = Some (k, mid)" "unat k \<le> n"
      "r_repeat (unat k) rd mid = Some (xs, rest)"
      by (auto simp: read_list_def r_simps)
    from repeat_parsed [OF *(3)] * show ?thesis
      unfolding write_list_def
      by (intro parsed_check parsed_seq [OF parsed_count [OF *(1)]]) auto
  qed
qed

end

section \<open>The leaves of a format\<close>

text \<open>
  The step of a proof that a record's two sides fit: one of \<open>codes_leaves\<close> for each field that is
  written, one of \<open>parsed_leaves\<close> for each that was read.
\<close>

lemma codes_end: "w = v \<Longrightarrow> codes (w_seq []) (r_return w) v"
  by (simp add: codes_done)

lemmas codec_codes = codec.write_read [THEN codes_bind]
lemmas codec_parsed = codec.read_write [THEN parsed_seq]

lemmas codes_leaves = scalar_codec [THEN codec_codes] codec_bool [THEN codec_codes]
  codec_string [THEN codec_codes] codec_blob [THEN codec_codes]
lemmas parsed_leaves = scalar_codec [THEN codec_parsed] codec_bool [THEN codec_parsed]
  codec_string [THEN codec_parsed] codec_blob [THEN codec_parsed]

lemma codes_magic: "codes (write_raw L (bytes_of_string m)) (read_magic m) ()"
  by (auto simp: codes_def write_raw_def read_magic_def split: if_splits)

lemma parsed_magic: "read_magic m inp = Some (u, rest) \<Longrightarrow> parsed (payload_limit L) inp rest (write_raw L (bytes_of_string m))"
  unfolding parsed_def emits_def
  by (auto simp: read_magic_def write_raw_def split: if_splits intro!: exI [of _ "bytes_of_string m"])
    (metis append_take_drop_id)

text \<open>A format behind its magic bytes, without and with a version number.\<close>

context codec
begin

lemma codec_magic:
  "codec L (\<lambda>v. w_seq [write_raw L (bytes_of_string m), wr v]) (r_bind (read_magic m) (\<lambda>_. rd))"
proof
  show "codes (w_seq [write_raw L (bytes_of_string m), wr v]) (r_bind (read_magic m) (\<lambda>_. rd)) v" for v
    by (rule codes_bind [OF codes_magic]) (rule codes_one, rule write_read)
  show "parsed (payload_limit L) inp rest (w_seq [write_raw L (bytes_of_string m), wr v])"
    if "r_bind (read_magic m) (\<lambda>_. rd) inp = Some (v, rest)" for inp rest v
    using that by (auto simp: r_simps intro: parsed_seq parsed_magic parsed_one read_write)
qed

lemma codec_version:
  "codec L (\<lambda>v. w_seq [write_scalar L (n :: u32), wr v])
     (r_bind read_scalar (\<lambda>k. r_bind (r_check (k = n)) (\<lambda>_. rd)))"
proof
  show "codes (w_seq [write_scalar L n, wr v]) (r_bind read_scalar (\<lambda>k. r_bind (r_check (k = n)) (\<lambda>_. rd))) v" for v
    by (rule codes_bind [OF codes_scalar(3)], rule codes_r_check) (simp_all add: codes_one write_read)
  show "parsed (payload_limit L) inp rest (w_seq [write_scalar L n, wr v])"
    if "r_bind read_scalar (\<lambda>k. r_bind (r_check (k = n)) (\<lambda>_. rd)) inp = Some (v, rest)" for inp rest v
    using that by (auto simp: r_simps intro: parsed_seq parsed_scalar parsed_one read_write)
qed

end

text \<open>Nested sequences write what the flat one does.\<close>

lemma w_seq_nested: "w_seq [w, w_seq ws] = w_seq (w # ws)"
  by (simp add: fun_eq_iff w_seq.simps split: prod.splits)

section \<open>Writers stay within the limit\<close>

definition bounded :: "nat \<Rightarrow> writer \<Rightarrow> bool" where
  "bounded lim w \<longleftrightarrow> (\<forall>out. length out \<le> lim \<longrightarrow> length (fst (w out)) \<le> lim)"

named_theorems bounds \<open>writers whose output stays within the payload limit\<close>

lemma bounded_seq [bounds]: "list_all (bounded lim) ws \<Longrightarrow> bounded lim (w_seq ws)"
proof (induction ws)
  case Nil
  then show ?case by (simp add: bounded_def w_seq.simps)
next
  case (Cons w ws)
  then have w: "bounded lim w" and ws: "bounded lim (w_seq ws)" by simp_all
  show ?case unfolding bounded_def
  proof (intro allI impI)
    fix out :: Bytes
    assume out: "length out \<le> lim"
    obtain mid ok where run: "w out = (mid, ok)" by force
    with w out have "length mid \<le> lim" unfolding bounded_def by (metis fst_conv)
    with ws run show "length (fst (w_seq (w # ws) out)) \<le> lim"
      by (simp add: w_seq.simps bounded_def)
  qed
qed

lemma bounded_leaves [bounds]:
  "bounded (payload_limit L) (write_scalar L v)" "bounded (payload_limit L) (write_raw L bs)"
  "bounded lim (w_check b)"
  by (auto simp: bounded_def write_scalar_def write_raw_def w_check_def)

lemma bounded_fields [bounds]:
  "bounded (payload_limit L) (write_bool L b)" "bounded (payload_limit L) (write_string L s)"
  "bounded (payload_limit L) (write_blob L bs)"
  by (simp_all add: write_bool_def write_string_def write_blob_def bounds)

lemma bounded_list [bounds]:
  "(\<And>x. bounded (payload_limit L) (w x)) \<Longrightarrow> bounded (payload_limit L) (write_list L n w xs)"
  by (auto simp: write_list_def list_all_iff intro!: bounds)

lemma bounded_optional [bounds]:
  "(\<And>x. bounded lim (w x)) \<Longrightarrow> bounded lim (write_announced w v)"
  "(\<And>x. bounded (payload_limit L) (w x)) \<Longrightarrow> bounded (payload_limit L) (write_optional L w v)"
  by (auto simp: write_optional_def write_announced_def intro!: bounds split: option.splits)

end
