(* ===== verification/CampaignCodec.thy ===== *)
theory CampaignCodec
  imports ByteCodec
begin

text \<open>
  \<open>campaign_persistence/codec/CampaignCodec.cpp\<close>: the formats of the stored character builds and
  campaign snapshots, the checksum and the mutation digest, over the records of
  \<open>campaign_persistence/CampaignTypes.h\<close>. Every decoding failure of the code is the error
  \<open>IntegrityFailure\<close>, with a message that is left out; the partly filled value it returns beside
  the error is left out too.
\<close>

section \<open>The records\<close>

datatype StoreError =
    Store_None | Store_InvalidArgument | Store_NotFound | Store_AlreadyExists | Store_StaleRevision
  | Store_IdempotencyConflict | Store_IntegrityFailure | Store_IncompatibleSchema
  | Store_MigrationFailure | Store_DatabaseFailure | Store_FaultInjected

record FormId =
  form_mod :: u32
  form_base :: u32

record CharacterBuildSelection =
  sel_group :: string
  sel_option :: string

record InventoryEffect =
  eff_magnitude :: f32
  eff_area :: u32
  eff_duration :: u32
  eff_raw_cost :: f32
  eff_id :: FormId

record InventoryEntry =
  inv_base_id :: FormId
  inv_count :: u32
  inv_charge :: f32
  inv_enchant_id :: FormId
  inv_enchant_charge :: u16
  inv_is_weapon :: bool
  inv_effects :: "InventoryEffect list"
  inv_health :: f32
  inv_poison_id :: FormId
  inv_poison_count :: u32
  inv_soul_level :: u32
  inv_owner_id :: FormId
  inv_remove_unequip :: bool
  inv_worn :: bool
  inv_worn_left :: bool
  inv_quest_item :: bool

record CharacterBuildState =
  cb_slot :: string
  cb_binding :: string
  cb_codec_version :: u32
  cb_build_version :: u32
  cb_race :: FormId
  cb_class :: string
  cb_selections :: "CharacterBuildSelection list"
  cb_inventory :: "InventoryEntry list"
  cb_left_spell :: FormId
  cb_right_spell :: FormId
  cb_shout :: FormId
  cb_inventory_hash :: u64
  cb_spells :: "FormId list"
  cb_spell_hash :: u64
  cb_applied :: bool
  cb_revision :: u64

datatype StateAudience = AudiencePublic | AudiencePrivate

record AdapterState =
  ad_id :: string
  ad_version :: u64
  ad_codec_version :: u32
  ad_audience :: StateAudience
  ad_player :: "string option"
  ad_payload :: Bytes
  ad_revision :: u64

record CampaignSlotRecord =
  rec_slot :: string
  rec_player :: string
  rec_binding :: string

record CampaignRecord =
  cr_id :: string
  cr_schema_version :: u32
  cr_revision :: u64
  cr_sealed :: bool
  cr_checkpoint :: "string option"
  cr_codec_version :: u32
  cr_payload :: Bytes
  cr_created :: u64
  cr_updated :: u64

record CampaignProjection =
  pr_campaign :: CampaignRecord
  pr_slots :: "CampaignSlotRecord list"
  pr_builds :: "CharacterBuildState list"
  pr_adapters :: "AdapterState list"

section \<open>Limits and constants\<close>

definition store_limits :: CodecLimits where
  "store_limits = \<lparr>payload_limit = 4 * 1024 * 1024, string_limit = 4096\<rparr>"

definition kMaximumSelections :: nat where "kMaximumSelections = 256"
definition kMaximumInventoryEntries :: nat where "kMaximumInventoryEntries = 4096"
definition kMaximumEffectsPerEntry :: nat where "kMaximumEffectsPerEntry = 128"
definition kMaximumSpells :: nat where "kMaximumSpells = 1024"
definition kMaximumSlots :: nat where "kMaximumSlots = 128"
definition kMaximumAdapters :: nat where "kMaximumAdapters = 256"
definition kMaximumCharacterBuilds :: nat where "kMaximumCharacterBuilds = 128"
definition kCharacterBuildMagic :: string where "kCharacterBuildMagic = ''STRECB01''"
definition kSnapshotMagic :: string where "kSnapshotMagic = ''STRECS01''"
definition kCampaignSnapshotCodecVersion :: u32 where "kCampaignSnapshotCodecVersion = 1"

abbreviation put_scalar :: "'a :: len word \<Rightarrow> writer" where "put_scalar \<equiv> write_scalar store_limits"
abbreviation put_bool :: "bool \<Rightarrow> writer" where "put_bool \<equiv> write_bool store_limits"
abbreviation put_string :: "string \<Rightarrow> writer" where "put_string \<equiv> write_string store_limits"
abbreviation put_blob :: "Bytes \<Rightarrow> writer" where "put_blob \<equiv> write_blob store_limits"
abbreviation get_string :: "string reader" where "get_string \<equiv> read_string store_limits"
abbreviation get_blob :: "Bytes reader" where "get_blob \<equiv> read_blob store_limits"

section \<open>Character builds\<close>

definition write_form :: "FormId \<Rightarrow> writer" where
  "write_form f = w_seq [put_scalar (form_mod f), put_scalar (form_base f)]"

definition write_selection :: "CharacterBuildSelection \<Rightarrow> writer" where
  "write_selection s = w_seq [put_string (sel_group s), put_string (sel_option s)]"

definition write_effect :: "InventoryEffect \<Rightarrow> writer" where
  "write_effect e = w_seq
     [put_scalar (eff_magnitude e), put_scalar (eff_area e), put_scalar (eff_duration e),
      put_scalar (eff_raw_cost e), write_form (eff_id e)]"

definition write_entry :: "InventoryEntry \<Rightarrow> writer" where
  "write_entry e = w_seq
     [write_form (inv_base_id e), put_scalar (inv_count e), put_scalar (inv_charge e),
      write_form (inv_enchant_id e), put_scalar (inv_enchant_charge e), put_bool (inv_is_weapon e),
      write_list store_limits kMaximumEffectsPerEntry write_effect (inv_effects e),
      put_scalar (inv_health e), write_form (inv_poison_id e), put_scalar (inv_poison_count e),
      put_scalar (inv_soul_level e), write_form (inv_owner_id e), put_bool (inv_remove_unequip e),
      put_bool (inv_worn e), put_bool (inv_worn_left e), put_bool (inv_quest_item e)]"

definition write_character_build_body :: "CharacterBuildState \<Rightarrow> writer" where
  "write_character_build_body s = w_seq
     [put_string (cb_slot s), put_string (cb_binding s), put_scalar (cb_codec_version s),
      put_scalar (cb_build_version s), write_form (cb_race s), put_string (cb_class s),
      write_list store_limits kMaximumSelections write_selection (cb_selections s),
      write_list store_limits kMaximumInventoryEntries write_entry (cb_inventory s),
      write_form (cb_left_spell s), write_form (cb_right_spell s), write_form (cb_shout s),
      put_scalar (cb_inventory_hash s),
      write_list store_limits kMaximumSpells write_form (cb_spells s),
      put_scalar (cb_spell_hash s), put_bool (cb_applied s), put_scalar (cb_revision s)]"

definition read_form :: "FormId reader" where
  "read_form =
     r_bind read_scalar (\<lambda>m. r_bind read_scalar (\<lambda>b. r_return \<lparr>form_mod = m, form_base = b\<rparr>))"

definition read_selection :: "CharacterBuildSelection reader" where
  "read_selection =
     r_bind get_string (\<lambda>g. r_bind get_string (\<lambda>i. r_return \<lparr>sel_group = g, sel_option = i\<rparr>))"

definition read_effect :: "InventoryEffect reader" where
  "read_effect =
     r_bind read_scalar (\<lambda>m. r_bind read_scalar (\<lambda>a. r_bind read_scalar (\<lambda>d.
     r_bind read_scalar (\<lambda>c. r_bind read_form (\<lambda>i.
     r_return \<lparr>eff_magnitude = m, eff_area = a, eff_duration = d, eff_raw_cost = c, eff_id = i\<rparr>)))))"

definition read_entry :: "InventoryEntry reader" where
  "read_entry =
     r_bind read_form (\<lambda>base. r_bind read_scalar (\<lambda>count. r_bind read_scalar (\<lambda>charge.
     r_bind read_form (\<lambda>enchant. r_bind read_scalar (\<lambda>enchant_charge. r_bind read_bool (\<lambda>weapon.
     r_bind (read_list kMaximumEffectsPerEntry read_effect) (\<lambda>effects.
     r_bind read_scalar (\<lambda>health. r_bind read_form (\<lambda>poison. r_bind read_scalar (\<lambda>poison_count.
     r_bind read_scalar (\<lambda>soul. r_bind read_form (\<lambda>owner. r_bind read_bool (\<lambda>unequip.
     r_bind read_bool (\<lambda>worn. r_bind read_bool (\<lambda>left. r_bind read_bool (\<lambda>quest.
     r_return \<lparr>inv_base_id = base, inv_count = count, inv_charge = charge, inv_enchant_id = enchant,
       inv_enchant_charge = enchant_charge, inv_is_weapon = weapon, inv_effects = effects,
       inv_health = health, inv_poison_id = poison, inv_poison_count = poison_count,
       inv_soul_level = soul, inv_owner_id = owner, inv_remove_unequip = unequip,
       inv_worn = worn, inv_worn_left = left, inv_quest_item = quest\<rparr>))))))))))))))))"

definition read_character_build_body :: "CharacterBuildState reader" where
  "read_character_build_body =
     r_bind get_string (\<lambda>slot. r_bind get_string (\<lambda>binding. r_bind read_scalar (\<lambda>codec_version.
     r_bind read_scalar (\<lambda>build_version. r_bind read_form (\<lambda>race. r_bind get_string (\<lambda>class_id.
     r_bind (read_list kMaximumSelections read_selection) (\<lambda>selections.
     r_bind (read_list kMaximumInventoryEntries read_entry) (\<lambda>inventory.
     r_bind read_form (\<lambda>left. r_bind read_form (\<lambda>right. r_bind read_form (\<lambda>shout.
     r_bind read_scalar (\<lambda>inventory_hash. r_bind (read_list kMaximumSpells read_form) (\<lambda>spells.
     r_bind read_scalar (\<lambda>spell_hash. r_bind read_bool (\<lambda>applied. r_bind read_scalar (\<lambda>revision.
     r_return \<lparr>cb_slot = slot, cb_binding = binding, cb_codec_version = codec_version,
       cb_build_version = build_version, cb_race = race, cb_class = class_id,
       cb_selections = selections, cb_inventory = inventory, cb_left_spell = left,
       cb_right_spell = right, cb_shout = shout, cb_inventory_hash = inventory_hash,
       cb_spells = spells, cb_spell_hash = spell_hash, cb_applied = applied,
       cb_revision = revision\<rparr>))))))))))))))))"

definition encode_character_build :: "CharacterBuildState \<Rightarrow> StoreError \<times> Bytes" where
  "encode_character_build s =
     (case w_seq [write_raw store_limits (bytes_of_string kCharacterBuildMagic), write_character_build_body s] [] of
        (payload, ok) \<Rightarrow> (if ok then Store_None else Store_IntegrityFailure, payload))"

text \<open>\<open>Done\<close>: nothing is left of the input.\<close>

definition read_all :: "'a reader \<Rightarrow> Bytes \<Rightarrow> StoreError + 'a" where
  "read_all r payload =
     (case r payload of Some (v, []) \<Rightarrow> Inr v | _ \<Rightarrow> Inl Store_IntegrityFailure)"

definition decode_character_build :: "Bytes \<Rightarrow> StoreError + CharacterBuildState" where
  "decode_character_build = read_all (r_bind (read_magic kCharacterBuildMagic) (\<lambda>_. read_character_build_body))"

section \<open>Campaign snapshots\<close>

definition write_slot_record :: "CampaignSlotRecord \<Rightarrow> writer" where
  "write_slot_record r = w_seq [put_string (rec_slot r), put_string (rec_player r), put_string (rec_binding r)]"

text \<open>A build is encoded on its own and stored as a blob.\<close>

definition write_build_blob :: "CharacterBuildState \<Rightarrow> writer" where
  "write_build_blob s =
     (case encode_character_build s of
        (e, encoded) \<Rightarrow> w_seq [w_check (e = Store_None), put_blob encoded])"

definition audience_code :: "StateAudience \<Rightarrow> u8" where
  "audience_code a = (case a of AudiencePublic \<Rightarrow> 0 | AudiencePrivate \<Rightarrow> 1)"

definition write_adapter :: "AdapterState \<Rightarrow> writer" where
  "write_adapter a = w_seq
     [put_string (ad_id a), put_scalar (ad_version a), put_scalar (ad_codec_version a),
      put_scalar (audience_code (ad_audience a)), put_bool (ad_player a \<noteq> None),
      write_announced put_string (ad_player a), put_blob (ad_payload a), put_scalar (ad_revision a)]"

definition write_campaign :: "CampaignRecord \<Rightarrow> writer" where
  "write_campaign c = w_seq
     [put_string (cr_id c), put_scalar (cr_schema_version c), put_scalar (cr_revision c),
      put_bool (cr_sealed c), write_optional store_limits put_string (cr_checkpoint c),
      put_scalar (cr_codec_version c), put_blob (cr_payload c), put_scalar (cr_created c),
      put_scalar (cr_updated c)]"

definition write_snapshot_body :: "CampaignProjection \<Rightarrow> writer" where
  "write_snapshot_body p = w_seq
     [write_campaign (pr_campaign p),
      write_list store_limits kMaximumSlots write_slot_record (pr_slots p),
      write_list store_limits kMaximumCharacterBuilds write_build_blob (pr_builds p),
      write_list store_limits kMaximumAdapters write_adapter (pr_adapters p)]"

definition encode_snapshot :: "CampaignProjection \<Rightarrow> StoreError \<times> Bytes" where
  "encode_snapshot p =
     (case w_seq [write_raw store_limits (bytes_of_string kSnapshotMagic),
                  put_scalar kCampaignSnapshotCodecVersion, write_snapshot_body p] [] of
        (payload, ok) \<Rightarrow> (if ok then Store_None else Store_IntegrityFailure, payload))"

definition read_slot_record :: "CampaignSlotRecord reader" where
  "read_slot_record =
     r_bind get_string (\<lambda>s. r_bind get_string (\<lambda>p. r_bind get_string (\<lambda>b.
     r_return \<lparr>rec_slot = s, rec_player = p, rec_binding = b\<rparr>)))"

definition read_build_blob :: "CharacterBuildState reader" where
  "read_build_blob =
     r_bind get_blob (\<lambda>encoded.
     case decode_character_build encoded of Inl e \<Rightarrow> (\<lambda>inp. None) | Inr s \<Rightarrow> r_return s)"

definition read_adapter :: "AdapterState reader" where
  "read_adapter =
     r_bind get_string (\<lambda>i. r_bind read_scalar (\<lambda>version. r_bind read_scalar (\<lambda>codec_version.
     r_bind read_scalar (\<lambda>audience :: u8. r_bind read_bool (\<lambda>has_player.
     r_bind (r_check (audience = 0 \<or> audience = 1)) (\<lambda>_.
     r_bind (read_announced get_string has_player) (\<lambda>player.
     r_bind get_blob (\<lambda>payload. r_bind read_scalar (\<lambda>revision.
     r_return \<lparr>ad_id = i, ad_version = version, ad_codec_version = codec_version,
       ad_audience = (if audience = 0 then AudiencePublic else AudiencePrivate),
       ad_player = player, ad_payload = payload, ad_revision = revision\<rparr>)))))))))"

definition read_campaign :: "CampaignRecord reader" where
  "read_campaign =
     r_bind get_string (\<lambda>i. r_bind read_scalar (\<lambda>schema. r_bind read_scalar (\<lambda>revision.
     r_bind read_bool (\<lambda>is_sealed. r_bind (read_optional get_string) (\<lambda>checkpoint.
     r_bind read_scalar (\<lambda>codec_version. r_bind get_blob (\<lambda>payload.
     r_bind read_scalar (\<lambda>created. r_bind read_scalar (\<lambda>updated.
     r_return \<lparr>cr_id = i, cr_schema_version = schema, cr_revision = revision, cr_sealed = is_sealed,
       cr_checkpoint = checkpoint, cr_codec_version = codec_version, cr_payload = payload,
       cr_created = created, cr_updated = updated\<rparr>)))))))))"

definition read_snapshot_body :: "CampaignProjection reader" where
  "read_snapshot_body =
     r_bind read_campaign (\<lambda>campaign. r_bind (read_list kMaximumSlots read_slot_record) (\<lambda>slots.
     r_bind (read_list kMaximumCharacterBuilds read_build_blob) (\<lambda>builds.
     r_bind (read_list kMaximumAdapters read_adapter) (\<lambda>adapters.
     r_return \<lparr>pr_campaign = campaign, pr_slots = slots, pr_builds = builds, pr_adapters = adapters\<rparr>))))"

definition decode_snapshot :: "Bytes \<Rightarrow> StoreError + CampaignProjection" where
  "decode_snapshot = read_all
     (r_bind (read_magic kSnapshotMagic) (\<lambda>_. r_bind read_scalar (\<lambda>version.
      r_bind (r_check (version = kCampaignSnapshotCodecVersion)) (\<lambda>_. read_snapshot_body))))"

section \<open>Checksums and mutation digests\<close>

definition fnv_step :: "u64 \<Rightarrow> u8 \<Rightarrow> u64" where
  "fnv_step h b = (h XOR ucast b) * 1099511628211"

definition fnv :: "Bytes \<Rightarrow> u64" where
  "fnv payload = foldl fnv_step 14695981039346656037 payload"

definition hex_digit :: "nat \<Rightarrow> char" where
  "hex_digit d = (''0123456789abcdef'' ! d)"

text \<open>\<open>std::hex\<close> with \<open>setw(16)\<close> and fill \<open>'0'\<close>: sixteen digits, the most significant first.\<close>

definition hex16 :: "u64 \<Rightarrow> string" where
  "hex16 h = map (\<lambda>i. hex_digit (unat (drop_bit (4 * (15 - i)) h AND 0xF))) [0 ..< 16]"

definition checksum :: "Bytes \<Rightarrow> string" where
  "checksum payload = hex16 (fnv payload)"

definition digest_input :: "string \<Rightarrow> u64 \<Rightarrow> u32 \<Rightarrow> Bytes \<Rightarrow> string \<Rightarrow> Bytes" where
  "digest_input kind expected_revision codec_version payload entity =
     bytes_of_string kind @ [0] @ scalar_bytes expected_revision @ scalar_bytes codec_version @
     bytes_of_string entity @ [0] @ payload"

definition mutation_digest :: "string \<Rightarrow> u64 \<Rightarrow> u32 \<Rightarrow> Bytes \<Rightarrow> string \<Rightarrow> string" where
  "mutation_digest kind expected_revision codec_version payload entity =
     checksum (digest_input kind expected_revision codec_version payload entity)"

section \<open>Both sides of the formats fit\<close>

lemma store_small [simp]: "small (string_limit store_limits)" "small (payload_limit store_limits)"
  by (simp_all add: small_def store_limits_def)

lemma maxima_small [simp]:
  "small kMaximumSelections" "small kMaximumInventoryEntries" "small kMaximumEffectsPerEntry"
  "small kMaximumSpells" "small kMaximumSlots" "small kMaximumAdapters" "small kMaximumCharacterBuilds"
  by (simp_all add: small_def kMaximumSelections_def kMaximumInventoryEntries_def
      kMaximumEffectsPerEntry_def kMaximumSpells_def kMaximumSlots_def kMaximumAdapters_def
      kMaximumCharacterBuilds_def)

lemmas put_leaves = codes_leaves [where L = store_limits, simplified]
lemmas get_leaves = parsed_leaves [where L = store_limits, simplified]

interpretation form: codec store_limits write_form read_form
proof
  show "codes (write_form f) read_form f" for f
    unfolding write_form_def read_form_def by (rule put_leaves codes_end | simp)+
  show "parsed (payload_limit store_limits) inp rest (write_form f)"
    if "read_form inp = Some (f, rest)" for inp rest f
    using that unfolding write_form_def read_form_def
    by (clarsimp simp: r_simps) ((rule get_leaves, assumption)+, rule parsed_done)
qed

lemmas form_leaves = form.write_read [THEN codes_bind] form.read_write [THEN parsed_seq]

interpretation selection: codec store_limits write_selection read_selection
proof
  show "codes (write_selection s) read_selection s" for s
    unfolding write_selection_def read_selection_def by (rule put_leaves codes_end | simp)+
  show "parsed (payload_limit store_limits) inp rest (write_selection s)"
    if "read_selection inp = Some (s, rest)" for inp rest s
    using that unfolding write_selection_def read_selection_def
    by (clarsimp simp: r_simps) ((rule get_leaves, assumption)+, rule parsed_done)
qed

interpretation effect: codec store_limits write_effect read_effect
proof
  show "codes (write_effect e) read_effect e" for e
    unfolding write_effect_def read_effect_def by (rule put_leaves form_leaves codes_end | simp)+
  show "parsed (payload_limit store_limits) inp rest (write_effect e)"
    if "read_effect inp = Some (e, rest)" for inp rest e
    using that unfolding write_effect_def read_effect_def
    by (clarsimp simp: r_simps) ((rule get_leaves form_leaves, assumption)+, rule parsed_done)
qed

lemmas effect_list_leaves = effect.codec_list [OF maxima_small(3), THEN codec_codes]
  effect.codec_list [OF maxima_small(3), THEN codec_parsed]

interpretation entry: codec store_limits write_entry read_entry
proof
  show "codes (write_entry e) read_entry e" for e
    unfolding write_entry_def read_entry_def by (rule put_leaves form_leaves effect_list_leaves codes_end | simp)+
  show "parsed (payload_limit store_limits) inp rest (write_entry e)"
    if "read_entry inp = Some (e, rest)" for inp rest e
    using that unfolding write_entry_def read_entry_def
    by (clarsimp simp: r_simps) ((rule get_leaves form_leaves effect_list_leaves, assumption)+, rule parsed_done)
qed

lemmas build_list_leaves =
  selection.codec_list [OF maxima_small(1), THEN codec_codes]
  selection.codec_list [OF maxima_small(1), THEN codec_parsed]
  entry.codec_list [OF maxima_small(2), THEN codec_codes]
  entry.codec_list [OF maxima_small(2), THEN codec_parsed]
  form.codec_list [OF maxima_small(4), THEN codec_codes]
  form.codec_list [OF maxima_small(4), THEN codec_parsed]

interpretation build: codec store_limits write_character_build_body read_character_build_body
proof
  show "codes (write_character_build_body s) read_character_build_body s" for s
    unfolding write_character_build_body_def read_character_build_body_def by (rule put_leaves form_leaves build_list_leaves codes_end | simp)+
  show "parsed (payload_limit store_limits) inp rest (write_character_build_body s)"
    if "read_character_build_body inp = Some (s, rest)" for inp rest s
    using that unfolding write_character_build_body_def read_character_build_body_def
    by (clarsimp simp: r_simps) ((rule get_leaves form_leaves build_list_leaves, assumption)+, rule parsed_done)
qed

definition write_character_build :: "CharacterBuildState \<Rightarrow> writer" where
  "write_character_build s =
     w_seq [write_raw store_limits (bytes_of_string kCharacterBuildMagic), write_character_build_body s]"

definition read_character_build :: "CharacterBuildState reader" where
  "read_character_build = r_bind (read_magic kCharacterBuildMagic) (\<lambda>_. read_character_build_body)"

interpretation build_payload: codec store_limits write_character_build read_character_build
  unfolding write_character_build_def [abs_def] read_character_build_def by (rule build.codec_magic)

lemma encode_build_iff:
  "encode_character_build s = (Store_None, payload) \<longleftrightarrow> write_character_build s [] = (payload, True)"
  by (auto simp: encode_character_build_def write_character_build_def split: prod.splits)

lemma read_all_iff: "read_all r payload = Inr v \<longleftrightarrow> r payload = Some (v, [])"
  by (auto simp: read_all_def split: option.splits list.splits prod.splits)

lemma decode_build_iff: "decode_character_build payload = Inr s \<longleftrightarrow> read_character_build payload = Some (s, [])"
  by (simp add: decode_character_build_def read_all_iff read_character_build_def)

lemma decode_encoded_build:
  "encode_character_build s = (Store_None, payload) \<Longrightarrow> decode_character_build payload = Inr s"
  using build_payload.round_trip [of s payload "[]"] by (simp add: encode_build_iff decode_build_iff)

lemma encode_decoded_build:
  "decode_character_build payload = Inr s \<Longrightarrow> length payload \<le> payload_limit store_limits \<Longrightarrow>
     encode_character_build s = (Store_None, payload)"
  using build_payload.canonical by (simp add: encode_build_iff decode_build_iff)

interpretation slot_record: codec store_limits write_slot_record read_slot_record
proof
  show "codes (write_slot_record s) read_slot_record s" for s
    unfolding write_slot_record_def read_slot_record_def by (rule put_leaves codes_end | simp)+
  show "parsed (payload_limit store_limits) inp rest (write_slot_record s)"
    if "read_slot_record inp = Some (s, rest)" for inp rest s
    using that unfolding write_slot_record_def read_slot_record_def
    by (clarsimp simp: r_simps) ((rule get_leaves, assumption)+, rule parsed_done)
qed

lemma blob_length: "get_blob inp = Some (bs, rest) \<Longrightarrow> length bs \<le> payload_limit store_limits"
  by (auto simp: read_blob_def r_simps read_raw_def split: if_splits)

interpretation build_blob: codec store_limits write_build_blob read_build_blob
proof
  show "codes (write_build_blob s) read_build_blob s" for s
  proof (cases "encode_character_build s")
    case (Pair e encoded)
    show ?thesis
      unfolding write_build_blob_def read_build_blob_def Pair prod.case
    proof (rule codes_check)
      assume "e = Store_None"
      with Pair have "decode_character_build encoded = Inr s" by (simp add: decode_encoded_build)
      then show "codes (w_seq [put_blob encoded]) (r_bind get_blob (\<lambda>encoded.
          case decode_character_build encoded of Inl e \<Rightarrow> (\<lambda>inp. None) | Inr s \<Rightarrow> r_return s)) s"
        by (intro put_leaves) (simp add: codes_done)
    qed
  qed
  show "parsed (payload_limit store_limits) inp rest (write_build_blob s)"
    if "read_build_blob inp = Some (s, rest)" for inp rest s
  proof -
    from that obtain encoded mid where blob: "get_blob inp = Some (encoded, mid)"
      and "(case decode_character_build encoded of Inl e \<Rightarrow> (\<lambda>inp. None) | Inr s \<Rightarrow> r_return s) mid = Some (s, rest)"
      by (auto simp: read_build_blob_def r_bind_Some)
    then have *: "get_blob inp = Some (encoded, rest)" "decode_character_build encoded = Inr s"
      by (cases "decode_character_build encoded"; simp add: r_return_Some)+
    from encode_decoded_build [OF *(2) blob_length [OF *(1)]] show ?thesis
      unfolding write_build_blob_def
      by (simp add: parsed_check parsed_one codec.read_write [OF codec_blob [OF store_small(2)] *(1)])
  qed
qed

lemma string_codec: "codec store_limits put_string get_string"
  by (rule codec_string) simp

lemmas announced_leaves = codec.codes_announced [OF string_codec, THEN codes_bind]
lemmas optional_leaves = codec.codec_optional [OF string_codec, THEN codec_codes]
  codec.codec_optional [OF string_codec, THEN codec_parsed]

interpretation adapter: codec store_limits write_adapter read_adapter
proof
  show "codes (write_adapter a) read_adapter a" for a
    unfolding write_adapter_def read_adapter_def
    by (rule put_leaves announced_leaves codes_end codes_r_check |
        simp add: audience_code_def split: StateAudience.splits)+
  show "parsed (payload_limit store_limits) inp rest (write_adapter a)"
    if "read_adapter inp = Some (a, rest)" for inp rest a
    using that unfolding write_adapter_def read_adapter_def
    by (auto simp: r_simps audience_code_def dest!: codec.parsed_announced [OF string_codec])
      ((rule get_leaves parsed_seq, assumption)+, rule parsed_done)+
qed

interpretation campaign: codec store_limits write_campaign read_campaign
proof
  show "codes (write_campaign c) read_campaign c" for c
    unfolding write_campaign_def read_campaign_def by (rule put_leaves optional_leaves codes_end | simp)+
  show "parsed (payload_limit store_limits) inp rest (write_campaign c)"
    if "read_campaign inp = Some (c, rest)" for inp rest c
    using that unfolding write_campaign_def read_campaign_def
    by (clarsimp simp: r_simps) ((rule get_leaves optional_leaves, assumption)+, rule parsed_done)
qed

lemmas snapshot_leaves =
  campaign.write_read [THEN codes_bind] campaign.read_write [THEN parsed_seq]
  slot_record.codec_list [OF maxima_small(5), THEN codec_codes]
  slot_record.codec_list [OF maxima_small(5), THEN codec_parsed]
  build_blob.codec_list [OF maxima_small(7), THEN codec_codes]
  build_blob.codec_list [OF maxima_small(7), THEN codec_parsed]
  adapter.codec_list [OF maxima_small(6), THEN codec_codes]
  adapter.codec_list [OF maxima_small(6), THEN codec_parsed]

interpretation snapshot: codec store_limits write_snapshot_body read_snapshot_body
proof
  show "codes (write_snapshot_body p) read_snapshot_body p" for p
    unfolding write_snapshot_body_def read_snapshot_body_def by (rule snapshot_leaves codes_end | simp)+
  show "parsed (payload_limit store_limits) inp rest (write_snapshot_body p)"
    if "read_snapshot_body inp = Some (p, rest)" for inp rest p
    using that unfolding write_snapshot_body_def read_snapshot_body_def
    by (clarsimp simp: r_simps) ((rule snapshot_leaves, assumption)+, rule parsed_done)
qed

definition write_snapshot :: "CampaignProjection \<Rightarrow> writer" where
  "write_snapshot p = w_seq [write_raw store_limits (bytes_of_string kSnapshotMagic),
     w_seq [put_scalar kCampaignSnapshotCodecVersion, write_snapshot_body p]]"

definition read_snapshot :: "CampaignProjection reader" where
  "read_snapshot = r_bind (read_magic kSnapshotMagic) (\<lambda>_. r_bind read_scalar (\<lambda>version.
     r_bind (r_check (version = kCampaignSnapshotCodecVersion)) (\<lambda>_. read_snapshot_body)))"

interpretation snapshot_payload: codec store_limits write_snapshot read_snapshot
  unfolding write_snapshot_def [abs_def] read_snapshot_def
  by (rule codec.codec_magic [OF snapshot.codec_version])

lemma encode_snapshot_iff:
  "encode_snapshot p = (Store_None, payload) \<longleftrightarrow> write_snapshot p [] = (payload, True)"
  by (auto simp: encode_snapshot_def write_snapshot_def w_seq_nested split: prod.splits)

lemma decode_snapshot_iff: "decode_snapshot payload = Inr p \<longleftrightarrow> read_snapshot payload = Some (p, [])"
  by (simp add: decode_snapshot_def read_all_iff read_snapshot_def)

section \<open>The checksum and the digest\<close>

lemma odd_mult_cancel:
  fixes x y :: "'a :: len word"
  assumes "p * q = 1"
  shows "x * p = y * p \<longleftrightarrow> x = y"
  by (metis assms mult.assoc mult.right_neutral)

lemma fnv_prime_inverse: "(1099511628211 :: u64) * 14886173955864302971 = 1"
  by simp

lemma xor_cancel: "(x :: 'a :: len word) XOR y = x XOR z \<longleftrightarrow> y = z"
proof
  assume "x XOR y = x XOR z"
  then have "x XOR (x XOR y) = x XOR (x XOR z)" by simp
  then show "y = z" by (simp add: xor.assoc [symmetric])
qed simp

lemma byte_ucast: "(ucast (b :: u8) :: u64) = ucast c \<longleftrightarrow> b = c"
proof
  assume "(ucast b :: u64) = ucast c"
  then have "uint (ucast b :: u64) = uint (ucast c :: u64)" by simp
  then show "b = c" by (simp add: uint_up_ucast is_up word_uint_eq_iff)
qed simp

lemma fnv_step_injective: "fnv_step h b = fnv_step k b \<longleftrightarrow> h = k"
  unfolding fnv_step_def odd_mult_cancel [OF fnv_prime_inverse]
  using xor_cancel [of "ucast b" h k] by (simp add: xor.commute)

lemma fnv_step_byte: "fnv_step h b = fnv_step h c \<longleftrightarrow> b = c"
  unfolding fnv_step_def odd_mult_cancel [OF fnv_prime_inverse] by (simp add: xor_cancel byte_ucast)

lemma fnv_run_injective: "foldl fnv_step h bs = foldl fnv_step k bs \<longleftrightarrow> h = k"
  by (induction bs arbitrary: h k) (simp_all add: fnv_step_injective)

lemma hex_digit_injective: "i < 16 \<Longrightarrow> j < 16 \<Longrightarrow> hex_digit i = hex_digit j \<longleftrightarrow> i = j"
proof -
  have "distinct ''0123456789abcdef''" by simp
  moreover assume "i < 16" and "j < 16"
  ultimately show ?thesis unfolding hex_digit_def by (subst nth_eq_iff_index_eq) simp_all
qed

lemma hex16_injective: "hex16 h = hex16 k \<longleftrightarrow> h = k"
proof
  assume eq: "hex16 h = hex16 k"
  have nibble: "drop_bit (4 * j) h AND 0xF = drop_bit (4 * j) k AND 0xF" if j: "j < 16" for j
  proof -
    have "hex16 h ! (15 - j) = hex16 k ! (15 - j)" by (simp add: eq)
    then have "hex_digit (unat (drop_bit (4 * j) h AND 0xF)) = hex_digit (unat (drop_bit (4 * j) k AND 0xF))"
      using j nth_upt [of 0 "15 - j" 16] by (simp add: hex16_def del: upt_conv_Cons upt_rec_numeral)
    moreover have "unat (x AND 0xF) < 16" for x :: u64
    proof -
      have "x AND 0xF \<le> 0xF" by (rule word_and_le1)
      then show ?thesis by (simp add: word_le_nat_alt)
    qed
    ultimately show ?thesis by (simp add: hex_digit_injective word_unat_eq_iff)
  qed
  show "h = k"
  proof (rule bit_word_eqI)
    fix n assume "n < LENGTH(64)"
    then have "n div 4 < 16" by simp
    from nibble [OF this] have eq: "bit (drop_bit (4 * (n div 4)) h AND mask 4) (n mod 4) =
        bit (drop_bit (4 * (n div 4)) k AND mask 4) (n mod 4)"
      by (simp add: mask_eq_exp_minus_1)
    have "n mod 4 < 64" by (rule less_trans [OF mod_less_divisor]) simp_all
    with eq show "bit h n = bit k n" by (simp add: bit_and_iff bit_mask_iff bit_drop_bit_eq)
  qed
qed simp

lemma checksum_iff: "checksum p = checksum q \<longleftrightarrow> fnv p = fnv q"
  by (simp add: checksum_def hex16_injective)

lemma split_at_nul:
  assumes "xs @ (0 :: u8) # ys = xs' @ 0 # ys'" and "0 \<notin> set xs" and "0 \<notin> set xs'"
  shows "xs = xs' \<and> ys = ys'"
  using assms
proof (induction xs arbitrary: xs')
  case Nil
  then show ?case by (cases xs') auto
next
  case (Cons x xs)
  then show ?case by (cases xs') auto
qed

lemma nul_free: "0 \<in> set (bytes_of_string s) \<longleftrightarrow> CHR 0x00 \<in> set s"
proof -
  have "(of_char c :: u8) = 0 \<longleftrightarrow> c = CHR 0x00" for c
  proof
    assume "(of_char c :: u8) = 0"
    then have "string_of_bytes (bytes_of_string [c]) = string_of_bytes [0]"
      by (simp add: bytes_of_string_def)
    then show "c = CHR 0x00"
      unfolding bytes_of_string_inverse by (simp add: string_of_bytes_def char_of_def)
  qed (simp add: of_char_def)
  then show ?thesis by (auto simp: bytes_of_string_def image_iff)
qed

lemma digest_input_iff:
  assumes "CHR 0x00 \<notin> set kind" and "CHR 0x00 \<notin> set kind'"
    and "CHR 0x00 \<notin> set entity" and "CHR 0x00 \<notin> set entity'"
  shows "digest_input kind r v payload entity = digest_input kind' r' v' payload' entity' \<longleftrightarrow>
     kind = kind' \<and> r = r' \<and> v = v' \<and> payload = payload' \<and> entity = entity'"
proof
  assume eq: "digest_input kind r v payload entity = digest_input kind' r' v' payload' entity'"
  have "bytes_of_string kind = bytes_of_string kind' \<and>
      scalar_bytes r @ scalar_bytes v @ bytes_of_string entity @ 0 # payload =
      scalar_bytes r' @ scalar_bytes v' @ bytes_of_string entity' @ 0 # payload'"
    using eq assms(1,2) by (intro split_at_nul) (simp_all add: digest_input_def nul_free)
  then have kind: "bytes_of_string kind = bytes_of_string kind'" and "scalar_bytes r = scalar_bytes r'"
    and "scalar_bytes v = scalar_bytes v'"
    and rest: "bytes_of_string entity @ 0 # payload = bytes_of_string entity' @ 0 # payload'"
    by simp_all
  moreover have "bytes_of_string entity = bytes_of_string entity' \<and> payload = payload'"
    using rest assms(3,4) by (intro split_at_nul) (simp_all add: nul_free)
  ultimately show "kind = kind' \<and> r = r' \<and> v = v' \<and> payload = payload' \<and> entity = entity'"
    by (metis bytes_of_string_inverse gather_scalar_bytes whole_bytes_widths(3,4))
qed simp

section \<open>Payloads stay within the limit\<close>

lemma bounded_builds [bounds]:
  "bounded (payload_limit store_limits) (write_form f)"
  "bounded (payload_limit store_limits) (write_selection sel)"
  "bounded (payload_limit store_limits) (write_effect e)"
  "bounded (payload_limit store_limits) (write_entry i)"
  "bounded (payload_limit store_limits) (write_character_build_body s)"
  "bounded (payload_limit store_limits) (write_character_build s)"
  by (simp_all add: write_form_def write_selection_def write_effect_def write_entry_def
      write_character_build_body_def write_character_build_def bounds)

lemma bounded_snapshots [bounds]:
  "bounded (payload_limit store_limits) (write_slot_record r)"
  "bounded (payload_limit store_limits) (write_build_blob b)"
  "bounded (payload_limit store_limits) (write_adapter a)"
  "bounded (payload_limit store_limits) (write_campaign c)"
  "bounded (payload_limit store_limits) (write_snapshot_body p)"
  "bounded (payload_limit store_limits) (write_snapshot p)"
  by (simp_all add: write_slot_record_def write_build_blob_def write_adapter_def write_campaign_def
      write_snapshot_body_def write_snapshot_def bounds split: prod.splits)

lemma bounded_run: "bounded lim w \<Longrightarrow> length (fst (w [])) \<le> lim"
  by (simp add: bounded_def)

section \<open>Examples\<close>

definition example_build :: CharacterBuildState where
  "example_build = \<lparr>cb_slot = ''slot-a'', cb_binding = ''binding-a'', cb_codec_version = 1,
     cb_build_version = 3, cb_race = \<lparr>form_mod = 0, form_base = 0x13746\<rparr>, cb_class = ''mage'',
     cb_selections = [\<lparr>sel_group = ''g'', sel_option = ''o''\<rparr>], cb_inventory = [],
     cb_left_spell = \<lparr>form_mod = 0, form_base = 0\<rparr>, cb_right_spell = \<lparr>form_mod = 0, form_base = 0x12FCD\<rparr>,
     cb_shout = \<lparr>form_mod = 0, form_base = 0\<rparr>, cb_inventory_hash = 7,
     cb_spells = [\<lparr>form_mod = 0, form_base = 0x12FCD\<rparr>], cb_spell_hash = 9, cb_applied = True,
     cb_revision = 2\<rparr>"

definition example_projection :: CampaignProjection where
  "example_projection = \<lparr>pr_campaign = \<lparr>cr_id = ''helgen'', cr_schema_version = 2, cr_revision = 5,
       cr_sealed = True, cr_checkpoint = None, cr_codec_version = 1, cr_payload = [1, 2], cr_created = 10,
       cr_updated = 20\<rparr>,
     pr_slots = [\<lparr>rec_slot = ''slot-a'', rec_player = ''player-a'', rec_binding = ''binding-a''\<rparr>],
     pr_builds = [example_build],
     pr_adapters = [\<lparr>ad_id = ''quests'', ad_version = 1, ad_codec_version = 1,
       ad_audience = AudiencePrivate, ad_player = Some ''player-a'', ad_payload = [3], ad_revision = 5\<rparr>]\<rparr>"

lemma length_scalars [simp]:
  "length (scalar_bytes (v :: u8)) = 1" "length (scalar_bytes (w :: u16)) = 2"
  "length (scalar_bytes (x :: u32)) = 4" "length (scalar_bytes (y :: u64)) = 8"
  by simp_all

lemmas write_defs = encode_character_build_def write_character_build_body_def write_form_def
  write_selection_def write_effect_def write_entry_def write_list_def write_string_def write_blob_def
  write_bool_def write_raw_def write_scalar_def w_check_def w_seq.simps store_limits_def
  kMaximumSelections_def kMaximumInventoryEntries_def kMaximumSpells_def kCharacterBuildMagic_def

lemma example_build_encodes: "fst (encode_character_build example_build) = Store_None"
  by (simp add: write_defs example_build_def)

lemmas snapshot_defs = encode_snapshot_def write_snapshot_body_def write_campaign_def
  write_optional_def write_announced_def write_slot_record_def write_build_blob_def write_adapter_def
  audience_code_def kMaximumSlots_def kMaximumCharacterBuilds_def kMaximumAdapters_def kSnapshotMagic_def

lemma example_snapshot_encodes: "fst (encode_snapshot example_projection) = Store_None"
  by (simp add: write_defs snapshot_defs example_projection_def example_build_def)

section \<open>Properties\<close>

text \<open>
  A stored character build is what was stored: whenever encoding a build succeeds, decoding
  the payload gives the same build, all its selections, items, effects and spells included.
\<close>

theorem character_build_roundtrip:
  assumes "encode_character_build s = (Store_None, payload)"
  shows "decode_character_build payload = Inr s"
  using assms by (rule decode_encoded_build)

theorem character_build_roundtrip_witness:
  "decode_character_build (snd (encode_character_build example_build)) = Inr example_build"
  by (rule character_build_roundtrip) (metis example_build_encodes prod.collapse)

text \<open>
  C33: A stored snapshot is what was stored: whenever encoding a campaign projection succeeds,
  decoding the payload gives the same campaign, slots, character builds and adapter states.
\<close>

theorem snapshot_roundtrip:
  assumes "encode_snapshot p = (Store_None, payload)"
  shows "decode_snapshot payload = Inr p"
  using assms snapshot_payload.round_trip [of p payload "[]"]
  by (simp add: encode_snapshot_iff decode_snapshot_iff)

theorem snapshot_roundtrip_witness:
  "decode_snapshot (snd (encode_snapshot example_projection)) = Inr example_projection"
  by (rule snapshot_roundtrip) (metis example_snapshot_encodes prod.collapse)

text \<open>
  Accepted payloads are canonical: a payload within the size limit that decodes to a build, or
  to a snapshot, is the very payload that encoding the result makes. So a reader accepts no
  truncated, padded or otherwise altered form of a value.
\<close>

theorem accepted_payloads_are_canonical:
  assumes "length payload \<le> payload_limit store_limits"
  shows "(decode_character_build payload = Inr s \<longrightarrow> encode_character_build s = (Store_None, payload)) \<and>
    (decode_snapshot payload = Inr p \<longrightarrow> encode_snapshot p = (Store_None, payload))"
  using assms build_payload.canonical snapshot_payload.canonical
  by (auto simp: encode_build_iff decode_build_iff encode_snapshot_iff decode_snapshot_iff)

theorem accepted_payloads_are_canonical_witness:
  "decode_snapshot [1, 2, 3] \<noteq> Inr example_projection"
proof
  assume "decode_snapshot [1, 2, 3] = Inr example_projection"
  moreover have "length [1 :: u8, 2, 3] \<le> payload_limit store_limits" by (simp add: store_limits_def)
  ultimately have "encode_snapshot example_projection = (Store_None, [1, 2, 3])"
    using accepted_payloads_are_canonical [of "[1, 2, 3]"] by blast
  then have "length (snd (encode_snapshot example_projection)) = 3" by simp
  then show False
    by (simp add: write_defs snapshot_defs example_projection_def example_build_def)
qed

text \<open>
  The checksum is sixteen hexadecimal digits and notices every change of a single byte of the
  payload, wherever it is and whatever surrounds it.
\<close>

theorem checksum_notices_a_changed_byte:
  "length (checksum payload) = 16 \<and> set (checksum payload) \<subseteq> set ''0123456789abcdef'' \<and>
   (checksum (pre @ b # post) = checksum (pre @ c # post) \<longleftrightarrow> b = c)"
proof (intro conjI)
  show "length (checksum payload) = 16" by (simp add: checksum_def hex16_def)
  show "set (checksum payload) \<subseteq> set ''0123456789abcdef''"
  proof
    fix d assume "d \<in> set (checksum payload)"
    then obtain x :: u64 where d: "d = hex_digit (unat (x AND 0xF))"
      by (auto simp: checksum_def hex16_def)
    have "x AND 0xF \<le> 0xF" by (rule word_and_le1)
    then have "unat (x AND 0xF) < length ''0123456789abcdef''" by (simp add: word_le_nat_alt)
    then show "d \<in> set ''0123456789abcdef''" unfolding d hex_digit_def by (rule nth_mem)
  qed
  show "checksum (pre @ b # post) = checksum (pre @ c # post) \<longleftrightarrow> b = c"
    by (simp add: checksum_iff fnv_def fnv_run_injective fnv_step_byte)
qed

text \<open>
  The digest of a mutation covers all of it unambiguously: for kinds and entities without a
  NUL character, two mutations feed the same bytes to the hash only if kind, expected revision,
  codec version, payload and entity are all the same.
\<close>

theorem digest_input_unambiguous:
  assumes "CHR 0x00 \<notin> set kind" and "CHR 0x00 \<notin> set kind'"
    and "CHR 0x00 \<notin> set entity" and "CHR 0x00 \<notin> set entity'"
  shows "mutation_digest kind r v payload entity = checksum (digest_input kind r v payload entity) \<and>
    (digest_input kind r v payload entity = digest_input kind' r' v' payload' entity' \<longleftrightarrow>
      kind = kind' \<and> r = r' \<and> v = v' \<and> payload = payload' \<and> entity = entity')"
  using digest_input_iff [OF assms] by (simp add: mutation_digest_def)

theorem digest_input_unambiguous_witness:
  "digest_input ''ab'' 1 1 [0] ''c'' \<noteq> digest_input ''a'' 1 1 [0] ''bc''"
  using digest_input_unambiguous [of "''ab''" "''a''" "''c''" "''bc''" 1 1 "[0]" 1 1 "[0]"] by simp

text \<open>
  C39: No payload grows past the four megabytes of the store, whether the encoding succeeds or is
  given up half way.
\<close>

theorem encoded_within_limit:
  "length (snd (encode_character_build s)) \<le> payload_limit store_limits \<and>
   length (snd (encode_snapshot p)) \<le> payload_limit store_limits"
  using bounded_run [OF bounded_builds(6), of s] bounded_run [OF bounded_snapshots(6), of p]
  by (auto simp: encode_character_build_def write_character_build_def encode_snapshot_def
      write_snapshot_def w_seq_nested split: prod.splits)

end
