(* ===== verification/CampaignState.thy ===== *)
theory CampaignState
  imports Prelude "HOL-Library.Char_ord" "HOL-Library.List_Lexorder"
begin

text \<open>
  \<open>campaign_runtime/CampaignState.{h,cpp}\<close>: the campaign aggregate (roster, phase, session
  manager, version) and the state machine of its operations. A method that takes the aggregate by
  reference is a function to the new aggregate and its result; the message texts of the results
  are left out. \<open>None\<close> of \<open>CampaignError\<close> and \<open>FullRosterFailure\<close> are \<open>NoCampaignError\<close> and
  \<open>NoRosterFailure\<close>; the ids are the strings in the \<open>DurableId\<close>s of \<open>CampaignTypes.h\<close>.
\<close>

type_synonym StateVersion = u64
type_synonym CampaignId = string
type_synonym CampaignSlotId = string
type_synonym DurablePlayerId = string
type_synonym CharacterBindingId = string

definition kMaximumCampaignRosterSize :: nat where "kMaximumCampaignRosterSize = 10"

datatype CampaignPhase =
    Lobby | CharacterCreation | Arrival | Gathering | ValenIntroduction | ClassSelection
  | ReadyCheck | Departure | OpenWorld

datatype CampaignRuntimeState =
    WAITING_FOR_ROSTER | ACTIVE | CHECKPOINTING | RECOVERY_LOCK | RESTORING_CHECKPOINT

datatype CampaignError =
    NoCampaignError | InvalidIdentity | InvalidRoster | RosterLimitExceeded | DuplicateSlot
  | DuplicatePlayer | DuplicateCharacterBinding | SlotNotFound | RosterSealed | RosterNotSealed
  | InvalidPhase | InvalidSessionManager | UnauthorizedActor | NotCampaignMember
  | RosterIncomplete | TransitionNotImplemented | CheckpointInProgress | CheckpointNotActive
  | CheckpointMismatch | InvalidCheckpointArtifact | RecoveryInProgress | RecoveryNotActive
  | RecoveryMismatch | NoCommittedCheckpoint | CampaignStaleRevision | PersistenceFailure
  | IntegrityFailure

record CampaignDomainResult =
  dom_error :: CampaignError
  dom_changed :: bool

definition dom_succeeded :: "CampaignDomainResult \<Rightarrow> bool" where
  "dom_succeeded r \<longleftrightarrow> dom_error r = NoCampaignError"

definition dom_failure :: "CampaignError \<Rightarrow> CampaignDomainResult" where
  "dom_failure e = \<lparr>dom_error = e, dom_changed = False\<rparr>"

definition dom_ok :: CampaignDomainResult where
  "dom_ok = \<lparr>dom_error = NoCampaignError, dom_changed = False\<rparr>"

definition dom_advanced :: CampaignDomainResult where
  "dom_advanced = \<lparr>dom_error = NoCampaignError, dom_changed = True\<rparr>"

record CampaignSlotState =
  slot_id :: CampaignSlotId
  slot_player :: DurablePlayerId
  slot_binding :: CharacterBindingId
  slot_ready :: bool

record CampaignAggregate =
  c_id :: CampaignId
  c_version :: StateVersion
  c_phase :: CampaignPhase
  c_sealed :: bool
  c_manager :: "DurablePlayerId option"
  c_roster :: "CampaignSlotState list"

record CampaignMemberIdentity =
  mi_campaign :: CampaignId
  mi_slot :: CampaignSlotId
  mi_player :: DurablePlayerId
  mi_binding :: CharacterBindingId

record CampaignMemberPresence =
  mp_identity :: CampaignMemberIdentity
  transport_connected :: bool
  campaign_admitted :: bool

datatype FullRosterFailure =
    NoRosterFailure | CampaignNotSealed | EmptyRoster | MissingMember | ExtraMember
  | WrongCampaign | WrongSlot | WrongPlayer | WrongCharacterBinding | DuplicateActiveIdentity
  | AdmittedWithoutTransport

datatype CampaignActorKind = ActorServer | ActorPlayer

record CampaignActor =
  actor_kind :: CampaignActorKind
  actor_player :: "DurablePlayerId option"

datatype CampaignTransition =
    CommitCampaignStart | CompleteCharacterCreation | CompleteArrival | BeginValenIntroduction
  | CompleteValenIntroduction | BeginReadyCheck | AuthorizeDeparture | EnterOpenWorld

datatype CampaignTransitionAuthority = AuthorityServer | AuthoritySessionManager

datatype CampaignTransitionIntent =
    CampaignStarted | PhaseAdvanced | DepartureAuthorized | OpenWorldEntered

record CampaignTransitionPolicy =
  tp_transition :: CampaignTransition
  tp_source :: CampaignPhase
  tp_target :: CampaignPhase
  tp_authority :: CampaignTransitionAuthority
  tp_intent :: CampaignTransitionIntent
  requires_sealed_roster :: bool
  requires_full_roster :: bool
  requires_all_ready :: bool
  tp_implemented :: bool

section \<open>Validation and lookup\<close>

definition is_valid_identity :: "string \<Rightarrow> bool" where
  "is_valid_identity v \<longleftrightarrow>
     v \<noteq> [] \<and> length v \<le> 128 \<and> list_all (\<lambda>c. 0x21 \<le> (of_char c :: nat) \<and> of_char c \<le> (0x7E :: nat)) v"

definition require_mutable_lobby :: "CampaignAggregate \<Rightarrow> CampaignError" where
  "require_mutable_lobby c =
     (if c_sealed c then RosterSealed
      else if c_phase c \<noteq> Lobby then InvalidPhase
      else NoCampaignError)"

definition advance_version :: "CampaignAggregate \<Rightarrow> CampaignAggregate \<times> CampaignDomainResult" where
  "advance_version c =
     (if c_version c = - 1 then (c, dom_failure IntegrityFailure)
      else (c\<lparr>c_version := c_version c + 1\<rparr>, dom_advanced))"

definition find_by_player :: "CampaignAggregate \<Rightarrow> DurablePlayerId \<Rightarrow> CampaignSlotState option" where
  "find_by_player c p = find (\<lambda>s. slot_player s = p) (c_roster c)"

definition find_by_slot :: "CampaignAggregate \<Rightarrow> CampaignSlotId \<Rightarrow> CampaignSlotState option" where
  "find_by_slot c i = find (\<lambda>s. slot_id s = i) (c_roster c)"

definition is_roster_member :: "CampaignAggregate \<Rightarrow> DurablePlayerId \<Rightarrow> bool" where
  "is_roster_member c p \<longleftrightarrow> find_by_player c p \<noteq> None"

text \<open>The loop of \<open>ValidateRoster\<close>, with the three sets of identities seen so far.\<close>

fun validate_slots ::
  "string list \<Rightarrow> string list \<Rightarrow> string list \<Rightarrow> CampaignSlotState list \<Rightarrow> CampaignError" where
  "validate_slots slots players bindings [] = NoCampaignError"
| "validate_slots slots players bindings (s # ss) =
     (if \<not> is_valid_identity (slot_id s) \<or> \<not> is_valid_identity (slot_player s)
         \<or> \<not> is_valid_identity (slot_binding s) then InvalidIdentity
      else if slot_id s \<in> set slots then DuplicateSlot
      else if slot_player s \<in> set players then DuplicatePlayer
      else if slot_binding s \<in> set bindings then DuplicateCharacterBinding
      else validate_slots (slot_id s # slots) (slot_player s # players) (slot_binding s # bindings) ss)"

definition validate_roster :: "CampaignSlotState list \<Rightarrow> bool \<Rightarrow> CampaignError" where
  "validate_roster roster allow_empty =
     (if roster = [] \<and> \<not> allow_empty then InvalidRoster
      else if length roster > kMaximumCampaignRosterSize then RosterLimitExceeded
      else validate_slots [] [] [] roster)"

definition sort_roster :: "CampaignSlotState list \<Rightarrow> CampaignSlotState list" where
  "sort_roster roster = sort_key slot_id roster"

section \<open>Changing the roster\<close>

definition replace_roster ::
  "CampaignSlotState list \<Rightarrow> CampaignAggregate \<Rightarrow> CampaignAggregate \<times> CampaignDomainResult" where
  "replace_roster roster c =
     (let lobby = require_mutable_lobby c; validation = validate_roster roster True in
      if lobby \<noteq> NoCampaignError then (c, dom_failure lobby)
      else if validation \<noteq> NoCampaignError then (c, dom_failure validation)
      else
        let roster = map (\<lambda>s. s\<lparr>slot_ready := False\<rparr>) (sort_roster roster) in
        if c_roster c = roster then (c, dom_ok)
        else
          let previous = c_roster c; (c, advanced) = advance_version (c\<lparr>c_roster := roster\<rparr>) in
          (if dom_succeeded advanced then c else c\<lparr>c_roster := previous\<rparr>, advanced))"

fun slot_conflict :: "CampaignSlotState \<Rightarrow> CampaignSlotState list \<Rightarrow> CampaignError" where
  "slot_conflict s [] = NoCampaignError"
| "slot_conflict s (x # xs) =
     (if slot_id x = slot_id s then DuplicateSlot
      else if slot_player x = slot_player s then DuplicatePlayer
      else if slot_binding x = slot_binding s then DuplicateCharacterBinding
      else slot_conflict s xs)"

definition add_slot ::
  "CampaignSlotState \<Rightarrow> CampaignAggregate \<Rightarrow> CampaignAggregate \<times> CampaignDomainResult" where
  "add_slot s c =
     (let lobby = require_mutable_lobby c; conflict = slot_conflict s (c_roster c) in
      if lobby \<noteq> NoCampaignError then (c, dom_failure lobby)
      else if length (c_roster c) \<ge> kMaximumCampaignRosterSize then (c, dom_failure RosterLimitExceeded)
      else if conflict \<noteq> NoCampaignError then (c, dom_failure conflict)
      else replace_roster (c_roster c @ [s\<lparr>slot_ready := False\<rparr>]) c)"

definition remove_slot ::
  "CampaignSlotId \<Rightarrow> CampaignAggregate \<Rightarrow> CampaignAggregate \<times> CampaignDomainResult" where
  "remove_slot i c =
     (let lobby = require_mutable_lobby c in
      if lobby \<noteq> NoCampaignError then (c, dom_failure lobby)
      else if find (\<lambda>s. slot_id s = i) (c_roster c) = None then (c, dom_failure SlotNotFound)
      else replace_roster (erase_first (\<lambda>s. slot_id s = i) (c_roster c)) c)"

text \<open>The conflict loop of \<open>ReplaceSlot\<close> skips the slot itself.\<close>

fun replacement_conflict :: "CampaignSlotState \<Rightarrow> CampaignSlotState list \<Rightarrow> CampaignError" where
  "replacement_conflict s [] = NoCampaignError"
| "replacement_conflict s (x # xs) =
     (if slot_id x = slot_id s then replacement_conflict s xs
      else if slot_player x = slot_player s then DuplicatePlayer
      else if slot_binding x = slot_binding s then DuplicateCharacterBinding
      else replacement_conflict s xs)"

definition replace_slot ::
  "CampaignSlotState \<Rightarrow> CampaignAggregate \<Rightarrow> CampaignAggregate \<times> CampaignDomainResult" where
  "replace_slot s c =
     (let lobby = require_mutable_lobby c in
      if lobby \<noteq> NoCampaignError then (c, dom_failure lobby)
      else case find (\<lambda>x. slot_id x = slot_id s) (c_roster c) of
        None \<Rightarrow> (c, dom_failure SlotNotFound)
      | Some existing \<Rightarrow>
          let conflict = replacement_conflict s (c_roster c); s = s\<lparr>slot_ready := False\<rparr> in
          if conflict \<noteq> NoCampaignError then (c, dom_failure conflict)
          else if existing = s then (c, dom_ok)
          else replace_roster (update_first (\<lambda>x. slot_id x = slot_id s) (\<lambda>_. s) (c_roster c)) c)"

section \<open>Presence and transitions\<close>

text \<open>The loop of \<open>EvaluateFullRoster\<close>, with the identities that are active so far.\<close>

fun check_presence ::
  "CampaignAggregate \<Rightarrow> string list \<Rightarrow> string list \<Rightarrow> string list \<Rightarrow> CampaignMemberPresence list \<Rightarrow>
     FullRosterFailure" where
  "check_presence c slots players bindings [] =
     (if length slots \<noteq> length (c_roster c) then MissingMember else NoRosterFailure)"
| "check_presence c slots players bindings (p # ps) =
     (let i = mp_identity p; by_slot = find_by_slot c (mi_slot i); by_player = find_by_player c (mi_player i) in
      if \<not> campaign_admitted p then check_presence c slots players bindings ps
      else if \<not> transport_connected p then AdmittedWithoutTransport
      else if mi_campaign i \<noteq> c_id c then WrongCampaign
      else case by_slot of
        None \<Rightarrow> if by_player \<noteq> None then WrongSlot else ExtraMember
      | Some expected \<Rightarrow>
          if slot_player expected \<noteq> mi_player i then WrongPlayer
          else if slot_binding expected \<noteq> mi_binding i then WrongCharacterBinding
          else if mi_slot i \<in> set slots \<or> mi_player i \<in> set players \<or> mi_binding i \<in> set bindings
          then DuplicateActiveIdentity
          else check_presence c (mi_slot i # slots) (mi_player i # players) (mi_binding i # bindings) ps)"

definition evaluate_full_roster ::
  "CampaignAggregate \<Rightarrow> CampaignMemberPresence list \<Rightarrow> FullRosterFailure" where
  "evaluate_full_roster c ps =
     (if \<not> c_sealed c then CampaignNotSealed
      else if c_roster c = [] then EmptyRoster
      else check_presence c [] [] [] ps)"

definition determine_runtime_state ::
  "CampaignAggregate \<Rightarrow> CampaignMemberPresence list \<Rightarrow> CampaignRuntimeState" where
  "determine_runtime_state c ps =
     (if evaluate_full_roster c ps = NoRosterFailure then ACTIVE else WAITING_FOR_ROSTER)"

fun get_transition_policy :: "CampaignTransition \<Rightarrow> CampaignTransitionPolicy" where
  "get_transition_policy CommitCampaignStart =
     \<lparr>tp_transition = CommitCampaignStart, tp_source = Lobby, tp_target = CharacterCreation,
      tp_authority = AuthorityServer, tp_intent = CampaignStarted, requires_sealed_roster = False,
      requires_full_roster = False, requires_all_ready = False, tp_implemented = True\<rparr>"
| "get_transition_policy CompleteCharacterCreation =
     \<lparr>tp_transition = CompleteCharacterCreation, tp_source = CharacterCreation, tp_target = Arrival,
      tp_authority = AuthorityServer, tp_intent = PhaseAdvanced, requires_sealed_roster = True,
      requires_full_roster = True, requires_all_ready = False, tp_implemented = False\<rparr>"
| "get_transition_policy CompleteArrival =
     \<lparr>tp_transition = CompleteArrival, tp_source = Arrival, tp_target = Gathering,
      tp_authority = AuthorityServer, tp_intent = PhaseAdvanced, requires_sealed_roster = True,
      requires_full_roster = True, requires_all_ready = False, tp_implemented = False\<rparr>"
| "get_transition_policy BeginValenIntroduction =
     \<lparr>tp_transition = BeginValenIntroduction, tp_source = Gathering, tp_target = ValenIntroduction,
      tp_authority = AuthoritySessionManager, tp_intent = PhaseAdvanced, requires_sealed_roster = True,
      requires_full_roster = True, requires_all_ready = False, tp_implemented = False\<rparr>"
| "get_transition_policy CompleteValenIntroduction =
     \<lparr>tp_transition = CompleteValenIntroduction, tp_source = ValenIntroduction, tp_target = ClassSelection,
      tp_authority = AuthorityServer, tp_intent = PhaseAdvanced, requires_sealed_roster = True,
      requires_full_roster = True, requires_all_ready = False, tp_implemented = False\<rparr>"
| "get_transition_policy BeginReadyCheck =
     \<lparr>tp_transition = BeginReadyCheck, tp_source = ClassSelection, tp_target = ReadyCheck,
      tp_authority = AuthoritySessionManager, tp_intent = PhaseAdvanced, requires_sealed_roster = True,
      requires_full_roster = True, requires_all_ready = False, tp_implemented = False\<rparr>"
| "get_transition_policy AuthorizeDeparture =
     \<lparr>tp_transition = AuthorizeDeparture, tp_source = ReadyCheck, tp_target = Departure,
      tp_authority = AuthoritySessionManager, tp_intent = DepartureAuthorized, requires_sealed_roster = True,
      requires_full_roster = True, requires_all_ready = True, tp_implemented = False\<rparr>"
| "get_transition_policy EnterOpenWorld =
     \<lparr>tp_transition = EnterOpenWorld, tp_source = Departure, tp_target = OpenWorld,
      tp_authority = AuthorityServer, tp_intent = OpenWorldEntered, requires_sealed_roster = True,
      requires_full_roster = True, requires_all_ready = False, tp_implemented = False\<rparr>"

definition evaluate_transition ::
  "CampaignAggregate \<Rightarrow> CampaignTransition \<Rightarrow> CampaignActor \<Rightarrow> CampaignMemberPresence list \<Rightarrow> CampaignError" where
  "evaluate_transition c t actor ps =
     (let policy = get_transition_policy t in
      if c_phase c \<noteq> tp_source policy then InvalidPhase
      else if requires_sealed_roster policy \<and> \<not> c_sealed c then RosterNotSealed
      else if tp_authority policy = AuthorityServer \<and> actor_kind actor \<noteq> ActorServer then UnauthorizedActor
      else if tp_authority policy \<noteq> AuthorityServer \<and>
        (actor_kind actor \<noteq> ActorPlayer \<or> actor_player actor = None) then UnauthorizedActor
      else if tp_authority policy \<noteq> AuthorityServer \<and>
        (c_manager c = None \<or> c_manager c \<noteq> actor_player actor) then UnauthorizedActor
      else if requires_full_roster policy \<and> evaluate_full_roster c ps \<noteq> NoRosterFailure
      then RosterIncomplete
      else if requires_all_ready policy \<and> \<not> list_all slot_ready (c_roster c) then RosterIncomplete
      else if \<not> tp_implemented policy then TransitionNotImplemented
      else NoCampaignError)"

section \<open>Starting a campaign and its members\<close>

definition commit_campaign_start ::
  "CampaignActor \<Rightarrow> DurablePlayerId \<Rightarrow> CampaignAggregate \<Rightarrow> CampaignAggregate \<times> CampaignDomainResult" where
  "commit_campaign_start actor manager c =
     (let transition = evaluate_transition c CommitCampaignStart actor [];
          roster = validate_roster (c_roster c) False in
      if c_sealed c then (c, dom_failure RosterSealed)
      else if transition \<noteq> NoCampaignError then (c, dom_failure transition)
      else if roster \<noteq> NoCampaignError then (c, dom_failure roster)
      else if \<not> is_valid_identity manager \<or> \<not> is_roster_member c manager
      then (c, dom_failure InvalidSessionManager)
      else
        let (c, advanced) = advance_version
              (c\<lparr>c_sealed := True, c_manager := Some manager, c_phase := CharacterCreation\<rparr>) in
        (if dom_succeeded advanced then c
         else c\<lparr>c_sealed := False, c_manager := None, c_phase := Lobby\<rparr>, advanced))"

definition transfer_session_manager ::
  "DurablePlayerId \<Rightarrow> DurablePlayerId \<Rightarrow> CampaignAggregate \<Rightarrow> CampaignAggregate \<times> CampaignDomainResult" where
  "transfer_session_manager actor new_manager c =
     (if c_manager c \<noteq> Some actor then (c, dom_failure UnauthorizedActor)
      else if \<not> is_roster_member c new_manager then (c, dom_failure InvalidSessionManager)
      else if c_manager c = Some new_manager then (c, dom_ok)
      else advance_version (c\<lparr>c_manager := Some new_manager\<rparr>))"

definition owns_slot :: "CampaignMemberIdentity \<Rightarrow> CampaignSlotState \<Rightarrow> bool" where
  "owns_slot i s \<longleftrightarrow> slot_id s = mi_slot i \<and> slot_player s = mi_player i \<and> slot_binding s = mi_binding i"

definition set_ready ::
  "CampaignMemberIdentity \<Rightarrow> bool \<Rightarrow> CampaignAggregate \<Rightarrow> CampaignAggregate \<times> CampaignDomainResult" where
  "set_ready i ready c =
     (if \<not> c_sealed c then (c, dom_failure RosterNotSealed)
      else if mi_campaign i \<noteq> c_id c then (c, dom_failure NotCampaignMember)
      else case find (owns_slot i) (c_roster c) of
        None \<Rightarrow> (c, dom_failure NotCampaignMember)
      | Some s \<Rightarrow>
          if slot_ready s = ready then (c, dom_ok)
          else advance_version
            (c\<lparr>c_roster := update_first (owns_slot i) (\<lambda>s. s\<lparr>slot_ready := ready\<rparr>) (c_roster c)\<rparr>))"

text \<open>The aggregate that \<open>CampaignRuntimeService::CreateLobbyCampaign\<close> makes, before it is stored.\<close>

definition new_lobby_campaign ::
  "CampaignId \<Rightarrow> CampaignSlotState list \<Rightarrow> CampaignError + CampaignAggregate" where
  "new_lobby_campaign i initial =
     (let roster = sort_roster (map (\<lambda>s. s\<lparr>slot_ready := False\<rparr>) initial);
          c = \<lparr>c_id = i, c_version = 1, c_phase = Lobby, c_sealed = False, c_manager = None,
               c_roster = roster\<rparr>;
          e = validate_roster roster True in
      if e \<noteq> NoCampaignError then Inl e else Inr c)"

section \<open>The aggregate driven by a sequence of operations\<close>

datatype CampaignOp =
    OpReplaceRoster "CampaignSlotState list"
  | OpAddSlot CampaignSlotState
  | OpRemoveSlot CampaignSlotId
  | OpReplaceSlot CampaignSlotState
  | OpCommitStart CampaignActor DurablePlayerId
  | OpTransferManager DurablePlayerId DurablePlayerId
  | OpSetReady CampaignMemberIdentity bool

fun campaign_perform :: "CampaignAggregate \<Rightarrow> CampaignOp \<Rightarrow> CampaignAggregate \<times> CampaignDomainResult" where
  "campaign_perform c (OpReplaceRoster r) = replace_roster r c"
| "campaign_perform c (OpAddSlot s) = add_slot s c"
| "campaign_perform c (OpRemoveSlot i) = remove_slot i c"
| "campaign_perform c (OpReplaceSlot s) = replace_slot s c"
| "campaign_perform c (OpCommitStart a m) = commit_campaign_start a m c"
| "campaign_perform c (OpTransferManager a m) = transfer_session_manager a m c"
| "campaign_perform c (OpSetReady i b) = set_ready i b c"

section \<open>What a roster has to be\<close>

definition slot_ids_valid :: "CampaignSlotState \<Rightarrow> bool" where
  "slot_ids_valid s \<longleftrightarrow>
     is_valid_identity (slot_id s) \<and> is_valid_identity (slot_player s) \<and> is_valid_identity (slot_binding s)"

definition valid_roster :: "CampaignSlotState list \<Rightarrow> bool" where
  "valid_roster roster \<longleftrightarrow>
     length roster \<le> 10 \<and> list_all slot_ids_valid roster \<and> distinct (map slot_id roster) \<and>
     distinct (map slot_player roster) \<and> distinct (map slot_binding roster)"

lemma validate_slots_iff:
  "validate_slots S P B ss = NoCampaignError \<longleftrightarrow>
     list_all slot_ids_valid ss \<and>
     distinct (map slot_id ss) \<and> slot_id ` set ss \<inter> set S = {} \<and>
     distinct (map slot_player ss) \<and> slot_player ` set ss \<inter> set P = {} \<and>
     distinct (map slot_binding ss) \<and> slot_binding ` set ss \<inter> set B = {}"
proof (induction ss arbitrary: S P B)
  case (Cons s ss)
  show ?case
    by (simp add: Cons slot_ids_valid_def) blast
qed simp

lemma validate_roster_iff:
  "validate_roster roster e = NoCampaignError \<longleftrightarrow> (roster = [] \<longrightarrow> e) \<and> valid_roster roster"
  by (auto simp: validate_roster_def validate_slots_iff valid_roster_def kMaximumCampaignRosterSize_def)

text \<open>The roster that \<open>ReplaceRoster\<close> stores: sorted by slot, nobody ready.\<close>

definition canonical_roster :: "CampaignSlotState list \<Rightarrow> bool" where
  "canonical_roster roster \<longleftrightarrow> valid_roster roster \<and> sorted_wrt (<) (map slot_id roster)"

abbreviation unready :: "CampaignSlotState \<Rightarrow> CampaignSlotState" where
  "unready s \<equiv> s\<lparr>slot_ready := False\<rparr>"

lemma unready_fields [simp]:
  "slot_id \<circ> unready = slot_id" "slot_player \<circ> unready = slot_player"
  "slot_binding \<circ> unready = slot_binding"
  by (simp_all add: fun_eq_iff)

lemma slot_ids_valid_ready [simp]: "slot_ids_valid (s\<lparr>slot_ready := b\<rparr>) \<longleftrightarrow> slot_ids_valid s"
  by (simp add: slot_ids_valid_def)

lemma valid_roster_unready [simp]: "valid_roster (map unready roster) \<longleftrightarrow> valid_roster roster"
  by (simp add: valid_roster_def list_all_iff)

lemma valid_roster_sort [simp]: "valid_roster (sort_roster roster) \<longleftrightarrow> valid_roster roster"
  by (simp add: valid_roster_def sort_roster_def list_all_iff)

lemma canonical_sorted [simp]:
  "canonical_roster (map unready (sort_roster roster)) \<longleftrightarrow> valid_roster roster"
  by (auto simp: canonical_roster_def strict_sorted_map_sort_key sort_roster_def
      valid_roster_def list_all_iff)

section \<open>The life of a campaign, as a step relation\<close>

text \<open>
  What an operation may do to a campaign, without the error codes, the order of the checks or
  the data they need: in an open lobby the roster is replaced by a canonical one, once it is
  sealed only the manager moves among the members and a member's readiness flips, and nothing
  ever unseals it. \<open>next_version\<close> saturates.
\<close>

definition next_version :: "StateVersion \<Rightarrow> StateVersion" where
  "next_version v = (if v = - 1 then v else v + 1)"

inductive campaign_step :: "CampaignAggregate \<Rightarrow> CampaignAggregate \<Rightarrow> bool" where
  edit: "\<not> c_sealed c \<Longrightarrow> c_phase c = Lobby \<Longrightarrow> canonical_roster roster \<Longrightarrow>
    list_all (\<lambda>s. \<not> slot_ready s) roster \<Longrightarrow> c_version c \<noteq> - 1 \<Longrightarrow>
    campaign_step c (c\<lparr>c_roster := roster, c_version := next_version (c_version c)\<rparr>)"
| start: "\<not> c_sealed c \<Longrightarrow> c_phase c = Lobby \<Longrightarrow> valid_roster (c_roster c) \<Longrightarrow>
    m \<in> slot_player ` set (c_roster c) \<Longrightarrow> c_version c \<noteq> - 1 \<Longrightarrow>
    campaign_step c (c\<lparr>c_sealed := True, c_manager := Some m, c_phase := CharacterCreation,
      c_version := next_version (c_version c)\<rparr>)"
| transfer: "c_manager c = Some a \<Longrightarrow> m \<in> slot_player ` set (c_roster c) \<Longrightarrow> m \<noteq> a \<Longrightarrow>
    campaign_step c (c\<lparr>c_manager := Some m, c_version := next_version (c_version c)\<rparr>)"
| ready: "c_sealed c \<Longrightarrow> find (owns_slot i) (c_roster c) = Some s \<Longrightarrow> mi_campaign i = c_id c \<Longrightarrow>
    slot_ready s \<noteq> b \<Longrightarrow>
    campaign_step c (c\<lparr>c_roster := update_first (owns_slot i) (\<lambda>s. s\<lparr>slot_ready := b\<rparr>) (c_roster c),
      c_version := next_version (c_version c)\<rparr>)"

inductive_cases campaign_stepE: "campaign_step c c'"

lemma require_mutable_lobby_iff:
  "require_mutable_lobby c = NoCampaignError \<longleftrightarrow> \<not> c_sealed c \<and> c_phase c = Lobby"
  by (simp add: require_mutable_lobby_def)

lemma advance_version_simps:
  "fst (advance_version c) = c\<lparr>c_version := next_version (c_version c)\<rparr>"
  "snd (advance_version c) = (if c_version c = - 1 then dom_failure IntegrityFailure else dom_advanced)"
  by (simp_all add: advance_version_def next_version_def)

lemma dom_result_simps [simp]:
  "dom_changed (dom_failure e) = False" "dom_changed dom_ok = False" "dom_changed dom_advanced"
  "dom_succeeded (dom_failure e) = (e = NoCampaignError)" "dom_succeeded dom_ok" "dom_succeeded dom_advanced"
  by (simp_all add: dom_failure_def dom_ok_def dom_advanced_def dom_succeeded_def)

text \<open>The four roster operations are all a call of \<open>ReplaceRoster\<close>, or do nothing.\<close>

lemma replace_roster_simps:
  assumes "require_mutable_lobby c = NoCampaignError" and "valid_roster roster"
  defines "new \<equiv> map unready (sort_roster roster)"
  shows "replace_roster roster c =
    (if c_roster c = new then (c, dom_ok)
     else if c_version c = - 1 then (c, dom_failure IntegrityFailure)
     else (c\<lparr>c_roster := new, c_version := c_version c + 1\<rparr>, dom_advanced))"
  using assms(1,2)
  by (simp add: replace_roster_def validate_roster_iff advance_version_def new_def)

lemma replace_roster_outcome:
  "fst (replace_roster roster c) = c \<and> \<not> dom_changed (snd (replace_roster roster c)) \<or>
   campaign_step c (fst (replace_roster roster c)) \<and> snd (replace_roster roster c) = dom_advanced \<and>
   c_version c \<noteq> - 1"
proof (cases "require_mutable_lobby c = NoCampaignError \<and> valid_roster roster")
  case True
  then have "list_all (\<lambda>s. \<not> slot_ready s) (map unready (sort_roster roster))"
    by (simp add: list_all_iff)
  with True show ?thesis
    using campaign_step.edit [of c "map unready (sort_roster roster)"]
    by (simp add: replace_roster_simps require_mutable_lobby_iff next_version_def)
next
  case False
  then show ?thesis by (auto simp: replace_roster_def validate_roster_iff)
qed

lemma find_player_iff: "is_roster_member c p \<longleftrightarrow> p \<in> slot_player ` set (c_roster c)"
  by (auto simp: is_roster_member_def find_by_player_def find_None_iff)

lemma commit_start_simps:
  "commit_campaign_start actor m c =
    (if c_sealed c then (c, dom_failure RosterSealed)
     else if c_phase c \<noteq> Lobby then (c, dom_failure InvalidPhase)
     else if actor_kind actor \<noteq> ActorServer then (c, dom_failure UnauthorizedActor)
     else if validate_roster (c_roster c) False \<noteq> NoCampaignError
     then (c, dom_failure (validate_roster (c_roster c) False))
     else if \<not> is_valid_identity m \<or> \<not> is_roster_member c m then (c, dom_failure InvalidSessionManager)
     else if c_version c = - 1
     then (c\<lparr>c_sealed := False, c_manager := None, c_phase := Lobby\<rparr>, dom_failure IntegrityFailure)
     else (c\<lparr>c_sealed := True, c_manager := Some m, c_phase := CharacterCreation,
       c_version := c_version c + 1\<rparr>, dom_advanced))"
  by (simp add: commit_campaign_start_def evaluate_transition_def advance_version_def)


section \<open>The invariant\<close>

definition campaign_wf :: "CampaignAggregate \<Rightarrow> bool" where
  "campaign_wf c \<longleftrightarrow>
     canonical_roster (c_roster c) \<and>
     (if c_sealed c
      then c_phase c = CharacterCreation \<and>
        (case c_manager c of None \<Rightarrow> False | Some m \<Rightarrow> list_ex (\<lambda>s. slot_player s = m) (c_roster c))
      else c_phase c = Lobby \<and> c_manager c = None \<and> list_all (\<lambda>s. \<not> slot_ready s) (c_roster c))"

lemma list_ex_player: "list_ex (\<lambda>s. slot_player s = m) roster \<longleftrightarrow> m \<in> slot_player ` set roster"
  by (auto simp: list_ex_iff)

text \<open>The identities a slot is made of; readiness does not count.\<close>

abbreviation identities :: "CampaignSlotState list \<Rightarrow> CampaignSlotState list" where
  "identities roster \<equiv> map unready roster"

lemma identities_update_first [simp]:
  "identities (update_first P (\<lambda>s. s\<lparr>slot_ready := b\<rparr>) roster) = identities roster"
  by (induction roster) simp_all

lemma canonical_identities: "identities r = identities r' \<Longrightarrow> canonical_roster r = canonical_roster r'"
proof -
  assume eq: "identities r = identities r'"
  have "canonical_roster r = canonical_roster (identities r)" for r
    by (simp add: canonical_roster_def)
  with eq show ?thesis by metis
qed

lemma members_identities: "identities r = identities r' \<Longrightarrow> slot_player ` set r = slot_player ` set r'"
proof -
  assume eq: "identities r = identities r'"
  have "slot_player ` set r = slot_player ` set (identities r)" for r by (simp add: image_image)
  with eq show ?thesis by metis
qed

lemma campaign_step_wf: "campaign_step c c' \<Longrightarrow> campaign_wf c \<Longrightarrow> campaign_wf c'"
proof (induction rule: campaign_step.induct)
  case (ready c i s b)
  let ?r = "update_first (owns_slot i) (\<lambda>s. s\<lparr>slot_ready := b\<rparr>) (c_roster c)"
  have "identities ?r = identities (c_roster c)" by simp
  from canonical_identities [OF this] members_identities [OF this] ready show ?case
    by (simp add: campaign_wf_def list_ex_player split: option.splits)
qed (simp_all add: campaign_wf_def list_ex_player split: if_splits option.splits)

text \<open>Every operation does nothing, or one step of the life of the campaign.\<close>

lemma perform_step:
  assumes wf: "campaign_wf c"
  shows "fst (campaign_perform c op) = c \<or> campaign_step c (fst (campaign_perform c op))"
proof -
  note edits = replace_roster_outcome [of _ c]
  show ?thesis
  proof (cases op)
    case (OpReplaceRoster roster)
    then show ?thesis using edits [of roster] by auto
  next
    case (OpAddSlot s)
    then show ?thesis using edits [of "c_roster c @ [unready s]"] by (auto simp: add_slot_def)
  next
    case (OpRemoveSlot i)
    then show ?thesis using edits [of "erase_first (\<lambda>s. slot_id s = i) (c_roster c)"]
      by (auto simp: remove_slot_def)
  next
    case (OpReplaceSlot s)
    then show ?thesis
      using edits [of "update_first (\<lambda>x. slot_id x = slot_id s) (\<lambda>_. unready s) (c_roster c)"]
      by (auto simp: replace_slot_def split: option.splits)
  next
    case (OpCommitStart actor m)
    then show ?thesis using wf campaign_step.start [of c m]
      by (simp add: commit_start_simps validate_roster_iff find_player_iff next_version_def
          campaign_wf_def)
  next
    case (OpTransferManager a m)
    then show ?thesis using campaign_step.transfer [of c a m]
      by (auto simp: transfer_session_manager_def find_player_iff advance_version_simps)
  next
    case (OpSetReady i b)
    then show ?thesis using campaign_step.ready [of c i _ b]
      by (auto simp: set_ready_def advance_version_simps split: option.splits)
  qed
qed

interpretation cmp: op_machine campaign_perform campaign_wf
proof
  show "campaign_wf (fst (campaign_perform c op))" if "campaign_wf c" for c op
    using perform_step [OF that, of op] that by (auto intro: campaign_step_wf)
qed

lemma canonical_sort [simp]: "canonical_roster (sort_roster roster) \<longleftrightarrow> valid_roster roster"
  using strict_sorted_map_sort_key [of slot_id roster]
  by (auto simp: canonical_roster_def) (simp_all add: sort_roster_def valid_roster_def)

lemma new_lobby_wf: "new_lobby_campaign i initial = Inr c \<Longrightarrow> campaign_wf c"
  by (auto simp: new_lobby_campaign_def validate_roster_iff campaign_wf_def list_all_iff
      split: if_splits) (auto simp: sort_roster_def)

section \<open>The order of the phases, and advancing\<close>

fun phase_rank :: "CampaignPhase \<Rightarrow> nat" where
  "phase_rank Lobby = 0" | "phase_rank CharacterCreation = 1" | "phase_rank Arrival = 2"
| "phase_rank Gathering = 3" | "phase_rank ValenIntroduction = 4" | "phase_rank ClassSelection = 5"
| "phase_rank ReadyCheck = 6" | "phase_rank Departure = 7" | "phase_rank OpenWorld = 8"

lemma phase_rank_inject: "phase_rank p = phase_rank q \<longleftrightarrow> p = q"
  by (cases p; cases q) simp_all

instantiation CampaignPhase :: linorder
begin

definition less_eq_CampaignPhase :: "CampaignPhase \<Rightarrow> CampaignPhase \<Rightarrow> bool" where
  "less_eq_CampaignPhase p q \<longleftrightarrow> phase_rank p \<le> phase_rank q"

definition less_CampaignPhase :: "CampaignPhase \<Rightarrow> CampaignPhase \<Rightarrow> bool" where
  "less_CampaignPhase p q \<longleftrightarrow> phase_rank p < phase_rank q"

instance
  by standard (auto simp: less_eq_CampaignPhase_def less_CampaignPhase_def phase_rank_inject)

end

definition campaign_advances :: "CampaignAggregate \<Rightarrow> CampaignAggregate \<Rightarrow> bool" where
  "campaign_advances c d \<longleftrightarrow>
     c_id d = c_id c \<and> c_version c \<le> c_version d \<and> c_phase c \<le> c_phase d \<and>
     (c_sealed c \<longrightarrow> c_sealed d \<and> identities (c_roster d) = identities (c_roster c))"

lemma campaign_advances_refl: "campaign_advances c c"
  by (simp add: campaign_advances_def)

lemma campaign_advances_trans:
  "campaign_advances b c \<Longrightarrow> campaign_advances c d \<Longrightarrow> campaign_advances b d"
  by (simp add: campaign_advances_def) (metis order_trans)

lemma next_version_le: "v \<le> next_version v"
  by (simp add: next_version_def word_le_plus_one)

lemma campaign_step_advances: "campaign_step c d \<Longrightarrow> campaign_advances c d"
  by (induction rule: campaign_step.induct)
    (simp_all add: campaign_advances_def next_version_le less_eq_CampaignPhase_def)

lemma perform_advances: "campaign_wf c \<Longrightarrow> campaign_advances c (fst (campaign_perform c op))"
  using perform_step [of c op] by (auto intro: campaign_advances_refl campaign_step_advances)

section \<open>The full-roster gate\<close>

definition roster_identity :: "CampaignAggregate \<Rightarrow> CampaignSlotState \<Rightarrow> CampaignMemberIdentity" where
  "roster_identity c s =
     \<lparr>mi_campaign = c_id c, mi_slot = slot_id s, mi_player = slot_player s, mi_binding = slot_binding s\<rparr>"

lemma find_key_iff:
  "distinct (map k xs) \<Longrightarrow> find (\<lambda>x. k x = v) xs = Some x \<longleftrightarrow> x \<in> set xs \<and> k x = v"
  by (induction xs) auto

lemma check_presence_step:
  assumes roster: "valid_roster (c_roster c)" and seen: "set seen \<subseteq> set (c_roster c)"
  shows "check_presence c (map slot_id seen) (map slot_player seen) (map slot_binding seen) (p # ps) =
      NoRosterFailure \<longleftrightarrow>
    (if campaign_admitted p
     then transport_connected p \<and> (\<exists>e \<in> set (c_roster c). mp_identity p = roster_identity c e \<and>
        e \<notin> set seen \<and> check_presence c (map slot_id (e # seen)) (map slot_player (e # seen))
          (map slot_binding (e # seen)) ps = NoRosterFailure)
     else check_presence c (map slot_id seen) (map slot_player seen) (map slot_binding seen) ps =
       NoRosterFailure)"
proof (cases "find_by_slot c (mi_slot (mp_identity p))")
  case None
  then have "\<forall>e \<in> set (c_roster c). mp_identity p \<noteq> roster_identity c e"
    by (auto simp: find_by_slot_def find_None_iff roster_identity_def)
  with None show ?thesis by (auto simp: Let_def)
next
  case (Some e)
  have slots: "distinct (map slot_id (c_roster c))" and players: "distinct (map slot_player (c_roster c))"
    and bindings: "distinct (map slot_binding (c_roster c))"
    using roster by (simp_all add: valid_roster_def)
  from Some have e: "e \<in> set (c_roster c)" "slot_id e = mi_slot (mp_identity p)"
    by (simp_all add: find_by_slot_def find_key_iff [OF slots])
  have "slot_id e \<in> slot_id ` set seen \<longleftrightarrow> e \<in> set seen"
    and "slot_player e \<in> slot_player ` set seen \<longleftrightarrow> e \<in> set seen"
    and "slot_binding e \<in> slot_binding ` set seen \<longleftrightarrow> e \<in> set seen"
    using slots players bindings seen e(1) by (auto simp: distinct_map dest: inj_onD)
  note dup = this
  have "f = e" if "f \<in> set (c_roster c)" "mp_identity p = roster_identity c f" for f
    using that e slots by (auto simp: roster_identity_def distinct_map dest: inj_onD)
  with e have ex: "(\<exists>f \<in> set (c_roster c). mp_identity p = roster_identity c f \<and> Q f) \<longleftrightarrow>
      mp_identity p = roster_identity c e \<and> Q e" for Q by metis
  have ident: "mp_identity p = roster_identity c e \<longleftrightarrow> mi_campaign (mp_identity p) = c_id c \<and>
      slot_player e = mi_player (mp_identity p) \<and> slot_binding e = mi_binding (mp_identity p)"
    using e(2) by (cases "mp_identity p") (auto simp: roster_identity_def)
  show ?thesis
    unfolding ex ident check_presence.simps Let_def Some using e(2) dup
    by (cases "slot_player e = mi_player (mp_identity p)"; cases "slot_binding e = mi_binding (mp_identity p)")
      (simp_all del: check_presence.simps)
qed

text \<open>The rest of the presence list names exactly the slots that have not been seen.\<close>

definition completes ::
  "CampaignAggregate \<Rightarrow> CampaignSlotState list \<Rightarrow> CampaignMemberIdentity list \<Rightarrow> bool" where
  "completes c seen ids \<longleftrightarrow> (\<exists>found. ids = map (roster_identity c) found \<and> distinct (found @ seen) \<and>
     set found \<subseteq> set (c_roster c) \<and> length found + length seen = length (c_roster c))"

lemma completes_Nil: "distinct seen \<Longrightarrow> completes c seen [] \<longleftrightarrow> length seen = length (c_roster c)"
  by (simp add: completes_def)

lemma completes_Cons:
  "completes c seen (i # ids) \<longleftrightarrow>
     (\<exists>e \<in> set (c_roster c). i = roster_identity c e \<and> e \<notin> set seen \<and> completes c (e # seen) ids)"
proof
  assume "completes c seen (i # ids)"
  then obtain found where found: "i # ids = map (roster_identity c) found" "distinct (found @ seen)"
    "set found \<subseteq> set (c_roster c)" "length found + length seen = length (c_roster c)"
    by (unfold completes_def) (elim exE conjE, intro that)
  from found(1) obtain e found' where "found = e # found'" by (cases found) auto
  with found show "\<exists>e \<in> set (c_roster c). i = roster_identity c e \<and> e \<notin> set seen \<and> completes c (e # seen) ids"
    unfolding completes_def by (intro bexI [of _ e] conjI exI [of _ found']) auto
next
  assume "\<exists>e \<in> set (c_roster c). i = roster_identity c e \<and> e \<notin> set seen \<and> completes c (e # seen) ids"
  then obtain e found where "e \<in> set (c_roster c)" "i = roster_identity c e" "e \<notin> set seen"
    "ids = map (roster_identity c) found" "distinct (found @ e # seen)"
    "set found \<subseteq> set (c_roster c)" "length found + length (e # seen) = length (c_roster c)"
    by (unfold completes_def) (elim bexE exE conjE, intro that)
  then show "completes c seen (i # ids)"
    unfolding completes_def by (intro exI [of _ "e # found"]) auto
qed

lemma check_presence_iff:
  assumes roster: "valid_roster (c_roster c)"
  shows "set seen \<subseteq> set (c_roster c) \<Longrightarrow> distinct seen \<Longrightarrow>
    check_presence c (map slot_id seen) (map slot_player seen) (map slot_binding seen) ps = NoRosterFailure
    \<longleftrightarrow> (\<forall>p \<in> set ps. campaign_admitted p \<longrightarrow> transport_connected p) \<and>
      completes c seen (map mp_identity (filter campaign_admitted ps))"
proof (induction ps arbitrary: seen)
  case Nil
  then show ?case by (auto simp: completes_Nil)
next
  case (Cons p ps)
  show ?case
  proof (cases "campaign_admitted p")
    case False
    with Cons show ?thesis by (simp add: check_presence_step [OF roster])
  next
    case True
    have IH: "check_presence c (map slot_id (e # seen)) (map slot_player (e # seen))
        (map slot_binding (e # seen)) ps = NoRosterFailure \<longleftrightarrow>
      (\<forall>p \<in> set ps. campaign_admitted p \<longrightarrow> transport_connected p) \<and>
      completes c (e # seen) (map mp_identity (filter campaign_admitted ps))"
      if "e \<in> set (c_roster c)" "e \<notin> set seen" for e
      using that Cons.prems by (intro Cons.IH) auto
    then have "(\<exists>e \<in> set (c_roster c). mp_identity p = roster_identity c e \<and> e \<notin> set seen \<and>
        check_presence c (map slot_id (e # seen)) (map slot_player (e # seen)) (map slot_binding (e # seen)) ps =
          NoRosterFailure) \<longleftrightarrow>
      (\<forall>p \<in> set ps. campaign_admitted p \<longrightarrow> transport_connected p) \<and>
      completes c seen (mp_identity p # map mp_identity (filter campaign_admitted ps))"
      unfolding completes_Cons by blast
    with True show ?thesis
      unfolding check_presence_step [OF roster Cons.prems(1)] by auto
  qed
qed

lemma mset_map_inverse: "mset ys = image_mset f M \<Longrightarrow> \<exists>xs. ys = map f xs \<and> mset xs = M"
proof (induction ys arbitrary: M)
  case (Cons y ys)
  then have "image_mset f M = add_mset y (mset ys)" by simp
  from msed_map_invR [OF this] obtain N x where "M = add_mset x N" "f x = y" "image_mset f N = mset ys"
    by auto
  with Cons.IH [of N] obtain xs where "ys = map f xs" "mset xs = N" by auto
  with \<open>M = add_mset x N\<close> \<open>f x = y\<close> show ?case by (intro exI [of _ "x # xs"]) simp
qed simp

lemma full_roster_iff:
  assumes "campaign_wf c"
  shows "evaluate_full_roster c ps = NoRosterFailure \<longleftrightarrow>
     c_sealed c \<and> (\<forall>p \<in> set ps. campaign_admitted p \<longrightarrow> transport_connected p) \<and>
     mset (map mp_identity (filter campaign_admitted ps)) = mset (map (roster_identity c) (c_roster c))"
proof (cases "c_sealed c")
  case False
  then show ?thesis by (simp add: evaluate_full_roster_def)
next
  case True
  let ?r = "c_roster c" and ?ids = "map mp_identity (filter campaign_admitted ps)"
  from assms True have nonempty: "?r \<noteq> []" and roster: "valid_roster ?r"
    by (auto simp: campaign_wf_def canonical_roster_def list_ex_player split: option.splits)
  from roster have dist: "distinct ?r" by (auto simp: valid_roster_def distinct_map)
  have "completes c [] ?ids \<longleftrightarrow> mset ?ids = mset (map (roster_identity c) ?r)"
  proof
    assume "completes c [] ?ids"
    then obtain found where found: "?ids = map (roster_identity c) found" "distinct found"
      "set found \<subseteq> set ?r" "length found = length ?r" by (auto simp: completes_def)
    then have "set found = set ?r"
      using dist by (metis card_subset_eq distinct_card finite_set)
    with found(2) dist have "mset found = mset ?r" by (metis set_eq_iff_mset_eq_distinct)
    with found(1) show "mset ?ids = mset (map (roster_identity c) ?r)" by (metis mset_map)
  next
    assume "mset ?ids = mset (map (roster_identity c) ?r)"
    then have "mset ?ids = image_mset (roster_identity c) (mset ?r)" by simp
    then obtain found where found: "?ids = map (roster_identity c) found" "mset found = mset ?r"
      using mset_map_inverse by blast
    then show "completes c [] ?ids" using dist
      by (auto simp: completes_def intro!: exI [of _ found] dest: mset_eq_setD mset_eq_length
          mset_eq_imp_distinct_iff)
  qed
  with True nonempty check_presence_iff [OF roster, of "[]" ps] show ?thesis
    by (simp add: evaluate_full_roster_def)
qed

section \<open>The roster operations, exactly\<close>

lemma canonical_unique:
  "mset r = mset r' \<Longrightarrow> canonical_roster r \<Longrightarrow> canonical_roster r' \<Longrightarrow> r = r'"
  unfolding canonical_roster_def by (metis sort_key_unique)

lemma canonical_mem:
  assumes "canonical_roster r" and "s \<in> set r" and "t \<in> set r" and "slot_id s = slot_id t"
  shows "s = t"
  using assms by (auto simp: canonical_roster_def valid_roster_def distinct_map dest: inj_onD)

lemma mset_erase_first: "find P xs = Some x \<Longrightarrow> mset xs = add_mset x (mset (erase_first P xs))"
  using find_split [of P xs x] by fastforce

lemma unready_id: "\<not> slot_ready s \<Longrightarrow> unready s = s"
  by (cases s) simp

lemma unready_map_id: "list_all (\<lambda>s. \<not> slot_ready s) r \<Longrightarrow> map unready r = r"
  by (induction r) (simp_all add: unready_id)

lemma slot_conflict_iff:
  "slot_conflict s r = NoCampaignError \<longleftrightarrow>
     slot_id s \<notin> slot_id ` set r \<and> slot_player s \<notin> slot_player ` set r \<and>
     slot_binding s \<notin> slot_binding ` set r"
  by (induction r) auto

lemma replacement_conflict_iff:
  "replacement_conflict s r = NoCampaignError \<longleftrightarrow>
     (\<forall>x \<in> set r. slot_id x \<noteq> slot_id s \<longrightarrow>
        slot_player x \<noteq> slot_player s \<and> slot_binding x \<noteq> slot_binding s)"
  by (induction r) auto

lemma mset_map_unready_sort: "mset (map unready (sort_roster r)) = image_mset unready (mset r)"
  by (simp add: sort_roster_def)

text \<open>When a slot can be added.\<close>

definition may_add :: "CampaignSlotState \<Rightarrow> CampaignAggregate \<Rightarrow> bool" where
  "may_add s c \<longleftrightarrow> \<not> c_sealed c \<and> length (c_roster c) < 10 \<and> slot_ids_valid s \<and>
     slot_conflict s (c_roster c) = NoCampaignError \<and> c_version c \<noteq> - 1"

lemma lobby_wf:
  assumes "campaign_wf c" and "\<not> c_sealed c"
  shows "require_mutable_lobby c = NoCampaignError" and "canonical_roster (c_roster c)"
    and "map unready (c_roster c) = c_roster c" and "c_phase c = Lobby" and "c_manager c = None"
  using assms by (simp_all add: campaign_wf_def require_mutable_lobby_iff unready_map_id)

lemma add_slot_result:
  assumes wf: "campaign_wf c" and add: "may_add s c"
  defines "roster \<equiv> map unready (sort_roster (c_roster c @ [unready s]))"
  shows "add_slot s c = (c\<lparr>c_roster := roster, c_version := c_version c + 1\<rparr>, dom_advanced)"
    and "mset roster = add_mset (unready s) (mset (c_roster c))" and "canonical_roster roster"
proof -
  from add have lobby: "\<not> c_sealed c" by (simp add: may_add_def)
  note lw = lobby_wf [OF wf lobby]
  from add lw(2) have valid: "valid_roster (c_roster c @ [unready s])"
    by (auto simp: may_add_def canonical_roster_def valid_roster_def slot_conflict_iff list_all_iff)
  then show "canonical_roster roster" by (simp add: roster_def)
  show m: "mset roster = add_mset (unready s) (mset (c_roster c))"
    unfolding roster_def mset_map_unready_sort using lw(3)
    by (simp add: mset_map [symmetric] del: mset_map)
  then have "c_roster c \<noteq> roster" by auto
  then show "add_slot s c = (c\<lparr>c_roster := roster, c_version := c_version c + 1\<rparr>, dom_advanced)"
    using add lw(1) replace_roster_simps [OF lw(1) valid]
    by (simp add: add_slot_def may_add_def kMaximumCampaignRosterSize_def roster_def [symmetric])
qed

lemma add_slot_refused:
  assumes wf: "campaign_wf c" and no: "\<not> may_add s c"
  shows "\<not> dom_succeeded (snd (add_slot s c)) \<and> fst (add_slot s c) = c"
proof (cases "\<not> c_sealed c \<and> length (c_roster c) < 10 \<and> slot_conflict s (c_roster c) = NoCampaignError")
  case False
  then show ?thesis
    by (auto simp: add_slot_def kMaximumCampaignRosterSize_def require_mutable_lobby_def)
next
  case True
  note lw = lobby_wf [OF wf, OF True [THEN conjunct1]]
  let ?r = "c_roster c @ [unready s]"
  have ne: "c_roster c \<noteq> map unready (sort_roster ?r)"
    by (metis length_map length_append_singleton length_sort n_not_Suc_n sort_roster_def)
  have "\<not> (valid_roster ?r \<and> c_version c \<noteq> - 1)"
    using no True by (auto simp: may_add_def valid_roster_def)
  then have "\<not> dom_succeeded (snd (replace_roster ?r c)) \<and> fst (replace_roster ?r c) = c"
  proof (cases "valid_roster ?r")
    case True
    with \<open>\<not> (valid_roster ?r \<and> c_version c \<noteq> - 1)\<close> ne show ?thesis
      by (auto simp: replace_roster_simps [OF lw(1)])
  next
    case False
    then show ?thesis using lw(1) by (simp add: replace_roster_def validate_roster_iff)
  qed
  with True lw(1) show ?thesis by (simp add: add_slot_def kMaximumCampaignRosterSize_def)
qed

lemma valid_roster_mset: "mset r = mset r' \<Longrightarrow> valid_roster r \<longleftrightarrow> valid_roster r'"
proof -
  assume m: "mset r = mset r'"
  then have "distinct (map f r) \<longleftrightarrow> distinct (map f r')" for f :: "CampaignSlotState \<Rightarrow> string"
    by (metis mset_eq_imp_distinct_iff mset_map)
  with m mset_eq_length [OF m] mset_eq_setD [OF m] show ?thesis
    by (simp add: valid_roster_def list_all_iff)
qed

lemma remove_added_slot:
  assumes wf: "campaign_wf c" and add: "may_add s c" and v: "c_version c + 1 \<noteq> - 1"
  shows "remove_slot (slot_id s) (fst (add_slot s c)) = (c\<lparr>c_version := c_version c + 1 + 1\<rparr>, dom_advanced)"
proof -
  from add have lobby: "\<not> c_sealed c" by (simp add: may_add_def)
  note lw = lobby_wf [OF wf lobby]
  define r where "r = map unready (sort_roster (c_roster c @ [unready s]))"
  note res = add_slot_result [OF wf add, folded r_def]
  let ?e = "erase_first (\<lambda>x. slot_id x = slot_id s) r"
  from mset_eq_setD [of r "unready s # c_roster c"] res(2) have "unready s \<in> set r" by simp
  then have found: "find (\<lambda>x. slot_id x = slot_id s) r = Some (unready s)"
    using res(3) by (simp add: find_key_iff canonical_roster_def valid_roster_def)
  from mset_erase_first [OF this] have e: "mset ?e = mset (c_roster c)" using res(2) by simp
  then have valid: "valid_roster ?e"
    using lw(2) valid_roster_mset [OF e] by (simp add: canonical_roster_def)
  have "map unready (sort_roster ?e) = c_roster c"
  proof (rule canonical_unique [OF _ _ lw(2)])
    show "mset (map unready (sort_roster ?e)) = mset (c_roster c)"
      unfolding mset_map_unready_sort e using lw(3) by (metis mset_map)
  qed (simp add: valid)
  moreover have "r \<noteq> c_roster c" using res(2) by auto
  moreover have "require_mutable_lobby (c\<lparr>c_roster := r, c_version := c_version c + 1\<rparr>) = NoCampaignError"
    using lw(1) by (simp add: require_mutable_lobby_iff)
  ultimately show ?thesis
    unfolding res(1) remove_slot_def using found v by (simp add: replace_roster_simps [OF _ valid])
qed

lemma update_first_map:
  assumes "distinct (map k xs)" and "\<And>x y. P x \<Longrightarrow> P y \<Longrightarrow> k x = k y"
  shows "update_first P f xs = map (\<lambda>x. if P x then f x else x) xs"
  using assms(1)
proof (induction xs)
  case (Cons x xs)
  have "map (\<lambda>x. if P x then f x else x) xs = xs" if "P x"
  proof (rule map_idI)
    fix y assume "y \<in> set xs"
    with Cons.prems have "k x \<noteq> k y" by auto
    with assms(2) [OF that] show "(if P y then f y else y) = y" by auto
  qed
  with Cons show ?case by auto
qed simp

lemma set_ready_roster:
  assumes wf: "campaign_wf c"
  shows "c_roster (fst (set_ready i b c)) =
    (if c_sealed c \<and> mi_campaign i = c_id c
     then map (\<lambda>s. if owns_slot i s then s\<lparr>slot_ready := b\<rparr> else s) (c_roster c) else c_roster c)"
proof (cases "c_sealed c \<and> mi_campaign i = c_id c")
  case False
  then show ?thesis by (auto simp: set_ready_def)
next
  case True
  from wf have "distinct (map slot_id (c_roster c))"
    by (simp add: campaign_wf_def canonical_roster_def valid_roster_def)
  note upd = update_first_map [OF this, of "owns_slot i"]
  show ?thesis
  proof (cases "find (owns_slot i) (c_roster c)")
    case None
    then have "map (\<lambda>s. if owns_slot i s then s\<lparr>slot_ready := b\<rparr> else s) (c_roster c) = c_roster c"
      by (intro map_idI) (auto simp: find_None_iff)
    with True None show ?thesis by (simp add: set_ready_def)
  next
    case (Some s)
    from find_split [OF Some, of "\<lambda>s. s\<lparr>slot_ready := b\<rparr>"] have
      "update_first (owns_slot i) (\<lambda>s. s\<lparr>slot_ready := b\<rparr>) (c_roster c) = c_roster c" if "slot_ready s = b"
      using that by (cases s) auto
    moreover have "update_first (owns_slot i) (\<lambda>s. s\<lparr>slot_ready := b\<rparr>) (c_roster c) =
        map (\<lambda>s. if owns_slot i s then s\<lparr>slot_ready := b\<rparr> else s) (c_roster c)"
      by (rule upd) (simp add: owns_slot_def)
    ultimately show ?thesis using True Some
      by (auto simp: set_ready_def advance_version_simps)
  qed
qed

lemma set_ready_frame:
  "fst (set_ready i b c)\<lparr>c_roster := r, c_version := v\<rparr> = c\<lparr>c_roster := r, c_version := v\<rparr>"
  by (auto simp: set_ready_def advance_version_simps split: option.splits)

lemma replace_roster_version:
  "(dom_changed (snd (replace_roster r c)) \<longrightarrow> dom_succeeded (snd (replace_roster r c)) \<and>
      c_version (fst (replace_roster r c)) = c_version c + 1) \<and>
   (\<not> dom_changed (snd (replace_roster r c)) \<longrightarrow> fst (replace_roster r c) = c)"
  by (simp add: replace_roster_def advance_version_def)

lemma perform_version:
  assumes "c_version c \<noteq> - 1"
  shows "(dom_changed (snd (campaign_perform c op)) \<longrightarrow> dom_succeeded (snd (campaign_perform c op)) \<and>
      c_version (fst (campaign_perform c op)) = c_version c + 1) \<and>
   (\<not> dom_changed (snd (campaign_perform c op)) \<longrightarrow> fst (campaign_perform c op) = c)"
  using assms
  by (cases op)
    (auto simp: replace_roster_version add_slot_def remove_slot_def replace_slot_def commit_start_simps
      transfer_session_manager_def set_ready_def advance_version_def split: option.splits)

text \<open>An example: a lobby with two slots, and the same campaign started by the server.\<close>

definition example_slot :: "string \<Rightarrow> CampaignSlotState" where
  "example_slot n = \<lparr>slot_id = ''slot-'' @ n, slot_player = ''player-'' @ n,
     slot_binding = ''binding-'' @ n, slot_ready = False\<rparr>"

definition example_lobby :: CampaignAggregate where
  "example_lobby = \<lparr>c_id = ''helgen'', c_version = 1, c_phase = Lobby, c_sealed = False,
     c_manager = None, c_roster = [example_slot ''a'', example_slot ''b'']\<rparr>"

abbreviation the_server :: CampaignActor where
  "the_server \<equiv> \<lparr>actor_kind = ActorServer, actor_player = None\<rparr>"

definition example_campaign :: CampaignAggregate where
  "example_campaign = fst (commit_campaign_start the_server ''player-a'' example_lobby)"

definition example_presence :: "string \<Rightarrow> CampaignMemberPresence" where
  "example_presence n = \<lparr>mp_identity = \<lparr>mi_campaign = ''helgen'', mi_slot = ''slot-'' @ n,
     mi_player = ''player-'' @ n, mi_binding = ''binding-'' @ n\<rparr>,
     transport_connected = True, campaign_admitted = True\<rparr>"

lemma example_lobby_made:
  "new_lobby_campaign ''helgen'' [example_slot ''b'', example_slot ''a''] = Inr example_lobby"
  by code_simp

lemma example_lobby_wf: "campaign_wf example_lobby"
  by (rule new_lobby_wf) (rule example_lobby_made)

lemma example_campaign_wf: "campaign_wf example_campaign"
  using cmp.perform_wf [OF example_lobby_wf, of "OpCommitStart the_server ''player-a''"]
  by (simp add: example_campaign_def)

section \<open>Properties\<close>

text \<open>
  C6: Whatever is done to a campaign after the lobby was created, it stays well formed: at most
  ten slots with valid and pairwise different identities, sorted by slot; in the lobby nobody is
  ready and there is no manager, and a sealed campaign is in the character creation phase with a
  manager who is a member.
\<close>

theorem campaign_always_well_formed:
  assumes "new_lobby_campaign i initial = Inr c"
  shows "campaign_wf (run_ops campaign_perform c ops)"
  by (rule cmp.run_wf) (rule new_lobby_wf [OF assms])

theorem campaign_always_well_formed_witness:
  "campaign_wf (run_ops campaign_perform example_lobby
     [OpCommitStart the_server ''player-b'', OpTransferManager ''player-b'' ''player-a''])"
  by (rule campaign_always_well_formed [OF example_lobby_made])

text \<open>
  A campaign only moves forward. Along any sequence of operations its id is fixed, version and
  phase never decrease, and once sealed it stays sealed with the same slots, players and
  characters.
\<close>

theorem campaign_only_advances:
  assumes "campaign_wf c"
  shows "campaign_advances c (run_ops campaign_perform c ops)"
  by (rule cmp.run_related)
    (auto intro: campaign_advances_refl campaign_advances_trans perform_advances assms)

theorem campaign_only_advances_witness:
  "campaign_advances example_campaign (run_ops campaign_perform example_campaign
     [OpRemoveSlot ''slot-a'', OpTransferManager ''player-a'' ''player-b''])"
  by (rule campaign_only_advances [OF example_campaign_wf])

text \<open>
  C31: The operations implement the life of a campaign: on a well-formed campaign each one does
  nothing or takes a step of \<open>campaign_step\<close>, the specification without error codes.
\<close>

theorem campaign_operations_refine_life:
  assumes "campaign_wf c"
  shows "fst (campaign_perform c op) = c \<or> campaign_step c (fst (campaign_perform c op))"
  using assms by (rule perform_step)

theorem campaign_operations_refine_life_witness:
  "campaign_step example_lobby (fst (campaign_perform example_lobby
     (OpCommitStart the_server ''player-a'')))"
proof -
  have "c_sealed (fst (campaign_perform example_lobby (OpCommitStart the_server ''player-a''))) \<noteq>
      c_sealed example_lobby"
    by code_simp
  with campaign_operations_refine_life [OF example_lobby_wf, of "OpCommitStart the_server ''player-a''"]
  show ?thesis by metis
qed

text \<open>
  C7: The full-roster gate is exact: a started campaign is complete exactly when every admitted
  presence is connected and the identities of the admitted members are, each once, the
  identities of the roster, whatever the order and whoever else is connected without admission.
\<close>

theorem full_roster_gate_exact:
  assumes "campaign_wf c"
  shows "determine_runtime_state c ps = ACTIVE \<longleftrightarrow>
     c_sealed c \<and> (\<forall>p \<in> set ps. campaign_admitted p \<longrightarrow> transport_connected p) \<and>
     mset (map mp_identity (filter campaign_admitted ps)) = mset (map (roster_identity c) (c_roster c))"
  unfolding determine_runtime_state_def using full_roster_iff [OF assms, of ps] by simp

theorem full_roster_gate_exact_witness:
  "determine_runtime_state example_campaign [example_presence ''b'', example_presence ''a''] = ACTIVE \<and>
   determine_runtime_state example_campaign [example_presence ''b''] \<noteq> ACTIVE"
proof -
  let ?a = "example_presence ''a''" and ?b = "example_presence ''b''"
  have "c_sealed example_campaign \<and> campaign_admitted ?a \<and> campaign_admitted ?b \<and>
      transport_connected ?a \<and> transport_connected ?b \<and>
      map (roster_identity example_campaign) (c_roster example_campaign) = [mp_identity ?a, mp_identity ?b]"
    by code_simp
  then show ?thesis
    using full_roster_gate_exact [OF example_campaign_wf, of "[?b, ?a]"]
      full_roster_gate_exact [OF example_campaign_wf, of "[?b]"]
    by (simp add: add_mset_commute)
qed

text \<open>
  Of the eight transitions of the policy table only the start of the campaign can pass, and it
  passes exactly for the server in the lobby; the other seven are refused in every state.
\<close>

theorem only_start_transition_passes:
  "evaluate_transition c t actor ps = NoCampaignError \<longleftrightarrow>
     t = CommitCampaignStart \<and> c_phase c = Lobby \<and> actor_kind actor = ActorServer"
  by (cases t) (auto simp: evaluate_transition_def)

text \<open>
  Starting a campaign succeeds exactly when it is in the lobby, the server asks, the roster is
  not empty, the manager is a member and the version is not exhausted; it then seals the roster.
  A refused start leaves the campaign as it was.
\<close>

theorem campaign_start_exact:
  assumes "campaign_wf c"
  shows "(dom_succeeded (snd (commit_campaign_start actor m c)) \<longleftrightarrow>
      \<not> c_sealed c \<and> actor_kind actor = ActorServer \<and> c_roster c \<noteq> [] \<and>
      m \<in> slot_player ` set (c_roster c) \<and> c_version c \<noteq> - 1) \<and>
    fst (commit_campaign_start actor m c) =
      (if dom_succeeded (snd (commit_campaign_start actor m c))
       then c\<lparr>c_sealed := True, c_manager := Some m, c_phase := CharacterCreation,
         c_version := c_version c + 1\<rparr> else c)"
proof (cases "c_sealed c")
  case True
  then show ?thesis by (simp add: commit_start_simps)
next
  case False
  note lw = lobby_wf [OF assms False]
  then have "is_valid_identity m" if "m \<in> slot_player ` set (c_roster c)"
    using that by (auto simp: canonical_roster_def valid_roster_def list_all_iff slot_ids_valid_def)
  moreover have "c\<lparr>c_sealed := False, c_manager := None, c_phase := Lobby\<rparr> = c"
    using lw False by simp
  ultimately show ?thesis using lw False
    by (auto simp: commit_start_simps validate_roster_iff find_player_iff canonical_roster_def)
qed

theorem campaign_start_exact_witness:
  "dom_succeeded (snd (commit_campaign_start the_server ''player-b'' example_lobby))"
proof -
  have "\<not> c_sealed example_lobby \<and> c_roster example_lobby \<noteq> [] \<and> c_version example_lobby \<noteq> - 1 \<and>
      list_ex (\<lambda>s. slot_player s = ''player-b'') (c_roster example_lobby)"
    by code_simp
  with campaign_start_exact [OF example_lobby_wf, of the_server "''player-b''"]
  show ?thesis by (simp add: list_ex_player)
qed

text \<open>
  Adding a slot succeeds exactly when the campaign is an open lobby with room, the identities
  are valid and new, and the version is not exhausted; the new roster is the old one with the
  slot, unready, and a refusal changes nothing.
\<close>

theorem add_slot_exact:
  assumes "campaign_wf c"
  shows "dom_succeeded (snd (add_slot s c)) = may_add s c \<and>
    mset (c_roster (fst (add_slot s c))) =
      (if may_add s c then add_mset (unready s) (mset (c_roster c)) else mset (c_roster c))"
  using add_slot_result [OF assms] add_slot_refused [OF assms] by (cases "may_add s c") simp_all

theorem add_slot_exact_witness:
  "mset (c_roster (fst (add_slot (example_slot ''c'') example_lobby))) =
     {#example_slot ''a'', example_slot ''b'', example_slot ''c''#}"
proof -
  have "may_add (example_slot ''c'') example_lobby" by code_simp
  with add_slot_exact [OF example_lobby_wf, of "example_slot ''c''"] show ?thesis
    by (simp add: example_lobby_def example_slot_def add_mset_commute)
qed

text \<open>
  Removing the slot just added gives back the campaign as it was before, but for the version,
  which counts both changes.
\<close>

theorem add_remove_slot_roundtrip:
  assumes "campaign_wf c" and "may_add s c" and "c_version c + 1 \<noteq> - 1"
  shows "fst (remove_slot (slot_id s) (fst (add_slot s c))) = c\<lparr>c_version := c_version c + 1 + 1\<rparr>"
  using remove_added_slot [OF assms] by simp

theorem add_remove_slot_roundtrip_witness:
  "c_roster (fst (remove_slot ''slot-aa'' (fst (add_slot (example_slot ''aa'') example_lobby)))) =
     c_roster example_lobby"
proof -
  have "may_add (example_slot ''aa'') example_lobby \<and> c_version example_lobby + 1 \<noteq> - 1 \<and>
      slot_id (example_slot ''aa'') = ''slot-aa''" by code_simp
  with add_remove_slot_roundtrip [OF example_lobby_wf, of "example_slot ''aa''"] show ?thesis by simp
qed

text \<open>
  Readiness belongs to the exact owner of a slot: setting it changes, in a sealed campaign and
  for a member that names this campaign, the one slot whose slot, player and character all match,
  and otherwise nothing but the version.
\<close>

theorem ready_belongs_to_owner:
  assumes "campaign_wf c"
  shows "c_roster (fst (set_ready i b c)) =
      (if c_sealed c \<and> mi_campaign i = c_id c
       then map (\<lambda>s. if owns_slot i s then s\<lparr>slot_ready := b\<rparr> else s) (c_roster c) else c_roster c) \<and>
    fst (set_ready i b c)\<lparr>c_roster := r, c_version := v\<rparr> = c\<lparr>c_roster := r, c_version := v\<rparr>"
  by (intro conjI set_ready_roster [OF assms] set_ready_frame)

theorem ready_belongs_to_owner_witness:
  "c_roster (fst (set_ready (mp_identity (example_presence ''b'')) True example_campaign)) =
     [example_slot ''a'', (example_slot ''b'')\<lparr>slot_ready := True\<rparr>]"
proof -
  have "map (\<lambda>s. if owns_slot (mp_identity (example_presence ''b'')) s then s\<lparr>slot_ready := True\<rparr> else s)
      (c_roster example_campaign) = [example_slot ''a'', (example_slot ''b'')\<lparr>slot_ready := True\<rparr>] \<and>
      c_sealed example_campaign \<and> mi_campaign (mp_identity (example_presence ''b'')) = c_id example_campaign"
    by code_simp
  with ready_belongs_to_owner [OF example_campaign_wf, of "mp_identity (example_presence ''b'')" True]
  show ?thesis by simp
qed

text \<open>
  Below the last version the version tells every change: an operation that reports a change
  succeeded and stepped the version by one, and one that does not left the campaign as it was.
\<close>

theorem version_tells_changes:
  assumes "c_version c \<noteq> - 1"
  shows "(dom_changed (snd (campaign_perform c op)) \<longrightarrow> dom_succeeded (snd (campaign_perform c op)) \<and>
      c_version (fst (campaign_perform c op)) = c_version c + 1) \<and>
    (\<not> dom_changed (snd (campaign_perform c op)) \<longrightarrow> fst (campaign_perform c op) = c)"
  by (rule perform_version [OF assms])

theorem version_tells_changes_witness:
  "fst (campaign_perform example_campaign (OpRemoveSlot ''slot-a'')) = example_campaign"
proof -
  have "c_version example_campaign \<noteq> - 1 \<and>
      \<not> dom_changed (snd (campaign_perform example_campaign (OpRemoveSlot ''slot-a'')))" by code_simp
  with version_tells_changes [of example_campaign "OpRemoveSlot ''slot-a''"] show ?thesis by simp
qed

text \<open>
  At the last version a transfer of the session manager reports a failure and keeps the new
  manager all the same: unlike the roster operations and the start, it is not rolled back.
\<close>

theorem exhausted_transfer_is_kept:
  assumes "c_version c = - 1" and "c_manager c = Some a" and "is_roster_member c m" and "m \<noteq> a"
  shows "transfer_session_manager a m c = (c\<lparr>c_manager := Some m\<rparr>, dom_failure IntegrityFailure)"
  using assms by (simp add: transfer_session_manager_def advance_version_def)

theorem exhausted_transfer_is_kept_witness:
  "c_manager (fst (transfer_session_manager ''player-a'' ''player-b'' (example_campaign\<lparr>c_version := - 1\<rparr>))) =
     Some ''player-b''"
proof -
  let ?c = "example_campaign\<lparr>c_version := - 1\<rparr>"
  have "c_version ?c = - 1 \<and> c_manager ?c = Some ''player-a'' \<and> is_roster_member ?c ''player-b''"
    by code_simp
  with exhausted_transfer_is_kept [of ?c "''player-a''" "''player-b''"] show ?thesis by simp
qed

end
