(* ===== verification/CampaignCoreCodec.thy ===== *)
theory CampaignCoreCodec
  imports CampaignCodec CampaignState
begin

text \<open>
  \<open>campaign_runtime/CampaignCoreCodec.cpp\<close>: the core state that the runtime stores beside the
  roster, and the snapshot intent it puts in the outbox. The \<open>Writer\<close> and \<open>Reader\<close> of this file
  are those of \<open>ByteCodec\<close> with their own limits. The value returned beside an error is left out.
\<close>

section \<open>Limits and constants\<close>

definition core_limits :: CodecLimits where
  "core_limits = \<lparr>payload_limit = 64 * 1024, string_limit = 128\<rparr>"

definition kCoreMagic :: string where "kCoreMagic = ''STRECR01''"
definition kSnapshotIntentMagic :: string where "kSnapshotIntentMagic = ''STRECI01''"
definition kCampaignCoreCodecVersion :: u32 where "kCampaignCoreCodecVersion = 1"
definition kCampaignOutboxCodecVersion :: u32 where "kCampaignOutboxCodecVersion = 1"

definition core_scalar :: "'a :: len word \<Rightarrow> writer" where "core_scalar = write_scalar core_limits"
definition core_bool :: "bool \<Rightarrow> writer" where "core_bool = write_bool core_limits"
definition core_raw :: "Bytes \<Rightarrow> writer" where "core_raw = write_raw core_limits"
definition core_string :: "string \<Rightarrow> writer" where "core_string = write_string core_limits"
definition core_read_string :: "string reader" where "core_read_string = read_string core_limits"

section \<open>Phases\<close>

text \<open>The underlying value of the enumeration, and \<open>IsValidPhase\<close> of a byte that was read.\<close>

definition phase_code :: "CampaignPhase \<Rightarrow> u8" where
  "phase_code p = (case p of
     Lobby \<Rightarrow> 0 | CharacterCreation \<Rightarrow> 1 | Arrival \<Rightarrow> 2 | Gathering \<Rightarrow> 3 | ValenIntroduction \<Rightarrow> 4
   | ClassSelection \<Rightarrow> 5 | ReadyCheck \<Rightarrow> 6 | Departure \<Rightarrow> 7 | OpenWorld \<Rightarrow> 8)"

definition phase_of_code :: "u8 \<Rightarrow> CampaignPhase option" where
  "phase_of_code b =
     (if b = 0 then Some Lobby else if b = 1 then Some CharacterCreation else if b = 2 then Some Arrival
      else if b = 3 then Some Gathering else if b = 4 then Some ValenIntroduction
      else if b = 5 then Some ClassSelection else if b = 6 then Some ReadyCheck
      else if b = 7 then Some Departure else if b = 8 then Some OpenWorld else None)"

definition read_phase :: "CampaignPhase reader" where
  "read_phase = r_bind read_scalar (\<lambda>b inp. case phase_of_code b of None \<Rightarrow> None | Some p \<Rightarrow> Some (p, inp))"

section \<open>Encoding\<close>

definition validate_aggregate :: "CampaignAggregate \<Rightarrow> StoreError" where
  "validate_aggregate c =
     (if c_id c = [] \<or> c_version c = 0 then Store_InvalidArgument
      else if validate_roster (c_roster c) (\<not> c_sealed c) \<noteq> NoCampaignError then Store_InvalidArgument
      else if \<not> c_sealed c \<and> (c_phase c \<noteq> Lobby \<or> c_manager c \<noteq> None) then Store_InvalidArgument
      else if c_sealed c \<and> (c_phase c = Lobby \<or> c_manager c = None) then Store_InvalidArgument
      else if (case c_manager c of None \<Rightarrow> False
               | Some m \<Rightarrow> \<not> list_ex (\<lambda>s. slot_player s = m) (c_roster c)) then Store_InvalidArgument
      else Store_None)"

definition write_readiness :: "CampaignSlotState \<Rightarrow> writer" where
  "write_readiness s = w_seq [core_string (slot_id s), core_bool (slot_ready s)]"

definition write_core_body :: "CampaignAggregate \<Rightarrow> writer" where
  "write_core_body c = w_seq
     ([core_scalar (c_version c), core_scalar (phase_code (c_phase c)),
       write_optional core_limits core_string (c_manager c),
       core_scalar (of_nat (length (c_roster c)) :: u32)] @ map write_readiness (c_roster c))"

text \<open>The payload is left alone when the aggregate is not valid.\<close>

definition encode_core_state :: "CampaignAggregate \<Rightarrow> Bytes \<Rightarrow> StoreError \<times> Bytes" where
  "encode_core_state c payload =
     (let validation = validate_aggregate c in
      if validation \<noteq> Store_None then (validation, payload)
      else case w_seq [core_raw (bytes_of_string kCoreMagic), core_scalar kCampaignCoreCodecVersion,
                       write_core_body c] [] of
        (payload, ok) \<Rightarrow> (if ok then Store_None else Store_InvalidArgument, payload))"

definition write_intent_slot :: "CampaignSlotState \<Rightarrow> writer" where
  "write_intent_slot s = w_seq
     [core_string (slot_id s), core_string (slot_player s), core_string (slot_binding s),
      core_bool (slot_ready s)]"

definition write_intent_body :: "CampaignAggregate \<Rightarrow> writer" where
  "write_intent_body c = w_seq
     ([core_string (c_id c), core_scalar (c_version c), core_scalar (phase_code (c_phase c)),
       core_bool (c_sealed c), write_optional core_limits core_string (c_manager c),
       core_scalar (of_nat (length (c_roster c)) :: u32)] @ map write_intent_slot (c_roster c))"

definition encode_snapshot_intent :: "CampaignAggregate \<Rightarrow> Bytes \<Rightarrow> StoreError \<times> Bytes" where
  "encode_snapshot_intent c payload =
     (let validation = validate_aggregate c in
      if validation \<noteq> Store_None then (validation, payload)
      else case w_seq [core_raw (bytes_of_string kSnapshotIntentMagic),
                       core_scalar kCampaignOutboxCodecVersion, write_intent_body c] [] of
        (payload, ok) \<Rightarrow> (if ok then Store_None else Store_InvalidArgument, payload))"

section \<open>Decoding\<close>

definition read_readiness :: "(string \<times> bool) reader" where
  "read_readiness = r_bind core_read_string (\<lambda>s. r_bind read_bool (\<lambda>ready. r_return (s, ready)))"

text \<open>
  The loop that fills the hash map of readiness: \<open>emplace\<close> refuses a second entry of a slot, and
  the loop fails at once.
\<close>

fun read_readiness_map :: "nat \<Rightarrow> (string \<times> bool) list \<Rightarrow> (string \<times> bool) list reader" where
  "read_readiness_map 0 m = r_return m"
| "read_readiness_map (Suc n) m =
     r_bind read_readiness (\<lambda>(s, ready).
     r_bind (r_check (map_of m s = None)) (\<lambda>_. read_readiness_map n (AList.update s ready m)))"

text \<open>The header and the readiness map: version, phase, manager, readiness.\<close>

definition read_core_body ::
  "StateVersion \<Rightarrow> nat \<Rightarrow> (StateVersion \<times> CampaignPhase \<times> string option \<times> (string \<times> bool) list) reader" where
  "read_core_body persisted_version roster_size =
     r_bind read_scalar (\<lambda>version. r_bind (r_check (version = persisted_version)) (\<lambda>_.
     r_bind read_phase (\<lambda>phase. r_bind (read_optional core_read_string) (\<lambda>manager.
     r_bind read_scalar (\<lambda>count :: u32.
     r_bind (r_check (unat count \<le> kMaximumCampaignRosterSize \<and> unat count = roster_size)) (\<lambda>_.
     r_bind (read_readiness_map (unat count) []) (\<lambda>readiness.
     r_return (version, phase, manager, readiness))))))))"

fun join_roster ::
  "(string \<times> bool) list \<Rightarrow> CampaignSlotRecord list \<Rightarrow> CampaignSlotState list option" where
  "join_roster readiness [] = Some []"
| "join_roster readiness (r # rs) =
     (case map_of readiness (rec_slot r) of
        None \<Rightarrow> None
      | Some ready \<Rightarrow>
          map_option (\<lambda>ss. \<lparr>slot_id = rec_slot r, slot_player = rec_player r,
            slot_binding = rec_binding r, slot_ready = ready\<rparr> # ss) (join_roster readiness rs))"

definition decode_core_state ::
  "CampaignId \<Rightarrow> bool \<Rightarrow> CampaignSlotRecord list \<Rightarrow> StateVersion \<Rightarrow> Bytes \<Rightarrow> StoreError + CampaignAggregate" where
  "decode_core_state i is_sealed roster persisted_version payload =
     (case read_all (r_bind (read_magic kCoreMagic) (\<lambda>_. r_bind read_scalar (\<lambda>version.
              r_bind (r_check (version = kCampaignCoreCodecVersion)) (\<lambda>_.
              read_core_body persisted_version (length roster))))) payload of
        Inl e \<Rightarrow> Inl e
      | Inr (version, phase, manager, readiness) \<Rightarrow>
          (case join_roster readiness roster of
             None \<Rightarrow> Inl Store_IntegrityFailure
           | Some slots \<Rightarrow>
               let c = \<lparr>c_id = i, c_version = version, c_phase = phase, c_sealed = is_sealed,
                        c_manager = manager, c_roster = sort_roster slots\<rparr> in
               if validate_aggregate c \<noteq> Store_None then Inl Store_IntegrityFailure else Inr c))"

definition read_intent_slot :: "CampaignSlotState reader" where
  "read_intent_slot =
     r_bind core_read_string (\<lambda>i. r_bind core_read_string (\<lambda>p. r_bind core_read_string (\<lambda>b.
     r_bind read_bool (\<lambda>ready.
     r_return \<lparr>slot_id = i, slot_player = p, slot_binding = b, slot_ready = ready\<rparr>))))"

definition read_intent_body :: "CampaignAggregate reader" where
  "read_intent_body =
     r_bind core_read_string (\<lambda>i. r_bind read_scalar (\<lambda>version. r_bind read_phase (\<lambda>phase.
     r_bind read_bool (\<lambda>is_sealed. r_bind (read_optional core_read_string) (\<lambda>manager.
     r_bind (read_list kMaximumCampaignRosterSize read_intent_slot) (\<lambda>roster.
     r_return \<lparr>c_id = i, c_version = version, c_phase = phase, c_sealed = is_sealed,
       c_manager = manager, c_roster = roster\<rparr>))))))"

definition decode_snapshot_intent :: "Bytes \<Rightarrow> StoreError + CampaignAggregate" where
  "decode_snapshot_intent payload =
     (case read_all (r_bind (read_magic kSnapshotIntentMagic) (\<lambda>_. r_bind read_scalar (\<lambda>version.
              r_bind (r_check (version = kCampaignOutboxCodecVersion)) (\<lambda>_. read_intent_body)))) payload of
        Inl e \<Rightarrow> Inl e
      | Inr c \<Rightarrow>
          let c = c\<lparr>c_roster := sort_roster (c_roster c)\<rparr> in
          if validate_aggregate c \<noteq> Store_None then Inl Store_IntegrityFailure else Inr c)"

section \<open>Both sides of the formats fit\<close>

lemma codes_run: "codes w r v \<Longrightarrow> w [] = (payload, True) \<Longrightarrow> r payload = Some (v, [])"
  unfolding codes_def by (elim allE impE, assumption) (auto dest: spec [of _ "[]"])

lemma core_small [simp]: "small (string_limit core_limits)" "small (payload_limit core_limits)"
  "small kMaximumCampaignRosterSize"
  by (simp_all add: small_def core_limits_def kMaximumCampaignRosterSize_def)

lemma phase_of_phase_code [simp]: "phase_of_code (phase_code p) = Some p"
  by (cases p) (simp_all add: phase_code_def phase_of_code_def)

lemma phase_of_code_Some: "phase_of_code b = Some p \<longleftrightarrow> b = phase_code p"
  by (auto simp: phase_of_code_def phase_code_def split: if_splits CampaignPhase.splits)

lemma core_string_codec: "codec core_limits core_string core_read_string"
  unfolding core_string_def core_read_string_def by (rule codec_string) simp

lemma core_bool_codec: "codec core_limits core_bool read_bool"
  unfolding core_bool_def by (rule codec_bool)

lemma core_scalar_codec:
  "codec core_limits (core_scalar :: u8 \<Rightarrow> writer) read_scalar"
  "codec core_limits (core_scalar :: u32 \<Rightarrow> writer) read_scalar"
  "codec core_limits (core_scalar :: u64 \<Rightarrow> writer) read_scalar"
  unfolding core_scalar_def by (rule scalar_codec)+

lemma phase_codec: "codec core_limits (\<lambda>p. core_scalar (phase_code p)) read_phase"
proof
  show "codes (core_scalar (phase_code p)) read_phase p" for p
    unfolding read_phase_def by (rule codes_map [OF codec.write_read [OF core_scalar_codec(1)]]) simp
  show "parsed (payload_limit core_limits) inp rest (core_scalar (phase_code p))"
    if "read_phase inp = Some (p, rest)" for inp rest p
    using that unfolding read_phase_def
    by (auto simp: r_bind_Some phase_of_code_Some split: option.splits
        intro: codec.read_write [OF core_scalar_codec(1)])
qed

lemmas core_codecs = core_string_codec core_bool_codec core_scalar_codec phase_codec
  codec.codec_optional [OF core_string_codec]

lemmas core_put = core_codecs [THEN codec_codes]
lemmas core_get = core_codecs [THEN codec_parsed]

interpretation readiness: codec core_limits "\<lambda>(i, b). w_seq [core_string i, core_bool b]" read_readiness
proof
  show "codes (case v of (i, b) \<Rightarrow> w_seq [core_string i, core_bool b]) read_readiness v" for v
    unfolding read_readiness_def by (cases v; hypsubst; unfold prod.case) (rule core_put codes_end | simp)+
  show "parsed (payload_limit core_limits) inp rest (case v of (i, b) \<Rightarrow> w_seq [core_string i, core_bool b])"
    if "read_readiness inp = Some (v, rest)" for inp rest v
    using that unfolding read_readiness_def
    by (clarsimp simp: r_simps) ((rule core_get, assumption)+, rule parsed_done)
qed

interpretation intent_slot: codec core_limits write_intent_slot read_intent_slot
proof
  show "codes (write_intent_slot s) read_intent_slot s" for s
    unfolding write_intent_slot_def read_intent_slot_def by (rule core_put codes_end | simp)+
  show "parsed (payload_limit core_limits) inp rest (write_intent_slot s)"
    if "read_intent_slot inp = Some (s, rest)" for inp rest s
    using that unfolding write_intent_slot_def read_intent_slot_def
    by (clarsimp simp: r_simps) ((rule core_get, assumption)+, rule parsed_done)
qed

text \<open>
  The reader refuses more than ten slots where the writer relies on the validation: with the same
  check in front of the count the two sides fit.
\<close>

definition write_checked_intent :: "CampaignAggregate \<Rightarrow> writer" where
  "write_checked_intent c = w_seq
     [core_string (c_id c), core_scalar (c_version c), core_scalar (phase_code (c_phase c)),
      core_bool (c_sealed c), write_optional core_limits core_string (c_manager c),
      write_list core_limits kMaximumCampaignRosterSize write_intent_slot (c_roster c)]"

lemmas intent_list_leaves = intent_slot.codec_list [OF core_small(3), THEN codec_codes]
  intent_slot.codec_list [OF core_small(3), THEN codec_parsed]

interpretation intent: codec core_limits write_checked_intent read_intent_body
proof
  show "codes (write_checked_intent c) read_intent_body c" for c
    unfolding write_checked_intent_def read_intent_body_def by (rule core_put intent_list_leaves codes_end | simp)+
  show "parsed (payload_limit core_limits) inp rest (write_checked_intent c)"
    if "read_intent_body inp = Some (c, rest)" for inp rest c
    using that unfolding write_checked_intent_def read_intent_body_def
    by (clarsimp simp: r_simps) ((rule core_get intent_list_leaves, assumption)+, rule parsed_done)
qed

lemma w_seq_append: "w_seq (xs @ ys) = w_seq (xs @ [w_seq ys])"
  by (induction xs) (simp_all add: fun_eq_iff w_seq.simps split: prod.splits)

lemma checked_intent:
  "length (c_roster c) \<le> kMaximumCampaignRosterSize \<Longrightarrow> write_checked_intent c = write_intent_body c"
proof -
  assume len: "length (c_roster c) \<le> kMaximumCampaignRosterSize"
  let ?count = "core_scalar (of_nat (length (c_roster c)) :: u32)"
  have "write_list core_limits kMaximumCampaignRosterSize write_intent_slot (c_roster c) =
      w_seq (?count # map write_intent_slot (c_roster c))"
    using len by (simp add: write_list_def fun_eq_iff w_seq.simps w_check_def core_scalar_def)
  then show ?thesis
    using w_seq_append [of "[core_string (c_id c), core_scalar (c_version c), core_scalar (phase_code (c_phase c)),
      core_bool (c_sealed c), write_optional core_limits core_string (c_manager c)]"
      "?count # map write_intent_slot (c_roster c)"]
    by (simp add: write_checked_intent_def write_intent_body_def)
qed

section \<open>Valid aggregates\<close>

lemma validate_aggregate_iff:
  "validate_aggregate c = Store_None \<longleftrightarrow>
     c_id c \<noteq> [] \<and> c_version c \<noteq> 0 \<and> valid_roster (c_roster c) \<and> (c_sealed c \<longrightarrow> c_roster c \<noteq> []) \<and>
     (c_sealed c \<longrightarrow> c_phase c \<noteq> Lobby \<and> c_manager c \<noteq> None) \<and>
     (\<not> c_sealed c \<longrightarrow> c_phase c = Lobby \<and> c_manager c = None) \<and>
     (\<forall>m. c_manager c = Some m \<longrightarrow> m \<in> slot_player ` set (c_roster c))"
  by (auto simp: validate_aggregate_def validate_roster_iff list_ex_player split: option.splits)

lemma campaign_wf_valid:
  "campaign_wf c \<Longrightarrow> c_id c \<noteq> [] \<Longrightarrow> c_version c \<noteq> 0 \<Longrightarrow> validate_aggregate c = Store_None"
  by (auto simp: validate_aggregate_iff campaign_wf_def canonical_roster_def list_ex_player
      split: if_splits option.splits)

lemma sort_roster_canonical: "canonical_roster r \<Longrightarrow> sort_roster r = r"
  by (simp add: canonical_roster_def sort_roster_def sorted_sort_id sort_key_id_if_sorted strict_sorted_iff)

section \<open>The snapshot intent comes back\<close>

definition write_intent :: "CampaignAggregate \<Rightarrow> writer" where
  "write_intent c = w_seq [core_raw (bytes_of_string kSnapshotIntentMagic),
     w_seq [core_scalar kCampaignOutboxCodecVersion, write_checked_intent c]]"

definition read_intent :: "CampaignAggregate reader" where
  "read_intent = r_bind (read_magic kSnapshotIntentMagic) (\<lambda>_. r_bind read_scalar (\<lambda>version.
     r_bind (r_check (version = kCampaignOutboxCodecVersion)) (\<lambda>_. read_intent_body)))"

interpretation intent_payload: codec core_limits write_intent read_intent
  unfolding write_intent_def [abs_def] read_intent_def core_raw_def core_scalar_def
  by (rule codec.codec_magic [OF intent.codec_version])

lemma encode_intent_iff:
  "encode_snapshot_intent c old = (Store_None, payload) \<longleftrightarrow>
     validate_aggregate c = Store_None \<and> write_intent c [] = (payload, True)"
proof (cases "validate_aggregate c = Store_None")
  case True
  then have "write_checked_intent c = write_intent_body c"
    by (intro checked_intent) (simp add: validate_aggregate_iff valid_roster_def kMaximumCampaignRosterSize_def)
  with True show ?thesis
    by (auto simp: encode_snapshot_intent_def write_intent_def w_seq_nested split: prod.splits)
qed (auto simp: encode_snapshot_intent_def)

lemma decode_encoded_intent:
  assumes "encode_snapshot_intent c old = (Store_None, payload)" and "canonical_roster (c_roster c)"
  shows "decode_snapshot_intent payload = Inr c"
proof -
  from assms(1) have valid: "validate_aggregate c = Store_None" and run: "write_intent c [] = (payload, True)"
    by (simp_all add: encode_intent_iff)
  from intent_payload.round_trip [OF run, of "[]"] have "read_all read_intent payload = Inr c"
    by (simp add: read_all_iff)
  with valid sort_roster_canonical [OF assms(2)] show ?thesis
    by (simp add: decode_snapshot_intent_def read_intent_def)
qed

section \<open>The core state comes back\<close>

definition slot_record :: "CampaignSlotState \<Rightarrow> CampaignSlotRecord" where
  "slot_record s = \<lparr>rec_slot = slot_id s, rec_player = slot_player s, rec_binding = slot_binding s\<rparr>"

abbreviation readiness_map :: "CampaignSlotState list \<Rightarrow> (string \<times> bool) list \<Rightarrow> (string \<times> bool) list" where
  "readiness_map ss m \<equiv> fold (\<lambda>s. AList.update (slot_id s) (slot_ready s)) ss m"

lemma readiness_map_other: "i \<notin> slot_id ` set ss \<Longrightarrow> map_of (readiness_map ss m) i = map_of m i"
  by (induction ss arbitrary: m) (simp_all add: al_simps)

lemma readiness_map_slot:
  "distinct (map slot_id ss) \<Longrightarrow> s \<in> set ss \<Longrightarrow> map_of (readiness_map ss m) (slot_id s) = Some (slot_ready s)"
proof (induction ss arbitrary: m)
  case (Cons t ss)
  then show ?case
    by (cases "s = t") (auto simp: al_simps readiness_map_other)
qed simp

lemma codes_readiness:
  "distinct (map slot_id ss) \<Longrightarrow> (\<forall>s \<in> set ss. map_of m (slot_id s) = None) \<Longrightarrow>
     codes (w_seq (map write_readiness ss)) (read_readiness_map (length ss) m) (readiness_map ss m)"
proof (induction ss arbitrary: m)
  case Nil
  then show ?case by (simp add: codes_done)
next
  case (Cons s ss)
  have "codes (write_readiness s) read_readiness (slot_id s, slot_ready s)"
    using readiness.write_read [of "(slot_id s, slot_ready s)"] by (simp add: write_readiness_def)
  moreover have "codes (w_seq (map write_readiness ss))
      (r_bind (r_check (map_of m (slot_id s) = None))
        (\<lambda>_. read_readiness_map (length ss) (AList.update (slot_id s) (slot_ready s) m)))
      (readiness_map (s # ss) m)"
  proof (rule codes_r_check)
    have "\<forall>t \<in> set ss. map_of (AList.update (slot_id s) (slot_ready s) m) (slot_id t) = None"
      using Cons.prems by (auto simp: al_simps image_iff)
    then show "codes (w_seq (map write_readiness ss))
       (read_readiness_map (length ss) (AList.update (slot_id s) (slot_ready s) m)) (readiness_map (s # ss) m)"
      using Cons.prems Cons.IH [of "AList.update (slot_id s) (slot_ready s) m"] by simp
  qed (use Cons.prems in simp)
  ultimately show ?case by (simp add: codes_bind)
qed

lemma join_roster_complete:
  assumes "\<And>s. s \<in> set ss \<Longrightarrow> map_of m (slot_id s) = Some (slot_ready s)"
  shows "join_roster m (map slot_record ss) = Some ss"
  using assms by (induction ss) (simp_all add: slot_record_def)

lemma join_roster_records: "join_roster m rs = Some ss \<Longrightarrow> map slot_record ss = rs"
  by (induction rs arbitrary: ss) (auto simp: slot_record_def split: option.splits)

lemma codes_core_body:
  assumes "valid_roster (c_roster c)" and n: "n = length (c_roster c)"
  shows "codes (write_core_body c) (read_core_body (c_version c) n)
     (c_version c, c_phase c, c_manager c, readiness_map (c_roster c) [])"
proof -
  have len: "length (c_roster c) \<le> kMaximumCampaignRosterSize"
    using assms by (simp add: valid_roster_def kMaximumCampaignRosterSize_def)
  have count: "unat (of_nat (length (c_roster c)) :: u32) = length (c_roster c)"
    by (rule unat_count [OF core_small(3) len])
  have slots: "codes (w_seq (map write_readiness (c_roster c)))
      (read_readiness_map (length (c_roster c)) []) (readiness_map (c_roster c) [])"
    using assms by (intro codes_readiness) (simp_all add: valid_roster_def)
  have "codes (w_seq (map write_readiness (c_roster c)))
      (r_bind (read_readiness_map (length (c_roster c)) [])
        (\<lambda>m. r_return (c_version c, c_phase c, c_manager c, m)))
      (c_version c, c_phase c, c_manager c, readiness_map (c_roster c) [])"
    by (rule codes_map [OF slots]) (simp add: r_return_def)
  then show ?thesis
    unfolding write_core_body_def read_core_body_def append_Cons append_Nil n
    by (intro core_put codes_r_check) (simp_all add: count len)
qed

lemma encode_core_iff:
  "encode_core_state c old = (Store_None, payload) \<longleftrightarrow>
     validate_aggregate c = Store_None \<and>
     w_seq [core_raw (bytes_of_string kCoreMagic), core_scalar kCampaignCoreCodecVersion,
       write_core_body c] [] = (payload, True)"
  by (auto simp: encode_core_state_def split: prod.splits)

lemma decode_encoded_core:
  assumes "encode_core_state c old = (Store_None, payload)" and "canonical_roster (c_roster c)"
    and "mset records = mset (map slot_record (c_roster c))"
  shows "decode_core_state (c_id c) (c_sealed c) records (c_version c) payload = Inr c"
proof -
  let ?r = "r_bind (read_magic kCoreMagic) (\<lambda>_. r_bind read_scalar (\<lambda>version.
     r_bind (r_check (version = kCampaignCoreCodecVersion)) (\<lambda>_.
     read_core_body (c_version c) (length records))))"
  let ?v = "(c_version c, c_phase c, c_manager c, readiness_map (c_roster c) [])"
  from assms(1) have valid: "validate_aggregate c = Store_None"
    and run: "w_seq [core_raw (bytes_of_string kCoreMagic), core_scalar kCampaignCoreCodecVersion,
       write_core_body c] [] = (payload, True)"
    by (simp_all add: encode_core_iff)
  from valid have roster: "valid_roster (c_roster c)" by (simp add: validate_aggregate_iff)
  have "length records = length (c_roster c)"
    using assms(3) by (metis length_map mset_eq_length)
  then have "codes (w_seq [core_raw (bytes_of_string kCoreMagic), core_scalar kCampaignCoreCodecVersion,
       write_core_body c]) ?r ?v"
    unfolding core_raw_def
    by (intro codes_bind [OF codes_magic] core_put codes_r_check codes_one codes_core_body [OF roster]) simp_all
  from codes_run [OF this run] have "read_all ?r payload = Inr ?v" by (simp add: read_all_iff)
  moreover
  from assms(3) have "mset records = image_mset slot_record (mset (c_roster c))" by simp
  from mset_map_inverse [OF this] obtain ss where ss: "records = map slot_record ss" "mset ss = mset (c_roster c)"
    by blast
  have "join_roster (readiness_map (c_roster c) []) records = Some ss"
    unfolding ss(1) using roster mset_eq_setD [OF ss(2)]
    by (intro join_roster_complete readiness_map_slot) (simp_all add: valid_roster_def)
  moreover have "sort_roster ss = c_roster c"
    using sort_key_unique [of "c_roster c" ss slot_id] ss(2) assms(2)
    by (simp add: sort_roster_def canonical_roster_def)
  ultimately show ?thesis using valid by (cases c) (simp add: decode_core_state_def)
qed

lemma read_core_version:
  "read_core_body persisted n inp = Some ((v, phase, manager, m), rest) \<Longrightarrow> v = persisted"
  by (auto simp: read_core_body_def r_simps)

lemma decode_core_facts:
  assumes "decode_core_state i is_sealed records version payload = Inr c"
  shows "c_id c = i \<and> c_sealed c = is_sealed \<and> c_version c = version \<and> validate_aggregate c = Store_None \<and>
     canonical_roster (c_roster c) \<and> mset (map slot_record (c_roster c)) = mset records"
proof -
  let ?r = "r_bind (read_magic kCoreMagic) (\<lambda>_. r_bind read_scalar (\<lambda>codec.
     r_bind (r_check (codec = kCampaignCoreCodecVersion)) (\<lambda>_. read_core_body version (length records))))"
  from assms obtain v phase manager m where head: "read_all ?r payload = Inr (v, phase, manager, m)"
    by (auto simp: decode_core_state_def split: sum.splits)
  from assms head obtain ss where join: "join_roster m records = Some ss"
    and c: "c = \<lparr>c_id = i, c_version = v, c_phase = phase, c_sealed = is_sealed, c_manager = manager,
      c_roster = sort_roster ss\<rparr>" and valid: "validate_aggregate c = Store_None"
    by (auto simp: decode_core_state_def split: option.splits if_splits)
  from head have "v = version"
    by (auto simp: read_all_iff r_bind_Some r_check_Some dest: read_core_version)
  moreover have "canonical_roster (sort_roster ss)"
    using valid c by (simp add: validate_aggregate_iff)
  moreover have "mset (map slot_record (sort_roster ss)) = mset records"
    using join_roster_records [OF join] by (metis mset_map mset_sort sort_roster_def)
  ultimately show ?thesis using c valid by simp
qed

section \<open>Every campaign fits\<close>

text \<open>\<open>at_most lim w n\<close>: \<open>w\<close> emits at most \<open>n\<close> bytes, and succeeds where they fit.\<close>

definition at_most :: "nat \<Rightarrow> writer \<Rightarrow> nat \<Rightarrow> bool" where
  "at_most lim w n \<longleftrightarrow> (\<exists>bs. length bs \<le> n \<and> emits lim w bs)"

lemma at_most_run: "at_most lim w n \<Longrightarrow> n \<le> lim \<Longrightarrow> n \<le> k \<Longrightarrow> \<exists>bs. w [] = (bs, True) \<and> length bs \<le> k"
  by (force simp: at_most_def emits_def)

lemma at_most_done: "at_most lim (w_seq []) 0"
  using emits_done by (auto simp: at_most_def)

lemma at_most_seq: "at_most lim w n \<Longrightarrow> at_most lim (w_seq ws) k \<Longrightarrow> at_most lim (w_seq (w # ws)) (n + k)"
  unfolding at_most_def by (elim exE conjE) (rule exI, rule conjI [OF _ emits_seq], simp_all)

lemma at_most_map: "(\<forall>x \<in> set xs. at_most lim (w x) n) \<Longrightarrow> at_most lim (w_seq (map w xs)) (n * length xs)"
  by (induction xs) (auto simp: at_most_done intro: at_most_seq)

lemma w_seq_append_run:
  "w_seq (xs @ ys) out = (case w_seq xs out of (out, ok) \<Rightarrow> if ok then w_seq ys out else (out, False))"
  by (induction xs arbitrary: out) (simp_all add: w_seq.simps split: prod.splits)

lemma at_most_append:
  "at_most lim (w_seq xs) n \<Longrightarrow> at_most lim (w_seq ys) k \<Longrightarrow> at_most lim (w_seq (xs @ ys)) (n + k)"
  unfolding at_most_def
  by (elim exE conjE, rule_tac x = "bs @ bsa" in exI) (simp add: emits_def w_seq_append_run)

lemma at_most_mono: "at_most lim w n \<Longrightarrow> n \<le> k \<Longrightarrow> at_most lim w k"
  unfolding at_most_def by (blast intro: le_trans)

lemma at_most_scalar: "at_most (payload_limit core_limits) (core_scalar v) (scalar_size v)"
  unfolding at_most_def emits_def core_scalar_def
  by (rule exI [of _ "scalar_bytes v"]) (simp add: write_scalar_def)

lemma at_most_raw: "length bs \<le> 65536 \<Longrightarrow> at_most (payload_limit core_limits) (core_raw bs) (length bs)"
  unfolding at_most_def emits_def core_raw_def
  by (rule exI [of _ bs]) (auto simp: write_raw_def core_limits_def)

lemma at_most_bool: "at_most (payload_limit core_limits) (core_bool b) 1"
  using at_most_scalar [of "if b then 1 else 0 :: u8"]
  by (simp add: core_bool_def write_bool_def core_scalar_def)

lemma at_most_string:
  assumes "length t \<le> 128"
  shows "at_most (payload_limit core_limits) (core_string t) 132"
proof -
  have "core_string t = w_seq [core_scalar (of_nat (length t) :: u32), core_raw (bytes_of_string t)]"
    using assms by (simp add: core_string_def write_string_def core_scalar_def core_raw_def fun_eq_iff
        w_seq.simps w_check_def core_limits_def)
  moreover have "at_most (payload_limit core_limits) \<dots> (4 + (length (bytes_of_string t) + 0))"
    using assms at_most_scalar [of "of_nat (length t) :: u32"]
    by (intro at_most_seq at_most_raw at_most_done) simp_all
  ultimately show ?thesis using assms by (auto elim: at_most_mono)
qed

lemma at_most_manager:
  assumes "\<forall>m. v = Some m \<longrightarrow> length m \<le> 128"
  shows "at_most (payload_limit core_limits) (write_optional core_limits core_string v) 133"
proof (cases v)
  case None
  have "at_most (payload_limit core_limits) (w_seq [core_bool False, w_seq []]) (1 + (0 + 0))"
    by (intro at_most_seq at_most_bool at_most_done)
  with None show ?thesis
    by (auto simp: write_optional_def write_announced_def core_bool_def elim: at_most_mono)
next
  case (Some m)
  have "at_most (payload_limit core_limits) (w_seq [core_bool True, w_seq [core_string m]]) (1 + (132 + 0 + 0))"
    using assms Some by (intro at_most_seq at_most_bool at_most_done at_most_string) simp_all
  with Some show ?thesis
    by (auto simp: write_optional_def write_announced_def core_bool_def elim: at_most_mono)
qed

text \<open>
  The longest core state of a valid campaign has 1488 bytes, the longest intent 4269, far from the
  64 kilobytes of the codec.
\<close>

lemma at_most_slots:
  assumes "valid_roster r"
  shows "at_most (payload_limit core_limits) (w_seq (map write_readiness r)) 1330"
    and "at_most (payload_limit core_limits) (w_seq (map write_intent_slot r)) 3970"
proof -
  have ids: "length (slot_id s) \<le> 128 \<and> length (slot_player s) \<le> 128 \<and> length (slot_binding s) \<le> 128"
    if "s \<in> set r" for s
    using assms that by (auto simp: valid_roster_def list_all_iff slot_ids_valid_def is_valid_identity_def)
  have len: "length r \<le> 10" using assms by (simp add: valid_roster_def)
  have "at_most (payload_limit core_limits) (w_seq (map write_readiness r)) ((132 + (1 + 0)) * length r)"
    unfolding write_readiness_def using ids
    by (intro at_most_map ballI at_most_seq at_most_string at_most_bool at_most_done) simp
  with len show "at_most (payload_limit core_limits) (w_seq (map write_readiness r)) 1330"
    by (auto elim: at_most_mono)
  have "at_most (payload_limit core_limits) (w_seq (map write_intent_slot r))
      ((132 + (132 + (132 + (1 + 0)))) * length r)"
    unfolding write_intent_slot_def using ids
    by (intro at_most_map ballI at_most_seq at_most_string at_most_bool at_most_done) simp_all
  with len show "at_most (payload_limit core_limits) (w_seq (map write_intent_slot r)) 3970"
    by (auto elim: at_most_mono)
qed

lemma valid_manager:
  assumes "validate_aggregate c = Store_None"
  shows "\<forall>m. c_manager c = Some m \<longrightarrow> length m \<le> 128"
  using assms
  by (auto simp: validate_aggregate_iff valid_roster_def list_all_iff slot_ids_valid_def is_valid_identity_def)

lemma core_encoding_size:
  assumes "validate_aggregate c = Store_None"
  shows "\<exists>bs. encode_core_state c old = (Store_None, bs) \<and> length bs \<le> 1600"
proof -
  have roster: "valid_roster (c_roster c)" using assms by (simp add: validate_aggregate_iff)
  have body: "at_most (payload_limit core_limits) (write_core_body c)
      (scalar_size (c_version c) + (scalar_size (phase_code (c_phase c)) + (133 +
        (scalar_size (of_nat (length (c_roster c)) :: u32) + 0))) + 1330)"
    unfolding write_core_body_def
    by (intro at_most_append at_most_seq at_most_scalar at_most_manager at_most_slots at_most_done roster
        valid_manager [OF assms])
  have "\<exists>bs. w_seq [core_raw (bytes_of_string kCoreMagic), core_scalar kCampaignCoreCodecVersion,
        write_core_body c] [] = (bs, True) \<and> length bs \<le> 1600"
    by (rule at_most_run [OF at_most_seq [OF at_most_raw at_most_seq [OF at_most_scalar
          at_most_seq [OF body at_most_done]]]])
      (simp_all add: core_limits_def kCoreMagic_def)
  then show ?thesis using assms by (auto simp: encode_core_state_def)
qed

lemma intent_encoding_size:
  assumes "validate_aggregate c = Store_None" and "length (c_id c) \<le> 128"
  shows "\<exists>bs. encode_snapshot_intent c old = (Store_None, bs) \<and> length bs \<le> 4400"
proof -
  have roster: "valid_roster (c_roster c)" using assms by (simp add: validate_aggregate_iff)
  have body: "at_most (payload_limit core_limits) (write_intent_body c)
      (132 + (scalar_size (c_version c) + (scalar_size (phase_code (c_phase c)) + (1 + (133 +
        (scalar_size (of_nat (length (c_roster c)) :: u32) + 0))))) + 3970)"
    unfolding write_intent_body_def
    by (intro at_most_append at_most_seq at_most_scalar at_most_manager at_most_slots at_most_done roster
        at_most_bool at_most_string valid_manager [OF assms(1)] assms(2))
  have "\<exists>bs. w_seq [core_raw (bytes_of_string kSnapshotIntentMagic), core_scalar kCampaignOutboxCodecVersion,
        write_intent_body c] [] = (bs, True) \<and> length bs \<le> 4400"
    by (rule at_most_run [OF at_most_seq [OF at_most_raw at_most_seq [OF at_most_scalar
          at_most_seq [OF body at_most_done]]]])
      (simp_all add: core_limits_def kSnapshotIntentMagic_def)
  then show ?thesis using assms by (auto simp: encode_snapshot_intent_def)
qed

lemma valid_encodes_core: "validate_aggregate c = Store_None \<Longrightarrow> fst (encode_core_state c old) = Store_None"
  using core_encoding_size [of c old] by auto

lemma valid_encodes_intent:
  "validate_aggregate c = Store_None \<Longrightarrow> length (c_id c) \<le> 128 \<Longrightarrow> fst (encode_snapshot_intent c old) = Store_None"
  using intent_encoding_size [of c old] by auto

lemma example_campaign_fields:
  "c_id example_campaign = ''helgen'' \<and> c_version example_campaign = 2 \<and> c_roster example_campaign \<noteq> []"
  by code_simp

lemma example_campaign_valid:
  "validate_aggregate example_campaign = Store_None" "length (c_id example_campaign) \<le> 128"
  "canonical_roster (c_roster example_campaign)"
  using campaign_wf_valid [OF example_campaign_wf] example_campaign_wf example_campaign_fields
  by (simp_all add: campaign_wf_def)

section \<open>Properties\<close>

text \<open>
  Every campaign can be stored: for a well-formed campaign with a valid id and a non-zero
  version both the core state and the snapshot intent are encoded without error, whatever is in
  the output buffer before.
\<close>

theorem every_campaign_can_be_stored:
  assumes "campaign_wf c" and "is_valid_identity (c_id c)" and "c_version c \<noteq> 0"
  shows "fst (encode_core_state c old) = Store_None \<and> fst (encode_snapshot_intent c old) = Store_None"
proof -
  have "c_id c \<noteq> []" "length (c_id c) \<le> 128" using assms(2) by (simp_all add: is_valid_identity_def)
  with campaign_wf_valid [OF assms(1) _ assms(3)] show ?thesis
    by (simp add: valid_encodes_core valid_encodes_intent)
qed

theorem every_campaign_can_be_stored_witness:
  "fst (encode_core_state example_campaign []) = Store_None"
proof -
  have "is_valid_identity (c_id example_campaign) \<and> c_version example_campaign \<noteq> 0"
    using example_campaign_fields by (simp add: is_valid_identity_def)
  with every_campaign_can_be_stored [OF example_campaign_wf] show ?thesis by blast
qed

text \<open>
  The stored core state comes back: decoding it with the campaign's id, seal and version and
  the slot records of its roster, in whatever order the store returns them, gives the same
  campaign.
\<close>

theorem core_state_roundtrip:
  assumes "encode_core_state c old = (Store_None, payload)" and "canonical_roster (c_roster c)"
    and "mset records = mset (map slot_record (c_roster c))"
  shows "decode_core_state (c_id c) (c_sealed c) records (c_version c) payload = Inr c"
  using assms by (rule decode_encoded_core)

theorem core_state_roundtrip_witness:
  "decode_core_state (c_id example_campaign) (c_sealed example_campaign)
     (rev (map slot_record (c_roster example_campaign))) (c_version example_campaign)
     (snd (encode_core_state example_campaign [])) = Inr example_campaign"
  using valid_encodes_core [OF example_campaign_valid(1), of "[]"] example_campaign_valid(3)
  by (intro core_state_roundtrip [of _ "[]"]) (simp_all add: prod_eq_iff)

text \<open>
  A core state that decodes can be trusted, whatever the bytes are: the result has the id, the
  seal and the version that were asked for, exactly the slots, players and characters of the
  records, sorted, and it passes the validation.
\<close>

theorem decoded_core_state_is_valid:
  assumes "decode_core_state i is_sealed records version payload = Inr c"
  shows "c_id c = i \<and> c_sealed c = is_sealed \<and> c_version c = version \<and> validate_aggregate c = Store_None \<and>
     canonical_roster (c_roster c) \<and> mset (map slot_record (c_roster c)) = mset records"
  using assms by (rule decode_core_facts)

theorem decoded_core_state_is_valid_witness:
  "validate_aggregate example_campaign = Store_None"
proof -
  have "encode_core_state example_campaign [] = (Store_None, snd (encode_core_state example_campaign []))"
    using valid_encodes_core [OF example_campaign_valid(1), of "[]"] by (simp add: prod_eq_iff)
  from decode_encoded_core [OF this example_campaign_valid(3) refl]
  show ?thesis by (rule decoded_core_state_is_valid [THEN conjunct2, THEN conjunct2, THEN conjunct2, THEN conjunct1])
qed

text \<open>
  A snapshot intent of a campaign with a canonical roster comes back as that campaign.
\<close>

theorem snapshot_intent_roundtrip:
  assumes "encode_snapshot_intent c old = (Store_None, payload)" and "canonical_roster (c_roster c)"
  shows "decode_snapshot_intent payload = Inr c"
  using assms by (rule decode_encoded_intent)

theorem snapshot_intent_roundtrip_witness:
  "decode_snapshot_intent (snd (encode_snapshot_intent example_campaign [])) = Inr example_campaign"
  using valid_encodes_intent [OF example_campaign_valid(1,2), of "[]"] example_campaign_valid(3)
  by (intro snapshot_intent_roundtrip [of _ "[]"]) (simp_all add: prod_eq_iff)

end
