(* ===== verification/StoreTables.thy ===== *)
theory StoreTables
  imports CampaignCoreCodec
begin

text \<open>
  The tables of the campaign database and the SQL statements of
  \<open>campaign_persistence/sqlite\<close>: the schema of \<open>SqliteSchema.cpp\<close>, and the statement and transaction
  wrappers of \<open>SqlitePrimitives.cpp\<close>. A table is the list of its rows in insertion order. SQLite itself is a
  parameter in one respect: \<open>env_io\<close> says which of the statements an operation executes fail for a
  reason outside the program (a busy or full database), so that a property proved here holds whatever
  statement fails. Messages are left out, and so are C++ exceptions.
\<close>

section \<open>Rows and tables\<close>

datatype OutboxState = OutboxPending | OutboxDelivered | OutboxSuperseded

record OutboxIntent =
  oi_codec_version :: u32
  oi_payload :: Bytes

record BuildRow =
  br_campaign :: string
  br_slot :: string
  br_binding :: string
  br_codec_version :: u32
  br_build_version :: u32
  br_class :: string
  br_inventory_hash :: string
  br_spell_hash :: string
  br_payload :: Bytes
  br_revision :: u64

record SnapshotRow =
  sn_id :: string
  sn_campaign :: string
  sn_source_revision :: u64
  sn_codec_version :: u32
  sn_payload :: Bytes
  sn_checksum :: string
  sn_created :: u64

record CheckpointRow =
  cp_id :: string
  cp_campaign :: string
  cp_is_committed :: bool
  cp_source_revision :: u64
  cp_snapshot :: string
  cp_created_revision :: u64
  cp_committed_revision :: "u64 option"
  cp_created :: u64
  cp_committed :: "u64 option"

record CheckpointSlotRecord =
  cs_slot :: string
  cs_player :: string
  cs_binding :: string
  cs_native_save :: "string option"
  cs_algorithm :: "string option"
  cs_fingerprint_version :: "u32 option"
  cs_fingerprint :: Bytes
  cs_metadata_version :: "u32 option"
  cs_metadata :: Bytes

record JournalRow =
  jr_sequence :: nat
  jr_campaign :: string
  jr_mutation :: string
  jr_expected :: u64
  jr_resulting :: u64
  jr_kind :: string
  jr_digest :: string
  jr_codec_version :: u32
  jr_payload :: Bytes
  jr_restored_checkpoint :: "string option"
  jr_restored_revision :: "u64 option"
  jr_created :: u64

record OutboxRow =
  ob_id :: nat
  ob_campaign :: string
  ob_mutation :: string
  ob_index :: nat
  ob_revision :: u64
  ob_codec_version :: u32
  ob_payload :: Bytes
  ob_state :: OutboxState
  ob_superseded_by :: "u64 option"
  ob_created :: u64
  ob_delivered :: "u64 option"

text \<open>The two counters are the \<open>AUTOINCREMENT\<close> sequences of the journal and the outbox.\<close>

record Database =
  t_campaigns :: "CampaignRecord list"
  t_slots :: "(string \<times> CampaignSlotRecord) list"
  t_builds :: "BuildRow list"
  t_adapters :: "(string \<times> AdapterState) list"
  t_snapshots :: "SnapshotRow list"
  t_checkpoints :: "CheckpointRow list"
  t_checkpoint_slots :: "((string \<times> string) \<times> CheckpointSlotRecord) list"
  t_journal :: "JournalRow list"
  t_outbox :: "OutboxRow list"
  last_sequence :: nat
  last_outbox :: nat

definition empty_database :: Database where
  "empty_database = \<lparr>t_campaigns = [], t_slots = [], t_builds = [], t_adapters = [], t_snapshots = [],
     t_checkpoints = [], t_checkpoint_slots = [], t_journal = [], t_outbox = [],
     last_sequence = 0, last_outbox = 0\<rparr>"

section \<open>Statements\<close>

datatype TransactionStage = AfterCurrentState | AfterJournal | AfterOutbox | BeforeCommit

text \<open>
  What an operation meets outside the program: the clock, the fault injector of the store's options,
  and the failures of the statements, counted from the start of the operation.
\<close>

record StoreEnv =
  env_now :: u64
  env_fault :: "TransactionStage \<Rightarrow> bool"
  env_io :: "nat \<Rightarrow> bool"

text \<open>
  A program over the database returns early with \<open>Inl\<close> or goes on with \<open>Inr\<close>; the state is the
  number of statements executed so far and the tables.
\<close>

type_synonym ('e, 'a) sql = "StoreEnv \<Rightarrow> nat \<times> Database \<Rightarrow> ('e + 'a) \<times> nat \<times> Database"

definition sql_ret :: "'a \<Rightarrow> ('e, 'a) sql" where
  "sql_ret x = (\<lambda>env s. (Inr x, s))"

definition sql_fail :: "'e \<Rightarrow> ('e, 'a) sql" where
  "sql_fail e = (\<lambda>env s. (Inl e, s))"

definition sql_bind :: "('e, 'a) sql \<Rightarrow> ('a \<Rightarrow> ('e, 'b) sql) \<Rightarrow> ('e, 'b) sql" where
  "sql_bind m k = (\<lambda>env s. case m env s of (Inl e, s') \<Rightarrow> (Inl e, s') | (Inr x, s') \<Rightarrow> k x env s')"

definition sql_require :: "bool \<Rightarrow> 'e \<Rightarrow> ('e, unit) sql" where
  "sql_require b e = (if b then sql_ret () else sql_fail e)"

definition with_error :: "('d \<Rightarrow> 'e) \<Rightarrow> ('d, 'a) sql \<Rightarrow> ('e, 'a) sql" where
  "with_error f m = (\<lambda>env s. case m env s of (Inl e, s') \<Rightarrow> (Inl (f e), s') | (Inr x, s') \<Rightarrow> (Inr x, s'))"

fun sql_each :: "('a \<Rightarrow> ('e, unit) sql) \<Rightarrow> 'a list \<Rightarrow> ('e, unit) sql" where
  "sql_each f [] = sql_ret ()"
| "sql_each f (x # xs) = sql_bind (f x) (\<lambda>_. sql_each f xs)"

text \<open>A \<open>SELECT\<close>: it can fail, and otherwise reads the tables.\<close>

definition query :: "(Database \<Rightarrow> 'a) \<Rightarrow> (StoreError, 'a) sql" where
  "query q = (\<lambda>env (n, d).
     (if env_io env n then Inl Store_DatabaseFailure else Inr (q d), Suc n, d))"

text \<open>
  A statement that writes: it can fail, or violate a constraint of the schema, and then leaves the
  tables as they were; otherwise it returns the number of changed rows (\<open>sqlite3_changes\<close>).
\<close>

datatype Violation = ViolatedKey | ViolatedCheck

datatype StepFailure = StepIo | StepViolation Violation

definition change :: "(Database \<Rightarrow> Violation + nat \<times> Database) \<Rightarrow> (StepFailure, nat) sql" where
  "change u = (\<lambda>env (n, d).
     (if env_io env n then (Inl StepIo, Suc n, d)
      else case u d of Inl v \<Rightarrow> (Inl (StepViolation v), Suc n, d)
                     | Inr (rows, d') \<Rightarrow> (Inr rows, Suc n, d')))"

text \<open>\<open>StepDone\<close>: whatever the reason, the failure is a \<open>DatabaseFailure\<close>.\<close>

definition step_done :: "(Database \<Rightarrow> Violation + nat \<times> Database) \<Rightarrow> (StoreError, nat) sql" where
  "step_done u = with_error (\<lambda>_. Store_DatabaseFailure) (change u)"

definition step_only :: "(Database \<Rightarrow> Violation + nat \<times> Database) \<Rightarrow> (StoreError, unit) sql" where
  "step_only u = sql_bind (step_done u) (\<lambda>_. sql_ret ())"


section \<open>Results of mutations\<close>

record MutationResult =
  mut_error :: StoreError
  mut_revision :: u64
  mut_applied :: bool
  mut_replay :: bool

definition mutation_failure :: "StoreError \<Rightarrow> MutationResult" where
  "mutation_failure e = \<lparr>mut_error = e, mut_revision = 0, mut_applied = False, mut_replay = False\<rparr>"

definition mutation_done :: "u64 \<Rightarrow> bool \<Rightarrow> MutationResult" where
  "mutation_done revision applied =
     \<lparr>mut_error = Store_None, mut_revision = revision, mut_applied = applied, mut_replay = False\<rparr>"

definition mutation_replay :: "u64 \<Rightarrow> MutationResult" where
  "mutation_replay revision =
     \<lparr>mut_error = Store_None, mut_revision = revision, mut_applied = False, mut_replay = True\<rparr>"

text \<open>The early return of a mutation whose step has failed.\<close>

definition or_fail :: "(StoreError, 'a) sql \<Rightarrow> (MutationResult, 'a) sql" where
  "or_fail = with_error mutation_failure"

text \<open>
  The scope of a \<open>Transaction\<close>: \<open>BEGIN IMMEDIATE\<close> when it is entered, \<open>COMMIT\<close> at its end, and
  \<open>ROLLBACK\<close> by the destructor on every path that has not committed.
\<close>

definition transaction :: "('r, 'r) sql \<Rightarrow> (StoreError \<Rightarrow> 'r) \<Rightarrow> StoreEnv \<Rightarrow> Database \<Rightarrow> 'r \<times> Database" where
  "transaction body failure env d =
     (if env_io env 0 then (failure Store_DatabaseFailure, d)
      else case body env (1, d) of
        (Inl r, n, d') \<Rightarrow> (r, d)
      | (Inr r, n, d') \<Rightarrow> if env_io env n then (failure Store_DatabaseFailure, d) else (r, d'))"

text \<open>\<open>ShouldInject\<close> and the failure it causes.\<close>

definition inject_fault :: "TransactionStage \<Rightarrow> (StoreError, unit) sql" where
  "inject_fault stage = (\<lambda>env s.
     (if env_fault env stage then Inl Store_FaultInjected else Inr (), s))"

end
