(* ===== verification/StoreStatements.thy ===== *)
theory StoreStatements
  imports StoreTables
begin

text \<open>
  \<open>SqliteValidation.cpp\<close>, the digest of a command, and the statements of \<open>SqliteJournalOutbox.cpp\<close>
  and \<open>SqliteCampaignState.cpp\<close> that several mutations share. The constraints of the schema
  (\<open>CHECK\<close>, \<open>NOT NULL\<close>, \<open>PRIMARY KEY\<close>, \<open>UNIQUE\<close>, \<open>FOREIGN KEY\<close>) are the conditions under which a
  statement leaves the tables as they were. \<open>BindInt(static_cast<int>(v))\<close> stores the signed reading
  of a 32-bit value, and \<open>BindBlob\<close> of an empty payload binds \<open>NULL\<close>.
\<close>

section \<open>Validation\<close>

definition kMaximumIdLength :: nat where "kMaximumIdLength = 128"
definition kMaximumKindLength :: nat where "kMaximumKindLength = 128"
definition kMaximumAdapterIdLength :: nat where "kMaximumAdapterIdLength = 256"
definition kMaximumSaveIdentityLength :: nat where "kMaximumSaveIdentityLength = 512"
definition kMaximumAlgorithmLength :: nat where "kMaximumAlgorithmLength = 128"
definition kMaximumPayloadSize :: nat where "kMaximumPayloadSize = 4 * 1024 * 1024"
definition kMaximumRevision :: u64 where "kMaximumRevision = 0x7FFFFFFFFFFFFFFF"
definition kCampaignDatabaseSchemaVersion :: u32 where "kCampaignDatabaseSchemaVersion = 2"

definition is_valid_identifier :: "string \<Rightarrow> bool" where
  "is_valid_identifier v \<longleftrightarrow>
     \<not> (v = [] \<or> length v > kMaximumIdLength) \<and>
     (\<forall>c \<in> set v. CHR 0x21 \<le> c \<and> c \<le> CHR 0x7E)"

definition is_valid_payload :: "Bytes \<Rightarrow> bool" where
  "is_valid_payload p \<longleftrightarrow> length p \<le> kMaximumPayloadSize"

text \<open>The value of one hexadecimal digit, of either case.\<close>

definition hex_value :: "char \<Rightarrow> u64 option" where
  "hex_value c =
     (if CHR ''0'' \<le> c \<and> c \<le> CHR ''9'' then Some (of_char c - of_char CHR ''0'')
      else if CHR ''a'' \<le> c \<and> c \<le> CHR ''f'' then Some (of_char c - of_char CHR ''a'' + 10)
      else if CHR ''A'' \<le> c \<and> c \<le> CHR ''F'' then Some (of_char c - of_char CHR ''A'' + 10)
      else None)"

fun parse_hex_digits :: "u64 \<Rightarrow> string \<Rightarrow> u64 option" where
  "parse_hex_digits v [] = Some v"
| "parse_hex_digits v (c # cs) =
     (case hex_value c of None \<Rightarrow> None | Some d \<Rightarrow> parse_hex_digits (push_bit 4 v OR d) cs)"

definition parse_hex64 :: "string \<Rightarrow> u64 option" where
  "parse_hex64 v = (if length v \<noteq> 16 then None else parse_hex_digits 0 v)"

definition validate_outbox :: "OutboxIntent list \<Rightarrow> StoreError" where
  "validate_outbox outbox =
     (if length outbox > 256 then Store_InvalidArgument
      else if \<exists>i \<in> set outbox. oi_codec_version i = 0 \<or> \<not> is_valid_payload (oi_payload i)
      then Store_InvalidArgument else Store_None)"

fun validate_records :: "string list \<Rightarrow> string list \<Rightarrow> string list \<Rightarrow> CampaignSlotRecord list \<Rightarrow> StoreError" where
  "validate_records slots players bindings [] = Store_None"
| "validate_records slots players bindings (s # ss) =
     (if \<not> is_valid_identifier (rec_slot s) \<or> \<not> is_valid_identifier (rec_player s)
         \<or> \<not> is_valid_identifier (rec_binding s) then Store_InvalidArgument
      else if rec_slot s \<in> set slots \<or> rec_player s \<in> set players \<or> rec_binding s \<in> set bindings
      then Store_InvalidArgument
      else validate_records (rec_slot s # slots) (rec_player s # players) (rec_binding s # bindings) ss)"

definition validate_slot_records :: "CampaignSlotRecord list \<Rightarrow> StoreError" where
  "validate_slot_records slots =
     (if length slots > 128 then Store_InvalidArgument else validate_records [] [] [] slots)"

definition validate_character_build :: "CharacterBuildState \<Rightarrow> StoreError" where
  "validate_character_build b =
     (if \<not> is_valid_identifier (cb_slot b) \<or> \<not> is_valid_identifier (cb_binding b) \<or>
         cb_codec_version b = 0 \<or> cb_build_version b = 0 \<or> cb_class b = [] \<or>
         length (cb_class b) > 256 \<or> length (cb_selections b) > 256 \<or>
         length (cb_inventory b) > 4096 \<or> length (cb_spells b) > 1024
      then Store_InvalidArgument else fst (encode_character_build b))"

definition validate_adapter_state :: "AdapterState \<Rightarrow> StoreError" where
  "validate_adapter_state a =
     (if ad_id a = [] \<or> length (ad_id a) > kMaximumAdapterIdLength \<or> ad_version a > kMaximumRevision \<or>
         ad_codec_version a = 0 \<or> \<not> is_valid_payload (ad_payload a) then Store_InvalidArgument
      else if ad_audience a = AudiencePublic \<and> ad_player a \<noteq> None then Store_InvalidArgument
      else if ad_audience a = AudiencePrivate \<and>
         (case ad_player a of None \<Rightarrow> True | Some p \<Rightarrow> \<not> is_valid_identifier p)
      then Store_InvalidArgument else Store_None)"

definition validate_common_mutation ::
  "string \<Rightarrow> u64 \<Rightarrow> string \<Rightarrow> string \<Rightarrow> u32 \<Rightarrow> Bytes \<Rightarrow> OutboxIntent list \<Rightarrow> StoreError" where
  "validate_common_mutation campaign expected mutation kind codec_version payload outbox =
     (if \<not> is_valid_identifier campaign \<or> \<not> is_valid_identifier mutation \<or> expected > kMaximumRevision \<or>
         kind = [] \<or> length kind > kMaximumKindLength \<or> codec_version = 0 \<or> \<not> is_valid_payload payload
      then Store_InvalidArgument else validate_outbox outbox)"

text \<open>A chain of checks, each returning early with its error.\<close>

fun first_error :: "StoreError list \<Rightarrow> StoreError" where
  "first_error [] = Store_None"
| "first_error (e # es) = (if e \<noteq> Store_None then e else first_error es)"

definition reject_if :: "bool \<Rightarrow> StoreError" where
  "reject_if b = (if b then Store_InvalidArgument else Store_None)"

section \<open>The digest of a command\<close>

definition digest_text :: "string \<Rightarrow> Bytes" where
  "digest_text v = bytes_of_string v @ [0]"

definition digest_blob :: "Bytes \<Rightarrow> Bytes" where
  "digest_blob v = scalar_bytes (of_nat (length v) :: u64) @ v"

definition digest_outbox :: "OutboxIntent list \<Rightarrow> Bytes" where
  "digest_outbox outbox =
     scalar_bytes (of_nat (length outbox) :: u64) @
     concat (map (\<lambda>i. scalar_bytes (oi_codec_version i) @ digest_blob (oi_payload i)) outbox)"

section \<open>The journal and the outbox\<close>

record ReplayResult =
  rp_found :: bool
  rp_conflict :: bool
  rp_revision :: u64

definition find_journaled :: "string \<Rightarrow> string \<Rightarrow> Database \<Rightarrow> JournalRow option" where
  "find_journaled campaign mutation d =
     find (\<lambda>j. jr_campaign j = campaign \<and> jr_mutation j = mutation) (t_journal d)"

definition check_replay :: "string \<Rightarrow> string \<Rightarrow> string \<Rightarrow> (StoreError, ReplayResult) sql" where
  "check_replay campaign mutation digest = query (\<lambda>d.
     case find_journaled campaign mutation d of
       None \<Rightarrow> \<lparr>rp_found = False, rp_conflict = False, rp_revision = 0\<rparr>
     | Some j \<Rightarrow> \<lparr>rp_found = True, rp_conflict = (jr_digest j \<noteq> digest), rp_revision = jr_resulting j\<rparr>)"

definition replay_to_mutation_result :: "ReplayResult \<Rightarrow> MutationResult" where
  "replay_to_mutation_result r =
     (if rp_conflict r then mutation_failure Store_IdempotencyConflict else mutation_replay (rp_revision r))"

text \<open>The start of every mutation: a mutation that the journal holds is answered from it.\<close>

definition answer_replay :: "string \<Rightarrow> string \<Rightarrow> string \<Rightarrow> (MutationResult, unit) sql" where
  "answer_replay campaign mutation digest =
     sql_bind (or_fail (check_replay campaign mutation digest)) (\<lambda>r.
       if rp_found r then sql_fail (replay_to_mutation_result r) else sql_ret ())"

definition find_campaign :: "string \<Rightarrow> Database \<Rightarrow> CampaignRecord option" where
  "find_campaign campaign d = find (\<lambda>c. cr_id c = campaign) (t_campaigns d)"

definition read_current_revision :: "string \<Rightarrow> (StoreError, u64) sql" where
  "read_current_revision campaign =
     sql_bind (query (find_campaign campaign)) (\<lambda>row.
     case row of None \<Rightarrow> sql_fail Store_NotFound
     | Some c \<Rightarrow> if cr_revision c > kMaximumRevision then sql_fail Store_DatabaseFailure
                 else sql_ret (cr_revision c))"

definition insert_journal :: "JournalRow \<Rightarrow> Database \<Rightarrow> Violation + nat \<times> Database" where
  "insert_journal row d =
     (if jr_expected row > kMaximumRevision \<or> jr_resulting row = 0 \<or> jr_resulting row > kMaximumRevision \<or>
         sint (jr_codec_version row) \<le> 0 \<or> jr_payload row = [] \<or> find_campaign (jr_campaign row) d = None
      then Inl ViolatedCheck
      else if find_journaled (jr_campaign row) (jr_mutation row) d \<noteq> None then Inl ViolatedKey
      else Inr (1, d\<lparr>t_journal := t_journal d @ [row\<lparr>jr_sequence := Suc (last_sequence d)\<rparr>],
                     last_sequence := Suc (last_sequence d)\<rparr>))"

definition append_journal ::
  "string \<Rightarrow> string \<Rightarrow> u64 \<Rightarrow> u64 \<Rightarrow> string \<Rightarrow> string \<Rightarrow> u32 \<Rightarrow> Bytes \<Rightarrow> u64 \<Rightarrow>
   string option \<Rightarrow> u64 option \<Rightarrow> (StoreError, unit) sql" where
  "append_journal campaign mutation expected resulting kind digest codec_version payload now
     restored_checkpoint restored_revision =
     step_only (insert_journal \<lparr>jr_sequence = 0, jr_campaign = campaign, jr_mutation = mutation,
       jr_expected = expected, jr_resulting = resulting, jr_kind = kind, jr_digest = digest,
       jr_codec_version = codec_version, jr_payload = payload, jr_restored_checkpoint = restored_checkpoint,
       jr_restored_revision = restored_revision, jr_created = now\<rparr>)"

definition insert_outbox :: "OutboxRow \<Rightarrow> Database \<Rightarrow> Violation + nat \<times> Database" where
  "insert_outbox row d =
     (if ob_revision row = 0 \<or> ob_revision row > kMaximumRevision \<or> sint (ob_codec_version row) \<le> 0 \<or>
         ob_payload row = [] \<or> find_campaign (ob_campaign row) d = None
      then Inl ViolatedCheck
      else if \<exists>o' \<in> set (t_outbox d). ob_campaign o' = ob_campaign row \<and> ob_mutation o' = ob_mutation row \<and>
                ob_index o' = ob_index row
      then Inl ViolatedKey
      else Inr (1, d\<lparr>t_outbox := t_outbox d @ [row\<lparr>ob_id := Suc (last_outbox d)\<rparr>],
                     last_outbox := Suc (last_outbox d)\<rparr>))"

definition append_outbox ::
  "string \<Rightarrow> string \<Rightarrow> u64 \<Rightarrow> OutboxIntent list \<Rightarrow> u64 \<Rightarrow> (StoreError, unit) sql" where
  "append_outbox campaign mutation revision intents now =
     sql_each (\<lambda>(index, intent).
       step_only (insert_outbox \<lparr>ob_id = 0, ob_campaign = campaign, ob_mutation = mutation,
         ob_index = index, ob_revision = revision, ob_codec_version = oi_codec_version intent,
         ob_payload = oi_payload intent, ob_state = OutboxPending, ob_superseded_by = None,
         ob_created = now, ob_delivered = None\<rparr>))
       (enumerate 0 intents)"

text \<open>An \<open>UPDATE campaigns \<dots> WHERE campaign_id = ? [AND current_revision = ?]\<close>.\<close>

definition update_campaign ::
  "string \<Rightarrow> (CampaignRecord \<Rightarrow> bool) \<Rightarrow> (CampaignRecord \<Rightarrow> CampaignRecord) \<Rightarrow> Database \<Rightarrow> Violation + nat \<times> Database" where
  "update_campaign campaign guard f d =
     (let hit = (\<lambda>c. cr_id c = campaign \<and> guard c); changed = filter hit (t_campaigns d) in
      if \<exists>c \<in> set changed. cr_revision (f c) > kMaximumRevision \<or> sint (cr_codec_version (f c)) \<le> 0 \<or>
           cr_payload (f c) = []
      then Inl ViolatedCheck
      else Inr (length changed, d\<lparr>t_campaigns := map (\<lambda>c. if hit c then f c else c) (t_campaigns d)\<rparr>))"

definition update_campaign_revision :: "string \<Rightarrow> u64 \<Rightarrow> u64 \<Rightarrow> u64 \<Rightarrow> (StoreError, unit) sql" where
  "update_campaign_revision campaign expected revision now =
     sql_bind (step_done (update_campaign campaign (\<lambda>c. cr_revision c = expected)
                 (\<lambda>c. c\<lparr>cr_revision := revision, cr_updated := now\<rparr>))) (\<lambda>changed.
     sql_require (changed = 1) Store_StaleRevision)"

section \<open>The current state of a campaign\<close>

definition insert_slot_row :: "string \<Rightarrow> CampaignSlotRecord \<Rightarrow> Database \<Rightarrow> Violation + nat \<times> Database" where
  "insert_slot_row campaign s d =
     (if find_campaign campaign d = None then Inl ViolatedCheck
      else if \<exists>(k, r) \<in> set (t_slots d). k = campaign \<and>
                (rec_slot r = rec_slot s \<or> rec_player r = rec_player s \<or> rec_binding r = rec_binding s)
      then Inl ViolatedKey
      else Inr (1, d\<lparr>t_slots := t_slots d @ [(campaign, s)]\<rparr>))"

definition insert_slot :: "string \<Rightarrow> CampaignSlotRecord \<Rightarrow> (StoreError, unit) sql" where
  "insert_slot campaign s = step_only (insert_slot_row campaign s)"

definition verify_slot_binding :: "string \<Rightarrow> string \<Rightarrow> string \<Rightarrow> (StoreError, unit) sql" where
  "verify_slot_binding campaign slot binding =
     sql_bind (query (\<lambda>d. find (\<lambda>(k, r). k = campaign \<and> rec_slot r = slot) (t_slots d))) (\<lambda>row.
     case row of None \<Rightarrow> sql_fail Store_InvalidArgument
     | Some (k, r) \<Rightarrow> sql_require (rec_binding r = binding) Store_InvalidArgument)"

definition build_row :: "string \<Rightarrow> CharacterBuildState \<Rightarrow> Bytes \<Rightarrow> u64 \<Rightarrow> BuildRow" where
  "build_row campaign b encoded revision =
     \<lparr>br_campaign = campaign, br_slot = cb_slot b, br_binding = cb_binding b,
      br_codec_version = cb_codec_version b, br_build_version = cb_build_version b,
      br_class = cb_class b, br_inventory_hash = hex16 (cb_inventory_hash b),
      br_spell_hash = hex16 (cb_spell_hash b), br_payload = encoded, br_revision = revision\<rparr>"

definition build_key :: "string \<Rightarrow> string \<Rightarrow> BuildRow \<Rightarrow> bool" where
  "build_key campaign slot r \<longleftrightarrow> br_campaign r = campaign \<and> br_slot r = slot"

text \<open>\<open>INSERT \<dots> ON CONFLICT DO UPDATE\<close>: the row with the key is replaced in place, or a row added.\<close>

definition upsert :: "('r \<Rightarrow> bool) \<Rightarrow> 'r \<Rightarrow> 'r list \<Rightarrow> 'r list" where
  "upsert key row rows =
     (if \<exists>r \<in> set rows. key r then map (\<lambda>r. if key r then row else r) rows else rows @ [row])"

definition upsert_build_row :: "BuildRow \<Rightarrow> Database \<Rightarrow> Violation + nat \<times> Database" where
  "upsert_build_row row d =
     (if sint (br_codec_version row) \<le> 0 \<or> br_payload row = [] \<or> br_revision row > kMaximumRevision \<or>
         \<not> (\<exists>(k, r) \<in> set (t_slots d). k = br_campaign row \<and> rec_slot r = br_slot row)
      then Inl ViolatedCheck
      else Inr (1, d\<lparr>t_builds := upsert (build_key (br_campaign row) (br_slot row)) row (t_builds d)\<rparr>))"

definition upsert_character_build :: "string \<Rightarrow> CharacterBuildState \<Rightarrow> u64 \<Rightarrow> (StoreError, unit) sql" where
  "upsert_character_build campaign b revision =
     sql_bind (verify_slot_binding campaign (cb_slot b) (cb_binding b)) (\<lambda>_.
     case encode_character_build b of (e, encoded) \<Rightarrow>
     sql_bind (sql_require (e = Store_None) e) (\<lambda>_.
     step_only (upsert_build_row (build_row campaign b encoded revision))))"

definition upsert_adapter_row :: "string \<Rightarrow> AdapterState \<Rightarrow> Database \<Rightarrow> Violation + nat \<times> Database" where
  "upsert_adapter_row campaign a d =
     (if ad_version a > kMaximumRevision \<or> sint (ad_codec_version a) \<le> 0 \<or> ad_payload a = [] \<or>
         ad_revision a > kMaximumRevision \<or>
         \<not> ((ad_audience a = AudiencePublic \<and> ad_player a = None) \<or>
            (ad_audience a = AudiencePrivate \<and> ad_player a \<noteq> None)) \<or>
         find_campaign campaign d = None
      then Inl ViolatedCheck
      else Inr (1, d\<lparr>t_adapters := upsert (\<lambda>(k, r). k = campaign \<and> ad_id r = ad_id a) (campaign, a) (t_adapters d)\<rparr>))"

definition upsert_adapter_state :: "string \<Rightarrow> AdapterState \<Rightarrow> u64 \<Rightarrow> (StoreError, unit) sql" where
  "upsert_adapter_state campaign a revision =
     step_only (upsert_adapter_row campaign (a\<lparr>ad_revision := revision\<rparr>))"

definition delete_build :: "string \<Rightarrow> string \<Rightarrow> Database \<Rightarrow> Violation + nat \<times> Database" where
  "delete_build campaign slot d =
     Inr (length (filter (build_key campaign slot) (t_builds d)),
          d\<lparr>t_builds := filter (\<lambda>r. \<not> build_key campaign slot r) (t_builds d)\<rparr>)"

definition delete_builds :: "string \<Rightarrow> Database \<Rightarrow> Violation + nat \<times> Database" where
  "delete_builds campaign d =
     Inr (length (filter (\<lambda>r. br_campaign r = campaign) (t_builds d)),
          d\<lparr>t_builds := filter (\<lambda>r. br_campaign r \<noteq> campaign) (t_builds d)\<rparr>)"

definition delete_adapter :: "string \<Rightarrow> string \<Rightarrow> Database \<Rightarrow> Violation + nat \<times> Database" where
  "delete_adapter campaign adapter d =
     (let gone = (\<lambda>(k, r). k = campaign \<and> ad_id r = adapter) in
      Inr (length (filter gone (t_adapters d)),
           d\<lparr>t_adapters := filter (\<lambda>r. \<not> gone r) (t_adapters d)\<rparr>))"

definition delete_adapters :: "string \<Rightarrow> Database \<Rightarrow> Violation + nat \<times> Database" where
  "delete_adapters campaign d =
     Inr (length (filter (\<lambda>(k, r). k = campaign) (t_adapters d)),
          d\<lparr>t_adapters := filter (\<lambda>(k, r). k \<noteq> campaign) (t_adapters d)\<rparr>)"

text \<open>\<open>ON DELETE RESTRICT\<close>: a slot that a build or a checkpoint refers to stays.\<close>

definition delete_slots :: "string \<Rightarrow> Database \<Rightarrow> Violation + nat \<times> Database" where
  "delete_slots campaign d =
     (let gone = filter (\<lambda>(k, r). k = campaign) (t_slots d) in
      if \<exists>(k, r) \<in> set gone. (\<exists>b \<in> set (t_builds d). build_key campaign (rec_slot r) b) \<or>
           (\<exists>((i, c), s) \<in> set (t_checkpoint_slots d). c = campaign \<and> cs_slot s = rec_slot r)
      then Inl ViolatedCheck
      else Inr (length gone, d\<lparr>t_slots := filter (\<lambda>(k, r). k \<noteq> campaign) (t_slots d)\<rparr>))"

end
