(* ===== verification/CampaignStore.thy ===== *)
theory CampaignStore
  imports StoreStatements
begin

text \<open>
  The operations of \<open>SqliteCampaignStore\<close> (\<open>SqliteCampaignState.cpp\<close>,
  \<open>SqliteCheckpointStore.cpp\<close>, \<open>SqliteJournalOutbox.cpp\<close>): the loads, with every check they make on
  what they read, and the five mutations, each one transaction.
\<close>

section \<open>Loading a campaign\<close>

definition load_campaign :: "string \<Rightarrow> (StoreError, CampaignRecord) sql" where
  "load_campaign campaign =
     (if \<not> is_valid_identifier campaign then sql_fail Store_InvalidArgument
      else sql_bind (query (find_campaign campaign)) (\<lambda>row.
        case row of None \<Rightarrow> sql_fail Store_NotFound
        | Some c \<Rightarrow>
          if cr_schema_version c = 0 \<or> cr_revision c > kMaximumRevision \<or> sint (cr_codec_version c) \<le> 0
          then sql_fail Store_IntegrityFailure
          else if cr_schema_version c > kCampaignDatabaseSchemaVersion \<or> \<not> is_valid_payload (cr_payload c)
          then sql_fail Store_IncompatibleSchema
          else sql_ret c))"

record ProjectionAudience =
  include_private :: bool
  audience_player :: "string option"

definition server_audience :: ProjectionAudience where
  "server_audience = \<lparr>include_private = True, audience_player = None\<rparr>"

definition audience_sees :: "ProjectionAudience \<Rightarrow> AdapterState \<Rightarrow> bool" where
  "audience_sees audience a \<longleftrightarrow> ad_audience a = AudiencePublic \<or>
     (include_private audience \<and> (audience_player audience = None \<or> ad_player a = audience_player audience))"

definition slots_of :: "string \<Rightarrow> Database \<Rightarrow> CampaignSlotRecord list" where
  "slots_of campaign d = map snd (filter (\<lambda>(k, r). k = campaign) (t_slots d))"

definition builds_of :: "string \<Rightarrow> Database \<Rightarrow> BuildRow list" where
  "builds_of campaign d = filter (\<lambda>r. br_campaign r = campaign) (t_builds d)"

definition adapters_of :: "string \<Rightarrow> Database \<Rightarrow> AdapterState list" where
  "adapters_of campaign d = map snd (filter (\<lambda>(k, r). k = campaign) (t_adapters d))"

definition slot_record_valid :: "CampaignSlotRecord \<Rightarrow> bool" where
  "slot_record_valid s \<longleftrightarrow> is_valid_identifier (rec_slot s) \<and> is_valid_identifier (rec_player s) \<and>
     is_valid_identifier (rec_binding s)"

text \<open>The columns of a build row must repeat what its payload says.\<close>

definition read_build_row :: "BuildRow \<Rightarrow> CharacterBuildState option" where
  "read_build_row r =
     (case decode_character_build (br_payload r) of Inl e \<Rightarrow> None
      | Inr b \<Rightarrow>
        if cb_slot b \<noteq> br_slot r \<or> cb_binding b \<noteq> br_binding r \<or> cb_codec_version b \<noteq> br_codec_version r \<or>
           cb_build_version b \<noteq> br_build_version r \<or> cb_class b \<noteq> br_class r \<or>
           parse_hex64 (br_inventory_hash r) \<noteq> Some (cb_inventory_hash b) \<or>
           parse_hex64 (br_spell_hash r) \<noteq> Some (cb_spell_hash b) \<or> br_revision r > kMaximumRevision
        then None else Some (b\<lparr>cb_revision := br_revision r\<rparr>))"

definition adapter_row_valid :: "AdapterState \<Rightarrow> bool" where
  "adapter_row_valid a \<longleftrightarrow> ad_version a \<le> kMaximumRevision \<and> \<not> sint (ad_codec_version a) \<le> 0 \<and>
     ad_revision a \<le> kMaximumRevision \<and> validate_adapter_state a = Store_None"

definition load_campaign_projection :: "string \<Rightarrow> ProjectionAudience \<Rightarrow> (StoreError, CampaignProjection) sql" where
  "load_campaign_projection campaign audience =
     sql_bind (load_campaign campaign) (\<lambda>c.
     sql_bind (query (\<lambda>d. sort_key rec_slot (slots_of campaign d))) (\<lambda>slots.
     sql_bind (sql_require (list_all slot_record_valid slots) Store_IntegrityFailure) (\<lambda>_.
     sql_bind (query (\<lambda>d. sort_key br_slot (builds_of campaign d))) (\<lambda>rows.
     sql_bind (sql_require (list_all (\<lambda>r. read_build_row r \<noteq> None) rows) Store_IntegrityFailure) (\<lambda>_.
     sql_bind (query (\<lambda>d. sort_key ad_id (adapters_of campaign d))) (\<lambda>adapters.
     sql_bind (sql_require (list_all adapter_row_valid adapters) Store_IntegrityFailure) (\<lambda>_.
     sql_ret \<lparr>pr_campaign = c, pr_slots = slots, pr_builds = map (the \<circ> read_build_row) rows,
       pr_adapters = filter (audience_sees audience) adapters\<rparr>)))))))"

section \<open>Loading a checkpoint\<close>

record CheckpointRecord =
  ck_id :: string
  ck_campaign :: string
  ck_is_committed :: bool
  ck_source_revision :: u64
  ck_snapshot :: string
  ck_codec_version :: u32
  ck_checksum :: string
  ck_core_codec_version :: u32
  ck_core_payload :: Bytes
  ck_created_revision :: u64
  ck_committed_revision :: "u64 option"
  ck_created :: u64
  ck_committed :: "u64 option"
  ck_slots :: "CheckpointSlotRecord list"

definition find_snapshot :: "string \<Rightarrow> string \<Rightarrow> Database \<Rightarrow> SnapshotRow option" where
  "find_snapshot campaign snapshot d =
     find (\<lambda>s. sn_campaign s = campaign \<and> sn_id s = snapshot) (t_snapshots d)"

definition find_checkpoint :: "string \<Rightarrow> string \<Rightarrow> Database \<Rightarrow> (CheckpointRow \<times> SnapshotRow) option" where
  "find_checkpoint campaign checkpoint d =
     (case find (\<lambda>c. cp_campaign c = campaign \<and> cp_id c = checkpoint) (t_checkpoints d) of
        None \<Rightarrow> None
      | Some c \<Rightarrow> map_option (Pair c) (find_snapshot campaign (cp_snapshot c) d))"

definition checkpoint_slots_of :: "string \<Rightarrow> string \<Rightarrow> Database \<Rightarrow> CheckpointSlotRecord list" where
  "checkpoint_slots_of campaign checkpoint d =
     sort_key cs_slot (map snd (filter (\<lambda>(k, s). k = (checkpoint, campaign)) (t_checkpoint_slots d)))"

definition checkpoint_slot_valid :: "CheckpointSlotRecord \<Rightarrow> bool" where
  "checkpoint_slot_valid s \<longleftrightarrow> is_valid_identifier (cs_slot s) \<and> is_valid_identifier (cs_player s) \<and>
     is_valid_identifier (cs_binding s) \<and> is_valid_payload (cs_fingerprint s) \<and>
     is_valid_payload (cs_metadata s) \<and> cs_metadata_version s \<noteq> Some 0"

text \<open>The save of a slot has been recorded; a committed checkpoint also has no version of zero.\<close>

definition slot_save_recorded :: "CheckpointSlotRecord \<Rightarrow> bool" where
  "slot_save_recorded s \<longleftrightarrow>
     cs_native_save s \<noteq> None \<and> cs_native_save s \<noteq> Some [] \<and> cs_algorithm s \<noteq> None \<and>
     cs_algorithm s \<noteq> Some [] \<and> cs_fingerprint_version s \<noteq> None \<and> cs_fingerprint s \<noteq> [] \<and>
     cs_metadata_version s \<noteq> None \<and> cs_metadata s \<noteq> []"

definition committed_slot_complete :: "CheckpointSlotRecord \<Rightarrow> bool" where
  "committed_slot_complete s \<longleftrightarrow> slot_save_recorded s \<and> cs_fingerprint_version s \<noteq> Some 0 \<and>
     cs_metadata_version s \<noteq> Some 0"

definition same_identity :: "CheckpointSlotRecord \<Rightarrow> CampaignSlotRecord \<Rightarrow> bool" where
  "same_identity s r \<longleftrightarrow> cs_slot s = rec_slot r \<and> cs_player s = rec_player r \<and> cs_binding s = rec_binding r"

definition load_checkpoint :: "string \<Rightarrow> string \<Rightarrow> (StoreError, CheckpointRecord) sql" where
  "load_checkpoint campaign checkpoint =
     (if \<not> is_valid_identifier campaign \<or> \<not> is_valid_identifier checkpoint then sql_fail Store_InvalidArgument
      else sql_bind (query (find_checkpoint campaign checkpoint)) (\<lambda>row.
        case row of None \<Rightarrow> sql_fail Store_NotFound
        | Some (c, s) \<Rightarrow>
          if cp_source_revision c > kMaximumRevision \<or> sn_codec_version s = 0 \<or>
             cp_created_revision c = 0 \<or> cp_created_revision c > kMaximumRevision
          then sql_fail Store_IntegrityFailure
          else if length (sn_checksum s) \<noteq> 16 \<or> sn_codec_version s \<noteq> kCampaignSnapshotCodecVersion \<or>
             checksum (sn_payload s) \<noteq> sn_checksum s
          then sql_fail Store_IntegrityFailure
          else case decode_snapshot (sn_payload s) of Inl e \<Rightarrow> sql_fail Store_IntegrityFailure
          | Inr p \<Rightarrow>
            if cr_id (pr_campaign p) \<noteq> campaign \<or> cr_revision (pr_campaign p) \<noteq> cp_source_revision c
            then sql_fail Store_IntegrityFailure
            else sql_bind (query (checkpoint_slots_of campaign checkpoint)) (\<lambda>slots.
              if \<not> list_all checkpoint_slot_valid slots then sql_fail Store_IntegrityFailure
              else if length slots \<noteq> length (pr_slots p) then sql_fail Store_IntegrityFailure
              else if cp_is_committed c \<and> \<not> list_all committed_slot_complete slots
              then sql_fail Store_IntegrityFailure
              else if \<not> list_all2 same_identity slots (pr_slots p) then sql_fail Store_IntegrityFailure
              else sql_ret \<lparr>ck_id = checkpoint, ck_campaign = campaign, ck_is_committed = cp_is_committed c,
                ck_source_revision = cp_source_revision c, ck_snapshot = cp_snapshot c,
                ck_codec_version = sn_codec_version s, ck_checksum = sn_checksum s,
                ck_core_codec_version = cr_codec_version (pr_campaign p),
                ck_core_payload = cr_payload (pr_campaign p), ck_created_revision = cp_created_revision c,
                ck_committed_revision = cp_committed_revision c, ck_created = cp_created c,
                ck_committed = cp_committed c, ck_slots = slots\<rparr>)))"

definition load_last_committed_checkpoint :: "string \<Rightarrow> (StoreError, CheckpointRecord) sql" where
  "load_last_committed_checkpoint campaign =
     sql_bind (load_campaign campaign) (\<lambda>c.
     case cr_checkpoint c of None \<Rightarrow> sql_fail Store_NotFound
     | Some checkpoint \<Rightarrow> load_checkpoint campaign checkpoint)"

section \<open>Creating a campaign\<close>

record CreateCampaignRequest =
  ccr_campaign :: CampaignRecord
  ccr_slots :: "CampaignSlotRecord list"
  ccr_builds :: "CharacterBuildState list"
  ccr_adapters :: "AdapterState list"
  ccr_mutation :: string
  ccr_codec_version :: u32
  ccr_payload :: Bytes
  ccr_outbox :: "OutboxIntent list"

definition validate_create :: "CreateCampaignRequest \<Rightarrow> StoreError" where
  "validate_create r = first_error
     ([validate_common_mutation (cr_id (ccr_campaign r)) 0 (ccr_mutation r) ''CreateCampaign''
         (ccr_codec_version r) (ccr_payload r) (ccr_outbox r),
       validate_slot_records (ccr_slots r),
       reject_if (cr_sealed (ccr_campaign r) \<and> ccr_slots r = []),
       reject_if (cr_schema_version (ccr_campaign r) \<noteq> kCampaignDatabaseSchemaVersion \<or>
         cr_codec_version (ccr_campaign r) = 0 \<or> \<not> is_valid_payload (cr_payload (ccr_campaign r)))] @
      map validate_character_build (ccr_builds r) @
      [reject_if (\<not> distinct (map cb_slot (ccr_builds r))),
       reject_if (\<not> distinct (map ad_id (ccr_adapters r)))] @
      map validate_adapter_state (ccr_adapters r))"

definition create_projection :: "CreateCampaignRequest \<Rightarrow> CampaignProjection" where
  "create_projection r = \<lparr>pr_campaign = (ccr_campaign r)\<lparr>cr_revision := 1, cr_created := 0, cr_updated := 0\<rparr>,
     pr_slots = ccr_slots r, pr_builds = ccr_builds r, pr_adapters = ccr_adapters r\<rparr>"

definition create_digest :: "CreateCampaignRequest \<Rightarrow> Bytes \<Rightarrow> string" where
  "create_digest r encoded = mutation_digest ''CreateCampaign'' 0 (ccr_codec_version r)
     (encoded @ digest_blob (ccr_payload r) @ digest_outbox (ccr_outbox r)) (cr_id (ccr_campaign r))"

definition insert_campaign :: "CampaignRecord \<Rightarrow> Database \<Rightarrow> Violation + nat \<times> Database" where
  "insert_campaign c d =
     (if sint (cr_codec_version c) \<le> 0 \<or> cr_payload c = [] then Inl ViolatedCheck
      else if find_campaign (cr_id c) d \<noteq> None then Inl ViolatedKey
      else Inr (1, d\<lparr>t_campaigns := t_campaigns d @ [c]\<rparr>))"

text \<open>The stages at the end of every mutation: journal, outbox, and the fault injector between them.\<close>

definition record_mutation ::
  "(StoreError, unit) sql \<Rightarrow> (StoreError, unit) sql \<Rightarrow> (StoreError, unit) sql" where
  "record_mutation journal outbox =
     sql_bind journal (\<lambda>_. sql_bind (inject_fault AfterJournal) (\<lambda>_.
     sql_bind outbox (\<lambda>_. sql_bind (inject_fault AfterOutbox) (\<lambda>_. inject_fault BeforeCommit))))"

definition create_body :: "CreateCampaignRequest \<Rightarrow> string \<Rightarrow> u64 \<Rightarrow> (StoreError, unit) sql" where
  "create_body r digest now =
     (let c = ccr_campaign r; i = cr_id c in
      sql_bind (with_error (\<lambda>f. if f = StepViolation ViolatedKey then Store_AlreadyExists else Store_DatabaseFailure)
        (change (insert_campaign (c\<lparr>cr_schema_version := kCampaignDatabaseSchemaVersion, cr_revision := 1,
          cr_checkpoint := None, cr_created := if cr_created c \<noteq> 0 then cr_created c else now,
          cr_updated := now\<rparr>)))) (\<lambda>_.
      sql_bind (sql_each (insert_slot i) (ccr_slots r)) (\<lambda>_.
      sql_bind (sql_each (\<lambda>b. upsert_character_build i b 1) (ccr_builds r)) (\<lambda>_.
      sql_bind (sql_each (\<lambda>a. upsert_adapter_state i a 1) (ccr_adapters r)) (\<lambda>_.
      sql_bind (inject_fault AfterCurrentState) (\<lambda>_.
      record_mutation
        (append_journal i (ccr_mutation r) 0 1 ''CreateCampaign'' digest (ccr_codec_version r) (ccr_payload r)
           now None None)
        (append_outbox i (ccr_mutation r) 1 (ccr_outbox r) now)))))))"

text \<open>The transaction of a mutation: the replay check, the body, and the result of an applied mutation.\<close>

definition run_mutation ::
  "string \<Rightarrow> string \<Rightarrow> string \<Rightarrow> (MutationResult, MutationResult) sql \<Rightarrow> StoreEnv \<Rightarrow> Database \<Rightarrow>
   MutationResult \<times> Database" where
  "run_mutation campaign mutation digest body =
     transaction (sql_bind (answer_replay campaign mutation digest) (\<lambda>_. body)) mutation_failure"

definition and_return :: "(StoreError, unit) sql \<Rightarrow> 'a \<Rightarrow> (MutationResult, 'a) sql" where
  "and_return m x = sql_bind (or_fail m) (\<lambda>_. sql_ret x)"

definition create_campaign ::
  "CreateCampaignRequest \<Rightarrow> StoreEnv \<Rightarrow> Database \<Rightarrow> MutationResult \<times> Database" where
  "create_campaign r env d =
     (let e = validate_create r in
      if e \<noteq> Store_None then (mutation_failure e, d)
      else case encode_snapshot (create_projection r) of (e, encoded) \<Rightarrow>
      if e \<noteq> Store_None then (mutation_failure e, d)
      else
        let digest = create_digest r encoded in
        run_mutation (cr_id (ccr_campaign r)) (ccr_mutation r) digest
          (and_return (create_body r digest (env_now env)) (mutation_done 1 True)) env d)"

section \<open>Changing a campaign\<close>

record CampaignMutationRequest =
  amr_campaign :: string
  amr_expected :: u64
  amr_mutation :: string
  amr_kind :: string
  amr_advances :: bool
  amr_codec_version :: u32
  amr_payload :: Bytes
  amr_core_version :: "u32 option"
  amr_core_payload :: "Bytes option"
  amr_sealed :: "bool option"
  amr_roster :: "CampaignSlotRecord list option"
  amr_build_upserts :: "CharacterBuildState list"
  amr_build_deletes :: "string list"
  amr_adapter_upserts :: "AdapterState list"
  amr_adapter_deletes :: "string list"
  amr_outbox :: "OutboxIntent list"

definition validate_mutation :: "CampaignMutationRequest \<Rightarrow> StoreError" where
  "validate_mutation r = first_error
     ([validate_common_mutation (amr_campaign r) (amr_expected r) (amr_mutation r) (amr_kind r)
         (amr_codec_version r) (amr_payload r) (amr_outbox r),
       reject_if (case amr_core_payload r of None \<Rightarrow> False
         | Some p \<Rightarrow> amr_core_version r = None \<or> amr_core_version r = Some 0 \<or> \<not> is_valid_payload p),
       reject_if (amr_core_version r \<noteq> None \<and> amr_core_payload r = None),
       reject_if (\<not> amr_advances r \<and>
         (amr_core_version r \<noteq> None \<or> amr_core_payload r \<noteq> None \<or> amr_sealed r \<noteq> None \<or>
          amr_roster r \<noteq> None \<or> amr_build_upserts r \<noteq> [] \<or> amr_build_deletes r \<noteq> [] \<or>
          amr_adapter_upserts r \<noteq> [] \<or> amr_adapter_deletes r \<noteq> [] \<or> amr_outbox r \<noteq> [])),
       (case amr_roster r of None \<Rightarrow> Store_None | Some roster \<Rightarrow> validate_slot_records roster)] @
      map validate_character_build (amr_build_upserts r) @
      [reject_if (\<not> distinct (map cb_slot (amr_build_upserts r))),
       reject_if (\<not> distinct (map ad_id (amr_adapter_upserts r)))] @
      map (\<lambda>s. reject_if (\<not> is_valid_identifier s)) (amr_build_deletes r) @
      map validate_adapter_state (amr_adapter_upserts r) @
      map (\<lambda>a. reject_if (a = [] \<or> length a > kMaximumAdapterIdLength)) (amr_adapter_deletes r))"

definition digest_slot :: "CampaignSlotRecord \<Rightarrow> Bytes" where
  "digest_slot s = digest_text (rec_slot s) @ digest_text (rec_player s) @ digest_text (rec_binding s)"

definition digest_adapter :: "AdapterState \<Rightarrow> Bytes" where
  "digest_adapter a = digest_text (ad_id a) @ scalar_bytes (ad_version a) @ scalar_bytes (ad_codec_version a) @
     scalar_bytes (audience_code (ad_audience a)) @
     digest_text (case ad_player a of None \<Rightarrow> [] | Some p \<Rightarrow> p) @ digest_blob (ad_payload a)"

definition digest_optional :: "('a \<Rightarrow> Bytes) \<Rightarrow> 'a option \<Rightarrow> Bytes" where
  "digest_optional f v = (case v of None \<Rightarrow> [] | Some x \<Rightarrow> f x)"

definition digest_flag :: "bool \<Rightarrow> Bytes" where
  "digest_flag b = scalar_bytes (if b then 1 else 0 :: u8)"

text \<open>Encoding a build can fail; the command then has no digest.\<close>

definition mutation_digest_payload :: "CampaignMutationRequest \<Rightarrow> StoreError \<times> Bytes" where
  "mutation_digest_payload r =
     (first_error (map (fst \<circ> encode_character_build) (amr_build_upserts r)),
      amr_payload r @ digest_optional scalar_bytes (amr_core_version r) @
      digest_optional digest_blob (amr_core_payload r) @ digest_optional digest_flag (amr_sealed r) @
      digest_optional (\<lambda>roster. concat (map digest_slot roster)) (amr_roster r) @
      concat (map (digest_blob \<circ> snd \<circ> encode_character_build) (amr_build_upserts r)) @
      concat (map digest_text (amr_build_deletes r)) @
      concat (map digest_adapter (amr_adapter_upserts r)) @
      concat (map digest_text (amr_adapter_deletes r)) @
      digest_outbox (amr_outbox r) @ (if amr_advances r then [] else digest_flag False))"

definition apply_digest :: "CampaignMutationRequest \<Rightarrow> string" where
  "apply_digest r = mutation_digest (amr_kind r) (amr_expected r) (amr_codec_version r)
     (snd (mutation_digest_payload r)) []"

text \<open>The revision a mutation leads to, unless the sequence of revisions is exhausted.\<close>

definition expect_revision :: "u64 \<Rightarrow> u64 \<Rightarrow> bool \<Rightarrow> (StoreError, u64) sql" where
  "expect_revision current expected advances =
     (if current \<noteq> expected then sql_fail Store_StaleRevision
      else if advances \<and> current \<ge> kMaximumRevision then sql_fail Store_InvalidArgument
      else sql_ret (if advances then current + 1 else current))"

definition check_seal :: "CampaignMutationRequest \<Rightarrow> (StoreError, unit) sql" where
  "check_seal r =
     sql_bind (query (find_campaign (amr_campaign r))) (\<lambda>row.
     case row of None \<Rightarrow> sql_fail Store_DatabaseFailure
     | Some c \<Rightarrow>
       if cr_sealed c \<and> amr_roster r \<noteq> None then sql_fail Store_InvalidArgument
       else if cr_sealed c \<and> amr_sealed r = Some False then sql_fail Store_InvalidArgument
       else if \<not> cr_sealed c \<and> amr_sealed r = Some True then
         (case amr_roster r of
            Some roster \<Rightarrow> sql_require (roster \<noteq> []) Store_InvalidArgument
          | None \<Rightarrow> sql_bind (query (slots_of (amr_campaign r))) (\<lambda>slots.
              sql_require (slots \<noteq> []) Store_InvalidArgument))
       else sql_ret ())"

definition replace_roster_rows :: "string \<Rightarrow> CampaignSlotRecord list option \<Rightarrow> (StoreError, unit) sql" where
  "replace_roster_rows campaign roster =
     (case roster of None \<Rightarrow> sql_ret ()
      | Some slots \<Rightarrow>
        sql_bind (step_only (delete_builds campaign)) (\<lambda>_.
        sql_bind (step_only (delete_slots campaign)) (\<lambda>_.
        sql_each (insert_slot campaign) slots)))"

definition set_core_state :: "string \<Rightarrow> u32 option \<Rightarrow> Bytes option \<Rightarrow> (StoreError, unit) sql" where
  "set_core_state campaign version payload =
     (case payload of None \<Rightarrow> sql_ret ()
      | Some p \<Rightarrow> step_only (update_campaign campaign (\<lambda>c. True)
          (\<lambda>c. c\<lparr>cr_codec_version := the version, cr_payload := p\<rparr>)))"

definition set_sealed :: "string \<Rightarrow> bool option \<Rightarrow> (StoreError, unit) sql" where
  "set_sealed campaign flag =
     (case flag of None \<Rightarrow> sql_ret ()
      | Some b \<Rightarrow> step_only (update_campaign campaign (\<lambda>c. True) (\<lambda>c. c\<lparr>cr_sealed := b\<rparr>)))"

definition write_current_state :: "CampaignMutationRequest \<Rightarrow> u64 \<Rightarrow> (StoreError, unit) sql" where
  "write_current_state r revision =
     (let i = amr_campaign r in
      sql_bind (replace_roster_rows i (amr_roster r)) (\<lambda>_.
      sql_bind (sql_each (\<lambda>s. step_only (delete_build i s)) (amr_build_deletes r)) (\<lambda>_.
      sql_bind (sql_each (\<lambda>a. step_only (delete_adapter i a)) (amr_adapter_deletes r)) (\<lambda>_.
      sql_bind (set_core_state i (amr_core_version r) (amr_core_payload r)) (\<lambda>_.
      sql_bind (set_sealed i (amr_sealed r)) (\<lambda>_.
      sql_bind (sql_each (\<lambda>b. upsert_character_build i b revision) (amr_build_upserts r)) (\<lambda>_.
      sql_each (\<lambda>a. upsert_adapter_state i a revision) (amr_adapter_upserts r))))))))"

definition apply_body :: "CampaignMutationRequest \<Rightarrow> string \<Rightarrow> u64 \<Rightarrow> (StoreError, u64) sql" where
  "apply_body r digest now =
     (let i = amr_campaign r in
      sql_bind (read_current_revision i) (\<lambda>current.
      sql_bind (expect_revision current (amr_expected r) (amr_advances r)) (\<lambda>revision.
      sql_bind (check_seal r) (\<lambda>_.
      sql_bind (write_current_state r revision) (\<lambda>_.
      sql_bind (if amr_advances r
                then sql_bind (update_campaign_revision i (amr_expected r) revision now)
                       (\<lambda>_. inject_fault AfterCurrentState)
                else sql_ret ()) (\<lambda>_.
      sql_bind (record_mutation
        (append_journal i (amr_mutation r) (amr_expected r) revision (amr_kind r) digest
           (amr_codec_version r) (amr_payload r) now None None)
        (append_outbox i (amr_mutation r) revision (amr_outbox r) now)) (\<lambda>_.
      sql_ret revision)))))))"

definition apply_campaign_mutation ::
  "CampaignMutationRequest \<Rightarrow> StoreEnv \<Rightarrow> Database \<Rightarrow> MutationResult \<times> Database" where
  "apply_campaign_mutation r env d =
     (let e = first_error [validate_mutation r, fst (mutation_digest_payload r)] in
      if e \<noteq> Store_None then (mutation_failure e, d)
      else
        let digest = apply_digest r in
        run_mutation (amr_campaign r) (amr_mutation r) digest
          (sql_bind (or_fail (apply_body r digest (env_now env)))
             (\<lambda>revision. sql_ret (mutation_done revision (amr_advances r)))) env d)"

section \<open>Checkpoints\<close>

record CreateCandidateRequest =
  ckr_campaign :: string
  ckr_expected :: u64
  ckr_mutation :: string
  ckr_checkpoint :: string
  ckr_snapshot :: string
  ckr_core_version :: u32
  ckr_core_payload :: Bytes
  ckr_codec_version :: u32
  ckr_payload :: Bytes
  ckr_outbox :: "OutboxIntent list"

definition validate_candidate :: "CreateCandidateRequest \<Rightarrow> StoreError" where
  "validate_candidate r = first_error
     [validate_common_mutation (ckr_campaign r) (ckr_expected r) (ckr_mutation r) ''CreateCheckpointCandidate''
        (ckr_codec_version r) (ckr_payload r) (ckr_outbox r),
      reject_if (\<not> is_valid_identifier (ckr_checkpoint r) \<or> \<not> is_valid_identifier (ckr_snapshot r)),
      reject_if (ckr_core_version r = 0 \<or> ckr_core_payload r = [] \<or> \<not> is_valid_payload (ckr_core_payload r))]"

definition candidate_digest :: "CreateCandidateRequest \<Rightarrow> string" where
  "candidate_digest r = mutation_digest ''CreateCheckpointCandidate'' (ckr_expected r) (ckr_codec_version r)
     (ckr_payload r @ digest_text (ckr_snapshot r) @ scalar_bytes (ckr_core_version r) @
      digest_blob (ckr_core_payload r) @ digest_outbox (ckr_outbox r)) (ckr_checkpoint r)"

text \<open>Inserting a row whose identity is taken is answered with \<open>AlreadyExists\<close>.\<close>

definition insert_or_exists :: "(Database \<Rightarrow> Violation + nat \<times> Database) \<Rightarrow> (StoreError, unit) sql" where
  "insert_or_exists u =
     sql_bind (with_error (\<lambda>f. if f = StepIo then Store_DatabaseFailure else Store_AlreadyExists) (change u))
       (\<lambda>_. sql_ret ())"

definition insert_snapshot :: "SnapshotRow \<Rightarrow> Database \<Rightarrow> Violation + nat \<times> Database" where
  "insert_snapshot row d =
     (if sn_source_revision row > kMaximumRevision \<or> sint (sn_codec_version row) \<le> 0 \<or> sn_payload row = [] \<or>
         find_campaign (sn_campaign row) d = None
      then Inl ViolatedCheck
      else if \<exists>s \<in> set (t_snapshots d). sn_id s = sn_id row then Inl ViolatedKey
      else Inr (1, d\<lparr>t_snapshots := t_snapshots d @ [row]\<rparr>))"

definition insert_checkpoint :: "CheckpointRow \<Rightarrow> Database \<Rightarrow> Violation + nat \<times> Database" where
  "insert_checkpoint row d =
     (if cp_source_revision row > kMaximumRevision \<or> cp_created_revision row = 0 \<or>
         cp_created_revision row > kMaximumRevision \<or> find_campaign (cp_campaign row) d = None \<or>
         find_snapshot (cp_campaign row) (cp_snapshot row) d = None
      then Inl ViolatedCheck
      else if \<exists>c \<in> set (t_checkpoints d). cp_id c = cp_id row then Inl ViolatedKey
      else Inr (1, d\<lparr>t_checkpoints := t_checkpoints d @ [row]\<rparr>))"

definition insert_checkpoint_slot :: "string \<Rightarrow> string \<Rightarrow> CampaignSlotRecord \<Rightarrow> Database \<Rightarrow> Violation + nat \<times> Database" where
  "insert_checkpoint_slot checkpoint campaign s d =
     (if \<not> (\<exists>c \<in> set (t_checkpoints d). cp_id c = checkpoint \<and> cp_campaign c = campaign) \<or>
         \<not> (\<exists>(k, r) \<in> set (t_slots d). k = campaign \<and> rec_slot r = rec_slot s)
      then Inl ViolatedCheck
      else if \<exists>((i, c), r) \<in> set (t_checkpoint_slots d). i = checkpoint \<and> cs_slot r = rec_slot s
      then Inl ViolatedKey
      else Inr (1, d\<lparr>t_checkpoint_slots := t_checkpoint_slots d @
        [((checkpoint, campaign), \<lparr>cs_slot = rec_slot s, cs_player = rec_player s, cs_binding = rec_binding s,
          cs_native_save = None, cs_algorithm = None, cs_fingerprint_version = None, cs_fingerprint = [],
          cs_metadata_version = None, cs_metadata = []\<rparr>)]\<rparr>))"

definition candidate_body :: "CreateCandidateRequest \<Rightarrow> string \<Rightarrow> u64 \<Rightarrow> (StoreError, u64) sql" where
  "candidate_body r digest now =
     (let i = ckr_campaign r; expected = ckr_expected r in
      sql_bind (load_campaign_projection i server_audience) (\<lambda>p.
      sql_bind (sql_require (cr_revision (pr_campaign p) = expected) Store_StaleRevision) (\<lambda>_.
      sql_bind (sql_require (cr_sealed (pr_campaign p) \<and> pr_slots p \<noteq> []) Store_InvalidArgument) (\<lambda>_.
      sql_bind (sql_require (cr_codec_version (pr_campaign p) = ckr_core_version r) Store_InvalidArgument) (\<lambda>_.
      sql_bind (sql_require (expected < kMaximumRevision) Store_InvalidArgument) (\<lambda>_.
      case encode_snapshot (p\<lparr>pr_campaign := (pr_campaign p)\<lparr>cr_payload := ckr_core_payload r\<rparr>\<rparr>) of
        (e, payload) \<Rightarrow>
      sql_bind (sql_require (e = Store_None) e) (\<lambda>_.
      sql_bind (insert_or_exists (insert_snapshot \<lparr>sn_id = ckr_snapshot r, sn_campaign = i,
        sn_source_revision = expected, sn_codec_version = kCampaignSnapshotCodecVersion,
        sn_payload = payload, sn_checksum = checksum payload, sn_created = now\<rparr>)) (\<lambda>_.
      sql_bind (insert_or_exists (insert_checkpoint \<lparr>cp_id = ckr_checkpoint r, cp_campaign = i,
        cp_is_committed = False, cp_source_revision = expected, cp_snapshot = ckr_snapshot r,
        cp_created_revision = expected + 1, cp_committed_revision = None, cp_created = now,
        cp_committed = None\<rparr>)) (\<lambda>_.
      sql_bind (sql_each (\<lambda>s. step_only (insert_checkpoint_slot (ckr_checkpoint r) i s)) (pr_slots p)) (\<lambda>_.
      sql_bind (update_campaign_revision i expected (expected + 1) now) (\<lambda>_.
      sql_bind (inject_fault AfterCurrentState) (\<lambda>_.
      sql_bind (record_mutation
        (append_journal i (ckr_mutation r) expected (expected + 1) ''CreateCheckpointCandidate'' digest
           (ckr_codec_version r) (ckr_payload r) now None None)
        (append_outbox i (ckr_mutation r) (expected + 1) (ckr_outbox r) now)) (\<lambda>_.
      sql_ret (expected + 1))))))))))))))"

definition create_checkpoint_candidate ::
  "CreateCandidateRequest \<Rightarrow> StoreEnv \<Rightarrow> Database \<Rightarrow> MutationResult \<times> Database" where
  "create_checkpoint_candidate r env d =
     (if validate_candidate r \<noteq> Store_None then (mutation_failure (validate_candidate r), d)
      else
        let digest = candidate_digest r in
        run_mutation (ckr_campaign r) (ckr_mutation r) digest
          (sql_bind (or_fail (candidate_body r digest (env_now env)))
             (\<lambda>revision. sql_ret (mutation_done revision True))) env d)"

section \<open>Recording the save of a slot\<close>

record RecordSlotSaveRequest =
  rsr_campaign :: string
  rsr_expected :: u64
  rsr_mutation :: string
  rsr_checkpoint :: string
  rsr_slot :: CheckpointSlotRecord
  rsr_codec_version :: u32
  rsr_payload :: Bytes
  rsr_outbox :: "OutboxIntent list"

definition validate_slot_save :: "RecordSlotSaveRequest \<Rightarrow> StoreError" where
  "validate_slot_save r = (let s = rsr_slot r in first_error
     [validate_common_mutation (rsr_campaign r) (rsr_expected r) (rsr_mutation r) ''RecordCheckpointSlotSave''
        (rsr_codec_version r) (rsr_payload r) (rsr_outbox r),
      reject_if (\<not> is_valid_identifier (rsr_checkpoint r) \<or> \<not> is_valid_identifier (cs_slot s) \<or>
        \<not> is_valid_identifier (cs_player s) \<or> \<not> is_valid_identifier (cs_binding s) \<or>
        (case cs_native_save s of None \<Rightarrow> True | Some v \<Rightarrow> v = [] \<or> length v > kMaximumSaveIdentityLength) \<or>
        (case cs_algorithm s of None \<Rightarrow> True | Some v \<Rightarrow> v = [] \<or> length v > kMaximumAlgorithmLength) \<or>
        cs_fingerprint_version s = None \<or> cs_fingerprint_version s = Some 0 \<or> cs_fingerprint s = [] \<or>
        \<not> is_valid_payload (cs_fingerprint s) \<or> cs_metadata_version s = None \<or>
        cs_metadata_version s = Some 0 \<or> cs_metadata s = [] \<or> \<not> is_valid_payload (cs_metadata s))])"

definition slot_save_digest :: "RecordSlotSaveRequest \<Rightarrow> string" where
  "slot_save_digest r = (let s = rsr_slot r in
     mutation_digest ''RecordCheckpointSlotSave'' (rsr_expected r) (rsr_codec_version r)
     (rsr_payload r @ digest_text (cs_slot s) @ digest_text (cs_player s) @ digest_text (cs_binding s) @
      digest_text (the (cs_native_save s)) @ digest_text (the (cs_algorithm s)) @
      scalar_bytes (the (cs_fingerprint_version s)) @ digest_blob (cs_fingerprint s) @
      scalar_bytes (the (cs_metadata_version s)) @ digest_blob (cs_metadata s) @
      digest_outbox (rsr_outbox r)) (rsr_checkpoint r))"

definition checkpoint_slot_key :: "string \<Rightarrow> string \<Rightarrow> string \<Rightarrow> (string \<times> string) \<times> CheckpointSlotRecord \<Rightarrow> bool" where
  "checkpoint_slot_key campaign checkpoint slot = (\<lambda>(k, s). k = (checkpoint, campaign) \<and> cs_slot s = slot)"

definition find_checkpoint_slot ::
  "string \<Rightarrow> string \<Rightarrow> string \<Rightarrow> Database \<Rightarrow> (CheckpointRow \<times> CheckpointSlotRecord) option" where
  "find_checkpoint_slot campaign checkpoint slot d =
     (case find (\<lambda>c. cp_campaign c = campaign \<and> cp_id c = checkpoint) (t_checkpoints d) of
        None \<Rightarrow> None
      | Some c \<Rightarrow> map_option (\<lambda>(k, s). (c, s))
          (find (checkpoint_slot_key campaign checkpoint slot) (t_checkpoint_slots d)))"

definition same_slot_save :: "CheckpointSlotRecord \<Rightarrow> CheckpointSlotRecord \<Rightarrow> bool" where
  "same_slot_save s t \<longleftrightarrow> cs_native_save s = cs_native_save t \<and> cs_algorithm s = cs_algorithm t \<and>
     cs_fingerprint_version s = cs_fingerprint_version t \<and> cs_fingerprint s = cs_fingerprint t \<and>
     cs_metadata_version s = cs_metadata_version t \<and> cs_metadata s = cs_metadata t"

definition update_checkpoint_slot ::
  "string \<Rightarrow> string \<Rightarrow> CheckpointSlotRecord \<Rightarrow> Database \<Rightarrow> Violation + nat \<times> Database" where
  "update_checkpoint_slot campaign checkpoint t d =
     (let hit = checkpoint_slot_key campaign checkpoint (cs_slot t) in
      Inr (length (filter hit (t_checkpoint_slots d)),
           d\<lparr>t_checkpoint_slots := map (\<lambda>r. if hit r
               then (fst r, (snd r)\<lparr>cs_native_save := cs_native_save t, cs_algorithm := cs_algorithm t,
                 cs_fingerprint_version := cs_fingerprint_version t, cs_fingerprint := cs_fingerprint t,
                 cs_metadata_version := cs_metadata_version t, cs_metadata := cs_metadata t\<rparr>)
               else r) (t_checkpoint_slots d)\<rparr>))"

definition slot_save_body :: "RecordSlotSaveRequest \<Rightarrow> string \<Rightarrow> u64 \<Rightarrow> (MutationResult, u64) sql" where
  "slot_save_body r digest now =
     (let i = rsr_campaign r; expected = rsr_expected r; s = rsr_slot r in
      sql_bind (or_fail (read_current_revision i)) (\<lambda>current.
      sql_bind (or_fail (expect_revision current expected True)) (\<lambda>revision.
      sql_bind (or_fail (query (find_checkpoint_slot i (rsr_checkpoint r) (cs_slot s)))) (\<lambda>row.
      case row of None \<Rightarrow> sql_fail (mutation_failure Store_NotFound)
      | Some (c, old) \<Rightarrow>
        if cp_is_committed c then sql_fail (mutation_failure Store_InvalidArgument)
        else if cs_player old \<noteq> cs_player s \<or> cs_binding old \<noteq> cs_binding s
        then sql_fail (mutation_failure Store_InvalidArgument)
        else if cs_native_save old \<noteq> None then
          sql_fail (if same_slot_save old s then mutation_replay current
                    else mutation_failure Store_IdempotencyConflict)
        else or_fail (
          sql_bind (step_only (update_checkpoint_slot i (rsr_checkpoint r) s)) (\<lambda>_.
          sql_bind (update_campaign_revision i expected revision now) (\<lambda>_.
          sql_bind (inject_fault AfterCurrentState) (\<lambda>_.
          sql_bind (record_mutation
            (append_journal i (rsr_mutation r) expected revision ''RecordCheckpointSlotSave'' digest
               (rsr_codec_version r) (rsr_payload r) now None None)
            (append_outbox i (rsr_mutation r) revision (rsr_outbox r) now)) (\<lambda>_.
          sql_ret revision)))))))))"

definition record_checkpoint_slot_save ::
  "RecordSlotSaveRequest \<Rightarrow> StoreEnv \<Rightarrow> Database \<Rightarrow> MutationResult \<times> Database" where
  "record_checkpoint_slot_save r env d =
     (if validate_slot_save r \<noteq> Store_None then (mutation_failure (validate_slot_save r), d)
      else
        let digest = slot_save_digest r in
        run_mutation (rsr_campaign r) (rsr_mutation r) digest
          (sql_bind (slot_save_body r digest (env_now env))
             (\<lambda>revision. sql_ret (mutation_done revision True))) env d)"

section \<open>Committing a checkpoint\<close>

record CommitCheckpointRequest =
  cmr_campaign :: string
  cmr_expected :: u64
  cmr_mutation :: string
  cmr_checkpoint :: string
  cmr_codec_version :: u32
  cmr_payload :: Bytes
  cmr_outbox :: "OutboxIntent list"

definition validate_commit :: "CommitCheckpointRequest \<Rightarrow> StoreError" where
  "validate_commit r = first_error
     [validate_common_mutation (cmr_campaign r) (cmr_expected r) (cmr_mutation r) ''CommitCheckpoint''
        (cmr_codec_version r) (cmr_payload r) (cmr_outbox r),
      reject_if (\<not> is_valid_identifier (cmr_checkpoint r))]"

definition commit_digest :: "CommitCheckpointRequest \<Rightarrow> string" where
  "commit_digest r = mutation_digest ''CommitCheckpoint'' (cmr_expected r) (cmr_codec_version r)
     (cmr_payload r @ digest_outbox (cmr_outbox r)) (cmr_checkpoint r)"

definition mark_committed :: "string \<Rightarrow> string \<Rightarrow> u64 \<Rightarrow> u64 \<Rightarrow> Database \<Rightarrow> Violation + nat \<times> Database" where
  "mark_committed campaign checkpoint revision now d =
     (let hit = (\<lambda>c. cp_campaign c = campaign \<and> cp_id c = checkpoint \<and> \<not> cp_is_committed c) in
      Inr (length (filter hit (t_checkpoints d)),
           d\<lparr>t_checkpoints := map (\<lambda>c. if hit c
               then c\<lparr>cp_is_committed := True, cp_committed_revision := Some revision, cp_committed := Some now\<rparr>
               else c) (t_checkpoints d)\<rparr>))"

text \<open>The foreign key of \<open>last_committed_checkpoint_id\<close>: the checkpoint exists in the campaign.\<close>

definition select_checkpoint :: "string \<Rightarrow> string \<Rightarrow> u64 \<Rightarrow> u64 \<Rightarrow> u64 \<Rightarrow> Database \<Rightarrow> Violation + nat \<times> Database" where
  "select_checkpoint campaign checkpoint expected revision now d =
     (if \<not> (\<exists>c \<in> set (t_checkpoints d). cp_id c = checkpoint \<and> cp_campaign c = campaign)
      then Inl ViolatedCheck
      else update_campaign campaign (\<lambda>c. cr_revision c = expected)
        (\<lambda>c. c\<lparr>cr_checkpoint := Some checkpoint, cr_revision := revision, cr_updated := now\<rparr>) d)"

definition commit_body :: "CommitCheckpointRequest \<Rightarrow> string \<Rightarrow> u64 \<Rightarrow> (MutationResult, u64) sql" where
  "commit_body r digest now =
     (let i = cmr_campaign r; expected = cmr_expected r in
      sql_bind (or_fail (load_checkpoint i (cmr_checkpoint r))) (\<lambda>ck.
      if ck_is_committed ck then
        (\<lambda>env s. case load_campaign i env s of
           (Inr c, s') \<Rightarrow>
             if cr_checkpoint c = Some (cmr_checkpoint r)
             then (Inl (mutation_replay (case ck_committed_revision ck of Some v \<Rightarrow> v | None \<Rightarrow> cr_revision c)), s')
             else (Inl (mutation_failure Store_IdempotencyConflict), s')
         | (Inl e, s') \<Rightarrow> (Inl (mutation_failure Store_IdempotencyConflict), s'))
      else
      or_fail (
        sql_bind (read_current_revision i) (\<lambda>current.
        sql_bind (expect_revision current expected True) (\<lambda>revision.
        sql_bind (sql_require (list_all slot_save_recorded (ck_slots ck)) Store_InvalidArgument) (\<lambda>_.
        sql_bind (step_done (mark_committed i (cmr_checkpoint r) revision now)) (\<lambda>changed.
        sql_bind (sql_require (changed = 1) Store_IdempotencyConflict) (\<lambda>_.
        sql_bind (step_done (select_checkpoint i (cmr_checkpoint r) expected revision now)) (\<lambda>changed.
        sql_bind (sql_require (changed = 1) Store_StaleRevision) (\<lambda>_.
        sql_bind (inject_fault AfterCurrentState) (\<lambda>_.
        sql_bind (record_mutation
          (append_journal i (cmr_mutation r) expected revision ''CommitCheckpoint'' digest
             (cmr_codec_version r) (cmr_payload r) now None None)
          (append_outbox i (cmr_mutation r) revision (cmr_outbox r) now)) (\<lambda>_.
        sql_ret revision))))))))))))"

definition commit_checkpoint ::
  "CommitCheckpointRequest \<Rightarrow> StoreEnv \<Rightarrow> Database \<Rightarrow> MutationResult \<times> Database" where
  "commit_checkpoint r env d =
     (if validate_commit r \<noteq> Store_None then (mutation_failure (validate_commit r), d)
      else
        let digest = commit_digest r in
        run_mutation (cmr_campaign r) (cmr_mutation r) digest
          (sql_bind (commit_body r digest (env_now env))
             (\<lambda>revision. sql_ret (mutation_done revision True))) env d)"

section \<open>Restoring a checkpoint\<close>

record RestoreCheckpointRequest =
  rcr_campaign :: string
  rcr_expected :: u64
  rcr_mutation :: string
  rcr_checkpoint :: string
  rcr_core_version :: u32
  rcr_core_payload :: Bytes
  rcr_codec_version :: u32
  rcr_payload :: Bytes

definition validate_restore :: "RestoreCheckpointRequest \<Rightarrow> StoreError" where
  "validate_restore r = first_error
     [validate_common_mutation (rcr_campaign r) (rcr_expected r) (rcr_mutation r) ''RestoreCheckpoint''
        (rcr_codec_version r) (rcr_payload r) [],
      reject_if (\<not> is_valid_identifier (rcr_checkpoint r)),
      reject_if (rcr_core_version r = 0 \<or> rcr_core_payload r = [] \<or> \<not> is_valid_payload (rcr_core_payload r))]"

definition restore_digest :: "RestoreCheckpointRequest \<Rightarrow> string" where
  "restore_digest r = mutation_digest ''RestoreCheckpoint'' (rcr_expected r) (rcr_codec_version r)
     (rcr_payload r @ scalar_bytes (rcr_core_version r) @ digest_blob (rcr_core_payload r)) (rcr_checkpoint r)"

definition supersede_outbox :: "string \<Rightarrow> u64 \<Rightarrow> Database \<Rightarrow> Violation + nat \<times> Database" where
  "supersede_outbox campaign revision d =
     (let hit = (\<lambda>o'. ob_campaign o' = campaign \<and> ob_state o' = OutboxPending \<and> ob_revision o' < revision) in
      Inr (length (filter hit (t_outbox d)),
           d\<lparr>t_outbox := map (\<lambda>o'. if hit o'
               then o'\<lparr>ob_state := OutboxSuperseded, ob_superseded_by := Some revision\<rparr> else o') (t_outbox d)\<rparr>))"

text \<open>The snapshot a checkpoint names, decoded again after its checksum and revision are checked.\<close>

definition read_snapshot_row :: "string \<Rightarrow> CheckpointRecord \<Rightarrow> (StoreError, CampaignProjection) sql" where
  "read_snapshot_row campaign ck =
     with_error (\<lambda>_. Store_IntegrityFailure) (
       sql_bind (query (find_snapshot campaign (ck_snapshot ck))) (\<lambda>row.
       case row of None \<Rightarrow> sql_fail Store_IntegrityFailure
       | Some s \<Rightarrow>
         if sn_checksum s \<noteq> checksum (sn_payload s) \<or> sn_source_revision s > kMaximumRevision \<or>
            sn_source_revision s \<noteq> ck_source_revision ck \<or> sn_codec_version s \<noteq> kCampaignSnapshotCodecVersion
         then sql_fail Store_IntegrityFailure
         else case decode_snapshot (sn_payload s) of Inl e \<Rightarrow> sql_fail Store_IntegrityFailure
         | Inr p \<Rightarrow>
           if cr_id (pr_campaign p) \<noteq> campaign \<or> cr_revision (pr_campaign p) \<noteq> ck_source_revision ck \<or>
              \<not> cr_sealed (pr_campaign p)
           then sql_fail Store_IntegrityFailure else sql_ret p))"

text \<open>The projection the restored campaign has, sent to the clients through the outbox.\<close>

definition restored_projection :: "RestoreCheckpointRequest \<Rightarrow> u64 \<Rightarrow> u64 \<Rightarrow> string option \<Rightarrow> CampaignProjection \<Rightarrow> CampaignProjection" where
  "restored_projection r revision now checkpoint p =
     p\<lparr>pr_campaign := (pr_campaign p)\<lparr>cr_revision := revision, cr_payload := rcr_core_payload r,
         cr_checkpoint := checkpoint, cr_updated := now\<rparr>,
       pr_builds := map (\<lambda>b. b\<lparr>cb_revision := revision\<rparr>) (pr_builds p),
       pr_adapters := map (\<lambda>a. a\<lparr>ad_revision := revision\<rparr>) (pr_adapters p)\<rparr>"

definition write_restored_state :: "RestoreCheckpointRequest \<Rightarrow> CampaignProjection \<Rightarrow> u64 \<Rightarrow> u64 \<Rightarrow> (StoreError, unit) sql" where
  "write_restored_state r p revision now =
     (let i = rcr_campaign r in
      sql_bind (step_done (update_campaign i (\<lambda>c. cr_revision c = rcr_expected r)
        (\<lambda>c. c\<lparr>cr_codec_version := cr_codec_version (pr_campaign p), cr_payload := rcr_core_payload r,
          cr_revision := revision, cr_updated := now\<rparr>))) (\<lambda>changed.
      sql_bind (sql_require (changed = 1) Store_StaleRevision) (\<lambda>_.
      sql_bind (step_only (delete_builds i)) (\<lambda>_.
      sql_bind (step_only (delete_adapters i)) (\<lambda>_.
      sql_bind (sql_each (\<lambda>b. upsert_character_build i (b\<lparr>cb_revision := revision\<rparr>) revision) (pr_builds p)) (\<lambda>_.
      sql_bind (sql_each (\<lambda>a. upsert_adapter_state i a revision) (pr_adapters p)) (\<lambda>_.
      step_only (supersede_outbox i revision))))))))"

definition restore_body :: "RestoreCheckpointRequest \<Rightarrow> string \<Rightarrow> u64 \<Rightarrow> (StoreError, u64) sql" where
  "restore_body r digest now =
     (let i = rcr_campaign r; expected = rcr_expected r; revision = expected + 1 in
      sql_bind (load_campaign_projection i server_audience) (\<lambda>current.
      sql_bind (sql_require (cr_revision (pr_campaign current) = expected) Store_StaleRevision) (\<lambda>_.
      sql_bind (sql_require (expected < kMaximumRevision) Store_InvalidArgument) (\<lambda>_.
      sql_bind (load_checkpoint i (rcr_checkpoint r)) (\<lambda>ck.
      sql_bind (sql_require (ck_is_committed ck) Store_InvalidArgument) (\<lambda>_.
      sql_bind (read_snapshot_row i ck) (\<lambda>p.
      sql_bind (sql_require (cr_codec_version (pr_campaign p) = rcr_core_version r) Store_InvalidArgument) (\<lambda>_.
      sql_bind (sql_require (pr_slots p = pr_slots current \<and> list_all2 same_identity (ck_slots ck) (pr_slots current))
        Store_IntegrityFailure) (\<lambda>_.
      sql_bind (write_restored_state r p revision now) (\<lambda>_.
      sql_bind (inject_fault AfterCurrentState) (\<lambda>_.
      let canonical = restored_projection r revision now (cr_checkpoint (pr_campaign current)) p in
      sql_bind (record_mutation
        (append_journal i (rcr_mutation r) expected revision ''RestoreCheckpoint'' digest (rcr_codec_version r)
           (rcr_payload r) now (Some (rcr_checkpoint r)) (Some (ck_source_revision ck)))
        (case encode_snapshot canonical of (e, payload) \<Rightarrow>
           sql_bind (sql_require (e = Store_None) e) (\<lambda>_.
           append_outbox i (rcr_mutation r) revision
             [\<lparr>oi_codec_version = kCampaignSnapshotCodecVersion, oi_payload = payload\<rparr>] now))) (\<lambda>_.
      sql_ret revision))))))))))))"

definition restore_checkpoint_snapshot ::
  "RestoreCheckpointRequest \<Rightarrow> StoreEnv \<Rightarrow> Database \<Rightarrow> MutationResult \<times> Database" where
  "restore_checkpoint_snapshot r env d =
     (if validate_restore r \<noteq> Store_None then (mutation_failure (validate_restore r), d)
      else
        let digest = restore_digest r in
        run_mutation (rcr_campaign r) (rcr_mutation r) digest
          (sql_bind (or_fail (restore_body r digest (env_now env)))
             (\<lambda>revision. sql_ret (mutation_done revision True))) env d)"

section \<open>The journal and the outbox\<close>

definition journal_row_valid :: "JournalRow \<Rightarrow> bool" where
  "journal_row_valid j \<longleftrightarrow> jr_sequence j \<noteq> 0 \<and> jr_expected j \<le> kMaximumRevision \<and> jr_resulting j \<noteq> 0 \<and>
     jr_resulting j \<le> kMaximumRevision \<and> \<not> sint (jr_codec_version j) \<le> 0 \<and>
     is_valid_identifier (jr_mutation j) \<and> jr_kind j \<noteq> [] \<and> length (jr_kind j) \<le> kMaximumKindLength \<and>
     is_valid_payload (jr_payload j)"

text \<open>The loaded records carry no digest.\<close>

definition load_journal :: "string \<Rightarrow> (StoreError, JournalRow list) sql" where
  "load_journal campaign =
     (if \<not> is_valid_identifier campaign then sql_fail Store_InvalidArgument
      else sql_bind (query (\<lambda>d. sort_key jr_sequence (filter (\<lambda>j. jr_campaign j = campaign) (t_journal d)))) (\<lambda>rows.
        if list_all journal_row_valid rows then sql_ret (map (\<lambda>j. j\<lparr>jr_digest := []\<rparr>) rows)
        else sql_fail Store_IntegrityFailure))"

definition load_journal_by_mutation :: "string \<Rightarrow> string \<Rightarrow> (StoreError, JournalRow list) sql" where
  "load_journal_by_mutation mutation kind =
     (if \<not> is_valid_identifier mutation \<or> kind = [] \<or> length kind > kMaximumKindLength
      then sql_fail Store_InvalidArgument
      else sql_bind (query (\<lambda>d. sort_key jr_sequence
             (filter (\<lambda>j. jr_mutation j = mutation \<and> jr_kind j = kind) (t_journal d)))) (\<lambda>rows.
        if list_all (\<lambda>j. journal_row_valid j \<and> is_valid_identifier (jr_campaign j)) rows
        then sql_ret (map (\<lambda>j. j\<lparr>jr_digest := []\<rparr>) rows)
        else sql_fail Store_IntegrityFailure))"

definition outbox_row_valid :: "OutboxRow \<Rightarrow> bool" where
  "outbox_row_valid o' \<longleftrightarrow> ob_id o' \<noteq> 0 \<and> ob_revision o' \<noteq> 0 \<and> ob_revision o' \<le> kMaximumRevision \<and>
     \<not> sint (ob_codec_version o') \<le> 0 \<and> ob_superseded_by o' = None \<and>
     is_valid_identifier (ob_mutation o') \<and> is_valid_payload (ob_payload o')"

text \<open>\<open>ORDER BY revision, outbox_id\<close>: a stable sort by the revision after one by the identity.\<close>

definition pending_of :: "string \<Rightarrow> Database \<Rightarrow> OutboxRow list" where
  "pending_of campaign d =
     filter (\<lambda>o'. ob_campaign o' = campaign \<and> ob_state o' = OutboxPending) (t_outbox d)"

definition load_pending_outbox :: "string \<Rightarrow> (StoreError, OutboxRow list) sql" where
  "load_pending_outbox campaign =
     (if \<not> is_valid_identifier campaign then sql_fail Store_InvalidArgument
      else sql_bind (query (\<lambda>d. sort_key ob_revision (sort_key ob_id (pending_of campaign d)))) (\<lambda>rows.
        if list_all outbox_row_valid rows then sql_ret rows else sql_fail Store_IntegrityFailure))"

definition deliver_row :: "u64 \<Rightarrow> u64 \<Rightarrow> Database \<Rightarrow> Violation + nat \<times> Database" where
  "deliver_row i now d =
     (let hit = (\<lambda>o'. ob_id o' = unat i \<and> ob_state o' = OutboxPending) in
      Inr (length (filter hit (t_outbox d)),
           d\<lparr>t_outbox := map (\<lambda>o'. if hit o' then o'\<lparr>ob_state := OutboxDelivered, ob_delivered := Some now\<rparr>
               else o') (t_outbox d)\<rparr>))"

definition mark_outbox_delivered :: "u64 \<Rightarrow> StoreEnv \<Rightarrow> Database \<Rightarrow> StoreError \<times> Database" where
  "mark_outbox_delivered i env d =
     (if i = 0 \<or> i > kMaximumRevision then (Store_InvalidArgument, d)
      else transaction
        (sql_bind (step_done (deliver_row i (env_now env))) (\<lambda>changed.
         if changed \<noteq> 0 then sql_ret Store_None
         else sql_bind (query (\<lambda>d. find (\<lambda>o'. ob_id o' = unat i) (t_outbox d))) (\<lambda>row.
           case row of None \<Rightarrow> sql_fail Store_NotFound
           | Some o' \<Rightarrow> if ob_state o' = OutboxSuperseded then sql_fail Store_IdempotencyConflict
                        else sql_ret Store_None)))
        id env d)"

end
