(* ===== verification/StoreFrames.thy ===== *)
theory StoreFrames
  imports CampaignStore
begin

text \<open>
  Reasoning about the database programs: \<open>sql_holds\<close> is the weakest precondition of a program for a
  condition on what it returns and the state it leaves, and one on what it returns early. The locale
  \<open>frame\<close> lifts a reflexive and transitive relation on databases from the statements to the programs
  built of them.
\<close>

named_theorems sql_wp

definition sql_holds :: "('e, 'a) sql \<Rightarrow> StoreEnv \<Rightarrow> nat \<times> Database \<Rightarrow> ('a \<Rightarrow> nat \<times> Database \<Rightarrow> bool) \<Rightarrow> ('e \<Rightarrow> bool) \<Rightarrow> bool" where
  "sql_holds m env s Q E = (case m env s of (Inl e, s') \<Rightarrow> E e | (Inr x, s') \<Rightarrow> Q x s')"

lemma sql_holds_ret [sql_wp]: "sql_holds (sql_ret x) env s Q E = Q x s"
  by (simp add: sql_holds_def sql_ret_def)

lemma sql_holds_fail [sql_wp]: "sql_holds (sql_fail e) env s Q E = E e"
  by (simp add: sql_holds_def sql_fail_def)

lemma sql_holds_bind [sql_wp]: "sql_holds (sql_bind m k) env s Q E = sql_holds m env s (\<lambda>x s'. sql_holds (k x) env s' Q E) E"
  by (auto simp: sql_holds_def sql_bind_def split: sum.splits prod.splits)

lemma sql_holds_require [sql_wp]: "sql_holds (sql_require b e) env s Q E = (if b then Q () s else E e)"
  by (simp add: sql_require_def sql_wp)

lemma sql_holds_error [sql_wp]: "sql_holds (with_error f m) env s Q E = sql_holds m env s Q (\<lambda>e. E (f e))"
  by (auto simp: sql_holds_def with_error_def split: sum.splits prod.splits)

lemma sql_holds_or_fail [sql_wp]: "sql_holds (or_fail m) env s Q E = sql_holds m env s Q (\<lambda>e. E (mutation_failure e))"
  by (simp add: or_fail_def sql_wp)

lemma sql_holds_query [sql_wp]:
  "sql_holds (query q) env (n, d) Q E = (if env_io env n then E Store_DatabaseFailure else Q (q d) (Suc n, d))"
  by (simp add: sql_holds_def query_def)

lemma sql_holds_change [sql_wp]:
  "sql_holds (change u) env (n, d) Q E =
     (if env_io env n then E StepIo
      else case u d of Inl v \<Rightarrow> E (StepViolation v) | Inr (rows, d') \<Rightarrow> Q rows (Suc n, d'))"
  by (auto simp: sql_holds_def change_def split: sum.splits prod.splits)

lemma sql_holds_inject [sql_wp]:
  "sql_holds (inject_fault stage) env s Q E = (if env_fault env stage then E Store_FaultInjected else Q () s)"
  by (simp add: sql_holds_def inject_fault_def)

lemma sql_holds_each [sql_wp]:
  "sql_holds (sql_each f []) env s Q E = Q () s"
  "sql_holds (sql_each f (x # xs)) env s Q E = sql_holds (f x) env s (\<lambda>_ s'. sql_holds (sql_each f xs) env s' Q E) E"
  by (simp_all add: sql_wp)

lemma sql_holds_mono:
  assumes "sql_holds m env s Q E" "\<And>x n d. Q x (n, d) \<Longrightarrow> Q' x (n, d)" "\<And>e. E e \<Longrightarrow> E' e"
  shows "sql_holds m env s Q' E'"
  using assms by (auto simp: sql_holds_def split: sum.splits prod.splits)

text \<open>Two conditions of the same run.\<close>

lemma sql_holds_conj:
  "sql_holds m env s Q E \<Longrightarrow> sql_holds m env s Q' E' \<Longrightarrow> sql_holds m env s (\<lambda>x s'. Q x s' \<and> Q' x s') (\<lambda>e. E e \<and> E' e)"
  by (auto simp: sql_holds_def split: sum.splits prod.splits)

text \<open>The outcome of a transaction: nothing changes unless the body ends and the commit succeeds.\<close>

lemma transaction_cases:
  assumes "sql_holds body env (1, d) (\<lambda>r (n, d'). P r d') (\<lambda>r. Q r)" "Q (failure Store_DatabaseFailure)"
    "transaction body failure env d = (r, d')"
  shows "(d' = d \<and> Q r) \<or> P r d'"
  using assms by (auto simp: transaction_def sql_holds_def split: if_splits sum.splits prod.splits)

subsection \<open>Frames\<close>

locale frame =
  fixes related :: "Database \<Rightarrow> Database \<Rightarrow> bool"
  assumes refl: "related d d"
    and trans: "related a b \<Longrightarrow> related b c \<Longrightarrow> related a c"
begin

definition keeps :: "('e, 'a) sql \<Rightarrow> bool" where
  "keeps m \<longleftrightarrow> (\<forall>env n d. sql_holds m env (n, d) (\<lambda>x (n', d'). related d d') (\<lambda>e. True))"

lemma keepsD: "keeps m \<Longrightarrow> sql_holds m env (n, d) (\<lambda>x (n', d'). related d d') (\<lambda>e. True)"
  by (simp add: keeps_def)

lemma keeps_pure: "keeps (sql_ret x)" "keeps (sql_fail e)" "keeps (query q)" "keeps (inject_fault stage)"
    "keeps (sql_require b e)"
  by (simp_all add: keeps_def sql_wp refl)

lemma keeps_bind:
  assumes "keeps m" "\<And>x. keeps (k x)"
  shows "keeps (sql_bind m k)"
  unfolding keeps_def
proof (intro allI)
  fix env n d
  show "sql_holds (sql_bind m k) env (n, d) (\<lambda>x (n', d'). related d d') (\<lambda>e. True)"
    unfolding sql_holds_bind
  proof (rule sql_holds_mono [OF keepsD [OF assms(1)]])
    fix x and n' :: nat and d' assume first: "case (n', d') of (n', d') \<Rightarrow> related d d'"
    show "sql_holds (k x) env (n', d') (\<lambda>x (n', d'). related d d') (\<lambda>e. True)"
      using first trans by (intro sql_holds_mono [OF keepsD [OF assms(2)]]) auto
  qed simp
qed

lemma keeps_error: "keeps m \<Longrightarrow> keeps (with_error f m)"
  by (simp add: keeps_def sql_wp)

lemma keeps_or_fail: "keeps m \<Longrightarrow> keeps (or_fail m)"
  by (simp add: keeps_def sql_wp)

lemma keeps_change: "(\<And>d rows d'. u d = Inr (rows, d') \<Longrightarrow> related d d') \<Longrightarrow> keeps (change u)"
  by (auto simp: keeps_def sql_wp split: sum.splits prod.splits)

lemma keeps_step: "(\<And>d rows d'. u d = Inr (rows, d') \<Longrightarrow> related d d') \<Longrightarrow> keeps (step_done u)"
  unfolding step_done_def by (intro keeps_error keeps_change)

lemma keeps_step_only: "(\<And>d rows d'. u d = Inr (rows, d') \<Longrightarrow> related d d') \<Longrightarrow> keeps (step_only u)"
  unfolding step_only_def by (intro keeps_bind keeps_step keeps_pure)

lemma keeps_each: "(\<And>x. x \<in> set xs \<Longrightarrow> keeps (f x)) \<Longrightarrow> keeps (sql_each f xs)"
  by (induction xs) (auto intro: keeps_bind keeps_pure)

lemma keeps_if: "(b \<Longrightarrow> keeps m) \<Longrightarrow> (\<not> b \<Longrightarrow> keeps m') \<Longrightarrow> keeps (if b then m else m')"
  by simp

lemma keeps_option: "keeps m \<Longrightarrow> (\<And>x. keeps (k x)) \<Longrightarrow> keeps (case v of None \<Rightarrow> m | Some x \<Rightarrow> k x)"
  by (cases v) auto

lemma keeps_pair: "(\<And>a b. v = (a, b) \<Longrightarrow> keeps (k a b)) \<Longrightarrow> keeps (case v of (a, b) \<Rightarrow> k a b)"
  by (cases v) auto

lemma keeps_sum: "(\<And>a. keeps (f a)) \<Longrightarrow> (\<And>b. keeps (g b)) \<Longrightarrow> keeps (case v of Inl a \<Rightarrow> f a | Inr b \<Rightarrow> g b)"
  by (cases v) auto

lemmas keeps_intros = keeps_pure keeps_bind keeps_error keeps_or_fail keeps_each keeps_if keeps_option
  keeps_pair keeps_sum

end

text \<open>The frame of a part of the database that a program leaves alone.\<close>

definition same_part :: "(Database \<Rightarrow> 'p) \<Rightarrow> Database \<Rightarrow> Database \<Rightarrow> bool" where
  "same_part part d d' \<longleftrightarrow> part d' = part d"

interpretation part: frame "same_part part" for part
  by unfold_locales (auto simp: same_part_def)

definition leaves :: "(Database \<Rightarrow> 'p) \<Rightarrow> ('e, 'a) sql \<Rightarrow> bool" where
  "leaves part m \<longleftrightarrow> frame.keeps (same_part part) m"

lemmas leaves_intros = part.keeps_intros [folded leaves_def]

lemma leaves_step: "(\<And>d rows d'. u d = Inr (rows, d') \<Longrightarrow> part d' = part d) \<Longrightarrow> leaves part (step_done u)"
  unfolding leaves_def by (rule part.keeps_step) (simp add: same_part_def)

lemma leaves_step_only: "(\<And>d rows d'. u d = Inr (rows, d') \<Longrightarrow> part d' = part d) \<Longrightarrow> leaves part (step_only u)"
  unfolding leaves_def by (rule part.keeps_step_only) (simp add: same_part_def)

lemma leavesD: "leaves part m \<Longrightarrow> sql_holds m env (n, d) (\<lambda>x (n', d'). part d' = part d) (\<lambda>e. True)"
  unfolding leaves_def using part.keepsD [of part m env n d] by (simp add: same_part_def)

text \<open>A program that reads and never writes.\<close>

abbreviation reads :: "('e, 'a) sql \<Rightarrow> bool" where
  "reads \<equiv> leaves (\<lambda>d. d)"

lemma load_campaign_reads: "reads (load_campaign i)"
  unfolding load_campaign_def by (intro leaves_intros)

lemma load_projection_reads: "reads (load_campaign_projection i a)"
  unfolding load_campaign_projection_def by (intro leaves_intros load_campaign_reads)

lemma load_checkpoint_reads: "reads (load_checkpoint i k)"
  unfolding load_checkpoint_def by (intro leaves_intros)

lemma read_current_revision_reads: "reads (read_current_revision i)"
  unfolding read_current_revision_def by (intro leaves_intros)

lemma read_snapshot_row_reads: "reads (read_snapshot_row i k)"
  unfolding read_snapshot_row_def by (intro leaves_intros)

lemma check_seal_reads: "reads (check_seal r)"
  unfolding check_seal_def by (intro leaves_intros)

lemmas store_reads = load_campaign_reads load_projection_reads load_checkpoint_reads
  read_current_revision_reads read_snapshot_row_reads check_seal_reads

end
