(* ===== verification/StoreHistory.thy ===== *)
theory StoreHistory
  imports StoreFrames
begin

text \<open>
  What a mutation of the store does to the history of a campaign: the journal, its sequence numbers
  and the current revision. Every mutation is one transaction, so that an operation that does not
  answer \<open>applied\<close> leaves the tables as they were; one that does appends exactly one journal row and
  moves the revision of its campaign from the expected to the next one.
\<close>

datatype StoreOp =
    OpCreate CreateCampaignRequest
  | OpApply CampaignMutationRequest
  | OpCandidate CreateCandidateRequest
  | OpSlotSave RecordSlotSaveRequest
  | OpCommit CommitCheckpointRequest
  | OpRestore RestoreCheckpointRequest

fun store_mutate :: "StoreOp \<Rightarrow> StoreEnv \<Rightarrow> Database \<Rightarrow> MutationResult \<times> Database" where
  "store_mutate (OpCreate r) = create_campaign r"
| "store_mutate (OpApply r) = apply_campaign_mutation r"
| "store_mutate (OpCandidate r) = create_checkpoint_candidate r"
| "store_mutate (OpSlotSave r) = record_checkpoint_slot_save r"
| "store_mutate (OpCommit r) = commit_checkpoint r"
| "store_mutate (OpRestore r) = restore_checkpoint_snapshot r"

fun op_campaign :: "StoreOp \<Rightarrow> string" where
  "op_campaign (OpCreate r) = cr_id (ccr_campaign r)"
| "op_campaign (OpApply r) = amr_campaign r"
| "op_campaign (OpCandidate r) = ckr_campaign r"
| "op_campaign (OpSlotSave r) = rsr_campaign r"
| "op_campaign (OpCommit r) = cmr_campaign r"
| "op_campaign (OpRestore r) = rcr_campaign r"

fun op_mutation :: "StoreOp \<Rightarrow> string" where
  "op_mutation (OpCreate r) = ccr_mutation r"
| "op_mutation (OpApply r) = amr_mutation r"
| "op_mutation (OpCandidate r) = ckr_mutation r"
| "op_mutation (OpSlotSave r) = rsr_mutation r"
| "op_mutation (OpCommit r) = cmr_mutation r"
| "op_mutation (OpRestore r) = rcr_mutation r"

fun op_expected :: "StoreOp \<Rightarrow> u64" where
  "op_expected (OpCreate r) = 0"
| "op_expected (OpApply r) = amr_expected r"
| "op_expected (OpCandidate r) = ckr_expected r"
| "op_expected (OpSlotSave r) = rsr_expected r"
| "op_expected (OpCommit r) = cmr_expected r"
| "op_expected (OpRestore r) = rcr_expected r"

fun op_kind :: "StoreOp \<Rightarrow> string" where
  "op_kind (OpCreate r) = ''CreateCampaign''"
| "op_kind (OpApply r) = amr_kind r"
| "op_kind (OpCandidate r) = ''CreateCheckpointCandidate''"
| "op_kind (OpSlotSave r) = ''RecordCheckpointSlotSave''"
| "op_kind (OpCommit r) = ''CommitCheckpoint''"
| "op_kind (OpRestore r) = ''RestoreCheckpoint''"

fun op_digest :: "StoreOp \<Rightarrow> string" where
  "op_digest (OpCreate r) = create_digest r (snd (encode_snapshot (create_projection r)))"
| "op_digest (OpApply r) = apply_digest r"
| "op_digest (OpCandidate r) = candidate_digest r"
| "op_digest (OpSlotSave r) = slot_save_digest r"
| "op_digest (OpCommit r) = commit_digest r"
| "op_digest (OpRestore r) = restore_digest r"

text \<open>Every mutation advances the revision, except an accepted no-op.\<close>

fun op_advances :: "StoreOp \<Rightarrow> bool" where
  "op_advances (OpApply r) = amr_advances r"
| "op_advances op = True"

definition op_result :: "StoreOp \<Rightarrow> u64" where
  "op_result op = (if op_advances op then op_expected op + 1 else op_expected op)"

section \<open>The ledger\<close>

definition revision_of :: "Database \<Rightarrow> string \<Rightarrow> u64 option" where
  "revision_of d i = map_option cr_revision (find_campaign i d)"

definition ledger :: "Database \<Rightarrow> JournalRow list \<times> nat \<times> (string \<Rightarrow> u64 option)" where
  "ledger d = (t_journal d, last_sequence d, revision_of d)"

abbreviation ends :: "('e, 'a) sql \<Rightarrow> StoreEnv \<Rightarrow> nat \<times> Database \<Rightarrow> ('a \<Rightarrow> Database \<Rightarrow> bool) \<Rightarrow> bool" where
  "ends m env s Q \<equiv> sql_holds m env s (\<lambda>x (n, d). Q x d) (\<lambda>e. True)"

lemma ends_bind:
  assumes "ends m env (n, d) P" "\<And>x n' d'. P x d' \<Longrightarrow> ends (k x) env (n', d') Q"
  shows "ends (sql_bind m k) env (n, d) Q"
  unfolding sql_holds_bind using assms(1) by (rule sql_holds_mono) (auto intro: assms(2))

lemma ends_leaves: "leaves part m \<Longrightarrow> ends m env (n, d) (\<lambda>x d'. part d' = part d)"
  by (drule leavesD) simp

lemma ends_read: "reads m \<Longrightarrow> ends m env (n, d) (\<lambda>x d'. d' = d)"
  by (drule leavesD) simp

lemma ends_require: "(b \<Longrightarrow> Q () d) \<Longrightarrow> ends (sql_require b e) env (n, d) Q"
  by (simp add: sql_wp)

lemma ends_mono: "ends m env s P \<Longrightarrow> (\<And>x d. P x d \<Longrightarrow> Q x d) \<Longrightarrow> ends m env s Q"
  by (erule sql_holds_mono) auto

lemma find_campaign_update:
  assumes "\<And>c. cr_id (f c) = cr_id c"
  shows "find_campaign i (d\<lparr>t_campaigns := map (\<lambda>c. if cr_id c = j \<and> g c then f c else c) (t_campaigns d)\<rparr>) =
    map_option (\<lambda>c. if cr_id c = j \<and> g c then f c else c) (find_campaign i d)"
proof -
  have "find (\<lambda>c. cr_id c = i) (map (\<lambda>c. if cr_id c = j \<and> g c then f c else c) cs) =
      map_option (\<lambda>c. if cr_id c = j \<and> g c then f c else c) (find (\<lambda>c. cr_id c = i) cs)" for cs
    by (induction cs) (auto simp: assms)
  then show ?thesis by (simp add: find_campaign_def)
qed

lemma find_campaign_id: "find_campaign i d = Some c \<Longrightarrow> cr_id c = i"
  by (auto simp: find_campaign_def find_Some_iff)

lemma update_campaign_ledger:
  assumes "update_campaign i g f d = Inr (rows, d')" "\<And>c. cr_id (f c) = cr_id c"
  shows "t_journal d' = t_journal d" "last_sequence d' = last_sequence d"
    "find_campaign k d' = map_option (\<lambda>c. if cr_id c = i \<and> g c then f c else c) (find_campaign k d)"
  using assms find_campaign_update [where i = k and d = d and j = i and g = g and f = f]
  by (auto simp: update_campaign_def Let_def split: if_splits)

lemma update_campaign_silent:
  assumes "update_campaign i g f d = Inr (rows, d')" "\<And>c. cr_id (f c) = cr_id c" "\<And>c. cr_revision (f c) = cr_revision c"
  shows "ledger d' = ledger d"
proof -
  have "revision_of d' k = revision_of d k" for k
    using update_campaign_ledger [OF assms(1,2)] assms(3) by (cases "find_campaign k d") (auto simp: revision_of_def)
  then show ?thesis
    using update_campaign_ledger [OF assms(1,2)] by (simp add: ledger_def fun_eq_iff)
qed

lemma update_campaign_moves:
  assumes "update_campaign i (\<lambda>c. cr_revision c = expected) f d = Inr (rows, d')"
    "\<And>c. cr_id (f c) = cr_id c" "\<And>c. cr_revision (f c) = revision" "revision_of d i = Some expected"
  shows "ledger d' = (t_journal d, last_sequence d, (revision_of d)(i \<mapsto> revision))"
proof -
  have "revision_of d' k = ((revision_of d)(i \<mapsto> revision)) k" for k
    using update_campaign_ledger(3) [OF assms(1,2)] assms(3,4) find_campaign_id [of k d]
    by (cases "find_campaign k d") (auto simp: revision_of_def)
  then show ?thesis
    using update_campaign_ledger [OF assms(1,2)] by (simp add: ledger_def fun_eq_iff)
qed

subsection \<open>Statements that leave the ledger alone\<close>

lemma ledger_untouched:
  "ledger (d\<lparr>t_slots := s\<rparr>) = ledger d" "ledger (d\<lparr>t_builds := b\<rparr>) = ledger d"
  "ledger (d\<lparr>t_adapters := a\<rparr>) = ledger d" "ledger (d\<lparr>t_snapshots := sn\<rparr>) = ledger d"
  "ledger (d\<lparr>t_checkpoints := c\<rparr>) = ledger d" "ledger (d\<lparr>t_checkpoint_slots := cs\<rparr>) = ledger d"
  "ledger (d\<lparr>t_outbox := ob\<rparr>) = ledger d" "ledger (d\<lparr>last_outbox := n\<rparr>) = ledger d"
  by (simp_all add: ledger_def revision_of_def find_campaign_def fun_eq_iff)

lemmas row_changes = insert_slot_row_def upsert_build_row_def upsert_adapter_row_def delete_build_def
  delete_builds_def delete_adapter_def delete_adapters_def delete_slots_def insert_snapshot_def
  insert_checkpoint_def insert_checkpoint_slot_def update_checkpoint_slot_def mark_committed_def
  supersede_outbox_def insert_outbox_def

lemma rows_keep_ledger:
  "insert_slot_row i s d = Inr (n, d') \<Longrightarrow> ledger d' = ledger d"
  "upsert_build_row br d = Inr (n, d') \<Longrightarrow> ledger d' = ledger d"
  "upsert_adapter_row i a d = Inr (n, d') \<Longrightarrow> ledger d' = ledger d"
  "delete_build i s1 d = Inr (n, d') \<Longrightarrow> ledger d' = ledger d"
  "delete_builds i d = Inr (n, d') \<Longrightarrow> ledger d' = ledger d"
  "delete_adapter i s1 d = Inr (n, d') \<Longrightarrow> ledger d' = ledger d"
  "delete_adapters i d = Inr (n, d') \<Longrightarrow> ledger d' = ledger d"
  "delete_slots i d = Inr (n, d') \<Longrightarrow> ledger d' = ledger d"
  "insert_snapshot sn d = Inr (n, d') \<Longrightarrow> ledger d' = ledger d"
  "insert_checkpoint ck d = Inr (n, d') \<Longrightarrow> ledger d' = ledger d"
  "insert_checkpoint_slot i k s d = Inr (n, d') \<Longrightarrow> ledger d' = ledger d"
  "update_checkpoint_slot i k t d = Inr (n, d') \<Longrightarrow> ledger d' = ledger d"
  "mark_committed i k v now d = Inr (n, d') \<Longrightarrow> ledger d' = ledger d"
  "supersede_outbox i v d = Inr (n, d') \<Longrightarrow> ledger d' = ledger d"
  "insert_outbox ob d = Inr (n, d') \<Longrightarrow> ledger d' = ledger d"
  by (auto simp: row_changes Let_def ledger_untouched split: if_splits)

lemma upsert_build_leaves: "leaves ledger (upsert_character_build i b v)"
  unfolding upsert_character_build_def verify_slot_binding_def
  by (intro leaves_intros leaves_step_only) (simp add: rows_keep_ledger)

lemma upsert_adapter_leaves: "leaves ledger (upsert_adapter_state i a v)"
  unfolding upsert_adapter_state_def by (intro leaves_step_only) (simp add: rows_keep_ledger)

lemma append_outbox_leaves: "leaves ledger (append_outbox i m v intents now)"
  unfolding append_outbox_def
  by (intro leaves_intros leaves_step_only) (simp add: rows_keep_ledger)

lemma set_core_leaves: "leaves ledger (set_core_state i v p)"
  unfolding set_core_state_def
  by (intro leaves_intros leaves_step_only) (rule update_campaign_silent, assumption, simp_all)

lemma set_sealed_leaves: "leaves ledger (set_sealed i b)"
  unfolding set_sealed_def
  by (intro leaves_intros leaves_step_only) (rule update_campaign_silent, assumption, simp_all)

lemma write_current_leaves: "leaves ledger (write_current_state r v)"
  unfolding write_current_state_def Let_def replace_roster_rows_def insert_slot_def
  by (intro leaves_intros upsert_build_leaves upsert_adapter_leaves set_core_leaves set_sealed_leaves
      leaves_step_only) (simp_all add: rows_keep_ledger)

section \<open>The effect of an applied mutation\<close>

text \<open>The journal row that an applied operation writes.\<close>

definition row_is :: "string \<Rightarrow> string \<Rightarrow> u64 \<Rightarrow> u64 \<Rightarrow> string \<Rightarrow> string \<Rightarrow> JournalRow \<Rightarrow> bool" where
  "row_is i m expected resulting kind digest j \<longleftrightarrow> jr_campaign j = i \<and> jr_mutation j = m \<and>
     jr_expected j = expected \<and> jr_resulting j = resulting \<and> jr_kind j = kind \<and> jr_digest j = digest \<and>
     jr_resulting j \<noteq> 0 \<and> jr_resulting j \<le> kMaximumRevision"

definition journals :: "StoreOp \<Rightarrow> JournalRow \<Rightarrow> bool" where
  "journals op = row_is (op_campaign op) (op_mutation op) (op_expected op) (op_result op) (op_kind op) (op_digest op)"

text \<open>Whether the revision of the campaign is the one the operation expects; it must not exist for a creation.\<close>

fun op_current :: "StoreOp \<Rightarrow> Database \<Rightarrow> bool" where
  "op_current (OpCreate r) d \<longleftrightarrow> revision_of d (cr_id (ccr_campaign r)) = None"
| "op_current op d \<longleftrightarrow> revision_of d (op_campaign op) = Some (op_expected op)"

definition op_recorded :: "StoreOp \<Rightarrow> Database \<Rightarrow> Database \<Rightarrow> bool" where
  "op_recorded op d d' \<longleftrightarrow> op_current op d \<and> find_journaled (op_campaign op) (op_mutation op) d = None \<and>
     (\<exists>j. journals op j \<and> jr_sequence j = Suc (last_sequence d) \<and>
       ledger d' = (t_journal d @ [j], jr_sequence j, (revision_of d)(op_campaign op \<mapsto> op_result op)))"

lemma find_campaign_revision: "find_campaign i d = None \<longleftrightarrow> revision_of d i = None"
  by (simp add: revision_of_def)

lemma find_journaled_ledger: "ledger d' = (t_journal d, x, y) \<Longrightarrow> find_journaled i m d' = find_journaled i m d"
  by (simp add: ledger_def find_journaled_def)

text \<open>The state after a mutation has moved the revision and written its row.\<close>

definition recorded :: "string \<Rightarrow> string \<Rightarrow> (JournalRow \<Rightarrow> bool) \<Rightarrow> (string \<Rightarrow> u64 option) \<Rightarrow> Database \<Rightarrow> Database \<Rightarrow> bool" where
  "recorded i m row revisions d d' \<longleftrightarrow> find_journaled i m d = None \<and>
     (\<exists>j. row j \<and> jr_sequence j = Suc (last_sequence d) \<and> ledger d' = (t_journal d @ [j], jr_sequence j, revisions))"

lemma recordedI:
  "op_current op d \<Longrightarrow>
   recorded (op_campaign op) (op_mutation op) (journals op) ((revision_of d)(op_campaign op \<mapsto> op_result op)) d d' \<Longrightarrow>
     op_recorded op d d'"
  by (simp add: op_recorded_def recorded_def)

lemma ends_journal:
  "ends (append_journal i m expected resulting kind digest v p now cp cv) env (n, d)
     (\<lambda>_ d'. recorded i m (row_is i m expected resulting kind digest) (revision_of d) d d')"
  by (auto simp: append_journal_def step_only_def step_done_def sql_wp insert_journal_def ledger_def
      revision_of_def find_campaign_def fun_eq_iff recorded_def row_is_def split: sum.splits)

lemma ends_record:
  assumes "leaves ledger outbox" "ledger d = (t_journal d0, last_sequence d0, revisions)"
    "row = row_is i m expected resulting kind digest"
  shows "ends (record_mutation (append_journal i m expected resulting kind digest v p now cp cv) outbox) env (n, d)
     (\<lambda>_ d'. recorded i m row revisions d0 d')"
proof -
  have tail: "leaves ledger (sql_bind (inject_fault AfterJournal) (\<lambda>_. sql_bind outbox (\<lambda>_.
      sql_bind (inject_fault AfterOutbox) (\<lambda>_. inject_fault BeforeCommit))))"
    by (intro leaves_intros assms)
  have "recorded i m row revisions d0 d''"
    if "recorded i m (row_is i m expected resulting kind digest) (revision_of d) d d'" "ledger d'' = ledger d'" for d' d''
    using that assms(2,3) by (auto simp: recorded_def ledger_def find_journaled_def)
  then show ?thesis
    unfolding record_mutation_def
    by (rule ends_bind [OF ends_journal ends_mono [OF ends_leaves [OF tail]]])
qed

subsection \<open>What the steps of the bodies establish\<close>

lemma ends_current_revision: "ends (read_current_revision i) env (n, d) (\<lambda>x d'. d' = d \<and> revision_of d i = Some x)"
  by (auto simp: read_current_revision_def sql_wp revision_of_def split: option.splits)

lemma ends_expect_revision:
  "ends (expect_revision current expected adv) env (n, d)
     (\<lambda>x d'. d' = d \<and> current = expected \<and> x = (if adv then expected + 1 else expected))"
  by (auto simp: expect_revision_def sql_wp)

lemma ends_load_campaign: "ends (load_campaign i) env (n, d) (\<lambda>c d'. d' = d \<and> find_campaign i d = Some c)"
  by (auto simp: load_campaign_def sql_wp split: option.splits)

lemma ends_load_projection:
  "ends (load_campaign_projection i a) env (n, d) (\<lambda>p d'. d' = d \<and> find_campaign i d = Some (pr_campaign p))"
  unfolding load_campaign_projection_def
  by (rule ends_bind [OF ends_load_campaign]) (auto simp: sql_wp)

lemma ends_move_revision:
  assumes "revision_of d i = Some expected"
  shows "ends (update_campaign_revision i expected v now) env (n, d)
    (\<lambda>_ d'. ledger d' = (t_journal d, last_sequence d, (revision_of d)(i \<mapsto> v)))"
  using update_campaign_moves [OF _ _ _ assms]
  by (auto simp: update_campaign_revision_def step_done_def sql_wp split: sum.splits)

lemma ledger_revision: "ledger d' = ledger d \<Longrightarrow> revision_of d' = revision_of d \<and> t_journal d' = t_journal d \<and>
    last_sequence d' = last_sequence d"
  by (simp add: ledger_def)

lemma ends_apply:
  "ends (apply_body r (apply_digest r) now) env (n, d) (\<lambda>v d'. v = op_result (OpApply r) \<and> op_recorded (OpApply r) d d')"
  unfolding apply_body_def Let_def
proof (rule ends_bind [OF ends_current_revision], rule ends_bind [OF ends_expect_revision], goal_cases)
  case (1 current n' d1 revision n'' d2)
  then have start: "d2 = d" "revision_of d (amr_campaign r) = Some (amr_expected r)" "revision = op_result (OpApply r)"
    by (auto simp: op_result_def)
  show ?case
    unfolding start
  proof (rule ends_bind [OF ends_read [OF check_seal_reads]], rule ends_bind [OF ends_leaves [OF write_current_leaves]],
      goal_cases)
    case (1 u n3 d3 w n4 d4)
    then have written: "revision_of d4 = revision_of d" "t_journal d4 = t_journal d" "last_sequence d4 = last_sequence d"
      using ledger_revision by metis+
    let ?move = "if amr_advances r then sql_bind (update_campaign_revision (amr_campaign r) (amr_expected r)
        (op_result (OpApply r)) now) (\<lambda>_. inject_fault AfterCurrentState) else sql_ret ()"
    have moved: "ends ?move env (n4, d4)
        (\<lambda>_ d'. ledger d' = (t_journal d, last_sequence d, (revision_of d)(amr_campaign r \<mapsto> op_result (OpApply r))))"
    proof (cases "amr_advances r")
      case True
      then show ?thesis
        using start written
        by (simp, intro ends_bind [OF ends_move_revision]) (auto simp: sql_wp)
    next
      case False
      then show ?thesis using start written by (auto simp: sql_wp ledger_def op_result_def fun_upd_idem)
    qed
    show ?case
    proof (rule ends_bind [OF moved], goal_cases)
      case (1 x n5 d5)
      show ?case
        by (rule ends_bind [OF ends_record [OF append_outbox_leaves 1 refl]])
          (auto simp: sql_wp start intro!: recordedI, auto simp: journals_def row_is_def recorded_def)
    qed
  qed
qed

text \<open>The end of every body: the row is written, and the revision returned.\<close>

lemma ends_close:
  assumes "leaves ledger outbox"
    "ledger d' = (t_journal d, last_sequence d, (revision_of d)(op_campaign op \<mapsto> op_result op))"
    "op_current op d"
  shows "ends (record_mutation (append_journal (op_campaign op) (op_mutation op) (op_expected op) (op_result op)
     (op_kind op) (op_digest op) v p now cp cv) outbox) env (n, d') (\<lambda>_ d''. op_recorded op d d'')"
  by (rule ends_mono [OF ends_record [OF assms(1,2) refl]])
    (use assms(3) in \<open>auto simp: journals_def intro!: recordedI\<close>)

lemma ends_require_true: "ends (sql_require b e) env (n, d) (\<lambda>_ d'. d' = d \<and> b)"
  by (simp add: sql_wp)

lemma ends_inject: "ends (inject_fault s) env (n, d) (\<lambda>_ d'. d' = d)"
  by (simp add: sql_wp)

lemma insert_or_exists_leaves:
  "(\<And>d rows d'. u d = Inr (rows, d') \<Longrightarrow> part d' = part d) \<Longrightarrow> leaves part (insert_or_exists u)"
  unfolding insert_or_exists_def leaves_def
  by (intro part.keeps_intros part.keeps_change) (simp_all add: same_part_def)

lemma find_snoc: "find P (xs @ [x]) = (case find P xs of None \<Rightarrow> if P x then Some x else None | Some y \<Rightarrow> Some y)"
  by (induction xs) auto

lemma ends_create:
  "ends (create_body r (op_digest (OpCreate r)) now) env (n, d) (\<lambda>_ d'. op_recorded (OpCreate r) d d')"
proof -
  let ?op = "OpCreate r"
  let ?i = "op_campaign ?op"
  have result: "op_result ?op = 1" by (simp add: op_result_def)
  have insert: "ends (with_error (f :: StepFailure \<Rightarrow> StoreError) (change (insert_campaign c))) env (n, d)
      (\<lambda>_ d'. op_current ?op d \<and> ledger d' = (t_journal d, last_sequence d, (revision_of d)(?i \<mapsto> op_result ?op)))"
    if "cr_id c = ?i" "cr_revision c = 1" for c f
    using that by (auto simp: sql_wp insert_campaign_def ledger_def revision_of_def find_campaign_def
        fun_eq_iff find_snoc result split: sum.splits if_splits option.splits)
  have slots: "leaves ledger (sql_each (insert_slot ?i) (ccr_slots r))"
    unfolding insert_slot_def by (intro leaves_intros leaves_step_only) (simp add: rows_keep_ledger)
  have close: "ends (record_mutation (append_journal ?i (ccr_mutation r) 0 1 ''CreateCampaign'' (op_digest ?op)
      (ccr_codec_version r) (ccr_payload r) now None None) (append_outbox ?i (ccr_mutation r) 1 (ccr_outbox r) now))
      env (n', d') (\<lambda>_ d''. op_recorded ?op d d'')"
    if "op_current ?op d" "ledger d' = (t_journal d, last_sequence d, (revision_of d)(?i \<mapsto> op_result ?op))" for n' d'
    using ends_close [OF append_outbox_leaves that(2) that(1)] by (simp add: result)
  show ?thesis
    unfolding create_body_def Let_def op_campaign.simps(1) [symmetric]
  proof (rule ends_bind, rule insert, simp, simp, rule ends_bind [OF ends_leaves [OF slots]],
      rule ends_bind [OF ends_leaves [where part = ledger]], intro leaves_intros upsert_build_leaves,
      rule ends_bind [OF ends_leaves [where part = ledger]], intro leaves_intros upsert_adapter_leaves,
      rule ends_bind [OF ends_inject], goal_cases)
    case 1
    show ?case by (rule close) (use 1 in auto)
  qed
qed

lemma moved_from:
  assumes "ledger d' = ledger d" "revision_of d i = Some expected"
  shows "ends (update_campaign_revision i expected v now) env (n, d')
    (\<lambda>_ d''. ledger d'' = (t_journal d, last_sequence d, (revision_of d)(i \<mapsto> v)))"
  using ends_move_revision [of d' i expected v now env n] ledger_revision [OF assms(1)] assms(2) by simp

lemma ends_candidate:
  "ends (candidate_body r (candidate_digest r) now) env (n, d)
     (\<lambda>v d'. v = op_result (OpCandidate r) \<and> op_recorded (OpCandidate r) d d')"
proof -
  let ?op = "OpCandidate r"
  let ?i = "ckr_campaign r"
  have result: "op_result ?op = ckr_expected r + 1" by (simp add: op_result_def)
  have slots: "leaves ledger (sql_each (\<lambda>s. step_only (insert_checkpoint_slot k i s)) ss)" for k i ss
    by (intro leaves_intros leaves_step_only) (simp add: rows_keep_ledger)
  show ?thesis
    unfolding candidate_body_def Let_def
  proof (rule ends_bind [OF ends_load_projection], rule ends_bind [OF ends_require_true],
      rule ends_bind [OF ends_require_true], rule ends_bind [OF ends_require_true],
      rule ends_bind [OF ends_require_true], goal_cases)
    case (1 p n1 d1 u2 n2 d2 u3 n3 d3 u4 n4 d4 u5 n5 d5)
    then have start: "d5 = d" "op_current ?op d" "revision_of d ?i = Some (ckr_expected r)"
      by (auto simp: revision_of_def)
    show ?case
      unfolding start(1)
      apply (split prod.split)
      apply (intro allI impI)
      apply (rule ends_bind [OF ends_require_true], simp only: conj_imp_eq_imp_imp)
      apply (rule ends_bind [OF ends_leaves [where part = ledger]])
       apply (rule insert_or_exists_leaves, erule rows_keep_ledger)
      apply (rule ends_bind [OF ends_leaves [where part = ledger]])
       apply (rule insert_or_exists_leaves, erule rows_keep_ledger)
      apply (rule ends_bind [OF ends_leaves [OF slots]])
      apply (rule ends_bind [OF moved_from [OF _ start(3)]], simp)
      apply (rule ends_bind [OF ends_inject])
      apply (rule ends_bind [OF ends_close [where op = ?op, simplified op_campaign.simps op_mutation.simps
            op_expected.simps op_kind.simps op_digest.simps result, OF append_outbox_leaves _ start(2)]])
       apply simp
      apply (simp add: sql_wp result)
      done
  qed
qed

lemma ends_or_fail: "ends (or_fail m) env s Q = ends m env s Q"
  by (simp add: sql_wp)

lemma ends_slot_save:
  "ends (slot_save_body r (slot_save_digest r) now) env (n, d)
     (\<lambda>v d'. v = op_result (OpSlotSave r) \<and> op_recorded (OpSlotSave r) d d')"
proof -
  let ?op = "OpSlotSave r"
  let ?i = "rsr_campaign r"
  have result: "op_result ?op = rsr_expected r + 1" by (simp add: op_result_def)
  have writes: "ends (or_fail (sql_bind (step_only (update_checkpoint_slot ?i (rsr_checkpoint r) (rsr_slot r))) (\<lambda>_.
      sql_bind (update_campaign_revision ?i (rsr_expected r) (rsr_expected r + 1) now) (\<lambda>_.
      sql_bind (inject_fault AfterCurrentState) (\<lambda>_.
      sql_bind (record_mutation
        (append_journal ?i (rsr_mutation r) (rsr_expected r) (rsr_expected r + 1) ''RecordCheckpointSlotSave''
          (slot_save_digest r) (rsr_codec_version r) (rsr_payload r) now None None)
        (append_outbox ?i (rsr_mutation r) (rsr_expected r + 1) (rsr_outbox r) now)) (\<lambda>_.
      sql_ret (rsr_expected r + 1))))))) env (n', d) (\<lambda>v d'. v = op_result ?op \<and> op_recorded ?op d d')"
    if start: "op_current ?op d" "revision_of d ?i = Some (rsr_expected r)" for n'
    unfolding ends_or_fail
    apply (rule ends_bind [OF ends_leaves [where part = ledger]])
     apply (rule leaves_step_only, erule rows_keep_ledger)
    apply (rule ends_bind [OF moved_from [OF _ start(2)]], assumption)
    apply (rule ends_bind [OF ends_inject])
    apply (rule ends_bind [OF ends_close [where op = ?op, simplified op_campaign.simps op_mutation.simps
          op_expected.simps op_kind.simps op_digest.simps result, OF append_outbox_leaves _ start(1)]])
     apply simp
    apply (simp add: sql_wp result)
    done
  show ?thesis
    unfolding slot_save_body_def Let_def
  proof (rule ends_bind [OF ends_current_revision [THEN ends_or_fail [THEN iffD2]]],
      rule ends_bind [OF ends_expect_revision [THEN ends_or_fail [THEN iffD2]]],
      rule ends_bind [OF ends_read], intro leaves_intros, goal_cases)
    case (1 current n1 d1 v n2 d2 row n3 d3)
    then have start: "d3 = d" "op_current ?op d" "revision_of d ?i = Some (rsr_expected r)" "v = rsr_expected r + 1"
      by auto
    show ?case
      using writes [OF start(2,3)] unfolding start(1,4)
      by (cases row) (auto simp: sql_wp split: prod.split)
  qed
qed

lemma ends_load_checkpoint: "ends (load_checkpoint i k) env (n, d) (\<lambda>x d'. d' = d)"
  by (rule ends_read [OF load_checkpoint_reads])

lemma ends_step: "(\<And>rows d'. u d = Inr (rows, d') \<Longrightarrow> Q rows d') \<Longrightarrow> ends (step_done u) env (n, d) Q"
  by (auto simp: step_done_def sql_wp split: sum.splits)

lemma ends_commit:
  "ends (commit_body r (commit_digest r) now) env (n, d)
     (\<lambda>v d'. v = op_result (OpCommit r) \<and> op_recorded (OpCommit r) d d')"
proof -
  let ?op = "OpCommit r"
  let ?i = "cmr_campaign r"
  have result: "op_result ?op = cmr_expected r + 1" by (simp add: op_result_def)
  have selects: "ends (step_done (select_checkpoint ?i k (cmr_expected r) v t)) env (n', d')
      (\<lambda>_ d''. ledger d'' = (t_journal d, last_sequence d, (revision_of d)(?i \<mapsto> v)))"
    if "ledger d' = ledger d" "revision_of d ?i = Some (cmr_expected r)" for k v t n' d'
    using that ledger_revision [OF that(1)]
    by (intro ends_step) (auto simp: select_checkpoint_def split: if_splits dest!: update_campaign_moves)
  show ?thesis
    unfolding commit_body_def Let_def
  proof (rule ends_bind [OF ends_load_checkpoint [THEN ends_or_fail [THEN iffD2]]], goal_cases)
    case (1 ck n1 d1)
    show ?case
    proof (cases "ck_is_committed ck")
      case True
      then show ?thesis by (auto simp: sql_holds_def split: sum.splits prod.splits)
    next
      case False
      show ?thesis
        unfolding if_not_P [OF False] ends_or_fail 1
      proof (rule ends_bind [OF ends_current_revision], rule ends_bind [OF ends_expect_revision],
          rule ends_bind [OF ends_require_true], goal_cases)
        case (1 current n1 d1 v n2 d2 u n3 d3)
        then have start: "d3 = d" "op_current ?op d" "revision_of d ?i = Some (cmr_expected r)" "v = cmr_expected r + 1"
          by auto
        show ?case
          unfolding start(1,4)
          apply (rule ends_bind [OF ends_leaves [where part = ledger]])
           apply (rule leaves_step, erule rows_keep_ledger)
          apply (rule ends_bind [OF ends_require_true])
          apply (rule ends_bind [OF selects [OF _ start(3)]], simp)
          apply (rule ends_bind [OF ends_require_true])
          apply (rule ends_bind [OF ends_inject])
          apply (rule ends_bind [OF ends_close [where op = ?op, simplified op_campaign.simps op_mutation.simps
                op_expected.simps op_kind.simps op_digest.simps result, OF append_outbox_leaves _ start(2)]])
           apply simp
          apply (simp add: sql_wp result)
          done
      qed
    qed
  qed
qed

lemma ends_write_restored:
  assumes "revision_of d (rcr_campaign r) = Some (rcr_expected r)"
  shows "ends (write_restored_state r p v now) env (n, d)
    (\<lambda>_ d'. ledger d' = (t_journal d, last_sequence d, (revision_of d)(rcr_campaign r \<mapsto> v)))"
proof -
  let ?i = "rcr_campaign r"
  have moves: "ends (step_done (update_campaign ?i (\<lambda>c. cr_revision c = rcr_expected r)
      (\<lambda>c. c\<lparr>cr_codec_version := w, cr_payload := q, cr_revision := v, cr_updated := now\<rparr>))) env (n, d)
      (\<lambda>_ d'. ledger d' = (t_journal d, last_sequence d, (revision_of d)(?i \<mapsto> v)))" for w q
    by (rule ends_step, rule update_campaign_moves [OF _ _ _ assms], assumption) simp_all
  have tail: "leaves ledger (sql_bind (step_only (delete_builds ?i)) (\<lambda>_. sql_bind (step_only (delete_adapters ?i)) (\<lambda>_.
      sql_bind (sql_each (\<lambda>b. upsert_character_build ?i (b\<lparr>cb_revision := v\<rparr>) v) (pr_builds p)) (\<lambda>_.
      sql_bind (sql_each (\<lambda>a. upsert_adapter_state ?i a v) (pr_adapters p)) (\<lambda>_.
      step_only (supersede_outbox ?i v))))))"
    by (intro leaves_intros upsert_build_leaves upsert_adapter_leaves leaves_step_only) (simp_all add: rows_keep_ledger)
  show ?thesis
    unfolding write_restored_state_def Let_def
    by (rule ends_bind [OF moves], rule ends_bind [OF ends_require_true], rule ends_mono [OF ends_leaves [OF tail]]) simp
qed

lemma ends_restore:
  "ends (restore_body r (restore_digest r) now) env (n, d)
     (\<lambda>v d'. v = op_result (OpRestore r) \<and> op_recorded (OpRestore r) d d')"
proof -
  let ?op = "OpRestore r"
  let ?i = "rcr_campaign r"
  have result: "op_result ?op = rcr_expected r + 1" by (simp add: op_result_def)
  have outbox: "leaves ledger (case encode_snapshot p of (e, payload) \<Rightarrow> sql_bind (sql_require (e = Store_None) e) (\<lambda>_.
      append_outbox ?i m v [\<lparr>oi_codec_version = kCampaignSnapshotCodecVersion, oi_payload = payload\<rparr>] t))" for p m v t
    by (intro leaves_intros append_outbox_leaves)
  show ?thesis
    unfolding restore_body_def Let_def
  proof (rule ends_bind [OF ends_load_projection], rule ends_bind [OF ends_require_true],
      rule ends_bind [OF ends_require_true], rule ends_bind [OF ends_load_checkpoint],
      rule ends_bind [OF ends_require_true], rule ends_bind [OF ends_read [OF read_snapshot_row_reads]],
      rule ends_bind [OF ends_require_true], rule ends_bind [OF ends_require_true], goal_cases)
    case (1 current n1 d1 u1 n2 d2 u2 n3 d3 ck n4 d4 u3 n5 d5 p n6 d6 u4 n7 d7 u5 n8 d8)
    then have start: "d8 = d" "op_current ?op d" "revision_of d ?i = Some (rcr_expected r)"
      by (auto simp: revision_of_def)
    show ?case
      unfolding start(1)
      apply (rule ends_bind [OF ends_write_restored [OF start(3)]])
      apply (rule ends_bind [OF ends_inject])
      apply (rule ends_bind [OF ends_close [where op = ?op, simplified op_campaign.simps op_mutation.simps
            op_expected.simps op_kind.simps op_digest.simps result, OF outbox _ start(2)]])
       apply simp
      apply (simp add: sql_wp result)
      done
  qed
qed

section \<open>What is returned early is a failure or a replay\<close>

definition fails_with :: "('e \<Rightarrow> bool) \<Rightarrow> ('e, 'a) sql \<Rightarrow> bool" where
  "fails_with E m \<longleftrightarrow> (\<forall>env s e s'. m env s = (Inl e, s') \<longrightarrow> E e)"

lemma fails_ret: "fails_with E (sql_ret x)"
  and fails_fail: "E e \<Longrightarrow> fails_with E (sql_fail e)"
  and fails_require: "(\<not> b \<Longrightarrow> E e) \<Longrightarrow> fails_with E (sql_require b e)"
  by (auto simp: fails_with_def sql_ret_def sql_fail_def sql_require_def split: if_splits)

lemma fails_query: "E Store_DatabaseFailure \<Longrightarrow> fails_with E (query q)"
  and fails_inject: "E Store_FaultInjected \<Longrightarrow> fails_with E (inject_fault stage)"
  by (auto simp: fails_with_def query_def inject_fault_def split: if_splits)

lemma fails_bind: "fails_with E m \<Longrightarrow> (\<And>x. fails_with E (k x)) \<Longrightarrow> fails_with E (sql_bind m k)"
  unfolding fails_with_def sql_bind_def by (fastforce split: sum.splits prod.splits)

lemma fails_error: "(\<And>e. D e \<Longrightarrow> E (f e)) \<Longrightarrow> fails_with D m \<Longrightarrow> fails_with E (with_error f m)"
  unfolding fails_with_def with_error_def by (fastforce split: sum.splits prod.splits)

lemma fails_any: "(\<And>e. E (f e)) \<Longrightarrow> fails_with E (with_error f m)"
  by (auto simp: fails_with_def with_error_def split: sum.splits prod.splits)

lemma fails_step: "E Store_DatabaseFailure \<Longrightarrow> fails_with E (step_done u)"
  unfolding step_done_def by (rule fails_any)

lemma fails_step_only: "E Store_DatabaseFailure \<Longrightarrow> fails_with E (step_only u)"
  unfolding step_only_def by (intro fails_bind fails_step fails_ret)

lemma fails_each: "(\<And>x. fails_with E (f x)) \<Longrightarrow> fails_with E (sql_each f xs)"
  by (induction xs) (simp_all add: fails_bind fails_ret)

lemma fails_if: "(b \<Longrightarrow> fails_with E m) \<Longrightarrow> (\<not> b \<Longrightarrow> fails_with E m') \<Longrightarrow> fails_with E (if b then m else m')"
  by simp

lemma fails_option: "fails_with E m \<Longrightarrow> (\<And>x. fails_with E (k x)) \<Longrightarrow> fails_with E (case v of None \<Rightarrow> m | Some x \<Rightarrow> k x)"
  by (cases v) auto

lemma fails_pair: "(\<And>a b. fails_with E (k a b)) \<Longrightarrow> fails_with E (case v of (a, b) \<Rightarrow> k a b)"
  by (cases v) auto

lemma fails_sum: "(\<And>a. fails_with E (f a)) \<Longrightarrow> (\<And>b. fails_with E (g b)) \<Longrightarrow> fails_with E (case v of Inl a \<Rightarrow> f a | Inr b \<Rightarrow> g b)"
  by (cases v) auto

abbreviation is_error :: "StoreError \<Rightarrow> bool" where
  "is_error e \<equiv> e \<noteq> Store_None"

definition not_applied :: "MutationResult \<Rightarrow> bool" where
  "not_applied r \<longleftrightarrow> (mut_error r \<noteq> Store_None \<or> mut_replay r) \<and> \<not> mut_applied r"

lemma not_applied_simps [simp]:
  "not_applied (mutation_failure e) \<longleftrightarrow> is_error e" "not_applied (mutation_replay v)"
  "\<not> not_applied (mutation_done v b)" "not_applied (replay_to_mutation_result x)"
  by (simp_all add: not_applied_def mutation_failure_def mutation_replay_def mutation_done_def
      replay_to_mutation_result_def)

lemma fails_or_fail: "fails_with is_error m \<Longrightarrow> fails_with not_applied (or_fail m)"
  unfolding or_fail_def by (rule fails_error [where D = is_error]) simp_all

lemmas fails_intros = fails_ret fails_fail fails_query fails_inject fails_require fails_bind fails_each fails_if
  fails_option fails_pair fails_sum fails_step fails_step_only

lemma fails_with_error_constant: "E (f StepIo) \<Longrightarrow> (\<And>v. E (f (StepViolation v))) \<Longrightarrow> fails_with E (with_error f (change u))"
  by (rule fails_any) (metis StepFailure.exhaust)

lemma insert_or_exists_fails: "fails_with is_error (insert_or_exists u)"
  unfolding insert_or_exists_def by (intro fails_bind fails_any fails_ret) auto

lemma move_revision_fails: "fails_with is_error (update_campaign_revision i e v now)"
  unfolding update_campaign_revision_def by (intro fails_intros) auto

lemma journal_fails: "fails_with is_error (append_journal i m e v k g w p now c cv)"
  unfolding append_journal_def by (intro fails_intros) auto

lemma outbox_fails: "fails_with is_error (append_outbox i m v os now)"
  unfolding append_outbox_def by (intro fails_intros) auto

lemma record_fails: "fails_with is_error j \<Longrightarrow> fails_with is_error b \<Longrightarrow> fails_with is_error (record_mutation j b)"
  unfolding record_mutation_def by (intro fails_intros) auto

lemma build_fails: "fails_with is_error (upsert_character_build i b v)"
  unfolding upsert_character_build_def verify_slot_binding_def by (intro fails_intros) auto

lemma adapter_fails: "fails_with is_error (upsert_adapter_state i a v)"
  unfolding upsert_adapter_state_def by (intro fails_intros) auto

lemma load_campaign_fails: "fails_with is_error (load_campaign i)"
  unfolding load_campaign_def by (intro fails_intros) auto

lemma load_projection_fails: "fails_with is_error (load_campaign_projection i a)"
  unfolding load_campaign_projection_def by (intro fails_intros load_campaign_fails) auto

lemma load_checkpoint_fails: "fails_with is_error (load_checkpoint i k)"
  unfolding load_checkpoint_def by (intro fails_intros) auto

lemma current_revision_fails: "fails_with is_error (read_current_revision i)"
  unfolding read_current_revision_def by (intro fails_intros) auto

lemma expect_revision_fails: "fails_with is_error (expect_revision c e b)"
  unfolding expect_revision_def by (intro fails_intros) auto

lemma check_seal_fails: "fails_with is_error (check_seal r)"
  unfolding check_seal_def by (intro fails_intros) auto

lemma write_current_fails: "fails_with is_error (write_current_state r v)"
  unfolding write_current_state_def Let_def replace_roster_rows_def insert_slot_def set_core_state_def set_sealed_def
  by (intro fails_intros build_fails adapter_fails) auto

lemma snapshot_row_fails: "fails_with is_error (read_snapshot_row i k)"
  unfolding read_snapshot_row_def by (rule fails_any) simp

lemma write_restored_fails: "fails_with is_error (write_restored_state r p v now)"
  unfolding write_restored_state_def Let_def by (intro fails_intros build_fails adapter_fails) auto

lemmas part_fails = insert_or_exists_fails move_revision_fails journal_fails outbox_fails record_fails build_fails
  adapter_fails load_campaign_fails load_projection_fails load_checkpoint_fails current_revision_fails
  expect_revision_fails check_seal_fails write_current_fails snapshot_row_fails write_restored_fails

lemma create_fails: "fails_with is_error (create_body r g now)"
  unfolding create_body_def Let_def insert_slot_def by (intro fails_intros part_fails fails_any) auto

lemma apply_fails: "fails_with is_error (apply_body r g now)"
  unfolding apply_body_def Let_def by (intro fails_intros part_fails) auto

lemma candidate_fails: "fails_with is_error (candidate_body r g now)"
  unfolding candidate_body_def Let_def by (intro fails_intros part_fails) auto

lemma restore_fails: "fails_with is_error (restore_body r g now)"
  unfolding restore_body_def Let_def by (intro fails_intros part_fails) auto

lemma slot_save_fails: "fails_with not_applied (slot_save_body r g now)"
  unfolding slot_save_body_def Let_def by (intro fails_intros part_fails fails_or_fail) simp_all

lemma committed_again_fails:
  "fails_with not_applied (\<lambda>env s. case load_campaign i env s of
     (Inr c, s') \<Rightarrow> if cr_checkpoint c = Some k then (Inl (mutation_replay (f c)), s')
                    else (Inl (mutation_failure Store_IdempotencyConflict), s')
   | (Inl e, s') \<Rightarrow> (Inl (mutation_failure Store_IdempotencyConflict), s'))"
  by (auto simp: fails_with_def split: sum.splits prod.splits if_splits)

lemma commit_fails: "fails_with not_applied (commit_body r g now)"
  unfolding commit_body_def Let_def
  by (intro fails_bind fails_if committed_again_fails fails_or_fail) (intro fails_intros part_fails; auto)+

section \<open>Every mutation is one step of the history\<close>

lemma answer_replay_fails: "fails_with not_applied (answer_replay i m g)"
  unfolding answer_replay_def check_replay_def by (intro fails_intros fails_or_fail) simp_all

lemma fails_with_applied: "fails_with is_error m \<Longrightarrow> fails_with not_applied (sql_bind (or_fail m) (\<lambda>x. sql_ret (f x)))"
  by (intro fails_bind fails_ret fails_or_fail)

lemma run_mutation_effect:
  assumes "fails_with not_applied body" "\<And>n. ends body env (n, d) (\<lambda>r d'. r = answer \<and> P d')"
    "run_mutation i m g body env d = (r, d')"
  shows "(not_applied r \<and> d' = d) \<or> (r = answer \<and> P d')"
proof -
  let ?all = "sql_bind (answer_replay i m g) (\<lambda>_. body)"
  have "reads (answer_replay i m g)"
    unfolding answer_replay_def check_replay_def by (intro leaves_intros)
  then have good: "ends ?all env (1, d) (\<lambda>r d'. r = answer \<and> P d')"
    using assms(2) by (intro ends_bind [OF ends_read]) auto
  have bad: "fails_with not_applied ?all"
    by (intro fails_bind answer_replay_fails assms(1))
  have "transaction ?all mutation_failure env d = (r, d')"
    using assms(3) by (simp add: run_mutation_def)
  moreover have "not_applied x" if "?all env (1, d) = (Inl x, s)" for x s
    using bad that unfolding fails_with_def by blast
  ultimately show ?thesis
    using good by (auto simp: transaction_def sql_holds_def split: if_splits sum.splits prod.splits)
qed

lemma run_body_effect:
  assumes "fails_with not_applied b" "\<And>n. ends b env (n, d) (\<lambda>v d'. v = revision \<and> P d')"
    "run_mutation i m g (sql_bind b (\<lambda>v. sql_ret (mutation_done v a))) env d = (r, d')"
  shows "(not_applied r \<and> d' = d) \<or> (r = mutation_done revision a \<and> P d')"
proof (rule run_mutation_effect [OF _ _ assms(3)])
  show "fails_with not_applied (sql_bind b (\<lambda>v. sql_ret (mutation_done v a)))"
    by (intro fails_bind fails_ret assms(1))
  show "ends (sql_bind b (\<lambda>v. sql_ret (mutation_done v a))) env (n, d)
      (\<lambda>r d'. r = mutation_done revision a \<and> P d')" for n
    by (rule ends_bind [OF assms(2)]) (simp add: sql_wp)
qed

text \<open>
  Whatever statement fails and whatever fault is injected, an operation either answers a failure or
  a replay and leaves every table as it was, or answers \<open>applied\<close> and has recorded itself.
\<close>

lemma store_mutate_effect:
  assumes "store_mutate op env d = (r, d')"
  shows "(not_applied r \<and> d' = d) \<or> (r = mutation_done (op_result op) (op_advances op) \<and> op_recorded op d d')"
proof (cases op)
  case (OpCreate q)
  let ?e = "validate_create q"
  let ?body = "and_return (create_body q (op_digest op) (env_now env)) (mutation_done 1 True)"
  have good: "ends ?body env (n, d) (\<lambda>r d'. r = mutation_done (op_result op) (op_advances op) \<and> op_recorded op d d')" for n
    unfolding and_return_def OpCreate
    by (rule ends_bind [OF ends_create [THEN ends_or_fail [THEN iffD2]]]) (simp add: sql_wp op_result_def)
  have bad: "fails_with not_applied ?body"
    unfolding and_return_def by (intro fails_with_applied create_fails)
  show ?thesis
  proof (cases "?e = Store_None \<and> fst (encode_snapshot (create_projection q)) = Store_None")
    case True
    then have "run_mutation (op_campaign op) (op_mutation op) (op_digest op) ?body env d = (r, d')"
      using assms by (simp add: OpCreate create_campaign_def Let_def split: prod.splits)
    then show ?thesis by (rule run_mutation_effect [OF bad good])
  next
    case False
    then show ?thesis using assms by (auto simp: OpCreate create_campaign_def Let_def split: prod.splits if_splits)
  qed
next
  case (OpApply q)
  show ?thesis
    using assms run_body_effect [OF fails_or_fail [OF apply_fails] ends_apply [THEN ends_or_fail [THEN iffD2]]]
    by (auto simp: OpApply apply_campaign_mutation_def Let_def split: if_splits)
next
  case (OpCandidate q)
  show ?thesis
    using assms run_body_effect [OF fails_or_fail [OF candidate_fails] ends_candidate [THEN ends_or_fail [THEN iffD2]]]
    by (auto simp: OpCandidate create_checkpoint_candidate_def Let_def split: if_splits)
next
  case (OpSlotSave q)
  show ?thesis
    using assms run_body_effect [OF slot_save_fails ends_slot_save]
    by (auto simp: OpSlotSave record_checkpoint_slot_save_def Let_def split: if_splits)
next
  case (OpCommit q)
  show ?thesis
    using assms run_body_effect [OF commit_fails ends_commit]
    by (auto simp: OpCommit commit_checkpoint_def Let_def split: if_splits)
next
  case (OpRestore q)
  show ?thesis
    using assms run_body_effect [OF fails_or_fail [OF restore_fails] ends_restore [THEN ends_or_fail [THEN iffD2]]]
    by (auto simp: OpRestore restore_checkpoint_snapshot_def Let_def split: if_splits)
qed

end
