(* ===== verification/StoreLedger.thy ===== *)
theory StoreLedger
  imports StoreHistory
begin

text \<open>
  The store driven by any sequence of calls, with any failing statements and injected faults: the
  journal explains the revision of every campaign, and a mutation that has been applied is answered
  from the journal ever after.
\<close>

datatype StoreCall = CallMutate StoreOp StoreEnv | CallDeliver u64 StoreEnv

datatype StoreReply = Mutated MutationResult | Delivered StoreError

fun store_call :: "Database \<Rightarrow> StoreCall \<Rightarrow> Database \<times> StoreReply" where
  "store_call d (CallMutate op env) = (case store_mutate op env d of (r, d') \<Rightarrow> (d', Mutated r))"
| "store_call d (CallDeliver i env) = (case mark_outbox_delivered i env d of (e, d') \<Rightarrow> (d', Delivered e))"

definition store_run :: "StoreCall list \<Rightarrow> Database" where
  "store_run calls = run_ops store_call empty_database calls"

section \<open>Delivery\<close>

definition deliver_outbox :: "u64 \<Rightarrow> u64 \<Rightarrow> OutboxRow list \<Rightarrow> OutboxRow list" where
  "deliver_outbox i now = map (\<lambda>o'. if ob_id o' = unat i \<and> ob_state o' = OutboxPending
     then o'\<lparr>ob_state := OutboxDelivered, ob_delivered := Some now\<rparr> else o')"

lemma deliver_effect:
  assumes "mark_outbox_delivered i env d = (e, d')"
  shows "d' = d \<or> (e = Store_None \<and> d' = d\<lparr>t_outbox := deliver_outbox i (env_now env) (t_outbox d)\<rparr>)"
  using assms
  by (auto simp: mark_outbox_delivered_def transaction_def sql_bind_def step_done_def with_error_def change_def
      deliver_row_def Let_def deliver_outbox_def query_def sql_fail_def sql_ret_def
      split: if_splits option.splits sum.splits prod.splits)

section \<open>The journal explains the revisions\<close>

text \<open>The rows of a campaign lead from its creation to the revision, each from where the last one ended.\<close>

fun explains :: "u64 option \<Rightarrow> JournalRow list \<Rightarrow> u64 option \<Rightarrow> bool" where
  "explains r [] v \<longleftrightarrow> r = v"
| "explains r (j # js) v \<longleftrightarrow>
     (case r of None \<Rightarrow> jr_expected j = 0 \<and> jr_resulting j = 1
      | Some x \<Rightarrow> jr_expected j = x \<and> (jr_resulting j = x \<or> jr_resulting j = x + 1)) \<and>
     jr_resulting j \<noteq> 0 \<and> jr_resulting j \<le> kMaximumRevision \<and> explains (Some (jr_resulting j)) js v"

definition rows_of :: "string \<Rightarrow> Database \<Rightarrow> JournalRow list" where
  "rows_of i d = filter (\<lambda>j. jr_campaign j = i) (t_journal d)"

definition ledger_wf :: "Database \<Rightarrow> bool" where
  "ledger_wf d \<longleftrightarrow> (\<forall>i. explains None (rows_of i d) (revision_of d i)) \<and>
     last_sequence d = length (t_journal d) \<and>
     map jr_sequence (t_journal d) = [1 ..< Suc (length (t_journal d))] \<and>
     distinct (map (\<lambda>j. (jr_campaign j, jr_mutation j)) (t_journal d))"

lemma explains_snoc:
  "explains r js v \<Longrightarrow> explains v [j] w \<Longrightarrow> explains r (js @ [j]) w"
  by (induction r js v rule: explains.induct) auto

lemma ledger_wf_empty: "ledger_wf empty_database"
  by (simp add: ledger_wf_def empty_database_def rows_of_def revision_of_def find_campaign_def)

lemma ledger_wf_same: "ledger d' = ledger d \<Longrightarrow> ledger_wf d \<Longrightarrow> ledger_wf d'"
  by (simp add: ledger_wf_def ledger_def rows_of_def)

lemma find_journaled_None: "find_journaled i m d = None \<longleftrightarrow> (i, m) \<notin> (\<lambda>j. (jr_campaign j, jr_mutation j)) ` set (t_journal d)"
  by (auto simp: find_journaled_def find_None_iff)

lemma current_explains: "op_current op d \<Longrightarrow> journals op j \<Longrightarrow> explains (revision_of d (op_campaign op)) [j] (Some (op_result op))"
  by (cases op) (auto simp: journals_def row_is_def op_result_def)

lemma ledger_wf_recorded:
  assumes "ledger_wf d" "op_recorded op d d'"
  shows "ledger_wf d'"
proof -
  obtain j where j: "journals op j" "jr_sequence j = Suc (last_sequence d)"
      "t_journal d' = t_journal d @ [j]" "last_sequence d' = Suc (last_sequence d)"
      "revision_of d' = (revision_of d)(op_campaign op \<mapsto> op_result op)"
    and new: "find_journaled (op_campaign op) (op_mutation op) d = None" and current: "op_current op d"
    using assms(2) by (auto simp: op_recorded_def ledger_def)
  have key: "jr_campaign j = op_campaign op" "jr_mutation j = op_mutation op"
    using j(1) by (auto simp: journals_def row_is_def)
  have "explains None (rows_of i d') (revision_of d' i)" for i
  proof (cases "i = op_campaign op")
    case True
    have "explains None (rows_of i d) (revision_of d i)" using assms(1) by (simp add: ledger_wf_def)
    then show ?thesis
      using explains_snoc [OF _ current_explains [OF current j(1)]] True by (simp add: rows_of_def j key)
  next
    case False
    then show ?thesis using assms(1) by (simp add: ledger_wf_def rows_of_def j key)
  qed
  then show ?thesis
    using assms(1) new by (simp add: ledger_wf_def j key find_journaled_None)
qed

lemma ledger_wf_call: "ledger_wf d \<Longrightarrow> ledger_wf (fst (store_call d c))"
proof (cases c)
  case (CallMutate op env)
  obtain r d' where run: "store_mutate op env d = (r, d')" by (cases "store_mutate op env d")
  assume "ledger_wf d"
  then show ?thesis using store_mutate_effect [OF run] ledger_wf_recorded by (auto simp: CallMutate run)
next
  case (CallDeliver i env)
  obtain e d' where run: "mark_outbox_delivered i env d = (e, d')" by (cases "mark_outbox_delivered i env d")
  assume "ledger_wf d"
  then show ?thesis
    using deliver_effect [OF run] ledger_wf_same [of d' d] by (auto simp: CallDeliver run ledger_untouched)
qed

interpretation store_ledger: op_machine store_call ledger_wf
  by unfold_locales (rule ledger_wf_call)

section \<open>The journal only grows\<close>

definition journal_extends :: "Database \<Rightarrow> Database \<Rightarrow> bool" where
  "journal_extends d d' \<longleftrightarrow> (\<exists>js. t_journal d' = t_journal d @ js)"

lemma call_extends: "journal_extends d (fst (store_call d c))"
proof (cases c)
  case (CallMutate op env)
  obtain r d' where run: "store_mutate op env d = (r, d')" by (cases "store_mutate op env d")
  then show ?thesis using store_mutate_effect [OF run]
    by (auto simp: CallMutate journal_extends_def op_recorded_def ledger_def)
next
  case (CallDeliver i env)
  obtain e d' where run: "mark_outbox_delivered i env d = (e, d')" by (cases "mark_outbox_delivered i env d")
  then show ?thesis using deliver_effect [OF run] by (auto simp: CallDeliver journal_extends_def)
qed

lemma run_extends: "journal_extends d (run_ops store_call d calls)"
proof (induction calls arbitrary: d)
  case Nil
  then show ?case by (simp add: journal_extends_def)
next
  case (Cons c cs)
  have "journal_extends a c" if "journal_extends a b" "journal_extends b c" for a b c
    using that unfolding journal_extends_def by (metis append_assoc)
  then show ?case using call_extends [of d c] Cons.IH [of "fst (store_call d c)"] by simp
qed

lemma find_append_Some: "find P xs = Some x \<Longrightarrow> find P (xs @ ys) = Some x"
  by (induction xs) (auto split: if_splits)

lemma find_journaled_extends:
  "journal_extends d d' \<Longrightarrow> find_journaled i m d = Some j \<Longrightarrow> find_journaled i m d' = Some j"
  by (auto simp: journal_extends_def find_journaled_def find_append_Some)

section \<open>Replays\<close>

text \<open>The error of an operation before it begins its transaction.\<close>

fun op_rejection :: "StoreOp \<Rightarrow> StoreError" where
  "op_rejection (OpCreate r) =
     (if validate_create r \<noteq> Store_None then validate_create r else fst (encode_snapshot (create_projection r)))"
| "op_rejection (OpApply r) = first_error [validate_mutation r, fst (mutation_digest_payload r)]"
| "op_rejection (OpCandidate r) = validate_candidate r"
| "op_rejection (OpSlotSave r) = validate_slot_save r"
| "op_rejection (OpCommit r) = validate_commit r"
| "op_rejection (OpRestore r) = validate_restore r"

lemma op_rejected: "op_rejection op \<noteq> Store_None \<Longrightarrow> store_mutate op env d = (mutation_failure (op_rejection op), d)"
  by (cases op) (auto simp: create_campaign_def apply_campaign_mutation_def create_checkpoint_candidate_def
      record_checkpoint_slot_save_def commit_checkpoint_def restore_checkpoint_snapshot_def Let_def
      split: prod.splits if_splits)

lemma op_accepted:
  assumes "op_rejection op = Store_None"
  shows "\<exists>body. store_mutate op env d = run_mutation (op_campaign op) (op_mutation op) (op_digest op) body env d"
  using assms
  by (cases op) (auto simp: create_campaign_def apply_campaign_mutation_def create_checkpoint_candidate_def
      record_checkpoint_slot_save_def commit_checkpoint_def restore_checkpoint_snapshot_def Let_def case_prod_beta
      split: if_splits)

lemma run_mutation_replay:
  assumes "find_journaled i m d = Some j" "\<not> env_io env 0" "\<not> env_io env 1"
  shows "run_mutation i m g body env d =
    (if jr_digest j = g then mutation_replay (jr_resulting j) else mutation_failure Store_IdempotencyConflict, d)"
  using assms
  by (simp add: run_mutation_def transaction_def sql_bind_def answer_replay_def check_replay_def or_fail_def
      with_error_def query_def sql_fail_def replay_to_mutation_result_def)

section \<open>A campaign for the witnesses\<close>

definition example_env :: StoreEnv where
  "example_env = \<lparr>env_now = 1000, env_fault = (\<lambda>stage. False), env_io = (\<lambda>n. False)\<rparr>"

definition example_record :: CampaignRecord where
  "example_record = \<lparr>cr_id = ''c'', cr_schema_version = 2, cr_revision = 0, cr_sealed = True, cr_checkpoint = None,
     cr_codec_version = 1, cr_payload = [7], cr_created = 0, cr_updated = 0\<rparr>"

definition example_member :: CampaignSlotRecord where
  "example_member = \<lparr>rec_slot = ''s'', rec_player = ''p'', rec_binding = ''b''\<rparr>"

definition example_create :: CreateCampaignRequest where
  "example_create = \<lparr>ccr_campaign = example_record, ccr_slots = [example_member], ccr_builds = [],
     ccr_adapters = [], ccr_mutation = ''m1'', ccr_codec_version = 1, ccr_payload = [1], ccr_outbox = []\<rparr>"

definition example_created :: Database where
  "example_created = empty_database\<lparr>
     t_campaigns := [example_record\<lparr>cr_revision := 1, cr_created := 1000, cr_updated := 1000\<rparr>],
     t_slots := [(''c'', example_member)],
     t_journal := [\<lparr>jr_sequence = 1, jr_campaign = ''c'', jr_mutation = ''m1'', jr_expected = 0, jr_resulting = 1,
       jr_kind = ''CreateCampaign'', jr_digest = op_digest (OpCreate example_create), jr_codec_version = 1,
       jr_payload = [1], jr_restored_checkpoint = None, jr_restored_revision = None, jr_created = 1000\<rparr>],
     last_sequence := 1\<rparr>"

lemmas validation_defs = is_valid_identifier_def kMaximumIdLength_def less_eq_char_def is_valid_payload_def
  kMaximumPayloadSize_def validate_outbox_def validate_slot_records_def validate_common_mutation_def
  kMaximumRevision_def kMaximumKindLength_def kCampaignDatabaseSchemaVersion_def reject_if_def
  kMaximumAdapterIdLength_def validate_adapter_state_def validate_character_build_def

lemmas sql_defs = run_mutation_def transaction_def sql_bind_def answer_replay_def check_replay_def or_fail_def
  with_error_def query_def sql_fail_def sql_ret_def change_def step_done_def step_only_def inject_fault_def
  sql_require_def and_return_def record_mutation_def

lemmas statement_defs = find_campaign_def find_journaled_def insert_slot_def insert_slot_row_def append_journal_def
  insert_journal_def append_outbox_def kMaximumRevision_def insert_campaign_def kCampaignDatabaseSchemaVersion_def

lemma example_create_valid: "validate_create example_create = Store_None"
  by (simp add: validate_create_def validation_defs example_create_def example_record_def example_member_def)

lemma example_create_encodes: "fst (encode_snapshot (create_projection example_create)) = Store_None"
  by (simp add: write_defs snapshot_defs example_create_def create_projection_def example_record_def example_member_def)

lemma example_create_runs:
  "create_campaign example_create example_env empty_database = (mutation_done 1 True, example_created)"
  by (simp add: create_campaign_def example_create_valid case_prod_beta example_create_encodes)
    (simp add: sql_defs create_body_def statement_defs Let_def example_create_def example_record_def example_env_def
      empty_database_def example_created_def)

section \<open>Properties\<close>

text \<open>
  C24: A mutation is applied once. After an operation has been carried out, and after any further calls
  of the store by anybody, an operation under the same mutation identity in the same campaign
  changes nothing: if it is the same command, by its digest, it is answered as a replay with the
  revision that the first one led to, and otherwise with an idempotency conflict.
\<close>

theorem store_applies_a_mutation_once:
  assumes "store_mutate op env d = (r, d')" "mut_error r = Store_None" "\<not> mut_replay r"
    and "op_campaign op' = op_campaign op" "op_mutation op' = op_mutation op" "op_rejection op' = Store_None"
    and "\<not> env_io env' 0" "\<not> env_io env' 1"
  shows "store_mutate op' env' (run_ops store_call d' calls) =
    (if op_digest op' = op_digest op then mutation_replay (op_result op)
     else mutation_failure Store_IdempotencyConflict, run_ops store_call d' calls)"
proof -
  obtain j where j: "journals op j" "t_journal d' = t_journal d @ [j]"
      and new: "find_journaled (op_campaign op) (op_mutation op) d = None"
    using store_mutate_effect [OF assms(1)] assms(2,3) by (auto simp: not_applied_def op_recorded_def ledger_def)
  have "find_journaled (op_campaign op) (op_mutation op) d' = Some j"
    using new j by (simp add: find_journaled_def find_snoc journals_def row_is_def)
  then have "find_journaled (op_campaign op) (op_mutation op) (run_ops store_call d' calls) = Some j"
    by (rule find_journaled_extends [OF run_extends])
  moreover have "jr_digest j = op_digest op" "jr_resulting j = op_result op"
    using j(1) by (auto simp: journals_def row_is_def)
  ultimately show ?thesis
    using op_accepted [OF assms(6), of env' "run_ops store_call d' calls"] assms(4,5,7,8)
    by (auto simp: run_mutation_replay)
qed

theorem store_applies_a_mutation_once_witness:
  "store_mutate (OpCreate example_create) example_env
     (run_ops store_call example_created [CallDeliver 1 example_env, CallMutate (OpCreate example_create) example_env]) =
   (mutation_replay 1,
     run_ops store_call example_created [CallDeliver 1 example_env, CallMutate (OpCreate example_create) example_env])"
  using store_applies_a_mutation_once [of "OpCreate example_create" example_env empty_database "mutation_done 1 True"
      example_created "OpCreate example_create" example_env
      "[CallDeliver 1 example_env, CallMutate (OpCreate example_create) example_env]"]
    example_create_runs example_create_valid example_create_encodes
  by (simp add: mutation_done_def example_env_def op_result_def)

text \<open>
  C27: The journal is the history of the campaigns. After any sequence of calls, with any failures and
  faults among them, the journal rows of every campaign lead from its creation to its current
  revision without a gap, no mutation is in the journal twice, and the rows are numbered
  consecutively from one.
\<close>

theorem store_journal_explains_revisions:
  "explains None (rows_of i (store_run calls)) (revision_of (store_run calls) i) \<and>
   distinct (map (\<lambda>j. (jr_campaign j, jr_mutation j)) (t_journal (store_run calls))) \<and>
   map jr_sequence (t_journal (store_run calls)) = [1 ..< Suc (length (t_journal (store_run calls)))]"
  using store_ledger.run_wf [OF ledger_wf_empty, of calls] by (simp add: store_run_def ledger_wf_def)

end
