(* ===== verification/StoreWrites.thy ===== *)
theory StoreWrites
  imports StoreLedger
begin

text \<open>
  What a mutation of the store writes, as one function from the tables before to the tables after:
  the writes of the operation one after the other, without the statements that can fail and the checks
  that can stop it. An operation that is carried out leaves exactly these tables, and one that is not
  leaves the tables it found.
\<close>

section \<open>Single writes\<close>

definition append_slot :: "string \<Rightarrow> CampaignSlotRecord \<Rightarrow> Database \<Rightarrow> Database" where
  "append_slot i s d = d\<lparr>t_slots := t_slots d @ [(i, s)]\<rparr>"

definition put_build :: "string \<Rightarrow> u64 \<Rightarrow> CharacterBuildState \<Rightarrow> Database \<Rightarrow> Database" where
  "put_build i v b d = d\<lparr>t_builds := upsert (build_key i (cb_slot b))
     (build_row i b (snd (encode_character_build b)) v) (t_builds d)\<rparr>"

definition put_adapter :: "string \<Rightarrow> u64 \<Rightarrow> AdapterState \<Rightarrow> Database \<Rightarrow> Database" where
  "put_adapter i v a d = d\<lparr>t_adapters := upsert (\<lambda>(k, r). k = i \<and> ad_id r = ad_id a)
     (i, a\<lparr>ad_revision := v\<rparr>) (t_adapters d)\<rparr>"

definition drop_build :: "string \<Rightarrow> string \<Rightarrow> Database \<Rightarrow> Database" where
  "drop_build i slot d = d\<lparr>t_builds := filter (\<lambda>b. \<not> (br_campaign b = i \<and> br_slot b = slot)) (t_builds d)\<rparr>"

definition drop_adapter :: "string \<Rightarrow> string \<Rightarrow> Database \<Rightarrow> Database" where
  "drop_adapter i adapter d = d\<lparr>t_adapters := filter (\<lambda>(k, a). \<not> (k = i \<and> ad_id a = adapter)) (t_adapters d)\<rparr>"

definition drop_builds :: "string \<Rightarrow> Database \<Rightarrow> Database" where
  "drop_builds i d = d\<lparr>t_builds := filter (\<lambda>b. br_campaign b \<noteq> i) (t_builds d)\<rparr>"

definition drop_adapters :: "string \<Rightarrow> Database \<Rightarrow> Database" where
  "drop_adapters i d = d\<lparr>t_adapters := filter (\<lambda>(k, a). k \<noteq> i) (t_adapters d)\<rparr>"

definition drop_slots :: "string \<Rightarrow> Database \<Rightarrow> Database" where
  "drop_slots i d = d\<lparr>t_slots := filter (\<lambda>(k, s). k \<noteq> i) (t_slots d)\<rparr>"

definition set_campaign :: "string \<Rightarrow> (CampaignRecord \<Rightarrow> bool) \<Rightarrow> (CampaignRecord \<Rightarrow> CampaignRecord) \<Rightarrow> Database \<Rightarrow> Database" where
  "set_campaign i guard f d = d\<lparr>t_campaigns := map (\<lambda>c. if cr_id c = i \<and> guard c then f c else c) (t_campaigns d)\<rparr>"

text \<open>The revision moves from the one that was expected to the next one.\<close>

definition set_revision :: "string \<Rightarrow> u64 \<Rightarrow> u64 \<Rightarrow> Database \<Rightarrow> Database" where
  "set_revision i expected now = set_campaign i (\<lambda>c. cr_revision c = expected)
     (\<lambda>c. c\<lparr>cr_revision := expected + 1, cr_updated := now\<rparr>)"

text \<open>The journal row of an operation, and its messages in the order of the request.\<close>

definition add_journal ::
  "StoreOp \<Rightarrow> u32 \<Rightarrow> Bytes \<Rightarrow> u64 \<Rightarrow> string option \<Rightarrow> u64 option \<Rightarrow> Database \<Rightarrow> Database" where
  "add_journal op version payload now checkpoint restored d =
     d\<lparr>t_journal := t_journal d @ [\<lparr>jr_sequence = Suc (last_sequence d), jr_campaign = op_campaign op,
         jr_mutation = op_mutation op, jr_expected = op_expected op, jr_resulting = op_result op,
         jr_kind = op_kind op, jr_digest = op_digest op, jr_codec_version = version, jr_payload = payload,
         jr_restored_checkpoint = checkpoint, jr_restored_revision = restored, jr_created = now\<rparr>],
       last_sequence := Suc (last_sequence d)\<rparr>"

fun message_rows :: "StoreOp \<Rightarrow> u64 \<Rightarrow> nat \<Rightarrow> nat \<Rightarrow> OutboxIntent list \<Rightarrow> OutboxRow list" where
  "message_rows op now k n [] = []"
| "message_rows op now k n (x # xs) =
     \<lparr>ob_id = Suc n, ob_campaign = op_campaign op, ob_mutation = op_mutation op, ob_index = k,
      ob_revision = op_result op, ob_codec_version = oi_codec_version x, ob_payload = oi_payload x,
      ob_state = OutboxPending, ob_superseded_by = None, ob_created = now, ob_delivered = None\<rparr>
     # message_rows op now (Suc k) (Suc n) xs"

definition add_messages :: "StoreOp \<Rightarrow> u64 \<Rightarrow> OutboxIntent list \<Rightarrow> Database \<Rightarrow> Database" where
  "add_messages op now xs d = d\<lparr>t_outbox := t_outbox d @ message_rows op now 0 (last_outbox d) xs,
     last_outbox := last_outbox d + length xs\<rparr>"

section \<open>All writes of an operation\<close>

text \<open>The campaign as its rows say, and as the snapshot of a checkpoint says.\<close>

definition stored_projection :: "string \<Rightarrow> Database \<Rightarrow> CampaignProjection" where
  "stored_projection i d = \<lparr>pr_campaign = the (find_campaign i d), pr_slots = sort_key rec_slot (slots_of i d),
     pr_builds = map (the \<circ> read_build_row) (sort_key br_slot (builds_of i d)),
     pr_adapters = sort_key ad_id (adapters_of i d)\<rparr>"

definition checkpoint_projection :: "string \<Rightarrow> string \<Rightarrow> Database \<Rightarrow> CampaignProjection" where
  "checkpoint_projection i k d = projr (decode_snapshot (sn_payload (snd (the (find_checkpoint i k d)))))"

definition write_create :: "CreateCampaignRequest \<Rightarrow> u64 \<Rightarrow> Database \<Rightarrow> Database" where
  "write_create r now d =
     (let c = ccr_campaign r; i = cr_id c;
          d = d\<lparr>t_campaigns := t_campaigns d @ [c\<lparr>cr_schema_version := kCampaignDatabaseSchemaVersion, cr_revision := 1,
            cr_checkpoint := None, cr_created := if cr_created c \<noteq> 0 then cr_created c else now, cr_updated := now\<rparr>]\<rparr>;
          d = fold (append_slot i) (ccr_slots r) d;
          d = fold (put_build i 1) (ccr_builds r) d;
          d = fold (put_adapter i 1) (ccr_adapters r) d;
          d = add_journal (OpCreate r) (ccr_codec_version r) (ccr_payload r) now None None d in
      add_messages (OpCreate r) now (ccr_outbox r) d)"

definition write_roster :: "string \<Rightarrow> CampaignSlotRecord list option \<Rightarrow> Database \<Rightarrow> Database" where
  "write_roster i roster d =
     (case roster of None \<Rightarrow> d | Some ss \<Rightarrow> fold (append_slot i) ss (drop_slots i (drop_builds i d)))"

definition write_core :: "string \<Rightarrow> u32 option \<Rightarrow> Bytes option \<Rightarrow> Database \<Rightarrow> Database" where
  "write_core i version payload d =
     (case payload of None \<Rightarrow> d
      | Some p \<Rightarrow> set_campaign i (\<lambda>c. True) (\<lambda>c. c\<lparr>cr_codec_version := the version, cr_payload := p\<rparr>) d)"

definition write_seal :: "string \<Rightarrow> bool option \<Rightarrow> Database \<Rightarrow> Database" where
  "write_seal i flag d =
     (case flag of None \<Rightarrow> d | Some b \<Rightarrow> set_campaign i (\<lambda>c. True) (\<lambda>c. c\<lparr>cr_sealed := b\<rparr>) d)"

definition write_apply :: "CampaignMutationRequest \<Rightarrow> u64 \<Rightarrow> Database \<Rightarrow> Database" where
  "write_apply r now d =
     (let i = amr_campaign r; v = op_result (OpApply r);
          d = write_roster i (amr_roster r) d;
          d = fold (drop_build i) (amr_build_deletes r) d;
          d = fold (drop_adapter i) (amr_adapter_deletes r) d;
          d = write_core i (amr_core_version r) (amr_core_payload r) d;
          d = write_seal i (amr_sealed r) d;
          d = fold (put_build i v) (amr_build_upserts r) d;
          d = fold (put_adapter i v) (amr_adapter_upserts r) d;
          d = (if amr_advances r then set_revision i (amr_expected r) now d else d);
          d = add_journal (OpApply r) (amr_codec_version r) (amr_payload r) now None None d in
      add_messages (OpApply r) now (amr_outbox r) d)"

text \<open>The row of a slot in a new checkpoint has no artifact yet.\<close>

definition add_checkpoint_slot :: "string \<Rightarrow> string \<Rightarrow> CampaignSlotRecord \<Rightarrow> Database \<Rightarrow> Database" where
  "add_checkpoint_slot k i s d = d\<lparr>t_checkpoint_slots := t_checkpoint_slots d @
     [((k, i), \<lparr>cs_slot = rec_slot s, cs_player = rec_player s, cs_binding = rec_binding s, cs_native_save = None,
       cs_algorithm = None, cs_fingerprint_version = None, cs_fingerprint = [], cs_metadata_version = None,
       cs_metadata = []\<rparr>)]\<rparr>"

definition write_candidate :: "CreateCandidateRequest \<Rightarrow> u64 \<Rightarrow> Database \<Rightarrow> Database" where
  "write_candidate r now d =
     (let i = ckr_campaign r; p = stored_projection i d;
          payload = snd (encode_snapshot (p\<lparr>pr_campaign := (pr_campaign p)\<lparr>cr_payload := ckr_core_payload r\<rparr>\<rparr>));
          d = d\<lparr>t_snapshots := t_snapshots d @ [\<lparr>sn_id = ckr_snapshot r, sn_campaign = i,
              sn_source_revision = ckr_expected r, sn_codec_version = kCampaignSnapshotCodecVersion,
              sn_payload = payload, sn_checksum = checksum payload, sn_created = now\<rparr>],
            t_checkpoints := t_checkpoints d @ [\<lparr>cp_id = ckr_checkpoint r, cp_campaign = i, cp_is_committed = False,
              cp_source_revision = ckr_expected r, cp_snapshot = ckr_snapshot r,
              cp_created_revision = ckr_expected r + 1, cp_committed_revision = None, cp_created = now,
              cp_committed = None\<rparr>]\<rparr>;
          d = fold (add_checkpoint_slot (ckr_checkpoint r) i) (pr_slots p) d;
          d = set_revision i (ckr_expected r) now d;
          d = add_journal (OpCandidate r) (ckr_codec_version r) (ckr_payload r) now None None d in
      add_messages (OpCandidate r) now (ckr_outbox r) d)"

definition write_slot_save :: "RecordSlotSaveRequest \<Rightarrow> u64 \<Rightarrow> Database \<Rightarrow> Database" where
  "write_slot_save r now d =
     (let i = rsr_campaign r; t = rsr_slot r;
          d = d\<lparr>t_checkpoint_slots := map (\<lambda>(k, s). if k = (rsr_checkpoint r, i) \<and> cs_slot s = cs_slot t
              then (k, s\<lparr>cs_native_save := cs_native_save t, cs_algorithm := cs_algorithm t,
                cs_fingerprint_version := cs_fingerprint_version t, cs_fingerprint := cs_fingerprint t,
                cs_metadata_version := cs_metadata_version t, cs_metadata := cs_metadata t\<rparr>)
              else (k, s)) (t_checkpoint_slots d)\<rparr>;
          d = set_revision i (rsr_expected r) now d;
          d = add_journal (OpSlotSave r) (rsr_codec_version r) (rsr_payload r) now None None d in
      add_messages (OpSlotSave r) now (rsr_outbox r) d)"

definition write_commit :: "CommitCheckpointRequest \<Rightarrow> u64 \<Rightarrow> Database \<Rightarrow> Database" where
  "write_commit r now d =
     (let i = cmr_campaign r; k = cmr_checkpoint r; v = cmr_expected r + 1;
          d = d\<lparr>t_checkpoints := map (\<lambda>c. if cp_campaign c = i \<and> cp_id c = k \<and> \<not> cp_is_committed c
              then c\<lparr>cp_is_committed := True, cp_committed_revision := Some v, cp_committed := Some now\<rparr>
              else c) (t_checkpoints d)\<rparr>;
          d = set_campaign i (\<lambda>c. cr_revision c = cmr_expected r)
            (\<lambda>c. c\<lparr>cr_checkpoint := Some k, cr_revision := v, cr_updated := now\<rparr>) d;
          d = add_journal (OpCommit r) (cmr_codec_version r) (cmr_payload r) now None None d in
      add_messages (OpCommit r) now (cmr_outbox r) d)"

text \<open>
  A restore replaces builds and adapter states by those of the snapshot, supersedes the messages that
  are pending from before, and sends the restored state.
\<close>

definition supersede_messages :: "string \<Rightarrow> u64 \<Rightarrow> Database \<Rightarrow> Database" where
  "supersede_messages i v d = d\<lparr>t_outbox := map (\<lambda>m.
     if ob_campaign m = i \<and> ob_state m = OutboxPending \<and> ob_revision m < v
     then m\<lparr>ob_state := OutboxSuperseded, ob_superseded_by := Some v\<rparr> else m) (t_outbox d)\<rparr>"

definition write_restore :: "RestoreCheckpointRequest \<Rightarrow> u64 \<Rightarrow> Database \<Rightarrow> Database" where
  "write_restore r now d =
     (let i = rcr_campaign r; v = rcr_expected r + 1; p = checkpoint_projection i (rcr_checkpoint r) d;
          source = cp_source_revision (fst (the (find_checkpoint i (rcr_checkpoint r) d)));
          canonical = restored_projection r v now (cr_checkpoint (the (find_campaign i d))) p;
          d = set_campaign i (\<lambda>c. cr_revision c = rcr_expected r)
            (\<lambda>c. c\<lparr>cr_codec_version := cr_codec_version (pr_campaign p), cr_payload := rcr_core_payload r,
              cr_revision := v, cr_updated := now\<rparr>) d;
          d = drop_adapters i (drop_builds i d);
          d = fold (put_build i v) (map (\<lambda>b. b\<lparr>cb_revision := v\<rparr>) (pr_builds p)) d;
          d = fold (put_adapter i v) (pr_adapters p) d;
          d = supersede_messages i v d;
          d = add_journal (OpRestore r) (rcr_codec_version r) (rcr_payload r) now
            (Some (rcr_checkpoint r)) (Some source) d in
      add_messages (OpRestore r) now
        [\<lparr>oi_codec_version = kCampaignSnapshotCodecVersion, oi_payload = snd (encode_snapshot canonical)\<rparr>] d)"

fun op_writes :: "StoreOp \<Rightarrow> u64 \<Rightarrow> Database \<Rightarrow> Database" where
  "op_writes (OpCreate r) = write_create r"
| "op_writes (OpApply r) = write_apply r"
| "op_writes (OpCandidate r) = write_candidate r"
| "op_writes (OpSlotSave r) = write_slot_save r"
| "op_writes (OpCommit r) = write_commit r"
| "op_writes (OpRestore r) = write_restore r"

section \<open>The programs write this\<close>

definition writes :: "('e, 'a) sql \<Rightarrow> (Database \<Rightarrow> Database) \<Rightarrow> bool" where
  "writes m f \<longleftrightarrow> (\<forall>env n d. ends m env (n, d) (\<lambda>_ d'. d' = f d))"

lemma writes_ends: "writes m f \<Longrightarrow> ends m env (n, d) (\<lambda>_ d'. d' = f d)"
  by (simp add: writes_def)

lemma writes_step: "(\<And>d rows d'. u d = Inr (rows, d') \<Longrightarrow> d' = f d) \<Longrightarrow> writes (step_done u) f"
  unfolding writes_def by (auto intro!: ends_step)

lemma writes_only: "(\<And>d rows d'. u d = Inr (rows, d') \<Longrightarrow> d' = f d) \<Longrightarrow> writes (step_only u) f"
  unfolding writes_def step_only_def
  by (intro allI ends_bind [OF writes_ends [OF writes_step]]) (auto simp: sql_wp)

lemma writes_nothing: "reads m \<Longrightarrow> writes m (\<lambda>d. d)"
  unfolding writes_def using ends_read by blast

lemma writes_bind:
  assumes "writes m f" "\<And>x. writes (k x) g"
  shows "writes (sql_bind m k) (\<lambda>d. g (f d))"
  unfolding writes_def
  by (intro allI, rule ends_bind [OF writes_ends [OF assms(1)]], hypsubst, rule writes_ends [OF assms(2)])

lemma writes_each: "(\<And>x. writes (m x) (f x)) \<Longrightarrow> writes (sql_each m xs) (fold f xs)"
proof (induction xs)
  case (Cons x xs)
  show ?case
    using writes_bind [OF Cons.prems [of x] Cons.IH [OF Cons.prems]] by (simp add: comp_def)
qed (simp add: writes_def sql_wp)

lemma writes_inject: "writes (inject_fault stage) (\<lambda>d. d)"
  by (simp add: writes_def sql_wp)

lemma writes_rows:
  "writes (insert_slot i s) (append_slot i s)"
  "writes (step_only (delete_build i slot)) (drop_build i slot)"
  "writes (step_only (delete_builds i)) (drop_builds i)"
  "writes (step_only (delete_adapter i adapter)) (drop_adapter i adapter)"
  "writes (step_only (delete_adapters i)) (drop_adapters i)"
  "writes (step_only (delete_slots i)) (drop_slots i)"
  "writes (upsert_adapter_state i a v) (put_adapter i v a)"
  "writes (step_only (insert_checkpoint_slot k i s)) (add_checkpoint_slot k i s)"
  "writes (step_only (supersede_outbox i v)) (supersede_messages i v)"
  unfolding insert_slot_def upsert_adapter_state_def
  by (rule writes_only;
      auto simp: insert_slot_row_def append_slot_def delete_build_def drop_build_def build_key_def delete_builds_def
        drop_builds_def delete_adapter_def drop_adapter_def delete_adapters_def drop_adapters_def delete_slots_def
        drop_slots_def upsert_adapter_row_def put_adapter_def insert_checkpoint_slot_def add_checkpoint_slot_def
        supersede_outbox_def supersede_messages_def Let_def case_prod_unfold split: if_splits)+

lemma writes_campaign: "writes (step_done (update_campaign i g f)) (set_campaign i g f)"
  by (rule writes_step) (auto simp: update_campaign_def set_campaign_def Let_def split: if_splits)

lemma writes_build: "writes (upsert_character_build i b v) (put_build i v b)"
proof -
  have "reads (verify_slot_binding i (cb_slot b) (cb_binding b))"
    unfolding verify_slot_binding_def by (intro leaves_intros)
  moreover have "writes (step_only (upsert_build_row (build_row i b (snd (encode_character_build b)) v))) (put_build i v b)"
    by (rule writes_only) (auto simp: upsert_build_row_def put_build_def build_row_def split: if_splits)
  moreover have "reads (sql_require c e)" for c e
    by (intro leaves_intros)
  ultimately show ?thesis
    unfolding upsert_character_build_def case_prod_beta by (intro writes_bind [OF writes_nothing, of _ _ "put_build i v b"])
qed

lemma writes_revision: "writes (update_campaign_revision i e (e + 1) now) (set_revision i e now)"
  unfolding update_campaign_revision_def set_revision_def
  by (rule writes_bind [OF writes_campaign], rule writes_nothing, intro leaves_intros)

lemma writes_messages:
  "ends (sql_each (\<lambda>(index, intent).
       step_only (insert_outbox \<lparr>ob_id = 0, ob_campaign = op_campaign op, ob_mutation = op_mutation op,
         ob_index = index, ob_revision = op_result op, ob_codec_version = oi_codec_version intent,
         ob_payload = oi_payload intent, ob_state = OutboxPending, ob_superseded_by = None,
         ob_created = now, ob_delivered = None\<rparr>))
       (enumerate k xs)) env (n, d)
     (\<lambda>_ d'. d' = d\<lparr>t_outbox := t_outbox d @ message_rows op now k (last_outbox d) xs,
       last_outbox := last_outbox d + length xs\<rparr>)"
proof (induction xs arbitrary: k n d)
  case Nil
  then show ?case by (simp add: sql_wp)
next
  case (Cons x xs)
  let ?row = "\<lparr>ob_id = 0, ob_campaign = op_campaign op, ob_mutation = op_mutation op,
         ob_index = k, ob_revision = op_result op, ob_codec_version = oi_codec_version x,
         ob_payload = oi_payload x, ob_state = OutboxPending, ob_superseded_by = None,
         ob_created = now, ob_delivered = None\<rparr>"
  have one: "writes (step_only (insert_outbox ?row))
      (\<lambda>d. d\<lparr>t_outbox := t_outbox d @ [?row\<lparr>ob_id := Suc (last_outbox d)\<rparr>], last_outbox := Suc (last_outbox d)\<rparr>)"
    by (rule writes_only) (auto simp: insert_outbox_def split: if_splits)
  show ?case
    unfolding enumerate_simps sql_each.simps prod.case
    by (rule ends_bind [OF writes_ends [OF one]], rule ends_mono [OF Cons.IH]) simp
qed

lemma ends_recorded:
  "ends (record_mutation (append_journal (op_campaign op) (op_mutation op) (op_expected op) (op_result op) (op_kind op)
       (op_digest op) w p now cp cv) (append_outbox (op_campaign op) (op_mutation op) (op_result op) xs now)) env (n, d)
     (\<lambda>_ d'. d' = add_messages op now xs (add_journal op w p now cp cv d))"
proof -
  have journal: "writes (append_journal (op_campaign op) (op_mutation op) (op_expected op) (op_result op) (op_kind op)
      (op_digest op) w p now cp cv) (add_journal op w p now cp cv)"
    unfolding append_journal_def
    by (rule writes_only) (auto simp: insert_journal_def add_journal_def split: if_splits)
  have outbox: "writes (append_outbox (op_campaign op) (op_mutation op) (op_result op) xs now) (add_messages op now xs)"
    unfolding writes_def append_outbox_def add_messages_def using writes_messages by blast
  show ?thesis
    unfolding record_mutation_def
    by (rule writes_ends [OF writes_bind [OF journal writes_bind [OF writes_inject writes_bind [OF outbox
          writes_bind [OF writes_inject writes_inject]]]]])
qed

section \<open>The bodies of the operations\<close>

lemma create_writes:
  "ends (create_body r (op_digest (OpCreate r)) now) env (n, d) (\<lambda>_ d'. d' = write_create r now d)"
proof -
  let ?c = "ccr_campaign r"
  have insert: "ends (with_error f (change (insert_campaign c))) env (n, d)
      (\<lambda>_ d'. d' = d\<lparr>t_campaigns := t_campaigns d @ [c]\<rparr>)" for f :: "StepFailure \<Rightarrow> StoreError" and c n d
    by (auto simp: sql_wp insert_campaign_def split: sum.splits if_splits)
  have recorded: "ends (record_mutation (append_journal (cr_id ?c) (ccr_mutation r) 0 1 ''CreateCampaign''
        (op_digest (OpCreate r)) w p now cp cv) (append_outbox (cr_id ?c) (ccr_mutation r) 1 xs now)) env (n, d)
      (\<lambda>_ d'. d' = add_messages (OpCreate r) now xs (add_journal (OpCreate r) w p now cp cv d))" for w p cp cv xs n d
    using ends_recorded [of "OpCreate r"] by (simp add: op_result_def)
  show ?thesis
    unfolding create_body_def Let_def write_create_def
    apply (rule ends_bind [OF insert])
    apply (rule ends_bind [OF writes_ends [OF writes_each [OF writes_rows(1)]]])
    apply (rule ends_bind [OF writes_ends [OF writes_each [OF writes_build]]])
    apply (rule ends_bind [OF writes_ends [OF writes_each [OF writes_rows(7)]]])
    apply (rule ends_bind [OF ends_inject])
    apply (rule ends_mono [OF recorded])
    apply simp
    done
qed

lemma roster_writes: "writes (replace_roster_rows i roster) (write_roster i roster)"
proof (cases roster)
  case None
  then show ?thesis by (simp add: replace_roster_rows_def write_roster_def writes_def sql_wp)
next
  case (Some ss)
  show ?thesis
    unfolding replace_roster_rows_def write_roster_def Some option.case
    by (rule writes_bind [OF writes_rows(3) writes_bind [OF writes_rows(6) writes_each [OF writes_rows(1)]]])
qed

lemma core_writes: "writes (set_core_state i version payload) (write_core i version payload)"
proof (cases payload)
  case None
  then show ?thesis by (simp add: set_core_state_def write_core_def writes_def sql_wp)
next
  case (Some p)
  show ?thesis
    unfolding set_core_state_def write_core_def Some option.case step_only_def
    by (rule writes_bind [OF writes_campaign], rule writes_nothing, intro leaves_intros)
qed

lemma seal_writes: "writes (set_sealed i flag) (write_seal i flag)"
proof (cases flag)
  case None
  then show ?thesis by (simp add: set_sealed_def write_seal_def writes_def sql_wp)
next
  case (Some b)
  show ?thesis
    unfolding set_sealed_def write_seal_def Some option.case step_only_def
    by (rule writes_bind [OF writes_campaign], rule writes_nothing, intro leaves_intros)
qed

lemma state_writes:
  "writes (write_current_state r v) (\<lambda>d. let i = amr_campaign r in
     fold (put_adapter i v) (amr_adapter_upserts r) (fold (put_build i v) (amr_build_upserts r)
       (write_seal i (amr_sealed r) (write_core i (amr_core_version r) (amr_core_payload r)
         (fold (drop_adapter i) (amr_adapter_deletes r) (fold (drop_build i) (amr_build_deletes r)
           (write_roster i (amr_roster r) d)))))))"
  unfolding write_current_state_def Let_def
  by (rule writes_bind [OF roster_writes writes_bind [OF writes_each [OF writes_rows(2)]
      writes_bind [OF writes_each [OF writes_rows(4)] writes_bind [OF core_writes
      writes_bind [OF seal_writes writes_bind [OF writes_each [OF writes_build] writes_each [OF writes_rows(7)]]]]]]])

lemma ends_current: "ends (read_current_revision i) env (n, d) (\<lambda>_ d'. d' = d)"
  by (rule ends_read [OF read_current_revision_reads])

lemma apply_writes:
  "ends (apply_body r (op_digest (OpApply r)) now) env (n, d) (\<lambda>_ d'. d' = write_apply r now d)"
proof -
  let ?i = "amr_campaign r" and ?v = "op_result (OpApply r)"
  have expected: "ends (expect_revision current (amr_expected r) (amr_advances r)) env (n, d)
      (\<lambda>v d'. d' = d \<and> v = ?v)" for current n d
    by (auto simp: expect_revision_def sql_wp op_result_def)
  have move: "ends (if amr_advances r then sql_bind (update_campaign_revision ?i (amr_expected r) ?v now)
        (\<lambda>_. inject_fault AfterCurrentState) else sql_ret ()) env (n, d)
      (\<lambda>_ d'. d' = (if amr_advances r then set_revision ?i (amr_expected r) now d else d))" for n d
  proof (cases "amr_advances r")
    case True
    then have "?v = amr_expected r + 1" by (simp add: op_result_def)
    then show ?thesis
      using True writes_ends [OF writes_bind [OF writes_revision writes_inject]] by simp
  qed (simp add: sql_wp)
  have recorded: "ends (record_mutation (append_journal ?i (amr_mutation r) (amr_expected r) ?v (amr_kind r)
        (op_digest (OpApply r)) w p now cp cv) (append_outbox ?i (amr_mutation r) ?v xs now)) env (n, d)
      (\<lambda>_ d'. d' = add_messages (OpApply r) now xs (add_journal (OpApply r) w p now cp cv d))" for w p cp cv xs n d
    using ends_recorded [of "OpApply r"] by simp
  show ?thesis
    unfolding apply_body_def Let_def
    apply (rule ends_bind [OF ends_current])
    apply (rule ends_bind [OF expected], elim conjE, hypsubst)
    apply (rule ends_bind [OF ends_read [OF check_seal_reads]])
    apply (rule ends_bind [OF writes_ends [OF state_writes]])
    apply (rule ends_bind [OF move])
    apply (rule ends_bind [OF recorded])
    apply (simp add: sql_wp write_apply_def Let_def)
    done
qed

lemma current_expected:
  "ends (expect_revision current e True) env (n, d) (\<lambda>v d'. d' = d \<and> v = e + 1)"
  by (auto simp: expect_revision_def sql_wp)

lemma ends_pair: "ends (f (fst x) (snd x)) env s Q \<Longrightarrow> ends (case x of (a, b) \<Rightarrow> f a b) env s Q"
  by (cases x) simp

lemma insert_or_exists_writes:
  "(\<And>d rows d'. u d = Inr (rows, d') \<Longrightarrow> d' = f d) \<Longrightarrow> writes (insert_or_exists u) f"
  unfolding insert_or_exists_def writes_def by (auto simp: sql_wp split: sum.splits)

text \<open>What the loads return is what the rows say.\<close>

lemma projection_read:
  "ends (load_campaign_projection i server_audience) env (n, d) (\<lambda>p d'. d' = d \<and> p = stored_projection i d)"
proof -
  have "audience_sees server_audience a" for a
    by (simp add: audience_sees_def server_audience_def)
  then show ?thesis
    unfolding load_campaign_projection_def stored_projection_def
    by (intro ends_bind [OF ends_load_campaign]) (auto simp: sql_wp)
qed

lemma checkpoint_read:
  "ends (load_checkpoint i k) env (n, d) (\<lambda>ck d'. d' = d \<and> (\<exists>c s. find_checkpoint i k d = Some (c, s) \<and>
     ck_snapshot ck = cp_snapshot c \<and> ck_source_revision ck = cp_source_revision c))"
  unfolding load_checkpoint_def
  by (auto simp: sql_wp split: option.splits sum.splits prod.splits)

lemma snapshot_read:
  "ends (read_snapshot_row i ck) env (n, d) (\<lambda>p d'. d' = d \<and>
     (\<exists>s. find_snapshot i (ck_snapshot ck) d = Some s \<and> decode_snapshot (sn_payload s) = Inr p))"
  unfolding read_snapshot_row_def
  by (auto simp: sql_wp split: option.splits sum.splits)

lemma candidate_writes:
  "ends (candidate_body r (op_digest (OpCandidate r)) now) env (n, d) (\<lambda>_ d'. d' = write_candidate r now d)"
proof -
  let ?i = "ckr_campaign r" and ?e = "ckr_expected r"
  have snapshot: "writes (insert_or_exists (insert_snapshot row)) (\<lambda>d. d\<lparr>t_snapshots := t_snapshots d @ [row]\<rparr>)" for row
    by (rule insert_or_exists_writes) (auto simp: insert_snapshot_def split: if_splits)
  have checkpoint: "writes (insert_or_exists (insert_checkpoint row)) (\<lambda>d. d\<lparr>t_checkpoints := t_checkpoints d @ [row]\<rparr>)" for row
    by (rule insert_or_exists_writes) (auto simp: insert_checkpoint_def split: if_splits)
  have recorded: "ends (record_mutation (append_journal ?i (ckr_mutation r) ?e (?e + 1) ''CreateCheckpointCandidate''
        (op_digest (OpCandidate r)) w p now cp cv) (append_outbox ?i (ckr_mutation r) (?e + 1) xs now)) env (n, d)
      (\<lambda>_ d'. d' = add_messages (OpCandidate r) now xs (add_journal (OpCandidate r) w p now cp cv d))" for w p cp cv xs n d
    using ends_recorded [of "OpCandidate r"] by (simp add: op_result_def)
  show ?thesis
    unfolding candidate_body_def Let_def
    apply (rule ends_bind [OF projection_read], elim conjE, hypsubst)
    apply (rule ends_bind [OF ends_require_true], elim conjE, hypsubst)
    apply (rule ends_bind [OF ends_require_true], elim conjE, hypsubst)
    apply (rule ends_bind [OF ends_require_true], elim conjE, hypsubst)
    apply (rule ends_bind [OF ends_require_true], elim conjE, hypsubst)
    apply (rule ends_pair)
    apply (rule ends_bind [OF ends_require_true], elim conjE, hypsubst)
    apply (rule ends_bind [OF writes_ends [OF snapshot]])
    apply (rule ends_bind [OF writes_ends [OF checkpoint]])
    apply (rule ends_bind [OF writes_ends [OF writes_each [OF writes_rows(8)]]])
    apply (rule ends_bind [OF writes_ends [OF writes_revision]])
    apply (rule ends_bind [OF ends_inject])
    apply (rule ends_bind [OF recorded])
    apply (simp add: sql_wp write_candidate_def Let_def)
    done
qed

lemma slot_save_writes:
  "ends (slot_save_body r (op_digest (OpSlotSave r)) now) env (n, d) (\<lambda>_ d'. d' = write_slot_save r now d)"
proof -
  let ?i = "rsr_campaign r" and ?e = "rsr_expected r" and ?s = "rsr_slot r"
  have slot: "writes (step_only (update_checkpoint_slot ?i (rsr_checkpoint r) ?s)) (\<lambda>d. d\<lparr>t_checkpoint_slots :=
      map (\<lambda>(k, s). if k = (rsr_checkpoint r, ?i) \<and> cs_slot s = cs_slot ?s
        then (k, s\<lparr>cs_native_save := cs_native_save ?s, cs_algorithm := cs_algorithm ?s,
          cs_fingerprint_version := cs_fingerprint_version ?s, cs_fingerprint := cs_fingerprint ?s,
          cs_metadata_version := cs_metadata_version ?s, cs_metadata := cs_metadata ?s\<rparr>)
        else (k, s)) (t_checkpoint_slots d)\<rparr>)"
    by (rule writes_only) (auto simp: update_checkpoint_slot_def checkpoint_slot_key_def Let_def case_prod_unfold)
  have recorded: "ends (record_mutation (append_journal ?i (rsr_mutation r) ?e (?e + 1) ''RecordCheckpointSlotSave''
        (op_digest (OpSlotSave r)) w p now cp cv) (append_outbox ?i (rsr_mutation r) (?e + 1) xs now)) env (n, d)
      (\<lambda>_ d'. d' = add_messages (OpSlotSave r) now xs (add_journal (OpSlotSave r) w p now cp cv d))" for w p cp cv xs n d
    using ends_recorded [of "OpSlotSave r"] by (simp add: op_result_def)
  have tail: "ends (sql_bind (step_only (update_checkpoint_slot ?i (rsr_checkpoint r) ?s)) (\<lambda>_.
      sql_bind (update_campaign_revision ?i ?e (?e + 1) now) (\<lambda>_. sql_bind (inject_fault AfterCurrentState) (\<lambda>_.
      sql_bind (record_mutation (append_journal ?i (rsr_mutation r) ?e (?e + 1) ''RecordCheckpointSlotSave''
          (op_digest (OpSlotSave r)) (rsr_codec_version r) (rsr_payload r) now None None)
        (append_outbox ?i (rsr_mutation r) (?e + 1) (rsr_outbox r) now)) (\<lambda>_. sql_ret (?e + 1)))))) env (n', d)
      (\<lambda>_ d'. d' = write_slot_save r now d)" for n'
    apply (rule ends_bind [OF writes_ends [OF slot]])
    apply (rule ends_bind [OF writes_ends [OF writes_revision]])
    apply (rule ends_bind [OF ends_inject])
    apply (rule ends_bind [OF recorded])
    apply (simp add: sql_wp write_slot_save_def Let_def)
    done
  show ?thesis
    unfolding slot_save_body_def Let_def
  proof (rule ends_bind [OF ends_current [THEN ends_or_fail [THEN iffD2]]],
      rule ends_bind [OF current_expected [THEN ends_or_fail [THEN iffD2]]], elim conjE, hypsubst,
      rule ends_bind [OF ends_read], intro leaves_intros, hypsubst, goal_cases)
    case 1
    show ?case using tail by (auto simp: sql_wp split: option.split prod.split)
  qed
qed

lemma commit_writes:
  "ends (commit_body r (op_digest (OpCommit r)) now) env (n, d) (\<lambda>_ d'. d' = write_commit r now d)"
proof -
  let ?i = "cmr_campaign r" and ?e = "cmr_expected r" and ?k = "cmr_checkpoint r"
  have mark: "writes (step_done (mark_committed ?i ?k v now)) (\<lambda>d. d\<lparr>t_checkpoints := map (\<lambda>c.
      if cp_campaign c = ?i \<and> cp_id c = ?k \<and> \<not> cp_is_committed c
      then c\<lparr>cp_is_committed := True, cp_committed_revision := Some v, cp_committed := Some now\<rparr>
      else c) (t_checkpoints d)\<rparr>)" for v
    by (rule writes_step) (auto simp: mark_committed_def Let_def)
  have select: "writes (step_done (select_checkpoint ?i ?k ?e v now)) (set_campaign ?i (\<lambda>c. cr_revision c = ?e)
      (\<lambda>c. c\<lparr>cr_checkpoint := Some ?k, cr_revision := v, cr_updated := now\<rparr>))" for v
    by (rule writes_step)
      (auto simp: select_checkpoint_def update_campaign_def set_campaign_def Let_def split: if_splits)
  have recorded: "ends (record_mutation (append_journal ?i (cmr_mutation r) ?e (?e + 1) ''CommitCheckpoint''
        (op_digest (OpCommit r)) w p now cp cv) (append_outbox ?i (cmr_mutation r) (?e + 1) xs now)) env (n, d)
      (\<lambda>_ d'. d' = add_messages (OpCommit r) now xs (add_journal (OpCommit r) w p now cp cv d))" for w p cp cv xs n d
    using ends_recorded [of "OpCommit r"] by (simp add: op_result_def)
  show ?thesis
    unfolding commit_body_def Let_def
  proof (rule ends_bind [OF ends_load_checkpoint [THEN ends_or_fail [THEN iffD2]]], hypsubst, goal_cases)
    case (1 ck n1)
    show ?case
    proof (cases "ck_is_committed ck")
      case True
      then show ?thesis by (auto simp: sql_holds_def split: sum.splits prod.splits)
    next
      case False
      show ?thesis
        unfolding if_not_P [OF False] ends_or_fail
        apply (rule ends_bind [OF ends_current])
        apply (rule ends_bind [OF current_expected], elim conjE, hypsubst)
        apply (rule ends_bind [OF ends_require_true], elim conjE, hypsubst)
        apply (rule ends_bind [OF writes_ends [OF mark]])
        apply (rule ends_bind [OF ends_require_true], elim conjE, hypsubst)
        apply (rule ends_bind [OF writes_ends [OF select]])
        apply (rule ends_bind [OF ends_require_true], elim conjE, hypsubst)
        apply (rule ends_bind [OF ends_inject])
        apply (rule ends_bind [OF recorded])
        apply (simp add: sql_wp write_commit_def Let_def)
        done
    qed
  qed
qed

lemma restored_writes:
  "writes (write_restored_state r p v now) (\<lambda>d. let i = rcr_campaign r in
     supersede_messages i v (fold (put_adapter i v) (pr_adapters p)
       (fold (put_build i v) (map (\<lambda>b. b\<lparr>cb_revision := v\<rparr>) (pr_builds p))
         (drop_adapters i (drop_builds i
           (set_campaign i (\<lambda>c. cr_revision c = rcr_expected r)
             (\<lambda>c. c\<lparr>cr_codec_version := cr_codec_version (pr_campaign p), cr_payload := rcr_core_payload r,
               cr_revision := v, cr_updated := now\<rparr>) d))))))"
proof -
  have builds: "writes (sql_each (\<lambda>b. upsert_character_build i (b\<lparr>cb_revision := v\<rparr>) v) bs)
      (fold (put_build i v) (map (\<lambda>b. b\<lparr>cb_revision := v\<rparr>) bs))" for i bs
    unfolding fold_map comp_def by (rule writes_each [OF writes_build])
  have require: "writes (sql_require b e) (\<lambda>d. d)" for b and e :: StoreError
    by (rule writes_nothing) (intro leaves_intros)
  show ?thesis
    unfolding write_restored_state_def Let_def
    by (rule writes_bind [OF writes_campaign writes_bind [OF require writes_bind [OF writes_rows(3)
        writes_bind [OF writes_rows(5) writes_bind [OF builds writes_bind [OF writes_each [OF writes_rows(7)]
        writes_rows(9)]]]]]])
qed

lemma restore_writes:
  "ends (restore_body r (op_digest (OpRestore r)) now) env (n, d) (\<lambda>_ d'. d' = write_restore r now d)"
proof -
  let ?i = "rcr_campaign r" and ?e = "rcr_expected r"
  have recorded: "ends (record_mutation (append_journal ?i (rcr_mutation r) ?e (?e + 1) ''RestoreCheckpoint''
        (op_digest (OpRestore r)) w p now cp cv)
        (case encode_snapshot q of (e, payload) \<Rightarrow> sql_bind (sql_require (e = Store_None) e) (\<lambda>_.
          append_outbox ?i (rcr_mutation r) (?e + 1) [\<lparr>oi_codec_version = kCampaignSnapshotCodecVersion, oi_payload = payload\<rparr>] now)))
      env (n, d) (\<lambda>_ d'. d' = add_messages (OpRestore r) now
        [\<lparr>oi_codec_version = kCampaignSnapshotCodecVersion, oi_payload = snd (encode_snapshot q)\<rparr>]
        (add_journal (OpRestore r) w p now cp cv d))" for w p cp cv q n d
  proof (cases "fst (encode_snapshot q) = Store_None")
    case True
    then have "(case encode_snapshot q of (e, payload) \<Rightarrow> sql_bind (sql_require (e = Store_None) e) (\<lambda>_. k payload)) =
        k (snd (encode_snapshot q))" for k :: "Bytes \<Rightarrow> (StoreError, unit) sql"
      by (cases "encode_snapshot q") (simp add: sql_require_def sql_bind_def sql_ret_def)
    then show ?thesis using ends_recorded [of "OpRestore r"] by (simp add: op_result_def)
  next
    case False
    have any: "ends m env (n, d) (\<lambda>_ _. True)" for m :: "(StoreError, 'a) sql" and n d
      by (simp add: sql_holds_def split: sum.split prod.split)
    from False show ?thesis
      unfolding record_mutation_def
      by (cases "encode_snapshot q") (rule ends_bind [OF any], rule ends_bind [OF any], simp add: sql_wp)
  qed
  show ?thesis
    unfolding restore_body_def Let_def
    apply (rule ends_bind [OF projection_read], elim conjE, hypsubst)
    apply (rule ends_bind [OF ends_require_true], elim conjE, hypsubst)
    apply (rule ends_bind [OF ends_require_true], elim conjE, hypsubst)
    apply (rule ends_bind [OF checkpoint_read], elim conjE exE, hypsubst)
    apply (rule ends_bind [OF ends_require_true], elim conjE, hypsubst)
    apply (rule ends_bind [OF snapshot_read], elim conjE exE, hypsubst)
    apply (rule ends_bind [OF ends_require_true], elim conjE, hypsubst)
    apply (rule ends_bind [OF ends_require_true], elim conjE, hypsubst)
    apply (rule ends_bind [OF writes_ends [OF restored_writes]])
    apply (rule ends_bind [OF ends_inject])
    apply (rule ends_bind [OF recorded])
    apply (auto simp: sql_wp write_restore_def Let_def checkpoint_projection_def stored_projection_def find_checkpoint_def
        split: option.splits)
    done
qed

section \<open>Properties\<close>

text \<open>A body that ends with the result of the operation and leaves the tables that are to be written.\<close>

lemma ends_also:
  assumes "ends m env (n, d) (\<lambda>v d'. v = w \<and> P d')" "ends m env (n, d) (\<lambda>_ d'. Q d')"
  shows "ends m env (n, d) (\<lambda>v d'. v = w \<and> Q d')"
  using assms by (auto simp: sql_holds_def split: sum.splits prod.splits)

lemma store_mutate_writes:
  assumes "store_mutate op env d = (r, d')"
  shows "(not_applied r \<and> d' = d) \<or> d' = op_writes op (env_now env) d"
proof (cases "op_rejection op = Store_None")
  case False
  then show ?thesis using op_rejected [OF False] assms by (auto simp: mutation_failure_def not_applied_def)
next
  case accepted: True
  show ?thesis
  proof (cases op)
    case (OpCreate q)
    let ?body = "and_return (create_body q (op_digest op) (env_now env)) (mutation_done 1 True)"
    have good: "ends ?body env (n, d) (\<lambda>r d'. r = mutation_done 1 True \<and> d' = write_create q (env_now env) d)" for n
      unfolding and_return_def OpCreate
      by (rule ends_bind [OF create_writes [THEN ends_or_fail [THEN iffD2]]]) (simp add: sql_wp)
    have bad: "fails_with not_applied ?body"
      unfolding and_return_def by (intro fails_with_applied create_fails)
    have "run_mutation (op_campaign op) (op_mutation op) (op_digest op) ?body env d = (r, d')"
      using assms accepted by (simp add: OpCreate create_campaign_def Let_def case_prod_beta split: if_splits)
    from run_mutation_effect [OF bad good this] OpCreate show ?thesis by auto
  next
    case (OpApply q)
    have "run_mutation (op_campaign op) (op_mutation op) (op_digest op) (sql_bind (or_fail (apply_body q (apply_digest q) (env_now env)))
        (\<lambda>v. sql_ret (mutation_done v (amr_advances q)))) env d = (r, d')"
      using assms accepted by (simp add: OpApply apply_campaign_mutation_def Let_def split: if_splits)
    from run_body_effect [OF fails_or_fail [OF apply_fails] ends_or_fail [THEN iffD2, OF ends_also [OF ends_apply apply_writes [unfolded op_digest.simps]]] this]
    show ?thesis by (auto simp: OpApply)
  next
    case (OpCandidate q)
    have "run_mutation (op_campaign op) (op_mutation op) (op_digest op) (sql_bind (or_fail (candidate_body q (candidate_digest q) (env_now env)))
        (\<lambda>v. sql_ret (mutation_done v True))) env d = (r, d')"
      using assms accepted by (simp add: OpCandidate create_checkpoint_candidate_def Let_def split: if_splits)
    from run_body_effect [OF fails_or_fail [OF candidate_fails] ends_or_fail [THEN iffD2, OF ends_also [OF ends_candidate candidate_writes [unfolded op_digest.simps]]] this]
    show ?thesis by (auto simp: OpCandidate)
  next
    case (OpSlotSave q)
    have "run_mutation (op_campaign op) (op_mutation op) (op_digest op) (sql_bind (slot_save_body q (slot_save_digest q) (env_now env))
        (\<lambda>v. sql_ret (mutation_done v True))) env d = (r, d')"
      using assms accepted by (simp add: OpSlotSave record_checkpoint_slot_save_def Let_def split: if_splits)
    from run_body_effect [OF slot_save_fails ends_also [OF ends_slot_save slot_save_writes [unfolded op_digest.simps]] this]
    show ?thesis by (auto simp: OpSlotSave)
  next
    case (OpCommit q)
    have "run_mutation (op_campaign op) (op_mutation op) (op_digest op) (sql_bind (commit_body q (commit_digest q) (env_now env))
        (\<lambda>v. sql_ret (mutation_done v True))) env d = (r, d')"
      using assms accepted by (simp add: OpCommit commit_checkpoint_def Let_def split: if_splits)
    from run_body_effect [OF commit_fails ends_also [OF ends_commit commit_writes [unfolded op_digest.simps]] this]
    show ?thesis by (auto simp: OpCommit)
  next
    case (OpRestore q)
    have "run_mutation (op_campaign op) (op_mutation op) (op_digest op) (sql_bind (or_fail (restore_body q (restore_digest q) (env_now env)))
        (\<lambda>v. sql_ret (mutation_done v True))) env d = (r, d')"
      using assms accepted by (simp add: OpRestore restore_checkpoint_snapshot_def Let_def split: if_splits)
    from run_body_effect [OF fails_or_fail [OF restore_fails] ends_or_fail [THEN iffD2, OF ends_also [OF ends_restore restore_writes [unfolded op_digest.simps]]] this]
    show ?thesis by (auto simp: OpRestore)
  qed
qed

text \<open>
  C23: No mutation of the store is ever half done. Whatever statement of it fails, and whatever
  stage the fault injector stops it at, an operation that does not answer that it was carried out
  leaves every table exactly as it was. One that answers so had met the revision it expected, was not in
  the journal before, and has been carried out in full: the tables are exactly those that all writes of
  the operation make of the tables before - roster, builds, adapter states, checkpoint rows, the core
  state, the revision, one journal row and every message - with nothing left out and nothing else changed.
\<close>

theorem store_mutations_are_atomic:
  "case store_mutate op env d of (r, d') \<Rightarrow>
     if mut_error r = Store_None \<and> \<not> mut_replay r
     then r = mutation_done (op_result op) (op_advances op) \<and> op_recorded op d d' \<and>
       d' = op_writes op (env_now env) d
     else d' = d"
  using store_mutate_effect [of op env d] store_mutate_writes [of op env d]
  by (cases "store_mutate op env d") (auto simp: not_applied_def mutation_done_def)

end
