(* ===== verification/StoreRetention.thy ===== *)
theory StoreRetention
  imports StoreLedger
begin

text \<open>
  What the mutations of the store keep: the state of every other campaign, the roster of a sealed
  campaign, and the checkpoints that have been committed, with their snapshots and their slots.
\<close>

section \<open>From the bodies to the operations\<close>

lemma run_mutation_related:
  assumes "\<And>n. ends body env (n, d) (\<lambda>x d'. R d d')" "R d d" "run_mutation i m g body env d = (r, d')"
  shows "R d d'"
proof -
  have "reads (answer_replay i m g)"
    unfolding answer_replay_def check_replay_def by (intro leaves_intros)
  then have "ends (sql_bind (answer_replay i m g) (\<lambda>_. body)) env (1, d) (\<lambda>x d'. R d d')"
    using assms(1) by (intro ends_bind [OF ends_read]) auto
  then show ?thesis
    using assms(2,3) by (auto simp: run_mutation_def transaction_def sql_holds_def split: if_splits sum.splits prod.splits)
qed

lemma run_body_related:
  assumes "\<And>n. ends b env (n, d) (\<lambda>x d'. R d d')" "R d d"
    "run_mutation i m g (sql_bind b (\<lambda>v. sql_ret (f v))) env d = (r, d')"
  shows "R d d'"
  using run_mutation_related [where R = R and d = d and d' = d', OF _ assms(2,3)] assms(1) by (simp add: sql_wp)

lemma store_mutate_related:
  assumes "R d d" "store_mutate op env d = (r, d')"
    and "\<And>q g now n. op = OpCreate q \<Longrightarrow> ends (create_body q g now) env (n, d) (\<lambda>x d'. R d d')"
    and "\<And>q g now n. op = OpApply q \<Longrightarrow> ends (apply_body q g now) env (n, d) (\<lambda>x d'. R d d')"
    and "\<And>q g now n. op = OpCandidate q \<Longrightarrow> ends (candidate_body q g now) env (n, d) (\<lambda>x d'. R d d')"
    and "\<And>q g now n. op = OpSlotSave q \<Longrightarrow> ends (slot_save_body q g now) env (n, d) (\<lambda>x d'. R d d')"
    and "\<And>q g now n. op = OpCommit q \<Longrightarrow> ends (commit_body q g now) env (n, d) (\<lambda>x d'. R d d')"
    and "\<And>q g now n. op = OpRestore q \<Longrightarrow> ends (restore_body q g now) env (n, d) (\<lambda>x d'. R d d')"
  shows "R d d'"
proof (cases op)
  case (OpCreate q)
  show ?thesis
    using run_body_related [where R = R and d = d and d' = d', OF assms(3) [OF OpCreate, THEN ends_or_fail [THEN iffD2]] assms(1)] assms(1,2)
    by (auto simp: OpCreate create_campaign_def and_return_def Let_def split: if_splits prod.splits)
next
  case (OpApply q)
  show ?thesis
    using run_body_related [where R = R and d = d and d' = d', OF assms(4) [OF OpApply, THEN ends_or_fail [THEN iffD2]] assms(1)] assms(1,2)
    by (auto simp: OpApply apply_campaign_mutation_def Let_def split: if_splits)
next
  case (OpCandidate q)
  show ?thesis
    using run_body_related [where R = R and d = d and d' = d', OF assms(5) [OF OpCandidate, THEN ends_or_fail [THEN iffD2]] assms(1)] assms(1,2)
    by (auto simp: OpCandidate create_checkpoint_candidate_def Let_def split: if_splits)
next
  case (OpSlotSave q)
  show ?thesis
    using run_body_related [where R = R and d = d and d' = d', OF assms(6) [OF OpSlotSave] assms(1)] assms(1,2)
    by (auto simp: OpSlotSave record_checkpoint_slot_save_def Let_def split: if_splits)
next
  case (OpCommit q)
  show ?thesis
    using run_body_related [where R = R and d = d and d' = d', OF assms(7) [OF OpCommit] assms(1)] assms(1,2)
    by (auto simp: OpCommit commit_checkpoint_def Let_def split: if_splits)
next
  case (OpRestore q)
  show ?thesis
    using run_body_related [where R = R and d = d and d' = d', OF assms(8) [OF OpRestore, THEN ends_or_fail [THEN iffD2]] assms(1)] assms(1,2)
    by (auto simp: OpRestore restore_checkpoint_snapshot_def Let_def split: if_splits)
qed

text \<open>A frame that every statement of a program keeps is kept by the program.\<close>

locale statements = frame related for related :: "Database \<Rightarrow> Database \<Rightarrow> bool" +
  fixes own mut :: string
  assumes keeps_campaign: "(\<And>c. cr_id (f c) = cr_id c) \<Longrightarrow> (\<And>c. cr_sealed (f c) = cr_sealed c) \<Longrightarrow>
      update_campaign own g f d = Inr (n, d') \<Longrightarrow> related d d'"
    and keeps_build: "upsert_build_row b d = Inr (n, d') \<Longrightarrow> br_campaign b = own \<Longrightarrow> related d d'"
    and keeps_adapter: "upsert_adapter_row own a d = Inr (n, d') \<Longrightarrow> related d d'"
    and keeps_no_builds: "delete_builds own d = Inr (n, d') \<Longrightarrow> related d d'"
    and keeps_no_build: "delete_build own slot d = Inr (n, d') \<Longrightarrow> related d d'"
    and keeps_no_adapter: "delete_adapter own adapter d = Inr (n, d') \<Longrightarrow> related d d'"
    and keeps_no_adapters: "delete_adapters own d = Inr (n, d') \<Longrightarrow> related d d'"
    and keeps_supersede: "supersede_outbox own v d = Inr (n, d') \<Longrightarrow> related d d'"
    and keeps_outbox: "insert_outbox ob d = Inr (n, d') \<Longrightarrow> ob_campaign ob = own \<Longrightarrow> ob_mutation ob = mut \<Longrightarrow>
      related d d'"
    and keeps_journal: "insert_journal j d = Inr (n, d') \<Longrightarrow> jr_campaign j = own \<Longrightarrow> related d d'"
begin

lemma keeps_upsert_build: "keeps (upsert_character_build own b v)"
  unfolding upsert_character_build_def verify_slot_binding_def
  by (intro keeps_intros keeps_step_only) (erule keeps_build, simp add: build_row_def)

lemma keeps_upsert_adapter: "keeps (upsert_adapter_state own a v)"
  unfolding upsert_adapter_state_def by (intro keeps_step_only) (erule keeps_adapter)

lemma keeps_append_outbox: "keeps (append_outbox own mut v intents now)"
  unfolding append_outbox_def by (intro keeps_intros keeps_step_only) (erule keeps_outbox; simp)

lemma keeps_append_journal: "keeps (append_journal own m e v k g w p now c cv)"
  unfolding append_journal_def by (intro keeps_step_only) (erule keeps_journal, simp)

lemma keeps_record: "keeps outbox \<Longrightarrow> keeps (record_mutation (append_journal own m e v k g w p now c cv) outbox)"
  unfolding record_mutation_def by (intro keeps_intros keeps_append_journal)

lemma keeps_revision: "keeps (update_campaign_revision own e v now)"
  unfolding update_campaign_revision_def
  by (intro keeps_intros keeps_step) (erule keeps_campaign [rotated 2], simp_all)

lemma keeps_core: "keeps (set_core_state own v p)"
  unfolding set_core_state_def
  by (intro keeps_intros keeps_step_only) (erule keeps_campaign [rotated 2], simp_all)

lemma keeps_tail: "keeps (sql_bind (update_campaign_revision own e v now) (\<lambda>_. inject_fault AfterCurrentState))"
  by (intro keeps_intros keeps_revision)

lemma keeps_write_restored:
  assumes "rcr_campaign r = own"
  shows "keeps (write_restored_state r p v now)"
  unfolding write_restored_state_def Let_def assms
proof (intro keeps_bind keeps_pure keeps_each keeps_step keeps_step_only keeps_upsert_build keeps_upsert_adapter)
qed (erule keeps_no_builds keeps_no_adapters keeps_supersede keeps_campaign [rotated 2]; simp)+

lemma keeps_expect: "keeps (expect_revision c e b)"
  unfolding expect_revision_def by (intro keeps_if keeps_pure)

lemma keeps_reads: "reads m \<Longrightarrow> keeps m"
  unfolding keeps_def by (intro allI, rule ends_mono, erule ends_read) (simp add: refl)

lemma keeps_restore:
  assumes "rcr_campaign r = own" "rcr_mutation r = mut"
  shows "keeps (restore_body r g now)"
  unfolding restore_body_def Let_def assms
  by (intro keeps_bind keeps_pair keeps_pure keeps_reads [OF load_projection_reads] keeps_reads [OF load_checkpoint_reads]
      keeps_reads [OF read_snapshot_row_reads] keeps_write_restored [OF assms(1)] keeps_record keeps_append_outbox)

end

text \<open>The statements on the roster and the seal, which only creating and changing a campaign use.\<close>

locale roster_statements = statements +
  assumes keeps_slot: "insert_slot_row own s d = Inr (n, d') \<Longrightarrow> related d d'"
    and keeps_no_slots: "delete_slots own d = Inr (n, d') \<Longrightarrow> related d d'"
    and keeps_seal: "update_campaign own (\<lambda>c. True) (\<lambda>c. c\<lparr>cr_sealed := b\<rparr>) d = Inr (n, d') \<Longrightarrow> related d d'"
    and keeps_new: "insert_campaign c d = Inr (n, d') \<Longrightarrow> cr_id c = own \<Longrightarrow> related d d'"
begin

lemma keeps_slots: "keeps (insert_slot own s)"
  unfolding insert_slot_def by (intro keeps_step_only) (erule keeps_slot)

lemma keeps_create:
  assumes "cr_id (ccr_campaign r) = own" "ccr_mutation r = mut"
  shows "keeps (create_body r g now)"
  unfolding create_body_def Let_def assms
proof (intro keeps_bind keeps_error keeps_change keeps_slots keeps_each keeps_upsert_build keeps_upsert_adapter
      keeps_pure keeps_record keeps_append_outbox)
qed (erule keeps_new, simp add: assms)

lemma keeps_write_current:
  assumes "amr_campaign r = own"
  shows "keeps (write_current_state r v)"
  unfolding write_current_state_def Let_def replace_roster_rows_def set_sealed_def assms
proof (intro keeps_bind keeps_option keeps_each keeps_step_only keeps_slots keeps_core keeps_upsert_build
      keeps_upsert_adapter keeps_pure)
qed (auto intro: keeps_no_builds keeps_no_slots keeps_no_build keeps_no_adapter keeps_seal)

lemma keeps_apply:
  assumes "amr_campaign r = own" "amr_mutation r = mut"
  shows "keeps (apply_body r g now)"
  unfolding apply_body_def Let_def assms
  by (intro keeps_bind keeps_if keeps_reads [OF read_current_revision_reads] keeps_reads [OF check_seal_reads]
      keeps_write_current [OF assms(1)] keeps_revision keeps_pure keeps_record keeps_append_outbox keeps_expect)

end

text \<open>The statements on the checkpoints.\<close>

locale checkpoint_statements = statements +
  assumes keeps_snapshot: "insert_snapshot sn d = Inr (n, d') \<Longrightarrow> sn_campaign sn = own \<Longrightarrow> related d d'"
    and keeps_checkpoint: "insert_checkpoint ck d = Inr (n, d') \<Longrightarrow> cp_campaign ck = own \<Longrightarrow> related d d'"
    and keeps_checkpoint_slot: "insert_checkpoint_slot k own s d = Inr (n, d') \<Longrightarrow> related d d'"
    and keeps_slot_save: "update_checkpoint_slot own k t d = Inr (n, d') \<Longrightarrow> related d d'"
    and keeps_mark: "mark_committed own k v now d = Inr (n, d') \<Longrightarrow> related d d'"
begin

lemma keeps_insert_or_exists: "(\<And>d n d'. u d = Inr (n, d') \<Longrightarrow> related d d') \<Longrightarrow> keeps (insert_or_exists u)"
  unfolding insert_or_exists_def by (intro keeps_bind keeps_error keeps_change keeps_pure)

lemma keeps_candidate:
  assumes "ckr_campaign r = own" "ckr_mutation r = mut"
  shows "keeps (candidate_body r g now)"
  unfolding candidate_body_def Let_def assms
proof (intro keeps_bind keeps_pair keeps_reads [OF load_projection_reads] keeps_insert_or_exists keeps_each
      keeps_step_only keeps_revision keeps_pure keeps_record keeps_append_outbox)
qed (auto intro: keeps_snapshot keeps_checkpoint keeps_checkpoint_slot)

lemma keeps_slot_save_body:
  assumes "rsr_campaign r = own" "rsr_mutation r = mut"
  shows "keeps (slot_save_body r g now)"
  unfolding slot_save_body_def Let_def assms
proof (intro keeps_bind keeps_option keeps_pair keeps_if keeps_or_fail keeps_reads [OF read_current_revision_reads]
      keeps_step_only keeps_revision keeps_pure keeps_record keeps_append_outbox keeps_expect)
qed (erule keeps_slot_save)

lemma keeps_select: "keeps (step_done (select_checkpoint own k e v now))"
proof (intro keeps_step)
  fix d n d' assume "select_checkpoint own k e v now d = Inr (n, d')"
  then show "related d d'"
    unfolding select_checkpoint_def
    by (cases "\<exists>c \<in> set (t_checkpoints d). cp_id c = k \<and> cp_campaign c = own")
      (simp only: if_False if_True not_True_eq_False simp_thms, erule keeps_campaign [rotated 2], simp_all)
qed

lemma keeps_committed_again:
  "keeps (\<lambda>env s. case load_campaign i env s of
     (Inr c, s') \<Rightarrow> if cr_checkpoint c = Some k then (Inl (f c), s') else (Inl e, s')
   | (Inl x, s') \<Rightarrow> (Inl e, s'))"
  by (auto simp: keeps_def sql_holds_def split: sum.splits prod.splits)

lemma keeps_commit:
  assumes "cmr_campaign r = own" "cmr_mutation r = mut"
  shows "keeps (commit_body r g now)"
  unfolding commit_body_def Let_def assms
proof (intro keeps_bind keeps_if keeps_or_fail keeps_reads [OF load_checkpoint_reads] keeps_committed_again
      keeps_reads [OF read_current_revision_reads] keeps_select keeps_pure keeps_record keeps_append_outbox
      keeps_expect keeps_step)
qed (erule keeps_mark)

end

section \<open>Other campaigns\<close>

definition campaign_part :: "string \<Rightarrow> Database \<Rightarrow> CampaignRecord option \<times> CampaignSlotRecord list \<times> BuildRow list \<times>
    AdapterState list \<times> SnapshotRow list \<times> CheckpointRow list \<times> ((string \<times> string) \<times> CheckpointSlotRecord) list \<times>
    JournalRow list \<times> OutboxRow list" where
  "campaign_part k d = (find_campaign k d, slots_of k d, builds_of k d, adapters_of k d,
     filter (\<lambda>s. sn_campaign s = k) (t_snapshots d), filter (\<lambda>c. cp_campaign c = k) (t_checkpoints d),
     filter (\<lambda>((i, c), s). c = k) (t_checkpoint_slots d), rows_of k d,
     filter (\<lambda>o'. ob_campaign o' = k) (t_outbox d))"

definition others_kept :: "string \<Rightarrow> Database \<Rightarrow> Database \<Rightarrow> bool" where
  "others_kept own d d' \<longleftrightarrow> (\<forall>k. k \<noteq> own \<longrightarrow> campaign_part k d' = campaign_part k d)"

lemma filter_map_same: "(\<And>x. x \<in> set xs \<Longrightarrow> P (f x) = P x) \<Longrightarrow> (\<And>x. x \<in> set xs \<Longrightarrow> P x \<Longrightarrow> f x = x) \<Longrightarrow>
    filter P (map f xs) = filter P xs"
  by (induction xs) auto

lemma filter_upsert:
  "(\<And>r. key r \<Longrightarrow> \<not> P r) \<Longrightarrow> \<not> P row \<Longrightarrow> filter P (upsert key row rows) = filter P rows"
  by (auto simp: upsert_def intro!: filter_map_same split: if_splits)

lemma find_campaign_other:
  "k \<noteq> i \<Longrightarrow> (\<And>c. cr_id (f c) = cr_id c) \<Longrightarrow> update_campaign i g f d = Inr (n, d') \<Longrightarrow> find_campaign k d' = find_campaign k d"
  using update_campaign_ledger(3) [of i g f d n d' k] find_campaign_id [of k d]
  by (cases "find_campaign k d") auto

lemma update_campaign_tables:
  assumes "update_campaign i g f d = Inr (n, d')"
  shows "t_slots d' = t_slots d" "t_builds d' = t_builds d" "t_adapters d' = t_adapters d"
    "t_snapshots d' = t_snapshots d" "t_checkpoints d' = t_checkpoints d" "t_checkpoint_slots d' = t_checkpoint_slots d"
    "t_journal d' = t_journal d" "t_outbox d' = t_outbox d"
  using assms by (auto simp: update_campaign_def Let_def split: if_splits)

lemmas part_defs = campaign_part_def slots_of_def builds_of_def adapters_of_def rows_of_def find_campaign_def

lemma others_campaign:
  "(\<And>c. cr_id (f c) = cr_id c) \<Longrightarrow> update_campaign i g f d = Inr (n, d') \<Longrightarrow> others_kept i d d'"
  using find_campaign_other [of _ i f g d n d'] update_campaign_tables [of i g f d n d']
  by (auto simp: others_kept_def campaign_part_def slots_of_def builds_of_def adapters_of_def rows_of_def)

lemma filter_kept: "(\<And>x. P x \<Longrightarrow> Q x) \<Longrightarrow> filter P (filter Q xs) = filter P xs"
  by (auto intro: filter_cong)

lemma others_deletes:
  "delete_slots own d = Inr (n, d') \<Longrightarrow> others_kept own d d'"
  "delete_build own slot d = Inr (n, d') \<Longrightarrow> others_kept own d d'"
  "delete_builds own d = Inr (n, d') \<Longrightarrow> others_kept own d d'"
  "delete_adapter own adapter d = Inr (n, d') \<Longrightarrow> others_kept own d d'"
  "delete_adapters own d = Inr (n, d') \<Longrightarrow> others_kept own d d'"
  by (auto simp: delete_slots_def delete_build_def delete_builds_def delete_adapter_def delete_adapters_def
      Let_def others_kept_def part_defs build_key_def simp del: filter_filter
      split: if_splits intro!: arg_cong [where f = "map snd"] filter_kept)

lemma others_rows:
  "insert_slot_row own s d = Inr (n, d') \<Longrightarrow> others_kept own d d'"
  "insert_checkpoint_slot ki own s d = Inr (n, d') \<Longrightarrow> others_kept own d d'"
  by (simp_all add: insert_slot_row_def insert_checkpoint_slot_def others_kept_def part_defs split: if_splits) (auto split: if_splits)

lemma others_inserts:
  "insert_outbox ob d = Inr (n, d') \<Longrightarrow> ob_campaign ob = own \<Longrightarrow> others_kept own d d'"
  "insert_journal j d = Inr (n, d') \<Longrightarrow> jr_campaign j = own \<Longrightarrow> others_kept own d d'"
  "insert_snapshot sn d = Inr (n, d') \<Longrightarrow> sn_campaign sn = own \<Longrightarrow> others_kept own d d'"
  "insert_checkpoint ck d = Inr (n, d') \<Longrightarrow> cp_campaign ck = own \<Longrightarrow> others_kept own d d'"
  "insert_campaign c d = Inr (n, d') \<Longrightarrow> cr_id c = own \<Longrightarrow> others_kept own d d'"
  by (auto simp: insert_outbox_def insert_journal_def insert_snapshot_def insert_checkpoint_def insert_campaign_def
      others_kept_def part_defs find_snoc split: if_splits option.splits)

lemma others_updates:
  "supersede_outbox own v d = Inr (n, d') \<Longrightarrow> others_kept own d d'"
  "update_checkpoint_slot own ki t d = Inr (n, d') \<Longrightarrow> others_kept own d d'"
  "mark_committed own ki v now d = Inr (n, d') \<Longrightarrow> others_kept own d d'"
  by (auto simp: supersede_outbox_def update_checkpoint_slot_def mark_committed_def checkpoint_slot_key_def Let_def
      others_kept_def part_defs intro!: filter_map_same split: if_splits)

lemma others_upserts:
  "upsert_build_row b d = Inr (n, d') \<Longrightarrow> br_campaign b = own \<Longrightarrow> others_kept own d d'"
  "upsert_adapter_row own a d = Inr (n, d') \<Longrightarrow> others_kept own d d'"
  by (auto simp: upsert_build_row_def upsert_adapter_row_def others_kept_def part_defs build_key_def
      intro!: filter_upsert arg_cong [where f = "map snd"] split: if_splits)

interpretation others: roster_statements "others_kept own" own mut for own mut
proof (unfold_locales, goal_cases)
  case 1 show ?case by (simp add: others_kept_def)
next
  case 2 then show ?case by (simp add: others_kept_def)
qed (erule others_rows others_deletes others_updates others_upserts(2) |
    ((erule others_inserts others_upserts(1) | erule others_campaign [rotated]); simp))+

interpretation others: checkpoint_statements "others_kept own" own mut for own mut
  by unfold_locales (erule others_rows others_updates | (erule others_inserts; assumption))+

lemma mutation_keeps_others:
  assumes "store_mutate op env d = (r, d')"
  shows "others_kept (op_campaign op) d d'"
  by (rule store_mutate_related [where R = "others_kept (op_campaign op)", OF _ assms])
    (auto simp: others_kept_def [of _ d d] intro: others.keepsD
      others.keeps_create others.keeps_apply others.keeps_candidate others.keeps_slot_save_body
      others.keeps_commit others.keeps_restore)

section \<open>Sealed rosters\<close>

definition is_sealed :: "string \<Rightarrow> Database \<Rightarrow> bool" where
  "is_sealed i d \<longleftrightarrow> (case find_campaign i d of None \<Rightarrow> False | Some c \<Rightarrow> cr_sealed c)"

definition sealed_kept :: "Database \<Rightarrow> Database \<Rightarrow> bool" where
  "sealed_kept d d' \<longleftrightarrow> (\<forall>i. is_sealed i d \<longrightarrow> is_sealed i d' \<and> slots_of i d' = slots_of i d)"

lemma others_sealed: "others_kept i d d' \<Longrightarrow> \<not> is_sealed i d \<Longrightarrow> sealed_kept d d'"
  unfolding others_kept_def sealed_kept_def campaign_part_def is_sealed_def by (metis prod.inject)

lemma sealed_campaign:
  "(\<And>c. cr_id (f c) = cr_id c) \<Longrightarrow> (\<And>c. cr_sealed c \<Longrightarrow> cr_sealed (f c)) \<Longrightarrow> update_campaign i g f d = Inr (n, d') \<Longrightarrow>
     sealed_kept d d'"
  using update_campaign_ledger(3) [of i g f d n d'] update_campaign_tables(1) [of i g f d n d']
  by (auto simp: sealed_kept_def is_sealed_def slots_of_def split: option.splits)

lemma sealed_same: "t_campaigns d' = t_campaigns d \<Longrightarrow> t_slots d' = t_slots d \<Longrightarrow> sealed_kept d d'"
  by (simp add: sealed_kept_def is_sealed_def find_campaign_def slots_of_def)

lemma sealed_rows:
  "delete_build own slot d = Inr (n, d') \<Longrightarrow> sealed_kept d d'"
  "delete_builds own d = Inr (n, d') \<Longrightarrow> sealed_kept d d'"
  "delete_adapter own adapter d = Inr (n, d') \<Longrightarrow> sealed_kept d d'"
  "delete_adapters own d = Inr (n, d') \<Longrightarrow> sealed_kept d d'"
  "upsert_build_row b d = Inr (n, d') \<Longrightarrow> sealed_kept d d'"
  "upsert_adapter_row own a d = Inr (n, d') \<Longrightarrow> sealed_kept d d'"
  "insert_outbox ob d = Inr (n, d') \<Longrightarrow> sealed_kept d d'"
  "insert_journal j d = Inr (n, d') \<Longrightarrow> sealed_kept d d'"
  "supersede_outbox own v d = Inr (n, d') \<Longrightarrow> sealed_kept d d'"
  "insert_snapshot sn d = Inr (n, d') \<Longrightarrow> sealed_kept d d'"
  "insert_checkpoint ck d = Inr (n, d') \<Longrightarrow> sealed_kept d d'"
  "insert_checkpoint_slot ki own s d = Inr (n, d') \<Longrightarrow> sealed_kept d d'"
  "update_checkpoint_slot own ki t d = Inr (n, d') \<Longrightarrow> sealed_kept d d'"
  "mark_committed own ki v now d = Inr (n, d') \<Longrightarrow> sealed_kept d d'"
  by (auto simp: delete_build_def delete_builds_def delete_adapter_def delete_adapters_def upsert_build_row_def
      upsert_adapter_row_def insert_outbox_def insert_journal_def supersede_outbox_def insert_snapshot_def
      insert_checkpoint_def insert_checkpoint_slot_def update_checkpoint_slot_def mark_committed_def Let_def
      intro!: sealed_same split: if_splits)

interpretation seals: checkpoint_statements sealed_kept own mut for own mut
proof (unfold_locales, goal_cases)
  case 1 show ?case by (simp add: sealed_kept_def)
next
  case 2 then show ?case by (simp add: sealed_kept_def)
qed (erule sealed_rows | (erule sealed_campaign [rotated 2]; simp))+

text \<open>A mutation of a sealed campaign names no roster and does not reopen it.\<close>

lemma sealed_write_current:
  assumes "amr_roster r = None" "amr_sealed r \<noteq> Some False"
  shows "seals.keeps (write_current_state r v)"
proof -
  have "seals.keeps (set_sealed (amr_campaign r) (amr_sealed r))"
    unfolding set_sealed_def using assms(2)
    by (cases "amr_sealed r") (auto intro!: seals.keeps_pure seals.keeps_step_only elim!: sealed_campaign [rotated 2])
  then show ?thesis
    unfolding write_current_state_def Let_def replace_roster_rows_def assms(1) option.case
    by (intro seals.keeps_bind seals.keeps_pure seals.keeps_each seals.keeps_step_only seals.keeps_core
        seals.keeps_upsert_build seals.keeps_upsert_adapter) (erule sealed_rows)+
qed

lemma ends_check_seal:
  "ends (check_seal r) env (n, d) (\<lambda>_ d'. d' = d \<and>
     (is_sealed (amr_campaign r) d \<longrightarrow> amr_roster r = None \<and> amr_sealed r \<noteq> Some False))"
  by (auto simp: check_seal_def is_sealed_def sql_wp split: option.splits)

lemma sealed_apply:
  assumes "is_sealed (amr_campaign r) d"
  shows "ends (apply_body r g now) env (n, d) (\<lambda>_ d'. sealed_kept d d')"
  unfolding apply_body_def Let_def
proof (rule ends_bind [OF ends_current_revision], rule ends_bind [OF ends_expect_revision],
    rule ends_bind [OF ends_check_seal], goal_cases)
  case (1 current n1 d1 v n2 d2 u n3 d3)
  then have start: "d3 = d" "amr_roster r = None" "amr_sealed r \<noteq> Some False" using assms by auto
  show ?case
    unfolding start(1)
    by (rule seals.keepsD, intro seals.keeps_bind seals.keeps_if seals.keeps_pure seals.keeps_revision
        sealed_write_current [OF start(2,3)] seals.keeps_record seals.keeps_append_outbox)
qed

lemma mutation_keeps_seals:
  assumes "store_mutate op env d = (r, d')"
  shows "sealed_kept d d'"
proof (cases "is_sealed (op_campaign op) d")
  case False
  then show ?thesis using others_sealed mutation_keeps_others [OF assms] by blast
next
  case True
  have refl: "sealed_kept d d" by (simp add: sealed_kept_def)
  show ?thesis
  proof (cases "\<exists>q. op = OpCreate q")
    case created: True
    then have "\<not> op_recorded op d d'"
      using True by (auto simp: op_recorded_def is_sealed_def revision_of_def)
    then show ?thesis using store_mutate_effect [OF assms] refl by auto
  next
    case False
    then show ?thesis
      using True by (intro store_mutate_related [where R = sealed_kept, OF refl assms])
        (auto intro: seals.keepsD sealed_apply seals.keeps_candidate seals.keeps_slot_save_body seals.keeps_commit
          seals.keeps_restore)
  qed
qed

lemma call_keeps_seals: "sealed_kept d (fst (store_call d c))"
proof (cases c)
  case (CallMutate op env)
  then show ?thesis using mutation_keeps_seals by (cases "store_mutate op env d") auto
next
  case (CallDeliver i env)
  obtain e d' where run: "mark_outbox_delivered i env d = (e, d')" by (cases "mark_outbox_delivered i env d")
  then show ?thesis using deliver_effect [OF run] by (auto simp: CallDeliver intro!: sealed_same)
qed

interpretation any_store: op_machine store_call "\<lambda>d. True"
  by unfold_locales

lemma run_keeps_seals: "sealed_kept d (run_ops store_call d calls)"
  by (rule any_store.run_related) (simp_all add: call_keeps_seals, simp_all add: sealed_kept_def)

section \<open>Committed checkpoints\<close>

definition committed_kept :: "Database \<Rightarrow> Database \<Rightarrow> bool" where
  "committed_kept d d' \<longleftrightarrow> (\<forall>i k c s. find_checkpoint i k d = Some (c, s) \<and> cp_is_committed c \<longrightarrow>
     find_checkpoint i k d' = Some (c, s) \<and> checkpoint_slots_of i k d' = checkpoint_slots_of i k d)"

lemma find_checkpoint_same:
  assumes "t_checkpoints d' = t_checkpoints d" "t_snapshots d' = t_snapshots d"
  shows "find_checkpoint i k d' = find_checkpoint i k d"
  unfolding find_checkpoint_def find_snapshot_def assms ..

lemma committed_same:
  "t_checkpoints d' = t_checkpoints d \<Longrightarrow> t_snapshots d' = t_snapshots d \<Longrightarrow>
   t_checkpoint_slots d' = t_checkpoint_slots d \<Longrightarrow> committed_kept d d'"
proof -
  assume same: "t_checkpoints d' = t_checkpoints d" "t_snapshots d' = t_snapshots d"
    "t_checkpoint_slots d' = t_checkpoint_slots d"
  have "find_checkpoint i k d' = find_checkpoint i k d" "checkpoint_slots_of i k d' = checkpoint_slots_of i k d" for i k
    using find_checkpoint_same [OF same(1,2)] by (simp_all add: checkpoint_slots_of_def same)
  then show ?thesis by (simp add: committed_kept_def)
qed

lemma committed_refl: "committed_kept d d"
  by (rule committed_same) simp_all

lemma committed_rows:
  "delete_build own slot d = Inr (n, d') \<Longrightarrow> committed_kept d d'"
  "delete_builds own d = Inr (n, d') \<Longrightarrow> committed_kept d d'"
  "delete_adapter own adapter d = Inr (n, d') \<Longrightarrow> committed_kept d d'"
  "delete_adapters own d = Inr (n, d') \<Longrightarrow> committed_kept d d'"
  "upsert_build_row b d = Inr (n, d') \<Longrightarrow> committed_kept d d'"
  "upsert_adapter_row own a d = Inr (n, d') \<Longrightarrow> committed_kept d d'"
  "insert_outbox ob d = Inr (n, d') \<Longrightarrow> committed_kept d d'"
  "insert_journal j d = Inr (n, d') \<Longrightarrow> committed_kept d d'"
  "supersede_outbox own v d = Inr (n, d') \<Longrightarrow> committed_kept d d'"
  "insert_slot_row own s d = Inr (n, d') \<Longrightarrow> committed_kept d d'"
  "delete_slots own d = Inr (n, d') \<Longrightarrow> committed_kept d d'"
  "insert_campaign cr d = Inr (n, d') \<Longrightarrow> committed_kept d d'"
  by (auto simp: delete_build_def delete_builds_def delete_adapter_def delete_adapters_def upsert_build_row_def
      upsert_adapter_row_def insert_outbox_def insert_journal_def supersede_outbox_def insert_slot_row_def
      delete_slots_def insert_campaign_def Let_def intro!: committed_same split: if_splits)

lemma committed_campaign: "update_campaign i g f d = Inr (n, d') \<Longrightarrow> committed_kept d d'"
  by (rule committed_same) (simp_all add: update_campaign_tables)

interpretation committed: roster_statements committed_kept own mut for own mut
proof (unfold_locales, goal_cases)
  case 1 show ?case by (rule committed_refl)
next
  case (2 a b c) then show ?case unfolding committed_kept_def by metis
qed (erule committed_rows | erule committed_campaign)+

text \<open>The rest of a body, after the statements on the checkpoint tables.\<close>

lemma committed_after:
  "committed_kept d d' \<Longrightarrow> committed.keeps m \<Longrightarrow> ends m env (n, d') (\<lambda>_ d''. committed_kept d d'')"
  by (rule ends_mono [OF committed.keepsD], assumption) (erule (1) committed.trans)

lemma find_snapshot_append: "find_snapshot i k d = Some s \<Longrightarrow> t_snapshots d' = t_snapshots d @ xs \<Longrightarrow> find_snapshot i k d' = Some s"
  by (simp add: find_snapshot_def find_append_Some)

lemma committed_snapshot: "insert_snapshot sn d = Inr (n, d') \<Longrightarrow> committed_kept d d'"
  by (auto simp: committed_kept_def find_checkpoint_def insert_snapshot_def checkpoint_slots_of_def
      split: if_splits option.splits elim!: find_snapshot_append)

lemma committed_checkpoint: "insert_checkpoint ck d = Inr (n, d') \<Longrightarrow> committed_kept d d'"
  by (auto simp: committed_kept_def find_checkpoint_def insert_checkpoint_def checkpoint_slots_of_def find_append_Some
      find_snapshot_def split: if_splits option.splits)

lemma ends_if: "(b \<Longrightarrow> ends m env s Q) \<Longrightarrow> (\<not> b \<Longrightarrow> ends m' env s Q) \<Longrightarrow> ends (if b then m else m') env s Q"
  by simp

lemma ends_fail: "ends (sql_fail e) env s Q"
  by (simp add: sql_wp)

lemma ends_insert_or_exists:
  "(\<And>rows d'. u d = Inr (rows, d') \<Longrightarrow> Q d') \<Longrightarrow> ends (insert_or_exists u) env (n, d) (\<lambda>_ d'. Q d')"
  by (auto simp: insert_or_exists_def sql_wp split: sum.splits)

text \<open>What the slots of a new checkpoint leave alone.\<close>

definition beside_checkpoint :: "string \<Rightarrow> Database \<Rightarrow> CheckpointRow list \<times> SnapshotRow list \<times> ((string \<times> string) \<times> CheckpointSlotRecord) list" where
  "beside_checkpoint k d = (t_checkpoints d, t_snapshots d, filter (\<lambda>(i, s). fst i \<noteq> k) (t_checkpoint_slots d))"

lemma beside_slots: "leaves (beside_checkpoint k) (sql_each (\<lambda>s. step_only (insert_checkpoint_slot k i s)) ss)"
  by (intro leaves_intros leaves_step_only) (auto simp: insert_checkpoint_slot_def beside_checkpoint_def split: if_splits)

lemma beside_slots_of:
  assumes "beside_checkpoint k d' = beside_checkpoint k d" "k' \<noteq> k"
  shows "checkpoint_slots_of i k' d' = checkpoint_slots_of i k' d"
proof -
  have "filter (\<lambda>(x, s). x = (k', i)) xs = filter (\<lambda>(x, s). x = (k', i)) (filter (\<lambda>(i, s). fst i \<noteq> k) xs)" for xs :: "((string \<times> string) \<times> 'z) list"
    using assms(2) by (auto intro!: filter_cong)
  then show ?thesis using assms(1) unfolding checkpoint_slots_of_def beside_checkpoint_def by (metis prod.inject)
qed

lemma committed_candidate: "ends (candidate_body r g now) env (n, d) (\<lambda>_ d'. committed_kept d d')"
  unfolding candidate_body_def Let_def
proof (rule ends_bind [OF ends_load_projection], rule ends_bind [OF ends_require_true],
    rule ends_bind [OF ends_require_true], rule ends_bind [OF ends_require_true],
    rule ends_bind [OF ends_require_true], goal_cases)
  case (1 p n1 d1 u2 n2 d2 u3 n3 d3 u4 n4 d4 u5 n5 d5)
  then have start: "d5 = d" by auto
  let ?k = "ckr_checkpoint r"
  let ?row = "\<lparr>cp_id = ?k, cp_campaign = ckr_campaign r, cp_is_committed = False, cp_source_revision = ckr_expected r,
     cp_snapshot = ckr_snapshot r, cp_created_revision = ckr_expected r + 1, cp_committed_revision = None,
     cp_created = now, cp_committed = None\<rparr>"
  have slots: "committed_kept d d''"
    if "committed_kept d d0" "insert_checkpoint ?row d0 = Inr (x, d')" "t_checkpoints d0 = t_checkpoints d"
      "beside_checkpoint ?k d'' = beside_checkpoint ?k d'" for d0 d' d'' x
  proof -
    have fresh: "cp_id c \<noteq> ?k" if "c \<in> set (t_checkpoints d)" for c
      using that \<open>insert_checkpoint ?row d0 = Inr (x, d')\<close> \<open>t_checkpoints d0 = t_checkpoints d\<close>
      by (auto simp: insert_checkpoint_def split: if_splits)
    have "committed_kept d d'"
      using that(1) committed_checkpoint [OF that(2)] by (rule committed.trans)
    moreover have "k \<noteq> ?k" if "find_checkpoint i k d = Some (c, s)" for i k c s
      using that fresh by (auto simp: find_checkpoint_def find_Some_iff split: option.splits)
    moreover have "find_checkpoint i k d'' = find_checkpoint i k d'" for i k
      using that(4) by (intro find_checkpoint_same) (simp_all add: beside_checkpoint_def)
    ultimately show ?thesis
      using beside_slots_of [OF that(4)] unfolding committed_kept_def by metis
  qed
  have inserted: "ends (insert_or_exists (insert_checkpoint row)) env (n', d0)
      (\<lambda>_ d'. \<exists>x. insert_checkpoint row d0 = Inr (x, d'))" for row n' d0
    by (rule ends_insert_or_exists) blast
  show ?case
    unfolding start
    apply (split prod.split)
    apply (intro allI impI)
    apply (rule ends_bind [OF ends_require_true], simp only: conj_imp_eq_imp_imp)
    apply (rule ends_bind [OF ends_insert_or_exists [where Q = "\<lambda>d'. committed_kept d d' \<and> t_checkpoints d' = t_checkpoints d"]])
     apply (rule conjI, erule committed_snapshot, simp add: insert_snapshot_def split: if_splits)
    apply (rule ends_bind [OF inserted])
    apply (rule ends_bind [OF ends_leaves [OF beside_slots]])
    apply (rule committed_after)
     apply (elim conjE exE, erule (3) slots)
    apply (intro committed.keeps_bind committed.keeps_pure committed.keeps_revision committed.keeps_record
        committed.keeps_append_outbox)
    done
qed

lemma checkpoint_slots_update:
  assumes "update_checkpoint_slot i k t d = Inr (n, d')" "(i', k') \<noteq> (i, k)"
  shows "checkpoint_slots_of i' k' d' = checkpoint_slots_of i' k' d"
  using assms by (auto simp: update_checkpoint_slot_def Let_def checkpoint_slots_of_def checkpoint_slot_key_def
      intro!: arg_cong [where f = "sort_key cs_slot"] arg_cong [where f = "map snd"] filter_map_same split: if_splits)

definition checkpoint_row :: "string \<Rightarrow> string \<Rightarrow> Database \<Rightarrow> CheckpointRow option" where
  "checkpoint_row i k d = find (\<lambda>c. cp_campaign c = i \<and> cp_id c = k) (t_checkpoints d)"

lemma find_checkpoint_row: "find_checkpoint i k d = Some (c, s) \<Longrightarrow> checkpoint_row i k d = Some c"
  by (auto simp: find_checkpoint_def checkpoint_row_def split: option.splits)

lemma find_checkpoint_slot_row: "find_checkpoint_slot i k slot d = Some (c, s) \<Longrightarrow> checkpoint_row i k d = Some c"
  by (auto simp: find_checkpoint_slot_def checkpoint_row_def split: option.splits)

lemma committed_slot_save: "ends (slot_save_body r g now) env (n, d) (\<lambda>_ d'. committed_kept d d')"
  unfolding slot_save_body_def Let_def
proof (rule ends_bind [OF ends_current_revision [THEN ends_or_fail [THEN iffD2]]],
    rule ends_bind [OF ends_expect_revision [THEN ends_or_fail [THEN iffD2]]],
    rule ends_bind [where P = "\<lambda>row d'. d' = d \<and> row = find_checkpoint_slot (rsr_campaign r) (rsr_checkpoint r)
      (cs_slot (rsr_slot r)) d"], goal_cases)
  case (1 current n1 d1 v n2 d2)
  then show ?case by (auto simp: sql_wp)
next
  case (2 current n1 d1 v n2 d2 row n3 d3)
  then have start: "d3 = d" "row = find_checkpoint_slot (rsr_campaign r) (rsr_checkpoint r) (cs_slot (rsr_slot r)) d" by auto
  have update: "committed_kept d d'"
    if "update_checkpoint_slot (rsr_campaign r) (rsr_checkpoint r) (rsr_slot r) d = Inr (x, d')"
      "row = Some (c, old)" "\<not> cp_is_committed c" for x d' c old
  proof -
    have open_row: "checkpoint_row (rsr_campaign r) (rsr_checkpoint r) d = Some c"
      using that(2) start(2) find_checkpoint_slot_row by metis
    have "t_checkpoints d' = t_checkpoints d" "t_snapshots d' = t_snapshots d"
      using that(1) by (auto simp: update_checkpoint_slot_def Let_def)
    moreover have "(i, k) \<noteq> (rsr_campaign r, rsr_checkpoint r)"
      if "find_checkpoint i k d = Some (c0, s)" "cp_is_committed c0" for i k c0 s
      using find_checkpoint_row [OF that(1)] that(2) open_row \<open>\<not> cp_is_committed c\<close> by auto
    ultimately show ?thesis
      using checkpoint_slots_update [OF that(1)] unfolding committed_kept_def by (metis find_checkpoint_same)
  qed
  show ?case
  proof (cases row)
    case None
    then show ?thesis by (simp add: sql_wp)
  next
    case (Some x)
    then obtain c old where x: "row = Some (c, old)" by (cases x) auto
    have "ends (sql_bind (step_only (update_checkpoint_slot (rsr_campaign r) (rsr_checkpoint r) (rsr_slot r))) m)
        env (n3, d) (\<lambda>_ d'. committed_kept d d')"
      if "\<not> cp_is_committed c" "committed.keeps (m ())" for m :: "unit \<Rightarrow> (StoreError, u64) sql"
      unfolding step_only_def
      by (rule ends_bind [where P = "\<lambda>_ d'. committed_kept d d'"], rule ends_bind [where P = "\<lambda>_ d'. committed_kept d d'"], rule ends_step,
          rule update [OF _ x that(1)], assumption, simp add: sql_wp) (simp add: committed_after that)
    then show ?thesis
      unfolding start(1) x option.case prod.case ends_or_fail
      by (intro ends_if ends_fail) (simp_all add: ends_or_fail committed.keeps_bind committed.keeps_pure
          committed.keeps_revision committed.keeps_record committed.keeps_append_outbox)
  qed
qed

lemma ends_load_checkpoint_row:
  "ends (load_checkpoint i k) env (n, d) (\<lambda>ck d'. d' = d \<and>
     (\<exists>c s. find_checkpoint i k d = Some (c, s) \<and> ck_is_committed ck = cp_is_committed c \<and>
        ck_slots ck = checkpoint_slots_of i k d))"
  by (auto simp: load_checkpoint_def sql_wp split: option.splits sum.splits prod.splits)

lemma find_map_same:
  "(\<And>x. x \<in> set xs \<Longrightarrow> P (f x) = P x) \<Longrightarrow> find P (map f xs) = map_option f (find P xs)"
  by (induction xs) auto

lemma checkpoint_row_marked:
  assumes "mark_committed i k v now d = Inr (n, d')" "\<not> (i' = i \<and> k' = k)"
  shows "checkpoint_row i' k' d' = checkpoint_row i' k' d"
proof -
  let ?f = "\<lambda>c. if cp_campaign c = i \<and> cp_id c = k \<and> \<not> cp_is_committed c
    then c\<lparr>cp_is_committed := True, cp_committed_revision := Some v, cp_committed := Some now\<rparr> else c"
  have "checkpoint_row i' k' d' = map_option ?f (checkpoint_row i' k' d)"
    using assms(1) by (auto simp: mark_committed_def Let_def checkpoint_row_def intro!: find_map_same)
  moreover have "?f c = c" if "checkpoint_row i' k' d = Some c" for c
    using that assms(2) by (auto simp: checkpoint_row_def find_Some_iff)
  ultimately show ?thesis by (cases "checkpoint_row i' k' d") auto
qed

lemma find_checkpoint_via_row:
  "find_checkpoint i k d = (case checkpoint_row i k d of None \<Rightarrow> None
     | Some c \<Rightarrow> map_option (Pair c) (find_snapshot i (cp_snapshot c) d))"
  by (simp add: find_checkpoint_def checkpoint_row_def)

lemma committed_mark:
  assumes "mark_committed i k v now d = Inr (n, d')" "checkpoint_row i k d = Some c" "\<not> cp_is_committed c"
  shows "committed_kept d d'"
  unfolding committed_kept_def
proof (intro allI impI, elim conjE)
  fix i' k' c' s assume old: "find_checkpoint i' k' d = Some (c', s)" "cp_is_committed c'"
  then have "\<not> (i' = i \<and> k' = k)" using find_checkpoint_row [OF old(1)] assms(2,3) by auto
  then have "checkpoint_row i' k' d' = checkpoint_row i' k' d" by (rule checkpoint_row_marked [OF assms(1)])
  moreover have "t_snapshots d' = t_snapshots d" "t_checkpoint_slots d' = t_checkpoint_slots d"
    using assms(1) by (auto simp: mark_committed_def Let_def)
  ultimately show "find_checkpoint i' k' d' = Some (c', s) \<and> checkpoint_slots_of i' k' d' = checkpoint_slots_of i' k' d"
    using old(1) by (auto simp: find_checkpoint_via_row find_snapshot_def checkpoint_slots_of_def split: option.splits)
qed

lemma committed_commit: "ends (commit_body r g now) env (n, d) (\<lambda>_ d'. committed_kept d d')"
  unfolding commit_body_def Let_def
proof (rule ends_bind [OF ends_load_checkpoint_row [THEN ends_or_fail [THEN iffD2]]], goal_cases)
  case (1 ck n1 d1)
  then obtain c s where start: "d1 = d" "find_checkpoint (cmr_campaign r) (cmr_checkpoint r) d = Some (c, s)"
      "ck_is_committed ck = cp_is_committed c" by auto
  have select: "committed.keeps (step_done (select_checkpoint i k e v now'))" for i k e v now'
    by (intro committed.keeps_step) (auto simp: select_checkpoint_def split: if_splits dest: committed_campaign)
  show ?case
  proof (cases "ck_is_committed ck")
    case True
    then show ?thesis by (auto simp: sql_holds_def split: sum.splits prod.splits)
  next
    case False
    show ?thesis
      unfolding if_not_P [OF False] ends_or_fail start(1)
    proof (rule ends_bind [OF ends_current_revision], rule ends_bind [OF ends_expect_revision],
        rule ends_bind [OF ends_require_true], goal_cases)
      case (1 current n1 d1 v n2 d2 u n3 d3)
      then have "d3 = d" by auto
      show ?case
        unfolding \<open>d3 = d\<close>
        by (rule ends_bind [where P = "\<lambda>_ d'. committed_kept d d'"], rule ends_step,
            erule committed_mark, rule find_checkpoint_row [OF start(2)], use False start(3) in simp,
            rule committed_after, assumption, intro committed.keeps_bind select committed.keeps_pure
            committed.keeps_record committed.keeps_append_outbox)
    qed
  qed
qed

lemma mutation_keeps_committed:
  assumes "store_mutate op env d = (r, d')"
  shows "committed_kept d d'"
  by (rule store_mutate_related [where R = committed_kept, OF committed_refl assms])
    (auto intro: committed.keepsD committed.keeps_create committed.keeps_apply committed.keeps_restore
      committed_candidate committed_slot_save committed_commit)

lemma call_keeps_committed: "committed_kept d (fst (store_call d c))"
proof (cases c)
  case (CallMutate op env)
  then show ?thesis using mutation_keeps_committed by (cases "store_mutate op env d") auto
next
  case (CallDeliver i env)
  obtain e d' where run: "mark_outbox_delivered i env d = (e, d')" by (cases "mark_outbox_delivered i env d")
  then show ?thesis using deliver_effect [OF run] by (auto simp: CallDeliver intro!: committed_same)
qed

lemma run_keeps_committed: "committed_kept d (run_ops store_call d calls)"
  by (rule any_store.run_related) (simp_all add: call_keeps_committed committed_refl, erule (1) committed.trans)

end
