(* ===== verification/StoreRestore.thy ===== *)
theory StoreRestore
  imports StoreRetention
begin

text \<open>
  Restoring a checkpoint: the builds and adapter states of a campaign have unique keys, so has every
  snapshot taken of them, and a restore brings exactly the contents of the snapshot back.
\<close>

section \<open>Unique keys\<close>

definition keys_wf :: "Database \<Rightarrow> bool" where
  "keys_wf d \<longleftrightarrow> distinct (map (\<lambda>r. (br_campaign r, br_slot r)) (t_builds d)) \<and>
     distinct (map (\<lambda>(k, a). (k, ad_id a)) (t_adapters d))"

definition keys_kept :: "Database \<Rightarrow> Database \<Rightarrow> bool" where
  "keys_kept d d' \<longleftrightarrow> (keys_wf d \<longrightarrow> keys_wf d')"

lemma keys_same: "t_builds d' = t_builds d \<Longrightarrow> t_adapters d' = t_adapters d \<Longrightarrow> keys_kept d d'"
  by (simp add: keys_kept_def keys_wf_def)

lemma keys_rows:
  "insert_slot_row own s d = Inr (n, d') \<Longrightarrow> keys_kept d d'"
  "delete_slots own d = Inr (n, d') \<Longrightarrow> keys_kept d d'"
  "insert_campaign cr d = Inr (n, d') \<Longrightarrow> keys_kept d d'"
  "insert_outbox ob d = Inr (n, d') \<Longrightarrow> keys_kept d d'"
  "insert_journal j d = Inr (n, d') \<Longrightarrow> keys_kept d d'"
  "supersede_outbox own v d = Inr (n, d') \<Longrightarrow> keys_kept d d'"
  "insert_snapshot sn d = Inr (n, d') \<Longrightarrow> keys_kept d d'"
  "insert_checkpoint ck d = Inr (n, d') \<Longrightarrow> keys_kept d d'"
  "insert_checkpoint_slot ki own s d = Inr (n, d') \<Longrightarrow> keys_kept d d'"
  "update_checkpoint_slot own ki t d = Inr (n, d') \<Longrightarrow> keys_kept d d'"
  "mark_committed own ki v now d = Inr (n, d') \<Longrightarrow> keys_kept d d'"
  by (auto simp: insert_slot_row_def delete_slots_def insert_campaign_def insert_outbox_def insert_journal_def
      supersede_outbox_def insert_snapshot_def insert_checkpoint_def insert_checkpoint_slot_def
      update_checkpoint_slot_def mark_committed_def Let_def intro!: keys_same split: if_splits)

lemma distinct_map_filter_keys: "distinct (map f xs) \<Longrightarrow> distinct (map f (filter P xs))"
  by (rule distinct_map_filter)

lemma keys_deletes:
  "delete_build own slot d = Inr (n, d') \<Longrightarrow> keys_kept d d'"
  "delete_builds own d = Inr (n, d') \<Longrightarrow> keys_kept d d'"
  "delete_adapter own adapter d = Inr (n, d') \<Longrightarrow> keys_kept d d'"
  "delete_adapters own d = Inr (n, d') \<Longrightarrow> keys_kept d d'"
  by (auto simp: delete_build_def delete_builds_def delete_adapter_def delete_adapters_def Let_def keys_kept_def
      keys_wf_def intro: distinct_map_filter)

lemma distinct_upsert:
  assumes "distinct (map f rows)" "\<And>r. key r \<longleftrightarrow> f r = f row"
  shows "distinct (map f (upsert key row rows))"
proof (cases "\<exists>r \<in> set rows. key r")
  case True
  then have "map f (upsert key row rows) = map f rows" by (auto simp: upsert_def assms(2))
  then show ?thesis using assms(1) by simp
next
  case False
  then show ?thesis using assms by (auto simp: upsert_def)
qed

lemma keys_upserts:
  "upsert_build_row b d = Inr (n, d') \<Longrightarrow> keys_kept d d'"
  "upsert_adapter_row own a d = Inr (n, d') \<Longrightarrow> keys_kept d d'"
  by (auto simp: upsert_build_row_def upsert_adapter_row_def keys_kept_def keys_wf_def build_key_def
      intro!: distinct_upsert split: if_splits)

lemma keys_campaign: "update_campaign i g f d = Inr (n, d') \<Longrightarrow> keys_kept d d'"
  by (rule keys_same) (simp_all add: update_campaign_tables)

interpretation keys: roster_statements keys_kept own mut for own mut
proof (unfold_locales, goal_cases)
  case 1 show ?case by (simp add: keys_kept_def)
next
  case 2 then show ?case by (simp add: keys_kept_def)
qed (erule keys_rows keys_deletes keys_upserts keys_campaign)+

interpretation keys: checkpoint_statements keys_kept own mut for own mut
  by unfold_locales (erule keys_rows)+

lemma mutation_keeps_keys:
  assumes "store_mutate op env d = (r, d')"
  shows "keys_kept d d'"
  by (rule store_mutate_related [where R = keys_kept, OF _ assms])
    (auto simp: keys_kept_def [of d d] intro: keys.keepsD keys.keeps_create keys.keeps_apply keys.keeps_candidate
      keys.keeps_slot_save_body keys.keeps_commit keys.keeps_restore)

section \<open>Snapshots\<close>

definition projection_wf :: "CampaignProjection \<Rightarrow> bool" where
  "projection_wf p \<longleftrightarrow> distinct (map cb_slot (pr_builds p)) \<and> distinct (map ad_id (pr_adapters p)) \<and>
     list_all (\<lambda>a. validate_adapter_state a = Store_None) (pr_adapters p)"

definition snapshots_wf :: "Database \<Rightarrow> bool" where
  "snapshots_wf d \<longleftrightarrow> (\<forall>s \<in> set (t_snapshots d). \<exists>p. decode_snapshot (sn_payload s) = Inr p \<and> projection_wf p)"

definition snapshots_kept :: "Database \<Rightarrow> Database \<Rightarrow> bool" where
  "snapshots_kept d d' \<longleftrightarrow> (keys_wf d \<and> snapshots_wf d \<longrightarrow> snapshots_wf d')"

lemma snapshots_of_leaves: "t_snapshots d' = t_snapshots d \<Longrightarrow> snapshots_kept d d'"
  by (simp add: snapshots_kept_def snapshots_wf_def)

lemma snapshots_rows:
  "insert_slot_row own s d = Inr (n, d') \<Longrightarrow> t_snapshots d' = t_snapshots d"
  "delete_slots own d = Inr (n, d') \<Longrightarrow> t_snapshots d' = t_snapshots d"
  "insert_campaign cr d = Inr (n, d') \<Longrightarrow> t_snapshots d' = t_snapshots d"
  "insert_outbox ob d = Inr (n, d') \<Longrightarrow> t_snapshots d' = t_snapshots d"
  "insert_journal j d = Inr (n, d') \<Longrightarrow> t_snapshots d' = t_snapshots d"
  "supersede_outbox own v d = Inr (n, d') \<Longrightarrow> t_snapshots d' = t_snapshots d"
  "insert_checkpoint ck d = Inr (n, d') \<Longrightarrow> t_snapshots d' = t_snapshots d"
  "insert_checkpoint_slot ki own s d = Inr (n, d') \<Longrightarrow> t_snapshots d' = t_snapshots d"
  "update_checkpoint_slot own ki t d = Inr (n, d') \<Longrightarrow> t_snapshots d' = t_snapshots d"
  "mark_committed own ki v now d = Inr (n, d') \<Longrightarrow> t_snapshots d' = t_snapshots d"
  "delete_build own slot d = Inr (n, d') \<Longrightarrow> t_snapshots d' = t_snapshots d"
  "delete_builds own d = Inr (n, d') \<Longrightarrow> t_snapshots d' = t_snapshots d"
  "delete_adapter own adapter d = Inr (n, d') \<Longrightarrow> t_snapshots d' = t_snapshots d"
  "delete_adapters own d = Inr (n, d') \<Longrightarrow> t_snapshots d' = t_snapshots d"
  "upsert_build_row b d = Inr (n, d') \<Longrightarrow> t_snapshots d' = t_snapshots d"
  "upsert_adapter_row own a d = Inr (n, d') \<Longrightarrow> t_snapshots d' = t_snapshots d"
  by (auto simp: insert_slot_row_def delete_slots_def insert_campaign_def insert_outbox_def insert_journal_def
      supersede_outbox_def insert_checkpoint_def insert_checkpoint_slot_def update_checkpoint_slot_def
      mark_committed_def delete_build_def delete_builds_def delete_adapter_def delete_adapters_def
      upsert_build_row_def upsert_adapter_row_def Let_def split: if_splits)

interpretation same_snapshots: roster_statements "same_part t_snapshots" own mut for own mut
  by unfold_locales (simp add: same_part_def snapshots_rows update_campaign_tables)+

lemma distinct_keys_of:
  "distinct (map (\<lambda>(k, a). (k, f a)) xs) \<Longrightarrow> distinct (map f (map snd (filter (\<lambda>(k, r). k = i) xs)))"
  by (induction xs) (auto simp: image_iff)

lemma distinct_sorted_key: "distinct (map f xs) \<Longrightarrow> distinct (map f (sort_key f xs))"
  by (simp add: distinct_map)

lemma ends_load_projection_wf:
  "ends (load_campaign_projection i a) env (n, d) (\<lambda>p d'. d' = d \<and> find_campaign i d = Some (pr_campaign p) \<and>
     (keys_wf d \<longrightarrow> projection_wf p))"
proof -
  have "distinct (map cb_slot (map (the \<circ> read_build_row) (sort_key br_slot (builds_of i d))))"
    if "keys_wf d" "list_all (\<lambda>r. read_build_row r \<noteq> None) (sort_key br_slot (builds_of i d))"
  proof -
    have "cb_slot (the (read_build_row r)) = br_slot r" if "read_build_row r \<noteq> None" for r
      using that by (auto simp: read_build_row_def split: sum.splits if_splits)
    then have "map cb_slot (map (the \<circ> read_build_row) (sort_key br_slot (builds_of i d))) =
        map br_slot (sort_key br_slot (builds_of i d))"
      using that(2) by (simp add: list_all_iff)
    moreover have "distinct (map br_slot (builds_of i d))"
      using that(1) by (auto simp: keys_wf_def builds_of_def distinct_map inj_on_def)
    ultimately show ?thesis by (auto simp: distinct_map inj_on_def)
  qed
  moreover have "distinct (map ad_id (filter (audience_sees a) (sort_key ad_id (adapters_of i d))))" if "keys_wf d"
    using that unfolding keys_wf_def adapters_of_def
    by (intro distinct_map_filter distinct_sorted_key distinct_keys_of) simp
  moreover have "list_all (\<lambda>a. validate_adapter_state a = Store_None) (filter (audience_sees a) (sort_key ad_id (adapters_of i d)))"
    if "list_all adapter_row_valid (sort_key ad_id (adapters_of i d))"
    using that by (auto simp: list_all_iff adapter_row_valid_def)
  ultimately show ?thesis
    unfolding load_campaign_projection_def
    by (intro ends_bind [OF ends_load_campaign]) (auto simp: sql_wp projection_wf_def)
qed

lemma snapshots_after:
  "leaves t_snapshots m \<Longrightarrow> snapshots_kept d d' \<Longrightarrow> ends m env (n, d') (\<lambda>_ d''. snapshots_kept d d'')"
  by (erule ends_mono [OF ends_leaves]) (simp add: snapshots_kept_def snapshots_wf_def)

lemma insert_or_exists_leaves_snapshots:
  "leaves t_snapshots (insert_or_exists (insert_checkpoint ck))"
  by (rule insert_or_exists_leaves) (simp add: snapshots_rows)

lemma snapshots_candidate: "ends (candidate_body r g now) env (n, d) (\<lambda>_ d'. snapshots_kept d d')"
  unfolding candidate_body_def Let_def
proof (rule ends_bind [OF ends_load_projection_wf], rule ends_bind [OF ends_require_true],
    rule ends_bind [OF ends_require_true], rule ends_bind [OF ends_require_true],
    rule ends_bind [OF ends_require_true], goal_cases)
  case (1 p n1 d1 u2 n2 d2 u3 n3 d3 u4 n4 d4 u5 n5 d5)
  then have start: "d5 = d" "keys_wf d \<Longrightarrow> projection_wf p" by auto
  have tail: "leaves t_snapshots (sql_bind (sql_each (\<lambda>s. step_only (insert_checkpoint_slot k i s)) ss) (\<lambda>_.
      sql_bind (update_campaign_revision i e v now) (\<lambda>_. sql_bind (inject_fault AfterCurrentState) (\<lambda>_.
      sql_bind (record_mutation (append_journal i m e v kind g w q now c cv) (append_outbox i m v os now)) (\<lambda>_. sql_ret x)))))"
    for k i ss e v m kind w q c cv os x
    unfolding leaves_def
    by (intro part.keeps_bind part.keeps_each part.keeps_pure part.keeps_step_only same_snapshots.keeps_revision
        same_snapshots.keeps_record same_snapshots.keeps_append_outbox) (simp add: same_part_def snapshots_rows)
  have new: "snapshots_kept d d'"
    if "insert_snapshot sn d = Inr (x, d')" "sn_payload sn = payload"
      "encode_snapshot (p\<lparr>pr_campaign := q\<rparr>) = (Store_None, payload)" for sn x d' payload q
  proof -
    have "decode_snapshot payload = Inr (p\<lparr>pr_campaign := q\<rparr>)"
      using that(3) snapshot_payload.round_trip [of "p\<lparr>pr_campaign := q\<rparr>" payload "[]"]
      by (simp add: encode_snapshot_iff decode_snapshot_iff)
    then show ?thesis
      using that(1,2) start(2)
      by (auto simp: insert_snapshot_def snapshots_kept_def snapshots_wf_def projection_wf_def split: if_splits)
  qed
  show ?case
    unfolding start(1)
    apply (split prod.split)
    apply (intro allI impI)
    apply (rule ends_bind [OF ends_require_true], simp only: conj_imp_eq_imp_imp)
    apply (rule ends_bind [OF ends_insert_or_exists [where Q = "\<lambda>d'. snapshots_kept d d'"]])
     apply (erule new, simp, simp)
    apply (rule ends_bind [where P = "\<lambda>_ d'. snapshots_kept d d'"])
     apply (rule snapshots_after [OF insert_or_exists_leaves_snapshots], assumption)
    apply (rule snapshots_after [OF tail], assumption)
    done
qed

lemma mutation_keeps_snapshots:
  assumes "store_mutate op env d = (r, d')"
  shows "snapshots_kept d d'"
proof -
  have same: "snapshots_kept d d''" if "same_part t_snapshots d d''" for d''
    using that by (intro snapshots_of_leaves) (simp add: same_part_def)
  have slot_save: "frame.keeps (same_part t_snapshots) (slot_save_body q g now)" for q g now
    unfolding slot_save_body_def Let_def
    by (intro part.keeps_intros same_snapshots.keeps_expect same_snapshots.keeps_reads [OF read_current_revision_reads]
        part.keeps_step_only same_snapshots.keeps_revision same_snapshots.keeps_record
        same_snapshots.keeps_append_outbox) (simp_all add: same_part_def snapshots_rows)
  have select: "frame.keeps (same_part t_snapshots) (step_done (select_checkpoint i k e v now))" for i k e v now
    by (intro part.keeps_step) (auto simp: select_checkpoint_def same_part_def split: if_splits dest: update_campaign_tables(4))
  have commit: "frame.keeps (same_part t_snapshots) (commit_body q g now)" for q g now
    unfolding commit_body_def Let_def
  proof (intro part.keeps_bind part.keeps_if part.keeps_or_fail part.keeps_pure select
      same_snapshots.keeps_expect same_snapshots.keeps_reads [OF read_current_revision_reads]
      same_snapshots.keeps_reads [OF load_checkpoint_reads] part.keeps_step same_snapshots.keeps_record
      same_snapshots.keeps_append_outbox, goal_cases)
    case 1 show ?case by (auto simp: part.keeps_def sql_holds_def split: sum.splits prod.splits)
  qed (simp add: same_part_def snapshots_rows)
  show ?thesis
    by (rule store_mutate_related [where R = snapshots_kept, OF _ assms])
      (auto simp: snapshots_kept_def [of d d] intro: snapshots_candidate ends_mono [OF part.keepsD same]
        same_snapshots.keeps_create same_snapshots.keeps_apply same_snapshots.keeps_restore slot_save commit)
qed

lemma store_wf_call: "keys_wf d \<and> snapshots_wf d \<Longrightarrow> keys_wf (fst (store_call d c)) \<and> snapshots_wf (fst (store_call d c))"
proof (cases c)
  case (CallMutate op env)
  obtain r d' where run: "store_mutate op env d = (r, d')" by (cases "store_mutate op env d")
  assume "keys_wf d \<and> snapshots_wf d"
  then show ?thesis
    using mutation_keeps_keys [OF run] mutation_keeps_snapshots [OF run]
    by (simp add: CallMutate run keys_kept_def snapshots_kept_def)
next
  case (CallDeliver i env)
  obtain e d' where run: "mark_outbox_delivered i env d = (e, d')" by (cases "mark_outbox_delivered i env d")
  assume "keys_wf d \<and> snapshots_wf d"
  then show ?thesis
    using deliver_effect [OF run] by (auto simp: CallDeliver run keys_wf_def snapshots_wf_def)
qed

interpretation store_contents: op_machine store_call "\<lambda>d. keys_wf d \<and> snapshots_wf d"
  by unfold_locales (rule store_wf_call)

lemma store_run_wf: "keys_wf (store_run calls)" "snapshots_wf (store_run calls)"
proof -
  have "keys_wf empty_database \<and> snapshots_wf empty_database"
    by (simp add: keys_wf_def snapshots_wf_def empty_database_def)
  then show "keys_wf (store_run calls)" "snapshots_wf (store_run calls)"
    using store_contents.run_wf [of empty_database calls] by (simp_all add: store_run_def)
qed

section \<open>What a restore writes\<close>

definition restored_build :: "string \<Rightarrow> u64 \<Rightarrow> CharacterBuildState \<Rightarrow> BuildRow" where
  "restored_build i v b =
     build_row i (b\<lparr>cb_revision := v\<rparr>) (snd (encode_character_build (b\<lparr>cb_revision := v\<rparr>))) v"

definition restored_adapter :: "string \<Rightarrow> u64 \<Rightarrow> AdapterState \<Rightarrow> string \<times> AdapterState" where
  "restored_adapter i v a = (i, a\<lparr>ad_revision := v\<rparr>)"

lemma ends_step_only: "(\<And>rows d'. u d = Inr (rows, d') \<Longrightarrow> Q () d') \<Longrightarrow> ends (step_only u) env (n, d) Q"
  by (auto simp: step_only_def step_done_def sql_wp split: sum.splits)

lemma upsert_new: "(\<forall>r \<in> set rows. \<not> key r) \<Longrightarrow> upsert key row rows = rows @ [row]"
  by (simp add: upsert_def)

lemma ends_restore_builds:
  assumes "distinct (map cb_slot bs)" "\<forall>b \<in> set bs. \<forall>r \<in> set rows. \<not> build_key i (cb_slot b) r"
  shows "ends (sql_each (\<lambda>b. upsert_character_build i (b\<lparr>cb_revision := v\<rparr>) v) bs) env (n, d\<lparr>t_builds := rows\<rparr>)
    (\<lambda>_ d'. d' = d\<lparr>t_builds := rows @ map (restored_build i v) bs\<rparr>)"
  using assms
proof (induction bs arbitrary: rows n)
  case Nil
  then show ?case by (simp add: sql_wp)
next
  case (Cons b bs)
  have one: "ends (upsert_character_build i (b\<lparr>cb_revision := v\<rparr>) v) env (n, d\<lparr>t_builds := rows\<rparr>)
      (\<lambda>_ d'. d' = d\<lparr>t_builds := rows @ [restored_build i v b]\<rparr>)"
    using Cons.prems(2)
    by (auto simp: upsert_character_build_def verify_slot_binding_def sql_wp step_only_def step_done_def
        upsert_build_row_def build_row_def restored_build_def build_key_def upsert_new
        split: option.splits prod.splits sum.splits if_splits)
  have rest: "ends (sql_each (\<lambda>b. upsert_character_build i (b\<lparr>cb_revision := v\<rparr>) v) bs) env
      (n', d\<lparr>t_builds := rows @ [restored_build i v b]\<rparr>)
      (\<lambda>_ d'. d' = d\<lparr>t_builds := (rows @ [restored_build i v b]) @ map (restored_build i v) bs\<rparr>)" for n'
    using Cons.prems by (intro Cons.IH) (auto simp: restored_build_def build_row_def build_key_def)
  show ?case
    unfolding sql_each.simps by (rule ends_bind [OF one]) (simp add: rest [simplified])
qed

lemma ends_restore_adapters:
  assumes "distinct (map ad_id as)" "\<forall>a \<in> set as. \<forall>(k, r) \<in> set rows. \<not> (k = i \<and> ad_id r = ad_id a)"
  shows "ends (sql_each (\<lambda>a. upsert_adapter_state i a v) as) env (n, d\<lparr>t_adapters := rows\<rparr>)
    (\<lambda>_ d'. d' = d\<lparr>t_adapters := rows @ map (restored_adapter i v) as\<rparr>)"
  using assms
proof (induction as arbitrary: rows n)
  case Nil
  then show ?case by (simp add: sql_wp)
next
  case (Cons a as)
  have new: "upsert (\<lambda>(k, r). k = i \<and> ad_id r = ad_id a) row rows = rows @ [row]" for row
    using Cons.prems(2) by (intro upsert_new) auto
  have one: "ends (upsert_adapter_state i a v) env (n, d\<lparr>t_adapters := rows\<rparr>)
      (\<lambda>_ d'. d' = d\<lparr>t_adapters := rows @ [restored_adapter i v a]\<rparr>)"
    unfolding upsert_adapter_state_def
    by (rule ends_step_only) (auto simp: upsert_adapter_row_def restored_adapter_def new split: if_splits)
  have rest: "ends (sql_each (\<lambda>a. upsert_adapter_state i a v) as) env
      (n', d\<lparr>t_adapters := rows @ [restored_adapter i v a]\<rparr>)
      (\<lambda>_ d'. d' = d\<lparr>t_adapters := (rows @ [restored_adapter i v a]) @ map (restored_adapter i v) as\<rparr>)" for n'
    using Cons.prems by (intro Cons.IH) (auto simp: restored_adapter_def)
  show ?case
    unfolding sql_each.simps by (rule ends_bind [OF one]) (simp add: rest [simplified])
qed

text \<open>The contents of a campaign besides its journal and outbox.\<close>

definition contents :: "string \<Rightarrow> Database \<Rightarrow> CampaignRecord option \<times> CampaignSlotRecord list \<times> BuildRow list \<times> AdapterState list" where
  "contents i d = (find_campaign i d, slots_of i d, builds_of i d, adapters_of i d)"

definition restored_record :: "RestoreCheckpointRequest \<Rightarrow> CampaignProjection \<Rightarrow> u64 \<Rightarrow> CampaignRecord \<Rightarrow> CampaignRecord" where
  "restored_record r p now c = c\<lparr>cr_codec_version := cr_codec_version (pr_campaign p),
     cr_payload := rcr_core_payload r, cr_revision := rcr_expected r + 1, cr_updated := now\<rparr>"

lemma filter_builds_of: "builds_of i (d\<lparr>t_builds := filter (\<lambda>r. br_campaign r \<noteq> i) bs @ map (restored_build i v) ps\<rparr>) =
    map (restored_build i v) ps"
  by (auto simp: builds_of_def filter_empty_conv restored_build_def build_row_def intro!: filter_True)

lemma filter_adapters_of: "adapters_of i (d\<lparr>t_adapters := filter (\<lambda>(k, r). k \<noteq> i) as @ map (restored_adapter i v) ps\<rparr>) =
    map (\<lambda>a. a\<lparr>ad_revision := v\<rparr>) ps"
  by (auto simp: adapters_of_def filter_empty_conv restored_adapter_def filter_map comp_def)

lemma tables_commute:
  "(d :: Database)\<lparr>t_adapters := as, t_builds := bs\<rparr> = d\<lparr>t_builds := bs, t_adapters := as\<rparr>"
  by (cases d) simp

lemma contents_other:
  "contents i (d\<lparr>t_outbox := x\<rparr>) = contents i d" "contents i (d\<lparr>t_journal := j\<rparr>) = contents i d"
  "contents i (d\<lparr>last_sequence := n\<rparr>) = contents i d" "contents i (d\<lparr>last_outbox := n\<rparr>) = contents i d"
  by (simp_all add: contents_def find_campaign_def slots_of_def builds_of_def adapters_of_def)

lemma ends_write_restored_state:
  assumes "projection_wf p" "find_campaign (rcr_campaign r) d = Some c" "cr_revision c = rcr_expected r"
  shows "ends (write_restored_state r p (rcr_expected r + 1) now) env (n, d) (\<lambda>_ d'.
     contents (rcr_campaign r) d' = (Some (restored_record r p now c), slots_of (rcr_campaign r) d,
       map (restored_build (rcr_campaign r) (rcr_expected r + 1)) (pr_builds p),
       map (\<lambda>a. a\<lparr>ad_revision := rcr_expected r + 1\<rparr>) (pr_adapters p)) \<and>
     (\<forall>o' \<in> set (pending_of (rcr_campaign r) d'). rcr_expected r + 1 \<le> ob_revision o'))"
  (is "ends _ _ _ (\<lambda>_ d'. ?post d')")
proof -
  let ?i = "rcr_campaign r"
  let ?v = "rcr_expected r + 1"
  let ?f = "\<lambda>c. c\<lparr>cr_codec_version := cr_codec_version (pr_campaign p), cr_payload := rcr_core_payload r,
          cr_revision := ?v, cr_updated := now\<rparr>"
  have update: "ends (step_done (update_campaign ?i (\<lambda>c. cr_revision c = rcr_expected r) ?f)) env (n, d)
      (\<lambda>_ d'. \<exists>cs. d' = d\<lparr>t_campaigns := cs\<rparr> \<and> find_campaign ?i d' = Some (restored_record r p now c))"
  proof (rule ends_step)
    fix rows d' assume u: "update_campaign ?i (\<lambda>c. cr_revision c = rcr_expected r) ?f d = Inr (rows, d')"
    have "find_campaign ?i d' = Some (restored_record r p now c)"
      using update_campaign_ledger(3) [OF u, of ?i] assms(2,3) find_campaign_id [OF assms(2)]
      by (simp add: restored_record_def)
    moreover have "\<exists>cs. d' = d\<lparr>t_campaigns := cs\<rparr>"
      using u by (auto simp: update_campaign_def Let_def split: if_splits)
    ultimately show "\<exists>cs. d' = d\<lparr>t_campaigns := cs\<rparr> \<and> find_campaign ?i d' = Some (restored_record r p now c)" by blast
  qed
  show ?thesis
    unfolding write_restored_state_def Let_def
  proof (rule ends_bind [OF update], rule ends_bind [OF ends_require_true], goal_cases)
    case (1 x n1 d1 u n2 d2)
    then obtain cs where d2: "d2 = d\<lparr>t_campaigns := cs\<rparr>" and c: "find_campaign ?i d2 = Some (restored_record r p now c)"
      by auto
    let ?builds = "filter (\<lambda>r. br_campaign r \<noteq> ?i) (t_builds d)"
    let ?adapters = "filter (\<lambda>(k, r). k \<noteq> ?i) (t_adapters d)"
    let ?d3 = "d2\<lparr>t_builds := ?builds\<rparr>"
    let ?d4 = "d2\<lparr>t_builds := ?builds, t_adapters := ?adapters\<rparr>"
    let ?d5 = "d2\<lparr>t_builds := ?builds @ map (restored_build ?i ?v) (pr_builds p), t_adapters := ?adapters\<rparr>"
    let ?d6 = "d2\<lparr>t_builds := ?builds @ map (restored_build ?i ?v) (pr_builds p),
        t_adapters := ?adapters @ map (restored_adapter ?i ?v) (pr_adapters p)\<rparr>"
    have no_builds: "ends (step_only (delete_builds ?i)) env (n2, d2) (\<lambda>_ d'. d' = ?d3)"
      by (rule ends_step_only) (auto simp: delete_builds_def d2)
    have no_adapters: "ends (step_only (delete_adapters ?i)) env (n', ?d3) (\<lambda>_ d'. d' = ?d4)" for n'
      by (rule ends_step_only) (auto simp: delete_adapters_def d2)
    have builds: "ends (sql_each (\<lambda>b. upsert_character_build ?i (b\<lparr>cb_revision := ?v\<rparr>) ?v) (pr_builds p)) env
        (n', ?d4) (\<lambda>_ d'. d' = ?d5)" for n'
      using ends_restore_builds [of "pr_builds p" ?builds ?i ?v env n' "d2\<lparr>t_adapters := ?adapters\<rparr>"] assms(1)
      unfolding tables_commute by (auto simp: projection_wf_def build_key_def)
    have adapters: "ends (sql_each (\<lambda>a. upsert_adapter_state ?i a ?v) (pr_adapters p)) env
        (n', ?d5) (\<lambda>_ d'. d' = ?d6)" for n'
      using ends_restore_adapters [of "pr_adapters p" ?adapters ?i ?v env n'
          "d2\<lparr>t_builds := ?builds @ map (restored_build ?i ?v) (pr_builds p)\<rparr>"] assms(1)
      by (auto simp: projection_wf_def)
    have "builds_of ?i ?d6 = map (restored_build ?i ?v) (pr_builds p)"
      using filter_builds_of [where i = ?i and d = d2 and bs = "t_builds d" and v = ?v and ps = "pr_builds p"] by (simp add: builds_of_def)
    moreover have "adapters_of ?i ?d6 = map (\<lambda>a. a\<lparr>ad_revision := ?v\<rparr>) (pr_adapters p)"
      using filter_adapters_of [where i = ?i and d = d2 and as = "t_adapters d" and v = ?v and ps = "pr_adapters p"] by (simp add: adapters_of_def)
    ultimately have d6: "contents ?i ?d6 = (Some (restored_record r p now c), slots_of ?i d,
        map (restored_build ?i ?v) (pr_builds p), map (\<lambda>a. a\<lparr>ad_revision := ?v\<rparr>) (pr_adapters p))"
      using c by (simp add: contents_def find_campaign_def slots_of_def d2)
    have last: "ends (step_only (supersede_outbox ?i ?v)) env (n', ?d6) (\<lambda>_ d'. ?post d')" for n'
      by (rule ends_step_only)
        (use d6 in \<open>auto simp: supersede_outbox_def Let_def contents_other pending_of_def split: if_splits\<close>)
    show ?case
      by (rule ends_bind [OF no_builds], hypsubst, rule ends_bind [OF no_adapters], hypsubst,
          rule ends_bind [OF builds], hypsubst, rule ends_bind [OF adapters], hypsubst, rule last)
  qed
qed

text \<open>
  The state after a restore: the roster as it was, which is the one of the snapshot, the record with
  the given core state and the next revision, and the builds and adapter states of the snapshot,
  stamped with that revision; what was still to be delivered is superseded, and the restored
  projection is queued.
\<close>

definition restored_from :: "RestoreCheckpointRequest \<Rightarrow> u64 \<Rightarrow> CampaignRecord \<Rightarrow> CampaignProjection \<Rightarrow> Database \<Rightarrow> Database \<Rightarrow> bool" where
  "restored_from r now c p d d' \<longleftrightarrow> (let i = rcr_campaign r; v = rcr_expected r + 1 in
     contents i d' = (Some (restored_record r p now c), slots_of i d, map (restored_build i v) (pr_builds p),
       map (\<lambda>a. a\<lparr>ad_revision := v\<rparr>) (pr_adapters p)) \<and>
     sort_key rec_slot (slots_of i d) = pr_slots p \<and>
     (\<forall>o' \<in> set (pending_of i d'). v \<le> ob_revision o') \<and>
     (\<exists>o'. last (pending_of i d') = o' \<and> pending_of i d' \<noteq> [] \<and> ob_revision o' = v \<and>
       ob_payload o' = snd (encode_snapshot (restored_projection r v now (cr_checkpoint c) p))))"

definition restores :: "RestoreCheckpointRequest \<Rightarrow> u64 \<Rightarrow> Database \<Rightarrow> Database \<Rightarrow> bool" where
  "restores r now d d' \<longleftrightarrow> (\<exists>k s c p. find_checkpoint (rcr_campaign r) (rcr_checkpoint r) d = Some (k, s) \<and>
     cp_is_committed k \<and> decode_snapshot (sn_payload s) = Inr p \<and>
     find_campaign (rcr_campaign r) d = Some c \<and> restored_from r now c p d d')"

lemma ends_checkpoint_snapshot:
  "ends (load_checkpoint i k) env (n, d) (\<lambda>ck d'. d' = d \<and>
     (\<exists>c s. find_checkpoint i k d = Some (c, s) \<and> ck_is_committed ck = cp_is_committed c \<and> ck_snapshot ck = cp_snapshot c))"
  by (auto simp: load_checkpoint_def sql_wp split: option.splits sum.splits prod.splits)

lemma ends_snapshot_row:
  "ends (read_snapshot_row i ck) env (n, d) (\<lambda>p d'. d' = d \<and>
     (\<exists>s. find_snapshot i (ck_snapshot ck) d = Some s \<and> decode_snapshot (sn_payload s) = Inr p))"
  by (auto simp: read_snapshot_row_def sql_wp split: option.splits sum.splits prod.splits)

lemma ends_projection_slots:
  "ends (load_campaign_projection i a) env (n, d) (\<lambda>p d'. d' = d \<and> find_campaign i d = Some (pr_campaign p) \<and>
     pr_slots p = sort_key rec_slot (slots_of i d))"
  unfolding load_campaign_projection_def
  by (rule ends_bind [OF ends_load_campaign]) (auto simp: sql_wp)

lemma ends_journal_contents:
  "ends (append_journal i m e v k g w p now c cv) env (n, d)
     (\<lambda>_ d'. contents x d' = contents x d \<and> t_outbox d' = t_outbox d)"
  unfolding append_journal_def
  by (rule ends_step_only) (auto simp: insert_journal_def contents_other split: if_splits)

lemma ends_restore_outbox:
  "ends (append_outbox i m v [intent] now) env (n, d)
     (\<lambda>_ d'. contents x d' = contents x d \<and>
        (\<exists>o'. ob_revision o' = v \<and> ob_payload o' = oi_payload intent \<and> pending_of i d' = pending_of i d @ [o']))"
  by (auto simp: append_outbox_def sql_wp step_only_def step_done_def insert_outbox_def contents_other pending_of_def
      split: sum.splits if_splits)

lemma ends_restore_body:
  assumes "snapshots_wf d"
  shows "ends (restore_body r g now) env (n, d) (\<lambda>v d'. v = rcr_expected r + 1 \<and> restores r now d d')"
  unfolding restore_body_def Let_def
proof (rule ends_bind [OF ends_projection_slots], rule ends_bind [OF ends_require_true],
    rule ends_bind [OF ends_require_true], rule ends_bind [OF ends_checkpoint_snapshot],
    rule ends_bind [OF ends_require_true], rule ends_bind [OF ends_snapshot_row],
    rule ends_bind [OF ends_require_true], rule ends_bind [OF ends_require_true], goal_cases)
  case (1 current n1 d1 u1 n2 d2 u2 n3 d3 ck n4 d4 u3 n5 d5 p n6 d6 u4 n7 d7 u5 n8 d8)
  let ?i = "rcr_campaign r"
  let ?v = "rcr_expected r + 1"
  let ?c = "pr_campaign current"
  obtain k s where start: "d8 = d" "find_campaign ?i d = Some ?c" "cr_revision ?c = rcr_expected r"
      "find_checkpoint ?i (rcr_checkpoint r) d = Some (k, s)" "cp_is_committed k" "decode_snapshot (sn_payload s) = Inr p"
      "sort_key rec_slot (slots_of ?i d) = pr_slots p"
    using 1 by (auto simp: find_checkpoint_def split: option.splits)
  have "s \<in> set (t_snapshots d)"
    using start(4) by (auto simp: find_checkpoint_def find_snapshot_def find_Some_iff split: option.splits)
  then have wf: "projection_wf p" using assms start(6) by (auto simp: snapshots_wf_def)
  let ?payload = "snd (encode_snapshot (restored_projection r ?v now (cr_checkpoint ?c) p))"
  let ?at = "\<lambda>d'. contents ?i d' = (Some (restored_record r p now ?c), slots_of ?i d, map (restored_build ?i ?v) (pr_builds p),
       map (\<lambda>a. a\<lparr>ad_revision := ?v\<rparr>) (pr_adapters p)) \<and> (\<forall>o' \<in> set (pending_of ?i d'). ?v \<le> ob_revision o')"
  let ?queued = "\<lambda>d'. ?at d' \<and> pending_of ?i d' \<noteq> [] \<and> ob_revision (last (pending_of ?i d')) = ?v \<and>
      ob_payload (last (pending_of ?i d')) = ?payload"
  have restored: "restores r now d d'" if "?queued d'" for d'
    using that start unfolding restores_def restored_from_def Let_def by blast
  have journal: "ends (append_journal ?i m e v kd g' w q now' c cv) env (n', d') (\<lambda>_ d'. ?at d')"
    if "?at d'" for m e v kd g' w q now' c cv n' d'
    by (rule ends_mono [OF ends_journal_contents [where x = ?i]]) (use that in \<open>simp add: pending_of_def\<close>)
  have outbox: "ends (case encode_snapshot (restored_projection r ?v now (cr_checkpoint ?c) p) of (e, payload) \<Rightarrow>
      sql_bind (sql_require (e = Store_None) e) (\<lambda>_. append_outbox ?i m ?v
        [\<lparr>oi_codec_version = kCampaignSnapshotCodecVersion, oi_payload = payload\<rparr>] now)) env (n', d') (\<lambda>_ d'. ?queued d')"
    if "?at d'" for m n' d'
    apply (subst case_prod_beta)
    apply (rule ends_bind [OF ends_require_true], rule ends_mono [OF ends_restore_outbox [where x = ?i]])
    using that by auto
  have tail: "ends (record_mutation (append_journal ?i m e v kd g' w q now' c cv) b) env (n', d') (\<lambda>_ d'. ?queued d')"
    if "?at d'" "\<And>n' d'. ?at d' \<Longrightarrow> ends b env (n', d') (\<lambda>_ d'. ?queued d')"
    for m e v kd g' w q now' c cv b n' d'
    unfolding record_mutation_def
    by (rule ends_bind [OF journal [OF that(1)]], rule ends_bind [OF ends_inject], hypsubst,
        rule ends_bind, erule that(2), rule ends_bind [OF ends_inject], hypsubst)
      (rule ends_mono [OF ends_inject], simp)
  show ?case
    unfolding start(1)
    apply (rule ends_bind [OF ends_write_restored_state [OF wf start(2,3)]])
    apply (rule ends_bind [OF ends_inject], hypsubst)
    apply (rule ends_bind, rule tail, assumption, erule outbox)
    apply (simp add: sql_wp restored)
    done
qed

end
