(* ===== verification/StoreGuarantees.thy ===== *)
theory StoreGuarantees
  imports StoreRestore
begin

text \<open>
  The guarantees of the campaign store for any sequence of calls: what a restore brings back, what
  never changes once it is committed or sealed, and that campaigns do not affect each other. The
  witnesses run one campaign from its creation through a committed checkpoint to its restoration.
\<close>

section \<open>A campaign with a checkpoint\<close>

definition example_candidate_request :: CreateCandidateRequest where
  "example_candidate_request = \<lparr>ckr_campaign = ''c'', ckr_expected = 1, ckr_mutation = ''m2'', ckr_checkpoint = ''k'',
     ckr_snapshot = ''n'', ckr_core_version = 1, ckr_core_payload = [8], ckr_codec_version = 1, ckr_payload = [1],
     ckr_outbox = []\<rparr>"

definition example_checkpoint_snapshot :: CampaignProjection where
  "example_checkpoint_snapshot = \<lparr>pr_campaign = example_record\<lparr>cr_revision := 1, cr_payload := [8], cr_created := 1000,
       cr_updated := 1000\<rparr>, pr_slots = [example_member], pr_builds = [], pr_adapters = []\<rparr>"

definition example_payload :: Bytes where
  "example_payload = snd (encode_snapshot example_checkpoint_snapshot)"

definition example_row :: "nat \<Rightarrow> string \<Rightarrow> StoreOp \<Rightarrow> JournalRow" where
  "example_row n m op = \<lparr>jr_sequence = n, jr_campaign = ''c'', jr_mutation = m, jr_expected = op_expected op,
     jr_resulting = op_result op, jr_kind = op_kind op, jr_digest = op_digest op, jr_codec_version = 1, jr_payload = [1],
     jr_restored_checkpoint = None, jr_restored_revision = None, jr_created = 1000\<rparr>"

definition example_checkpoint :: CheckpointRow where
  "example_checkpoint = \<lparr>cp_id = ''k'', cp_campaign = ''c'', cp_is_committed = False, cp_source_revision = 1,
     cp_snapshot = ''n'', cp_created_revision = 2, cp_committed_revision = None, cp_created = 1000, cp_committed = None\<rparr>"

definition example_slot_record :: CheckpointSlotRecord where
  "example_slot_record = \<lparr>cs_slot = ''s'', cs_player = ''p'', cs_binding = ''b'', cs_native_save = None, cs_algorithm = None,
     cs_fingerprint_version = None, cs_fingerprint = [], cs_metadata_version = None, cs_metadata = []\<rparr>"

definition example_candidate_request_taken :: Database where
  "example_candidate_request_taken = example_created\<lparr>
     t_campaigns := [example_record\<lparr>cr_revision := 2, cr_created := 1000, cr_updated := 1000\<rparr>],
     t_snapshots := [\<lparr>sn_id = ''n'', sn_campaign = ''c'', sn_source_revision = 1, sn_codec_version = 1,
       sn_payload = example_payload, sn_checksum = checksum example_payload, sn_created = 1000\<rparr>],
     t_checkpoints := [example_checkpoint], t_checkpoint_slots := [((''k'', ''c''), example_slot_record)],
     t_journal := t_journal example_created @ [example_row 2 ''m2'' (OpCandidate example_candidate_request)],
     last_sequence := 2\<rparr>"






definition example_saved_slot :: CheckpointSlotRecord where
  "example_saved_slot = example_slot_record\<lparr>cs_native_save := Some ''Save1'', cs_algorithm := Some ''fnv'',
     cs_fingerprint_version := Some 1, cs_fingerprint := [1], cs_metadata_version := Some 1, cs_metadata := [1]\<rparr>"

definition example_save :: RecordSlotSaveRequest where
  "example_save = \<lparr>rsr_campaign = ''c'', rsr_expected = 2, rsr_mutation = ''m3'', rsr_checkpoint = ''k'',
     rsr_slot = example_saved_slot, rsr_codec_version = 1, rsr_payload = [1], rsr_outbox = []\<rparr>"

definition example_save_recorded :: Database where
  "example_save_recorded = example_candidate_request_taken\<lparr>
     t_campaigns := [example_record\<lparr>cr_revision := 3, cr_created := 1000, cr_updated := 1000\<rparr>],
     t_checkpoint_slots := [((''k'', ''c''), example_saved_slot)],
     t_journal := t_journal example_candidate_request_taken @ [example_row 3 ''m3'' (OpSlotSave example_save)],
     last_sequence := 3\<rparr>"


lemmas example_defs = example_record_def example_env_def empty_database_def example_created_def example_member_def
  example_candidate_request_taken_def example_row_def op_result_def example_checkpoint_def example_slot_record_def
  example_saved_slot_def example_save_recorded_def


definition example_commit :: CommitCheckpointRequest where
  "example_commit = \<lparr>cmr_campaign = ''c'', cmr_expected = 3, cmr_mutation = ''m4'', cmr_checkpoint = ''k'',
     cmr_codec_version = 1, cmr_payload = [1], cmr_outbox = []\<rparr>"

definition example_committed :: Database where
  "example_committed = example_save_recorded\<lparr>
     t_campaigns := [example_record\<lparr>cr_revision := 4, cr_checkpoint := Some ''k'', cr_created := 1000, cr_updated := 1000\<rparr>],
     t_checkpoints := [example_checkpoint\<lparr>cp_is_committed := True, cp_committed_revision := Some 4, cp_committed := Some 1000\<rparr>],
     t_journal := t_journal example_save_recorded @ [example_row 4 ''m4'' (OpCommit example_commit)],
     last_sequence := 4\<rparr>"

lemma length_checksum [simp]: "length (checksum p) = 16"
  by (simp add: checksum_def hex16_def)




definition example_restore :: RestoreCheckpointRequest where
  "example_restore = \<lparr>rcr_campaign = ''c'', rcr_expected = 4, rcr_mutation = ''m5'', rcr_checkpoint = ''k'',
     rcr_core_version = 1, rcr_core_payload = [9], rcr_codec_version = 1, rcr_payload = [1]\<rparr>"


definition example_calls :: "StoreCall list" where
  "example_calls = [CallMutate (OpCreate example_create) example_env, CallMutate (OpCandidate example_candidate_request) example_env,
     CallMutate (OpSlotSave example_save) example_env, CallMutate (OpCommit example_commit) example_env]"


section \<open>The load of a checkpoint\<close>

lemma load_checkpoint_reads_only:
  assumes "find_checkpoint i k d' = find_checkpoint i k d" "checkpoint_slots_of i k d' = checkpoint_slots_of i k d"
  shows "fst (load_checkpoint i k env (n, d')) = fst (load_checkpoint i k env (n, d))"
  unfolding load_checkpoint_def sql_bind_def query_def sql_fail_def sql_ret_def
  by (simp add: assms case_prod_beta split: option.split sum.split)

section \<open>Properties\<close>



text \<open>
  C26: A committed checkpoint is final. Whatever the store is asked to do afterwards, and whatever fails,
  loading the checkpoint gives the same answer: the same snapshot with its checksum and the same
  saves of its slots.
\<close>

theorem committed_checkpoint_is_final:
  assumes "find_checkpoint i k d = Some (c, s)" "cp_is_committed c"
  shows "fst (load_checkpoint i k env (n, run_ops store_call d calls)) = fst (load_checkpoint i k env (n, d))"
proof (rule load_checkpoint_reads_only)
  have "committed_kept d (run_ops store_call d calls)" by (rule run_keeps_committed)
  then show "find_checkpoint i k (run_ops store_call d calls) = find_checkpoint i k d"
    "checkpoint_slots_of i k (run_ops store_call d calls) = checkpoint_slots_of i k d"
    using assms unfolding committed_kept_def by metis+
qed

theorem committed_checkpoint_is_final_witness:
  "fst (load_checkpoint ''c'' ''k'' example_env (0, run_ops store_call example_committed
     [CallMutate (OpRestore example_restore) example_env, CallMutate (OpSlotSave example_save) example_env])) =
   fst (load_checkpoint ''c'' ''k'' example_env (0, example_committed))"
  by (rule committed_checkpoint_is_final [where c = "example_checkpoint\<lparr>cp_is_committed := True,
        cp_committed_revision := Some 4, cp_committed := Some 1000\<rparr>"])
    (simp_all add: find_checkpoint_def find_snapshot_def example_committed_def example_defs)

text \<open>
  C28: Sealing is final. Once the roster of a campaign is sealed, no sequence of calls opens it again or
  changes one of its slots, players or character bindings.
\<close>

theorem sealed_roster_is_final:
  assumes "is_sealed i d"
  shows "is_sealed i (run_ops store_call d calls) \<and> slots_of i (run_ops store_call d calls) = slots_of i d"
  using run_keeps_seals [of d calls] assms by (simp add: sealed_kept_def)

theorem sealed_roster_is_final_witness:
  "is_sealed ''c'' (run_ops store_call example_created example_calls) \<and>
   slots_of ''c'' (run_ops store_call example_created example_calls) = slots_of ''c'' example_created"
  by (rule sealed_roster_is_final)
    (simp add: is_sealed_def find_campaign_def example_created_def example_record_def empty_database_def)

text \<open>
  Campaigns do not affect each other. A mutation addressed to one campaign changes no row that belongs to
  another one, in any table: neither its record, roster, builds and adapter states, nor its
  snapshots, checkpoints, journal and outbox.
\<close>

theorem mutations_stay_in_their_campaign:
  assumes "k \<noteq> op_campaign op"
  shows "campaign_part k (snd (store_mutate op env d)) = campaign_part k d"
  using mutation_keeps_others [of op env d] assms
  by (cases "store_mutate op env d") (simp add: others_kept_def)

theorem mutations_stay_in_their_campaign_witness:
  "campaign_part ''d'' (snd (store_mutate (OpRestore example_restore) example_env example_committed)) =
   campaign_part ''d'' example_committed"
  by (rule mutations_stay_in_their_campaign) (simp add: example_restore_def)

text \<open>
  The digest by which a repeated command is recognised does not tell every two commands apart: an
  accepted no-op whose payload ends where the digest's outbox count begins has the digest of an
  advancing command with one more byte of payload.
\<close>

definition example_noop :: CampaignMutationRequest where
  "example_noop = \<lparr>amr_campaign = ''c'', amr_expected = 1, amr_mutation = ''m'', amr_kind = ''k'', amr_advances = False,
     amr_codec_version = 1, amr_payload = [7], amr_core_version = None, amr_core_payload = None, amr_sealed = None,
     amr_roster = None, amr_build_upserts = [], amr_build_deletes = [], amr_adapter_upserts = [],
     amr_adapter_deletes = [], amr_outbox = []\<rparr>"

theorem different_commands_share_a_digest:
  "apply_digest example_noop = apply_digest (example_noop\<lparr>amr_advances := True, amr_payload := [7, 0]\<rparr>)"
  by (simp add: example_noop_def apply_digest_def mutation_digest_payload_def digest_optional_def digest_outbox_def
      digest_flag_def scalar_bytes_def scalar_size_def numeral_eq_Suc)

text \<open>
  A command without a payload passes the validation and is then refused by the database: an empty
  vector is bound as \<open>NULL\<close>, which the journal's payload column does not accept.
\<close>

theorem empty_payload_is_refused_by_the_database:
  "validate_create (example_create\<lparr>ccr_payload := []\<rparr>) = Store_None \<and>
   create_campaign (example_create\<lparr>ccr_payload := []\<rparr>) example_env empty_database =
     (mutation_failure Store_DatabaseFailure, empty_database)"
proof -
  let ?r = "example_create\<lparr>ccr_payload := []\<rparr>"
  have valid: "validate_create ?r = Store_None"
    by (simp add: validate_create_def validation_defs example_create_def example_record_def example_member_def)
  have "fst (encode_snapshot (create_projection ?r)) = Store_None"
    using example_create_encodes by (simp add: create_projection_def)
  then have "create_campaign ?r example_env empty_database = (mutation_failure Store_DatabaseFailure, empty_database)"
    by (simp add: create_campaign_def valid case_prod_beta)
      (simp add: sql_defs create_body_def statement_defs Let_def example_create_def example_record_def example_env_def
        empty_database_def)
  with valid show ?thesis by simp
qed

end
