(* ===== verification/NativeSaveBundle.thy ===== *)
theory NativeSaveBundle
  imports ByteCodec
begin

text \<open>
  \<open>encoding/Structs/NativeSaveBundle.cpp\<close>: the description of the two files of a native save (the
  \<open>.ess\<close> of the game and the \<open>.skse\<close> of its extender) by their sizes and hashes, its encoding as
  metadata, and the check of a received artifact. SHA-256 is the function \<open>sha\<close> of the
  CryptoPP library, a parameter that is \<open>None\<close> when the library throws. A role is an enum of
  underlying type \<open>uint8_t\<close> that the decoder fills with any byte.
\<close>

section \<open>Data\<close>

definition kNativeSaveMetadataCodecVersion :: u16 where "kNativeSaveMetadataCodecVersion = 1"
definition kNativeSaveFingerprintVersion :: u32 where "kNativeSaveFingerprintVersion = 1"
definition kNativeSaveFingerprintAlgorithm :: string where "kNativeSaveFingerprintAlgorithm = ''SHA-256''"
definition kNativeSaveSha256Size :: nat where "kNativeSaveSha256Size = 32"
definition kMaximumNativeSaveMetadataSize :: nat where "kMaximumNativeSaveMetadataSize = 256"

type_synonym NativeSaveMemberRole = u8

definition role_ess :: NativeSaveMemberRole where "role_ess = 1"
definition role_skse :: NativeSaveMemberRole where "role_skse = 2"

record NativeSaveBundleMember =
  nm_role :: NativeSaveMemberRole
  nm_size :: u64
  nm_sha :: Bytes

record NativeSaveBundle =
  nb_identity :: string
  nb_members :: "NativeSaveBundleMember list"

record NativeSaveBundleArtifact =
  na_bundle :: NativeSaveBundle
  na_metadata :: Bytes
  na_fingerprint :: Bytes

datatype NativeSaveBundleError =
    BundleInvalidIdentity | BundleMissingRequiredMember | BundleDuplicateMember | BundleInvalidMember
  | BundleMetadataTooLarge | BundleMalformedMetadata | BundleUnsupportedMetadataVersion | BundleHashFailure

definition kMetadataMagic :: string where "kMetadataMagic = ''STRENSB1''"
definition kRequiredMemberCount :: nat where "kRequiredMemberCount = 2"
definition kNativeSaveIdentityPrefix :: string where "kNativeSaveIdentityPrefix = ''stre-''"
definition kMaximumCheckpointIdentityLength :: nat where "kMaximumCheckpointIdentityLength = 128"

section \<open>Validation\<close>

definition identity_char :: "char \<Rightarrow> bool" where
  "identity_char c \<longleftrightarrow> (c \<ge> CHR ''a'' \<and> c \<le> CHR ''z'') \<or> (c \<ge> CHR ''A'' \<and> c \<le> CHR ''Z'') \<or>
     (c \<ge> CHR ''0'' \<and> c \<le> CHR ''9'') \<or> c = CHR ''-'' \<or> c = CHR ''_''"

definition is_valid_logical_identity :: "string \<Rightarrow> bool" where
  "is_valid_logical_identity v \<longleftrightarrow>
     \<not> (length v \<le> length kNativeSaveIdentityPrefix \<or>
        length v > length kNativeSaveIdentityPrefix + kMaximumCheckpointIdentityLength \<or>
        take (length kNativeSaveIdentityPrefix) v \<noteq> kNativeSaveIdentityPrefix) \<and>
     list_all identity_char (drop (length kNativeSaveIdentityPrefix) v)"

definition is_known_role :: "NativeSaveMemberRole \<Rightarrow> bool" where
  "is_known_role r \<longleftrightarrow> r = role_ess \<or> r = role_skse"

text \<open>The error, if any, and the members in the order of their roles.\<close>

definition validate_and_sort_members ::
  "NativeSaveBundleMember list \<Rightarrow> NativeSaveBundleError option \<times> NativeSaveBundleMember list" where
  "validate_and_sort_members members =
     (if length members \<noteq> kRequiredMemberCount then (Some BundleMissingRequiredMember, members)
      else let ordered = sort_key nm_role members in
        if nm_role (ordered ! 0) = nm_role (ordered ! 1) then (Some BundleDuplicateMember, ordered)
        else if nm_role (ordered ! 0) \<noteq> role_ess \<or> nm_role (ordered ! 1) \<noteq> role_skse
        then (Some BundleMissingRequiredMember, ordered)
        else if \<exists>m \<in> set ordered. \<not> is_known_role (nm_role m) \<or> nm_size m = 0
        then (Some BundleInvalidMember, ordered)
        else (None, ordered))"

section \<open>Metadata\<close>

definition bundle_limits :: CodecLimits where
  "bundle_limits = \<lparr>payload_limit = kMaximumNativeSaveMetadataSize, string_limit = 65535\<rparr>"

definition bundle_scalar :: "'a :: len word \<Rightarrow> writer" where "bundle_scalar = write_scalar bundle_limits"
definition bundle_raw :: "Bytes \<Rightarrow> writer" where "bundle_raw = write_raw bundle_limits"

definition bundle_string :: "string \<Rightarrow> writer" where
  "bundle_string s =
     w_seq [w_check (length s \<le> string_limit bundle_limits), bundle_scalar (of_nat (length s) :: u16),
            bundle_raw (bytes_of_string s)]"

definition read_bundle_string :: "string reader" where
  "read_bundle_string =
     r_bind read_scalar (\<lambda>n :: u16. r_bind (read_raw (unat n)) (\<lambda>bs. r_return (string_of_bytes bs)))"

definition write_member :: "NativeSaveBundleMember \<Rightarrow> writer" where
  "write_member m = w_seq [bundle_scalar (nm_role m), bundle_scalar (nm_size m), bundle_raw (nm_sha m)]"

definition encode_metadata :: "NativeSaveBundle \<Rightarrow> NativeSaveBundleError + Bytes" where
  "encode_metadata b =
     (case w_seq ([bundle_raw (bytes_of_string kMetadataMagic), bundle_scalar kNativeSaveMetadataCodecVersion,
                  bundle_string (nb_identity b), bundle_scalar (of_nat (length (nb_members b)) :: u8)] @
                 map write_member (nb_members b)) [] of
        (metadata, ok) \<Rightarrow> if ok then Inr metadata else Inl BundleMetadataTooLarge)"

definition read_member :: "NativeSaveBundleMember reader" where
  "read_member =
     r_bind read_scalar (\<lambda>role. r_bind read_scalar (\<lambda>size'. r_bind (read_raw kNativeSaveSha256Size) (\<lambda>sha.
     r_return \<lparr>nm_role = role, nm_size = size', nm_sha = sha\<rparr>)))"

definition read_bundle_body :: "NativeSaveBundle reader" where
  "read_bundle_body =
     r_bind read_bundle_string (\<lambda>identity.
     r_bind (r_check (is_valid_logical_identity identity)) (\<lambda>_.
     r_bind read_scalar (\<lambda>count :: u8.
     r_bind (r_check (unat count = kRequiredMemberCount)) (\<lambda>_.
     r_bind (r_repeat (unat count) read_member) (\<lambda>members.
     r_return \<lparr>nb_identity = identity, nb_members = members\<rparr>)))))"

definition decode_metadata :: "Bytes \<Rightarrow> NativeSaveBundleError + NativeSaveBundle" where
  "decode_metadata metadata =
     (if length metadata > kMaximumNativeSaveMetadataSize then Inl BundleMetadataTooLarge
      else case r_bind (read_magic kMetadataMagic) (\<lambda>_. read_scalar) metadata of
        None \<Rightarrow> Inl BundleMalformedMetadata
      | Some (version, inp) \<Rightarrow>
        if version \<noteq> kNativeSaveMetadataCodecVersion then Inl BundleUnsupportedMetadataVersion
        else case read_bundle_body inp of
          None \<Rightarrow> Inl BundleMalformedMetadata
        | Some (b, rest) \<Rightarrow>
          if rest \<noteq> [] then Inl BundleMalformedMetadata
          else case validate_and_sort_members (nb_members b) of
            (None, ordered) \<Rightarrow> Inr (b\<lparr>nb_members := ordered\<rparr>)
          | (Some e, ordered) \<Rightarrow>
            Inl (if e = BundleMissingRequiredMember \<or> e = BundleInvalidMember then BundleMalformedMetadata else e))"

section \<open>Artifacts\<close>

definition build_expected_members :: "string \<Rightarrow> (NativeSaveMemberRole \<times> string) list" where
  "build_expected_members identity =
     (if \<not> is_valid_logical_identity identity then []
      else [(role_ess, identity @ ''.ess''), (role_skse, identity @ ''.skse'')])"

definition hex_digits :: string where "hex_digits = ''0123456789abcdef''"

definition sha_to_hex :: "Bytes \<Rightarrow> string" where
  "sha_to_hex digest =
     concat (map (\<lambda>b. [hex_digits ! unat (drop_bit 4 b), hex_digits ! unat (b AND 0x0F)]) digest)"

definition build_bundle_artifact ::
  "(Bytes \<Rightarrow> Bytes option) \<Rightarrow> string \<Rightarrow> NativeSaveBundleMember list \<Rightarrow>
   NativeSaveBundleError + NativeSaveBundleArtifact" where
  "build_bundle_artifact sha identity members =
     (if \<not> is_valid_logical_identity identity then Inl BundleInvalidIdentity
      else case validate_and_sort_members members of
        (Some e, ordered) \<Rightarrow> Inl e
      | (None, ordered) \<Rightarrow>
        let b = \<lparr>nb_identity = identity, nb_members = ordered\<rparr> in
        case encode_metadata b of Inl e \<Rightarrow> Inl e
        | Inr metadata \<Rightarrow>
          case sha metadata of None \<Rightarrow> Inl BundleHashFailure
          | Some fingerprint \<Rightarrow>
            Inr \<lparr>na_bundle = b, na_metadata = metadata, na_fingerprint = fingerprint\<rparr>)"

definition parse_bundle_artifact ::
  "(Bytes \<Rightarrow> Bytes option) \<Rightarrow> string \<Rightarrow> Bytes \<Rightarrow> Bytes \<Rightarrow> NativeSaveBundleError + NativeSaveBundleArtifact" where
  "parse_bundle_artifact sha expected fingerprint metadata =
     (if length fingerprint \<noteq> kNativeSaveSha256Size then Inl BundleMalformedMetadata
      else case decode_metadata metadata of Inl e \<Rightarrow> Inl e
      | Inr b \<Rightarrow>
        if nb_identity b \<noteq> expected then Inl BundleInvalidIdentity
        else case sha metadata of None \<Rightarrow> Inl BundleHashFailure
        | Some computed \<Rightarrow>
          if computed \<noteq> fingerprint then Inl BundleMalformedMetadata
          else Inr \<lparr>na_bundle = b, na_metadata = metadata, na_fingerprint = computed\<rparr>)"

section \<open>The two sides of the metadata\<close>

lemma bundle_string_codec: "codec bundle_limits bundle_string read_bundle_string"
proof
  show "codes (bundle_string s) read_bundle_string s" for s
    unfolding bundle_string_def read_bundle_string_def bundle_scalar_def bundle_raw_def
  proof (rule codes_check)
    assume "length s \<le> string_limit bundle_limits"
    then have "unat (of_nat (length s) :: u16) = length s"
      by (simp add: bundle_limits_def unsigned_of_nat take_bit_nat_eq_self)
    then show "codes (w_seq [write_scalar bundle_limits (of_nat (length s) :: u16),
        write_raw bundle_limits (bytes_of_string s)])
      (r_bind read_scalar (\<lambda>n :: u16. r_bind (read_raw (unat n)) (\<lambda>bs. r_return (string_of_bytes bs)))) s"
      by (intro codes_bind [OF codes_scalar(2)] codes_one codes_map [OF codes_raw]) (simp_all add: r_return_def)
  qed
  show "parsed (payload_limit bundle_limits) inp rest (bundle_string s)"
    if "read_bundle_string inp = Some (s, rest)" for inp rest s
  proof -
    from that obtain n :: u16 and mid bs where *: "read_scalar inp = Some (n, mid)"
      "read_raw (unat n) mid = Some (bs, rest)" "s = string_of_bytes bs"
      by (auto simp: read_bundle_string_def r_simps)
    have "unat n < 2 ^ LENGTH(16)" by (rule unsigned_less)
    then have "unat n \<le> 65535" by simp
    with * parsed_raw [OF *(2), of bundle_limits] parsed_scalar(2) [OF *(1), of bundle_limits] show ?thesis
      unfolding bundle_string_def bundle_scalar_def bundle_raw_def
      by (intro parsed_check parsed_seq parsed_done) (auto simp: bundle_limits_def intro: parsed_done)
  qed
qed

lemma bundle_scalar_codec:
  "codec bundle_limits (bundle_scalar :: u8 \<Rightarrow> writer) read_scalar"
  "codec bundle_limits (bundle_scalar :: u16 \<Rightarrow> writer) read_scalar"
  "codec bundle_limits (bundle_scalar :: u64 \<Rightarrow> writer) read_scalar"
  by (simp_all add: bundle_scalar_def [abs_def])

lemmas bundle_put = bundle_scalar_codec [THEN codec_codes] bundle_string_codec [THEN codec_codes]
lemmas bundle_get = bundle_scalar_codec [THEN codec_parsed] bundle_string_codec [THEN codec_parsed]

text \<open>A hash is an array of 32 bytes, which the reader takes and the writer relies on.\<close>

definition write_checked_member :: "NativeSaveBundleMember \<Rightarrow> writer" where
  "write_checked_member m = w_seq [bundle_scalar (nm_role m), bundle_scalar (nm_size m),
     w_check (length (nm_sha m) = kNativeSaveSha256Size), bundle_raw (nm_sha m)]"

interpretation bundle_member: codec bundle_limits write_checked_member read_member
proof
  show "codes (write_checked_member m) read_member m" for m
    unfolding write_checked_member_def read_member_def
    by (rule bundle_put)+ (rule codes_check, simp add: bundle_raw_def, rule codes_bind [OF codes_raw], simp,
      rule codes_end, simp)
  show "parsed (payload_limit bundle_limits) inp rest (write_checked_member m)"
    if read: "read_member inp = Some (m, rest)" for inp rest m
  proof -
    from read obtain mid0 mid where *: "read_raw kNativeSaveSha256Size mid = Some (nm_sha m, rest)"
      "read_scalar inp = Some (nm_role m, mid0)" "read_scalar mid0 = Some (nm_size m, mid)"
      by (auto simp: read_member_def r_simps)
    have "parsed (payload_limit bundle_limits) mid rest
        (w_seq [w_check (length (nm_sha m) = kNativeSaveSha256Size), bundle_raw (nm_sha m)])"
      using parsed_raw [OF *(1), of bundle_limits] by (auto simp: bundle_raw_def intro!: parsed_check parsed_one)
    then show ?thesis
      unfolding write_checked_member_def using *(2,3) by (intro bundle_get)
  qed
qed

lemma checked_member: "length (nm_sha m) = kNativeSaveSha256Size \<Longrightarrow> write_checked_member m = write_member m"
  by (simp add: write_checked_member_def write_member_def fun_eq_iff w_seq.simps w_check_def split: prod.splits)

definition hashes_sized :: "NativeSaveBundleMember list \<Rightarrow> bool" where
  "hashes_sized members \<longleftrightarrow> list_all (\<lambda>m. length (nm_sha m) = kNativeSaveSha256Size) members"

definition write_bundle_body :: "NativeSaveBundle \<Rightarrow> writer" where
  "write_bundle_body b = w_seq (bundle_string (nb_identity b) #
     bundle_scalar (of_nat (length (nb_members b)) :: u8) # map write_checked_member (nb_members b))"

definition write_bundle :: "NativeSaveBundle \<Rightarrow> writer" where
  "write_bundle b = w_seq [bundle_raw (bytes_of_string kMetadataMagic),
     bundle_scalar kNativeSaveMetadataCodecVersion, write_bundle_body b]"

lemma encode_metadata_iff:
  assumes "hashes_sized (nb_members b)"
  shows "encode_metadata b = Inr metadata \<longleftrightarrow> write_bundle b [] = (metadata, True)"
proof -
  have eq: "map write_member (nb_members b) = map write_checked_member (nb_members b)"
    using assms by (simp add: hashes_sized_def list_all_iff checked_member)
  show ?thesis
    by (auto simp: eq encode_metadata_def write_bundle_def write_bundle_body_def w_seq.simps split: prod.splits if_splits)
qed

lemma codes_bundle_body:
  assumes "is_valid_logical_identity (nb_identity b)" "length (nb_members b) = kRequiredMemberCount"
  shows "codes (write_bundle_body b) read_bundle_body b"
proof -
  have count: "unat (of_nat (length (nb_members b)) :: u8) = length (nb_members b)"
    using assms(2) by (simp add: kRequiredMemberCount_def)
  have "codes (w_seq (map write_checked_member (nb_members b)))
      (r_bind (r_repeat (length (nb_members b)) read_member)
        (\<lambda>members. r_return \<lparr>nb_identity = nb_identity b, nb_members = members\<rparr>)) b"
    by (rule codes_map [OF bundle_member.codes_repeat]) (simp add: r_return_def)
  then show ?thesis
    unfolding write_bundle_body_def read_bundle_body_def using assms count
    by (intro bundle_put codes_r_check) simp_all
qed

lemma decode_encoded_metadata:
  assumes "encode_metadata b = Inr metadata" "hashes_sized (nb_members b)"
    and "is_valid_logical_identity (nb_identity b)" "validate_and_sort_members (nb_members b) = (None, nb_members b)"
  shows "decode_metadata metadata = Inr b"
proof -
  from assms(1,2) have run: "write_bundle b [] = (metadata, True)" by (simp add: encode_metadata_iff)
  from assms(4) have two: "length (nb_members b) = kRequiredMemberCount"
    by (auto simp: validate_and_sort_members_def split: if_splits)
  have "bounded (payload_limit bundle_limits) (write_bundle b)"
    by (auto simp: write_bundle_def write_bundle_body_def bundle_string_def bundle_scalar_def bundle_raw_def
        write_checked_member_def list_all_iff intro!: bounds)
  with run have short: "length metadata \<le> kMaximumNativeSaveMetadataSize"
    by (auto simp: bounded_def bundle_limits_def dest: spec [of _ "[]"])
  have "codes (write_bundle b)
      (r_bind (read_magic kMetadataMagic) (\<lambda>_. r_bind read_scalar (\<lambda>v :: u16.
        r_bind (r_check (v = kNativeSaveMetadataCodecVersion)) (\<lambda>_. read_bundle_body)))) b"
    unfolding write_bundle_def bundle_raw_def
    by (rule codes_bind [OF codes_magic] bundle_put codes_r_check codes_one codes_bundle_body assms(3) two | simp)+
  with run have "r_bind (read_magic kMetadataMagic) (\<lambda>_. r_bind read_scalar (\<lambda>v :: u16.
      r_bind (r_check (v = kNativeSaveMetadataCodecVersion)) (\<lambda>_. read_bundle_body))) metadata = Some (b, [])"
    unfolding codes_def by (metis append_Nil append_Nil2)
  with short assms(4) show ?thesis
    by (auto simp: decode_metadata_def r_simps r_bind_def r_check_def split: option.splits if_splits)
qed

text \<open>A valid bundle is small enough for the limit: 228 bytes at most.\<close>

lemma emits_scalar: "emits (payload_limit L) (write_scalar L v) (scalar_bytes v)"
  by (simp add: emits_def write_scalar_def)

lemma emits_raw: "emits (payload_limit L) (write_raw L bs) bs"
  by (auto simp: emits_def write_raw_def)

lemma emits_check: "b \<Longrightarrow> emits lim (w_check b) []"
  by (simp add: emits_def w_check_def)

lemmas emits_leaves = emits_scalar emits_raw emits_check

definition member_bytes :: "NativeSaveBundleMember \<Rightarrow> Bytes" where
  "member_bytes m = scalar_bytes (nm_role m) @ scalar_bytes (nm_size m) @ nm_sha m"

definition bundle_bytes :: "NativeSaveBundle \<Rightarrow> Bytes" where
  "bundle_bytes b = bytes_of_string kMetadataMagic @ scalar_bytes kNativeSaveMetadataCodecVersion @
     scalar_bytes (of_nat (length (nb_identity b)) :: u16) @ bytes_of_string (nb_identity b) @
     scalar_bytes (of_nat (length (nb_members b)) :: u8) @ concat (map member_bytes (nb_members b))"

lemma emits_members: "hashes_sized ms \<Longrightarrow>
    emits (payload_limit bundle_limits) (w_seq (map write_checked_member ms)) (concat (map member_bytes ms))"
proof (induction ms)
  case (Cons m ms)
  have "emits (payload_limit bundle_limits) (write_checked_member m) (member_bytes m)"
    using Cons.prems emits_seq [OF emits_scalar emits_seq [OF emits_scalar emits_seq [OF emits_check emits_seq [OF emits_raw emits_done]]]]
    by (fastforce simp: write_checked_member_def member_bytes_def bundle_scalar_def bundle_raw_def hashes_sized_def)
  with Cons show ?case by (simp add: emits_seq hashes_sized_def)
qed (simp add: emits_done)

lemma emits_bundle:
  assumes "hashes_sized (nb_members b)" "length (nb_identity b) \<le> 65535"
  shows "emits (payload_limit bundle_limits) (write_bundle b) (bundle_bytes b)"
proof -
  let ?e = "emits (payload_limit bundle_limits)"
  have "?e (bundle_string (nb_identity b))
      (scalar_bytes (of_nat (length (nb_identity b)) :: u16) @ bytes_of_string (nb_identity b))"
    using emits_seq [OF emits_check emits_seq [OF emits_scalar emits_seq [OF emits_raw emits_done]],
        of "length (nb_identity b) \<le> string_limit bundle_limits" bundle_limits "of_nat (length (nb_identity b)) :: u16"
        "bytes_of_string (nb_identity b)"] assms(2)
    by (simp add: bundle_string_def bundle_scalar_def bundle_raw_def bundle_limits_def)
  then have "?e (write_bundle_body b) ((scalar_bytes (of_nat (length (nb_identity b)) :: u16) @ bytes_of_string (nb_identity b)) @
      scalar_bytes (of_nat (length (nb_members b)) :: u8) @ concat (map member_bytes (nb_members b)))"
    unfolding write_bundle_body_def bundle_scalar_def by (intro emits_seq emits_scalar emits_members assms(1))
  then show ?thesis
    using emits_seq [OF emits_raw emits_seq [OF emits_scalar emits_seq [OF _ emits_done]]]
    unfolding write_bundle_def bundle_bytes_def bundle_raw_def bundle_scalar_def by fastforce
qed

lemma length_bundle_bytes:
  assumes "hashes_sized (nb_members b)"
  shows "length (bundle_bytes b) = 13 + length (nb_identity b) + 41 * length (nb_members b)"
proof -
  have "length (concat (map member_bytes ms)) = 41 * length ms" if "hashes_sized ms" for ms
    using that by (induction ms) (auto simp: hashes_sized_def member_bytes_def kNativeSaveSha256Size_def)
  then show ?thesis using assms by (simp add: bundle_bytes_def kMetadataMagic_def)
qed

lemma encode_valid_metadata:
  assumes "is_valid_logical_identity (nb_identity b)" "hashes_sized (nb_members b)"
    and "length (nb_members b) = kRequiredMemberCount"
  shows "encode_metadata b = Inr (bundle_bytes b)"
proof -
  have id: "length (nb_identity b) \<le> 133"
    using assms(1) by (simp add: is_valid_logical_identity_def kNativeSaveIdentityPrefix_def
        kMaximumCheckpointIdentityLength_def)
  then have "write_bundle b [] = (bundle_bytes b, True)"
    using emits_bundle [of b] length_bundle_bytes [of b] assms(2,3)
    by (simp add: emits_def bundle_limits_def kMaximumNativeSaveMetadataSize_def kRequiredMemberCount_def)
  with assms(2) show ?thesis by (simp add: encode_metadata_iff)
qed

section \<open>Members\<close>

lemma two_elements: "length xs = 2 \<Longrightarrow> xs = [xs ! 0, xs ! 1]"
  by (simp add: list_eq_iff_nth_eq less_Suc_eq numeral_2_eq_2)

definition complete_members :: "NativeSaveBundleMember list \<Rightarrow> bool" where
  "complete_members ms \<longleftrightarrow> map nm_role ms = [role_ess, role_skse] \<and> list_all (\<lambda>m. nm_size m \<noteq> 0) ms"

lemma complete_membersE:
  assumes "complete_members ms"
  obtains e s where "ms = [e, s]" "nm_role e = role_ess" "nm_role s = role_skse" "nm_size e \<noteq> 0" "nm_size s \<noteq> 0"
  using assms by (auto simp: complete_members_def)

lemma role_le: "role_ess \<le> role_skse" "\<not> role_skse \<le> role_ess" "role_ess \<noteq> role_skse"
  by (simp_all add: role_ess_def role_skse_def word_le_nat_alt)

lemma sorted_complete: "complete_members ms \<Longrightarrow> sort_key nm_role ms = ms"
  by (erule complete_membersE) (simp add: role_le)

lemma validate_members_iff:
  "validate_and_sort_members members = (None, ms) \<longleftrightarrow> ms = sort_key nm_role members \<and> complete_members ms"
proof -
  have two: "\<exists>e s. sort_key nm_role members = [e, s]" if "length members = 2"
    using two_elements [of "sort_key nm_role members"] that by (metis length_sort)
  have len: "length members = 2" if "complete_members (sort_key nm_role members)"
    using that by (metis complete_membersE length_sort list.size(3,4) One_nat_def Suc_1 plus_1_eq_Suc add_0_right add_Suc_right)
  show ?thesis
  proof (cases "length members = 2")
    case True
    with two obtain e s where es: "sort_key nm_role members = [e, s]" by blast
    with True show ?thesis
      by (auto simp: validate_and_sort_members_def kRequiredMemberCount_def complete_members_def Let_def
          is_known_role_def role_ess_def role_skse_def split: if_splits)
  qed (use len in \<open>auto simp: validate_and_sort_members_def kRequiredMemberCount_def\<close>)
qed

lemma hashes_sized_sort [simp]: "hashes_sized (sort_key f ms) \<longleftrightarrow> hashes_sized ms"
  by (simp add: hashes_sized_def list_all_iff)

lemma length_complete: "complete_members ms \<Longrightarrow> length ms = kRequiredMemberCount"
  by (erule complete_membersE) (simp add: kRequiredMemberCount_def)

text \<open>What the decoder accepts was written by the encoder, with the members in either order.\<close>

lemma decode_metadata_sound:
  assumes "decode_metadata metadata = Inr b"
  shows "is_valid_logical_identity (nb_identity b) \<and> complete_members (nb_members b) \<and>
    (\<exists>ms. hashes_sized ms \<and> nb_members b = sort_key nm_role ms \<and> metadata = bundle_bytes (b\<lparr>nb_members := ms\<rparr>))"
proof -
  from assms obtain inp c where
    magic: "r_bind (read_magic kMetadataMagic) (\<lambda>_. read_scalar) metadata = Some (kNativeSaveMetadataCodecVersion, inp)"
    and body: "read_bundle_body inp = Some (c, [])" and
    members: "validate_and_sort_members (nb_members c) = (None, nb_members b)"
    and b: "b = c\<lparr>nb_members := nb_members b\<rparr>" and short: "length metadata \<le> kMaximumNativeSaveMetadataSize"
    by (auto simp: decode_metadata_def split: if_splits option.splits prod.splits)
  from body obtain mid mid' mid'' and n :: u8 where
    *: "read_bundle_string inp = Some (nb_identity c, mid)" "is_valid_logical_identity (nb_identity c)"
      "read_scalar mid = Some (n, mid')" "unat n = kRequiredMemberCount"
      "r_repeat (unat n) read_member mid' = Some (nb_members c, mid'')" "mid'' = []"
    by (auto simp: read_bundle_body_def r_simps)
  from bundle_member.repeat_parsed [OF *(5)] have rep: "length (nb_members c) = unat n"
    "parsed (payload_limit bundle_limits) mid' mid'' (w_seq (map write_checked_member (nb_members c)))" by simp_all
  have sized: "hashes_sized (nb_members c)"
  proof -
    have "\<lbrakk>r_repeat k read_member i = Some (ms, r)\<rbrakk> \<Longrightarrow> hashes_sized ms" for k i ms r
      by (induction k arbitrary: i ms)
        (auto simp: r_simps hashes_sized_def read_member_def dest!: parsed_raw [where L = bundle_limits])
    with *(5) show ?thesis by blast
  qed
  have "parsed (payload_limit bundle_limits) metadata [] (write_bundle c)"
  proof -
    from magic obtain m0 where m: "read_magic kMetadataMagic metadata = Some ((), m0)"
      "read_scalar m0 = Some (kNativeSaveMetadataCodecVersion, inp)" by (auto simp: r_simps)
    have "(of_nat (length (nb_members c)) :: u8) = n" using rep(1) by simp
    with rep(2) *(3,6) have "parsed (payload_limit bundle_limits) mid []
        (w_seq (bundle_scalar (of_nat (length (nb_members c)) :: u8) # map write_checked_member (nb_members c)))"
      by (auto intro: bundle_get)
    with *(1) have "parsed (payload_limit bundle_limits) inp [] (write_bundle_body c)"
      unfolding write_bundle_body_def by (rule bundle_get(4))
    with m show ?thesis
      unfolding write_bundle_def bundle_raw_def by (intro parsed_seq [OF parsed_magic] bundle_get parsed_one)
  qed
  then have "metadata = bundle_bytes c"
  proof -
    from \<open>parsed _ metadata [] _\<close> have "write_bundle c [] = (metadata, True)"
      using short by (auto simp: parsed_def emits_def bundle_limits_def)
    moreover have "encode_metadata c = Inr (bundle_bytes c)"
      by (rule encode_valid_metadata [OF *(2) sized]) (use rep(1) *(4) in simp)
    ultimately show ?thesis using encode_metadata_iff [OF sized] by simp
  qed
  moreover from b have "nb_identity b = nb_identity c" "c = b\<lparr>nb_members := nb_members c\<rparr>"
    by (cases b; cases c; simp)+
  moreover from members have "nb_members b = sort_key nm_role (nb_members c)" "complete_members (nb_members b)"
    unfolding validate_members_iff by blast+
  ultimately show ?thesis using *(2) sized by metis
qed

lemma parse_built:
  assumes "build_bundle_artifact sha identity members = Inr a" "hashes_sized members"
    and "length (na_fingerprint a) = kNativeSaveSha256Size"
  shows "parse_bundle_artifact sha identity (na_fingerprint a) (na_metadata a) = Inr a"
proof -
  from assms(1) obtain ms where *: "is_valid_logical_identity identity" "validate_and_sort_members members = (None, ms)"
      "na_bundle a = \<lparr>nb_identity = identity, nb_members = ms\<rparr>" "encode_metadata (na_bundle a) = Inr (na_metadata a)"
      "sha (na_metadata a) = Some (na_fingerprint a)"
    by (auto simp: build_bundle_artifact_def Let_def split: if_splits prod.splits option.splits sum.splits)
  from *(2) have ms: "ms = sort_key nm_role members" "complete_members ms"
    unfolding validate_members_iff by blast+
  then have "validate_and_sort_members ms = (None, ms)" by (metis validate_members_iff sorted_complete)
  with * ms assms(2) have "decode_metadata (na_metadata a) = Inr (na_bundle a)"
    by (intro decode_encoded_metadata) simp_all
  with * assms(3) show ?thesis by (simp add: parse_bundle_artifact_def)
qed

lemma complete_sort_iff:
  "complete_members (sort_key nm_role members) \<longleftrightarrow>
     mset (map nm_role members) = {#role_ess, role_skse#} \<and> list_all (\<lambda>m. nm_size m \<noteq> 0) members"
proof -
  let ?ys = "map nm_role (sort_key nm_role members)"
  have ys: "mset ?ys = mset (map nm_role members)" by simp
  have "?ys = [role_ess, role_skse] \<longleftrightarrow> mset ?ys = mset [role_ess, role_skse]"
  proof
    assume "mset ?ys = mset [role_ess, role_skse]"
    then have "sort ?ys = [role_ess, role_skse]"
      by (intro properties_for_sort) (simp_all add: role_le)
    then show "?ys = [role_ess, role_skse]" by (simp add: sorted_sort_id)
  qed simp
  then show ?thesis unfolding complete_members_def ys by (simp add: list_all_iff)
qed

section \<open>An example\<close>

definition example_members :: "NativeSaveBundleMember list" where
  "example_members = [\<lparr>nm_role = role_skse, nm_size = 7, nm_sha = replicate 32 1\<rparr>,
     \<lparr>nm_role = role_ess, nm_size = 9, nm_sha = replicate 32 2\<rparr>]"

definition example_hash :: "Bytes \<Rightarrow> Bytes option" where
  "example_hash metadata = Some (replicate 32 0)"

definition example_artifact :: NativeSaveBundleArtifact where
  "example_artifact = (let b = \<lparr>nb_identity = ''stre-1'', nb_members = rev example_members\<rparr> in
     \<lparr>na_bundle = b, na_metadata = bundle_bytes b, na_fingerprint = replicate 32 0\<rparr>)"

lemma example_identity: "is_valid_logical_identity ''stre-1''"
  by (simp add: is_valid_logical_identity_def kNativeSaveIdentityPrefix_def kMaximumCheckpointIdentityLength_def
      identity_char_def)

lemma example_members_valid:
  "validate_and_sort_members example_members = (None, rev example_members)" "hashes_sized example_members"
  using role_le by (simp_all add: validate_members_iff example_members_def complete_members_def
      hashes_sized_def kNativeSaveSha256Size_def)

lemma example_artifact_built: "build_bundle_artifact example_hash ''stre-1'' example_members = Inr example_artifact"
proof -
  have "encode_metadata \<lparr>nb_identity = ''stre-1'', nb_members = rev example_members\<rparr> =
      Inr (bundle_bytes \<lparr>nb_identity = ''stre-1'', nb_members = rev example_members\<rparr>)"
    using example_members_valid(2)
    by (intro encode_valid_metadata)
      (simp_all add: example_identity hashes_sized_def kRequiredMemberCount_def, simp add: example_members_def)
  then show ?thesis
    by (simp add: build_bundle_artifact_def example_identity example_members_valid(1) example_artifact_def
        example_hash_def Let_def)
qed

lemma example_fingerprint: "length (na_fingerprint example_artifact) = kNativeSaveSha256Size"
  by (simp add: example_artifact_def kNativeSaveSha256Size_def)

section \<open>Properties\<close>

text \<open>
  C22: What is built is accepted: the artifact of a save, sent with its metadata and fingerprint under its
  identity, is parsed to itself.
\<close>

theorem built_artifact_is_accepted:
  assumes "build_bundle_artifact sha identity members = Inr a" "hashes_sized members"
    and "length (na_fingerprint a) = kNativeSaveSha256Size"
  shows "parse_bundle_artifact sha identity (na_fingerprint a) (na_metadata a) = Inr a"
  using assms by (rule parse_built)

theorem built_artifact_is_accepted_witness:
  "parse_bundle_artifact example_hash ''stre-1'' (na_fingerprint example_artifact) (na_metadata example_artifact) =
   Inr example_artifact"
  by (rule built_artifact_is_accepted [OF example_artifact_built example_members_valid(2) example_fingerprint])

text \<open>
  C21: An artifact that is accepted is authentic: it has the expected identity, its fingerprint is the hash of
  its metadata, and the metadata is the encoding of exactly one game save and one extender save of
  non-zero sizes, in either order.
\<close>

theorem accepted_artifact_is_authentic:
  assumes "parse_bundle_artifact sha expected fingerprint metadata = Inr a"
  shows "na_metadata a = metadata \<and> na_fingerprint a = fingerprint \<and> sha metadata = Some fingerprint \<and>
    nb_identity (na_bundle a) = expected \<and> is_valid_logical_identity expected \<and>
    complete_members (nb_members (na_bundle a)) \<and>
    (\<exists>ms. mset ms = mset (nb_members (na_bundle a)) \<and> metadata = bundle_bytes ((na_bundle a)\<lparr>nb_members := ms\<rparr>))"
proof -
  from assms obtain b where *: "decode_metadata metadata = Inr b" "nb_identity b = expected"
      "sha metadata = Some fingerprint" "a = \<lparr>na_bundle = b, na_metadata = metadata, na_fingerprint = fingerprint\<rparr>"
    by (auto simp: parse_bundle_artifact_def split: if_splits sum.splits option.splits)
  from decode_metadata_sound [OF *(1)] obtain ms where "nb_members b = sort_key nm_role ms"
      "metadata = bundle_bytes (b\<lparr>nb_members := ms\<rparr>)" "is_valid_logical_identity (nb_identity b)"
      "complete_members (nb_members b)" by blast
  with * show ?thesis by (auto intro!: exI [of _ ms])
qed

theorem accepted_artifact_is_authentic_witness:
  "example_hash (na_metadata example_artifact) = Some (na_fingerprint example_artifact) \<and>
   complete_members (nb_members (na_bundle example_artifact))"
  using accepted_artifact_is_authentic
    [OF parse_built [OF example_artifact_built example_members_valid(2) example_fingerprint]] by blast

text \<open>
  Every complete pair of files has an artifact: building one succeeds exactly for a valid identity and
  one file of each role, neither empty, given in any order; the limit of the metadata is never met.
\<close>

theorem artifact_is_built_iff:
  assumes "hashes_sized members" "\<And>metadata. sha metadata \<noteq> None"
  shows "(\<exists>a. build_bundle_artifact sha identity members = Inr a) \<longleftrightarrow>
    is_valid_logical_identity identity \<and> mset (map nm_role members) = {#role_ess, role_skse#} \<and>
    list_all (\<lambda>m. nm_size m \<noteq> 0) members"
proof (cases "is_valid_logical_identity identity \<and> complete_members (sort_key nm_role members)")
  case True
  let ?b = "\<lparr>nb_identity = identity, nb_members = sort_key nm_role members\<rparr>"
  from True have "validate_and_sort_members members = (None, sort_key nm_role members)" by (simp add: validate_members_iff)
  moreover have "encode_metadata ?b = Inr (bundle_bytes ?b)"
    using True assms(1) by (intro encode_valid_metadata) (simp_all add: length_complete del: length_sort)
  ultimately have "\<exists>a. build_bundle_artifact sha identity members = Inr a"
    using True assms(2) [of "bundle_bytes ?b"] by (auto simp: build_bundle_artifact_def)
  with True show ?thesis by (simp add: complete_sort_iff)
next
  case False
  then have "validate_and_sort_members members \<noteq> (None, ms)" if "is_valid_logical_identity identity" for ms
    using that by (auto simp: validate_members_iff)
  then have "\<nexists>a. build_bundle_artifact sha identity members = Inr a"
    by (auto simp: build_bundle_artifact_def split: if_splits prod.splits option.splits)
  with False show ?thesis by (simp add: complete_sort_iff)
qed

theorem artifact_is_built_iff_witness: "\<exists>a. build_bundle_artifact example_hash ''stre-1'' example_members = Inr a"
  unfolding artifact_is_built_iff [of example_members example_hash "''stre-1''", OF example_members_valid(2),
      simplified example_hash_def, simplified]
  by (simp add: example_identity example_members_def add_mset_commute)

end
