(* ===== verification/RuntimeStore.thy ===== *)
theory RuntimeStore
  imports StoreGuarantees NativeSaveBundle "HOL-Library.FSet"
begin

text \<open>
  The state of \<open>CampaignRuntimeService\<close> (\<open>campaign_runtime/CampaignRuntimeService.cpp\<close>), its calls of
  the campaign store, and the payloads and mutation identities of its commands. The service holds the
  database of the store it was given and two maps, the active checkpoint and the open recovery of each
  campaign. Every call of the store meets a clock, fault injector and failures of its own:
  \<open>call_env\<close> by the number of the call. Messages and C++ exceptions are left out.
\<close>

section \<open>Results\<close>

record CommandResult =
  cmd_error :: CampaignError
  cmd_store :: StoreError
  cmd_version :: StateVersion
  cmd_applied :: bool
  cmd_replay :: bool

definition cmd_ok :: CommandResult where
  "cmd_ok = \<lparr>cmd_error = NoCampaignError, cmd_store = Store_None, cmd_version = 0, cmd_applied = False,
     cmd_replay = False\<rparr>"

text \<open>\<open>CheckpointFailure\<close> and \<open>RecoveryFailure\<close>, which differ in their names only, and \<open>DomainFailure\<close>.\<close>

definition cmd_failure :: "CampaignError \<Rightarrow> StoreError \<Rightarrow> CommandResult" where
  "cmd_failure e s = cmd_ok\<lparr>cmd_error := e, cmd_store := s\<rparr>"

definition domain_failure :: "CampaignDomainResult \<Rightarrow> CommandResult" where
  "domain_failure r = cmd_ok\<lparr>cmd_error := dom_error r\<rparr>"

fun translate_store_error :: "StoreError \<Rightarrow> CampaignError" where
  "translate_store_error Store_None = NoCampaignError"
| "translate_store_error Store_StaleRevision = CampaignStaleRevision"
| "translate_store_error Store_IntegrityFailure = IntegrityFailure"
| "translate_store_error Store_IncompatibleSchema = IntegrityFailure"
| "translate_store_error e = PersistenceFailure"

definition store_failure :: "StoreError \<Rightarrow> CommandResult" where
  "store_failure e = cmd_failure (translate_store_error e) e"

definition from_mutation_result :: "MutationResult \<Rightarrow> CommandResult" where
  "from_mutation_result r =
     (if mut_error r \<noteq> Store_None then store_failure (mut_error r)
      else cmd_ok\<lparr>cmd_version := mut_revision r, cmd_applied := mut_applied r, cmd_replay := mut_replay r\<rparr>)"

definition stale_revision :: "StateVersion \<Rightarrow> CommandResult" where
  "stale_revision current = (cmd_failure CampaignStaleRevision Store_StaleRevision)\<lparr>cmd_version := current\<rparr>"

section \<open>The service\<close>

record CheckpointActivity =
  ca_campaign :: CampaignId
  ca_checkpoint :: string
  ca_source_revision :: StateVersion
  ca_native_save :: string

datatype CampaignRecoveryStage = StageRecoveryLock | StageLoadingNativeSaves | StageApplyingSnapshot

datatype RecoveryReason =
    ReasonNone | ReasonRosterIncomplete | ReasonCampaignLoadRequested | ReasonNoCommittedCheckpoint
  | ReasonClientLoadFailed

record RecoveryActivity =
  ra_campaign :: CampaignId
  ra_attempt :: string
  ra_entry_revision :: StateVersion
  ra_stage :: CampaignRecoveryStage
  ra_reason :: RecoveryReason
  ra_checkpoint :: "string option"
  ra_source_revision :: StateVersion
  ra_restore_revision :: "StateVersion option"
  ra_durable_loaded :: "string fset"
  ra_durable_applied :: "string fset"
  ra_loaded :: "string fset"
  ra_applied :: "string fset"

record RuntimeService =
  sv_store :: Database
  sv_checkpoints :: "CampaignId \<Rightarrow> CheckpointActivity option"
  sv_recoveries :: "CampaignId \<Rightarrow> RecoveryActivity option"

definition new_service :: "Database \<Rightarrow> RuntimeService" where
  "new_service d = \<lparr>sv_store = d, sv_checkpoints = Map.empty, sv_recoveries = Map.empty\<rparr>"

record RuntimeEnv =
  call_env :: "nat \<Rightarrow> StoreEnv"
  sha256 :: "Bytes \<Rightarrow> Bytes option"

text \<open>
  A handler returns early with \<open>Inl\<close> or goes on with \<open>Inr\<close>; the state is the number of calls of the
  store so far and the service.
\<close>

type_synonym ('e, 'a) svc = "RuntimeEnv \<Rightarrow> nat \<times> RuntimeService \<Rightarrow> ('e + 'a) \<times> nat \<times> RuntimeService"

definition svc_ret :: "'a \<Rightarrow> ('e, 'a) svc" where
  "svc_ret x = (\<lambda>env s. (Inr x, s))"

definition svc_fail :: "'e \<Rightarrow> ('e, 'a) svc" where
  "svc_fail e = (\<lambda>env s. (Inl e, s))"

definition svc_bind :: "('e, 'a) svc \<Rightarrow> ('a \<Rightarrow> ('e, 'b) svc) \<Rightarrow> ('e, 'b) svc" where
  "svc_bind m k = (\<lambda>env s. case m env s of (Inl e, s') \<Rightarrow> (Inl e, s') | (Inr x, s') \<Rightarrow> k x env s')"

definition svc_require :: "bool \<Rightarrow> 'e \<Rightarrow> ('e, unit) svc" where
  "svc_require b e = (if b then svc_ret () else svc_fail e)"

text \<open>The failure of a part, made the result of the whole.\<close>

definition svc_error :: "('d \<Rightarrow> 'e) \<Rightarrow> ('d, 'a) svc \<Rightarrow> ('e, 'a) svc" where
  "svc_error f m = (\<lambda>env s. case m env s of (Inl e, s') \<Rightarrow> (Inl (f e), s') | (Inr x, s') \<Rightarrow> (Inr x, s'))"

definition svc_get :: "(RuntimeService \<Rightarrow> 'a) \<Rightarrow> ('e, 'a) svc" where
  "svc_get f = (\<lambda>env (k, s). (Inr (f s), k, s))"

definition svc_put :: "(RuntimeService \<Rightarrow> RuntimeService) \<Rightarrow> ('e, unit) svc" where
  "svc_put f = (\<lambda>env (k, s). (Inr (), k, f s))"

definition svc_env :: "(RuntimeEnv \<Rightarrow> 'a) \<Rightarrow> ('e, 'a) svc" where
  "svc_env f = (\<lambda>env s. (Inr (f env), s))"

text \<open>The calls of the store: a load, and a mutation.\<close>

definition svc_load :: "(StoreError, 'a) sql \<Rightarrow> (StoreError, 'a) svc" where
  "svc_load m = (\<lambda>env (k, s). case m (call_env env k) (0, sv_store s) of
     (r, n, d) \<Rightarrow> (r, Suc k, s\<lparr>sv_store := d\<rparr>))"

definition svc_mutate :: "StoreOp \<Rightarrow> ('e, MutationResult) svc" where
  "svc_mutate op = (\<lambda>env (k, s). case store_mutate op (call_env env k) (sv_store s) of
     (r, d) \<Rightarrow> (Inr r, Suc k, s\<lparr>sv_store := d\<rparr>))"

text \<open>The result of a handler whose early returns and end are of the same type.\<close>

definition svc_result :: "('r, 'r) svc \<Rightarrow> RuntimeEnv \<Rightarrow> RuntimeService \<Rightarrow> 'r \<times> RuntimeService" where
  "svc_result m env s = (case m env (0, s) of (Inl r, k, s') \<Rightarrow> (r, s') | (Inr r, k, s') \<Rightarrow> (r, s'))"

section \<open>Payloads\<close>

definition payload_scalar :: "u32 \<Rightarrow> Bytes" where
  "payload_scalar v = scalar_bytes v"

definition payload_field :: "string \<Rightarrow> Bytes" where
  "payload_field v = payload_scalar (of_nat (length v)) @ bytes_of_string v"

definition payload_blob :: "Bytes \<Rightarrow> Bytes" where
  "payload_blob v = payload_scalar (of_nat (length v)) @ v"

definition begin_command_payload :: "string \<Rightarrow> Bytes" where
  "begin_command_payload kind = bytes_of_string ''STRECM01'' @ payload_field kind"

definition payload_slot :: "CampaignSlotRecord \<Rightarrow> Bytes" where
  "payload_slot s = payload_field (rec_slot s) @ payload_field (rec_player s) @ payload_field (rec_binding s)"

definition payload_member :: "CampaignMemberIdentity \<Rightarrow> Bytes" where
  "payload_member i = payload_field (mi_slot i) @ payload_field (mi_player i) @ payload_field (mi_binding i)"

text \<open>\<open>ReadField\<close> and \<open>DecodeCreateCampaignPayload\<close>.\<close>

definition read_payload_field :: "string reader" where
  "read_payload_field =
     r_bind read_scalar (\<lambda>n :: u32. r_bind (r_check (unat n \<le> 128)) (\<lambda>_.
     r_bind (read_raw (unat n)) (\<lambda>bs. r_return (string_of_bytes bs))))"

definition read_payload_slot :: "CampaignSlotRecord reader" where
  "read_payload_slot =
     r_bind read_payload_field (\<lambda>s. r_bind read_payload_field (\<lambda>p. r_bind read_payload_field (\<lambda>b.
     r_return \<lparr>rec_slot = s, rec_player = p, rec_binding = b\<rparr>)))"

text \<open>The loop: the number of further slots that are admitted is the fuel.\<close>

fun read_payload_roster :: "nat \<Rightarrow> Bytes \<Rightarrow> CampaignSlotRecord list option" where
  "read_payload_roster n [] = Some []"
| "read_payload_roster 0 inp = None"
| "read_payload_roster (Suc n) inp =
     (case read_payload_slot inp of None \<Rightarrow> None
      | Some (s, rest) \<Rightarrow> map_option ((#) s) (read_payload_roster n rest))"

definition to_slot_state :: "CampaignSlotRecord \<Rightarrow> CampaignSlotState" where
  "to_slot_state s = \<lparr>slot_id = rec_slot s, slot_player = rec_player s, slot_binding = rec_binding s,
     slot_ready = False\<rparr>"

definition to_roster_records :: "CampaignAggregate \<Rightarrow> CampaignSlotRecord list" where
  "to_roster_records c = map slot_record (c_roster c)"

definition decode_create_payload :: "Bytes \<Rightarrow> CampaignSlotRecord list option" where
  "decode_create_payload payload =
     (case r_bind (read_magic ''STRECM01'') (\<lambda>_. read_payload_field) payload of
        None \<Rightarrow> None
      | Some (kind, inp) \<Rightarrow>
        if kind \<noteq> ''CreateCampaign'' then None
        else case read_payload_roster kMaximumCampaignRosterSize inp of None \<Rightarrow> None
        | Some roster \<Rightarrow>
          if validate_roster (map to_slot_state roster) True \<noteq> NoCampaignError then None else Some roster)"

section \<open>Identities\<close>

definition checkpoint_mutation_id :: "string \<Rightarrow> string \<Rightarrow> string option \<Rightarrow> string" where
  "checkpoint_mutation_id operation checkpoint slot =
     ''checkpoint-'' @ operation @ ''-'' @ checkpoint @ (case slot of None \<Rightarrow> [] | Some i \<Rightarrow> ''-'' @ i)"

text \<open>\<open>std::to_string\<close>, and \<open>StableIdHash\<close>: FNV-1a, in sixteen hexadecimal digits.\<close>

fun decimal :: "nat \<Rightarrow> string" where
  "decimal n = (if n < 10 then [char_of (48 + n)] else decimal (n div 10) @ [char_of (48 + n mod 10)])"

declare decimal.simps [simp del]

definition to_string :: "u64 \<Rightarrow> string" where
  "to_string v = decimal (unat v)"

definition stable_id_hash :: "string \<Rightarrow> string" where
  "stable_id_hash v = hex16 (fold (\<lambda>c h. (h XOR of_char c) * 1099511628211) v 14695981039346656037)"

definition make_restore_attempt :: "CampaignId \<Rightarrow> StateVersion \<Rightarrow> string" where
  "make_restore_attempt campaign entry = ''restore-'' @ stable_id_hash campaign @ ''-r'' @ to_string entry"

definition recovery_begin_mutation_id :: "CampaignId \<Rightarrow> StateVersion \<Rightarrow> string" where
  "recovery_begin_mutation_id campaign expected =
     ''recovery-begin-'' @ stable_id_hash campaign @ ''-r'' @ to_string expected"

definition recovery_mutation_id :: "string \<Rightarrow> string \<Rightarrow> string" where
  "recovery_mutation_id operation attempt = ''recovery-'' @ operation @ ''-'' @ attempt"

definition recovery_slot_mutation_id :: "string \<Rightarrow> string \<Rightarrow> string \<Rightarrow> string" where
  "recovery_slot_mutation_id operation attempt slot =
     recovery_mutation_id (operation @ ''-'' @ stable_id_hash slot) attempt"

definition complete_recovery_payload :: "string \<Rightarrow> string \<Rightarrow> StateVersion \<Rightarrow> Bytes" where
  "complete_recovery_payload attempt checkpoint revision =
     begin_command_payload ''CompleteRecovery'' @ payload_field attempt @ payload_field checkpoint @
     payload_field (to_string revision)"

definition restore_recovery_payload :: "string \<Rightarrow> string \<Rightarrow> Bytes" where
  "restore_recovery_payload attempt checkpoint =
     begin_command_payload ''RestoreCheckpoint'' @ payload_field attempt @ payload_field checkpoint"

definition value_or :: "'a \<Rightarrow> 'a option \<Rightarrow> 'a" where
  "value_or x v = (case v of None \<Rightarrow> x | Some y \<Rightarrow> y)"

definition recovery_loaded_payload :: "string \<Rightarrow> CheckpointRecord \<Rightarrow> CheckpointSlotRecord \<Rightarrow> Bytes" where
  "recovery_loaded_payload attempt ck s =
     begin_command_payload ''RecoveryLoaded'' @ payload_field attempt @ payload_field (ck_id ck) @
     payload_field (cs_slot s) @ payload_field (cs_player s) @ payload_field (cs_binding s) @
     payload_field (value_or [] (cs_native_save s)) @ payload_field (value_or [] (cs_algorithm s)) @
     payload_scalar (value_or 0 (cs_fingerprint_version s)) @ payload_blob (cs_fingerprint s) @
     payload_scalar (value_or 0 (cs_metadata_version s)) @ payload_blob (cs_metadata s)"

definition recovery_applied_payload ::
  "string \<Rightarrow> CheckpointRecord \<Rightarrow> StateVersion \<Rightarrow> CheckpointSlotRecord \<Rightarrow> Bytes" where
  "recovery_applied_payload attempt ck revision s =
     begin_command_payload ''RecoverySnapshotApplied'' @ payload_field attempt @ payload_field (ck_id ck) @
     payload_field (to_string revision) @ payload_field (cs_slot s) @ payload_field (cs_player s) @
     payload_field (cs_binding s)"

section \<open>Checkpoint slots\<close>

definition is_exact_artifact :: "(Bytes \<Rightarrow> Bytes option) \<Rightarrow> CheckpointSlotRecord \<Rightarrow> string \<Rightarrow> bool" where
  "is_exact_artifact sha s expected \<longleftrightarrow>
     \<not> (cs_native_save s \<noteq> Some expected \<or>
        cs_algorithm s \<noteq> Some kNativeSaveFingerprintAlgorithm \<or>
        cs_fingerprint_version s \<noteq> Some kNativeSaveFingerprintVersion \<or>
        length (cs_fingerprint s) \<noteq> kNativeSaveSha256Size \<or>
        cs_metadata_version s \<noteq> Some (ucast kNativeSaveMetadataCodecVersion) \<or>
        cs_metadata s = [] \<or> length (cs_metadata s) > kMaximumNativeSaveMetadataSize) \<and>
     \<not> isl (parse_bundle_artifact sha expected (cs_fingerprint s) (cs_metadata s))"

definition is_exact_member :: "CampaignMemberIdentity \<Rightarrow> CheckpointSlotRecord \<Rightarrow> bool" where
  "is_exact_member i s \<longleftrightarrow> cs_slot s = mi_slot i \<and> cs_player s = mi_player i \<and> cs_binding s = mi_binding i"

end
