(* ===== verification/RuntimeCommands.thy ===== *)
theory RuntimeCommands
  imports RuntimeStore
begin

text \<open>
  The commands of \<open>CampaignRuntimeService\<close> that change a campaign: loading the aggregate from the
  store, the fence that active checkpoints and recoveries put before a mutation, the reconstruction
  of an open recovery from the journal, and the seven commands. A command answers a replay from the
  journal, loads the aggregate, applies the operation of the state machine and persists the result.
\<close>

section \<open>Loading the aggregate\<close>

definition produces_core_state :: "JournalRow \<Rightarrow> bool" where
  "produces_core_state j \<longleftrightarrow> jr_resulting j > jr_expected j \<and> jr_kind j \<noteq> ''CreateCheckpointCandidate'' \<and>
     jr_kind j \<noteq> ''RecordCheckpointSlotSave'' \<and> jr_kind j \<noteq> ''CommitCheckpoint'' \<and>
     jr_kind j \<noteq> ''BeginRecovery'' \<and> jr_kind j \<noteq> ''CompleteRecovery''"

text \<open>The search through the restores of the journal, at most one step for each of its rows.\<close>

fun decode_ancestor ::
  "nat \<Rightarrow> (StateVersion \<Rightarrow> StoreError + CampaignAggregate) \<Rightarrow> JournalRow list \<Rightarrow> StateVersion \<Rightarrow>
   CampaignAggregate option" where
  "decode_ancestor 0 decode journal revision = None"
| "decode_ancestor (Suc n) decode journal revision =
     (case find (\<lambda>j. jr_resulting j = revision \<and> jr_kind j = ''RestoreCheckpoint'' \<and> jr_restored_revision j \<noteq> None)
             (rev journal) of
        None \<Rightarrow> None
      | Some j \<Rightarrow>
        let ancestor = the (jr_restored_revision j) in
        if ancestor = revision then None
        else case decode ancestor of Inr c \<Rightarrow> Some c | Inl e \<Rightarrow> decode_ancestor n decode journal ancestor)"

definition decode_canonical_core_state ::
  "CampaignId \<Rightarrow> bool \<Rightarrow> CampaignSlotRecord list \<Rightarrow> StateVersion \<Rightarrow> Bytes \<Rightarrow> JournalRow list \<Rightarrow>
   StateVersion option \<Rightarrow> StoreError + CampaignAggregate" where
  "decode_canonical_core_state campaign seal roster preferred payload journal alternate =
     (let decode = (\<lambda>revision. decode_core_state campaign seal roster revision payload) in
      case decode preferred of Inr c \<Rightarrow> Inr c
      | Inl e \<Rightarrow>
        let revision = (case alternate of None \<Rightarrow> preferred | Some v \<Rightarrow> v) in
        case if revision = preferred then Inl e else decode revision of Inr c \<Rightarrow> Inr c
        | Inl _ \<Rightarrow>
          case decode_ancestor (length journal) decode journal revision of Some c \<Rightarrow> Inr c
          | None \<Rightarrow> Inl e)"

text \<open>The failures of \<open>LoadedCampaign\<close>, as the handlers return them.\<close>

definition load_aggregate :: "CampaignId \<Rightarrow> (CommandResult, CampaignAggregate) svc" where
  "load_aggregate campaign =
     svc_bind (svc_error store_failure (svc_load (load_campaign_projection campaign server_audience))) (\<lambda>p.
     svc_bind (svc_require (cr_codec_version (pr_campaign p) = kCampaignCoreCodecVersion)
       (cmd_failure IntegrityFailure Store_IncompatibleSchema)) (\<lambda>_.
     svc_bind (svc_error store_failure (svc_load (load_journal campaign))) (\<lambda>journal.
     case find produces_core_state (rev journal) of
       None \<Rightarrow> svc_fail (cmd_failure IntegrityFailure Store_IntegrityFailure)
     | Some j \<Rightarrow>
       case decode_canonical_core_state (cr_id (pr_campaign p)) (cr_sealed (pr_campaign p)) (pr_slots p)
              (jr_resulting j) (cr_payload (pr_campaign p)) journal None of
         Inl e \<Rightarrow> svc_fail (cmd_failure IntegrityFailure e)
       | Inr c \<Rightarrow> svc_ret (c\<lparr>c_version := cr_revision (pr_campaign p)\<rparr>))))"

section \<open>Persisting\<close>

definition persist_request ::
  "CampaignAggregate \<Rightarrow> StateVersion \<Rightarrow> string \<Rightarrow> string \<Rightarrow> Bytes \<Rightarrow> bool \<Rightarrow> bool option \<Rightarrow> Bytes \<Rightarrow> Bytes \<Rightarrow>
   CampaignMutationRequest" where
  "persist_request c expected mutation kind payload replace_roster' seal core snapshot =
     \<lparr>amr_campaign = c_id c, amr_expected = expected, amr_mutation = mutation, amr_kind = kind, amr_advances = True,
      amr_codec_version = 1, amr_payload = payload, amr_core_version = Some kCampaignCoreCodecVersion,
      amr_core_payload = Some core, amr_sealed = seal,
      amr_roster = (if replace_roster' then Some (to_roster_records c) else None),
      amr_build_upserts = [], amr_build_deletes = [], amr_adapter_upserts = [], amr_adapter_deletes = [],
      amr_outbox = [\<lparr>oi_codec_version = kCampaignOutboxCodecVersion, oi_payload = snapshot\<rparr>]\<rparr>"

text \<open>A buffer that the encoder fills, empty before.\<close>

definition svc_encode :: "StoreError \<times> Bytes \<Rightarrow> (CommandResult, Bytes) svc" where
  "svc_encode result = (case result of (e, payload) \<Rightarrow>
     svc_bind (svc_require (e = Store_None) (store_failure e)) (\<lambda>_. svc_ret payload))"

definition svc_apply :: "CampaignMutationRequest \<Rightarrow> (CommandResult, CommandResult) svc" where
  "svc_apply request = svc_bind (svc_mutate (OpApply request)) (\<lambda>r. svc_ret (from_mutation_result r))"

definition persist_mutation ::
  "CampaignAggregate \<Rightarrow> StateVersion \<Rightarrow> string \<Rightarrow> string \<Rightarrow> Bytes \<Rightarrow> bool \<Rightarrow> bool option \<Rightarrow>
   (CommandResult, CommandResult) svc" where
  "persist_mutation c expected mutation kind payload replace_roster' seal =
     svc_bind (svc_encode (encode_core_state c [])) (\<lambda>core.
     svc_bind (svc_encode (encode_snapshot_intent c [])) (\<lambda>snapshot.
     svc_apply (persist_request c expected mutation kind payload replace_roster' seal core snapshot)))"

text \<open>A request that records a command and changes nothing else; \<open>advances\<close> is false for an accepted no-op.\<close>

definition record_request ::
  "CampaignId \<Rightarrow> StateVersion \<Rightarrow> string \<Rightarrow> string \<Rightarrow> bool \<Rightarrow> Bytes \<Rightarrow> CampaignMutationRequest" where
  "record_request campaign expected mutation kind advances payload =
     \<lparr>amr_campaign = campaign, amr_expected = expected, amr_mutation = mutation, amr_kind = kind,
      amr_advances = advances, amr_codec_version = 1, amr_payload = payload, amr_core_version = None,
      amr_core_payload = None, amr_sealed = None, amr_roster = None, amr_build_upserts = [],
      amr_build_deletes = [], amr_adapter_upserts = [], amr_adapter_deletes = [], amr_outbox = []\<rparr>"

definition persist_accepted_noop ::
  "CampaignId \<Rightarrow> StateVersion \<Rightarrow> string \<Rightarrow> string \<Rightarrow> Bytes \<Rightarrow> (CommandResult, CommandResult) svc" where
  "persist_accepted_noop campaign expected mutation kind payload =
     svc_apply (record_request campaign expected mutation kind False payload)"

text \<open>\<open>FindMutationReplay\<close>: it returns early with the replay, the conflict or the failure.\<close>

definition find_mutation_replay ::
  "CampaignId \<Rightarrow> StateVersion \<Rightarrow> string \<Rightarrow> string \<Rightarrow> Bytes \<Rightarrow> (CommandResult, unit) svc" where
  "find_mutation_replay campaign expected mutation kind payload = (\<lambda>env s.
     case svc_load (load_journal campaign) env s of
       (Inl e, s') \<Rightarrow> (if e = Store_NotFound then Inr () else Inl (store_failure e), s')
     | (Inr journal, s') \<Rightarrow>
       (case find (\<lambda>j. jr_mutation j = mutation) journal of
          None \<Rightarrow> Inr ()
        | Some j \<Rightarrow>
          if jr_expected j \<noteq> expected \<or> jr_kind j \<noteq> kind \<or> jr_codec_version j \<noteq> 1 \<or> jr_payload j \<noteq> payload
          then Inl ((cmd_failure PersistenceFailure Store_IdempotencyConflict)\<lparr>cmd_version := jr_resulting j\<rparr>)
          else Inl (cmd_ok\<lparr>cmd_version := jr_resulting j, cmd_replay := True\<rparr>), s'))"

section \<open>Reconstructing a recovery from the journal\<close>

record RecoveryScan =
  sc_open :: "RecoveryActivity option"
  sc_loaded :: "JournalRow list"
  sc_applied :: "JournalRow list"

definition journal_damaged :: CommandResult where
  "journal_damaged = cmd_failure IntegrityFailure Store_IntegrityFailure"

definition new_recovery_activity :: "CampaignId \<Rightarrow> StateVersion \<Rightarrow> RecoveryReason \<Rightarrow> RecoveryActivity" where
  "new_recovery_activity campaign entry reason =
     \<lparr>ra_campaign = campaign, ra_attempt = make_restore_attempt campaign entry, ra_entry_revision = entry,
      ra_stage = StageRecoveryLock, ra_reason = reason, ra_checkpoint = None, ra_source_revision = 0,
      ra_restore_revision = None, ra_durable_loaded = {||}, ra_durable_applied = {||}, ra_loaded = {||},
      ra_applied = {||}\<rparr>"

text \<open>One row of the journal.\<close>

definition scan_open_row :: "RecoveryActivity \<Rightarrow> JournalRow \<Rightarrow> RecoveryScan \<Rightarrow> CommandResult + RecoveryScan" where
  "scan_open_row a j sc =
     (if jr_kind j = ''RecoveryLoaded'' then Inr (sc\<lparr>sc_loaded := sc_loaded sc @ [j]\<rparr>)
      else if jr_kind j = ''RecoverySnapshotApplied'' then Inr (sc\<lparr>sc_applied := sc_applied sc @ [j]\<rparr>)
      else if jr_kind j = ''RestoreCheckpoint'' \<and> jr_mutation j = recovery_mutation_id ''restore'' (ra_attempt a)
      then (case (jr_restored_checkpoint j, jr_restored_revision j) of
          (Some k, Some v) \<Rightarrow>
            if jr_payload j \<noteq> restore_recovery_payload (ra_attempt a) k \<or> jr_resulting j \<noteq> jr_expected j + 1
            then Inl journal_damaged
            else Inr (sc\<lparr>sc_open := Some (a\<lparr>ra_checkpoint := Some k, ra_source_revision := v,
              ra_restore_revision := Some (jr_resulting j), ra_stage := StageRecoveryLock,
              ra_reason := ReasonNone\<rparr>)\<rparr>)
        | _ \<Rightarrow> Inl journal_damaged)
      else if jr_kind j = ''CompleteRecovery'' \<and> jr_mutation j = recovery_mutation_id ''complete'' (ra_attempt a)
      then (case (ra_checkpoint a, ra_restore_revision a) of
          (Some k, Some v) \<Rightarrow>
            if jr_resulting j \<noteq> v \<or> jr_payload j \<noteq> complete_recovery_payload (ra_attempt a) k v
            then Inl journal_damaged
            else Inr \<lparr>sc_open = None, sc_loaded = [], sc_applied = []\<rparr>
        | _ \<Rightarrow> Inl journal_damaged)
      else Inr sc)"

definition scan_row :: "CampaignId \<Rightarrow> JournalRow \<Rightarrow> RecoveryScan \<Rightarrow> CommandResult + RecoveryScan" where
  "scan_row campaign j sc =
     (if jr_kind j = ''BeginRecovery'' then
        if sc_open sc \<noteq> None then Inl journal_damaged
        else if jr_mutation j \<noteq> recovery_begin_mutation_id campaign (jr_expected j) \<or>
          jr_resulting j \<noteq> jr_expected j + 1 then Inl journal_damaged
        else Inr \<lparr>sc_open = Some (new_recovery_activity campaign (jr_resulting j) ReasonRosterIncomplete),
          sc_loaded = [], sc_applied = []\<rparr>
      else case sc_open sc of None \<Rightarrow> Inr sc | Some a \<Rightarrow> scan_open_row a j sc)"

fun scan_journal :: "CampaignId \<Rightarrow> JournalRow list \<Rightarrow> RecoveryScan \<Rightarrow> CommandResult + RecoveryScan" where
  "scan_journal campaign [] sc = Inr sc"
| "scan_journal campaign (j # js) sc =
     (case scan_row campaign j sc of Inl e \<Rightarrow> Inl e | Inr sc' \<Rightarrow> scan_journal campaign js sc')"

text \<open>\<open>recoverDurableSlots\<close>: every receipt names its own slot of the checkpoint, with the payload it must have.\<close>

fun recover_durable_slots ::
  "(string \<Rightarrow> string) \<Rightarrow> (CheckpointSlotRecord \<Rightarrow> Bytes) \<Rightarrow> string \<Rightarrow> CheckpointSlotRecord list \<Rightarrow>
   JournalRow list \<Rightarrow> string fset \<Rightarrow> string fset option" where
  "recover_durable_slots mutation payload kind slots [] found = Some found"
| "recover_durable_slots mutation payload kind slots (j # js) found =
     (case find (\<lambda>s. jr_mutation j = mutation (cs_slot s)) slots of
        None \<Rightarrow> None
      | Some s \<Rightarrow>
        if jr_kind j \<noteq> kind \<or> jr_expected j \<noteq> jr_resulting j \<or> jr_payload j \<noteq> payload s \<or> cs_slot s |\<in>| found
        then None else recover_durable_slots mutation payload kind slots js (finsert (cs_slot s) found))"

definition recover_receipts ::
  "RecoveryActivity \<Rightarrow> JournalRow list \<Rightarrow> JournalRow list \<Rightarrow> CheckpointRecord \<Rightarrow> RecoveryActivity option" where
  "recover_receipts a loaded applied ck =
     (case recover_durable_slots (recovery_slot_mutation_id ''loaded'' (ra_attempt a))
             (recovery_loaded_payload (ra_attempt a) ck) ''RecoveryLoaded'' (ck_slots ck) loaded {||} of
        None \<Rightarrow> None
      | Some durable_loaded \<Rightarrow>
        if applied \<noteq> [] \<and> ra_restore_revision a = None then None
        else case recover_durable_slots (recovery_slot_mutation_id ''applied'' (ra_attempt a))
                    (recovery_applied_payload (ra_attempt a) ck (value_or 0 (ra_restore_revision a)))
                    ''RecoverySnapshotApplied'' (ck_slots ck) applied {||} of
          None \<Rightarrow> None
        | Some durable_applied \<Rightarrow> Some (a\<lparr>ra_durable_loaded := durable_loaded, ra_durable_applied := durable_applied\<rparr>))"

definition open_recovery :: "CampaignId \<Rightarrow> RecoveryActivity \<Rightarrow> (CommandResult, unit) svc" where
  "open_recovery campaign a = svc_put (\<lambda>s. s\<lparr>sv_recoveries := (sv_recoveries s)(campaign \<mapsto> a)\<rparr>)"

definition finish_reconstruction :: "CampaignId \<Rightarrow> RecoveryScan \<Rightarrow> (CommandResult, unit) svc" where
  "finish_reconstruction campaign sc =
     (case sc_open sc of
        None \<Rightarrow> svc_ret ()
      | Some a \<Rightarrow>
        if sc_loaded sc = [] \<and> sc_applied sc = [] then open_recovery campaign a
        else svc_bind (svc_error store_failure (svc_load
               (case ra_checkpoint a of Some k \<Rightarrow> load_checkpoint campaign k
                | None \<Rightarrow> load_last_committed_checkpoint campaign))) (\<lambda>ck.
          let a = (if ra_checkpoint a = None
                   then a\<lparr>ra_checkpoint := Some (ck_id ck), ra_source_revision := ck_source_revision ck\<rparr> else a) in
          case recover_receipts a (sc_loaded sc) (sc_applied sc) ck of
            None \<Rightarrow> svc_fail journal_damaged
          | Some a \<Rightarrow> open_recovery campaign a))"

definition reconstruct_recovery :: "CampaignId \<Rightarrow> (CommandResult, unit) svc" where
  "reconstruct_recovery campaign = (\<lambda>env (k, s).
     if sv_recoveries s campaign \<noteq> None then (Inr (), k, s)
     else case svc_load (load_journal campaign) env (k, s) of
       (Inl e, s') \<Rightarrow> (if e = Store_NotFound then Inr () else Inl (store_failure e), s')
     | (Inr journal, s') \<Rightarrow>
       (case scan_journal campaign journal \<lparr>sc_open = None, sc_loaded = [], sc_applied = []\<rparr> of
          Inl e \<Rightarrow> (Inl e, s')
        | Inr sc \<Rightarrow> finish_reconstruction campaign sc env s'))"

definition check_mutation_fence :: "CampaignId \<Rightarrow> (CommandResult, unit) svc" where
  "check_mutation_fence campaign =
     svc_bind (svc_get (\<lambda>s. sv_checkpoints s campaign)) (\<lambda>active.
     svc_bind (svc_require (active = None) (cmd_failure CheckpointInProgress Store_None)) (\<lambda>_.
     svc_bind (reconstruct_recovery campaign) (\<lambda>_.
     svc_bind (svc_get (\<lambda>s. sv_recoveries s campaign)) (\<lambda>recovery.
     svc_require (recovery = None) (cmd_failure RecoveryInProgress Store_None)))))"

section \<open>The commands\<close>

text \<open>
  What the commands that change a loaded campaign share: the fence, the replay, the aggregate and its
  revision, the operation of the state machine, and the two ways to persist. The operation returns early
  with \<open>DomainFailure\<close>; \<open>noop\<close> says whether an unchanged aggregate is recorded as an accepted no-op.
\<close>

definition campaign_command ::
  "CampaignId \<Rightarrow> StateVersion \<Rightarrow> string \<Rightarrow> string \<Rightarrow> Bytes \<Rightarrow>
   (CampaignAggregate \<Rightarrow> CampaignAggregate \<times> CampaignDomainResult) \<Rightarrow> bool \<Rightarrow> bool \<Rightarrow> bool option \<Rightarrow>
   (CommandResult, CommandResult) svc" where
  "campaign_command campaign expected mutation kind arguments perform noop replace_roster' seal =
     (let payload = begin_command_payload kind @ arguments in
      svc_bind (check_mutation_fence campaign) (\<lambda>_.
      svc_bind (find_mutation_replay campaign expected mutation kind payload) (\<lambda>_.
      svc_bind (load_aggregate campaign) (\<lambda>c.
      svc_bind (svc_require (c_version c = expected) (stale_revision (c_version c))) (\<lambda>_.
      case perform c of (c', r) \<Rightarrow>
        if \<not> dom_succeeded r then svc_fail (domain_failure r)
        else if noop \<and> \<not> dom_changed r then persist_accepted_noop campaign expected mutation kind payload
        else persist_mutation c' expected mutation kind payload replace_roster' seal)))))"

definition add_roster_slot ::
  "CampaignId \<Rightarrow> StateVersion \<Rightarrow> string \<Rightarrow> CampaignSlotRecord \<Rightarrow> (CommandResult, CommandResult) svc" where
  "add_roster_slot campaign expected mutation s =
     campaign_command campaign expected mutation ''AddRosterSlot'' (payload_slot s)
       (add_slot (to_slot_state s)) False True None"

definition remove_roster_slot ::
  "CampaignId \<Rightarrow> StateVersion \<Rightarrow> string \<Rightarrow> CampaignSlotId \<Rightarrow> (CommandResult, CommandResult) svc" where
  "remove_roster_slot campaign expected mutation i =
     campaign_command campaign expected mutation ''RemoveRosterSlot'' (payload_field i)
       (remove_slot i) False True None"

definition replace_roster_slot ::
  "CampaignId \<Rightarrow> StateVersion \<Rightarrow> string \<Rightarrow> CampaignSlotRecord \<Rightarrow> (CommandResult, CommandResult) svc" where
  "replace_roster_slot campaign expected mutation s =
     campaign_command campaign expected mutation ''ReplaceRosterSlot'' (payload_slot s)
       (replace_slot (to_slot_state s)) True True None"

definition server_actor :: CampaignActor where
  "server_actor = \<lparr>actor_kind = ActorServer, actor_player = None\<rparr>"

definition start_campaign ::
  "CampaignId \<Rightarrow> StateVersion \<Rightarrow> string \<Rightarrow> DurablePlayerId \<Rightarrow> (CommandResult, CommandResult) svc" where
  "start_campaign campaign expected mutation manager =
     campaign_command campaign expected mutation ''CommitCampaignStart'' (payload_field manager)
       (commit_campaign_start server_actor manager) False True (Some True)"

definition transfer_manager ::
  "CampaignId \<Rightarrow> StateVersion \<Rightarrow> string \<Rightarrow> DurablePlayerId \<Rightarrow> DurablePlayerId \<Rightarrow> (CommandResult, CommandResult) svc" where
  "transfer_manager campaign expected mutation actor manager =
     campaign_command campaign expected mutation ''TransferSessionManager''
       (payload_field actor @ payload_field manager) (transfer_session_manager actor manager) True False None"

definition set_campaign_ready ::
  "CampaignId \<Rightarrow> StateVersion \<Rightarrow> string \<Rightarrow> CampaignMemberIdentity \<Rightarrow> bool \<Rightarrow> (CommandResult, CommandResult) svc" where
  "set_campaign_ready campaign expected mutation actor ready =
     campaign_command campaign expected mutation ''SetReady''
       (payload_field (mi_campaign actor) @ payload_member actor @ [if ready then 1 else 0])
       (set_ready actor ready) True False None"

definition create_request ::
  "CampaignAggregate \<Rightarrow> string \<Rightarrow> Bytes \<Rightarrow> Bytes \<Rightarrow> CreateCampaignRequest" where
  "create_request c mutation core snapshot =
     \<lparr>ccr_campaign = \<lparr>cr_id = c_id c, cr_schema_version = kCampaignDatabaseSchemaVersion, cr_revision = 0,
        cr_sealed = False, cr_checkpoint = None, cr_codec_version = kCampaignCoreCodecVersion, cr_payload = core,
        cr_created = 0, cr_updated = 0\<rparr>,
      ccr_slots = to_roster_records c, ccr_builds = [], ccr_adapters = [], ccr_mutation = mutation,
      ccr_codec_version = 1,
      ccr_payload = begin_command_payload ''CreateCampaign'' @ concat (map payload_slot (to_roster_records c)),
      ccr_outbox = [\<lparr>oi_codec_version = kCampaignOutboxCodecVersion, oi_payload = snapshot\<rparr>]\<rparr>"

definition create_lobby_campaign ::
  "CampaignId \<Rightarrow> string \<Rightarrow> CampaignSlotRecord list \<Rightarrow> (CommandResult, CommandResult) svc" where
  "create_lobby_campaign campaign mutation initial =
     (case new_lobby_campaign campaign (map to_slot_state initial) of
        Inl e \<Rightarrow> svc_fail (domain_failure (dom_failure e))
      | Inr c \<Rightarrow>
        svc_bind (svc_encode (encode_core_state c [])) (\<lambda>core.
        svc_bind (svc_encode (encode_snapshot_intent c [])) (\<lambda>snapshot.
        svc_bind (svc_mutate (OpCreate (create_request c mutation core snapshot)))
          (\<lambda>r. svc_ret (from_mutation_result r)))))"

section \<open>Looking up a creation\<close>

text \<open>A failed lookup keeps what it found before.\<close>

record CreationLookup =
  cl_error :: CampaignError
  cl_store :: StoreError
  cl_identity :: "CampaignMemberIdentity option"
  cl_version :: StateVersion

definition no_creation :: CreationLookup where
  "no_creation = \<lparr>cl_error = NoCampaignError, cl_store = Store_None, cl_identity = None, cl_version = 0\<rparr>"

definition lookup_failure :: "CampaignError \<Rightarrow> StoreError \<Rightarrow> CreationLookup \<Rightarrow> CreationLookup" where
  "lookup_failure e s found = found\<lparr>cl_error := e, cl_store := s\<rparr>"

fun lookup_creations :: "DurablePlayerId \<Rightarrow> JournalRow list \<Rightarrow> CreationLookup \<Rightarrow> CreationLookup" where
  "lookup_creations player [] found = found"
| "lookup_creations player (j # js) found =
     (if jr_expected j \<noteq> 0 \<or> jr_resulting j \<noteq> 1 \<or> jr_codec_version j \<noteq> 1 \<or> jr_restored_checkpoint j \<noteq> None \<or>
         jr_restored_revision j \<noteq> None then lookup_failure IntegrityFailure Store_IntegrityFailure found
      else case decode_create_payload (jr_payload j) of
        None \<Rightarrow> lookup_failure IntegrityFailure Store_IntegrityFailure found
      | Some roster \<Rightarrow>
        case find (\<lambda>s. rec_player s = player) roster of
          None \<Rightarrow> lookup_creations player js found
        | Some s \<Rightarrow>
          if cl_identity found \<noteq> None then lookup_failure IntegrityFailure Store_IntegrityFailure found
          else lookup_creations player js
            (found\<lparr>cl_identity := Some \<lparr>mi_campaign = jr_campaign j, mi_slot = rec_slot s, mi_player = rec_player s,
               mi_binding = rec_binding s\<rparr>, cl_version := jr_resulting j\<rparr>))"

definition find_campaign_creation :: "DurablePlayerId \<Rightarrow> string \<Rightarrow> (CreationLookup, CreationLookup) svc" where
  "find_campaign_creation player mutation =
     (if player = [] \<or> mutation = [] then svc_fail (lookup_failure InvalidIdentity Store_InvalidArgument no_creation)
      else svc_bind (svc_error (\<lambda>e. lookup_failure (translate_store_error e) e no_creation)
             (svc_load (load_journal_by_mutation mutation ''CreateCampaign'')))
        (\<lambda>entries. svc_ret (lookup_creations player entries no_creation)))"

end
