(* ===== verification/RuntimeCheckpoints.thy ===== *)
theory RuntimeCheckpoints
  imports RuntimeCommands
begin

text \<open>
  The checkpoints of \<open>CampaignRuntimeService\<close>: beginning one with the full roster present, recording the
  native save of every slot, committing it with the last of them, failing and abandoning it.
\<close>

record CheckpointCommandResult =
  kr_command :: CommandResult
  kr_activity :: "CheckpointActivity option"
  kr_committed :: bool

definition checkpoint_result :: "CheckpointActivity option \<Rightarrow> CommandResult \<Rightarrow> CheckpointCommandResult" where
  "checkpoint_result activity r = \<lparr>kr_command = r, kr_activity = activity, kr_committed = False\<rparr>"

section \<open>Beginning a checkpoint\<close>

definition native_save_identity :: "string \<Rightarrow> string" where
  "native_save_identity checkpoint = ''stre-'' @ checkpoint"

definition candidate_request :: "CampaignAggregate \<Rightarrow> CampaignId \<Rightarrow> string \<Rightarrow> string \<Rightarrow> Bytes \<Rightarrow> CreateCandidateRequest" where
  "candidate_request c campaign checkpoint native core =
     \<lparr>ckr_campaign = campaign, ckr_expected = c_version c,
      ckr_mutation = checkpoint_mutation_id ''create'' checkpoint None, ckr_checkpoint = checkpoint,
      ckr_snapshot = ''snapshot-'' @ checkpoint, ckr_core_version = kCampaignCoreCodecVersion,
      ckr_core_payload = core, ckr_codec_version = 1,
      ckr_payload = begin_command_payload ''CreateCheckpointCandidate'' @ payload_field checkpoint @
        payload_field native,
      ckr_outbox = []\<rparr>"

definition start_candidate ::
  "CampaignId \<Rightarrow> string \<Rightarrow> string \<Rightarrow> CampaignMemberPresence list \<Rightarrow>
   (CommandResult, CommandResult \<times> CheckpointActivity) svc" where
  "start_candidate campaign checkpoint native presence =
     svc_bind (check_mutation_fence campaign) (\<lambda>_.
     svc_bind (svc_require (\<not> (checkpoint = [] \<or> native \<noteq> native_save_identity checkpoint))
       (cmd_failure InvalidIdentity Store_None)) (\<lambda>_.
     svc_bind (load_aggregate campaign) (\<lambda>c.
     svc_bind (svc_require (evaluate_full_roster c presence = NoRosterFailure)
       (cmd_failure (if c_sealed c then RosterIncomplete else RosterNotSealed) Store_None)) (\<lambda>_.
     svc_bind (svc_encode (encode_core_state c [])) (\<lambda>core.
     svc_bind (svc_mutate (OpCandidate (candidate_request c campaign checkpoint native core))) (\<lambda>persisted.
     let r = from_mutation_result persisted in
     svc_bind (svc_require (cmd_error r = NoCampaignError) r) (\<lambda>_.
     let a = \<lparr>ca_campaign = campaign, ca_checkpoint = checkpoint, ca_source_revision = c_version c,
       ca_native_save = native\<rparr> in
     svc_bind (svc_put (\<lambda>s. s\<lparr>sv_checkpoints := (sv_checkpoints s)(campaign \<mapsto> a)\<rparr>)) (\<lambda>_.
     svc_ret (r, a)))))))))"

definition begin_checkpoint ::
  "CampaignId \<Rightarrow> string \<Rightarrow> string \<Rightarrow> CampaignMemberPresence list \<Rightarrow>
   (CheckpointCommandResult, CheckpointCommandResult) svc" where
  "begin_checkpoint campaign checkpoint native presence =
     svc_bind (svc_get (\<lambda>s. sv_checkpoints s campaign)) (\<lambda>active.
     svc_bind (svc_require (active = None)
       (checkpoint_result active (cmd_failure CheckpointInProgress Store_None))) (\<lambda>_.
     svc_bind (svc_error (checkpoint_result None) (start_candidate campaign checkpoint native presence)) (\<lambda>(r, a).
     svc_ret (checkpoint_result (Some a) r))))"

section \<open>Recording the saves\<close>

record RecordSaveCommand =
  rc_campaign :: CampaignId
  rc_checkpoint :: string
  rc_native :: string
  rc_actor :: CampaignMemberIdentity
  rc_algorithm :: string
  rc_fingerprint_version :: u32
  rc_fingerprint :: Bytes
  rc_metadata_version :: u32
  rc_metadata :: Bytes

text \<open>What \<open>RecordCheckpointSave\<close> and \<open>FailCheckpoint\<close> ask before they act on the active checkpoint.\<close>

definition active_checkpoint :: "CampaignId \<Rightarrow> (CommandResult, CheckpointActivity) svc" where
  "active_checkpoint campaign =
     svc_bind (reconstruct_recovery campaign) (\<lambda>_.
     svc_bind (svc_get (\<lambda>s. sv_recoveries s campaign)) (\<lambda>recovery.
     svc_bind (svc_require (recovery = None) (cmd_failure RecoveryInProgress Store_None)) (\<lambda>_.
     svc_bind (svc_get (\<lambda>s. sv_checkpoints s campaign)) (\<lambda>active.
     case active of None \<Rightarrow> svc_fail (cmd_failure CheckpointNotActive Store_None)
     | Some a \<Rightarrow> svc_ret a))))"

definition matches_checkpoint :: "CheckpointActivity \<Rightarrow> CampaignId \<Rightarrow> string \<Rightarrow> string \<Rightarrow> CampaignMemberIdentity \<Rightarrow> bool" where
  "matches_checkpoint a campaign checkpoint native actor \<longleftrightarrow>
     \<not> (ca_checkpoint a \<noteq> checkpoint \<or> ca_native_save a \<noteq> native \<or> mi_campaign actor \<noteq> campaign)"

text \<open>The exact slot of an actor in the active checkpoint.\<close>

definition checkpoint_member ::
  "CheckpointActivity \<Rightarrow> CampaignId \<Rightarrow> string \<Rightarrow> string \<Rightarrow> CampaignMemberIdentity \<Rightarrow>
   (CommandResult, CheckpointSlotRecord) svc" where
  "checkpoint_member a campaign checkpoint native actor =
     svc_bind (svc_require (matches_checkpoint a campaign checkpoint native actor)
       (cmd_failure CheckpointMismatch Store_None)) (\<lambda>_.
     svc_bind (svc_error store_failure (svc_load (load_checkpoint campaign checkpoint))) (\<lambda>ck.
     case find (is_exact_member actor) (ck_slots ck) of
       None \<Rightarrow> svc_fail (cmd_failure NotCampaignMember Store_None)
     | Some slot \<Rightarrow> svc_ret slot))"

definition canonical_save :: "RecordSaveCommand \<Rightarrow> CheckpointSlotRecord \<Rightarrow> CheckpointSlotRecord" where
  "canonical_save cmd slot =
     \<lparr>cs_slot = cs_slot slot, cs_player = cs_player slot, cs_binding = cs_binding slot,
      cs_native_save = Some (rc_native cmd), cs_algorithm = Some (rc_algorithm cmd),
      cs_fingerprint_version = Some (rc_fingerprint_version cmd), cs_fingerprint = rc_fingerprint cmd,
      cs_metadata_version = Some (rc_metadata_version cmd), cs_metadata = rc_metadata cmd\<rparr>"

definition save_request :: "RecordSaveCommand \<Rightarrow> CheckpointSlotRecord \<Rightarrow> StateVersion \<Rightarrow> RecordSlotSaveRequest" where
  "save_request cmd save expected =
     \<lparr>rsr_campaign = rc_campaign cmd, rsr_expected = expected,
      rsr_mutation = checkpoint_mutation_id ''ack'' (rc_checkpoint cmd) (Some (cs_slot save)),
      rsr_checkpoint = rc_checkpoint cmd, rsr_slot = save, rsr_codec_version = 1,
      rsr_payload = begin_command_payload ''RecordCheckpointSlotSave'' @ payload_field (rc_checkpoint cmd) @
        payload_field (cs_slot save),
      rsr_outbox = []\<rparr>"

text \<open>The revision of a save: the one of the journal when it was recorded before.\<close>

definition save_revision :: "CampaignId \<Rightarrow> string \<Rightarrow> (CommandResult, StateVersion) svc" where
  "save_revision campaign mutation =
     svc_bind (svc_error store_failure (svc_load (load_journal campaign))) (\<lambda>journal.
     case find (\<lambda>j. jr_mutation j = mutation) journal of
       Some j \<Rightarrow> svc_ret (jr_expected j)
     | None \<Rightarrow>
       svc_bind (svc_error store_failure (svc_load (load_campaign campaign))) (\<lambda>c. svc_ret (cr_revision c)))"

definition commit_request :: "CampaignId \<Rightarrow> string \<Rightarrow> StateVersion \<Rightarrow> CommitCheckpointRequest" where
  "commit_request campaign checkpoint expected =
     \<lparr>cmr_campaign = campaign, cmr_expected = expected,
      cmr_mutation = checkpoint_mutation_id ''commit'' checkpoint None, cmr_checkpoint = checkpoint,
      cmr_codec_version = 1, cmr_payload = begin_command_payload ''CommitCheckpoint'' @ payload_field checkpoint,
      cmr_outbox = []\<rparr>"

definition checkpoint_complete :: "(Bytes \<Rightarrow> Bytes option) \<Rightarrow> string \<Rightarrow> CheckpointRecord \<Rightarrow> bool" where
  "checkpoint_complete sha native ck \<longleftrightarrow> ck_slots ck \<noteq> [] \<and> list_all (\<lambda>s. is_exact_artifact sha s native) (ck_slots ck)"

definition clear_checkpoint :: "CampaignId \<Rightarrow> ('e, unit) svc" where
  "clear_checkpoint campaign = svc_put (\<lambda>s. s\<lparr>sv_checkpoints := (sv_checkpoints s)(campaign := None)\<rparr>)"

text \<open>The last save commits the checkpoint: the result, and whether it is committed.\<close>

definition commit_when_complete ::
  "CheckpointActivity \<Rightarrow> RecordSaveCommand \<Rightarrow> CommandResult \<Rightarrow> (CommandResult, CommandResult \<times> bool) svc" where
  "commit_when_complete a cmd r0 =
     svc_bind (svc_error store_failure (svc_load (load_checkpoint (rc_campaign cmd) (rc_checkpoint cmd)))) (\<lambda>ck.
     svc_bind (svc_env sha256) (\<lambda>sha.
     if \<not> checkpoint_complete sha (ca_native_save a) ck then svc_ret (r0, False)
     else
       svc_bind (svc_error store_failure (svc_load (load_campaign (rc_campaign cmd)))) (\<lambda>c.
       svc_bind (svc_mutate (OpCommit (commit_request (rc_campaign cmd) (rc_checkpoint cmd) (cr_revision c)))) (\<lambda>m.
       let r = from_mutation_result m in
       svc_bind (svc_require (cmd_error r = NoCampaignError) r) (\<lambda>_.
       svc_bind (clear_checkpoint (rc_campaign cmd)) (\<lambda>_.
       svc_ret (r, True)))))))"

definition record_save :: "CheckpointActivity \<Rightarrow> RecordSaveCommand \<Rightarrow> (CommandResult, CommandResult \<times> bool) svc" where
  "record_save a cmd =
     svc_bind (checkpoint_member a (rc_campaign cmd) (rc_checkpoint cmd) (rc_native cmd) (rc_actor cmd)) (\<lambda>slot.
     let save = canonical_save cmd slot in
     svc_bind (svc_env sha256) (\<lambda>sha.
     svc_bind (svc_require (is_exact_artifact sha save (ca_native_save a))
       (cmd_failure InvalidCheckpointArtifact Store_None)) (\<lambda>_.
     svc_bind (save_revision (rc_campaign cmd)
       (checkpoint_mutation_id ''ack'' (rc_checkpoint cmd) (Some (cs_slot slot)))) (\<lambda>expected.
     svc_bind (svc_mutate (OpSlotSave (save_request cmd save expected))) (\<lambda>m.
     let r = from_mutation_result m in
     svc_bind (svc_require (cmd_error r = NoCampaignError) r) (\<lambda>_.
     commit_when_complete a cmd r))))))"

definition record_checkpoint_save :: "RecordSaveCommand \<Rightarrow> (CheckpointCommandResult, CheckpointCommandResult) svc" where
  "record_checkpoint_save cmd =
     svc_bind (svc_error (checkpoint_result None) (active_checkpoint (rc_campaign cmd))) (\<lambda>a.
     svc_bind (svc_error (checkpoint_result (Some a)) (record_save a cmd)) (\<lambda>(r, committed).
     svc_ret \<lparr>kr_command = r, kr_activity = Some a, kr_committed = committed\<rparr>))"

section \<open>Giving a checkpoint up\<close>

definition give_up :: "CheckpointActivity \<Rightarrow> CampaignId \<Rightarrow> string \<Rightarrow> string \<Rightarrow> CampaignMemberIdentity \<Rightarrow>
    (CommandResult, CommandResult) svc" where
  "give_up a campaign checkpoint native actor =
     svc_bind (checkpoint_member a campaign checkpoint native actor) (\<lambda>slot.
     svc_bind (svc_error store_failure (svc_load (load_campaign campaign))) (\<lambda>c.
     svc_bind (clear_checkpoint campaign) (\<lambda>_.
     svc_ret (cmd_ok\<lparr>cmd_version := cr_revision c\<rparr>))))"

definition fail_checkpoint ::
  "CampaignId \<Rightarrow> string \<Rightarrow> string \<Rightarrow> CampaignMemberIdentity \<Rightarrow> (CheckpointCommandResult, CheckpointCommandResult) svc" where
  "fail_checkpoint campaign checkpoint native actor =
     svc_bind (svc_error (checkpoint_result None) (active_checkpoint campaign)) (\<lambda>a.
     svc_bind (svc_error (checkpoint_result (Some a)) (give_up a campaign checkpoint native actor)) (\<lambda>r.
     svc_ret (checkpoint_result (Some a) r)))"

definition abandon_checkpoint :: "CampaignId \<Rightarrow> ('e, unit) svc" where
  "abandon_checkpoint campaign = clear_checkpoint campaign"

definition get_active_checkpoint :: "CampaignId \<Rightarrow> RuntimeService \<Rightarrow> CheckpointActivity option" where
  "get_active_checkpoint campaign s = sv_checkpoints s campaign"

end
