(* ===== verification/RuntimeRecovery.thy ===== *)
theory RuntimeRecovery
  imports RuntimeCheckpoints
begin

text \<open>
  The recoveries of \<open>CampaignRuntimeService\<close>: beginning one when a member of a sealed roster is lost or a
  campaign load is asked for, preparing the native loads of the last committed checkpoint, the barrier
  of the loads, after which the checkpoint's snapshot is restored, and the barrier of its application.
\<close>

datatype RecoveryDispatch = DispatchNone | DispatchNativeLoad | DispatchRestoredSnapshot

record RecoveryCommandResult =
  rr_command :: CommandResult
  rr_activity :: "RecoveryActivity option"
  rr_checkpoint :: "CheckpointRecord option"
  rr_dispatch :: RecoveryDispatch
  rr_first_barrier :: bool
  rr_completed :: bool

definition recovery_result :: "CommandResult \<Rightarrow> RecoveryCommandResult" where
  "recovery_result r = \<lparr>rr_command = r, rr_activity = None, rr_checkpoint = None, rr_dispatch = DispatchNone,
     rr_first_barrier = False, rr_completed = False\<rparr>"

abbreviation at_version :: "StateVersion \<Rightarrow> CommandResult \<Rightarrow> CommandResult" where
  "at_version v r \<equiv> r\<lparr>cmd_version := v\<rparr>"

abbreviation recovery_failure :: "CampaignError \<Rightarrow> RecoveryCommandResult" where
  "recovery_failure e \<equiv> recovery_result (cmd_failure e Store_None)"

type_synonym 'a recovery_svc = "(RecoveryCommandResult, 'a) svc"

definition recovery_load :: "(StoreError, 'a) sql \<Rightarrow> 'a recovery_svc" where
  "recovery_load m = svc_error (recovery_result \<circ> store_failure) (svc_load m)"

definition put_recovery :: "CampaignId \<Rightarrow> RecoveryActivity \<Rightarrow> ('e, unit) svc" where
  "put_recovery campaign a = svc_put (\<lambda>s. s\<lparr>sv_recoveries := (sv_recoveries s)(campaign \<mapsto> a)\<rparr>)"

definition clear_recovery :: "CampaignId \<Rightarrow> ('e, unit) svc" where
  "clear_recovery campaign = svc_put (\<lambda>s. s\<lparr>sv_recoveries := (sv_recoveries s)(campaign := None)\<rparr>)"

text \<open>Storing the activity and returning early.\<close>

definition put_and_fail :: "CampaignId \<Rightarrow> RecoveryActivity \<Rightarrow> CommandResult \<Rightarrow> 'a recovery_svc" where
  "put_and_fail campaign a r =
     svc_bind (put_recovery campaign a) (\<lambda>_. svc_fail ((recovery_result r)\<lparr>rr_activity := Some a\<rparr>))"

definition find_recovery :: "CampaignId \<Rightarrow> RecoveryActivity option recovery_svc" where
  "find_recovery campaign =
     svc_bind (svc_error recovery_result (reconstruct_recovery campaign)) (\<lambda>_.
     svc_get (\<lambda>s. sv_recoveries s campaign))"

text \<open>\<open>ApplyMutation\<close> of a request that records a step of the recovery.\<close>

definition record_step :: "CampaignMutationRequest \<Rightarrow> CommandResult recovery_svc" where
  "record_step request =
     svc_bind (svc_error recovery_result (svc_apply request)) (\<lambda>r.
     svc_bind (svc_require (cmd_error r = NoCampaignError) (recovery_result r)) (\<lambda>_. svc_ret r))"

section \<open>Beginning a recovery\<close>

record BeginRecoveryCommand =
  bc_campaign :: CampaignId
  bc_member :: CampaignMemberIdentity
  bc_presence :: "CampaignMemberPresence list"
  bc_state :: CampaignRuntimeState
  bc_load_requested :: bool

definition requested_reason :: "bool \<Rightarrow> RecoveryReason" where
  "requested_reason load_requested = (if load_requested then ReasonCampaignLoadRequested else ReasonRosterIncomplete)"

definition relock :: "RecoveryActivity \<Rightarrow> bool \<Rightarrow> RecoveryActivity" where
  "relock a load_requested =
     (if ra_stage a \<noteq> StageRecoveryLock
      then a\<lparr>ra_stage := StageRecoveryLock, ra_loaded := {||}, ra_applied := {||}\<rparr> else a)
     \<lparr>ra_reason := requested_reason load_requested\<rparr>"

text \<open>Whether a new recovery may begin, for the loaded campaign.\<close>

definition recovery_refusal :: "BeginRecoveryCommand \<Rightarrow> CampaignAggregate \<Rightarrow> CampaignError" where
  "recovery_refusal cmd c =
     (if \<not> c_sealed c then RosterNotSealed
      else if find (\<lambda>s. slot_id s = mi_slot (bc_member cmd) \<and> slot_player s = mi_player (bc_member cmd) \<and>
                   slot_binding s = mi_binding (bc_member cmd)) (c_roster c) = None then NotCampaignMember
      else let full = evaluate_full_roster c (bc_presence cmd) = NoRosterFailure in
        if \<not> bc_load_requested cmd \<and> full then InvalidRoster
        else if bc_load_requested cmd \<and> \<not> full then RosterIncomplete else NoCampaignError)"

definition begin_request :: "BeginRecoveryCommand \<Rightarrow> StateVersion \<Rightarrow> CampaignMutationRequest" where
  "begin_request cmd version =
     record_request (bc_campaign cmd) version (recovery_begin_mutation_id (bc_campaign cmd) version)
       ''BeginRecovery'' True
       (begin_command_payload ''BeginRecovery'' @ payload_member (bc_member cmd) @
        payload_field (if bc_load_requested cmd then ''campaign-load'' else ''roster-loss''))"

definition begin_recovery :: "BeginRecoveryCommand \<Rightarrow> RecoveryCommandResult recovery_svc" where
  "begin_recovery cmd =
     (let i = bc_campaign cmd in
      svc_bind (svc_require (mi_campaign (bc_member cmd) = i) (recovery_failure RecoveryMismatch)) (\<lambda>_.
      svc_bind (find_recovery i) (\<lambda>existing.
      case existing of
        Some a \<Rightarrow>
          let a = relock a (bc_load_requested cmd) in
          svc_bind (put_recovery i a) (\<lambda>_.
          svc_bind (recovery_load (load_campaign i)) (\<lambda>c.
          svc_ret ((recovery_result (cmd_ok\<lparr>cmd_version := cr_revision c, cmd_replay := True\<rparr>))
            \<lparr>rr_activity := Some a\<rparr>)))
      | None \<Rightarrow>
          svc_bind (svc_require (bc_state cmd = ACTIVE \<or> bc_state cmd = CHECKPOINTING)
            (recovery_failure RecoveryNotActive)) (\<lambda>_.
          svc_bind (svc_error recovery_result (load_aggregate i)) (\<lambda>c.
          svc_bind (svc_require (recovery_refusal cmd c = NoCampaignError)
            (recovery_failure (recovery_refusal cmd c))) (\<lambda>_.
          svc_bind (clear_checkpoint i) (\<lambda>_.
          svc_bind (record_step (begin_request cmd (c_version c))) (\<lambda>r.
          let a = new_recovery_activity i (cmd_version r) (requested_reason (bc_load_requested cmd)) in
          svc_bind (put_recovery i a) (\<lambda>_.
          svc_ret ((recovery_result r)\<lparr>rr_activity := Some a\<rparr>))))))))))"

section \<open>Preparing the native loads\<close>

definition recoverable :: "(Bytes \<Rightarrow> Bytes option) \<Rightarrow> CampaignAggregate \<Rightarrow> CheckpointRecord \<Rightarrow> bool" where
  "recoverable sha c ck \<longleftrightarrow> ck_is_committed ck \<and> length (ck_slots ck) = length (c_roster c) \<and>
     list_all (\<lambda>s. case cs_native_save s of None \<Rightarrow> False | Some native \<Rightarrow> is_exact_artifact sha s native) (ck_slots ck)"

definition dispatch_native_load ::
  "CampaignId \<Rightarrow> RecoveryActivity \<Rightarrow> CampaignAggregate \<Rightarrow> RecoveryCommandResult recovery_svc" where
  "dispatch_native_load campaign a c = (\<lambda>env s.
     case svc_load (case ra_checkpoint a of Some k \<Rightarrow> load_checkpoint campaign k
                    | None \<Rightarrow> load_last_committed_checkpoint campaign) env s of
       (Inl e, s') \<Rightarrow>
         if e = Store_NotFound
         then put_and_fail campaign (a\<lparr>ra_reason := ReasonNoCommittedCheckpoint\<rparr>)
           (at_version (c_version c) (cmd_failure NoCommittedCheckpoint Store_None)) env s'
         else (Inl (recovery_result (store_failure e)), s')
     | (Inr ck, s') \<Rightarrow>
         if \<not> recoverable (sha256 env) c ck then (Inl (recovery_result journal_damaged), s')
         else
           let locked = (if ra_stage a = StageRecoveryLock then a\<lparr>ra_loaded := {||}, ra_applied := {||}\<rparr> else a);
               a = locked\<lparr>ra_stage := StageLoadingNativeSaves, ra_reason := ReasonNone,
                 ra_checkpoint := Some (ck_id ck), ra_source_revision := ck_source_revision ck\<rparr> in
           svc_bind (put_recovery campaign a) (\<lambda>_.
           svc_ret ((recovery_result (at_version (c_version c) cmd_ok))
             \<lparr>rr_activity := Some a, rr_checkpoint := Some ck, rr_dispatch := DispatchNativeLoad\<rparr>)) env s')"

definition prepare_recovery ::
  "CampaignId \<Rightarrow> CampaignMemberPresence list \<Rightarrow> RecoveryCommandResult recovery_svc" where
  "prepare_recovery campaign presence =
     svc_bind (find_recovery campaign) (\<lambda>active.
     case active of None \<Rightarrow> svc_fail (recovery_failure RecoveryNotActive)
     | Some a \<Rightarrow>
       svc_bind (svc_error recovery_result (load_aggregate campaign)) (\<lambda>c.
       if evaluate_full_roster c presence \<noteq> NoRosterFailure
       then put_and_fail campaign (a\<lparr>ra_reason := ReasonRosterIncomplete\<rparr>)
         (at_version (c_version c) (cmd_failure RosterIncomplete Store_None))
       else if ra_stage a = StageApplyingSnapshot then
         (case (ra_checkpoint a, ra_restore_revision a) of
            (Some k, Some v) \<Rightarrow>
              svc_bind (recovery_load (load_checkpoint campaign k)) (\<lambda>ck.
              let a = a\<lparr>ra_reason := ReasonNone\<rparr> in
              svc_bind (put_recovery campaign a) (\<lambda>_.
              svc_ret ((recovery_result (at_version (c_version c) cmd_ok))
                \<lparr>rr_activity := Some a, rr_checkpoint := Some ck, rr_dispatch := DispatchRestoredSnapshot\<rparr>)))
          | _ \<Rightarrow> svc_fail (recovery_result journal_damaged))
       else dispatch_native_load campaign a c))"

section \<open>The barrier of the loads\<close>

record RecoveryLoadedCommand =
  lc_campaign :: CampaignId
  lc_attempt :: string
  lc_checkpoint :: string
  lc_actor :: CampaignMemberIdentity
  lc_succeeded :: bool
  lc_native :: string
  lc_algorithm :: string
  lc_fingerprint_version :: u32
  lc_fingerprint :: Bytes
  lc_metadata_version :: u32
  lc_metadata :: Bytes
  lc_presence :: "CampaignMemberPresence list"

definition matches_proof :: "(Bytes \<Rightarrow> Bytes option) \<Rightarrow> CheckpointSlotRecord \<Rightarrow> RecoveryLoadedCommand \<Rightarrow> bool" where
  "matches_proof sha s cmd \<longleftrightarrow> cs_native_save s = Some (lc_native cmd) \<and> cs_algorithm s = Some (lc_algorithm cmd) \<and>
     cs_fingerprint_version s = Some (lc_fingerprint_version cmd) \<and> cs_fingerprint s = lc_fingerprint cmd \<and>
     cs_metadata_version s = Some (lc_metadata_version cmd) \<and> cs_metadata s = lc_metadata cmd \<and>
     is_exact_artifact sha s (lc_native cmd)"

text \<open>The roster that is present, the checkpoint and the exact slot of an acknowledgement.\<close>

definition acknowledged_slot ::
  "CampaignId \<Rightarrow> string \<Rightarrow> CampaignMemberIdentity \<Rightarrow> CampaignMemberPresence list \<Rightarrow>
   (CampaignAggregate \<times> CheckpointRecord \<times> CheckpointSlotRecord) recovery_svc" where
  "acknowledged_slot campaign checkpoint actor presence =
     svc_bind (svc_error recovery_result (load_aggregate campaign)) (\<lambda>c.
     svc_bind (svc_require (evaluate_full_roster c presence = NoRosterFailure)
       (recovery_result (at_version (c_version c) (cmd_failure RosterIncomplete Store_None)))) (\<lambda>_.
     svc_bind (recovery_load (load_checkpoint campaign checkpoint)) (\<lambda>ck.
     case find (is_exact_member actor) (ck_slots ck) of
       None \<Rightarrow> svc_fail (recovery_failure NotCampaignMember)
     | Some slot \<Rightarrow> svc_ret (c, ck, slot))))"

text \<open>The receipt of a slot, recorded unless the journal has it: the activity and the result.\<close>

definition record_loaded ::
  "RecoveryActivity \<Rightarrow> RecoveryLoadedCommand \<Rightarrow> CampaignAggregate \<Rightarrow> CheckpointRecord \<Rightarrow> CheckpointSlotRecord \<Rightarrow>
   (RecoveryActivity \<times> CommandResult) recovery_svc" where
  "record_loaded a cmd c ck slot =
     (if cs_slot slot |\<in>| ra_durable_loaded a then svc_ret (a, at_version (c_version c) cmd_ok)
      else svc_bind (record_step (record_request (lc_campaign cmd) (c_version c)
               (recovery_slot_mutation_id ''loaded'' (ra_attempt a) (cs_slot slot)) ''RecoveryLoaded'' False
               (recovery_loaded_payload (ra_attempt a) ck slot))) (\<lambda>r.
           let a = a\<lparr>ra_durable_loaded := finsert (cs_slot slot) (ra_durable_loaded a)\<rparr> in
           svc_bind (put_recovery (lc_campaign cmd) a) (\<lambda>_. svc_ret (a, r))))"

definition restore_request :: "RecoveryActivity \<Rightarrow> RecoveryLoadedCommand \<Rightarrow> StateVersion \<Rightarrow> Bytes \<Rightarrow> RestoreCheckpointRequest" where
  "restore_request a cmd expected core =
     \<lparr>rcr_campaign = lc_campaign cmd, rcr_expected = expected,
      rcr_mutation = recovery_mutation_id ''restore'' (ra_attempt a), rcr_checkpoint = lc_checkpoint cmd,
      rcr_core_version = kCampaignCoreCodecVersion, rcr_core_payload = core, rcr_codec_version = 1,
      rcr_payload = restore_recovery_payload (ra_attempt a) (lc_checkpoint cmd)\<rparr>"

definition checkpoint_record_roster :: "CheckpointRecord \<Rightarrow> CampaignSlotRecord list" where
  "checkpoint_record_roster ck =
     map (\<lambda>s. \<lparr>rec_slot = cs_slot s, rec_player = cs_player s, rec_binding = cs_binding s\<rparr>) (ck_slots ck)"

text \<open>The core state of the checkpoint, decoded as its snapshot was written.\<close>

definition checkpoint_core :: "CampaignId \<Rightarrow> CheckpointRecord \<Rightarrow> JournalRow list \<Rightarrow> StoreError + CampaignAggregate" where
  "checkpoint_core campaign ck journal =
     decode_canonical_core_state campaign True (checkpoint_record_roster ck) (ck_source_revision ck)
       (ck_core_payload ck) journal
       (map_option jr_resulting
         (find (\<lambda>j. jr_resulting j \<le> ck_source_revision ck \<and> produces_core_state j) (rev journal)))"

text \<open>The restore of the checkpoint, or its replay from the journal: the result with the restored revision.\<close>

definition restore_checkpoint ::
  "RecoveryActivity \<Rightarrow> RecoveryLoadedCommand \<Rightarrow> CheckpointRecord \<Rightarrow> CommandResult \<Rightarrow> CommandResult recovery_svc" where
  "restore_checkpoint a cmd ck acknowledged =
     svc_bind (recovery_load (load_journal (lc_campaign cmd))) (\<lambda>journal.
     case find (\<lambda>j. jr_mutation j = recovery_mutation_id ''restore'' (ra_attempt a)) journal of
       Some j \<Rightarrow>
         svc_bind (svc_require (\<not> (jr_kind j \<noteq> ''RestoreCheckpoint'' \<or>
             jr_restored_checkpoint j \<noteq> Some (lc_checkpoint cmd) \<or>
             jr_restored_revision j \<noteq> Some (ck_source_revision ck))) (recovery_result journal_damaged)) (\<lambda>_.
         svc_ret (acknowledged\<lparr>cmd_version := jr_resulting j, cmd_replay := True\<rparr>))
     | None \<Rightarrow>
         svc_bind (recovery_load (load_campaign (lc_campaign cmd))) (\<lambda>row.
         case checkpoint_core (lc_campaign cmd) ck journal of
           Inl e \<Rightarrow> svc_fail (recovery_result (cmd_failure IntegrityFailure e))
         | Inr core \<Rightarrow>
           svc_bind (svc_error recovery_result
             (svc_encode (encode_core_state (core\<lparr>c_version := cr_revision row + 1\<rparr>) []))) (\<lambda>payload.
           svc_bind (svc_mutate (OpRestore (restore_request a cmd (cr_revision row) payload))) (\<lambda>m.
           let r = from_mutation_result m in
           svc_bind (svc_require (cmd_error r = NoCampaignError) (recovery_result r)) (\<lambda>_. svc_ret r)))))"

definition with_failure_of ::
  "RecoveryActivity \<Rightarrow> CheckpointRecord \<Rightarrow> RecoveryCommandResult \<Rightarrow> RecoveryCommandResult" where
  "with_failure_of a ck r = r\<lparr>rr_activity := Some a, rr_checkpoint := Some ck\<rparr>"

text \<open>The last load restores the checkpoint and opens the second barrier.\<close>

definition pass_first_barrier ::
  "RecoveryActivity \<Rightarrow> RecoveryLoadedCommand \<Rightarrow> CheckpointRecord \<Rightarrow> CommandResult \<Rightarrow> RecoveryCommandResult recovery_svc" where
  "pass_first_barrier a cmd ck r0 =
     svc_bind (svc_error (with_failure_of a ck) (restore_checkpoint a cmd ck r0)) (\<lambda>r.
     let a = a\<lparr>ra_stage := StageApplyingSnapshot, ra_reason := ReasonNone,
       ra_restore_revision := Some (cmd_version r), ra_applied := {||}\<rparr> in
     svc_bind (put_recovery (lc_campaign cmd) a) (\<lambda>_.
     svc_ret ((recovery_result r)\<lparr>rr_activity := Some a, rr_checkpoint := Some ck,
       rr_dispatch := DispatchRestoredSnapshot, rr_first_barrier := True\<rparr>)))"

definition acknowledge_load ::
  "RecoveryActivity \<Rightarrow> RecoveryLoadedCommand \<Rightarrow> CampaignAggregate \<Rightarrow> CheckpointRecord \<Rightarrow> CheckpointSlotRecord \<Rightarrow>
   RecoveryCommandResult recovery_svc" where
  "acknowledge_load a cmd c ck slot =
     (let durable = cs_slot slot |\<in>| ra_durable_loaded a in
      svc_bind (record_loaded a cmd c ck slot) (\<lambda>(a, r).
      if ra_stage a = StageApplyingSnapshot then
        svc_ret ((recovery_result (r\<lparr>cmd_replay := True\<rparr>))\<lparr>rr_activity := Some a, rr_checkpoint := Some ck,
          rr_dispatch := DispatchRestoredSnapshot, rr_first_barrier := True\<rparr>)
      else
        let replay = durable \<or> cs_slot slot |\<in>| ra_loaded a;
            a = a\<lparr>ra_loaded := finsert (cs_slot slot) (ra_loaded a)\<rparr>;
            r = r\<lparr>cmd_replay := replay\<rparr> in
        svc_bind (put_recovery (lc_campaign cmd) a) (\<lambda>_.
        if fcard (ra_loaded a) \<noteq> length (ck_slots ck)
        then svc_ret ((recovery_result r)\<lparr>rr_activity := Some a, rr_checkpoint := Some ck\<rparr>)
        else pass_first_barrier a cmd ck r)))"

definition record_recovery_loaded :: "RecoveryLoadedCommand \<Rightarrow> RecoveryCommandResult recovery_svc" where
  "record_recovery_loaded cmd =
     (let i = lc_campaign cmd in
      svc_bind (find_recovery i) (\<lambda>active.
      case active of None \<Rightarrow> svc_fail (recovery_failure RecoveryNotActive)
      | Some a \<Rightarrow>
        svc_bind (svc_require (\<not> (ra_attempt a \<noteq> lc_attempt cmd \<or> ra_checkpoint a \<noteq> Some (lc_checkpoint cmd) \<or>
            mi_campaign (lc_actor cmd) \<noteq> i)) (recovery_failure RecoveryMismatch)) (\<lambda>_.
        svc_bind (acknowledged_slot i (lc_checkpoint cmd) (lc_actor cmd) (lc_presence cmd)) (\<lambda>(c, ck, slot).
        if \<not> lc_succeeded cmd
        then put_and_fail i (a\<lparr>ra_reason := ReasonClientLoadFailed\<rparr>)
          (at_version (c_version c) (cmd_failure InvalidCheckpointArtifact Store_None))
        else
          svc_bind (svc_env sha256) (\<lambda>sha.
          svc_bind (svc_require (matches_proof sha slot cmd)
            (recovery_result (at_version (c_version c) (cmd_failure InvalidCheckpointArtifact Store_None)))) (\<lambda>_.
          svc_bind (svc_require (ra_stage a \<noteq> StageRecoveryLock)
            (recovery_result (at_version (c_version c) (cmd_failure RecoveryMismatch Store_None)))) (\<lambda>_.
          acknowledge_load a cmd c ck slot)))))))"

section \<open>The barrier of the snapshot\<close>

record SnapshotAppliedCommand =
  sa_campaign :: CampaignId
  sa_attempt :: string
  sa_checkpoint :: string
  sa_restore_revision :: StateVersion
  sa_actor :: CampaignMemberIdentity
  sa_presence :: "CampaignMemberPresence list"

text \<open>An acknowledgement after the recovery has been completed is answered from the journal.\<close>

definition completed_recovery :: "SnapshotAppliedCommand \<Rightarrow> RecoveryCommandResult recovery_svc" where
  "completed_recovery cmd =
     svc_bind (recovery_load (load_checkpoint (sa_campaign cmd) (sa_checkpoint cmd))) (\<lambda>ck.
     svc_bind (svc_require (list_ex (is_exact_member (sa_actor cmd)) (ck_slots ck))
       (recovery_failure NotCampaignMember)) (\<lambda>_.
     svc_bind (recovery_load (load_journal (sa_campaign cmd))) (\<lambda>journal.
     case find (\<lambda>j. jr_mutation j = recovery_mutation_id ''complete'' (sa_attempt cmd) \<and>
             jr_kind j = ''CompleteRecovery'' \<and> jr_resulting j = sa_restore_revision cmd \<and>
             jr_payload j = complete_recovery_payload (sa_attempt cmd) (sa_checkpoint cmd) (sa_restore_revision cmd))
           journal of
       None \<Rightarrow> svc_fail (recovery_failure RecoveryNotActive)
     | Some j \<Rightarrow>
       svc_ret ((recovery_result (cmd_ok\<lparr>cmd_version := jr_resulting j, cmd_replay := True\<rparr>))
         \<lparr>rr_completed := True\<rparr>))))"

definition record_applied ::
  "RecoveryActivity \<Rightarrow> SnapshotAppliedCommand \<Rightarrow> CampaignAggregate \<Rightarrow> CheckpointRecord \<Rightarrow> CheckpointSlotRecord \<Rightarrow>
   (RecoveryActivity \<times> CommandResult) recovery_svc" where
  "record_applied a cmd c ck slot =
     (if cs_slot slot |\<in>| ra_durable_applied a then svc_ret (a, at_version (c_version c) cmd_ok)
      else svc_bind (record_step (record_request (sa_campaign cmd) (c_version c)
               (recovery_slot_mutation_id ''applied'' (ra_attempt a) (cs_slot slot)) ''RecoverySnapshotApplied'' False
               (recovery_applied_payload (ra_attempt a) ck (sa_restore_revision cmd) slot))) (\<lambda>r.
           let a = a\<lparr>ra_durable_applied := finsert (cs_slot slot) (ra_durable_applied a)\<rparr> in
           svc_bind (put_recovery (sa_campaign cmd) a) (\<lambda>_. svc_ret (a, r))))"

definition complete_request :: "SnapshotAppliedCommand \<Rightarrow> CampaignMutationRequest" where
  "complete_request cmd =
     record_request (sa_campaign cmd) (sa_restore_revision cmd) (recovery_mutation_id ''complete'' (sa_attempt cmd))
       ''CompleteRecovery'' False
       (complete_recovery_payload (sa_attempt cmd) (sa_checkpoint cmd) (sa_restore_revision cmd))"

definition acknowledge_snapshot ::
  "RecoveryActivity \<Rightarrow> SnapshotAppliedCommand \<Rightarrow> CampaignAggregate \<Rightarrow> CheckpointRecord \<Rightarrow> CheckpointSlotRecord \<Rightarrow>
   RecoveryCommandResult recovery_svc" where
  "acknowledge_snapshot a cmd c ck slot =
     (let durable = cs_slot slot |\<in>| ra_durable_applied a in
      svc_bind (record_applied a cmd c ck slot) (\<lambda>(a, r).
      let replay = durable \<or> cs_slot slot |\<in>| ra_applied a;
          a = a\<lparr>ra_applied := finsert (cs_slot slot) (ra_applied a)\<rparr>;
          r = r\<lparr>cmd_replay := replay\<rparr> in
      svc_bind (put_recovery (sa_campaign cmd) a) (\<lambda>_.
      if fcard (ra_applied a) \<noteq> length (ck_slots ck)
      then svc_ret ((recovery_result r)\<lparr>rr_activity := Some a, rr_checkpoint := Some ck\<rparr>)
      else
        svc_bind (svc_error (with_failure_of a ck) (record_step (complete_request cmd))) (\<lambda>r.
        svc_bind (clear_recovery (sa_campaign cmd)) (\<lambda>_.
        svc_ret ((recovery_result r)\<lparr>rr_activity := Some a, rr_checkpoint := Some ck, rr_completed := True\<rparr>))))))"

definition record_snapshot_applied :: "SnapshotAppliedCommand \<Rightarrow> RecoveryCommandResult recovery_svc" where
  "record_snapshot_applied cmd =
     (let i = sa_campaign cmd in
      svc_bind (find_recovery i) (\<lambda>active.
      case active of None \<Rightarrow> completed_recovery cmd
      | Some a \<Rightarrow>
        svc_bind (svc_require (\<not> (ra_stage a \<noteq> StageApplyingSnapshot \<or> ra_attempt a \<noteq> sa_attempt cmd \<or>
            ra_checkpoint a \<noteq> Some (sa_checkpoint cmd) \<or> ra_restore_revision a \<noteq> Some (sa_restore_revision cmd) \<or>
            mi_campaign (sa_actor cmd) \<noteq> i)) (recovery_failure RecoveryMismatch)) (\<lambda>_.
        svc_bind (acknowledged_slot i (sa_checkpoint cmd) (sa_actor cmd) (sa_presence cmd)) (\<lambda>(c, ck, slot).
        acknowledge_snapshot a cmd c ck slot))))"

section \<open>Looking at a campaign\<close>

definition get_recovery_activity :: "CampaignId \<Rightarrow> (RecoveryActivity option, RecoveryActivity option) svc" where
  "get_recovery_activity campaign =
     svc_bind (svc_error (\<lambda>_. None) (reconstruct_recovery campaign)) (\<lambda>_.
     svc_get (\<lambda>s. sv_recoveries s campaign))"

definition service_runtime_state ::
  "RuntimeService \<Rightarrow> CampaignAggregate \<Rightarrow> CampaignMemberPresence list \<Rightarrow> CampaignId \<Rightarrow> CampaignRuntimeState" where
  "service_runtime_state s c presence campaign =
     (case sv_recoveries s campaign of
        Some a \<Rightarrow> if ra_stage a = StageRecoveryLock then RECOVERY_LOCK else RESTORING_CHECKPOINT
      | None \<Rightarrow> if sv_checkpoints s campaign \<noteq> None then CHECKPOINTING else determine_runtime_state c presence)"

definition load_service_campaign ::
  "CampaignId \<Rightarrow> CampaignMemberPresence list \<Rightarrow> (CommandResult, CampaignAggregate \<times> CampaignRuntimeState) svc" where
  "load_service_campaign campaign presence =
     svc_bind (load_aggregate campaign) (\<lambda>c.
     svc_bind (reconstruct_recovery campaign) (\<lambda>_.
     svc_bind (svc_get (\<lambda>s. s)) (\<lambda>s. svc_ret (c, service_runtime_state s c presence campaign))))"

end
