(* ===== verification/StoreEffects.thy ===== *)
theory StoreEffects
  imports RuntimeRecovery
begin

text \<open>
  What the mutations that the runtime service issues do to a campaign: its record, roster, builds and
  adapter states, and its rows of the journal.
\<close>

section \<open>The view of a campaign\<close>

definition view :: "string \<Rightarrow> Database \<Rightarrow>
    (CampaignRecord option \<times> CampaignSlotRecord list \<times> BuildRow list \<times> AdapterState list) \<times> JournalRow list" where
  "view i d = (contents i d, rows_of i d)"

lemma view_outbox:
  "view i (d\<lparr>t_outbox := x, last_outbox := n\<rparr>) = view i d"
  by (simp add: view_def contents_def rows_of_def find_campaign_def slots_of_def builds_of_def adapters_of_def)

lemma outbox_leaves_view: "leaves (view i) (append_outbox k m v intents now)"
  unfolding append_outbox_def
  by (intro leaves_intros leaves_step_only) (auto simp: insert_outbox_def view_outbox split: if_splits)

lemma viewD:
  assumes "view i d = ((Some c, x), y)"
  shows "find_campaign i d = Some c" "contents i d = (Some c, x)" "rows_of i d = y"
  using assms by (simp_all add: view_def contents_def)

text \<open>The record that \<open>UPDATE campaigns\<close> leaves, and what it leaves alone.\<close>

lemma update_campaign_view:
  assumes "update_campaign i g f d = Inr (rows, d')" "\<And>c. cr_id (f c) = cr_id c" "find_campaign i d = Some c" "g c"
  shows "view i d' = ((Some (f c), snd (contents i d)), rows_of i d)"
proof -
  have "find_campaign i d' = Some (f c)"
    using update_campaign_ledger(3) [OF assms(1,2), of i] assms(3,4) find_campaign_id [OF assms(3)] by simp
  then show ?thesis
    using assms(1) by (auto simp: update_campaign_def view_def contents_def rows_of_def slots_of_def builds_of_def
        adapters_of_def Let_def split: if_splits)
qed

text \<open>The constraints that an updated record satisfies.\<close>

lemma update_campaign_checked:
  assumes "update_campaign i g f d = Inr (rows, d')" "find_campaign i d = Some c" "g c"
  shows "cr_revision (f c) \<le> kMaximumRevision \<and> \<not> sint (cr_codec_version (f c)) \<le> 0 \<and> cr_payload (f c) \<noteq> []"
proof -
  have "c \<in> set (t_campaigns d)" "cr_id c = i"
    using assms(2) by (auto simp: find_campaign_def find_Some_iff)
  then show ?thesis using assms(1,3) by (auto simp: update_campaign_def Let_def split: if_splits)
qed

lemma ends_update:
  assumes "\<And>c. cr_id (f c) = cr_id c" "find_campaign i d = Some c" "g c"
  shows "ends (step_done (update_campaign i g f)) env (n, d)
    (\<lambda>_ d'. view i d' = ((Some (f c), snd (contents i d)), rows_of i d) \<and>
      cr_revision (f c) \<le> kMaximumRevision \<and> \<not> sint (cr_codec_version (f c)) \<le> 0 \<and> cr_payload (f c) \<noteq> [])"
  using assms update_campaign_view [where f = f and g = g] update_campaign_checked [where f = f and g = g]
  by (intro ends_step) blast

lemma step_only_ends: "ends (step_done u) env s (\<lambda>_. Q) \<Longrightarrow> ends (step_only u) env s (\<lambda>_. Q)"
  by (cases s) (simp add: step_only_def sql_wp)

section \<open>Replacing the roster\<close>

lemma ends_insert_slots:
  "ends (sql_each (insert_slot i) ss) env (n, d)
    (\<lambda>_ d'. view i d' = ((find_campaign i d, slots_of i d @ ss, builds_of i d, adapters_of i d), rows_of i d))"
proof (induction ss arbitrary: n d)
  case Nil
  then show ?case by (simp add: sql_wp view_def contents_def)
next
  case (Cons s ss)
  have one: "ends (insert_slot i s) env (n, d)
      (\<lambda>_ d'. view i d' = ((find_campaign i d, slots_of i d @ [s], builds_of i d, adapters_of i d), rows_of i d))"
    unfolding insert_slot_def
    by (rule ends_step_only)
      (auto simp: insert_slot_row_def view_def contents_def rows_of_def find_campaign_def slots_of_def builds_of_def
        adapters_of_def split: if_splits)
  show ?case
    unfolding sql_each.simps
    by (rule ends_bind [OF one], rule ends_mono [OF Cons.IH]) (auto simp: view_def contents_def)
qed

definition replaced_roster :: "CampaignSlotRecord list option \<Rightarrow> string \<Rightarrow> Database \<Rightarrow>
    CampaignRecord option \<times> CampaignSlotRecord list \<times> BuildRow list \<times> AdapterState list" where
  "replaced_roster roster i d = (case roster of None \<Rightarrow> contents i d
     | Some ss \<Rightarrow> (find_campaign i d, ss, [], adapters_of i d))"

lemma ends_replace_roster:
  "ends (replace_roster_rows i roster) env (n, d) (\<lambda>_ d'. view i d' = (replaced_roster roster i d, rows_of i d))"
proof (cases roster)
  case None
  then show ?thesis by (simp add: replace_roster_rows_def replaced_roster_def sql_wp view_def)
next
  case (Some ss)
  have builds: "ends (step_only (delete_builds i)) env (n, d)
      (\<lambda>_ d'. view i d' = ((find_campaign i d, slots_of i d, [], adapters_of i d), rows_of i d))"
    by (rule ends_step_only)
      (auto simp: delete_builds_def view_def contents_def rows_of_def find_campaign_def slots_of_def builds_of_def
        adapters_of_def)
  have slots: "ends (step_only (delete_slots i)) env (n', d1)
      (\<lambda>_ d'. view i d' = ((find_campaign i d1, [], builds_of i d1, adapters_of i d1), rows_of i d1))" for n' d1
    by (rule ends_step_only)
      (auto simp: delete_slots_def view_def contents_def rows_of_def find_campaign_def slots_of_def builds_of_def
        adapters_of_def Let_def filter_empty_conv split: if_splits)
  show ?thesis
    unfolding replace_roster_rows_def Some option.case
    by (rule ends_bind [OF builds], rule ends_bind [OF slots], rule ends_mono [OF ends_insert_slots])
      (auto simp: view_def contents_def replaced_roster_def Some)
qed

section \<open>The core state and the revision\<close>

definition with_core :: "u32 option \<Rightarrow> Bytes option \<Rightarrow> CampaignRecord \<Rightarrow> CampaignRecord" where
  "with_core version payload c =
     (case payload of None \<Rightarrow> c | Some p \<Rightarrow> c\<lparr>cr_codec_version := the version, cr_payload := p\<rparr>)"

definition with_seal :: "bool option \<Rightarrow> CampaignRecord \<Rightarrow> CampaignRecord" where
  "with_seal flag c = (case flag of None \<Rightarrow> c | Some b \<Rightarrow> c\<lparr>cr_sealed := b\<rparr>)"

lemma ends_set_core:
  assumes "view i d = ((Some c, x), y)"
  shows "ends (set_core_state i version payload) env (n, d)
    (\<lambda>_ d'. view i d' = ((Some (with_core version payload c), x), y))"
proof (cases payload)
  case None
  then show ?thesis using assms by (simp add: set_core_state_def with_core_def sql_wp)
next
  case (Some p)
  show ?thesis
    unfolding set_core_state_def with_core_def Some option.case
    by (rule step_only_ends, rule ends_mono [OF ends_update [OF _ viewD(1) [OF assms]]])
      (simp_all add: viewD(2,3) [OF assms])
qed

lemma ends_set_sealed:
  assumes "view i d = ((Some c, x), y)"
  shows "ends (set_sealed i flag) env (n, d)
    (\<lambda>_ d'. view i d' = ((Some (with_seal flag c), x), y))"
proof (cases flag)
  case None
  then show ?thesis using assms by (simp add: set_sealed_def with_seal_def sql_wp)
next
  case (Some b)
  show ?thesis
    unfolding set_sealed_def with_seal_def Some option.case
    by (rule step_only_ends, rule ends_mono [OF ends_update [OF _ viewD(1) [OF assms]]])
      (simp_all add: viewD(2,3) [OF assms])
qed

text \<open>A journal row as the mutation writes it.\<close>

definition journal_entry ::
  "string \<Rightarrow> string \<Rightarrow> u64 \<Rightarrow> u64 \<Rightarrow> string \<Rightarrow> u32 \<Rightarrow> Bytes \<Rightarrow> string option \<Rightarrow> u64 option \<Rightarrow> JournalRow \<Rightarrow> bool" where
  "journal_entry i m expected resulting kind version payload checkpoint restored j \<longleftrightarrow>
     jr_campaign j = i \<and> jr_mutation j = m \<and> jr_expected j = expected \<and> jr_resulting j = resulting \<and>
     jr_kind j = kind \<and> jr_codec_version j = version \<and> jr_payload j = payload \<and>
     jr_restored_checkpoint j = checkpoint \<and> jr_restored_revision j = restored \<and>
     jr_sequence j \<noteq> 0 \<and> expected \<le> kMaximumRevision \<and> resulting \<noteq> 0 \<and> resulting \<le> kMaximumRevision \<and>
     \<not> sint version \<le> 0 \<and> payload \<noteq> []"

lemma ends_journal_entry:
  "ends (append_journal i m e v k g w p now cp cv) env (n, d)
     (\<lambda>_ d'. \<exists>j. view i d' = (contents i d, rows_of i d @ [j]) \<and> journal_entry i m e v k w p cp cv j)"
  unfolding append_journal_def
  by (rule ends_step_only)
    (auto simp: insert_journal_def view_def contents_def rows_of_def find_campaign_def slots_of_def builds_of_def
      adapters_of_def journal_entry_def split: if_splits)

lemma ends_record_view:
  assumes "leaves (view i) outbox"
  shows "ends (record_mutation (append_journal i m e v k g w p now cp cv) outbox) env (n, d)
     (\<lambda>_ d'. \<exists>j. view i d' = (contents i d, rows_of i d @ [j]) \<and> journal_entry i m e v k w p cp cv j)"
proof -
  have "leaves (view i) (sql_bind (inject_fault AfterJournal) (\<lambda>_. sql_bind outbox (\<lambda>_.
      sql_bind (inject_fault AfterOutbox) (\<lambda>_. inject_fault BeforeCommit))))"
    by (intro leaves_intros assms)
  then show ?thesis
    unfolding record_mutation_def
    by (intro ends_bind [OF ends_journal_entry] ends_mono [OF ends_leaves]) auto
qed

lemma sql_bind_ret: "sql_bind (sql_ret x) k = k x"
  by (simp add: sql_bind_def sql_ret_def)

section \<open>Applying a mutation\<close>

definition applied_record :: "CampaignMutationRequest \<Rightarrow> u64 \<Rightarrow> u64 \<Rightarrow> CampaignRecord \<Rightarrow> CampaignRecord" where
  "applied_record r v now c =
     (let c = with_seal (amr_sealed r) (with_core (amr_core_version r) (amr_core_payload r) c) in
      if amr_advances r then c\<lparr>cr_revision := v, cr_updated := now\<rparr> else c)"

definition plain_request :: "CampaignMutationRequest \<Rightarrow> bool" where
  "plain_request r \<longleftrightarrow> amr_build_upserts r = [] \<and> amr_build_deletes r = [] \<and> amr_adapter_upserts r = [] \<and>
     amr_adapter_deletes r = []"

text \<open>
  The effect of a request that touches no build or adapter state by itself; with a replaced roster
  the builds are gone.
\<close>

definition applied_to :: "CampaignMutationRequest \<Rightarrow> u64 \<Rightarrow> Database \<Rightarrow> Database \<Rightarrow> bool" where
  "applied_to r now d d' \<longleftrightarrow> (let i = amr_campaign r; v = op_result (OpApply r) in
     \<exists>c j. find_campaign i d = Some c \<and> cr_revision c = amr_expected r \<and>
       (amr_advances r \<longrightarrow> amr_expected r < kMaximumRevision) \<and>
       view i d' = ((Some (applied_record r v now c), snd (replaced_roster (amr_roster r) i d)), rows_of i d @ [j]) \<and>
       journal_entry i (amr_mutation r) (amr_expected r) v (amr_kind r) (amr_codec_version r) (amr_payload r)
         None None j)"

lemma ends_current_record:
  "ends (read_current_revision i) env (n, d) (\<lambda>x d'. d' = d \<and> (\<exists>c. find_campaign i d = Some c \<and> cr_revision c = x))"
  by (auto simp: read_current_revision_def sql_wp split: option.splits)

lemma ends_expected:
  "ends (expect_revision current expected adv) env (n, d)
     (\<lambda>x d'. d' = d \<and> current = expected \<and> (adv \<longrightarrow> expected < kMaximumRevision) \<and>
        x = (if adv then expected + 1 else expected))"
  by (auto simp: expect_revision_def sql_wp)

lemma with_core_fields [simp]:
  "cr_id (with_core v p c) = cr_id c" "cr_revision (with_core v p c) = cr_revision c"
  "cr_id (with_seal b c) = cr_id c" "cr_revision (with_seal b c) = cr_revision c"
  by (simp_all add: with_core_def with_seal_def split: option.splits)

lemma ends_write_plain:
  assumes "plain_request r" "find_campaign (amr_campaign r) d = Some c"
  shows "ends (write_current_state r v) env (n, d) (\<lambda>_ d'. view (amr_campaign r) d' =
    ((Some (with_seal (amr_sealed r) (with_core (amr_core_version r) (amr_core_payload r) c)),
      snd (replaced_roster (amr_roster r) (amr_campaign r) d)), rows_of (amr_campaign r) d))"
proof -
  let ?i = "amr_campaign r"
  have plain: "amr_build_upserts r = []" "amr_build_deletes r = []" "amr_adapter_upserts r = []"
    "amr_adapter_deletes r = []" using assms(1) by (simp_all add: plain_request_def)
  have "replaced_roster roster ?i d = (Some c, snd (replaced_roster roster ?i d))" for roster
    using assms(2) by (simp add: replaced_roster_def contents_def split: option.splits)
  then have start: "ends (replace_roster_rows ?i (amr_roster r)) env (n, d)
      (\<lambda>_ d'. view ?i d' = ((Some c, snd (replaced_roster (amr_roster r) ?i d)), rows_of ?i d))"
    using ends_replace_roster [of ?i "amr_roster r" env n d] by metis
  show ?thesis
    unfolding write_current_state_def Let_def plain sql_each.simps
      sql_bind_ret
    apply (rule ends_bind [OF start])
    apply (rule ends_bind [OF ends_set_core], assumption)
    apply (rule ends_bind [OF ends_set_sealed], assumption)
    apply (simp add: sql_wp)
    done
qed

lemma ends_revision_view:
  assumes "view i d = ((Some c, x), y)" "cr_revision c = expected"
  shows "ends (update_campaign_revision i expected v now) env (n, d)
    (\<lambda>_ d'. view i d' = ((Some (c\<lparr>cr_revision := v, cr_updated := now\<rparr>), x), y))"
  unfolding update_campaign_revision_def
  by (rule ends_bind [OF ends_update [OF _ viewD(1) [OF assms(1)]]])
    (simp_all add: viewD(2,3) [OF assms(1)] assms(2) sql_wp)

lemma ends_apply_view:
  assumes "plain_request r"
  shows "ends (apply_body r g now) env (n, d) (\<lambda>v d'. v = op_result (OpApply r) \<and> applied_to r now d d')"
  unfolding apply_body_def Let_def
proof (rule ends_bind [OF ends_current_record], rule ends_bind [OF ends_expected], goal_cases)
  case (1 current n1 d1 v n2 d2)
  let ?i = "amr_campaign r"
  let ?v = "op_result (OpApply r)"
  obtain c where start: "d2 = d" "find_campaign ?i d = Some c" "cr_revision c = amr_expected r" "v = ?v"
      "amr_advances r \<longrightarrow> amr_expected r < kMaximumRevision"
    using 1 by (auto simp: op_result_def)
  let ?x = "snd (replaced_roster (amr_roster r) ?i d)"
  let ?y = "rows_of ?i d"
  let ?c = "with_seal (amr_sealed r) (with_core (amr_core_version r) (amr_core_payload r) c)"
  have move: "ends (if amr_advances r then sql_bind (update_campaign_revision ?i (amr_expected r) ?v now)
        (\<lambda>_. inject_fault AfterCurrentState) else sql_ret ()) env (n', d')
      (\<lambda>_ d'. view ?i d' = ((Some (applied_record r ?v now c), ?x), ?y))"
    if "view ?i d' = ((Some ?c, ?x), ?y)" for n' d'
  proof (cases "amr_advances r")
    case True
    have "cr_revision ?c = amr_expected r" using start(3) by simp
    then show ?thesis
      unfolding if_P [OF True] using True
      by (intro ends_bind [OF ends_revision_view [OF that]]) (simp_all add: sql_wp applied_record_def Let_def)
  qed (use that in \<open>simp add: sql_wp applied_record_def\<close>)
  have recorded_view: "ends (record_mutation (append_journal ?i (amr_mutation r) (amr_expected r) ?v (amr_kind r) g
        (amr_codec_version r) (amr_payload r) now None None) (append_outbox ?i (amr_mutation r) ?v (amr_outbox r) now))
      env (n', d') (\<lambda>_ d''. applied_to r now d d'')"
    if "view ?i d' = ((Some (applied_record r ?v now c), ?x), ?y)" for n' d'
    by (rule ends_mono [OF ends_record_view [OF outbox_leaves_view]])
      (use start in \<open>auto simp: applied_to_def Let_def viewD(2,3) [OF that]\<close>)
  show ?case
    unfolding start(1,4)
    by (rule ends_bind [OF ends_read [OF check_seal_reads]], hypsubst,
        rule ends_bind [OF ends_write_plain [OF assms start(2)]], rule ends_bind, erule move,
        rule ends_bind, erule recorded_view) (simp add: sql_wp)
qed

lemma apply_effect:
  assumes "store_mutate (OpApply r) env d = (result, d')" "plain_request r"
  shows "(not_applied result \<and> d' = d) \<or>
    (op_rejection (OpApply r) = Store_None \<and>
     result = mutation_done (op_result (OpApply r)) (amr_advances r) \<and> applied_to r (env_now env) d d')"
proof (cases "op_rejection (OpApply r) = Store_None")
  case True
  have "run_mutation (amr_campaign r) (amr_mutation r) (apply_digest r)
      (sql_bind (or_fail (apply_body r (apply_digest r) (env_now env)))
        (\<lambda>revision. sql_ret (mutation_done revision (amr_advances r)))) env d = (result, d')"
    using assms(1) True by (auto simp: apply_campaign_mutation_def Let_def split: if_splits)
  from run_body_effect [OF fails_or_fail [OF apply_fails] ends_apply_view [OF assms(2), THEN ends_or_fail [THEN iffD2]] this] True
  show ?thesis by auto
next
  case False
  then show ?thesis using assms(1) op_rejected [OF False] by (auto simp: not_applied_def mutation_failure_def)
qed

end
