(* ===== verification/RuntimeAggregate.thy ===== *)
theory RuntimeAggregate
  imports StoreEffects
begin

text \<open>
  The campaign that the store holds: what \<open>LoadAggregate\<close> returns when nothing fails. Persisting the
  result of an operation makes it the campaign that the store holds, and recording a command leaves
  that campaign as it was, up to its version.
\<close>

section \<open>Loads that do not fail\<close>

definition quiet_env :: StoreEnv where
  "quiet_env = \<lparr>env_now = 0, env_fault = (\<lambda>stage. False), env_io = (\<lambda>n. False)\<rparr>"

text \<open>
  A program is steady if it changes nothing and its answers depend on the tables only: what it returns
  in some environment it returns when nothing fails.
\<close>

definition steady :: "('e, 'a) sql \<Rightarrow> bool" where
  "steady m \<longleftrightarrow> (\<forall>env n d. snd (snd (m env (n, d))) = d \<and>
     (\<forall>x. fst (m env (n, d)) = Inr x \<longrightarrow> (\<forall>n'. fst (m quiet_env (n', d)) = Inr x)))"

named_theorems steady

lemma steady_ret [steady]: "steady (sql_ret x)"
  by (simp add: steady_def sql_ret_def)

lemma steady_fail [steady]: "steady (sql_fail e)"
  by (simp add: steady_def sql_fail_def)

lemma steady_query [steady]: "steady (query q)"
  by (simp add: steady_def query_def quiet_env_def)

lemma steady_bind [steady]:
  assumes "steady m" "\<And>x. steady (k x)"
  shows "steady (sql_bind m k)"
  unfolding steady_def
proof (intro allI conjI impI)
  fix env n d
  obtain r n1 where m: "m env (n, d) = (r, n1, d)"
    using assms(1) unfolding steady_def by (metis prod.collapse)
  show "snd (snd (sql_bind m k env (n, d))) = d"
    using assms(2) m by (cases r) (auto simp: sql_bind_def steady_def)
  fix x n' assume run: "fst (sql_bind m k env (n, d)) = Inr x"
  then obtain y where y: "r = Inr y" "fst (k y env (n1, d)) = Inr x"
    using m by (cases r) (auto simp: sql_bind_def)
  then have "fst (m quiet_env (n', d)) = Inr y" using assms(1) m unfolding steady_def by (metis fst_conv)
  moreover obtain n2 where "snd (m quiet_env (n', d)) = (n2, d)"
    using assms(1) unfolding steady_def by (metis prod.collapse)
  ultimately have "m quiet_env (n', d) = (Inr y, n2, d)" by (metis prod.collapse)
  then show "fst (sql_bind m k quiet_env (n', d)) = Inr x"
    using assms(2) y(2) unfolding sql_bind_def steady_def by auto
qed

lemma steady_require [steady]: "steady (sql_require b e)"
  by (simp add: sql_require_def steady)

lemma steady_cases [steady]:
  "(\<And>x. steady (f x)) \<Longrightarrow> steady g \<Longrightarrow> steady (case v of None \<Rightarrow> g | Some x \<Rightarrow> f x)"
  "(\<And>x. steady (h x)) \<Longrightarrow> (\<And>y. steady (k y)) \<Longrightarrow> steady (case w of Inl x \<Rightarrow> h x | Inr y \<Rightarrow> k y)"
  "(\<And>a b. steady (p a b)) \<Longrightarrow> steady (case z of (a, b) \<Rightarrow> p a b)"
  "steady m \<Longrightarrow> steady m' \<Longrightarrow> steady (if b then m else m')"
  by (auto split: option.splits sum.splits prod.splits)

lemma steady_loads:
  "steady (load_campaign i)" "steady (load_campaign_projection i a)" "steady (load_journal i)"
  "steady (load_checkpoint i k)" "steady (load_last_committed_checkpoint i)" "steady (load_journal_by_mutation m kind)"
  by (auto simp: load_campaign_def load_campaign_projection_def load_journal_def load_checkpoint_def
      load_last_committed_checkpoint_def load_journal_by_mutation_def intro!: steady)

definition answers :: "('e, 'a) sql \<Rightarrow> Database \<Rightarrow> 'e + 'a" where
  "answers m d = fst (m quiet_env (0, d))"

lemma svc_load_steady:
  assumes "steady m" "svc_load m env (k, s) = (r, k', s')"
  shows "k' = Suc k \<and> s' = s \<and> (\<forall>x. r = Inr x \<longrightarrow> answers m (sv_store s) = Inr x)"
proof -
  obtain n d where run: "m (call_env env k) (0, sv_store s) = (r, n, d)" "k' = Suc k" "s' = s\<lparr>sv_store := d\<rparr>"
    using assms(2) by (auto simp: svc_load_def split: prod.splits)
  then have "d = sv_store s" using assms(1) unfolding steady_def by (metis snd_conv)
  moreover have "answers m (sv_store s) = Inr x" if "r = Inr x" for x
    using assms(1) run(1) that unfolding steady_def answers_def by (metis fst_conv)
  ultimately show ?thesis using run by simp
qed

section \<open>What the loads answer\<close>

definition record_valid :: "CampaignRecord \<Rightarrow> bool" where
  "record_valid c \<longleftrightarrow> cr_schema_version c \<noteq> 0 \<and> cr_revision c \<le> kMaximumRevision \<and> \<not> sint (cr_codec_version c) \<le> 0 \<and>
     cr_schema_version c \<le> kCampaignDatabaseSchemaVersion \<and> is_valid_payload (cr_payload c)"

definition projection_of :: "CampaignRecord \<Rightarrow> CampaignSlotRecord list \<Rightarrow> BuildRow list \<Rightarrow> AdapterState list \<Rightarrow> CampaignProjection" where
  "projection_of c ss bs as = \<lparr>pr_campaign = c, pr_slots = sort_key rec_slot ss,
     pr_builds = map (the \<circ> read_build_row) (sort_key br_slot bs), pr_adapters = sort_key ad_id as\<rparr>"

lemma list_all_sort [simp]: "list_all P (sort_key f xs) \<longleftrightarrow> list_all P xs"
  by (simp add: list_all_iff)

lemma answers_projection:
  "answers (load_campaign_projection i server_audience) d = Inr p \<longleftrightarrow> is_valid_identifier i \<and>
     (\<exists>c ss bs as. contents i d = (Some c, ss, bs, as) \<and> record_valid c \<and> list_all slot_record_valid ss \<and>
       list_all (\<lambda>r. read_build_row r \<noteq> None) bs \<and> list_all adapter_row_valid as \<and> p = projection_of c ss bs as)"
proof -
  have "audience_sees server_audience a" for a
    by (cases "ad_audience a") (simp_all add: audience_sees_def server_audience_def)
  then have "filter (audience_sees server_audience) xs = xs" for xs by simp
  then show ?thesis
    by (auto simp: answers_def load_campaign_projection_def load_campaign_def sql_bind_def sql_fail_def sql_ret_def
        query_def quiet_env_def sql_require_def contents_def record_valid_def projection_of_def not_le
        split: option.splits)
qed

definition strip_digest :: "JournalRow \<Rightarrow> JournalRow" where
  "strip_digest j = j\<lparr>jr_digest := []\<rparr>"

lemma strip_digest_fields [simp]:
  "jr_kind (strip_digest j) = jr_kind j" "jr_resulting (strip_digest j) = jr_resulting j"
  "jr_expected (strip_digest j) = jr_expected j" "jr_mutation (strip_digest j) = jr_mutation j"
  "jr_payload (strip_digest j) = jr_payload j" "jr_codec_version (strip_digest j) = jr_codec_version j"
  "jr_restored_checkpoint (strip_digest j) = jr_restored_checkpoint j"
  "jr_restored_revision (strip_digest j) = jr_restored_revision j"
  by (simp_all add: strip_digest_def)

lemma ledger_sorted: "ledger_wf d \<Longrightarrow> sort_key jr_sequence (rows_of i d) = rows_of i d"
proof (rule sort_key_id_if_sorted)
  assume "ledger_wf d"
  then have "sorted (map jr_sequence (t_journal d))" by (simp add: ledger_wf_def del: upt_Suc)
  then show "sorted (map jr_sequence (rows_of i d))" by (simp add: rows_of_def sorted_filter)
qed

lemma answers_journal:
  assumes "ledger_wf d"
  shows "answers (load_journal i) d = Inr js \<longleftrightarrow> is_valid_identifier i \<and>
    list_all journal_row_valid (rows_of i d) \<and> js = map strip_digest (rows_of i d)"
  using ledger_sorted [OF assms, of i]
  by (auto simp: answers_def load_journal_def sql_bind_def sql_fail_def sql_ret_def query_def quiet_env_def rows_of_def
      strip_digest_def)

section \<open>The stored campaign\<close>

definition quiet_runtime :: RuntimeEnv where
  "quiet_runtime = \<lparr>call_env = (\<lambda>k. quiet_env), sha256 = (\<lambda>metadata. None)\<rparr>"

definition stored_campaign :: "CampaignId \<Rightarrow> Database \<Rightarrow> CampaignAggregate option" where
  "stored_campaign i d =
     (case fst (load_aggregate i quiet_runtime (0, new_service d)) of Inl e \<Rightarrow> None | Inr c \<Rightarrow> Some c)"

text \<open>The part of \<open>LoadAggregate\<close> after the two loads.\<close>

definition aggregate_of :: "CampaignProjection \<Rightarrow> JournalRow list \<Rightarrow> CommandResult + CampaignAggregate" where
  "aggregate_of p journal =
     (if cr_codec_version (pr_campaign p) \<noteq> kCampaignCoreCodecVersion
      then Inl (cmd_failure IntegrityFailure Store_IncompatibleSchema)
      else case find produces_core_state (rev journal) of
        None \<Rightarrow> Inl (cmd_failure IntegrityFailure Store_IntegrityFailure)
      | Some j \<Rightarrow>
        case decode_canonical_core_state (cr_id (pr_campaign p)) (cr_sealed (pr_campaign p)) (pr_slots p)
               (jr_resulting j) (cr_payload (pr_campaign p)) journal None of
          Inl e \<Rightarrow> Inl (cmd_failure IntegrityFailure e)
        | Inr c \<Rightarrow> Inr (c\<lparr>c_version := cr_revision (pr_campaign p)\<rparr>))"

lemma load_aggregate_runs:
  assumes "load_aggregate i env (k, s) = (r, k', s')"
  shows "s' = s \<and> (\<forall>c. r = Inr c \<longrightarrow> (\<exists>p js. answers (load_campaign_projection i server_audience) (sv_store s) = Inr p \<and>
    answers (load_journal i) (sv_store s) = Inr js \<and> aggregate_of p js = Inr c))"
proof -
  obtain r1 k1 s1 where one: "svc_load (load_campaign_projection i server_audience) env (k, s) = (r1, k1, s1)"
    by (metis prod_cases3)
  obtain r2 k2 s2 where two: "svc_load (load_journal i) env (k1, s1) = (r2, k2, s2)"
    by (metis prod_cases3)
  note loads = svc_load_steady [OF steady_loads(2) one] svc_load_steady [OF steady_loads(3) two]
  show ?thesis
    using assms loads one two
    by (cases r1; cases r2)
      (auto simp: load_aggregate_def svc_bind_def svc_error_def svc_require_def svc_fail_def svc_ret_def
        aggregate_of_def split: option.splits sum.splits if_splits)
qed

lemma quiet_load:
  assumes "answers m d = Inr x" "steady m"
  shows "svc_load m quiet_runtime (k, new_service d) = (Inr x, Suc k, new_service d)"
proof -
  obtain n where "m quiet_env (0, d) = (Inr x, n, d)"
    using assms unfolding answers_def steady_def by (metis prod.collapse)
  then show ?thesis by (simp add: svc_load_def quiet_runtime_def new_service_def)
qed

lemma aggregate_loaded:
  assumes "svc_load (load_campaign_projection i server_audience) env s = (Inr p, s1)"
    and "svc_load (load_journal i) env s1 = (Inr js, s2)"
  shows "fst (load_aggregate i env s) = aggregate_of p js"
  unfolding load_aggregate_def svc_bind_def svc_error_def assms prod.case sum.case
  by (simp add: svc_require_def svc_fail_def svc_ret_def aggregate_of_def assms split: option.split sum.split)

lemma stored_campaign_iff:
  "stored_campaign i d = Some c \<longleftrightarrow> (\<exists>p js. answers (load_campaign_projection i server_audience) d = Inr p \<and>
     answers (load_journal i) d = Inr js \<and> aggregate_of p js = Inr c)"
  (is "?l \<longleftrightarrow> ?r")
proof
  assume ?l
  then obtain k' s' where "load_aggregate i quiet_runtime (0, new_service d) = (Inr c, k', s')"
    unfolding stored_campaign_def by (cases "load_aggregate i quiet_runtime (0, new_service d)") (auto split: sum.splits)
  from load_aggregate_runs [OF this] show ?r by (simp add: new_service_def)
next
  assume ?r
  then obtain p js where *: "answers (load_campaign_projection i server_audience) d = Inr p"
    "answers (load_journal i) d = Inr js" "aggregate_of p js = Inr c" by blast
  obtain k1 where one: "svc_load (load_campaign_projection i server_audience) quiet_runtime (0, new_service d) =
      (Inr p, k1, new_service d)" using quiet_load [OF *(1) steady_loads(2)] by blast
  obtain k2 where two: "svc_load (load_journal i) quiet_runtime (k1, new_service d) = (Inr js, k2, new_service d)"
    using quiet_load [OF *(2) steady_loads(3)] by blast
  show ?l using aggregate_loaded [OF one two] *(3) by (simp add: stored_campaign_def)
qed

lemma load_aggregate_stored:
  "load_aggregate i env (k, s) = (Inr c, k', s') \<Longrightarrow> stored_campaign i (sv_store s) = Some c"
  using load_aggregate_runs [of i env k s "Inr c" k' s'] by (auto simp: stored_campaign_iff)

section \<open>What is known of a stored campaign\<close>

lemma decode_ancestor_Some:
  "decode_ancestor n decode journal revision = Some c \<Longrightarrow> \<exists>v. decode v = Inr c"
  by (induction n decode journal revision rule: decode_ancestor.induct)
    (auto simp: Let_def split: option.splits if_splits sum.splits)

lemma decode_canonical_Inr:
  "decode_canonical_core_state i seal roster v payload journal alternate = Inr c \<Longrightarrow>
     \<exists>w. decode_core_state i seal roster w payload = Inr c"
  by (auto simp: decode_canonical_core_state_def Let_def split: sum.splits option.splits if_splits
      dest!: decode_ancestor_Some)

definition holds_campaign :: "CampaignId \<Rightarrow> Database \<Rightarrow> CampaignAggregate \<Rightarrow> bool" where
  "holds_campaign i d c \<longleftrightarrow> is_valid_identifier i \<and> c_id c = i \<and> canonical_roster (c_roster c) \<and>
     (\<exists>v. validate_aggregate (c\<lparr>c_version := v\<rparr>) = Store_None) \<and>
     (\<exists>row ss bs as. contents i d = (Some row, ss, bs, as) \<and> record_valid row \<and> list_all slot_record_valid ss \<and>
       list_all (\<lambda>r. read_build_row r \<noteq> None) bs \<and> list_all adapter_row_valid as \<and>
       cr_codec_version row = kCampaignCoreCodecVersion \<and> c_version c = cr_revision row \<and>
       c_sealed c = cr_sealed row \<and> mset (map slot_record (c_roster c)) = mset ss) \<and>
     list_all journal_row_valid (rows_of i d)"

lemma find_campaign_contents: "contents i d = (Some row, x) \<Longrightarrow> cr_id row = i"
  by (auto simp: contents_def dest: find_campaign_id)

lemma stored_holds:
  assumes "ledger_wf d" "stored_campaign i d = Some c"
  shows "holds_campaign i d c"
proof -
  from assms(2) obtain p js where *: "answers (load_campaign_projection i server_audience) d = Inr p"
    "answers (load_journal i) d = Inr js" "aggregate_of p js = Inr c" by (auto simp: stored_campaign_iff)
  from *(1) obtain row ss bs as where p: "contents i d = (Some row, ss, bs, as)" "record_valid row"
    "list_all slot_record_valid ss" "list_all (\<lambda>r. read_build_row r \<noteq> None) bs" "list_all adapter_row_valid as"
    "p = projection_of row ss bs as" by (auto simp: answers_projection)
  from *(3) obtain c0 w where c: "cr_codec_version row = kCampaignCoreCodecVersion"
    "decode_core_state (cr_id row) (cr_sealed row) (sort_key rec_slot ss) w (cr_payload row) = Inr c0"
    "c = c0\<lparr>c_version := cr_revision row\<rparr>"
    by (auto simp: aggregate_of_def p(6) projection_of_def split: option.splits sum.splits if_splits
        dest!: decode_canonical_Inr)
  have "c\<lparr>c_version := c_version c0\<rparr> = c0" using c(3) by (cases c0) simp
  with decode_core_facts [OF c(2)] have "validate_aggregate (c\<lparr>c_version := c_version c0\<rparr>) = Store_None" by simp
  with decode_core_facts [OF c(2)] * p c show ?thesis
    by (auto simp: holds_campaign_def answers_journal [OF assms(1)] find_campaign_contents)
qed

section \<open>Persisting\<close>

lemma first_error_None: "first_error es = Store_None \<longleftrightarrow> (\<forall>e \<in> set es. e = Store_None)"
  by (induction es) auto

lemma validate_records_valid: "validate_records a b c ss = Store_None \<Longrightarrow> list_all slot_record_valid ss"
  by (induction a b c ss rule: validate_records.induct) (auto simp: slot_record_valid_def split: if_splits)

text \<open>What the validation of a request gives for the loads that follow.\<close>

lemma accepted_request:
  assumes "op_rejection (OpApply r) = Store_None"
  shows "is_valid_identifier (amr_campaign r)" "is_valid_identifier (amr_mutation r)" "amr_kind r \<noteq> []"
    "length (amr_kind r) \<le> kMaximumKindLength" "is_valid_payload (amr_payload r)"
    "amr_core_payload r = Some core \<Longrightarrow> is_valid_payload core"
    "amr_roster r = Some ss \<Longrightarrow> list_all slot_record_valid ss"
proof -
  have v: "validate_mutation r = Store_None" using assms by (auto split: if_splits)
  then have v: "first_error [validate_common_mutation (amr_campaign r) (amr_expected r) (amr_mutation r) (amr_kind r)
      (amr_codec_version r) (amr_payload r) (amr_outbox r)] = Store_None" "\<forall>e \<in> {reject_if (case amr_core_payload r of None \<Rightarrow> False
      | Some p \<Rightarrow> amr_core_version r = None \<or> amr_core_version r = Some 0 \<or> \<not> is_valid_payload p),
      (case amr_roster r of None \<Rightarrow> Store_None | Some roster \<Rightarrow> validate_slot_records roster)}. e = Store_None"
    unfolding validate_mutation_def first_error_None by simp_all
  from v(1) have common: "validate_common_mutation (amr_campaign r) (amr_expected r) (amr_mutation r) (amr_kind r)
      (amr_codec_version r) (amr_payload r) (amr_outbox r) = Store_None"
    unfolding first_error_None by simp
  from v have core: "reject_if (case amr_core_payload r of None \<Rightarrow> False
      | Some p \<Rightarrow> amr_core_version r = None \<or> amr_core_version r = Some 0 \<or> \<not> is_valid_payload p) = Store_None"
    by simp
  from v have roster: "(case amr_roster r of None \<Rightarrow> Store_None | Some roster \<Rightarrow> validate_slot_records roster) = Store_None"
    by simp
  from common show "is_valid_identifier (amr_campaign r)" "is_valid_identifier (amr_mutation r)" "amr_kind r \<noteq> []"
    "length (amr_kind r) \<le> kMaximumKindLength" "is_valid_payload (amr_payload r)"
    by (auto simp: validate_common_mutation_def split: if_splits)
  show "is_valid_payload core" if "amr_core_payload r = Some core"
    using core that by (auto simp: reject_if_def split: if_splits)
  show "list_all slot_record_valid ss" if "amr_roster r = Some ss"
    using roster that by (auto simp: validate_slot_records_def split: if_splits intro: validate_records_valid)
qed

lemma journal_entry_valid:
  assumes "journal_entry i m e v k w p cp cv j" "is_valid_identifier m" "k \<noteq> []" "length k \<le> kMaximumKindLength"
    "is_valid_payload p"
  shows "journal_row_valid j"
  using assms by (auto simp: journal_entry_def journal_row_valid_def)

lemma less_next_revision: "v < kMaximumRevision \<Longrightarrow> v < v + 1"
  by (simp add: kMaximumRevision_def word_less_nat_alt unat_word_ariths unsigned_less)

text \<open>
  Persisting makes the result of an operation the campaign that the store holds, whatever the campaign's
  builds and adapter states are.
\<close>

lemma persisted_stored:
  assumes r_def: "r = persist_request c' (c_version c) m kind payload replace seal core snap"
    and wf: "ledger_wf d'" and stored: "holds_campaign i d c"
    and applied: "applied_to r now d d'" and accepted: "op_rejection (OpApply r) = Store_None"
    and encoded: "encode_core_state c' [] = (Store_None, core)"
    and after: "c_id c' = c_id c" "canonical_roster (c_roster c')" "c_version c' = c_version c + 1"
      "c_sealed c' = (case seal of None \<Rightarrow> c_sealed c | Some b \<Rightarrow> b)"
    and roster: "\<not> replace \<Longrightarrow> map slot_record (c_roster c') = map slot_record (c_roster c)"
    and kind: "kind \<notin> {''CreateCheckpointCandidate'', ''RecordCheckpointSlotSave'', ''CommitCheckpoint'',
      ''BeginRecovery'', ''CompleteRecovery''}"
  shows "stored_campaign i d' = Some c'"
proof -
  have i: "is_valid_identifier i" "c_id c = i" using stored by (simp_all add: holds_campaign_def)
  then have r: "amr_campaign r = i" using after(1) by (simp add: r_def persist_request_def)
  obtain row ss bs as where before: "contents i d = (Some row, ss, bs, as)" "record_valid row"
      "list_all slot_record_valid ss" "list_all (\<lambda>r. read_build_row r \<noteq> None) bs" "list_all adapter_row_valid as"
      "c_version c = cr_revision row" "c_sealed c = cr_sealed row" "mset (map slot_record (c_roster c)) = mset ss"
      and rows: "list_all journal_row_valid (rows_of i d)"
    using stored by (auto simp: holds_campaign_def)
  let ?v = "c_version c + 1"
  let ?ss = "if replace then to_roster_records c' else ss"
  let ?bs = "if replace then [] else bs"
  have found: "find_campaign i d = Some row" using before(1) by (simp add: contents_def)
  have v: "op_result (OpApply r) = ?v" by (simp add: r_def persist_request_def op_result_def)
  have "amr_roster r = (if replace then Some (to_roster_records c') else None)" by (simp add: r_def persist_request_def)
  then have x: "snd (replaced_roster (amr_roster r) i d) = (?ss, ?bs, as)"
    using before(1) by (auto simp: replaced_roster_def contents_def)
  have fields: "amr_expected r = c_version c" "amr_mutation r = m" "amr_kind r = kind" "amr_codec_version r = 1"
    "amr_payload r = payload" "amr_advances r = True" by (simp_all add: r_def persist_request_def)
  from applied obtain j where limit: "c_version c < kMaximumRevision"
    and view: "view i d' = ((Some (applied_record r ?v now row), ?ss, ?bs, as), rows_of i d @ [j])"
    and entry: "journal_entry i m (c_version c) ?v kind 1 payload None None j"
    unfolding applied_to_def Let_def v r x fields found by auto
  let ?row = "applied_record r ?v now row"
  have row: "?row = row\<lparr>cr_codec_version := 1, cr_payload := core, cr_sealed := c_sealed c', cr_revision := ?v,
      cr_updated := now\<rparr>"
    using after(4) before(7)
    by (cases seal; cases row)
      (simp_all add: applied_record_def r_def persist_request_def with_core_def with_seal_def kCampaignCoreCodecVersion_def)
  have core_valid: "is_valid_payload core"
    by (rule accepted_request(6) [OF accepted]) (simp add: r_def persist_request_def)
  have new_roster: "list_all slot_record_valid ?ss"
    using before(3) accepted_request(7) [OF accepted, of "to_roster_records c'"] by (simp add: r_def persist_request_def)
  have row_valid: "record_valid ?row"
    using before(2) core_valid entry unfolding row record_valid_def journal_entry_def by simp
  have members: "mset (sort_key rec_slot ?ss) = mset (map slot_record (c_roster c'))"
    by (cases replace) (simp_all add: to_roster_records_def before(8) [symmetric] roster del: mset_map)
  have j: "journal_row_valid j"
    using journal_entry_valid [OF entry] accepted_request(2-5) [OF accepted] by (simp add: r_def persist_request_def)
  have produces: "produces_core_state (strip_digest j)"
    using kind entry less_next_revision [OF limit] by (simp add: produces_core_state_def journal_entry_def)
  have id: "cr_id ?row = c_id c'" using find_campaign_id [OF found] i after(1) by (simp add: row)
  have decoded: "decode_core_state (cr_id ?row) (cr_sealed ?row) (sort_key rec_slot ?ss) ?v (cr_payload ?row) = Inr c'"
    using decode_encoded_core [OF encoded after(2) members] after(3) id by (simp add: row)
  let ?p = "projection_of ?row ?ss ?bs as"
  have "answers (load_campaign_projection i server_audience) d' = Inr ?p"
    using view i row_valid new_roster before(4,5)
    by (auto simp: answers_projection view_def)
  moreover have "answers (load_journal i) d' = Inr (map strip_digest (rows_of i d @ [j]))"
    using view i rows j by (simp add: answers_journal [OF wf] view_def)
  moreover have "aggregate_of ?p (map strip_digest (rows_of i d @ [j])) = Inr c'"
    using produces decoded entry after(3)
    by (simp add: aggregate_of_def projection_of_def row decode_canonical_core_state_def kCampaignCoreCodecVersion_def
        journal_entry_def)
  ultimately show ?thesis by (auto simp: stored_campaign_iff)
qed


section \<open>Recording\<close>

lemma decode_ancestor_snoc:
  assumes "jr_kind j \<noteq> ''RestoreCheckpoint''"
  shows "decode_ancestor n dec js v = Some c \<Longrightarrow> n \<le> n' \<Longrightarrow> decode_ancestor n' dec (js @ [j]) v = Some c"
proof (induction n dec js v arbitrary: n' rule: decode_ancestor.induct)
  case (2 n dec js v)
  then obtain k where k: "n' = Suc k" "n \<le> k" by (cases n') auto
  show ?case using 2(1) 2(2) k assms by (auto simp: Let_def split: option.splits if_splits sum.splits)
qed simp

lemma decode_canonical_snoc:
  assumes "decode_canonical_core_state i seal roster v payload js None = Inr c" "jr_kind j \<noteq> ''RestoreCheckpoint''"
  shows "decode_canonical_core_state i seal roster v payload (js @ [j]) None = Inr c"
proof (cases "decode_core_state i seal roster v payload")
  case (Inl e)
  let ?dec = "\<lambda>w. decode_core_state i seal roster w payload"
  have "decode_ancestor (length js) ?dec js v = Some c"
    using assms(1) unfolding decode_canonical_core_state_def Let_def Inl by (simp split: option.splits)
  then have "decode_ancestor (Suc (length js)) ?dec (js @ [j]) v = Some c"
    using decode_ancestor_snoc [OF assms(2)] le_SucI by blast
  then show ?thesis
    unfolding decode_canonical_core_state_def Let_def Inl length_append_singleton by (simp del: decode_ancestor.simps)
next
  case (Inr c')
  then show ?thesis using assms(1) by (simp add: decode_canonical_core_state_def)
qed

text \<open>A row that makes no core state leaves the campaign as it was, at the revision of its record.\<close>

lemma aggregate_of_snoc:
  assumes "aggregate_of p js = Inr c" "\<not> produces_core_state j" "jr_kind j \<noteq> ''RestoreCheckpoint''"
  shows "aggregate_of (p\<lparr>pr_campaign := pr_campaign p\<lparr>cr_revision := v, cr_updated := u\<rparr>\<rparr>) (js @ [j]) =
    Inr (c\<lparr>c_version := v\<rparr>)"
  using assms decode_canonical_snoc [OF _ assms(3)]
  by (auto simp: aggregate_of_def split: option.splits sum.splits if_splits)

lemma recorded_stored:
  assumes r_def: "r = record_request i (c_version c) m kind adv payload"
    and wf: "ledger_wf d" "ledger_wf d'" and stored: "stored_campaign i d = Some c"
    and applied: "applied_to r now d d'" and accepted: "op_rejection (OpApply r) = Store_None"
    and kind: "adv \<Longrightarrow> kind = ''BeginRecovery''" "kind \<noteq> ''RestoreCheckpoint''"
  shows "stored_campaign i d' = Some (c\<lparr>c_version := if adv then c_version c + 1 else c_version c\<rparr>)"
proof -
  have fields: "amr_campaign r = i" "amr_expected r = c_version c" "amr_mutation r = m" "amr_kind r = kind"
    "amr_codec_version r = 1" "amr_payload r = payload" "amr_advances r = adv" "amr_roster r = None"
    by (simp_all add: r_def record_request_def)
  define v where "v = (if adv then c_version c + 1 else c_version c)"
  have v: "op_result (OpApply r) = v" by (simp add: op_result_def fields v_def)
  obtain p js where load: "answers (load_campaign_projection i server_audience) d = Inr p"
    "answers (load_journal i) d = Inr js" "aggregate_of p js = Inr c" using stored by (auto simp: stored_campaign_iff)
  then obtain row ss bs as where before: "contents i d = (Some row, ss, bs, as)" "record_valid row"
      "list_all slot_record_valid ss" "list_all (\<lambda>r. read_build_row r \<noteq> None) bs" "list_all adapter_row_valid as"
      "p = projection_of row ss bs as"
    and i: "is_valid_identifier i" by (auto simp: answers_projection)
  have found: "find_campaign i d = Some row" using before(1) by (simp add: contents_def)
  have x: "snd (replaced_roster None i d) = (ss, bs, as)" using before(1) by (simp add: replaced_roster_def)
  from applied obtain j where limit: "adv \<longrightarrow> c_version c < kMaximumRevision" and rev: "cr_revision row = c_version c"
    and view: "view i d' = ((Some (applied_record r v now row), ss, bs, as), rows_of i d @ [j])"
    and entry: "journal_entry i m (c_version c) v kind 1 payload None None j"
    unfolding applied_to_def Let_def v fields x found by auto
  define u where "u = (if adv then now else cr_updated row)"
  have row: "applied_record r v now row = row\<lparr>cr_revision := v, cr_updated := u\<rparr>"
    using rev by (cases row) (simp add: applied_record_def r_def record_request_def with_core_def with_seal_def v_def u_def)
  have row_valid: "record_valid (row\<lparr>cr_revision := v, cr_updated := u\<rparr>)"
    using before(2) entry by (simp add: record_valid_def journal_entry_def)
  have js: "js = map strip_digest (rows_of i d)" "list_all journal_row_valid (rows_of i d)"
    using load(2) by (simp_all add: answers_journal [OF wf(1)])
  have j: "journal_row_valid j"
    using journal_entry_valid [OF entry] accepted_request(2-5) [OF accepted] by (simp add: fields)
  have quiet: "\<not> produces_core_state (strip_digest j)" "jr_kind (strip_digest j) \<noteq> ''RestoreCheckpoint''"
    using kind entry by (auto simp: produces_core_state_def journal_entry_def v_def)
  have "answers (load_campaign_projection i server_audience) d' =
      Inr (p\<lparr>pr_campaign := pr_campaign p\<lparr>cr_revision := v, cr_updated := u\<rparr>\<rparr>)"
    using view i row_valid before(3-6) by (auto simp: answers_projection view_def row projection_of_def)
  moreover have "answers (load_journal i) d' = Inr (js @ [strip_digest j])"
    using view i js j by (simp add: answers_journal [OF wf(2)] view_def)
  ultimately show ?thesis
    using aggregate_of_snoc [where v = v and u = u, OF load(3) quiet] by (auto simp: stored_campaign_iff v_def)
qed

end
