(* ===== verification/RuntimeFrames.thy ===== *)
theory RuntimeFrames
  imports RuntimeAggregate
begin

text \<open>
  Rules for the handlers of the campaign service: what a handler leaves alone, what its early returns say,
  and the state it ends in.
\<close>

section \<open>Parts of the service that a handler leaves alone\<close>

definition svc_leaves :: "(RuntimeService \<Rightarrow> 'x) \<Rightarrow> ('e, 'a) svc \<Rightarrow> bool" where
  "svc_leaves part m \<longleftrightarrow> (\<forall>env k s. part (snd (snd (m env (k, s)))) = part s)"

named_theorems leaves_svc

lemma svc_leavesD: "svc_leaves part m \<Longrightarrow> m env (k, s) = (r, k', s') \<Longrightarrow> part s' = part s"
  unfolding svc_leaves_def by (metis snd_conv)

lemma leaves_basic [leaves_svc]:
  "svc_leaves part (svc_ret x)" "svc_leaves part (svc_fail e)" "svc_leaves part (svc_get f)"
  "svc_leaves part (svc_env g)" "svc_leaves part (svc_require b e)"
  by (simp_all add: svc_leaves_def svc_ret_def svc_fail_def svc_get_def svc_env_def svc_require_def)

lemma leaves_put [leaves_svc]: "(\<And>s. part (f s) = part s) \<Longrightarrow> svc_leaves part (svc_put f)"
  by (simp add: svc_leaves_def svc_put_def)

lemma leaves_load [leaves_svc]: "steady m \<Longrightarrow> svc_leaves part (svc_load m)"
  unfolding svc_leaves_def by (metis svc_load_steady prod.collapse)

lemma leaves_mutate:
  "(\<And>env s. part (s\<lparr>sv_store := snd (store_mutate op env (sv_store s))\<rparr>) = part s) \<Longrightarrow> svc_leaves part (svc_mutate op)"
  by (simp add: svc_leaves_def svc_mutate_def split: prod.split) (metis snd_conv)

lemma leaves_error [leaves_svc]: "svc_leaves part m \<Longrightarrow> svc_leaves part (svc_error f m)"
  by (auto simp: svc_leaves_def svc_error_def split: prod.split sum.split) (metis snd_conv)+

lemma leaves_bind [leaves_svc]:
  assumes "svc_leaves part m" "\<And>x. svc_leaves part (h x)"
  shows "svc_leaves part (svc_bind m h)"
  unfolding svc_leaves_def
proof (intro allI)
  fix env k s
  obtain r k1 s1 where m: "m env (k, s) = (r, k1, s1)" by (metis prod_cases3)
  with svc_leavesD [OF assms(1) m] assms(2) show "part (snd (snd (svc_bind m h env (k, s)))) = part s"
    by (cases r) (auto simp: svc_bind_def svc_leaves_def)
qed

lemma leaves_cases [leaves_svc]:
  "(\<And>x. svc_leaves part (f x)) \<Longrightarrow> svc_leaves part g \<Longrightarrow> svc_leaves part (case v of None \<Rightarrow> g | Some x \<Rightarrow> f x)"
  "(\<And>x. svc_leaves part (h x)) \<Longrightarrow> (\<And>y. svc_leaves part (l y)) \<Longrightarrow>
     svc_leaves part (case w of Inl x \<Rightarrow> h x | Inr y \<Rightarrow> l y)"
  "(\<And>a b. svc_leaves part (p a b)) \<Longrightarrow> svc_leaves part (case z of (a, b) \<Rightarrow> p a b)"
  "svc_leaves part m \<Longrightarrow> svc_leaves part m' \<Longrightarrow> svc_leaves part (if b then m else m')"
  by (auto split: option.splits sum.splits prod.splits)

text \<open>The parts that do not depend on the recovery of a campaign.\<close>

definition apart_from_recovery :: "CampaignId \<Rightarrow> (RuntimeService \<Rightarrow> 'x) \<Rightarrow> bool" where
  "apart_from_recovery i part \<longleftrightarrow> (\<forall>s v. part (s\<lparr>sv_recoveries := (sv_recoveries s)(i := v)\<rparr>) = part s)"

lemma leaves_finish:
  "apart_from_recovery i part \<Longrightarrow> svc_leaves part (finish_reconstruction i sc)"
  unfolding finish_reconstruction_def open_recovery_def Let_def
  by (intro leaves_svc steady_loads steady_cases) (simp add: apart_from_recovery_def)+

lemma leaves_reconstruct [leaves_svc]:
  assumes "apart_from_recovery i part"
  shows "svc_leaves part (reconstruct_recovery i)"
  unfolding svc_leaves_def
proof (intro allI)
  fix env k s
  obtain r k1 s1 where load: "svc_load (load_journal i) env (k, s) = (r, k1, s1)" by (metis prod_cases3)
  note same = svc_load_steady [OF steady_loads(3) load]
    leaves_finish [OF assms, unfolded svc_leaves_def, rule_format]
  show "part (snd (snd (reconstruct_recovery i env (k, s)))) = part s"
    using same by (cases r) (auto simp: reconstruct_recovery_def load split: sum.split prod.split)
qed

lemma leaves_replay [leaves_svc]: "svc_leaves part (find_mutation_replay i expected mutation kind payload)"
  unfolding svc_leaves_def
proof (intro allI)
  fix env k s
  obtain r k1 s1 where load: "svc_load (load_journal i) env (k, s) = (r, k1, s1)" by (metis prod_cases3)
  from svc_load_steady [OF steady_loads(3) load]
  show "part (snd (snd (find_mutation_replay i expected mutation kind payload env (k, s)))) = part s"
    by (cases r) (auto simp: find_mutation_replay_def load split: option.split)
qed

lemma leaves_fence [leaves_svc]: "apart_from_recovery i part \<Longrightarrow> svc_leaves part (check_mutation_fence i)"
  unfolding check_mutation_fence_def by (intro leaves_svc)

lemma leaves_aggregate [leaves_svc]: "svc_leaves part (load_aggregate i)"
  unfolding load_aggregate_def by (intro leaves_svc steady_loads)

lemma leaves_encode [leaves_svc]: "svc_leaves part (svc_encode result)"
  unfolding svc_encode_def by (intro leaves_svc)

lemma apart_store [simp]: "apart_from_recovery i sv_store"
  by (simp add: apart_from_recovery_def)

section \<open>Refusals\<close>

text \<open>What a handler returns early says that nothing was applied.\<close>

definition refuses :: "(CommandResult, 'a) svc \<Rightarrow> bool" where
  "refuses m \<longleftrightarrow> (\<forall>env ks e ks'. m env ks = (Inl e, ks') \<longrightarrow> \<not> cmd_applied e)"

named_theorems refuses

lemma refusesD: "refuses m \<Longrightarrow> m env ks = (Inl e, ks') \<Longrightarrow> \<not> cmd_applied e"
  unfolding refuses_def by blast

lemma not_applied_results [simp]:
  "\<not> cmd_applied cmd_ok" "\<not> cmd_applied (cmd_failure e x)" "\<not> cmd_applied (store_failure x)"
  "\<not> cmd_applied (stale_revision v)" "\<not> cmd_applied (domain_failure r)" "\<not> cmd_applied journal_damaged"
  by (simp_all add: cmd_ok_def cmd_failure_def store_failure_def stale_revision_def domain_failure_def journal_damaged_def)

lemma refuses_basic [refuses]:
  "refuses (svc_ret x)" "\<not> cmd_applied e \<Longrightarrow> refuses (svc_fail e)" "refuses (svc_get f)" "refuses (svc_put g)"
  "refuses (svc_mutate op)" "\<not> cmd_applied e \<Longrightarrow> refuses (svc_require b e)" "refuses (svc_error store_failure (m :: (StoreError, 'a) svc))"
  by (auto simp: refuses_def svc_ret_def svc_fail_def svc_get_def svc_put_def svc_require_def svc_mutate_def svc_error_def
      split: prod.splits sum.splits)

lemma refuses_bind [refuses]: "refuses m \<Longrightarrow> (\<And>x. refuses (h x)) \<Longrightarrow> refuses (svc_bind m h)"
  unfolding refuses_def svc_bind_def by (auto split: prod.splits sum.splits) blast+

lemma refuses_cases [refuses]:
  "(\<And>x. refuses (f x)) \<Longrightarrow> refuses g \<Longrightarrow> refuses (case v of None \<Rightarrow> g | Some x \<Rightarrow> f x)"
  "(\<And>x. refuses (h x)) \<Longrightarrow> (\<And>y. refuses (l y)) \<Longrightarrow> refuses (case w of Inl x \<Rightarrow> h x | Inr y \<Rightarrow> l y)"
  "(\<And>a b. refuses (p a b)) \<Longrightarrow> refuses (case z of (a, b) \<Rightarrow> p a b)"
  "refuses m \<Longrightarrow> refuses m' \<Longrightarrow> refuses (if b then m else m')"
  by (auto split: option.splits sum.splits prod.splits)

lemma scan_row_refused: "scan_row campaign j sc = Inl e \<Longrightarrow> e = journal_damaged"
  by (auto simp: scan_row_def scan_open_row_def split: if_splits option.splits)

lemma scan_refused: "scan_journal campaign js sc = Inl e \<Longrightarrow> e = journal_damaged"
  by (induction js arbitrary: sc) (auto split: sum.splits dest: scan_row_refused)

lemma refuses_parts [refuses]:
  "refuses (finish_reconstruction campaign sc)" "refuses (load_aggregate campaign)" "refuses (svc_encode result)"
  "refuses (find_mutation_replay campaign expected mutation kind payload)"
     apply (auto simp: finish_reconstruction_def open_recovery_def Let_def intro!: refuses split: option.splits)[1]
    apply (auto simp: load_aggregate_def intro!: refuses)[1]
   apply (auto simp: svc_encode_def intro!: refuses)[1]
  apply (auto simp: refuses_def find_mutation_replay_def split: sum.splits prod.splits option.splits if_splits)
  done

lemma refuses_fence [refuses]:
  "refuses (reconstruct_recovery campaign)" "refuses (check_mutation_fence campaign)"
proof -
  show r: "refuses (reconstruct_recovery campaign)"
    using refuses_parts(1) [unfolded refuses_def, rule_format]
    by (auto simp: refuses_def reconstruct_recovery_def split: sum.splits prod.splits if_splits dest: scan_refused)
  show "refuses (check_mutation_fence campaign)"
    unfolding check_mutation_fence_def by (intro refuses r not_applied_results)
qed

lemma from_not_applied: "not_applied r \<Longrightarrow> \<not> cmd_applied (from_mutation_result r)"
  by (simp add: from_mutation_result_def not_applied_def)

section \<open>Bounds on the outcome of a handler\<close>

text \<open>
  \<open>svc_ends m env s F G\<close>: an early return satisfies \<open>F\<close> and a result \<open>G\<close>, with the state they leave.
\<close>

definition svc_ends ::
  "('e, 'a) svc \<Rightarrow> RuntimeEnv \<Rightarrow> nat \<times> RuntimeService \<Rightarrow> ('e \<Rightarrow> RuntimeService \<Rightarrow> bool) \<Rightarrow>
   ('a \<Rightarrow> RuntimeService \<Rightarrow> bool) \<Rightarrow> bool" where
  "svc_ends m env ks F G \<longleftrightarrow>
     (case m env ks of (Inl e, ks') \<Rightarrow> F e (snd ks') | (Inr x, ks') \<Rightarrow> G x (snd ks'))"

lemma svc_ends_bind:
  assumes "svc_ends m env (k, s) F G" "\<And>x k' s'. G x s' \<Longrightarrow> svc_ends (h x) env (k', s') F H"
  shows "svc_ends (svc_bind m h) env (k, s) F H"
proof -
  obtain r k1 s1 where m: "m env (k, s) = (r, k1, s1)" by (metis prod_cases3)
  show ?thesis
  proof (cases r)
    case (Inr x)
    then have "G x s1" using assms(1) m by (simp add: svc_ends_def)
    from assms(2) [OF this] show ?thesis using m Inr by (simp add: svc_ends_def svc_bind_def)
  qed (use assms(1) m in \<open>simp add: svc_ends_def svc_bind_def\<close>)
qed

lemma svc_ends_mono:
  "svc_ends m env ks F G \<Longrightarrow> (\<And>e s. F e s \<Longrightarrow> F' e s) \<Longrightarrow> (\<And>x s. G x s \<Longrightarrow> G' x s) \<Longrightarrow> svc_ends m env ks F' G'"
  by (auto simp: svc_ends_def split: prod.splits sum.splits)

lemma svc_ends_basic [simp]:
  "svc_ends (svc_ret x) env (k, s) F G \<longleftrightarrow> G x s" "svc_ends (svc_fail e) env (k, s) F G \<longleftrightarrow> F e s"
  "svc_ends (svc_get f) env (k, s) F H \<longleftrightarrow> H (f s) s"
  "svc_ends (svc_put g) env (k, s) F K \<longleftrightarrow> K () (g s)"
  "svc_ends (svc_require b e) env (k, s) F K \<longleftrightarrow> (if b then K () s else F e s)"
  by (simp_all add: svc_ends_def svc_ret_def svc_fail_def svc_get_def svc_put_def svc_require_def)

lemma svc_ends_if:
  "(b \<Longrightarrow> svc_ends m env ks F G) \<Longrightarrow> (\<not> b \<Longrightarrow> svc_ends m' env ks F G) \<Longrightarrow>
     svc_ends (if b then m else m') env ks F G"
  by simp

lemma svc_ends_result:
  "svc_result m env s = (r, s') \<Longrightarrow> svc_ends m env (0, s) P P \<Longrightarrow> P r s'"
  by (auto simp: svc_result_def svc_ends_def split: prod.splits sum.splits)

lemma svc_ends_asks:
  assumes "svc_leaves sv_store m" "refuses m"
  shows "svc_ends m env (k, s) (\<lambda>e s'. \<not> cmd_applied e \<and> sv_store s' = sv_store s) (\<lambda>_ s'. sv_store s' = sv_store s)"
  using assms unfolding svc_ends_def svc_leaves_def refuses_def
  by (auto split: prod.splits sum.splits) (metis snd_conv)+

end
