(* ===== verification/RuntimeCampaign.thy ===== *)
theory RuntimeCampaign
  imports RuntimeFrames
begin

text \<open>
  The commands of the campaign service against the state machine of \<open>CampaignState\<close>: a command that is
  applied makes the campaign that the store holds into what the operation makes of it, and every other
  outcome of a command leaves the stored campaign as it was.
\<close>

section \<open>The commands and the operations\<close>

datatype RuntimeCommand =
    CommandAdd CampaignSlotRecord | CommandRemove CampaignSlotId | CommandReplace CampaignSlotRecord
  | CommandStart DurablePlayerId | CommandTransfer DurablePlayerId DurablePlayerId
  | CommandReady CampaignMemberIdentity bool

fun run_command :: "CampaignId \<Rightarrow> StateVersion \<Rightarrow> string \<Rightarrow> RuntimeCommand \<Rightarrow> (CommandResult, CommandResult) svc" where
  "run_command i v m (CommandAdd s) = add_roster_slot i v m s"
| "run_command i v m (CommandRemove slot) = remove_roster_slot i v m slot"
| "run_command i v m (CommandReplace s) = replace_roster_slot i v m s"
| "run_command i v m (CommandStart manager) = start_campaign i v m manager"
| "run_command i v m (CommandTransfer actor manager) = transfer_manager i v m actor manager"
| "run_command i v m (CommandReady actor ready) = set_campaign_ready i v m actor ready"

fun command_operation :: "RuntimeCommand \<Rightarrow> CampaignOp" where
  "command_operation (CommandAdd s) = OpAddSlot (to_slot_state s)"
| "command_operation (CommandRemove slot) = OpRemoveSlot slot"
| "command_operation (CommandReplace s) = OpReplaceSlot (to_slot_state s)"
| "command_operation (CommandStart manager) = OpCommitStart server_actor manager"
| "command_operation (CommandTransfer actor manager) = OpTransferManager actor manager"
| "command_operation (CommandReady actor ready) = OpSetReady actor ready"

text \<open>What the commands hand to their common part.\<close>

fun command_kind :: "RuntimeCommand \<Rightarrow> string" where
  "command_kind (CommandAdd s) = ''AddRosterSlot''"
| "command_kind (CommandRemove slot) = ''RemoveRosterSlot''"
| "command_kind (CommandReplace s) = ''ReplaceRosterSlot''"
| "command_kind (CommandStart manager) = ''CommitCampaignStart''"
| "command_kind (CommandTransfer actor manager) = ''TransferSessionManager''"
| "command_kind (CommandReady actor ready) = ''SetReady''"

fun command_arguments :: "RuntimeCommand \<Rightarrow> Bytes" where
  "command_arguments (CommandAdd s) = payload_slot s"
| "command_arguments (CommandRemove slot) = payload_field slot"
| "command_arguments (CommandReplace s) = payload_slot s"
| "command_arguments (CommandStart manager) = payload_field manager"
| "command_arguments (CommandTransfer actor manager) = payload_field actor @ payload_field manager"
| "command_arguments (CommandReady actor ready) =
     payload_field (mi_campaign actor) @ payload_member actor @ [if ready then 1 else 0]"

fun may_be_noop :: "RuntimeCommand \<Rightarrow> bool" where
  "may_be_noop (CommandReplace s) = True"
| "may_be_noop (CommandTransfer actor manager) = True"
| "may_be_noop (CommandReady actor ready) = True"
| "may_be_noop _ = False"

fun edits_roster :: "RuntimeCommand \<Rightarrow> bool" where
  "edits_roster (CommandTransfer actor manager) = False"
| "edits_roster (CommandReady actor ready) = False"
| "edits_roster _ = True"

fun seals_roster :: "RuntimeCommand \<Rightarrow> bool option" where
  "seals_roster (CommandStart manager) = Some True"
| "seals_roster _ = None"

lemma run_command_common:
  "run_command i v m cmd = campaign_command i v m (command_kind cmd) (command_arguments cmd)
     (\<lambda>c. campaign_perform c (command_operation cmd)) (may_be_noop cmd) (edits_roster cmd) (seals_roster cmd)"
  by (cases cmd)
    (simp_all add: add_roster_slot_def remove_roster_slot_def replace_roster_slot_def start_campaign_def
      transfer_manager_def set_campaign_ready_def)

text \<open>What a changing operation leaves of the aggregate it was given.\<close>

lemma replace_roster_length:
  assumes "dom_succeeded (snd (replace_roster roster c))" "length roster \<noteq> length (c_roster c)"
  shows "dom_changed (snd (replace_roster roster c))"
proof -
  have "c_roster c \<noteq> map unready (sort_roster roster)"
    using assms(2) by (metis length_map length_sort sort_roster_def)
  then show ?thesis using assms(1)
    by (auto simp: replace_roster_def advance_version_def Let_def split: if_splits)
qed

lemma command_changes:
  assumes "dom_succeeded (snd (campaign_perform c (command_operation cmd)))" "\<not> may_be_noop cmd"
  shows "dom_changed (snd (campaign_perform c (command_operation cmd)))"
proof (cases cmd)
  case (CommandAdd s)
  then show ?thesis using assms(1) by (auto simp: add_slot_def Let_def intro!: replace_roster_length split: if_splits)
next
  case (CommandRemove slot)
  have "length (erase_first P xs) \<noteq> length xs" if "find P xs \<noteq> None" for P and xs :: "CampaignSlotState list"
    using that find_split [of P xs] by fastforce
  with CommandRemove show ?thesis
    using assms(1) by (auto simp: remove_slot_def Let_def intro!: replace_roster_length split: if_splits)
next
  case (CommandStart manager)
  then show ?thesis using assms(1) by (auto simp: commit_start_simps split: if_splits)
qed (use assms(2) in simp_all)


lemma replace_roster_after:
  assumes "canonical_roster (c_roster c)" "dom_changed (snd (replace_roster roster c))"
  shows "canonical_roster (c_roster (fst (replace_roster roster c)))" "c_sealed (fst (replace_roster roster c)) = c_sealed c"
    "c_id (fst (replace_roster roster c)) = c_id c"
  using assms by (auto simp: replace_roster_def validate_roster_iff advance_version_def Let_def split: if_splits)

lemma slot_record_ready [simp]: "slot_record (s\<lparr>slot_ready := b\<rparr>) = slot_record s"
  by (simp add: slot_record_def)

lemma update_ready_records:
  "map slot_record (update_first P (\<lambda>s. s\<lparr>slot_ready := b\<rparr>) roster) = map slot_record roster"
  by (induction roster) auto

lemma command_after:
  fixes c cmd
  defines "c' \<equiv> fst (campaign_perform c (command_operation cmd))"
  assumes roster: "canonical_roster (c_roster c)" and changed: "dom_changed (snd (campaign_perform c (command_operation cmd)))"
  shows "c_id c' = c_id c" "canonical_roster (c_roster c')"
    "c_sealed c' = (case seals_roster cmd of None \<Rightarrow> c_sealed c | Some b \<Rightarrow> b)"
    "\<not> edits_roster cmd \<Longrightarrow> map slot_record (c_roster c') = map slot_record (c_roster c)"
  using roster changed replace_roster_after [OF roster] canonical_identities [OF identities_update_first]
  unfolding c'_def
  by (cases cmd;
      auto simp: add_slot_def remove_slot_def replace_slot_def commit_start_simps transfer_session_manager_def
        set_ready_def advance_version_simps update_ready_records Let_def split: option.splits if_splits)+

lemma stored_version:
  assumes "ledger_wf d" "stored_campaign i d = Some c"
  shows "c_version c \<noteq> - 1" "canonical_roster (c_roster c)" "c_id c = i"
proof -
  from stored_holds [OF assms] have h: "holds_campaign i d c" .
  then have "c_version c \<le> kMaximumRevision" by (auto simp: holds_campaign_def record_valid_def)
  moreover have "kMaximumRevision \<noteq> - 1" by (simp add: kMaximumRevision_def)
  ultimately show "c_version c \<noteq> - 1" by (metis word_n1_ge order.antisym)
  show "canonical_roster (c_roster c)" "c_id c = i" using h by (simp_all add: holds_campaign_def)
qed

text \<open>
  What a command leaves: a command that was not applied leaves the stored campaign; one that was applied
  leaves the result of its operation.
\<close>

definition command_outcome ::
  "RuntimeCommand \<Rightarrow> CampaignId \<Rightarrow> StateVersion \<Rightarrow> CampaignAggregate \<Rightarrow> CommandResult \<Rightarrow> Database \<Rightarrow> bool" where
  "command_outcome cmd i expected c r d' \<longleftrightarrow>
     (if cmd_applied r
      then cmd_error r = NoCampaignError \<and> c_version c = expected \<and> cmd_version r = c_version c + 1 \<and>
        dom_changed (snd (campaign_perform c (command_operation cmd))) \<and>
        stored_campaign i d' = Some (fst (campaign_perform c (command_operation cmd)))
      else stored_campaign i d' = Some c)"

lemma ledger_wf_mutate: "ledger_wf d \<Longrightarrow> store_mutate op env d = (r, d') \<Longrightarrow> ledger_wf d'"
  using store_mutate_effect [of op env d r d'] ledger_wf_recorded by blast

lemma plain_requests [simp]:
  "plain_request (persist_request c v m kind payload replace seal core snap)"
  "plain_request (record_request i v m kind adv payload)"
  by (simp_all add: plain_request_def persist_request_def record_request_def)

lemma ends_persist:
  assumes wf: "ledger_wf (sv_store s)" and stored: "stored_campaign i (sv_store s) = Some c"
    and changed: "dom_changed (snd (campaign_perform c (command_operation cmd)))"
    and result: "c' = fst (campaign_perform c (command_operation cmd))" and expected: "c_version c = expected"
  shows "svc_ends (persist_mutation c' expected m (command_kind cmd) payload (edits_roster cmd) (seals_roster cmd))
    env (k, s) (\<lambda>r s'. command_outcome cmd i expected c r (sv_store s'))
    (\<lambda>r s'. command_outcome cmd i expected c r (sv_store s'))"
proof -
  let ?Q = "\<lambda>r s'. command_outcome cmd i expected c r (sv_store s')"
  note sv = stored_version [OF wf stored]
  have v: "c_version c' = c_version c + 1" using perform_version [OF sv(1), of "command_operation cmd"] changed result by blast
  have "svc_ends (svc_apply (persist_request c' expected m (command_kind cmd) payload (edits_roster cmd) (seals_roster cmd)
      core snap)) env (k', s) ?Q ?Q" if core: "encode_core_state c' [] = (Store_None, core)" for k' core snap
  proof -
    define r where "r = persist_request c' (c_version c) m (command_kind cmd) payload (edits_roster cmd) (seals_roster cmd)
      core snap"
    obtain x d' where run: "store_mutate (OpApply r) (call_env env k') (sv_store s) = (x, d')"
      by (cases "store_mutate (OpApply r) (call_env env k') (sv_store s)")
    have adv: "amr_advances r" "plain_request r" "amr_expected r = c_version c"
      by (simp_all add: r_def) (simp_all add: persist_request_def)
    from apply_effect [OF run adv(2)] have "?Q (from_mutation_result x) (s\<lparr>sv_store := d'\<rparr>)"
    proof
      assume "not_applied x \<and> d' = sv_store s"
      then show ?thesis using stored by (simp add: command_outcome_def from_not_applied)
    next
      assume applied: "op_rejection (OpApply r) = Store_None \<and>
        x = mutation_done (op_result (OpApply r)) (amr_advances r) \<and>
        applied_to r (env_now (call_env env k')) (sv_store s) d'"
      have kind: "command_kind cmd \<notin> {''CreateCheckpointCandidate'', ''RecordCheckpointSlotSave'', ''CommitCheckpoint'',
          ''BeginRecovery'', ''CompleteRecovery''}" by (cases cmd) simp_all
      note after = command_after [OF sv(2) changed, folded result]
      have "stored_campaign i d' = Some c'"
        by (rule persisted_stored [OF r_def ledger_wf_mutate [OF wf run] stored_holds [OF wf stored]
              applied [THEN conjunct2, THEN conjunct2] applied [THEN conjunct1] core after(1,2) v after(3) after(4) kind])
      then show ?thesis using changed result expected applied adv v
        by (simp add: command_outcome_def from_mutation_result_def mutation_done_def op_result_def cmd_ok_def)
    qed
    then show ?thesis
      using expected run by (simp add: svc_ends_def svc_apply_def svc_bind_def svc_mutate_def svc_ret_def r_def)
  qed
  then show ?thesis
    unfolding persist_mutation_def svc_encode_def
    by (cases "encode_core_state c' []"; cases "encode_snapshot_intent c' []")
      (auto simp: svc_bind_def svc_require_def svc_ret_def svc_fail_def svc_ends_def command_outcome_def stored)
qed


lemma ends_noop:
  assumes wf: "ledger_wf (sv_store s)" and stored: "stored_campaign i (sv_store s) = Some c"
    and expected: "c_version c = expected"
  shows "svc_ends (persist_accepted_noop i expected m (command_kind cmd) payload) env (k, s)
    (\<lambda>r s'. command_outcome cmd i expected c r (sv_store s')) (\<lambda>r s'. command_outcome cmd i expected c r (sv_store s'))"
proof -
  define r where "r = record_request i (c_version c) m (command_kind cmd) False payload"
  obtain x d' where run: "store_mutate (OpApply r) (call_env env k) (sv_store s) = (x, d')"
    by (cases "store_mutate (OpApply r) (call_env env k) (sv_store s)")
  have "plain_request r" "\<not> amr_advances r" by (simp_all add: r_def) (simp add: record_request_def)
  with apply_effect [OF run] have "(not_applied x \<and> d' = sv_store s) \<or> (op_rejection (OpApply r) = Store_None \<and>
      \<not> mut_applied x \<and> applied_to r (env_now (call_env env k)) (sv_store s) d')"
    by (auto simp: mutation_done_def)
  then have "\<not> cmd_applied (from_mutation_result x) \<and> stored_campaign i d' = Some c"
  proof
    assume "not_applied x \<and> d' = sv_store s"
    then show ?thesis using stored by (simp add: from_not_applied)
  next
    assume applied: "op_rejection (OpApply r) = Store_None \<and> \<not> mut_applied x \<and>
      applied_to r (env_now (call_env env k)) (sv_store s) d'"
    have "command_kind cmd \<noteq> ''RestoreCheckpoint''" by (cases cmd) simp_all
    from recorded_stored [OF r_def wf ledger_wf_mutate [OF wf run] stored applied [THEN conjunct2, THEN conjunct2]
        applied [THEN conjunct1] _ this]
    show ?thesis using applied by (auto simp: from_mutation_result_def)
  qed
  then show ?thesis
    using expected run
    by (simp add: command_outcome_def persist_accepted_noop_def svc_ends_def svc_apply_def svc_bind_def svc_mutate_def
        svc_ret_def r_def)
qed

lemma ends_loaded:
  "svc_ends (load_aggregate i) env (k, s) (\<lambda>e s'. \<not> cmd_applied e \<and> s' = s)
     (\<lambda>c s'. s' = s \<and> stored_campaign i (sv_store s) = Some c)"
proof -
  obtain r k' s' where run: "load_aggregate i env (k, s) = (r, k', s')" by (metis prod_cases3)
  note same = load_aggregate_runs [OF run, THEN conjunct1]
  show ?thesis
  proof (cases r)
    case (Inl e)
    then show ?thesis using run same refusesD [OF refuses_parts(2)] by (simp add: svc_ends_def)
  next
    case (Inr c)
    then show ?thesis using run same load_aggregate_stored [of i env k s c k' s'] by (simp add: svc_ends_def)
  qed
qed

lemma ends_command:
  assumes wf: "ledger_wf (sv_store s)" and stored: "stored_campaign i (sv_store s) = Some c"
  shows "svc_ends (run_command i expected m cmd) env (k, s)
    (\<lambda>r s'. command_outcome cmd i expected c r (sv_store s')) (\<lambda>r s'. command_outcome cmd i expected c r (sv_store s'))"
proof -
  let ?F = "\<lambda>r s'. command_outcome cmd i expected c r (sv_store s')"
  let ?p = "begin_command_payload (command_kind cmd) @ command_arguments cmd"
  have refused: "?F e s'" if "\<not> cmd_applied e \<and> sv_store s' = sv_store s" for e s'
    using that stored by (simp add: command_outcome_def)
  have ask: "svc_ends p env (k', s1) ?F (\<lambda>_ s'. sv_store s' = sv_store s)"
    if "svc_leaves sv_store p" "refuses p" "sv_store s1 = sv_store s" for p :: "(CommandResult, unit) svc" and k' s1
    by (rule svc_ends_mono [OF svc_ends_asks [OF that(1,2)]]) (simp_all add: refused that(3))
  have load: "svc_ends (load_aggregate i) env (k', s1) ?F (\<lambda>c' s'. s' = s1 \<and> c' = c)"
    if "sv_store s1 = sv_store s" for k' s1
    by (rule svc_ends_mono [OF ends_loaded]) (use stored in \<open>simp_all add: refused that\<close>)
  have finish: "svc_ends (case campaign_perform c' (command_operation cmd) of (c', r) \<Rightarrow>
        if \<not> dom_succeeded r then svc_fail (domain_failure r)
        else if may_be_noop cmd \<and> \<not> dom_changed r then persist_accepted_noop i expected m (command_kind cmd) ?p
        else persist_mutation c' expected m (command_kind cmd) ?p (edits_roster cmd) (seals_roster cmd)) env (k', s2) ?F ?F"
    if "sv_store s2 = sv_store s" "c' = c" "c_version c = expected" for k' s2 c'
  proof -
    obtain c1 r where perform: "campaign_perform c (command_operation cmd) = (c1, r)" by fastforce
    have same: "ledger_wf (sv_store s2)" "stored_campaign i (sv_store s2) = Some c" using wf stored that(1) by simp_all
    note persist = ends_persist [OF same _ _ that(3), of cmd c1] and noop = ends_noop [OF same that(3)]
    have "dom_changed (snd (campaign_perform c (command_operation cmd)))"
      if "dom_succeeded r" "\<not> (may_be_noop cmd \<and> \<not> dom_changed r)"
      using that command_changes [of c cmd] perform by auto
    moreover have "svc_ends (svc_fail (domain_failure r)) env (k', s2) ?F ?F"
      unfolding svc_ends_basic by (rule refused) (simp add: that(1))
    moreover have "c1 = fst (campaign_perform c (command_operation cmd))" using perform by simp
    ultimately have "svc_ends (if \<not> dom_succeeded r then svc_fail (domain_failure r)
        else if may_be_noop cmd \<and> \<not> dom_changed r then persist_accepted_noop i expected m (command_kind cmd) ?p
        else persist_mutation c1 expected m (command_kind cmd) ?p (edits_roster cmd) (seals_roster cmd)) env (k', s2) ?F ?F"
      by (intro svc_ends_if persist noop) blast+
    then show ?thesis unfolding that(2) perform prod.case .
  qed
  show ?thesis
    unfolding run_command_common campaign_command_def Let_def
    apply (rule svc_ends_bind [OF ask [OF leaves_fence [OF apart_store] refuses_fence(2) refl]])
    apply (rule svc_ends_bind [OF ask [OF leaves_replay refuses_parts(4)]], assumption)
    apply (rule svc_ends_bind [OF load], assumption)
    apply (rule svc_ends_bind [where G = "\<lambda>_ s'. sv_store s' = sv_store s \<and> c_version c = expected"])
     apply (simp add: refused)
    apply (rule finish; simp)
    done
qed

end
