(* ===== verification/RuntimeRequests.thy ===== *)
theory RuntimeRequests
  imports RuntimeCampaign
begin

text \<open>
  The campaign service as a machine: the requests that reach it and the state after each of them. A
  request for one campaign leaves everything of the others alone, and what the requests keep of the
  service: the activities are those of their campaigns, a recovery acknowledges slots of its committed
  checkpoint only, and no campaign has an active checkpoint and an open recovery at once.
\<close>

section \<open>The requests\<close>

datatype RuntimeRequest =
    RequestCreate CampaignId string "CampaignSlotRecord list"
  | RequestCommand CampaignId StateVersion string RuntimeCommand
  | RequestBeginCheckpoint CampaignId string string "CampaignMemberPresence list"
  | RequestSave RecordSaveCommand
  | RequestFail CampaignId string string CampaignMemberIdentity
  | RequestAbandon CampaignId
  | RequestBeginRecovery BeginRecoveryCommand
  | RequestPrepare CampaignId "CampaignMemberPresence list"
  | RequestLoaded RecoveryLoadedCommand
  | RequestApplied SnapshotAppliedCommand
  | RequestActivity CampaignId
  | RequestLoad CampaignId "CampaignMemberPresence list"

fun request_campaign :: "RuntimeRequest \<Rightarrow> CampaignId" where
  "request_campaign (RequestCreate i m ss) = i"
| "request_campaign (RequestCommand i v m cmd) = i"
| "request_campaign (RequestBeginCheckpoint i k native presence) = i"
| "request_campaign (RequestSave cmd) = rc_campaign cmd"
| "request_campaign (RequestFail i k native actor) = i"
| "request_campaign (RequestAbandon i) = i"
| "request_campaign (RequestBeginRecovery cmd) = bc_campaign cmd"
| "request_campaign (RequestPrepare i presence) = i"
| "request_campaign (RequestLoaded cmd) = lc_campaign cmd"
| "request_campaign (RequestApplied cmd) = sa_campaign cmd"
| "request_campaign (RequestActivity i) = i"
| "request_campaign (RequestLoad i presence) = i"

text \<open>The service after a handler.\<close>

definition svc_after :: "('e, 'a) svc \<Rightarrow> RuntimeEnv \<Rightarrow> RuntimeService \<Rightarrow> RuntimeService" where
  "svc_after m env s = snd (snd (m env (0, s)))"

fun serve :: "RuntimeService \<Rightarrow> RuntimeEnv \<times> RuntimeRequest \<Rightarrow> RuntimeService \<times> unit" where
  "serve s (env, RequestCreate i m ss) = (svc_after (create_lobby_campaign i m ss) env s, ())"
| "serve s (env, RequestCommand i v m cmd) = (svc_after (run_command i v m cmd) env s, ())"
| "serve s (env, RequestBeginCheckpoint i k native presence) = (svc_after (begin_checkpoint i k native presence) env s, ())"
| "serve s (env, RequestSave cmd) = (svc_after (record_checkpoint_save cmd) env s, ())"
| "serve s (env, RequestFail i k native actor) = (svc_after (fail_checkpoint i k native actor) env s, ())"
| "serve s (env, RequestAbandon i) = (svc_after (abandon_checkpoint i :: (unit, unit) svc) env s, ())"
| "serve s (env, RequestBeginRecovery cmd) = (svc_after (begin_recovery cmd) env s, ())"
| "serve s (env, RequestPrepare i presence) = (svc_after (prepare_recovery i presence) env s, ())"
| "serve s (env, RequestLoaded cmd) = (svc_after (record_recovery_loaded cmd) env s, ())"
| "serve s (env, RequestApplied cmd) = (svc_after (record_snapshot_applied cmd) env s, ())"
| "serve s (env, RequestActivity i) = (svc_after (get_recovery_activity i) env s, ())"
| "serve s (env, RequestLoad i presence) = (svc_after (load_service_campaign i presence) env s, ())"

section \<open>What the handlers are made of\<close>

text \<open>
  Everything a handler for campaign \<open>i\<close> does to the service is a mutation of the store for \<open>i\<close>, or a
  change of the activities of \<open>i\<close>. A part of the service that these leave alone is left alone by the
  handler.
\<close>

lemma load_aggregate_id:
  assumes "load_aggregate i env (k, s) = (Inr c, k', s')"
  shows "c_id c = i"
proof -
  obtain p js where load: "answers (load_campaign_projection i server_audience) (sv_store s) = Inr p" "aggregate_of p js = Inr c"
    using load_aggregate_runs [OF assms] by blast
  then have "cr_id (pr_campaign p) = i"
    by (auto simp: answers_projection projection_of_def dest: find_campaign_contents)
  with load(2) show ?thesis
    by (auto simp: aggregate_of_def split: option.splits sum.splits if_splits dest!: decode_canonical_Inr decode_core_facts)
qed

lemma request_campaigns [simp]:
  "amr_campaign (persist_request c v m kind payload replace seal core snap) = c_id c"
  "amr_campaign (record_request i v m kind adv payload) = i"
  "cr_id (ccr_campaign (create_request c m core snap)) = c_id c"
  "ckr_campaign (candidate_request c i k native core) = i"
  "rsr_campaign (save_request cmd save v) = rc_campaign cmd"
  "cmr_campaign (commit_request i k v) = i"
  "rcr_campaign (restore_request a lcmd v core) = lc_campaign lcmd"
  by (simp_all add: persist_request_def record_request_def create_request_def candidate_request_def save_request_def
      commit_request_def restore_request_def)

lemma replace_roster_id: "c_id (fst (replace_roster r c)) = c_id c"
  by (simp add: replace_roster_def advance_version_def Let_def)

lemma perform_id: "c_id (fst (campaign_perform c op)) = c_id c"
  by (cases op)
    (auto simp: replace_roster_id add_slot_def remove_slot_def replace_slot_def commit_start_simps
      transfer_session_manager_def set_ready_def advance_version_def Let_def split: option.splits)

locale handler_frame =
  fixes i :: CampaignId and part :: "RuntimeService \<Rightarrow> 'x"
  assumes part_recoveries: "part (s\<lparr>sv_recoveries := (sv_recoveries s)(i := w)\<rparr>) = part s"
    and part_checkpoints: "part (s\<lparr>sv_checkpoints := (sv_checkpoints s)(i := v)\<rparr>) = part s"
    and part_mutated: "op_campaign op = i \<Longrightarrow> part (s\<lparr>sv_store := snd (store_mutate op env (sv_store s))\<rparr>) = part s"
begin

lemma apart: "apart_from_recovery i part"
  by (simp add: apart_from_recovery_def part_recoveries)

lemma leaves_mutation: "op_campaign op = i \<Longrightarrow> svc_leaves part (svc_mutate op)"
  by (intro leaves_mutate part_mutated)

lemma leaves_activities:
  "svc_leaves part (clear_checkpoint i)" "svc_leaves part (put_recovery i a)" "svc_leaves part (clear_recovery i)"
  "svc_leaves part (svc_put (\<lambda>s. s\<lparr>sv_checkpoints := (sv_checkpoints s)(i := v)\<rparr>))"
  unfolding clear_checkpoint_def put_recovery_def clear_recovery_def
  by (intro leaves_put part_recoveries part_checkpoints)+

lemma leaves_apply: "amr_campaign r = i \<Longrightarrow> svc_leaves part (svc_apply r)"
  unfolding svc_apply_def by (intro leaves_svc leaves_mutation) simp_all

lemma leaves_loaded:
  assumes "\<And>c. c_id c = i \<Longrightarrow> svc_leaves part (h c)"
  shows "svc_leaves part (svc_bind (load_aggregate i) h)"
  unfolding svc_leaves_def
proof (intro allI)
  fix env k s
  obtain r k1 s1 where m: "load_aggregate i env (k, s) = (r, k1, s1)" by (metis prod_cases3)
  with svc_leavesD [OF leaves_aggregate m] assms load_aggregate_id
  show "part (snd (snd (svc_bind (load_aggregate i) h env (k, s)))) = part s"
    by (cases r) (auto simp: svc_bind_def svc_leaves_def)
qed

lemmas handler_rules = leaves_svc apart leaves_mutation leaves_activities leaves_apply leaves_loaded steady_loads steady_cases

lemma leaves_command: "svc_leaves part (run_command i v m cmd)"
proof -
  have finish: "svc_leaves part (case campaign_perform c (command_operation cmd) of (c', r) \<Rightarrow>
        if \<not> dom_succeeded r then svc_fail (domain_failure r)
        else if may_be_noop cmd \<and> \<not> dom_changed r then persist_accepted_noop i v m kind payload
        else persist_mutation c' v m kind payload (edits_roster cmd) (seals_roster cmd))"
    if "c_id c = i" for c kind payload
  proof -
    obtain c' r where perform: "campaign_perform c (command_operation cmd) = (c', r)" by fastforce
    have "c_id c' = i" using perform_id [of c "command_operation cmd"] that perform by simp
    then show ?thesis
      unfolding perform prod.case persist_accepted_noop_def persist_mutation_def
      by (intro leaves_cases leaves_basic leaves_bind leaves_encode leaves_apply) simp_all
  qed
  show ?thesis
    unfolding run_command_common campaign_command_def Let_def
    by (intro leaves_bind leaves_fence apart leaves_replay leaves_loaded leaves_basic finish)
qed

lemma leaves_create: "svc_leaves part (create_lobby_campaign i m ss)"
proof (cases "new_lobby_campaign i (map to_slot_state ss)")
  case (Inl e)
  then show ?thesis by (simp add: create_lobby_campaign_def leaves_basic)
next
  case (Inr c)
  then have "c_id c = i" by (auto simp: new_lobby_campaign_def Let_def split: if_splits)
  then show ?thesis
    unfolding create_lobby_campaign_def Inr sum.case
    by (intro leaves_bind leaves_encode leaves_mutation leaves_basic) simp
qed

lemma leaves_begin_checkpoint: "svc_leaves part (begin_checkpoint i k native presence)"
  unfolding begin_checkpoint_def start_candidate_def Let_def by (intro handler_rules) simp_all

lemma leaves_active: "svc_leaves part (active_checkpoint i)"
  unfolding active_checkpoint_def by (intro handler_rules)

lemma leaves_member: "svc_leaves part (checkpoint_member a i k native actor)"
  unfolding checkpoint_member_def by (intro handler_rules)

lemma leaves_save: "rc_campaign cmd = i \<Longrightarrow> svc_leaves part (record_checkpoint_save cmd)"
  unfolding record_checkpoint_save_def record_save_def commit_when_complete_def save_revision_def Let_def
  by (intro handler_rules leaves_active leaves_member) (simp_all add: handler_rules leaves_active leaves_member)

lemma leaves_fail: "svc_leaves part (fail_checkpoint i k native actor)"
  unfolding fail_checkpoint_def give_up_def by (intro handler_rules leaves_active leaves_member)

lemma leaves_recording: "amr_campaign r = i \<Longrightarrow> svc_leaves part (record_step r)"
  unfolding record_step_def by (intro handler_rules)

lemma leaves_find: "svc_leaves part (find_recovery i)"
  unfolding find_recovery_def by (intro handler_rules)

lemma leaves_read: "steady m \<Longrightarrow> svc_leaves part (recovery_load m)"
  unfolding recovery_load_def by (intro handler_rules)

lemma leaves_put_and_fail: "svc_leaves part (put_and_fail i a r)"
  unfolding put_and_fail_def by (intro handler_rules)

lemma leaves_begin_recovery:
  assumes "bc_campaign cmd = i"
  shows "svc_leaves part (begin_recovery cmd)"
  unfolding begin_recovery_def begin_request_def Let_def assms
  by (intro leaves_bind leaves_basic leaves_find leaves_cases leaves_activities leaves_read steady_loads leaves_error
      leaves_aggregate leaves_recording request_campaigns)

lemma leaves_dispatch: "svc_leaves part (dispatch_native_load i a c)"
  unfolding svc_leaves_def
proof (intro allI)
  fix env k s
  let ?load = "case ra_checkpoint a of Some k \<Rightarrow> load_checkpoint i k | None \<Rightarrow> load_last_committed_checkpoint i"
  have "steady ?load" by (intro steady_cases steady_loads)
  obtain r k1 s1 where load: "svc_load ?load env (k, s) = (r, k1, s1)" by (metis prod_cases3)
  note same = svc_load_steady [OF \<open>steady ?load\<close> load]
    leaves_put_and_fail [unfolded svc_leaves_def, rule_format]
  have put: "svc_leaves part (svc_bind (put_recovery i a) (\<lambda>_. svc_ret x))" for a x
    by (intro leaves_bind leaves_activities leaves_basic)
  note put = put [unfolded svc_leaves_def, rule_format]
  show "part (snd (snd (dispatch_native_load i a c env (k, s)))) = part s"
    using same put by (cases r) (auto simp: dispatch_native_load_def load Let_def)
qed

lemma leaves_prepare: "svc_leaves part (prepare_recovery i presence)"
  unfolding prepare_recovery_def Let_def
  by (intro leaves_bind leaves_basic leaves_find leaves_cases leaves_activities leaves_read steady_loads leaves_error
      leaves_aggregate leaves_put_and_fail leaves_dispatch)

lemma leaves_acknowledged: "svc_leaves part (acknowledged_slot i k actor presence)"
  unfolding acknowledged_slot_def
  by (intro leaves_bind leaves_basic leaves_cases leaves_read steady_loads leaves_error leaves_aggregate)

lemma leaves_restore:
  assumes "lc_campaign cmd = i"
  shows "svc_leaves part (restore_checkpoint a cmd ck r)"
  unfolding restore_checkpoint_def restore_request_def Let_def assms
  by (intro leaves_bind leaves_basic leaves_cases leaves_read steady_loads leaves_error leaves_encode leaves_mutation) simp

lemma leaves_record_loaded:
  assumes "lc_campaign cmd = i"
  shows "svc_leaves part (acknowledge_load a cmd c ck slot)"
  unfolding acknowledge_load_def record_loaded_def pass_first_barrier_def Let_def assms
  by (intro leaves_bind leaves_basic leaves_cases leaves_activities leaves_error leaves_recording leaves_restore assms
      request_campaigns)

lemma leaves_loads:
  assumes "lc_campaign cmd = i"
  shows "svc_leaves part (record_recovery_loaded cmd)"
  unfolding record_recovery_loaded_def Let_def assms
  by (intro leaves_bind leaves_basic leaves_cases leaves_find leaves_acknowledged leaves_put_and_fail
      leaves_record_loaded assms)

lemma leaves_applications:
  assumes "sa_campaign cmd = i"
  shows "svc_leaves part (record_snapshot_applied cmd)"
  unfolding record_snapshot_applied_def completed_recovery_def acknowledge_snapshot_def record_applied_def
    complete_request_def Let_def assms
  by (intro leaves_bind leaves_basic leaves_cases leaves_find leaves_acknowledged leaves_activities leaves_error
      leaves_recording leaves_read steady_loads request_campaigns)

lemma leaves_looks: "svc_leaves part (get_recovery_activity i)" "svc_leaves part (load_service_campaign i presence)"
  unfolding get_recovery_activity_def load_service_campaign_def
  by (intro leaves_bind leaves_basic leaves_error leaves_reconstruct apart leaves_aggregate)+

text \<open>So a request leaves the part alone.\<close>

lemma part_served:
  assumes "request_campaign q = i"
  shows "part (fst (serve s (env, q))) = part s"
  using assms
  by (cases q)
    (simp_all add: svc_after_def abandon_checkpoint_def leaves_activities(1) [unfolded svc_leaves_def, rule_format]
      leaves_command [unfolded svc_leaves_def, rule_format] leaves_create [unfolded svc_leaves_def, rule_format]
      leaves_begin_checkpoint [unfolded svc_leaves_def, rule_format] leaves_save [unfolded svc_leaves_def, rule_format]
      leaves_fail [unfolded svc_leaves_def, rule_format] leaves_begin_recovery [unfolded svc_leaves_def, rule_format]
      leaves_prepare [unfolded svc_leaves_def, rule_format] leaves_loads [unfolded svc_leaves_def, rule_format]
      leaves_applications [unfolded svc_leaves_def, rule_format] leaves_looks [unfolded svc_leaves_def, rule_format])

end

text \<open>Everything of one campaign in the service: its rows, its active checkpoint and its open recovery.\<close>

definition campaign_in_service :: "CampaignId \<Rightarrow> RuntimeService \<Rightarrow> _" where
  "campaign_in_service j s = (campaign_part j (sv_store s), sv_checkpoints s j, sv_recoveries s j)"

definition other_campaigns :: "CampaignId \<Rightarrow> RuntimeService \<Rightarrow> CampaignId \<Rightarrow> _" where
  "other_campaigns i s j = (if j = i then None else Some (campaign_in_service j s))"

interpretation others_served: handler_frame i "other_campaigns i" for i
proof
  fix s op env assume "op_campaign op = i"
  then show "other_campaigns i (s\<lparr>sv_store := snd (store_mutate op env (sv_store s))\<rparr>) = other_campaigns i s"
    using mutation_keeps_others [where op = op and env = env and d = "sv_store s", OF surjective_pairing]
    by (auto simp: other_campaigns_def campaign_in_service_def others_kept_def fun_eq_iff)
qed (simp_all add: other_campaigns_def campaign_in_service_def fun_eq_iff)

lemma served_apart:
  assumes "j \<noteq> request_campaign q"
  shows "campaign_in_service j (fst (serve s (env, q))) = campaign_in_service j s"
  using others_served.part_served [OF refl, where s = s and env = env and q = q] assms
  by (auto simp: other_campaigns_def dest: fun_cong [of _ _ j])

end
