(* ===== verification/StoreOutbox.thy ===== *)
theory StoreOutbox
  imports StoreRestore
begin

text \<open>
  Two more invariants of the campaign store, over all its mutations and deliveries: campaigns have
  different identities, and every message of the outbox comes from a mutation that the journal has.
\<close>

definition outbox_keys :: "Database \<Rightarrow> (string \<times> string) set" where
  "outbox_keys d = (\<lambda>ob. (ob_campaign ob, ob_mutation ob)) ` set (t_outbox d)"

definition tables_wf :: "Database \<Rightarrow> bool" where
  "tables_wf d \<longleftrightarrow> distinct (map cr_id (t_campaigns d)) \<and>
     (\<forall>(i, m) \<in> outbox_keys d. find_journaled i m d \<noteq> None)"

text \<open>What a mutation does to both tables.\<close>

definition outbox_kept :: "string \<Rightarrow> string \<Rightarrow> Database \<Rightarrow> Database \<Rightarrow> bool" where
  "outbox_kept own mut d d' \<longleftrightarrow> (distinct (map cr_id (t_campaigns d)) \<longrightarrow> distinct (map cr_id (t_campaigns d'))) \<and>
     outbox_keys d' \<subseteq> insert (own, mut) (outbox_keys d)"

lemma outbox_same:
  "t_campaigns d' = t_campaigns d \<Longrightarrow> t_outbox d' = t_outbox d \<Longrightarrow> outbox_kept own mut d d'"
  by (auto simp: outbox_kept_def outbox_keys_def)

lemma outbox_rows:
  "insert_slot_row i s d = Inr (n, d') \<Longrightarrow> outbox_kept own mut d d'"
  "delete_slots i d = Inr (n, d') \<Longrightarrow> outbox_kept own mut d d'"
  "delete_build i slot d = Inr (n, d') \<Longrightarrow> outbox_kept own mut d d'"
  "delete_builds i d = Inr (n, d') \<Longrightarrow> outbox_kept own mut d d'"
  "delete_adapter i adapter d = Inr (n, d') \<Longrightarrow> outbox_kept own mut d d'"
  "delete_adapters i d = Inr (n, d') \<Longrightarrow> outbox_kept own mut d d'"
  "upsert_build_row b d = Inr (n, d') \<Longrightarrow> outbox_kept own mut d d'"
  "upsert_adapter_row i a d = Inr (n, d') \<Longrightarrow> outbox_kept own mut d d'"
  "insert_journal j d = Inr (n, d') \<Longrightarrow> outbox_kept own mut d d'"
  "insert_snapshot sn d = Inr (n, d') \<Longrightarrow> outbox_kept own mut d d'"
  "insert_checkpoint ck d = Inr (n, d') \<Longrightarrow> outbox_kept own mut d d'"
  "insert_checkpoint_slot k i s d = Inr (n, d') \<Longrightarrow> outbox_kept own mut d d'"
  "update_checkpoint_slot i k t d = Inr (n, d') \<Longrightarrow> outbox_kept own mut d d'"
  "mark_committed i k v now d = Inr (n, d') \<Longrightarrow> outbox_kept own mut d d'"
  by (auto simp: insert_slot_row_def delete_slots_def delete_build_def delete_builds_def delete_adapter_def
      delete_adapters_def upsert_build_row_def upsert_adapter_row_def insert_journal_def insert_snapshot_def
      insert_checkpoint_def insert_checkpoint_slot_def update_checkpoint_slot_def mark_committed_def Let_def
      intro!: outbox_same split: if_splits)

lemma outbox_messages:
  "supersede_outbox i v d = Inr (n, d') \<Longrightarrow> outbox_kept own mut d d'"
  "insert_outbox ob d = Inr (n, d') \<Longrightarrow> ob_campaign ob = own \<Longrightarrow> ob_mutation ob = mut \<Longrightarrow> outbox_kept own mut d d'"
proof -
  assume run: "supersede_outbox i v d = Inr (n, d')"
  have "map (\<lambda>ob. (ob_campaign ob, ob_mutation ob)) (t_outbox d') = map (\<lambda>ob. (ob_campaign ob, ob_mutation ob)) (t_outbox d)"
    and "t_campaigns d' = t_campaigns d"
    using run by (auto simp: supersede_outbox_def Let_def)
  then have "outbox_keys d' = outbox_keys d" "t_campaigns d' = t_campaigns d"
    unfolding outbox_keys_def set_map [symmetric] by (simp_all only:)
  then show "outbox_kept own mut d d'" by (auto simp: outbox_kept_def)
next
  assume "insert_outbox ob d = Inr (n, d')" "ob_campaign ob = own" "ob_mutation ob = mut"
  then show "outbox_kept own mut d d'"
    by (auto simp: insert_outbox_def outbox_kept_def outbox_keys_def split: if_splits)
qed

lemma outbox_campaigns:
  "(\<And>c. cr_id (f c) = cr_id c) \<Longrightarrow> update_campaign i g f d = Inr (n, d') \<Longrightarrow> outbox_kept own mut d d'"
  "insert_campaign c d = Inr (n, d') \<Longrightarrow> outbox_kept own mut d d'"
proof -
  assume same: "\<And>c. cr_id (f c) = cr_id c" and run: "update_campaign i g f d = Inr (n, d')"
  have "map cr_id (t_campaigns d') = map cr_id (t_campaigns d)"
    using run same by (auto simp: update_campaign_def Let_def split: if_splits)
  then show "outbox_kept own mut d d'"
    using update_campaign_tables(8) [OF run] by (auto simp: outbox_kept_def outbox_keys_def)
next
  assume "insert_campaign c d = Inr (n, d')"
  then show "outbox_kept own mut d d'"
    by (auto simp: insert_campaign_def outbox_kept_def outbox_keys_def find_campaign_def find_None_iff split: if_splits) blast
qed

interpretation outbox: roster_statements "outbox_kept own mut" own mut for own mut
proof (unfold_locales, goal_cases)
  case 1 show ?case by (rule outbox_same) simp_all
next
  case (2 a b c) then show ?case by (auto simp: outbox_kept_def)
qed (erule outbox_rows | (erule outbox_messages; assumption) | erule outbox_messages(1) |
    (erule outbox_campaigns(1) [rotated]; simp) | erule outbox_campaigns(2))+

interpretation outbox: checkpoint_statements "outbox_kept own mut" own mut for own mut
  by unfold_locales (erule outbox_rows)+

lemma mutation_keeps_outbox:
  assumes "store_mutate op env d = (r, d')"
  shows "outbox_kept (op_campaign op) (op_mutation op) d d'"
  by (rule store_mutate_related [where R = "outbox_kept (op_campaign op) (op_mutation op)", OF _ assms])
    (auto intro: outbox_same outbox.keepsD outbox.keeps_create outbox.keeps_apply outbox.keeps_candidate
      outbox.keeps_slot_save_body outbox.keeps_commit outbox.keeps_restore)

lemma tables_wf_mutate:
  assumes "tables_wf d" "store_mutate op env d = (r, d')"
  shows "tables_wf d'"
  using store_mutate_effect [OF assms(2)]
proof
  assume "not_applied r \<and> d' = d"
  then show ?thesis using assms(1) by simp
next
  assume "r = mutation_done (op_result op) (op_advances op) \<and> op_recorded op d d'"
  then obtain j where j: "t_journal d' = t_journal d @ [j]" "jr_campaign j = op_campaign op"
    "jr_mutation j = op_mutation op" by (auto simp: op_recorded_def ledger_def journals_def row_is_def)
  have here: "find_journaled (op_campaign op) (op_mutation op) d' \<noteq> None"
    using j by (auto simp: find_journaled_def find_None_iff)
  have "find_journaled i m d' \<noteq> None" if "(i, m) \<in> outbox_keys d'" for i m
  proof (cases "(i, m) \<in> outbox_keys d")
    case True
    then obtain j' where "find_journaled i m d = Some j'" using assms(1) by (auto simp: tables_wf_def)
    then show ?thesis using j(1) by (simp add: find_journaled_def find_append_Some)
  next
    case False
    then have "(i, m) = (op_campaign op, op_mutation op)"
      using mutation_keeps_outbox [OF assms(2)] that by (auto simp: outbox_kept_def)
    with here show ?thesis by simp
  qed
  then show ?thesis
    using assms(1) mutation_keeps_outbox [OF assms(2)] by (auto simp: tables_wf_def outbox_kept_def)
qed

lemma tables_wf_call: "tables_wf d \<Longrightarrow> tables_wf (fst (store_call d c))"
proof (cases c)
  case (CallMutate op env)
  assume "tables_wf d"
  then show ?thesis using tables_wf_mutate by (cases "store_mutate op env d") (auto simp: CallMutate)
next
  case (CallDeliver i env)
  obtain e d' where run: "mark_outbox_delivered i env d = (e, d')" by (cases "mark_outbox_delivered i env d")
  assume "tables_wf d"
  then show ?thesis
    using deliver_effect [OF run]
    by (auto simp: CallDeliver run tables_wf_def outbox_keys_def find_journaled_def deliver_outbox_def)
qed

interpretation store_tables: op_machine store_call tables_wf
  by unfold_locales (rule tables_wf_call)

lemma tables_wf_empty: "tables_wf empty_database"
  by (simp add: tables_wf_def empty_database_def outbox_keys_def)

lemma tables_wf_run: "tables_wf (store_run calls)"
  unfolding store_run_def by (rule store_tables.run_wf [OF tables_wf_empty])

end
