(* ===== verification/RuntimeInvariants.thy ===== *)
theory RuntimeInvariants
  imports RuntimeRequests StoreOutbox
begin

text \<open>
  What every request keeps of the service. An open recovery of a campaign acknowledges slots of one
  committed checkpoint, applies its snapshot only after all of them have been loaded, and excludes an
  active checkpoint. The proof goes through the handlers with one rule for each of their parts.
\<close>

section \<open>Committed checkpoints\<close>

definition committed_slots :: "CampaignId \<Rightarrow> string \<Rightarrow> Database \<Rightarrow> CheckpointSlotRecord list option" where
  "committed_slots i k d = (case find_checkpoint i k d of None \<Rightarrow> None
     | Some (c, s) \<Rightarrow> if cp_is_committed c then Some (checkpoint_slots_of i k d) else None)"

lemma committed_slots_kept:
  assumes "committed_kept d d'" "committed_slots i k d = Some ss"
  shows "committed_slots i k d' = Some ss"
proof -
  obtain c s where "find_checkpoint i k d = Some (c, s)" "cp_is_committed c" "ss = checkpoint_slots_of i k d"
    using assms(2) by (auto simp: committed_slots_def split: option.splits if_splits)
  then show ?thesis using assms(1) unfolding committed_kept_def committed_slots_def by fastforce
qed

lemma answers_checkpoint:
  assumes "answers (load_checkpoint i k) d = Inr ck"
  shows "ck_id ck = k" "ck_slots ck = checkpoint_slots_of i k d"
    "ck_is_committed ck \<longleftrightarrow> committed_slots i k d = Some (ck_slots ck)"
    "committed_slots i k d = None \<or> committed_slots i k d = Some (ck_slots ck)"
  using assms
  by (auto simp: answers_def load_checkpoint_def sql_bind_def sql_fail_def sql_ret_def query_def quiet_env_def
      committed_slots_def split: option.splits sum.splits if_splits prod.splits)

lemma answers_last_checkpoint:
  assumes "answers (load_last_committed_checkpoint i) d = Inr ck"
  shows "answers (load_checkpoint i (ck_id ck)) d = Inr ck"
proof -
  obtain c where "answers (load_campaign i) d = Inr c" and loaded: "case cr_checkpoint c of None \<Rightarrow> False
      | Some k \<Rightarrow> \<exists>n. fst (load_checkpoint i k quiet_env (n, d)) = Inr ck"
    using assms steady_loads(1) [of i]
    by (auto simp: answers_def load_last_committed_checkpoint_def sql_bind_def sql_fail_def steady_def
        split: prod.splits sum.splits option.splits) (metis snd_conv fst_conv)+
  then obtain k n where k: "fst (load_checkpoint i k quiet_env (n, d)) = Inr ck" by (auto split: option.splits)
  then have "answers (load_checkpoint i k) d = Inr ck"
    using steady_loads(4) [of i k] unfolding steady_def answers_def by blast
  with answers_checkpoint(1) [OF this] show ?thesis by simp
qed

section \<open>The invariant\<close>

definition slot_names :: "CheckpointSlotRecord list \<Rightarrow> string set" where
  "slot_names ss = cs_slot ` set ss"

definition activity_wf :: "CampaignId \<Rightarrow> Database \<Rightarrow> RecoveryActivity \<Rightarrow> bool" where
  "activity_wf i d a \<longleftrightarrow> ra_campaign a = i \<and>
     (if ra_stage a = StageRecoveryLock then ra_loaded a = {||} \<and> ra_applied a = {||}
      else \<exists>k ss. ra_checkpoint a = Some k \<and> committed_slots i k d = Some ss \<and>
        (if ra_stage a = StageApplyingSnapshot
         then ra_restore_revision a \<noteq> None \<and> fset (ra_loaded a) = slot_names ss \<and> fset (ra_applied a) \<subseteq> slot_names ss
         else ra_applied a = {||} \<and> fset (ra_loaded a) \<subseteq> slot_names ss))"

text \<open>The journal opens no recovery.\<close>

definition no_scan :: RecoveryScan where
  "no_scan = \<lparr>sc_open = None, sc_loaded = [], sc_applied = []\<rparr>"

definition journal_idle :: "CampaignId \<Rightarrow> Database \<Rightarrow> bool" where
  "journal_idle i d \<longleftrightarrow> (\<exists>sc. scan_journal i (map strip_digest (rows_of i d)) no_scan = Inr sc \<and> sc_open sc = None)"

definition campaign_inv :: "CampaignId \<Rightarrow> RuntimeService \<Rightarrow> bool" where
  "campaign_inv i s \<longleftrightarrow> ledger_wf (sv_store s) \<and> tables_wf (sv_store s) \<and>
     (\<forall>a. sv_recoveries s i = Some a \<longrightarrow> activity_wf i (sv_store s) a) \<and>
     (\<forall>a. sv_checkpoints s i = Some a \<longrightarrow> ca_campaign a = i \<and> sv_recoveries s i = None \<and> journal_idle i (sv_store s))"

definition service_wf :: "RuntimeService \<Rightarrow> bool" where
  "service_wf s \<longleftrightarrow> (\<forall>i. campaign_inv i s)"

lemma activity_wf_kept: "committed_kept d d' \<Longrightarrow> activity_wf i d a \<Longrightarrow> activity_wf i d' a"
  unfolding activity_wf_def by (meson committed_slots_kept)

text \<open>What the handlers know between two of their steps.\<close>

definition no_checkpoint :: "CampaignId \<Rightarrow> RuntimeService \<Rightarrow> bool" where
  "no_checkpoint i s \<longleftrightarrow> campaign_inv i s \<and> sv_checkpoints s i = None"

definition recovering :: "CampaignId \<Rightarrow> RecoveryActivity \<Rightarrow> RuntimeService \<Rightarrow> bool" where
  "recovering i a s \<longleftrightarrow> no_checkpoint i s \<and> activity_wf i (sv_store s) a"

definition idle :: "CampaignId \<Rightarrow> RuntimeService \<Rightarrow> bool" where
  "idle i s \<longleftrightarrow> campaign_inv i s \<and> sv_recoveries s i = None \<and> journal_idle i (sv_store s)"

lemma knows_inv:
  "no_checkpoint i s \<Longrightarrow> campaign_inv i s" "recovering i a s \<Longrightarrow> campaign_inv i s" "idle i s \<Longrightarrow> campaign_inv i s"
  "recovering i a s \<Longrightarrow> no_checkpoint i s"
  by (simp_all add: no_checkpoint_def recovering_def idle_def)

section \<open>Mutations\<close>

lemma scan_append:
  "scan_journal i (xs @ ys) sc = (case scan_journal i xs sc of Inl e \<Rightarrow> Inl e | Inr sc' \<Rightarrow> scan_journal i ys sc')"
  by (induction xs arbitrary: sc) (auto split: sum.splits)

lemma journal_idle_snoc:
  assumes "journal_idle i d" "rows_of i d' = rows_of i d @ js" "\<forall>j \<in> set js. jr_kind j \<noteq> ''BeginRecovery''"
  shows "journal_idle i d'"
proof -
  have "\<exists>sc'. scan_journal i (map strip_digest js) sc = Inr sc' \<and> sc_open sc' = None"
    if "sc_open sc = None" "\<forall>j \<in> set js. jr_kind j \<noteq> ''BeginRecovery''" for sc js
    using that(2) by (induction js) (auto simp: scan_row_def that(1))
  with assms show ?thesis by (auto simp: journal_idle_def scan_append)
qed

lemma mutation_rows:
  assumes "store_mutate op env d = (r, d')"
  shows "\<exists>js. rows_of i d' = rows_of i d @ js \<and> (\<forall>j \<in> set js. jr_kind j = op_kind op)"
  using store_mutate_effect [OF assms]
proof
  assume "not_applied r \<and> d' = d" then show ?thesis by (intro exI [of _ "[]"]) simp
next
  assume "r = mutation_done (op_result op) (op_advances op) \<and> op_recorded op d d'"
  then obtain j where "t_journal d' = t_journal d @ [j]" "journals op j" by (auto simp: op_recorded_def ledger_def)
  then show ?thesis
    by (intro exI [of _ "filter (\<lambda>j. jr_campaign j = i) [j]"]) (auto simp: rows_of_def journals_def row_is_def)
qed

lemma mutation_knows:
  assumes "store_mutate op env (sv_store s) = (r, d')"
  shows "no_checkpoint i s \<Longrightarrow> no_checkpoint i (s\<lparr>sv_store := d'\<rparr>)"
    "recovering i a s \<Longrightarrow> recovering i a (s\<lparr>sv_store := d'\<rparr>)"
    "op_kind op \<noteq> ''BeginRecovery'' \<Longrightarrow> campaign_inv i s \<Longrightarrow> campaign_inv i (s\<lparr>sv_store := d'\<rparr>)"
    "op_kind op \<noteq> ''BeginRecovery'' \<Longrightarrow> idle i s \<Longrightarrow> idle i (s\<lparr>sv_store := d'\<rparr>)"
proof -
  note committed = activity_wf_kept [OF mutation_keeps_committed [OF assms], of i]
  note ledger = ledger_wf_mutate [OF _ assms] tables_wf_mutate [OF _ assms]
  have idle': "journal_idle i d'" if "journal_idle i (sv_store s)" "op_kind op \<noteq> ''BeginRecovery''"
    using mutation_rows [OF assms, of i] journal_idle_snoc [OF that(1)] that(2) by metis
  show "no_checkpoint i s \<Longrightarrow> no_checkpoint i (s\<lparr>sv_store := d'\<rparr>)"
    and "recovering i a s \<Longrightarrow> recovering i a (s\<lparr>sv_store := d'\<rparr>)"
    using committed ledger by (auto simp: no_checkpoint_def recovering_def campaign_inv_def)
  show "op_kind op \<noteq> ''BeginRecovery'' \<Longrightarrow> campaign_inv i s \<Longrightarrow> campaign_inv i (s\<lparr>sv_store := d'\<rparr>)"
    and "op_kind op \<noteq> ''BeginRecovery'' \<Longrightarrow> idle i s \<Longrightarrow> idle i (s\<lparr>sv_store := d'\<rparr>)"
    using committed ledger idle' by (auto simp: idle_def campaign_inv_def)
qed


section \<open>The rules\<close>

text \<open>
  \<open>runs i P m Q\<close>: from a state with \<open>P\<close>, a part of a handler for campaign \<open>i\<close> returns early with the
  invariant, or goes on with \<open>Q\<close>.
\<close>

definition runs ::
  "CampaignId \<Rightarrow> (RuntimeService \<Rightarrow> bool) \<Rightarrow> ('e, 'a) svc \<Rightarrow> ('a \<Rightarrow> RuntimeService \<Rightarrow> bool) \<Rightarrow> bool" where
  "runs i P m Q \<longleftrightarrow> (\<forall>env k s. P s \<longrightarrow> svc_ends m env (k, s) (\<lambda>_. campaign_inv i) Q)"

lemma runs_bind: "runs i P m Q \<Longrightarrow> (\<And>x. runs i (Q x) (h x) R) \<Longrightarrow> runs i P (svc_bind m h) R"
  unfolding runs_def by (blast intro: svc_ends_bind)

lemma runs_pre: "runs i P m Q \<Longrightarrow> (\<And>s. P' s \<Longrightarrow> P s) \<Longrightarrow> runs i P' m Q"
  unfolding runs_def by blast

lemma runs_post: "runs i P m Q \<Longrightarrow> (\<And>x s. Q x s \<Longrightarrow> Q' x s) \<Longrightarrow> runs i P m Q'"
  unfolding runs_def by (blast intro: svc_ends_mono)

lemma runs_basic:
  "runs i (Q x) (svc_ret x) Q" "(\<And>s. P s \<Longrightarrow> campaign_inv i s) \<Longrightarrow> runs i P (svc_fail e) Q"
  "(\<And>s. P s \<Longrightarrow> campaign_inv i s) \<Longrightarrow> runs i P (svc_require b e) (\<lambda>_ s. P s \<and> b)"
  "runs i P (svc_get f) (\<lambda>x s. P s \<and> x = f s)" "runs i P (svc_env g) (\<lambda>_. P)"
  "(\<And>s. P s \<Longrightarrow> Q' () (u s)) \<Longrightarrow> runs i P (svc_put u) Q'"
  by (simp_all add: runs_def svc_ends_def svc_env_def svc_ret_def svc_fail_def svc_get_def svc_put_def svc_require_def)

lemma runs_cases:
  "(\<And>x. v = Some x \<Longrightarrow> runs i P (f x) Q) \<Longrightarrow> (v = None \<Longrightarrow> runs i P g Q) \<Longrightarrow>
     runs i P (case v of None \<Rightarrow> g | Some x \<Rightarrow> f x) Q"
  "(\<And>x. w = Inl x \<Longrightarrow> runs i P (h x) Q) \<Longrightarrow> (\<And>y. w = Inr y \<Longrightarrow> runs i P (l y) Q) \<Longrightarrow>
     runs i P (case w of Inl x \<Rightarrow> h x | Inr y \<Rightarrow> l y) Q"
  "(b \<Longrightarrow> runs i P m Q) \<Longrightarrow> (\<not> b \<Longrightarrow> runs i P m' Q) \<Longrightarrow> runs i P (if b then m else m') Q"
  by (auto split: option.splits sum.splits)

lemma runs_split: "(\<And>a b. z = (a, b) \<Longrightarrow> runs i P (p a b) Q) \<Longrightarrow> runs i P (case z of (a, b) \<Rightarrow> p a b) Q"
  by (auto split: prod.splits)

lemma runs_error: "runs i P m Q \<Longrightarrow> runs i P (svc_error f m) Q"
  unfolding runs_def svc_ends_def svc_error_def by (fastforce split: prod.splits sum.splits)

lemma runs_load:
  assumes "\<And>s. P s \<Longrightarrow> campaign_inv i s" "steady m"
  shows "runs i P (svc_load m) (\<lambda>x s. P s \<and> answers m (sv_store s) = Inr x)"
  unfolding runs_def
proof (intro allI impI)
  fix env k s assume P: "P s"
  obtain r k' s' where run: "svc_load m env (k, s) = (r, k', s')" by (metis prod_cases3)
  with svc_load_steady [OF assms(2) run] assms(1) [OF P] P
  show "svc_ends (svc_load m) env (k, s) (\<lambda>_. campaign_inv i) (\<lambda>x s. P s \<and> answers m (sv_store s) = Inr x)"
    by (cases r) (auto simp: svc_ends_def)
qed

text \<open>A part that leaves the whole service alone.\<close>

lemma runs_asks:
  assumes "svc_leaves (\<lambda>s. s) m" "\<And>s. P s \<Longrightarrow> campaign_inv i s"
  shows "runs i P m (\<lambda>_. P)"
  unfolding runs_def svc_ends_def
  using assms(2) svc_leavesD [OF assms(1)] by (fastforce split: prod.splits sum.splits)

lemma runs_aggregate: "(\<And>s. P s \<Longrightarrow> campaign_inv i s) \<Longrightarrow> runs i P (load_aggregate j) (\<lambda>_. P)"
  by (intro runs_asks leaves_aggregate)

lemma runs_encode: "(\<And>s. P s \<Longrightarrow> campaign_inv i s) \<Longrightarrow> runs i P (svc_encode x) (\<lambda>_. P)"
  by (intro runs_asks leaves_encode)

lemma runs_replay: "(\<And>s. P s \<Longrightarrow> campaign_inv i s) \<Longrightarrow> runs i P (find_mutation_replay j v m kind payload) (\<lambda>_. P)"
  by (intro runs_asks leaves_replay)

lemma runs_mutate:
  assumes "\<And>s env r d'. store_mutate op env (sv_store s) = (r, d') \<Longrightarrow> P s \<Longrightarrow> P (s\<lparr>sv_store := d'\<rparr>)"
  shows "runs i P (svc_mutate op) (\<lambda>_. P)"
  using assms by (auto simp: runs_def svc_ends_def svc_mutate_def split: prod.splits)

lemma runs_mutations:
  "runs i (no_checkpoint i) (svc_mutate op) (\<lambda>_. no_checkpoint i)"
  "runs i (recovering i a) (svc_mutate op) (\<lambda>_. recovering i a)"
  "op_kind op \<noteq> ''BeginRecovery'' \<Longrightarrow> runs i (campaign_inv i) (svc_mutate op) (\<lambda>_. campaign_inv i)"
  "op_kind op \<noteq> ''BeginRecovery'' \<Longrightarrow> runs i (idle i) (svc_mutate op) (\<lambda>_. idle i)"
  by (intro runs_mutate mutation_knows; assumption)+

lemma runs_apply:
  assumes "runs i P (svc_mutate (OpApply r) :: (CommandResult, MutationResult) svc) (\<lambda>_. P)"
  shows "runs i P (svc_apply r) (\<lambda>_. P)"
  unfolding svc_apply_def by (rule runs_bind [OF assms]) (rule runs_basic(1))

text \<open>Activities.\<close>

lemma runs_put_recovery: "runs i (recovering i a) (put_recovery i a) (\<lambda>_. recovering i a)"
  unfolding put_recovery_def
  by (intro runs_basic(6)) (auto simp: recovering_def no_checkpoint_def campaign_inv_def)

lemma runs_clear_recovery: "runs i (no_checkpoint i) (clear_recovery i) (\<lambda>_. no_checkpoint i)"
  unfolding clear_recovery_def by (intro runs_basic(6)) (auto simp: no_checkpoint_def campaign_inv_def)

lemma runs_clear_checkpoint: "runs i (campaign_inv i) (clear_checkpoint i) (\<lambda>_. no_checkpoint i)"
  unfolding clear_checkpoint_def by (intro runs_basic(6)) (auto simp: no_checkpoint_def campaign_inv_def)

lemma runs_put_and_fail: "runs i (recovering i a) (put_and_fail i a r) Q"
  unfolding put_and_fail_def by (intro runs_bind [OF runs_put_recovery] runs_basic knows_inv)

section \<open>Reconstructing a recovery\<close>

definition at_start :: "CampaignId \<Rightarrow> RecoveryActivity \<Rightarrow> bool" where
  "at_start i a \<longleftrightarrow> ra_campaign a = i \<and> ra_stage a = StageRecoveryLock \<and> ra_loaded a = {||} \<and> ra_applied a = {||}"

lemma at_start_wf: "at_start i a \<Longrightarrow> activity_wf i d a"
  by (simp add: at_start_def activity_wf_def)

lemma scan_row_start:
  assumes "scan_row i j sc = Inr sc'" "\<forall>a. sc_open sc = Some a \<longrightarrow> at_start i a"
  shows "\<forall>a. sc_open sc' = Some a \<longrightarrow> at_start i a"
  using assms
  by (auto simp: scan_row_def scan_open_row_def new_recovery_activity_def at_start_def split: if_splits option.splits)

lemma scan_start:
  "scan_journal i js sc = Inr sc' \<Longrightarrow> \<forall>a. sc_open sc = Some a \<longrightarrow> at_start i a \<Longrightarrow> sc_open sc' = Some a \<Longrightarrow> at_start i a"
  by (induction js arbitrary: sc) (auto split: sum.splits dest: scan_row_start)

lemma receipts_start: "recover_receipts a loaded applied ck = Some a' \<Longrightarrow> at_start i a' = at_start i a"
  by (auto simp: recover_receipts_def at_start_def split: option.splits if_splits)

lemma runs_finish:
  assumes "\<And>a. sc_open sc = Some a \<Longrightarrow> at_start i a" "sc_open sc \<noteq> None"
  shows "runs i (no_checkpoint i) (finish_reconstruction i sc) (\<lambda>_ s. campaign_inv i s \<and> sv_recoveries s i \<noteq> None)"
proof -
  obtain a where a: "sc_open sc = Some a" "at_start i a" using assms by blast
  have put: "runs i (no_checkpoint i) (open_recovery i a') (\<lambda>_ s. campaign_inv i s \<and> sv_recoveries s i \<noteq> None)"
    if "at_start i a'" for a'
    unfolding open_recovery_def
    by (intro runs_basic(6)) (use at_start_wf [OF that] in \<open>auto simp: no_checkpoint_def campaign_inv_def\<close>)
  have receipts: "runs i (no_checkpoint i)
      (let a' = (if ra_checkpoint a = None then a\<lparr>ra_checkpoint := Some (ck_id ck), ra_source_revision := ck_source_revision ck\<rparr> else a)
       in case recover_receipts a' (sc_loaded sc) (sc_applied sc) ck of None \<Rightarrow> svc_fail journal_damaged
        | Some a' \<Rightarrow> open_recovery i a') (\<lambda>_ s. campaign_inv i s \<and> sv_recoveries s i \<noteq> None)" for ck
  proof -
    define a' where "a' = (if ra_checkpoint a = None
      then a\<lparr>ra_checkpoint := Some (ck_id ck), ra_source_revision := ck_source_revision ck\<rparr> else a)"
    have start: "at_start i a'" using a(2) by (simp add: at_start_def a'_def)
    show ?thesis
      unfolding a'_def [symmetric] Let_def
    proof (rule runs_cases(1))
      fix x assume "recover_receipts a' (sc_loaded sc) (sc_applied sc) ck = Some x"
      then show "runs i (no_checkpoint i) (open_recovery i x) (\<lambda>_ s. campaign_inv i s \<and> sv_recoveries s i \<noteq> None)"
        using start receipts_start by (intro put) simp
    qed (rule runs_basic(2), erule knows_inv(1))
  qed
  show ?thesis
    unfolding finish_reconstruction_def a(1) option.case
    apply (rule runs_cases(3))
     apply (rule put [OF a(2)])
    apply (rule runs_bind [OF runs_error [OF runs_load]])
      apply (rule knows_inv(1), assumption)
     apply (intro steady_cases steady_loads)
    apply (rule runs_pre [OF receipts], simp)
    done
qed

lemma journal_always_found: "fst (svc_load (load_journal i) env s) \<noteq> Inl Store_NotFound"
  by (cases s) (auto simp: svc_load_def load_journal_def sql_bind_def sql_fail_def sql_ret_def query_def split: prod.splits)

lemma runs_reconstruct:
  "runs i (campaign_inv i) (reconstruct_recovery i)
     (\<lambda>_ s. campaign_inv i s \<and> (sv_recoveries s i = None \<longrightarrow> journal_idle i (sv_store s)))"
  unfolding runs_def
proof (intro allI impI)
  fix env k s assume inv: "campaign_inv i s"
  let ?G = "\<lambda>_ s. campaign_inv i s \<and> (sv_recoveries s i = None \<longrightarrow> journal_idle i (sv_store s))"
  show "svc_ends (reconstruct_recovery i) env (k, s) (\<lambda>_. campaign_inv i) ?G"
  proof (cases "sv_recoveries s i")
    case (Some a)
    then show ?thesis using inv by (simp add: svc_ends_def reconstruct_recovery_def)
  next
    case None
    obtain r k1 s1 where load: "svc_load (load_journal i) env (k, s) = (r, k1, s1)" by (metis prod_cases3)
    note same = svc_load_steady [OF steady_loads(3) load] and found = journal_always_found [of i env "(k, s)"]
    show ?thesis
    proof (cases r)
      case (Inl e)
      then show ?thesis using same found load inv None by (simp add: svc_ends_def reconstruct_recovery_def)
    next
      case (Inr js)
      have "answers (load_journal i) (sv_store s) = Inr js" using same Inr by simp
      then have js: "js = map strip_digest (rows_of i (sv_store s))"
        using inv by (simp add: campaign_inv_def answers_journal)
      show ?thesis
      proof (cases "scan_journal i js no_scan")
        case (Inl e)
        then show ?thesis using same load Inr inv None by (simp add: svc_ends_def reconstruct_recovery_def no_scan_def)
      next
        case scan: (Inr sc)
        have unfolded: "reconstruct_recovery i env (k, s) = finish_reconstruction i sc env (k1, s)"
          using same load Inr None scan by (simp add: reconstruct_recovery_def no_scan_def)
        show ?thesis
        proof (cases "sc_open sc = None")
          case True
          then have "journal_idle i (sv_store s)" using scan js by (auto simp: journal_idle_def)
          then show ?thesis using True inv unfolded
            by (simp add: svc_ends_def finish_reconstruction_def svc_ret_def)
        next
          case False
          then have "\<not> journal_idle i (sv_store s)" using scan js by (auto simp: journal_idle_def)
          then have "no_checkpoint i s" using inv by (auto simp: no_checkpoint_def campaign_inv_def)
          moreover have "at_start i a" if "sc_open sc = Some a" for a
            by (rule scan_start [OF scan _ that]) (simp add: no_scan_def)
          ultimately have "svc_ends (finish_reconstruction i sc) env (k1, s) (\<lambda>_. campaign_inv i)
              (\<lambda>_ s. campaign_inv i s \<and> sv_recoveries s i \<noteq> None)"
            using runs_finish [OF _ False] unfolding runs_def by blast
          then show ?thesis unfolding svc_ends_def unfolded by (auto split: prod.splits sum.splits)
        qed
      qed
    qed
  qed
qed


section \<open>The handlers keep the invariant\<close>

lemma runs_ret: "(\<And>s. P s \<Longrightarrow> Q x s) \<Longrightarrow> runs i P (svc_ret x) Q"
  by (simp add: runs_def)

abbreviation keeps_campaign :: "CampaignId \<Rightarrow> ('e, 'a) svc \<Rightarrow> bool" where
  "keeps_campaign i m \<equiv> runs i (campaign_inv i) m (\<lambda>_. campaign_inv i)"

lemma runs_fence: "runs i (campaign_inv i) (check_mutation_fence i) (\<lambda>_. idle i)"
  unfolding check_mutation_fence_def
  apply (rule runs_bind [OF runs_basic(4)])
  apply (rule runs_bind [OF runs_basic(3)], simp)
  apply (rule runs_bind [OF runs_pre [OF runs_reconstruct]], simp)
  apply (rule runs_bind [OF runs_basic(4)])
  apply (rule runs_post [OF runs_basic(3)], simp)
  apply (simp add: idle_def)
  done

lemma runs_command: "keeps_campaign i (run_command i v m cmd)"
proof -
  have kind: "command_kind cmd \<noteq> ''BeginRecovery''" by (cases cmd) simp_all
  have apply': "runs i (idle i) (svc_apply r) (\<lambda>_. idle i)" if "amr_kind r = command_kind cmd" for r
    by (intro runs_apply runs_mutations) (simp add: that kind)
  have finish: "runs i (idle i) (case campaign_perform c (command_operation cmd) of (c', r) \<Rightarrow>
        if \<not> dom_succeeded r then svc_fail (domain_failure r)
        else if may_be_noop cmd \<and> \<not> dom_changed r then persist_accepted_noop i v m (command_kind cmd) payload
        else persist_mutation c' v m (command_kind cmd) payload (edits_roster cmd) (seals_roster cmd)) (\<lambda>_. idle i)" for c payload
    unfolding persist_accepted_noop_def persist_mutation_def
    by (intro runs_split runs_cases(3) runs_basic(2) apply' runs_bind [OF runs_encode])
      (auto simp: persist_request_def record_request_def intro: knows_inv(3))
  have "runs i (campaign_inv i) (run_command i v m cmd) (\<lambda>_. idle i)"
    unfolding run_command_common campaign_command_def Let_def
    apply (rule runs_bind [OF runs_fence])
    apply (rule runs_bind [OF runs_replay], erule knows_inv(3))
    apply (rule runs_bind [OF runs_aggregate], erule knows_inv(3))
    apply (rule runs_bind [OF runs_basic(3)], erule knows_inv(3))
    apply (rule runs_pre [OF finish], simp)
    done
  then show ?thesis by (rule runs_post) (rule knows_inv(3))
qed

lemma runs_create: "keeps_campaign i (create_lobby_campaign i m ss)"
  unfolding create_lobby_campaign_def
  by (intro runs_cases(2) runs_basic(2) runs_bind [OF runs_encode] runs_bind [OF runs_mutations(3)] runs_ret) simp_all

lemma runs_begin_checkpoint: "keeps_campaign i (begin_checkpoint i k native presence)"
proof -
  have start: "keeps_campaign i (start_candidate i k native presence)"
    unfolding start_candidate_def Let_def
    apply (rule runs_bind [OF runs_fence])
    apply (rule runs_bind [OF runs_basic(3)], erule knows_inv(3))
    apply (rule runs_bind [OF runs_pre [OF runs_aggregate [where P = "idle i"]]], erule knows_inv(3), simp)
    apply (rule runs_bind [OF runs_basic(3)], erule knows_inv(3))
    apply (rule runs_bind [OF runs_pre [OF runs_encode [where P = "idle i"]]], erule knows_inv(3), simp)
    apply (rule runs_bind [OF runs_mutations(4)], simp)
    apply (rule runs_bind [OF runs_basic(3)], erule knows_inv(3))
    apply (rule runs_bind [OF runs_basic(6) [where Q' = "\<lambda>_. campaign_inv i"]])
     apply (simp add: idle_def campaign_inv_def)
    apply (rule runs_ret, assumption)
    done
  show ?thesis
    unfolding begin_checkpoint_def
    apply (rule runs_bind [OF runs_basic(4)])
    apply (rule runs_bind [OF runs_basic(3)], simp)
    apply (rule runs_bind [OF runs_pre [OF runs_error [OF start]]], simp)
    apply (intro runs_split runs_ret, assumption)
    done
qed

lemma runs_loaded: "steady m \<Longrightarrow> runs i (campaign_inv i) (svc_load m) (\<lambda>_. campaign_inv i)"
  by (rule runs_post [OF runs_load]) simp_all

lemma runs_active: "keeps_campaign i (active_checkpoint i)"
  unfolding active_checkpoint_def
  apply (rule runs_bind [OF runs_reconstruct])
  apply (rule runs_bind [OF runs_basic(4)])
  apply (rule runs_bind [OF runs_basic(3)], simp)
  apply (rule runs_bind [OF runs_basic(4)])
  apply (rule runs_cases(1), rule runs_ret, simp, rule runs_basic(2), simp)
  done

lemma runs_require: "keeps_campaign i (svc_require b e)"
  by (rule runs_post [OF runs_basic(3)]) simp_all

lemma runs_member: "keeps_campaign i (checkpoint_member a i' k native actor)"
  unfolding checkpoint_member_def
  by (intro runs_bind [OF runs_require] runs_bind [OF runs_error [OF runs_loaded]] steady_loads runs_cases(1) runs_ret
      runs_basic(2))

lemma runs_clear: "keeps_campaign i (clear_checkpoint i)"
  by (rule runs_post [OF runs_clear_checkpoint]) (rule knows_inv(1))

lemma runs_revision: "keeps_campaign i (save_revision j m)"
  unfolding save_revision_def
  by (intro runs_bind [OF runs_error [OF runs_loaded]] steady_loads runs_cases(1) runs_ret)

lemma runs_commit: "rc_campaign cmd = i \<Longrightarrow> keeps_campaign i (commit_when_complete a cmd r)"
  unfolding commit_when_complete_def Let_def
  by (simp, intro runs_bind [OF runs_error [OF runs_loaded]] runs_bind [OF runs_basic(5)] runs_cases(3) runs_ret
      runs_bind [OF runs_mutations(3)] runs_bind [OF runs_require] steady_loads)
    (simp_all, intro runs_bind [OF runs_clear] runs_ret, assumption)

lemma runs_record_save: "rc_campaign cmd = i \<Longrightarrow> keeps_campaign i (record_save a cmd)"
  unfolding record_save_def Let_def
  by (intro runs_bind [OF runs_member] runs_bind [OF runs_basic(5)] runs_bind [OF runs_revision]
      runs_bind [OF runs_mutations(3)] runs_bind [OF runs_require] runs_commit) simp_all

lemma runs_save: "rc_campaign cmd = i \<Longrightarrow> keeps_campaign i (record_checkpoint_save cmd)"
  unfolding record_checkpoint_save_def
  by (simp, intro runs_bind [OF runs_error [OF runs_active]] runs_bind [OF runs_error [OF runs_record_save]] runs_split
      runs_ret) simp_all

lemma runs_give_up: "keeps_campaign i (give_up a i k native actor)"
  unfolding give_up_def
  by (intro runs_bind [OF runs_member] runs_bind [OF runs_error [OF runs_loaded]] runs_bind [OF runs_clear] steady_loads
      runs_ret)

lemma runs_fail: "keeps_campaign i (fail_checkpoint i k native actor)"
  unfolding fail_checkpoint_def
  by (intro runs_bind [OF runs_error [OF runs_active]] runs_bind [OF runs_error [OF runs_give_up]] runs_ret)


section \<open>The recovery keeps the invariant\<close>

lemma runs_find:
  "runs i (campaign_inv i) (find_recovery i)
     (\<lambda>a s. sv_recoveries s i = a \<and> (case a of None \<Rightarrow> idle i s | Some a \<Rightarrow> recovering i a s))"
  unfolding find_recovery_def
  apply (rule runs_bind [OF runs_error [OF runs_reconstruct]])
  apply (rule runs_post [OF runs_basic(4)])
  apply (auto simp: idle_def recovering_def no_checkpoint_def campaign_inv_def split: option.splits)
  done

lemma runs_recovery_case:
  assumes "\<And>a. runs i (recovering i a) (f a) Q" "runs i (idle i) g Q"
  shows "runs i (\<lambda>s. sv_recoveries s i = v \<and> (case v of None \<Rightarrow> idle i s | Some a \<Rightarrow> recovering i a s))
    (case v of None \<Rightarrow> g | Some a \<Rightarrow> f a) Q"
  using assms by (cases v) (auto simp: runs_def)

lemma runs_read: "(\<And>s. P s \<Longrightarrow> campaign_inv i s) \<Longrightarrow> steady m \<Longrightarrow>
    runs i P (recovery_load m) (\<lambda>x s. P s \<and> answers m (sv_store s) = Inr x)"
  unfolding recovery_load_def by (intro runs_error runs_load)

lemma runs_read_only: "(\<And>s. P s \<Longrightarrow> campaign_inv i s) \<Longrightarrow> steady m \<Longrightarrow> runs i P (recovery_load m) (\<lambda>_. P)"
  by (rule runs_post [OF runs_read]) simp_all

lemma runs_requires: "(\<And>s. P s \<Longrightarrow> campaign_inv i s) \<Longrightarrow> runs i P (svc_require b e) (\<lambda>_. P)"
  by (rule runs_post [OF runs_basic(3)]) simp_all

lemma runs_step:
  assumes "\<And>s. P s \<Longrightarrow> campaign_inv i s"
    and "runs i P (svc_mutate (OpApply r) :: (CommandResult, MutationResult) svc) (\<lambda>_. P)"
  shows "runs i P (record_step r) (\<lambda>_. P)"
  unfolding record_step_def
  by (rule runs_bind [OF runs_error [OF runs_apply [OF assms(2)]]], rule runs_bind [OF runs_requires [OF assms(1)]], assumption)
    (rule runs_ret, assumption)

text \<open>The parts of an activity that the invariant looks at.\<close>

definition same_barrier :: "RecoveryActivity \<Rightarrow> RecoveryActivity \<Rightarrow> bool" where
  "same_barrier a b \<longleftrightarrow> ra_campaign a = ra_campaign b \<and> ra_stage a = ra_stage b \<and> ra_checkpoint a = ra_checkpoint b \<and>
     ra_restore_revision a = ra_restore_revision b \<and> ra_loaded a = ra_loaded b \<and> ra_applied a = ra_applied b"

lemma recovering_same:
  assumes "same_barrier a b" "recovering i a s"
  shows "recovering i b s"
proof -
  have "ra_campaign b = ra_campaign a" "ra_stage b = ra_stage a" "ra_checkpoint b = ra_checkpoint a"
    "ra_restore_revision b = ra_restore_revision a" "ra_loaded b = ra_loaded a" "ra_applied b = ra_applied a"
    using assms(1) by (simp_all add: same_barrier_def)
  then have "activity_wf i d b = activity_wf i d a" for d
    unfolding activity_wf_def by (simp only:)
  then show ?thesis using assms(2) by (simp add: recovering_def)
qed

lemma same_barrier_updates [simp]:
  "same_barrier a (a\<lparr>ra_reason := x\<rparr>)" "same_barrier a (a\<lparr>ra_durable_loaded := y\<rparr>)"
  "same_barrier a (a\<lparr>ra_durable_applied := y\<rparr>)" "same_barrier a a"
  by (simp_all add: same_barrier_def)

lemma relock_start: "activity_wf i d a \<Longrightarrow> at_start i (relock a b)"
  by (auto simp: activity_wf_def at_start_def relock_def split: if_splits)

lemma runs_begin_recovery:
  assumes "bc_campaign cmd = i"
  shows "keeps_campaign i (begin_recovery cmd)"
proof -
  have again: "runs i (recovering i a) (put_recovery i (relock a b)) (\<lambda>_. campaign_inv i)" for a b
    by (rule runs_post [OF runs_pre [OF runs_put_recovery]])
      (auto simp: recovering_def intro: at_start_wf relock_start knows_inv)
  have first: "runs i (no_checkpoint i) (put_recovery i (new_recovery_activity i v reason)) (\<lambda>_. campaign_inv i)" for v reason
    by (rule runs_post [OF runs_pre [OF runs_put_recovery]], simp add: recovering_def, rule at_start_wf)
      (simp add: at_start_def new_recovery_activity_def, erule knows_inv)
  show ?thesis
    unfolding begin_recovery_def Let_def assms
    apply (rule runs_bind [OF runs_require])
    apply (rule runs_bind [OF runs_find], rule runs_recovery_case)
     apply (rule runs_bind [OF again])
     apply (rule runs_bind [OF runs_read_only], assumption, rule steady_loads)
     apply (rule runs_ret, assumption)
    apply (rule runs_pre [where P = "campaign_inv i"])
     apply (rule runs_bind [OF runs_require])
     apply (rule runs_bind [OF runs_error [OF runs_aggregate]], assumption)
     apply (rule runs_bind [OF runs_require])
     apply (rule runs_bind [OF runs_clear_checkpoint])
     apply (rule runs_bind [OF runs_step], erule knows_inv, rule runs_mutations)
     apply (rule runs_bind [OF first])
     apply (rule runs_ret, assumption)
    apply (simp add: idle_def)
    done
qed

lemma dispatch_wf:
  assumes wf: "activity_wf i d a" and stage: "ra_stage a \<noteq> StageApplyingSnapshot"
    and load: "answers (case ra_checkpoint a of Some k \<Rightarrow> load_checkpoint i k | None \<Rightarrow> load_last_committed_checkpoint i) d = Inr ck"
    and committed: "ck_is_committed ck"
  shows "activity_wf i d ((if ra_stage a = StageRecoveryLock then a\<lparr>ra_loaded := {||}, ra_applied := {||}\<rparr> else a)
    \<lparr>ra_stage := StageLoadingNativeSaves, ra_reason := ReasonNone, ra_checkpoint := Some (ck_id ck),
      ra_source_revision := ck_source_revision ck\<rparr>)"
proof -
  have slots: "committed_slots i (ck_id ck) d = Some (ck_slots ck)"
  proof (cases "ra_checkpoint a")
    case None
    then have "answers (load_checkpoint i (ck_id ck)) d = Inr ck" using load by (simp add: answers_last_checkpoint)
    from answers_checkpoint(3) [OF this] committed show ?thesis by simp
  next
    case (Some k)
    then have "answers (load_checkpoint i k) d = Inr ck" using load by simp
    from answers_checkpoint(1,3) [OF this] committed show ?thesis by simp
  qed
  show ?thesis
  proof (cases "ra_stage a = StageRecoveryLock")
    case True
    then show ?thesis using wf slots by (simp add: activity_wf_def)
  next
    case False
    then obtain k ss where k: "ra_checkpoint a = Some k" "committed_slots i k d = Some ss" "ra_applied a = {||}"
        "fset (ra_loaded a) \<subseteq> slot_names ss" "ra_campaign a = i"
      using wf stage by (auto simp: activity_wf_def)
    then have "ck_id ck = k" using load answers_checkpoint(1) by auto
    with k slots False show ?thesis by (simp add: activity_wf_def)
  qed
qed

lemma runs_dispatch:
  assumes "ra_stage a \<noteq> StageApplyingSnapshot"
  shows "runs i (recovering i a) (dispatch_native_load i a c) (\<lambda>_. campaign_inv i)"
  unfolding runs_def
proof (intro allI impI)
  fix env k s assume rec: "recovering i a s"
  let ?load = "case ra_checkpoint a of Some k \<Rightarrow> load_checkpoint i k | None \<Rightarrow> load_last_committed_checkpoint i"
  let ?a = "\<lambda>ck. (if ra_stage a = StageRecoveryLock then a\<lparr>ra_loaded := {||}, ra_applied := {||}\<rparr> else a)
    \<lparr>ra_stage := StageLoadingNativeSaves, ra_reason := ReasonNone, ra_checkpoint := Some (ck_id ck),
      ra_source_revision := ck_source_revision ck\<rparr>"
  have steady: "steady ?load" by (intro steady_cases steady_loads)
  obtain r k1 s1 where load: "svc_load ?load env (k, s) = (r, k1, s1)" by (metis prod_cases3)
  note same = svc_load_steady [OF steady load]
  have inv: "campaign_inv i s" using rec by (rule knows_inv)
  show "svc_ends (dispatch_native_load i a c) env (k, s) (\<lambda>_. campaign_inv i) (\<lambda>_. campaign_inv i)"
  proof (cases r)
    case (Inl e)
    have "recovering i (a\<lparr>ra_reason := ReasonNoCommittedCheckpoint\<rparr>) s"
      by (rule recovering_same [OF _ rec]) simp
    then have refused: "svc_ends (put_and_fail i (a\<lparr>ra_reason := ReasonNoCommittedCheckpoint\<rparr>) x ::
        RecoveryCommandResult recovery_svc) env (k1, s)
        (\<lambda>_. campaign_inv i) (\<lambda>_. campaign_inv i)" for x
      using runs_put_and_fail [of i "a\<lparr>ra_reason := ReasonNoCommittedCheckpoint\<rparr>" x "\<lambda>_. campaign_inv i"]
      unfolding runs_def by blast
    show ?thesis using same load Inl inv
        refused [of "at_version (c_version c) (cmd_failure NoCommittedCheckpoint Store_None)"]
      by (simp add: svc_ends_def dispatch_native_load_def)
  next
    case (Inr ck)
    then have answer: "answers ?load (sv_store s) = Inr ck" using same by simp
    show ?thesis
    proof (cases "recoverable (sha256 env) c ck")
      case False
      then show ?thesis using same load Inr inv by (simp add: svc_ends_def dispatch_native_load_def)
    next
      case True
      then have "recovering i (?a ck) s"
        using dispatch_wf [OF _ assms answer] rec by (simp add: recovering_def recoverable_def)
      moreover have "runs i (recovering i (?a ck)) (svc_bind (put_recovery i (?a ck)) (\<lambda>_. svc_ret x)) (\<lambda>_. campaign_inv i)"
        for x :: RecoveryCommandResult
        by (rule runs_bind [OF runs_put_recovery]) (rule runs_ret, erule knows_inv)
      ultimately have "svc_ends (svc_bind (put_recovery i (?a ck)) (\<lambda>_. svc_ret x :: RecoveryCommandResult recovery_svc)) env (k1, s)
          (\<lambda>_. campaign_inv i) (\<lambda>_. campaign_inv i)" for x
        unfolding runs_def by blast
      then show ?thesis using same load Inr True by (simp add: svc_ends_def dispatch_native_load_def Let_def)
    qed
  qed
qed

lemma runs_prepare: "keeps_campaign i (prepare_recovery i presence)"
proof -
  have again: "runs i (recovering i a) (put_recovery i (a\<lparr>ra_reason := x\<rparr>)) (\<lambda>_. campaign_inv i)" for a x
    by (rule runs_post [OF runs_pre [OF runs_put_recovery]], erule recovering_same [rotated], simp, erule knows_inv)
  have refuse: "runs i (recovering i a) (put_and_fail i (a\<lparr>ra_reason := x\<rparr>) r) (\<lambda>_. campaign_inv i)" for a x r
    by (rule runs_pre [OF runs_put_and_fail], erule recovering_same [rotated]) simp
  show ?thesis
    unfolding prepare_recovery_def Let_def
    apply (rule runs_bind [OF runs_find], rule runs_recovery_case)
     apply (rule runs_bind [OF runs_error [OF runs_aggregate]], erule knows_inv)
     apply (rule runs_cases(3), rule refuse)
     apply (rule runs_cases(3))
      apply (rule runs_split)
      apply (intro runs_cases(1) runs_bind [OF runs_read_only] steady_loads)
         apply (erule knows_inv)
        apply (rule runs_bind [OF again], rule runs_ret, assumption)
       apply (rule runs_basic(2), erule knows_inv)+
     apply (rule runs_dispatch, assumption)
    apply (rule runs_basic(2), erule knows_inv)
    done
qed


section \<open>The barriers keep the invariant\<close>

text \<open>A recovery whose checkpoint has the slots that the handler loaded.\<close>

definition at_barrier :: "CampaignId \<Rightarrow> string \<Rightarrow> CheckpointSlotRecord list \<Rightarrow> RecoveryActivity \<Rightarrow> RuntimeService \<Rightarrow> bool" where
  "at_barrier i k ss a s \<longleftrightarrow> recovering i a s \<and> ra_stage a \<noteq> StageRecoveryLock \<and> ra_checkpoint a = Some k \<and>
     committed_slots i k (sv_store s) = Some ss"

lemma at_barrier_recovering: "at_barrier i k ss a s \<Longrightarrow> recovering i a s"
  by (simp add: at_barrier_def)

lemmas barrier_inv = at_barrier_recovering [THEN knows_inv(2)]

lemma at_barrier_same: "same_barrier a b \<Longrightarrow> at_barrier i k ss a s \<Longrightarrow> at_barrier i k ss b s"
  using recovering_same [of a b i s] by (simp add: at_barrier_def same_barrier_def)

lemma runs_barrier_mutate: "runs i (at_barrier i k ss a) (svc_mutate op) (\<lambda>_. at_barrier i k ss a)"
  by (rule runs_mutate)
    (auto simp: at_barrier_def mutation_knows committed_slots_kept [OF mutation_keeps_committed])

lemma runs_barrier_put: "runs i (at_barrier i k ss a) (put_recovery i a) (\<lambda>_. at_barrier i k ss a)"
  unfolding put_recovery_def
  by (rule runs_basic(6)) (auto simp: at_barrier_def recovering_def no_checkpoint_def campaign_inv_def)

lemma at_barrier_names:
  assumes "at_barrier i k ss a s"
  shows "fset (ra_loaded a) \<subseteq> slot_names ss" "fset (ra_applied a) \<subseteq> slot_names ss"
    "ra_stage a = StageApplyingSnapshot \<Longrightarrow> fset (ra_loaded a) = slot_names ss \<and> ra_restore_revision a \<noteq> None"
  using assms by (auto simp: at_barrier_def recovering_def activity_wf_def split: if_splits)

text \<open>One more slot of the checkpoint.\<close>

lemma at_barrier_loaded:
  assumes "at_barrier i k ss a s" "ra_stage a \<noteq> StageApplyingSnapshot" "n \<in> slot_names ss"
  shows "at_barrier i k ss (a\<lparr>ra_loaded := finsert n (ra_loaded a)\<rparr>) s"
  using assms by (auto simp: at_barrier_def recovering_def activity_wf_def split: if_splits)

lemma at_barrier_applied:
  assumes "at_barrier i k ss a s" "ra_stage a = StageApplyingSnapshot" "n \<in> slot_names ss"
  shows "at_barrier i k ss (a\<lparr>ra_applied := finsert n (ra_applied a)\<rparr>) s"
  using assms by (auto simp: at_barrier_def recovering_def activity_wf_def split: if_splits)

lemma all_slots:
  assumes "A \<subseteq> slot_names ss" "card A = length ss"
  shows "A = slot_names ss"
proof (rule card_seteq)
  show "card (slot_names ss) \<le> card A" unfolding slot_names_def assms(2) using card_image_le card_length le_trans by blast
qed (use assms(1) in \<open>simp_all add: slot_names_def\<close>)

text \<open>All of them loaded: the snapshot may be applied.\<close>

lemma at_barrier_passed:
  assumes "at_barrier i k ss a s" "fcard (ra_loaded a) = length ss"
  shows "at_barrier i k ss (a\<lparr>ra_stage := StageApplyingSnapshot, ra_reason := ReasonNone, ra_restore_revision := Some v,
    ra_applied := {||}\<rparr>) s"
proof -
  have "fset (ra_loaded a) = slot_names ss"
    using all_slots [OF at_barrier_names(1) [OF assms(1)]] assms(2) by (simp add: fcard.rep_eq)
  then show ?thesis using assms(1) by (auto simp: at_barrier_def recovering_def activity_wf_def)
qed

lemma runs_restore:
  "runs i (at_barrier i k ss a) (restore_checkpoint a' cmd ck r) (\<lambda>_. at_barrier i k ss a)"
  unfolding restore_checkpoint_def Let_def
  by (intro runs_bind [OF runs_read_only] runs_bind [OF runs_error [OF runs_encode]] runs_bind [OF runs_barrier_mutate]
      runs_bind [OF runs_requires] runs_cases(1) runs_cases(2) runs_ret runs_basic(2) barrier_inv steady_loads; assumption?)

lemma runs_acknowledged:
  assumes "\<And>s. P s \<Longrightarrow> campaign_inv i s"
  shows "runs i P (acknowledged_slot i k actor presence)
    (\<lambda>(c, ck, slot) s. P s \<and> answers (load_checkpoint i k) (sv_store s) = Inr ck \<and> slot \<in> set (ck_slots ck))"
  unfolding acknowledged_slot_def
  apply (rule runs_bind [OF runs_error [OF runs_aggregate]], erule assms)
  apply (rule runs_bind [OF runs_requires], erule assms)
  apply (rule runs_bind [OF runs_read], erule assms, rule steady_loads)
  apply (rule runs_cases(1), rule runs_ret, simp, metis find_Some_iff nth_mem)
  apply (rule runs_basic(2), use assms in blast)
  done

lemma at_barrier_acknowledged:
  assumes "recovering i a s" "answers (load_checkpoint i k) (sv_store s) = Inr ck" "ra_checkpoint a = Some k"
    "ra_stage a \<noteq> StageRecoveryLock"
  shows "at_barrier i k (ck_slots ck) a s"
  using assms answers_checkpoint(4) [OF assms(2)] by (auto simp: at_barrier_def recovering_def activity_wf_def)

lemma runs_record_loaded:
  assumes "lc_campaign cmd = i"
  shows "runs i (at_barrier i k ss a) (record_loaded a cmd c ck slot)
    (\<lambda>(a', r) s. at_barrier i k ss a' s \<and> same_barrier a a')"
  unfolding record_loaded_def Let_def assms
proof (rule runs_cases(3))
  let ?a = "a\<lparr>ra_durable_loaded := finsert (cs_slot slot) (ra_durable_loaded a)\<rparr>"
  show "runs i (at_barrier i k ss a) (svc_bind (record_step r) (\<lambda>r. svc_bind (put_recovery i ?a) (\<lambda>_. svc_ret (?a, r))))
      (\<lambda>(a', r) s. at_barrier i k ss a' s \<and> same_barrier a a')" for r
    apply (rule runs_bind [OF runs_step [OF barrier_inv runs_barrier_mutate]], assumption)
    apply (rule runs_bind [OF runs_pre [OF runs_barrier_put]], erule at_barrier_same [rotated], simp)
    apply (rule runs_ret, simp)
    done
qed (rule runs_ret, simp)

lemma runs_acknowledge_load:
  assumes "lc_campaign cmd = i" "slot \<in> set (ck_slots ck)"
  shows "runs i (at_barrier i k (ck_slots ck) a) (acknowledge_load a cmd c ck slot) (\<lambda>_. campaign_inv i)"
proof -
  let ?ss = "ck_slots ck"
  have name: "cs_slot slot \<in> slot_names ?ss" using assms(2) by (simp add: slot_names_def)
  have pass: "runs i (at_barrier i k ?ss b) (pass_first_barrier b cmd ck r) (\<lambda>_. campaign_inv i)"
    if "fcard (ra_loaded b) = length ?ss" for b r
    unfolding pass_first_barrier_def Let_def assms(1)
    apply (rule runs_bind [OF runs_error [OF runs_restore]])
    apply (rule runs_bind [OF runs_pre [OF runs_barrier_put]], erule at_barrier_passed [OF _ that])
    apply (rule runs_ret, erule barrier_inv)
    done
  have load: "runs i (\<lambda>s. at_barrier i k ?ss b s \<and> same_barrier a b) (if ra_stage b = StageApplyingSnapshot then svc_ret x
        else svc_bind (put_recovery i (b\<lparr>ra_loaded := finsert (cs_slot slot) (ra_loaded b)\<rparr>)) (\<lambda>_.
          if fcard (ra_loaded (b\<lparr>ra_loaded := finsert (cs_slot slot) (ra_loaded b)\<rparr>)) \<noteq> length ?ss then svc_ret y
          else pass_first_barrier (b\<lparr>ra_loaded := finsert (cs_slot slot) (ra_loaded b)\<rparr>) cmd ck z)) (\<lambda>_. campaign_inv i)"
    for b x y z
    apply (rule runs_cases(3), rule runs_ret, erule conjE, erule barrier_inv)
    apply (rule runs_bind [OF runs_pre [OF runs_barrier_put]], erule conjE, erule at_barrier_loaded, assumption, rule name)
    apply (rule runs_cases(3), rule runs_ret, erule barrier_inv)
    apply (rule pass, simp)
    done
  show ?thesis
    unfolding acknowledge_load_def Let_def assms(1)
    apply (rule runs_bind [OF runs_record_loaded [OF assms(1)]])
    apply (rule runs_split)
    apply (rule runs_pre [OF load])
    apply simp
    done
qed

lemma runs_acknowledged_load:
  assumes "lc_campaign cmd = i"
  shows "runs i (\<lambda>s. recovering i a s \<and> answers (load_checkpoint i k) (sv_store s) = Inr ck \<and> ra_checkpoint a = Some k \<and>
      ra_stage a \<noteq> StageRecoveryLock \<and> slot \<in> set (ck_slots ck)) (acknowledge_load a cmd c ck slot) (\<lambda>_. campaign_inv i)"
  using runs_acknowledge_load [OF assms, of slot ck k a c] at_barrier_acknowledged [of i a _ k ck]
  unfolding runs_def by blast

lemma runs_split3:
  "(\<And>a b c. runs i (P a b c) (p a b c) Q) \<Longrightarrow>
     runs i (case z of (a, b, c) \<Rightarrow> P a b c) (case z of (a, b, c) \<Rightarrow> p a b c) Q"
  by (cases z) simp

lemma runs_loads:
  assumes "lc_campaign cmd = i"
  shows "keeps_campaign i (record_recovery_loaded cmd)"
  unfolding record_recovery_loaded_def Let_def assms
  apply (rule runs_bind [OF runs_find], rule runs_recovery_case)
   apply (rule runs_bind [OF runs_basic(3)], erule knows_inv)
   apply (rule runs_bind [OF runs_acknowledged], erule conjE, erule knows_inv)
   apply (rule runs_split3)
   apply (rule runs_cases(3))
    apply (rule runs_pre [OF runs_put_and_fail], elim conjE, erule recovering_same [rotated], simp)
   apply (rule runs_bind [OF runs_basic(5)])
   apply (rule runs_bind [OF runs_basic(3)], elim conjE, erule knows_inv)
   apply (rule runs_bind [OF runs_basic(3)], elim conjE, erule knows_inv)
   apply (rule runs_pre [OF runs_acknowledged_load [where k = "lc_checkpoint cmd", OF assms]], simp)
  apply (rule runs_basic(2), erule knows_inv)
  done

lemma runs_record_applied:
  assumes "sa_campaign cmd = i"
  shows "runs i (at_barrier i k ss a) (record_applied a cmd c ck slot)
    (\<lambda>(a', r) s. at_barrier i k ss a' s \<and> same_barrier a a')"
  unfolding record_applied_def Let_def assms
proof (rule runs_cases(3))
  let ?a = "a\<lparr>ra_durable_applied := finsert (cs_slot slot) (ra_durable_applied a)\<rparr>"
  show "runs i (at_barrier i k ss a) (svc_bind (record_step r) (\<lambda>r. svc_bind (put_recovery i ?a) (\<lambda>_. svc_ret (?a, r))))
      (\<lambda>(a', r) s. at_barrier i k ss a' s \<and> same_barrier a a')" for r
    apply (rule runs_bind [OF runs_step [OF barrier_inv runs_barrier_mutate]], assumption)
    apply (rule runs_bind [OF runs_pre [OF runs_barrier_put]], erule at_barrier_same [rotated], simp)
    apply (rule runs_ret, simp)
    done
qed (rule runs_ret, simp)

text \<open>
  The result of an application: completed only when every slot of the checkpoint has been loaded and
  has applied the snapshot.
\<close>

definition application_outcome :: "CampaignId \<Rightarrow> RecoveryCommandResult \<Rightarrow> RuntimeService \<Rightarrow> bool" where
  "application_outcome i r s \<longleftrightarrow> (\<forall>a. rr_completed r \<and> rr_activity r = Some a \<longrightarrow> sv_recoveries s i = None \<and>
     (\<exists>k ss. ra_checkpoint a = Some k \<and> committed_slots i k (sv_store s) = Some ss \<and>
       fset (ra_loaded a) = slot_names ss \<and> fset (ra_applied a) = slot_names ss))"

lemma runs_acknowledge_snapshot:
  assumes "sa_campaign cmd = i" "slot \<in> set (ck_slots ck)" "ra_stage a = StageApplyingSnapshot"
  shows "runs i (at_barrier i k (ck_slots ck) a) (acknowledge_snapshot a cmd c ck slot)
    (\<lambda>r s. campaign_inv i s \<and> application_outcome i r s)"
proof -
  let ?ss = "ck_slots ck"
  have name: "cs_slot slot \<in> slot_names ?ss" using assms(2) by (simp add: slot_names_def)
  let ?done = "\<lambda>b s. no_checkpoint i s \<and> ra_checkpoint b = Some k \<and> committed_slots i k (sv_store s) = Some ?ss \<and>
    fset (ra_loaded b) = slot_names ?ss \<and> fset (ra_applied b) = slot_names ?ss"
  have complete: "?done b s" if "at_barrier i k ?ss b s" "ra_stage b = StageApplyingSnapshot"
      "fcard (ra_applied b) = length ?ss" for b s
    using that(1) at_barrier_names(3) [OF that(1,2)] all_slots [OF at_barrier_names(2) [OF that(1)]] that(3)
    by (simp add: at_barrier_def recovering_def fcard.rep_eq)
  have finish: "runs i (\<lambda>s. at_barrier i k ?ss b s \<and> ra_stage b = StageApplyingSnapshot)
      (if fcard (ra_applied b) \<noteq> length ?ss
       then svc_ret ((recovery_result x)\<lparr>rr_activity := Some b, rr_checkpoint := Some ck\<rparr>)
       else svc_bind (svc_error (with_failure_of b ck) (record_step (complete_request cmd))) (\<lambda>r.
         svc_bind (clear_recovery i) (\<lambda>_. svc_ret ((recovery_result r)
           \<lparr>rr_activity := Some b, rr_checkpoint := Some ck, rr_completed := True\<rparr>))))
      (\<lambda>r s. campaign_inv i s \<and> application_outcome i r s)" for b x
  proof (rule runs_cases(3))
    show "runs i (\<lambda>s. at_barrier i k ?ss b s \<and> ra_stage b = StageApplyingSnapshot)
        (svc_ret ((recovery_result x)\<lparr>rr_activity := Some b, rr_checkpoint := Some ck\<rparr>))
        (\<lambda>r s. campaign_inv i s \<and> application_outcome i r s)"
      by (rule runs_ret) (auto simp: application_outcome_def recovery_result_def intro: barrier_inv)
    assume "\<not> fcard (ra_applied b) \<noteq> length ?ss"
    then have all: "fcard (ra_applied b) = length ?ss" by simp
    have put: "runs i (?done b) (clear_recovery i :: unit recovery_svc) (\<lambda>_ s. ?done b s \<and> sv_recoveries s i = None)"
      unfolding clear_recovery_def
      by (rule runs_basic(6)) (auto simp: no_checkpoint_def campaign_inv_def)
    have step: "runs i (at_barrier i k ?ss b) (svc_error (with_failure_of b ck) (record_step (complete_request cmd)))
        (\<lambda>_. at_barrier i k ?ss b)"
      by (intro runs_error runs_step [OF barrier_inv runs_barrier_mutate])
    show "runs i (\<lambda>s. at_barrier i k ?ss b s \<and> ra_stage b = StageApplyingSnapshot)
        (svc_bind (svc_error (with_failure_of b ck) (record_step (complete_request cmd))) (\<lambda>r.
         svc_bind (clear_recovery i) (\<lambda>_. svc_ret ((recovery_result r)
           \<lparr>rr_activity := Some b, rr_checkpoint := Some ck, rr_completed := True\<rparr>))))
        (\<lambda>r s. campaign_inv i s \<and> application_outcome i r s)"
    proof (cases "ra_stage b = StageApplyingSnapshot")
      case True
      show ?thesis
        apply (rule runs_bind [OF runs_pre [OF step]], erule conjunct1)
        apply (rule runs_bind [OF runs_pre [OF put]], rule complete, assumption, rule True, rule all)
        apply (rule runs_ret)
        apply (auto simp: application_outcome_def no_checkpoint_def)
        done
    qed (simp add: runs_def)
  qed
  have apply': "runs i (\<lambda>s. at_barrier i k ?ss b s \<and> same_barrier a b)
      (svc_bind (put_recovery i (b\<lparr>ra_applied := finsert (cs_slot slot) (ra_applied b)\<rparr>)) (\<lambda>_.
        if fcard (ra_applied (b\<lparr>ra_applied := finsert (cs_slot slot) (ra_applied b)\<rparr>)) \<noteq> length ?ss
        then svc_ret ((recovery_result x)\<lparr>rr_activity := Some (b\<lparr>ra_applied := finsert (cs_slot slot) (ra_applied b)\<rparr>),
          rr_checkpoint := Some ck\<rparr>)
        else svc_bind (svc_error (with_failure_of (b\<lparr>ra_applied := finsert (cs_slot slot) (ra_applied b)\<rparr>) ck)
            (record_step (complete_request cmd))) (\<lambda>r.
          svc_bind (clear_recovery i) (\<lambda>_. svc_ret ((recovery_result r)
            \<lparr>rr_activity := Some (b\<lparr>ra_applied := finsert (cs_slot slot) (ra_applied b)\<rparr>), rr_checkpoint := Some ck,
              rr_completed := True\<rparr>)))))
      (\<lambda>r s. campaign_inv i s \<and> application_outcome i r s)" for b x
  proof (cases "ra_stage b = StageApplyingSnapshot")
    case True
    show ?thesis
      apply (rule runs_bind [OF runs_pre [OF runs_barrier_put]], erule conjE, erule at_barrier_applied, rule True, rule name)
      apply (rule runs_pre [OF finish], simp add: True)
      done
  qed (use assms(3) in \<open>simp add: runs_def same_barrier_def\<close>)
  show ?thesis
    unfolding acknowledge_snapshot_def Let_def assms(1)
    apply (rule runs_bind [OF runs_record_applied [OF assms(1)]])
    apply (rule runs_split)
    apply (rule runs_pre [OF apply'])
    apply simp
    done
qed

lemma runs_acknowledged_snapshot:
  assumes "sa_campaign cmd = i"
  shows "runs i (\<lambda>s. recovering i a s \<and> answers (load_checkpoint i k) (sv_store s) = Inr ck \<and> ra_checkpoint a = Some k \<and>
      ra_stage a = StageApplyingSnapshot \<and> slot \<in> set (ck_slots ck)) (acknowledge_snapshot a cmd c ck slot)
    (\<lambda>r s. campaign_inv i s \<and> application_outcome i r s)"
  using runs_acknowledge_snapshot [OF assms, of slot ck a k c] at_barrier_acknowledged [of i a _ k ck]
  unfolding runs_def by auto

lemma runs_completed: "keeps_campaign i (completed_recovery cmd)"
  unfolding completed_recovery_def
  by (intro runs_bind [OF runs_read_only] runs_bind [OF runs_require] runs_cases(1) runs_ret runs_basic(2) steady_loads)

lemma runs_completed_outcome:
  "runs i (campaign_inv i) (completed_recovery cmd) (\<lambda>r s. campaign_inv i s \<and> application_outcome i r s)"
  unfolding completed_recovery_def
  by (intro runs_bind [OF runs_read_only] runs_bind [OF runs_require] runs_cases(1) runs_ret runs_basic(2) steady_loads)
    (simp_all add: application_outcome_def recovery_result_def)

lemma runs_applications:
  assumes "sa_campaign cmd = i"
  shows "runs i (campaign_inv i) (record_snapshot_applied cmd) (\<lambda>r s. campaign_inv i s \<and> application_outcome i r s)"
  unfolding record_snapshot_applied_def Let_def assms
  apply (rule runs_bind [OF runs_find], rule runs_recovery_case)
   apply (rule runs_bind [OF runs_basic(3)], erule knows_inv)
   apply (rule runs_bind [OF runs_acknowledged], erule conjE, erule knows_inv)
   apply (rule runs_split3)
   apply (rule runs_pre [OF runs_acknowledged_snapshot [where k = "sa_checkpoint cmd", OF assms]], simp)
  apply (rule runs_pre [OF runs_completed_outcome], erule knows_inv)
  done

lemma runs_looks: "keeps_campaign i (get_recovery_activity i)" "keeps_campaign i (load_service_campaign i presence)"
  unfolding get_recovery_activity_def load_service_campaign_def
   apply (rule runs_bind [OF runs_error [OF runs_reconstruct]])
   apply (rule runs_post [OF runs_basic(4)], simp)
  apply (rule runs_bind [OF runs_aggregate], assumption)
  apply (rule runs_bind [OF runs_reconstruct])
  apply (rule runs_bind [OF runs_basic(4)])
  apply (rule runs_ret, simp)
  done

section \<open>The invariant of the service\<close>

lemma runs_after: "runs i P m (\<lambda>_. campaign_inv i) \<Longrightarrow> P s \<Longrightarrow> campaign_inv i (svc_after m env s)"
  unfolding runs_def svc_ends_def svc_after_def
  by (cases "m env (0, s)"; cases "fst (m env (0, s))") (use prod.collapse in \<open>force split: prod.splits sum.splits\<close>)+

lemma request_keeps_campaign:
  assumes "campaign_inv (request_campaign q) s"
  shows "campaign_inv (request_campaign q) (fst (serve s (env, q)))"
proof (cases q)
  case (RequestApplied cmd)
  have "keeps_campaign (sa_campaign cmd) (record_snapshot_applied cmd)"
    by (rule runs_post [OF runs_applications]) simp_all
  then show ?thesis using assms by (simp add: RequestApplied runs_after)
qed (use assms in \<open>simp_all add: abandon_checkpoint_def runs_after [OF runs_create] runs_after [OF runs_command]
    runs_after [OF runs_begin_checkpoint] runs_after [OF runs_save [OF refl]] runs_after [OF runs_fail]
    runs_after [OF runs_clear] runs_after [OF runs_begin_recovery [OF refl]] runs_after [OF runs_prepare]
    runs_after [OF runs_loads [OF refl]] runs_after [OF runs_looks(1)] runs_after [OF runs_looks(2)]\<close>)

text \<open>The invariant of the other campaigns rests on what a request leaves alone.\<close>

lemma find_within: "(\<And>x. P x \<Longrightarrow> Q x) \<Longrightarrow> find P xs = find P (filter Q xs)"
  by (induction xs) auto

lemma filter_within: "(\<And>x. P x \<Longrightarrow> Q x) \<Longrightarrow> filter P xs = filter P (filter Q xs)"
  by (induction xs) auto

lemma committed_slots_part:
  assumes "campaign_part j d' = campaign_part j d"
  shows "committed_slots j k d' = committed_slots j k d"
proof -
  have c: "find (\<lambda>c. cp_campaign c = j \<and> cp_id c = k) (t_checkpoints d) =
      find (\<lambda>c. cp_campaign c = j \<and> cp_id c = k) (filter (\<lambda>c. cp_campaign c = j) (t_checkpoints d))" for d
    by (rule find_within) simp
  have s: "find (\<lambda>s. sn_campaign s = j \<and> sn_id s = n) (t_snapshots d) =
      find (\<lambda>s. sn_campaign s = j \<and> sn_id s = n) (filter (\<lambda>s. sn_campaign s = j) (t_snapshots d))" for d n
    by (rule find_within) simp
  have slots: "filter (\<lambda>(x, s). x = (k, j)) (t_checkpoint_slots d) =
      filter (\<lambda>(x, s). x = (k, j)) (filter (\<lambda>((i, c), s). c = j) (t_checkpoint_slots d))" for d
    by (rule filter_within) auto
  have "find_checkpoint j k d' = find_checkpoint j k d" "checkpoint_slots_of j k d' = checkpoint_slots_of j k d"
    using assms unfolding find_checkpoint_def find_snapshot_def checkpoint_slots_of_def campaign_part_def
    by (simp_all add: c s slots cong: option.case_cong)
  then show ?thesis unfolding committed_slots_def by (simp only:)
qed

lemma other_campaign_inv:
  assumes "campaign_in_service j s' = campaign_in_service j s" "ledger_wf (sv_store s')" "tables_wf (sv_store s')"
    and "campaign_inv j s"
  shows "campaign_inv j s'"
proof -
  have part: "campaign_part j (sv_store s') = campaign_part j (sv_store s)"
    and same: "sv_checkpoints s' j = sv_checkpoints s j" "sv_recoveries s' j = sv_recoveries s j"
    using assms(1) by (simp_all add: campaign_in_service_def)
  have "rows_of j (sv_store s') = rows_of j (sv_store s)" using part by (simp add: campaign_part_def)
  then have "journal_idle j (sv_store s') = journal_idle j (sv_store s)" by (simp add: journal_idle_def)
  moreover have "activity_wf j (sv_store s') a = activity_wf j (sv_store s) a" for a
    by (simp add: activity_wf_def committed_slots_part [OF part])
  ultimately show ?thesis using assms(2-4) same by (simp add: campaign_inv_def)
qed

lemma request_keeps_service: "service_wf s \<Longrightarrow> service_wf (fst (serve s x))"
proof -
  assume wf: "service_wf s"
  obtain env q where x: "x = (env, q)" by fastforce
  have own: "campaign_inv (request_campaign q) (fst (serve s (env, q)))"
    using wf by (intro request_keeps_campaign) (simp add: service_wf_def)
  have "campaign_inv j (fst (serve s (env, q)))" if "j \<noteq> request_campaign q" for j
    by (rule other_campaign_inv [OF served_apart [OF that]])
      (use own wf in \<open>simp_all add: campaign_inv_def service_wf_def\<close>)
  with own show ?thesis unfolding service_wf_def x by metis
qed

interpretation service_machine: op_machine serve service_wf
  by unfold_locales (rule request_keeps_service)

lemma new_service_wf: "ledger_wf d \<Longrightarrow> tables_wf d \<Longrightarrow> service_wf (new_service d)"
  by (simp add: service_wf_def campaign_inv_def new_service_def)

end
