(* ===== verification/RuntimeCreation.thy ===== *)
theory RuntimeCreation
  imports RuntimeCampaign
begin

text \<open>
  The creation of a lobby: what the store's creation leaves of a campaign it did not know, and that it
  is then the campaign that the service loads.
\<close>

section \<open>What a creation leaves\<close>

definition created_record :: "CreateCampaignRequest \<Rightarrow> u64 \<Rightarrow> CampaignRecord" where
  "created_record r now = (ccr_campaign r)\<lparr>cr_schema_version := kCampaignDatabaseSchemaVersion, cr_revision := 1,
     cr_checkpoint := None, cr_created := if cr_created (ccr_campaign r) \<noteq> 0 then cr_created (ccr_campaign r) else now,
     cr_updated := now\<rparr>"

definition created_in :: "CreateCampaignRequest \<Rightarrow> u64 \<Rightarrow> Database \<Rightarrow> Database \<Rightarrow> bool" where
  "created_in r now d d' \<longleftrightarrow> (let i = cr_id (ccr_campaign r) in
     \<exists>j. view i d' = ((Some (created_record r now), slots_of i d @ ccr_slots r, builds_of i d, adapters_of i d),
         rows_of i d @ [j]) \<and>
       journal_entry i (ccr_mutation r) 0 1 ''CreateCampaign'' (ccr_codec_version r) (ccr_payload r) None None j)"

lemma ends_create_view:
  assumes "ccr_builds r = []" "ccr_adapters r = []"
  shows "ends (create_body r g now) env (n, d) (\<lambda>_ d'. created_in r now d d')"
proof -
  let ?i = "cr_id (ccr_campaign r)"
  have insert: "ends (with_error (f :: StepFailure \<Rightarrow> StoreError) (change (insert_campaign (created_record r now)))) env (n, d)
      (\<lambda>_ d'. view ?i d' = ((Some (created_record r now), slots_of ?i d, builds_of ?i d, adapters_of ?i d), rows_of ?i d))" for f
    by (auto simp: sql_wp insert_campaign_def view_def contents_def rows_of_def find_campaign_def find_snoc slots_of_def
        builds_of_def adapters_of_def created_record_def split: sum.splits if_splits option.splits)
  show ?thesis
    unfolding create_body_def Let_def assms sql_each.simps sql_bind_ret created_record_def [symmetric]
    apply (rule ends_bind [OF insert])
    apply (rule ends_bind [OF ends_insert_slots])
    apply (rule ends_bind [OF ends_inject])
    apply (rule ends_mono [OF ends_record_view [OF outbox_leaves_view]])
    apply (auto simp: created_in_def Let_def view_def contents_def)
    done
qed

lemma create_effect:
  assumes "store_mutate (OpCreate r) env d = (result, d')" "ccr_builds r = []" "ccr_adapters r = []"
  shows "(not_applied result \<and> d' = d) \<or>
    (validate_create r = Store_None \<and> result = mutation_done 1 True \<and> created_in r (env_now env) d d')"
proof (cases "validate_create r = Store_None \<and> fst (encode_snapshot (create_projection r)) = Store_None")
  case True
  let ?body = "\<lambda>g. and_return (create_body r g (env_now env)) (mutation_done 1 True)"
  obtain g where run: "run_mutation (cr_id (ccr_campaign r)) (ccr_mutation r) g (?body g) env d = (result, d')"
    using assms(1) True by (auto simp: create_campaign_def Let_def split: prod.splits)
  have good: "ends (?body g) env (n, d) (\<lambda>r' d'. r' = mutation_done 1 True \<and> created_in r (env_now env) d d')" for n
    unfolding and_return_def
    by (rule ends_bind [OF ends_create_view [OF assms(2,3), THEN ends_or_fail [THEN iffD2]]]) (simp add: sql_wp)
  have "fails_with not_applied (?body g)"
    unfolding and_return_def by (intro fails_with_applied create_fails)
  from run_mutation_effect [OF this good run] True show ?thesis by simp
next
  case False
  then show ?thesis using assms(1) by (auto simp: create_campaign_def Let_def split: prod.splits if_splits)
qed

section \<open>The created campaign\<close>

lemma accepted_create:
  assumes "validate_create r = Store_None"
  shows "is_valid_identifier (cr_id (ccr_campaign r))" "is_valid_identifier (ccr_mutation r)"
    "is_valid_payload (ccr_payload r)" "list_all slot_record_valid (ccr_slots r)"
    "is_valid_payload (cr_payload (ccr_campaign r))"
proof -
  have v: "\<forall>e \<in> {first_error [validate_common_mutation (cr_id (ccr_campaign r)) 0 (ccr_mutation r) ''CreateCampaign''
      (ccr_codec_version r) (ccr_payload r) (ccr_outbox r)], validate_slot_records (ccr_slots r),
      reject_if (cr_schema_version (ccr_campaign r) \<noteq> kCampaignDatabaseSchemaVersion \<or>
        cr_codec_version (ccr_campaign r) = 0 \<or> \<not> is_valid_payload (cr_payload (ccr_campaign r)))}. e = Store_None"
    using assms unfolding validate_create_def first_error_None by simp
  then have "validate_common_mutation (cr_id (ccr_campaign r)) 0 (ccr_mutation r) ''CreateCampaign''
      (ccr_codec_version r) (ccr_payload r) (ccr_outbox r) = Store_None"
    using first_error_None [of "[validate_common_mutation (cr_id (ccr_campaign r)) 0 (ccr_mutation r) ''CreateCampaign''
      (ccr_codec_version r) (ccr_payload r) (ccr_outbox r)]"] by auto
  then show "is_valid_identifier (cr_id (ccr_campaign r))" "is_valid_identifier (ccr_mutation r)"
    "is_valid_payload (ccr_payload r)"
    by (auto simp: validate_common_mutation_def split: if_splits)
  have "validate_slot_records (ccr_slots r) = Store_None" using v by simp
  then show "list_all slot_record_valid (ccr_slots r)"
    by (auto simp: validate_slot_records_def split: if_splits intro: validate_records_valid)
  show "is_valid_payload (cr_payload (ccr_campaign r))" using v by (auto simp: reject_if_def split: if_splits)
qed

text \<open>Nothing of the campaign is in the store.\<close>

definition unknown_campaign :: "CampaignId \<Rightarrow> Database \<Rightarrow> bool" where
  "unknown_campaign i d \<longleftrightarrow> view i d = ((None, [], [], []), [])"

lemma created_stored:
  assumes r_def: "r = create_request c m core snap" and wf: "ledger_wf d'"
    and fresh: "unknown_campaign (c_id c) d"
    and created: "created_in r now d d'" and accepted: "validate_create r = Store_None"
    and encoded: "encode_core_state c [] = (Store_None, core)"
    and c: "canonical_roster (c_roster c)" "c_version c = 1" "\<not> c_sealed c"
  shows "stored_campaign (c_id c) d' = Some c"
proof -
  let ?i = "c_id c"
  have fields: "cr_id (ccr_campaign r) = ?i" "ccr_mutation r = m" "ccr_codec_version r = 1"
    "ccr_slots r = to_roster_records c" "cr_payload (ccr_campaign r) = core"
    "cr_codec_version (ccr_campaign r) = kCampaignCoreCodecVersion" "cr_sealed (ccr_campaign r) = False"
    by (simp_all add: r_def create_request_def)
  have old: "slots_of ?i d = []" "builds_of ?i d = []" "adapters_of ?i d = []" "rows_of ?i d = []"
    using fresh by (simp_all add: unknown_campaign_def view_def contents_def)
  let ?row = "created_record r now" and ?ss = "to_roster_records c"
  from created obtain j where view: "view ?i d' = ((Some ?row, ?ss, [], []), [j])"
    and entry: "journal_entry ?i m 0 1 ''CreateCampaign'' 1 (ccr_payload r) None None j"
    unfolding created_in_def Let_def fields old by auto
  note valid = accepted_create [OF accepted, unfolded fields]
  have row: "record_valid ?row"
    using valid(5) by (simp add: record_valid_def created_record_def fields kMaximumRevision_def
        kCampaignDatabaseSchemaVersion_def kCampaignCoreCodecVersion_def)
  have j: "journal_row_valid j"
    using journal_entry_valid [OF entry valid(2) _ _ valid(3)] by (simp add: kMaximumKindLength_def)
  have produces: "produces_core_state (strip_digest j)"
    using entry by (simp add: produces_core_state_def journal_entry_def)
  have "mset (sort_key rec_slot ?ss) = mset (map slot_record (c_roster c))" by (simp add: to_roster_records_def)
  from decode_encoded_core [OF encoded c(1) this]
  have decoded: "decode_core_state (cr_id ?row) (cr_sealed ?row) (sort_key rec_slot ?ss) 1 (cr_payload ?row) = Inr c"
    using c(2,3) by (simp add: created_record_def fields)
  let ?p = "projection_of ?row ?ss [] []"
  have "answers (load_campaign_projection ?i server_audience) d' = Inr ?p"
    using view valid(1,4) row by (auto simp: answers_projection view_def)
  moreover have "answers (load_journal ?i) d' = Inr (map strip_digest [j])"
    using view valid(1) j by (simp add: answers_journal [OF wf] view_def)
  moreover have "aggregate_of ?p (map strip_digest [j]) = Inr c"
    using produces decoded entry c(2) fields(6)
    by (cases c) (simp add: aggregate_of_def projection_of_def decode_canonical_core_state_def journal_entry_def created_record_def)
  ultimately show ?thesis unfolding stored_campaign_iff by blast
qed

lemma ends_encode:
  "svc_ends (svc_encode res) env (k, s) (\<lambda>e s'. \<not> cmd_applied e \<and> s' = s) (\<lambda>p s'. s' = s \<and> res = (Store_None, p))"
  by (auto simp: svc_encode_def svc_ends_def svc_bind_def svc_require_def svc_ret_def svc_fail_def split: prod.split)

lemma ends_created:
  assumes wf: "ledger_wf (sv_store s)" and fresh: "unknown_campaign i (sv_store s)"
  shows "svc_ends (create_lobby_campaign i m ss) env (k, s) (\<lambda>r s'. \<not> cmd_applied r \<and> s' = s)
    (\<lambda>r s'. if cmd_applied r then cmd_error r = NoCampaignError \<and> cmd_version r = 1 \<and>
        Inr (the (stored_campaign i (sv_store s'))) = new_lobby_campaign i (map to_slot_state ss) \<and>
        stored_campaign i (sv_store s') \<noteq> None
      else sv_store s' = sv_store s)"
proof (cases "new_lobby_campaign i (map to_slot_state ss)")
  case (Inl e)
  then show ?thesis by (simp add: create_lobby_campaign_def)
next
  case (Inr c)
  have c: "c_id c = i" "canonical_roster (c_roster c)" "c_version c = 1" "\<not> c_sealed c"
    using Inr new_lobby_wf [OF Inr] by (auto simp: new_lobby_campaign_def campaign_wf_def Let_def split: if_splits)
  let ?Q = "\<lambda>r s'. if cmd_applied r then cmd_error r = NoCampaignError \<and> cmd_version r = 1 \<and>
      stored_campaign i (sv_store s') = Some c else sv_store s' = sv_store s"
  have mutate: "svc_ends (svc_bind (svc_mutate (OpCreate (create_request c m core snap)))
      (\<lambda>r. svc_ret (from_mutation_result r))) env (k', s) (\<lambda>r s'. \<not> cmd_applied r \<and> s' = s) ?Q"
    if core: "encode_core_state c [] = (Store_None, core)" for k' core snap
  proof -
    define r where "r = create_request c m core snap"
    obtain x d' where run: "store_mutate (OpCreate r) (call_env env k') (sv_store s) = (x, d')"
      by (cases "store_mutate (OpCreate r) (call_env env k') (sv_store s)")
    have none: "ccr_builds r = []" "ccr_adapters r = []" by (simp_all add: r_def create_request_def)
    from create_effect [OF run none] have "?Q (from_mutation_result x) (s\<lparr>sv_store := d'\<rparr>)"
    proof
      assume "not_applied x \<and> d' = sv_store s"
      then show ?thesis by (simp add: from_not_applied)
    next
      assume created: "validate_create r = Store_None \<and> x = mutation_done 1 True \<and>
        created_in r (env_now (call_env env k')) (sv_store s) d'"
      have "stored_campaign i d' = Some c"
        using created_stored [OF r_def ledger_wf_mutate [OF wf run], where d = "sv_store s"
            and now = "env_now (call_env env k')", OF _ _ _ core c(2-4)] created fresh c(1) by blast
      then show ?thesis using created
        by (simp add: from_mutation_result_def mutation_done_def cmd_ok_def)
    qed
    then show ?thesis
      using run by (auto simp: svc_ends_def svc_bind_def svc_mutate_def svc_ret_def r_def split: if_splits)
  qed
  have after: "svc_ends (svc_bind (svc_encode (encode_snapshot_intent c [])) (\<lambda>snapshot.
      svc_bind (svc_mutate (OpCreate (create_request c m core snapshot))) (\<lambda>r. svc_ret (from_mutation_result r))))
      env (k', s) (\<lambda>r s'. \<not> cmd_applied r \<and> s' = s) ?Q" if "encode_core_state c [] = (Store_None, core)" for k' core
    by (rule svc_ends_bind [OF ends_encode], elim conjE, hypsubst, rule mutate [OF that])
  have "svc_ends (create_lobby_campaign i m ss) env (k, s) (\<lambda>r s'. \<not> cmd_applied r \<and> s' = s) ?Q"
    unfolding create_lobby_campaign_def Inr sum.case
    by (rule svc_ends_bind [OF ends_encode], elim conjE, hypsubst, rule after)
  then show ?thesis by (rule svc_ends_mono) (auto simp: Inr split: if_splits)
qed

end
