(* ===== verification/RuntimeGuarantees.thy ===== *)
theory RuntimeGuarantees
  imports RuntimeInvariants RuntimeCreation
begin

text \<open>
  Lemmas for the guarantees of the campaign service: the stored campaign depends on the rows of the
  campaign only; the fence before a mutation; when a checkpoint is committed and a recovery completed.
\<close>

section \<open>The stored campaign depends on the rows of the campaign\<close>

lemma answers_part:
  assumes "campaign_part j d' = campaign_part j d"
  shows "answers (load_campaign_projection j server_audience) d' = answers (load_campaign_projection j server_audience) d"
    "answers (load_journal j) d' = answers (load_journal j) d"
proof -
  have same: "contents j d' = contents j d" "rows_of j d' = rows_of j d"
    using assms(1) by (simp_all add: campaign_part_def contents_def)
  then have find: "find_campaign j d' = find_campaign j d" "slots_of j d' = slots_of j d" "builds_of j d' = builds_of j d"
    "adapters_of j d' = adapters_of j d" by (simp_all add: contents_def)
  show "answers (load_campaign_projection j server_audience) d' = answers (load_campaign_projection j server_audience) d"
    unfolding answers_def load_campaign_projection_def load_campaign_def sql_bind_def sql_fail_def sql_ret_def
      query_def quiet_env_def sql_require_def
    by (auto simp: find split: option.splits)
  show "answers (load_journal j) d' = answers (load_journal j) d"
    using same(2)
    by (simp add: answers_def load_journal_def sql_bind_def sql_fail_def sql_ret_def query_def quiet_env_def rows_of_def)
qed

lemma stored_campaign_part:
  assumes "campaign_part j d' = campaign_part j d"
  shows "stored_campaign j d' = stored_campaign j d"
proof -
  have "stored_campaign j d' = Some c \<longleftrightarrow> stored_campaign j d = Some c" for c
    by (simp add: stored_campaign_iff answers_part [OF assms])
  then show ?thesis by (metis option.exhaust)
qed

section \<open>The tables of a service\<close>

lemma service_ledger: "service_wf s \<Longrightarrow> ledger_wf (sv_store s)"
  by (simp add: service_wf_def campaign_inv_def)

lemma service_tables: "service_wf s \<Longrightarrow> tables_wf (sv_store s)"
  by (simp add: service_wf_def campaign_inv_def)

lemma svc_ends_after:
  assumes "svc_ends m env (0, s) (\<lambda>_. P) (\<lambda>_. P)"
  shows "P (svc_after m env s)"
proof -
  obtain r k' s' where "m env (0, s) = (r, k', s')" by (metis prod_cases3)
  with assms show ?thesis by (cases r) (simp_all add: svc_ends_def svc_after_def)
qed

section \<open>The fence\<close>

lemma svc_ends_any: "(\<And>e s. F e s) \<Longrightarrow> (\<And>x s. G x s) \<Longrightarrow> svc_ends m env ks F G"
  by (auto simp: svc_ends_def split: prod.splits sum.splits)

lemma ends_fence:
  assumes "campaign_inv i s"
  shows "svc_ends (check_mutation_fence i) env (k, s) (\<lambda>e _. \<not> cmd_applied e)
    (\<lambda>_ _. sv_checkpoints s i = None \<and> sv_recoveries s i = None \<and> journal_idle i (sv_store s))"
proof (cases "sv_recoveries s i")
  case (Some a)
  then show ?thesis
    by (auto simp: check_mutation_fence_def svc_bind_def svc_get_def svc_require_def svc_ends_def svc_fail_def svc_ret_def
        reconstruct_recovery_def)
next
  case None
  obtain r k' s' where run: "check_mutation_fence i env (k, s) = (r, k', s')" by (metis prod_cases3)
  have same: "sv_store s' = sv_store s" "sv_checkpoints s' = sv_checkpoints s"
    using svc_leavesD [OF leaves_fence run, of sv_store] svc_leavesD [OF leaves_fence run, of sv_checkpoints]
    by (simp_all add: apart_from_recovery_def)
  have "svc_ends (check_mutation_fence i) env (k, s) (\<lambda>_. campaign_inv i) (\<lambda>_. idle i)"
    using runs_fence assms unfolding runs_def by blast
  moreover have "sv_checkpoints s i = None" if "r = Inr x" for x
    using that run by (auto simp: check_mutation_fence_def svc_bind_def svc_get_def svc_require_def svc_fail_def split: if_splits)
  ultimately show ?thesis
    using run same None refusesD [OF refuses_fence(2), of i env "(k, s)" _ "(k', s')"]
    by (cases r) (auto simp: svc_ends_def idle_def)
qed

lemma applied_command_passed:
  assumes "campaign_inv i s" "svc_result (run_command i v m cmd) env s = (r, s')" "cmd_applied r"
  shows "sv_checkpoints s i = None \<and> sv_recoveries s i = None \<and> journal_idle i (sv_store s)"
proof -
  let ?open = "sv_checkpoints s i = None \<and> sv_recoveries s i = None \<and> journal_idle i (sv_store s)"
  let ?F = "\<lambda>r s'. cmd_applied r \<longrightarrow> ?open"
  have "svc_ends (run_command i v m cmd) env (0, s) ?F ?F"
    unfolding run_command_common campaign_command_def Let_def
  proof (rule svc_ends_bind)
    show "svc_ends (check_mutation_fence i) env (0, s) ?F (\<lambda>_ _. ?open)"
      by (rule svc_ends_mono [OF ends_fence [OF assms(1)]]) simp_all
  qed (rule svc_ends_any, simp_all)
  from svc_ends_result [OF assms(2) this] assms(3) show ?thesis by simp
qed

section \<open>Committing a checkpoint\<close>

lemma reads_leaves: "reads m \<Longrightarrow> leaves part m"
proof -
  assume "reads m"
  have "sql_holds m env (n, d) (\<lambda>x (n', d'). part d' = part d) (\<lambda>e. True)" for env n d
    by (rule sql_holds_mono [OF leavesD [OF \<open>reads m\<close>]]) auto
  then show ?thesis unfolding leaves_def part.keeps_def same_part_def by blast
qed

lemma commit_leaves_slots:
  assumes "store_mutate (OpCommit r) env d = (x, d')"
  shows "t_checkpoint_slots d' = t_checkpoint_slots d"
proof -
  have again: "leaves t_checkpoint_slots (\<lambda>env s. case load_campaign i env s of
      (Inl e, s') \<Rightarrow> (Inl (h e), s')
    | (Inr c, s') \<Rightarrow> if cr_checkpoint c = Some k then (Inl (f c), s') else (Inl g, s'))" for i k and f :: "CampaignRecord \<Rightarrow> MutationResult" and g h
    by (auto simp: leaves_def part.keeps_def sql_holds_def split: sum.splits prod.splits)
  have expect: "leaves t_checkpoint_slots (expect_revision a b c)" for a b c
    unfolding expect_revision_def by (intro leaves_intros)
  have mark: "leaves t_checkpoint_slots (step_done (mark_committed i k v now))" for i k v now
    by (intro leaves_step) (auto simp: mark_committed_def Let_def split: if_splits)
  have select: "leaves t_checkpoint_slots (step_done (select_checkpoint i k e v now))" for i k e v now
    by (intro leaves_step) (auto simp: select_checkpoint_def Let_def split: if_splits dest: update_campaign_tables(6))
  have outbox: "leaves t_checkpoint_slots (append_outbox i m v ys now)" for i m v ys now
    unfolding append_outbox_def
    by (intro leaves_intros leaves_step_only) (auto simp: insert_outbox_def split: if_splits)
  have journal: "leaves t_checkpoint_slots (append_journal i m e v kind g w p now k cv)" for i m e v kind g w p now k cv
    unfolding append_journal_def by (intro leaves_step_only) (auto simp: insert_journal_def split: if_splits)
  have body: "leaves t_checkpoint_slots (commit_body r g now)" for g now
    unfolding commit_body_def Let_def record_mutation_def
    by (intro leaves_intros again expect mark select outbox journal reads_leaves [OF load_checkpoint_reads]
        reads_leaves [OF read_current_revision_reads])
  show ?thesis
    by (rule store_mutate_related [where R = "\<lambda>d d'. t_checkpoint_slots d' = t_checkpoint_slots d", OF _ assms])
      (auto intro: leavesD [OF body])
qed

text \<open>Every slot of the checkpoint has its exact artifact.\<close>

definition slots_complete :: "(Bytes \<Rightarrow> Bytes option) \<Rightarrow> CampaignId \<Rightarrow> string \<Rightarrow> string \<Rightarrow> Database \<Rightarrow> bool" where
  "slots_complete sha i k native d \<longleftrightarrow>
     checkpoint_slots_of i k d \<noteq> [] \<and> list_all (\<lambda>s. is_exact_artifact sha s native) (checkpoint_slots_of i k d)"

definition save_outcome :: "RuntimeEnv \<Rightarrow> RecordSaveCommand \<Rightarrow> CheckpointCommandResult \<Rightarrow> RuntimeService \<Rightarrow> bool" where
  "save_outcome env cmd r s \<longleftrightarrow> (kr_committed r \<longrightarrow> sv_checkpoints s (rc_campaign cmd) = None \<and>
     (\<exists>a. kr_activity r = Some a \<and>
        slots_complete (sha256 env) (rc_campaign cmd) (rc_checkpoint cmd) (ca_native_save a) (sv_store s)))"

lemma ends_load:
  assumes "steady m"
  shows "svc_ends (svc_error f (svc_load m)) env (k, s) (\<lambda>_ s'. s' = s) (\<lambda>x s'. s' = s \<and> answers m (sv_store s) = Inr x)"
proof -
  obtain r k' s' where run: "svc_load m env (k, s) = (r, k', s')" by (metis prod_cases3)
  from svc_load_steady [OF assms run] run show ?thesis
    by (cases r) (auto simp: svc_ends_def svc_error_def)
qed

lemma ends_load_bind:
  assumes "steady m" "\<And>x k'. answers m (sv_store s) = Inr x \<Longrightarrow> svc_ends (h x) env (k', s) F H" "\<And>e. F e s"
  shows "svc_ends (svc_bind (svc_error f (svc_load m)) h) env (k, s) F H"
proof (rule svc_ends_bind)
  show "svc_ends (svc_error f (svc_load m)) env (k, s) F (\<lambda>x s'. s' = s \<and> answers m (sv_store s) = Inr x)"
    by (rule svc_ends_mono [OF ends_load [OF assms(1)]]) (simp_all add: assms(3))
qed (use assms(2) in simp)

lemma ends_complete:
  "svc_ends (commit_when_complete a cmd r0) env (k, s) (\<lambda>_ _. True)
     (\<lambda>(r, committed) s'. committed \<longrightarrow> sv_checkpoints s' (rc_campaign cmd) = None \<and>
        slots_complete (sha256 env) (rc_campaign cmd) (rc_checkpoint cmd) (ca_native_save a) (sv_store s'))"
  (is "svc_ends _ _ _ _ (\<lambda>(r, committed) s'. committed \<longrightarrow> _ s' = None \<and> ?complete s')")
proof -
  let ?i = "rc_campaign cmd" and ?k = "rc_checkpoint cmd"
  let ?m = "\<lambda>c. svc_mutate (OpCommit (commit_request ?i ?k (cr_revision c))) :: (CommandResult, MutationResult) svc"
  have commit: "svc_ends (?m c) env (k', s) (\<lambda>_ _. True) (\<lambda>_. ?complete)" if "?complete s" for c k'
    using that commit_leaves_slots [where r = "commit_request ?i ?k (cr_revision c)" and d = "sv_store s"]
    by (auto simp: svc_ends_def svc_mutate_def slots_complete_def checkpoint_slots_of_def split: prod.splits)
  have clear: "svc_ends (svc_bind (clear_checkpoint ?i) (\<lambda>_. svc_ret (r, True))) env (k', s') (\<lambda>_ _. True)
      (\<lambda>(r, committed) s'. committed \<longrightarrow> sv_checkpoints s' ?i = None \<and> ?complete s')"
    if "?complete s'" for r :: CommandResult and k' s'
    using that by (simp add: svc_ends_def svc_bind_def clear_checkpoint_def svc_put_def svc_ret_def)
  show ?thesis
    unfolding commit_when_complete_def Let_def
  proof (rule ends_load_bind)
    show "steady (load_checkpoint ?i ?k)" by (rule steady_loads)
    fix ck k' assume loaded: "answers (load_checkpoint ?i ?k) (sv_store s) = Inr ck"
    note slots = answers_checkpoint(2) [OF loaded]
    show "svc_ends (svc_bind (svc_env sha256) (\<lambda>sha.
        if \<not> checkpoint_complete sha (ca_native_save a) ck then svc_ret (r0, False)
        else svc_bind (svc_error store_failure (svc_load (load_campaign ?i))) (\<lambda>c.
          svc_bind (?m c) (\<lambda>m. svc_bind (svc_require (cmd_error (from_mutation_result m) = NoCampaignError)
            (from_mutation_result m)) (\<lambda>_. svc_bind (clear_checkpoint ?i) (\<lambda>_. svc_ret (from_mutation_result m, True)))))))
        env (k', s) (\<lambda>_ _. True) (\<lambda>(r, committed) s'. committed \<longrightarrow> sv_checkpoints s' ?i = None \<and> ?complete s')"
    proof (cases "checkpoint_complete (sha256 env) (ca_native_save a) ck")
      case True
      then have complete: "?complete s" by (simp add: checkpoint_complete_def slots_complete_def slots)
      have rest: "svc_ends (svc_bind (svc_error store_failure (svc_load (load_campaign ?i))) (\<lambda>c.
          svc_bind (?m c) (\<lambda>m. svc_bind (svc_require (cmd_error (from_mutation_result m) = NoCampaignError)
            (from_mutation_result m)) (\<lambda>_. svc_bind (clear_checkpoint ?i) (\<lambda>_. svc_ret (from_mutation_result m, True))))))
          env (k', s) (\<lambda>_ _. True) (\<lambda>(r, committed) s'. committed \<longrightarrow> sv_checkpoints s' ?i = None \<and> ?complete s')"
        apply (rule ends_load_bind [OF steady_loads(1)])
        apply (rule svc_ends_bind [OF commit [OF complete]])
        apply (rule svc_ends_bind [where G = "\<lambda>_. ?complete"], simp)
         apply (erule clear)
        apply simp
        done
      then show ?thesis using True by (simp add: svc_ends_def svc_bind_def svc_env_def)
    qed (simp add: svc_ends_def svc_bind_def svc_env_def svc_ret_def)
  qed simp
qed

lemma ends_saved:
  "svc_ends (record_checkpoint_save cmd) env (k, s) (\<lambda>r. save_outcome env cmd r) (\<lambda>r. save_outcome env cmd r)"
proof -
  let ?G = "\<lambda>a (r, committed) s'. committed \<longrightarrow> sv_checkpoints s' (rc_campaign cmd) = None \<and>
    slots_complete (sha256 env) (rc_campaign cmd) (rc_checkpoint cmd) (ca_native_save a) (sv_store s')"
  have saved: "svc_ends (record_save a cmd) env (k', s') (\<lambda>_ _. True) (?G a)" for a k' s'
    unfolding record_save_def Let_def
    by (intro svc_ends_bind [where G = "\<lambda>_ _. True"] svc_ends_any ends_complete TrueI)
  have failed: "svc_ends (svc_error f m) env ks (\<lambda>r. save_outcome env cmd r) G"
    if "svc_ends m env ks (\<lambda>_ _. True) G" "\<And>e. \<not> kr_committed (f e)"
    for f :: "CommandResult \<Rightarrow> CheckpointCommandResult" and m :: "(CommandResult, 'a) svc" and ks and G
    using that by (auto simp: svc_ends_def svc_error_def save_outcome_def split: prod.splits sum.splits)
  show ?thesis
    unfolding record_checkpoint_save_def
    apply (rule svc_ends_bind [OF failed [OF svc_ends_any]])
       apply (rule TrueI)+
     apply (simp add: checkpoint_result_def)
    apply (rule svc_ends_bind [OF failed [OF saved]])
     apply (simp add: checkpoint_result_def)
    apply (auto simp: save_outcome_def split: prod.splits)
    done
qed

section \<open>Completing a recovery\<close>

text \<open>What returns early from an acknowledgement completes nothing.\<close>

definition incomplete :: "'a recovery_svc \<Rightarrow> bool" where
  "incomplete m \<longleftrightarrow> (\<forall>env ks e ks'. m env ks = (Inl e, ks') \<longrightarrow> \<not> rr_completed e)"

named_theorems incomplete

lemma incompleteD: "incomplete m \<Longrightarrow> m env ks = (Inl e, ks') \<Longrightarrow> \<not> rr_completed e"
  unfolding incomplete_def by blast

lemma incomplete_results [simp]:
  "\<not> rr_completed (recovery_result r)" "rr_completed (with_failure_of a ck r') = rr_completed r'"
  by (simp_all add: recovery_result_def with_failure_of_def)

lemma incomplete_basic [incomplete]:
  "incomplete (svc_ret x)" "\<not> rr_completed e \<Longrightarrow> incomplete (svc_fail e)" "incomplete (svc_get f)" "incomplete (svc_put g)"
  "incomplete (svc_mutate op)" "\<not> rr_completed e \<Longrightarrow> incomplete (svc_require b e)" "incomplete (svc_error recovery_result n)"
  "incomplete m \<Longrightarrow> incomplete (svc_error (with_failure_of a ck) m)" "incomplete (recovery_load l)"
  by (auto simp: incomplete_def svc_ret_def svc_fail_def svc_get_def svc_put_def svc_require_def svc_mutate_def svc_error_def
      recovery_load_def split: prod.splits sum.splits) blast

lemma incomplete_bind [incomplete]: "incomplete m \<Longrightarrow> (\<And>x. incomplete (h x)) \<Longrightarrow> incomplete (svc_bind m h)"
  unfolding incomplete_def svc_bind_def by (auto split: prod.splits sum.splits) blast+

lemma incomplete_cases [incomplete]:
  "(\<And>x. incomplete (f x)) \<Longrightarrow> incomplete g \<Longrightarrow> incomplete (case v of None \<Rightarrow> g | Some x \<Rightarrow> f x)"
  "(\<And>a b. incomplete (p a b)) \<Longrightarrow> incomplete (case z of (a, b) \<Rightarrow> p a b)"
  "incomplete m \<Longrightarrow> incomplete m' \<Longrightarrow> incomplete (if b then m else m')"
  by (auto split: option.splits prod.splits)

lemma incomplete_applied: "incomplete (record_snapshot_applied cmd)"
  unfolding record_snapshot_applied_def find_recovery_def completed_recovery_def acknowledged_slot_def
    acknowledge_snapshot_def record_applied_def record_step_def put_recovery_def clear_recovery_def Let_def
  by (intro incomplete incomplete_results(1))

lemma ends_applied:
  assumes "service_wf s"
  shows "svc_ends (record_snapshot_applied cmd) env (k, s) (application_outcome (sa_campaign cmd))
    (application_outcome (sa_campaign cmd))"
proof -
  have "svc_ends (record_snapshot_applied cmd) env (k, s) (\<lambda>_. campaign_inv (sa_campaign cmd))
      (\<lambda>r s. campaign_inv (sa_campaign cmd) s \<and> application_outcome (sa_campaign cmd) r s)"
    using runs_applications [OF refl] assms unfolding runs_def service_wf_def by blast
  moreover obtain r k' s' where run: "record_snapshot_applied cmd env (k, s) = (r, k', s')" by (metis prod_cases3)
  moreover have "application_outcome (sa_campaign cmd) e s'" if "r = Inl e" for e
    using incompleteD [OF incomplete_applied] run that by (simp add: application_outcome_def)
  ultimately show ?thesis by (cases r) (simp_all add: svc_ends_def)
qed

end
