(* ===== verification/RuntimeContract.thy ===== *)
theory RuntimeContract
  imports RuntimeGuarantees
begin

text \<open>
  What the campaign service promises, over its handlers: the answers of a command, the refinement of the
  state machine, the fence, the creation, checkpoints and recoveries, and the invariant of its state.
\<close>

section \<open>The answers of a command\<close>

text \<open>The answer of a command that does not reach the store, if there is one.\<close>

definition command_answer ::
  "CampaignId \<Rightarrow> StateVersion \<Rightarrow> string \<Rightarrow> RuntimeCommand \<Rightarrow> Database \<Rightarrow> CampaignAggregate \<Rightarrow> CommandResult option" where
  "command_answer i expected m cmd d c =
     (let payload = begin_command_payload (command_kind cmd) @ command_arguments cmd;
          r = snd (campaign_perform c (command_operation cmd)) in
      case find (\<lambda>j. jr_mutation j = m) (rows_of i d) of
        Some j \<Rightarrow>
          if jr_expected j \<noteq> expected \<or> jr_kind j \<noteq> command_kind cmd \<or> jr_codec_version j \<noteq> 1 \<or> jr_payload j \<noteq> payload
          then Some ((cmd_failure PersistenceFailure Store_IdempotencyConflict)\<lparr>cmd_version := jr_resulting j\<rparr>)
          else Some (cmd_ok\<lparr>cmd_version := jr_resulting j, cmd_replay := True\<rparr>)
      | None \<Rightarrow>
          if c_version c \<noteq> expected then Some (stale_revision (c_version c))
          else if \<not> dom_succeeded r then Some (domain_failure r) else None)"

definition store_answers :: "RuntimeEnv \<Rightarrow> bool" where
  "store_answers env \<longleftrightarrow> (\<forall>k n. \<not> env_io (call_env env k) n)"

lemma same_loads:
  assumes "\<And>n. \<not> env_io e n"
  shows "fst (load_journal i e (0, d)) = answers (load_journal i) d"
    "fst (load_campaign_projection i a e (0, d)) = answers (load_campaign_projection i a) d"
  using assms
  by (simp_all add: answers_def load_journal_def load_campaign_projection_def load_campaign_def sql_bind_def sql_fail_def
      sql_ret_def sql_require_def query_def quiet_env_def split: option.splits)

lemma answered_load:
  assumes "store_answers env" "answers m (sv_store s) = Inr x" "steady m"
    and "\<And>e d. (\<And>n. \<not> env_io e n) \<Longrightarrow> fst (m e (0, d)) = answers m d"
  shows "svc_load m env (k, s) = (Inr x, Suc k, s)"
proof -
  obtain r k' s' where run: "svc_load m env (k, s) = (r, k', s')" by (metis prod_cases3)
  have "fst (m (call_env env k) (0, sv_store s)) = Inr x" using assms(1,2,4) by (simp add: store_answers_def)
  then have "r = Inr x" using run by (auto simp: svc_load_def split: prod.splits)
  with svc_load_steady [OF assms(3) run] run show ?thesis by simp
qed

lemma find_stripped:
  "find (\<lambda>j. jr_mutation j = m) (map strip_digest js) = map_option strip_digest (find (\<lambda>j. jr_mutation j = m) js)"
  by (induction js) simp_all

text \<open>
  When the store can be read and no checkpoint or recovery is open, a command runs to the point where it
  is answered or handed to the store.
\<close>

lemma command_runs:
  assumes wf: "service_wf s" and stored: "stored_campaign i (sv_store s) = Some c"
    and free: "sv_checkpoints s i = None" "sv_recoveries s i = None" "journal_idle i (sv_store s)"
    and answers: "store_answers env"
    and perform: "campaign_perform c (command_operation cmd) = (c', r)"
  defines "payload \<equiv> begin_command_payload (command_kind cmd) @ command_arguments cmd"
  shows "\<exists>k. run_command i expected m cmd env (0, s) =
    (case find (\<lambda>j. jr_mutation j = m) (rows_of i (sv_store s)) of
      Some j \<Rightarrow>
        if jr_expected j \<noteq> expected \<or> jr_kind j \<noteq> command_kind cmd \<or> jr_codec_version j \<noteq> 1 \<or> jr_payload j \<noteq> payload
        then (Inl ((cmd_failure PersistenceFailure Store_IdempotencyConflict)\<lparr>cmd_version := jr_resulting j\<rparr>), k, s)
        else (Inl (cmd_ok\<lparr>cmd_version := jr_resulting j, cmd_replay := True\<rparr>), k, s)
    | None \<Rightarrow>
        if c_version c \<noteq> expected then (Inl (stale_revision (c_version c)), k, s)
        else if \<not> dom_succeeded r then (Inl (domain_failure r), k, s)
        else if may_be_noop cmd \<and> \<not> dom_changed r
        then persist_accepted_noop i expected m (command_kind cmd) payload env (k, s)
        else persist_mutation c' expected m (command_kind cmd) payload (edits_roster cmd) (seals_roster cmd) env (k, s))"
proof -
  let ?js = "map strip_digest (rows_of i (sv_store s))"
  obtain p js where loads: "answers (load_campaign_projection i server_audience) (sv_store s) = Inr p"
    "answers (load_journal i) (sv_store s) = Inr js" "aggregate_of p js = Inr c"
    using stored by (auto simp: stored_campaign_iff)
  have js: "js = ?js" using loads(2) answers_journal [OF service_ledger [OF wf]] by simp
  have journal: "svc_load (load_journal i) env (k, s) = (Inr ?js, Suc k, s)" for k
    by (rule answered_load [OF answers _ steady_loads(3) same_loads(1)]) (simp_all add: loads(2) js)
  have projection: "svc_load (load_campaign_projection i server_audience) env (k, s) = (Inr p, Suc k, s)" for k
    by (rule answered_load [OF answers loads(1) steady_loads(2) same_loads(2)])
  have aggregate: "\<exists>k'. load_aggregate i env (k, s) = (Inr c, k', s)" for k
  proof -
    obtain r k' s' where run: "load_aggregate i env (k, s) = (r, k', s')" by (metis prod_cases3)
    from load_aggregate_runs [OF run] have "s' = s" ..
    moreover have "r = Inr c" using aggregate_loaded [OF projection [of k] journal] run loads(3) js by (metis fst_conv)
    ultimately show ?thesis using run by simp
  qed
  obtain sc where scan: "scan_journal i ?js no_scan = Inr sc" "sc_open sc = None"
    using free(3) by (auto simp: journal_idle_def)
  have fence: "check_mutation_fence i env (k, s) = (Inr (), Suc k, s)" for k
    using free scan
    by (simp add: check_mutation_fence_def svc_bind_def svc_get_def svc_require_def svc_ret_def reconstruct_recovery_def
        journal no_scan_def [symmetric] finish_reconstruction_def)
  have replay: "find_mutation_replay i expected m kind payload env (k, s) =
      (case find (\<lambda>j. jr_mutation j = m) (rows_of i (sv_store s)) of
        None \<Rightarrow> Inr ()
      | Some j \<Rightarrow>
        if jr_expected j \<noteq> expected \<or> jr_kind j \<noteq> kind \<or> jr_codec_version j \<noteq> 1 \<or> jr_payload j \<noteq> payload
        then Inl ((cmd_failure PersistenceFailure Store_IdempotencyConflict)\<lparr>cmd_version := jr_resulting j\<rparr>)
        else Inl (cmd_ok\<lparr>cmd_version := jr_resulting j, cmd_replay := True\<rparr>), Suc k, s)" for kind payload k
    by (simp add: find_mutation_replay_def journal find_stripped split: option.split)
  obtain k1 where loaded: "load_aggregate i env (Suc (Suc 0), s) = (Inr c, k1, s)" using aggregate by blast
  note steps = run_command_common campaign_command_def Let_def svc_bind_def fence prod.case sum.case replay payload_def
  show ?thesis
  proof (cases "find (\<lambda>j. jr_mutation j = m) (rows_of i (sv_store s))")
    case None
    show ?thesis
      unfolding steps None option.case loaded
      by (auto simp: svc_require_def svc_fail_def svc_ret_def perform)
  next
    case (Some j)
    show ?thesis unfolding steps Some option.case by simp
  qed
qed

lemma command_answered:
  assumes "service_wf s" "stored_campaign i (sv_store s) = Some c"
    and "sv_checkpoints s i = None" "sv_recoveries s i = None" "journal_idle i (sv_store s)"
    and "store_answers env" and answer: "command_answer i expected m cmd (sv_store s) c = Some r"
  shows "svc_result (run_command i expected m cmd) env s = (r, s)"
proof -
  obtain c' r' where perform: "campaign_perform c (command_operation cmd) = (c', r')" by fastforce
  from command_runs [OF assms(1-6) perform, of expected m] answer show ?thesis
    by (auto simp: svc_result_def command_answer_def perform Let_def split: option.splits if_splits)
qed

section \<open>A campaign for the witnesses\<close>

definition lobby :: CampaignAggregate where
  "lobby = \<lparr>c_id = ''c'', c_version = 1, c_phase = Lobby, c_sealed = False, c_manager = None,
     c_roster = [to_slot_state example_member]\<rparr>"

definition lobby_core :: Bytes where
  "lobby_core = snd (encode_core_state lobby [])"

definition lobby_row :: JournalRow where
  "lobby_row = \<lparr>jr_sequence = 1, jr_campaign = ''c'', jr_mutation = ''m1'', jr_expected = 0, jr_resulting = 1,
     jr_kind = ''CreateCampaign'', jr_digest = [], jr_codec_version = 1, jr_payload = [1],
     jr_restored_checkpoint = None, jr_restored_revision = None, jr_created = 1000\<rparr>"

definition lobby_record :: CampaignRecord where
  "lobby_record = \<lparr>cr_id = ''c'', cr_schema_version = 2, cr_revision = 1, cr_sealed = False, cr_checkpoint = None,
     cr_codec_version = kCampaignCoreCodecVersion, cr_payload = lobby_core, cr_created = 1000, cr_updated = 1000\<rparr>"

definition lobby_store :: Database where
  "lobby_store = empty_database\<lparr>t_campaigns := [lobby_record], t_slots := [(''c'', example_member)],
     t_journal := [lobby_row], last_sequence := 1\<rparr>"

lemma lobby_canonical: "canonical_roster (c_roster lobby)"
  by (simp add: lobby_def canonical_roster_def valid_roster_def slot_ids_valid_def kMaximumCampaignRosterSize_def to_slot_state_def example_member_def is_valid_identity_def)

lemma lobby_valid: "validate_aggregate lobby = Store_None"
  using lobby_canonical
  by (intro campaign_wf_valid) (simp_all add: campaign_wf_def, simp_all add: lobby_def to_slot_state_def)

lemma lobby_encoded: "encode_core_state lobby [] = (Store_None, lobby_core)" "length lobby_core \<le> 1600"
  using core_encoding_size [OF lobby_valid, of "[]"] by (auto simp: lobby_core_def)

lemma lobby_ledger: "ledger_wf lobby_store"
  by (simp add: ledger_wf_def lobby_store_def lobby_row_def rows_of_def revision_of_def find_campaign_def lobby_record_def
      empty_database_def kMaximumRevision_def)

lemma lobby_tables: "tables_wf lobby_store"
  by (simp add: tables_wf_def outbox_keys_def lobby_store_def empty_database_def)

lemma lobby_rows: "rows_of ''c'' lobby_store = [lobby_row]"
  by (simp add: rows_of_def lobby_store_def lobby_row_def)

lemma lobby_journal: "answers (load_journal ''c'') lobby_store = Inr [strip_digest lobby_row]"
  using answers_journal [OF lobby_ledger, of "''c''"]
  by (simp add: lobby_rows journal_row_valid_def lobby_row_def kMaximumRevision_def is_valid_identifier_def
      kMaximumIdLength_def less_eq_char_def kMaximumKindLength_def is_valid_payload_def kMaximumPayloadSize_def)

lemma lobby_projection:
  "answers (load_campaign_projection ''c'' server_audience) lobby_store = Inr (projection_of lobby_record [example_member] [] [])"
  unfolding answers_projection
  using lobby_encoded(2)
  by (simp add: contents_def find_campaign_def slots_of_def builds_of_def adapters_of_def lobby_store_def lobby_record_def
      empty_database_def record_valid_def kMaximumRevision_def is_valid_payload_def kMaximumPayloadSize_def
      is_valid_identifier_def kMaximumIdLength_def less_eq_char_def kCampaignDatabaseSchemaVersion_def
      kCampaignCoreCodecVersion_def slot_record_valid_def example_member_def)

lemma lobby_stored: "stored_campaign ''c'' lobby_store = Some lobby"
proof -
  have "decode_core_state ''c'' False [example_member] 1 lobby_core = Inr lobby"
    using decode_encoded_core [OF lobby_encoded(1) lobby_canonical, of "[example_member]"]
    by (simp add: lobby_def to_slot_state_def slot_record_def example_member_def)
  then have "aggregate_of (projection_of lobby_record [example_member] [] []) [strip_digest lobby_row] = Inr lobby"
    by (simp add: aggregate_of_def projection_of_def lobby_record_def produces_core_state_def lobby_row_def strip_digest_def
        decode_canonical_core_state_def) (simp add: lobby_def)
  with lobby_journal lobby_projection show ?thesis unfolding stored_campaign_iff by blast
qed

definition lobby_service :: RuntimeService where
  "lobby_service = new_service lobby_store"

lemma lobby_service_wf: "service_wf lobby_service"
  unfolding lobby_service_def by (rule new_service_wf [OF lobby_ledger lobby_tables])

lemma lobby_idle: "journal_idle ''c'' lobby_store"
  unfolding journal_idle_def lobby_rows
  by (simp add: scan_row_def lobby_row_def strip_digest_def no_scan_def)

definition lobby_applied :: SnapshotAppliedCommand where
  "lobby_applied = \<lparr>sa_campaign = ''c'', sa_attempt = ''a'', sa_checkpoint = ''k'', sa_restore_revision = 2,
     sa_actor = \<lparr>mi_campaign = ''c'', mi_slot = ''s'', mi_player = ''p'', mi_binding = ''b''\<rparr>, sa_presence = []\<rparr>"

lemmas lobby_facts = lobby_service_wf lobby_stored lobby_idle lobby_ledger lobby_tables

lemma lobby_parts [simp]:
  "sv_store lobby_service = lobby_store" "sv_checkpoints lobby_service i = None" "sv_recoveries lobby_service i = None"
  by (simp_all add: lobby_service_def new_service_def)

section \<open>The creation in the journal\<close>

lemma read_field_back: "length v \<le> 128 \<Longrightarrow> read_payload_field (payload_field v @ rest) = Some (v, rest)"
proof -
  assume "length v \<le> 128"
  then have "unat (of_nat (length v) :: u32) = length v" by (simp add: unat_of_nat)
  moreover have "read_scalar (scalar_bytes (w :: u32) @ rest) = Some (w, rest)" for w rest
    by (simp add: read_scalar_def gather_scalar_bytes scalar_size_def)
  ultimately show ?thesis using \<open>length v \<le> 128\<close>
    by (simp add: read_payload_field_def payload_field_def payload_scalar_def r_bind_def r_check_def r_return_def read_raw_def)
qed

lemma read_slot_back:
  "slot_ids_valid (to_slot_state s) \<Longrightarrow> read_payload_slot (payload_slot s @ rest) = Some (s, rest)"
  by (simp add: read_payload_slot_def payload_slot_def read_field_back slot_ids_valid_def is_valid_identity_def
      to_slot_state_def r_bind_def r_return_def)

lemma payload_slot_nonempty: "payload_slot s \<noteq> []"
  by (simp add: payload_slot_def payload_field_def payload_scalar_def scalar_bytes_def scalar_size_def)

lemma read_roster_back:
  "list_all (slot_ids_valid \<circ> to_slot_state) ss \<Longrightarrow> length ss \<le> n \<Longrightarrow>
     read_payload_roster n (concat (map payload_slot ss)) = Some ss"
proof (induction ss arbitrary: n)
  case (Cons s ss)
  obtain m where m: "n = Suc m" using Cons.prems(2) by (cases n) auto
  obtain b bs where bytes: "payload_slot s @ concat (map payload_slot ss) = b # bs"
    using payload_slot_nonempty [of s] by (metis append_is_Nil_conv list.exhaust)
  have "read_payload_slot (b # bs) = Some (s, concat (map payload_slot ss))"
    using read_slot_back [of s "concat (map payload_slot ss)"] Cons.prems(1) bytes by simp
  with Cons.IH [of m] Cons.prems m bytes show ?case by simp
qed simp

lemma decode_creation:
  assumes "canonical_roster (c_roster c)"
  shows "decode_create_payload (begin_command_payload ''CreateCampaign'' @ concat (map payload_slot (to_roster_records c))) =
    Some (to_roster_records c)"
proof -
  have states: "map to_slot_state (to_roster_records c) = map (\<lambda>s. s\<lparr>slot_ready := False\<rparr>) (c_roster c)"
    by (simp add: to_roster_records_def to_slot_state_def slot_record_def)
  have valid: "valid_roster (map to_slot_state (to_roster_records c))"
    using assms unfolding states
    by (simp add: canonical_roster_def valid_roster_def slot_ids_valid_def list_all_iff comp_def)
  then have "list_all (slot_ids_valid \<circ> to_slot_state) (to_roster_records c)" "length (to_roster_records c) \<le> 10"
    by (simp_all add: valid_roster_def list.pred_map)
  from read_roster_back [OF this] have roster:
    "read_payload_roster 10 (concat (map payload_slot (to_roster_records c))) = Some (to_roster_records c)" .
  have magic: "read_magic m (bytes_of_string m @ rest) = Some ((), rest)" for m rest
    by (simp add: read_magic_def)
  show ?thesis
    unfolding decode_create_payload_def begin_command_payload_def
    using valid roster
    by (simp add: r_bind_def magic read_field_back kMaximumCampaignRosterSize_def validate_roster_iff)
qed

section \<open>Properties\<close>

text \<open>
  The roster of a creation comes back from its journal row: what the service writes as the payload of a
  creation, its lookup of creations decodes to the slot records of the new lobby.
\<close>

theorem creation_payload_comes_back:
  assumes "new_lobby_campaign i (map to_slot_state ss) = Inr c"
  shows "decode_create_payload (ccr_payload (create_request c m core snapshot)) = Some (to_roster_records c)"
  using decode_creation new_lobby_wf [OF assms] by (simp add: create_request_def campaign_wf_def)

theorem creation_payload_comes_back_witness:
  "decode_create_payload (ccr_payload (create_request lobby ''m1'' [] [])) = Some [example_member]"
proof -
  have "new_lobby_campaign ''c'' (map to_slot_state [example_member]) = Inr lobby"
    using lobby_canonical
    by (simp add: new_lobby_campaign_def Let_def validate_roster_iff canonical_roster_def lobby_def sort_roster_def to_slot_state_def)
  from creation_payload_comes_back [OF this] show ?thesis
    by (simp add: to_roster_records_def lobby_def slot_record_def to_slot_state_def example_member_def)
qed

text \<open>
  C8: A command of the service refines the state machine of the campaign. When the store holds a campaign,
  a command that reports to be applied had met the version it expected, made a change, and leaves in the
  store exactly what the operation makes of the campaign, at the next version; every other command,
  whatever failed, leaves the stored campaign as it was.
\<close>

theorem command_refines_campaign:
  assumes "service_wf s" "stored_campaign i (sv_store s) = Some c"
  shows "case svc_result (run_command i expected m cmd) env s of (r, s') \<Rightarrow> command_outcome cmd i expected c r (sv_store s')"
proof -
  obtain r s' where run: "svc_result (run_command i expected m cmd) env s = (r, s')" by fastforce
  from svc_ends_result [OF run, where P = "\<lambda>r s'. command_outcome cmd i expected c r (sv_store s')"]
    ends_command [OF service_ledger [OF assms(1)] assms(2)] run
  show ?thesis by simp
qed

theorem command_refines_campaign_witness:
  "case svc_result (run_command ''c'' 1 ''m2'' (CommandStart ''p'')) quiet_runtime lobby_service of (r, s') \<Rightarrow>
     command_outcome (CommandStart ''p'') ''c'' 1 lobby r (sv_store s')"
  by (rule command_refines_campaign) (simp_all add: lobby_facts)

text \<open>
  The answers of a command that changes nothing, when the store can be read and no checkpoint or recovery
  is open: a command that the journal has is a replay with the version it led to, or a conflict if it
  was another command; otherwise an outdated version is answered with the current one, and a
  command that the state machine rejects with its error. In each of these cases nothing changes.
\<close>

theorem command_answers_exact:
  assumes "service_wf s" "stored_campaign i (sv_store s) = Some c"
    and "sv_checkpoints s i = None" "sv_recoveries s i = None" "journal_idle i (sv_store s)"
    and "store_answers env" "command_answer i expected m cmd (sv_store s) c = Some r"
  shows "svc_result (run_command i expected m cmd) env s = (r, s)"
  using assms by (rule command_answered)

theorem command_answers_exact_witness:
  "svc_result (run_command ''c'' 5 ''m2'' (CommandStart ''p'')) quiet_runtime lobby_service =
     (stale_revision 1, lobby_service)"
  by (rule command_answers_exact [where c = lobby])
    (simp_all add: lobby_facts store_answers_def quiet_runtime_def quiet_env_def command_answer_def lobby_rows,
      simp_all add: lobby_row_def lobby_def)

text \<open>
  C13: The fence: no command is applied to a campaign with an active checkpoint or an open recovery, be it
  open in the service or only in the journal, as after a restart of the server.
\<close>

theorem fenced_commands_are_refused:
  assumes "service_wf s"
    and "sv_checkpoints s i \<noteq> None \<or> sv_recoveries s i \<noteq> None \<or> \<not> journal_idle i (sv_store s)"
  shows "\<not> cmd_applied (fst (svc_result (run_command i expected m cmd) env s))"
  using applied_command_passed [of i s expected m cmd env, OF _ surjective_pairing] assms
  by (auto simp: service_wf_def)

theorem fenced_commands_are_refused_witness:
  "\<not> cmd_applied (fst (svc_result (run_command ''c'' 1 ''m2'' (CommandStart ''p'')) quiet_runtime
     (lobby_service\<lparr>sv_recoveries := [''c'' \<mapsto> new_recovery_activity ''c'' 1 ReasonRosterIncomplete]\<rparr>)))"
  by (rule fenced_commands_are_refused)
    (use lobby_ledger lobby_tables in \<open>simp_all add: service_wf_def campaign_inv_def new_recovery_activity_def activity_wf_def\<close>)

text \<open>
  A lobby comes back: after a creation that reports to be applied, in a store that knew nothing of the
  campaign, the campaign that the store holds is the new lobby over the initial roster, at version
  one; a creation that is not applied leaves the store as it was.
\<close>

theorem created_lobby_comes_back:
  assumes "service_wf s" "unknown_campaign i (sv_store s)"
  shows "case svc_result (create_lobby_campaign i m ss) env s of (r, s') \<Rightarrow>
    if cmd_applied r then cmd_error r = NoCampaignError \<and> cmd_version r = 1 \<and>
      (\<exists>c. new_lobby_campaign i (map to_slot_state ss) = Inr c \<and> stored_campaign i (sv_store s') = Some c)
    else sv_store s' = sv_store s"
proof -
  let ?Q = "\<lambda>r s'. if cmd_applied r then cmd_error r = NoCampaignError \<and> cmd_version r = 1 \<and>
      (\<exists>c. new_lobby_campaign i (map to_slot_state ss) = Inr c \<and> stored_campaign i (sv_store s') = Some c)
    else sv_store s' = sv_store s"
  obtain r s' where run: "svc_result (create_lobby_campaign i m ss) env s = (r, s')" by fastforce
  have "svc_ends (create_lobby_campaign i m ss) env (0, s) ?Q ?Q"
    by (rule svc_ends_mono [OF ends_created [OF service_ledger [OF assms(1)] assms(2)]]) (auto split: if_splits)
  from svc_ends_result [OF run this] run show ?thesis by simp
qed

theorem created_lobby_comes_back_witness:
  "case svc_result (create_lobby_campaign ''d'' ''m2'' [example_member]) quiet_runtime lobby_service of (r, s') \<Rightarrow>
    if cmd_applied r then cmd_error r = NoCampaignError \<and> cmd_version r = 1 \<and>
      (\<exists>c. new_lobby_campaign ''d'' (map to_slot_state [example_member]) = Inr c \<and> stored_campaign ''d'' (sv_store s') = Some c)
    else sv_store s' = sv_store lobby_service"
  by (rule created_lobby_comes_back)
    (simp_all add: lobby_facts unknown_campaign_def view_def contents_def find_campaign_def slots_of_def builds_of_def
      adapters_of_def rows_of_def lobby_store_def lobby_record_def lobby_row_def empty_database_def)

text \<open>
  C11: A checkpoint is committed only with the saves of the full roster: when a save reports the checkpoint
  committed, every slot of it holds the exact artifact of the native save that the checkpoint asked
  for, its fingerprint being the hash of its metadata, and the checkpoint is no longer active.
\<close>

theorem checkpoint_commit_is_complete:
  "case svc_result (record_checkpoint_save cmd) env s of (r, s') \<Rightarrow> save_outcome env cmd r s'"
  using svc_ends_result [where P = "save_outcome env cmd", OF surjective_pairing ends_saved] by (simp add: case_prod_beta)

text \<open>
  C10: A recovery completes only after both barriers: when an acknowledgement completes an open recovery,
  every slot of its committed checkpoint has loaded its save and has applied the restored snapshot, and
  the recovery is closed.
\<close>

theorem recovery_completes_after_both_barriers:
  assumes "service_wf s"
  shows "case svc_result (record_snapshot_applied cmd) env s of (r, s') \<Rightarrow> application_outcome (sa_campaign cmd) r s'"
  using svc_ends_result [where P = "application_outcome (sa_campaign cmd)", OF surjective_pairing ends_applied [OF assms]]
  by (simp add: case_prod_beta)

theorem recovery_completes_after_both_barriers_witness:
  "case svc_result (record_snapshot_applied lobby_applied) quiet_runtime lobby_service of
     (r, s') \<Rightarrow> application_outcome ''c'' r s'"
  using recovery_completes_after_both_barriers [OF lobby_service_wf, of lobby_applied] by (simp add: lobby_applied_def)

text \<open>
  C20: The service is well formed after any requests, from any store whose journal explains its revisions and
  its outbox, as those that the store makes do: both stay so, every activity is of the campaign it is kept for, an open recovery and an active checkpoint exclude each
  other, an active checkpoint has no recovery open in the journal, and the sets of a recovery fit its stage
  and its checkpoint.
\<close>

theorem service_always_well_formed:
  assumes "ledger_wf d" "tables_wf d"
  shows "service_wf (run_ops serve (new_service d) xs)"
  by (rule service_machine.run_wf [OF new_service_wf [OF assms]])

theorem service_always_well_formed_witness:
  "service_wf (run_ops serve (new_service lobby_store) [(quiet_runtime, RequestCommand ''c'' 1 ''m2'' (CommandStart ''p''))])"
  by (rule service_always_well_formed [OF lobby_ledger lobby_tables])

text \<open>
  C12: What that means for the activities of a campaign: a checkpoint and a recovery are never open at once, a
  recovery acknowledges slots of one committed checkpoint only, and its snapshot is being applied
  only when every slot has loaded its save.
\<close>

theorem activities_exclude_each_other:
  assumes "ledger_wf d" "tables_wf d"
  shows "let s = run_ops serve (new_service d) xs in
    (sv_checkpoints s i = None \<or> sv_recoveries s i = None) \<and>
    (case sv_recoveries s i of None \<Rightarrow> True
     | Some a \<Rightarrow> if ra_stage a = StageRecoveryLock then ra_loaded a = {||} \<and> ra_applied a = {||}
       else \<exists>k ss. ra_checkpoint a = Some k \<and> committed_slots i k (sv_store s) = Some ss \<and>
         fset (ra_applied a) \<subseteq> slot_names ss \<and>
         (if ra_stage a = StageApplyingSnapshot then fset (ra_loaded a) = slot_names ss
          else fset (ra_loaded a) \<subseteq> slot_names ss \<and> ra_applied a = {||}))"
proof -
  have "service_wf (run_ops serve (new_service d) xs)" by (rule service_machine.run_wf [OF new_service_wf [OF assms]])
  then have inv: "campaign_inv i (run_ops serve (new_service d) xs)" unfolding service_wf_def ..
  show ?thesis
  proof (cases "sv_recoveries (run_ops serve (new_service d) xs) i")
    case None
    then show ?thesis by simp
  next
    case (Some a)
    with inv have "activity_wf i (sv_store (run_ops serve (new_service d) xs)) a"
      "sv_checkpoints (run_ops serve (new_service d) xs) i = None" by (auto simp: campaign_inv_def)
    with Some show ?thesis
      by (cases "ra_stage a = StageRecoveryLock"; cases "ra_stage a = StageApplyingSnapshot")
        (auto simp: activity_wf_def Let_def)
  qed
qed

theorem activities_exclude_each_other_witness:
  "let s = run_ops serve (new_service lobby_store) [(quiet_runtime, RequestAbandon ''c'')] in
    sv_checkpoints s ''c'' = None \<or> sv_recoveries s ''c'' = None"
  using activities_exclude_each_other [OF lobby_ledger lobby_tables, of "[(quiet_runtime, RequestAbandon ''c'')]" "''c''"]
  unfolding Let_def by (rule conjunct1)

text \<open>
  C17: Requests stay in their campaign: a request changes nothing of another campaign, neither its rows in
  any table of the store nor its active checkpoint nor its open recovery.
\<close>

theorem requests_stay_in_their_campaign:
  assumes "j \<noteq> request_campaign q"
  shows "campaign_in_service j (fst (serve s (env, q))) = campaign_in_service j s"
  using assms by (rule served_apart)

theorem requests_stay_in_their_campaign_witness:
  "campaign_in_service ''c'' (fst (serve lobby_service (quiet_runtime, RequestCreate ''d'' ''m3'' [example_member]))) =
     campaign_in_service ''c'' lobby_service"
  by (rule requests_stay_in_their_campaign) simp

end
