(* ===== verification/RuntimeRevisions.thy ===== *)
theory RuntimeRevisions
  imports RuntimeAggregate
begin

text \<open>
  What checkpoints and restores do to the campaign that the store holds: a candidate, the save of a slot
  and a commit leave everything of it but the version, and a restore makes it the campaign of the
  checkpoint, at the next version.
\<close>

section \<open>Mutations that move the revision only\<close>

lemma common_valid:
  assumes "validate_common_mutation i e m k w p xs = Store_None"
  shows "is_valid_identifier m" "k \<noteq> []" "length k \<le> kMaximumKindLength" "is_valid_payload p"
  using assms by (auto simp: validate_common_mutation_def split: if_splits)

definition revised :: "StoreOp \<Rightarrow> Database \<Rightarrow> Database \<Rightarrow> bool" where
  "revised op d d' \<longleftrightarrow> (let i = op_campaign op; e = op_expected op in
     \<exists>c k now j. find_campaign i d = Some c \<and> cr_revision c = e \<and> e < kMaximumRevision \<and>
       view i d' = ((Some (c\<lparr>cr_checkpoint := k, cr_revision := e + 1, cr_updated := now\<rparr>), snd (contents i d)),
         rows_of i d @ [j]) \<and>
       jr_kind j = op_kind op \<and> journal_row_valid j)"

lemma ends_row:
  assumes "view i d = ((Some c, x), y)" "validate_common_mutation i e m k w p os = Store_None" "leaves (view i) outbox"
  shows "ends (record_mutation (append_journal i m e v k g w p now cp cv) outbox) env (n, d)
    (\<lambda>_ d'. \<exists>j. view i d' = ((Some c, x), y @ [j]) \<and> journal_entry i m e v k w p cp cv j \<and> journal_row_valid j)"
  by (rule ends_mono [OF ends_record_view [OF assms(3)]])
    (use journal_entry_valid [OF _ common_valid [OF assms(2)]] in \<open>auto simp: viewD [OF assms(1)]\<close>)

lemma ends_revised:
  assumes "find_campaign i d0 = Some c" "cr_revision c = e" "e < kMaximumRevision"
    and "view i d = ((Some (c\<lparr>cr_checkpoint := k\<rparr>), snd (contents i d0)), rows_of i d0)"
    and "validate_common_mutation i e m (op_kind op) w p os = Store_None" "op_campaign op = i" "op_expected op = e"
  shows "ends (sql_bind (update_campaign_revision i e (e + 1) now) (\<lambda>_. sql_bind (inject_fault AfterCurrentState) (\<lambda>_.
      sql_bind (record_mutation (append_journal i m e (e + 1) (op_kind op) g w p now None None)
        (append_outbox i m (e + 1) xs now)) (\<lambda>_. sql_ret (e + 1))))) env (n, d)
    (\<lambda>v d'. v = e + 1 \<and> revised op d0 d')"
proof -
  have "cr_revision (c\<lparr>cr_checkpoint := k\<rparr>) = e" using assms(2) by simp
  note move = ends_revision_view [OF assms(4) this, where v = "e + 1" and now = now]
  show ?thesis
    apply (rule ends_bind [OF move])
    apply (rule ends_bind [OF ends_inject], hypsubst)
    apply (rule ends_bind [OF ends_row [OF _ assms(5) outbox_leaves_view]], assumption)
    apply (auto simp: sql_wp revised_def Let_def journal_entry_def assms(1-3,6,7))
    done
qed


lemma accepted_common:
  "op_rejection (OpCandidate q) = Store_None \<Longrightarrow> validate_common_mutation (ckr_campaign q) (ckr_expected q) (ckr_mutation q)
     ''CreateCheckpointCandidate'' (ckr_codec_version q) (ckr_payload q) (ckr_outbox q) = Store_None"
  "op_rejection (OpSlotSave s) = Store_None \<Longrightarrow> validate_common_mutation (rsr_campaign s) (rsr_expected s) (rsr_mutation s)
     ''RecordCheckpointSlotSave'' (rsr_codec_version s) (rsr_payload s) (rsr_outbox s) = Store_None"
  "op_rejection (OpCommit m) = Store_None \<Longrightarrow> validate_common_mutation (cmr_campaign m) (cmr_expected m) (cmr_mutation m)
     ''CommitCheckpoint'' (cmr_codec_version m) (cmr_payload m) (cmr_outbox m) = Store_None"
  "op_rejection (OpRestore t) = Store_None \<Longrightarrow> validate_common_mutation (rcr_campaign t) (rcr_expected t) (rcr_mutation t)
     ''RestoreCheckpoint'' (rcr_codec_version t) (rcr_payload t) [] = Store_None"
  "op_rejection (OpRestore t) = Store_None \<Longrightarrow> is_valid_payload (rcr_core_payload t)"
  by (auto simp: validate_candidate_def validate_slot_save_def validate_commit_def validate_restore_def reject_if_def Let_def
      split: if_splits)

lemma view_other:
  "view i (d\<lparr>t_snapshots := x\<rparr>) = view i d" "view i (d\<lparr>t_checkpoints := y\<rparr>) = view i d"
  "view i (d\<lparr>t_checkpoint_slots := z\<rparr>) = view i d" "view i (d\<lparr>t_outbox := w\<rparr>) = view i d"
  by (simp_all add: view_def contents_def rows_of_def find_campaign_def slots_of_def builds_of_def adapters_of_def)

lemma leaves_view:
  "leaves (view i) (insert_or_exists (insert_snapshot sn))" "leaves (view i) (insert_or_exists (insert_checkpoint cp))"
  "leaves (view i) (sql_each (\<lambda>s. step_only (insert_checkpoint_slot k i' s)) ss)"
  "leaves (view i) (step_only (update_checkpoint_slot i' k t))" "leaves (view i) (step_done (mark_committed i' k v now))"
proof -
  show "leaves (view i) (insert_or_exists (insert_snapshot sn))" "leaves (view i) (insert_or_exists (insert_checkpoint cp))"
    by (rule insert_or_exists_leaves,
        auto simp: insert_snapshot_def insert_checkpoint_def view_other split: if_splits)+
  show "leaves (view i) (sql_each (\<lambda>s. step_only (insert_checkpoint_slot k i' s)) ss)"
    by (intro leaves_intros leaves_step_only) (auto simp: insert_checkpoint_slot_def view_other split: if_splits)
  show "leaves (view i) (step_only (update_checkpoint_slot i' k t))"
    by (intro leaves_step_only) (auto simp: update_checkpoint_slot_def view_other Let_def)
  show "leaves (view i) (step_done (mark_committed i' k v now))"
    by (intro leaves_step) (auto simp: mark_committed_def view_other Let_def)
qed

lemma ends_view: "leaves (view i) m \<Longrightarrow> view i d = w \<Longrightarrow> ends m env (n, d) (\<lambda>_ d'. view i d' = w)"
  by (rule ends_mono [OF ends_leaves]) auto

lemma view_start:
  "find_campaign i d = Some c \<Longrightarrow> view i d = ((Some (c\<lparr>cr_checkpoint := cr_checkpoint c\<rparr>), snd (contents i d)), rows_of i d)"
  by (simp add: view_def contents_def)

lemma candidate_revised:
  assumes "op_rejection (OpCandidate r) = Store_None"
  shows "ends (candidate_body r g now) env (n, d) (\<lambda>v d'. v = ckr_expected r + 1 \<and> revised (OpCandidate r) d d')"
  unfolding candidate_body_def Let_def
proof (rule ends_bind [OF ends_load_projection], rule ends_bind [OF ends_require_true],
    rule ends_bind [OF ends_require_true], rule ends_bind [OF ends_require_true],
    rule ends_bind [OF ends_require_true], goal_cases)
  case (1 p n1 d1 u2 n2 d2 u3 n3 d3 u4 n4 d4 u5 n5 d5)
  then have start: "d5 = d" "find_campaign (ckr_campaign r) d = Some (pr_campaign p)"
    "cr_revision (pr_campaign p) = ckr_expected r" "ckr_expected r < kMaximumRevision" by auto
  note finish = ends_revised [OF start(2-4) _ accepted_common(1) [OF assms, folded op_kind.simps(3) [of r]],
      unfolded op_kind.simps op_campaign.simps op_expected.simps, OF _ refl refl]
  show ?case
    unfolding start(1)
    apply (split prod.split, intro allI impI)
    apply (rule ends_bind [OF ends_require_true], elim conjE, hypsubst)
    apply (rule ends_bind [OF ends_view [OF leaves_view(1) view_start [OF start(2)]]])
    apply (rule ends_bind [OF ends_view [OF leaves_view(2)]], assumption)
    apply (rule ends_bind [OF ends_view [OF leaves_view(3)]], assumption)
    apply (erule finish)
    done
qed

lemma slot_save_revised:
  assumes "op_rejection (OpSlotSave r) = Store_None"
  shows "ends (slot_save_body r g now) env (n, d) (\<lambda>v d'. v = rsr_expected r + 1 \<and> revised (OpSlotSave r) d d')"
proof -
  let ?i = "rsr_campaign r" and ?e = "rsr_expected r"
  have tail: "ends (sql_bind (step_only (update_checkpoint_slot ?i (rsr_checkpoint r) (rsr_slot r))) (\<lambda>_.
      sql_bind (update_campaign_revision ?i ?e (?e + 1) now) (\<lambda>_. sql_bind (inject_fault AfterCurrentState) (\<lambda>_.
      sql_bind (record_mutation (append_journal ?i (rsr_mutation r) ?e (?e + 1) ''RecordCheckpointSlotSave''
          g (rsr_codec_version r) (rsr_payload r) now None None)
        (append_outbox ?i (rsr_mutation r) (?e + 1) (rsr_outbox r) now)) (\<lambda>_. sql_ret (?e + 1)))))) env (n', d)
      (\<lambda>v d'. v = ?e + 1 \<and> revised (OpSlotSave r) d d')"
    if "find_campaign ?i d = Some c" "cr_revision c = ?e" "?e < kMaximumRevision" for n' c
    apply (rule ends_bind [OF ends_view [OF leaves_view(4) view_start [OF that(1)]]])
    apply (erule ends_revised [OF that _ accepted_common(2) [OF assms, folded op_kind.simps(4) [of r]],
        unfolded op_kind.simps op_campaign.simps op_expected.simps, OF _ refl refl])
    done
  show ?thesis
    unfolding slot_save_body_def Let_def
  proof (rule ends_bind [OF ends_current_record [THEN ends_or_fail [THEN iffD2]]],
      rule ends_bind [OF ends_expected [THEN ends_or_fail [THEN iffD2]]], elim conjE exE, hypsubst,
      rule ends_bind [OF ends_read], intro leaves_intros, hypsubst, goal_cases)
    case 1
    then obtain c where "find_campaign ?i d = Some c" "cr_revision c = ?e" "?e < kMaximumRevision" by auto
    from tail [OF this] show ?case by (auto simp: sql_wp split: option.split prod.split)
  qed
qed

lemma commit_revised:
  assumes "op_rejection (OpCommit r) = Store_None"
  shows "ends (commit_body r g now) env (n, d) (\<lambda>v d'. v = cmr_expected r + 1 \<and> revised (OpCommit r) d d')"
proof -
  let ?i = "cmr_campaign r" and ?e = "cmr_expected r" and ?k = "cmr_checkpoint r"
  have select: "ends (step_done (select_checkpoint ?i ?k ?e v now)) env (n', d1)
      (\<lambda>_ d'. view ?i d' = ((Some (c\<lparr>cr_checkpoint := Some ?k, cr_revision := v, cr_updated := now\<rparr>), snd (contents ?i d)), rows_of ?i d))"
    if "view ?i d1 = view ?i d" "find_campaign ?i d = Some c" "cr_revision c = ?e" for v n' d1 c
  proof (rule ends_step)
    fix rows d' assume "select_checkpoint ?i ?k ?e v now d1 = Inr (rows, d')"
    then have "update_campaign ?i (\<lambda>c. cr_revision c = ?e)
        (\<lambda>c. c\<lparr>cr_checkpoint := Some ?k, cr_revision := v, cr_updated := now\<rparr>) d1 = Inr (rows, d')"
      by (auto simp: select_checkpoint_def split: if_splits)
    from update_campaign_view [OF this, of c] that
    show "view ?i d' = ((Some (c\<lparr>cr_checkpoint := Some ?k, cr_revision := v, cr_updated := now\<rparr>), snd (contents ?i d)), rows_of ?i d)"
      by (simp add: view_def contents_def)
  qed
  show ?thesis
    unfolding commit_body_def Let_def
  proof (rule ends_bind [OF ends_load_checkpoint [THEN ends_or_fail [THEN iffD2]]], hypsubst, goal_cases)
    case (1 ck n1)
    show ?case
    proof (cases "ck_is_committed ck")
      case True
      then show ?thesis by (auto simp: sql_holds_def split: sum.splits prod.splits)
    next
      case False
      show ?thesis
        unfolding if_not_P [OF False] ends_or_fail
      proof (rule ends_bind [OF ends_current_record], rule ends_bind [OF ends_expected], elim conjE exE, hypsubst,
          rule ends_bind [OF ends_require_true], elim conjE, hypsubst, goal_cases)
        case 1
        then obtain c where c: "find_campaign ?i d = Some c" "cr_revision c = ?e" "?e < kMaximumRevision" by auto
        note v = if_P [OF TrueI]
        show ?case
          unfolding v
          apply (rule ends_bind [OF ends_view [OF leaves_view(5) refl]])
          apply (rule ends_bind [OF ends_require_true], elim conjE, hypsubst)
          apply (rule ends_bind [OF select [OF _ c(1,2)]], assumption)
          apply (rule ends_bind [OF ends_require_true], elim conjE, hypsubst)
          apply (rule ends_bind [OF ends_inject], hypsubst)
          apply (rule ends_bind [OF ends_row [OF _ accepted_common(3) [OF assms] outbox_leaves_view]], assumption)
          apply (auto simp: sql_wp revised_def Let_def journal_entry_def c)
          done
      qed
    qed
  qed
qed

section \<open>Rows that can be read again\<close>

text \<open>The hash columns of a build: sixteen hexadecimal digits are read back as the value they were written for.\<close>

unbundle bit_operations_syntax

lemma hex_value_digit:
  assumes "d < 16"
  shows "hex_value (hex_digit d) = Some (of_nat d)"
proof -
  have "list_all (\<lambda>d. hex_value (hex_digit d) = Some (of_nat d)) [0 ..< 16]" by code_simp
  then show ?thesis using assms by (simp add: list_all_iff)
qed

lemma nibbles: "push_bit 4 (drop_bit 4 x) OR (x AND 15) = x" for x :: u64
proof -
  have "x AND 15 = take_bit 4 x" by (simp add: take_bit_eq_mask mask_eq_exp_minus_1)
  moreover have "push_bit 4 (drop_bit 4 x) OR take_bit 4 x = x" 
    by (rule bit_eqI) (auto simp: bit_simps)
  ultimately show ?thesis by simp
qed

lemma parse_digits:
  "n \<le> 16 \<Longrightarrow> parse_hex_digits (drop_bit (4 * n) h)
     (map (\<lambda>i. hex_digit (unat (drop_bit (4 * (15 - i)) h AND 0xF))) [16 - n ..< 16]) = Some h"
proof (induction n)
  case (Suc n)
  let ?x = "drop_bit (4 * n) h"
  have "[16 - Suc n ..< 16] = (16 - Suc n) # [16 - n ..< 16]"
    using Suc.prems upt_conv_Cons [of "16 - Suc n" 16] by (simp add: Suc_diff_le [symmetric])
  moreover have "15 - (16 - Suc n) = n" using Suc.prems by simp
  moreover have "hex_value (hex_digit (unat (?x AND 0xF))) = Some (?x AND 0xF)"
  proof -
    have "?x AND 0xF = take_bit 4 ?x" by (simp add: take_bit_eq_mask mask_eq_exp_minus_1)
    then have "unat (?x AND 0xF) < 16" 
      using take_bit_nat_less_exp [of 4 "unat ?x"] by (simp add: unsigned_take_bit_eq)
    from hex_value_digit [OF this] show ?thesis by simp
  qed
  moreover have "push_bit 4 (drop_bit (4 * Suc n) h) OR (?x AND 0xF) = ?x"
    using nibbles [of ?x] by (simp add: add.commute)
  ultimately show ?case using Suc by simp
qed simp

lemma parse_hex: "parse_hex64 (hex16 h) = Some h"
proof -
  have "drop_bit 64 h = 0" by (rule bit_eqI) (simp add: bit_simps)
  then show ?thesis
  using parse_digits [of 16 h] by (simp add: parse_hex64_def hex16_def del: upt_Suc)
qed

lemma built_row_reads:
  "encode_character_build b = (Store_None, e) \<Longrightarrow> v \<le> kMaximumRevision \<Longrightarrow> read_build_row (build_row i b e v) \<noteq> None"
  using decode_encoded_build [of b e] by (simp add: read_build_row_def build_row_def parse_hex)

text \<open>
  The statements of a restore beside the record of the campaign leave its record, roster and journal
  alone, and leave builds and adapter states that can be read.
\<close>

definition rows_valid :: "string \<Rightarrow> Database \<Rightarrow> bool" where
  "rows_valid i d \<longleftrightarrow> list_all (\<lambda>r. read_build_row r \<noteq> None) (builds_of i d) \<and> list_all adapter_row_valid (adapters_of i d)"

definition rest_kept :: "string \<Rightarrow> Database \<Rightarrow> Database \<Rightarrow> bool" where
  "rest_kept i d d' \<longleftrightarrow> find_campaign i d' = find_campaign i d \<and> slots_of i d' = slots_of i d \<and>
     rows_of i d' = rows_of i d \<and> (rows_valid i d \<longrightarrow> rows_valid i d')"

interpretation rest: frame "rest_kept i" for i
  by unfold_locales (auto simp: rest_kept_def)

lemma kept_builds:
  assumes "\<forall>r \<in> set rows. r \<in> set (t_builds d) \<or> br_campaign r \<noteq> i \<or> read_build_row r \<noteq> None"
  shows "rest_kept i d (d\<lparr>t_builds := rows\<rparr>)"
  using assms
  by (auto simp: rest_kept_def rows_valid_def find_campaign_def slots_of_def rows_of_def builds_of_def adapters_of_def
      list_all_iff)

lemma kept_adapters:
  assumes "\<forall>(k, a) \<in> set rows. (k, a) \<in> set (t_adapters d) \<or> k \<noteq> i \<or> adapter_row_valid a"
  shows "rest_kept i d (d\<lparr>t_adapters := rows\<rparr>)"
  using assms
  by (fastforce simp: rest_kept_def rows_valid_def find_campaign_def slots_of_def rows_of_def builds_of_def adapters_of_def
      list_all_iff)

lemma upsert_set: "r \<in> set (upsert key row rows) \<Longrightarrow> r \<in> set rows \<or> r = row"
  by (auto simp: upsert_def split: if_splits)

lemma keeps_rest:
  "rest.keeps i (step_only (delete_builds i))" "rest.keeps i (step_only (delete_adapters i))"
  "rest.keeps i (step_only (supersede_outbox i v))"
  "v \<le> kMaximumRevision \<Longrightarrow> rest.keeps i (upsert_character_build i b v)"
  "validate_adapter_state a = Store_None \<Longrightarrow> rest.keeps i (upsert_adapter_state i a v)"
proof -
  show "rest.keeps i (step_only (delete_builds i))"
    by (rule rest.keeps_step_only) (auto simp: delete_builds_def intro!: kept_builds)
  show "rest.keeps i (step_only (delete_adapters i))"
    by (rule rest.keeps_step_only) (auto simp: delete_adapters_def intro!: kept_adapters)
  show "rest.keeps i (step_only (supersede_outbox i v))"
    by (rule rest.keeps_step_only)
      (auto simp: supersede_outbox_def Let_def rest_kept_def rows_valid_def find_campaign_def slots_of_def rows_of_def
        builds_of_def adapters_of_def)
  show "rest.keeps i (upsert_character_build i b v)" if "v \<le> kMaximumRevision"
  proof (cases "encode_character_build b")
    case (Pair e encoded)
    show ?thesis
    proof (cases "e = Store_None")
      case True
      with Pair that have "read_build_row (build_row i b encoded v) \<noteq> None" by (intro built_row_reads) simp_all
      then show ?thesis
        unfolding upsert_character_build_def verify_slot_binding_def Pair prod.case
        by (intro rest.keeps_intros rest.keeps_step_only)
          (auto simp: upsert_build_row_def intro!: kept_builds dest!: upsert_set split: if_splits)
    next
      case False
      then show ?thesis
        unfolding upsert_character_build_def verify_slot_binding_def Pair prod.case
        by (auto simp: rest.keeps_def sql_wp rest.refl split: option.split)
    qed
  qed
  show "rest.keeps i (upsert_adapter_state i a v)" if "validate_adapter_state a = Store_None"
    unfolding upsert_adapter_state_def
    by (rule rest.keeps_step_only)
      (use that in \<open>auto simp: upsert_adapter_row_def adapter_row_valid_def validate_adapter_state_def
        intro!: kept_adapters dest!: upsert_set split: if_splits\<close>)
qed

section \<open>A restore\<close>

lemma ends_steady: "steady m \<Longrightarrow> ends m env (n, d) (\<lambda>x d'. d' = d \<and> answers m d = Inr x)"
  unfolding steady_def answers_def sql_holds_def
  by (auto split: sum.splits prod.splits) (metis fst_conv snd_conv)+

lemma ends_rest: "rest.keeps i m \<Longrightarrow> ends m env (n, d) (\<lambda>_ d'. rest_kept i d d')"
  by (rule sql_holds_mono [OF rest.keepsD]) auto

text \<open>What a restore leaves, up to the builds and adapter states.\<close>

definition restored_state :: "RestoreCheckpointRequest \<Rightarrow> Database \<Rightarrow> Database \<Rightarrow> bool" where
  "restored_state r d d' \<longleftrightarrow> (let i = rcr_campaign r; e = rcr_expected r in
     \<exists>c p now j ck bs as. find_campaign i d = Some c \<and> cr_revision c = e \<and> e < kMaximumRevision \<and>
       answers (load_checkpoint i (rcr_checkpoint r)) d = Inr ck \<and> ck_is_committed ck \<and>
       list_all2 same_identity (ck_slots ck) (sort_key rec_slot (slots_of i d)) \<and>
       cr_codec_version (pr_campaign p) = rcr_core_version r \<and>
       view i d' = ((Some (restored_record r p now c), slots_of i d, bs, as), rows_of i d @ [j]) \<and>
       list_all (\<lambda>r. read_build_row r \<noteq> None) bs \<and> list_all adapter_row_valid as \<and>
       journal_entry i (rcr_mutation r) e (e + 1) ''RestoreCheckpoint'' (rcr_codec_version r) (rcr_payload r)
         (Some (rcr_checkpoint r)) (Some (ck_source_revision ck)) j \<and> journal_row_valid j)"

lemma restored_rows:
  assumes "find_campaign i d = Some c" "cr_revision c = rcr_expected r" "rcr_expected r < kMaximumRevision"
    "rows_valid i d" "list_all (\<lambda>a. validate_adapter_state a = Store_None) (pr_adapters p)" "i = rcr_campaign r"
  shows "ends (write_restored_state r p (rcr_expected r + 1) now) env (n, d) (\<lambda>_ d'.
     find_campaign i d' = Some (restored_record r p now c) \<and> slots_of i d' = slots_of i d \<and> rows_of i d' = rows_of i d \<and>
     rows_valid i d')"
proof -
  let ?v = "rcr_expected r + 1"
  have v: "?v \<le> kMaximumRevision" using assms(3) by (metis inc_le)
  have rest: "rest.keeps i (sql_bind (step_only (delete_builds i)) (\<lambda>_. sql_bind (step_only (delete_adapters i)) (\<lambda>_.
      sql_bind (sql_each (\<lambda>b. upsert_character_build i (b\<lparr>cb_revision := ?v\<rparr>) ?v) (pr_builds p)) (\<lambda>_.
      sql_bind (sql_each (\<lambda>a. upsert_adapter_state i a ?v) (pr_adapters p)) (\<lambda>_. step_only (supersede_outbox i ?v))))))"
    by (intro rest.keeps_bind rest.keeps_each keeps_rest v) (use assms(5) in \<open>simp add: list_all_iff\<close>)
  have update: "ends (step_done (update_campaign i (\<lambda>c. cr_revision c = rcr_expected r)
      (\<lambda>c. c\<lparr>cr_codec_version := cr_codec_version (pr_campaign p), cr_payload := rcr_core_payload r,
        cr_revision := ?v, cr_updated := now\<rparr>))) env (n, d)
      (\<lambda>_ d'. view i d' = ((Some (restored_record r p now c), snd (contents i d)), rows_of i d))"
    by (rule ends_mono [OF ends_update [OF _ assms(1)]]) (simp_all add: assms(2) restored_record_def)
  show ?thesis
    unfolding write_restored_state_def Let_def assms(6) [symmetric]
    apply (rule ends_bind [OF update])
    apply (rule ends_bind [OF ends_require_true], elim conjE, hypsubst)
    apply (rule ends_mono [OF ends_rest [OF rest]])
    using assms(4)
    apply (auto simp: rest_kept_def view_def contents_def rows_valid_def)
    done
qed

lemma restore_revised:
  assumes "op_rejection (OpRestore r) = Store_None" "snapshots_wf d"
  shows "ends (restore_body r g now) env (n, d) (\<lambda>v d'. v = rcr_expected r + 1 \<and> restored_state r d d')"
proof -
  let ?i = "rcr_campaign r" and ?e = "rcr_expected r"
  have outbox: "leaves (view ?i) (case encode_snapshot q of (e, payload) \<Rightarrow> sql_bind (sql_require (e = Store_None) e)
      (\<lambda>_. append_outbox ?i (rcr_mutation r) (?e + 1)
        [\<lparr>oi_codec_version = kCampaignSnapshotCodecVersion, oi_payload = payload\<rparr>] now))" for q
    by (intro leaves_intros outbox_leaves_view)
  show ?thesis
    unfolding restore_body_def Let_def
  proof (rule ends_bind [OF ends_steady [OF steady_loads(2)]], rule ends_bind [OF ends_require_true],
      rule ends_bind [OF ends_require_true], rule ends_bind [OF ends_steady [OF steady_loads(4)]],
      rule ends_bind [OF ends_require_true], rule ends_bind [OF ends_snapshot_row],
      rule ends_bind [OF ends_require_true], rule ends_bind [OF ends_require_true], goal_cases)
    case (1 current n1 d1 u1 n2 d2 u2 n3 d3 ck n4 d4 u3 n5 d5 p n6 d6 u4 n7 d7 u5 n8 d8)
    then have start: "d8 = d" "answers (load_campaign_projection ?i server_audience) d = Inr current"
        "cr_revision (pr_campaign current) = ?e" "?e < kMaximumRevision"
        "answers (load_checkpoint ?i (rcr_checkpoint r)) d = Inr ck" "ck_is_committed ck"
        "cr_codec_version (pr_campaign p) = rcr_core_version r" "list_all2 same_identity (ck_slots ck) (pr_slots current)"
      by auto
    obtain s where "find_snapshot ?i (ck_snapshot ck) d = Some s" "decode_snapshot (sn_payload s) = Inr p"
      using 1 by auto
    moreover from this have "s \<in> set (t_snapshots d)" by (auto simp: find_snapshot_def find_Some_iff)
    ultimately have valid: "list_all (\<lambda>a. validate_adapter_state a = Store_None) (pr_adapters p)"
      using assms(2) by (auto simp: snapshots_wf_def projection_wf_def)
    from start(2) obtain c ss bs as where c: "contents ?i d = (Some c, ss, bs, as)"
        "list_all (\<lambda>r. read_build_row r \<noteq> None) bs" "list_all adapter_row_valid as" "current = projection_of c ss bs as"
      by (auto simp: answers_projection)
    then have found: "find_campaign ?i d = Some c" "cr_revision c = ?e" "rows_valid ?i d"
        "pr_slots current = sort_key rec_slot (slots_of ?i d)"
      using start(3) by (auto simp: contents_def rows_valid_def projection_of_def)
    show ?case
      unfolding start(1)
      apply (rule ends_bind [OF restored_rows [OF found(1,2) start(4) found(3) valid refl]])
      apply (rule ends_bind [OF ends_inject], hypsubst)
      apply (rule ends_bind [OF ends_row [OF _ accepted_common(4) [OF assms(1)] outbox]])
       apply (simp add: view_def contents_def)
      apply (simp add: sql_wp restored_state_def Let_def found(1,2) start(4-6) rows_valid_def)
      using start(7) start(8) [unfolded found(4)]
      apply blast
      done
  qed
qed

section \<open>The stored campaign after them\<close>

lemma revised_effect:
  assumes "store_mutate op env d = (x, d')"
    and "op = OpCandidate q \<or> op = OpSlotSave t \<or> op = OpCommit m"
  shows "(not_applied x \<and> d' = d) \<or> revised op d d'"
proof (cases "op_rejection op = Store_None")
  case False
  then show ?thesis using assms(1) op_rejected [OF False] by (auto simp: not_applied_def mutation_failure_def)
next
  case accepted: True
  from assms(2) consider "op = OpCandidate q" | "op = OpSlotSave t" | "op = OpCommit m" by blast
  then show ?thesis
  proof cases
    case 1
    note a = accepted [unfolded 1]
    have "run_mutation (ckr_campaign q) (ckr_mutation q) (candidate_digest q)
        (sql_bind (or_fail (candidate_body q (candidate_digest q) (env_now env))) (\<lambda>v. sql_ret (mutation_done v True))) env d = (x, d')"
      using assms(1) a by (simp add: 1 create_checkpoint_candidate_def Let_def split: if_splits)
    from run_body_effect [OF fails_or_fail [OF candidate_fails] ends_or_fail [THEN iffD2, OF candidate_revised [OF a]] this] 1
    show ?thesis by blast
  next
    case 2
    note a = accepted [unfolded 2]
    have "run_mutation (rsr_campaign t) (rsr_mutation t) (slot_save_digest t)
        (sql_bind (slot_save_body t (slot_save_digest t) (env_now env)) (\<lambda>v. sql_ret (mutation_done v True))) env d = (x, d')"
      using assms(1) a by (simp add: 2 record_checkpoint_slot_save_def Let_def split: if_splits)
    from run_body_effect [OF slot_save_fails slot_save_revised [OF a] this] 2 show ?thesis by blast
  next
    case 3
    note a = accepted [unfolded 3]
    have "run_mutation (cmr_campaign m) (cmr_mutation m) (commit_digest m)
        (sql_bind (commit_body m (commit_digest m) (env_now env)) (\<lambda>v. sql_ret (mutation_done v True))) env d = (x, d')"
      using assms(1) a by (simp add: 3 commit_checkpoint_def Let_def split: if_splits)
    from run_body_effect [OF commit_fails commit_revised [OF a] this] 3 show ?thesis by blast
  qed
qed

lemma restored_effect:
  assumes "store_mutate (OpRestore q) env d = (x, d')" "snapshots_wf d"
  shows "(not_applied x \<and> d' = d) \<or>
    (op_rejection (OpRestore q) = Store_None \<and> x = mutation_done (rcr_expected q + 1) True \<and> restored_state q d d')"
proof (cases "op_rejection (OpRestore q) = Store_None")
  case True
  have "run_mutation (rcr_campaign q) (rcr_mutation q) (restore_digest q)
      (sql_bind (or_fail (restore_body q (restore_digest q) (env_now env))) (\<lambda>v. sql_ret (mutation_done v True))) env d = (x, d')"
    using assms(1) True by (simp add: restore_checkpoint_snapshot_def Let_def split: if_splits)
  from run_body_effect [OF fails_or_fail [OF restore_fails] ends_or_fail [THEN iffD2, OF restore_revised [OF True assms(2)]] this] True
  show ?thesis by blast
next
  case False
  then show ?thesis using assms(1) op_rejected [OF False] by (auto simp: not_applied_def mutation_failure_def)
qed

lemma revised_stored:
  assumes wf: "ledger_wf d" "ledger_wf d'" and stored: "stored_campaign i d = Some c"
    and revised: "revised op d d'" and op: "op_campaign op = i"
      "op_kind op \<in> {''CreateCheckpointCandidate'', ''RecordCheckpointSlotSave'', ''CommitCheckpoint''}"
  shows "stored_campaign i d' = Some (c\<lparr>c_version := c_version c + 1\<rparr>)"
proof -
  obtain p js where load: "answers (load_campaign_projection i server_audience) d = Inr p"
    "answers (load_journal i) d = Inr js" "aggregate_of p js = Inr c" using stored by (auto simp: stored_campaign_iff)
  then obtain row ss bs as where before: "contents i d = (Some row, ss, bs, as)" "record_valid row"
      "list_all slot_record_valid ss" "list_all (\<lambda>r. read_build_row r \<noteq> None) bs" "list_all adapter_row_valid as"
      "p = projection_of row ss bs as"
    and i: "is_valid_identifier i" by (auto simp: answers_projection)
  have found: "find_campaign i d = Some row" using before(1) by (simp add: contents_def)
  let ?v = "c_version c + 1"
  have version: "c_version c = cr_revision row"
    using stored_holds [OF wf(1) stored] before(1) by (auto simp: holds_campaign_def)
  with revised op(1) found obtain k now j where limit: "c_version c < kMaximumRevision"
    and view: "view i d' = ((Some (row\<lparr>cr_checkpoint := k, cr_revision := ?v, cr_updated := now\<rparr>), ss, bs, as), rows_of i d @ [j])"
    and j: "jr_kind j = op_kind op" "journal_row_valid j"
    unfolding revised_def Let_def by (auto simp: before(1))
  let ?row = "row\<lparr>cr_checkpoint := k, cr_revision := ?v, cr_updated := now\<rparr>"
  have "?v \<le> kMaximumRevision" using limit by (metis inc_le)
  then have row_valid: "record_valid ?row" using before(2) by (simp add: record_valid_def)
  have js: "js = map strip_digest (rows_of i d)" "list_all journal_row_valid (rows_of i d)"
    using load(2) by (simp_all add: answers_journal [OF wf(1)])
  have quiet: "\<not> produces_core_state (strip_digest j)" "jr_kind (strip_digest j) \<noteq> ''RestoreCheckpoint''"
    using op(2) j(1) by (auto simp: produces_core_state_def)
  have "answers (load_campaign_projection i server_audience) d' = Inr (projection_of ?row ss bs as)"
    using view i row_valid before(3-5) by (simp add: answers_projection view_def)
  moreover have "answers (load_journal i) d' = Inr (js @ [strip_digest j])"
    using view i js j(2) by (simp add: answers_journal [OF wf(2)] view_def)
  moreover have "aggregate_of (projection_of ?row ss bs as) (js @ [strip_digest j]) =
      aggregate_of (p\<lparr>pr_campaign := pr_campaign p\<lparr>cr_revision := ?v, cr_updated := now\<rparr>\<rparr>) (js @ [strip_digest j])"
    by (simp add: aggregate_of_def before(6) projection_of_def cong: option.case_cong sum.case_cong if_cong)
  ultimately show ?thesis
    using aggregate_of_snoc [where v = ?v and u = now, OF load(3) quiet] by (auto simp: stored_campaign_iff)
qed

lemma restored_stored:
  assumes wf: "ledger_wf d" "ledger_wf d'" and stored: "stored_campaign i d = Some c"
    and restored: "restored_state q d d'" and accepted: "op_rejection (OpRestore q) = Store_None"
    and request: "rcr_campaign q = i" "rcr_core_version q = kCampaignCoreCodecVersion"
      "encode_core_state c' [] = (Store_None, rcr_core_payload q)"
    and after: "c_id c' = i" "c_sealed c' = c_sealed c" "c_version c' = rcr_expected q + 1" "canonical_roster (c_roster c')"
      "mset (map slot_record (c_roster c')) = mset (slots_of i d)"
  shows "stored_campaign i d' = Some c'" "c_version c = rcr_expected q"
proof -
  from stored_holds [OF wf(1) stored] obtain row ss bs0 as0 where before: "contents i d = (Some row, ss, bs0, as0)"
      "record_valid row" "list_all slot_record_valid ss" "c_version c = cr_revision row" "c_sealed c = cr_sealed row"
    and i: "is_valid_identifier i" and rows: "list_all journal_row_valid (rows_of i d)"
    by (auto simp: holds_campaign_def)
  have found: "find_campaign i d = Some row" "slots_of i d = ss" using before(1) by (simp_all add: contents_def)
  let ?v = "rcr_expected q + 1"
  from restored obtain p now j ck bs as where expected: "cr_revision row = rcr_expected q" "rcr_expected q < kMaximumRevision"
    and codec: "cr_codec_version (pr_campaign p) = kCampaignCoreCodecVersion"
    and view: "view i d' = ((Some (restored_record q p now row), ss, bs, as), rows_of i d @ [j])"
    and valid: "list_all (\<lambda>r. read_build_row r \<noteq> None) bs" "list_all adapter_row_valid as" "journal_row_valid j"
    and entry: "journal_entry i (rcr_mutation q) (rcr_expected q) ?v ''RestoreCheckpoint'' (rcr_codec_version q)
      (rcr_payload q) (Some (rcr_checkpoint q)) (Some (ck_source_revision (ck :: CheckpointRecord))) j"
    unfolding restored_state_def Let_def request found option.inject by blast
  show "c_version c = rcr_expected q" using before(4) expected(1) by simp
  let ?row = "restored_record q p now row"
  have "?v \<le> kMaximumRevision" using expected(2) by (metis inc_le)
  then have row_valid: "record_valid ?row"
    using before(2) accepted_common(5) [OF accepted] codec
    by (simp add: record_valid_def restored_record_def kCampaignCoreCodecVersion_def)
  have id: "cr_id ?row = c_id c'" using find_campaign_id [OF found(1)] after(1) by (simp add: restored_record_def)
  have members: "mset (sort_key rec_slot ss) = mset (map slot_record (c_roster c'))"
    using after(5) found(2) by simp
  have decoded: "decode_core_state (cr_id ?row) (cr_sealed ?row) (sort_key rec_slot ss) ?v (cr_payload ?row) = Inr c'"
    using decode_encoded_core [OF request(3) after(4) members] id after(2,3) before(5) by (simp add: restored_record_def)
  have produces: "produces_core_state (strip_digest j)"
    using entry less_next_revision [OF expected(2)] by (simp add: produces_core_state_def journal_entry_def)
  have "answers (load_campaign_projection i server_audience) d' = Inr (projection_of ?row ss bs as)"
    using view i row_valid before(3) valid by (simp add: answers_projection view_def)
  moreover have "answers (load_journal i) d' = Inr (map strip_digest (rows_of i d @ [j]))"
    using view i rows valid(3) by (simp add: answers_journal [OF wf(2)] view_def)
  moreover have "aggregate_of (projection_of ?row ss bs as) (map strip_digest (rows_of i d @ [j])) = Inr c'"
    using produces decoded entry after(3) codec
    by (simp add: aggregate_of_def projection_of_def decode_canonical_core_state_def journal_entry_def)
      (simp add: restored_record_def)
  ultimately show "stored_campaign i d' = Some c'" by (auto simp: stored_campaign_iff)
qed

end
