(* ===== verification/RuntimeHistory.thy ===== *)
theory RuntimeHistory
  imports RuntimeContract RuntimeRevisions
begin

text \<open>
  The history of a campaign under all requests of the service: what each request can make of the
  campaign that the store holds, commands, checkpoints and recoveries alike, and that it always stays there.
\<close>

section \<open>Relations that handlers keep\<close>

definition svc_related :: "(RuntimeService \<Rightarrow> RuntimeService \<Rightarrow> bool) \<Rightarrow> ('e, 'a) svc \<Rightarrow> bool" where
  "svc_related R m \<longleftrightarrow> (\<forall>env k s. R s (snd (snd (m env (k, s)))))"

lemma svc_relatedD: "svc_related R m \<Longrightarrow> m env (k, s) = (r, k', s') \<Longrightarrow> R s s'"
  unfolding svc_related_def by (metis snd_conv)

definition op_related :: "(RuntimeService \<Rightarrow> RuntimeService \<Rightarrow> bool) \<Rightarrow> StoreOp \<Rightarrow> bool" where
  "op_related R op \<longleftrightarrow> (\<forall>env s. R s (s\<lparr>sv_store := snd (store_mutate op env (sv_store s))\<rparr>))"

lemma related_mutate: "op_related R op \<Longrightarrow> svc_related R (svc_mutate op)"
  by (simp add: svc_related_def op_related_def svc_mutate_def split: prod.split) (metis snd_conv)

lemma related_error: "svc_related R m \<Longrightarrow> svc_related R (svc_error f m)"
  by (auto simp: svc_related_def svc_error_def split: prod.split sum.split) (metis snd_conv)+

lemma related_cases:
  "(\<And>x. svc_related R (f x)) \<Longrightarrow> svc_related R g \<Longrightarrow> svc_related R (case v of None \<Rightarrow> g | Some x \<Rightarrow> f x)"
  "(\<And>a b. svc_related R (p a b)) \<Longrightarrow> svc_related R (case z of (a, b) \<Rightarrow> p a b)"
  "svc_related R m \<Longrightarrow> svc_related R m' \<Longrightarrow> svc_related R (if b then m else m')"
  by (auto split: option.splits prod.splits)

text \<open>A relation between services that depends on their stores.\<close>

locale store_relation =
  fixes R :: "RuntimeService \<Rightarrow> RuntimeService \<Rightarrow> bool"
  assumes same_store: "sv_store s' = sv_store s \<Longrightarrow> R s s'"
    and related_trans: "R s1 s2 \<Longrightarrow> R s2 s3 \<Longrightarrow> R s1 s3"
begin

lemma related_leaves: "svc_leaves sv_store m \<Longrightarrow> svc_related R m"
  by (simp add: svc_related_def svc_leaves_def same_store)

lemma related_bind:
  assumes "svc_related R m" "\<And>x. svc_related R (h x)"
  shows "svc_related R (svc_bind m h)"
  unfolding svc_related_def
proof (intro allI)
  fix env k s
  obtain r k1 s1 where m: "m env (k, s) = (r, k1, s1)" by (metis prod_cases3)
  with svc_relatedD [OF assms(1) m] assms(2) related_trans
  show "R s (snd (snd (svc_bind m h env (k, s))))"
    by (cases r) (auto simp: svc_bind_def svc_related_def)
qed

lemma related_put: "(\<And>s. sv_store (f s) = sv_store s) \<Longrightarrow> svc_related R (svc_put f)"
  by (simp add: svc_related_def svc_put_def same_store)

lemma related_basic:
  "svc_related R (svc_ret x)" "svc_related R (svc_fail e)" "svc_related R (svc_get g)" "svc_related R (svc_env h)"
  "svc_related R (svc_require b e)" "svc_related R (clear_checkpoint i)" "svc_related R (put_recovery i a)"
  "svc_related R (clear_recovery i)"
  unfolding clear_checkpoint_def put_recovery_def clear_recovery_def
  by (simp_all add: related_leaves leaves_basic related_put)

lemma related_loads:
  "steady l \<Longrightarrow> svc_related R (svc_error f (svc_load l))" "svc_related R (load_aggregate i)"
  "svc_related R (svc_encode e)" "svc_related R (reconstruct_recovery i)" "svc_related R (check_mutation_fence i)"
  "steady l \<Longrightarrow> svc_related R (recovery_load l)" "svc_related R (find_recovery i)"
  unfolding recovery_load_def find_recovery_def
  by (intro related_leaves leaves_bind leaves_error leaves_load leaves_aggregate leaves_encode leaves_reconstruct
      leaves_fence apart_store leaves_basic, assumption?)+

lemmas related_rules = related_bind related_error related_cases related_basic related_loads steady_loads related_mutate

lemma related_step: "op_related R (OpApply r) \<Longrightarrow> svc_related R (record_step r)"
  unfolding record_step_def svc_apply_def by (intro related_rules)

lemma related_begin_checkpoint:
  assumes "\<And>c core. op_related R (OpCandidate (candidate_request c i k native core))"
  shows "svc_related R (begin_checkpoint i k native presence)"
  unfolding begin_checkpoint_def start_candidate_def Let_def
  by (intro related_rules related_put assms) simp_all

lemma related_member: "svc_related R (checkpoint_member a i k native actor)"
  unfolding checkpoint_member_def by (intro related_rules)

lemma related_active: "svc_related R (active_checkpoint i)"
  unfolding active_checkpoint_def by (intro related_rules)

lemma related_save:
  assumes "\<And>save v. op_related R (OpSlotSave (save_request cmd save v))"
    and "\<And>v. op_related R (OpCommit (commit_request (rc_campaign cmd) (rc_checkpoint cmd) v))"
  shows "svc_related R (record_checkpoint_save cmd)"
  unfolding record_checkpoint_save_def record_save_def commit_when_complete_def save_revision_def Let_def
  by (intro related_rules related_active related_member assms)

lemma related_fail: "svc_related R (fail_checkpoint i k native actor)"
  unfolding fail_checkpoint_def give_up_def by (intro related_rules related_active related_member)

lemma related_begin_recovery:
  assumes "\<And>v. op_related R (OpApply (begin_request cmd v))"
  shows "svc_related R (begin_recovery cmd)"
  unfolding begin_recovery_def Let_def by (intro related_rules related_step assms)

lemma related_put_and_fail: "svc_related R (put_and_fail i a r)"
  unfolding put_and_fail_def by (intro related_rules)

lemma related_acknowledged: "svc_related R (acknowledged_slot i k actor presence)"
  unfolding acknowledged_slot_def by (intro related_rules)

lemma related_record_loaded:
  assumes "\<And>v m p. op_related R (OpApply (record_request (lc_campaign cmd) v m ''RecoveryLoaded'' False p))"
  shows "svc_related R (record_loaded a cmd c ck slot)"
  unfolding record_loaded_def Let_def by (intro related_rules related_step assms)

lemma related_applied:
  assumes "\<And>v m p. op_related R (OpApply (record_request (sa_campaign cmd) v m ''RecoverySnapshotApplied'' False p))"
    and "\<And>v m p. op_related R (OpApply (record_request (sa_campaign cmd) v m ''CompleteRecovery'' False p))"
  shows "svc_related R (record_snapshot_applied cmd)"
  unfolding record_snapshot_applied_def completed_recovery_def acknowledge_snapshot_def record_applied_def
    complete_request_def Let_def
  by (intro related_rules related_step related_acknowledged assms)

lemma related_create:
  assumes "\<And>c m core snap. c_id c = i \<Longrightarrow> op_related R (OpCreate (create_request c m core snap))"
  shows "svc_related R (create_lobby_campaign i m ss)"
proof (cases "new_lobby_campaign i (map to_slot_state ss)")
  case (Inl e)
  then show ?thesis by (simp add: create_lobby_campaign_def related_basic)
next
  case (Inr c)
  then have "c_id c = i" by (auto simp: new_lobby_campaign_def Let_def split: if_splits)
  then show ?thesis unfolding create_lobby_campaign_def Inr sum.case by (intro related_rules assms)
qed

lemma related_prepare: "svc_related R (prepare_recovery i presence)"
proof -
  have dispatch: "svc_related R (dispatch_native_load i a c)" for a c
    unfolding svc_related_def
  proof (intro allI)
    fix env k s
    let ?load = "case ra_checkpoint a of Some k \<Rightarrow> load_checkpoint i k | None \<Rightarrow> load_last_committed_checkpoint i"
    have "steady ?load" by (intro steady_cases steady_loads)
    obtain r k1 s1 where load: "svc_load ?load env (k, s) = (r, k1, s1)" by (metis prod_cases3)
    have put: "svc_related R (svc_bind (put_recovery i a) (\<lambda>_. svc_ret x))" for a and x :: RecoveryCommandResult
      by (intro related_rules)
    show "R s (snd (snd (dispatch_native_load i a c env (k, s))))"
      using svc_load_steady [OF \<open>steady ?load\<close> load] related_put_and_fail [unfolded svc_related_def, rule_format]
        put [unfolded svc_related_def, rule_format] same_store [of s s]
      by (cases r) (auto simp: dispatch_native_load_def load Let_def)
  qed
  show ?thesis
    unfolding prepare_recovery_def Let_def by (intro related_rules related_put_and_fail dispatch)
qed

lemma related_loads_barrier:
  assumes "\<And>q. op_related R (OpApply q)" "\<And>q. op_related R (OpRestore q)"
  shows "svc_related R (record_recovery_loaded cmd)"
  unfolding record_recovery_loaded_def acknowledge_load_def pass_first_barrier_def restore_checkpoint_def Let_def
  by (intro related_rules related_acknowledged related_put_and_fail related_record_loaded assms)
    (auto split: sum.split intro!: related_rules assms)

lemma related_command:
  assumes "\<And>q. op_related R (OpApply q)"
  shows "svc_related R (run_command i v m cmd)"
proof -
  have replay: "svc_related R (find_mutation_replay i v m kind payload)" for kind payload
    by (rule related_leaves [OF leaves_replay])
  show ?thesis
    unfolding run_command_common campaign_command_def persist_mutation_def persist_accepted_noop_def svc_apply_def Let_def
    by (intro related_rules replay assms)
qed

lemma related_looks: "svc_related R (get_recovery_activity i)" "svc_related R (load_service_campaign i presence)"
  unfolding get_recovery_activity_def load_service_campaign_def by (intro related_rules)+

end

section \<open>What the mutations do to the stored campaign\<close>

text \<open>The invariant of the tables that the loads of a campaign and of its checkpoints rest on.\<close>

definition contents_wf :: "Database \<Rightarrow> bool" where
  "contents_wf d \<longleftrightarrow> ledger_wf d \<and> keys_wf d \<and> snapshots_wf d"

lemma contents_mutate:
  assumes "contents_wf d"
  shows "contents_wf (snd (store_mutate op env d))"
proof -
  obtain r d' where run: "store_mutate op env d = (r, d')" by fastforce
  show ?thesis
    using assms ledger_wf_mutate [OF _ run] mutation_keeps_keys [OF run] mutation_keeps_snapshots [OF run]
    by (simp add: contents_wf_def run keys_kept_def snapshots_kept_def)
qed

definition moves_by ::
  "(CampaignAggregate \<Rightarrow> CampaignAggregate \<Rightarrow> bool) \<Rightarrow> CampaignId \<Rightarrow> RuntimeService \<Rightarrow> RuntimeService \<Rightarrow> bool" where
  "moves_by P i s s' \<longleftrightarrow> contents_wf (sv_store s) \<longrightarrow> contents_wf (sv_store s') \<and>
     (\<forall>c. stored_campaign i (sv_store s) = Some c \<longrightarrow> (\<exists>c'. stored_campaign i (sv_store s') = Some c' \<and> P c c'))"

text \<open>Nothing of a campaign moves but its version, and that not back.\<close>

definition newer :: "CampaignAggregate \<Rightarrow> CampaignAggregate \<Rightarrow> bool" where
  "newer c c' \<longleftrightarrow> c' = c\<lparr>c_version := c_version c'\<rparr> \<and> c_version c \<le> c_version c'"

lemma next_not_less: "x \<noteq> - 1 \<Longrightarrow> x \<le> x + 1" for x :: u64
proof -
  assume "x \<noteq> - 1"
  then have "unat x < unat (- 1 :: u64)" by (metis order_le_neq_trans unat_mono word_n1_ge)
  then have "unat x + 1 < 2 ^ 64" by (simp add: unsigned_minus_1_eq_mask mask_eq_exp_minus_1)
  then show ?thesis by (simp add: word_le_nat_alt unat_word_ariths)
qed

lemma newer_next: "c_version c \<noteq> - 1 \<Longrightarrow> newer c (c\<lparr>c_version := c_version c + 1\<rparr>)"
  by (simp add: newer_def next_not_less)

lemma newer_refl: "newer c c"
  by (simp add: newer_def)

lemma newer_trans:
  assumes "newer a b" "newer b c"
  shows "newer a c"
  using assms unfolding newer_def by (cases a, cases b, cases c) auto

text \<open>Not even the version moves, and no checkpoint changes.\<close>

definition checkpoint_tables :: "Database \<Rightarrow> SnapshotRow list \<times> CheckpointRow list \<times> _" where
  "checkpoint_tables d = (t_snapshots d, t_checkpoints d, t_checkpoint_slots d)"

definition unmoved :: "CampaignId \<Rightarrow> RuntimeService \<Rightarrow> RuntimeService \<Rightarrow> bool" where
  "unmoved i s s' \<longleftrightarrow> moves_by (=) i s s' \<and> checkpoint_tables (sv_store s') = checkpoint_tables (sv_store s)"

interpretation newer_services: store_relation "moves_by newer i" for i
proof
  fix s1 s2 s3 assume "moves_by newer i s1 s2" "moves_by newer i s2 s3"
  then show "moves_by newer i s1 s3" unfolding moves_by_def using newer_trans by blast
qed (simp add: moves_by_def newer_refl)

interpretation unmoved_services: store_relation "unmoved i" for i
  by unfold_locales (auto simp: unmoved_def moves_by_def)

lemma moves_mutation:
  assumes "\<And>env d c. contents_wf d \<Longrightarrow> stored_campaign i d = Some c \<Longrightarrow>
      \<exists>c'. stored_campaign i (snd (store_mutate op env d)) = Some c' \<and> P c c'"
  shows "op_related (moves_by P i) op"
  using assms contents_mutate by (auto simp: op_related_def moves_by_def)

lemma stored_not_last: "contents_wf d \<Longrightarrow> stored_campaign i d = Some c \<Longrightarrow> c_version c \<noteq> - 1"
  unfolding contents_wf_def using stored_version(1) by blast

lemma revision_moves:
  assumes "op = OpCandidate q \<or> op = OpSlotSave t \<or> op = OpCommit m" "op_campaign op = i"
  shows "op_related (moves_by newer i) op"
proof (rule moves_mutation)
  fix env d c assume wf: "contents_wf d" and stored: "stored_campaign i d = Some c"
  obtain x d' where run: "store_mutate op env d = (x, d')" by fastforce
  have ledger: "ledger_wf d" "ledger_wf d'"
    using wf ledger_wf_mutate [OF _ run] by (simp_all add: contents_wf_def)
  have kind: "op_kind op \<in> {''CreateCheckpointCandidate'', ''RecordCheckpointSlotSave'', ''CommitCheckpoint''}"
    using assms(1) by auto
  from revised_effect [OF run assms(1)]
  have "stored_campaign i d' = Some c \<or> stored_campaign i d' = Some (c\<lparr>c_version := c_version c + 1\<rparr>)"
    using stored revised_stored [OF ledger stored _ assms(2) kind] by blast
  then show "\<exists>c'. stored_campaign i (snd (store_mutate op env d)) = Some c' \<and> newer c c'"
    using newer_refl newer_next [OF stored_not_last [OF wf stored]] run by auto
qed

text \<open>A recorded step keeps the campaign; one that advances it is the begin of a recovery.\<close>

lemma recorded_moves:
  assumes "contents_wf d" "stored_campaign i d = Some c" "adv \<Longrightarrow> kind = ''BeginRecovery''" "kind \<noteq> ''RestoreCheckpoint''"
  shows "stored_campaign i (snd (store_mutate (OpApply (record_request i v m kind adv payload)) env d)) = Some c \<or>
    (adv \<and> stored_campaign i (snd (store_mutate (OpApply (record_request i v m kind adv payload)) env d)) =
       Some (c\<lparr>c_version := c_version c + 1\<rparr>))"
proof -
  let ?r = "record_request i v m kind adv payload"
  obtain x d' where run: "store_mutate (OpApply ?r) env d = (x, d')" by fastforce
  have ledger: "ledger_wf d" "ledger_wf d'"
    using assms(1) ledger_wf_mutate [OF _ run] by (simp_all add: contents_wf_def)
  from apply_effect [OF run plain_requests(2)] show ?thesis
  proof
    assume "not_applied x \<and> d' = d"
    then show ?thesis using assms(2) run by simp
  next
    assume *: "op_rejection (OpApply ?r) = Store_None \<and> x = mutation_done (op_result (OpApply ?r)) (amr_advances ?r) \<and>
      applied_to ?r (env_now env) d d'"
    then obtain row where "find_campaign i d = Some row" "cr_revision row = v"
      by (auto simp: applied_to_def Let_def record_request_def)
    then have "v = c_version c"
      using stored_holds [OF ledger(1) assms(2)] by (auto simp: holds_campaign_def contents_def)
    then have "?r = record_request i (c_version c) m kind adv payload" by simp
    from recorded_stored [OF this ledger assms(2) _ _ assms(3,4)] * run show ?thesis by (auto split: if_splits)
  qed
qed

lemma record_related:
  "op_related (moves_by newer i) (OpApply (record_request i v m ''BeginRecovery'' True payload))"
  "kind \<noteq> ''RestoreCheckpoint'' \<Longrightarrow> op_related (moves_by (=) i) (OpApply (record_request i v m kind False payload))"
proof -
  show "op_related (moves_by newer i) (OpApply (record_request i v m ''BeginRecovery'' True payload))"
    by (rule moves_mutation)
      (use recorded_moves [where kind = "''BeginRecovery''" and adv = True] newer_refl newer_next stored_not_last in
        \<open>simp, metis\<close>)
  show "op_related (moves_by (=) i) (OpApply (record_request i v m kind False payload))" if "kind \<noteq> ''RestoreCheckpoint''"
  proof (rule moves_mutation)
    fix env d c assume "contents_wf d" "stored_campaign i d = Some c"
    from recorded_moves [OF this, of False kind v m payload env] that
    show "\<exists>c'. stored_campaign i (snd (store_mutate (OpApply (record_request i v m kind False payload)) env d)) = Some c' \<and> c = c'"
      by simp
  qed
qed

interpretation checkpoint_rows: roster_statements "same_part checkpoint_tables" own mut for own mut
proof (unfold_locales, goal_cases)
qed (auto simp: same_part_def checkpoint_tables_def update_campaign_tables insert_slot_row_def delete_slots_def
    insert_campaign_def insert_outbox_def insert_journal_def supersede_outbox_def delete_build_def delete_builds_def
    delete_adapter_def delete_adapters_def upsert_build_row_def upsert_adapter_row_def Let_def split: if_splits)

lemma checkpoint_tables_kept:
  assumes "op = OpApply q \<or> op = OpCreate r"
  shows "checkpoint_tables (snd (store_mutate op env d)) = checkpoint_tables d"
  by (rule store_mutate_related [where R = "\<lambda>d d'. checkpoint_tables d' = checkpoint_tables d", OF refl surjective_pairing])
    (use assms in \<open>auto intro: ends_mono [OF part.keepsD [OF checkpoint_rows.keeps_apply]]
      ends_mono [OF part.keepsD [OF checkpoint_rows.keeps_create]] simp: same_part_def\<close>)

lemma unmoved_record:
  "kind \<noteq> ''RestoreCheckpoint'' \<Longrightarrow> op_related (unmoved i) (OpApply (record_request i v m kind False payload))"
  using record_related(2) [of kind i v m payload] checkpoint_tables_kept [where op = "OpApply q" and q = q for q]
  by (simp add: op_related_def unmoved_def)

text \<open>A campaign that is stored is not created again.\<close>

lemma unmoved_create:
  assumes "cr_id (ccr_campaign r) = i"
  shows "op_related (unmoved i) (OpCreate r)"
proof -
  have "op_related (moves_by (=) i) (OpCreate r)"
  proof (rule moves_mutation)
    fix env d c assume *: "contents_wf d" "stored_campaign i d = Some c"
    obtain x d' where run: "store_mutate (OpCreate r) env d = (x, d')" by fastforce
    have "revision_of d i \<noteq> None"
      using stored_holds [OF _ *(2)] *(1) by (auto simp: holds_campaign_def contents_wf_def contents_def revision_of_def)
    then have "d' = d" using store_mutate_effect [OF run] assms by (auto simp: op_recorded_def)
    then show "\<exists>c'. stored_campaign i (snd (store_mutate (OpCreate r) env d)) = Some c' \<and> c = c'" using run * by simp
  qed
  then show ?thesis
    using checkpoint_tables_kept [where op = "OpCreate r" and r = r] by (simp add: op_related_def unmoved_def)
qed

section \<open>The restore of a recovery\<close>

text \<open>
  What a campaign becomes when its recovery brings back a checkpoint: the core state of the committed
  checkpoint, over the same members, sealed as it was, at the next version.
\<close>

definition recovered :: "CampaignId \<Rightarrow> string \<Rightarrow> Database \<Rightarrow> CampaignAggregate \<Rightarrow> CampaignAggregate \<Rightarrow> bool" where
  "recovered i k d c c' \<longleftrightarrow> c_sealed c \<and> mset (map slot_record (c_roster c')) = mset (map slot_record (c_roster c)) \<and>
     (\<exists>ck w core. answers (load_checkpoint i k) d = Inr ck \<and> ck_is_committed ck \<and>
       decode_core_state i True (checkpoint_record_roster ck) w (ck_core_payload ck) = Inr core \<and>
       c' = core\<lparr>c_version := c_version c + 1\<rparr>)"

lemma same_checkpoint:
  assumes "checkpoint_tables d' = checkpoint_tables d"
  shows "answers (load_checkpoint i k) d' = answers (load_checkpoint i k) d"
  unfolding answers_def
  by (rule load_checkpoint_reads_only)
    (use assms in \<open>auto simp: checkpoint_tables_def find_checkpoint_def find_snapshot_def checkpoint_slots_of_def
      split: option.split\<close>)

lemma identities_records:
  "list_all2 same_identity ss rs \<Longrightarrow> map (\<lambda>s. \<lparr>rec_slot = cs_slot s, rec_player = cs_player s, rec_binding = cs_binding s\<rparr>) ss = rs"
  by (induction ss rs rule: list_all2_induct) (auto simp: same_identity_def)

lemma restored_recovers:
  assumes wf: "contents_wf d" and stored: "stored_campaign i d = Some c" and full: "c_sealed c"
    and run: "store_mutate (OpRestore (restore_request a cmd v payload)) env d = (x, d')"
    and cmd: "lc_campaign cmd = i" and ck: "answers (load_checkpoint i (lc_checkpoint cmd)) d = Inr ck"
    and core: "decode_core_state i True (checkpoint_record_roster ck) w (ck_core_payload ck) = Inr core"
    and encoded: "encode_core_state (core\<lparr>c_version := v + 1\<rparr>) [] = (Store_None, payload)"
  shows "stored_campaign i d' = Some c \<or> (\<exists>c'. stored_campaign i d' = Some c' \<and> recovered i (lc_checkpoint cmd) d c c')"
proof -
  let ?r = "restore_request a cmd v payload" and ?c' = "core\<lparr>c_version := v + 1\<rparr>"
  have ledger: "ledger_wf d" "ledger_wf d'"
    using wf ledger_wf_mutate [OF _ run] by (simp_all add: contents_wf_def)
  have r: "rcr_campaign ?r = i" "rcr_core_version ?r = kCampaignCoreCodecVersion" "rcr_core_payload ?r = payload"
    "rcr_expected ?r = v" "rcr_checkpoint ?r = lc_checkpoint cmd" by (simp_all add: restore_request_def cmd)
  have "snapshots_wf d" using wf by (simp add: contents_wf_def)
  from restored_effect [OF run this] consider (same) "d' = d"
    | (restored) "op_rejection (OpRestore ?r) = Store_None" "restored_state ?r d d'" by blast
  then show ?thesis
  proof cases
    case same
    then show ?thesis using stored by simp
  next
    case restored
    note accepted = restored(1) and state = restored(2)
    have "list_all2 same_identity (ck_slots ck) (sort_key rec_slot (slots_of i d))" and committed: "ck_is_committed ck"
      using state ck unfolding restored_state_def Let_def r by auto
    then have roster: "checkpoint_record_roster ck = sort_key rec_slot (slots_of i d)"
      by (simp add: checkpoint_record_roster_def identities_records)
    note facts = decode_core_facts [OF core]
    have members: "mset (map slot_record (c_roster ?c')) = mset (slots_of i d)" using facts roster by simp
    have version: "c_version c = v" and after: "stored_campaign i d' = Some ?c'"
      using restored_stored [OF ledger stored state accepted r(1,2), of ?c'] facts full encoded members r(3,4) by simp_all
    have "mset (map slot_record (c_roster c)) = mset (slots_of i d)"
      using stored_holds [OF ledger(1) stored] by (auto simp: holds_campaign_def contents_def)
    then have "recovered i (lc_checkpoint cmd) d c ?c'"
      unfolding recovered_def using full members ck committed core version by auto
    with after show ?thesis by blast
  qed
qed

text \<open>Where an acknowledged load may leave a campaign: where it was, or recovered.\<close>

definition loaded_to ::
  "CampaignId \<Rightarrow> string \<Rightarrow> RuntimeService \<Rightarrow> CampaignAggregate \<Rightarrow> RuntimeService \<Rightarrow> bool" where
  "loaded_to i k s c s' \<longleftrightarrow> contents_wf (sv_store s') \<and>
     (\<exists>c'. stored_campaign i (sv_store s') = Some c' \<and> (c' = c \<or> recovered i k (sv_store s) c c'))"

lemma ends_related: "svc_related R m \<Longrightarrow> svc_ends m env (k, s) (\<lambda>_. R s) (\<lambda>_. R s)"
  unfolding svc_ends_def svc_related_def by (auto split: prod.splits sum.splits) (metis snd_conv)+

lemma ends_with_error: "svc_ends m env ks (\<lambda>e. F (f e)) G \<Longrightarrow> svc_ends (svc_error f m) env ks F G"
  by (auto simp: svc_ends_def svc_error_def split: prod.splits sum.splits)

lemma ends_acknowledged:
  "svc_ends (acknowledged_slot i k actor presence) env (n, s) (\<lambda>_ s'. s' = s)
     (\<lambda>(c, ck, slot) s'. s' = s \<and> stored_campaign i (sv_store s) = Some c \<and> c_sealed c \<and>
        answers (load_checkpoint i k) (sv_store s) = Inr ck)"
proof -
  have aggregate: "svc_ends (svc_error recovery_result (load_aggregate i)) env (n', s) (\<lambda>_ s'. s' = s)
      (\<lambda>c s'. s' = s \<and> stored_campaign i (sv_store s) = Some c)" for n'
    by (rule ends_with_error, rule svc_ends_mono [OF ends_loaded]) simp_all
  have seals: "c_sealed c" if "evaluate_full_roster c presence = NoRosterFailure" for c
    using that by (auto simp: evaluate_full_roster_def split: if_splits)
  show ?thesis
    unfolding acknowledged_slot_def recovery_load_def
  proof (rule svc_ends_bind [OF aggregate], elim conjE, hypsubst, goal_cases)
    case (1 c n1 s1)
    show ?case
      apply (rule svc_ends_bind [where G = "\<lambda>_ s'. s' = s \<and> c_sealed c"])
       apply (simp add: seals)
      apply (elim conjE, hypsubst)
      apply (rule ends_load_bind [OF steady_loads(4)])
       apply (use 1 in \<open>simp split: option.split\<close>)
      apply simp
      done
  qed
qed

lemma unmoved_loaded:
  assumes "contents_wf (sv_store s)" "stored_campaign i (sv_store s) = Some c" "unmoved i s s'"
  shows "loaded_to i k s c s'"
  using assms by (auto simp: unmoved_def moves_by_def loaded_to_def)

lemma ends_restored:
  assumes wf: "contents_wf (sv_store s)" and stored: "stored_campaign i (sv_store s) = Some c" and full: "c_sealed c"
    and cmd: "lc_campaign cmd = i" and ck: "answers (load_checkpoint i (lc_checkpoint cmd)) (sv_store s) = Inr ck"
    and between: "unmoved i s s1"
  shows "svc_ends (restore_checkpoint a cmd ck r) env (n, s1) (\<lambda>_. loaded_to i (lc_checkpoint cmd) s c)
    (\<lambda>_. loaded_to i (lc_checkpoint cmd) s c)"
proof -
  let ?T = "loaded_to i (lc_checkpoint cmd) s c"
  have here: "?T s1" by (rule unmoved_loaded [OF wf stored between])
  have s1: "contents_wf (sv_store s1)" "stored_campaign i (sv_store s1) = Some c"
    "checkpoint_tables (sv_store s1) = checkpoint_tables (sv_store s)"
    using between wf stored by (auto simp: unmoved_def moves_by_def)
  note same = same_checkpoint [OF s1(3)]
  have mutate: "svc_ends (svc_mutate (OpRestore (restore_request a cmd v payload))) env (n', s1) (\<lambda>_. ?T) (\<lambda>_. ?T)"
    if "decode_core_state i True (checkpoint_record_roster ck) w (ck_core_payload ck) = Inr core"
      "encode_core_state (core\<lparr>c_version := v + 1\<rparr>) [] = (Store_None, payload)" for v payload n' w core
  proof -
    let ?op = "OpRestore (restore_request a cmd v payload)"
    obtain x d' where run: "store_mutate ?op (call_env env n') (sv_store s1) = (x, d')" by fastforce
    have "contents_wf d'" using contents_mutate [OF s1(1), of ?op "call_env env n'"] run by simp
    then have "?T (s1\<lparr>sv_store := d'\<rparr>)"
      using restored_recovers [OF s1(1,2) full run cmd _ that] ck same
      by (auto simp: loaded_to_def recovered_def)
    then show ?thesis using run by (simp add: svc_ends_def svc_mutate_def)
  qed
  show ?thesis
    unfolding restore_checkpoint_def recovery_load_def cmd
  proof (rule ends_load_bind [OF steady_loads(3)], goal_cases)
    case (1 js n1)
    show ?case
    proof (cases "find (\<lambda>j. jr_mutation j = recovery_mutation_id ''restore'' (ra_attempt a)) js")
      case (Some j)
      show ?thesis
        unfolding Some option.case
        by (rule svc_ends_bind [where G = "\<lambda>_. ?T"]) (simp_all add: here)
    next
      case None
      show ?thesis
        unfolding None option.case
      proof (rule ends_load_bind [OF steady_loads(1)], goal_cases)
        case (1 row n2)
        show ?case
        proof (cases "checkpoint_core i ck js")
          case (Inl e)
          then show ?thesis by (simp add: here)
        next
          case (Inr core)
          then obtain w where core: "decode_core_state i True (checkpoint_record_roster ck) w (ck_core_payload ck) = Inr core"
            unfolding checkpoint_core_def using decode_canonical_Inr by blast
          have encode: "svc_ends (svc_error recovery_result (svc_encode res)) env (n3, s1) (\<lambda>_. ?T)
              (\<lambda>p s'. s' = s1 \<and> res = (Store_None, p))" for res n3
            by (rule ends_with_error, rule svc_ends_mono [OF ends_encode]) (simp_all add: here)
          show ?thesis
            unfolding Inr sum.case Let_def
            apply (rule svc_ends_bind [OF encode], elim conjE, hypsubst)
            apply (rule svc_ends_bind [OF mutate [OF core]], assumption)
            apply (rule svc_ends_bind [where G = "\<lambda>_. ?T"], simp, simp)
            done
        qed
      qed (rule here)
    qed
  qed (rule here)
qed

lemma ends_unmoved:
  assumes "svc_related (unmoved i) m" "unmoved i s s1"
  shows "svc_ends m env (n, s1) (\<lambda>_. unmoved i s) (\<lambda>_. unmoved i s)"
  by (rule svc_ends_mono [OF ends_related [OF assms(1)]])
    (rule unmoved_services.related_trans [OF assms(2)], assumption)+

lemma ends_barrier:
  assumes "contents_wf (sv_store s)" "stored_campaign i (sv_store s) = Some c" "c_sealed c" "lc_campaign cmd = i"
    "answers (load_checkpoint i (lc_checkpoint cmd)) (sv_store s) = Inr ck" "unmoved i s s1"
  shows "svc_ends (acknowledge_load a cmd c' ck slot) env (n, s1) (\<lambda>_. loaded_to i (lc_checkpoint cmd) s c)
    (\<lambda>_. loaded_to i (lc_checkpoint cmd) s c)"
proof -
  let ?T = "loaded_to i (lc_checkpoint cmd) s c"
  note here = unmoved_loaded [OF assms(1,2)]
  have recorded: "svc_ends (record_loaded a cmd c' ck slot) env (n, s1) (\<lambda>_. ?T) (\<lambda>_. unmoved i s)"
    by (rule svc_ends_mono [OF ends_unmoved [OF unmoved_services.related_record_loaded assms(6)]])
      (auto simp: assms(4) intro: unmoved_record here)
  have put: "svc_ends (put_recovery i b) env (n', s2) (\<lambda>_. ?T) (\<lambda>_. unmoved i s)" if "unmoved i s s2" for b n' s2
    by (rule svc_ends_mono [OF ends_unmoved [OF unmoved_services.related_basic(7) that]]) (auto intro: here)
  have barrier: "svc_ends (pass_first_barrier b cmd ck r) env (n', s2) (\<lambda>_. ?T) (\<lambda>_. ?T)" if "unmoved i s s2" for b r n' s2
    unfolding pass_first_barrier_def Let_def assms(4)
    apply (rule svc_ends_bind, rule ends_with_error, rule ends_restored [OF assms(1-5) that])
    apply (simp add: svc_ends_def svc_bind_def put_recovery_def svc_put_def svc_ret_def loaded_to_def)
    done
  show ?thesis
    unfolding acknowledge_load_def Let_def assms(4)
    apply (rule svc_ends_bind [OF recorded], split prod.split, intro allI impI svc_ends_if)
     apply (simp add: here)
    apply (rule svc_ends_bind [OF put], assumption, intro svc_ends_if)
     apply (simp add: here)
    apply (erule barrier)
    done
qed

lemma ends_loads:
  assumes wf: "contents_wf (sv_store s)" and stored: "stored_campaign i (sv_store s) = Some c" and cmd: "lc_campaign cmd = i"
  shows "svc_ends (record_recovery_loaded cmd) env (n, s) (\<lambda>_. loaded_to i (lc_checkpoint cmd) s c)
    (\<lambda>_. loaded_to i (lc_checkpoint cmd) s c)"
proof -
  let ?T = "loaded_to i (lc_checkpoint cmd) s c"
  note here = unmoved_loaded [OF wf stored]
  have find: "svc_ends (find_recovery i) env (n, s) (\<lambda>_. ?T) (\<lambda>_. unmoved i s)"
    by (rule svc_ends_mono [OF ends_related [OF unmoved_services.related_loads(7)]]) (auto intro: here)
  have ask: "svc_ends (svc_require b e) env (n', s1) (\<lambda>_. ?T) (\<lambda>_. unmoved i s)"
    if "unmoved i s s1" for b and e :: RecoveryCommandResult and n' s1
    using that here by simp
  have acknowledged: "svc_ends (acknowledged_slot i (lc_checkpoint cmd) actor presence) env (n', s1) (\<lambda>_. ?T)
      (\<lambda>(c', ck, slot) s'. unmoved i s s' \<and> c_sealed c \<and> answers (load_checkpoint i (lc_checkpoint cmd)) (sv_store s) = Inr ck)"
    if "unmoved i s s1" for actor presence n' s1
  proof -
    have s1: "stored_campaign i (sv_store s1) = Some c" "checkpoint_tables (sv_store s1) = checkpoint_tables (sv_store s)"
      using that wf stored by (auto simp: unmoved_def moves_by_def)
    show ?thesis
      by (rule svc_ends_mono [OF ends_acknowledged])
        (simp add: here that, clarsimp simp: that s1(1) same_checkpoint [OF s1(2)])
  qed
  have failed: "svc_ends (put_and_fail i a r) env (n', s1) (\<lambda>_. ?T) (\<lambda>_. ?T)"
    if "unmoved i s s1" for a r n' s1
    by (rule svc_ends_mono [OF ends_unmoved [OF unmoved_services.related_put_and_fail that]]) (auto intro: here)
  have hash: "svc_ends (svc_env sha256) env (n', s1) (\<lambda>_. ?T) (\<lambda>_. unmoved i s)" if "unmoved i s s1" for n' s1
    using that by (simp add: svc_ends_def svc_env_def)
  show ?thesis
    unfolding record_recovery_loaded_def Let_def cmd
  proof (rule svc_ends_bind [OF find], goal_cases)
    case (1 active n1 s1)
    show ?case
    proof (cases active)
      case None
      then show ?thesis using here [OF 1] by simp
    next
      case (Some a)
      show ?thesis
        unfolding Some option.case
        apply (rule svc_ends_bind [OF ask [OF 1]])
        apply (rule svc_ends_bind [OF acknowledged], assumption, split prod.split_asm, split prod.split_asm)
        apply (simp only: prod.case, intro svc_ends_if)
         apply (rule failed, blast)
        apply (rule svc_ends_bind [OF hash], blast)
        apply (rule svc_ends_bind [OF ask], assumption)+
        apply (rule ends_barrier [OF wf stored _ cmd], blast, blast, assumption)
        done
    qed
  qed
qed

section \<open>Every request\<close>

definition contents_kept :: "RuntimeService \<Rightarrow> RuntimeService \<Rightarrow> bool" where
  "contents_kept s s' \<longleftrightarrow> (contents_wf (sv_store s) \<longrightarrow> contents_wf (sv_store s'))"

interpretation kept_services: store_relation contents_kept
  by unfold_locales (auto simp: contents_kept_def)

lemma kept_operation: "op_related contents_kept op"
  using contents_mutate by (simp add: op_related_def contents_kept_def)

lemma related_after: "svc_related R m \<Longrightarrow> R s (svc_after m env s)"
  by (simp add: svc_related_def svc_after_def)

lemma served_contents:
  assumes "contents_wf (sv_store s)"
  shows "contents_wf (sv_store (fst (serve s (env, q))))"
proof -
  note rules = kept_services.related_create kept_services.related_command kept_services.related_begin_checkpoint
    kept_services.related_save kept_services.related_fail kept_services.related_begin_recovery
    kept_services.related_prepare kept_services.related_loads_barrier kept_services.related_applied
    kept_services.related_looks
  have "contents_kept s (fst (serve s (env, q)))"
    by (cases q) (auto intro!: related_after [where R = contents_kept] rules kept_operation kept_services.related_basic simp: abandon_checkpoint_def)
  then show ?thesis using assms by (simp add: contents_kept_def)
qed

text \<open>What a request can make of the campaign it is for, which the store holds.\<close>

fun request_moves :: "Database \<Rightarrow> RuntimeRequest \<Rightarrow> CampaignAggregate \<Rightarrow> CampaignAggregate \<Rightarrow> bool" where
  "request_moves d (RequestCommand i v m cmd) c c' \<longleftrightarrow> c' = c \<or>
     (c_version c = v \<and> dom_changed (snd (campaign_perform c (command_operation cmd))) \<and>
      c' = fst (campaign_perform c (command_operation cmd)))"
| "request_moves d (RequestBeginCheckpoint i k native presence) c c' \<longleftrightarrow> newer c c'"
| "request_moves d (RequestSave cmd) c c' \<longleftrightarrow> newer c c'"
| "request_moves d (RequestBeginRecovery cmd) c c' \<longleftrightarrow> newer c c'"
| "request_moves d (RequestLoaded cmd) c c' \<longleftrightarrow> c' = c \<or> recovered (lc_campaign cmd) (lc_checkpoint cmd) d c c'"
| "request_moves d q c c' \<longleftrightarrow> c' = c"

lemma served_moves:
  assumes wf: "contents_wf (sv_store s)" and stored: "stored_campaign (request_campaign q) (sv_store s) = Some c"
  shows "\<exists>c'. stored_campaign (request_campaign q) (sv_store (fst (serve s (env, q)))) = Some c' \<and>
    request_moves (sv_store s) q c c'"
proof -
  have moved: "\<exists>c'. stored_campaign i (sv_store (svc_after m env s)) = Some c' \<and> P c c'"
    if "svc_related (moves_by P i) m" "stored_campaign i (sv_store s) = Some c" for P i and m :: "('e, 'a) svc"
    using related_after [OF that(1), of s env] wf that(2) by (simp add: moves_by_def)
  have unmoved: "stored_campaign i (sv_store (svc_after m env s)) = Some c"
    if "svc_related (unmoved i) m" "stored_campaign i (sv_store s) = Some c" for i and m :: "('e, 'a) svc"
    using related_after [OF that(1), of s env] wf that(2) by (auto simp: unmoved_def moves_by_def)
  note revision = revision_moves [OF _ refl]
  show ?thesis
  proof (cases q)
    case (RequestCreate i m ss)
    then show ?thesis using stored
      by (auto intro!: unmoved unmoved_services.related_create unmoved_create)
  next
    case (RequestCommand i v m cmd)
    let ?P = "\<lambda>s'. \<exists>c'. stored_campaign i (sv_store s') = Some c' \<and> request_moves (sv_store s) q c c'"
    have "?P (svc_after (run_command i v m cmd) env s)"
      by (rule svc_ends_after, rule svc_ends_mono [OF ends_command [of s i c]])
        (use wf stored RequestCommand in \<open>auto simp: contents_wf_def command_outcome_def split: if_splits\<close>)
    then show ?thesis by (simp add: RequestCommand)
  next
    case (RequestBeginCheckpoint i k native presence)
    then show ?thesis using stored
      by (auto intro!: moved newer_services.related_begin_checkpoint revision_moves)
  next
    case (RequestSave cmd)
    then show ?thesis using stored by (auto intro!: moved newer_services.related_save revision_moves)
  next
    case (RequestFail i k native actor)
    then show ?thesis using stored by (auto intro!: unmoved unmoved_services.related_fail)
  next
    case (RequestAbandon i)
    then show ?thesis using stored
      by (auto intro!: unmoved unmoved_services.related_basic simp: abandon_checkpoint_def)
  next
    case (RequestBeginRecovery cmd)
    then show ?thesis using stored
      by (auto intro!: moved newer_services.related_begin_recovery record_related simp: begin_request_def)
  next
    case (RequestPrepare i presence)
    then show ?thesis using stored by (auto intro!: unmoved unmoved_services.related_prepare)
  next
    case (RequestLoaded cmd)
    have "loaded_to (lc_campaign cmd) (lc_checkpoint cmd) s c (svc_after (record_recovery_loaded cmd) env s)"
      by (rule svc_ends_after [OF ends_loads [OF wf _ refl]]) (use stored RequestLoaded in simp)
    then show ?thesis by (auto simp: RequestLoaded loaded_to_def)
  next
    case (RequestApplied cmd)
    then show ?thesis using stored
      by (auto intro!: unmoved unmoved_services.related_applied unmoved_record)
  next
    case (RequestActivity i)
    then show ?thesis using stored by (auto intro!: unmoved unmoved_services.related_looks)
  next
    case (RequestLoad i presence)
    then show ?thesis using stored by (auto intro!: unmoved unmoved_services.related_looks)
  qed
qed

text \<open>The moves of a campaign along a history: a request for another campaign leaves it as it is.\<close>

fun moves_along ::
  "CampaignId \<Rightarrow> RuntimeService \<Rightarrow> (RuntimeEnv \<times> RuntimeRequest) list \<Rightarrow> CampaignAggregate \<Rightarrow> CampaignAggregate \<Rightarrow> bool" where
  "moves_along i s [] c c' \<longleftrightarrow> c' = c"
| "moves_along i s ((env, q) # xs) c c' \<longleftrightarrow>
     (\<exists>c1. (if request_campaign q = i then request_moves (sv_store s) q c c1 else c1 = c) \<and>
       moves_along i (fst (serve s (env, q))) xs c1 c')"

lemma run_moves:
  assumes "contents_wf (sv_store s)" "stored_campaign i (sv_store s) = Some c"
  shows "\<exists>c'. stored_campaign i (sv_store (run_ops serve s xs)) = Some c' \<and> moves_along i s xs c c'"
  using assms
proof (induction xs arbitrary: s c)
  case (Cons x xs)
  obtain env q where x: "x = (env, q)" by fastforce
  let ?s1 = "fst (serve s (env, q))"
  have "\<exists>c1. stored_campaign i (sv_store ?s1) = Some c1 \<and>
      (if request_campaign q = i then request_moves (sv_store s) q c c1 else c1 = c)"
  proof (cases "request_campaign q = i")
    case True
    then show ?thesis using served_moves [OF Cons.prems(1), of q c env] Cons.prems(2) by simp
  next
    case False
    have "campaign_part i (sv_store ?s1) = campaign_part i (sv_store s)"
      using served_apart [OF False [symmetric], unfolded campaign_in_service_def prod.inject] by (rule conjunct1)
    from stored_campaign_part [OF this] False Cons.prems(2) show ?thesis by simp
  qed
  then obtain c1 where c1: "stored_campaign i (sv_store ?s1) = Some c1"
    "if request_campaign q = i then request_moves (sv_store s) q c c1 else c1 = c" by blast
  obtain c' where c': "stored_campaign i (sv_store (run_ops serve ?s1 xs)) = Some c'" "moves_along i ?s1 xs c1 c'"
    using Cons.IH [OF served_contents [OF Cons.prems(1)] c1(1)] by blast
  have "moves_along i s (x # xs) c c'"
    unfolding x moves_along.simps using c1(2) c'(2) by blast
  with c'(1) show ?case by (auto simp: x)
qed simp

section \<open>Properties\<close>

lemma lobby_contents: "contents_wf lobby_store"
  using lobby_ledger
  by (simp add: contents_wf_def keys_wf_def snapshots_wf_def lobby_store_def empty_database_def)

text \<open>
  C9: So do all requests in any order. Whatever the service is asked for this campaign and for others,
  with any failures of the store and any replays, the store goes on holding the campaign, and each request
  for it made of it what it may: a command the result of its operation or nothing; a checkpoint or the
  begin of a recovery a newer version of the same campaign; the acknowledgement of a load the core state
  of the committed checkpoint that it names, over the same members and at the next version, or nothing;
  every other request, and every request for another campaign, nothing at all.
\<close>

theorem requests_refine_campaign:
  assumes "contents_wf (sv_store s)" "stored_campaign i (sv_store s) = Some c"
  shows "\<exists>c'. stored_campaign i (sv_store (run_ops serve s xs)) = Some c' \<and> moves_along i s xs c c'"
  using assms by (rule run_moves)

theorem requests_refine_campaign_witness:
  "\<exists>c'. stored_campaign ''c'' (sv_store (run_ops serve lobby_service
     [(quiet_runtime, RequestCommand ''c'' 1 ''m2'' (CommandStart ''p'')),
      (quiet_runtime, RequestCreate ''d'' ''m3'' [example_member]),
      (quiet_runtime, RequestBeginCheckpoint ''c'' ''k'' ''stre-k'' []),
      (quiet_runtime, RequestActivity ''c'')])) = Some c' \<and>
   moves_along ''c'' lobby_service
     [(quiet_runtime, RequestCommand ''c'' 1 ''m2'' (CommandStart ''p'')),
      (quiet_runtime, RequestCreate ''d'' ''m3'' [example_member]),
      (quiet_runtime, RequestBeginCheckpoint ''c'' ''k'' ''stre-k'' []),
      (quiet_runtime, RequestActivity ''c'')] lobby c'"
  by (rule requests_refine_campaign) (simp_all add: lobby_facts lobby_contents)

end
