(* ===== verification/RuntimeGate.thy ===== *)
theory RuntimeGate
  imports Prelude
begin

text \<open>
  \<open>common/Campaign/CampaignRuntimeGate.{h,cpp}\<close>: the gate that locks the game while a campaign
  save is loaded or recovered. Its members are atomics, so each operation is modelled twice: as a
  function on the six members, and as a program of atomic accesses (\<open>GatePc\<close>, one constructor per
  access, with the local variables as arguments) that other threads may interleave. A compare
  exchange of the weak kind may fail although the value is the expected one.
\<close>

datatype GateState = GateOpen | RecoveryLocked | ArmedDuringLoad | LockedAfterLoad | Released

record Gate =
  g_state :: GateState
  g_next_load :: bool
  g_recovery :: bool
  g_resume :: bool
  g_guard_menu :: bool
  g_cef :: bool

definition new_gate :: Gate where
  "new_gate = \<lparr>g_state = GateOpen, g_next_load = False, g_recovery = False, g_resume = False,
     g_guard_menu = False, g_cef = False\<rparr>"

section \<open>The operations, undisturbed\<close>

definition lock_for_recovery :: "Gate \<Rightarrow> Gate \<times> bool" where
  "lock_for_recovery g =
     (let g = g\<lparr>g_recovery := True, g_guard_menu := False, g_cef := False\<rparr> in
      if g_state g = GateOpen \<or> g_state g = Released then (g\<lparr>g_state := RecoveryLocked\<rparr>, True)
      else (g, g_state g = RecoveryLocked \<or> g_state g = ArmedDuringLoad \<or> g_state g = LockedAfterLoad))"

definition arm_next_load :: "Gate \<Rightarrow> Gate \<times> bool" where
  "arm_next_load g =
     (if g_state g = ArmedDuringLoad \<or> (g_state g = LockedAfterLoad \<and> \<not> g_recovery g) then (g, False)
      else (g\<lparr>g_next_load := True\<rparr>, \<not> g_next_load g))"

definition arm_resume_required_load :: "Gate \<Rightarrow> Gate \<times> bool" where
  "arm_resume_required_load g =
     (let (g, armed) = arm_next_load g in if armed then (g\<lparr>g_resume := True\<rparr>, True) else (g, False))"

definition commit_resume_required_transition :: "Gate \<Rightarrow> Gate \<times> bool" where
  "commit_resume_required_transition g =
     (if \<not> g_resume g then (g, False)
      else if \<not> g_next_load g then (g\<lparr>g_next_load := False\<rparr>, False)
      else if g_state g = GateOpen \<or> g_state g = Released
      then (g\<lparr>g_next_load := False, g_state := LockedAfterLoad, g_guard_menu := False, g_cef := False\<rparr>, True)
      else (g\<lparr>g_next_load := True\<rparr>, False))"

definition cancel_armed_load :: "Gate \<Rightarrow> Gate \<times> bool" where
  "cancel_armed_load g =
     (let pending = g_next_load g; entered = (g_state g = ArmedDuringLoad);
          g = g\<lparr>g_next_load := False\<rparr>;
          g = (if entered then g\<lparr>g_state := (if g_recovery g then RecoveryLocked else GateOpen)\<rparr> else g);
          g = (if \<not> g_recovery g \<and> g_state g = GateOpen then g\<lparr>g_resume := False\<rparr> else g) in
      (g, pending \<or> entered))"

definition on_native_load_enter :: "Gate \<Rightarrow> Gate \<times> bool" where
  "on_native_load_enter g =
     (if \<not> g_next_load g then (g, False)
      else (g\<lparr>g_next_load := False, g_guard_menu := False, g_cef := False, g_state := ArmedDuringLoad\<rparr>, True))"

definition on_native_load_return :: "bool \<Rightarrow> Gate \<Rightarrow> Gate" where
  "on_native_load_return succeeded g =
     (if succeeded then g
      else
        let g = (if g_state g = ArmedDuringLoad
                 then g\<lparr>g_state := (if g_recovery g then RecoveryLocked else GateOpen)\<rparr> else g) in
        if \<not> g_recovery g then g\<lparr>g_resume := False\<rparr> else g)"

definition on_post_load :: "Gate \<Rightarrow> Gate \<times> bool" where
  "on_post_load g =
     (if g_state g = ArmedDuringLoad then (g\<lparr>g_state := LockedAfterLoad\<rparr>, True) else (g, False))"

definition release_gate :: "Gate \<Rightarrow> Gate \<times> bool" where
  "release_gate g =
     (if g_state g = RecoveryLocked \<or> g_state g = LockedAfterLoad
      then (g\<lparr>g_state := Released, g_next_load := False, g_recovery := False, g_resume := False\<rparr>, True)
      else (g, False))"

definition observe_guard_menu :: "bool \<Rightarrow> Gate \<Rightarrow> Gate" where
  "observe_guard_menu b g = g\<lparr>g_guard_menu := b\<rparr>"

definition observe_cef_presentation :: "bool \<Rightarrow> Gate \<Rightarrow> Gate" where
  "observe_cef_presentation b g = g\<lparr>g_cef := b\<rparr>"

definition is_locked :: "Gate \<Rightarrow> bool" where
  "is_locked g \<longleftrightarrow> g_state g = RecoveryLocked \<or> g_state g = LockedAfterLoad \<or>
     (g_state g = ArmedDuringLoad \<and> (g_recovery g \<or> g_resume g))"

datatype GateOp =
    LockForRecovery | ArmNextLoad | ArmResumeRequiredLoad | CommitResumeRequiredTransition
  | CancelArmedLoad | OnNativeLoadEnter | OnNativeLoadReturn bool | OnPostLoad | Release
  | ObserveGuardMenu bool | ObserveCefPresentation bool

text \<open>A \<open>void\<close> operation returns \<open>True\<close>.\<close>

fun gate_perform :: "Gate \<Rightarrow> GateOp \<Rightarrow> Gate \<times> bool" where
  "gate_perform g LockForRecovery = lock_for_recovery g"
| "gate_perform g ArmNextLoad = arm_next_load g"
| "gate_perform g ArmResumeRequiredLoad = arm_resume_required_load g"
| "gate_perform g CommitResumeRequiredTransition = commit_resume_required_transition g"
| "gate_perform g CancelArmedLoad = cancel_armed_load g"
| "gate_perform g OnNativeLoadEnter = on_native_load_enter g"
| "gate_perform g (OnNativeLoadReturn b) = (on_native_load_return b g, True)"
| "gate_perform g OnPostLoad = on_post_load g"
| "gate_perform g Release = release_gate g"
| "gate_perform g (ObserveGuardMenu b) = (observe_guard_menu b g, True)"
| "gate_perform g (ObserveCefPresentation b) = (observe_cef_presentation b g, True)"

section \<open>The operations as programs of atomic accesses\<close>

datatype GatePc =
    Lock_StoreRecovery | Lock_StoreGuard | Lock_StoreCef | Lock_Load | Lock_Exchange GateState
  | Arm_Load bool | Arm_LoadRecovery bool | Arm_Exchange bool | Arm_StoreResume
  | Commit_LoadResume | Commit_Take | Commit_Load | Commit_Exchange GateState
  | Commit_StoreGuard | Commit_StoreCef | Commit_PutBack
  | Cancel_Take | Cancel_LoadRecovery bool | Cancel_Exchange bool bool | Cancel_Recheck bool
  | Cancel_LoadState bool | Cancel_StoreResume bool
  | Enter_Take | Enter_StoreGuard | Enter_StoreCef | Enter_StoreState
  | Return_LoadRecovery | Return_Exchange bool | Return_Recheck | Return_StoreResume
  | Post_Exchange
  | Release_Load | Release_Exchange GateState | Release_StoreNext | Release_StoreRecovery
  | Release_StoreResume
  | Observe_StoreGuard bool | Observe_StoreCef bool
  | Done bool

text \<open>The tests that follow a load without another access: the loop conditions.\<close>

definition lock_loop :: "GateState \<Rightarrow> GatePc" where
  "lock_loop s =
     (if s = GateOpen \<or> s = Released then Lock_Exchange s
      else Done (s = RecoveryLocked \<or> s = ArmedDuringLoad \<or> s = LockedAfterLoad))"

definition commit_loop :: "GateState \<Rightarrow> GatePc" where
  "commit_loop s = (if s = GateOpen \<or> s = Released then Commit_Exchange s else Commit_PutBack)"

definition release_loop :: "GateState \<Rightarrow> GatePc" where
  "release_loop s = (if s = RecoveryLocked \<or> s = LockedAfterLoad then Release_Exchange s else Done False)"

text \<open>One atomic access; \<open>spurious\<close> makes a weak exchange fail.\<close>

fun gate_step :: "bool \<Rightarrow> GatePc \<Rightarrow> Gate \<Rightarrow> GatePc \<times> Gate" where
  "gate_step spurious Lock_StoreRecovery g = (Lock_StoreGuard, g\<lparr>g_recovery := True\<rparr>)"
| "gate_step spurious Lock_StoreGuard g = (Lock_StoreCef, g\<lparr>g_guard_menu := False\<rparr>)"
| "gate_step spurious Lock_StoreCef g = (Lock_Load, g\<lparr>g_cef := False\<rparr>)"
| "gate_step spurious Lock_Load g = (lock_loop (g_state g), g)"
| "gate_step spurious (Lock_Exchange s) g =
     (if g_state g = s \<and> \<not> spurious then (Done True, g\<lparr>g_state := RecoveryLocked\<rparr>)
      else (lock_loop (g_state g), g))"
| "gate_step spurious (Arm_Load resume) g =
     (if g_state g = ArmedDuringLoad then Done False
      else if g_state g = LockedAfterLoad then Arm_LoadRecovery resume else Arm_Exchange resume, g)"
| "gate_step spurious (Arm_LoadRecovery resume) g =
     (if g_recovery g then Arm_Exchange resume else Done False, g)"
| "gate_step spurious (Arm_Exchange resume) g =
     (if g_next_load g then (Done False, g)
      else (if resume then Arm_StoreResume else Done True, g\<lparr>g_next_load := True\<rparr>))"
| "gate_step spurious Arm_StoreResume g = (Done True, g\<lparr>g_resume := True\<rparr>)"
| "gate_step spurious Commit_LoadResume g = (if g_resume g then Commit_Take else Done False, g)"
| "gate_step spurious Commit_Take g =
     (if g_next_load g then Commit_Load else Done False, g\<lparr>g_next_load := False\<rparr>)"
| "gate_step spurious Commit_Load g = (commit_loop (g_state g), g)"
| "gate_step spurious (Commit_Exchange s) g =
     (if g_state g = s \<and> \<not> spurious then (Commit_StoreGuard, g\<lparr>g_state := LockedAfterLoad\<rparr>)
      else (commit_loop (g_state g), g))"
| "gate_step spurious Commit_StoreGuard g = (Commit_StoreCef, g\<lparr>g_guard_menu := False\<rparr>)"
| "gate_step spurious Commit_StoreCef g = (Done True, g\<lparr>g_cef := False\<rparr>)"
| "gate_step spurious Commit_PutBack g = (Done False, g\<lparr>g_next_load := True\<rparr>)"
| "gate_step spurious Cancel_Take g = (Cancel_LoadRecovery (g_next_load g), g\<lparr>g_next_load := False\<rparr>)"
| "gate_step spurious (Cancel_LoadRecovery pending) g = (Cancel_Exchange pending (g_recovery g), g)"
| "gate_step spurious (Cancel_Exchange pending recovery) g =
     (if g_state g = ArmedDuringLoad
      then (Cancel_Recheck True, g\<lparr>g_state := (if recovery then RecoveryLocked else GateOpen)\<rparr>)
      else (Cancel_Recheck pending, g))"
| "gate_step spurious (Cancel_Recheck result) g =
     (if g_recovery g then Done result else Cancel_LoadState result, g)"
| "gate_step spurious (Cancel_LoadState result) g =
     (if g_state g = GateOpen then Cancel_StoreResume result else Done result, g)"
| "gate_step spurious (Cancel_StoreResume result) g = (Done result, g\<lparr>g_resume := False\<rparr>)"
| "gate_step spurious Enter_Take g =
     (if g_next_load g then Enter_StoreGuard else Done False, g\<lparr>g_next_load := False\<rparr>)"
| "gate_step spurious Enter_StoreGuard g = (Enter_StoreCef, g\<lparr>g_guard_menu := False\<rparr>)"
| "gate_step spurious Enter_StoreCef g = (Enter_StoreState, g\<lparr>g_cef := False\<rparr>)"
| "gate_step spurious Enter_StoreState g = (Done True, g\<lparr>g_state := ArmedDuringLoad\<rparr>)"
| "gate_step spurious Return_LoadRecovery g = (Return_Exchange (g_recovery g), g)"
| "gate_step spurious (Return_Exchange recovery) g =
     (Return_Recheck,
      if g_state g = ArmedDuringLoad
      then g\<lparr>g_state := (if recovery then RecoveryLocked else GateOpen)\<rparr> else g)"
| "gate_step spurious Return_Recheck g = (if g_recovery g then Done True else Return_StoreResume, g)"
| "gate_step spurious Return_StoreResume g = (Done True, g\<lparr>g_resume := False\<rparr>)"
| "gate_step spurious Post_Exchange g =
     (if g_state g = ArmedDuringLoad then (Done True, g\<lparr>g_state := LockedAfterLoad\<rparr>) else (Done False, g))"
| "gate_step spurious Release_Load g = (release_loop (g_state g), g)"
| "gate_step spurious (Release_Exchange s) g =
     (if g_state g = s \<and> \<not> spurious then (Release_StoreNext, g\<lparr>g_state := Released\<rparr>)
      else (release_loop (g_state g), g))"
| "gate_step spurious Release_StoreNext g = (Release_StoreRecovery, g\<lparr>g_next_load := False\<rparr>)"
| "gate_step spurious Release_StoreRecovery g = (Release_StoreResume, g\<lparr>g_recovery := False\<rparr>)"
| "gate_step spurious Release_StoreResume g = (Done True, g\<lparr>g_resume := False\<rparr>)"
| "gate_step spurious (Observe_StoreGuard b) g = (Done True, g\<lparr>g_guard_menu := b\<rparr>)"
| "gate_step spurious (Observe_StoreCef b) g = (Done True, g\<lparr>g_cef := b\<rparr>)"
| "gate_step spurious (Done r) g = (Done r, g)"

text \<open>A load that succeeded returns without any access.\<close>

fun gate_entry :: "GateOp \<Rightarrow> GatePc" where
  "gate_entry LockForRecovery = Lock_StoreRecovery"
| "gate_entry ArmNextLoad = Arm_Load False"
| "gate_entry ArmResumeRequiredLoad = Arm_Load True"
| "gate_entry CommitResumeRequiredTransition = Commit_LoadResume"
| "gate_entry CancelArmedLoad = Cancel_Take"
| "gate_entry OnNativeLoadEnter = Enter_Take"
| "gate_entry (OnNativeLoadReturn succeeded) = (if succeeded then Done True else Return_LoadRecovery)"
| "gate_entry OnPostLoad = Post_Exchange"
| "gate_entry Release = Release_Load"
| "gate_entry (ObserveGuardMenu b) = Observe_StoreGuard b"
| "gate_entry (ObserveCefPresentation b) = Observe_StoreCef b"

text \<open>
  The whole system: the shared gate and the threads that use it, each at its next access. A thread
  that is done may start another operation.
\<close>

inductive gate_system :: "GatePc list \<times> Gate \<Rightarrow> GatePc list \<times> Gate \<Rightarrow> bool" where
  access: "i < length ts \<Longrightarrow> gate_step spurious (ts ! i) g = (pc, g') \<Longrightarrow>
    gate_system (ts, g) (ts[i := pc], g')"
| call: "i < length ts \<Longrightarrow> ts ! i = Done r \<Longrightarrow> gate_system (ts, g) (ts[i := gate_entry op], g)"

inductive_cases gate_systemE: "gate_system (ts, g) (ts', g')"

text \<open>A schedule: which thread makes the next access, and whether a weak exchange fails.\<close>

fun gate_schedule :: "(nat \<times> bool) list \<Rightarrow> GatePc list \<times> Gate \<Rightarrow> GatePc list \<times> Gate" where
  "gate_schedule [] c = c"
| "gate_schedule ((i, spurious) # xs) (ts, g) =
     (case gate_step spurious (ts ! i) g of (pc, g') \<Rightarrow> gate_schedule xs (ts[i := pc], g'))"

lemma schedule_steps:
  "list_all (\<lambda>(i, _). i < length ts) xs \<Longrightarrow> gate_system\<^sup>*\<^sup>* (ts, g) (gate_schedule xs (ts, g))"
proof (induction xs arbitrary: ts g)
  case (Cons x xs)
  obtain i spurious where x: "x = (i, spurious)" by force
  obtain pc g' where step: "gate_step spurious (ts ! i) g = (pc, g')" by force
  with Cons.prems x have "gate_system (ts, g) (ts[i := pc], g')" by (auto intro: access)
  moreover have "gate_system\<^sup>*\<^sup>* (ts[i := pc], g') (gate_schedule xs (ts[i := pc], g'))"
    using Cons.prems by (intro Cons.IH) simp
  ultimately show ?case using x step by simp
qed simp

section \<open>The recovery lock\<close>

definition gate_wf :: "Gate \<Rightarrow> bool" where
  "gate_wf g \<longleftrightarrow>
     (g_recovery g \<longrightarrow> g_state g = RecoveryLocked \<or> g_state g = ArmedDuringLoad \<or> g_state g = LockedAfterLoad) \<and>
     (g_state g = RecoveryLocked \<longrightarrow> g_recovery g)"

lemmas gate_op_defs = lock_for_recovery_def arm_next_load_def arm_resume_required_load_def
  commit_resume_required_transition_def cancel_armed_load_def on_native_load_enter_def
  on_native_load_return_def on_post_load_def release_gate_def observe_guard_menu_def
  observe_cef_presentation_def

lemma new_gate_wf: "gate_wf new_gate"
  by (simp add: gate_wf_def new_gate_def)

lemma gate_perform_wf: "gate_wf g \<Longrightarrow> gate_wf (fst (gate_perform g op))"
  by (cases op; cases "g_state g") (auto simp: gate_op_defs gate_wf_def)

interpretation gate: op_machine gate_perform gate_wf
  by unfold_locales (rule gate_perform_wf)

lemma recovery_locked: "gate_wf g \<Longrightarrow> g_recovery g \<Longrightarrow> is_locked g"
  by (auto simp: gate_wf_def is_locked_def)

text \<open>Only a release that succeeds ends the ownership of the recovery.\<close>

lemma recovery_kept:
  "g_recovery g \<Longrightarrow> op \<noteq> Release \<or> \<not> snd (gate_perform g op) \<Longrightarrow> g_recovery (fst (gate_perform g op))"
  by (cases op) (auto simp: gate_op_defs)

lemma run_recovery_kept: "g_recovery g \<Longrightarrow> Release \<notin> set ops \<Longrightarrow> g_recovery (run_ops gate_perform g ops)"
  by (induction ops arbitrary: g) (auto simp: recovery_kept)

lemma lock_owns: "gate_wf g \<Longrightarrow> snd (lock_for_recovery g) \<and> g_recovery (fst (lock_for_recovery g))"
  by (cases "g_state g") (auto simp: lock_for_recovery_def)

section \<open>One thread alone\<close>

fun gate_run :: "nat \<Rightarrow> GatePc \<times> Gate \<Rightarrow> GatePc \<times> Gate" where
  "gate_run 0 c = c"
| "gate_run (Suc n) (pc, g) = gate_run n (gate_step False pc g)"

lemma gate_run_numeral [simp]:
  "gate_run (numeral n) (pc, g) = gate_run (pred_numeral n) (gate_step False pc g)"
  by (simp add: numeral_eq_Suc)

section \<open>The edges of the state\<close>

definition gate_edge :: "GateState \<Rightarrow> GateState \<Rightarrow> bool" where
  "gate_edge s t \<longleftrightarrow>
     (case s of
        GateOpen \<Rightarrow> t = RecoveryLocked \<or> t = LockedAfterLoad \<or> t = ArmedDuringLoad
      | Released \<Rightarrow> t = RecoveryLocked \<or> t = LockedAfterLoad \<or> t = ArmedDuringLoad
      | RecoveryLocked \<Rightarrow> t = Released \<or> t = ArmedDuringLoad
      | LockedAfterLoad \<Rightarrow> t = Released \<or> t = ArmedDuringLoad
      | ArmedDuringLoad \<Rightarrow> t = RecoveryLocked \<or> t = LockedAfterLoad \<or> t = GateOpen)"

text \<open>The local variable of an exchange loop is a state the loop may leave.\<close>

fun pc_ok :: "GatePc \<Rightarrow> bool" where
  "pc_ok (Lock_Exchange s) = (s = GateOpen \<or> s = Released)"
| "pc_ok (Commit_Exchange s) = (s = GateOpen \<or> s = Released)"
| "pc_ok (Release_Exchange s) = (s = RecoveryLocked \<or> s = LockedAfterLoad)"
| "pc_ok _ = True"

lemma gate_step_ok:
  assumes "pc_ok pc" and "gate_step spurious pc g = (pc', g')"
  shows "pc_ok pc' \<and> (g_state g' = g_state g \<or> gate_edge (g_state g) (g_state g'))"
  using assms
  by (cases pc) (auto simp: gate_edge_def lock_loop_def commit_loop_def release_loop_def
      split: if_splits GateState.splits)

lemma gate_entry_ok: "pc_ok (gate_entry op)"
  by (cases op) simp_all

lemma gate_system_ok:
  "gate_system c c' \<Longrightarrow> list_all pc_ok (fst c) \<Longrightarrow>
     list_all pc_ok (fst c') \<and>
     (g_state (snd c') = g_state (snd c) \<or> gate_edge (g_state (snd c)) (g_state (snd c')))"
proof (induction rule: gate_system.induct)
  case (access i ts spurious g pc g')
  then have "pc_ok (ts ! i)" by (simp add: list_all_length)
  from gate_step_ok [OF this access(2)] access show ?case
    by (simp add: list_all_length nth_list_update)
next
  case (call i ts r g op)
  then show ?case by (simp add: list_all_length nth_list_update gate_entry_ok)
qed

lemma gate_system_run_ok: "gate_system\<^sup>*\<^sup>* c c' \<Longrightarrow> list_all pc_ok (fst c) \<Longrightarrow> list_all pc_ok (fst c')"
  by (induction rule: rtranclp_induct) (auto dest: gate_system_ok)

section \<open>Properties\<close>

text \<open>
  The recovery lock holds. Whatever happened to the gate before, locking it for recovery
  succeeds, and from then on, whatever loads are armed, entered, failed, finished or cancelled, the
  gate is locked until it is released.
\<close>

theorem recovery_lock_holds:
  assumes "Release \<notin> set ops"
  shows "snd (lock_for_recovery (run_ops gate_perform new_gate before)) \<and>
    is_locked (run_ops gate_perform (fst (lock_for_recovery (run_ops gate_perform new_gate before))) ops)"
proof -
  let ?g = "run_ops gate_perform new_gate before"
  have wf: "gate_wf ?g" by (rule gate.run_wf [OF new_gate_wf])
  with lock_owns [OF wf] gate_perform_wf [OF wf, of LockForRecovery] show ?thesis
    by (simp add: recovery_locked gate.run_wf run_recovery_kept assms)
qed

theorem recovery_lock_holds_witness:
  "is_locked (run_ops gate_perform (fst (lock_for_recovery (run_ops gate_perform new_gate [ArmNextLoad])))
     [OnNativeLoadEnter, OnNativeLoadReturn False, CancelArmedLoad])"
  using recovery_lock_holds [of "[OnNativeLoadEnter, OnNativeLoadReturn False, CancelArmedLoad]" "[ArmNextLoad]"]
  by simp

text \<open>
  Every operation ends after at most six atomic accesses when no other thread interferes, and
  then its program has done to the gate, and returns, exactly what the operation is said to do.
\<close>

theorem gate_programs_implement_operations:
  "gate_run 6 (gate_entry op, g) = (Done (snd (gate_perform g op)), fst (gate_perform g op))"
  by (cases op; cases "g_state g")
    (simp_all add: gate_op_defs lock_loop_def commit_loop_def release_loop_def)

text \<open>
  C34: Under every interleaving of any number of threads, spurious failures of the weak exchanges
  included, the state of the gate only moves along the edges of its transition diagram. In
  particular a locked gate is never opened but through a release or a managed load.
\<close>

theorem gate_state_moves_along_edges:
  assumes "gate_system\<^sup>*\<^sup>* (replicate n (Done True), new_gate) c" and "gate_system c c'"
  shows "g_state (snd c') = g_state (snd c) \<or> gate_edge (g_state (snd c)) (g_state (snd c'))"
  using gate_system_ok [OF assms(2)] gate_system_run_ok [OF assms(1)] by (simp add: list_all_length)

theorem gate_state_moves_along_edges_witness:
  "gate_edge GateOpen RecoveryLocked"
proof -
  let ?c = "gate_schedule (replicate 4 (0, False)) ([Lock_StoreRecovery], new_gate)"
  have "gate_system ([Done True], new_gate) ([Done True][0 := gate_entry LockForRecovery], new_gate)"
    by (rule call) simp_all
  moreover have "gate_system\<^sup>*\<^sup>* ([Lock_StoreRecovery], new_gate) ?c" by (rule schedule_steps) (simp add: list_all_iff)
  ultimately have run: "gate_system\<^sup>*\<^sup>* (replicate 1 (Done True), new_gate) ?c" by simp
  have c: "?c = ([Lock_Exchange GateOpen], new_gate\<lparr>g_recovery := True\<rparr>)"
    by (simp add: new_gate_def lock_loop_def numeral_eq_Suc)
  have step: "gate_system ?c ([Lock_Exchange GateOpen][0 := Done True],
      new_gate\<lparr>g_recovery := True, g_state := RecoveryLocked\<rparr>)"
    unfolding c by (rule access [where spurious = False]) (simp_all add: new_gate_def)
  from gate_state_moves_along_edges [OF run step] show ?thesis unfolding c by (simp add: new_gate_def)
qed

text \<open>
  The operations are not atomic. With a failed load returning on another thread, which has
  read that no recovery owns the gate just before, a lock for recovery reports success and leaves
  the gate open.
\<close>

theorem recovery_lock_can_be_lost:
  "\<exists>g c. g = run_ops gate_perform new_gate [ArmNextLoad, OnNativeLoadEnter] \<and>
     gate_system\<^sup>*\<^sup>* ([gate_entry LockForRecovery, gate_entry (OnNativeLoadReturn False)], g) c \<and>
     fst c = [Done True, Done True] \<and> \<not> is_locked (snd c)"
proof -
  let ?g = "run_ops gate_perform new_gate [ArmNextLoad, OnNativeLoadEnter]"
  let ?start = "([gate_entry LockForRecovery, gate_entry (OnNativeLoadReturn False)], ?g)"
  let ?c = "gate_schedule ((1, False) # replicate 4 (0, False) @ replicate 2 (1, False)) ?start"
  have "gate_system\<^sup>*\<^sup>* ?start ?c" by (rule schedule_steps) (simp add: list_all_iff)
  moreover have "fst ?c = [Done True, Done True] \<and> \<not> is_locked (snd ?c)" by code_simp
  ultimately show ?thesis by blast
qed

end
