(* ===== verification/Histories.thy ===== *)
theory Histories
  imports Prelude "HOL-Library.Sublist"
begin

text \<open>
  The interface of a component that is looked at together with the operations that led to its
  state (\<open>recorded_machine\<close>): what a state says about its past, if every operation keeps it, holds
  of every run. The past is spoken of by \<open>happened steps xs\<close>: the operations \<open>steps\<close>, the last
  one first, occurred in \<open>xs\<close> in that order. Then the interface of a component that hands out a
  permission which must not be given twice (\<open>one_shot\<close>).
\<close>

locale recorded_machine =
  fixes perform :: "'s \<Rightarrow> 'op \<Rightarrow> 's \<times> 'r" and start :: "'s" and past :: "'op list \<Rightarrow> 's \<Rightarrow> bool"
  assumes past_start: "past [] start"
    and past_step: "past xs s \<Longrightarrow> past (xs @ [x]) (fst (perform s x))"
begin

lemma run_append: "run_ops perform s (xs @ [x]) = fst (perform (run_ops perform s xs) x)"
  by (induction xs arbitrary: s) simp_all

lemma run_past: "past xs (run_ops perform start xs)"
  by (induction xs rule: rev_induct) (simp_all add: past_start past_step run_append)

end

definition happened :: "'op list \<Rightarrow> 'op list \<Rightarrow> bool" where
  "happened steps xs \<longleftrightarrow> subseq (rev steps) xs"

lemma happened_none [simp]: "happened [] xs"
  by (simp add: happened_def)

lemma happened_later: "happened steps xs \<Longrightarrow> happened steps (xs @ [x])"
  unfolding happened_def by (rule subseq_rev_drop_many)

lemma happened_now: "happened steps xs \<Longrightarrow> happened (x # steps) (xs @ [x])"
  unfolding happened_def by (simp add: list_emb_append_mono)

lemma happened_before: "happened (x # steps) xs \<Longrightarrow> happened steps xs"
  unfolding happened_def
  by (rule subseq_order.order_trans [OF subseq_rev_drop_many [OF subseq_order.order_refl, of _ "[x]"]]) simp

text \<open>An operation occurred and none of \<open>kills\<close> after it.\<close>

definition since :: "'op \<Rightarrow> 'op set \<Rightarrow> 'op list \<Rightarrow> bool" where
  "since x kills xs \<longleftrightarrow> (\<exists>us vs. xs = us @ x # vs \<and> set vs \<inter> kills = {})"

lemma since_now: "since x kills (xs @ [x])"
  unfolding since_def by (rule exI [of _ xs]) simp

lemma since_later: "since x kills xs \<Longrightarrow> y \<notin> kills \<Longrightarrow> since x kills (xs @ [y])"
  unfolding since_def by (elim exE conjE) (rule exI, rule exI [of _ "_ @ [y]"], auto)

lemma since_in: "since x kills xs \<Longrightarrow> x \<in> set xs"
  by (auto simp: since_def)

section \<open>A permission that is given once\<close>

text \<open>The answers of a run, next to the operations.\<close>

fun run_replies :: "('s \<Rightarrow> 'op \<Rightarrow> 's \<times> 'r) \<Rightarrow> 's \<Rightarrow> 'op list \<Rightarrow> ('op \<times> 'r) list" where
  "run_replies f s [] = []"
| "run_replies f s (x # xs) = (x, snd (f s x)) # run_replies f (fst (f s x)) xs"

text \<open>
  A component that grants a permission by a reply, can only grant it while it is not \<open>spent\<close>, has
  spent it once it has granted it, and has it again only by a \<open>renews\<close> operation.
\<close>

locale one_shot = op_machine perform wf_state
  for perform :: "'s \<Rightarrow> 'op \<Rightarrow> 's \<times> 'r" and wf_state :: "'s \<Rightarrow> bool" +
  fixes granted :: "'op \<times> 'r \<Rightarrow> bool" and spent :: "'s \<Rightarrow> bool" and renews :: "'op \<Rightarrow> bool"
  assumes grant_unspent: "wf_state s \<Longrightarrow> granted (x, snd (perform s x)) \<Longrightarrow> \<not> spent s \<and> \<not> renews x"
    and grant_spends: "wf_state s \<Longrightarrow> granted (x, snd (perform s x)) \<Longrightarrow> spent (fst (perform s x))"
    and stays_spent: "wf_state s \<Longrightarrow> spent s \<Longrightarrow> \<not> renews x \<Longrightarrow> spent (fst (perform s x))"
begin

lemma grants_bounded:
  "wf_state s \<Longrightarrow> length (filter granted (run_replies perform s xs)) \<le>
     length (filter renews xs) + (if spent s then 0 else 1)"
proof (induction xs arbitrary: s)
  case (Cons x xs)
  let ?s = "fst (perform s x)"
  from Cons.IH [OF perform_wf [OF Cons.prems], of x] show ?case
    using grant_unspent [OF Cons.prems, of x] grant_spends [OF Cons.prems, of x]
      stays_spent [OF Cons.prems, of x]
    by (auto split: if_splits)
qed simp

end

end
