(* ===== verification/ClientRecovery.thy ===== *)
theory ClientRecovery
  imports Histories
begin

text \<open>
  \<open>campaign_client/CampaignRecoveryState.{h,cpp}\<close>: the client's part of a campaign recovery, from
  the lock through the load of the native save and the restored snapshot to the release. A
  correlation names the recovery attempt that every message has to match. The interface
  \<open>recorded_machine\<close> relates a state to the operations that led to it; its instance gives the
  history that stands behind a release.
\<close>

section \<open>State\<close>

datatype RecoveryStage =
    RecIdle | RecLocked | LoadingNativeSave | NativeSaveLoaded | SnapshotApplied | RecCompleted | RecFailed

datatype RecoveryAction =
    RecReject | RecIgnore | StartNativeLoad | ResendLoaded | ApplySnapshot | ResendSnapshotApplied
  | RecRelease

datatype DisconnectContext = GameplayWorld | MainMenuRuntimeDeparture
datatype LocalGateAction = LockGameplay | SkipNoGameplay

fun project_recovery_disconnect_gate :: "DisconnectContext \<Rightarrow> LocalGateAction" where
  "project_recovery_disconnect_gate MainMenuRuntimeDeparture = SkipNoGameplay"
| "project_recovery_disconnect_gate GameplayWorld = LockGameplay"

record Correlation =
  co_campaign :: string
  co_attempt :: string
  co_checkpoint :: string
  co_source :: u64
  co_restore :: u64

definition no_correlation :: Correlation where
  "no_correlation = \<lparr>co_campaign = [], co_attempt = [], co_checkpoint = [], co_source = 0, co_restore = 0\<rparr>"

record RecoveryState =
  r_stage :: RecoveryStage
  r_correlation :: Correlation
  r_authoritative :: bool

definition new_recovery :: RecoveryState where
  "new_recovery = \<lparr>r_stage = RecIdle, r_correlation = no_correlation, r_authoritative = False\<rparr>"

section \<open>Operations\<close>

definition lock_internal :: "string \<Rightarrow> bool \<Rightarrow> RecoveryState \<Rightarrow> RecoveryState \<times> bool" where
  "lock_internal campaign authoritative r =
     (if campaign = [] then (r, False)
      else if r_stage r \<noteq> RecIdle \<and> r_stage r \<noteq> RecCompleted \<and> co_campaign (r_correlation r) \<noteq> campaign
      then (r, False)
      else if r_stage r = RecIdle \<or> r_stage r = RecCompleted
      then (r\<lparr>r_correlation := no_correlation\<lparr>co_campaign := campaign\<rparr>,
              r_stage := RecLocked, r_authoritative := authoritative\<rparr>, True)
      else if authoritative then (r\<lparr>r_authoritative := True\<rparr>, True)
      else (r, True))"

definition rec_lock :: "string \<Rightarrow> RecoveryState \<Rightarrow> RecoveryState \<times> bool" where
  "rec_lock campaign = lock_internal campaign True"

definition rec_lock_provisional :: "string \<Rightarrow> RecoveryState \<Rightarrow> RecoveryState \<times> bool" where
  "rec_lock_provisional campaign = lock_internal campaign False"

definition observe_authoritative_active :: "string \<Rightarrow> RecoveryState \<Rightarrow> RecoveryState \<times> RecoveryAction" where
  "observe_authoritative_active campaign r =
     (if campaign = [] \<or> campaign \<noteq> co_campaign (r_correlation r) then (r, RecReject)
      else if r_stage r = SnapshotApplied \<and> co_attempt (r_correlation r) \<noteq> []
      then (r, ResendSnapshotApplied)
      else if r_stage r = RecLocked \<and> co_attempt (r_correlation r) = [] \<and> \<not> r_authoritative r
      then (r\<lparr>r_stage := RecIdle, r_correlation := no_correlation, r_authoritative := False\<rparr>, RecRelease)
      else (r, RecIgnore))"

definition matches_base :: "RecoveryState \<Rightarrow> Correlation \<Rightarrow> bool" where
  "matches_base r c \<longleftrightarrow>
     co_campaign c \<noteq> [] \<and> co_attempt c \<noteq> [] \<and> co_checkpoint c \<noteq> [] \<and>
     co_campaign c = co_campaign (r_correlation r) \<and> co_attempt c = co_attempt (r_correlation r) \<and>
     co_checkpoint c = co_checkpoint (r_correlation r) \<and> co_source c = co_source (r_correlation r)"

definition observe_load_request :: "Correlation \<Rightarrow> RecoveryState \<Rightarrow> RecoveryState \<times> RecoveryAction" where
  "observe_load_request c r =
     (if co_campaign c = [] \<or> co_attempt c = [] \<or> co_checkpoint c = [] \<or> co_source c = 0 \<or>
         co_restore c \<noteq> 0 \<or> co_campaign c \<noteq> co_campaign (r_correlation r)
      then (r, RecReject)
      else if r_stage r = RecLocked
      then (r\<lparr>r_correlation := c, r_authoritative := True, r_stage := LoadingNativeSave\<rparr>, StartNativeLoad)
      else if \<not> matches_base r c then (r, RecReject)
      else if r_stage r = RecFailed then (r\<lparr>r_stage := LoadingNativeSave\<rparr>, StartNativeLoad)
      else if r_stage r = LoadingNativeSave then (r, RecIgnore)
      else if r_stage r = NativeSaveLoaded \<or> r_stage r = SnapshotApplied then (r, ResendLoaded)
      else (r, RecReject))"

definition finish_native_load :: "bool \<Rightarrow> RecoveryState \<Rightarrow> RecoveryState \<times> bool" where
  "finish_native_load succeeded r =
     (if r_stage r \<noteq> LoadingNativeSave then (r, False)
      else (r\<lparr>r_stage := (if succeeded then NativeSaveLoaded else RecFailed)\<rparr>, True))"

definition observe_snapshot :: "Correlation \<Rightarrow> RecoveryState \<Rightarrow> RecoveryState \<times> RecoveryAction" where
  "observe_snapshot c r =
     (if \<not> matches_base r c \<or> co_restore c = 0 then (r, RecReject)
      else if r_stage r = NativeSaveLoaded
      then (r\<lparr>r_correlation := (r_correlation r)\<lparr>co_restore := co_restore c\<rparr>\<rparr>, ApplySnapshot)
      else if r_stage r = SnapshotApplied \<and> co_restore (r_correlation r) = co_restore c
      then (r, ResendSnapshotApplied)
      else (r, RecReject))"

definition finish_snapshot_apply :: "RecoveryState \<Rightarrow> RecoveryState \<times> bool" where
  "finish_snapshot_apply r =
     (if r_stage r \<noteq> NativeSaveLoaded \<or> co_restore (r_correlation r) = 0 then (r, False)
      else (r\<lparr>r_stage := SnapshotApplied\<rparr>, True))"

definition observe_complete :: "Correlation \<Rightarrow> RecoveryState \<Rightarrow> RecoveryState \<times> RecoveryAction" where
  "observe_complete c r =
     (if r_stage r = RecCompleted \<and> r_correlation r = c then (r, RecRelease)
      else if r_stage r \<noteq> SnapshotApplied \<or> r_correlation r \<noteq> c then (r, RecReject)
      else (r\<lparr>r_stage := RecCompleted\<rparr>, RecRelease))"

text \<open>The messages and events a recovery can see, and what the caller gets back.\<close>

datatype RecoveryOp =
    Lock string | LockProvisional string | ObserveAuthoritativeActive string
  | ObserveLoadRequest Correlation | FinishNativeLoad bool | ObserveSnapshot Correlation
  | FinishSnapshotApply | ObserveComplete Correlation

type_synonym RecoveryReply = "bool + RecoveryAction"

fun recovery_perform :: "RecoveryState \<Rightarrow> RecoveryOp \<Rightarrow> RecoveryState \<times> RecoveryReply" where
  "recovery_perform r (Lock i) = map_prod id Inl (rec_lock i r)"
| "recovery_perform r (LockProvisional i) = map_prod id Inl (rec_lock_provisional i r)"
| "recovery_perform r (ObserveAuthoritativeActive i) = map_prod id Inr (observe_authoritative_active i r)"
| "recovery_perform r (ObserveLoadRequest c) = map_prod id Inr (observe_load_request c r)"
| "recovery_perform r (FinishNativeLoad b) = map_prod id Inl (finish_native_load b r)"
| "recovery_perform r (ObserveSnapshot c) = map_prod id Inr (observe_snapshot c r)"
| "recovery_perform r FinishSnapshotApply = map_prod id Inl (finish_snapshot_apply r)"
| "recovery_perform r (ObserveComplete c) = map_prod id Inr (observe_complete c r)"

lemmas recovery_defs = rec_lock_def rec_lock_provisional_def lock_internal_def
  observe_authoritative_active_def observe_load_request_def finish_native_load_def
  observe_snapshot_def finish_snapshot_apply_def observe_complete_def matches_base_def

section \<open>What a correlation is worth in each stage\<close>

definition base_complete :: "Correlation \<Rightarrow> bool" where
  "base_complete c \<longleftrightarrow> co_campaign c \<noteq> [] \<and> co_attempt c \<noteq> [] \<and> co_checkpoint c \<noteq> [] \<and> co_source c \<noteq> 0"

definition recovery_wf :: "RecoveryState \<Rightarrow> bool" where
  "recovery_wf r \<longleftrightarrow>
     (let c = r_correlation r in
      case r_stage r of
        RecIdle \<Rightarrow> c = no_correlation
      | RecLocked \<Rightarrow> co_campaign c \<noteq> [] \<and> c = no_correlation\<lparr>co_campaign := co_campaign c\<rparr>
      | LoadingNativeSave \<Rightarrow> base_complete c \<and> co_restore c = 0 \<and> r_authoritative r
      | RecFailed \<Rightarrow> base_complete c \<and> co_restore c = 0 \<and> r_authoritative r
      | NativeSaveLoaded \<Rightarrow> base_complete c \<and> r_authoritative r
      | SnapshotApplied \<Rightarrow> base_complete c \<and> co_restore c \<noteq> 0 \<and> r_authoritative r
      | RecCompleted \<Rightarrow> base_complete c \<and> co_restore c \<noteq> 0)"

lemma no_correlation_simps [simp]:
  "co_campaign no_correlation = []" "co_attempt no_correlation = []" "co_checkpoint no_correlation = []"
  "co_source no_correlation = 0" "co_restore no_correlation = 0"
  by (simp_all add: no_correlation_def)

lemma new_recovery_wf: "recovery_wf new_recovery"
  by (simp add: new_recovery_def recovery_wf_def)

lemma recovery_perform_wf: "recovery_wf r \<Longrightarrow> recovery_wf (fst (recovery_perform r x))"
  by (cases x; cases "r_stage r")
    (auto simp: recovery_defs recovery_wf_def base_complete_def no_correlation_def)

interpretation recovery: op_machine recovery_perform recovery_wf
  by unfold_locales (rule recovery_perform_wf)

section \<open>Histories\<close>

text \<open>The steps of a recovery that lead to the present stage, as they occurred.\<close>

definition recovery_steps :: "RecoveryState \<Rightarrow> RecoveryOp list" where
  "recovery_steps r =
     (let c = r_correlation r;
          load = ObserveLoadRequest (c\<lparr>co_restore := 0\<rparr>) in
      case r_stage r of
        LoadingNativeSave \<Rightarrow> [load]
      | NativeSaveLoaded \<Rightarrow>
          (if co_restore c = 0 then [] else [ObserveSnapshot c]) @ [FinishNativeLoad True, load]
      | SnapshotApplied \<Rightarrow> [FinishSnapshotApply, ObserveSnapshot c, FinishNativeLoad True, load]
      | RecCompleted \<Rightarrow>
          [ObserveComplete c, FinishSnapshotApply, ObserveSnapshot c, FinishNativeLoad True, load]
      | RecFailed \<Rightarrow> [load]
      | _ \<Rightarrow> [])"

text \<open>The lock that began it is a \<open>Lock\<close> or a \<open>LockProvisional\<close> of the campaign.\<close>

definition began :: "string \<Rightarrow> RecoveryOp list \<Rightarrow> RecoveryOp list \<Rightarrow> bool" where
  "began i steps xs \<longleftrightarrow> happened (steps @ [Lock i]) xs \<or> happened (steps @ [LockProvisional i]) xs"

lemma began_lock: "began i [] (xs @ [Lock i])" "began i [] (xs @ [LockProvisional i])"
  by (simp_all add: began_def happened_now)

lemma began_later: "began i steps xs \<Longrightarrow> began i steps (xs @ [x])"
  unfolding began_def by (blast intro: happened_later)

lemma began_now: "began i steps xs \<Longrightarrow> began i (x # steps) (xs @ [x])"
  unfolding began_def by (auto intro: happened_now)

lemma began_before: "began i (x # steps) xs \<Longrightarrow> began i steps xs"
  unfolding began_def by (auto dest: happened_before)

definition recovery_past :: "RecoveryOp list \<Rightarrow> RecoveryState \<Rightarrow> bool" where
  "recovery_past xs r \<longleftrightarrow> recovery_wf r \<and>
     (r_stage r \<noteq> RecIdle \<longrightarrow> began (co_campaign (r_correlation r)) (recovery_steps r) xs)"

lemma recovery_past_same:
  "recovery_past xs r \<Longrightarrow> recovery_wf r' \<Longrightarrow> r_stage r \<noteq> RecIdle \<Longrightarrow>
     co_campaign (r_correlation r') = co_campaign (r_correlation r) \<Longrightarrow>
     recovery_steps r' = recovery_steps r \<Longrightarrow> recovery_past (xs @ [x]) r'"
  by (simp add: recovery_past_def began_later)

lemma recovery_past_kept: "recovery_past xs r \<Longrightarrow> recovery_past (xs @ [x]) r"
  by (auto simp add: recovery_past_def began_later)

lemma recovery_past_more:
  "recovery_past xs r \<Longrightarrow> recovery_wf r' \<Longrightarrow> r_stage r \<noteq> RecIdle \<Longrightarrow>
     co_campaign (r_correlation r') = co_campaign (r_correlation r) \<Longrightarrow>
     recovery_steps r = steps \<Longrightarrow> recovery_steps r' = x # steps \<Longrightarrow> recovery_past (xs @ [x]) r'"
  by (auto simp add: recovery_past_def intro: began_now)

lemma recovery_past_instead:
  "recovery_past xs r \<Longrightarrow> recovery_wf r' \<Longrightarrow> r_stage r \<noteq> RecIdle \<Longrightarrow>
     co_campaign (r_correlation r') = co_campaign (r_correlation r) \<Longrightarrow>
     recovery_steps r = y # steps \<Longrightarrow> recovery_steps r' = x # steps \<Longrightarrow> recovery_past (xs @ [x]) r'"
  by (auto simp add: recovery_past_def intro: began_now began_before)

lemma correlation_restore_same [simp]: "co_restore c = 0 \<Longrightarrow> c\<lparr>co_restore := 0\<rparr> = c"
  by (cases c) simp

lemma matched_correlation:
  assumes "matches_base r c"
  shows "(r_correlation r)\<lparr>co_restore := co_restore c\<rparr> = c"
    and "c\<lparr>co_restore := 0\<rparr> = (r_correlation r)\<lparr>co_restore := 0\<rparr>"
  using assms by (cases c; cases "r_correlation r"; simp add: matches_base_def)+

lemma recovery_past_lock:
  assumes past: "recovery_past xs r" and x: "x = Lock i \<or> x = LockProvisional i"
    and wf': "recovery_wf (fst (lock_internal i b r))"
  shows "recovery_past (xs @ [x]) (fst (lock_internal i b r))"
proof (cases "i \<noteq> [] \<and> (r_stage r = RecIdle \<or> r_stage r = RecCompleted)")
  case True
  then have "fst (lock_internal i b r) = r\<lparr>r_correlation := no_correlation\<lparr>co_campaign := i\<rparr>,
              r_stage := RecLocked, r_authoritative := b\<rparr>" by (auto simp: lock_internal_def)
  with wf' x show ?thesis by (auto simp: recovery_past_def recovery_steps_def began_lock)
next
  case False
  then have "fst (lock_internal i b r) = r \<or>
    (r_stage r \<noteq> RecIdle \<and> fst (lock_internal i b r) = r\<lparr>r_authoritative := True\<rparr>)"
    by (auto simp: lock_internal_def)
  with past wf' show ?thesis
    by (auto intro: recovery_past_kept recovery_past_same simp: recovery_steps_def)
qed

lemma load_request_cases:
  obtains "fst (observe_load_request c r) = r"
    | "r_stage r = RecLocked" "co_restore c = 0" "co_campaign c = co_campaign (r_correlation r)"
      "fst (observe_load_request c r) = r\<lparr>r_correlation := c, r_authoritative := True, r_stage := LoadingNativeSave\<rparr>"
    | "r_stage r = RecFailed" "fst (observe_load_request c r) = r\<lparr>r_stage := LoadingNativeSave\<rparr>"
proof (cases "fst (observe_load_request c r) = r")
  case False
  then have "(r_stage r = RecLocked \<and> co_restore c = 0 \<and> co_campaign c = co_campaign (r_correlation r) \<and>
      fst (observe_load_request c r) = r\<lparr>r_correlation := c, r_authoritative := True, r_stage := LoadingNativeSave\<rparr>) \<or>
    (r_stage r = RecFailed \<and> fst (observe_load_request c r) = r\<lparr>r_stage := LoadingNativeSave\<rparr>)"
    unfolding observe_load_request_def by (simp split: if_split_asm)
  with that show thesis by blast
qed

lemma recovery_past_load:
  assumes past: "recovery_past xs r" and wf': "recovery_wf (fst (observe_load_request c r))"
  shows "recovery_past (xs @ [ObserveLoadRequest c]) (fst (observe_load_request c r))"
proof -
  consider (same) "fst (observe_load_request c r) = r"
    | (first) "r_stage r = RecLocked" "co_restore c = 0" "co_campaign c = co_campaign (r_correlation r)"
        "fst (observe_load_request c r) = r\<lparr>r_correlation := c, r_authoritative := True, r_stage := LoadingNativeSave\<rparr>"
    | (again) "r_stage r = RecFailed" "fst (observe_load_request c r) = r\<lparr>r_stage := LoadingNativeSave\<rparr>"
    by (rule load_request_cases)
  then show ?thesis
  proof cases
    case same
    with past show ?thesis by (simp add: recovery_past_kept)
  next
    case first
    with wf' show ?thesis
      by (intro recovery_past_more [OF past]) (simp_all add: recovery_steps_def)
  next
    case again
    with wf' show ?thesis
      by (intro recovery_past_same [OF past]) (simp_all add: recovery_steps_def)
  qed
qed

lemma recovery_past_snapshot:
  assumes past: "recovery_past xs r" and wf': "recovery_wf (fst (observe_snapshot c r))"
  shows "recovery_past (xs @ [ObserveSnapshot c]) (fst (observe_snapshot c r))"
proof (cases "matches_base r c \<and> co_restore c \<noteq> 0 \<and> r_stage r = NativeSaveLoaded")
  case True
  then have eq: "fst (observe_snapshot c r) = r\<lparr>r_correlation := c\<rparr>"
    and load: "c\<lparr>co_restore := 0\<rparr> = (r_correlation r)\<lparr>co_restore := 0\<rparr>"
    by (simp_all add: observe_snapshot_def matched_correlation)
  from True have i: "co_campaign c = co_campaign (r_correlation r)" by (simp add: matches_base_def)
  show ?thesis
  proof (cases "co_restore (r_correlation r) = 0")
    case fresh: True
    with True wf' load i show ?thesis unfolding eq
      by (intro recovery_past_more [OF past]) (simp_all add: recovery_steps_def)
  next
    case False
    with True wf' load i show ?thesis unfolding eq
      by (intro recovery_past_instead [OF past]) (simp_all add: recovery_steps_def)
  qed
next
  case False
  then have "fst (observe_snapshot c r) = r" by (auto simp: observe_snapshot_def)
  with past show ?thesis by (simp add: recovery_past_kept)
qed

lemma recovery_past_step:
  assumes past: "recovery_past xs r"
  shows "recovery_past (xs @ [x]) (fst (recovery_perform r x))"
proof -
  from past have wf: "recovery_wf r" by (simp add: recovery_past_def)
  have wf': "recovery_wf (fst (recovery_perform r x))" by (rule recovery_perform_wf [OF wf])
  note keep = recovery_past_kept [OF past]
  show ?thesis
  proof (cases x)
    case (Lock i)
    with wf' show ?thesis
      using recovery_past_lock [OF past] by (simp add: rec_lock_def)
  next
    case (LockProvisional i)
    with wf' show ?thesis
      using recovery_past_lock [OF past] by (simp add: rec_lock_provisional_def)
  next
    case (ObserveAuthoritativeActive i)
    with wf' keep show ?thesis by (auto simp: observe_authoritative_active_def recovery_past_def)
  next
    case (ObserveLoadRequest c)
    with wf' show ?thesis using recovery_past_load [OF past] by simp
  next
    case (FinishNativeLoad b)
    with wf wf' keep show ?thesis
      by (cases b) (auto simp: finish_native_load_def recovery_steps_def recovery_wf_def
          intro: recovery_past_same [OF past] recovery_past_more [OF past])
  next
    case (ObserveSnapshot c)
    with wf' show ?thesis using recovery_past_snapshot [OF past] by simp
  next
    case FinishSnapshotApply
    with wf' keep show ?thesis
      by (auto simp: finish_snapshot_apply_def recovery_steps_def
          intro: recovery_past_more [OF past])
  next
    case (ObserveComplete c)
    with wf' keep show ?thesis
      by (auto simp: observe_complete_def recovery_steps_def
          intro: recovery_past_more [OF past])
  qed
qed

interpretation recovery_history: recorded_machine recovery_perform new_recovery recovery_past
proof unfold_locales
  show "recovery_past [] new_recovery"
    by (simp add: recovery_past_def new_recovery_wf) (simp add: new_recovery_def)
qed (rule recovery_past_step)

section \<open>Properties\<close>

lemma release_past:
  assumes past: "recovery_past xs r" and "snd (observe_complete c r) = RecRelease"
  shows "base_complete c \<and> co_restore c \<noteq> 0 \<and>
    began (co_campaign c) [FinishSnapshotApply, ObserveSnapshot c, FinishNativeLoad True,
      ObserveLoadRequest (c\<lparr>co_restore := 0\<rparr>)] xs"
proof -
  from assms(2) have c: "r_correlation r = c" and st: "r_stage r = SnapshotApplied \<or> r_stage r = RecCompleted"
    by (auto simp: observe_complete_def split: if_splits)
  then show ?thesis using past
    by (auto simp: recovery_past_def recovery_wf_def recovery_steps_def dest: began_before)
qed

text \<open>
  C35: A recovery is released only when it is done. Whenever the completion of a correlation is
  answered by a release, the correlation is complete, and before that, in this order, the client
  locked its campaign, was asked to load exactly this checkpoint for this attempt, loaded the save
  successfully, received the snapshot of exactly this correlation and finished applying it.
\<close>

theorem recovery_release_is_earned:
  assumes "snd (recovery_perform (run_ops recovery_perform new_recovery xs) (ObserveComplete c)) = Inr RecRelease"
  shows "base_complete c \<and> co_restore c \<noteq> 0 \<and>
    (\<exists>lock \<in> {Lock (co_campaign c), LockProvisional (co_campaign c)}.
       subseq [lock, ObserveLoadRequest (c\<lparr>co_restore := 0\<rparr>), FinishNativeLoad True, ObserveSnapshot c,
         FinishSnapshotApply] xs)"
  using release_past [OF recovery_history.run_past [of xs], of c] assms
  by (simp add: began_def happened_def)

definition example_correlation :: Correlation where
  "example_correlation = \<lparr>co_campaign = ''c'', co_attempt = ''a'', co_checkpoint = ''k'', co_source = 5, co_restore = 6\<rparr>"

definition example_recovery :: "RecoveryOp list" where
  "example_recovery = [LockProvisional ''c'', ObserveLoadRequest (example_correlation\<lparr>co_restore := 0\<rparr>),
     FinishNativeLoad False, ObserveLoadRequest (example_correlation\<lparr>co_restore := 0\<rparr>), FinishNativeLoad True,
     ObserveSnapshot example_correlation, FinishSnapshotApply]"

theorem recovery_release_is_earned_witness:
  "base_complete example_correlation \<and>
   (\<exists>lock \<in> {Lock ''c'', LockProvisional ''c''}.
      subseq [lock, ObserveLoadRequest (example_correlation\<lparr>co_restore := 0\<rparr>), FinishNativeLoad True,
        ObserveSnapshot example_correlation, FinishSnapshotApply] example_recovery)"
  using recovery_release_is_earned [of example_recovery example_correlation]
  by (simp add: recovery_defs new_recovery_def example_correlation_def no_correlation_def example_recovery_def)

end
