(* ===== verification/WireIdentity.thy ===== *)
theory WireIdentity
  imports Prelude "HOL-Library.Char_ord"
begin

text \<open>
  \<open>encoding/Structs/Campaign.{h,cpp}\<close> (and \<open>IsValidCacheId\<close> of
  \<open>campaign_client/CampaignIdentityStore.cpp\<close>): which identities, join codes and display names the
  campaign messages carry, and how the last two are normalized. A string is a list of bytes
  (\<open>char\<close>); an output string that the code clears on failure is an \<open>option\<close>.
\<close>

section \<open>Identities\<close>

definition kCampaignWireMaximumIdLength :: nat where "kCampaignWireMaximumIdLength = 128"
definition kCampaignNativeSaveIdentityPrefix :: string where
  "kCampaignNativeSaveIdentityPrefix = ''stre-''"

definition between :: "char \<Rightarrow> char \<Rightarrow> char \<Rightarrow> bool" where
  "between lo hi c \<longleftrightarrow> lo \<le> c \<and> c \<le> hi"

definition id_char :: "char \<Rightarrow> bool" where
  "id_char c \<longleftrightarrow> between CHR ''a'' CHR ''z'' c \<or> between CHR ''A'' CHR ''Z'' c \<or>
     between CHR ''0'' CHR ''9'' c \<or> c = CHR ''-'' \<or> c = CHR ''_''"

definition is_valid_wire_id :: "string \<Rightarrow> bool \<Rightarrow> bool" where
  "is_valid_wire_id s allow_empty \<longleftrightarrow>
     (if s = [] then allow_empty
      else if length s > kCampaignWireMaximumIdLength then False
      else list_all id_char s)"

definition is_valid_cache_id :: "string \<Rightarrow> bool" where
  "is_valid_cache_id s \<longleftrightarrow> (if s = [] \<or> length s > 128 then False else list_all id_char s)"

definition build_native_save_identity :: "string \<Rightarrow> string option" where
  "build_native_save_identity checkpoint =
     (if \<not> is_valid_wire_id checkpoint False then None
      else Some (kCampaignNativeSaveIdentityPrefix @ checkpoint))"

definition is_valid_native_save_identity :: "string \<Rightarrow> bool" where
  "is_valid_native_save_identity s \<longleftrightarrow>
     (if length s \<le> length kCampaignNativeSaveIdentityPrefix \<or>
         take (length kCampaignNativeSaveIdentityPrefix) s \<noteq> kCampaignNativeSaveIdentityPrefix
      then False
      else is_valid_wire_id (drop (length kCampaignNativeSaveIdentityPrefix) s) False)"

lemma cache_id_is_wire_id: "is_valid_cache_id s \<longleftrightarrow> is_valid_wire_id s False"
  by (simp add: is_valid_cache_id_def is_valid_wire_id_def kCampaignWireMaximumIdLength_def)

section \<open>Join codes\<close>

definition kCampaignJoinCodeLength :: nat where "kCampaignJoinCodeLength = 4"
definition kCampaignJoinCodeAlphabet :: string where
  "kCampaignJoinCodeAlphabet = ''ABCDEFGHJKLMNPQRSTUVWXYZ23456789''"

definition upper_case :: "char \<Rightarrow> char" where
  "upper_case c = (if between CHR ''a'' CHR ''z'' c then char_of (of_char c - 32 :: nat) else c)"

fun join_code_chars :: "string \<Rightarrow> string option" where
  "join_code_chars [] = Some []"
| "join_code_chars (c # cs) =
     (let v = upper_case c in
      if v \<notin> set kCampaignJoinCodeAlphabet then None else map_option (Cons v) (join_code_chars cs))"

definition normalize_join_code :: "string \<Rightarrow> string option" where
  "normalize_join_code s = (if length s \<noteq> kCampaignJoinCodeLength then None else join_code_chars s)"

text \<open>The check goes through \<open>c_str()\<close>, so a zero byte ends the string.\<close>

definition is_valid_join_code :: "string \<Rightarrow> bool" where
  "is_valid_join_code s \<longleftrightarrow> normalize_join_code (takeWhile (\<lambda>c. c \<noteq> CHR 0x00) s) \<noteq> None"

lemma alphabet_upper: "c \<in> set kCampaignJoinCodeAlphabet \<Longrightarrow> upper_case c = c"
  unfolding kCampaignJoinCodeAlphabet_def
  by (auto simp: upper_case_def between_def less_eq_char_def)

lemma join_code_chars_length: "join_code_chars s = Some t \<Longrightarrow> length t = length s"
  by (induction s arbitrary: t) (auto split: if_splits)

lemma join_code_chars_alphabet:
  "join_code_chars s = Some t \<Longrightarrow> set t \<subseteq> set kCampaignJoinCodeAlphabet"
  by (induction s arbitrary: t) (auto split: if_splits)

lemma join_code_chars_fixed: "set s \<subseteq> set kCampaignJoinCodeAlphabet \<Longrightarrow> join_code_chars s = Some s"
  by (induction s) (auto simp: alphabet_upper)

lemma alphabet_no_zero: "set s \<subseteq> set kCampaignJoinCodeAlphabet \<Longrightarrow> takeWhile (\<lambda>c. c \<noteq> CHR 0x00) s = s"
  by (auto simp: kCampaignJoinCodeAlphabet_def)

section \<open>UTF-8\<close>

definition byte :: "char \<Rightarrow> u32" where "byte c = of_char c"

definition is_continuation_byte :: "char \<Rightarrow> bool" where
  "is_continuation_byte c \<longleftrightarrow> byte c AND 0xC0 = 0x80"

text \<open>The length and the value bits that the first byte announces.\<close>

definition utf8_head :: "char \<Rightarrow> (nat \<times> u32) option" where
  "utf8_head c =
     (let first = byte c in
      if 0xC2 \<le> first \<and> first \<le> 0xDF then Some (2, first AND 0x1F)
      else if 0xE0 \<le> first \<and> first \<le> 0xEF then Some (3, first AND 0x0F)
      else if 0xF0 \<le> first \<and> first \<le> 0xF4 then Some (4, first AND 0x07)
      else None)"

text \<open>The loop over the continuation bytes.\<close>

fun utf8_tail :: "string \<Rightarrow> u32 \<Rightarrow> u32 option" where
  "utf8_tail [] v = Some v"
| "utf8_tail (c # cs) v =
     (if \<not> is_continuation_byte c then None
      else utf8_tail cs (push_bit 6 v OR (byte c AND 0x3F)))"

text \<open>No overlong form, nothing past the last code point, no surrogate.\<close>

definition utf8_malformed :: "nat \<Rightarrow> u32 \<Rightarrow> bool" where
  "utf8_malformed n value \<longleftrightarrow> n = 3 \<and> value < 0x800 \<or> n = 4 \<and> value < 0x10000 \<or> value > 0x10FFFF \<or>
     0xD800 \<le> value \<and> value \<le> 0xDFFF"

definition decode_utf8_code_point :: "string \<Rightarrow> nat \<Rightarrow> (nat \<times> u32) option" where
  "decode_utf8_code_point s offset =
     (if byte (s ! offset) \<le> 0x7F then Some (offset + 1, byte (s ! offset))
      else case utf8_head (s ! offset) of
        None \<Rightarrow> None
      | Some (n, v) \<Rightarrow>
          if offset + n > length s then None
          else case utf8_tail (take (n - 1) (drop (offset + 1) s)) v of
            None \<Rightarrow> None
          | Some value \<Rightarrow> if utf8_malformed n value then None else Some (offset + n, value))"

definition is_unicode_whitespace :: "u32 \<Rightarrow> bool" where
  "is_unicode_whitespace p \<longleftrightarrow> p = 0x20 \<or> p = 0xA0 \<or> p = 0x1680 \<or> 0x2000 \<le> p \<and> p \<le> 0x200A \<or>
     p = 0x2028 \<or> p = 0x2029 \<or> p = 0x202F \<or> p = 0x205F \<or> p = 0x3000 \<or> p = 0xFEFF"

definition is_control_code_point :: "u32 \<Rightarrow> bool" where
  "is_control_code_point p \<longleftrightarrow> p \<le> 0x1F \<or> 0x7F \<le> p \<and> p \<le> 0x9F"

section \<open>Display names\<close>

definition kMaximumDisplayNameLength :: nat where "kMaximumDisplayNameLength = 24"
definition kMaximumDisplayNameBytes :: nat where "kMaximumDisplayNameBytes = 96"

record CodePoint =
  cp_begin :: nat
  cp_end :: nat
  cp_value :: u32

lemma utf8_head_length: "utf8_head c = Some (n, v) \<Longrightarrow> 1 < n \<and> n \<le> 4"
  by (auto simp: utf8_head_def split: if_splits)

lemma decode_advances:
  "decode_utf8_code_point s offset = Some (e, v) \<Longrightarrow> offset < length s \<Longrightarrow> offset < e \<and> e \<le> length s"
  by (auto simp: decode_utf8_code_point_def dest: utf8_head_length split: if_splits option.splits)

function display_name_points :: "string \<Rightarrow> nat \<Rightarrow> CodePoint list option" where
  "display_name_points s offset =
     (if offset < length s then
        case decode_utf8_code_point s offset of
          None \<Rightarrow> None
        | Some (e, v) \<Rightarrow>
            if is_control_code_point v then None
            else map_option (Cons \<lparr>cp_begin = offset, cp_end = e, cp_value = v\<rparr>) (display_name_points s e)
      else Some [])"
  by auto
termination
  by (relation "measure (\<lambda>(s, offset). length s - offset)") (auto dest: decode_advances)

declare display_name_points.simps [simp del]

definition white_point :: "CodePoint \<Rightarrow> bool" where
  "white_point p \<longleftrightarrow> is_unicode_whitespace (cp_value p)"

definition trim_points :: "CodePoint list \<Rightarrow> CodePoint list" where
  "trim_points ps = rev (dropWhile white_point (rev (dropWhile white_point ps)))"

definition normalize_display_name :: "string \<Rightarrow> string option" where
  "normalize_display_name s =
     (if s = [] \<or> length s > kMaximumDisplayNameBytes then None
      else case display_name_points s 0 of
        None \<Rightarrow> None
      | Some ps \<Rightarrow>
          let middle = trim_points ps in
          if middle = [] \<or> length middle > kMaximumDisplayNameLength then None
          else Some (take (cp_end (last middle) - cp_begin (hd middle)) (drop (cp_begin (hd middle)) s)))"

definition is_valid_display_name :: "string \<Rightarrow> bool" where
  "is_valid_display_name s \<longleftrightarrow> normalize_display_name s \<noteq> None"

section \<open>The points of a name\<close>

definition shift_point :: "nat \<Rightarrow> CodePoint \<Rightarrow> CodePoint" where
  "shift_point k p = p\<lparr>cp_begin := cp_begin p - k, cp_end := cp_end p - k\<rparr>"

lemma white_shift [simp]: "white_point (shift_point k p) = white_point p"
  by (simp add: white_point_def shift_point_def)

lemma decode_drop:
  assumes "k \<le> offset" and "offset < length s"
  shows "decode_utf8_code_point (drop k s) (offset - k) =
    map_option (\<lambda>(e, v). (e - k, v)) (decode_utf8_code_point s offset)"
proof -
  have same: "drop k s ! (offset - k) = s ! offset" "drop (offset - k + 1) (drop k s) = drop (offset + 1) s"
    "offset - k + n > length (drop k s) \<longleftrightarrow> offset + n > length s" "offset - k + n = offset + n - k" for n
    using assms by auto
  show ?thesis
  proof (cases "utf8_head (s ! offset)")
    case None
    then show ?thesis unfolding decode_utf8_code_point_def same(1) using same(4) [of 1] by simp
  next
    case (Some h)
    obtain n v where h: "h = (n, v)" by (cases h)
    show ?thesis
      unfolding decode_utf8_code_point_def same(1,2) Some h option.case prod.case same(3)
      using same(4) [of 1] same(4) [of n]
      by (simp del: length_drop split: option.split)
  qed
qed

lemma decode_take:
  assumes "decode_utf8_code_point s offset = Some (e, v)" and "offset < length s" and "e \<le> m"
  shows "decode_utf8_code_point (take m s) offset = Some (e, v)"
proof -
  from decode_advances [OF assms(1,2)] have "offset < e" "e \<le> length s" by simp_all
  with assms show ?thesis
    by (auto simp: decode_utf8_code_point_def drop_take min_def split: if_splits option.splits)
qed

lemma points_cons:
  assumes "display_name_points s offset = Some (p # ps)"
  shows "cp_begin p = offset \<and> offset < length s \<and> offset < cp_end p \<and> cp_end p \<le> length s \<and>
    decode_utf8_code_point s offset = Some (cp_end p, cp_value p) \<and>
    \<not> is_control_code_point (cp_value p) \<and> display_name_points s (cp_end p) = Some ps"
  using assms decode_advances
  by (subst (asm) display_name_points.simps) (auto split: if_splits option.splits)

lemma points_step:
  "offset < length s \<Longrightarrow> decode_utf8_code_point s offset = Some (cp_end p, cp_value p) \<Longrightarrow>
     cp_begin p = offset \<Longrightarrow> \<not> is_control_code_point (cp_value p) \<Longrightarrow>
     display_name_points s offset = map_option (Cons p) (display_name_points s (cp_end p))"
  by (subst display_name_points.simps) (cases p, simp)

lemma points_end: "length s \<le> offset \<Longrightarrow> display_name_points s offset = Some []"
  by (subst display_name_points.simps) simp

lemma points_range:
  "display_name_points s offset = Some ps \<Longrightarrow> p \<in> set ps \<Longrightarrow>
     offset \<le> cp_begin p \<and> cp_begin p < cp_end p \<and> cp_end p \<le> length s \<and> \<not> is_control_code_point (cp_value p)"
proof (induction ps arbitrary: offset)
  case (Cons q ps)
  from points_cons [OF Cons.prems(1)] Cons.IH [of "cp_end q"] Cons.prems(2) show ?case by force
qed simp

lemma points_count: "display_name_points s offset = Some ps \<Longrightarrow> offset \<le> length s \<Longrightarrow> length ps + offset \<le> length s"
proof (induction ps arbitrary: offset)
  case (Cons q ps)
  from points_cons [OF Cons.prems(1)] Cons.IH [of "cp_end q"] show ?case by force
qed simp

lemma points_suffix:
  "display_name_points s offset = Some (us @ p # ps) \<Longrightarrow> display_name_points s (cp_begin p) = Some (p # ps)"
proof (induction us arbitrary: offset)
  case Nil
  with points_cons [of s offset p ps] show ?case by simp
next
  case (Cons u us)
  then have "display_name_points s (cp_end u) = Some (us @ p # ps)"
    using points_cons [of s offset u "us @ p # ps"] by simp
  then show ?case by (rule Cons.IH)
qed

lemma points_take:
  "display_name_points s offset = Some (ps @ qs) \<Longrightarrow> offset \<le> length s \<Longrightarrow>
     display_name_points (take (if ps = [] then offset else cp_end (last ps)) s) offset = Some ps"
proof (induction ps arbitrary: offset)
  case Nil
  then show ?case by (simp add: points_end)
next
  case (Cons p ps)
  let ?m = "cp_end (last (p # ps))"
  from Cons.prems have p: "cp_begin p = offset" "offset < length s" "offset < cp_end p" "cp_end p \<le> length s"
    "decode_utf8_code_point s offset = Some (cp_end p, cp_value p)"
    "\<not> is_control_code_point (cp_value p)" "display_name_points s (cp_end p) = Some (ps @ qs)"
    using points_cons [of s offset p "ps @ qs"] by auto
  have m: "?m = (if ps = [] then cp_end p else cp_end (last ps))" by simp
  have le: "cp_end p \<le> ?m"
    using points_range [OF p(7), of "last ps"] by (auto simp: less_imp_le)
  have "display_name_points (take ?m s) (cp_end p) = Some ps"
    unfolding m by (rule Cons.IH [OF p(7,4)])
  with le p decode_take [OF p(5,2) le] points_step [of offset "take ?m s" p] show ?case by simp
qed

lemma points_drop:
  "display_name_points s offset = Some ps \<Longrightarrow> k \<le> offset \<Longrightarrow>
     display_name_points (drop k s) (offset - k) = Some (map (shift_point k) ps)"
proof (induction ps arbitrary: offset)
  case Nil
  then have "length s \<le> offset"
    by (subst (asm) display_name_points.simps) (auto split: if_splits option.splits)
  then show ?case by (simp add: points_end)
next
  case (Cons p ps)
  from points_cons [OF Cons.prems(1)] have p: "cp_begin p = offset" "offset < length s" "offset < cp_end p"
    "decode_utf8_code_point s offset = Some (cp_end p, cp_value p)"
    "\<not> is_control_code_point (cp_value p)" "display_name_points s (cp_end p) = Some ps" by auto
  with Cons.prems(2) have "display_name_points (drop k s) (cp_end p - k) = Some (map (shift_point k) ps)"
    by (intro Cons.IH) simp_all
  with p Cons.prems(2) show ?case
    using points_step [of "offset - k" "drop k s" "shift_point k p"] decode_drop [of k offset s]
    by (simp add: shift_point_def)
qed

lemma trim_split:
  obtains us ws where "ps = us @ trim_points ps @ ws"
    and "trim_points ps \<noteq> [] \<Longrightarrow> \<not> white_point (hd (trim_points ps)) \<and> \<not> white_point (last (trim_points ps))"
proof -
  let ?d = "dropWhile white_point ps"
  have a: "ps = takeWhile white_point ps @ ?d" by simp
  have b: "?d = trim_points ps @ rev (takeWhile white_point (rev ?d))"
    unfolding trim_points_def by (metis rev_append rev_rev_ident takeWhile_dropWhile_id)
  have "\<not> white_point (last (trim_points ps))" if "trim_points ps \<noteq> []"
    using that hd_dropWhile [of white_point "rev ?d"] by (simp add: trim_points_def last_rev)
  moreover have "\<not> white_point (hd (trim_points ps))" if "trim_points ps \<noteq> []"
    using that b hd_dropWhile [of white_point ps]
    by (metis append_is_Nil_conv hd_append2)
  ultimately show thesis using a b
    by (intro that [of "takeWhile white_point ps" "rev (takeWhile white_point (rev ?d))"]) (metis, blast)
qed

lemma trim_fixed:
  "ps \<noteq> [] \<Longrightarrow> \<not> white_point (hd ps) \<Longrightarrow> \<not> white_point (last ps) \<Longrightarrow> trim_points ps = ps"
proof -
  assume ps: "ps \<noteq> []" "\<not> white_point (hd ps)" "\<not> white_point (last ps)"
  then have "dropWhile white_point ps = ps" by (cases ps) simp_all
  moreover from ps have "dropWhile white_point (rev ps) = rev ps" by (cases ps rule: rev_cases) simp_all
  ultimately show ?thesis by (simp add: trim_points_def)
qed

section \<open>Wire structures\<close>

definition kCampaignWireMaximumRosterSize :: nat where "kCampaignWireMaximumRosterSize = 10"
definition kCampaignWirePhaseCharacterCreation :: u8 where "kCampaignWirePhaseCharacterCreation = 1"
definition kCampaignWireRuntimeActive :: u8 where "kCampaignWireRuntimeActive = 1"
definition kCampaignWireRuntimeCheckpointing :: u8 where "kCampaignWireRuntimeCheckpointing = 2"
definition kCampaignWireRuntimeRecoveryLock :: u8 where "kCampaignWireRuntimeRecoveryLock = 3"
definition kCampaignWireRuntimeRestoringCheckpoint :: u8 where
  "kCampaignWireRuntimeRestoringCheckpoint = 4"

record PublicSlot =
  ps_slot :: string
  ps_player :: string
  ps_ready :: bool
  ps_present :: bool

record WireSnapshot =
  ws_campaign :: string
  ws_version :: u64
  ws_phase :: u8
  ws_runtime :: u8
  ws_sealed :: bool
  ws_manager :: string
  ws_roster :: "PublicSlot list"
  ws_valid :: bool

definition public_slot_valid :: "PublicSlot \<Rightarrow> bool" where
  "public_slot_valid p \<longleftrightarrow> is_valid_wire_id (ps_slot p) False \<and> is_valid_wire_id (ps_player p) False"

definition wire_snapshot_valid :: "WireSnapshot \<Rightarrow> bool" where
  "wire_snapshot_valid w \<longleftrightarrow>
     (if \<not> ws_valid w \<or> \<not> is_valid_wire_id (ws_campaign w) False \<or>
         \<not> is_valid_wire_id (ws_manager w) (\<not> ws_sealed w) \<or>
         length (ws_roster w) > kCampaignWireMaximumRosterSize \<or> ws_phase w > 8 \<or> ws_runtime w > 4
      then False
      else list_all public_slot_valid (ws_roster w))"

lemma normalize_name_parts:
  assumes "normalize_display_name s = Some t"
  obtains ps b m where "ps \<noteq> []" "length ps \<le> kMaximumDisplayNameLength"
    "display_name_points t 0 = Some ps" "trim_points ps = ps" "length s \<le> kMaximumDisplayNameBytes"
    "\<not> white_point (hd ps)" "\<not> white_point (last ps)" "t = drop b (take m s)" "b < m" "m \<le> length s"
    "cp_begin (hd ps) = 0" "cp_end (last ps) = length t"
proof -
  from assms obtain qs where qs: "display_name_points s 0 = Some qs" "length s \<le> kMaximumDisplayNameBytes"
    "trim_points qs \<noteq> []" "length (trim_points qs) \<le> kMaximumDisplayNameLength"
    "t = take (cp_end (last (trim_points qs)) - cp_begin (hd (trim_points qs))) (drop (cp_begin (hd (trim_points qs))) s)"
    by (auto simp: normalize_display_name_def split: if_splits option.splits)
  let ?ms = "trim_points qs" let ?b = "cp_begin (hd ?ms)" let ?m = "cp_end (last ?ms)"
  obtain us ws where split: "qs = us @ ?ms @ ws"
    and ends: "\<not> white_point (hd ?ms)" "\<not> white_point (last ?ms)"
    using trim_split [of qs] qs(3) by metis
  from split qs(3) have "qs = us @ hd ?ms # (tl ?ms @ ws)" by (metis append_Cons list.collapse)
  with qs(1) points_suffix [of s 0 us "hd ?ms" "tl ?ms @ ws"] qs(3)
  have suffix: "display_name_points s ?b = Some (?ms @ ws)" by simp
  have in_qs: "hd ?ms \<in> set qs" "last ?ms \<in> set qs" using split qs(3) by (metis UnCI hd_in_set last_in_set set_append)+
  have range: "?b < length s" "?m \<le> length s"
    using points_range [OF qs(1)] in_qs by force+
  have bm: "?b < ?m" using points_range [OF suffix, of "last ?ms"] qs(3) by auto
  have "display_name_points (take ?m s) ?b = Some ?ms"
    using points_take [OF suffix] qs(3) range by simp
  from points_drop [OF this, of ?b] have pts: "display_name_points (drop ?b (take ?m s)) 0 = Some (map (shift_point ?b) ?ms)"
    by simp
  have t: "t = drop ?b (take ?m s)" by (simp add: qs(5) drop_take)
  show thesis
  proof (rule that [of "map (shift_point ?b) ?ms" ?b ?m])
    show "trim_points (map (shift_point ?b) ?ms) = map (shift_point ?b) ?ms"
      using qs(3) ends by (intro trim_fixed) (simp_all add: hd_map last_map)
    show "cp_begin (hd (map (shift_point ?b) ?ms)) = 0"
      using qs(3) by (simp add: hd_map shift_point_def)
    show "cp_end (last (map (shift_point ?b) ?ms)) = length t"
      using qs(3) range by (simp add: last_map shift_point_def t)
  qed (use qs ends pts range bm t in \<open>simp_all add: hd_map last_map\<close>)
qed

lemma display_name_facts:
  assumes "normalize_display_name s = Some t"
  shows "normalize_display_name t = Some t"
    and "\<exists>us ws. s = us @ t @ ws"
    and "\<exists>ps. display_name_points t 0 = Some ps \<and> ps \<noteq> [] \<and> length ps \<le> kMaximumDisplayNameLength \<and>
       \<not> white_point (hd ps) \<and> \<not> white_point (last ps)"
    and "length t \<le> kMaximumDisplayNameBytes"
proof -
  obtain ps b m where n: "ps \<noteq> []" "length ps \<le> kMaximumDisplayNameLength"
    "display_name_points t 0 = Some ps" "trim_points ps = ps" "length s \<le> kMaximumDisplayNameBytes"
    "\<not> white_point (hd ps)" "\<not> white_point (last ps)" "t = drop b (take m s)" "b < m" "m \<le> length s"
    "cp_begin (hd ps) = 0" "cp_end (last ps) = length t"
    by (rule normalize_name_parts [OF assms])
  have len: "length t \<le> kMaximumDisplayNameBytes" "t \<noteq> []" using n(5,8,9,10) by auto
  with n show "normalize_display_name t = Some t" by (simp add: normalize_display_name_def)
  have "s = take b (take m s) @ t @ drop m s" by (metis n(8) append.assoc append_take_drop_id)
  then show "\<exists>us ws. s = us @ t @ ws" by blast
  show "length t \<le> kMaximumDisplayNameBytes" by (rule len(1))
  show "\<exists>ps. display_name_points t 0 = Some ps \<and> ps \<noteq> [] \<and> length ps \<le> kMaximumDisplayNameLength \<and>
       \<not> white_point (hd ps) \<and> \<not> white_point (last ps)" using n by blast
qed

text \<open>The fixed array of the code points is large enough.\<close>

lemma points_fit_array:
  "length s \<le> kMaximumDisplayNameBytes \<Longrightarrow> display_name_points s 0 = Some ps \<Longrightarrow>
     length ps \<le> kMaximumDisplayNameBytes"
  using points_count [of s 0 ps] by simp

text \<open>A join code with a zero byte in it is checked only up to there.\<close>

lemma hidden_tail_of_join_code:
  "is_valid_join_code (''A7K2'' @ CHR 0x00 # tail) \<and> normalize_join_code (''A7K2'' @ CHR 0x00 # tail) = None"
  by (simp add: is_valid_join_code_def normalize_join_code_def kCampaignJoinCodeLength_def
      kCampaignJoinCodeAlphabet_def upper_case_def between_def less_eq_char_def)

section \<open>Properties\<close>

text \<open>
  Normalizing a lobby display name gives a canonical name: a part of the input of at most 96
  bytes and at most 24 code points, none of them a control character, that neither begins nor ends
  with white space, and normalizing it again changes nothing.
\<close>

theorem display_name_canonical:
  assumes "normalize_display_name s = Some t"
  shows "normalize_display_name t = Some t \<and> (\<exists>us ws. s = us @ t @ ws) \<and> length t \<le> 96 \<and>
    (\<exists>ps. display_name_points t 0 = Some ps \<and> ps \<noteq> [] \<and> length ps \<le> 24 \<and>
       (\<forall>p \<in> set ps. \<not> is_control_code_point (cp_value p)) \<and>
       \<not> is_unicode_whitespace (cp_value (hd ps)) \<and> \<not> is_unicode_whitespace (cp_value (last ps)))"
proof -
  obtain ps where ps: "display_name_points t 0 = Some ps" "ps \<noteq> []" "length ps \<le> 24"
    "\<not> white_point (hd ps)" "\<not> white_point (last ps)"
    using display_name_facts(3) [OF assms] by (auto simp: kMaximumDisplayNameLength_def)
  then have "\<forall>p \<in> set ps. \<not> is_control_code_point (cp_value p)" using points_range by blast
  with ps display_name_facts(1,2,4) [OF assms] show ?thesis
    by (auto simp: white_point_def kMaximumDisplayNameBytes_def)
qed

theorem display_name_canonical_witness:
  "normalize_display_name ''Lydia'' = Some ''Lydia''"
proof -
  have "normalize_display_name ''  Lydia '' = Some ''Lydia''" by code_simp
  from display_name_canonical [OF this] show ?thesis by blast
qed

text \<open>
  A normalized join code is canonical: four letters of the alphabet, which is valid and normalizes
  to itself.
\<close>

theorem join_code_canonical:
  assumes "normalize_join_code s = Some t"
  shows "length t = 4 \<and> set t \<subseteq> set kCampaignJoinCodeAlphabet \<and> is_valid_join_code t \<and>
    normalize_join_code t = Some t"
proof -
  from assms have len: "length s = 4" and chars: "join_code_chars s = Some t"
    by (simp_all add: normalize_join_code_def kCampaignJoinCodeLength_def split: if_splits)
  from join_code_chars_length [OF chars] join_code_chars_alphabet [OF chars] len
  have t: "length t = 4" "set t \<subseteq> set kCampaignJoinCodeAlphabet" by simp_all
  then have "normalize_join_code t = Some t"
    by (simp add: normalize_join_code_def kCampaignJoinCodeLength_def join_code_chars_fixed)
  with t show ?thesis by (simp add: is_valid_join_code_def alphabet_no_zero)
qed

theorem join_code_canonical_witness:
  "is_valid_join_code ''A7K2'' \<and> normalize_join_code ''A7K2'' = Some ''A7K2''"
proof -
  have "normalize_join_code ''a7k2'' = Some ''A7K2''" by code_simp
  from join_code_canonical [OF this] show ?thesis by blast
qed

end
