(* ===== verification/NativeLoad.thy ===== *)
theory NativeLoad
  imports WireIdentity Histories
begin

text \<open>
  \<open>campaign_client/CampaignNativeLoadState.{h,cpp}\<close>: the request to load a campaign save in the
  game, which completes only when every proof of a safe load has been observed.
\<close>

datatype NativeLoadStage =
    Nl_Idle | ValidatingArtifact | ReadyToInvoke | Invoking | AwaitingPostLoad | AwaitingSafetyProof
  | Nl_Completed | Nl_Failed

datatype NativeLoadFailure =
    Nlf_None | InvalidNativeIdentity | CampaignAdmissionUnavailable | ArtifactUnavailable | ArtifactInvalid
  | NativeSaveBusy | ArtifactValidationRejected | ArtifactValidationFailed | GateArmFailed
  | NativeBoundaryUnavailable | UnexpectedNativeLoad | NativeLoadRejected | PostLoadMissing | GateNotLocked
  | GuardMenuUnavailable | GameNotPaused | TransportUnavailable | Timeout | InternalFailure

fun failure_to_string :: "NativeLoadFailure \<Rightarrow> string" where
  "failure_to_string Nlf_None = ''none''"
| "failure_to_string InvalidNativeIdentity = ''invalid-identity''"
| "failure_to_string CampaignAdmissionUnavailable = ''campaign-admission-unavailable''"
| "failure_to_string ArtifactUnavailable = ''artifact-unavailable''"
| "failure_to_string ArtifactInvalid = ''artifact-invalid''"
| "failure_to_string NativeSaveBusy = ''native-save-busy''"
| "failure_to_string ArtifactValidationRejected = ''artifact-validation-rejected''"
| "failure_to_string ArtifactValidationFailed = ''artifact-validation-failed''"
| "failure_to_string GateArmFailed = ''gate-arm-failed''"
| "failure_to_string NativeBoundaryUnavailable = ''native-boundary-unavailable''"
| "failure_to_string UnexpectedNativeLoad = ''unexpected-native-load''"
| "failure_to_string NativeLoadRejected = ''native-load-rejected''"
| "failure_to_string PostLoadMissing = ''post-load-missing''"
| "failure_to_string GateNotLocked = ''gate-not-locked''"
| "failure_to_string GuardMenuUnavailable = ''guard-menu-unavailable''"
| "failure_to_string GameNotPaused = ''game-not-paused''"
| "failure_to_string TransportUnavailable = ''transport-unavailable''"
| "failure_to_string Timeout = ''timeout''"
| "failure_to_string InternalFailure = ''internal-failure''"

record NativeLoad =
  nl_stage :: NativeLoadStage
  nl_identity :: string
  nl_failure :: NativeLoadFailure
  nl_validated :: bool
  nl_entered :: bool
  nl_returned :: bool
  nl_accepted :: bool
  nl_post_load :: bool
  nl_gate_locked :: bool
  nl_guard_menu :: bool
  nl_paused :: bool
  nl_transport :: bool

definition new_native_load :: NativeLoad where
  "new_native_load =
     \<lparr>nl_stage = Nl_Idle, nl_identity = [], nl_failure = Nlf_None, nl_validated = False,
      nl_entered = False, nl_returned = False, nl_accepted = False, nl_post_load = False,
      nl_gate_locked = False, nl_guard_menu = False, nl_paused = False, nl_transport = False\<rparr>"

section \<open>Operations\<close>

definition nl_is_active :: "NativeLoad \<Rightarrow> bool" where
  "nl_is_active n \<longleftrightarrow> nl_stage n \<noteq> Nl_Idle \<and> nl_stage n \<noteq> Nl_Completed \<and> nl_stage n \<noteq> Nl_Failed"

definition complete_if_proven :: "NativeLoad \<Rightarrow> NativeLoad" where
  "complete_if_proven n =
     (if nl_returned n \<and> nl_accepted n \<and> nl_post_load n \<and> nl_gate_locked n \<and> nl_guard_menu n \<and>
         nl_paused n \<and> nl_transport n
      then n\<lparr>nl_stage := Nl_Completed\<rparr> else n)"

definition nl_fail :: "NativeLoadFailure \<Rightarrow> NativeLoad \<Rightarrow> NativeLoad \<times> bool" where
  "nl_fail f n =
     (if f = Nlf_None \<or> nl_stage n = Nl_Idle \<or> nl_stage n = Nl_Completed \<or> nl_stage n = Nl_Failed
      then (n, False)
      else (n\<lparr>nl_failure := f, nl_stage := Nl_Failed\<rparr>, True))"

definition nl_request :: "string \<Rightarrow> NativeLoad \<Rightarrow> NativeLoad \<times> bool" where
  "nl_request identity n =
     (if nl_stage n \<noteq> Nl_Idle \<or> \<not> is_valid_native_save_identity identity then (n, False)
      else (new_native_load\<lparr>nl_stage := ValidatingArtifact, nl_identity := identity\<rparr>, True))"

definition mark_artifact_validated :: "NativeLoad \<Rightarrow> NativeLoad \<times> bool" where
  "mark_artifact_validated n =
     (if nl_stage n \<noteq> ValidatingArtifact then (n, False)
      else (n\<lparr>nl_validated := True, nl_stage := ReadyToInvoke\<rparr>, True))"

definition begin_invocation :: "NativeLoad \<Rightarrow> NativeLoad \<times> bool" where
  "begin_invocation n =
     (if nl_stage n \<noteq> ReadyToInvoke \<or> \<not> nl_validated n then (n, False)
      else (n\<lparr>nl_stage := Invoking\<rparr>, True))"

definition nl_on_enter :: "string \<Rightarrow> NativeLoad \<Rightarrow> NativeLoad \<times> bool" where
  "nl_on_enter actual n =
     (if nl_stage n \<noteq> Invoking \<or> nl_entered n then (n, False)
      else if actual \<noteq> nl_identity n then (fst (nl_fail UnexpectedNativeLoad n), False)
      else (n\<lparr>nl_entered := True\<rparr>, True))"

definition nl_on_return :: "bool \<Rightarrow> bool \<Rightarrow> NativeLoad \<Rightarrow> NativeLoad" where
  "nl_on_return managed succeeded n =
     (if \<not> managed \<or> nl_stage n = Nl_Failed \<or> nl_stage n = Nl_Completed then n
      else if \<not> nl_entered n then fst (nl_fail UnexpectedNativeLoad n)
      else
        let n = n\<lparr>nl_returned := True, nl_accepted := succeeded\<rparr> in
        if \<not> succeeded then fst (nl_fail NativeLoadRejected n)
        else complete_if_proven
          (n\<lparr>nl_stage := (if nl_post_load n then AwaitingSafetyProof else AwaitingPostLoad)\<rparr>))"

definition nl_on_post_load :: "NativeLoad \<Rightarrow> NativeLoad \<times> bool" where
  "nl_on_post_load n =
     (if \<not> nl_is_active n \<or> \<not> nl_entered n \<or> nl_post_load n then (n, False)
      else (complete_if_proven (n\<lparr>nl_post_load := True, nl_stage := AwaitingSafetyProof\<rparr>), True))"

definition observe_gate_locked :: "NativeLoad \<Rightarrow> NativeLoad" where
  "observe_gate_locked n =
     (if \<not> nl_is_active n \<or> \<not> nl_post_load n then n
      else complete_if_proven (n\<lparr>nl_gate_locked := True\<rparr>))"

definition observe_post_load_guard_state :: "bool \<Rightarrow> bool \<Rightarrow> NativeLoad \<Rightarrow> NativeLoad \<times> NativeLoadFailure" where
  "observe_post_load_guard_state open paused n =
     (if \<not> nl_is_active n \<or> \<not> nl_gate_locked n then (n, Nlf_None)
      else if \<not> open then (n, GuardMenuUnavailable)
      else (complete_if_proven (n\<lparr>nl_guard_menu := True, nl_paused := paused\<rparr>),
            if paused then Nlf_None else GameNotPaused))"

definition nl_observe_guard_menu :: "bool \<Rightarrow> NativeLoad \<Rightarrow> NativeLoad" where
  "nl_observe_guard_menu paused n = fst (observe_post_load_guard_state True paused n)"

definition observe_transport_alive :: "NativeLoad \<Rightarrow> NativeLoad" where
  "observe_transport_alive n =
     (if \<not> nl_is_active n \<or> \<not> nl_gate_locked n then n
      else complete_if_proven (n\<lparr>nl_transport := True\<rparr>))"

definition nl_reset :: "NativeLoad \<Rightarrow> NativeLoad \<times> bool" where
  "nl_reset n =
     (if nl_stage n \<noteq> Nl_Completed \<and> nl_stage n \<noteq> Nl_Failed then (n, False) else (new_native_load, True))"

datatype NativeLoadOp =
    Nl_Request string | Nl_MarkArtifactValidated | Nl_BeginInvocation | Nl_Enter string
  | Nl_Return bool bool | Nl_PostLoad | Nl_GateLocked | Nl_GuardState bool bool
  | Nl_TransportAlive | Nl_Fail NativeLoadFailure | Nl_Reset

text \<open>
  A \<open>void\<close> operation returns \<open>True\<close>, and a guard observation whether it found no failure.
  \<open>ObserveGuardMenu\<close> is the guard observation of an open menu.
\<close>

fun native_perform :: "NativeLoad \<Rightarrow> NativeLoadOp \<Rightarrow> NativeLoad \<times> bool" where
  "native_perform n (Nl_Request i) = nl_request i n"
| "native_perform n Nl_MarkArtifactValidated = mark_artifact_validated n"
| "native_perform n Nl_BeginInvocation = begin_invocation n"
| "native_perform n (Nl_Enter i) = nl_on_enter i n"
| "native_perform n (Nl_Return managed succeeded) = (nl_on_return managed succeeded n, True)"
| "native_perform n Nl_PostLoad = nl_on_post_load n"
| "native_perform n Nl_GateLocked = (observe_gate_locked n, True)"
| "native_perform n (Nl_GuardState open paused) =
     map_prod id (\<lambda>f. f = Nlf_None) (observe_post_load_guard_state open paused n)"
| "native_perform n Nl_TransportAlive = (observe_transport_alive n, True)"
| "native_perform n (Nl_Fail f) = nl_fail f n"
| "native_perform n Nl_Reset = nl_reset n"

lemmas native_defs = nl_request_def mark_artifact_validated_def begin_invocation_def nl_on_enter_def
  nl_on_return_def nl_on_post_load_def observe_gate_locked_def observe_post_load_guard_state_def
  nl_observe_guard_menu_def observe_transport_alive_def nl_fail_def nl_reset_def

section \<open>What the proofs mean\<close>

text \<open>
  The steps up to the entry into the game's own load, and from there to the locked gate, the last
  step first. A stage or a proof flag that is set says that its steps happened; \<open>H\<close> tells which did.
\<close>

definition entered_steps :: "string \<Rightarrow> NativeLoadOp list" where
  "entered_steps i = [Nl_Enter i, Nl_BeginInvocation, Nl_MarkArtifactValidated, Nl_Request i]"

definition gate_steps :: "string \<Rightarrow> NativeLoadOp list" where
  "gate_steps i = Nl_GateLocked # Nl_PostLoad # entered_steps i"

definition native_proven :: "(NativeLoadOp list \<Rightarrow> bool) \<Rightarrow> NativeLoad \<Rightarrow> bool" where
  "native_proven H n \<longleftrightarrow>
     (let i = nl_identity n in
      (nl_stage n = Nl_Idle \<longrightarrow> n = new_native_load) \<and>
      (nl_stage n \<noteq> Nl_Idle \<longrightarrow> is_valid_native_save_identity i \<and> H [Nl_Request i]) \<and>
      (nl_validated n \<longrightarrow> H [Nl_MarkArtifactValidated, Nl_Request i]) \<and>
      (nl_stage n = Invoking \<longrightarrow> H [Nl_BeginInvocation, Nl_MarkArtifactValidated, Nl_Request i]) \<and>
      (nl_entered n \<longrightarrow> H (entered_steps i)) \<and>
      (nl_returned n \<and> nl_accepted n \<longrightarrow> H (Nl_Return True True # entered_steps i)) \<and>
      (nl_post_load n \<longrightarrow> H (Nl_PostLoad # entered_steps i)) \<and>
      (nl_gate_locked n \<longrightarrow> H (gate_steps i)) \<and>
      (nl_guard_menu n \<and> nl_paused n \<longrightarrow> H (Nl_GuardState True True # gate_steps i)) \<and>
      (nl_transport n \<longrightarrow> H (Nl_TransportAlive # gate_steps i)) \<and>
      (nl_stage n = Nl_Completed \<longrightarrow>
         nl_returned n \<and> nl_accepted n \<and> nl_post_load n \<and> nl_gate_locked n \<and> nl_guard_menu n \<and>
         nl_paused n \<and> nl_transport n))"

lemma new_native_fields [simp]:
  "nl_stage new_native_load = Nl_Idle" "\<not> nl_validated new_native_load" "\<not> nl_entered new_native_load"
  "\<not> nl_returned new_native_load" "\<not> nl_accepted new_native_load" "\<not> nl_post_load new_native_load"
  "\<not> nl_gate_locked new_native_load" "\<not> nl_guard_menu new_native_load" "\<not> nl_paused new_native_load"
  "\<not> nl_transport new_native_load"
  by (simp_all add: new_native_load_def)

lemma proven_new: "native_proven H new_native_load"
  by (simp add: native_proven_def)

lemma proven_idle: "native_proven H n \<Longrightarrow> nl_stage n = Nl_Idle \<Longrightarrow> n = new_native_load"
  by (simp add: native_proven_def)

lemma proven_fail: "native_proven H n \<Longrightarrow> native_proven H (fst (nl_fail f n))"
  by (simp add: nl_fail_def native_proven_def)

lemma proven_complete: "native_proven H n \<Longrightarrow> nl_stage n \<noteq> Nl_Idle \<Longrightarrow> native_proven H (complete_if_proven n)"
  by (simp add: complete_if_proven_def native_proven_def)

lemma proven_later: "native_proven H n \<Longrightarrow> (\<And>s. H s \<Longrightarrow> H' s) \<Longrightarrow> native_proven H' n"
  unfolding native_proven_def Let_def by (elim conjE, intro conjI impI) simp_all

lemma proven_return:
  assumes ok: "native_proven H n" and later: "\<And>s. H s \<Longrightarrow> H' s"
    and now: "\<And>s. H s \<Longrightarrow> H' (Nl_Return managed succeeded # s)"
  shows "native_proven H' (nl_on_return managed succeeded n)"
proof -
  have kept: "native_proven H' n" by (rule proven_later [OF ok]) (rule later)
  show ?thesis
  proof (cases "managed \<and> nl_stage n \<noteq> Nl_Failed \<and> nl_stage n \<noteq> Nl_Completed \<and> nl_entered n")
    case False
    then consider "nl_on_return managed succeeded n = n"
      | "nl_on_return managed succeeded n = fst (nl_fail UnexpectedNativeLoad n)"
      by (cases "\<not> managed \<or> nl_stage n = Nl_Failed \<or> nl_stage n = Nl_Completed") (simp_all add: nl_on_return_def)
    then show ?thesis using kept by cases (simp_all add: proven_fail)
  next
    case True
    then have stage: "nl_stage n \<noteq> Nl_Idle" using proven_idle [OF ok] by auto
    have rejected: "native_proven H' (n\<lparr>nl_returned := True, nl_accepted := False\<rparr>)"
      using kept True stage by (simp add: native_proven_def)
    have accepted: "native_proven H' (n\<lparr>nl_returned := True, nl_accepted := True,
         nl_stage := (if nl_post_load n then AwaitingSafetyProof else AwaitingPostLoad)\<rparr>)" if succeeded
      using kept ok now [of "entered_steps (nl_identity n)"] True stage that by (simp add: native_proven_def)
    show ?thesis
      using True stage rejected accepted by (simp add: nl_on_return_def proven_complete proven_fail)
  qed
qed

lemma proven_step:
  assumes ok: "native_proven H n" and later: "\<And>s. H s \<Longrightarrow> H' s" and none: "H []"
    and now: "\<And>s. H s \<Longrightarrow> H' (x # s)"
  shows "native_proven H' (fst (native_perform n x))"
proof -
  have kept: "native_proven H' n" by (rule proven_later [OF ok]) (rule later)
  show ?thesis
  proof (cases x)
    case (Nl_Request i)
    with kept now [OF none] show ?thesis by (simp add: nl_request_def) (simp add: native_proven_def)
  next
    case Nl_MarkArtifactValidated
    with kept ok now show ?thesis
      by (simp add: mark_artifact_validated_def) (simp add: native_proven_def later)
  next
    case Nl_BeginInvocation
    with kept ok now show ?thesis
      by (simp add: begin_invocation_def) (simp add: native_proven_def later)
  next
    case (Nl_Enter i)
    with kept ok now show ?thesis
      by (simp add: nl_on_enter_def proven_fail, clarify)
        (simp add: native_proven_def later entered_steps_def)
  next
    case (Nl_Return managed succeeded)
    with now show ?thesis by (simp add: proven_return [OF ok, where H' = H'] later)
  next
    case Nl_PostLoad
    with kept ok now show ?thesis
      by (simp add: nl_on_post_load_def nl_is_active_def proven_complete)
        (intro impI proven_complete; simp add: native_proven_def later)
  next
    case Nl_GateLocked
    with kept ok now show ?thesis
      by (simp add: observe_gate_locked_def nl_is_active_def)
        (intro impI proven_complete; simp add: native_proven_def later gate_steps_def)
  next
    case (Nl_GuardState g p)
    with kept ok now show ?thesis
      by (cases p) (simp_all add: observe_post_load_guard_state_def nl_is_active_def,
        (intro impI proven_complete; simp add: native_proven_def later)+)
  next
    case Nl_TransportAlive
    with kept ok now show ?thesis
      by (simp add: observe_transport_alive_def nl_is_active_def)
        (intro impI proven_complete; simp add: native_proven_def later)
  next
    case (Nl_Fail f)
    with kept show ?thesis by (simp add: proven_fail)
  next
    case Nl_Reset
    with kept show ?thesis by (simp add: nl_reset_def proven_new)
  qed
qed
definition native_past :: "NativeLoadOp list \<Rightarrow> NativeLoad \<Rightarrow> bool" where
  "native_past xs n \<longleftrightarrow> native_proven (\<lambda>s. happened s xs) n"

interpretation native_history: recorded_machine native_perform new_native_load native_past
proof unfold_locales
  show "native_past [] new_native_load" by (simp add: native_past_def proven_new)
  show "native_past (xs @ [x]) (fst (native_perform n x))" if "native_past xs n" for xs n x
    unfolding native_past_def
    by (rule proven_step [OF that [unfolded native_past_def]]) (simp_all add: happened_later happened_now)
qed

section \<open>Properties\<close>

text \<open>
  C36: A load completes only on proof. When a run leaves a load completed, its identity is a valid
  campaign save, it was requested, its artifact was validated, the invocation began and the game
  entered the load of exactly that save; after that the game reported success, and the game was
  loaded, then the gate was locked, and under the locked gate the guard menu was seen open with the
  game paused, and the transport was seen alive.
\<close>

theorem native_load_completes_on_proof:
  assumes "n = run_ops native_perform new_native_load xs" and "nl_stage n = Nl_Completed"
  shows "is_valid_native_save_identity (nl_identity n) \<and>
    (let entered = [Nl_Request (nl_identity n), Nl_MarkArtifactValidated, Nl_BeginInvocation, Nl_Enter (nl_identity n)];
         locked = entered @ [Nl_PostLoad, Nl_GateLocked] in
     subseq (entered @ [Nl_Return True True]) xs \<and>
     subseq (locked @ [Nl_GuardState True True]) xs \<and> subseq (locked @ [Nl_TransportAlive]) xs)"
proof -
  have "native_past xs n" unfolding assms(1) by (rule native_history.run_past)
  with assms(2) show ?thesis
    by (simp add: native_past_def native_proven_def happened_def gate_steps_def entered_steps_def)
qed

definition example_load :: "NativeLoadOp list" where
  "example_load = [Nl_Request ''stre-k'', Nl_MarkArtifactValidated, Nl_BeginInvocation, Nl_Enter ''stre-k'',
     Nl_PostLoad, Nl_Return True True, Nl_GateLocked, Nl_GuardState True False, Nl_TransportAlive,
     Nl_GuardState True True]"

theorem native_load_completes_on_proof_witness:
  "is_valid_native_save_identity ''stre-k''"
proof -
  let ?n = "run_ops native_perform new_native_load example_load"
  have n: "nl_stage ?n = Nl_Completed" "nl_identity ?n = ''stre-k''" by code_simp+
  from native_load_completes_on_proof [OF refl n(1)] show ?thesis unfolding n(2) by blast
qed

text \<open>
  A failed load stays failed. Once a load has failed, whatever is reported or observed next, it
  neither completes nor fails differently until it is reset.
\<close>

theorem failed_load_is_final:
  assumes "nl_stage n = Nl_Failed" and "Nl_Reset \<notin> set xs"
  shows "run_ops native_perform n xs = n"
  using assms(2)
proof (induction xs)
  case (Cons x xs)
  from assms(1) Cons.prems have "fst (native_perform n x) = n"
    by (cases x) (simp_all add: native_defs nl_is_active_def)
  with Cons show ?case by simp
qed simp

theorem failed_load_is_final_witness:
  "run_ops native_perform (new_native_load\<lparr>nl_stage := Nl_Failed\<rparr>) [Nl_Return True True, Nl_PostLoad] =
     new_native_load\<lparr>nl_stage := Nl_Failed\<rparr>"
  by (rule failed_load_is_final) simp_all

end
