(* ===== verification/CampaignBootstrap.thy ===== *)
theory CampaignBootstrap
  imports Histories
begin

text \<open>
  The entry into a campaign on the client: \<open>campaign_client/CampaignBootstrapState.{h,cpp}\<close> (from a
  fresh game to the authorization to start it, alone or in a lobby) and
  \<open>campaign_client/HelgenStartProjection.h\<close> (the one request to the game to begin). Both hand out a
  permission that must not be given twice (\<open>one_shot\<close>).
\<close>

section \<open>Bootstrap of a campaign\<close>

datatype BootstrapPhase =
    Bp_Inactive | Bp_Entry | CreateForm | JoinForm | ConnectingCreate | ConnectingJoin
  | CreatingCampaign | JoiningCampaign | Bp_Lobby | Starting | Authorized | Bp_Error

record Bootstrap =
  bs_phase :: BootstrapPhase
  bs_committed :: bool
  bs_emitted :: bool

definition new_bootstrap :: Bootstrap where
  "new_bootstrap = \<lparr>bs_phase = Bp_Inactive, bs_committed = False, bs_emitted = False\<rparr>"

definition begin_fresh_game :: "Bootstrap \<Rightarrow> Bootstrap" where
  "begin_fresh_game b = b\<lparr>bs_phase := Bp_Entry, bs_committed := False, bs_emitted := False\<rparr>"

definition choose_solo :: "Bootstrap \<Rightarrow> Bootstrap \<times> bool" where
  "choose_solo b =
     (if bs_phase b \<noteq> Bp_Entry then (b, False)
      else (b\<lparr>bs_phase := Authorized, bs_emitted := True\<rparr>, True))"

definition show_create_form :: "Bootstrap \<Rightarrow> Bootstrap" where
  "show_create_form b =
     (if bs_phase b = Bp_Entry \<or> bs_phase b = Bp_Error then b\<lparr>bs_phase := CreateForm\<rparr> else b)"

definition show_join_form :: "Bootstrap \<Rightarrow> Bootstrap" where
  "show_join_form b =
     (if bs_phase b = Bp_Entry \<or> bs_phase b = Bp_Error then b\<lparr>bs_phase := JoinForm\<rparr> else b)"

definition begin_create :: "bool \<Rightarrow> Bootstrap \<Rightarrow> Bootstrap" where
  "begin_create connected b =
     (if bs_phase b \<noteq> CreateForm then b
      else b\<lparr>bs_phase := (if connected then CreatingCampaign else ConnectingCreate)\<rparr>)"

definition begin_join :: "bool \<Rightarrow> Bootstrap \<Rightarrow> Bootstrap" where
  "begin_join connected b =
     (if bs_phase b \<noteq> JoinForm then b
      else b\<lparr>bs_phase := (if connected then JoiningCampaign else ConnectingJoin)\<rparr>)"

definition bs_on_connected :: "Bootstrap \<Rightarrow> Bootstrap" where
  "bs_on_connected b =
     (if bs_phase b = ConnectingCreate then b\<lparr>bs_phase := CreatingCampaign\<rparr>
      else if bs_phase b = ConnectingJoin then b\<lparr>bs_phase := JoiningCampaign\<rparr> else b)"

definition on_campaign_admitted :: "Bootstrap \<Rightarrow> Bootstrap" where
  "on_campaign_admitted b =
     (if bs_phase b = CreatingCampaign \<or> bs_phase b = JoiningCampaign
      then b\<lparr>bs_committed := True, bs_phase := Bp_Lobby\<rparr> else b)"

definition begin_start :: "Bootstrap \<Rightarrow> Bootstrap" where
  "begin_start b = (if bs_phase b = Bp_Lobby then b\<lparr>bs_phase := Starting\<rparr> else b)"

definition reject_start :: "Bootstrap \<Rightarrow> Bootstrap" where
  "reject_start b = (if bs_phase b = Starting then b\<lparr>bs_phase := Bp_Lobby\<rparr> else b)"

definition observe_canonical_state :: "bool \<Rightarrow> bool \<Rightarrow> bool \<Rightarrow> Bootstrap \<Rightarrow> Bootstrap \<times> bool" where
  "observe_canonical_state roster_sealed character_creation full_roster b =
     (if \<not> bs_committed b \<or> bs_emitted b \<or> \<not> roster_sealed \<or> \<not> character_creation \<or> \<not> full_roster
      then (b, False)
      else (b\<lparr>bs_phase := Authorized, bs_emitted := True\<rparr>, True))"

definition bs_fail :: "Bootstrap \<Rightarrow> Bootstrap" where
  "bs_fail b =
     (if bs_phase b \<noteq> Bp_Inactive \<and> bs_phase b \<noteq> Authorized then b\<lparr>bs_phase := Bp_Error\<rparr> else b)"

definition bs_on_disconnect :: "Bootstrap \<Rightarrow> Bootstrap" where
  "bs_on_disconnect b = bs_fail b"

definition restore_lobby :: "Bootstrap \<Rightarrow> Bootstrap" where
  "restore_lobby b =
     (if bs_phase b = Bp_Entry \<or> bs_phase b = JoiningCampaign \<or> bs_phase b = CreatingCampaign
      then b\<lparr>bs_committed := True, bs_phase := Bp_Lobby\<rparr> else b)"

definition bs_back :: "Bootstrap \<Rightarrow> Bootstrap" where
  "bs_back b =
     (if bs_committed b then (if bs_phase b = Bp_Error then b\<lparr>bs_phase := JoinForm\<rparr> else b)
      else if bs_phase b = CreateForm \<or> bs_phase b = JoinForm \<or> bs_phase b = Bp_Error
      then b\<lparr>bs_phase := Bp_Entry\<rparr> else b)"

definition bs_is_active :: "Bootstrap \<Rightarrow> bool" where
  "bs_is_active b \<longleftrightarrow> bs_phase b \<noteq> Bp_Inactive \<and> bs_phase b \<noteq> Authorized"

definition bs_is_busy :: "Bootstrap \<Rightarrow> bool" where
  "bs_is_busy b \<longleftrightarrow> bs_phase b = ConnectingCreate \<or> bs_phase b = ConnectingJoin \<or>
     bs_phase b = CreatingCampaign \<or> bs_phase b = JoiningCampaign \<or> bs_phase b = Starting"

datatype BootstrapOp =
    BeginFreshGame | ChooseSolo | ShowCreateForm | ShowJoinForm | BeginCreate bool | BeginJoin bool
  | BsConnected | CampaignAdmitted | BeginStart | RejectStart | ObserveCanonicalState bool bool bool
  | BsFail | BsDisconnect | Back | RestoreLobby

text \<open>An operation without a result answers \<open>False\<close>: it authorizes nothing.\<close>

fun bootstrap_perform :: "Bootstrap \<Rightarrow> BootstrapOp \<Rightarrow> Bootstrap \<times> bool" where
  "bootstrap_perform b BeginFreshGame = (begin_fresh_game b, False)"
| "bootstrap_perform b ChooseSolo = choose_solo b"
| "bootstrap_perform b ShowCreateForm = (show_create_form b, False)"
| "bootstrap_perform b ShowJoinForm = (show_join_form b, False)"
| "bootstrap_perform b (BeginCreate c) = (begin_create c b, False)"
| "bootstrap_perform b (BeginJoin c) = (begin_join c b, False)"
| "bootstrap_perform b BsConnected = (bs_on_connected b, False)"
| "bootstrap_perform b CampaignAdmitted = (on_campaign_admitted b, False)"
| "bootstrap_perform b BeginStart = (begin_start b, False)"
| "bootstrap_perform b RejectStart = (reject_start b, False)"
| "bootstrap_perform b (ObserveCanonicalState r c f) = observe_canonical_state r c f b"
| "bootstrap_perform b BsFail = (bs_fail b, False)"
| "bootstrap_perform b BsDisconnect = (bs_on_disconnect b, False)"
| "bootstrap_perform b Back = (bs_back b, False)"
| "bootstrap_perform b RestoreLobby = (restore_lobby b, False)"

lemmas bootstrap_defs = begin_fresh_game_def choose_solo_def show_create_form_def show_join_form_def
  begin_create_def begin_join_def bs_on_connected_def on_campaign_admitted_def begin_start_def
  reject_start_def observe_canonical_state_def bs_fail_def bs_on_disconnect_def bs_back_def
  restore_lobby_def

definition bootstrap_wf :: "Bootstrap \<Rightarrow> bool" where
  "bootstrap_wf b \<longleftrightarrow>
     (bs_emitted b \<longleftrightarrow> bs_phase b = Authorized) \<and>
     (bs_phase b = Bp_Inactive \<or> bs_phase b = Bp_Entry \<or> bs_phase b = CreateForm \<longrightarrow> \<not> bs_emitted b) \<and>
     (bs_phase b = Bp_Inactive \<or> bs_phase b = Bp_Entry \<longrightarrow> \<not> bs_committed b) \<and>
     (bs_phase b = Bp_Lobby \<or> bs_phase b = Starting \<longrightarrow> bs_committed b)"

lemma new_bootstrap_wf: "bootstrap_wf new_bootstrap"
  by (simp add: new_bootstrap_def bootstrap_wf_def)

lemma bootstrap_perform_wf: "bootstrap_wf b \<Longrightarrow> bootstrap_wf (fst (bootstrap_perform b x))"
  by (cases x) (auto simp: bootstrap_defs bootstrap_wf_def)

text \<open>Authorization is out of reach before the first fresh game, and once it is given.\<close>

definition bootstrap_spent :: "Bootstrap \<Rightarrow> bool" where
  "bootstrap_spent b \<longleftrightarrow> bs_phase b = Authorized \<or> bs_phase b = Bp_Inactive"

interpretation bootstrap: one_shot bootstrap_perform bootstrap_wf snd bootstrap_spent "\<lambda>x. x = BeginFreshGame"
proof unfold_locales
  fix b x
  assume wf: "bootstrap_wf b"
  show "bootstrap_wf (fst (bootstrap_perform b x))" by (rule bootstrap_perform_wf [OF wf])
  show "bootstrap_spent (fst (bootstrap_perform b x))" if "bootstrap_spent b" "x \<noteq> BeginFreshGame"
    using that wf by (cases x) (auto simp: bootstrap_defs bootstrap_spent_def bootstrap_wf_def)
  show "\<not> bootstrap_spent b \<and> x \<noteq> BeginFreshGame" if "snd (x, snd (bootstrap_perform b x))"
    using that wf by (cases x) (auto simp: bootstrap_defs bootstrap_wf_def bootstrap_spent_def split: if_splits)
  show "bootstrap_spent (fst (bootstrap_perform b x))" if "snd (x, snd (bootstrap_perform b x))"
    using that by (cases x) (auto simp: bootstrap_defs bootstrap_spent_def split: if_splits)
qed

text \<open>
  The operations of the game that is being bootstrapped: those after the last fresh game. What a
  state says about them: outside \<open>Bp_Inactive\<close> a fresh game has begun; while the campaign is being
  entered it was asked for in this very game; and a game is committed to its campaign by an admission
  that came after such a request, or by a restored lobby.
\<close>

definition this_game :: "BootstrapOp list \<Rightarrow> BootstrapOp list" where
  "this_game xs = rev (takeWhile (\<lambda>x. x \<noteq> BeginFreshGame) (rev xs))"

lemma this_game_nil [simp]: "this_game [] = []"
  by (simp add: this_game_def)

lemma this_game_snoc [simp]:
  "this_game (xs @ [x]) = (if x = BeginFreshGame then [] else this_game xs @ [x])"
  by (simp add: this_game_def)

fun enters_campaign :: "BootstrapOp \<Rightarrow> bool" where
  "enters_campaign (BeginCreate c) = True"
| "enters_campaign (BeginJoin c) = True"
| "enters_campaign _ = False"

definition entry_requested :: "BootstrapOp list \<Rightarrow> bool" where
  "entry_requested xs \<longleftrightarrow> (\<exists>x\<in>set xs. enters_campaign x)"

definition campaign_entered :: "BootstrapOp list \<Rightarrow> bool" where
  "campaign_entered xs \<longleftrightarrow>
     (\<exists>x. enters_campaign x \<and> happened [CampaignAdmitted, x] xs) \<or> RestoreLobby \<in> set xs"

lemma entry_requested_snoc [simp]:
  "entry_requested (xs @ [x]) \<longleftrightarrow> entry_requested xs \<or> enters_campaign x"
  by (auto simp: entry_requested_def)

lemma campaign_entered_later: "campaign_entered xs \<Longrightarrow> campaign_entered (xs @ [x])"
  by (auto simp: campaign_entered_def intro: happened_later)

lemma campaign_entered_admitted: "entry_requested xs \<Longrightarrow> campaign_entered (xs @ [CampaignAdmitted])"
  by (auto simp: campaign_entered_def entry_requested_def happened_def subseq_singleton_left
      intro!: exI happened_now [unfolded happened_def, of "[_]", simplified])

lemma campaign_entered_restored: "campaign_entered (xs @ [RestoreLobby])"
  by (simp add: campaign_entered_def)

definition bootstrap_past :: "BootstrapOp list \<Rightarrow> Bootstrap \<Rightarrow> bool" where
  "bootstrap_past xs b \<longleftrightarrow>
     (bs_phase b \<noteq> Bp_Inactive \<longrightarrow> BeginFreshGame \<in> set xs) \<and>
     (bs_phase b \<in> {ConnectingCreate, ConnectingJoin, CreatingCampaign, JoiningCampaign} \<longrightarrow>
       entry_requested (this_game xs)) \<and>
     (bs_committed b \<longrightarrow> bs_phase b \<noteq> Bp_Inactive \<and> campaign_entered (this_game xs))"

interpretation bootstrap_history: recorded_machine bootstrap_perform new_bootstrap bootstrap_past
proof unfold_locales
  show "bootstrap_past (xs @ [x]) (fst (bootstrap_perform b x))" if "bootstrap_past xs b" for xs b x
    using that
    by (cases x) (auto simp: bootstrap_past_def bootstrap_defs intro: campaign_entered_later
        campaign_entered_admitted campaign_entered_restored)
qed (simp add: bootstrap_past_def new_bootstrap_def)

section \<open>The start of the game\<close>

record StartProjection =
  sp_campaign :: string
  sp_finalized :: bool
  sp_authorized :: bool
  sp_issued :: bool

definition sp_reset :: "StartProjection \<Rightarrow> StartProjection" where
  "sp_reset p = p\<lparr>sp_campaign := [], sp_finalized := False, sp_authorized := False, sp_issued := False\<rparr>"

definition sp_begin :: "string \<Rightarrow> StartProjection \<Rightarrow> StartProjection" where
  "sp_begin campaign p = (sp_reset p)\<lparr>sp_campaign := campaign\<rparr>"

definition sp_finalize :: "StartProjection \<Rightarrow> StartProjection" where
  "sp_finalize p = p\<lparr>sp_finalized := True\<rparr>"

definition sp_authorize :: "string \<Rightarrow> StartProjection \<Rightarrow> StartProjection" where
  "sp_authorize campaign p =
     (if sp_campaign p \<noteq> [] \<and> sp_campaign p = campaign then p\<lparr>sp_authorized := True\<rparr> else p)"

definition sp_consume :: "bool \<Rightarrow> bool \<Rightarrow> bool \<Rightarrow> StartProjection \<Rightarrow> StartProjection \<times> bool" where
  "sp_consume connected active native_ready p =
     (if \<not> sp_finalized p \<or> sp_issued p \<or> \<not> native_ready then (p, False)
      else if (if sp_campaign p = [] then connected else \<not> connected \<or> \<not> active \<or> \<not> sp_authorized p)
      then (p, False)
      else (p\<lparr>sp_issued := True\<rparr>, True))"

definition sp_pending :: "StartProjection \<Rightarrow> bool" where
  "sp_pending p \<longleftrightarrow> sp_finalized p \<and> \<not> sp_issued p"

datatype StartOp = SpBegin string | SpFinalize | SpAuthorize string | SpConsume bool bool bool | SpReset

fun start_perform :: "StartProjection \<Rightarrow> StartOp \<Rightarrow> StartProjection \<times> bool" where
  "start_perform p (SpBegin i) = (sp_begin i p, False)"
| "start_perform p SpFinalize = (sp_finalize p, False)"
| "start_perform p (SpAuthorize i) = (sp_authorize i p, False)"
| "start_perform p (SpConsume c a n) = sp_consume c a n p"
| "start_perform p SpReset = (sp_reset p, False)"

lemmas start_defs = sp_begin_def sp_reset_def sp_finalize_def sp_authorize_def sp_consume_def

fun starts_anew :: "StartOp \<Rightarrow> bool" where
  "starts_anew (SpBegin i) = True"
| "starts_anew SpReset = True"
| "starts_anew _ = False"

interpretation start_projection: one_shot start_perform "\<lambda>_. True" snd sp_issued starts_anew
proof unfold_locales
  fix p x
  show "sp_issued (fst (start_perform p x))" if "sp_issued p" "\<not> starts_anew x"
    using that by (cases x) (auto simp: start_defs)
  show "\<not> sp_issued p \<and> \<not> starts_anew x" if "snd (x, snd (start_perform p x))"
    using that by (cases x) (auto simp: start_defs split: if_splits)
  show "sp_issued (fst (start_perform p x))" if "snd (x, snd (start_perform p x))"
    using that by (cases x) (auto simp: start_defs split: if_splits)
qed simp

section \<open>Properties\<close>

text \<open>
  C37: A fresh game is authorized at most once, and in a campaign only after it entered one. Along
  any use of the bootstrap there are at most as many authorizations, alone or in a campaign, as
  fresh games begun, and at most one during any stretch without a fresh game. An authorization by
  the state of a campaign needs a sealed roster that is fully present, the character creation phase,
  and, in the very game it is given to, an admission that came after a request to create or join, or
  a restored lobby; what happened in an earlier game does not count.
\<close>

theorem bootstrap_authorizes_once:
  "length (filter snd (run_replies bootstrap_perform new_bootstrap xs)) \<le>
     length (filter (\<lambda>x. x = BeginFreshGame) xs) \<and>
   (BeginFreshGame \<notin> set ys \<longrightarrow>
     length (filter snd (run_replies bootstrap_perform (run_ops bootstrap_perform new_bootstrap xs) ys)) \<le> 1) \<and>
   (snd (observe_canonical_state r c f (run_ops bootstrap_perform new_bootstrap xs)) \<longrightarrow>
     r \<and> c \<and> f \<and> BeginFreshGame \<in> set xs \<and> campaign_entered (this_game xs))"
proof (intro conjI impI)
  let ?b = "run_ops bootstrap_perform new_bootstrap xs"
  have wf: "bootstrap_wf ?b"
    by (rule bootstrap.run_wf [OF new_bootstrap_wf])
  show "length (filter snd (run_replies bootstrap_perform new_bootstrap xs)) \<le>
      length (filter (\<lambda>x. x = BeginFreshGame) xs)"
    using bootstrap.grants_bounded [OF new_bootstrap_wf, of xs]
    by (simp add: new_bootstrap_def bootstrap_spent_def)
  show "length (filter snd (run_replies bootstrap_perform ?b ys)) \<le> 1" if "BeginFreshGame \<notin> set ys"
  proof -
    from that have none: "filter (\<lambda>x. x = BeginFreshGame) ys = []"
      by (auto simp: filter_empty_conv)
    from bootstrap.grants_bounded [OF wf, of ys] show ?thesis
      unfolding none by (simp split: if_splits)
  qed
  assume granted: "snd (observe_canonical_state r c f ?b)"
  with bootstrap_history.run_past [of xs]
  show r c f "BeginFreshGame \<in> set xs" "campaign_entered (this_game xs)"
    by (auto simp: observe_canonical_state_def bootstrap_past_def split: if_splits)
qed

theorem bootstrap_authorizes_once_witness:
  "campaign_entered (this_game [BeginFreshGame, ChooseSolo, BeginFreshGame, ShowJoinForm,
     BeginJoin True, CampaignAdmitted]) \<and>
   length (filter snd (run_replies bootstrap_perform (run_ops bootstrap_perform new_bootstrap
     [BeginFreshGame, ChooseSolo, BeginFreshGame, ShowJoinForm, BeginJoin True, CampaignAdmitted])
     [ObserveCanonicalState True True True, ObserveCanonicalState True True True])) \<le> 1"
  using bootstrap_authorizes_once [of "[BeginFreshGame, ChooseSolo, BeginFreshGame, ShowJoinForm,
      BeginJoin True, CampaignAdmitted]"
      "[ObserveCanonicalState True True True, ObserveCanonicalState True True True]" True True True]
  by (simp add: bootstrap_defs new_bootstrap_def)

text \<open>
  The start of the game is requested at most once per creation: along any use of the projection
  the number of issued requests is at most the number of beginnings and resets, counting the first.
\<close>

theorem start_issued_once:
  "length (filter snd (run_replies start_perform p xs)) \<le> length (filter starts_anew xs) + 1"
  using start_projection.grants_bounded [of p xs] by (auto split: if_splits)

end
