(* ===== verification/ClientSession.thy ===== *)
theory ClientSession
  imports WireIdentity Histories
begin

text \<open>
  What the client knows of its campaign session: \<open>campaign_client/CampaignClientAdmissionState\<close>
  (the admission and the campaign to reconnect to), \<open>CampaignResumeState\<close> (the choice of a saved
  campaign and its progress) and \<open>CampaignRecoveryUiState\<close> (what the player is shown of an
  interruption). The admission state is used under its mutex, so its operations are steps.
\<close>

section \<open>Admission\<close>

record Admission =
  ad_campaign :: string
  ad_slot :: string
  ad_binding :: string

record RuntimeProjection =
  rp_campaign :: string
  rp_sealed :: bool
  rp_active :: bool
  rp_roster :: nat
  rp_present :: nat

record AdmissionState =
  as_admission :: "Admission option"
  as_candidate :: "string option"
  as_projection :: "RuntimeProjection option"
  as_in_flight :: bool

definition new_admission_state :: AdmissionState where
  "new_admission_state =
     \<lparr>as_admission = None, as_candidate = None, as_projection = None, as_in_flight = False\<rparr>"

definition as_accept :: "Admission \<Rightarrow> AdmissionState \<Rightarrow> AdmissionState" where
  "as_accept a s = s\<lparr>as_candidate := Some (ad_campaign a), as_admission := Some a, as_in_flight := False\<rparr>"

definition as_observe_snapshot :: "RuntimeProjection \<Rightarrow> AdmissionState \<Rightarrow> AdmissionState" where
  "as_observe_snapshot p s = s\<lparr>as_projection := Some p\<rparr>"

definition helgen_readiness :: "AdmissionState \<Rightarrow> Admission option \<times> bool" where
  "helgen_readiness s =
     (as_admission s,
      case (as_admission s, as_projection s) of
        (Some a, Some p) \<Rightarrow>
          ad_campaign a = rp_campaign p \<and> rp_sealed p \<and> rp_active p \<and> rp_roster p > 0 \<and>
          rp_present p = rp_roster p
      | _ \<Rightarrow> False)"

definition clear_runtime_session :: "bool \<Rightarrow> AdmissionState \<Rightarrow> AdmissionState \<times> string option" where
  "clear_runtime_session keep s =
     (let campaign = (case as_admission s of Some a \<Rightarrow> Some (ad_campaign a) | None \<Rightarrow> as_candidate s) in
      (s\<lparr>as_candidate := (if keep then campaign else None), as_admission := None,
         as_projection := None, as_in_flight := False\<rparr>, campaign))"

definition as_disconnect :: "AdmissionState \<Rightarrow> AdmissionState \<times> string option" where
  "as_disconnect = clear_runtime_session True"

definition end_runtime_session :: "AdmissionState \<Rightarrow> AdmissionState \<times> string option" where
  "end_runtime_session = clear_runtime_session False"

definition begin_resume :: "AdmissionState \<Rightarrow> AdmissionState \<times> string option" where
  "begin_resume s =
     (if as_admission s \<noteq> None \<or> as_candidate s = None \<or> as_in_flight s then (s, None)
      else (s\<lparr>as_in_flight := True\<rparr>, as_candidate s))"

definition resume_rejected :: "AdmissionState \<Rightarrow> AdmissionState" where
  "resume_rejected s = s\<lparr>as_in_flight := False\<rparr>"

definition as_leave :: "string \<Rightarrow> AdmissionState \<Rightarrow> AdmissionState" where
  "as_leave campaign s =
     s\<lparr>as_admission :=
         (case as_admission s of Some a \<Rightarrow> if ad_campaign a = campaign then None else Some a | None \<Rightarrow> None),
       as_candidate := (if as_candidate s = Some campaign then None else as_candidate s),
       as_projection :=
         (case as_projection s of Some p \<Rightarrow> if rp_campaign p = campaign then None else Some p | None \<Rightarrow> None),
       as_in_flight := False\<rparr>"

datatype AdmissionOp =
    AsAccept Admission | AsObserve RuntimeProjection | AsDisconnect | EndRuntimeSession | BeginResume
  | ResumeRejected | AsLeave string

fun admission_perform :: "AdmissionState \<Rightarrow> AdmissionOp \<Rightarrow> AdmissionState \<times> string option" where
  "admission_perform s (AsAccept a) = (as_accept a s, None)"
| "admission_perform s (AsObserve p) = (as_observe_snapshot p s, None)"
| "admission_perform s AsDisconnect = as_disconnect s"
| "admission_perform s EndRuntimeSession = end_runtime_session s"
| "admission_perform s BeginResume = begin_resume s"
| "admission_perform s ResumeRejected = (resume_rejected s, None)"
| "admission_perform s (AsLeave i) = (as_leave i s, None)"

lemmas admission_defs = as_accept_def as_observe_snapshot_def clear_runtime_session_def as_disconnect_def
  end_runtime_session_def begin_resume_def resume_rejected_def as_leave_def

text \<open>An admission is one the server gave, and it is also the campaign to reconnect to.\<close>

definition admission_past :: "AdmissionOp list \<Rightarrow> AdmissionState \<Rightarrow> bool" where
  "admission_past xs s \<longleftrightarrow>
     (\<forall>a. as_admission s = Some a \<longrightarrow>
        as_candidate s = Some (ad_campaign a) \<and> \<not> as_in_flight s \<and>
        since (AsAccept a) {AsDisconnect, EndRuntimeSession, AsLeave (ad_campaign a)} xs) \<and>
     (\<forall>i. as_candidate s = Some i \<longrightarrow> (\<exists>a. AsAccept a \<in> set xs \<and> ad_campaign a = i)) \<and>
     (as_in_flight s \<longrightarrow> BeginResume \<in> set xs)"

interpretation admission_history: recorded_machine admission_perform new_admission_state admission_past
proof unfold_locales
  show "admission_past [] new_admission_state" by (simp add: admission_past_def new_admission_state_def)
  show "admission_past (xs @ [x]) (fst (admission_perform s x))" if "admission_past xs s" for xs s x
    using that
    by (cases x) (auto simp: admission_past_def admission_defs intro: since_now since_later
        split: option.splits if_splits)
qed

section \<open>Choosing a campaign to resume\<close>

definition kMaximumCampaignResumeCandidates :: nat where "kMaximumCampaignResumeCandidates = 256"

datatype ResumePhase =
    Rs_Unavailable | Rs_Ready | Rs_Submitting | Rs_Admitted | WaitingForRoster | Rs_Recovery
  | Synchronizing | Rs_Active | Rs_Error

record ResumeCandidate =
  rc_token :: string
  rc_campaign :: string

record ResumeState =
  rs_phase :: ResumePhase
  rs_candidates :: "ResumeCandidate list"
  rs_views :: "(string \<times> nat) list"
  rs_selected :: string
  rs_error :: string

definition new_resume :: ResumeState where
  "new_resume = \<lparr>rs_phase = Rs_Unavailable, rs_candidates = [], rs_views = [], rs_selected = [], rs_error = []\<rparr>"

definition is_opaque_token :: "string \<Rightarrow> bool" where
  "is_opaque_token t \<longleftrightarrow> length t = 32 \<and>
     list_all (\<lambda>c. between CHR ''0'' CHR ''9'' c \<or> between CHR ''a'' CHR ''f'' c) t"

text \<open>The check of the candidates, with the tokens and campaigns seen before them.\<close>

fun candidates_ok :: "string list \<Rightarrow> string list \<Rightarrow> ResumeCandidate list \<Rightarrow> bool" where
  "candidates_ok tokens campaigns [] = True"
| "candidates_ok tokens campaigns (c # cs) =
     (if \<not> is_opaque_token (rc_token c) \<or> \<not> is_valid_cache_id (rc_campaign c) \<or>
         rc_token c \<in> set tokens \<or> rc_campaign c \<in> set campaigns
      then False
      else candidates_ok (rc_token c # tokens) (rc_campaign c # campaigns) cs)"

definition replace_candidates :: "ResumeCandidate list \<Rightarrow> ResumeState \<Rightarrow> ResumeState \<times> bool" where
  "replace_candidates cs r =
     (if length cs > kMaximumCampaignResumeCandidates then (r, False)
      else if \<not> candidates_ok [] [] cs then (r, False)
      else (r\<lparr>rs_candidates := cs, rs_views := map (\<lambda>i. (rc_token (cs ! i), i + 1)) [0..<length cs],
              rs_selected := [], rs_error := [], rs_phase := Rs_Ready\<rparr>, True))"

definition fail_cache :: "ResumeState \<Rightarrow> ResumeState" where
  "fail_cache r = r\<lparr>rs_candidates := [], rs_views := [], rs_selected := [], rs_error := ''cache_invalid'',
     rs_phase := Rs_Error\<rparr>"

definition rs_fail :: "string \<Rightarrow> ResumeState \<Rightarrow> ResumeState" where
  "rs_fail e r = r\<lparr>rs_error := e, rs_phase := Rs_Error\<rparr>"

definition find_by_token :: "ResumeState \<Rightarrow> string \<Rightarrow> ResumeCandidate option" where
  "find_by_token r t = find (\<lambda>c. rc_token c = t) (rs_candidates r)"

definition is_selected_campaign :: "ResumeState \<Rightarrow> string \<Rightarrow> bool" where
  "is_selected_campaign r i =
     (case find_by_token r (rs_selected r) of Some c \<Rightarrow> rc_campaign c = i | None \<Rightarrow> False)"

definition rs_select :: "string \<Rightarrow> ResumeState \<Rightarrow> ResumeState \<times> string option" where
  "rs_select t r =
     (if rs_phase r \<noteq> Rs_Ready \<and> rs_phase r \<noteq> Rs_Error then (r, None)
      else case find_by_token r t of
        None \<Rightarrow> (r\<lparr>rs_error := ''candidate_unavailable'', rs_phase := Rs_Error\<rparr>, None)
      | Some c \<Rightarrow> (r\<lparr>rs_selected := rc_token c, rs_error := [], rs_phase := Rs_Submitting\<rparr>, Some (rc_campaign c)))"

definition retry_selected :: "string \<Rightarrow> ResumeState \<Rightarrow> ResumeState \<times> bool" where
  "retry_selected i r =
     (if rs_phase r \<noteq> Rs_Error \<or> \<not> is_selected_campaign r i then (r, False)
      else (r\<lparr>rs_error := [], rs_phase := Rs_Submitting\<rparr>, True))"

definition in_session :: "ResumePhase \<Rightarrow> bool" where
  "in_session p \<longleftrightarrow> p = Rs_Admitted \<or> p = WaitingForRoster \<or> p = Rs_Recovery \<or> p = Synchronizing \<or> p = Rs_Active"

definition rs_accept :: "string \<Rightarrow> ResumeState \<Rightarrow> ResumeState \<times> bool" where
  "rs_accept i r =
     (if \<not> is_selected_campaign r i then (r, False)
      else if rs_phase r = Rs_Submitting \<or>
         (rs_phase r = Rs_Error \<and> (rs_error r = ''connection_lost'' \<or> rs_error r = ''recovery_failed''))
      then (r\<lparr>rs_phase := Rs_Admitted, rs_error := []\<rparr>, True)
      else (r, in_session (rs_phase r)))"

definition rs_reject :: "string \<Rightarrow> string \<Rightarrow> ResumeState \<Rightarrow> ResumeState \<times> bool" where
  "rs_reject i e r =
     (if rs_phase r \<noteq> Rs_Submitting \<or> \<not> is_selected_campaign r i then (r, False)
      else (r\<lparr>rs_error := e, rs_phase := Rs_Error\<rparr>, True))"

definition rs_observe_runtime :: "string \<Rightarrow> u8 \<Rightarrow> bool \<Rightarrow> nat \<Rightarrow> nat \<Rightarrow> ResumeState \<Rightarrow> ResumeState \<times> bool" where
  "rs_observe_runtime i runtime roster_sealed roster_size present r =
     (if \<not> is_selected_campaign r i \<or> \<not> in_session (rs_phase r) \<or> roster_size = 0 \<or> present > roster_size then (r, False)
      else (r\<lparr>rs_phase :=
        (if \<not> roster_sealed then Rs_Admitted
         else if runtime = kCampaignWireRuntimeActive \<and> present = roster_size then Rs_Active
         else if runtime = kCampaignWireRuntimeRecoveryLock then Rs_Recovery
         else if runtime = kCampaignWireRuntimeRestoringCheckpoint then Synchronizing
         else WaitingForRoster)\<rparr>, True))"

definition rs_complete :: "ResumeState \<Rightarrow> ResumeState" where
  "rs_complete r = r\<lparr>rs_phase := Rs_Unavailable, rs_candidates := [], rs_views := [], rs_selected := [],
     rs_error := []\<rparr>"

datatype ResumeOp =
    RsReplace "ResumeCandidate list" | RsFailCache | RsFail string | RsSelect string | RsRetry string
  | RsAccept string | RsReject string string | RsObserve string u8 bool nat nat | RsComplete

text \<open>A selection answers with the campaign, the others whether they did something.\<close>

fun resume_perform :: "ResumeState \<Rightarrow> ResumeOp \<Rightarrow> ResumeState \<times> (bool + string option)" where
  "resume_perform r (RsReplace cs) = map_prod id Inl (replace_candidates cs r)"
| "resume_perform r RsFailCache = (fail_cache r, Inl True)"
| "resume_perform r (RsFail e) = (rs_fail e r, Inl True)"
| "resume_perform r (RsSelect t) = map_prod id Inr (rs_select t r)"
| "resume_perform r (RsRetry i) = map_prod id Inl (retry_selected i r)"
| "resume_perform r (RsAccept i) = map_prod id Inl (rs_accept i r)"
| "resume_perform r (RsReject i e) = map_prod id Inl (rs_reject i e r)"
| "resume_perform r (RsObserve i s b m n) = map_prod id Inl (rs_observe_runtime i s b m n r)"
| "resume_perform r RsComplete = (rs_complete r, Inl True)"

lemmas resume_defs = replace_candidates_def fail_cache_def rs_fail_def rs_select_def retry_selected_def
  rs_accept_def rs_reject_def rs_observe_runtime_def rs_complete_def

section \<open>Candidates and progress\<close>

lemma candidates_ok_iff:
  "candidates_ok tokens campaigns cs \<longleftrightarrow>
     (\<forall>c \<in> set cs. is_opaque_token (rc_token c) \<and> is_valid_cache_id (rc_campaign c)) \<and>
     distinct (map rc_token cs) \<and> distinct (map rc_campaign cs) \<and>
     rc_token ` set cs \<inter> set tokens = {} \<and> rc_campaign ` set cs \<inter> set campaigns = {}"
  by (induction tokens campaigns cs rule: candidates_ok.induct) auto

definition resume_wf :: "ResumeState \<Rightarrow> bool" where
  "resume_wf r \<longleftrightarrow>
     length (rs_candidates r) \<le> kMaximumCampaignResumeCandidates \<and> candidates_ok [] [] (rs_candidates r) \<and>
     rs_views r = map (\<lambda>i. (rc_token (rs_candidates r ! i), i + 1)) [0..<length (rs_candidates r)] \<and>
     (rs_phase r = Rs_Unavailable \<longrightarrow> rs_candidates r = [] \<and> rs_selected r = [] \<and> rs_error r = []) \<and>
     (rs_selected r \<noteq> [] \<longrightarrow> find_by_token r (rs_selected r) \<noteq> None)"

lemma find_by_token_unique:
  assumes "candidates_ok [] [] (rs_candidates r)"
  shows "find_by_token r t = Some c \<longleftrightarrow> c \<in> set (rs_candidates r) \<and> rc_token c = t"
proof
  assume "find_by_token r t = Some c"
  then show "c \<in> set (rs_candidates r) \<and> rc_token c = t"
    by (auto simp: find_by_token_def find_Some_iff)
next
  assume c: "c \<in> set (rs_candidates r) \<and> rc_token c = t"
  then have "find_by_token r t \<noteq> None" by (auto simp: find_by_token_def find_None_iff)
  then obtain d where d: "find_by_token r t = Some d" by auto
  then have "d \<in> set (rs_candidates r) \<and> rc_token d = t" by (auto simp: find_by_token_def find_Some_iff)
  with c assms have "d = c" by (auto simp: candidates_ok_iff distinct_map dest: inj_onD)
  with d show "find_by_token r t = Some c" by simp
qed

lemma no_empty_token: "candidates_ok [] [] (rs_candidates r) \<Longrightarrow> find_by_token r [] = None"
  by (auto simp: find_by_token_def find_None_iff candidates_ok_iff is_opaque_token_def)

lemma find_by_token_update [simp]:
  "find_by_token (r\<lparr>rs_phase := a\<rparr>) = find_by_token r" "find_by_token (r\<lparr>rs_error := e\<rparr>) = find_by_token r"
  "find_by_token (r\<lparr>rs_selected := s\<rparr>) = find_by_token r"
  by (simp_all add: find_by_token_def fun_eq_iff)

text \<open>What the selection and the phase say about the past; the selected campaign is \<open>i\<close>.\<close>

definition resume_earned :: "(ResumeOp list \<Rightarrow> bool) \<Rightarrow> ResumeState \<Rightarrow> bool" where
  "resume_earned H r \<longleftrightarrow> resume_wf r \<and>
     (rs_selected r \<noteq> [] \<longrightarrow> H [RsSelect (rs_selected r)]) \<and>
     (rs_phase r = Rs_Submitting \<longrightarrow> rs_selected r \<noteq> []) \<and>
     (in_session (rs_phase r) \<longrightarrow> (\<exists>i. is_selected_campaign r i \<and> H [RsAccept i, RsSelect (rs_selected r)])) \<and>
     (rs_phase r = Rs_Active \<longrightarrow> (\<exists>i n. n > 0 \<and> is_selected_campaign r i \<and>
        H [RsObserve i kCampaignWireRuntimeActive True n n, RsAccept i, RsSelect (rs_selected r)]))"

lemma selected_campaign_update [simp]:
  "is_selected_campaign (r\<lparr>rs_phase := a\<rparr>) = is_selected_campaign r"
  "is_selected_campaign (r\<lparr>rs_error := e\<rparr>) = is_selected_campaign r"
  by (simp_all add: is_selected_campaign_def fun_eq_iff)

lemma selected_nonempty: "resume_wf r \<Longrightarrow> is_selected_campaign r i \<Longrightarrow> rs_selected r \<noteq> []"
  by (auto simp: is_selected_campaign_def resume_wf_def no_empty_token)

lemma selected_unique: "is_selected_campaign r i \<Longrightarrow> is_selected_campaign r j \<Longrightarrow> i = j"
  by (auto simp: is_selected_campaign_def split: option.splits)

lemma not_in_session [simp]:
  "\<not> in_session Rs_Unavailable" "\<not> in_session Rs_Ready" "\<not> in_session Rs_Submitting" "\<not> in_session Rs_Error"
  "in_session Rs_Admitted" "in_session Rs_Active"
  by (simp_all add: in_session_def)

lemma earned_later:
  assumes "resume_earned H r" and "\<And>s. H s \<Longrightarrow> H' s"
  shows "resume_earned H' r"
  using assms(1) unfolding resume_earned_def by (blast intro: assms(2))

lemma earned_error:
  assumes "resume_earned H r"
  shows "resume_earned H (r\<lparr>rs_error := e, rs_phase := Rs_Error\<rparr>)"
  using assms by (simp add: resume_earned_def resume_wf_def)

lemma earned_select:
  assumes ok: "resume_earned H r" and "find_by_token r t = Some c" and now: "H [RsSelect t]"
  shows "resume_earned H (r\<lparr>rs_selected := rc_token c, rs_error := [], rs_phase := Rs_Submitting\<rparr>)"
proof -
  from ok have wf: "resume_wf r" by (simp add: resume_earned_def)
  then have c: "rc_token c = t" using assms(2) by (simp add: resume_wf_def find_by_token_unique)
  with assms(2) wf have "t \<noteq> []" by (auto simp: resume_wf_def no_empty_token)
  with wf c assms(2) now show ?thesis by (simp add: resume_earned_def resume_wf_def)
qed

lemma earned_session:
  assumes ok: "resume_earned H r" and "in_session p" and i: "is_selected_campaign r i"
    and now: "H [RsAccept i, RsSelect (rs_selected r)]"
    and active: "p = Rs_Active \<Longrightarrow> \<exists>n. n > 0 \<and>
        H [RsObserve i kCampaignWireRuntimeActive True n n, RsAccept i, RsSelect (rs_selected r)]"
  shows "resume_earned H (r\<lparr>rs_phase := p\<rparr>)"
proof -
  from ok have wf: "resume_wf r" by (simp add: resume_earned_def)
  with assms(2) have "resume_wf (r\<lparr>rs_phase := p\<rparr>)" by (auto simp: resume_wf_def in_session_def)
  moreover have "H [RsSelect (rs_selected r)]" using ok selected_nonempty [OF wf i] by (simp add: resume_earned_def)
  ultimately show ?thesis using assms(2) i now active unfolding resume_earned_def
    by (auto simp: in_session_def)
qed

lemma earned_no_error:
  "resume_earned H r \<Longrightarrow> rs_phase r \<noteq> Rs_Unavailable \<Longrightarrow> resume_earned H (r\<lparr>rs_error := e\<rparr>)"
  by (simp add: resume_earned_def resume_wf_def)

lemma earned_step:
  assumes ok: "resume_earned H r" and later: "\<And>s. H s \<Longrightarrow> H' s" and none: "H []"
    and now: "\<And>s. H s \<Longrightarrow> H' (x # s)"
  shows "resume_earned H' (fst (resume_perform r x))"
proof -
  have kept: "resume_earned H' r" by (rule earned_later [OF ok]) (rule later)
  from ok have wf: "resume_wf r" by (simp add: resume_earned_def)
  show ?thesis
  proof (cases x)
    case (RsReplace cs)
    with kept show ?thesis
      by (auto simp: replace_candidates_def resume_earned_def resume_wf_def find_by_token_def)
  next
    case RsFailCache
    then show ?thesis
      by (simp add: fail_cache_def resume_earned_def resume_wf_def kMaximumCampaignResumeCandidates_def)
  next
    case (RsFail e)
    with earned_error [OF kept] show ?thesis by (simp add: rs_fail_def)
  next
    case (RsSelect t)
    with kept now [OF none] show ?thesis
      by (auto simp: rs_select_def intro: earned_error earned_select split: option.split)
  next
    case (RsRetry i)
    with kept wf show ?thesis
      by (auto simp: retry_selected_def resume_earned_def resume_wf_def dest: selected_nonempty [OF wf])
  next
    case (RsAccept i)
    show ?thesis
    proof (cases "is_selected_campaign r i")
      case True
      then have "H [RsSelect (rs_selected r)]" using ok selected_nonempty [OF wf] by (simp add: resume_earned_def)
      then have "H' [RsAccept i, RsSelect (rs_selected r)]" using now RsAccept by simp
      then have "resume_earned H' ((r\<lparr>rs_phase := Rs_Admitted\<rparr>)\<lparr>rs_error := []\<rparr>)"
        using kept True by (intro earned_no_error earned_session) simp_all
      with kept RsAccept show ?thesis by (simp add: rs_accept_def)
    qed (use kept RsAccept in \<open>simp add: rs_accept_def\<close>)
  next
    case (RsReject i e)
    with earned_error [OF kept] kept show ?thesis by (simp add: rs_reject_def)
  next
    case (RsObserve i runtime b m n)
    show ?thesis
    proof (cases "is_selected_campaign r i \<and> in_session (rs_phase r) \<and> m > 0 \<and> n \<le> m")
      case True
      then have "H [RsAccept i, RsSelect (rs_selected r)]"
        using ok by (auto simp: resume_earned_def dest: selected_unique)
      then have accepted: "H' [RsAccept i, RsSelect (rs_selected r)]"
        and observed: "H' [RsObserve i runtime b m n, RsAccept i, RsSelect (rs_selected r)]"
        using later now RsObserve by simp_all
      let ?p = "if \<not> b then Rs_Admitted else if runtime = kCampaignWireRuntimeActive \<and> n = m then Rs_Active
         else if runtime = kCampaignWireRuntimeRecoveryLock then Rs_Recovery
         else if runtime = kCampaignWireRuntimeRestoringCheckpoint then Synchronizing else WaitingForRoster"
      have "resume_earned H' (r\<lparr>rs_phase := ?p\<rparr>)"
        using True observed
        by (intro earned_session [OF kept _ _ accepted]) (auto simp: in_session_def split: if_splits)
      then show ?thesis using True RsObserve by (simp add: rs_observe_runtime_def)
    qed (use kept RsObserve in \<open>auto simp: rs_observe_runtime_def\<close>)
  next
    case RsComplete
    then show ?thesis
      by (simp add: rs_complete_def resume_earned_def resume_wf_def kMaximumCampaignResumeCandidates_def)
  qed
qed
interpretation resume_history: recorded_machine resume_perform new_resume "\<lambda>xs. resume_earned (\<lambda>s. happened s xs)"
proof unfold_locales
  show "resume_earned (\<lambda>s. happened s []) new_resume"
    by (simp add: resume_earned_def resume_wf_def new_resume_def kMaximumCampaignResumeCandidates_def)
  show "resume_earned (\<lambda>s. happened s (xs @ [x])) (fst (resume_perform r x))"
    if "resume_earned (\<lambda>s. happened s xs) r" for xs r x
    by (rule earned_step [OF that]) (simp_all add: happened_later happened_now)
qed

section \<open>What the player sees of a recovery\<close>

datatype UiMode = UiHidden | DisconnectIncident | ExistingRecovery
datatype IncidentKind = RemotePlayerMissing | MultiplePlayersMissing | LocalTransportLost | RosterRestored

record UiMember =
  um_present :: bool
  um_local :: bool

record RecoveryUi =
  ui_mode :: UiMode
  ui_campaign :: string
  ui_roster :: "UiMember list"
  ui_observed_active :: bool
  ui_transport_lost :: bool
  ui_main_menu :: bool
  ui_dispatch_started :: bool

definition new_recovery_ui :: RecoveryUi where
  "new_recovery_ui = \<lparr>ui_mode = UiHidden, ui_campaign = [], ui_roster = [], ui_observed_active = False,
     ui_transport_lost = False, ui_main_menu = False, ui_dispatch_started = False\<rparr>"

definition ui_observe_snapshot :: "string \<Rightarrow> u8 \<Rightarrow> bool \<Rightarrow> UiMember list \<Rightarrow> RecoveryUi \<Rightarrow> RecoveryUi \<times> bool" where
  "ui_observe_snapshot campaign runtime roster_sealed roster u =
     (if campaign = [] \<or> \<not> roster_sealed \<or> roster = [] \<or> length roster > kCampaignWireMaximumRosterSize \<or>
         length (filter um_local roster) \<noteq> 1
      then (u, False)
      else
        let active = (runtime = kCampaignWireRuntimeActive);
            recovering = (runtime = kCampaignWireRuntimeRecoveryLock \<or> runtime = kCampaignWireRuntimeRestoringCheckpoint) in
        if \<not> active \<and> \<not> recovering then (u, False)
        else if ui_mode u \<noteq> UiHidden \<and> ui_campaign u \<noteq> campaign then (u, False)
        else if ui_mode u = UiHidden then
          (if active then (u\<lparr>ui_campaign := campaign, ui_roster := roster, ui_observed_active := True\<rparr>, True)
           else if \<not> ui_observed_active u \<or> ui_campaign u \<noteq> campaign then (u, False)
           else (u\<lparr>ui_mode := DisconnectIncident, ui_transport_lost := False, ui_main_menu := False,
                   ui_dispatch_started := False, ui_roster := roster\<rparr>, True))
        else (u\<lparr>ui_roster := roster\<rparr>, True))"

definition open_local_transport_loss :: "RecoveryUi \<Rightarrow> RecoveryUi \<times> bool" where
  "open_local_transport_loss u =
     (if ui_mode u \<noteq> UiHidden \<or> \<not> ui_observed_active u \<or> ui_campaign u = [] then (u, False)
      else (u\<lparr>ui_mode := DisconnectIncident, ui_transport_lost := True, ui_main_menu := False,
              ui_dispatch_started := False\<rparr>, True))"

definition stay_and_recover :: "RecoveryUi \<Rightarrow> RecoveryUi \<times> bool" where
  "stay_and_recover u =
     (if ui_mode u \<noteq> DisconnectIncident \<or> ui_main_menu u then (u, False)
      else (u\<lparr>ui_mode := ExistingRecovery\<rparr>, True))"

definition request_main_menu :: "RecoveryUi \<Rightarrow> RecoveryUi \<times> bool" where
  "request_main_menu u =
     (if ui_mode u \<noteq> DisconnectIncident \<or> ui_main_menu u then (u, False) else (u\<lparr>ui_main_menu := True\<rparr>, True))"

definition begin_main_menu_dispatch :: "RecoveryUi \<Rightarrow> RecoveryUi \<times> bool" where
  "begin_main_menu_dispatch u =
     (if ui_mode u \<noteq> DisconnectIncident \<or> \<not> ui_main_menu u \<or> ui_dispatch_started u then (u, False)
      else (u\<lparr>ui_dispatch_started := True\<rparr>, True))"

definition cancel_main_menu_request :: "RecoveryUi \<Rightarrow> RecoveryUi" where
  "cancel_main_menu_request u = u\<lparr>ui_main_menu := False, ui_dispatch_started := False\<rparr>"

definition ui_complete :: "RecoveryUi \<Rightarrow> RecoveryUi" where
  "ui_complete u = u\<lparr>ui_mode := UiHidden, ui_campaign := [], ui_roster := [], ui_observed_active := False,
     ui_transport_lost := False, ui_main_menu := False, ui_dispatch_started := False\<rparr>"

definition missing_remote_count :: "RecoveryUi \<Rightarrow> nat" where
  "missing_remote_count u = length (filter (\<lambda>m. \<not> um_local m \<and> \<not> um_present m) (ui_roster u))"

definition incident_kind :: "RecoveryUi \<Rightarrow> IncidentKind" where
  "incident_kind u =
     (if ui_transport_lost u then LocalTransportLost
      else if missing_remote_count u > 1 then MultiplePlayersMissing
      else if missing_remote_count u = 1 then RemotePlayerMissing
      else RosterRestored)"

datatype UiOp =
    UiObserve string u8 bool "UiMember list" | OpenLocalTransportLoss | StayAndRecover | RequestMainMenu
  | BeginMainMenuDispatch | CancelMainMenuRequest | UiComplete

fun ui_perform :: "RecoveryUi \<Rightarrow> UiOp \<Rightarrow> RecoveryUi \<times> bool" where
  "ui_perform u (UiObserve i r b ms) = ui_observe_snapshot i r b ms u"
| "ui_perform u OpenLocalTransportLoss = open_local_transport_loss u"
| "ui_perform u StayAndRecover = stay_and_recover u"
| "ui_perform u RequestMainMenu = request_main_menu u"
| "ui_perform u BeginMainMenuDispatch = begin_main_menu_dispatch u"
| "ui_perform u CancelMainMenuRequest = (cancel_main_menu_request u, True)"
| "ui_perform u UiComplete = (ui_complete u, True)"

lemmas ui_defs = ui_observe_snapshot_def open_local_transport_loss_def stay_and_recover_def
  request_main_menu_def begin_main_menu_dispatch_def cancel_main_menu_request_def ui_complete_def

text \<open>Something is shown only of a campaign that was seen active, with the local player in its roster.\<close>

definition ui_wf :: "RecoveryUi \<Rightarrow> bool" where
  "ui_wf u \<longleftrightarrow>
     (ui_mode u \<noteq> UiHidden \<longrightarrow> ui_observed_active u) \<and>
     (ui_observed_active u \<longleftrightarrow> ui_campaign u \<noteq> []) \<and>
     (ui_observed_active u \<longrightarrow> length (filter um_local (ui_roster u)) = 1 \<and>
        length (ui_roster u) \<le> kCampaignWireMaximumRosterSize) \<and>
     (ui_dispatch_started u \<longrightarrow> ui_main_menu u) \<and>
     (ui_main_menu u \<longrightarrow> ui_mode u = DisconnectIncident)"

lemma ui_wf_if: "(b \<Longrightarrow> ui_wf (fst x)) \<Longrightarrow> (\<not> b \<Longrightarrow> ui_wf (fst y)) \<Longrightarrow> ui_wf (fst (if b then x else y))"
  by simp

lemma ui_perform_wf:
  assumes "ui_wf u"
  shows "ui_wf (fst (ui_perform u x))"
proof (cases x)
  case (UiObserve i r b ms)
  from assms show ?thesis unfolding UiObserve ui_perform.simps ui_observe_snapshot_def Let_def
    by (intro ui_wf_if) (auto simp: ui_wf_def)
qed (use assms in \<open>auto simp: ui_defs ui_wf_def\<close>)

interpretation recovery_ui: op_machine ui_perform ui_wf
  by unfold_locales (rule ui_perform_wf)

section \<open>Properties\<close>

text \<open>
  The client's admission is the server's: whenever it holds an admission, the server gave
  exactly that one and nothing ended it since, no resume is under way and a disconnection would
  offer its campaign for reconnection; and whatever campaign is a candidate was once admitted to.
\<close>

theorem admission_is_the_servers:
  assumes "s = run_ops admission_perform new_admission_state xs"
  shows "(\<forall>a. as_admission s = Some a \<longrightarrow>
      since (AsAccept a) {AsDisconnect, EndRuntimeSession, AsLeave (ad_campaign a)} xs \<and> \<not> as_in_flight s \<and>
      snd (begin_resume (fst (as_disconnect s))) = Some (ad_campaign a)) \<and>
    (\<forall>i. as_candidate s = Some i \<longrightarrow> (\<exists>a. AsAccept a \<in> set xs \<and> ad_campaign a = i))"
  using admission_history.run_past [of xs] unfolding assms(1) [symmetric]
  by (simp add: admission_past_def as_disconnect_def clear_runtime_session_def begin_resume_def)

theorem admission_is_the_servers_witness:
  "snd (begin_resume (fst (as_disconnect (run_ops admission_perform new_admission_state
     [AsAccept \<lparr>ad_campaign = ''c'', ad_slot = ''s'', ad_binding = ''b''\<rparr>])))) = Some ''c''"
  using admission_is_the_servers [OF refl, of "[AsAccept \<lparr>ad_campaign = ''c'', ad_slot = ''s'', ad_binding = ''b''\<rparr>]"]
  by (simp add: as_accept_def)

text \<open>
  The progress of a resume is earned: while the client shows a campaign as admitted or further,
  one of its validated candidates is selected by its unique token, was selected and then accepted
  by the server; and it is shown as active only after a snapshot of the active runtime with every
  member of a non-empty roster present.
\<close>

theorem resume_progress_is_earned:
  assumes "r = run_ops resume_perform new_resume xs" and "in_session (rs_phase r)"
  shows "\<exists>c. c \<in> set (rs_candidates r) \<and> rc_token c = rs_selected r \<and>
      is_opaque_token (rc_token c) \<and> is_valid_cache_id (rc_campaign c) \<and>
      subseq [RsSelect (rc_token c), RsAccept (rc_campaign c)] xs \<and>
      (rs_phase r = Rs_Active \<longrightarrow>
        (\<exists>n > 0. subseq [RsSelect (rc_token c), RsAccept (rc_campaign c),
           RsObserve (rc_campaign c) kCampaignWireRuntimeActive True n n] xs))"
proof -
  have ok: "resume_earned (\<lambda>s. happened s xs) r" unfolding assms(1) by (rule resume_history.run_past)
  then have cs: "candidates_ok [] [] (rs_candidates r)" by (simp add: resume_earned_def resume_wf_def)
  from ok assms(2) obtain i where i: "is_selected_campaign r i" "happened [RsAccept i, RsSelect (rs_selected r)] xs"
    by (auto simp: resume_earned_def)
  then obtain c where c: "find_by_token r (rs_selected r) = Some c" "rc_campaign c = i"
    by (auto simp: is_selected_campaign_def split: option.splits)
  then have "c \<in> set (rs_candidates r)" "rc_token c = rs_selected r"
    by (simp_all add: find_by_token_unique [OF cs])
  moreover have "\<exists>n > 0. happened [RsObserve i kCampaignWireRuntimeActive True n n, RsAccept i, RsSelect (rs_selected r)] xs"
    if "rs_phase r = Rs_Active"
    using ok that i(1) by (auto simp: resume_earned_def dest: selected_unique)
  ultimately show ?thesis using cs i(2) c(2)
    by (intro exI [of _ c]) (auto simp: candidates_ok_iff happened_def)
qed

definition example_candidate :: ResumeCandidate where
  "example_candidate = \<lparr>rc_token = ''0123456789abcdef0123456789abcdef'', rc_campaign = ''helgen''\<rparr>"

definition example_resume :: "ResumeOp list" where
  "example_resume = [RsReplace [example_candidate], RsSelect (rc_token example_candidate), RsAccept ''helgen'',
     RsObserve ''helgen'' kCampaignWireRuntimeActive True 2 2]"

theorem resume_progress_is_earned_witness:
  "\<exists>c. c \<in> set (rs_candidates (run_ops resume_perform new_resume example_resume)) \<and>
     subseq [RsSelect (rc_token c), RsAccept (rc_campaign c)] example_resume"
proof -
  have "in_session (rs_phase (run_ops resume_perform new_resume example_resume))" by code_simp
  from resume_progress_is_earned [OF refl this] show ?thesis by blast
qed

text \<open>
  The recovery screen stays consistent whatever happens: it shows something only of a campaign
  that was seen active, in a roster with exactly one local player, and a way to the main menu is
  dispatched only while the player asked for it in a disconnect incident.
\<close>

theorem recovery_screen_consistent:
  "ui_wf (run_ops ui_perform new_recovery_ui xs)"
  by (rule recovery_ui.run_wf) (simp add: ui_wf_def new_recovery_ui_def)

end
