(* ===== verification/ClientPolicies.thy ===== *)
theory ClientPolicies
  imports Histories "HOL-Library.Char_ord"
begin

text \<open>
  Who may load and save during a campaign: \<open>campaign_client/CampaignLoadPolicy\<close>,
  \<open>CampaignContinueLoad\<close>, \<open>CampaignLoadUiProjection.h\<close> and \<open>CampaignSavePolicy\<close>, with the
  provenance of a quick save that is followed through the request queue of the game. The
  thread-local variables of the latter are a function from threads, its map is shared under a mutex.
\<close>

section \<open>Loading\<close>

datatype LoadTarget = Ordinary | CampaignTarget | UnknownTarget
datatype LoadAuthority = PlayerAuthority | InternalRecovery
datatype LoadDecision =
    AllowVanillaLoad | AllowInternalRecovery | BeginResumeRequired | BlockPlayerLoad
  | BlockUnprovenCampaignTarget

record LoadContext =
  lc_target :: LoadTarget
  lc_authority :: LoadAuthority
  lc_exact_correlation :: bool
  lc_runtime_sensitive :: bool
  lc_target_proof_required :: bool
  lc_reserved_name :: bool

definition evaluate_load_policy :: "LoadContext \<Rightarrow> LoadDecision" where
  "evaluate_load_policy c =
     (if lc_authority c = InternalRecovery
      then (if lc_exact_correlation c then AllowInternalRecovery else BlockUnprovenCampaignTarget)
      else if lc_runtime_sensitive c then BlockPlayerLoad
      else if lc_target_proof_required c \<and> lc_target c = UnknownTarget then BlockUnprovenCampaignTarget
      else if lc_target c = CampaignTarget then BeginResumeRequired
      else if lc_reserved_name c then BlockUnprovenCampaignTarget
      else AllowVanillaLoad)"

datatype LoadUiAction = ForwardNative | ConsumeAndCloseJournal | ConsumeAndRebuildMainMenu
datatype LoadUiHost = UiNone | Journal | MainMenu

definition project_load_ui_action :: "LoadDecision \<Rightarrow> LoadUiHost \<Rightarrow> LoadUiAction" where
  "project_load_ui_action d host =
     (if d \<noteq> BlockPlayerLoad \<and> d \<noteq> BlockUnprovenCampaignTarget then ForwardNative
      else if host = MainMenu then ConsumeAndRebuildMainMenu else ConsumeAndCloseJournal)"

section \<open>The Continue action of the main menu\<close>

datatype ContinuePhase = ContinueIdle | PendingNativeTransition | NativeTransitionAccepted

record ContinueTransition =
  ct_identity :: string
  ct_phase :: ContinuePhase

definition ct_cancel :: "ContinueTransition \<Rightarrow> ContinueTransition" where
  "ct_cancel t = t\<lparr>ct_identity := [], ct_phase := ContinueIdle\<rparr>"

definition ct_begin :: "string \<Rightarrow> ContinueTransition \<Rightarrow> ContinueTransition \<times> bool" where
  "ct_begin identity t =
     (let t = ct_cancel t in
      if identity = [] then (t, False)
      else (t\<lparr>ct_identity := identity, ct_phase := PendingNativeTransition\<rparr>, True))"

definition ct_observe_native_result :: "bool \<Rightarrow> ContinueTransition \<Rightarrow> ContinueTransition \<times> bool" where
  "ct_observe_native_result accepted t =
     (if ct_phase t \<noteq> PendingNativeTransition then (t, False)
      else if \<not> accepted then (ct_cancel t, False)
      else (t\<lparr>ct_phase := NativeTransitionAccepted\<rparr>, True))"

definition ct_commit_main_menu_closed :: "ContinueTransition \<Rightarrow> ContinueTransition \<times> string option" where
  "ct_commit_main_menu_closed t =
     (if ct_phase t \<noteq> NativeTransitionAccepted then (t, None) else (ct_cancel t, Some (ct_identity t)))"

datatype ContinueOp = CtBegin string | CtResult bool | CtMenuClosed | CtCancel

fun continue_perform :: "ContinueTransition \<Rightarrow> ContinueOp \<Rightarrow> ContinueTransition \<times> string option" where
  "continue_perform t (CtBegin i) = (fst (ct_begin i t), None)"
| "continue_perform t (CtResult b) = (fst (ct_observe_native_result b t), None)"
| "continue_perform t CtMenuClosed = ct_commit_main_menu_closed t"
| "continue_perform t CtCancel = (ct_cancel t, None)"

lemmas continue_defs = ct_begin_def ct_cancel_def ct_observe_native_result_def ct_commit_main_menu_closed_def

definition new_continue :: ContinueTransition where
  "new_continue = \<lparr>ct_identity = [], ct_phase = ContinueIdle\<rparr>"

text \<open>What a continue in progress has behind it.\<close>

definition continue_past :: "ContinueOp list \<Rightarrow> ContinueTransition \<Rightarrow> bool" where
  "continue_past xs t \<longleftrightarrow>
     (case ct_phase t of
        ContinueIdle \<Rightarrow> ct_identity t = []
      | PendingNativeTransition \<Rightarrow> ct_identity t \<noteq> [] \<and>
          since (CtBegin (ct_identity t)) (insert CtCancel (range CtBegin)) xs
      | NativeTransitionAccepted \<Rightarrow> ct_identity t \<noteq> [] \<and>
          since (CtBegin (ct_identity t)) (insert CtCancel (range CtBegin)) xs \<and>
          happened [CtResult True, CtBegin (ct_identity t)] xs)"

lemma since_happened: "since x kills xs \<Longrightarrow> happened [x] xs"
  by (auto simp: since_def happened_def)

interpretation continue_history: recorded_machine continue_perform new_continue continue_past
proof unfold_locales
  show "continue_past (xs @ [x]) (fst (continue_perform t x))" if "continue_past xs t" for xs t x
    using that
    by (cases x; cases "ct_phase t")
      (auto simp: continue_past_def continue_defs intro: since_now since_later happened_later
        intro!: happened_now since_happened)
qed (simp add: continue_past_def new_continue_def)

text \<open>One load request of the menu, recognized by its ancestry; 0 is no request.\<close>

record ContinueAttempt =
  ca_root :: u64
  ca_claimed :: bool

record ContinueClaim =
  cc_identity :: string
  cc_readable :: bool

definition ends_with :: "string \<Rightarrow> string \<Rightarrow> bool" where
  "ends_with s e \<longleftrightarrow> length e \<le> length s \<and> drop (length s - length e) s = e"

definition starts_with :: "string \<Rightarrow> string \<Rightarrow> bool" where
  "starts_with s p \<longleftrightarrow> take (length p) s = p"

text \<open>The file name of a save without its extension; \<open>None\<close> is failure with a cleared result.\<close>

definition normalize_native_save_identity :: "string \<Rightarrow> string option" where
  "normalize_native_save_identity target =
     (let ess = ''.ess'' in
      if length target \<le> length ess \<or> \<not> ends_with target ess \<or>
         CHR ''/'' \<in> set target \<or> CHR 0x5C \<in> set target
      then None
      else let stem = take (length target - length ess) target in
        if stem = [] then None else Some stem)"

definition ca_begin :: "u64 \<Rightarrow> ContinueAttempt \<Rightarrow> ContinueAttempt" where
  "ca_begin root a = a\<lparr>ca_root := root, ca_claimed := False\<rparr>"

definition ca_claim_target ::
    "u64 \<Rightarrow> u64 \<Rightarrow> u64 \<Rightarrow> bool \<Rightarrow> string \<Rightarrow> bool \<Rightarrow> ContinueAttempt \<Rightarrow> ContinueAttempt \<times> ContinueClaim option" where
  "ca_claim_target root parent request exact_type target readable a =
     (if ca_root a = 0 \<or> root \<noteq> ca_root a \<or> parent \<noteq> ca_root a \<or> request = 0 \<or> request = ca_root a \<or>
         \<not> exact_type \<or> ca_claimed a
      then (a, None)
      else (a\<lparr>ca_claimed := True\<rparr>,
        Some (if readable
              then (case normalize_native_save_identity target of
                      None \<Rightarrow> \<lparr>cc_identity = [], cc_readable = False\<rparr>
                    | Some i \<Rightarrow> \<lparr>cc_identity = i, cc_readable = True\<rparr>)
              else \<lparr>cc_identity = [], cc_readable = False\<rparr>)))"

definition ca_complete :: "u64 \<Rightarrow> ContinueAttempt \<Rightarrow> ContinueAttempt" where
  "ca_complete root a = (if root \<noteq> ca_root a then a else a\<lparr>ca_root := 0, ca_claimed := False\<rparr>)"

definition ca_is_active :: "u64 \<Rightarrow> ContinueAttempt \<Rightarrow> bool" where
  "ca_is_active root a \<longleftrightarrow> root \<noteq> 0 \<and> root = ca_root a \<and> \<not> ca_claimed a"

definition evaluate_continue_load :: "ContinueClaim \<Rightarrow> LoadTarget \<Rightarrow> bool \<Rightarrow> LoadDecision" where
  "evaluate_continue_load claim classified sensitive =
     evaluate_load_policy
       \<lparr>lc_target = (if cc_readable claim then classified else UnknownTarget),
        lc_authority = PlayerAuthority, lc_exact_correlation = False, lc_runtime_sensitive = sensitive,
        lc_target_proof_required = \<not> cc_readable claim,
        lc_reserved_name = (cc_readable claim \<and> starts_with (cc_identity claim) ''stre-'')\<rparr>"

section \<open>Saving\<close>

datatype SaveOrigin = ManualSave | QuickSave | AutoSave | UnknownSave
datatype SaveRuntime = Sv_Unavailable | Sv_WaitingForRoster | Sv_Active | Sv_Checkpointing | Sv_RecoveryLock | Sv_Restoring
datatype SaveDecision =
    AllowVanillaSave | AllowInternalCheckpoint | RequestCollectiveCheckpoint | CoalesceWithCheckpoint
  | BlockAutosave | BlockUnavailable | BlockUnknown

record SaveContext =
  sc_in_campaign :: bool
  sc_fenced :: bool
  sc_internal :: bool
  sc_runtime :: SaveRuntime

text \<open>\<open>std::tolower\<close> of the C locale.\<close>

definition lower_case :: "char \<Rightarrow> char" where
  "lower_case c = (if CHR ''A'' \<le> c \<and> c \<le> CHR ''Z'' then char_of (of_char c + 32 :: nat) else c)"

definition starts_with_insensitive :: "string \<Rightarrow> string \<Rightarrow> bool" where
  "starts_with_insensitive s p \<longleftrightarrow>
     length p \<le> length s \<and> map lower_case (take (length p) s) = map lower_case p"

definition classify_native_save_name :: "string \<Rightarrow> SaveOrigin" where
  "classify_native_save_name s =
     (if starts_with_insensitive s ''quicksave'' then QuickSave
      else if starts_with_insensitive s ''autosave'' then AutoSave
      else if starts_with_insensitive s ''save'' then ManualSave
      else UnknownSave)"

definition evaluate_save_policy :: "SaveOrigin \<Rightarrow> SaveContext \<Rightarrow> SaveDecision" where
  "evaluate_save_policy origin c =
     (if sc_internal c then AllowInternalCheckpoint
      else if \<not> sc_in_campaign c then AllowVanillaSave
      else if origin = AutoSave then BlockAutosave
      else if origin = UnknownSave then BlockUnknown
      else if sc_fenced c then BlockUnavailable
      else if sc_runtime c = Sv_Active then RequestCollectiveCheckpoint
      else if sc_runtime c = Sv_Checkpointing then CoalesceWithCheckpoint
      else BlockUnavailable)"

section \<open>The provenance of a save\<close>

datatype QuickState = Queued | Popped
type_synonym Request = u64

record SaveThread =
  st_internal_depth :: u32
  st_quick_depth :: u32
  st_manual_depth :: u32
  st_manual_consumed :: bool
  st_armed :: Request

record Provenance =
  pv_threads :: "nat \<Rightarrow> SaveThread"
  pv_requests :: "(Request \<times> QuickState) list"

definition new_save_thread :: SaveThread where
  "new_save_thread = \<lparr>st_internal_depth = 0, st_quick_depth = 0, st_manual_depth = 0,
     st_manual_consumed = False, st_armed = 0\<rparr>"

definition new_provenance :: Provenance where
  "new_provenance = \<lparr>pv_threads = (\<lambda>_. new_save_thread), pv_requests = []\<rparr>"

definition on_thread :: "nat \<Rightarrow> (SaveThread \<Rightarrow> SaveThread) \<Rightarrow> Provenance \<Rightarrow> Provenance" where
  "on_thread t f p = p\<lparr>pv_threads := (pv_threads p)(t := f (pv_threads p t))\<rparr>"

definition QuickRequestOperationCode :: u32 where "QuickRequestOperationCode = 0xF0000200"

definition clear_armed_quick_request :: "nat \<Rightarrow> Provenance \<Rightarrow> Provenance" where
  "clear_armed_quick_request t p =
     (let armed = st_armed (pv_threads p t) in
      if armed = 0 then p
      else on_thread t (\<lambda>s. s\<lparr>st_armed := 0\<rparr>)
        (if map_of (pv_requests p) armed = Some Popped
         then p\<lparr>pv_requests := AList.delete armed (pv_requests p)\<rparr> else p))"

definition disarm :: "nat \<Rightarrow> Request \<Rightarrow> Provenance \<Rightarrow> Provenance" where
  "disarm t r p = (if st_armed (pv_threads p t) = r then on_thread t (\<lambda>s. s\<lparr>st_armed := 0\<rparr>) p else p)"

definition observe_quick_request_push :: "nat \<Rightarrow> Request \<Rightarrow> u32 \<Rightarrow> bool \<Rightarrow> Provenance \<Rightarrow> Provenance" where
  "observe_quick_request_push t r code succeeded p =
     (if r = 0 then p
      else if \<not> succeeded \<or> code \<noteq> QuickRequestOperationCode
      then disarm t r (p\<lparr>pv_requests := AList.delete r (pv_requests p)\<rparr>)
      else if map_of (pv_requests p) r \<noteq> None
      then disarm t r (p\<lparr>pv_requests := AList.update r Queued (pv_requests p)\<rparr>)
      else if st_quick_depth (pv_threads p t) \<noteq> 0
      then p\<lparr>pv_requests := AList.update r Queued (pv_requests p)\<rparr>
      else p)"

definition observe_quick_request_pop :: "nat \<Rightarrow> Request \<Rightarrow> u32 \<Rightarrow> Provenance \<Rightarrow> Provenance" where
  "observe_quick_request_pop t r code p =
     (let p = clear_armed_quick_request t p in
      if r = 0 then p
      else case map_of (pv_requests p) r of
        None \<Rightarrow> p
      | Some _ \<Rightarrow>
          if code \<noteq> QuickRequestOperationCode then p\<lparr>pv_requests := AList.delete r (pv_requests p)\<rparr>
          else on_thread t (\<lambda>s. s\<lparr>st_armed := r\<rparr>) (p\<lparr>pv_requests := AList.update r Popped (pv_requests p)\<rparr>))"

definition consume_provenance :: "nat \<Rightarrow> Provenance \<Rightarrow> Provenance \<times> SaveOrigin option" where
  "consume_provenance t p =
     (let s = pv_threads p t in
      if st_manual_depth s \<noteq> 0 \<and> \<not> st_manual_consumed s
      then (on_thread t (\<lambda>s. s\<lparr>st_manual_consumed := True\<rparr>) p, Some ManualSave)
      else if st_armed s = 0 then (p, None)
      else if map_of (pv_requests p) (st_armed s) \<noteq> Some Popped
      then (on_thread t (\<lambda>s. s\<lparr>st_armed := 0\<rparr>) p, None)
      else (on_thread t (\<lambda>s. s\<lparr>st_armed := 0\<rparr>) (p\<lparr>pv_requests := AList.delete (st_armed s) (pv_requests p)\<rparr>),
            Some QuickSave))"

definition finish_quick_process_boundary :: "nat \<Rightarrow> Provenance \<Rightarrow> Provenance" where
  "finish_quick_process_boundary t p = clear_armed_quick_request t p"

text \<open>The scopes: entering is the constructor, leaving the destructor of each class.\<close>

definition enter_quick_action :: "nat \<Rightarrow> bool \<Rightarrow> Provenance \<Rightarrow> Provenance" where
  "enter_quick_action t actionable p =
     (if actionable then on_thread t (\<lambda>s. s\<lparr>st_quick_depth := st_quick_depth s + 1\<rparr>) p else p)"

definition leave_quick_action :: "nat \<Rightarrow> bool \<Rightarrow> Provenance \<Rightarrow> Provenance" where
  "leave_quick_action t active p =
     (if active \<and> st_quick_depth (pv_threads p t) \<noteq> 0
      then on_thread t (\<lambda>s. s\<lparr>st_quick_depth := st_quick_depth s - 1\<rparr>) p else p)"

definition enter_manual_new_slot :: "nat \<Rightarrow> Provenance \<Rightarrow> Provenance" where
  "enter_manual_new_slot t p =
     on_thread t (\<lambda>s. s\<lparr>st_manual_depth := st_manual_depth s + 1,
       st_manual_consumed := (if st_manual_depth s = 0 then False else st_manual_consumed s)\<rparr>) p"

definition leave_manual_new_slot :: "nat \<Rightarrow> Provenance \<Rightarrow> Provenance" where
  "leave_manual_new_slot t p =
     (if st_manual_depth (pv_threads p t) = 0 then p
      else on_thread t (\<lambda>s. s\<lparr>st_manual_depth := st_manual_depth s - 1,
        st_manual_consumed := (if st_manual_depth s - 1 = 0 then False else st_manual_consumed s)\<rparr>) p)"

definition enter_checkpoint_save :: "nat \<Rightarrow> Provenance \<Rightarrow> Provenance" where
  "enter_checkpoint_save t p = on_thread t (\<lambda>s. s\<lparr>st_internal_depth := st_internal_depth s + 1\<rparr>) p"

definition leave_checkpoint_save :: "nat \<Rightarrow> Provenance \<Rightarrow> Provenance" where
  "leave_checkpoint_save t p =
     (if st_internal_depth (pv_threads p t) = 0 then p
      else on_thread t (\<lambda>s. s\<lparr>st_internal_depth := st_internal_depth s - 1\<rparr>) p)"

definition checkpoint_save_active :: "nat \<Rightarrow> Provenance \<Rightarrow> bool" where
  "checkpoint_save_active t p \<longleftrightarrow> st_internal_depth (pv_threads p t) \<noteq> 0"

datatype SaveOp =
    EnterQuick nat bool | LeaveQuick nat bool | EnterManual nat | LeaveManual nat
  | EnterCheckpoint nat | LeaveCheckpoint nat | QuickPush nat Request u32 bool | QuickPop nat Request u32
  | Consume nat | FinishBoundary nat

fun save_perform :: "Provenance \<Rightarrow> SaveOp \<Rightarrow> Provenance \<times> SaveOrigin option" where
  "save_perform p (EnterQuick t b) = (enter_quick_action t b p, None)"
| "save_perform p (LeaveQuick t b) = (leave_quick_action t b p, None)"
| "save_perform p (EnterManual t) = (enter_manual_new_slot t p, None)"
| "save_perform p (LeaveManual t) = (leave_manual_new_slot t p, None)"
| "save_perform p (EnterCheckpoint t) = (enter_checkpoint_save t p, None)"
| "save_perform p (LeaveCheckpoint t) = (leave_checkpoint_save t p, None)"
| "save_perform p (QuickPush t r code b) = (observe_quick_request_push t r code b p, None)"
| "save_perform p (QuickPop t r code) = (observe_quick_request_pop t r code p, None)"
| "save_perform p (Consume t) = consume_provenance t p"
| "save_perform p (FinishBoundary t) = (finish_quick_process_boundary t p, None)"

section \<open>Where a quick save comes from\<close>

text \<open>The first steps of a request: pushed by a thread inside an actionable quick save.\<close>

definition pushed :: "(SaveOp list \<Rightarrow> bool) \<Rightarrow> Request \<Rightarrow> bool" where
  "pushed H r \<longleftrightarrow> (\<exists>t. H [QuickPush t r QuickRequestOperationCode True, EnterQuick t True])"

definition popped_by :: "(SaveOp list \<Rightarrow> bool) \<Rightarrow> nat \<Rightarrow> Request \<Rightarrow> bool" where
  "popped_by H t r \<longleftrightarrow> (\<exists>u. H [QuickPop t r QuickRequestOperationCode,
     QuickPush u r QuickRequestOperationCode True, EnterQuick u True])"

definition provenance_known :: "(SaveOp list \<Rightarrow> bool) \<Rightarrow> Provenance \<Rightarrow> bool" where
  "provenance_known H p \<longleftrightarrow> distinct (map fst (pv_requests p)) \<and>
     (\<forall>r q. map_of (pv_requests p) r = Some q \<longrightarrow> pushed H r) \<and>
     (\<forall>t. st_quick_depth (pv_threads p t) \<noteq> 0 \<longrightarrow> H [EnterQuick t True]) \<and>
     (\<forall>t. st_armed (pv_threads p t) \<noteq> 0 \<longrightarrow> popped_by H t (st_armed (pv_threads p t)))"

lemma known_later:
  assumes "provenance_known H p" and "\<And>s. H s \<Longrightarrow> H' s"
  shows "provenance_known H' p"
  using assms(1) unfolding provenance_known_def pushed_def popped_by_def by (blast intro: assms(2))

lemma known_delete: "provenance_known H p \<Longrightarrow> provenance_known H (p\<lparr>pv_requests := AList.delete r (pv_requests p)\<rparr>)"
  by (auto simp: provenance_known_def al_simps)

lemma known_update:
  "provenance_known H p \<Longrightarrow> pushed H r \<Longrightarrow> provenance_known H (p\<lparr>pv_requests := AList.update r q (pv_requests p)\<rparr>)"
  by (auto simp: provenance_known_def al_simps split: if_splits)

lemma known_thread:
  "provenance_known H p \<Longrightarrow>
     (st_quick_depth (f (pv_threads p t)) \<noteq> 0 \<Longrightarrow> H [EnterQuick t True]) \<Longrightarrow>
     (st_armed (f (pv_threads p t)) \<noteq> 0 \<Longrightarrow> popped_by H t (st_armed (f (pv_threads p t)))) \<Longrightarrow>
     provenance_known H (on_thread t f p)"
  by (auto simp: provenance_known_def on_thread_def)

lemma known_depth: "provenance_known H p \<Longrightarrow> st_quick_depth (pv_threads p t) \<noteq> 0 \<Longrightarrow> H [EnterQuick t True]"
  by (simp add: provenance_known_def)

lemma known_armed:
  "provenance_known H p \<Longrightarrow> st_armed (pv_threads p t) \<noteq> 0 \<Longrightarrow> popped_by H t (st_armed (pv_threads p t))"
  by (simp add: provenance_known_def)

lemma known_request: "provenance_known H p \<Longrightarrow> map_of (pv_requests p) r = Some q \<Longrightarrow> pushed H r"
  by (simp add: provenance_known_def)

lemma known_clear: "provenance_known H p \<Longrightarrow> provenance_known H (clear_armed_quick_request t p)"
  unfolding clear_armed_quick_request_def
  by (auto intro!: known_thread known_delete dest: known_depth)

lemma known_disarm: "provenance_known H p \<Longrightarrow> provenance_known H (disarm t r p)"
  unfolding disarm_def by (auto intro!: known_thread dest: known_depth)

lemma known_thread_kept:
  assumes "provenance_known H p" and "st_armed (f (pv_threads p t)) \<in> {0, st_armed (pv_threads p t)}"
    and "st_quick_depth (f (pv_threads p t)) \<noteq> 0 \<Longrightarrow> st_quick_depth (pv_threads p t) \<noteq> 0"
  shows "provenance_known H (on_thread t f p)"
  using assms(2) by (intro known_thread [OF assms(1)]) (auto dest: assms(3) known_depth [OF assms(1)] known_armed [OF assms(1)])

lemma known_step:
  assumes ok: "provenance_known H p" and later: "\<And>s. H s \<Longrightarrow> H' s" and none: "H []"
    and now: "\<And>s. H s \<Longrightarrow> H' (x # s)"
  shows "provenance_known H' (fst (save_perform p x))"
proof -
  have kept: "provenance_known H' p" by (rule known_later [OF ok]) (rule later)
  show ?thesis
  proof (cases x)
    case (EnterQuick t b)
    with kept now [OF none] show ?thesis
      by (auto simp: enter_quick_action_def intro!: known_thread [OF kept] known_armed [OF kept])
  next
    case (LeaveQuick t b)
    with kept show ?thesis by (auto simp: leave_quick_action_def intro!: known_thread_kept)
  next
    case (EnterManual t)
    with kept show ?thesis by (auto simp: enter_manual_new_slot_def intro!: known_thread_kept)
  next
    case (LeaveManual t)
    with kept show ?thesis by (auto simp: leave_manual_new_slot_def intro!: known_thread_kept)
  next
    case (EnterCheckpoint t)
    with kept show ?thesis by (auto simp: enter_checkpoint_save_def intro!: known_thread_kept)
  next
    case (LeaveCheckpoint t)
    with kept show ?thesis by (auto simp: leave_checkpoint_save_def intro!: known_thread_kept)
  next
    case (QuickPush t r code b)
    have "pushed H' r" if "b" "code = QuickRequestOperationCode" "st_quick_depth (pv_threads p t) \<noteq> 0"
      using now [OF known_depth [OF ok that(3)]] that(1,2) QuickPush by (auto simp: pushed_def)
    with kept QuickPush show ?thesis
      by (auto simp: observe_quick_request_push_def intro!: known_disarm known_delete known_update
          dest: known_request [OF kept])
  next
    case (QuickPop t r code)
    let ?p = "clear_armed_quick_request t p"
    have kept': "provenance_known H' ?p" by (rule known_clear [OF kept])
    have popped: "popped_by H' t r" if "map_of (pv_requests ?p) r = Some q" "code = QuickRequestOperationCode" for q
      using known_request [OF known_clear [OF ok] that(1)] now that(2) QuickPop
      by (auto simp: pushed_def popped_by_def)
    show ?thesis
    proof (cases "map_of (pv_requests ?p) r")
      case None
      with kept' QuickPop show ?thesis by (simp add: observe_quick_request_pop_def)
    next
      case (Some q)
      have "provenance_known H' (on_thread t (\<lambda>s. s\<lparr>st_armed := r\<rparr>) (?p\<lparr>pv_requests := AList.update r Popped (pv_requests ?p)\<rparr>))"
        if "code = QuickRequestOperationCode"
        using popped [OF Some that] known_request [OF kept' Some]
        by (intro known_thread known_update kept') (auto intro: known_depth [OF kept'])
      with Some kept' QuickPop show ?thesis
        by (auto simp: observe_quick_request_pop_def intro: known_delete)
    qed
  next
    case (Consume t)
    have "provenance_known H' (on_thread t (\<lambda>s. s\<lparr>st_armed := 0\<rparr>) p')" if "provenance_known H' p'" for p'
      using that by (auto intro!: known_thread_kept)
    moreover have "provenance_known H' (on_thread t (\<lambda>s. s\<lparr>st_manual_consumed := True\<rparr>) p)"
      using kept by (auto intro!: known_thread_kept)
    ultimately show ?thesis using kept Consume
      by (auto simp: consume_provenance_def intro: known_delete)
  next
    case (FinishBoundary t)
    with known_clear [OF kept] show ?thesis by (simp add: finish_quick_process_boundary_def)
  qed
qed

interpretation save_history: recorded_machine save_perform new_provenance "\<lambda>xs. provenance_known (\<lambda>s. happened s xs)"
proof unfold_locales
  show "provenance_known (\<lambda>s. happened s []) new_provenance"
    by (simp add: provenance_known_def new_provenance_def new_save_thread_def)
  show "provenance_known (\<lambda>s. happened s (xs @ [x])) (fst (save_perform p x))"
    if "provenance_known (\<lambda>s. happened s xs) p" for xs p x
    by (rule known_step [OF that]) (simp_all add: happened_later happened_now)
qed

lemma normalize_native_iff:
  "normalize_native_save_identity target = Some i \<longleftrightarrow>
     i \<noteq> [] \<and> target = i @ ''.ess'' \<and> CHR ''/'' \<notin> set target \<and> CHR 0x5C \<notin> set target"
proof
  assume "normalize_native_save_identity target = Some i"
  then have "length target > 4" "drop (length target - 4) target = ''.ess''" "i = take (length target - 4) target"
    "i \<noteq> []" "CHR ''/'' \<notin> set target" "CHR 0x5C \<notin> set target"
    by (auto simp: normalize_native_save_identity_def ends_with_def numeral_eq_Suc split: if_splits)
  then show "i \<noteq> [] \<and> target = i @ ''.ess'' \<and> CHR ''/'' \<notin> set target \<and> CHR 0x5C \<notin> set target"
    by (metis append_take_drop_id)
qed (auto simp: normalize_native_save_identity_def ends_with_def)

section \<open>Properties\<close>

text \<open>
  A save counts as a quick save only if it is one: whenever a thread is told so, some thread
  inside an actionable quick save action pushed the request to the game's queue and this thread
  then popped exactly that request.
\<close>

theorem quick_save_provenance:
  assumes "snd (save_perform (run_ops save_perform new_provenance xs) (Consume t)) = Some QuickSave"
  shows "\<exists>u r. subseq [EnterQuick u True, QuickPush u r QuickRequestOperationCode True,
      QuickPop t r QuickRequestOperationCode] xs"
proof -
  let ?p = "run_ops save_perform new_provenance xs"
  from assms have "st_armed (pv_threads ?p t) \<noteq> 0"
    by (auto simp: consume_provenance_def split: if_splits)
  from known_armed [OF save_history.run_past this] show ?thesis
    by (auto simp: popped_by_def happened_def)
qed

theorem quick_save_provenance_witness:
  "\<exists>u r. subseq [EnterQuick u True, QuickPush u r QuickRequestOperationCode True,
      QuickPop 2 r QuickRequestOperationCode]
     [EnterQuick 1 True, QuickPush 1 7 QuickRequestOperationCode True, LeaveQuick 1 True,
      QuickPop 2 7 QuickRequestOperationCode]"
proof (rule quick_save_provenance)
  show "snd (save_perform (run_ops save_perform new_provenance
     [EnterQuick 1 True, QuickPush 1 7 QuickRequestOperationCode True, LeaveQuick 1 True,
      QuickPop 2 7 QuickRequestOperationCode]) (Consume 2)) = Some QuickSave"
    by code_simp
qed

text \<open>
  The Continue action of the main menu is a load by the player: a claimed target is never
  allowed as an internal recovery, and it is let through to the game as an ordinary load only if it
  is a readable file name of a save outside the name space of campaign saves, it is not classified
  as a campaign save and no campaign is running.
\<close>

theorem continue_is_a_player_load:
  assumes "snd (ca_claim_target root parent request exact target readable a) = Some claim"
  shows "evaluate_continue_load claim classified sensitive \<noteq> AllowInternalRecovery \<and>
    (evaluate_continue_load claim classified sensitive = AllowVanillaLoad \<longrightarrow>
       readable \<and> target = cc_identity claim @ ''.ess'' \<and> CHR ''/'' \<notin> set target \<and>
       \<not> starts_with target ''stre-'' \<and> classified \<noteq> CampaignTarget \<and> \<not> sensitive)"
proof -
  let ?d = "evaluate_continue_load claim classified sensitive"
  have "?d \<noteq> AllowInternalRecovery" by (simp add: evaluate_continue_load_def evaluate_load_policy_def)
  moreover have "readable \<and> target = cc_identity claim @ ''.ess'' \<and> CHR ''/'' \<notin> set target \<and>
       \<not> starts_with target ''stre-'' \<and> classified \<noteq> CampaignTarget \<and> \<not> sensitive" if "?d = AllowVanillaLoad"
  proof -
    from that have ok: "cc_readable claim" "\<not> starts_with (cc_identity claim) ''stre-''" "classified \<noteq> CampaignTarget"
      "\<not> sensitive" by (auto simp: evaluate_continue_load_def evaluate_load_policy_def split: if_splits)
    from assms ok(1) obtain i where "readable" "normalize_native_save_identity target = Some i" "claim = \<lparr>cc_identity = i, cc_readable = True\<rparr>"
      by (auto simp: ca_claim_target_def split: if_splits option.splits)
    with ok show ?thesis by (auto simp: normalize_native_iff starts_with_def take_Cons' split: if_splits)
  qed
  ultimately show ?thesis by blast
qed
theorem continue_is_a_player_load_witness:
  "evaluate_continue_load \<lparr>cc_identity = ''Save1'', cc_readable = True\<rparr> Ordinary False \<noteq> AllowInternalRecovery \<and>
   \<not> starts_with ''Save1.ess'' ''stre-''"
proof -
  have "snd (ca_claim_target 1 1 2 True ''Save1.ess'' True \<lparr>ca_root = 1, ca_claimed = False\<rparr>) =
    Some \<lparr>cc_identity = ''Save1'', cc_readable = True\<rparr>" by code_simp
  moreover have "evaluate_continue_load \<lparr>cc_identity = ''Save1'', cc_readable = True\<rparr> Ordinary False = AllowVanillaLoad"
    by code_simp
  ultimately show ?thesis using continue_is_a_player_load by blast
qed

text \<open>
  A Continue commits to resuming a save only if the menu began with exactly that save, nothing
  cancelled it or began anew since, and the game accepted it before the menu closed.
\<close>

theorem continue_commit_is_earned:
  assumes "snd (continue_perform (run_ops continue_perform new_continue xs) CtMenuClosed) = Some i"
  shows "i \<noteq> [] \<and> since (CtBegin i) (insert CtCancel (range CtBegin)) xs \<and> subseq [CtBegin i, CtResult True] xs"
  using continue_history.run_past [of xs] assms
  by (auto simp: ct_commit_main_menu_closed_def continue_past_def happened_def split: if_splits)

theorem continue_commit_is_earned_witness:
  "since (CtBegin ''stre-k'') (insert CtCancel (range CtBegin)) [CtBegin ''old'', CtBegin ''stre-k'', CtResult True]"
  using continue_commit_is_earned [of "[CtBegin ''old'', CtBegin ''stre-k'', CtResult True]" "''stre-k''"]
  by (simp add: continue_defs new_continue_def)

end
