(* ===== verification/StoreProgress.thy ===== *)
theory StoreProgress
  imports RuntimeAggregate StoreOutbox
begin

text \<open>
  When a mutation goes through: the statements of \<open>apply_campaign_mutation\<close> violate no constraint of the
  schema, so that with a store that works and an unused mutation identity the mutation is committed.
  Together with what the mutation does (\<open>StoreEffects\<close>) this is total correctness of the store for the
  commands of the service.
\<close>

section \<open>Programs that go through\<close>

definition env_works :: "StoreEnv \<Rightarrow> bool" where
  "env_works env \<longleftrightarrow> (\<forall>n. \<not> env_io env n) \<and> (\<forall>stage. \<not> env_fault env stage)"

abbreviation goes :: "('e, 'a) sql \<Rightarrow> StoreEnv \<Rightarrow> nat \<times> Database \<Rightarrow> bool" where
  "goes m env s \<equiv> sql_holds m env s (\<lambda>_ _. True) (\<lambda>_. False)"

lemma goes_bind:
  assumes "goes m env (n, d)" "ends m env (n, d) P" "\<And>x n' d'. P x d' \<Longrightarrow> goes (k x) env (n', d')"
  shows "goes (sql_bind m k) env (n, d)"
proof -
  have "sql_holds m env (n, d) (\<lambda>x (n', d'). P x d') (\<lambda>_. False)"
    by (rule sql_holds_mono [OF sql_holds_conj [OF assms(1,2)]]) auto
  then show ?thesis
    unfolding sql_holds_bind by (rule sql_holds_mono) (auto intro: assms(3))
qed

lemma ends_both:
  "ends m env s P \<Longrightarrow> ends m env s Q \<Longrightarrow> ends m env s (\<lambda>x d. P x d \<and> Q x d)"
  by (drule (1) sql_holds_conj) (erule sql_holds_mono, auto)

lemma goes_basic [simp]:
  "goes (sql_ret x) env s" "goes (sql_require b e) env s \<longleftrightarrow> b"
  "env_works env \<Longrightarrow> goes (inject_fault stage) env s"
  by (simp_all add: sql_wp env_works_def)

lemma goes_query: "env_works env \<Longrightarrow> goes (query q) env (n, d)"
  by (simp add: sql_wp env_works_def)

lemma goes_step:
  "env_works env \<Longrightarrow> u d = Inr x \<Longrightarrow> goes (step_done u) env (n, d)"
  "env_works env \<Longrightarrow> u d = Inr x \<Longrightarrow> goes (step_only u) env (n, d)"
  by (auto simp: step_only_def step_done_def sql_wp env_works_def split: prod.split)

lemma goes_unviolated: "env_works env \<Longrightarrow> \<not> isl (u d) \<Longrightarrow> goes (step_only u) env (n, d)"
  by (cases "u d") (auto intro: goes_step(2))

lemma ends_True: "ends m env s (\<lambda>_ _. True)"
  by (simp add: sql_holds_def split: sum.split prod.split)

section \<open>The tables around a campaign\<close>

text \<open>What besides the view of a campaign decides whether a statement goes through.\<close>

definition around :: "Database \<Rightarrow> string list \<times> OutboxRow list \<times> ((string \<times> string) \<times> CheckpointSlotRecord) list" where
  "around d = (map cr_id (t_campaigns d), t_outbox d, t_checkpoint_slots d)"

lemma around_update:
  assumes "update_campaign i g f d = Inr (rows, d')" "\<And>c. cr_id (f c) = cr_id c"
  shows "around d' = around d"
  using assms by (auto simp: update_campaign_def around_def Let_def split: if_splits)

lemma leaves_around_write:
  "leaves around (replace_roster_rows i roster)" "leaves around (set_core_state i version payload)"
  "leaves around (set_sealed i flag)" "leaves around (step_only (delete_build i slot))"
  "leaves around (step_only (delete_adapter i a))" "leaves around (append_journal i m e v k g w p now cp cv)"
  "leaves around (update_campaign_revision i e v now)"
  unfolding replace_roster_rows_def set_core_state_def set_sealed_def append_journal_def update_campaign_revision_def
    insert_slot_def
  by (intro leaves_intros leaves_step_only leaves_step;
      auto simp: around_def delete_builds_def delete_slots_def insert_slot_row_def delete_build_def delete_adapter_def
        insert_journal_def Let_def dest!: around_update [unfolded around_def] split: if_splits)+

lemma find_campaign_row: "find_campaign i d = Some c \<Longrightarrow> distinct (map cr_id (t_campaigns d)) \<Longrightarrow>
    filter (\<lambda>c. cr_id c = i) (t_campaigns d) = [c]"
proof -
  have "find (\<lambda>c. cr_id c = i) cs = Some c \<Longrightarrow> distinct (map cr_id cs) \<Longrightarrow> filter (\<lambda>c. cr_id c = i) cs = [c]" for cs
    by (induction cs) (auto simp: filter_empty_conv image_iff split: if_splits)
  then show "find_campaign i d = Some c \<Longrightarrow> distinct (map cr_id (t_campaigns d)) \<Longrightarrow>
      filter (\<lambda>c. cr_id c = i) (t_campaigns d) = [c]"
    by (simp add: find_campaign_def)
qed

lemma update_goes:
  assumes "find_campaign i d = Some c" "distinct (map cr_id (t_campaigns d))" "g c"
    and "cr_revision (f c) \<le> kMaximumRevision" "\<not> sint (cr_codec_version (f c)) \<le> 0" "cr_payload (f c) \<noteq> []"
  shows "\<exists>d'. update_campaign i g f d = Inr (1, d')"
proof -
  have "filter (\<lambda>c. cr_id c = i \<and> g c) (t_campaigns d) = filter g (filter (\<lambda>c. cr_id c = i) (t_campaigns d))"
    by (simp add: conj_commute)
  then have "filter (\<lambda>c. cr_id c = i \<and> g c) (t_campaigns d) = [c]"
    using find_campaign_row [OF assms(1,2)] assms(3) by simp
  then show ?thesis using assms(4-6) unfolding update_campaign_def Let_def by (simp del: filter_filter set_filter)
qed

section \<open>Replacing the roster\<close>

definition unique_slots :: "CampaignSlotRecord list \<Rightarrow> bool" where
  "unique_slots ss \<longleftrightarrow> distinct (map rec_slot ss) \<and> distinct (map rec_player ss) \<and> distinct (map rec_binding ss)"

lemma goes_insert_slots:
  assumes "env_works env" "find_campaign i d \<noteq> None" "unique_slots (slots_of i d @ ss)"
  shows "goes (sql_each (insert_slot i) ss) env (n, d)"
  using assms(2,3)
proof (induction ss arbitrary: n d)
  case (Cons s ss)
  have "\<not> (\<exists>(k, r) \<in> set (t_slots d). k = i \<and>
      (rec_slot r = rec_slot s \<or> rec_player r = rec_player s \<or> rec_binding r = rec_binding s))"
    using Cons.prems(2) by (auto simp: unique_slots_def slots_of_def image_iff)
  then have "insert_slot_row i s d = Inr (1, d\<lparr>t_slots := t_slots d @ [(i, s)]\<rparr>)"
    using Cons.prems(1) by (simp add: insert_slot_row_def)
  from goes_step(2) [of env "insert_slot_row i s", OF assms(1) this]
  have one: "goes (insert_slot i s) env (n, d)" by (simp add: insert_slot_def)
  have after: "ends (insert_slot i s) env (n, d)
      (\<lambda>_ d'. view i d' = ((find_campaign i d, slots_of i d @ [s], builds_of i d, adapters_of i d), rows_of i d))"
    using ends_insert_slots [of i "[s]" env n d] by (simp add: sql_wp)
  show ?case
    unfolding sql_each.simps
  proof (rule goes_bind [OF one after])
    fix n' d' assume "view i d' = ((find_campaign i d, slots_of i d @ [s], builds_of i d, adapters_of i d), rows_of i d)"
    then have "find_campaign i d' = find_campaign i d" "slots_of i d' = slots_of i d @ [s]"
      by (simp_all add: view_def contents_def)
    then show "goes (sql_each (insert_slot i) ss) env (n', d')" using Cons.IH Cons.prems by simp
  qed
qed simp

lemma goes_replace_roster:
  assumes env: "env_works env" and found: "find_campaign i d \<noteq> None"
    and roster: "\<And>ss. roster = Some ss \<Longrightarrow> unique_slots ss \<and> (\<forall>((k, c), s) \<in> set (t_checkpoint_slots d). c \<noteq> i)"
  shows "goes (replace_roster_rows i roster) env (n, d)"
proof (cases roster)
  case None
  then show ?thesis by (simp add: replace_roster_rows_def)
next
  case (Some ss)
  note unique = roster [OF Some]
  let ?d = "d\<lparr>t_builds := filter (\<lambda>r. br_campaign r \<noteq> i) (t_builds d)\<rparr>"
  let ?e = "?d\<lparr>t_slots := filter (\<lambda>(k, r). k \<noteq> i) (t_slots ?d)\<rparr>"
  have builds: "delete_builds i d = Inr (length (filter (\<lambda>r. br_campaign r = i) (t_builds d)), ?d)"
    by (simp add: delete_builds_def)
  have "\<not> (\<exists>(k, r) \<in> set (filter (\<lambda>(k, r). k = i) (t_slots ?d)).
      (\<exists>b \<in> set (t_builds ?d). build_key i (rec_slot r) b) \<or>
      (\<exists>((j, c), s) \<in> set (t_checkpoint_slots ?d). c = i \<and> cs_slot s = rec_slot r))"
    using unique by (auto simp: build_key_def)
  then have slots: "\<exists>n. delete_slots i ?d = Inr (n, ?e)"
    unfolding delete_slots_def Let_def by (simp only: if_False) simp
  then obtain n where slots: "delete_slots i ?d = Inr (n, ?e)" ..
  have "find_campaign i ?e \<noteq> None" "slots_of i ?e = []"
    using found by (auto simp: find_campaign_def slots_of_def filter_empty_conv)
  then have insert: "goes (sql_each (insert_slot i) ss) env (n', ?e)" for n'
    using unique by (intro goes_insert_slots [OF env]) simp_all
  have b: "ends (step_only (delete_builds i)) env (n, d) (\<lambda>_ d'. d' = ?d)" for n
    by (rule ends_step_only) (simp add: builds)
  have s: "ends (step_only (delete_slots i)) env (n, ?d) (\<lambda>_ d'. d' = ?e)" for n
    by (rule ends_step_only) (simp add: slots)
  show ?thesis
    unfolding replace_roster_rows_def Some option.case
    by (rule goes_bind [OF goes_step(2) [of env "delete_builds i", OF env builds] b], hypsubst,
        rule goes_bind [OF goes_step(2) [of env "delete_slots i", OF env slots] s], hypsubst, rule insert)
qed

section \<open>The core state, the seal and the revision\<close>

text \<open>What the database asks of a record that is updated.\<close>

definition row_fits :: "CampaignRecord \<Rightarrow> bool" where
  "row_fits c \<longleftrightarrow> cr_revision c \<le> kMaximumRevision \<and> \<not> sint (cr_codec_version c) \<le> 0 \<and> cr_payload c \<noteq> []"

lemma goes_update:
  assumes "env_works env" "view i d = ((Some c, x), y)" "distinct (map cr_id (t_campaigns d))" "g c" "row_fits (f c)"
  shows "goes (step_only (update_campaign i g f)) env (n, d)"
    "sql_holds (step_done (update_campaign i g f)) env (n, d) (\<lambda>rows _. rows = 1) (\<lambda>_. False)"
proof -
  obtain d' where run: "update_campaign i g f d = Inr (1, d')"
    using update_goes [of i d c g f] viewD(1) [OF assms(2)] assms(3-5) by (auto simp: row_fits_def)
  then show "goes (step_only (update_campaign i g f)) env (n, d)" by (rule goes_step(2) [OF assms(1)])
  show "sql_holds (step_done (update_campaign i g f)) env (n, d) (\<lambda>rows _. rows = 1) (\<lambda>_. False)"
    using assms(1) run by (simp add: step_done_def sql_wp env_works_def)
qed

lemma goes_set_core:
  assumes "env_works env" "view i d = ((Some c, x), y)" "distinct (map cr_id (t_campaigns d))"
    and "payload \<noteq> None \<Longrightarrow> row_fits (with_core version payload c)"
  shows "goes (set_core_state i version payload) env (n, d)"
proof (cases payload)
  case None
  then show ?thesis by (simp add: set_core_state_def)
next
  case (Some p)
  show ?thesis
    unfolding set_core_state_def Some option.case
    by (rule goes_update(1) [OF assms(1-3)]) (use assms(4) Some in \<open>simp_all add: with_core_def\<close>)
qed

lemma goes_set_sealed:
  assumes "env_works env" "view i d = ((Some c, x), y)" "distinct (map cr_id (t_campaigns d))"
    and "flag \<noteq> None \<Longrightarrow> row_fits c"
  shows "goes (set_sealed i flag) env (n, d)"
proof (cases flag)
  case None
  then show ?thesis by (simp add: set_sealed_def)
next
  case (Some b)
  show ?thesis
    unfolding set_sealed_def Some option.case
    by (rule goes_update(1) [OF assms(1-3)]) (use assms(4) Some in \<open>simp_all add: row_fits_def\<close>)
qed

lemma goes_revision:
  assumes "env_works env" "view i d = ((Some c, x), y)" "distinct (map cr_id (t_campaigns d))" "row_fits c"
    and "cr_revision c = expected" "v \<le> kMaximumRevision"
  shows "goes (update_campaign_revision i expected v now) env (n, d)"
  unfolding update_campaign_revision_def sql_holds_bind
  by (rule sql_holds_mono [OF goes_update(2) [OF assms(1-3)]])
    (use assms(4-6) in \<open>simp_all add: row_fits_def sql_wp\<close>)

section \<open>The journal and the outbox\<close>

definition row_recordable :: "u64 \<Rightarrow> u64 \<Rightarrow> u32 \<Rightarrow> Bytes \<Rightarrow> bool" where
  "row_recordable e v w p \<longleftrightarrow> e \<le> kMaximumRevision \<and> v \<noteq> 0 \<and> v \<le> kMaximumRevision \<and> \<not> sint w \<le> 0 \<and> p \<noteq> []"

lemma goes_journal:
  assumes "env_works env" "view i d = ((Some c, x), y)" "find (\<lambda>j. jr_mutation j = m) y = None" "row_recordable e v w p"
  shows "goes (append_journal i m e v k g w p now cp cv) env (n, d)"
proof -
  have "find_journaled i m d = None"
    using assms(3) viewD(3) [OF assms(2)] by (auto simp: find_journaled_def find_None_iff rows_of_def)
  then show ?thesis
    unfolding append_journal_def using assms(4) viewD(1) [OF assms(2)]
    by (intro goes_unviolated [OF assms(1)]) (simp add: insert_journal_def row_recordable_def not_less)
qed

definition sendable :: "OutboxIntent \<Rightarrow> bool" where
  "sendable intent \<longleftrightarrow> \<not> sint (oi_codec_version intent) \<le> 0 \<and> oi_payload intent \<noteq> []"

lemma goes_outbox:
  assumes "env_works env" "find_campaign i d \<noteq> None" "v \<noteq> 0" "v \<le> kMaximumRevision" "list_all sendable intents"
    and "\<forall>ob \<in> set (t_outbox d). \<not> (ob_campaign ob = i \<and> ob_mutation ob = m)"
  shows "goes (append_outbox i m v intents now) env (n, d)"
proof -
  have each: "goes (sql_each (\<lambda>(index, intent). step_only (insert_outbox \<lparr>ob_id = 0, ob_campaign = i, ob_mutation = m,
        ob_index = index, ob_revision = v, ob_codec_version = oi_codec_version intent, ob_payload = oi_payload intent,
        ob_state = OutboxPending, ob_superseded_by = None, ob_created = now, ob_delivered = None\<rparr>))
      (enumerate k intents)) env (n, d)"
    if "\<forall>ob \<in> set (t_outbox d). ob_campaign ob = i \<and> ob_mutation ob = m \<longrightarrow> ob_index ob < k"
      "find_campaign i d \<noteq> None" for k d n
    using that assms(5)
  proof (induction intents arbitrary: k d n)
    case (Cons intent intents)
    let ?row = "\<lparr>ob_id = 0, ob_campaign = i, ob_mutation = m, ob_index = k, ob_revision = v,
      ob_codec_version = oi_codec_version intent, ob_payload = oi_payload intent, ob_state = OutboxPending,
      ob_superseded_by = None, ob_created = now, ob_delivered = None\<rparr>"
    let ?d = "d\<lparr>t_outbox := t_outbox d @ [?row\<lparr>ob_id := Suc (last_outbox d)\<rparr>], last_outbox := Suc (last_outbox d)\<rparr>"
    have run: "insert_outbox ?row d = Inr (1, ?d)"
      using Cons.prems assms(3,4) by (auto simp: insert_outbox_def sendable_def)
    have rest: "ends (step_only (insert_outbox ?row)) env (n, d) (\<lambda>_ d'. d' = ?d)"
      by (rule ends_step_only) (simp add: run)
    have "goes (sql_each (\<lambda>(index, intent). step_only (insert_outbox \<lparr>ob_id = 0, ob_campaign = i, ob_mutation = m,
        ob_index = index, ob_revision = v, ob_codec_version = oi_codec_version intent, ob_payload = oi_payload intent,
        ob_state = OutboxPending, ob_superseded_by = None, ob_created = now, ob_delivered = None\<rparr>))
      (enumerate (Suc k) intents)) env (n', ?d)" for n'
      using Cons.prems by (intro Cons.IH) (auto simp: less_Suc_eq find_campaign_def)
    then show ?case
      unfolding enumerate_simps sql_each.simps prod.case
      by (intro goes_bind [OF goes_step(2) [of env "insert_outbox ?row", OF assms(1) run] rest]) simp
  qed simp
  show ?thesis unfolding append_outbox_def using assms(2,6) by (intro each) auto
qed

lemma goes_record:
  assumes env: "env_works env" and view: "view i d = ((Some c, x), y)" "find (\<lambda>j. jr_mutation j = m) y = None"
    and row: "row_recordable e v w p" and intents: "list_all sendable intents"
    and fresh: "\<forall>ob \<in> set (t_outbox d). \<not> (ob_campaign ob = i \<and> ob_mutation ob = m)"
  shows "goes (record_mutation (append_journal i m e v k g w p now cp cv) (append_outbox i m v intents now)) env (n, d)"
proof -
  have journal: "ends (append_journal i m e v k g w p now cp cv) env (n, d)
      (\<lambda>_ d'. find_campaign i d' \<noteq> None \<and> t_outbox d' = t_outbox d)"
    by (rule ends_mono [OF ends_both [OF ends_journal_entry ends_leaves [OF leaves_around_write(6)]]])
      (use viewD(1) [OF view(1)] in \<open>auto simp: view_def contents_def around_def\<close>)
  have here: "ends (inject_fault stage) env (n', d') (\<lambda>_ d''. d'' = d')" for stage n' d'
    by (simp add: sql_wp)
  show ?thesis
    unfolding record_mutation_def
  proof (rule goes_bind [OF goes_journal [OF env view row] journal], rule goes_bind [OF goes_basic(3) [OF env] here], hypsubst,
      rule goes_bind)
    fix n' d' assume after: "find_campaign i d' \<noteq> None \<and> t_outbox d' = t_outbox d"
    show "goes (append_outbox i m v intents now) env (n', d')"
      by (rule goes_outbox [OF env]) (use after row intents fresh in \<open>simp_all add: row_recordable_def\<close>)
    show "ends (append_outbox i m v intents now) env (n', d') (\<lambda>_ _. True)"
      by (rule ends_True)
    show "goes (sql_bind (inject_fault AfterOutbox) (\<lambda>_. inject_fault BeforeCommit)) env (n'', d'')" for n'' d''
      using env by (simp add: sql_wp env_works_def)
  qed
qed

section \<open>Applying a mutation\<close>

definition unused_mutation :: "string \<Rightarrow> string \<Rightarrow> Database \<Rightarrow> bool" where
  "unused_mutation i m d \<longleftrightarrow> find (\<lambda>j. jr_mutation j = m) (rows_of i d) = None \<and>
     (\<forall>ob \<in> set (t_outbox d). \<not> (ob_campaign ob = i \<and> ob_mutation ob = m))"

definition no_checkpoint_slots :: "string \<Rightarrow> Database \<Rightarrow> bool" where
  "no_checkpoint_slots i d \<longleftrightarrow> (\<forall>((k, c), s) \<in> set (t_checkpoint_slots d). c \<noteq> i)"

text \<open>A mutation that violates no constraint: of the seal, of the revision, or of the schema.\<close>

definition seal_fits :: "CampaignMutationRequest \<Rightarrow> CampaignRecord \<Rightarrow> bool" where
  "seal_fits r c \<longleftrightarrow> (cr_sealed c \<longrightarrow> amr_roster r = None \<and> amr_sealed r \<noteq> Some False) \<and>
     (amr_sealed r = Some True \<longrightarrow> (\<exists>s ss. amr_roster r = Some (s # ss)))"

definition apply_fits :: "CampaignMutationRequest \<Rightarrow> CampaignRecord \<Rightarrow> Database \<Rightarrow> bool" where
  "apply_fits r c d \<longleftrightarrow> find_campaign (amr_campaign r) d = Some c \<and> cr_revision c = amr_expected r \<and>
     (amr_advances r \<longrightarrow> amr_expected r < kMaximumRevision) \<and>
     (amr_core_payload r \<noteq> None \<or> amr_sealed r \<noteq> None \<or> amr_advances r \<longrightarrow>
        row_fits (with_core (amr_core_version r) (amr_core_payload r) c)) \<and> seal_fits r c \<and>
     distinct (map cr_id (t_campaigns d)) \<and> unused_mutation (amr_campaign r) (amr_mutation r) d \<and>
     (\<forall>ss. amr_roster r = Some ss \<longrightarrow> unique_slots ss \<and> no_checkpoint_slots (amr_campaign r) d) \<and>
     row_recordable (amr_expected r) (op_result (OpApply r)) (amr_codec_version r) (amr_payload r) \<and>
     list_all sendable (amr_outbox r)"

lemma goes_write:
  assumes env: "env_works env" and plain: "plain_request r" and fits: "apply_fits r c d"
  shows "goes (write_current_state r v) env (n, d)"
proof -
  let ?i = "amr_campaign r"
  let ?x = "snd (replaced_roster (amr_roster r) ?i d)"
  let ?y = "rows_of ?i d"
  have found: "find_campaign ?i d = Some c" and ids: "distinct (map cr_id (t_campaigns d))"
    and core: "amr_core_payload r \<noteq> None \<or> amr_sealed r \<noteq> None \<or> amr_advances r \<Longrightarrow>
      row_fits (with_core (amr_core_version r) (amr_core_payload r) c)"
    using fits by (simp_all add: apply_fits_def)
  have parts: "amr_build_upserts r = []" "amr_build_deletes r = []" "amr_adapter_upserts r = []"
    "amr_adapter_deletes r = []" using plain by (simp_all add: plain_request_def)
  have replace: "goes (replace_roster_rows ?i (amr_roster r)) env (n, d)"
    using fits found by (intro goes_replace_roster [OF env]) (simp_all add: apply_fits_def no_checkpoint_slots_def)
  have "replaced_roster roster ?i d = (Some c, snd (replaced_roster roster ?i d))" for roster
    using found by (simp add: replaced_roster_def contents_def split: option.splits)
  then have start: "ends (replace_roster_rows ?i (amr_roster r)) env (n, d)
      (\<lambda>_ d'. view ?i d' = ((Some c, ?x), ?y) \<and> around d' = around d)"
    using ends_both [OF ends_replace_roster [of ?i "amr_roster r" env n d] ends_leaves [OF leaves_around_write(1)]]
    by metis
  have write_core: "row_fits (with_core (amr_core_version r) (amr_core_payload r) c)" if "amr_core_payload r \<noteq> None"
    using core that by blast
  have write_seal: "row_fits (with_core (amr_core_version r) (amr_core_payload r) c)" if "amr_sealed r \<noteq> None"
    using core that by blast
  have ids': "distinct (map cr_id (t_campaigns d'))" if "around d' = around d" for d'
    using that ids by (simp add: around_def)
  show ?thesis
    unfolding write_current_state_def Let_def parts sql_each.simps sql_bind_ret
  proof (rule goes_bind [OF replace start], elim conjE,
      rule goes_bind [OF goes_set_core [OF env _ ids' write_core] ends_both [OF ends_set_core ends_leaves [OF leaves_around_write(2)]]],
      assumption, assumption, assumption, assumption, elim conjE)
    fix n2 d2 d1
    assume "view ?i d2 = ((Some (with_core (amr_core_version r) (amr_core_payload r) c), ?x), ?y)"
      "around d2 = around d1" "around d1 = around d"
    then show "goes (sql_bind (set_sealed ?i (amr_sealed r)) (\<lambda>_. sql_ret ())) env (n2, d2)"
      by (intro goes_bind [OF goes_set_sealed [OF env _ ids' write_seal] ends_True]) (simp_all add: sql_wp)
  qed
qed

lemma goes_apply:
  assumes env: "env_works env" and plain: "plain_request r" and fits: "apply_fits r c d"
  shows "goes (apply_body r g now) env (n, d)"
proof -
  let ?i = "amr_campaign r"
  let ?v = "op_result (OpApply r)"
  let ?x = "snd (replaced_roster (amr_roster r) ?i d)"
  let ?y = "rows_of ?i d"
  let ?c = "with_seal (amr_sealed r) (with_core (amr_core_version r) (amr_core_payload r) c)"
  have found: "find_campaign ?i d = Some c" and rev: "cr_revision c = amr_expected r"
    and limit: "amr_advances r \<longrightarrow> amr_expected r < kMaximumRevision"
    and ids: "distinct (map cr_id (t_campaigns d))"
    and core: "amr_core_payload r \<noteq> None \<or> amr_sealed r \<noteq> None \<or> amr_advances r \<Longrightarrow>
      row_fits (with_core (amr_core_version r) (amr_core_payload r) c)"
    and entry: "row_recordable (amr_expected r) ?v (amr_codec_version r) (amr_payload r)"
    and seal: "seal_fits r c" and unused: "unused_mutation ?i (amr_mutation r) d"
    and intents: "list_all sendable (amr_outbox r)"
    using fits by (simp_all add: apply_fits_def)
  have reading: "goes (read_current_revision ?i) env (n', d)" for n'
    using env found rev entry by (simp add: read_current_revision_def sql_wp env_works_def row_recordable_def not_less)
  have sealing: "goes (check_seal r) env (n', d)" for n'
    using env found seal by (auto simp: check_seal_def sql_wp env_works_def seal_fits_def split: option.splits)
  have fits': "row_fits ?c" if "amr_advances r" using core that by (auto simp: with_seal_def row_fits_def split: option.split)
  have writes: "ends (write_current_state r v) env (n', d)
      (\<lambda>_ d'. view ?i d' = ((Some ?c, ?x), ?y) \<and> around d' = around d)" for v n'
  proof (rule ends_both [OF ends_write_plain [OF plain found] ends_leaves])
    show "leaves around (write_current_state r v)"
      using plain unfolding write_current_state_def Let_def plain_request_def
      by (auto intro!: leaves_intros leaves_around_write)
  qed
  have move: "goes (if amr_advances r then sql_bind (update_campaign_revision ?i (amr_expected r) ?v now)
        (\<lambda>_. inject_fault AfterCurrentState) else sql_ret ()) env (n', d')"
      "ends (if amr_advances r then sql_bind (update_campaign_revision ?i (amr_expected r) ?v now)
        (\<lambda>_. inject_fault AfterCurrentState) else sql_ret ()) env (n', d')
      (\<lambda>_ d''. (\<exists>c''. view ?i d'' = ((Some c'', ?x), ?y)) \<and> around d'' = around d')"
    if "view ?i d' = ((Some ?c, ?x), ?y)" "distinct (map cr_id (t_campaigns d'))" for n' d'
  proof -
    have revised: "cr_revision ?c = amr_expected r" using rev by simp
    have v: "?v \<le> kMaximumRevision" using entry by (simp add: row_recordable_def)
    have "goes (sql_bind (update_campaign_revision ?i (amr_expected r) ?v now) (\<lambda>_. inject_fault AfterCurrentState)) env (n', d')"
      if "amr_advances r"
      using env
      by (intro goes_bind [OF goes_revision [OF env \<open>view ?i d' = ((Some ?c, ?x), ?y)\<close>
              \<open>distinct (map cr_id (t_campaigns d'))\<close> fits' [OF that] revised v] ends_True]) simp
    then show "goes (if amr_advances r then sql_bind (update_campaign_revision ?i (amr_expected r) ?v now)
        (\<lambda>_. inject_fault AfterCurrentState) else sql_ret ()) env (n', d')" by simp
    have "ends (sql_bind (update_campaign_revision ?i (amr_expected r) ?v now) (\<lambda>_. inject_fault AfterCurrentState)) env (n', d')
      (\<lambda>_ d''. (\<exists>c''. view ?i d'' = ((Some c'', ?x), ?y)) \<and> around d'' = around d')"
      by (rule ends_bind [OF ends_both [OF ends_revision_view [OF that(1) revised] ends_leaves [OF leaves_around_write(7)]]])
        (auto simp: sql_wp)
    then show "ends (if amr_advances r then sql_bind (update_campaign_revision ?i (amr_expected r) ?v now)
        (\<lambda>_. inject_fault AfterCurrentState) else sql_ret ()) env (n', d')
      (\<lambda>_ d''. (\<exists>c''. view ?i d'' = ((Some c'', ?x), ?y)) \<and> around d'' = around d')"
      using that(1) by (auto simp: sql_wp)
  qed
  have end_part: "goes (sql_bind (record_mutation (append_journal ?i (amr_mutation r) (amr_expected r) ?v (amr_kind r) g
        (amr_codec_version r) (amr_payload r) now None None) (append_outbox ?i (amr_mutation r) ?v (amr_outbox r) now))
      (\<lambda>_. sql_ret ?v)) env (n', d')"
    if "view ?i d' = ((Some c'', ?x), ?y)" "around d' = around d" for n' d' c''
    using unused that(2)
    by (intro goes_bind [OF goes_record [OF env that(1) _ entry intents] ends_True])
      (simp_all add: unused_mutation_def around_def)
  show ?thesis
    unfolding apply_body_def Let_def
  proof (rule goes_bind [OF reading ends_current_record], rule goes_bind [OF _ ends_expected], goal_cases)
    case (1 current n1 d1)
    then show ?case using limit found rev by (auto simp: expect_revision_def sql_wp not_le)
  next
    case (2 current n1 d1 v n2 d2)
    then have here: "d2 = d" "v = ?v" by (auto simp: op_result_def)
    show ?case
      unfolding here
      by (rule goes_bind [OF sealing ends_read [OF check_seal_reads]], hypsubst,
          rule goes_bind [OF goes_write [OF env plain fits] writes], elim conjE,
          rule goes_bind [OF move], assumption, simp add: around_def ids, assumption, simp add: around_def ids,
          elim conjE exE, erule end_part, simp)
  qed
qed

text \<open>The transaction commits and answers the resulting revision.\<close>

lemma apply_goes_through:
  assumes env: "env_works env" and plain: "plain_request r" and fits: "apply_fits r c d"
    and accepted: "op_rejection (OpApply r) = Store_None"
  shows "fst (store_mutate (OpApply r) env d) = mutation_done (op_result (OpApply r)) (amr_advances r)"
proof -
  let ?body = "sql_bind (or_fail (apply_body r (apply_digest r) (env_now env)))
    (\<lambda>revision. sql_ret (mutation_done revision (amr_advances r)))"
  have "find_journaled (amr_campaign r) (amr_mutation r) d = None"
    using fits by (auto simp: apply_fits_def unused_mutation_def find_journaled_def rows_of_def find_None_iff)
  then have replay: "answer_replay (amr_campaign r) (amr_mutation r) (apply_digest r) env (1, d) = (Inr (), 2, d)"
    using env by (simp add: answer_replay_def check_replay_def sql_bind_def or_fail_def with_error_def query_def
        sql_ret_def env_works_def)
  have "sql_holds ?body env (2, d) (\<lambda>x _. x = mutation_done (op_result (OpApply r)) (amr_advances r)) (\<lambda>_. False)"
    unfolding sql_holds_bind sql_holds_or_fail
    by (rule sql_holds_mono [OF sql_holds_conj [OF goes_apply [OF env plain fits] ends_apply_view [OF plain]]])
      (auto simp: sql_wp)
  then obtain n d' where "?body env (2, d) = (Inr (mutation_done (op_result (OpApply r)) (amr_advances r)), n, d')"
    by (auto simp: sql_holds_def split: sum.splits prod.splits)
  with replay have "fst (run_mutation (amr_campaign r) (amr_mutation r) (apply_digest r) ?body env d) =
      mutation_done (op_result (OpApply r)) (amr_advances r)"
    using env by (simp add: run_mutation_def transaction_def sql_bind_def [of "answer_replay _ _ _"] env_works_def)
  then show ?thesis using accepted by (simp add: apply_campaign_mutation_def Let_def split: if_splits)
qed

end
