(* ===== verification/RuntimeProgress.thy ===== *)
theory RuntimeProgress
  imports RuntimeContract StoreProgress
begin

text \<open>
  Total correctness of the commands of the campaign service: with a store that works, a command that is
  not answered without the store is applied, and the campaign that the store holds afterwards is what
  the operation of the state machine makes of it.
\<close>

section \<open>Requests that the store accepts\<close>

lemma identity_identifier: "is_valid_identity v \<longleftrightarrow> is_valid_identifier v"
proof -
  have "(0x21 \<le> (of_char c :: nat) \<and> of_char c \<le> (0x7E :: nat)) \<longleftrightarrow> CHR 0x21 \<le> c \<and> c \<le> CHR 0x7E" for c
    by (simp add: less_eq_char_def)
  then show ?thesis
    by (auto simp: is_valid_identity_def is_valid_identifier_def kMaximumIdLength_def list_all_iff)
qed

lemma validate_records_unique:
  "validate_records slots players bindings ss = Store_None \<longleftrightarrow> list_all slot_record_valid ss \<and>
     distinct (map rec_slot ss) \<and> set slots \<inter> rec_slot ` set ss = {} \<and>
     distinct (map rec_player ss) \<and> set players \<inter> rec_player ` set ss = {} \<and>
     distinct (map rec_binding ss) \<and> set bindings \<inter> rec_binding ` set ss = {}"
  by (induction slots players bindings ss rule: validate_records.induct) (auto simp: slot_record_valid_def)

lemma roster_accepted:
  assumes "canonical_roster (c_roster c)"
  shows "validate_slot_records (to_roster_records c) = Store_None" "unique_slots (to_roster_records c)"
proof -
  have maps: "map rec_slot (to_roster_records c) = map slot_id (c_roster c)"
    "map rec_player (to_roster_records c) = map slot_player (c_roster c)"
    "map rec_binding (to_roster_records c) = map slot_binding (c_roster c)"
    by (simp_all add: to_roster_records_def slot_record_def)
  have valid: "list_all slot_record_valid (to_roster_records c)" "length (to_roster_records c) \<le> 10"
    using assms
    by (simp_all add: canonical_roster_def valid_roster_def list_all_iff slot_ids_valid_def identity_identifier
        slot_record_valid_def to_roster_records_def slot_record_def)
  have roster: "valid_roster (c_roster c)" using assms by (simp add: canonical_roster_def)
  then show unique: "unique_slots (to_roster_records c)" by (simp add: unique_slots_def maps valid_roster_def)
  then show "validate_slot_records (to_roster_records c) = Store_None"
    using valid by (simp add: validate_slot_records_def validate_records_unique unique_slots_def)
qed

lemma nothing_read: "read_all (r_bind (read_magic (x # xs)) k) [] = Inl Store_IntegrityFailure"
  by (simp add: read_all_def read_magic_def bytes_of_string_def r_bind_def)

lemma encoded_not_empty:
  assumes "canonical_roster (c_roster c)"
  shows "encode_core_state c old = (Store_None, core) \<Longrightarrow> core \<noteq> []"
    "encode_snapshot_intent c old = (Store_None, snap) \<Longrightarrow> snap \<noteq> []"
proof -
  show "core \<noteq> []" if "encode_core_state c old = (Store_None, core)"
  proof
    assume core: "core = []"
    show False
      using decode_encoded_core [OF that assms refl]
      unfolding core decode_core_state_def kCoreMagic_def nothing_read by simp
  qed
  show "snap \<noteq> []" if "encode_snapshot_intent c old = (Store_None, snap)"
  proof
    assume snap: "snap = []"
    show False
      using decode_encoded_intent [OF that assms]
      unfolding snap decode_snapshot_intent_def kSnapshotIntentMagic_def nothing_read by simp
  qed
qed

lemma persist_accepted:
  assumes "is_valid_identifier (c_id c)" "is_valid_identifier m" "v \<le> kMaximumRevision" "kind \<noteq> []"
    "length kind \<le> kMaximumKindLength" "is_valid_payload payload" "is_valid_payload core" "is_valid_payload snap"
    "canonical_roster (c_roster c)"
  shows "op_rejection (OpApply (persist_request c v m kind payload replace seal core snap)) = Store_None"
  using assms roster_accepted(1)
  by (simp add: persist_request_def validate_mutation_def mutation_digest_payload_def validate_common_mutation_def
      validate_outbox_def reject_if_def kCampaignOutboxCodecVersion_def kCampaignCoreCodecVersion_def)

lemma record_accepted:
  assumes "is_valid_identifier i" "is_valid_identifier m" "v \<le> kMaximumRevision" "kind \<noteq> []"
    "length kind \<le> kMaximumKindLength" "is_valid_payload payload"
  shows "op_rejection (OpApply (record_request i v m kind adv payload)) = Store_None"
  using assms
  by (simp add: record_request_def validate_mutation_def mutation_digest_payload_def validate_common_mutation_def
      validate_outbox_def reject_if_def)

section \<open>Commands that are applied\<close>

lemma unused_if_not_journaled:
  assumes "tables_wf d" "find (\<lambda>j. jr_mutation j = m) (rows_of i d) = None"
  shows "unused_mutation i m d"
proof -
  have "find_journaled i m d = None"
    using assms(2) by (auto simp: find_journaled_def find_None_iff rows_of_def)
  then show ?thesis using assms by (auto simp: unused_mutation_def tables_wf_def outbox_keys_def)
qed

definition store_works :: "RuntimeEnv \<Rightarrow> bool" where
  "store_works env \<longleftrightarrow> (\<forall>k. env_works (call_env env k))"

lemma works_answers: "store_works env \<Longrightarrow> store_answers env"
  by (simp add: store_works_def store_answers_def env_works_def)

text \<open>
  What a command needs besides: a valid mutation identity, arguments that fit a payload, and to change the
  campaign a version below the maximum and, to edit the roster, no slots of checkpoints.
\<close>

definition command_fits :: "CampaignId \<Rightarrow> string \<Rightarrow> RuntimeCommand \<Rightarrow> Database \<Rightarrow> CampaignAggregate \<Rightarrow> bool" where
  "command_fits i m cmd d c \<longleftrightarrow> is_valid_identifier m \<and>
     is_valid_payload (begin_command_payload (command_kind cmd) @ command_arguments cmd) \<and>
     (dom_changed (snd (campaign_perform c (command_operation cmd))) \<longrightarrow>
        c_version c < kMaximumRevision \<and> (edits_roster cmd \<longrightarrow> no_checkpoint_slots i d))"

lemma command_kind_valid: "command_kind cmd \<noteq> []" "length (command_kind cmd) \<le> kMaximumKindLength"
  by (cases cmd; simp add: kMaximumKindLength_def)+

lemma command_payload_some: "begin_command_payload kind @ arguments \<noteq> []"
  by (simp add: begin_command_payload_def bytes_of_string_def)

text \<open>What the store knows of a campaign whose mutation it is about to apply.\<close>

lemma stored_row:
  assumes "ledger_wf d" "stored_campaign i d = Some c"
  obtains row where "find_campaign i d = Some row" "cr_revision row = c_version c" "cr_sealed row = c_sealed c"
    "c_version c \<noteq> 0" "c_version c \<le> kMaximumRevision" "is_valid_identifier i" "c_id c = i"
proof -
  obtain row ss bs as where row: "contents i d = (Some row, ss, bs, as)" "record_valid row"
    "c_version c = cr_revision row" "c_sealed c = cr_sealed row" and i: "is_valid_identifier i" "c_id c = i"
    using stored_holds [OF assms] by (auto simp: holds_campaign_def)
  have found: "find_campaign i d = Some row" using row(1) by (simp add: contents_def)
  have "explains None (rows_of i d) (Some (cr_revision row))"
    using assms(1) found unfolding ledger_wf_def revision_of_def by (metis option.simps(9))
  moreover have "explains r js v \<Longrightarrow> r \<noteq> Some 0 \<Longrightarrow> v \<noteq> Some 0" for r js v
    by (induction r js v rule: explains.induct) auto
  ultimately have "cr_revision row \<noteq> 0" by blast
  with that [OF found] row i show thesis by (simp add: record_valid_def)
qed

lemma start_roster:
  assumes "dom_changed (snd (campaign_perform c (command_operation cmd)))" "seals_roster cmd = Some True"
  shows "\<exists>s ss. to_roster_records (fst (campaign_perform c (command_operation cmd))) = s # ss"
proof -
  obtain manager where "cmd = CommandStart manager" using assms(2) by (cases cmd) simp_all
  then have "is_roster_member c manager" "c_roster (fst (campaign_perform c (command_operation cmd))) = c_roster c"
    using assms(1) by (auto simp: commit_start_simps split: if_splits)
  then have "c_roster (fst (campaign_perform c (command_operation cmd))) \<noteq> []"
    by (auto simp: is_roster_member_def find_by_player_def)
  then show ?thesis by (cases "c_roster (fst (campaign_perform c (command_operation cmd)))") (simp_all add: to_roster_records_def)
qed

lemma edits_unsealed:
  assumes "dom_changed (snd (campaign_perform c (command_operation cmd)))" "edits_roster cmd"
  shows "\<not> c_sealed c"
proof -
  have replaced: "\<not> c_sealed c" if "dom_changed (snd (replace_roster roster c))" for roster
    using that by (auto simp: replace_roster_def require_mutable_lobby_def Let_def split: if_splits)
  show ?thesis
    using assms
    by (cases cmd; auto simp: add_slot_def remove_slot_def replace_slot_def commit_start_simps Let_def
        split: option.splits if_splits dest!: replaced)
qed

lemma small_payloads:
  "length core \<le> 1600 \<Longrightarrow> is_valid_payload core" "length core \<le> 4400 \<Longrightarrow> is_valid_payload core"
  by (simp_all add: is_valid_payload_def kMaximumPayloadSize_def)

lemma next_recordable:
  assumes "v < kMaximumRevision"
  shows "v + 1 \<noteq> 0" "v + 1 \<le> kMaximumRevision"
  using assms
  by (simp_all add: kMaximumRevision_def word_less_nat_alt word_le_nat_alt unat_word_ariths unat_eq_zero [symmetric]
      del: unat_eq_zero)

text \<open>The request of a changing command fits the store.\<close>

lemma persist_fits:
  fixes c cmd
  defines "c' \<equiv> fst (campaign_perform c (command_operation cmd))"
    and "payload \<equiv> begin_command_payload (command_kind cmd) @ command_arguments cmd"
  assumes wf: "ledger_wf d" "tables_wf d" and stored: "stored_campaign i d = Some c"
    and fresh: "find (\<lambda>j. jr_mutation j = m) (rows_of i d) = None"
    and changed: "dom_changed (snd (campaign_perform c (command_operation cmd)))"
    and fits: "command_fits i m cmd d c"
    and core: "encode_core_state c' [] = (Store_None, core)" and snap: "encode_snapshot_intent c' [] = (Store_None, snap)"
  defines "r \<equiv> persist_request c' (c_version c) m (command_kind cmd) payload (edits_roster cmd) (seals_roster cmd) core snap"
  shows "\<exists>row. apply_fits r row d"
proof -
  note after = command_after [OF stored_version(2) [OF wf(1) stored] changed, folded c'_def]
  obtain row where row: "find_campaign i d = Some row" "cr_revision row = c_version c" "cr_sealed row = c_sealed c"
    "c_version c \<noteq> 0" "c_version c \<le> kMaximumRevision" "is_valid_identifier i" "c_id c = i"
    by (rule stored_row [OF wf(1) stored])
  have limit: "c_version c < kMaximumRevision" "edits_roster cmd \<Longrightarrow> no_checkpoint_slots i d"
    using fits changed by (simp_all add: command_fits_def)
  have fields: "amr_campaign r = i" "amr_expected r = c_version c" "amr_mutation r = m" "amr_advances r"
    "amr_codec_version r = 1" "amr_payload r = payload" "amr_core_version r = Some kCampaignCoreCodecVersion"
    "amr_core_payload r = Some core" "amr_sealed r = seals_roster cmd"
    "amr_roster r = (if edits_roster cmd then Some (to_roster_records c') else None)"
    "amr_outbox r = [\<lparr>oi_codec_version = kCampaignOutboxCodecVersion, oi_payload = snap\<rparr>]"
    using after(1) row(7) by (simp_all add: r_def) (simp_all add: persist_request_def)
  have some: "core \<noteq> []" "snap \<noteq> []" "payload \<noteq> []"
    using encoded_not_empty [OF after(2)] core snap command_payload_some by (simp_all add: payload_def del: append_is_Nil_conv)
  have "row_fits (with_core (Some kCampaignCoreCodecVersion) (Some core) row)"
    using row some by (simp add: row_fits_def with_core_def kCampaignCoreCodecVersion_def)
  moreover have "seal_fits r row"
    unfolding seal_fits_def fields
    using edits_unsealed [OF changed] start_roster [OF changed] row(3) by (cases cmd) (auto simp: c'_def)
  moreover have "unused_mutation i m d" by (rule unused_if_not_journaled [OF wf(2) fresh])
  moreover have "op_result (OpApply r) = c_version c + 1" using fields by (simp add: op_result_def)
  ultimately show ?thesis
    using row limit wf(2) some next_recordable [OF limit(1)] roster_accepted(2) [OF after(2)]
    by (intro exI [of _ row])
      (simp add: apply_fits_def fields tables_wf_def row_recordable_def sendable_def kCampaignOutboxCodecVersion_def)
qed

lemma noop_fits:
  assumes wf: "ledger_wf d" "tables_wf d" and stored: "stored_campaign i d = Some c"
    and fresh: "find (\<lambda>j. jr_mutation j = m) (rows_of i d) = None" and payload: "payload \<noteq> []"
  shows "\<exists>row. apply_fits (record_request i (c_version c) m kind False payload) row d"
proof -
  obtain row where row: "find_campaign i d = Some row" "cr_revision row = c_version c" "cr_sealed row = c_sealed c"
    "c_version c \<noteq> 0" "c_version c \<le> kMaximumRevision" "is_valid_identifier i" "c_id c = i"
    by (rule stored_row [OF wf(1) stored])
  show ?thesis
    using row wf(2) payload unused_if_not_journaled [OF wf(2) fresh]
    by (intro exI [of _ row])
      (simp add: apply_fits_def record_request_def tables_wf_def row_recordable_def op_result_def seal_fits_def)
qed

text \<open>The answer of a command that goes through: applied, or an accepted no-op.\<close>

definition command_done :: "RuntimeCommand \<Rightarrow> CampaignAggregate \<Rightarrow> CommandResult" where
  "command_done cmd c = (case campaign_perform c (command_operation cmd) of (c', r) \<Rightarrow>
     cmd_ok\<lparr>cmd_version := c_version c', cmd_applied := dom_changed r\<rparr>)"

lemma svc_apply_goes:
  assumes "store_works env" "plain_request r" "apply_fits r row (sv_store s)" "op_rejection (OpApply r) = Store_None"
  shows "fst (svc_apply r env (k, s)) =
    Inr (cmd_ok\<lparr>cmd_version := op_result (OpApply r), cmd_applied := amr_advances r\<rparr>)"
proof -
  have "fst (store_mutate (OpApply r) (call_env env k) (sv_store s)) =
      mutation_done (op_result (OpApply r)) (amr_advances r)"
    by (rule apply_goes_through [OF _ assms(2-4)]) (use assms(1) in \<open>simp add: store_works_def\<close>)
  then obtain d' where "store_mutate (OpApply r) (call_env env k) (sv_store s) =
      (mutation_done (op_result (OpApply r)) (amr_advances r), d')" by (metis prod.collapse)
  then show ?thesis
    unfolding svc_apply_def svc_bind_def svc_mutate_def
    by (simp add: svc_ret_def from_mutation_result_def mutation_done_def cmd_ok_def del: store_mutate.simps)
qed

lemma command_goes_through:
  assumes wf: "service_wf s" and stored: "stored_campaign i (sv_store s) = Some c"
    and c: "campaign_wf c"
    and free: "sv_checkpoints s i = None" "sv_recoveries s i = None" "journal_idle i (sv_store s)"
    and works: "store_works env" and unanswered: "command_answer i expected m cmd (sv_store s) c = None"
    and fits: "command_fits i m cmd (sv_store s) c"
  shows "fst (svc_result (run_command i expected m cmd) env s) = command_done cmd c"
proof -
  let ?d = "sv_store s"
  let ?p = "begin_command_payload (command_kind cmd) @ command_arguments cmd"
  note ledger = service_ledger [OF wf] and tables = service_tables [OF wf]
  obtain c' r where perform: "campaign_perform c (command_operation cmd) = (c', r)" by fastforce
  have fresh: "find (\<lambda>j. jr_mutation j = m) (rows_of i ?d) = None" and version: "c_version c = expected"
    and ok: "dom_succeeded r"
    using unanswered by (auto simp: command_answer_def perform Let_def split: option.splits if_splits)
  obtain row where row: "find_campaign i ?d = Some row" "cr_revision row = c_version c" "cr_sealed row = c_sealed c"
    "c_version c \<noteq> 0" "c_version c \<le> kMaximumRevision" "is_valid_identifier i" "c_id c = i"
    by (rule stored_row [OF ledger stored])
  have ids: "is_valid_identifier m" "is_valid_payload ?p" using fits by (simp_all add: command_fits_def)
  note sv = stored_version [OF ledger stored]
  note step = perform_version [OF sv(1), of "command_operation cmd", unfolded perform fst_conv snd_conv]
  obtain k where run: "run_command i expected m cmd env (0, s) =
      (if may_be_noop cmd \<and> \<not> dom_changed r then persist_accepted_noop i expected m (command_kind cmd) ?p env (k, s)
       else persist_mutation c' expected m (command_kind cmd) ?p (edits_roster cmd) (seals_roster cmd) env (k, s))"
    using command_runs [OF wf stored free works_answers [OF works] perform, of expected m] fresh version ok by auto
  have ended: "fst (svc_result (run_command i expected m cmd) env s) = x"
    if "fst (run_command i expected m cmd env (0, s)) = Inr x" for x
    using that by (auto simp: svc_result_def split: prod.splits sum.splits)
  show ?thesis
  proof (cases "may_be_noop cmd \<and> \<not> dom_changed r")
    case True
    obtain row where fit: "apply_fits (record_request i expected m (command_kind cmd) False ?p) row ?d"
      using noop_fits [OF ledger tables stored fresh command_payload_some] version by blast
    have "op_rejection (OpApply (record_request i expected m (command_kind cmd) False ?p)) = Store_None"
      using record_accepted [OF row(6) ids(1) _ command_kind_valid ids(2)] row(5) version by simp
    note applied = svc_apply_goes [OF works plain_requests(2) fit this]
    have "op_result (OpApply (record_request i expected m (command_kind cmd) False ?p)) = c_version c'"
      "\<not> amr_advances (record_request i expected m (command_kind cmd) False ?p)"
      using True step version by (simp_all add: op_result_def record_request_def)
    with applied have "fst (run_command i expected m cmd env (0, s)) = Inr (command_done cmd c)"
      using True unfolding run if_P [OF True] persist_accepted_noop_def command_done_def perform by simp
    then show ?thesis by (rule ended)
  next
    case False
    then have changed: "dom_changed (snd (campaign_perform c (command_operation cmd)))"
      using command_changes [of c cmd] ok perform by auto
    note after = command_after [OF sv(2) changed, unfolded perform fst_conv]
    have wf': "campaign_wf c'" using cmp.perform_wf [OF c, of "command_operation cmd"] perform by simp
    have v: "c_version c' = c_version c + 1" "c_version c' \<noteq> 0"
      using step changed perform next_recordable(1) [of "c_version c"] fits by (auto simp: command_fits_def)
    have id: "c_id c' = i" using after(1) row(7) by simp
    have "i \<noteq> []" "length i \<le> 128" using row(6) by (auto simp: is_valid_identifier_def kMaximumIdLength_def)
    then have valid: "validate_aggregate c' = Store_None" "length (c_id c') \<le> 128"
      using campaign_wf_valid [OF wf' _ v(2)] id by simp_all
    obtain core snap where encoded: "encode_core_state c' [] = (Store_None, core)" "is_valid_payload core"
      "encode_snapshot_intent c' [] = (Store_None, snap)" "is_valid_payload snap"
      using core_encoding_size [OF valid(1)] intent_encoding_size [OF valid] small_payloads by metis
    let ?r = "persist_request c' expected m (command_kind cmd) ?p (edits_roster cmd) (seals_roster cmd) core snap"
    obtain row where fit: "apply_fits ?r row ?d"
      using persist_fits [OF ledger tables stored fresh changed fits, unfolded perform fst_conv, OF encoded(1,3)] version
      by blast
    have "op_rejection (OpApply ?r) = Store_None"
      using persist_accepted [OF _ ids(1) _ command_kind_valid ids(2) encoded(2,4) after(2)] row(5,6) id version by simp
    note applied = svc_apply_goes [OF works plain_requests(1) fit this]
    have result: "op_result (OpApply ?r) = c_version c'" "amr_advances ?r" "dom_changed r"
      using v version changed perform by (simp_all add: op_result_def persist_request_def)
    have "persist_mutation c' expected m (command_kind cmd) ?p (edits_roster cmd) (seals_roster cmd) = svc_apply ?r"
      by (simp add: persist_mutation_def svc_encode_def encoded svc_require_def svc_ret_def svc_bind_def)
    with applied result have "fst (run_command i expected m cmd env (0, s)) = Inr (command_done cmd c)"
      unfolding run if_not_P [OF False] command_done_def perform by simp
    then show ?thesis by (rule ended)
  qed
qed

text \<open>Of a command that goes through, the campaign that the store holds afterwards is the result.\<close>

lemma command_done_stored:
  assumes "service_wf s" "stored_campaign i (sv_store s) = Some c"
    and "fst (svc_result (run_command i expected m cmd) env s) = command_done cmd c"
  shows "stored_campaign i (sv_store (snd (svc_result (run_command i expected m cmd) env s))) =
    Some (fst (campaign_perform c (command_operation cmd)))"
proof -
  obtain s' where run: "svc_result (run_command i expected m cmd) env s = (command_done cmd c, s')"
    using assms(3) by (metis prod.collapse)
  have "command_outcome cmd i expected c (command_done cmd c) (sv_store s')"
    by (rule svc_ends_result [OF run ends_command [OF service_ledger [OF assms(1)] assms(2)]])
  moreover have "\<not> dom_changed (snd (campaign_perform c (command_operation cmd))) \<Longrightarrow>
      fst (campaign_perform c (command_operation cmd)) = c"
    using perform_version [OF stored_version(1) [OF service_ledger [OF assms(1)] assms(2)]] by blast
  ultimately show ?thesis
    using run by (auto simp: command_outcome_def command_done_def case_prod_beta split: if_splits)
qed

section \<open>Properties\<close>

text \<open>
  C38: A valid command is applied. When no checkpoint or recovery is open for a stored campaign, the store works
  while the command runs, and the command is not answered without the store (it is new, its version is the
  current one, and the state machine accepts it), then it ends with success: it is applied, or
  accepted as changing nothing, with the version it leads to, and the store then holds exactly the
  campaign that the operation makes. What is asked of the store besides are a version below the
  maximum and, for a change of the roster, that no checkpoint refers to its slots.
\<close>

theorem valid_commands_are_applied:
  assumes "service_wf s" "stored_campaign i (sv_store s) = Some c" "campaign_wf c"
    and "sv_checkpoints s i = None" "sv_recoveries s i = None" "journal_idle i (sv_store s)"
    and "store_works env" "command_answer i expected m cmd (sv_store s) c = None" "command_fits i m cmd (sv_store s) c"
  shows "case svc_result (run_command i expected m cmd) env s of (r, s') \<Rightarrow> r = command_done cmd c \<and>
    stored_campaign i (sv_store s') = Some (fst (campaign_perform c (command_operation cmd)))"
  using command_goes_through [OF assms] command_done_stored [OF assms(1,2) command_goes_through [OF assms]]
  by (simp add: case_prod_beta)

lemma lobby_campaign_wf: "campaign_wf lobby"
  using lobby_canonical by (simp add: campaign_wf_def) (simp add: lobby_def to_slot_state_def)

lemma lobby_start:
  "campaign_perform lobby (command_operation (CommandStart ''p'')) =
     (lobby\<lparr>c_sealed := True, c_manager := Some ''p'', c_phase := CharacterCreation, c_version := 2\<rparr>, dom_advanced)"
  by code_simp

theorem valid_commands_are_applied_witness:
  "case svc_result (run_command ''c'' 1 ''m2'' (CommandStart ''p'')) quiet_runtime lobby_service of
     (r, s') \<Rightarrow> r = cmd_ok\<lparr>cmd_version := 2, cmd_applied := True\<rparr> \<and> stored_campaign ''c'' (sv_store s') =
     Some (lobby\<lparr>c_sealed := True, c_manager := Some ''p'', c_phase := CharacterCreation, c_version := 2\<rparr>)"
proof -
  have works: "store_works quiet_runtime"
    by (simp add: store_works_def env_works_def quiet_runtime_def quiet_env_def)
  have unanswered: "command_answer ''c'' 1 ''m2'' (CommandStart ''p'') lobby_store lobby = None"
    unfolding command_answer_def Let_def lobby_rows lobby_start by (simp add: lobby_row_def lobby_def dom_advanced_def dom_succeeded_def)
  have "is_valid_payload (begin_command_payload (command_kind (CommandStart ''p'')) @ command_arguments (CommandStart ''p''))"
    by (simp add: is_valid_payload_def kMaximumPayloadSize_def begin_command_payload_def payload_field_def
        payload_scalar_def scalar_bytes_def scalar_size_def bytes_of_string_def)
  then have fits: "command_fits ''c'' ''m2'' (CommandStart ''p'') lobby_store lobby"
    by (simp add: command_fits_def is_valid_identifier_def kMaximumIdLength_def less_eq_char_def)
      (simp add: lobby_def kMaximumRevision_def no_checkpoint_slots_def lobby_store_def empty_database_def)
  have "command_done (CommandStart ''p'') lobby = cmd_ok\<lparr>cmd_version := 2, cmd_applied := True\<rparr>"
    unfolding command_done_def lobby_start by (simp add: dom_advanced_def)
  with valid_commands_are_applied [of lobby_service "''c''" lobby quiet_runtime 1 "''m2''" "CommandStart ''p''"]
  show ?thesis
    using lobby_facts lobby_campaign_wf works unanswered fits unfolding lobby_start by simp
qed

end
