(* ===== verification/CreationProgress.thy ===== *)
theory CreationProgress
  imports RuntimeProgress
begin

text \<open>
  Total correctness of the creation of a lobby: the snapshot of a new campaign is encoded, no statement of
  the creation violates a constraint of the schema, and with a store that works a valid lobby is
  created.
\<close>

section \<open>The snapshot of a new campaign\<close>

abbreviation at_most_stored :: "writer \<Rightarrow> nat \<Rightarrow> bool" where
  "at_most_stored \<equiv> at_most (payload_limit store_limits)"

lemma stored_check: "b \<Longrightarrow> w_seq (w_check b # ws) = w_seq ws"
  by (simp add: fun_eq_iff w_seq.simps w_check_def)

lemma stored_scalar: "at_most_stored (put_scalar v) (scalar_size v)"
  unfolding at_most_def emits_def by (rule exI [of _ "scalar_bytes v"]) (simp add: write_scalar_def)

lemma stored_raw: "length bs \<le> 4194304 \<Longrightarrow> at_most_stored (write_raw store_limits bs) (length bs)"
  unfolding at_most_def emits_def by (rule exI [of _ bs]) (auto simp: write_raw_def store_limits_def)

lemma stored_bool: "at_most_stored (put_bool b) 1"
  using stored_scalar [of "if b then 1 else 0 :: u8"] by (simp add: write_bool_def)

lemma stored_string: "length t \<le> 128 \<Longrightarrow> at_most_stored (put_string t) 132"
  unfolding write_string_def
  by (subst stored_check, simp add: store_limits_def, rule at_most_mono [OF at_most_seq [OF stored_scalar
        at_most_seq [OF stored_raw at_most_done]]]) simp_all

lemma stored_blob: "length bs \<le> 1600 \<Longrightarrow> at_most_stored (put_blob bs) 1604"
  unfolding write_blob_def
  by (subst stored_check, simp add: store_limits_def, rule at_most_mono [OF at_most_seq [OF stored_scalar
        at_most_seq [OF stored_raw at_most_done]]]) simp_all

lemma stored_list:
  assumes "length xs \<le> n" "\<forall>x \<in> set xs. at_most_stored (w x) k"
  shows "at_most_stored (write_list store_limits n w xs) (4 + k * length xs)"
  unfolding write_list_def stored_check [OF assms(1)]
  by (rule at_most_mono [OF at_most_seq [OF stored_scalar at_most_map [OF assms(2)]]]) simp

lemma stored_absent: "at_most_stored (write_optional store_limits w None) 1"
  unfolding write_optional_def write_announced_def option.case
  by (rule at_most_mono [OF at_most_seq [OF stored_bool at_most_seq [OF at_most_done at_most_done]]]) simp

lemma new_snapshot_encoded:
  assumes "length (cr_id c) \<le> 128" "cr_checkpoint c = None" "length (cr_payload c) \<le> 1600" "length ss \<le> 10"
    and "list_all slot_record_valid ss"
  shows "fst (encode_snapshot \<lparr>pr_campaign = c, pr_slots = ss, pr_builds = [], pr_adapters = []\<rparr>) = Store_None"
proof -
  have slots: "\<forall>s \<in> set ss. at_most_stored (write_slot_record s) (132 + (132 + (132 + 0)))"
    using assms(5) unfolding write_slot_record_def
    by (intro ballI at_most_seq stored_string at_most_done)
      (auto simp: list_all_iff slot_record_valid_def is_valid_identifier_def kMaximumIdLength_def)
  have campaign: "at_most_stored (write_campaign c) 2000"
    unfolding write_campaign_def assms(2)
    by (rule at_most_mono, (rule at_most_seq stored_string stored_scalar stored_bool stored_absent stored_blob
        at_most_done assms)+) simp
  have body: "at_most_stored (write_snapshot_body \<lparr>pr_campaign = c, pr_slots = ss, pr_builds = [], pr_adapters = []\<rparr>) 8000"
    unfolding write_snapshot_body_def CampaignProjection.select_convs
    by (rule at_most_mono [OF at_most_seq [OF campaign at_most_seq [OF stored_list [OF _ slots]
          at_most_seq [OF stored_list [where k = 0] at_most_seq [OF stored_list [where k = 0] at_most_done]]]]])
      (use assms(4) in \<open>simp_all add: kMaximumSlots_def kMaximumCharacterBuilds_def kMaximumAdapters_def\<close>)
  have "\<exists>bs. w_seq [write_raw store_limits (bytes_of_string kSnapshotMagic), put_scalar kCampaignSnapshotCodecVersion,
      write_snapshot_body \<lparr>pr_campaign = c, pr_slots = ss, pr_builds = [], pr_adapters = []\<rparr>] [] = (bs, True) \<and>
      length bs \<le> 9000"
    by (rule at_most_run [OF at_most_seq [OF stored_raw at_most_seq [OF stored_scalar at_most_seq [OF body at_most_done]]]])
      (simp_all add: kSnapshotMagic_def store_limits_def)
  then show ?thesis by (auto simp: encode_snapshot_def)
qed

section \<open>The statements of a creation\<close>

definition creation_fits :: "CreateCampaignRequest \<Rightarrow> Database \<Rightarrow> bool" where
  "creation_fits r d \<longleftrightarrow> unknown_campaign (cr_id (ccr_campaign r)) d \<and>
     unused_mutation (cr_id (ccr_campaign r)) (ccr_mutation r) d \<and> unique_slots (ccr_slots r) \<and>
     ccr_builds r = [] \<and> ccr_adapters r = [] \<and> \<not> sint (cr_codec_version (ccr_campaign r)) \<le> 0 \<and>
     cr_payload (ccr_campaign r) \<noteq> [] \<and> row_recordable 0 1 (ccr_codec_version r) (ccr_payload r) \<and>
     list_all sendable (ccr_outbox r)"

lemma goes_create:
  assumes env: "env_works env" and fits: "creation_fits r d"
  shows "goes (create_body r g now) env (n, d)"
proof -
  let ?i = "cr_id (ccr_campaign r)"
  let ?d = "d\<lparr>t_campaigns := t_campaigns d @ [created_record r now]\<rparr>"
  have new: "find_campaign ?i d = None" "slots_of ?i d = []" "rows_of ?i d = []"
    using fits by (simp_all add: creation_fits_def unknown_campaign_def view_def contents_def)
  have none: "ccr_builds r = []" "ccr_adapters r = []" using fits by (simp_all add: creation_fits_def)
  have run: "insert_campaign (created_record r now) d = Inr (1, ?d)"
    using fits new(1) by (simp add: insert_campaign_def creation_fits_def created_record_def)
  have insert: "goes (with_error (f :: StepFailure \<Rightarrow> StoreError) (change (insert_campaign (created_record r now)))) env (n, d)"
    "ends (with_error (f :: StepFailure \<Rightarrow> StoreError) (change (insert_campaign (created_record r now)))) env (n, d)
      (\<lambda>_ d'. d' = ?d)" for f
    using env by (simp_all add: sql_wp run env_works_def)
  have "cr_id (created_record r now) = ?i" by (simp add: created_record_def)
  then have there: "find_campaign ?i ?d \<noteq> None" "slots_of ?i ?d = []" "view ?i ?d = ((find_campaign ?i ?d, [], builds_of ?i ?d, adapters_of ?i ?d), [])"
    using new by (auto simp: find_campaign_def slots_of_def view_def contents_def rows_of_def find_snoc)
  have slots: "ends (sql_each (insert_slot ?i) (ccr_slots r)) env (n', ?d)
      (\<lambda>_ d'. (\<exists>c x. view ?i d' = ((Some c, x), [])) \<and> t_outbox d' = t_outbox d)" for n'
  proof (rule ends_mono [OF ends_both [OF ends_insert_slots ends_leaves [of around]]])
    show "leaves around (sql_each (insert_slot ?i) (ccr_slots r))"
      unfolding insert_slot_def
      by (intro leaves_intros leaves_step_only) (auto simp: insert_slot_row_def around_def split: if_splits)
  qed (use there(1) new(3) in \<open>auto simp: around_def rows_of_def\<close>)
  have tail: "goes (sql_bind (inject_fault AfterCurrentState) (\<lambda>_. record_mutation
        (append_journal ?i (ccr_mutation r) 0 1 ''CreateCampaign'' g (ccr_codec_version r) (ccr_payload r) now None None)
        (append_outbox ?i (ccr_mutation r) 1 (ccr_outbox r) now))) env (n', d')"
    if "view ?i d' = ((Some c, x), [])" "t_outbox d' = t_outbox d" for n' d' c x
  proof (rule goes_bind [where P = "\<lambda>_ d''. d'' = d'"])
    show "goes (record_mutation
        (append_journal ?i (ccr_mutation r) 0 1 ''CreateCampaign'' g (ccr_codec_version r) (ccr_payload r) now None None)
        (append_outbox ?i (ccr_mutation r) 1 (ccr_outbox r) now)) env (n'', d'')" if "d'' = d'" for n'' d''
      unfolding that
      by (rule goes_record [OF env \<open>view ?i d' = _\<close>])
        (use fits \<open>t_outbox d' = t_outbox d\<close> in \<open>simp_all add: creation_fits_def unused_mutation_def\<close>)
  qed (use env in \<open>simp_all add: sql_wp env_works_def\<close>)
  show ?thesis
    unfolding create_body_def Let_def none sql_each.simps sql_bind_ret created_record_def [symmetric]
  proof (rule goes_bind [OF insert], hypsubst, rule goes_bind [OF _ slots])
    fix n' show "goes (sql_each (insert_slot ?i) (ccr_slots r)) env (n', ?d)"
      using fits there by (intro goes_insert_slots [OF env]) (simp_all add: creation_fits_def)
  qed (elim conjE exE, rule tail)
qed

lemma create_goes_through:
  assumes env: "env_works env" and fits: "creation_fits r d" and accepted: "op_rejection (OpCreate r) = Store_None"
  shows "fst (store_mutate (OpCreate r) env d) = mutation_done 1 True"
proof -
  let ?i = "cr_id (ccr_campaign r)"
  obtain encoded where encoded: "encode_snapshot (create_projection r) = (Store_None, encoded)"
    "validate_create r = Store_None" using accepted by (auto simp: prod_eq_iff split: if_splits)
  let ?g = "create_digest r encoded"
  let ?body = "and_return (create_body r ?g (env_now env)) (mutation_done 1 True)"
  have "find_journaled ?i (ccr_mutation r) d = None"
    using fits by (auto simp: creation_fits_def unused_mutation_def find_journaled_def rows_of_def find_None_iff)
  then have replay: "answer_replay ?i (ccr_mutation r) ?g env (1, d) = (Inr (), 2, d)"
    using env by (simp add: answer_replay_def check_replay_def sql_bind_def or_fail_def with_error_def query_def
        sql_ret_def env_works_def)
  have "sql_holds ?body env (2, d) (\<lambda>x _. x = mutation_done 1 True) (\<lambda>_. False)"
    unfolding and_return_def sql_holds_bind sql_holds_or_fail
    by (rule sql_holds_mono [OF goes_create [OF env fits]]) (auto simp: sql_wp)
  then obtain n d' where "?body env (2, d) = (Inr (mutation_done 1 True), n, d')"
    by (auto simp: sql_holds_def split: sum.splits prod.splits)
  with replay have "fst (run_mutation ?i (ccr_mutation r) ?g ?body env d) = mutation_done 1 True"
    using env by (simp add: run_mutation_def transaction_def sql_bind_def [of "answer_replay _ _ _"] env_works_def)
  then show ?thesis by (simp add: create_campaign_def Let_def encoded)
qed

section \<open>The creation by the service\<close>

lemma created_request_fits:
  fixes c core snap m
  defines "r \<equiv> create_request c m core snap"
  assumes tables: "tables_wf d" and fresh: "unknown_campaign (c_id c) d"
    and c: "canonical_roster (c_roster c)" and ids: "is_valid_identifier (c_id c)" "is_valid_identifier m"
    and core: "encode_core_state c [] = (Store_None, core)" "length core \<le> 1600"
    and snap: "encode_snapshot_intent c [] = (Store_None, snap)" "length snap \<le> 4400"
    and payload: "is_valid_payload (ccr_payload r)"
  shows "creation_fits r d" "op_rejection (OpCreate r) = Store_None"
proof -
  note some = encoded_not_empty [OF c]
  have "rows_of (c_id c) d = []" using fresh by (simp add: unknown_campaign_def view_def)
  then have "unused_mutation (c_id c) m d" by (intro unused_if_not_journaled [OF tables]) simp
  then show "creation_fits r d"
    using fresh roster_accepted(2) [OF c] some core(1) snap(1)
    by (auto simp: creation_fits_def r_def create_request_def row_recordable_def sendable_def kMaximumRevision_def
        kCampaignOutboxCodecVersion_def kCampaignCoreCodecVersion_def begin_command_payload_def bytes_of_string_def)
  note roster = roster_accepted(1) [OF c]
  have "validate_create r = Store_None"
    using ids payload roster small_payloads(1) [OF core(2)] small_payloads(2) [OF snap(2)]
    unfolding validate_create_def first_error_None
    by (simp add: r_def create_request_def validate_common_mutation_def validate_outbox_def reject_if_def
        kMaximumRevision_def kMaximumKindLength_def kCampaignOutboxCodecVersion_def kCampaignCoreCodecVersion_def)
  moreover have "fst (encode_snapshot (create_projection r)) = Store_None"
  proof -
    have "length (to_roster_records c) \<le> 10" using c by (simp add: to_roster_records_def canonical_roster_def valid_roster_def)
    moreover have "list_all slot_record_valid (to_roster_records c)"
      using roster validate_records_valid by (auto simp: validate_slot_records_def split: if_splits)
    ultimately show ?thesis
      unfolding create_projection_def
      using ids(1) core(2)
      by (simp add: r_def create_request_def is_valid_identifier_def kMaximumIdLength_def new_snapshot_encoded)
  qed
  ultimately show "op_rejection (OpCreate r) = Store_None" by simp
qed

lemma payload_slots_small:
  assumes "valid_roster roster"
  shows "is_valid_payload (begin_command_payload ''CreateCampaign'' @ concat (map payload_slot (map slot_record roster)))"
proof -
  have field: "length (payload_field v) = 4 + length v" for v
    by (simp add: payload_field_def payload_scalar_def scalar_size_def bytes_of_string_def)
  have one: "length (payload_slot (slot_record s)) \<le> 396" if "s \<in> set roster" for s
    using that assms
    by (auto simp: payload_slot_def field slot_record_def valid_roster_def list_all_iff slot_ids_valid_def is_valid_identity_def)
  have "length (concat (map payload_slot (map slot_record ss))) \<le> 396 * length ss" if "set ss \<subseteq> set roster" for ss
    using that by (induction ss) (auto dest: one)
  from this [of roster] have "length (concat (map payload_slot (map slot_record roster))) \<le> 3960"
    using assms by (auto simp: valid_roster_def)
  moreover have "length (begin_command_payload ''CreateCampaign'') = 26"
    by (simp add: begin_command_payload_def field bytes_of_string_def)
  ultimately show ?thesis by (simp add: is_valid_payload_def kMaximumPayloadSize_def)
qed

lemma creation_goes_through:
  assumes wf: "service_wf s" and fresh: "unknown_campaign i (sv_store s)" and works: "store_works env"
    and ids: "is_valid_identifier i" "is_valid_identifier m" and new: "new_lobby_campaign i (map to_slot_state ss) = Inr c"
  shows "fst (svc_result (create_lobby_campaign i m ss) env s) = cmd_ok\<lparr>cmd_version := 1, cmd_applied := True\<rparr>"
proof -
  have c: "c_id c = i" "canonical_roster (c_roster c)" "c_version c = 1" "campaign_wf c"
    using new new_lobby_wf [OF new] by (auto simp: new_lobby_campaign_def campaign_wf_def Let_def split: if_splits)
  have "i \<noteq> []" "length i \<le> 128" using ids(1) by (auto simp: is_valid_identifier_def kMaximumIdLength_def)
  then have valid: "validate_aggregate c = Store_None" "length (c_id c) \<le> 128"
    using campaign_wf_valid [OF c(4)] c(1,3) by simp_all
  obtain core snap where encoded: "encode_core_state c [] = (Store_None, core)" "length core \<le> 1600"
    "encode_snapshot_intent c [] = (Store_None, snap)" "length snap \<le> 4400"
    using core_encoding_size [OF valid(1)] intent_encoding_size [OF valid] by metis
  let ?r = "create_request c m core snap"
  have payload: "is_valid_payload (ccr_payload ?r)"
    using payload_slots_small [of "c_roster c"] c(2)
    by (simp add: create_request_def to_roster_records_def canonical_roster_def)
  note fits = created_request_fits [OF service_tables [OF wf] _ c(2) _ ids(2) encoded payload, unfolded c(1), OF fresh ids(1)]
  have "fst (store_mutate (OpCreate ?r) (call_env env 0) (sv_store s)) = mutation_done 1 True"
    by (rule create_goes_through [OF _ fits]) (use works in \<open>simp add: store_works_def\<close>)
  then obtain d' where "store_mutate (OpCreate ?r) (call_env env 0) (sv_store s) = (mutation_done 1 True, d')"
    by (metis prod.collapse)
  then have "fst (create_lobby_campaign i m ss env (0, s)) = Inr (cmd_ok\<lparr>cmd_version := 1, cmd_applied := True\<rparr>)"
    unfolding create_lobby_campaign_def new sum.case svc_bind_def svc_mutate_def svc_encode_def encoded prod.case
    by (simp add: svc_require_def svc_ret_def from_mutation_result_def mutation_done_def cmd_ok_def del: store_mutate.simps)
  then show ?thesis by (auto simp: svc_result_def split: prod.splits sum.splits)
qed

section \<open>Properties\<close>

text \<open>
  C16: A valid lobby is created. When the store works and knows nothing of the campaign yet and the identities
  of the campaign and the mutation are valid, the creation of a lobby with a valid roster ends with success at version 1, and
  the store then holds exactly the new lobby.
\<close>

theorem valid_lobbies_are_created:
  assumes "service_wf s" "unknown_campaign i (sv_store s)" "store_works env"
    and "is_valid_identifier i" "is_valid_identifier m" and "new_lobby_campaign i (map to_slot_state ss) = Inr c"
  shows "case svc_result (create_lobby_campaign i m ss) env s of (r, s') \<Rightarrow>
    r = cmd_ok\<lparr>cmd_version := 1, cmd_applied := True\<rparr> \<and> stored_campaign i (sv_store s') = Some c"
proof -
  obtain r s' where run: "svc_result (create_lobby_campaign i m ss) env s = (r, s')" by fastforce
  have r: "r = cmd_ok\<lparr>cmd_version := 1, cmd_applied := True\<rparr>"
    using creation_goes_through [OF assms] run by simp
  have "svc_ends (create_lobby_campaign i m ss) env (0, s)
      (\<lambda>r s'. cmd_applied r \<longrightarrow> stored_campaign i (sv_store s') = Some c)
      (\<lambda>r s'. cmd_applied r \<longrightarrow> stored_campaign i (sv_store s') = Some c)"
    by (rule svc_ends_mono [OF ends_created [OF service_ledger [OF assms(1)] assms(2)]])
      (use assms(6) in \<open>auto split: if_splits\<close>)
  from svc_ends_result [OF run this] have "cmd_applied r \<longrightarrow> stored_campaign i (sv_store s') = Some c" .
  with run r show ?thesis by simp
qed

theorem valid_lobbies_are_created_witness:
  "case svc_result (create_lobby_campaign ''d'' ''m2'' [example_member]) quiet_runtime lobby_service of
     (r, s') \<Rightarrow> r = cmd_ok\<lparr>cmd_version := 1, cmd_applied := True\<rparr> \<and>
       stored_campaign ''d'' (sv_store s') = Some (lobby\<lparr>c_id := ''d''\<rparr>)"
proof (rule valid_lobbies_are_created)
  show "new_lobby_campaign ''d'' (map to_slot_state [example_member]) = Inr (lobby\<lparr>c_id := ''d''\<rparr>)"
    by code_simp
  show "unknown_campaign ''d'' (sv_store lobby_service)"
    by (simp add: unknown_campaign_def view_def contents_def find_campaign_def slots_of_def builds_of_def
        adapters_of_def rows_of_def lobby_store_def lobby_record_def lobby_row_def empty_database_def)
qed (simp_all add: lobby_facts store_works_def env_works_def quiet_runtime_def quiet_env_def is_valid_identifier_def
    kMaximumIdLength_def less_eq_char_def)

end
