(* ===== verification/LobbyDirectory.thy ===== *)
theory LobbyDirectory
  imports WireIdentity Histories
begin

text \<open>
  \<open>campaign_protocol/CampaignLobbyDirectory.cpp\<close>: the join codes under which the lobbies of campaigns are
  found, and the display names of their members. The two unordered maps are maps; a pointer into
  the first is the code it is found under. The generator of codes is a parameter: \<open>gen k\<close> is the \<open>k\<close>-th
  code it makes. Exceptions of the allocator are left out.
\<close>

record LobbyAlias =
  la_code :: string
  la_campaign :: string
  la_party :: u32
  la_names :: "string \<Rightarrow> string option"

record LobbyDirectory =
  ld_attempts :: nat
  ld_calls :: nat
  ld_by_code :: "string \<Rightarrow> LobbyAlias option"
  ld_code_of :: "string \<Rightarrow> string option"

definition new_directory :: "nat \<Rightarrow> LobbyDirectory" where
  "new_directory attempts =
     \<lparr>ld_attempts = attempts, ld_calls = 0, ld_by_code = Map.empty, ld_code_of = Map.empty\<rparr>"

text \<open>The default generator: \<open>draw i\<close> is the \<open>i\<close>-th value of the uniform distribution over the alphabet.\<close>

definition generate_random_code :: "(nat \<Rightarrow> nat) \<Rightarrow> string" where
  "generate_random_code draw = map (\<lambda>i. kCampaignJoinCodeAlphabet ! draw i) [0..<kCampaignJoinCodeLength]"

text \<open>\<open>emplace\<close> keeps an entry that is there.\<close>

definition emplace :: "'k \<Rightarrow> 'v \<Rightarrow> ('k \<Rightarrow> 'v option) \<Rightarrow> 'k \<Rightarrow> 'v option" where
  "emplace k v m = (case m k of None \<Rightarrow> m(k \<mapsto> v) | Some _ \<Rightarrow> m)"

definition resolve_code :: "LobbyDirectory \<Rightarrow> string \<Rightarrow> LobbyAlias option" where
  "resolve_code d code = (case normalize_join_code code of None \<Rightarrow> None | Some c \<Rightarrow> ld_by_code d c)"

definition find_lobby :: "LobbyDirectory \<Rightarrow> string \<Rightarrow> LobbyAlias option" where
  "find_lobby d campaign = (case ld_code_of d campaign of None \<Rightarrow> None | Some c \<Rightarrow> ld_by_code d c)"

text \<open>A change through the pointer that \<open>FindByCampaign\<close> returns.\<close>

definition update_lobby :: "string \<Rightarrow> (LobbyAlias \<Rightarrow> LobbyAlias) \<Rightarrow> LobbyDirectory \<Rightarrow> LobbyDirectory" where
  "update_lobby campaign f d =
     (case (ld_code_of d campaign, find_lobby d campaign) of
        (Some c, Some a) \<Rightarrow> d\<lparr>ld_by_code := (ld_by_code d)(c \<mapsto> f a)\<rparr>
      | _ \<Rightarrow> d)"

definition add_lobby :: "string \<Rightarrow> string \<Rightarrow> u32 \<Rightarrow> LobbyDirectory \<Rightarrow> LobbyDirectory" where
  "add_lobby code campaign party d =
     d\<lparr>ld_code_of := emplace campaign code (ld_code_of d),
       ld_by_code := emplace code
         \<lparr>la_code = code, la_campaign = campaign, la_party = party, la_names = Map.empty\<rparr> (ld_by_code d)\<rparr>"

text \<open>The loop of \<open>Allocate\<close>: each attempt takes a code from the generator.\<close>

fun allocate_code :: "(nat \<Rightarrow> string) \<Rightarrow> string \<Rightarrow> u32 \<Rightarrow> nat \<Rightarrow> LobbyDirectory \<Rightarrow> string option \<times> LobbyDirectory" where
  "allocate_code gen campaign party 0 d = (None, d)"
| "allocate_code gen campaign party (Suc n) d =
     (let d' = d\<lparr>ld_calls := Suc (ld_calls d)\<rparr> in
      case normalize_join_code (gen (ld_calls d)) of
        None \<Rightarrow> allocate_code gen campaign party n d'
      | Some code \<Rightarrow>
          if ld_by_code d' code \<noteq> None then allocate_code gen campaign party n d'
          else (Some code, add_lobby code campaign party d'))"

definition allocate_lobby ::
  "(nat \<Rightarrow> string) \<Rightarrow> string \<Rightarrow> u32 \<Rightarrow> LobbyDirectory \<Rightarrow> string option \<times> LobbyDirectory" where
  "allocate_lobby gen campaign party d =
     (if campaign = [] then (None, d)
      else case find_lobby d campaign of
        Some a \<Rightarrow> (Some (la_code a), update_lobby campaign (la_party_update (\<lambda>_. party)) d)
      | None \<Rightarrow> allocate_code gen campaign party (ld_attempts d) d)"

definition remember_name :: "string \<Rightarrow> string \<Rightarrow> string \<Rightarrow> LobbyDirectory \<Rightarrow> LobbyDirectory" where
  "remember_name campaign player name d =
     (case (find_lobby d campaign, normalize_display_name name) of
        (Some a, Some normalized) \<Rightarrow>
          if player = [] then d
          else update_lobby campaign (la_names_update (\<lambda>m. m(player \<mapsto> normalized))) d
      | _ \<Rightarrow> d)"

definition forget_name :: "string \<Rightarrow> string \<Rightarrow> LobbyDirectory \<Rightarrow> LobbyDirectory" where
  "forget_name campaign player d = update_lobby campaign (la_names_update (\<lambda>m. m(player := None))) d"

definition invalidate_lobby :: "string \<Rightarrow> LobbyDirectory \<Rightarrow> LobbyDirectory" where
  "invalidate_lobby campaign d =
     (case ld_code_of d campaign of
        None \<Rightarrow> d
      | Some c \<Rightarrow> d\<lparr>ld_by_code := (ld_by_code d)(c := None), ld_code_of := (ld_code_of d)(campaign := None)\<rparr>)"

datatype DirectoryOp =
    DirectoryAllocate string u32 | DirectoryRemember string string string | DirectoryForget string string
  | DirectoryInvalidate string

fun directory_perform :: "(nat \<Rightarrow> string) \<Rightarrow> LobbyDirectory \<Rightarrow> DirectoryOp \<Rightarrow> LobbyDirectory \<times> string option" where
  "directory_perform gen d (DirectoryAllocate campaign party) = prod.swap (allocate_lobby gen campaign party d)"
| "directory_perform gen d (DirectoryRemember campaign player name) = (remember_name campaign player name d, None)"
| "directory_perform gen d (DirectoryForget campaign player) = (forget_name campaign player d, None)"
| "directory_perform gen d (DirectoryInvalidate campaign) = (invalidate_lobby campaign d, None)"

section \<open>Codes and campaigns correspond\<close>

definition alias_wf :: "string \<Rightarrow> LobbyAlias \<Rightarrow> bool" where
  "alias_wf code a \<longleftrightarrow> la_code a = code \<and> normalize_join_code code = Some code \<and> la_campaign a \<noteq> [] \<and>
     (\<forall>player name. la_names a player = Some name \<longrightarrow> player \<noteq> [] \<and> normalize_display_name name = Some name)"

definition directory_wf :: "LobbyDirectory \<Rightarrow> bool" where
  "directory_wf d \<longleftrightarrow>
     (\<forall>code a. ld_by_code d code = Some a \<longrightarrow> alias_wf code a \<and> ld_code_of d (la_campaign a) = Some code) \<and>
     (\<forall>campaign code. ld_code_of d campaign = Some code \<longrightarrow>
        (\<exists>a. ld_by_code d code = Some a \<and> la_campaign a = campaign))"

lemma directory_wfD:
  assumes "directory_wf d"
  shows "ld_by_code d code = Some a \<Longrightarrow> alias_wf code a"
    and "ld_by_code d code = Some a \<Longrightarrow> ld_code_of d (la_campaign a) = Some code"
    and "ld_code_of d campaign = Some code \<Longrightarrow> \<exists>a. ld_by_code d code = Some a \<and> la_campaign a = campaign"
  using assms by (auto simp: directory_wf_def)

lemma wf_update:
  assumes wf: "directory_wf d" and same: "\<And>a. la_campaign (f a) = la_campaign a"
    and "\<And>code a. alias_wf code a \<Longrightarrow> alias_wf code (f a)"
  shows "directory_wf (update_lobby campaign f d)"
  using assms directory_wfD [OF wf]
  by (fastforce simp: update_lobby_def find_lobby_def directory_wf_def split: option.splits)

lemma find_lobby_None: "directory_wf d \<Longrightarrow> find_lobby d campaign = None \<longleftrightarrow> ld_code_of d campaign = None"
  by (auto simp: find_lobby_def split: option.split dest: directory_wfD(3))

lemma normalized_code: "normalize_join_code s = Some t \<Longrightarrow> normalize_join_code t = Some t"
  using join_code_chars_length [of s t] join_code_chars_fixed [OF join_code_chars_alphabet]
  by (auto simp: normalize_join_code_def split: if_splits)

lemma wf_add:
  assumes "directory_wf d" "ld_by_code d code = None" "ld_code_of d campaign = None" "campaign \<noteq> []"
    "normalize_join_code s = Some code"
  shows "directory_wf (add_lobby code campaign party d)"
proof -
  let ?a = "\<lparr>la_code = code, la_campaign = campaign, la_party = party, la_names = Map.empty\<rparr>"
  have add: "ld_code_of (add_lobby code campaign party d) = (ld_code_of d)(campaign \<mapsto> code)"
    "ld_by_code (add_lobby code campaign party d) = (ld_by_code d)(code \<mapsto> ?a)"
    using assms(2,3) by (simp_all add: add_lobby_def emplace_def)
  have "alias_wf code ?a" using assms(4) normalized_code [OF assms(5)] by (simp add: alias_wf_def)
  moreover have "la_campaign a \<noteq> campaign" if "ld_by_code d c = Some a" for c a
    using directory_wfD(2) [OF assms(1) that] assms(3) by auto
  moreover have "c \<noteq> code" if "ld_code_of d i = Some c" for i c
    using directory_wfD(3) [OF assms(1) that] assms(2) by auto
  ultimately show ?thesis
    using directory_wfD [OF assms(1)] unfolding directory_wf_def add by auto
qed

lemma allocation_loop:
  assumes "directory_wf d" "ld_code_of d campaign = None" "campaign \<noteq> []"
    "allocate_code gen campaign party n d = (r, d')"
  shows "directory_wf d' \<and> (case r of
      None \<Rightarrow> ld_by_code d' = ld_by_code d \<and> ld_code_of d' = ld_code_of d
    | Some code \<Rightarrow> ld_by_code d code = None \<and> ld_code_of d' = (ld_code_of d)(campaign \<mapsto> code) \<and>
        ld_by_code d' = (ld_by_code d)(code \<mapsto>
          \<lparr>la_code = code, la_campaign = campaign, la_party = party, la_names = Map.empty\<rparr>))"
  using assms
proof (induction n arbitrary: d)
  case (Suc n)
  let ?d = "d\<lparr>ld_calls := Suc (ld_calls d)\<rparr>"
  have wf: "directory_wf ?d" using Suc.prems(1) by (simp add: directory_wf_def)
  note again = Suc.IH [OF wf _ Suc.prems(3)]
  show ?case
  proof (cases "normalize_join_code (gen (ld_calls d))")
    case None
    with Suc.prems again show ?thesis by (simp split: option.splits)
  next
    case (Some code)
    show ?thesis
    proof (cases "ld_by_code d code")
      case None
      with Suc.prems(4) Some have r: "r = Some code" "d' = add_lobby code campaign party ?d" by auto
      have "directory_wf d'" unfolding r(2) by (rule wf_add [OF wf _ _ Suc.prems(3) Some]) (use None Suc.prems(2) in simp_all)
      then show ?thesis using None Suc.prems(2) unfolding r by (simp add: add_lobby_def emplace_def)
    qed (use Suc.prems Some again in \<open>simp split: option.splits\<close>)
  qed
qed simp

lemma wf_allocate:
  assumes "directory_wf d"
  shows "directory_wf (snd (allocate_lobby gen campaign party d))"
proof (cases "campaign = [] \<or> find_lobby d campaign \<noteq> None")
  case True
  then show ?thesis
    by (auto simp: allocate_lobby_def assms intro!: wf_update) (auto simp: alias_wf_def)
next
  case False
  then have "ld_code_of d campaign = None" using find_lobby_None [OF assms] by simp
  moreover obtain r d' where loop: "allocate_code gen campaign party (ld_attempts d) d = (r, d')" by fastforce
  ultimately have "directory_wf d'" using allocation_loop [OF assms _ _ loop] False by blast
  with False loop show ?thesis by (auto simp: allocate_lobby_def)
qed

lemma wf_invalidate: "directory_wf d \<Longrightarrow> directory_wf (invalidate_lobby campaign d)"
  by (auto simp: invalidate_lobby_def directory_wf_def split: option.splits) (metis option.inject)

lemma wf_directory_perform: "directory_wf d \<Longrightarrow> directory_wf (fst (directory_perform gen d op))"
  by (cases op)
    (auto simp: wf_allocate wf_invalidate remember_name_def forget_name_def
      dest: display_name_facts(1) split: option.split intro!: wf_update simp: alias_wf_def)

interpretation directory_machine: op_machine "directory_perform gen" directory_wf for gen
  by unfold_locales (rule wf_directory_perform)

lemma new_directory_wf: "directory_wf (new_directory n)"
  by (simp add: directory_wf_def new_directory_def)

lemma run_directory_wf: "directory_wf (run_ops (directory_perform gen) (new_directory n) xs)"
  by (rule directory_machine.run_wf [OF new_directory_wf])

lemma resolve_wf:
  assumes "directory_wf d" "resolve_code d s = Some a"
  shows "normalize_join_code s = Some (la_code a) \<and> find_lobby d (la_campaign a) = Some a"
proof -
  from assms(2) obtain c where c: "normalize_join_code s = Some c" "ld_by_code d c = Some a"
    by (auto simp: resolve_code_def split: option.splits)
  from directory_wfD(1,2) [OF assms(1) c(2)] c show ?thesis by (simp add: alias_wf_def find_lobby_def)
qed

lemma find_wf:
  assumes "directory_wf d" "find_lobby d campaign = Some a"
  shows "la_campaign a = campaign \<and> resolve_code d (la_code a) = Some a"
proof -
  from assms(2) obtain c where c: "ld_code_of d campaign = Some c" "ld_by_code d c = Some a"
    by (auto simp: find_lobby_def split: option.splits)
  with directory_wfD(1,3) [OF assms(1)] show ?thesis by (fastforce simp: alias_wf_def resolve_code_def)
qed

section \<open>What the directory promises\<close>

text \<open>
  Codes and campaigns correspond: after any operations, a code that resolves is, up to case, the code of
  the one lobby it resolves to, a campaign has at most one lobby, and it is found by its code. A code is never
  shared, and every display name kept is canonical.
\<close>

theorem lobby_codes_correspond:
  "let d = run_ops (directory_perform gen) (new_directory n) xs in
     (resolve_code d s = Some a \<longrightarrow> normalize_join_code s = Some (la_code a) \<and> find_lobby d (la_campaign a) = Some a) \<and>
     (find_lobby d campaign = Some a \<longrightarrow> la_campaign a = campaign \<and> resolve_code d (la_code a) = Some a \<and>
        (\<forall>player name. la_names a player = Some name \<longrightarrow> is_valid_display_name name))"
proof -
  let ?d = "run_ops (directory_perform gen) (new_directory n) xs"
  have wf: "directory_wf ?d" by (rule run_directory_wf)
  have "is_valid_display_name name" if "find_lobby ?d campaign = Some a" "la_names a player = Some name" for player name
    using that directory_wfD(1) [OF wf]
    by (fastforce simp: find_lobby_def alias_wf_def is_valid_display_name_def split: option.splits)
  with resolve_wf [OF wf] find_wf [OF wf] show ?thesis unfolding Let_def by blast
qed

lemma allocation_fails:
  "fst (allocate_code gen campaign party n d) = None \<longleftrightarrow>
     (\<forall>k<n. resolve_code d (gen (ld_calls d + k)) \<noteq> None \<or> normalize_join_code (gen (ld_calls d + k)) = None)"
proof (induction n arbitrary: d)
  case (Suc n)
  have "resolve_code (d\<lparr>ld_calls := m\<rparr>) = resolve_code d" for m by (simp add: resolve_code_def fun_eq_iff split: option.split)
  with Suc [of "d\<lparr>ld_calls := Suc (ld_calls d)\<rparr>"] show ?case
    unfolding All_less_Suc2 by (auto simp: resolve_code_def Let_def split: option.splits)
qed simp

lemma update_keeps_others:
  assumes "directory_wf d" "j \<noteq> campaign"
  shows "find_lobby (update_lobby campaign f d) j = find_lobby d j"
proof -
  have "c \<noteq> c'" if "ld_code_of d campaign = Some c" "ld_code_of d j = Some c'" for c c'
    using that assms(2) directory_wfD(3) [OF assms(1) that(1)] directory_wfD(3) [OF assms(1) that(2)] by auto
  then have "ld_by_code (update_lobby campaign f d) c' = ld_by_code d c'" if "ld_code_of d j = Some c'" for c'
    using that by (fastforce simp: update_lobby_def split: option.split)
  moreover have "ld_code_of (update_lobby campaign f d) = ld_code_of d"
    by (simp add: update_lobby_def split: option.split)
  ultimately show ?thesis by (simp add: find_lobby_def split: option.split)
qed

lemma allocation_of_known:
  assumes wf: "directory_wf d" and known: "find_lobby d campaign = Some a" and "campaign \<noteq> []"
    and run: "allocate_lobby gen campaign party d = (r, d')"
  shows "r = Some (la_code a) \<and> find_lobby d' campaign = Some (a\<lparr>la_party := party\<rparr>) \<and>
    resolve_code d' (la_code a) = Some (a\<lparr>la_party := party\<rparr>) \<and>
    (\<forall>j. j \<noteq> campaign \<longrightarrow> find_lobby d' j = find_lobby d j)"
proof -
  let ?f = "la_party_update (\<lambda>_. party)"
  have r: "r = Some (la_code a)" "d' = update_lobby campaign ?f d"
    using run known assms(3) by (simp_all add: allocate_lobby_def)
  have wf': "directory_wf d'" unfolding r(2) by (intro wf_update wf) (auto simp: alias_wf_def)
  have "find_lobby d' campaign = Some (?f a)"
    using known unfolding r(2) by (auto simp: update_lobby_def find_lobby_def split: option.splits)
  with find_wf [OF wf' this] r(1) update_keeps_others [OF wf] show ?thesis unfolding r(2) by simp
qed

lemma allocation_of_new:
  assumes wf: "directory_wf d" and new: "find_lobby d campaign = None" and "campaign \<noteq> []"
    and run: "allocate_lobby gen campaign party d = (r, d')"
  shows "(\<forall>code. r = Some code \<longrightarrow> resolve_code d code = None \<and>
      (\<exists>a. find_lobby d' campaign = Some a \<and> resolve_code d' code = Some a \<and> la_party a = party)) \<and>
    (\<forall>j. j \<noteq> campaign \<longrightarrow> find_lobby d' j = find_lobby d j)"
proof -
  have none: "ld_code_of d campaign = None" using find_lobby_None [OF wf] new by simp
  have loop: "allocate_code gen campaign party (ld_attempts d) d = (r, d')"
    using run new assms(3) by (simp add: allocate_lobby_def)
  note made = allocation_loop [OF wf none assms(3) loop]
  show ?thesis
  proof (cases r)
    case None
    with made show ?thesis by (simp add: find_lobby_def split: option.split)
  next
    case (Some code)
    let ?a = "\<lparr>la_code = code, la_campaign = campaign, la_party = party, la_names = Map.empty\<rparr>"
    from made Some have d': "ld_by_code d code = None" "ld_code_of d' = (ld_code_of d)(campaign \<mapsto> code)"
      "ld_by_code d' = (ld_by_code d)(code \<mapsto> ?a)" "directory_wf d'" by simp_all
    have found: "find_lobby d' campaign = Some ?a" using d' by (simp add: find_lobby_def)
    have "resolve_code d' code = Some ?a" using find_wf [OF d'(4) found] by simp
    moreover have "resolve_code d code = None"
      using calculation d'(1) resolve_wf [OF d'(4) calculation] by (simp add: resolve_code_def)
    moreover have "find_lobby d' j = find_lobby d j" if "j \<noteq> campaign" for j
      using that d' directory_wfD(3) [OF wf, of j] by (auto simp: find_lobby_def split: option.split)
    ultimately show ?thesis using found Some by auto
  qed
qed

text \<open>
  C40: Allocating a code is exact: it fails only without a campaign id, or for a campaign without a lobby when none
  of the codes that the attempts draw is free; otherwise the code that it returns, a new one or that of the
  campaign's lobby, resolves to the campaign with its party, and the lobbies of the others stay.
\<close>

theorem lobby_allocation_exact:
  "let d = run_ops (directory_perform gen) (new_directory n) xs; (r, d') = allocate_lobby gen campaign party d in
     (r = None \<longleftrightarrow> campaign = [] \<or> find_lobby d campaign = None \<and> (\<forall>k<ld_attempts d.
        resolve_code d (gen (ld_calls d + k)) \<noteq> None \<or> normalize_join_code (gen (ld_calls d + k)) = None)) \<and>
     (\<forall>code. r = Some code \<longrightarrow> (\<exists>a. resolve_code d' code = Some a \<and> find_lobby d' campaign = Some a \<and> la_party a = party)) \<and>
     (\<forall>j. j \<noteq> campaign \<longrightarrow> find_lobby d' j = find_lobby d j)"
proof -
  let ?d = "run_ops (directory_perform gen) (new_directory n) xs"
  have wf: "directory_wf ?d" by (rule run_directory_wf)
  obtain r d' where run: "allocate_lobby gen campaign party ?d = (r, d')" by fastforce
  consider "campaign = []" | (known) a where "campaign \<noteq> []" "find_lobby ?d campaign = Some a"
    | (new) "campaign \<noteq> []" "find_lobby ?d campaign = None" by blast
  then show ?thesis
  proof cases
    case 1
    with run show ?thesis by (simp add: allocate_lobby_def)
  next
    case known
    with allocation_of_known [OF wf known(2,1) run] run show ?thesis by (simp add: Let_def)
  next
    case new
    have "r = fst (allocate_code gen campaign party (ld_attempts ?d) ?d)"
      using run new by (simp add: allocate_lobby_def)
    with new allocation_of_new [OF wf new(2,1) run] run allocation_fails [of gen campaign party "ld_attempts ?d" ?d]
    show ?thesis by (auto simp: Let_def)
  qed
qed

theorem lobby_allocation_exact_witness:
  "case allocate_lobby (\<lambda>_. ''a7k2'') ''c'' 5 (new_directory 1) of (r, d') \<Rightarrow>
     r = Some ''A7K2'' \<and> (\<exists>a. resolve_code d' ''A7K2'' = Some a \<and> find_lobby d' ''c'' = Some a \<and> la_party a = 5)"
proof -
  have "fst (allocate_lobby (\<lambda>_. ''a7k2'') ''c'' 5 (new_directory 1)) = Some ''A7K2''" by code_simp
  with lobby_allocation_exact [of "\<lambda>_. ''a7k2''" 1 "[]" "''c''" 5] show ?thesis by (auto simp: Let_def)
qed

end
