(* ===== verification/CampaignAdmission.thy ===== *)
theory CampaignAdmission
  imports RuntimeRequests WireIdentity
begin

text \<open>
  \<open>campaign_protocol/CampaignAdmissionService.cpp\<close>: the connections of players, their admission to a
  campaign, and the protocol commands that they may send. The service has the campaign service behind
  it and hands each of its calls an environment of its own, \<open>adm_runtime\<close> by the number of the call. The
  generator of ids is a parameter, \<open>adm_id\<close> by the prefix: no operation asks for a prefix twice. A pointer
  to a record is the connection it is found by. Messages and exceptions are left out.
\<close>

section \<open>Connections\<close>

record AdmissionRecord =
  cn_connection :: u64
  cn_player :: DurablePlayerId
  cn_admitted :: "CampaignMemberIdentity option"
  cn_previous :: "CampaignMemberIdentity option"

record AdmissionService =
  as_runtime :: RuntimeService
  as_connections :: "AdmissionRecord list"

definition new_admission :: "RuntimeService \<Rightarrow> AdmissionService" where
  "new_admission rt = \<lparr>as_runtime = rt, as_connections = []\<rparr>"

definition is_lower_hex :: "char \<Rightarrow> bool" where
  "is_lower_hex c \<longleftrightarrow> between CHR ''0'' CHR ''9'' c \<or> between CHR ''a'' CHR ''f'' c"

definition is_valid_player_id :: "string \<Rightarrow> bool" where
  "is_valid_player_id s \<longleftrightarrow> length s = 64 \<and> list_all is_lower_hex s"

text \<open>\<open>IsValidProtocolId\<close> is the check of a wire id that is not empty.\<close>

definition is_valid_protocol_id :: "string \<Rightarrow> bool" where
  "is_valid_protocol_id s \<longleftrightarrow> (if s = [] \<or> length s > kCampaignWireMaximumIdLength then False else list_all id_char s)"

text \<open>The text up to a zero byte, as \<open>c_str()\<close> gives it to a \<open>TiltedPhoques::String\<close>.\<close>

definition c_str :: "string \<Rightarrow> string" where
  "c_str s = takeWhile (\<lambda>c. c \<noteq> CHR 0x00) s"

definition find_connection :: "u64 \<Rightarrow> AdmissionRecord list \<Rightarrow> AdmissionRecord option" where
  "find_connection c rs = find (\<lambda>r. cn_connection r = c) rs"

fun update_connection :: "u64 \<Rightarrow> (AdmissionRecord \<Rightarrow> AdmissionRecord) \<Rightarrow> AdmissionRecord list \<Rightarrow> AdmissionRecord list" where
  "update_connection c f [] = []"
| "update_connection c f (r # rs) = (if cn_connection r = c then f r # rs else r # update_connection c f rs)"

datatype ConnectionRegistration = RegistrationAccepted | InvalidPlayerId | DuplicateActivePlayerId

definition register_connection ::
  "u64 \<Rightarrow> string \<Rightarrow> AdmissionRecord list \<Rightarrow> ConnectionRegistration \<times> AdmissionRecord list" where
  "register_connection c player rs =
     (if \<not> is_valid_player_id player then (InvalidPlayerId, rs)
      else if find (\<lambda>r. cn_connection r \<noteq> c \<and> cn_player r = player) rs \<noteq> None then (DuplicateActivePlayerId, rs)
      else case find_connection c rs of
        Some r \<Rightarrow> (if cn_player r = player then RegistrationAccepted else DuplicateActivePlayerId, rs)
      | None \<Rightarrow> (RegistrationAccepted,
          rs @ [\<lparr>cn_connection = c, cn_player = player, cn_admitted = None, cn_previous = None\<rparr>]))"

definition admitted_to :: "CampaignId \<Rightarrow> AdmissionRecord \<Rightarrow> bool" where
  "admitted_to i r \<longleftrightarrow> (case cn_admitted r of None \<Rightarrow> False | Some m \<Rightarrow> mi_campaign m = i)"

definition build_presence :: "CampaignId \<Rightarrow> AdmissionRecord list \<Rightarrow> CampaignMemberPresence list" where
  "build_presence i rs =
     map (\<lambda>r. \<lparr>mp_identity = the (cn_admitted r), transport_connected = True, campaign_admitted = True\<rparr>)
       (filter (admitted_to i) rs)"

definition get_admitted_connections :: "CampaignId \<Rightarrow> AdmissionRecord list \<Rightarrow> u64 list" where
  "get_admitted_connections i rs = map cn_connection (filter (admitted_to i) rs)"

section \<open>The recipients of a recovery\<close>

datatype RecoveryRecipientError =
    RecipientNone | InvalidCheckpointRoster | MissingCurrentAdmission | DuplicateCurrentAdmission
  | UnexpectedCurrentAdmission

record RecoveryRecipientPlan =
  rp_error :: RecoveryRecipientError
  rp_required :: nat
  rp_recipients :: "(u64 \<times> CampaignMemberIdentity) list"
  rp_failed :: "CampaignMemberIdentity option"

definition plan_succeeded :: "RecoveryRecipientPlan \<Rightarrow> bool" where
  "plan_succeeded p \<longleftrightarrow> rp_error p = RecipientNone \<and> rp_required p \<noteq> 0 \<and> length (rp_recipients p) = rp_required p"

definition slot_identity :: "CampaignId \<Rightarrow> CheckpointSlotRecord \<Rightarrow> CampaignMemberIdentity" where
  "slot_identity i s = \<lparr>mi_campaign = i, mi_slot = cs_slot s, mi_player = cs_player s, mi_binding = cs_binding s\<rparr>"

text \<open>The loop over the slots; the inner loop stops at the second match.\<close>

fun collect_recipients ::
  "AdmissionRecord list \<Rightarrow> CampaignId \<Rightarrow> CheckpointSlotRecord list \<Rightarrow> RecoveryRecipientPlan \<Rightarrow> RecoveryRecipientPlan" where
  "collect_recipients rs i [] p =
     (if length (filter (admitted_to i) rs) \<noteq> rp_required p then p\<lparr>rp_error := UnexpectedCurrentAdmission\<rparr> else p)"
| "collect_recipients rs i (s # ss) p =
     (let expected = slot_identity i s in
      case filter (\<lambda>r. cn_admitted r = Some expected) rs of
        [] \<Rightarrow> p\<lparr>rp_error := MissingCurrentAdmission, rp_failed := Some expected\<rparr>
      | [r] \<Rightarrow> collect_recipients rs i ss (p\<lparr>rp_recipients := rp_recipients p @ [(cn_connection r, expected)]\<rparr>)
      | _ \<Rightarrow> p\<lparr>rp_error := DuplicateCurrentAdmission, rp_failed := Some expected\<rparr>)"

definition prepare_recovery_recipients :: "AdmissionRecord list \<Rightarrow> CheckpointRecord \<Rightarrow> RecoveryRecipientPlan" where
  "prepare_recovery_recipients rs ck =
     (let p = \<lparr>rp_error = RecipientNone, rp_required = length (ck_slots ck), rp_recipients = [], rp_failed = None\<rparr> in
      if ck_campaign ck = [] \<or> ck_slots ck = [] \<or> length (ck_slots ck) > kMaximumCampaignRosterSize
      then p\<lparr>rp_error := InvalidCheckpointRoster\<rparr>
      else collect_recipients rs (ck_campaign ck) (ck_slots ck) p)"

section \<open>Answers\<close>

datatype ProtocolOperation =
    ProtocolCreate | ProtocolJoin | ProtocolResume | ProtocolStart | ProtocolSetReady | ProtocolLeave
  | ProtocolJoinByCode

datatype ProtocolOutcome =
    OutApplied | OutAcceptedNoOp | OutIdempotentReplay | OutInvalidRequest | OutUnauthorized | OutSessionMismatch
  | OutCampaignNotFound | OutNotAdmitted | OutRosterSealed | OutRosterNotSealed | OutIdentityMismatch
  | OutBindingMismatch | OutDuplicateIdentity | OutStaleRevision | OutIdempotencyConflict | OutRosterIncomplete
  | OutPersistenceFailure | OutExistingMembershipRequiresResume | OutInvalidJoinCode | OutJoinCodeUnavailable
  | OutPartyAlignmentFailed

record ProtocolAnswer =
  pa_operation :: ProtocolOperation
  pa_result :: ProtocolOutcome
  pa_mutation :: string
  pa_campaign :: string
  pa_version :: StateVersion
  pa_slot :: string
  pa_binding :: string
  pa_join_code :: string
  pa_snapshot :: "WireSnapshot option"

definition answer_succeeded :: "ProtocolAnswer \<Rightarrow> bool" where
  "answer_succeeded a \<longleftrightarrow> pa_result a = OutApplied \<or> pa_result a = OutAcceptedNoOp \<or> pa_result a = OutIdempotentReplay"

definition protocol_failure :: "ProtocolOperation \<Rightarrow> ProtocolOutcome \<Rightarrow> string \<Rightarrow> ProtocolAnswer" where
  "protocol_failure op r campaign =
     \<lparr>pa_operation = op, pa_result = r, pa_mutation = [], pa_campaign = campaign, pa_version = 0, pa_slot = [],
      pa_binding = [], pa_join_code = [], pa_snapshot = None\<rparr>"

fun outcome_of_error :: "CampaignError \<Rightarrow> ProtocolOutcome" where
  "outcome_of_error CampaignStaleRevision = OutStaleRevision"
| "outcome_of_error RosterSealed = OutRosterSealed"
| "outcome_of_error RosterNotSealed = OutRosterNotSealed"
| "outcome_of_error UnauthorizedActor = OutUnauthorized"
| "outcome_of_error NotCampaignMember = OutIdentityMismatch"
| "outcome_of_error RosterIncomplete = OutRosterIncomplete"
| "outcome_of_error NoCampaignError = OutPersistenceFailure"
| "outcome_of_error TransitionNotImplemented = OutPersistenceFailure"
| "outcome_of_error PersistenceFailure = OutPersistenceFailure"
| "outcome_of_error IntegrityFailure = OutPersistenceFailure"
| "outcome_of_error e = OutInvalidRequest"

definition map_command_result :: "CommandResult \<Rightarrow> ProtocolOutcome" where
  "map_command_result r =
     (if cmd_error r = NoCampaignError
      then if cmd_replay r then OutIdempotentReplay else if cmd_applied r then OutApplied else OutAcceptedNoOp
      else if cmd_store r = Store_IdempotencyConflict then OutIdempotencyConflict
      else if cmd_store r = Store_NotFound then OutCampaignNotFound
      else outcome_of_error (cmd_error r))"

definition from_command :: "ProtocolOperation \<Rightarrow> string \<Rightarrow> CommandResult \<Rightarrow> ProtocolAnswer" where
  "from_command op campaign r = (protocol_failure op (map_command_result r) campaign)\<lparr>pa_version := cmd_version r\<rparr>"

definition map_load_failure :: "CommandResult \<Rightarrow> ProtocolOutcome" where
  "map_load_failure r = (if cmd_store r = Store_NotFound then OutCampaignNotFound else OutPersistenceFailure)"

section \<open>Operations over the campaign service\<close>

record AdmissionEnv =
  adm_runtime :: "nat \<Rightarrow> RuntimeEnv"
  adm_id :: "string \<Rightarrow> string"

text \<open>The state is the number of calls of the campaign service so far and the admission service.\<close>

type_synonym ('e, 'a) adm = "AdmissionEnv \<Rightarrow> nat \<times> AdmissionService \<Rightarrow> ('e + 'a) \<times> nat \<times> AdmissionService"

definition adm_ret :: "'a \<Rightarrow> ('e, 'a) adm" where
  "adm_ret x = (\<lambda>env s. (Inr x, s))"

definition adm_fail :: "'e \<Rightarrow> ('e, 'a) adm" where
  "adm_fail e = (\<lambda>env s. (Inl e, s))"

definition adm_bind :: "('e, 'a) adm \<Rightarrow> ('a \<Rightarrow> ('e, 'b) adm) \<Rightarrow> ('e, 'b) adm" where
  "adm_bind m k = (\<lambda>env s. case m env s of (Inl e, s') \<Rightarrow> (Inl e, s') | (Inr x, s') \<Rightarrow> k x env s')"

definition adm_require :: "bool \<Rightarrow> 'e \<Rightarrow> ('e, unit) adm" where
  "adm_require b e = (if b then adm_ret () else adm_fail e)"

definition adm_get :: "(AdmissionRecord list \<Rightarrow> 'a) \<Rightarrow> ('e, 'a) adm" where
  "adm_get f = (\<lambda>env (k, s). (Inr (f (as_connections s)), k, s))"

definition adm_put :: "(AdmissionRecord list \<Rightarrow> AdmissionRecord list) \<Rightarrow> ('e, unit) adm" where
  "adm_put f = (\<lambda>env (k, s). (Inr (), k, s\<lparr>as_connections := f (as_connections s)\<rparr>))"

definition generate_id :: "string \<Rightarrow> ('e, string) adm" where
  "generate_id kind = (\<lambda>env s. (Inr (adm_id env kind), s))"

text \<open>A call of the campaign service, whose early returns are results like its end.\<close>

definition adm_call :: "('d, 'a) svc \<Rightarrow> ('e, 'd + 'a) adm" where
  "adm_call m = (\<lambda>env (k, s). case m (adm_runtime env k) (0, as_runtime s) of
     (r, _, rt) \<Rightarrow> (Inr r, Suc k, s\<lparr>as_runtime := rt\<rparr>))"

definition either :: "'a + 'a \<Rightarrow> 'a" where
  "either x = (case x of Inl a \<Rightarrow> a | Inr a \<Rightarrow> a)"

definition adm_handler :: "('r, 'r) svc \<Rightarrow> ('e, 'r) adm" where
  "adm_handler m = adm_bind (adm_call m) (\<lambda>r. adm_ret (either r))"

section \<open>The public snapshot\<close>

fun runtime_state_code :: "CampaignRuntimeState \<Rightarrow> u8" where
  "runtime_state_code WAITING_FOR_ROSTER = 0"
| "runtime_state_code ACTIVE = 1"
| "runtime_state_code CHECKPOINTING = 2"
| "runtime_state_code RECOVERY_LOCK = 3"
| "runtime_state_code RESTORING_CHECKPOINT = 4"

definition slot_present :: "CampaignMemberPresence list \<Rightarrow> CampaignSlotState \<Rightarrow> bool" where
  "slot_present presence s \<longleftrightarrow>
     list_ex (\<lambda>p. mi_slot (mp_identity p) = slot_id s \<and> mi_player (mp_identity p) = slot_player s \<and>
       mi_binding (mp_identity p) = slot_binding s) presence"

definition public_slot :: "CampaignMemberPresence list \<Rightarrow> CampaignSlotState \<Rightarrow> PublicSlot" where
  "public_slot presence s =
     \<lparr>ps_slot = c_str (slot_id s), ps_player = c_str (slot_player s), ps_ready = slot_ready s,
      ps_present = slot_present presence s\<rparr>"

definition public_snapshot :: "CampaignAggregate \<Rightarrow> CampaignRuntimeState \<Rightarrow> CampaignMemberPresence list \<Rightarrow> WireSnapshot" where
  "public_snapshot c state presence =
     \<lparr>ws_campaign = c_str (c_id c), ws_version = c_version c, ws_phase = phase_code (c_phase c),
      ws_runtime = runtime_state_code state, ws_sealed = c_sealed c,
      ws_manager = (case c_manager c of None \<Rightarrow> [] | Some m \<Rightarrow> c_str m),
      ws_roster = map (public_slot presence) (c_roster c), ws_valid = True\<rparr>"

definition build_snapshot :: "CampaignId \<Rightarrow> ('e, WireSnapshot option) adm" where
  "build_snapshot i =
     adm_bind (adm_get (build_presence i)) (\<lambda>presence.
     adm_bind (adm_call (load_service_campaign i presence)) (\<lambda>loaded.
     case loaded of Inl e \<Rightarrow> adm_ret None
     | Inr (c, state) \<Rightarrow> adm_ret (Some (public_snapshot c state presence))))"

end
