(* ===== verification/AdmissionCommands.thy ===== *)
theory AdmissionCommands
  imports CampaignAdmission
begin

text \<open>
  The operations of \<open>CampaignAdmissionService\<close> that go to the campaign service: the protocol commands of
  a player, the checkpoint and recovery messages, and the loss of a connection.
\<close>

type_synonym 'a protocol = "(ProtocolAnswer, 'a) adm"

definition admit :: "u64 \<Rightarrow> CampaignMemberIdentity \<Rightarrow> ('e, unit) adm" where
  "admit c m = adm_put (update_connection c (\<lambda>r. r\<lparr>cn_admitted := Some m\<rparr>))"

text \<open>What the commands that admit a player answer at their end.\<close>

definition admitted_answer :: "CampaignMemberIdentity \<Rightarrow> ProtocolAnswer \<Rightarrow> ProtocolAnswer protocol" where
  "admitted_answer m a =
     adm_bind (build_snapshot (mi_campaign m)) (\<lambda>snapshot.
     adm_ret (a\<lparr>pa_slot := mi_slot m, pa_binding := mi_binding m, pa_snapshot := snapshot\<rparr>))"

section \<open>Creating a campaign\<close>

text \<open>The answer to a creation that the journal knows.\<close>

definition repeat_creation :: "AdmissionRecord \<Rightarrow> CampaignMemberIdentity \<Rightarrow> StateVersion \<Rightarrow> ProtocolAnswer protocol" where
  "repeat_creation r m version =
     (let refuse = \<lambda>out. protocol_failure ProtocolCreate out (mi_campaign m) in
      adm_bind (adm_require (\<not> (cn_admitted r \<noteq> None \<and> \<not> admitted_to (mi_campaign m) r)) (refuse OutNotAdmitted)) (\<lambda>_.
      adm_bind (adm_call (load_service_campaign (mi_campaign m) [])) (\<lambda>current.
      case current of Inl e \<Rightarrow> adm_fail (refuse (map_load_failure e))
      | Inr (c, _) \<Rightarrow>
        case find (\<lambda>s. slot_player s = mi_player m) (c_roster c) of
          None \<Rightarrow> adm_fail (refuse OutIdentityMismatch)
        | Some s \<Rightarrow>
          adm_bind (adm_require (slot_id s = mi_slot m) (refuse OutIdentityMismatch)) (\<lambda>_.
          adm_bind (adm_require (slot_binding s = mi_binding m) (refuse OutBindingMismatch)) (\<lambda>_.
          adm_bind (admit (cn_connection r) m) (\<lambda>_.
          admitted_answer m ((refuse OutIdempotentReplay)\<lparr>pa_version := version\<rparr>)))))))"

definition new_creation :: "AdmissionRecord \<Rightarrow> string \<Rightarrow> bool \<Rightarrow> ProtocolAnswer protocol" where
  "new_creation r mutation leader =
     adm_bind (adm_require (cn_admitted r = None) (protocol_failure ProtocolCreate OutInvalidRequest [])) (\<lambda>_.
     adm_bind (adm_require leader (protocol_failure ProtocolCreate OutUnauthorized [])) (\<lambda>_.
     adm_bind (generate_id ''campaign-'') (\<lambda>i.
     adm_bind (generate_id ''binding-'') (\<lambda>binding.
     let host = \<lparr>rec_slot = ''slot-01'', rec_player = cn_player r, rec_binding = binding\<rparr>;
         m = \<lparr>mi_campaign = i, mi_slot = rec_slot host, mi_player = rec_player host, mi_binding = rec_binding host\<rparr> in
     adm_bind (adm_handler (create_lobby_campaign i mutation [host])) (\<lambda>command.
     let a = from_command ProtocolCreate i command in
     adm_bind (adm_require (answer_succeeded a) a) (\<lambda>_.
     adm_bind (admit (cn_connection r) m) (\<lambda>_.
     admitted_answer m a)))))))"

definition create_admitted_campaign :: "u64 \<Rightarrow> string \<Rightarrow> bool \<Rightarrow> ProtocolAnswer protocol" where
  "create_admitted_campaign conn mutation leader =
     adm_bind (adm_get (find_connection conn)) (\<lambda>found.
     case found of None \<Rightarrow> adm_fail (protocol_failure ProtocolCreate OutInvalidRequest [])
     | Some r \<Rightarrow>
       adm_bind (adm_require (is_valid_protocol_id mutation) (protocol_failure ProtocolCreate OutInvalidRequest [])) (\<lambda>_.
       adm_bind (adm_handler (find_campaign_creation (cn_player r) mutation)) (\<lambda>creation.
       adm_bind (adm_require (cl_error creation = NoCampaignError)
         (protocol_failure ProtocolCreate OutPersistenceFailure [])) (\<lambda>_.
       case cl_identity creation of
         Some m \<Rightarrow> repeat_creation r m (cl_version creation)
       | None \<Rightarrow> new_creation r mutation leader))))"

section \<open>Joining and resuming\<close>

definition slot_name :: "nat \<Rightarrow> string" where
  "slot_name n = ''slot-'' @ (if n < 10 then ''0'' else []) @ decimal n"

text \<open>The loop over the ten names.\<close>

definition free_slot_name :: "CampaignSlotState list \<Rightarrow> string option" where
  "free_slot_name roster =
     map_option slot_name (find (\<lambda>n. \<not> list_ex (\<lambda>s. slot_id s = slot_name n) roster) [1..<Suc kMaximumCampaignRosterSize])"

definition check_admission :: "ProtocolOperation \<Rightarrow> AdmissionRecord \<Rightarrow> CampaignId \<Rightarrow> unit protocol" where
  "check_admission op r i =
     adm_require (\<not> (cn_admitted r \<noteq> None \<and> \<not> admitted_to i r)) (protocol_failure op OutNotAdmitted i)"

text \<open>The slot to join with: that of the player, or a new one with a free name.\<close>

definition join_slot :: "AdmissionRecord \<Rightarrow> CampaignId \<Rightarrow> CampaignAggregate \<Rightarrow> CampaignSlotRecord protocol" where
  "join_slot r i c =
     (case find (\<lambda>s. slot_player s = cn_player r) (c_roster c) of
        Some s \<Rightarrow> adm_ret (slot_record s)
      | None \<Rightarrow>
        case free_slot_name (c_roster c) of
          None \<Rightarrow> adm_fail (protocol_failure ProtocolJoin OutInvalidRequest i)
        | Some name \<Rightarrow>
          adm_bind (generate_id ''binding-'') (\<lambda>binding.
          adm_ret \<lparr>rec_slot = name, rec_player = cn_player r, rec_binding = binding\<rparr>))"

definition join_answer :: "AdmissionRecord \<Rightarrow> CampaignId \<Rightarrow> CampaignAggregate \<Rightarrow> CommandResult \<Rightarrow> ProtocolAnswer" where
  "join_answer r i c command =
     (let a = from_command ProtocolJoin i command in
      if find (\<lambda>s. slot_player s = cn_player r) (c_roster c) \<noteq> None \<and> cmd_error command \<noteq> NoCampaignError \<and>
         (cmd_error command = DuplicateSlot \<or> cmd_error command = DuplicatePlayer \<or>
          cmd_error command = DuplicateCharacterBinding)
      then a\<lparr>pa_result := OutExistingMembershipRequiresResume, pa_version := c_version c\<rparr> else a)"

definition join_campaign :: "u64 \<Rightarrow> CampaignId \<Rightarrow> string \<Rightarrow> StateVersion \<Rightarrow> bool \<Rightarrow> ProtocolAnswer protocol" where
  "join_campaign conn i mutation expected same_session =
     adm_bind (adm_get (find_connection conn)) (\<lambda>found.
     case found of None \<Rightarrow> adm_fail (protocol_failure ProtocolJoin OutInvalidRequest i)
     | Some r \<Rightarrow>
       adm_bind (adm_require (is_valid_protocol_id i \<and> is_valid_protocol_id mutation)
         (protocol_failure ProtocolJoin OutInvalidRequest i)) (\<lambda>_.
       adm_bind (adm_require same_session (protocol_failure ProtocolJoin OutSessionMismatch i)) (\<lambda>_.
       adm_bind (check_admission ProtocolJoin r i) (\<lambda>_.
       adm_bind (adm_call (load_service_campaign i [])) (\<lambda>loaded.
       case loaded of Inl e \<Rightarrow> adm_fail (protocol_failure ProtocolJoin (map_load_failure e) i)
       | Inr (c, _) \<Rightarrow>
         adm_bind (adm_require (\<not> c_sealed c) (protocol_failure ProtocolJoin OutRosterSealed i)) (\<lambda>_.
         adm_bind (join_slot r i c) (\<lambda>slot.
         adm_bind (adm_handler (run_command i expected mutation (CommandAdd slot))) (\<lambda>command.
         let a = join_answer r i c command;
             m = \<lparr>mi_campaign = i, mi_slot = rec_slot slot, mi_player = rec_player slot, mi_binding = rec_binding slot\<rparr> in
         adm_bind (adm_require (answer_succeeded a) a) (\<lambda>_.
         adm_bind (admit conn m) (\<lambda>_.
         admitted_answer m a))))))))))"

definition resume_campaign :: "u64 \<Rightarrow> CampaignId \<Rightarrow> string \<Rightarrow> ProtocolAnswer protocol" where
  "resume_campaign conn i binding =
     adm_bind (adm_get (find_connection conn)) (\<lambda>found.
     case found of None \<Rightarrow> adm_fail (protocol_failure ProtocolResume OutInvalidRequest i)
     | Some r \<Rightarrow>
       adm_bind (adm_require (is_valid_protocol_id i \<and> is_valid_protocol_id binding)
         (protocol_failure ProtocolResume OutInvalidRequest i)) (\<lambda>_.
       adm_bind (check_admission ProtocolResume r i) (\<lambda>_.
       adm_bind (adm_call (load_service_campaign i [])) (\<lambda>loaded.
       case loaded of Inl e \<Rightarrow> adm_fail (protocol_failure ProtocolResume (map_load_failure e) i)
       | Inr (c, _) \<Rightarrow>
         case find (\<lambda>s. slot_player s = cn_player r) (c_roster c) of
           None \<Rightarrow> adm_fail (protocol_failure ProtocolResume OutIdentityMismatch i)
         | Some s \<Rightarrow>
           adm_bind (adm_require (slot_binding s = binding) (protocol_failure ProtocolResume OutBindingMismatch i)) (\<lambda>_.
           let m = \<lparr>mi_campaign = i, mi_slot = slot_id s, mi_player = slot_player s, mi_binding = slot_binding s\<rparr> in
           adm_bind (admit conn m) (\<lambda>_.
           admitted_answer m ((protocol_failure ProtocolResume
             (if cn_admitted r \<noteq> None then OutAcceptedNoOp else OutApplied) i)\<lparr>pa_version := c_version c\<rparr>)))))))"

section \<open>Commands of a member\<close>

text \<open>The record of a connection that is admitted to the campaign.\<close>

definition admitted_record :: "'e \<Rightarrow> u64 \<Rightarrow> CampaignId \<Rightarrow> ('e, AdmissionRecord \<times> CampaignMemberIdentity) adm" where
  "admitted_record e conn i =
     adm_bind (adm_get (find_connection conn)) (\<lambda>found.
     case found of None \<Rightarrow> adm_fail e
     | Some r \<Rightarrow> (case cn_admitted r of None \<Rightarrow> adm_fail e
       | Some m \<Rightarrow> if mi_campaign m = i then adm_ret (r, m) else adm_fail e))"

text \<open>A command of the campaign service, whose answer has a snapshot when it succeeds.\<close>

definition answer_command :: "ProtocolOperation \<Rightarrow> CampaignId \<Rightarrow> StateVersion \<Rightarrow> string \<Rightarrow> RuntimeCommand \<Rightarrow> ProtocolAnswer protocol" where
  "answer_command op i expected mutation cmd =
     adm_bind (adm_handler (run_command i expected mutation cmd)) (\<lambda>command.
     let a = from_command op i command in
     if answer_succeeded a
     then adm_bind (build_snapshot i) (\<lambda>snapshot. adm_ret (a\<lparr>pa_snapshot := snapshot\<rparr>))
     else adm_ret a)"

definition start_admitted_campaign ::
  "u64 \<Rightarrow> CampaignId \<Rightarrow> string \<Rightarrow> StateVersion \<Rightarrow> bool \<Rightarrow> bool \<Rightarrow> ProtocolAnswer protocol" where
  "start_admitted_campaign conn i mutation expected leader same_session =
     adm_bind (admitted_record (protocol_failure ProtocolStart OutNotAdmitted i) conn i) (\<lambda>(r, m).
     adm_bind (adm_require (is_valid_protocol_id mutation) (protocol_failure ProtocolStart OutInvalidRequest i)) (\<lambda>_.
     adm_bind (adm_require leader (protocol_failure ProtocolStart OutUnauthorized i)) (\<lambda>_.
     adm_bind (adm_require same_session (protocol_failure ProtocolStart OutSessionMismatch i)) (\<lambda>_.
     answer_command ProtocolStart i expected mutation (CommandStart (cn_player r))))))"

definition set_admitted_ready :: "u64 \<Rightarrow> CampaignId \<Rightarrow> string \<Rightarrow> StateVersion \<Rightarrow> bool \<Rightarrow> ProtocolAnswer protocol" where
  "set_admitted_ready conn i mutation expected ready =
     adm_bind (admitted_record (protocol_failure ProtocolSetReady OutNotAdmitted i) conn i) (\<lambda>(r, m).
     adm_bind (adm_require (is_valid_protocol_id mutation) (protocol_failure ProtocolSetReady OutInvalidRequest i)) (\<lambda>_.
     answer_command ProtocolSetReady i expected mutation (CommandReady m ready)))"

text \<open>The identity to leave with: the admission, or the one before it.\<close>

definition leaving_identity :: "AdmissionRecord \<Rightarrow> CampaignId \<Rightarrow> CampaignMemberIdentity option" where
  "leaving_identity r i =
     (if admitted_to i r then cn_admitted r
      else case cn_previous r of Some m \<Rightarrow> if mi_campaign m = i then Some m else None | None \<Rightarrow> None)"

definition revoke_admission :: "u64 \<Rightarrow> ('e, unit) adm" where
  "revoke_admission conn = adm_put (update_connection conn (\<lambda>r.
     case cn_admitted r of None \<Rightarrow> r | Some m \<Rightarrow> r\<lparr>cn_previous := Some m, cn_admitted := None\<rparr>))"

definition leave_campaign :: "u64 \<Rightarrow> CampaignId \<Rightarrow> string \<Rightarrow> StateVersion \<Rightarrow> ProtocolAnswer protocol" where
  "leave_campaign conn i mutation expected =
     adm_bind (adm_get (find_connection conn)) (\<lambda>found.
     case found of None \<Rightarrow> adm_fail (protocol_failure ProtocolLeave OutInvalidRequest i)
     | Some r \<Rightarrow>
       adm_bind (adm_require (is_valid_protocol_id i \<and> is_valid_protocol_id mutation)
         (protocol_failure ProtocolLeave OutInvalidRequest i)) (\<lambda>_.
       case leaving_identity r i of None \<Rightarrow> adm_fail (protocol_failure ProtocolLeave OutNotAdmitted i)
       | Some m \<Rightarrow>
         adm_bind (adm_handler (run_command i expected mutation (CommandRemove (mi_slot m)))) (\<lambda>command.
         let a = from_command ProtocolLeave i command in
         adm_bind (adm_require (answer_succeeded a) a) (\<lambda>_.
         adm_bind (revoke_admission conn) (\<lambda>_.
         adm_bind (build_snapshot i) (\<lambda>snapshot. adm_ret (a\<lparr>pa_snapshot := snapshot\<rparr>)))))))"

section \<open>Checkpoints\<close>

type_synonym 'a checkpointing = "(CheckpointCommandResult, 'a) adm"

definition begin_campaign_checkpoint :: "CampaignId \<Rightarrow> CheckpointCommandResult checkpointing" where
  "begin_campaign_checkpoint i =
     adm_bind (generate_id ''checkpoint-'') (\<lambda>checkpoint.
     case build_native_save_identity (c_str checkpoint) of
       None \<Rightarrow> adm_fail (checkpoint_result None (cmd_failure InvalidIdentity Store_None))
     | Some native \<Rightarrow>
       adm_bind (adm_get (build_presence i)) (\<lambda>presence.
       adm_handler (begin_checkpoint i checkpoint (c_str native) presence)))"

definition request_checkpoint :: "u64 \<Rightarrow> CheckpointCommandResult checkpointing" where
  "request_checkpoint conn =
     adm_bind (adm_get (find_connection conn)) (\<lambda>found.
     case found of Some r \<Rightarrow>
       (case cn_admitted r of Some m \<Rightarrow> begin_campaign_checkpoint (mi_campaign m)
        | None \<Rightarrow> adm_fail (checkpoint_result None (cmd_failure NotCampaignMember Store_None)))
     | None \<Rightarrow> adm_fail (checkpoint_result None (cmd_failure NotCampaignMember Store_None)))"

text \<open>
  The member that a result message comes from: of the connection's admission, which must be to the
  campaign of the message.
\<close>

definition acting_member :: "(CampaignError \<Rightarrow> 'e) \<Rightarrow> CampaignError \<Rightarrow> u64 \<Rightarrow> CampaignId \<Rightarrow> ('e, CampaignMemberIdentity) adm" where
  "acting_member refuse mismatch conn i =
     adm_bind (adm_get (find_connection conn)) (\<lambda>found.
     case found of None \<Rightarrow> adm_fail (refuse NotCampaignMember)
     | Some r \<Rightarrow> (case cn_admitted r of None \<Rightarrow> adm_fail (refuse NotCampaignMember)
       | Some m \<Rightarrow> if mi_campaign m = i then adm_ret m else adm_fail (refuse mismatch)))"

definition handle_checkpoint_save ::
  "u64 \<Rightarrow> CampaignId \<Rightarrow> string \<Rightarrow> string \<Rightarrow> bool \<Rightarrow> string \<Rightarrow> u32 \<Rightarrow> Bytes \<Rightarrow> u32 \<Rightarrow> Bytes \<Rightarrow> CheckpointCommandResult checkpointing" where
  "handle_checkpoint_save conn i checkpoint native ok alg fpv fp mdv md =
     adm_bind (acting_member (\<lambda>e. checkpoint_result None (cmd_failure e Store_None)) CheckpointMismatch conn i) (\<lambda>m.
     if \<not> ok then adm_handler (fail_checkpoint i checkpoint native m)
     else adm_handler (record_checkpoint_save
       \<lparr>rc_campaign = i, rc_checkpoint = checkpoint, rc_native = native, rc_actor = m, rc_algorithm = alg,
        rc_fingerprint_version = fpv, rc_fingerprint = fp, rc_metadata_version = mdv, rc_metadata = md\<rparr>))"

section \<open>Recoveries\<close>

type_synonym 'a recovering_adm = "(RecoveryCommandResult, 'a) adm"

definition begin_load_recovery :: "u64 \<Rightarrow> CampaignId \<Rightarrow> RecoveryCommandResult recovering_adm" where
  "begin_load_recovery conn i =
     adm_bind (admitted_record (recovery_failure NotCampaignMember) conn i) (\<lambda>(r, m).
     adm_bind (adm_get (build_presence i)) (\<lambda>presence.
     adm_bind (adm_call (load_service_campaign i presence)) (\<lambda>loaded.
     case loaded of
       Inl e \<Rightarrow> adm_fail (recovery_result (cmd_failure (cmd_error e) (cmd_store e)))
     | Inr (c, state) \<Rightarrow>
       adm_handler (begin_recovery
         \<lparr>bc_campaign = i, bc_member = m, bc_presence = presence, bc_state = state, bc_load_requested = True\<rparr>))))"

definition prepare_campaign_recovery :: "CampaignId \<Rightarrow> RecoveryCommandResult recovering_adm" where
  "prepare_campaign_recovery i =
     adm_bind (adm_get (build_presence i)) (\<lambda>presence. adm_handler (prepare_recovery i presence))"

definition handle_recovery_loaded ::
  "u64 \<Rightarrow> CampaignId \<Rightarrow> string \<Rightarrow> string \<Rightarrow> bool \<Rightarrow> string \<Rightarrow> string \<Rightarrow> u32 \<Rightarrow> Bytes \<Rightarrow> u32 \<Rightarrow> Bytes \<Rightarrow>
   RecoveryCommandResult recovering_adm" where
  "handle_recovery_loaded conn i attempt checkpoint ok native alg fpv fp mdv md =
     adm_bind (acting_member recovery_failure RecoveryMismatch conn i) (\<lambda>m.
     adm_bind (adm_get (build_presence i)) (\<lambda>presence.
     adm_handler (record_recovery_loaded
       \<lparr>lc_campaign = i, lc_attempt = attempt, lc_checkpoint = checkpoint, lc_actor = m, lc_succeeded = ok,
        lc_native = native, lc_algorithm = alg, lc_fingerprint_version = fpv, lc_fingerprint = fp,
        lc_metadata_version = mdv, lc_metadata = md, lc_presence = presence\<rparr>)))"

definition handle_snapshot_applied ::
  "u64 \<Rightarrow> CampaignId \<Rightarrow> string \<Rightarrow> string \<Rightarrow> StateVersion \<Rightarrow> RecoveryCommandResult recovering_adm" where
  "handle_snapshot_applied conn i attempt checkpoint revision =
     adm_bind (acting_member recovery_failure RecoveryMismatch conn i) (\<lambda>m.
     adm_bind (adm_get (build_presence i)) (\<lambda>presence.
     adm_handler (record_snapshot_applied
       \<lparr>sa_campaign = i, sa_attempt = attempt, sa_checkpoint = checkpoint, sa_restore_revision = revision,
        sa_actor = m, sa_presence = presence\<rparr>)))"

definition admission_recovery_activity :: "CampaignId \<Rightarrow> ('e, RecoveryActivity option) adm" where
  "admission_recovery_activity i = adm_handler (get_recovery_activity i)"

definition admission_active_checkpoint :: "CampaignId \<Rightarrow> AdmissionService \<Rightarrow> CheckpointActivity option" where
  "admission_active_checkpoint i s = get_active_checkpoint i (as_runtime s)"

section \<open>Losing a connection\<close>

text \<open>What is done for a member who is lost, before and after the records of the connection are removed.\<close>

definition lose_member :: "u64 \<Rightarrow> CampaignMemberIdentity \<Rightarrow> ('e, WireSnapshot option) adm" where
  "lose_member conn m =
     (let i = mi_campaign m in
      adm_bind (adm_get (build_presence i)) (\<lambda>before.
      adm_bind (adm_call (load_service_campaign i before)) (\<lambda>loaded.
      adm_bind (adm_put (filter (\<lambda>r. cn_connection r \<noteq> conn))) (\<lambda>_.
      adm_bind (adm_get (build_presence i)) (\<lambda>presence.
      adm_bind (adm_handler (begin_recovery
        \<lparr>bc_campaign = i, bc_member = m, bc_presence = presence,
         bc_state = (case loaded of Inl e \<Rightarrow> WAITING_FOR_ROSTER | Inr (c, state) \<Rightarrow> state),
         bc_load_requested = False\<rparr>)) (\<lambda>begun.
      build_snapshot i))))))"

definition disconnect :: "u64 \<Rightarrow> ('e, WireSnapshot option) adm" where
  "disconnect conn =
     adm_bind (adm_get (find_connection conn)) (\<lambda>found.
     case found of None \<Rightarrow> adm_ret None
     | Some r \<Rightarrow> (case cn_admitted r of
         Some m \<Rightarrow> lose_member conn m
       | None \<Rightarrow> adm_bind (adm_put (filter (\<lambda>r. cn_connection r \<noteq> conn))) (\<lambda>_. adm_ret None)))"

end
