(* ===== verification/AdmissionRequests.thy ===== *)
theory AdmissionRequests
  imports AdmissionCommands RuntimeInvariants
begin

text \<open>
  The admission service as a machine, over the machine of the campaign service: whatever an operation does
  to the campaign service is a sequence of its requests, each of them in the name of the connection it
  came from, and the connections stay those of different players who are admitted as themselves.
\<close>

section \<open>The machine\<close>

datatype ConnectionOp =
    AdmitRegister u64 string
  | AdmitDisconnect u64
  | AdmitCreate u64 string bool
  | AdmitJoin u64 CampaignId string StateVersion bool
  | AdmitResume u64 CampaignId string
  | AdmitStart u64 CampaignId string StateVersion bool bool
  | AdmitReady u64 CampaignId string StateVersion bool
  | AdmitLeave u64 CampaignId string StateVersion
  | AdmitRequestCheckpoint u64
  | AdmitSave u64 CampaignId string string bool string u32 Bytes u32 Bytes
  | AdmitLoadRecovery u64 CampaignId
  | AdmitLoaded u64 CampaignId string string bool string string u32 Bytes u32 Bytes
  | AdmitApplied u64 CampaignId string string StateVersion
  | AdmitCheckpoint CampaignId
  | AdmitPrepare CampaignId
  | AdmitActivity CampaignId
  | AdmitSnapshot CampaignId

definition adm_after :: "('e, 'a) adm \<Rightarrow> AdmissionEnv \<Rightarrow> AdmissionService \<Rightarrow> AdmissionService" where
  "adm_after m env s = snd (snd (m env (0, s)))"

fun admission_serve :: "AdmissionService \<Rightarrow> AdmissionEnv \<times> ConnectionOp \<Rightarrow> AdmissionService \<times> unit" where
  "admission_serve s (env, AdmitRegister c p) =
     (s\<lparr>as_connections := snd (register_connection c p (as_connections s))\<rparr>, ())"
| "admission_serve s (env, AdmitDisconnect c) = (adm_after (disconnect c :: (unit, _) adm) env s, ())"
| "admission_serve s (env, AdmitCreate c m leader) = (adm_after (create_admitted_campaign c m leader) env s, ())"
| "admission_serve s (env, AdmitJoin c i m v same) = (adm_after (join_campaign c i m v same) env s, ())"
| "admission_serve s (env, AdmitResume c i b) = (adm_after (resume_campaign c i b) env s, ())"
| "admission_serve s (env, AdmitStart c i m v leader same) =
     (adm_after (start_admitted_campaign c i m v leader same) env s, ())"
| "admission_serve s (env, AdmitReady c i m v ready) = (adm_after (set_admitted_ready c i m v ready) env s, ())"
| "admission_serve s (env, AdmitLeave c i m v) = (adm_after (leave_campaign c i m v) env s, ())"
| "admission_serve s (env, AdmitRequestCheckpoint c) = (adm_after (request_checkpoint c) env s, ())"
| "admission_serve s (env, AdmitSave c i k n ok a fv f mv md) =
     (adm_after (handle_checkpoint_save c i k n ok a fv f mv md) env s, ())"
| "admission_serve s (env, AdmitLoadRecovery c i) = (adm_after (begin_load_recovery c i) env s, ())"
| "admission_serve s (env, AdmitLoaded c i att k ok n a fv f mv md) =
     (adm_after (handle_recovery_loaded c i att k ok n a fv f mv md) env s, ())"
| "admission_serve s (env, AdmitApplied c i att k v) = (adm_after (handle_snapshot_applied c i att k v) env s, ())"
| "admission_serve s (env, AdmitCheckpoint i) = (adm_after (begin_campaign_checkpoint i) env s, ())"
| "admission_serve s (env, AdmitPrepare i) = (adm_after (prepare_campaign_recovery i) env s, ())"
| "admission_serve s (env, AdmitActivity i) = (adm_after (admission_recovery_activity i :: (unit, _) adm) env s, ())"
| "admission_serve s (env, AdmitSnapshot i) = (adm_after (build_snapshot i :: (unit, _) adm) env s, ())"

text \<open>The connection that an operation comes from.\<close>

fun op_connection :: "ConnectionOp \<Rightarrow> u64 option" where
  "op_connection (AdmitRegister c p) = Some c"
| "op_connection (AdmitDisconnect c) = Some c"
| "op_connection (AdmitCreate c m leader) = Some c"
| "op_connection (AdmitJoin c i m v same) = Some c"
| "op_connection (AdmitResume c i b) = Some c"
| "op_connection (AdmitStart c i m v leader same) = Some c"
| "op_connection (AdmitReady c i m v ready) = Some c"
| "op_connection (AdmitLeave c i m v) = Some c"
| "op_connection (AdmitRequestCheckpoint c) = Some c"
| "op_connection (AdmitSave c i k n ok a fv f mv md) = Some c"
| "op_connection (AdmitLoadRecovery c i) = Some c"
| "op_connection (AdmitLoaded c i att k ok n a fv f mv md) = Some c"
| "op_connection (AdmitApplied c i att k v) = Some c"
| "op_connection _ = None"

section \<open>Whom a request speaks for\<close>

text \<open>
  The requests that the record of a connection entitles to: a member acts under the identity that the
  connection is admitted as, in the campaign of that admission; whoever creates or joins names the player
  of the connection; a campaign may be loaded.
\<close>

fun speaks_for :: "AdmissionRecord \<Rightarrow> RuntimeRequest \<Rightarrow> bool" where
  "speaks_for r (RequestCreate i m ss) \<longleftrightarrow> map rec_player ss = [cn_player r]"
| "speaks_for r (RequestCommand i v m cmd) \<longleftrightarrow>
     (case cmd of CommandAdd s \<Rightarrow> rec_player s = cn_player r
      | CommandRemove slot \<Rightarrow> admitted_to i r \<and> map_option mi_slot (cn_admitted r) = Some slot
      | CommandStart p \<Rightarrow> p = cn_player r \<and> admitted_to i r
      | CommandReady m b \<Rightarrow> cn_admitted r = Some m \<and> mi_campaign m = i
      | _ \<Rightarrow> False)"
| "speaks_for r (RequestBeginCheckpoint i k native presence) \<longleftrightarrow> admitted_to i r"
| "speaks_for r (RequestSave cmd) \<longleftrightarrow> cn_admitted r = Some (rc_actor cmd) \<and> mi_campaign (rc_actor cmd) = rc_campaign cmd"
| "speaks_for r (RequestFail i k native m) \<longleftrightarrow> cn_admitted r = Some m \<and> mi_campaign m = i"
| "speaks_for r (RequestAbandon i) \<longleftrightarrow> False"
| "speaks_for r (RequestBeginRecovery cmd) \<longleftrightarrow>
     cn_admitted r = Some (bc_member cmd) \<and> mi_campaign (bc_member cmd) = bc_campaign cmd"
| "speaks_for r (RequestPrepare i presence) \<longleftrightarrow> False"
| "speaks_for r (RequestLoaded cmd) \<longleftrightarrow> cn_admitted r = Some (lc_actor cmd) \<and> mi_campaign (lc_actor cmd) = lc_campaign cmd"
| "speaks_for r (RequestApplied cmd) \<longleftrightarrow> cn_admitted r = Some (sa_actor cmd) \<and> mi_campaign (sa_actor cmd) = sa_campaign cmd"
| "speaks_for r (RequestActivity i) \<longleftrightarrow> False"
| "speaks_for r (RequestLoad i presence) \<longleftrightarrow> True"

text \<open>
  The exception: a leave of the campaign that the connection was admitted to last, when it is not admitted
  to it now, is made in the name of that admission (\<open>leaving_identity\<close>), whatever the connection is admitted
  to meanwhile.
\<close>

fun leaves_previous :: "AdmissionRecord \<Rightarrow> RuntimeRequest \<Rightarrow> bool" where
  "leaves_previous r (RequestCommand i v m (CommandRemove slot)) \<longleftrightarrow> \<not> admitted_to i r \<and>
     (case cn_previous r of None \<Rightarrow> False | Some mi \<Rightarrow> mi_campaign mi = i \<and> mi_slot mi = slot)"
| "leaves_previous r q \<longleftrightarrow> False"

definition entitled :: "AdmissionRecord \<Rightarrow> RuntimeRequest \<Rightarrow> bool" where
  "entitled r q \<longleftrightarrow> speaks_for r q \<or> leaves_previous r q"

lemma entitled_simps [simp]:
  "entitled r (RequestCommand i v m cmd) \<longleftrightarrow>
     (case cmd of CommandRemove slot \<Rightarrow> map_option mi_slot (leaving_identity r i) = Some slot
      | _ \<Rightarrow> speaks_for r (RequestCommand i v m cmd))"
  "\<forall>i v m cmd. q \<noteq> RequestCommand i v m cmd \<Longrightarrow> entitled r q \<longleftrightarrow> speaks_for r q"
proof -
  show "entitled r (RequestCommand i v m cmd) \<longleftrightarrow>
     (case cmd of CommandRemove slot \<Rightarrow> map_option mi_slot (leaving_identity r i) = Some slot
      | _ \<Rightarrow> speaks_for r (RequestCommand i v m cmd))"
    by (cases cmd) (auto simp: entitled_def leaving_identity_def split: option.splits)
  show "\<forall>i v m cmd. q \<noteq> RequestCommand i v m cmd \<Longrightarrow> entitled r q \<longleftrightarrow> speaks_for r q"
    by (cases q) (auto simp: entitled_def)
qed

text \<open>The requests of the server's own operations.\<close>

fun server_request :: "ConnectionOp \<Rightarrow> RuntimeRequest \<Rightarrow> bool" where
  "server_request (AdmitCheckpoint i) q \<longleftrightarrow> (\<exists>k native presence. q = RequestBeginCheckpoint i k native presence)"
| "server_request (AdmitPrepare i) q \<longleftrightarrow> (\<exists>presence. q = RequestPrepare i presence)"
| "server_request (AdmitActivity i) q \<longleftrightarrow> q = RequestActivity i"
| "server_request (AdmitSnapshot i) q \<longleftrightarrow> (\<exists>presence. q = RequestLoad i presence)"
| "server_request _ q \<longleftrightarrow> False"

definition request_allowed :: "AdmissionRecord list \<Rightarrow> ConnectionOp \<Rightarrow> RuntimeRequest \<Rightarrow> bool" where
  "request_allowed rs op q \<longleftrightarrow>
     (case op_connection op of
        None \<Rightarrow> server_request op q
      | Some c \<Rightarrow> (case find_connection c rs of None \<Rightarrow> False | Some r \<Rightarrow> entitled r q))"

section \<open>Rules\<close>

definition yields :: "('e, 'a) adm \<Rightarrow> 'a \<Rightarrow> bool" where
  "yields m x \<longleftrightarrow> (\<exists>env s s'. m env s = (Inr x, s'))"

definition adm_ok :: "(AdmissionRecord list \<Rightarrow> bool) \<Rightarrow> (RuntimeRequest \<Rightarrow> bool) \<Rightarrow> ('e, 'a) adm \<Rightarrow> bool" where
  "adm_ok J R m \<longleftrightarrow> (\<forall>env k s. let s' = snd (snd (m env (k, s))) in
     (\<exists>qs. as_runtime s' = run_ops serve (as_runtime s) qs \<and> (\<forall>q \<in> set qs. R (snd q))) \<and>
     (J (as_connections s) \<longrightarrow> J (as_connections s')))"

lemma run_two: "run_ops f (run_ops f s xs) ys = run_ops f s (xs @ ys)"
  by (induction xs arbitrary: s) simp_all

lemma ok_silent:
  assumes "\<And>env k s. as_runtime (snd (snd (m env (k, s)))) = as_runtime s"
    and "\<And>env k s. J (as_connections s) \<Longrightarrow> J (as_connections (snd (snd (m env (k, s)))))"
  shows "adm_ok J R m"
  unfolding adm_ok_def Let_def
proof (intro allI conjI)
  fix env k s
  show "\<exists>qs. as_runtime (snd (snd (m env (k, s)))) = run_ops serve (as_runtime s) qs \<and> (\<forall>q\<in>set qs. R (snd q))"
    by (rule exI [of _ "[]"]) (simp add: assms(1))
qed (use assms(2) in blast)

lemma ok_basic: "adm_ok J R (adm_ret x)" "adm_ok J R (adm_fail e)" "adm_ok J R (adm_require b e)"
  "adm_ok J R (adm_get f)" "adm_ok J R (generate_id kind)"
  by (rule ok_silent; simp add: adm_ret_def adm_fail_def adm_require_def adm_get_def generate_id_def)+

lemma ok_put: "(\<And>rs. J rs \<Longrightarrow> J (f rs)) \<Longrightarrow> adm_ok J R (adm_put f)"
  by (rule ok_silent) (simp_all add: adm_put_def)

lemma ok_bind:
  assumes m: "adm_ok J R m" and k: "\<And>x. yields m x \<Longrightarrow> adm_ok J R (h x)"
  shows "adm_ok J R (adm_bind m h)"
  unfolding adm_ok_def Let_def
proof (intro allI)
  fix env k s
  obtain r k1 s1 where run: "m env (k, s) = (r, k1, s1)" by (metis prod_cases3)
  have m': "\<exists>qs. as_runtime s1 = run_ops serve (as_runtime s) qs \<and> (\<forall>q\<in>set qs. R (snd q))"
    "J (as_connections s) \<longrightarrow> J (as_connections s1)"
    using m [unfolded adm_ok_def Let_def, rule_format, of env k s] by (simp_all add: run)
  show "(\<exists>qs. as_runtime (snd (snd (adm_bind m h env (k, s)))) = run_ops serve (as_runtime s) qs \<and>
      (\<forall>q\<in>set qs. R (snd q))) \<and>
    (J (as_connections s) \<longrightarrow> J (as_connections (snd (snd (adm_bind m h env (k, s))))))"
  proof (cases r)
    case (Inl e)
    with run m' show ?thesis by (simp add: adm_bind_def)
  next
    case (Inr x)
    let ?s = "snd (snd (h x env (k1, s1)))"
    have bind: "adm_bind m h env (k, s) = h x env (k1, s1)" using run Inr by (simp add: adm_bind_def)
    have "yields m x" using run Inr unfolding yields_def by blast
    from k [OF this, unfolded adm_ok_def Let_def, rule_format, of env k1 s1]
    obtain ys where ys: "as_runtime ?s = run_ops serve (as_runtime s1) ys" "\<forall>q\<in>set ys. R (snd q)"
      and J: "J (as_connections s1) \<longrightarrow> J (as_connections ?s)" by blast
    from m'(1) obtain xs where xs: "as_runtime s1 = run_ops serve (as_runtime s) xs" "\<forall>q\<in>set xs. R (snd q)" by blast
    have "as_runtime ?s = run_ops serve (as_runtime s) (xs @ ys)" unfolding ys(1) xs(1) run_two ..
    moreover have "\<forall>q\<in>set (xs @ ys). R (snd q)" using xs(2) ys(2) by auto
    ultimately show ?thesis using J m'(2) unfolding bind by blast
  qed
qed

lemma ok_call:
  fixes m :: "('d, 'a) svc"
  assumes "\<And>env rt. fst (serve rt (env, q)) = svc_after m env rt" and "R q"
  shows "adm_ok J R (adm_call m :: ('e, 'd + 'a) adm)" (is "adm_ok J R ?m")
  unfolding adm_ok_def Let_def
proof (intro allI conjI)
  fix env k s
  have run: "as_runtime (snd (snd (?m env (k, s)))) = svc_after m (adm_runtime env k) (as_runtime s)"
    "as_connections (snd (snd (?m env (k, s)))) = as_connections s"
    by (simp_all add: adm_call_def svc_after_def split: prod.split)
  then show "J (as_connections s) \<longrightarrow> J (as_connections (snd (snd (?m env (k, s)))))" by simp
  show "\<exists>qs. as_runtime (snd (snd (?m env (k, s)))) = run_ops serve (as_runtime s) qs \<and> (\<forall>q\<in>set qs. R (snd q))"
    by (rule exI [of _ "[(adm_runtime env k, q)]"]) (simp add: run assms)
qed

lemma ok_handler:
  "(\<And>env rt. fst (serve rt (env, q)) = svc_after m env rt) \<Longrightarrow> R q \<Longrightarrow> adm_ok J R (adm_handler m)"
  unfolding adm_handler_def by (intro ok_bind ok_basic ok_call)

end
