(* ===== verification/AdmissionInvariant.thy ===== *)
theory AdmissionInvariant
  imports AdmissionRequests
begin

text \<open>
  The invariant of the connections, and every operation of the admission service against it and against
  the requests it is entitled to.
\<close>

section \<open>The connections\<close>

definition record_wf :: "AdmissionRecord \<Rightarrow> bool" where
  "record_wf r \<longleftrightarrow> is_valid_player_id (cn_player r) \<and>
     (\<forall>m. cn_admitted r = Some m \<or> cn_previous r = Some m \<longrightarrow> mi_player m = cn_player r)"

definition connections_wf :: "AdmissionRecord list \<Rightarrow> bool" where
  "connections_wf rs \<longleftrightarrow> distinct (map cn_connection rs) \<and> distinct (map cn_player rs) \<and> list_all record_wf rs"

text \<open>Well formed, and a connection is that of a player, if it is there.\<close>

definition conn_is :: "u64 \<Rightarrow> DurablePlayerId \<Rightarrow> AdmissionRecord list \<Rightarrow> bool" where
  "conn_is c p rs \<longleftrightarrow> connections_wf rs \<and> (\<forall>r. find_connection c rs = Some r \<longrightarrow> cn_player r = p)"

lemma find_connection_Some: "find_connection c rs = Some r \<Longrightarrow> r \<in> set rs \<and> cn_connection r = c"
  by (auto simp: find_connection_def find_Some_iff)

lemma find_connection_Cons [simp]:
  "find_connection c [] = None"
  "find_connection c (r # rs) = (if cn_connection r = c then Some r else find_connection c rs)"
  by (simp_all add: find_connection_def)

lemma update_connection_same:
  assumes "\<And>r. cn_connection (f r) = cn_connection r" "\<And>r. cn_player (f r) = cn_player r"
  shows "map cn_connection (update_connection c f rs) = map cn_connection rs"
    and "map cn_player (update_connection c f rs) = map cn_player rs"
    and "find_connection c' (update_connection c f rs) =
      (if c' = c then map_option f (find_connection c rs) else find_connection c' rs)"
  using assms by (induction rs) auto

lemma update_connection_all:
  "list_all P rs \<Longrightarrow> (\<And>r. find_connection c rs = Some r \<Longrightarrow> P (f r)) \<Longrightarrow> list_all P (update_connection c f rs)"
  by (induction rs) auto

lemma conn_is_update:
  assumes "conn_is c p rs" "\<And>r. cn_connection (f r) = cn_connection r" "\<And>r. cn_player (f r) = cn_player r"
    and "\<And>r. record_wf r \<Longrightarrow> cn_player r = p \<Longrightarrow> record_wf (f r)"
  shows "conn_is c p (update_connection c f rs)"
proof -
  have "record_wf (f r)" if "find_connection c rs = Some r" for r
    using that assms(1,4) find_connection_Some [OF that]
    by (auto simp: conn_is_def connections_wf_def list_all_iff)
  with assms(1) update_connection_all [of record_wf rs c f] show ?thesis
    by (auto simp: conn_is_def connections_wf_def update_connection_same [of f, OF assms(2,3)] assms(3))
qed

lemma find_connection_filter: "find_connection c (filter (\<lambda>r. cn_connection r \<noteq> c) rs) = None"
  by (induction rs) auto

lemma conn_is_filter: "conn_is c p rs \<Longrightarrow> conn_is c p (filter (\<lambda>r. cn_connection r \<noteq> c) rs)"
  by (auto simp: conn_is_def connections_wf_def find_connection_filter list_all_iff distinct_map_filter)

lemma register_wf:
  assumes "connections_wf rs"
  shows "connections_wf (snd (register_connection c p rs))"
proof -
  have "c \<notin> cn_connection ` set rs" if "find_connection c rs = None"
    using that by (auto simp: find_connection_def find_None_iff)
  moreover have "p \<notin> cn_player ` set rs"
    if "find (\<lambda>r. cn_connection r \<noteq> c \<and> cn_player r = p) rs = None" "find_connection c rs = None"
    using that by (auto simp: find_connection_def find_None_iff)
  ultimately show ?thesis
    using assms by (auto simp: register_connection_def connections_wf_def record_wf_def split: option.split)
qed

section \<open>The parts of the operations\<close>

lemma ok_admit: "mi_player m = p \<Longrightarrow> adm_ok (conn_is c p) R (admit c m)"
  unfolding admit_def by (intro ok_put conn_is_update) (auto simp: record_wf_def)

lemma ok_revoke: "adm_ok (conn_is c p) R (revoke_admission c)"
  unfolding revoke_admission_def by (intro ok_put conn_is_update) (auto simp: record_wf_def split: option.splits)

lemma ok_load: "R (RequestLoad i presence) \<Longrightarrow> adm_ok J R (adm_call (load_service_campaign i presence))"
  by (rule ok_call [of "RequestLoad i presence"]) simp_all

lemma ok_snapshot: "(\<And>presence. R (RequestLoad i presence)) \<Longrightarrow> adm_ok J R (build_snapshot i)"
  unfolding build_snapshot_def by (intro ok_bind ok_basic ok_load) (auto split: sum.split intro: ok_basic)

lemma ok_command: "R (RequestCommand i v m cmd) \<Longrightarrow> adm_ok J R (adm_handler (run_command i v m cmd))"
  by (rule ok_handler [of "RequestCommand i v m cmd"]) simp_all

lemma ok_create: "R (RequestCreate i m ss) \<Longrightarrow> adm_ok J R (adm_handler (create_lobby_campaign i m ss))"
  by (rule ok_handler [of "RequestCreate i m ss"]) simp_all

text \<open>The other calls, each of them one request.\<close>

lemma ok_requests:
  "R (RequestBeginCheckpoint i k n presence) \<Longrightarrow> adm_ok J R (adm_handler (begin_checkpoint i k n presence))"
  "R (RequestFail i k n m) \<Longrightarrow> adm_ok J R (adm_handler (fail_checkpoint i k n m))"
  "R (RequestSave save) \<Longrightarrow> adm_ok J R (adm_handler (record_checkpoint_save save))"
  "R (RequestBeginRecovery lost) \<Longrightarrow> adm_ok J R (adm_handler (begin_recovery lost))"
  "R (RequestPrepare i presence) \<Longrightarrow> adm_ok J R (adm_handler (prepare_recovery i presence))"
  "R (RequestLoaded loaded) \<Longrightarrow> adm_ok J R (adm_handler (record_recovery_loaded loaded))"
  "R (RequestApplied applied) \<Longrightarrow> adm_ok J R (adm_handler (record_snapshot_applied applied))"
  "R (RequestActivity i) \<Longrightarrow> adm_ok J R (adm_handler (get_recovery_activity i))"
  by (rule ok_handler [of "RequestBeginCheckpoint i k n presence"], simp_all)
    (rule ok_handler [of "RequestFail i k n m"] ok_handler [of "RequestSave save"]
      ok_handler [of "RequestBeginRecovery lost"] ok_handler [of "RequestPrepare i presence"]
      ok_handler [of "RequestLoaded loaded"] ok_handler [of "RequestApplied applied"]
      ok_handler [of "RequestActivity i"]; simp; fail)+

lemma ok_answer_command:
  "R (RequestCommand i v m cmd) \<Longrightarrow> (\<And>presence. R (RequestLoad i presence)) \<Longrightarrow>
     adm_ok J R (answer_command op i v m cmd)"
  unfolding answer_command_def Let_def by (intro ok_bind ok_command) (auto intro: ok_bind ok_snapshot ok_basic)

lemma ok_unchanged:
  fixes m :: "('r, 'r) svc"
  assumes "svc_leaves (\<lambda>s. s) m"
  shows "adm_ok J R (adm_handler m :: ('e, 'r) adm)"
proof (rule ok_silent)
  fix env :: AdmissionEnv and k and s :: AdmissionService
  obtain r k' rt where run: "m (adm_runtime env k) (0, as_runtime s) = (r, k', rt)" by (metis prod_cases3)
  let ?s = "snd (snd ((adm_handler m :: ('e, 'r) adm) env (k, s)))"
  from svc_leavesD [OF assms run] run
  show "as_runtime ?s = as_runtime s" "J (as_connections s) \<Longrightarrow> J (as_connections ?s)"
    by (simp_all add: adm_handler_def adm_bind_def adm_ret_def adm_call_def)
qed

lemma ok_creation: "adm_ok J R (adm_handler (find_campaign_creation p m))"
  unfolding find_campaign_creation_def by (intro ok_unchanged) (auto intro!: leaves_svc steady_loads)

lemma find_player: "find (\<lambda>s. rec_player s = p) ss = Some s \<Longrightarrow> rec_player s = p"
  by (auto simp: find_Some_iff)

lemma lookup_player:
  "(\<And>m. cl_identity found = Some m \<Longrightarrow> mi_player m = p) \<Longrightarrow> cl_identity (lookup_creations p js found) = Some m \<Longrightarrow> mi_player m = p"
proof (induction js arbitrary: found)
  case (Cons j js)
  note again = Cons.IH [OF Cons.prems(1)] and once = Cons.prems(1)
  have "mi_player m = p"
    if "rec_player s = p" "cl_identity (lookup_creations p js (found\<lparr>cl_identity := Some
      \<lparr>mi_campaign = i, mi_slot = slot, mi_player = rec_player s, mi_binding = b\<rparr>, cl_version := v\<rparr>)) = Some m" for s i slot b v
    by (rule Cons.IH [OF _ that(2)]) (use that(1) in auto)
  with Cons.prems(2) again once show ?case
    by (auto simp: lookup_failure_def split: if_splits option.splits) (blast dest: find_player)
qed simp

lemma creation_player:
  assumes "yields (adm_handler (find_campaign_creation p m)) cl" "cl_identity cl = Some mi"
  shows "mi_player mi = p"
  using assms lookup_player [of no_creation p _ mi]
  by (auto simp: yields_def adm_handler_def adm_bind_def adm_ret_def adm_call_def find_campaign_creation_def
      svc_bind_def svc_error_def svc_ret_def svc_fail_def either_def lookup_failure_def no_creation_def
      split: prod.splits sum.splits if_splits)

section \<open>The operations\<close>

text \<open>What is asked of an operation, from a state of the service.\<close>

definition op_ok :: "ConnectionOp \<Rightarrow> AdmissionService \<Rightarrow> AdmissionService \<Rightarrow> bool" where
  "op_ok op s s' \<longleftrightarrow>
     (\<exists>qs. as_runtime s' = run_ops serve (as_runtime s) qs \<and>
        (\<forall>q \<in> set qs. request_allowed (as_connections s) op (snd q))) \<and>
     (connections_wf (as_connections s) \<longrightarrow> connections_wf (as_connections s'))"

lemma yields_ret [simp]: "yields (adm_ret x) y \<longleftrightarrow> y = x"
  by (auto simp: yields_def adm_ret_def)

lemma op_ok_same: "op_ok op s s"
  unfolding op_ok_def by (intro conjI exI [of _ "[]"]) simp_all

text \<open>An operation of the server, and one of a connection that is looked up first.\<close>

lemma op_ok_server:
  assumes "adm_ok connections_wf (server_request op) m" "op_connection op = None"
  shows "op_ok op s (adm_after m env s)"
  using assms(1) [unfolded adm_ok_def Let_def, rule_format, of env 0 s] assms(2)
  by (simp add: op_ok_def adm_after_def request_allowed_def)

lemma after_get: "adm_after (adm_bind (adm_get f) h) env s = adm_after (h (f (as_connections s))) env s"
  by (simp add: adm_after_def adm_bind_def adm_get_def)

lemma op_ok_found:
  assumes "op_connection op = Some c"
    and some: "\<And>r. find_connection c (as_connections s) = Some r \<Longrightarrow> cn_connection r = c \<Longrightarrow>
      adm_ok (conn_is c (cn_player r)) (entitled r) (h (Some r))"
    and none: "\<And>env. adm_after (h None) env s = s"
  shows "op_ok op s (adm_after (adm_bind (adm_get (find_connection c)) h) env s)"
proof (cases "find_connection c (as_connections s)")
  case None
  then show ?thesis by (simp add: after_get none op_ok_same)
next
  case (Some r)
  have conn: "conn_is c (cn_player r) (as_connections s) = connections_wf (as_connections s)"
    using Some by (auto simp: conn_is_def)
  let ?s = "adm_after (h (Some r)) env s"
  have "adm_ok (conn_is c (cn_player r)) (entitled r) (h (Some r))"
    by (rule some [OF Some]) (simp add: find_connection_Some [OF Some])
  then have "(\<exists>qs. as_runtime ?s = run_ops serve (as_runtime s) qs \<and> (\<forall>q \<in> set qs. entitled r (snd q))) \<and>
      (connections_wf (as_connections s) \<longrightarrow> conn_is c (cn_player r) (as_connections ?s))"
    unfolding adm_ok_def adm_after_def Let_def conn [symmetric] by blast
  then show ?thesis
    by (simp add: op_ok_def after_get request_allowed_def assms(1) Some) (simp add: conn_is_def)
qed

lemma after_stop: "adm_after (adm_fail e) env s = s" "adm_after (adm_ret x) env s = s"
  by (simp_all add: adm_after_def adm_fail_def adm_ret_def)

lemma bind_assoc: "adm_bind (adm_bind m f) h = adm_bind m (\<lambda>x. adm_bind (f x) h)"
  by (auto simp: adm_bind_def fun_eq_iff split: prod.split sum.split)

lemma bind_fail: "adm_bind (adm_fail e) h = adm_fail e"
  by (simp add: adm_bind_def adm_fail_def fun_eq_iff)

lemma ok_admitted: "(\<And>i presence. R (RequestLoad i presence)) \<Longrightarrow> adm_ok J R (admitted_answer m a)"
  unfolding admitted_answer_def by (intro ok_bind ok_snapshot ok_basic) simp_all

lemma ok_repeat:
  assumes "mi_player m = cn_player r"
  shows "adm_ok (conn_is (cn_connection r) (cn_player r)) (entitled r) (repeat_creation r m v)"
  unfolding repeat_creation_def Let_def
  by (intro ok_bind ok_basic ok_load) (auto split: sum.split option.split intro!: ok_bind ok_basic ok_admit ok_admitted assms)

lemma ok_new: "adm_ok (conn_is (cn_connection r) (cn_player r)) (entitled r) (new_creation r mutation leader)"
  unfolding new_creation_def Let_def
  by (intro ok_bind ok_basic ok_admit ok_admitted ok_create) simp_all

lemma create_ok: "op_ok (AdmitCreate c m leader) s (adm_after (create_admitted_campaign c m leader) env s)"
  unfolding create_admitted_campaign_def
  by (rule op_ok_found)
    (auto simp: after_stop intro!: ok_bind ok_basic ok_creation ok_new ok_repeat dest: creation_player split: option.split)

lemma join_slot_ok: "adm_ok J R (join_slot r i c)"
  unfolding join_slot_def by (auto split: option.split intro!: ok_bind ok_basic)

lemma join_slot_player: "yields (join_slot r i c) slot \<Longrightarrow> rec_player slot = cn_player r"
  by (auto simp: yields_def join_slot_def adm_ret_def adm_fail_def adm_bind_def generate_id_def slot_record_def
      find_Some_iff split: option.splits)

lemma join_ok: "op_ok (AdmitJoin c i m v same) s (adm_after (join_campaign c i m v same) env s)"
  unfolding join_campaign_def check_admission_def Let_def
  by (rule op_ok_found)
    (auto simp: after_stop simp del: run_command.simps intro!: ok_admit ok_admitted ok_bind ok_basic ok_load ok_command join_slot_ok
      dest!: join_slot_player split: option.split sum.split)

lemma resume_ok: "op_ok (AdmitResume c i b) s (adm_after (resume_campaign c i b) env s)"
  unfolding resume_campaign_def check_admission_def Let_def
  by (rule op_ok_found)
    (auto simp: after_stop find_Some_iff intro!: ok_bind ok_basic ok_load ok_admit ok_admitted split: option.split sum.split)

lemma start_ok: "op_ok (AdmitStart c i m v leader same) s (adm_after (start_admitted_campaign c i m v leader same) env s)"
  unfolding start_admitted_campaign_def admitted_record_def bind_assoc
  by (rule op_ok_found)
    (auto simp: after_stop bind_fail admitted_to_def simp del: run_command.simps intro!: ok_bind ok_basic ok_answer_command split: option.split)

lemma ready_ok: "op_ok (AdmitReady c i m v ready) s (adm_after (set_admitted_ready c i m v ready) env s)"
  unfolding set_admitted_ready_def admitted_record_def bind_assoc
  by (rule op_ok_found)
    (auto simp: after_stop bind_fail simp del: run_command.simps intro!: ok_bind ok_basic ok_answer_command split: option.split)

lemma leave_ok: "op_ok (AdmitLeave c i m v) s (adm_after (leave_campaign c i m v) env s)"
  unfolding leave_campaign_def Let_def
  by (rule op_ok_found)
    (auto simp: after_stop simp del: run_command.simps intro!: ok_bind ok_basic ok_command ok_revoke ok_snapshot
      split: option.split)

lemma ok_checkpoint: "(\<And>k n presence. R (RequestBeginCheckpoint i k n presence)) \<Longrightarrow> adm_ok J R (begin_campaign_checkpoint i)"
  unfolding begin_campaign_checkpoint_def
  by (intro ok_bind ok_basic)
    (auto split: option.split intro!: ok_bind ok_basic ok_requests)

lemma request_checkpoint_ok: "op_ok (AdmitRequestCheckpoint c) s (adm_after (request_checkpoint c) env s)"
  unfolding request_checkpoint_def
  by (rule op_ok_found)
    (auto simp: after_stop admitted_to_def intro!: ok_basic ok_checkpoint split: option.split)

lemma save_ok: "op_ok (AdmitSave c i k n ok a fv f mv md) s (adm_after (handle_checkpoint_save c i k n ok a fv f mv md) env s)"
  unfolding handle_checkpoint_save_def acting_member_def bind_assoc
  by (rule op_ok_found)
    (auto simp: after_stop bind_fail intro!: ok_bind ok_basic ok_requests split: option.split)

lemma load_recovery_ok: "op_ok (AdmitLoadRecovery c i) s (adm_after (begin_load_recovery c i) env s)"
  unfolding begin_load_recovery_def admitted_record_def bind_assoc
  by (rule op_ok_found)
    (auto simp: after_stop bind_fail intro!: ok_bind ok_basic ok_load ok_requests
      split: option.split sum.split)

lemma loaded_ok:
  "op_ok (AdmitLoaded c i att k ok n a fv f mv md) s (adm_after (handle_recovery_loaded c i att k ok n a fv f mv md) env s)"
  unfolding handle_recovery_loaded_def acting_member_def bind_assoc
  by (rule op_ok_found)
    (auto simp: after_stop bind_fail intro!: ok_bind ok_basic ok_requests split: option.split)

lemma applied_ok: "op_ok (AdmitApplied c i att k v) s (adm_after (handle_snapshot_applied c i att k v) env s)"
  unfolding handle_snapshot_applied_def acting_member_def bind_assoc
  by (rule op_ok_found)
    (auto simp: after_stop bind_fail intro!: ok_bind ok_basic ok_requests split: option.split)

lemma disconnect_ok: "op_ok (AdmitDisconnect c) s (adm_after (disconnect c) env s)"
  unfolding disconnect_def lose_member_def Let_def
  by (rule op_ok_found)
    (auto simp: after_stop intro!: ok_bind ok_basic ok_load ok_snapshot ok_put conn_is_filter
      ok_requests split: option.split)

lemma server_ok:
  "op_ok (AdmitCheckpoint i) s (adm_after (begin_campaign_checkpoint i) env s)"
  "op_ok (AdmitPrepare i) s (adm_after (prepare_campaign_recovery i) env s)"
  "op_ok (AdmitActivity i) s (adm_after (admission_recovery_activity i) env s)"
  "op_ok (AdmitSnapshot i) s (adm_after (build_snapshot i) env s)"
  unfolding prepare_campaign_recovery_def admission_recovery_activity_def
  by (simp_all add: op_ok_server ok_checkpoint ok_snapshot ok_requests ok_bind ok_basic)

lemma register_ok: "op_ok (AdmitRegister c p) s (fst (admission_serve s (env, AdmitRegister c p)))"
  unfolding op_ok_def by (intro conjI exI [of _ "[]"]) (simp_all add: register_wf)

lemma admission_ok: "op_ok op s (fst (admission_serve s (env, op)))"
  by (cases op)
    (simp_all add: register_ok [simplified] create_ok join_ok resume_ok start_ok ready_ok leave_ok request_checkpoint_ok save_ok
      load_recovery_ok loaded_ok applied_ok disconnect_ok server_ok)

end
