(* ===== verification/AdmissionGuarantees.thy ===== *)
theory AdmissionGuarantees
  imports AdmissionInvariant CreationProgress
begin

text \<open>
  What the admission service promises: players are admitted as themselves, requests speak for their sender,
  the campaign service behind it stays well formed, and an admission is earned by a slot of the
  stored roster.
\<close>

section \<open>The machine\<close>

interpretation admission_machine: op_machine admission_serve "\<lambda>s. connections_wf (as_connections s)"
proof
  fix s :: AdmissionService and x assume "connections_wf (as_connections s)"
  with admission_ok [of "snd x" s "fst x"] show "connections_wf (as_connections (fst (admission_serve s x)))"
    by (simp add: op_ok_def)
qed

text \<open>The requests of a run.\<close>

lemma admission_runs_requests:
  "\<exists>qs. as_runtime (run_ops admission_serve s xs) = run_ops serve (as_runtime s) qs"
proof (induction xs arbitrary: s)
  case Nil
  show ?case by (rule exI [of _ "[]"]) simp
next
  case (Cons x xs)
  from admission_ok [of "snd x" s "fst x"] obtain ps where
    "as_runtime (fst (admission_serve s x)) = run_ops serve (as_runtime s) ps" by (auto simp: op_ok_def)
  moreover from Cons [of "fst (admission_serve s x)"] obtain qs where
    "as_runtime (run_ops admission_serve (fst (admission_serve s x)) xs) =
       run_ops serve (as_runtime (fst (admission_serve s x))) qs" by blast
  ultimately show ?case by (metis run_ops.simps(2) run_two)
qed

section \<open>Ends of operations\<close>

definition adm_ends ::
  "('e, 'a) adm \<Rightarrow> AdmissionEnv \<Rightarrow> nat \<times> AdmissionService \<Rightarrow> ('e \<Rightarrow> AdmissionService \<Rightarrow> bool) \<Rightarrow>
   ('a \<Rightarrow> AdmissionService \<Rightarrow> bool) \<Rightarrow> bool" where
  "adm_ends m env ks F G \<longleftrightarrow>
     (case m env ks of (Inl e, ks') \<Rightarrow> F e (snd ks') | (Inr x, ks') \<Rightarrow> G x (snd ks'))"

lemma adm_ends_bind:
  assumes "adm_ends m env (k, s) F G" "\<And>x k' s'. G x s' \<Longrightarrow> adm_ends (h x) env (k', s') F H"
  shows "adm_ends (adm_bind m h) env (k, s) F H"
proof -
  obtain r k1 s1 where m: "m env (k, s) = (r, k1, s1)" by (metis prod_cases3)
  show ?thesis
  proof (cases r)
    case (Inr x)
    then have "G x s1" using assms(1) m by (simp add: adm_ends_def)
    from assms(2) [OF this] show ?thesis using m Inr by (simp add: adm_ends_def adm_bind_def)
  qed (use assms(1) m in \<open>simp add: adm_ends_def adm_bind_def\<close>)
qed

lemma adm_ends_mono:
  "adm_ends m env ks F G \<Longrightarrow> (\<And>e s. F e s \<Longrightarrow> F' e s) \<Longrightarrow> (\<And>x s. G x s \<Longrightarrow> G' x s) \<Longrightarrow> adm_ends m env ks F' G'"
  by (auto simp: adm_ends_def split: prod.splits sum.splits)

lemma adm_ends_basic [simp]:
  "adm_ends (adm_ret x) env (k, s) F G \<longleftrightarrow> G x s" "adm_ends (adm_fail e) env (k, s) F G \<longleftrightarrow> F e s"
  "adm_ends (adm_get f) env (k, s) F H \<longleftrightarrow> H (f (as_connections s)) s"
  "adm_ends (adm_put g) env (k, s) F K \<longleftrightarrow> K () (s\<lparr>as_connections := g (as_connections s)\<rparr>)"
  "adm_ends (adm_require b e) env (k, s) F K \<longleftrightarrow> (if b then K () s else F e s)"
  "adm_ends (generate_id kind) env (k, s) F I \<longleftrightarrow> I (adm_id env kind) s"
  by (simp_all add: adm_ends_def adm_ret_def adm_fail_def adm_get_def adm_put_def adm_require_def generate_id_def)

lemma adm_ends_steps:
  "adm_ends (adm_bind (adm_get f) h) env (k, s) F G \<longleftrightarrow> adm_ends (h (f (as_connections s))) env (k, s) F G"
  "adm_ends (adm_bind (generate_id kind) h') env (k, s) F G \<longleftrightarrow> adm_ends (h' (adm_id env kind)) env (k, s) F G"
  "adm_ends (adm_bind (adm_require b e) h'') env (k, s) F G \<longleftrightarrow>
     (if b then adm_ends (h'' ()) env (k, s) F G else F e s)"
  by (simp_all add: adm_ends_def adm_bind_def adm_get_def generate_id_def adm_require_def adm_ret_def adm_fail_def)

lemma adm_ends_require:
  "(b \<Longrightarrow> adm_ends (h ()) env (k, s) F G) \<Longrightarrow> (\<not> b \<Longrightarrow> F e s) \<Longrightarrow>
     adm_ends (adm_bind (adm_require b e) h) env (k, s) F G"
  by (simp add: adm_ends_steps)

lemma adm_ends_call:
  assumes "\<And>env. svc_ends m env (0, as_runtime s) (\<lambda>e rt. G (Inl e) (s\<lparr>as_runtime := rt\<rparr>))
    (\<lambda>x rt. G (Inr x) (s\<lparr>as_runtime := rt\<rparr>))"
  shows "adm_ends (adm_call m) env (k, s) F G"
  using assms [of "adm_runtime env k"]
  by (auto simp: adm_ends_def adm_call_def svc_ends_def split: prod.splits sum.splits)

lemma adm_ends_handler:
  assumes "\<And>env. svc_ends m env (0, as_runtime s) (\<lambda>r rt. G r (s\<lparr>as_runtime := rt\<rparr>)) (\<lambda>r rt. G r (s\<lparr>as_runtime := rt\<rparr>))"
  shows "adm_ends (adm_handler m) env (k, s) F G"
  unfolding adm_handler_def
  by (rule adm_ends_bind, rule adm_ends_call
      [where G = "\<lambda>x s'. G (either x) s'"]) (use assms in \<open>simp_all add: either_def\<close>)

section \<open>Members of the roster\<close>

definition on_roster :: "CampaignMemberIdentity \<Rightarrow> AdmissionService \<Rightarrow> bool" where
  "on_roster m s \<longleftrightarrow> (\<exists>c. stored_campaign (mi_campaign m) (sv_store (as_runtime s)) = Some c \<and>
     m \<in> roster_identity c ` set (c_roster c))"

text \<open>The connection is admitted as a member of the roster that the store holds.\<close>

definition admitted_member :: "u64 \<Rightarrow> AdmissionService \<Rightarrow> bool" where
  "admitted_member c s \<longleftrightarrow> (\<exists>r m. find_connection c (as_connections s) = Some r \<and> cn_admitted r = Some m \<and>
     mi_player m = cn_player r \<and> on_roster m s)"

lemma loaded_service:
  "svc_ends (load_service_campaign i presence) env (k, rt) (\<lambda>e rt'. sv_store rt' = sv_store rt)
     (\<lambda>(c, state) rt'. sv_store rt' = sv_store rt \<and> stored_campaign i (sv_store rt) = Some c)"
  unfolding load_service_campaign_def
proof (rule svc_ends_bind [OF svc_ends_mono [OF ends_loaded, where G' = "\<lambda>c rt'. rt' = rt \<and> stored_campaign i (sv_store rt) = Some c"]])
  fix c k' rt' assume "rt' = rt \<and> stored_campaign i (sv_store rt) = Some c"
  then show "svc_ends (svc_bind (reconstruct_recovery i) (\<lambda>_. svc_bind (svc_get (\<lambda>s. s))
      (\<lambda>s. svc_ret (c, service_runtime_state s c presence i)))) env (k', rt') (\<lambda>e rt'. sv_store rt' = sv_store rt)
      (\<lambda>(c, state) rt'. sv_store rt' = sv_store rt \<and> stored_campaign i (sv_store rt) = Some c)"
    by (intro svc_ends_bind [OF svc_ends_mono [OF svc_ends_asks [OF leaves_reconstruct [OF apart_store] refuses_fence(1)]]]
        svc_ends_bind [where G = "\<lambda>x s. x = s \<and> sv_store s = sv_store rt"]) auto
qed auto

text \<open>Admitting a member of the stored roster, and answering with a snapshot.\<close>

lemma snapshot_keeps:
  "adm_ends (build_snapshot i) env (k, s) F
     (\<lambda>_ s'. as_connections s' = as_connections s \<and> sv_store (as_runtime s') = sv_store (as_runtime s))"
  unfolding build_snapshot_def adm_ends_steps
  by (rule adm_ends_bind [OF adm_ends_call [where G = "\<lambda>_ s'. as_connections s' = as_connections s \<and>
        sv_store (as_runtime s') = sv_store (as_runtime s)", OF svc_ends_mono [OF loaded_service]]])
    (auto split: sum.split)

lemma admit_member:
  assumes "find_connection c (as_connections s) = Some r" "mi_player m = cn_player r" "on_roster m s"
  shows "adm_ends (adm_bind (admit c m) (\<lambda>_. admitted_answer m a)) env (k, s) F
    (\<lambda>a' s'. pa_result a' = pa_result a \<and> admitted_member c s')"
proof -
  let ?s = "s\<lparr>as_connections := update_connection c (\<lambda>r. r\<lparr>cn_admitted := Some m\<rparr>) (as_connections s)\<rparr>"
  have found: "find_connection c (as_connections ?s) = Some (r\<lparr>cn_admitted := Some m\<rparr>)"
    using assms(1) by (simp add: update_connection_same)
  have "adm_ends (admitted_answer m a) env (k', ?s) F (\<lambda>a' s'. pa_result a' = pa_result a \<and> admitted_member c s')" for k'
    unfolding admitted_answer_def
    by (rule adm_ends_bind [OF snapshot_keeps])
      (use found assms(2,3) in \<open>auto simp: admitted_member_def on_roster_def\<close>)
  then show ?thesis
    unfolding admit_def by (intro adm_ends_bind [where G = "\<lambda>_ s'. s' = ?s"]) auto
qed

lemma found_on_roster:
  assumes "stored_campaign i (sv_store (as_runtime s)) = Some c" "sl \<in> set (c_roster c)"
  shows "on_roster \<lparr>mi_campaign = i, mi_slot = slot_id sl, mi_player = slot_player sl, mi_binding = slot_binding sl\<rparr> s"
proof -
  obtain k' d' where "load_aggregate i quiet_runtime (0, new_service (sv_store (as_runtime s))) = (Inr c, k', d')"
    using assms(1) unfolding stored_campaign_def
    by (cases "load_aggregate i quiet_runtime (0, new_service (sv_store (as_runtime s)))") (auto split: sum.splits)
  then have "c_id c = i" by (rule load_aggregate_id)
  with assms show ?thesis by (auto simp: on_roster_def roster_identity_def)
qed

text \<open>The connection is admitted as a member whenever the answer is one of \<open>outs\<close>.\<close>

definition earns :: "ProtocolOutcome set \<Rightarrow> u64 \<Rightarrow> ProtocolAnswer \<Rightarrow> AdmissionService \<Rightarrow> bool" where
  "earns outs c a s \<longleftrightarrow> (pa_result a \<in> outs \<longrightarrow> admitted_member c s)"

lemma earns_failure: "out \<notin> outs \<Longrightarrow> earns outs c (protocol_failure op out i) s"
  by (simp add: earns_def protocol_failure_def)

lemma adm_ends_loaded:
  "(\<And>e. x = Inl e \<Longrightarrow> adm_ends (f e) env ks F G) \<Longrightarrow> (\<And>c st. x = Inr (c, st) \<Longrightarrow> adm_ends (g c st) env ks F G) \<Longrightarrow>
     adm_ends (case x of Inl e \<Rightarrow> f e | Inr (c, st) \<Rightarrow> g c st) env ks F G"
  by (auto split: sum.split)

lemma loaded_campaign:
  "adm_ends (adm_call (load_service_campaign i presence)) env (k, s) F
     (\<lambda>x s'. as_connections s' = as_connections s \<and> sv_store (as_runtime s') = sv_store (as_runtime s) \<and>
       (case x of Inl e \<Rightarrow> True | Inr (c, state) \<Rightarrow> stored_campaign i (sv_store (as_runtime s')) = Some c))"
  by (rule adm_ends_call, rule svc_ends_mono [OF loaded_service]) auto

lemma map_load_failure_out: "map_load_failure e \<noteq> OutApplied" "map_load_failure e \<noteq> OutAcceptedNoOp"
  "map_load_failure e \<noteq> OutIdempotentReplay"
  by (simp_all add: map_load_failure_def)

lemma resume_slot_earns:
  assumes "find_connection conn (as_connections s) = Some r" "stored_campaign i (sv_store (as_runtime s)) = Some c"
  shows "adm_ends (case find (\<lambda>s. slot_player s = cn_player r) (c_roster c) of
        None \<Rightarrow> adm_fail (protocol_failure ProtocolResume OutIdentityMismatch i)
      | Some s \<Rightarrow>
        adm_bind (adm_require (slot_binding s = binding) (protocol_failure ProtocolResume OutBindingMismatch i)) (\<lambda>_.
        let m = \<lparr>mi_campaign = i, mi_slot = slot_id s, mi_player = slot_player s, mi_binding = slot_binding s\<rparr> in
        adm_bind (admit conn m) (\<lambda>_.
        admitted_answer m ((protocol_failure ProtocolResume out i)\<lparr>pa_version := v\<rparr>))))
    env (k, s) (earns {OutApplied, OutAcceptedNoOp} conn) (earns {OutApplied, OutAcceptedNoOp} conn)"
proof (cases "find (\<lambda>s. slot_player s = cn_player r) (c_roster c)")
  case None
  then show ?thesis by (simp add: earns_failure)
next
  case (Some sl)
  then have sl: "sl \<in> set (c_roster c)" "slot_player sl = cn_player r" by (auto simp: find_Some_iff)
  show ?thesis
    unfolding Some option.case Let_def
    by (rule adm_ends_require, rule adm_ends_mono [OF admit_member [OF assms(1) _ found_on_roster [OF assms(2) sl(1)]]])
      (auto simp: sl(2) earns_def protocol_failure_def)
qed

lemma resume_earns:
  "adm_ends (resume_campaign conn i b) env (k, s) (earns {OutApplied, OutAcceptedNoOp} conn) (earns {OutApplied, OutAcceptedNoOp} conn)"
proof (cases "find_connection conn (as_connections s)")
  case None
  then show ?thesis by (simp add: resume_campaign_def adm_ends_steps earns_failure)
next
  case (Some r)
  show ?thesis
    unfolding resume_campaign_def check_admission_def adm_ends_steps(1) Some option.case
    by (intro adm_ends_require adm_ends_bind [OF loaded_campaign])
      (auto simp: earns_failure map_load_failure_out Some split: sum.splits intro: resume_slot_earns)
qed

text \<open>Joining: the command is applied to the campaign that was loaded.\<close>

lemma added_slot:
  assumes "command_outcome (CommandAdd sl) i v c r d'" "cmd_applied r" "c_id c = i"
  shows "\<exists>c'. stored_campaign i d' = Some c' \<and>
    \<lparr>mi_campaign = i, mi_slot = rec_slot sl, mi_player = rec_player sl, mi_binding = rec_binding sl\<rparr> \<in> roster_identity c' ` set (c_roster c')"
proof -
  let ?c = "fst (add_slot (to_slot_state sl) c)"
  have out: "dom_changed (snd (add_slot (to_slot_state sl) c))" "stored_campaign i d' = Some ?c"
    using assms(1,2) by (simp_all add: command_outcome_def)
  from out(1) have "\<exists>x \<in> set (c_roster ?c). roster_identity ?c x = roster_identity c (to_slot_state sl)"
    by (auto simp: add_slot_def replace_roster_def advance_version_def sort_roster_def roster_identity_def Let_def split: if_splits option.splits)
  then have "roster_identity c (to_slot_state sl) \<in> roster_identity ?c ` set (c_roster ?c)" by (metis imageI)
  with out(2) assms(3) show ?thesis by (simp add: roster_identity_def to_slot_state_def)
qed

lemma outcome_never_succeeds [simp]: "outcome_of_error e \<noteq> OutApplied" "outcome_of_error e \<noteq> OutAcceptedNoOp"
  "outcome_of_error e \<noteq> OutIdempotentReplay"
  by (cases e; simp)+

text \<open>The end of a command that admits: the answer does not change, and the member is on the roster if it is \<open>OutApplied\<close>.\<close>

lemma admit_when_applied:
  assumes "find_connection conn (as_connections s) = Some r" "mi_player m = cn_player r"
    and "pa_result a = OutApplied \<Longrightarrow> on_roster m s"
  shows "adm_ends (adm_bind (admit conn m) (\<lambda>_. admitted_answer m a)) env (k, s) F (earns {OutApplied} conn)"
proof (cases "pa_result a = OutApplied")
  case True
  then show ?thesis
    by (intro adm_ends_mono [OF admit_member [OF assms(1,2) assms(3)]]) (auto simp: earns_def)
next
  case False
  have "adm_ends (admitted_answer m a) env (k', s') F (earns {OutApplied} conn)" for k' s'
    unfolding admitted_answer_def by (intro adm_ends_bind [OF snapshot_keeps]) (simp add: earns_def False)
  then show ?thesis unfolding admit_def by (intro adm_ends_bind [where G = "\<lambda>_ _. True"]) simp_all
qed

lemma join_answer_applied: "pa_result (join_answer r i c command) = OutApplied \<Longrightarrow> cmd_applied command"
  by (auto simp: join_answer_def from_command_def protocol_failure_def map_command_result_def Let_def
      split: if_splits)

lemma join_slot_keeps: "adm_ends (join_slot r i c) env (k, s) (earns {OutApplied} conn) (\<lambda>slot s'. s' = s \<and> rec_player slot = cn_player r)"
  by (auto simp: join_slot_def adm_ends_steps earns_failure slot_record_def find_Some_iff split: option.split)

lemma added_by_command:
  assumes wf: "ledger_wf (sv_store (as_runtime s))" and stored: "stored_campaign i (sv_store (as_runtime s)) = Some c"
  shows "adm_ends (adm_handler (run_command i v m (CommandAdd slot))) env (k, s) F
    (\<lambda>r s'. as_connections s' = as_connections s \<and> (cmd_applied r \<longrightarrow> on_roster
       \<lparr>mi_campaign = i, mi_slot = rec_slot slot, mi_player = rec_player slot, mi_binding = rec_binding slot\<rparr> s'))"
  by (rule adm_ends_handler, rule svc_ends_mono [OF ends_command [OF wf stored]])
    (use added_slot [OF _ _ stored_version(3) [OF wf stored]] in \<open>auto simp: on_roster_def\<close>)

lemma join_earns:
  assumes "ledger_wf (sv_store (as_runtime s))"
  shows "adm_ends (join_campaign conn i m v same) env (k, s) (earns {OutApplied} conn) (earns {OutApplied} conn)"
proof (cases "find_connection conn (as_connections s)")
  case None
  then show ?thesis by (simp add: join_campaign_def adm_ends_steps earns_failure)
next
  case (Some r)
  let ?m = "\<lambda>slot. \<lparr>mi_campaign = i, mi_slot = rec_slot slot, mi_player = rec_player slot, mi_binding = rec_binding slot\<rparr>"
  have added: "adm_ends (adm_bind (adm_handler (run_command i v m (CommandAdd slot))) (\<lambda>command.
      adm_bind (adm_require (answer_succeeded (join_answer r i c command)) (join_answer r i c command)) (\<lambda>_.
      adm_bind (admit conn (?m slot)) (\<lambda>_. admitted_answer (?m slot) (join_answer r i c command))))) env (k', s') (earns {OutApplied} conn) (earns {OutApplied} conn)"
    if "as_connections s' = as_connections s" "sv_store (as_runtime s') = sv_store (as_runtime s)"
      "stored_campaign i (sv_store (as_runtime s')) = Some c" "rec_player slot = cn_player r" for slot c k' s'
  proof (rule adm_ends_bind [OF added_by_command [OF _ that(3)]], goal_cases)
    case 1
    show ?case using assms that(2) by simp
  next
    case (2 command k2 s2)
    then show ?case
      by (intro adm_ends_require admit_when_applied)
        (use that(1,4) Some in \<open>auto simp: earns_def answer_succeeded_def dest: join_answer_applied\<close>)
  qed
  have command: "adm_ends (adm_bind (join_slot r i c) (\<lambda>slot.
      adm_bind (adm_handler (run_command i v m (CommandAdd slot))) (\<lambda>command.
      adm_bind (adm_require (answer_succeeded (join_answer r i c command)) (join_answer r i c command)) (\<lambda>_.
      adm_bind (admit conn (?m slot)) (\<lambda>_. admitted_answer (?m slot) (join_answer r i c command)))))) env (k', s') (earns {OutApplied} conn) (earns {OutApplied} conn)"
    if "as_connections s' = as_connections s" "sv_store (as_runtime s') = sv_store (as_runtime s)"
      "stored_campaign i (sv_store (as_runtime s')) = Some c" for c k' s'
    by (rule adm_ends_bind [OF join_slot_keeps]) (elim conjE, rule added, use that in simp_all)
  show ?thesis
    unfolding join_campaign_def check_admission_def Let_def adm_ends_steps(1) Some option.case
    by (intro adm_ends_require command adm_ends_bind [OF loaded_campaign] adm_ends_loaded)
      (auto simp: earns_failure map_load_failure_out)
qed

text \<open>Creating: in a store that does not know the campaign.\<close>

lemma lobby_member:
  assumes "new_lobby_campaign i [sl] = Inr c"
  shows "roster_identity c sl \<in> roster_identity c ` set (c_roster c) \<and> c_id c = i"
  using assms
  by (auto simp: new_lobby_campaign_def sort_roster_def roster_identity_def Let_def image_iff split: if_splits)

lemma creation_applied:
  assumes wf: "ledger_wf (sv_store (as_runtime s))" and fresh: "unknown_campaign i (sv_store (as_runtime s))"
  shows "adm_ends (adm_handler (create_lobby_campaign i mutation [host])) env (k, s) F
    (\<lambda>r s'. as_connections s' = as_connections s \<and> (cmd_applied r \<longrightarrow> on_roster
       \<lparr>mi_campaign = i, mi_slot = rec_slot host, mi_player = rec_player host, mi_binding = rec_binding host\<rparr> s'))"
proof (rule adm_ends_handler, rule svc_ends_mono [OF ends_created [OF wf fresh]])
  fix r and rt :: RuntimeService
  assume created: "if cmd_applied r then cmd_error r = NoCampaignError \<and> cmd_version r = 1 \<and>
        Inr (the (stored_campaign i (sv_store rt))) = new_lobby_campaign i (map to_slot_state [host]) \<and>
        stored_campaign i (sv_store rt) \<noteq> None
      else sv_store rt = sv_store (as_runtime s)"
  have "on_roster \<lparr>mi_campaign = i, mi_slot = rec_slot host, mi_player = rec_player host, mi_binding = rec_binding host\<rparr>
      (s\<lparr>as_runtime := rt\<rparr>)" if "cmd_applied r"
  proof -
    from created that obtain c where c: "stored_campaign i (sv_store rt) = Some c"
      "new_lobby_campaign i [to_slot_state host] = Inr c" by auto
    from lobby_member [OF c(2)] c(1) show ?thesis
      by (auto simp: on_roster_def roster_identity_def to_slot_state_def)
  qed
  then show "as_connections (s\<lparr>as_runtime := rt\<rparr>) = as_connections s \<and> (cmd_applied r \<longrightarrow> on_roster
      \<lparr>mi_campaign = i, mi_slot = rec_slot host, mi_player = rec_player host, mi_binding = rec_binding host\<rparr> (s\<lparr>as_runtime := rt\<rparr>))"
    by simp
qed auto

lemma from_command_applied: "pa_result (from_command op i command) = OutApplied \<Longrightarrow> cmd_applied command"
  by (auto simp: from_command_def protocol_failure_def map_command_result_def split: if_splits)

lemma new_creation_earns:
  assumes wf: "ledger_wf (sv_store (as_runtime s))"
    and fresh: "unknown_campaign (adm_id env ''campaign-'') (sv_store (as_runtime s))"
    and found: "find_connection (cn_connection r) (as_connections s) = Some r"
  shows "adm_ends (new_creation r mutation leader) env (k, s) (earns {OutApplied} (cn_connection r)) (earns {OutApplied} (cn_connection r))"
  unfolding new_creation_def adm_ends_steps(2) Let_def
proof (intro adm_ends_require, unfold adm_ends_steps(2), rule adm_ends_bind [OF creation_applied [OF wf fresh]], goal_cases)
  case (1 command k' s')
  then show ?case
    by (intro adm_ends_require admit_when_applied)
      (use found in \<open>auto simp: earns_def answer_succeeded_def dest: from_command_applied\<close>)
qed (simp_all add: earns_failure)

lemma repeat_creation_earns:
  "adm_ends (repeat_creation r m v) env (k, s) (earns {OutApplied} conn) (earns {OutApplied} conn)"
proof -
  have answered: "adm_ends (admitted_answer m ((protocol_failure ProtocolCreate OutIdempotentReplay i)\<lparr>pa_version := v\<rparr>))
      env (k', s') F (earns {OutApplied} conn)" for k' s' F i
    unfolding admitted_answer_def
    by (rule adm_ends_bind [OF snapshot_keeps]) (simp add: earns_def protocol_failure_def)
  have found: "adm_ends (case x of None \<Rightarrow> adm_fail e | Some y \<Rightarrow> f y) env ks F G"
    if "F e (snd ks)" "\<And>y. adm_ends (f y) env ks F G" for x e f ks F and G :: "ProtocolAnswer \<Rightarrow> AdmissionService \<Rightarrow> bool"
    using that by (cases ks) (simp split: option.split)
  show ?thesis
    unfolding repeat_creation_def Let_def admit_def
    by (intro adm_ends_require adm_ends_bind [OF loaded_campaign] adm_ends_loaded found answered
        adm_ends_bind [where m = "adm_put _" and G = "\<lambda>_ _. True"])
      (simp_all add: earns_failure map_load_failure_out)
qed

lemma creation_lookup: "adm_ends (adm_handler (find_campaign_creation p m)) env (k, s) F (\<lambda>_ s'. s' = s)"
proof (rule adm_ends_handler)
  fix env
  have "svc_leaves (\<lambda>s. s) (find_campaign_creation p m)"
    unfolding find_campaign_creation_def by (auto intro!: leaves_svc steady_loads)
  from svc_leavesD [OF this] show "svc_ends (find_campaign_creation p m) env (0, as_runtime s)
      (\<lambda>_ rt. s\<lparr>as_runtime := rt\<rparr> = s) (\<lambda>_ rt. s\<lparr>as_runtime := rt\<rparr> = s)"
    by (cases "find_campaign_creation p m env (0, as_runtime s)") (fastforce simp: svc_ends_def split: sum.split)
qed

lemma create_earns:
  assumes "ledger_wf (sv_store (as_runtime s))" "unknown_campaign (adm_id env ''campaign-'') (sv_store (as_runtime s))"
  shows "adm_ends (create_admitted_campaign conn mutation leader) env (k, s) (earns {OutApplied} conn) (earns {OutApplied} conn)"
proof (cases "find_connection conn (as_connections s)")
  case None
  then show ?thesis by (simp add: create_admitted_campaign_def adm_ends_steps earns_failure)
next
  case (Some r)
  then have conn: "cn_connection r = conn" by (simp add: find_connection_Some)
  show ?thesis
    unfolding create_admitted_campaign_def adm_ends_steps(1) Some option.case
    by (intro adm_ends_require adm_ends_bind [OF creation_lookup])
      (auto simp: earns_failure repeat_creation_earns conn intro: new_creation_earns [OF assms, of r, unfolded conn] Some
        split: option.split)
qed

section \<open>Leaving\<close>

text \<open>
  A command to leave that succeeds revokes whatever the connection is admitted to, also when it leaves
  another campaign, the one of the previous admission, and also when it is a replay.
\<close>

lemma leave_revokes_any_admission:
  "adm_ends (leave_campaign conn i m v) env (k, s) (\<lambda>a s'. True)
     (\<lambda>a s'. \<forall>r. find_connection conn (as_connections s') = Some r \<longrightarrow> cn_admitted r = None)"
proof (cases "find_connection conn (as_connections s)")
  case None
  then show ?thesis by (simp add: leave_campaign_def adm_ends_steps)
next
  case (Some r)
  let ?Q = "\<lambda>s'. \<forall>r. find_connection conn (as_connections s') = Some r \<longrightarrow> cn_admitted r = None"
  have revoke: "adm_ends (revoke_admission conn) env (k', s') F (\<lambda>_. ?Q)" for k' s' F
  proof -
    let ?f = "\<lambda>r. case cn_admitted r of None \<Rightarrow> r | Some m \<Rightarrow> r\<lparr>cn_previous := Some m, cn_admitted := None\<rparr>"
    have "find_connection conn (update_connection conn ?f rs) = map_option ?f (find_connection conn rs)" for rs
      by (subst update_connection_same(3)) (simp_all split: option.split)
    moreover have "cn_admitted (?f r) = None" for r by (simp split: option.split)
    ultimately show ?thesis by (auto simp: revoke_admission_def)
  qed
  have snapshot: "adm_ends (build_snapshot i) env (k', s') F (\<lambda>_. ?Q)" if "?Q s'" for k' s' F
    by (rule adm_ends_mono [OF snapshot_keeps [where F = F]]) (use that in auto)
  have ending: "adm_ends (adm_bind (revoke_admission conn) (\<lambda>_. adm_bind (build_snapshot i) (\<lambda>snapshot. adm_ret (g snapshot))))
      env (k', s') (\<lambda>a s'. True) (\<lambda>a. ?Q)" for g :: "WireSnapshot option \<Rightarrow> ProtocolAnswer" and k' s'
    by (rule adm_ends_bind [OF revoke], rule adm_ends_bind [OF snapshot]) simp_all
  have any: "adm_ends m env (k', s') (\<lambda>_ _. True) (\<lambda>_ _. True)" for m k' s'
    by (simp add: adm_ends_def split: sum.split prod.split)
  show ?thesis
    unfolding leave_campaign_def adm_ends_steps(1) Some option.case Let_def
  proof (rule adm_ends_require)
    show "adm_ends (case leaving_identity r i of None \<Rightarrow> adm_fail (protocol_failure ProtocolLeave OutNotAdmitted i)
      | Some mi \<Rightarrow> adm_bind (adm_handler (run_command i v m (CommandRemove (mi_slot mi)))) (\<lambda>command.
         adm_bind (adm_require (answer_succeeded (from_command ProtocolLeave i command)) (from_command ProtocolLeave i command)) (\<lambda>_.
         adm_bind (revoke_admission conn) (\<lambda>_.
         adm_bind (build_snapshot i) (\<lambda>snapshot. adm_ret (from_command ProtocolLeave i command\<lparr>pa_snapshot := snapshot\<rparr>))))))
      env (k, s) (\<lambda>a s'. True) (\<lambda>a. ?Q)"
      by (cases "leaving_identity r i")
        (simp, simp only: option.case, rule adm_ends_bind [OF any], rule adm_ends_require, rule ending, simp)
  qed simp
qed

section \<open>Properties\<close>

text \<open>
  C14: Requests speak for their sender: whatever an operation does to the campaign service is a sequence of
  requests, and each of them is entitled. A request that comes from a connection acts under the identity
  the connection is admitted as, in the campaign of that admission only; a create and a join name the
  connection's own player; a connection that is not registered causes no request. The one exception is a
  leave: for a campaign that the connection is not admitted to now but was admitted to last, it acts under
  that previous admission. The server's own operations make only the request they are for.
\<close>

theorem requests_speak_for_their_sender:
  "\<exists>qs. as_runtime (fst (admission_serve s (env, op))) = run_ops serve (as_runtime s) qs \<and>
     (\<forall>q \<in> set qs. case op_connection op of
        None \<Rightarrow> server_request op (snd q)
      | Some c \<Rightarrow> (case find_connection c (as_connections s) of
           None \<Rightarrow> False
         | Some r \<Rightarrow> speaks_for r (snd q) \<or> leaves_previous r (snd q)))"
  using admission_ok [of op s env] by (simp only: op_ok_def request_allowed_def entitled_def)

definition example_admission_env :: AdmissionEnv where
  "example_admission_env = \<lparr>adm_runtime = \<lambda>_. quiet_runtime, adm_id = \<lambda>kind. kind @ ''1''\<rparr>"

text \<open>A connection that is admitted to the lobby after it left another campaign.\<close>

definition example_member_identity :: "string \<Rightarrow> CampaignMemberIdentity" where
  "example_member_identity i = \<lparr>mi_campaign = i, mi_slot = ''s'', mi_player = ''p'', mi_binding = ''b''\<rparr>"

definition example_admission :: AdmissionService where
  "example_admission = \<lparr>as_runtime = lobby_service, as_connections =
     [\<lparr>cn_connection = 7, cn_player = ''p'', cn_admitted = Some (example_member_identity ''c''),
       cn_previous = Some (example_member_identity ''d'')\<rparr>]\<rparr>"

theorem requests_speak_for_their_sender_witness:
  "\<exists>qs. as_runtime (fst (admission_serve example_admission (example_admission_env, AdmitReady 7 ''c'' ''m2'' 1 True))) =
       run_ops serve lobby_service qs \<and>
     (\<forall>q \<in> set qs. \<forall>i v k m b. snd q = RequestCommand i v k (CommandReady m b) \<longrightarrow>
        i = ''c'' \<and> m = example_member_identity ''c'')"
proof -
  obtain qs where qs: "as_runtime (fst (admission_serve example_admission
      (example_admission_env, AdmitReady 7 ''c'' ''m2'' 1 True))) = run_ops serve lobby_service qs"
    "\<forall>q \<in> set qs. speaks_for (hd (as_connections example_admission)) (snd q) \<or>
       leaves_previous (hd (as_connections example_admission)) (snd q)"
    using requests_speak_for_their_sender [of example_admission example_admission_env "AdmitReady 7 ''c'' ''m2'' 1 True"]
    by (auto simp: example_admission_def)
  have "i = ''c'' \<and> m = example_member_identity ''c''"
    if "q \<in> set qs" "snd q = RequestCommand i v k (CommandReady m b)" for q i v k m b
    using qs(2) that by (fastforce simp: example_admission_def example_member_identity_def)
  with qs(1) show ?thesis by blast
qed

text \<open>
  C18: Players are admitted as themselves: after any operations, from a store that is well formed, no two
  connections are the same or have the same player, every player id is valid, whoever is or was admitted
  was so under an identity of its own player, and the campaign service behind is well formed.
\<close>

theorem players_are_admitted_as_themselves:
  assumes "ledger_wf d" "tables_wf d"
  shows "let s = run_ops admission_serve (new_admission (new_service d)) xs in
    distinct (map cn_connection (as_connections s)) \<and> distinct (map cn_player (as_connections s)) \<and>
    (\<forall>r \<in> set (as_connections s). is_valid_player_id (cn_player r) \<and>
       (\<forall>m. cn_admitted r = Some m \<or> cn_previous r = Some m \<longrightarrow> mi_player m = cn_player r)) \<and>
    service_wf (as_runtime s)"
proof -
  let ?s = "run_ops admission_serve (new_admission (new_service d)) xs"
  have "connections_wf (as_connections ?s)"
    by (rule admission_machine.run_wf) (simp add: new_admission_def connections_wf_def)
  moreover have "service_wf (as_runtime ?s)"
  proof -
    obtain qs where "as_runtime ?s = run_ops serve (as_runtime (new_admission (new_service d))) qs"
      using admission_runs_requests by blast
    moreover have "service_wf (run_ops serve (new_service d) qs)"
      by (rule service_machine.run_wf [OF new_service_wf [OF assms]])
    ultimately show ?thesis by (simp add: new_admission_def)
  qed
  ultimately show ?thesis by (auto simp: connections_wf_def record_wf_def list_all_iff Let_def)
qed

theorem players_are_admitted_as_themselves_witness:
  "service_wf (as_runtime (run_ops admission_serve (new_admission (new_service lobby_store))
     [(example_admission_env, AdmitResume 7 ''c'' ''b'')]))"
  using players_are_admitted_as_themselves [OF lobby_ledger lobby_tables, of "[(example_admission_env, AdmitResume 7 ''c'' ''b'')]"]
  unfolding Let_def by blast

text \<open>The answer of an operation whose early returns and end are of the same type.\<close>

definition adm_answer :: "('r, 'r) adm \<Rightarrow> AdmissionEnv \<Rightarrow> AdmissionService \<Rightarrow> 'r \<times> AdmissionService" where
  "adm_answer m env s = (case m env (0, s) of (r, k, s') \<Rightarrow> (either r, s'))"

lemma answer_earns: "adm_ends m env (0, s) (earns outs c) (earns outs c) \<Longrightarrow>
  case adm_answer m env s of (a, s') \<Rightarrow> pa_result a \<in> outs \<longrightarrow> admitted_member c s'"
  by (auto simp: adm_ends_def adm_answer_def earns_def either_def split: prod.splits sum.splits)

text \<open>
  C15: An admission is earned: when a resume, a join or a create is answered as applied (or, for a resume, as
  changing nothing), the connection is admitted as a member of its player whose slot, player and character
  binding are on the roster that the store holds; for a create the generated campaign id is new to the store.
\<close>

theorem admission_is_membership:
  assumes "ledger_wf (sv_store (as_runtime s))" "unknown_campaign (adm_id env ''campaign-'') (sv_store (as_runtime s))"
  shows "(case adm_answer (resume_campaign conn i b) env s of (a, s') \<Rightarrow>
      pa_result a \<in> {OutApplied, OutAcceptedNoOp} \<longrightarrow> admitted_member conn s') \<and>
    (case adm_answer (join_campaign conn i m v same) env s of (a, s') \<Rightarrow> pa_result a \<in> {OutApplied} \<longrightarrow> admitted_member conn s') \<and>
    (case adm_answer (create_admitted_campaign conn m leader) env s of (a, s') \<Rightarrow>
      pa_result a \<in> {OutApplied} \<longrightarrow> admitted_member conn s')"
  by (intro conjI answer_earns resume_earns join_earns create_earns assms)

theorem admission_is_membership_witness:
  "case adm_answer (create_admitted_campaign 7 ''m2'' True) example_admission_env (new_admission lobby_service) of
     (a, s') \<Rightarrow> pa_result a \<in> {OutApplied} \<longrightarrow> admitted_member 7 s'"
proof -
  have "ledger_wf (sv_store (as_runtime (new_admission lobby_service)))"
    using lobby_ledger by (simp add: new_admission_def lobby_facts)
  moreover have "unknown_campaign (adm_id example_admission_env ''campaign-'') (sv_store (as_runtime (new_admission lobby_service)))"
    by (simp add: example_admission_env_def new_admission_def lobby_facts unknown_campaign_def view_def contents_def
        find_campaign_def slots_of_def builds_of_def adapters_of_def rows_of_def lobby_store_def lobby_record_def
        lobby_row_def empty_database_def)
  ultimately show ?thesis by (rule admission_is_membership [THEN conjunct2, THEN conjunct2])
qed

end
