(* ===== verification/GroupSpatialCondition.thy ===== *)
theory GroupSpatialCondition
  imports GameInventory
begin

text \<open>
  \<open>campaign_protocol/GroupSpatialCondition.cpp\<close>: whether any, none or all members of a group stand in
  one of the cells of a footprint, when that can be known.
\<close>

datatype GroupOperator = GroupAny | GroupNone | GroupAll

datatype EvaluationStatus = StatusKnown | StatusGateClosed | StatusEmptyFootprint | StatusIncompleteRoster | StatusUnknownPosition

record MemberPosition =
  pos_present :: bool
  pos_cell :: "GameId option"

record Evaluation =
  ev_status :: EvaluationStatus
  ev_met :: bool
  ev_relevant :: nat
  ev_inside :: nat

text \<open>\<open>!acMember.Cell || !*acMember.Cell\<close>.\<close>

definition cell_unknown :: "MemberPosition \<Rightarrow> bool" where
  "cell_unknown m \<longleftrightarrow> (case pos_cell m of None \<Rightarrow> True | Some c \<Rightarrow> \<not> game_id_set c)"

definition stands_inside :: "GameId list \<Rightarrow> MemberPosition \<Rightarrow> bool" where
  "stands_inside footprint m \<longleftrightarrow> (case pos_cell m of None \<Rightarrow> False | Some c \<Rightarrow> list_ex (game_id_eq c) footprint)"

fun operator_met :: "GroupOperator \<Rightarrow> nat \<Rightarrow> nat \<Rightarrow> bool" where
  "operator_met GroupAny inside relevant \<longleftrightarrow> inside > 0"
| "operator_met GroupNone inside relevant \<longleftrightarrow> inside = 0"
| "operator_met GroupAll inside relevant \<longleftrightarrow> inside = relevant"

definition evaluate_group :: "MemberPosition list \<Rightarrow> GameId list \<Rightarrow> GroupOperator \<Rightarrow> bool \<Rightarrow> Evaluation" where
  "evaluate_group members footprint op gate_open =
     (let unknown = \<lambda>s. \<lparr>ev_status = s, ev_met = False, ev_relevant = length members, ev_inside = 0\<rparr> in
      if \<not> gate_open then unknown StatusGateClosed
      else if footprint = [] then unknown StatusEmptyFootprint
      else if members = [] \<or> list_ex (\<lambda>m. \<not> pos_present m) members then unknown StatusIncompleteRoster
      else if list_ex cell_unknown members then unknown StatusUnknownPosition
      else
        let inside = length (filter (stands_inside footprint) members) in
        \<lparr>ev_status = StatusKnown, ev_met = operator_met op inside (length members),
         ev_relevant = length members, ev_inside = inside\<rparr>)"

lemma evaluation_known:
  "ev_status (evaluate_group members footprint op gate) = StatusKnown \<longleftrightarrow>
     gate \<and> footprint \<noteq> [] \<and> members \<noteq> [] \<and> (\<forall>m \<in> set members. pos_present m \<and> \<not> cell_unknown m)"
  by (auto simp: evaluate_group_def Let_def list_ex_iff)

lemma met_when_known: "ev_met (evaluate_group members footprint op gate) \<Longrightarrow>
  ev_status (evaluate_group members footprint op gate) = StatusKnown"
  by (auto simp: evaluate_group_def Let_def split: if_splits)

lemma inside_iff: "\<not> cell_unknown m \<Longrightarrow> stands_inside footprint m \<longleftrightarrow> (\<exists>c \<in> set footprint. pos_cell m = Some c)"
  by (auto simp: stands_inside_def cell_unknown_def list_ex_iff split: option.splits)

lemma all_filtered: "length (filter P xs) = length xs \<longleftrightarrow> (\<forall>x \<in> set xs. P x)"
  by (metis filter_True length_filter_less nless_le)

text \<open>
  The condition of a group means what its operator says, of members whose cells are all known: it is met
  exactly when the gate is open, the footprint and the group are not empty, every member is present in a
  known cell, and some, none or all of them stand in the footprint. What is not known is never met.
\<close>

theorem group_condition_exact:
  "ev_met (evaluate_group members footprint op gate) \<longleftrightarrow>
     gate \<and> footprint \<noteq> [] \<and> members \<noteq> [] \<and> (\<forall>m \<in> set members. pos_present m \<and> \<not> cell_unknown m) \<and>
     (let inside = \<lambda>m. \<exists>c \<in> set footprint. pos_cell m = Some c in
      case op of GroupAny \<Rightarrow> \<exists>m \<in> set members. inside m
      | GroupNone \<Rightarrow> \<not> (\<exists>m \<in> set members. inside m)
      | GroupAll \<Rightarrow> \<forall>m \<in> set members. inside m)"
proof -
  have "ev_met (evaluate_group members footprint op gate) \<longleftrightarrow>
    ev_status (evaluate_group members footprint op gate) = StatusKnown \<and>
    operator_met op (length (filter (stands_inside footprint) members)) (length members)"
    by (auto simp: evaluate_group_def Let_def)
  moreover have "operator_met op (length (filter (stands_inside footprint) members)) (length members) \<longleftrightarrow>
    (case op of GroupAny \<Rightarrow> \<exists>m \<in> set members. stands_inside footprint m
      | GroupNone \<Rightarrow> \<not> (\<exists>m \<in> set members. stands_inside footprint m)
      | GroupAll \<Rightarrow> \<forall>m \<in> set members. stands_inside footprint m)"
    by (cases op) (auto simp: filter_empty_conv all_filtered)
  ultimately show ?thesis
    unfolding evaluation_known Let_def by (cases op) (auto simp: inside_iff)
qed

end
