(* ===== verification/StartBarrier.thy ===== *)
theory StartBarrier
  imports AdmissionGuarantees GroupSpatialCondition Histories
begin

text \<open>
  \<open>campaign_protocol/CampaignHelgenStartBarrier.cpp\<close>: the start of the first scene, for which the members of
  an active campaign wait for each other. The reader of a build's evidence is a parameter. The sets are finite
  sets; the reasons of a refusal, which are texts, are left out.
\<close>

datatype HelgenBuildEvidence = BuildMissing | BuildPending | BuildApplied | BuildInvalid

datatype HelgenStartOutcome = HelgenRejected | HelgenWaiting | HelgenStarted | HelgenAlreadyStarted

record HelgenStartResult =
  hr_outcome :: HelgenStartOutcome
  hr_campaign :: CampaignId
  hr_required :: nat
  hr_applied :: nat

record HelgenBarrier =
  hb_ready :: "CampaignId \<Rightarrow> u64 fset"
  hb_started :: "CampaignId fset"

definition new_barrier :: HelgenBarrier where
  "new_barrier = \<lparr>hb_ready = \<lambda>_. {||}, hb_started = {||}\<rparr>"

definition no_start :: HelgenStartResult where
  "no_start = \<lparr>hr_outcome = HelgenRejected, hr_campaign = [], hr_required = 0, hr_applied = 0\<rparr>"

definition has_started :: "CampaignId \<Rightarrow> HelgenBarrier \<Rightarrow> bool" where
  "has_started i b \<longleftrightarrow> i |\<in>| hb_started b"

text \<open>
  The loop over the admitted connections: how many builds are applied and whether all are missing, or the early
  return with the count so far.
\<close>

fun read_builds ::
  "(AdmissionRecord \<Rightarrow> HelgenBuildEvidence) \<Rightarrow> CampaignId \<Rightarrow> AdmissionRecord list \<Rightarrow> u64 list \<Rightarrow> nat \<Rightarrow> bool \<Rightarrow>
   nat + nat \<times> bool" where
  "read_builds build i rs [] n missing = Inr (n, missing)"
| "read_builds build i rs (c # cs) n missing =
     (case find_connection c rs of
        None \<Rightarrow> Inl n
      | Some r \<Rightarrow>
        case cn_admitted r of
          None \<Rightarrow> Inl n
        | Some m \<Rightarrow>
          if cn_player r \<noteq> mi_player m \<or> mi_campaign m \<noteq> i then Inl n
          else if build r = BuildInvalid then Inl n
          else read_builds build i rs cs (if build r = BuildApplied then n + 1 else n) (missing \<and> build r = BuildMissing))"

text \<open>
  The decision, with the number of applied builds and whether all of them are missing: a readiness is
  remembered where it counts.
\<close>

definition decide_start ::
  "u64 \<Rightarrow> bool \<Rightarrow> bool \<Rightarrow> CampaignId \<Rightarrow> u64 list \<Rightarrow> nat \<Rightarrow> nat \<Rightarrow> bool \<Rightarrow> HelgenBarrier \<Rightarrow> HelgenBarrier \<times> HelgenStartOutcome" where
  "decide_start conn readiness committed i connections required n missing b =
     (let complete = (n = required);
          waits = (readiness \<and> \<not> complete \<and> missing \<and> committed);
          b = (if waits then b\<lparr>hb_ready := (hb_ready b)(i := finsert conn (hb_ready b i))\<rparr> else b);
          may_start = (if waits then list_all (\<lambda>c. c |\<in>| hb_ready b i) connections else complete) in
      if may_start \<and> \<not> has_started i b then (b\<lparr>hb_started := finsert i (hb_started b)\<rparr>, HelgenStarted)
      else (b, HelgenWaiting))"

text \<open>The part of \<open>Observe\<close> after the snapshot \<open>w\<close>.\<close>

definition observe_members ::
  "(AdmissionRecord \<Rightarrow> HelgenBuildEvidence) \<Rightarrow> u64 \<Rightarrow> bool \<Rightarrow> bool \<Rightarrow> CampaignId \<Rightarrow> AdmissionRecord list \<Rightarrow> WireSnapshot \<Rightarrow>
   HelgenBarrier \<Rightarrow> HelgenBarrier \<times> HelgenStartResult" where
  "observe_members build conn readiness committed i rs w b =
     (let connections = get_admitted_connections i rs; required = length (ws_roster w);
          result = no_start\<lparr>hr_campaign := i, hr_required := required\<rparr> in
      if length connections \<noteq> required \<or> list_ex (\<lambda>s. \<not> ps_present s) (ws_roster w) then (b, result)
      else if has_started i b then (b, result\<lparr>hr_outcome := HelgenAlreadyStarted\<rparr>)
      else case read_builds build i rs connections 0 True of
        Inl n \<Rightarrow> (b, result\<lparr>hr_applied := n\<rparr>)
      | Inr (n, missing) \<Rightarrow>
        case decide_start conn readiness committed i connections required n missing b of
          (b, outcome) \<Rightarrow> (b, result\<lparr>hr_applied := n, hr_outcome := outcome\<rparr>))"

definition gate_open :: "WireSnapshot option \<Rightarrow> bool" where
  "gate_open w \<longleftrightarrow> (case w of None \<Rightarrow> False
     | Some w \<Rightarrow> ws_sealed w \<and> ws_roster w \<noteq> [] \<and> ws_runtime w = kCampaignWireRuntimeActive)"

definition observe_start ::
  "(AdmissionRecord \<Rightarrow> HelgenBuildEvidence) \<Rightarrow> u64 \<Rightarrow> bool \<Rightarrow> bool \<Rightarrow> HelgenBarrier \<Rightarrow>
   ('e, HelgenBarrier \<times> HelgenStartResult) adm" where
  "observe_start build conn readiness committed b =
     adm_bind (adm_get (find_connection conn)) (\<lambda>found.
     case found of None \<Rightarrow> adm_ret (b, no_start)
     | Some r \<Rightarrow> (case cn_admitted r of None \<Rightarrow> adm_ret (b, no_start)
       | Some m \<Rightarrow>
         adm_bind (build_snapshot (mi_campaign m)) (\<lambda>w.
         if \<not> gate_open w then adm_ret (b, no_start\<lparr>hr_campaign := mi_campaign m\<rparr>)
         else adm_get (\<lambda>rs. observe_members build conn readiness committed (mi_campaign m) rs (the w) b))))"

definition barrier_disconnect :: "CampaignId \<Rightarrow> HelgenBarrier \<Rightarrow> HelgenBarrier" where
  "barrier_disconnect i b = b\<lparr>hb_ready := (hb_ready b)(i := {||})\<rparr>"

section \<open>The barrier as a machine\<close>

text \<open>
  An observation comes with the admission service as it is then, and the environment of its call; the admission
  service is not the barrier's own.
\<close>

datatype BarrierOp =
    BarrierObserve "AdmissionRecord \<Rightarrow> HelgenBuildEvidence" u64 bool bool AdmissionEnv AdmissionService
  | BarrierDisconnect CampaignId

fun barrier_perform :: "HelgenBarrier \<Rightarrow> BarrierOp \<Rightarrow> HelgenBarrier \<times> HelgenStartResult" where
  "barrier_perform b (BarrierObserve build conn readiness committed env s) =
     (case observe_start build conn readiness committed b env (0, s) of
        (Inl e, _) \<Rightarrow> (case e :: unit of () \<Rightarrow> (b, no_start))
      | (Inr r, _) \<Rightarrow> r)"
| "barrier_perform b (BarrierDisconnect i) = (barrier_disconnect i b, no_start)"

lemma decide_outcomes:
  assumes "decide_start conn readiness committed i connections required n missing b = (b', out)"
  shows "fset (hb_started b) \<subseteq> fset (hb_started b')"
    and "out = HelgenStarted \<Longrightarrow> i |\<notin>| hb_started b \<and> i |\<in>| hb_started b'"
    and "out = HelgenStarted \<Longrightarrow> n = required \<or> readiness \<and> committed \<and> missing \<and>
      list_all (\<lambda>c. c = conn \<or> c |\<in>| hb_ready b i) connections"
  using assms
  by (cases "readiness \<and> n \<noteq> required \<and> missing \<and> committed";
      auto simp: decide_start_def has_started_def Let_def list_all_iff split: if_splits)+

lemma observe_outcomes:
  assumes "observe_members build conn readiness committed i rs w b = (b', r)"
  shows "fset (hb_started b) \<subseteq> fset (hb_started b')"
    and "hr_outcome r = HelgenStarted \<Longrightarrow> hr_campaign r = i \<and> i |\<notin>| hb_started b \<and> i |\<in>| hb_started b'"
  using assms decide_outcomes(1,2)
  by (auto simp: observe_members_def no_start_def Let_def split: if_splits sum.splits prod.splits)

definition latched :: "HelgenBarrier \<Rightarrow> HelgenBarrier \<times> HelgenStartResult \<Rightarrow> bool" where
  "latched b = (\<lambda>(b', r). fset (hb_started b) \<subseteq> fset (hb_started b') \<and>
     (hr_outcome r = HelgenStarted \<longrightarrow> hr_campaign r |\<notin>| hb_started b \<and> hr_campaign r |\<in>| hb_started b'))"

lemma latched_cases: "hr_outcome r \<noteq> HelgenStarted \<Longrightarrow> latched b (b, r)"
  "latched b (observe_members build conn readiness committed i rs w b)"
  using observe_outcomes [of build conn readiness committed i rs w b, OF surjective_pairing]
  by (auto simp: latched_def case_prod_beta)

lemma adm_ends_any: "(\<And>x k' s'. adm_ends (h x) env (k', s') (\<lambda>_ _. True) H) \<Longrightarrow>
  adm_ends (adm_bind m h) env (k, s) (\<lambda>_ _. True) H"
  by (rule adm_ends_bind [where G = "\<lambda>_ _. True"]) (simp_all add: adm_ends_def split: sum.split prod.split)

lemma observe_latched: "adm_ends (observe_start build conn readiness committed b) env (0, s) (\<lambda>_ _. True) (\<lambda>x _. latched b x)"
proof -
  have stop: "latched b (b, no_start)" "latched b (b, no_start\<lparr>hr_campaign := i\<rparr>)" for i
    by (simp_all add: latched_cases no_start_def)
  show ?thesis
    unfolding observe_start_def adm_ends_steps
    by (auto simp: stop latched_cases(2) split: option.split intro!: adm_ends_any)
qed

lemma barrier_latched: "latched b (barrier_perform b x)"
proof (cases x)
  case (BarrierObserve build conn readiness committed env s)
  with observe_latched [of build conn readiness committed b env s, where 'a = unit] show ?thesis
    by (auto simp: adm_ends_def latched_cases(1) no_start_def split: prod.splits sum.splits unit.splits)
qed (simp add: latched_def barrier_disconnect_def no_start_def)

interpretation barrier: one_shot barrier_perform "\<lambda>_. True"
  "\<lambda>(x, r). hr_outcome r = HelgenStarted \<and> hr_campaign r = i" "\<lambda>b. i |\<in>| hb_started b" "\<lambda>_. False" for i
proof
  fix s x
  show "(case (x, snd (barrier_perform s x)) of (x, r) \<Rightarrow> hr_outcome r = HelgenStarted \<and> hr_campaign r = i) \<Longrightarrow>
      i |\<notin>| hb_started s \<and> \<not> False"
    "(case (x, snd (barrier_perform s x)) of (x, r) \<Rightarrow> hr_outcome r = HelgenStarted \<and> hr_campaign r = i) \<Longrightarrow>
      i |\<in>| hb_started (fst (barrier_perform s x))"
    "i |\<in>| hb_started s \<Longrightarrow> i |\<in>| hb_started (fst (barrier_perform s x))"
    using barrier_latched [of s x] by (auto simp: latched_def case_prod_beta)
qed

section \<open>Who waits for whom\<close>

text \<open>What is known of the connections whose builds were read.\<close>

definition is_present :: "(AdmissionRecord \<Rightarrow> HelgenBuildEvidence) \<Rightarrow> CampaignId \<Rightarrow> AdmissionRecord list \<Rightarrow> HelgenBuildEvidence \<Rightarrow> u64 \<Rightarrow> bool" where
  "is_present build i rs e c \<longleftrightarrow> (\<exists>r m. find_connection c rs = Some r \<and> cn_admitted r = Some m \<and> mi_campaign m = i \<and>
     mi_player m = cn_player r \<and> build r = e)"

lemma is_present_member:
  "find_connection c rs = Some r \<Longrightarrow> cn_admitted r = Some m \<Longrightarrow>
     is_present build i rs e c \<longleftrightarrow> mi_campaign m = i \<and> mi_player m = cn_player r \<and> build r = e"
  by (simp add: is_present_def)

lemma builds_read:
  "read_builds build i rs cs n missing = Inr (n', missing') \<Longrightarrow>
     n' = n + length (filter (is_present build i rs BuildApplied) cs) \<and>
     missing' = (missing \<and> list_all (is_present build i rs BuildMissing) cs)"
proof (induction cs arbitrary: n missing)
  case (Cons c cs)
  from Cons.prems obtain r m where member: "find_connection c rs = Some r" "cn_admitted r = Some m"
    "mi_campaign m = i" "cn_player r = mi_player m"
    and rest: "read_builds build i rs cs (if build r = BuildApplied then n + 1 else n) (missing \<and> build r = BuildMissing) = Inr (n', missing')"
    by (auto split: option.splits if_splits)
  from Cons.IH [OF rest] show ?case
    by (auto simp: is_present_member [OF member(1,2)] member(3,4))
qed simp

lemma started_members:
  assumes "observe_members build conn readiness committed i rs w b = (b', r)" "hr_outcome r = HelgenStarted"
  shows "length (get_admitted_connections i rs) = length (ws_roster w) \<and> list_all ps_present (ws_roster w) \<and>
    (list_all (is_present build i rs BuildApplied) (get_admitted_connections i rs) \<or>
     readiness \<and> committed \<and> list_all (is_present build i rs BuildMissing) (get_admitted_connections i rs) \<and>
       list_all (\<lambda>c. c = conn \<or> c |\<in>| hb_ready b i) (get_admitted_connections i rs))"
proof -
  let ?cs = "get_admitted_connections i rs" and ?n = "length (ws_roster w)"
  from assms obtain n missing b2 where read: "read_builds build i rs ?cs 0 True = Inr (n, missing)"
    "length ?cs = ?n" "\<not> list_ex (\<lambda>s. \<not> ps_present s) (ws_roster w)"
    "decide_start conn readiness committed i ?cs ?n n missing b = (b2, HelgenStarted)"
    by (auto simp: observe_members_def no_start_def Let_def split: if_splits sum.splits prod.splits)
  have "n = length (filter (is_present build i rs BuildApplied) ?cs)" "missing \<Longrightarrow> list_all (is_present build i rs BuildMissing) ?cs"
    using builds_read [OF read(1)] by auto
  with decide_outcomes(3) [OF read(4) refl] read(2,3) show ?thesis
    using all_filtered [of "is_present build i rs BuildApplied" ?cs] by (auto simp: list_all_iff list_ex_iff)
qed

text \<open>
  A start is reported only to a member of the campaign, while the campaign is active with a sealed roster of
  which every slot is present.
\<close>

lemma start_is_earned:
  "adm_ends (observe_start build conn readiness committed b) env (0, s) F (\<lambda>(b', r) s'.
     hr_outcome r = HelgenStarted \<longrightarrow> (\<exists>q m w. find_connection conn (as_connections s) = Some q \<and> cn_admitted q = Some m \<and>
       hr_campaign r = mi_campaign m \<and> gate_open (Some w) \<and>
       (b', r) = observe_members build conn readiness committed (mi_campaign m) (as_connections s) w b))"
    (is "adm_ends _ _ _ _ ?Q")
proof (cases "find_connection conn (as_connections s)")
  case None
  then show ?thesis by (simp add: observe_start_def adm_ends_steps no_start_def)
next
  case (Some q)
  show ?thesis
  proof (cases "cn_admitted q")
    case None
    with Some show ?thesis by (simp add: observe_start_def adm_ends_steps no_start_def)
  next
    case (Some m)
    have "adm_ends (if \<not> gate_open w then adm_ret (b, no_start\<lparr>hr_campaign := mi_campaign m\<rparr>)
        else adm_get (\<lambda>rs. observe_members build conn readiness committed (mi_campaign m) rs (the w) b)) env (k', s') F ?Q"
      if "as_connections s' = as_connections s" for w k' s'
    proof (cases "gate_open w")
      case True
      obtain b' r where run: "observe_members build conn readiness committed (mi_campaign m) (as_connections s) (the w) b = (b', r)"
        by fastforce
      from True obtain w' where w: "w = Some w'" by (cases w) (auto simp: gate_open_def)
      show ?thesis
        using True that run observe_outcomes [OF run] Some \<open>find_connection conn _ = Some q\<close> unfolding w by auto
    qed (simp add: no_start_def)
    with Some \<open>find_connection conn _ = Some q\<close> show ?thesis
      unfolding observe_start_def adm_ends_steps by (auto intro!: adm_ends_bind [OF snapshot_keeps])
  qed
qed

section \<open>Properties\<close>

text \<open>
  C19: The first scene starts once, and complete: when an observation starts it, every slot of the roster is
  present, as many connections are admitted as there are slots, and every one of them is admitted as
  its own player and either has its build applied or, with a committed checkpoint, has no build and is ready;
  it had not started before, and no later observation or disconnection starts it again.
\<close>

theorem scene_starts_once_and_complete:
  assumes "observe_members build conn readiness committed i rs w b = (b', r)" "hr_outcome r = HelgenStarted"
  shows "length (get_admitted_connections i rs) = length (ws_roster w) \<and> list_all ps_present (ws_roster w) \<and>
    (list_all (is_present build i rs BuildApplied) (get_admitted_connections i rs) \<or>
     readiness \<and> committed \<and> list_all (is_present build i rs BuildMissing) (get_admitted_connections i rs) \<and>
       list_all (\<lambda>c. c = conn \<or> c |\<in>| hb_ready b i) (get_admitted_connections i rs)) \<and>
    \<not> has_started i b \<and>
    filter (\<lambda>(x, r). hr_outcome r = HelgenStarted \<and> hr_campaign r = i) (run_replies barrier_perform b' xs) = []"
proof -
  have "i |\<notin>| hb_started b \<and> i |\<in>| hb_started b'" using observe_outcomes(2) [OF assms] by blast
  with barrier.grants_bounded [where s = b' and xs = xs and i = i] started_members [OF assms] show ?thesis
    by (simp add: has_started_def)
qed

definition example_member_record :: AdmissionRecord where
  "example_member_record = \<lparr>cn_connection = 7, cn_player = ''p'',
     cn_admitted = Some \<lparr>mi_campaign = ''c'', mi_slot = ''s'', mi_player = ''p'', mi_binding = ''b''\<rparr>, cn_previous = None\<rparr>"

definition example_active_snapshot :: WireSnapshot where
  "example_active_snapshot = \<lparr>ws_campaign = ''c'', ws_version = 2, ws_phase = 1, ws_runtime = kCampaignWireRuntimeActive,
     ws_sealed = True, ws_manager = ''p'',
     ws_roster = [\<lparr>ps_slot = ''s'', ps_player = ''p'', ps_ready = False, ps_present = True\<rparr>], ws_valid = True\<rparr>"

theorem scene_starts_once_and_complete_witness:
  "filter (\<lambda>(x, r). hr_outcome r = HelgenStarted \<and> hr_campaign r = ''c'') (run_replies barrier_perform
     (fst (observe_members (\<lambda>_. BuildMissing) 7 True True ''c'' [example_member_record] example_active_snapshot new_barrier))
     [BarrierDisconnect ''c'']) = []"
proof -
  have "hr_outcome (snd (observe_members (\<lambda>_. BuildMissing) 7 True True ''c'' [example_member_record]
      example_active_snapshot new_barrier)) = HelgenStarted"
    by (simp add: observe_members_def get_admitted_connections_def admitted_to_def example_member_record_def
        example_active_snapshot_def new_barrier_def no_start_def has_started_def decide_start_def)
  from scene_starts_once_and_complete [OF surjective_pairing this] show ?thesis by blast
qed

end
