(* ===== verification/Spec2Isabelle.thy ===== *)
theory Spec2Isabelle
  imports TradeAgreement StoreWrites RuntimeHistory CampaignCoreCodec RuntimeGate ClientRecovery NativeLoad CampaignBootstrap
    ClientSession ClientPolicies StoreGuarantees CreationProgress
    LobbyDirectory StartBarrier
begin

text \<open>
  Skyrim Together Reborn Enhanced, verified: the parts of the C++ program under \<open>src/Code\<close> that carry
  its own state and decisions, as Isabelle definitions that are translated from the source, with the
  theorems that make them correct. This theory imports the whole development.

  \<^bold>\<open>The program.\<close> A server and the clients in the players' games share one world. Two features have a
  logic of their own beyond replication. \<^emph>\<open>Trading\<close>: two players negotiate offers in a session; a locked
  session is turned into a plan of mutations, both clients apply it and report, the server commits
  the plan to the two inventories or, after a failure, reconciles both clients with absolute quantities.
  \<^emph>\<open>Campaigns\<close>: a fixed roster of players plays through a campaign that only the full roster may
  continue. The server keeps the campaign in a database (the store) behind a service that runs the
  state machine of the campaign, collective checkpoints and collective recoveries; the clients keep the
  other half of the protocols, the entry into a campaign, the load of native saves, and a gate that locks the
  game meanwhile.

  \<^bold>\<open>Theories and sources.\<close>

  \<^item> \<open>Prelude\<close>, \<open>Histories\<close>, \<open>Settlement\<close>: the machine integers, association lists, the allocation of
    identifiers, and the interfaces that several components implement: \<open>op_machine\<close> and
    \<open>reporting_machine\<close> (a component driven by operations), \<open>recorded_machine\<close> (a state and its past),
    \<open>one_shot\<close> (a permission given once), the settlement of two reports.
  \<^item> \<open>TradeTypes\<close>, \<open>TradeSession\<close>, \<open>TradeInventory\<close>, \<open>TradeApplication\<close>, \<open>TradeReconciliation\<close>:
    \<open>common/Trade\<close>, one theory for each of its classes. \<open>GameInventory\<close>: \<open>encoding/Structs/Inventory\<close>
    and \<open>GameId\<close>. \<open>TradeService\<close>: every handler of \<open>server/Services/TradeService.cpp\<close>.
    \<open>TradeCommit\<close>, \<open>TradeSlots\<close>, \<open>TradeInvariants\<close>, \<open>TradeFrames\<close>, \<open>TradeGuarantees\<close>, \<open>TradeAgreement\<close>: what a
    commit does to inventories, the invariant of the service, what the handlers leave alone, that they
    return, and that only the report which completes an agreement moves items.
  \<^item> \<open>CampaignState\<close>: \<open>campaign_runtime/CampaignState.cpp\<close>, the aggregate and its operations.
  \<^item> \<open>ByteCodec\<close>, \<open>CampaignCodec\<close>, \<open>CampaignCoreCodec\<close>, \<open>NativeSaveBundle\<close>: the binary formats of
    \<open>campaign_persistence/codec/CampaignCodec.cpp\<close>, \<open>campaign_runtime/CampaignCoreCodec.cpp\<close> and
    \<open>encoding/Structs/NativeSaveBundle.cpp\<close>. The locale \<open>codec\<close> is the contract of a writer and a reader.
  \<^item> \<open>StoreTables\<close>, \<open>StoreStatements\<close>, \<open>CampaignStore\<close>: \<open>campaign_persistence/sqlite\<close>, the tables with
    their constraints, the statements, and every load and mutation of the store. \<open>StoreFrames\<close>,
    \<open>StoreHistory\<close>, \<open>StoreLedger\<close>, \<open>StoreRetention\<close>, \<open>StoreRestore\<close>, \<open>StoreGuarantees\<close>,
    \<open>StoreOutbox\<close>, \<open>StoreWrites\<close>, \<open>StoreEffects\<close>, \<open>StoreProgress\<close>: weakest preconditions and frames of
    database programs; the journal, what is never lost, the outbox, atomicity with the exact tables that
    each mutation writes, what a mutation leaves of its campaign, and when a mutation goes through.
  \<^item> \<open>RuntimeStore\<close>, \<open>RuntimeCommands\<close>, \<open>RuntimeCheckpoints\<close>, \<open>RuntimeRecovery\<close>:
    \<open>campaign_runtime/CampaignRuntimeService.cpp\<close>, every handler. \<open>RuntimeAggregate\<close>, \<open>RuntimeFrames\<close>,
    \<open>RuntimeCampaign\<close>, \<open>RuntimeCreation\<close>, \<open>RuntimeRequests\<close>, \<open>RuntimeInvariants\<close>,
    \<open>RuntimeGuarantees\<close>, \<open>RuntimeContract\<close>: the campaign that the store holds, rules for handlers, the
    refinement of \<open>CampaignState\<close>, the service as a machine of requests, its invariant, its promises.
    \<open>RuntimeRevisions\<close>, \<open>RuntimeHistory\<close>: what checkpoints and restores make of the stored campaign, and
    what every request can make of it, in any order (the locale \<open>store_relation\<close>: what handlers keep).
    \<open>RuntimeProgress\<close>, \<open>CreationProgress\<close>: with a store that works, valid commands are applied and valid
    lobbies are created.
  \<^item> \<open>LobbyDirectory\<close>, \<open>GroupSpatialCondition\<close>, \<open>CampaignAdmission\<close>, \<open>AdmissionCommands\<close>, \<open>StartBarrier\<close>:
    \<open>campaign_protocol\<close>, every class of it: the join codes, the condition on where a group stands, the
    admission of connections to campaigns and the commands they may send, the start of the first scene.
    \<open>AdmissionRequests\<close>, \<open>AdmissionInvariant\<close>, \<open>AdmissionGuarantees\<close>: which requests of the campaign service
    each message makes and for whom, the invariant of the connections, what an admission means.
  \<^item> \<open>WireIdentity\<close>: \<open>encoding/Structs/Campaign.cpp\<close>. \<open>RuntimeGate\<close>: \<open>common/Campaign\<close>.
    \<open>ClientRecovery\<close>, \<open>NativeLoad\<close>, \<open>CampaignBootstrap\<close>, \<open>ClientSession\<close>, \<open>ClientPolicies\<close>: the
    state machines and policies of \<open>campaign_client\<close>.

  \<^bold>\<open>How the code is modelled.\<close> A class is a record and a method a function from the record to the new record
  and its result; a handler of the trade service takes and returns the whole service. The store is a
  program over the database that returns early with \<open>Inl\<close>; the campaign service is a program over the store
  and its two maps, in which each call of the store meets an environment of its own. A query fails as one
  statement, with the error the code has for a statement that cannot be prepared or bound; where the code
  tells the failure of the first step of a query for one row apart, it differs in the error code only
  (\<open>IntegrityFailure\<close> for \<open>DatabaseFailure\<close>). Integers are words of
  their width, strings are lists of bytes, payloads are lists of 8-bit words. Errors are values;
  message texts and log lines are left out. Threads appear where the code shares memory between them: the
  runtime gate is also a step relation over its atomic accesses, under every interleaving.

  \<^bold>\<open>How the parts fit together.\<close> The trade service calls the session, plan, application and reconciliation
  theories and commits to \<open>GameInventory\<close>; its invariant rests on theirs through interpretations of
  \<open>op_machine\<close>. The campaign service calls \<open>CampaignState\<close> for the decision, the core codec for
  the bytes and the store for the transaction; the theorem that a command refines the state machine joins the
  round trip of the codec, the effect of the store's mutation and the replay rules of its journal. The
  admission service stands before the campaign service: each of its operations is a sequence of requests
  of it, so what holds after any requests holds after any messages, and the start barrier reads both.

  \<^bold>\<open>What the groups of lemmas show.\<close> Invariants of every reachable state (trade service, campaign, store,
  campaign service, client machines); functional behaviour of each operation, errors included;
  refinement (campaign operations against a life cycle, gate programs against gate operations, commands and
  all requests in any order against the campaign); round trips of every format and of a creation and a
  restore; isolation of campaigns and players; that handlers and sweeps return and that valid commands go
  through; and where the code does not do what it means to, a theorem that shows it.

  \<^bold>\<open>Bounds and fuel.\<close> The allocators of identifiers loop until a free one is found: they return \<open>None\<close>
  exactly when every identifier is taken, and the handlers are shown to return when one is free. A gate
  program takes at most six accesses. The codecs write at most 4 MB (campaigns), 64 KB (core state) and
  256 bytes (native saves), and are shown to stay below. A roster has at most ten slots, so the reader of a
  creation has fuel ten and fails like the code beyond. The search through the restores of a journal has
  one step for each of its rows, as the loop of the code has. Everything else is structural.

  \<^bold>\<open>Parameters.\<close> \<open>env_io\<close> and \<open>env_fault\<close> say which SQL statements fail and which faults are injected, for
  every call of the store separately; \<open>env_now\<close> is its clock; \<open>sha256\<close> is the hash of CryptoPP; \<open>adm_id\<close>
  makes the ids of the admission service and \<open>gen\<close> the join codes; the start barrier is given a reader of
  a player's build. No theorem assumes anything of them but where its statement says so.

  \<^bold>\<open>Not modelled.\<close> SQLite beyond the statements (opening, migration and integrity checks of the file),
  C++ exceptions (every handler that catches them answers a persistence failure; an allocation
  that fails half way is not considered), the bit streams of the TiltedCore submodule and with them the
  serialization of messages, the services of the server that copy game entities between packets and the
  entt registry, the packet handlers of \<open>CampaignService\<close>, the party service, the identity
  store and caches of the client (files), the hooks into the game, the launcher, the user interface, and vendored code.
\<close>

end
